(* ===== verification/HK_Prelude.thy ===== *)
theory HK_Prelude
  imports Main
    "HOL-Library.Char_ord"
    "HOL-Library.List_Lexorder"
    "HOL-Library.Product_Lexorder"
    "HOL-Library.Multiset"
    "HOL-Library.AList"
begin

text \<open>
  The prelude of the HardKAS development: what the components share of the language the code
  is written in, and the generic lemmas about it.

  \<^item> \<^emph>\<open>Errors.\<close> A call that throws is a value \<open>Inl msg\<close>, a call that returns \<open>Inr v\<close>;
    \<open>msg\<close> is the message of the \<open>Error\<close> object (or its code, where the code has one), with
    dashes and quotes outside ASCII replaced by ASCII ones.
  \<^item> \<^emph>\<open>Strings.\<close> A JavaScript string is a sequence of code units; a \<^typ>\<open>string\<close> is one whose
    code units are below 256. The order of \<open>HOL-Library.List_Lexorder\<close> over
    \<open>HOL-Library.Char_ord\<close> is the code-unit order of the operator \<open><\<close>.
  \<^item> \<^emph>\<open>Numbers.\<close> A \<open>bigint\<close> is an \<^typ>\<open>int\<close>. \<open>toString\<close> is \<open>int_str\<close> and \<open>BigInt(s)\<close> is
    \<open>BigInt\<close>, which is \<^const>\<open>None\<close> where JavaScript throws a \<open>SyntaxError\<close>.
  \<^item> \<^emph>\<open>Maps, sets and objects\<close> keep their insertion order: association lists updated by
    \<^const>\<open>AList.update\<close>, which overwrites in place or appends.
  \<^item> \<^emph>\<open>Sorting.\<close> \<open>Array.prototype.sort\<close> is stable: \<open>js_sort\<close> is the stable sort of a
    comparator, and the locales below say what a consistent comparator guarantees.
\<close>

named_theorems hk_defs "definitions of the model that automation may unfold"

subsection \<open>Results that may throw\<close>

type_synonym 'a result = "string + 'a"

fun bindE :: "'a result \<Rightarrow> ('a \<Rightarrow> 'b result) \<Rightarrow> 'b result" where
  "bindE (Inl e) f = Inl e"
| "bindE (Inr x) f = f x"

fun is_ok :: "'a result \<Rightarrow> bool" where
  "is_ok (Inl e) = False"
| "is_ok (Inr x) = True"

lemma bindE_Inr [simp]: "bindE m f = Inr y \<longleftrightarrow> (\<exists>x. m = Inr x \<and> f x = Inr y)"
  by (cases m) auto

lemma bindE_Inl: "bindE m f = Inl e \<longleftrightarrow> m = Inl e \<or> (\<exists>x. m = Inr x \<and> f x = Inl e)"
  by (cases m) auto

lemma is_ok_iff: "is_ok m \<longleftrightarrow> (\<exists>x. m = Inr x)"
  by (cases m) auto

definition of_opt :: "string \<Rightarrow> 'a option \<Rightarrow> 'a result" where
  "of_opt e x = (case x of None \<Rightarrow> Inl e | Some v \<Rightarrow> Inr v)"

lemma of_opt_simps [simp]:
  "of_opt e None = Inl e" "of_opt e (Some v) = Inr v"
  by (simp_all add: of_opt_def)

lemma of_opt_eq_Inr [simp]: "of_opt e x = Inr v \<longleftrightarrow> x = Some v"
  by (cases x) auto

text \<open>A loop that stops at the first element whose body throws.\<close>

fun mapE :: "('a \<Rightarrow> 'b result) \<Rightarrow> 'a list \<Rightarrow> 'b list result" where
  "mapE f [] = Inr []"
| "mapE f (x # xs) = bindE (f x) (\<lambda>y. bindE (mapE f xs) (\<lambda>ys. Inr (y # ys)))"

lemma mapE_total: "(\<And>x. x \<in> set xs \<Longrightarrow> f x = Inr (g x)) \<Longrightarrow> mapE f xs = Inr (map g xs)"
  by (induction xs) auto

subsection \<open>Strings and numbers\<close>

definition is_digit :: "char \<Rightarrow> bool" where
  "is_digit c \<longleftrightarrow> 48 \<le> (of_char c :: nat) \<and> (of_char c :: nat) \<le> 57"

definition digit_char :: "nat \<Rightarrow> char" where
  "digit_char d = char_of (48 + d)"

definition digit_val :: "char \<Rightarrow> nat" where
  "digit_val c = of_char c - 48"

fun nat_str :: "nat \<Rightarrow> string" where
  "nat_str n = (if n < 10 then [digit_char n] else nat_str (n div 10) @ [digit_char (n mod 10)])"

declare nat_str.simps [simp del]

definition int_str :: "int \<Rightarrow> string" where
  "int_str i = (if i < 0 then CHR ''-'' # nat_str (nat (- i)) else nat_str (nat i))"

definition digits_val :: "string \<Rightarrow> nat" where
  "digits_val s = foldl (\<lambda>a c. a * 10 + digit_val c) 0 s"

definition is_ws :: "char \<Rightarrow> bool" where
  "is_ws c \<longleftrightarrow> (let n = of_char c :: nat in (9 \<le> n \<and> n \<le> 13) \<or> n = 32 \<or> n = 160)"

definition js_trim :: "string \<Rightarrow> string" where
  "js_trim s = rev (dropWhile is_ws (rev (dropWhile is_ws s)))"

definition hex_val :: "char \<Rightarrow> nat option" where
  "hex_val c = (let n = of_char c :: nat in
     if 48 \<le> n \<and> n \<le> 57 then Some (n - 48)
     else if 65 \<le> n \<and> n \<le> 70 then Some (n - 55)
     else if 97 \<le> n \<and> n \<le> 102 then Some (n - 87)
     else None)"

fun radix_val :: "nat \<Rightarrow> string \<Rightarrow> nat \<Rightarrow> nat option" where
  "radix_val b [] a = Some a"
| "radix_val b (c # cs) a =
     (case hex_val c of None \<Rightarrow> None
      | Some d \<Rightarrow> if d < b then radix_val b cs (a * b + d) else None)"

text \<open>\<open>BigInt(s)\<close> of a string: white space is trimmed, the empty string is 0, a decimal may have
  a sign, \<open>0x\<close>, \<open>0o\<close> and \<open>0b\<close> literals have none; anything else throws.\<close>

definition decimal_val :: "string \<Rightarrow> int option" where
  "decimal_val s = (if s \<noteq> [] \<and> list_all is_digit s then Some (int (digits_val s)) else None)"

definition BigInt :: "string \<Rightarrow> int option" where
  "BigInt s = (let t = js_trim s in
     case t of
       [] \<Rightarrow> Some 0
     | c # r \<Rightarrow>
         if c = CHR ''-'' then map_option uminus (decimal_val r)
         else if c = CHR ''+'' then decimal_val r
         else if c = CHR ''0'' \<and> r \<noteq> [] \<and> hd r \<in> {CHR ''x'', CHR ''X''} then
           (if tl r = [] then None else map_option int (radix_val 16 (tl r) 0))
         else if c = CHR ''0'' \<and> r \<noteq> [] \<and> hd r \<in> {CHR ''o'', CHR ''O''} then
           (if tl r = [] then None else map_option int (radix_val 8 (tl r) 0))
         else if c = CHR ''0'' \<and> r \<noteq> [] \<and> hd r \<in> {CHR ''b'', CHR ''B''} then
           (if tl r = [] then None else map_option int (radix_val 2 (tl r) 0))
         else decimal_val t)"

lemma of_char_digit_char [simp]: "d < 10 \<Longrightarrow> (of_char (digit_char d) :: nat) = 48 + d"
  by (simp add: digit_char_def)

lemma digit_char_props [simp]:
  assumes "d < 10"
  shows "is_digit (digit_char d)" "digit_val (digit_char d) = d" "\<not> is_ws (digit_char d)"
  using assms by (auto simp: is_digit_def digit_val_def is_ws_def Let_def)

lemma digits_val_append: "digits_val (s @ t) = digits_val s * 10 ^ length t + digits_val t"
proof (induction t rule: rev_induct)
  case Nil
  then show ?case by (simp add: digits_val_def)
next
  case (snoc c t)
  then show ?case by (simp add: digits_val_def algebra_simps)
qed

lemma digits_val_snoc [simp]: "digits_val (s @ [c]) = digits_val s * 10 + digit_val c"
  by (simp add: digits_val_def)

lemma digits_val_Nil [simp]: "digits_val [] = 0"
  by (simp add: digits_val_def)

lemma digits_val_nat_str [simp]: "digits_val (nat_str n) = n"
proof (induction n rule: nat_str.induct)
  case (1 n)
  show ?case
  proof (cases "n < 10")
    case True
    then show ?thesis by (simp add: nat_str.simps [of n] digits_val_def)
  next
    case False
    with 1 show ?thesis by (simp add: nat_str.simps [of n])
  qed
qed

lemma nat_str_digits [simp]: "list_all is_digit (nat_str n)"
proof (induction n rule: nat_str.induct)
  case (1 n)
  then show ?case by (cases "n < 10") (simp_all add: nat_str.simps [of n])
qed

lemma nat_str_nonempty [simp]: "nat_str n \<noteq> []"
  by (subst nat_str.simps) simp

lemma nat_str_inj [simp]: "nat_str m = nat_str n \<longleftrightarrow> m = n"
  by (metis digits_val_nat_str)

lemma is_digit_not_ws: "is_digit c \<Longrightarrow> \<not> is_ws c"
  by (auto simp: is_digit_def is_ws_def Let_def)

lemma js_trim_id:
  assumes "s = [] \<or> (\<not> is_ws (hd s) \<and> \<not> is_ws (last s))"
  shows "js_trim s = s"
proof (cases "s = []")
  case True
  then show ?thesis by (simp add: js_trim_def)
next
  case False
  with assms have "dropWhile is_ws s = s" and "dropWhile is_ws (rev s) = rev s"
    by (auto simp: dropWhile_eq_self_iff hd_rev)
  then show ?thesis by (simp add: js_trim_def)
qed

lemma js_trim_digits [simp]: "list_all is_digit s \<Longrightarrow> js_trim s = s"
  by (rule js_trim_id) (auto simp: list_all_iff is_digit_not_ws)

lemma decimal_val_nat_str [simp]: "decimal_val (nat_str n) = Some (int n)"
  by (simp add: decimal_val_def)

text \<open>A numeral has no leading zero, so no numeral reads as a literal of another base.\<close>

lemma hd_nat_str: "n > 0 \<Longrightarrow> hd (nat_str n) \<noteq> CHR ''0''"
proof (induction n rule: nat_str.induct)
  case (1 n)
  show ?case
  proof (cases "n < 10")
    case True
    have "digit_char n \<noteq> CHR ''0''"
    proof
      assume "digit_char n = CHR ''0''"
      then have "(of_char (digit_char n) :: nat) = of_char CHR ''0''" by (rule arg_cong)
      with True "1.prems" show False by simp
    qed
    with True show ?thesis by (simp add: nat_str.simps [of n])
  next
    case False
    with 1 show ?thesis by (simp add: nat_str.simps [of n])
  qed
qed

lemma is_digit_simps [simp]:
  "\<not> is_digit CHR ''-''" "\<not> is_digit CHR ''+''" "\<not> is_digit CHR ''x''" "\<not> is_digit CHR ''X''"
  "\<not> is_digit CHR ''o''" "\<not> is_digit CHR ''O''" "\<not> is_digit CHR ''b''" "\<not> is_digit CHR ''B''"
  "\<not> is_digit CHR ''.''" "\<not> is_digit CHR '':''" "is_digit CHR ''0''"
  by (simp_all add: is_digit_def)

lemma BigInt_digits:
  assumes "s \<noteq> []" "list_all is_digit s"
  shows "BigInt s = Some (int (digits_val s))"
proof -
  obtain c r where s: "s = c # r" using assms(1) by (cases s) auto
  have c: "c \<noteq> CHR ''-''" "c \<noteq> CHR ''+''"
    and r: "r \<noteq> [] \<Longrightarrow> hd r \<notin> {CHR ''x'', CHR ''X'', CHR ''o'', CHR ''O'', CHR ''b'', CHR ''B''}"
    using assms(2) s by (auto simp: list_all_iff hd_in_set neq_Nil_conv)
  show ?thesis
    using assms s c r by (auto simp: BigInt_def Let_def decimal_val_def)
qed

lemma BigInt_nat_str [simp]: "BigInt (nat_str n) = Some (int n)"
  by (simp add: BigInt_digits)

lemma BigInt_int_str [simp]: "BigInt (int_str i) = Some i"
proof (cases "i < 0")
  case True
  have "\<not> is_ws (last (nat_str (nat (- i))))"
    using nat_str_digits [of "nat (- i)"] by (auto simp: is_digit_not_ws list_all_iff)
  then have "js_trim (CHR ''-'' # nat_str (nat (- i))) = CHR ''-'' # nat_str (nat (- i))"
    by (intro js_trim_id) (auto simp: is_ws_def [of "CHR ''-''"] Let_def)
  with True show ?thesis by (simp add: BigInt_def int_str_def)
next
  case False
  then show ?thesis by (simp add: int_str_def)
qed

text \<open>Code equations over the binary numerals of \<^typ>\<open>int\<close>, so that witnesses compute with large numbers.\<close>

function pos_str :: "int \<Rightarrow> string" where
  "pos_str i = (if i < 10 then [digit_char (nat i)] else pos_str (i div 10) @ [digit_char (nat (i mod 10))])"
  by auto
termination by (relation "measure nat") auto

declare pos_str.simps [simp del]

lemma pos_str_nat_str: "0 \<le> i \<Longrightarrow> pos_str i = nat_str (nat i)"
proof (induction i rule: pos_str.induct)
  case (1 i)
  show ?case
  proof (cases "i < 10")
    case True
    then show ?thesis using 1 by (simp add: pos_str.simps [of i] nat_str.simps [of "nat i"])
  next
    case False
    then show ?thesis using 1
      by (simp add: pos_str.simps [of i] nat_str.simps [of "nat i"] nat_div_distrib nat_mod_distrib)
  qed
qed

lemma int_str_code [code]: "int_str i = (if i < 0 then CHR ''-'' # pos_str (- i) else pos_str i)"
  by (simp add: int_str_def pos_str_nat_str)

lemma digits_val_int: "int (digits_val s) = foldl (\<lambda>a c. a * 10 + int (digit_val c)) 0 s"
  by (induction s rule: rev_induct) (simp_all add: digits_val_def)

lemma decimal_val_code [code]:
  "decimal_val s = (if s \<noteq> [] \<and> list_all is_digit s then Some (foldl (\<lambda>a c. a * 10 + int (digit_val c)) 0 s) else None)"
  by (simp add: decimal_val_def digits_val_int)

lemma int_str_inj [simp]: "int_str i = int_str j \<longleftrightarrow> i = j"
  by (metis BigInt_int_str option.inject)

lemma int_str_nonempty [simp]: "int_str i \<noteq> []"
  by (simp add: int_str_def)

lemma int_str_no_colon [simp]: "CHR '':'' \<notin> set (int_str i)"
  using nat_str_digits [of "nat i"] nat_str_digits [of "nat (- i)"]
  by (auto simp: int_str_def list_all_iff)

text \<open>\<open>startsWith\<close>, \<open>toLowerCase\<close> on code units below 256, and the hexadecimal strings of a fixed length.\<close>

definition starts_with :: "string \<Rightarrow> string \<Rightarrow> bool" where
  "starts_with s p \<longleftrightarrow> take (length p) s = p"

lemma starts_with_append [simp]: "starts_with (p @ s) p"
  by (simp add: starts_with_def)

lemma starts_with_iff: "starts_with s p \<longleftrightarrow> (\<exists>r. s = p @ r)"
  by (metis append_take_drop_id starts_with_append starts_with_def)

definition to_lower :: "char \<Rightarrow> char" where
  "to_lower c = (let n = of_char c :: nat in
     if (65 \<le> n \<and> n \<le> 90) \<or> (192 \<le> n \<and> n \<le> 222 \<and> n \<noteq> 215) then char_of (n + 32) else c)"

definition is_hex :: "char \<Rightarrow> bool" where
  "is_hex c \<longleftrightarrow> hex_val c \<noteq> None"

definition is_hex64 :: "string \<Rightarrow> bool" where
  "is_hex64 s \<longleftrightarrow> length s = 64 \<and> list_all is_hex s"

subsection \<open>Sorting with a comparator\<close>

type_synonym 'a comparator = "'a \<Rightarrow> 'a \<Rightarrow> int"

fun insert_by :: "'a comparator \<Rightarrow> 'a \<Rightarrow> 'a list \<Rightarrow> 'a list" where
  "insert_by cmp x [] = [x]"
| "insert_by cmp x (y # ys) = (if cmp x y \<le> 0 then x # y # ys else y # insert_by cmp x ys)"

fun js_sort :: "'a comparator \<Rightarrow> 'a list \<Rightarrow> 'a list" where
  "js_sort cmp [] = []"
| "js_sort cmp (x # xs) = insert_by cmp x (js_sort cmp xs)"

lemma mset_insert_by [simp]: "mset (insert_by cmp x xs) = add_mset x (mset xs)"
  by (induction xs) auto

lemma mset_js_sort [simp]: "mset (js_sort cmp xs) = mset xs"
  by (induction xs) auto

lemma set_js_sort [simp]: "set (js_sort cmp xs) = set xs"
  by (metis mset_js_sort set_mset_mset)

lemma length_js_sort [simp]: "length (js_sort cmp xs) = length xs"
  by (metis mset_js_sort size_mset)

lemma distinct_js_sort [simp]: "distinct (js_sort cmp xs) = distinct xs"
  by (metis mset_eq_imp_distinct_iff mset_js_sort)

lemma js_sort_eq_Nil [simp]: "js_sort cmp xs = [] \<longleftrightarrow> xs = []"
  by (metis length_0_conv length_js_sort)

text \<open>What a comparator owes to \<open>sort\<close>: a total preorder. Then the result is ordered, sorting is
  idempotent, and where equal keys mean equal elements the result depends on the elements
  only, never on the order they were listed in.\<close>

locale js_comparator =
  fixes cmp :: "'a comparator"
  assumes cmp_antisym: "sgn (cmp x y) = - sgn (cmp y x)"
    and cmp_trans: "cmp x y \<le> 0 \<Longrightarrow> cmp y z \<le> 0 \<Longrightarrow> cmp x z \<le> 0"
begin

lemma cmp_refl: "cmp x x = 0"
  using cmp_antisym [of x x] by (simp add: sgn_if split: if_splits)

lemma cmp_flip: "cmp x y > 0 \<longleftrightarrow> cmp y x < 0"
  using cmp_antisym [of x y] by (auto simp: sgn_if split: if_splits)

lemma cmp_total: "\<not> cmp x y \<le> 0 \<Longrightarrow> cmp y x \<le> 0"
  using cmp_flip [of x y] by simp

lemma insert_by_sorted:
  "sorted_wrt (\<lambda>x y. cmp x y \<le> 0) xs \<Longrightarrow> sorted_wrt (\<lambda>x y. cmp x y \<le> 0) (insert_by cmp x xs)"
proof (induction xs)
  case Nil
  then show ?case by simp
next
  case (Cons y ys)
  have mem: "set (insert_by cmp x ys) = insert x (set ys)"
    by (metis mset_insert_by set_mset_add_mset_insert set_mset_mset)
  show ?case
  proof (cases "cmp x y \<le> 0")
    case True
    with Cons.prems show ?thesis by (auto intro: cmp_trans)
  next
    case False
    with Cons mem show ?thesis by (auto dest: cmp_total)
  qed
qed

lemma js_sort_sorted: "sorted_wrt (\<lambda>x y. cmp x y \<le> 0) (js_sort cmp xs)"
  by (induction xs) (auto intro: insert_by_sorted)

lemma insert_by_head: "\<forall>y \<in> set xs. cmp x y \<le> 0 \<Longrightarrow> insert_by cmp x xs = x # xs"
  by (cases xs) auto

lemma js_sort_id: "sorted_wrt (\<lambda>x y. cmp x y \<le> 0) xs \<Longrightarrow> js_sort cmp xs = xs"
  by (induction xs) (auto intro: insert_by_head)

lemma js_sort_idem: "js_sort cmp (js_sort cmp xs) = js_sort cmp xs"
  by (rule js_sort_id) (rule js_sort_sorted)

lemma sorted_unique:
  assumes "sorted_wrt (\<lambda>x y. cmp x y \<le> 0) xs" "sorted_wrt (\<lambda>x y. cmp x y \<le> 0) ys"
    and "mset xs = mset ys"
    and "\<forall>x \<in> set xs. \<forall>y \<in> set xs. cmp x y = 0 \<longrightarrow> x = y"
  shows "xs = ys"
  using assms
proof (induction xs arbitrary: ys)
  case Nil
  then show ?case by simp
next
  case (Cons x xs)
  then obtain y zs where ys: "ys = y # zs" by (cases ys) auto
  have mem: "set (x # xs) = set ys" by (metis Cons.prems(3) set_mset_mset)
  have "y \<in> set (x # xs)" "x \<in> set ys" using mem ys by auto
  then have "cmp x y \<le> 0" "cmp y x \<le> 0"
    using Cons.prems(1,2) ys by (auto simp: cmp_refl)
  then have "cmp x y = 0" using cmp_flip [of y x] by linarith
  then have "x = y" using Cons.prems(4) mem ys by auto
  with Cons ys show ?case by auto
qed

lemma js_sort_perm:
  assumes "mset xs = mset ys" "\<forall>x \<in> set xs. \<forall>y \<in> set xs. cmp x y = 0 \<longrightarrow> x = y"
  shows "js_sort cmp xs = js_sort cmp ys"
  by (rule sorted_unique) (use assms in \<open>auto simp: js_sort_sorted\<close>)

end

text \<open>The comparators of the code compare keys of a linear order, most significant first.\<close>

locale keyed_comparator =
  fixes cmp :: "'a comparator" and key :: "'a \<Rightarrow> 'k :: linorder"
  assumes cmp_key: "cmp x y = (if key x < key y then -1 else if key y < key x then 1 else 0)"

sublocale keyed_comparator \<subseteq> js_comparator cmp
  by unfold_locales (auto simp: cmp_key split: if_splits)

context keyed_comparator
begin

lemma cmp_le_key: "cmp x y \<le> 0 \<longleftrightarrow> key x \<le> key y"
  by (auto simp: cmp_key not_less)

lemma cmp_eq_key: "cmp x y = 0 \<longleftrightarrow> key x = key y"
  by (auto simp: cmp_key)

lemma cmp_gt_key: "cmp x y > 0 \<longleftrightarrow> key y < key x"
  by (auto simp: cmp_key)

lemma js_sort_keys_sorted: "sorted (map key (js_sort cmp xs))"
  using js_sort_sorted [of xs] by (simp add: sorted_map cmp_le_key)

end

text \<open>A comparator that may throw: \<open>js_sortE\<close> passes the first error on. Where no comparison of two
  elements throws it is \<open>js_sort\<close>.\<close>

fun insertE :: "('a \<Rightarrow> 'a \<Rightarrow> int result) \<Rightarrow> 'a \<Rightarrow> 'a list \<Rightarrow> 'a list result" where
  "insertE cmp x [] = Inr [x]"
| "insertE cmp x (y # ys) =
     bindE (cmp x y) (\<lambda>c. if c \<le> 0 then Inr (x # y # ys) else bindE (insertE cmp x ys) (\<lambda>zs. Inr (y # zs)))"

fun js_sortE :: "('a \<Rightarrow> 'a \<Rightarrow> int result) \<Rightarrow> 'a list \<Rightarrow> 'a list result" where
  "js_sortE cmp [] = Inr []"
| "js_sortE cmp (x # xs) = bindE (js_sortE cmp xs) (\<lambda>ys. insertE cmp x ys)"

lemma insertE_mset: "insertE cmp x xs = Inr ys \<Longrightarrow> mset ys = add_mset x (mset xs)"
  by (induction xs arbitrary: ys) (auto split: if_splits)

lemma js_sortE_mset: "js_sortE cmp xs = Inr ys \<Longrightarrow> mset ys = mset xs"
  by (induction xs arbitrary: ys) (auto dest: insertE_mset)

lemma js_sortE_set: "js_sortE cmp xs = Inr ys \<Longrightarrow> set ys = set xs"
  by (metis js_sortE_mset set_mset_mset)

lemma insertE_total:
  "\<forall>y \<in> set ys. cmp x y = Inr (c x y) \<Longrightarrow> insertE cmp x ys = Inr (insert_by c x ys)"
  by (induction ys) auto

lemma js_sortE_total:
  "\<forall>x \<in> set xs. \<forall>y \<in> set xs. cmp x y = Inr (c x y) \<Longrightarrow> js_sortE cmp xs = Inr (js_sort c xs)"
proof (induction xs)
  case (Cons x xs)
  then have "js_sortE cmp xs = Inr (js_sort c xs)" by simp
  moreover have "insertE cmp x (js_sort c xs) = Inr (insert_by c x (js_sort c xs))"
    using Cons.prems by (intro insertE_total) simp
  ultimately show ?case by simp
qed simp

subsection \<open>Association lists\<close>

text \<open>\<open>m.get(x) || x\<close> and \<open>s || d\<close> on strings: the empty string counts as absent.\<close>

definition js_or :: "string option \<Rightarrow> string \<Rightarrow> string" where
  "js_or o' d = (case o' of None \<Rightarrow> d | Some v \<Rightarrow> if v = [] then d else v)"

lemma js_or_simps [simp]: "js_or None d = d" "v \<noteq> [] \<Longrightarrow> js_or (Some v) d = v"
  by (simp_all add: js_or_def)

definition deterministicCompare :: "string \<Rightarrow> string \<Rightarrow> int" where
  "deterministicCompare a b = (if a < b then -1 else if a > b then 1 else 0)"

definition bigE :: "string \<Rightarrow> int result" where
  "bigE s = of_opt (''Cannot convert '' @ s @ '' to a BigInt'') (BigInt s)"

lemma bigE_int_str [simp]: "bigE (int_str i) = Inr i"
  by (simp add: bigE_def)

lemma map_of_update [simp]: "map_of (AList.update k v al) = (map_of al)(k \<mapsto> v)"
  by (simp add: update_conv')

lemma map_of_None_iff_keys: "map_of al k = None \<longleftrightarrow> k \<notin> fst ` set al"
  by (simp add: map_of_eq_None_iff)

subsection \<open>Sums and lists\<close>

lemma sum_list_map_if:
  fixes f g :: "'a \<Rightarrow> int"
  shows "(\<Sum>x\<leftarrow>xs. if P x then f x else g x) = (\<Sum>x\<leftarrow>filter P xs. f x) + (\<Sum>x\<leftarrow>filter (\<lambda>x. \<not> P x) xs. g x)"
  by (induction xs) auto

lemma sum_list_mset_cong:
  fixes f :: "'a \<Rightarrow> int"
  shows "mset xs = mset ys \<Longrightarrow> (\<Sum>x\<leftarrow>xs. f x) = (\<Sum>x\<leftarrow>ys. f x)"
  by (metis mset_map sum_mset_sum_list)

lemma append_colon_inj:
  "\<lbrakk>CHR '':'' \<notin> set b; CHR '':'' \<notin> set d; a @ CHR '':'' # b = c @ CHR '':'' # d\<rbrakk> \<Longrightarrow> a = c \<and> b = d"
proof (induction a arbitrary: c)
  case Nil
  then show ?case by (cases c) auto
next
  case (Cons x a)
  then show ?case by (cases c) auto
qed

end
