(* ===== verification/HK_Ghostdag.thy ===== *)
theory HK_Ghostdag
  imports HK_Prelude
begin

text \<open>
  The data of the GHOSTDAG simulator: \<open>packages/simulator/src/ghostdag-types.ts\<close> (blocks and
  GHOSTDAG data), \<open>ghostdag-store.ts\<close> (the in-memory store: three maps written together) and
  \<open>ordering.ts\<close> (the block order \<open>(blueWork, hash)\<close> and the selected parent).

  The store's promise to the engine is the locale \<open>ghostdag_store\<close>; the block order is an
  instance of the prelude's \<open>keyed_comparator\<close>.
\<close>

type_synonym BlockHash = string
type_synonym BlueWorkType = int

definition GENESIS_HASH :: BlockHash where
  "GENESIS_HASH = replicate 64 CHR ''0''"

record GhostdagData =
  blueScore :: int
  blueWork :: BlueWorkType
  selectedParent :: BlockHash
  mergesetBlues :: "BlockHash list"
  mergesetReds :: "BlockHash list"
  bluesAnticoneSizes :: "int list"

record CompactGhostdagData =
  c_blueScore :: int
  c_blueWork :: BlueWorkType
  c_selectedParent :: BlockHash

record SimBlockHeader =
  hdr_hash :: BlockHash
  hdr_parents :: "BlockHash list"
  hdr_timestampUs :: int
  hdr_minerId :: int
  hdr_bits :: int
  hdr_nonce :: int

record SimBlock =
  header :: SimBlockHeader
  ghostdag_of :: "GhostdagData option"

definition blockHash :: "SimBlock \<Rightarrow> BlockHash" where
  "blockHash b = hdr_hash (header b)"

definition blockParents :: "SimBlock \<Rightarrow> BlockHash list" where
  "blockParents b = hdr_parents (header b)"

definition blockBlueWork :: "SimBlock \<Rightarrow> BlueWorkType" where
  "blockBlueWork b = (case ghostdag_of b of None \<Rightarrow> 0 | Some g \<Rightarrow> blueWork g)"

definition blockBlueScore :: "SimBlock \<Rightarrow> int" where
  "blockBlueScore b = (case ghostdag_of b of None \<Rightarrow> 0 | Some g \<Rightarrow> blueScore g)"

definition MAX_WORK :: int where
  "MAX_WORK = 2 ^ 128"

text \<open>\<open>bigint\<close> division truncates towards zero and throws on a zero divisor.\<close>

definition bigint_div :: "int \<Rightarrow> int \<Rightarrow> int result" where
  "bigint_div a b = (if b = 0 then Inl ''Division by zero'' else Inr (sgn a * sgn b * (\<bar>a\<bar> div \<bar>b\<bar>)))"

definition headerWork :: "SimBlockHeader \<Rightarrow> BlueWorkType result" where
  "headerWork h = bigint_div MAX_WORK (hdr_bits h + 1)"

definition compactFromFull :: "GhostdagData \<Rightarrow> CompactGhostdagData" where
  "compactFromFull g = \<lparr>c_blueScore = blueScore g, c_blueWork = blueWork g, c_selectedParent = selectedParent g\<rparr>"

subsection \<open>The store\<close>

record GhostdagStore =
  st_full :: "(BlockHash \<times> GhostdagData) list"
  st_compact :: "(BlockHash \<times> CompactGhostdagData) list"
  st_parents :: "(BlockHash \<times> BlockHash list) list"

definition newGhostdagStore :: GhostdagStore where
  "newGhostdagStore = \<lparr>st_full = [], st_compact = [], st_parents = []\<rparr>"

definition store_insert :: "BlockHash \<Rightarrow> GhostdagData \<Rightarrow> BlockHash list \<Rightarrow> GhostdagStore \<Rightarrow> GhostdagStore" where
  "store_insert h d ps s =
     s\<lparr>st_compact := AList.update h (compactFromFull d) (st_compact s),
       st_full := AList.update h d (st_full s),
       st_parents := AList.update h ps (st_parents s)\<rparr>"

definition getData :: "GhostdagStore \<Rightarrow> BlockHash \<Rightarrow> GhostdagData option" where
  "getData s h = map_of (st_full s) h"

definition getBlueScore :: "GhostdagStore \<Rightarrow> BlockHash \<Rightarrow> int option" where
  "getBlueScore s h = map_option c_blueScore (map_of (st_compact s) h)"

definition getBlueWork :: "GhostdagStore \<Rightarrow> BlockHash \<Rightarrow> BlueWorkType option" where
  "getBlueWork s h = map_option c_blueWork (map_of (st_compact s) h)"

definition getSelectedParent :: "GhostdagStore \<Rightarrow> BlockHash \<Rightarrow> BlockHash option" where
  "getSelectedParent s h = map_option c_selectedParent (map_of (st_compact s) h)"

definition store_has :: "GhostdagStore \<Rightarrow> BlockHash \<Rightarrow> bool" where
  "store_has s h \<longleftrightarrow> map_of (st_compact s) h \<noteq> None"

definition getParents :: "GhostdagStore \<Rightarrow> BlockHash \<Rightarrow> BlockHash list option" where
  "getParents s h = map_of (st_parents s) h"

definition store_size :: "GhostdagStore \<Rightarrow> nat" where
  "store_size s = length (st_full s)"

definition genesisGhostdagData :: "BlockHash \<Rightarrow> GhostdagData" where
  "genesisGhostdagData g =
     \<lparr>blueScore = 0, blueWork = 0, selectedParent = g, mergesetBlues = [g], mergesetReds = [],
      bluesAnticoneSizes = [0]\<rparr>"

text \<open>The invariant of the store: the three maps have the same keys, each once, and the compact
  entry is the projection of the full one.\<close>

definition store_inv :: "GhostdagStore \<Rightarrow> bool" where
  "store_inv s \<longleftrightarrow>
     map fst (st_compact s) = map fst (st_full s) \<and> map fst (st_parents s) = map fst (st_full s) \<and>
     distinct (map fst (st_full s)) \<and>
     list_all (\<lambda>(h, d). map_of (st_compact s) h = Some (compactFromFull d)) (st_full s)"

lemma update_keys: "map fst (AList.update k v al) = (if k \<in> fst ` set al then map fst al else map fst al @ [k])"
  by (simp add: AList.update_keys)

lemma update_mem:
  "distinct (map fst al) \<Longrightarrow> (h, d) \<in> set (AList.update k v al) \<longleftrightarrow> (if h = k then d = v else (h, d) \<in> set al)"
  by (metis AList.distinct_update fun_upd_apply map_of_eq_Some_iff map_of_update option.inject)

lemma store_inv_new [simp]: "store_inv newGhostdagStore"
  by (simp add: store_inv_def newGhostdagStore_def)

lemma same_keys_set: "map fst xs = map fst ys \<Longrightarrow> fst ` set xs = fst ` set ys"
  by (metis set_map)

lemma store_inv_insert:
  assumes "store_inv s"
  shows "store_inv (store_insert h d ps s)"
proof -
  have keys: "fst ` set (st_compact s) = fst ` set (st_full s)" "fst ` set (st_parents s) = fst ` set (st_full s)"
    using assms by (auto simp: store_inv_def dest!: same_keys_set)
  have dist: "distinct (map fst (st_full s))" using assms by (simp add: store_inv_def)
  show ?thesis
    using assms keys
    by (fastforce simp: store_inv_def store_insert_def update_keys list_all_iff update_mem [OF dist])
qed

lemma store_inv_compact:
  assumes "store_inv s"
  shows "map_of (st_compact s) h = map_option compactFromFull (map_of (st_full s) h)"
proof (cases "map_of (st_full s) h")
  case None
  then have "h \<notin> set (map fst (st_compact s))"
    using assms by (simp add: store_inv_def map_of_eq_None_iff)
  then have "map_of (st_compact s) h = None" by (simp add: map_of_eq_None_iff)
  with None show ?thesis by (simp del: map_of_eq_None_iff)
next
  case (Some d)
  then have "(h, d) \<in> set (st_full s)" by (rule map_of_SomeD)
  with assms Some show ?thesis by (auto simp: store_inv_def list_all_iff)
qed

text \<open>What the engine relies on: reads of the compact map agree with the full data, an inserted
  block is read back, and no other block changes.\<close>

locale ghostdag_store =
  fixes empty :: 's
    and insert :: "BlockHash \<Rightarrow> GhostdagData \<Rightarrow> BlockHash list \<Rightarrow> 's \<Rightarrow> 's"
    and data :: "'s \<Rightarrow> BlockHash \<Rightarrow> GhostdagData option"
    and score :: "'s \<Rightarrow> BlockHash \<Rightarrow> int option"
    and work :: "'s \<Rightarrow> BlockHash \<Rightarrow> int option"
    and sel :: "'s \<Rightarrow> BlockHash \<Rightarrow> BlockHash option"
    and pars :: "'s \<Rightarrow> BlockHash \<Rightarrow> BlockHash list option"
    and has :: "'s \<Rightarrow> BlockHash \<Rightarrow> bool"
    and inv :: "'s \<Rightarrow> bool"
  assumes inv_empty: "inv empty"
    and inv_insert: "inv s \<Longrightarrow> inv (insert h d ps s)"
    and data_empty: "data empty h = None"
    and data_insert: "inv s \<Longrightarrow> data (insert h d ps s) = (data s)(h \<mapsto> d)"
    and pars_insert: "inv s \<Longrightarrow> pars (insert h d ps s) = (pars s)(h \<mapsto> ps)"
    and score_data: "inv s \<Longrightarrow> score s h = map_option blueScore (data s h)"
    and work_data: "inv s \<Longrightarrow> work s h = map_option blueWork (data s h)"
    and sel_data: "inv s \<Longrightarrow> sel s h = map_option selectedParent (data s h)"
    and has_data: "inv s \<Longrightarrow> has s h \<longleftrightarrow> data s h \<noteq> None"
begin

lemma read_back:
  "inv s \<Longrightarrow> data (insert h d ps s) h = Some d \<and> work (insert h d ps s) h = Some (blueWork d) \<and>
     score (insert h d ps s) h = Some (blueScore d) \<and> sel (insert h d ps s) h = Some (selectedParent d) \<and>
     pars (insert h d ps s) h = Some ps \<and> has (insert h d ps s) h"
  by (simp add: data_insert pars_insert score_data work_data sel_data has_data inv_insert)

lemma read_other:
  "inv s \<Longrightarrow> h' \<noteq> h \<Longrightarrow> data (insert h d ps s) h' = data s h' \<and> work (insert h d ps s) h' = work s h' \<and>
     score (insert h d ps s) h' = score s h' \<and> sel (insert h d ps s) h' = sel s h' \<and>
     pars (insert h d ps s) h' = pars s h' \<and> has (insert h d ps s) h' = has s h'"
  by (simp add: data_insert pars_insert score_data work_data sel_data has_data inv_insert)

lemma work_Some: "inv s \<Longrightarrow> work s h = Some w \<longleftrightarrow> (\<exists>d. data s h = Some d \<and> blueWork d = w)"
  by (simp add: work_data)

lemma has_empty: "\<not> has empty h"
  by (simp add: has_data inv_empty data_empty)

end

interpretation gds: ghostdag_store newGhostdagStore store_insert getData getBlueScore getBlueWork
  getSelectedParent getParents store_has store_inv
proof unfold_locales
  show "store_inv newGhostdagStore" by simp
  show "store_inv (store_insert h d ps s)" if "store_inv s" for s h d ps
    using that by (rule store_inv_insert)
qed (auto simp: getData_def getBlueScore_def getBlueWork_def getSelectedParent_def
    getParents_def store_has_def newGhostdagStore_def store_insert_def store_inv_compact
    compactFromFull_def option.map_comp o_def fun_eq_iff cong: option.map_cong)

subsection \<open>Block order and the selected parent\<close>

record SortableBlock =
  sb_hash :: BlockHash
  sb_blueWork :: BlueWorkType

definition compareSortableBlocks :: "SortableBlock \<Rightarrow> SortableBlock \<Rightarrow> int" where
  "compareSortableBlocks a b =
     (if sb_blueWork a < sb_blueWork b then -1
      else if sb_blueWork a > sb_blueWork b then 1
      else if sb_hash a < sb_hash b then -1
      else if sb_hash a > sb_hash b then 1
      else 0)"

definition sortBlocks :: "SortableBlock list \<Rightarrow> SortableBlock list" where
  "sortBlocks bs = js_sort compareSortableBlocks bs"

definition sb_key :: "SortableBlock \<Rightarrow> int \<times> string" where
  "sb_key b = (sb_blueWork b, sb_hash b)"

interpretation sbo: keyed_comparator compareSortableBlocks sb_key
  by unfold_locales (auto simp: compareSortableBlocks_def sb_key_def less_prod_def' split: if_splits)

lemma sb_key_inj [simp]: "sb_key a = sb_key b \<longleftrightarrow> a = b"
  by (auto simp: sb_key_def)

text \<open>The loop of \<open>findSelectedParent\<close> from index 1, with the best block so far.\<close>

fun bestBlock :: "SortableBlock \<Rightarrow> SortableBlock list \<Rightarrow> SortableBlock" where
  "bestBlock best [] = best"
| "bestBlock best (c # cs) = bestBlock (if compareSortableBlocks c best > 0 then c else best) cs"

definition findSelectedParent :: "SortableBlock list \<Rightarrow> BlockHash option" where
  "findSelectedParent ps = (case ps of [] \<Rightarrow> None | p # r \<Rightarrow> Some (sb_hash (bestBlock p r)))"

lemma bestBlock_mem: "bestBlock b cs \<in> insert b (set cs)"
proof (induction cs arbitrary: b)
  case (Cons c cs)
  from Cons [of c] Cons [of b] show ?case by auto
qed simp

lemma bestBlock_max: "x \<in> insert b (set cs) \<Longrightarrow> sb_key x \<le> sb_key (bestBlock b cs)"
proof (induction cs arbitrary: b x)
  case Nil
  then show ?case by simp
next
  case (Cons c cs)
  define b' where "b' = (if compareSortableBlocks c b > 0 then c else b)"
  have le: "sb_key b \<le> sb_key b'" "sb_key c \<le> sb_key b'"
    by (auto simp: b'_def sbo.cmp_gt_key not_less)
  have "sb_key b' \<le> sb_key (bestBlock b' cs)" by (rule Cons.IH) simp
  with Cons le show ?case by (auto simp: b'_def [symmetric] intro: order_trans)
qed

lemma bestBlock_Max: "sb_key (bestBlock b cs) = Max (sb_key ` insert b (set cs))"
proof -
  have "bestBlock b cs \<in> insert b (set cs)" by (rule bestBlock_mem)
  then show ?thesis using bestBlock_max [of _ b cs] by (intro Max_eqI [symmetric]) auto
qed

lemma findSelectedParent_Some:
  "findSelectedParent ps = Some h \<longleftrightarrow> (\<exists>b. ps \<noteq> [] \<and> sb_hash b = h \<and> b \<in> set ps \<and> (\<forall>x \<in> set ps. sb_key x \<le> sb_key b))"
proof
  assume "findSelectedParent ps = Some h"
  then obtain p r where ps: "ps = p # r" and h: "h = sb_hash (bestBlock p r)"
    by (auto simp: findSelectedParent_def split: list.splits)
  show "\<exists>b. ps \<noteq> [] \<and> sb_hash b = h \<and> b \<in> set ps \<and> (\<forall>x \<in> set ps. sb_key x \<le> sb_key b)"
    using bestBlock_mem [of p r] bestBlock_max [of _ p r] ps h by (intro exI [of _ "bestBlock p r"]) auto
next
  assume "\<exists>b. ps \<noteq> [] \<and> sb_hash b = h \<and> b \<in> set ps \<and> (\<forall>x \<in> set ps. sb_key x \<le> sb_key b)"
  then obtain b where b: "ps \<noteq> []" "sb_hash b = h" "b \<in> set ps" "\<forall>x \<in> set ps. sb_key x \<le> sb_key b" by blast
  then obtain p r where ps: "ps = p # r" by (cases ps) auto
  have "bestBlock p r = b"
    using bestBlock_mem [of p r] bestBlock_max [of b p r] b ps by (metis list.simps(15) order_antisym sb_key_inj)
  with ps b show "findSelectedParent ps = Some h" by (simp add: findSelectedParent_def)
qed

lemma findSelectedParent_None [simp]: "findSelectedParent ps = None \<longleftrightarrow> ps = []"
  by (simp add: findSelectedParent_def split: list.splits)

lemma findSelectedParent_set:
  "set ps = set qs \<Longrightarrow> findSelectedParent ps = findSelectedParent qs"
  by (metis findSelectedParent_None findSelectedParent_Some option.exhaust set_empty)

lemma headerWork_nonneg:
  "0 \<le> hdr_bits h \<Longrightarrow> headerWork h = Inr (MAX_WORK div (hdr_bits h + 1))"
  by (simp add: headerWork_def bigint_div_def MAX_WORK_def)

lemma headerWork_pos:
  assumes "0 \<le> hdr_bits h" "hdr_bits h < MAX_WORK" "headerWork h = Inr w"
  shows "0 < w"
  using assms by (auto simp: headerWork_nonneg pos_imp_zdiv_pos_iff)

subsection \<open>Properties of the store and the order\<close>

text \<open>the block order is deterministic. \<open>sortBlocks\<close> returns its blocks in ascending order of
  (blue work, hash); the result, like the selected parent, depends on the blocks only and not on the
  order they are listed in; and the selected parent is the last block of the sorted list.\<close>

theorem block_order_deterministic:
  "sorted (map sb_key (sortBlocks bs)) \<and> mset (sortBlocks bs) = mset bs \<and>
   (mset bs = mset cs \<longrightarrow> sortBlocks bs = sortBlocks cs \<and> findSelectedParent bs = findSelectedParent cs) \<and>
   (bs \<noteq> [] \<longrightarrow> findSelectedParent bs = Some (sb_hash (last (sortBlocks bs))))"
proof (intro conjI impI)
  show sorted: "sorted (map sb_key (sortBlocks bs))" by (simp add: sortBlocks_def sbo.js_sort_keys_sorted)
  show "mset (sortBlocks bs) = mset bs" by (simp add: sortBlocks_def)
  show "findSelectedParent bs = Some (sb_hash (last (sortBlocks bs)))" if ne: "bs \<noteq> []"
  proof -
    have ne': "sortBlocks bs \<noteq> []" using ne by (simp add: sortBlocks_def)
    have "last (sortBlocks bs) \<in> set bs" using last_in_set [OF ne'] by (simp add: sortBlocks_def)
    moreover have "sb_key x \<le> sb_key (last (sortBlocks bs))" if "x \<in> set bs" for x
    proof -
      from that have "x \<in> set (sortBlocks bs)" by (simp add: sortBlocks_def)
      then obtain i where i: "i < length (sortBlocks bs)" "x = sortBlocks bs ! i" by (metis in_set_conv_nth)
      then have "map sb_key (sortBlocks bs) ! i \<le> map sb_key (sortBlocks bs) ! (length (sortBlocks bs) - 1)"
        by (intro sorted_nth_mono [OF sorted]) auto
      then show ?thesis using i ne' by (simp add: last_conv_nth)
    qed
    ultimately show ?thesis using ne by (auto simp: findSelectedParent_Some)
  qed
next
  assume eq: "mset bs = mset cs"
  then show "sortBlocks bs = sortBlocks cs" unfolding sortBlocks_def by (rule sbo.js_sort_perm) (simp add: sbo.cmp_eq_key)
  from eq have "set bs = set cs" by (rule mset_eq_setD)
  then show "findSelectedParent bs = findSelectedParent cs" by (rule findSelectedParent_set)
qed

theorem block_order_deterministic_witness:
  "findSelectedParent [\<lparr>sb_hash = ''a'', sb_blueWork = 7\<rparr>, \<lparr>sb_hash = ''b'', sb_blueWork = 7\<rparr>] =
   findSelectedParent [\<lparr>sb_hash = ''b'', sb_blueWork = 7\<rparr>, \<lparr>sb_hash = ''a'', sb_blueWork = 7\<rparr>]"
  using block_order_deterministic [of "[\<lparr>sb_hash = ''a'', sb_blueWork = 7\<rparr>, \<lparr>sb_hash = ''b'', sb_blueWork = 7\<rparr>]"
      "[\<lparr>sb_hash = ''b'', sb_blueWork = 7\<rparr>, \<lparr>sb_hash = ''a'', sb_blueWork = 7\<rparr>]"] by (simp add: add_mset_commute)

text \<open>The store reads back what was written. After an insertion every reader of the three maps
  returns the inserted block's data for its hash and the old data for every other one, and the
  store's invariant is kept.\<close>

theorem store_read_back:
  assumes "store_inv s"
  shows "store_inv (store_insert h d ps s) \<and>
    getData (store_insert h d ps s) = (getData s)(h \<mapsto> d) \<and>
    getBlueWork (store_insert h d ps s) = (getBlueWork s)(h \<mapsto> blueWork d) \<and>
    getBlueScore (store_insert h d ps s) = (getBlueScore s)(h \<mapsto> blueScore d) \<and>
    getSelectedParent (store_insert h d ps s) = (getSelectedParent s)(h \<mapsto> selectedParent d) \<and>
    getParents (store_insert h d ps s) = (getParents s)(h \<mapsto> ps) \<and>
    store_size (store_insert h d ps s) = store_size s + (if store_has s h then 0 else 1)"
proof (intro conjI)
  show "store_inv (store_insert h d ps s)" using assms by (rule gds.inv_insert)
  have keys: "fst ` set (st_full s) = fst ` set (st_compact s)"
    using assms by (metis same_keys_set store_inv_def)
  have len: "length (AList.update h d al) = length al + (if h \<in> fst ` set al then 0 else 1)" for al :: "(string \<times> GhostdagData) list"
    using arg_cong [OF update_keys [of h d al], of length] by simp
  show "store_size (store_insert h d ps s) = store_size s + (if store_has s h then 0 else 1)"
    using keys map_of_None_iff_keys [of "st_compact s" h] by (auto simp: store_size_def store_insert_def len store_has_def)
qed (auto simp: fun_eq_iff gds.read_back [OF assms] gds.read_other [OF assms])

theorem store_read_back_witness:
  "store_inv newGhostdagStore \<and>
   getBlueWork (store_insert ''a'' (genesisGhostdagData ''a'') [] newGhostdagStore) ''a'' = Some 0"
  using store_read_back [of newGhostdagStore "''a''" "genesisGhostdagData ''a''" "[]"]
  by (simp add: genesisGhostdagData_def)

end
