(* ===== verification/HK_Reachability.thy ===== *)
theory HK_Reachability
  imports HK_Ghostdag
begin

text \<open>
  Breadth-first reachability and the mergeset: \<open>packages/simulator/src/reachability.ts\<close>.

  Both loops are recursive functions on the queue with the visited set as an accumulator; they
  end because every round either visits a new hash that some block names as a parent or
  shortens the queue. The parent relation \<open>par\<close> is the specification: \<open>pastSet\<close> is its
  reflexive transitive closure, and the mergeset is the past of the parents outside the past
  of the selected parent.
\<close>

type_synonym blocks = "(BlockHash \<times> SimBlock) list"

definition parents_of :: "blocks \<Rightarrow> BlockHash \<Rightarrow> BlockHash list" where
  "parents_of bs h = (case map_of bs h of None \<Rightarrow> [] | Some b \<Rightarrow> hdr_parents (header b))"

definition par :: "blocks \<Rightarrow> (BlockHash \<times> BlockHash) set" where
  "par bs = {(h, p). p \<in> set (parents_of bs h)}"

definition all_parents :: "blocks \<Rightarrow> BlockHash set" where
  "all_parents bs = (\<Union>(h, b) \<in> set bs. set (hdr_parents (header b)))"

lemma finite_all_parents [simp]: "finite (all_parents bs)"
  by (auto simp: all_parents_def)

lemma parents_of_all: "p \<in> set (parents_of bs h) \<Longrightarrow> p \<in> all_parents bs"
  by (cases "map_of bs h") (auto simp: parents_of_def all_parents_def dest!: map_of_SomeD)

subsection \<open>The past set\<close>

fun visitParents :: "BlockHash list \<Rightarrow> BlockHash list \<times> BlockHash list \<Rightarrow> BlockHash list \<times> BlockHash list" where
  "visitParents [] (past, queue) = (past, queue)"
| "visitParents (p # ps) (past, queue) =
     visitParents ps (if p \<notin> set past then (past @ [p], queue @ [p]) else (past, queue))"

lemma visitParents_spec:
  "\<exists>new. visitParents ps (past, queue) = (past @ new, queue @ new) \<and> set new = set ps - set past"
proof (induction ps arbitrary: past queue)
  case Nil
  then show ?case by simp
next
  case (Cons p ps)
  show ?case
  proof (cases "p \<in> set past")
    case True
    then show ?thesis using Cons [of past queue] by auto
  next
    case False
    obtain new where "visitParents ps (past @ [p], queue @ [p]) = (past @ [p] @ new, queue @ [p] @ new)"
      "set new = set ps - set (past @ [p])" using Cons [of "past @ [p]" "queue @ [p]"] by auto
    then show ?thesis using False by (intro exI [of _ "p # new"]) auto
  qed
qed

function pastSet_loop :: "blocks \<Rightarrow> BlockHash list \<Rightarrow> BlockHash list \<Rightarrow> BlockHash list" where
  "pastSet_loop bs [] past = past"
| "pastSet_loop bs (h # queue) past =
     (case map_of bs h of
        None \<Rightarrow> pastSet_loop bs queue past
      | Some block \<Rightarrow>
          (case visitParents (hdr_parents (header block)) (past, queue) of
             (past', queue') \<Rightarrow> pastSet_loop bs queue' past'))"
  by pat_completeness auto
termination
proof (relation "measures [\<lambda>(bs, queue, past). card (all_parents bs - set past), \<lambda>(bs, queue, past). length queue]",
    goal_cases)
  case 1
  then show ?case by simp
next
  case (2 bs h queue past)
  then show ?case by simp
next
  case (3 bs h queue past block past' queue')
  obtain new where new: "past' = past @ new" "queue' = queue @ new"
    "set new = set (hdr_parents (header block)) - set past"
    using visitParents_spec [of "hdr_parents (header block)" past queue] 3 by auto
  have sub: "set new \<subseteq> all_parents bs"
    using new(3) 3(1) by (force simp: all_parents_def dest: map_of_SomeD)
  show ?case
  proof (cases "new = []")
    case True
    with new show ?thesis by simp
  next
    case False
    then have "all_parents bs - set past' \<subset> all_parents bs - set past"
      using new sub by (cases new) auto
    then have "card (all_parents bs - set past') < card (all_parents bs - set past)"
      by (intro psubset_card_mono) auto
    then show ?thesis by simp
  qed
qed

definition pastSet :: "BlockHash \<Rightarrow> blocks \<Rightarrow> BlockHash list" where
  "pastSet start bs = pastSet_loop bs [start] [start]"

lemma pastSet_loop_Cons:
  "pastSet_loop bs (h # queue) past =
     (case visitParents (parents_of bs h) (past, queue) of (past', queue') \<Rightarrow> pastSet_loop bs queue' past')"
  by (auto simp: parents_of_def split: option.splits)

lemma closed_Image_rtrancl: "R `` A \<subseteq> A \<Longrightarrow> R\<^sup>* `` A = A"
  using Image_closed_trancl by blast

lemma pastSet_loop_correct:
  "\<lbrakk>set queue \<subseteq> set past; \<forall>x \<in> set past. x \<in> set queue \<or> par bs `` {x} \<subseteq> set past\<rbrakk>
    \<Longrightarrow> set (pastSet_loop bs queue past) = (par bs)\<^sup>* `` set past"
proof (induction bs queue past rule: pastSet_loop.induct)
  case (1 bs past)
  then have "par bs `` set past \<subseteq> set past" by auto
  then show ?case by (simp add: closed_Image_rtrancl)
next
  case (2 bs h queue past)
  obtain new where new: "visitParents (parents_of bs h) (past, queue) = (past @ new, queue @ new)"
    "set new = set (parents_of bs h) - set past"
    using visitParents_spec by blast
  have eq: "pastSet_loop bs (h # queue) past = pastSet_loop bs (queue @ new) (past @ new)"
    using new(1) by (simp only: pastSet_loop_Cons) simp
  have inv: "set (queue @ new) \<subseteq> set (past @ new)"
    "\<forall>x \<in> set (past @ new). x \<in> set (queue @ new) \<or> par bs `` {x} \<subseteq> set (past @ new)"
    using 2(3,4) new(2) by (fastforce simp: par_def)+
  have IH: "set (pastSet_loop bs (queue @ new) (past @ new)) = (par bs)\<^sup>* `` set (past @ new)"
  proof (cases "map_of bs h")
    case None
    then have "new = []" using new(2) by (simp add: parents_of_def)
    then show ?thesis using 2(1) [OF None] inv by simp
  next
    case (Some b)
    then show ?thesis using 2(2) [OF Some, of "past @ new" "queue @ new"] new(1) inv by (simp add: parents_of_def)
  qed
  have "set new \<subseteq> par bs `` set past" using 2(3) new(2) by (auto simp: par_def)
  then have "(par bs)\<^sup>* `` set (past @ new) = (par bs)\<^sup>* `` set past"
    by (auto intro: converse_rtrancl_into_rtrancl)
  with eq IH show ?case by simp
qed

lemma set_pastSet [simp]: "set (pastSet start bs) = (par bs)\<^sup>* `` {start}"
  unfolding pastSet_def by (subst pastSet_loop_correct) auto

lemma pastSet_closed: "par bs `` set (pastSet start bs) \<subseteq> set (pastSet start bs)"
  by (auto intro: rtrancl_into_rtrancl)

definition isDagAncestorOf :: "BlockHash \<Rightarrow> BlockHash \<Rightarrow> blocks \<Rightarrow> bool" where
  "isDagAncestorOf a d bs \<longleftrightarrow> (if a = GENESIS_HASH then True else a \<in> set (pastSet d bs))"

lemma isDagAncestorOf_iff: "isDagAncestorOf a d bs \<longleftrightarrow> a = GENESIS_HASH \<or> (d, a) \<in> (par bs)\<^sup>*"
  by (auto simp: isDagAncestorOf_def)

lemma isDagAncestorOf_refl [simp]: "isDagAncestorOf a a bs"
  by (simp add: isDagAncestorOf_iff)

lemma isDagAncestorOf_trans:
  "isDagAncestorOf a b bs \<Longrightarrow> isDagAncestorOf b c bs \<Longrightarrow> b \<noteq> GENESIS_HASH \<Longrightarrow> isDagAncestorOf a c bs"
  by (auto simp: isDagAncestorOf_iff dest: rtrancl_trans)

subsection \<open>The mergeset\<close>

text \<open>The seeding loop: the parents of the block that are neither the selected parent nor in its
  past. Every seed is visited, in the mergeset and queued.\<close>

fun seedMergeset :: "BlockHash \<Rightarrow> BlockHash list \<Rightarrow> BlockHash list \<Rightarrow> BlockHash list \<Rightarrow> BlockHash list" where
  "seedMergeset sp spPast [] visited = visited"
| "seedMergeset sp spPast (p # ps) visited =
     (if p = sp then seedMergeset sp spPast ps visited
      else if p \<in> set spPast then seedMergeset sp spPast ps visited
      else if p \<notin> set visited then seedMergeset sp spPast ps (visited @ [p])
      else seedMergeset sp spPast ps visited)"

lemma set_seedMergeset [simp]:
  "set (seedMergeset sp spPast ps visited) = set visited \<union> (set ps - insert sp (set spPast))"
  by (induction ps arbitrary: visited) auto

fun visitMerge :: "BlockHash list \<Rightarrow> BlockHash list \<Rightarrow> BlockHash list \<times> BlockHash list \<times> BlockHash list
    \<Rightarrow> BlockHash list \<times> BlockHash list \<times> BlockHash list" where
  "visitMerge spPast [] st = st"
| "visitMerge spPast (p # ps) (visited, mergeset, queue) =
     (if p = GENESIS_HASH then visitMerge spPast ps (visited, mergeset, queue)
      else if p \<in> set visited then visitMerge spPast ps (visited, mergeset, queue)
      else if p \<in> set spPast then visitMerge spPast ps (visited @ [p], mergeset, queue)
      else visitMerge spPast ps (visited @ [p], mergeset @ [p], queue @ [p]))"

lemma visitMerge_spec:
  "\<exists>seen new. visitMerge spPast ps (visited, mergeset, queue) = (visited @ seen, mergeset @ new, queue @ new) \<and>
     set seen = set ps - insert GENESIS_HASH (set visited) \<and> set new = set seen - set spPast"
proof (induction ps arbitrary: visited mergeset queue)
  case Nil
  then show ?case by simp
next
  case (Cons p ps)
  consider "p = GENESIS_HASH \<or> p \<in> set visited" | "p \<noteq> GENESIS_HASH" "p \<notin> set visited" by blast
  then show ?case
  proof cases
    case 1
    then show ?thesis using Cons [of visited mergeset queue] by auto
  next
    case 2
    show ?thesis
    proof (cases "p \<in> set spPast")
      case True
      obtain seen new where h: "visitMerge spPast ps (visited @ [p], mergeset, queue) = (visited @ [p] @ seen, mergeset @ new, queue @ new)"
        "set seen = set ps - insert GENESIS_HASH (set (visited @ [p]))" "set new = set seen - set spPast"
        using Cons [of "visited @ [p]" mergeset queue] by auto
      have "set (p # seen) = set (p # ps) - insert GENESIS_HASH (set visited)" using h(2) 2 by auto
      moreover have "set new = set (p # seen) - set spPast" using h(3) True by simp
      moreover have "visitMerge spPast (p # ps) (visited, mergeset, queue) = (visited @ p # seen, mergeset @ new, queue @ new)"
        using h(1) 2 True by simp
      ultimately show ?thesis by blast
    next
      case False
      obtain seen new where h: "visitMerge spPast ps (visited @ [p], mergeset @ [p], queue @ [p])
          = (visited @ [p] @ seen, mergeset @ [p] @ new, queue @ [p] @ new)"
        "set seen = set ps - insert GENESIS_HASH (set (visited @ [p]))" "set new = set seen - set spPast"
        using Cons [of "visited @ [p]" "mergeset @ [p]" "queue @ [p]"] by auto
      have "set (p # seen) = set (p # ps) - insert GENESIS_HASH (set visited)" using h(2) 2 by auto
      moreover have "set (p # new) = set (p # seen) - set spPast" using h(3) False by (simp add: insert_Diff_if)
      moreover have "visitMerge spPast (p # ps) (visited, mergeset, queue) = (visited @ p # seen, mergeset @ p # new, queue @ p # new)"
        using h(1) 2 False by simp
      ultimately show ?thesis by blast
    qed
  qed
qed

function mergeset_loop :: "blocks \<Rightarrow> BlockHash list \<Rightarrow> BlockHash list \<Rightarrow> BlockHash list \<Rightarrow> BlockHash list \<Rightarrow> BlockHash list" where
  "mergeset_loop bs spPast [] visited mergeset = mergeset"
| "mergeset_loop bs spPast (current # queue) visited mergeset =
     (case map_of bs current of
        None \<Rightarrow> mergeset_loop bs spPast queue visited mergeset
      | Some currentBlock \<Rightarrow>
          (case visitMerge spPast (hdr_parents (header currentBlock)) (visited, mergeset, queue) of
             (visited', mergeset', queue') \<Rightarrow> mergeset_loop bs spPast queue' visited' mergeset'))"
  by pat_completeness auto
termination
proof (relation "measures [\<lambda>(bs, spPast, queue, visited, mergeset). card (all_parents bs - set visited),
      \<lambda>(bs, spPast, queue, visited, mergeset). length queue]", goal_cases)
  case 1
  then show ?case by simp
next
  case (2 bs spPast current queue visited mergeset)
  then show ?case by simp
next
  case (3 bs spPast current queue visited mergeset block visited' x mergeset' queue')
  obtain seen new where new: "visited' = visited @ seen" "queue' = queue @ new"
    "set seen = set (hdr_parents (header block)) - insert GENESIS_HASH (set visited)" "set new = set seen - set spPast"
    using visitMerge_spec [of spPast "hdr_parents (header block)" visited mergeset queue] 3 by auto
  have sub: "set seen \<subseteq> all_parents bs"
    using new(3) 3(1) by (force simp: all_parents_def dest: map_of_SomeD)
  show ?case
  proof (cases "seen = []")
    case True
    with new show ?thesis by simp
  next
    case False
    then have "all_parents bs - set visited' \<subset> all_parents bs - set visited"
      using new sub by (cases seen) auto
    then have "card (all_parents bs - set visited') < card (all_parents bs - set visited)"
      by (intro psubset_card_mono) auto
    then show ?thesis by simp
  qed
qed

definition unorderedMergesetWithoutSelectedParent :: "SimBlock \<Rightarrow> BlockHash \<Rightarrow> blocks \<Rightarrow> BlockHash list" where
  "unorderedMergesetWithoutSelectedParent block sp bs =
     (let spPast = pastSet sp bs;
          seeds = seedMergeset sp spPast (hdr_parents (header block)) []
      in mergeset_loop bs spPast seeds seeds seeds)"

definition orderedMergesetWithoutSelectedParent :: "SimBlock \<Rightarrow> BlockHash \<Rightarrow> blocks \<Rightarrow> GhostdagStore \<Rightarrow> SortableBlock list" where
  "orderedMergesetWithoutSelectedParent block sp bs gdStore =
     sortBlocks (map (\<lambda>h. \<lparr>sb_hash = h, sb_blueWork = (case getBlueWork gdStore h of None \<Rightarrow> 0 | Some w \<Rightarrow> w)\<rparr>)
       (unorderedMergesetWithoutSelectedParent block sp bs))"

lemma mergeset_loop_Cons:
  "mergeset_loop bs spPast (c # queue) visited mergeset =
     (case visitMerge spPast (parents_of bs c) (visited, mergeset, queue) of
        (visited', mergeset', queue') \<Rightarrow> mergeset_loop bs spPast queue' visited' mergeset')"
  by (auto simp: parents_of_def split: option.splits)

text \<open>A set closed under parents absorbs every path that enters it, so what the search of
  the parents reaches outside it is reached by paths that stay outside.\<close>

lemma outside_closed:
  assumes "R `` S \<subseteq> S" and "R `` M \<subseteq> M \<union> S" and "A - S \<subseteq> M"
  shows "R\<^sup>* `` A - S \<subseteq> M"
proof
  fix y
  assume "y \<in> R\<^sup>* `` A - S"
  then obtain x where x: "x \<in> A" "(x, y) \<in> R\<^sup>*" and y: "y \<notin> S" by auto
  from x(2) y show "y \<in> M"
  proof (induction rule: rtrancl_induct)
    case base
    then show ?case using x(1) assms(3) by auto
  next
    case (step y z)
    then show ?case using assms(1,2) by blast
  qed
qed

lemma mergeset_loop_correct:
  assumes "par bs `` set spPast \<subseteq> set spPast" "GENESIS_HASH \<in> set spPast"
  shows "\<lbrakk>set queue \<subseteq> set mergeset; set visited \<subseteq> set mergeset \<union> set spPast;
      \<forall>x \<in> set mergeset. x \<in> set queue \<or> par bs `` {x} \<subseteq> set mergeset \<union> set spPast;
      set mergeset \<subseteq> (par bs)\<^sup>* `` A - set spPast; A - set spPast \<subseteq> set mergeset\<rbrakk>
    \<Longrightarrow> set (mergeset_loop bs spPast queue visited mergeset) = (par bs)\<^sup>* `` A - set spPast"
  using assms
proof (induction bs spPast queue visited mergeset rule: mergeset_loop.induct)
  case (1 bs spPast visited mergeset)
  then have "par bs `` set mergeset \<subseteq> set mergeset \<union> set spPast" by auto
  then have "(par bs)\<^sup>* `` A - set spPast \<subseteq> set mergeset"
    using 1 by (intro outside_closed) auto
  then show ?case using 1 by auto
next
  case (2 bs spPast c queue visited mergeset)
  obtain seen new where new:
    "visitMerge spPast (parents_of bs c) (visited, mergeset, queue) = (visited @ seen, mergeset @ new, queue @ new)"
    "set seen = set (parents_of bs c) - insert GENESIS_HASH (set visited)" "set new = set seen - set spPast"
    using visitMerge_spec by blast
  have c: "c \<in> (par bs)\<^sup>* `` A" using 2(3,6) by auto
  have reach: "set new \<subseteq> (par bs)\<^sup>* `` A - set spPast"
  proof
    fix x
    assume x: "x \<in> set new"
    obtain a where "a \<in> A" "(a, c) \<in> (par bs)\<^sup>*" using c by blast
    moreover have "(c, x) \<in> par bs" using x new(2,3) by (simp add: par_def)
    ultimately show "x \<in> (par bs)\<^sup>* `` A - set spPast" using x new(3) by (auto intro: rtrancl_into_rtrancl)
  qed
  have cpar: "par bs `` {c} \<subseteq> set (mergeset @ new) \<union> set spPast"
  proof
    fix x
    assume "x \<in> par bs `` {c}"
    then have "x \<in> set (parents_of bs c)" by (simp add: par_def)
    then show "x \<in> set (mergeset @ new) \<union> set spPast"
      using 2(4) new(2,3) \<open>GENESIS_HASH \<in> set spPast\<close> by (cases "x \<in> set visited"; cases "x = GENESIS_HASH") auto
  qed
  have inv: "set (queue @ new) \<subseteq> set (mergeset @ new)" "set (visited @ seen) \<subseteq> set (mergeset @ new) \<union> set spPast"
    "\<forall>x \<in> set (mergeset @ new). x \<in> set (queue @ new) \<or> par bs `` {x} \<subseteq> set (mergeset @ new) \<union> set spPast"
    "set (mergeset @ new) \<subseteq> (par bs)\<^sup>* `` A - set spPast" "A - set spPast \<subseteq> set (mergeset @ new)"
  proof -
    show "set (queue @ new) \<subseteq> set (mergeset @ new)" using 2(3) by auto
    show "set (visited @ seen) \<subseteq> set (mergeset @ new) \<union> set spPast" using 2(4) new(3) by auto
    show "set (mergeset @ new) \<subseteq> (par bs)\<^sup>* `` A - set spPast" using 2(6) reach by simp
    show "A - set spPast \<subseteq> set (mergeset @ new)" using 2(7) by auto
    show "\<forall>x \<in> set (mergeset @ new). x \<in> set (queue @ new) \<or> par bs `` {x} \<subseteq> set (mergeset @ new) \<union> set spPast"
    proof
      fix x
      assume x: "x \<in> set (mergeset @ new)"
      consider "x \<in> set new" | "x = c" | "x \<in> set mergeset" "x \<noteq> c" using x by auto
      then show "x \<in> set (queue @ new) \<or> par bs `` {x} \<subseteq> set (mergeset @ new) \<union> set spPast"
      proof cases
        case 3
        then have "x \<in> set queue \<or> par bs `` {x} \<subseteq> set mergeset \<union> set spPast" using 2(5) by auto
        then show ?thesis by (elim disjE) auto
      qed (use cpar in simp_all)
    qed
  qed
  have "set (mergeset_loop bs spPast (queue @ new) (visited @ seen) (mergeset @ new)) = (par bs)\<^sup>* `` A - set spPast"
  proof (cases "map_of bs c")
    case None
    then have "seen = []" "new = []" using new(2,3) by (auto simp: parents_of_def)
    then show ?thesis using 2(1) [OF None] inv 2(8,9) by simp
  next
    case (Some b)
    then show ?thesis using 2(2) [OF Some, of "visited @ seen" _ "mergeset @ new" "queue @ new"] new(1) inv 2(8,9)
      by (simp add: parents_of_def)
  qed
  then show ?case using new(1) by (simp only: mergeset_loop_Cons) simp
qed

lemma set_unorderedMergeset:
  assumes "(sp, GENESIS_HASH) \<in> (par bs)\<^sup>*"
  shows "set (unorderedMergesetWithoutSelectedParent block sp bs) =
    (par bs)\<^sup>* `` set (hdr_parents (header block)) - (par bs)\<^sup>* `` {sp}"
proof -
  have g: "GENESIS_HASH \<in> set (pastSet sp bs)" using assms by simp
  have seeds: "set (seedMergeset sp (pastSet sp bs) (hdr_parents (header block)) []) =
    set (hdr_parents (header block)) - set (pastSet sp bs)" by auto
  have "set (unorderedMergesetWithoutSelectedParent block sp bs) =
    (par bs)\<^sup>* `` set (hdr_parents (header block)) - set (pastSet sp bs)"
    unfolding unorderedMergesetWithoutSelectedParent_def Let_def
    by (rule mergeset_loop_correct [OF pastSet_closed g]) (unfold seeds, auto)
  then show ?thesis by simp
qed

lemma distinct_visitMerge:
  "\<lbrakk>distinct mergeset; set mergeset \<subseteq> set visited; visitMerge spPast ps (visited, mergeset, queue) = (v, m, q)\<rbrakk>
    \<Longrightarrow> distinct m \<and> set m \<subseteq> set v"
proof (induction ps arbitrary: visited mergeset queue)
  case (Cons p ps)
  consider "p = GENESIS_HASH \<or> p \<in> set visited" | "p \<noteq> GENESIS_HASH" "p \<notin> set visited" "p \<in> set spPast"
    | "p \<noteq> GENESIS_HASH" "p \<notin> set visited" "p \<notin> set spPast" by blast
  then show ?case
  proof cases
    case 1
    then have "visitMerge spPast ps (visited, mergeset, queue) = (v, m, q)" using Cons.prems(3) by (simp split: if_splits)
    then show ?thesis using Cons.IH [of mergeset visited queue] Cons.prems by blast
  next
    case 2
    show ?thesis by (rule Cons.IH [of mergeset "visited @ [p]" queue]) (use 2 Cons.prems in auto)
  next
    case 3
    show ?thesis
      by (rule Cons.IH [of "mergeset @ [p]" "visited @ [p]" "queue @ [p]"]) (use 3 Cons.prems in auto)
  qed
qed simp

lemma distinct_mergeset_loop:
  "\<lbrakk>distinct mergeset; set mergeset \<subseteq> set visited\<rbrakk> \<Longrightarrow> distinct (mergeset_loop bs spPast queue visited mergeset)"
proof (induction bs spPast queue visited mergeset rule: mergeset_loop.induct)
  case (2 bs spPast c queue visited mergeset)
  show ?case
  proof (cases "map_of bs c")
    case None
    with 2 show ?thesis by simp
  next
    case (Some b)
    obtain v m q where vm: "visitMerge spPast (hdr_parents (header b)) (visited, mergeset, queue) = (v, m, q)"
      by (metis prod_cases3)
    have "distinct m \<and> set m \<subseteq> set v" using distinct_visitMerge 2(3,4) vm by blast
    then show ?thesis using 2(2) [OF Some] Some vm by simp
  qed
qed simp

lemma distinct_seedMergeset: "distinct visited \<Longrightarrow> distinct (seedMergeset sp spPast ps visited)"
  by (induction ps arbitrary: visited) auto

lemma distinct_unorderedMergeset: "distinct (unorderedMergesetWithoutSelectedParent block sp bs)"
  by (simp add: unorderedMergesetWithoutSelectedParent_def Let_def distinct_mergeset_loop distinct_seedMergeset)

lemma map_hash_orderedMergeset_mset:
  "mset (map sb_hash (orderedMergesetWithoutSelectedParent block sp bs st)) =
   mset (unorderedMergesetWithoutSelectedParent block sp bs)"
  by (simp add: orderedMergesetWithoutSelectedParent_def sortBlocks_def image_mset.compositionality o_def)

lemma orderedMergeset_hashes:
  "set (map sb_hash (orderedMergesetWithoutSelectedParent block sp bs st)) =
   set (unorderedMergesetWithoutSelectedParent block sp bs)"
  by (metis map_hash_orderedMergeset_mset set_mset_mset)

lemma distinct_orderedMergeset: "distinct (map sb_hash (orderedMergesetWithoutSelectedParent block sp bs st))"
  by (metis distinct_unorderedMergeset map_hash_orderedMergeset_mset mset_eq_imp_distinct_iff)

lemma orderedMergeset_sorted:
  "sorted (map sb_key (orderedMergesetWithoutSelectedParent block sp bs st))"
  by (simp add: orderedMergesetWithoutSelectedParent_def sortBlocks_def sbo.js_sort_keys_sorted)

subsection \<open>Properties of the walks\<close>

text \<open>the breadth-first walks end and compute what they name. \<open>pastSet\<close> lists exactly the blocks
  reachable over parent edges, the start included; \<open>isDagAncestorOf\<close> is reachability, or being
  genesis; and where the selected parent reaches genesis, the mergeset is, without repetition, the
  past of the block's parents outside the past of the selected parent.\<close>

theorem walks_correct:
  "set (pastSet start bs) = {h. (start, h) \<in> (par bs)\<^sup>*} \<and>
   (isDagAncestorOf a d bs \<longleftrightarrow> a = GENESIS_HASH \<or> (d, a) \<in> (par bs)\<^sup>*) \<and>
   distinct (unorderedMergesetWithoutSelectedParent block sp bs) \<and>
   ((sp, GENESIS_HASH) \<in> (par bs)\<^sup>* \<longrightarrow> set (unorderedMergesetWithoutSelectedParent block sp bs) =
     {h. (\<exists>p \<in> set (hdr_parents (header block)). (p, h) \<in> (par bs)\<^sup>*) \<and> (sp, h) \<notin> (par bs)\<^sup>*})"
proof (intro conjI impI)
  show "isDagAncestorOf a d bs \<longleftrightarrow> a = GENESIS_HASH \<or> (d, a) \<in> (par bs)\<^sup>*" by (rule isDagAncestorOf_iff)
  show "distinct (unorderedMergesetWithoutSelectedParent block sp bs)" by (rule distinct_unorderedMergeset)
  assume "(sp, GENESIS_HASH) \<in> (par bs)\<^sup>*"
  from set_unorderedMergeset [OF this, of block] show "set (unorderedMergesetWithoutSelectedParent block sp bs) =
     {h. (\<exists>p \<in> set (hdr_parents (header block)). (p, h) \<in> (par bs)\<^sup>*) \<and> (sp, h) \<notin> (par bs)\<^sup>*}"
    by (simp only: Image_def set_diff_eq) blast
qed (simp add: Image_def)

theorem walks_correct_witness:
  "(GENESIS_HASH, GENESIS_HASH) \<in> (par [])\<^sup>* \<and>
   set (unorderedMergesetWithoutSelectedParent \<lparr>header = \<lparr>hdr_hash = ''m'', hdr_parents = [GENESIS_HASH, ''a''], hdr_timestampUs = 0,
      hdr_minerId = 0, hdr_bits = 0, hdr_nonce = 0\<rparr>, ghostdag_of = None\<rparr> GENESIS_HASH []) = {''a''}"
proof -
  have par: "par [] = {}" by (simp add: par_def parents_of_def)
  have neq: "''a'' \<noteq> GENESIS_HASH" by (simp add: GENESIS_HASH_def eval_nat_numeral)
  define b where "b = \<lparr>header = \<lparr>hdr_hash = ''m'', hdr_parents = [GENESIS_HASH, ''a''], hdr_timestampUs = 0,
      hdr_minerId = 0, hdr_bits = 0, hdr_nonce = 0\<rparr>, ghostdag_of = None\<rparr>"
  have "(GENESIS_HASH, GENESIS_HASH) \<in> (par [])\<^sup>*" by simp
  with walks_correct have "set (unorderedMergesetWithoutSelectedParent b GENESIS_HASH []) =
     {h. (\<exists>p \<in> set (hdr_parents (header b)). (p, h) \<in> (par [])\<^sup>*) \<and> (GENESIS_HASH, h) \<notin> (par [])\<^sup>*}" by blast
  also have "\<dots> = {h. (\<exists>p \<in> {GENESIS_HASH, ''a''}. p = h) \<and> GENESIS_HASH \<noteq> h}" by (simp add: par b_def)
  also have "\<dots> = {''a''}" using neq by (intro set_eqI) (simp, metis)
  finally show ?thesis unfolding b_def by simp
qed

end
