(* ===== verification/HK_Engine.thy ===== *)
theory HK_Engine
  imports HK_Reachability
begin

text \<open>
  The GHOSTDAG engine: \<open>packages/simulator/src/ghostdag-engine.ts\<close>.

  \<open>computeGhostdag\<close> selects a parent, orders the mergeset, colours each candidate and adds up
  score and work. The colouring keeps, beside the list of blues it has accepted
  (\<open>coloringContext\<close>), a list of anticone sizes that \<open>checkBlueCandidateApprox\<close> reads and
  updates by index; the two lists and the double \<open>push\<close> of the code are modelled as they are.

  The lemmas of the last part show what the colouring guarantees: it partitions the mergeset,
  every blue has at most \<open>k\<close> earlier blues in its anticone, and in a DAG whose blue work grows
  along every edge the blue set is a \<open>k\<close>-cluster.
\<close>

datatype CandidateColor = Blue | Red

record ApproxGhostdagEngine =
  eng_k :: int
  eng_genesisHash :: BlockHash

definition DEFAULT_K :: int where
  "DEFAULT_K = 18"

definition newEngine :: "int option \<Rightarrow> BlockHash option \<Rightarrow> ApproxGhostdagEngine" where
  "newEngine k g =
     \<lparr>eng_k = (case k of None \<Rightarrow> DEFAULT_K | Some v \<Rightarrow> v),
      eng_genesisHash = (case g of None \<Rightarrow> GENESIS_HASH | Some h \<Rightarrow> h)\<rparr>"

subsection \<open>Colouring one candidate\<close>

text \<open>The loop over the current blues from index \<open>i\<close>, with the candidate's anticone size and the
  indices to increment; \<^const>\<open>None\<close> is the early \<open>return "red"\<close>.\<close>

fun anticoneLoop :: "BlockHash \<Rightarrow> int \<Rightarrow> int list \<Rightarrow> blocks \<Rightarrow> nat \<Rightarrow> BlockHash list \<Rightarrow> int \<Rightarrow> nat list \<Rightarrow> (int \<times> nat list) option" where
  "anticoneLoop cand k sizes bs i [] n inc = Some (n, inc)"
| "anticoneLoop cand k sizes bs i (blue # blues) n inc =
     (if isDagAncestorOf blue cand bs \<or> isDagAncestorOf cand blue bs
      then anticoneLoop cand k sizes bs (Suc i) blues n inc
      else if n + 1 > k then None
      else if (if i < length sizes then sizes ! i else 0) \<ge> k then None
      else anticoneLoop cand k sizes bs (Suc i) blues (n + 1) (inc @ [i]))"

definition incrementAt :: "int list \<Rightarrow> nat \<Rightarrow> int list" where
  "incrementAt sizes i = sizes[i := sizes ! i + 1]"

definition checkBlueCandidateApprox :: "BlockHash \<Rightarrow> int \<Rightarrow> BlockHash list \<Rightarrow> int list \<Rightarrow> blocks \<Rightarrow> CandidateColor \<times> int list" where
  "checkBlueCandidateApprox cand k currentBlues sizes bs =
     (case anticoneLoop cand k sizes bs 0 currentBlues 0 [] of
        None \<Rightarrow> (Red, sizes)
      | Some (n, toIncrement) \<Rightarrow> (Blue, foldl incrementAt sizes toIncrement @ [n]))"

subsection \<open>Colouring the mergeset\<close>

record coloring =
  col_blues :: "BlockHash list"
  col_reds :: "BlockHash list"
  col_context :: "BlockHash list"
  col_sizes :: "int list"

fun colorLoop :: "int \<Rightarrow> blocks \<Rightarrow> BlockHash list \<Rightarrow> coloring \<Rightarrow> coloring" where
  "colorLoop k bs [] st = st"
| "colorLoop k bs (c # cs) st =
     (if int (length (col_blues st)) > k
      then colorLoop k bs cs (st\<lparr>col_reds := col_reds st @ [c]\<rparr>)
      else case checkBlueCandidateApprox c k (col_context st) (col_sizes st) bs of
        (Blue, sizes) \<Rightarrow>
          colorLoop k bs cs (st\<lparr>col_blues := col_blues st @ [c], col_context := col_context st @ [c],
            col_sizes := sizes @ [0]\<rparr>)
      | (Red, sizes) \<Rightarrow> colorLoop k bs cs (st\<lparr>col_reds := col_reds st @ [c], col_sizes := sizes\<rparr>))"

definition initialColoring :: "BlockHash \<Rightarrow> coloring" where
  "initialColoring sp = \<lparr>col_blues = [], col_reds = [], col_context = [sp], col_sizes = [0]\<rparr>"

fun addBlueWork :: "blocks \<Rightarrow> BlockHash list \<Rightarrow> int \<Rightarrow> int result" where
  "addBlueWork bs [] acc = Inr acc"
| "addBlueWork bs (h # hs) acc =
     (case map_of bs h of
        None \<Rightarrow> addBlueWork bs hs acc
      | Some b \<Rightarrow> bindE (headerWork (header b)) (\<lambda>w. addBlueWork bs hs (acc + w)))"

subsection \<open>The engine\<close>

definition workOr0 :: "GhostdagStore \<Rightarrow> BlockHash \<Rightarrow> int" where
  "workOr0 st h = (case getBlueWork st h of None \<Rightarrow> 0 | Some w \<Rightarrow> w)"

definition computeGhostdag :: "ApproxGhostdagEngine \<Rightarrow> SimBlock \<Rightarrow> blocks \<Rightarrow> GhostdagStore \<Rightarrow> GhostdagData result" where
  "computeGhostdag eng block bs gdStore =
     (let h = hdr_hash (header block); ps = hdr_parents (header block) in
      if h = eng_genesisHash eng then Inr (genesisGhostdagData (eng_genesisHash eng))
      else if ps = [] then Inl (''Non-genesis block '' @ take 8 h @ '' has no parents - undefined in GHOSTDAG'')
      else case findSelectedParent (map (\<lambda>p. \<lparr>sb_hash = p, sb_blueWork = workOr0 gdStore p\<rparr>) ps) of
        None \<Rightarrow> Inl (''findSelectedParent returned undefined for block '' @ take 8 h)
      | Some sp \<Rightarrow>
          (let orderedMerge = orderedMergesetWithoutSelectedParent block sp bs gdStore;
               col = colorLoop (eng_k eng) bs (map sb_hash orderedMerge) (initialColoring sp);
               spBlueScore = (case getBlueScore gdStore sp of None \<Rightarrow> 0 | Some s \<Rightarrow> s)
           in case map_of bs sp of
                None \<Rightarrow> Inl ''Cannot read properties of undefined (reading 'header')''
              | Some spBlock \<Rightarrow>
                  bindE (headerWork (header spBlock)) (\<lambda>w0.
                  bindE (addBlueWork bs (col_blues col) w0) (\<lambda>added.
                  Inr \<lparr>blueScore = spBlueScore + 1 + int (length (col_blues col)),
                       blueWork = workOr0 gdStore sp + added,
                       selectedParent = sp,
                       mergesetBlues = sp # col_blues col,
                       mergesetReds = col_reds col,
                       bluesAnticoneSizes = [0]\<rparr>))))"

text \<open>\<open>ghostdag(parents, gdStore)\<close>: the same computation for a block that is not in the store yet,
  over a read-only view of the store (every stored block has \<open>bits = 1000\<close>); \<open>now\<close> is the clock,
  which only fills the timestamp of the dummy header.\<close>

definition storeView :: "GhostdagStore \<Rightarrow> blocks" where
  "storeView st = map (\<lambda>(h, d). (h,
     \<lparr>header = \<lparr>hdr_hash = h, hdr_parents = (case getParents st h of None \<Rightarrow> [] | Some ps \<Rightarrow> ps),
        hdr_timestampUs = 0, hdr_minerId = 0, hdr_bits = 1000, hdr_nonce = 0\<rparr>,
      ghostdag_of = Some d\<rparr>)) (st_full st)"

definition ghostdag :: "ApproxGhostdagEngine \<Rightarrow> int \<Rightarrow> BlockHash list \<Rightarrow> GhostdagStore \<Rightarrow> GhostdagData result" where
  "ghostdag eng now parents gdStore =
     computeGhostdag eng
       \<lparr>header = \<lparr>hdr_hash = ''TEMP_INDEXING_HASH'', hdr_parents = parents, hdr_timestampUs = now * 1000,
          hdr_minerId = 0, hdr_bits = 1, hdr_nonce = 0\<rparr>, ghostdag_of = None\<rparr>
       (storeView gdStore) gdStore"

subsection \<open>What the anticone loop computes\<close>

definition in_anticone :: "blocks \<Rightarrow> BlockHash \<Rightarrow> BlockHash \<Rightarrow> bool" where
  "in_anticone bs a b \<longleftrightarrow> \<not> isDagAncestorOf a b bs \<and> \<not> isDagAncestorOf b a bs"

lemma in_anticone_sym: "in_anticone bs a b \<longleftrightarrow> in_anticone bs b a"
  by (auto simp: in_anticone_def)

lemma in_anticone_irrefl [simp]: "\<not> in_anticone bs a a"
  by (simp add: in_anticone_def)

definition anticone_in :: "blocks \<Rightarrow> BlockHash list \<Rightarrow> BlockHash \<Rightarrow> BlockHash list" where
  "anticone_in bs xs c = filter (\<lambda>b. in_anticone bs b c) xs"

lemma anticoneLoop_Some:
  assumes "anticoneLoop c k sizes bs i blues n inc = Some (m, inc')"
  shows "m = n + int (length (anticone_in bs blues c)) \<and> (m \<le> max n k) \<and>
    (\<exists>new. inc' = inc @ new \<and> set new = {j. i \<le> j \<and> j < i + length blues \<and> in_anticone bs (blues ! (j - i)) c} \<and>
       distinct new \<and> (\<forall>j \<in> set new. (if j < length sizes then sizes ! j else 0) < k))"
  using assms
proof (induction blues arbitrary: i n inc)
  case Nil
  then show ?case by (simp add: anticone_in_def)
next
  case (Cons b blues)
  have shift: "{j. i \<le> j \<and> j < i + length (b # blues) \<and> in_anticone bs ((b # blues) ! (j - i)) c} =
    (if in_anticone bs b c then {i} else {}) \<union> {j. Suc i \<le> j \<and> j < Suc i + length blues \<and> in_anticone bs (blues ! (j - Suc i)) c}"
    (is "?L = ?R")
  proof (rule set_eqI)
    fix j
    show "j \<in> ?L \<longleftrightarrow> j \<in> ?R" by (cases "j = i") (auto simp: nth_Cons' dest: le_neq_implies_less)
  qed
  show ?case
  proof (cases "in_anticone bs b c")
    case False
    then have "anticoneLoop c k sizes bs (Suc i) blues n inc = Some (m, inc')"
      using Cons.prems by (auto simp: in_anticone_def)
    from Cons.IH [OF this] show ?thesis using False shift by (simp add: anticone_in_def)
  next
    case True
    then have le: "n + 1 \<le> k" and sz: "(if i < length sizes then sizes ! i else 0) < k"
      and rec: "anticoneLoop c k sizes bs (Suc i) blues (n + 1) (inc @ [i]) = Some (m, inc')"
      using Cons.prems by (auto simp: in_anticone_def split: if_splits)
    from Cons.IH [OF rec] obtain new where IH: "m = n + 1 + int (length (anticone_in bs blues c))" "m \<le> max (n + 1) k"
      "inc' = inc @ i # new" "set new = {j. Suc i \<le> j \<and> j < Suc i + length blues \<and> in_anticone bs (blues ! (j - Suc i)) c}"
      "distinct new" "\<forall>j \<in> set new. (if j < length sizes then sizes ! j else 0) < k" by auto
    have "i \<notin> set new" using IH(4) by simp
    then show ?thesis using IH True le sz shift
      by (intro conjI exI [of _ "i # new"]) (auto simp: anticone_in_def)
  qed
qed

lemma length_incrementAt [simp]: "length (incrementAt s i) = length s"
  by (simp add: incrementAt_def)

lemma length_foldl_incrementAt [simp]: "length (foldl incrementAt s is) = length s"
  by (induction "is" arbitrary: s) auto

lemma nth_foldl_incrementAt:
  "distinct is \<Longrightarrow> j < length s \<Longrightarrow> foldl incrementAt s is ! j = s ! j + (if j \<in> set is then 1 else 0)"
proof (induction "is" arbitrary: s)
  case (Cons a "is")
  then have "foldl incrementAt (incrementAt s a) is ! j = incrementAt s a ! j + (if j \<in> set is then 1 else 0)" by simp
  moreover have "incrementAt s a ! j = (if j = a then s ! j + 1 else s ! j)"
    using Cons.prems by (auto simp: incrementAt_def)
  ultimately show ?case using Cons.prems by auto
qed simp

lemma checkBlue_cases:
  obtains (red) "checkBlueCandidateApprox c k ctx sizes bs = (Red, sizes)"
  | (blue) inc where "checkBlueCandidateApprox c k ctx sizes bs =
        (Blue, foldl incrementAt sizes inc @ [int (length (anticone_in bs ctx c))])"
      "distinct inc" "set inc = {j. j < length ctx \<and> in_anticone bs (ctx ! j) c}"
      "int (length (anticone_in bs ctx c)) \<le> max 0 k"
      "\<forall>j \<in> set inc. (if j < length sizes then sizes ! j else 0) < k"
proof (cases "anticoneLoop c k sizes bs 0 ctx 0 []")
  case None
  then show ?thesis using red by (simp add: checkBlueCandidateApprox_def)
next
  case (Some r)
  then obtain m inc where eq: "anticoneLoop c k sizes bs 0 ctx 0 [] = Some (m, inc)" by (cases r) auto
  from anticoneLoop_Some [OF eq] show ?thesis
    using eq by (intro blue [of inc]) (auto simp: checkBlueCandidateApprox_def)
qed

text \<open>The invariant of the colouring: the context is the selected parent and the blues, and every
  index the loop increments is inside the list of sizes.\<close>

definition col_inv :: "BlockHash \<Rightarrow> coloring \<Rightarrow> bool" where
  "col_inv sp st \<longleftrightarrow> col_context st = sp # col_blues st \<and> length (col_sizes st) = 2 * length (col_blues st) + 1"

lemma col_inv_initial [simp]: "col_inv sp (initialColoring sp)"
  by (simp add: col_inv_def initialColoring_def)

lemma colorLoop_inv: "col_inv sp st \<Longrightarrow> col_inv sp (colorLoop k bs cs st)"
proof (induction cs arbitrary: st)
  case (Cons c cs)
  show ?case
  proof (cases "int (length (col_blues st)) > k")
    case True
    then show ?thesis using Cons by (simp add: col_inv_def)
  next
    case False
    then show ?thesis
      using Cons by (cases rule: checkBlue_cases [of c k "col_context st" "col_sizes st" bs]) (auto simp: col_inv_def)
  qed
qed simp

lemma colorLoop_mset:
  "mset (col_blues (colorLoop k bs cs st)) + mset (col_reds (colorLoop k bs cs st)) =
   mset (col_blues st) + mset (col_reds st) + mset cs"
proof (induction cs arbitrary: st)
  case (Cons c cs)
  show ?case
    by (cases "int (length (col_blues st)) > k";
        cases rule: checkBlue_cases [of c k "col_context st" "col_sizes st" bs]) (auto simp: Cons)
qed simp

lemma colorLoop_prefix: "\<exists>new. col_blues (colorLoop k bs cs st) = col_blues st @ new \<and> set new \<subseteq> set cs"
proof (induction cs arbitrary: st)
  case (Cons c cs)
  show ?case
  proof (cases "int (length (col_blues st)) > k")
    case True
    then show ?thesis using Cons [of "st\<lparr>col_reds := col_reds st @ [c]\<rparr>"] by auto
  next
    case False
    then show ?thesis
    proof (cases rule: checkBlue_cases [of c k "col_context st" "col_sizes st" bs])
      case red
      then show ?thesis using False Cons [of "st\<lparr>col_reds := col_reds st @ [c], col_sizes := col_sizes st\<rparr>"] by auto
    next
      case (blue inc)
      define st' where "st' = st\<lparr>col_blues := col_blues st @ [c], col_context := col_context st @ [c],
        col_sizes := (foldl incrementAt (col_sizes st) inc @ [int (length (anticone_in bs (col_context st) c))]) @ [0]\<rparr>"
      obtain new where "col_blues (colorLoop k bs cs st') = col_blues st' @ new" "set new \<subseteq> set cs"
        using Cons [of st'] by blast
      then show ?thesis using False blue(1) by (intro exI [of _ "c # new"]) (auto simp: st'_def)
    qed
  qed
qed simp

subsection \<open>The blues against the earlier blues\<close>

definition earlier_bounded :: "blocks \<Rightarrow> int \<Rightarrow> BlockHash list \<Rightarrow> bool" where
  "earlier_bounded bs k xs \<longleftrightarrow> (\<forall>i < length xs. int (length (anticone_in bs (take i xs) (xs ! i))) \<le> max 0 k)"

lemma earlier_bounded_snoc:
  "earlier_bounded bs k (xs @ [c]) \<longleftrightarrow> earlier_bounded bs k xs \<and> int (length (anticone_in bs xs c)) \<le> max 0 k"
  by (auto simp: earlier_bounded_def nth_append less_Suc_eq)

lemma colorLoop_earlier:
  "\<lbrakk>col_inv sp st; earlier_bounded bs k (sp # col_blues st)\<rbrakk>
    \<Longrightarrow> earlier_bounded bs k (sp # col_blues (colorLoop k bs cs st))"
proof (induction cs arbitrary: st)
  case (Cons c cs)
  show ?case
  proof (cases "int (length (col_blues st)) > k")
    case True
    then show ?thesis using Cons by (simp add: col_inv_def)
  next
    case False
    then show ?thesis
    proof (cases rule: checkBlue_cases [of c k "col_context st" "col_sizes st" bs])
      case red
      then show ?thesis using False Cons by (simp add: col_inv_def)
    next
      case (blue inc)
      have "earlier_bounded bs k ((sp # col_blues st) @ [c])"
        using Cons.prems blue(4) unfolding earlier_bounded_snoc by (simp add: col_inv_def)
      then show ?thesis using False blue(1) Cons by (simp add: col_inv_def)
    qed
  qed
qed simp

subsection \<open>The blue set is a cluster when every candidate is in the selected parent's anticone\<close>

text \<open>Index 0 of the sizes belongs to the selected parent and is read and incremented at the right
  place, so while every candidate is in its anticone it counts the blues, and the colouring
  stops at \<open>k\<close> of them.\<close>

lemma colorLoop_count:
  assumes "\<forall>c \<in> set cs. in_anticone bs sp c" "0 \<le> k"
  shows "\<lbrakk>col_inv sp st; hd (col_sizes st) = int (length (col_blues st)); int (length (col_blues st)) \<le> k\<rbrakk>
    \<Longrightarrow> int (length (col_blues (colorLoop k bs cs st))) \<le> k"
  using assms
proof (induction cs arbitrary: st)
  case (Cons c cs)
  have nongt: "\<not> int (length (col_blues st)) > k" using Cons.prems(3) by simp
  show ?case
  proof (cases rule: checkBlue_cases [of c k "col_context st" "col_sizes st" bs])
    case red
    then show ?thesis using nongt Cons by (simp add: col_inv_def)
  next
    case (blue inc)
    have ctx: "col_context st = sp # col_blues st" and len: "col_sizes st \<noteq> []"
      using Cons.prems(1) by (auto simp: col_inv_def)
    have zero: "0 \<in> set inc" using blue(3) ctx Cons.prems(4) by simp
    then have lt: "int (length (col_blues st)) < k" using blue(5) len Cons.prems(2) by (auto simp: hd_conv_nth)
    have hd: "hd (foldl incrementAt (col_sizes st) inc) = int (length (col_blues st)) + 1"
      using nth_foldl_incrementAt [OF blue(2), of 0 "col_sizes st"] zero len Cons.prems(2)
      by (simp add: hd_conv_nth) (metis hd_conv_nth length_0_conv length_foldl_incrementAt)
    have ne: "foldl incrementAt (col_sizes st) inc \<noteq> []" using len by (metis length_0_conv length_foldl_incrementAt)
    show ?thesis
      using nongt blue(1) Cons.prems ctx lt hd ne by (simp, intro Cons.IH) (auto simp: col_inv_def)
  qed
qed simp

definition k_cluster :: "blocks \<Rightarrow> int \<Rightarrow> BlockHash list \<Rightarrow> bool" where
  "k_cluster bs k xs \<longleftrightarrow> (\<forall>x \<in> set xs. int (length (anticone_in bs xs x)) \<le> k)"

lemma length_filter_distinct_less:
  "x \<in> set xs \<Longrightarrow> \<not> P x \<Longrightarrow> length (filter P xs) < length xs"
  by (meson length_filter_less)

lemma cluster_of_count: "int (length xs) \<le> k + 1 \<Longrightarrow> k_cluster bs k xs"
  unfolding k_cluster_def anticone_in_def
proof
  fix x
  assume "int (length xs) \<le> k + 1" "x \<in> set xs"
  moreover have "length (filter (\<lambda>b. in_anticone bs b x) xs) < length xs"
    using \<open>x \<in> set xs\<close> by (rule length_filter_distinct_less) simp
  ultimately show "int (length (filter (\<lambda>b. in_anticone bs b x) xs)) \<le> k" by linarith
qed

subsection \<open>Reading the result of the engine\<close>

lemma computeGhostdag_Inr:
  assumes "computeGhostdag eng block bs st = Inr d" "hdr_hash (header block) \<noteq> eng_genesisHash eng"
  obtains sp spBlock w0 added col where
    "findSelectedParent (map (\<lambda>p. \<lparr>sb_hash = p, sb_blueWork = workOr0 st p\<rparr>) (hdr_parents (header block))) = Some sp"
    "col = colorLoop (eng_k eng) bs (map sb_hash (orderedMergesetWithoutSelectedParent block sp bs st)) (initialColoring sp)"
    "map_of bs sp = Some spBlock" "headerWork (header spBlock) = Inr w0" "addBlueWork bs (col_blues col) w0 = Inr added"
    "d = \<lparr>blueScore = (case getBlueScore st sp of None \<Rightarrow> 0 | Some s \<Rightarrow> s) + 1 + int (length (col_blues col)),
          blueWork = workOr0 st sp + added, selectedParent = sp, mergesetBlues = sp # col_blues col,
          mergesetReds = col_reds col, bluesAnticoneSizes = [0]\<rparr>"
  using assms by (auto simp: computeGhostdag_def Let_def split: if_splits option.splits)

lemma addBlueWork_mono:
  assumes "addBlueWork bs hs acc = Inr t" "\<forall>h b. map_of bs h = Some b \<longrightarrow> 0 \<le> hdr_bits (header b)"
  shows "acc \<le> t"
  using assms
proof (induction hs arbitrary: acc)
  case (Cons h hs)
  show ?case
  proof (cases "map_of bs h")
    case (Some b)
    then have "0 \<le> hdr_bits (header b)" using Cons.prems(2) by blast
    then obtain w where w: "headerWork (header b) = Inr w" "0 \<le> w"
      by (simp add: headerWork_nonneg MAX_WORK_def pos_imp_zdiv_nonneg_iff)
    then have "acc + w \<le> t" using Cons.IH Cons.prems Some by simp
    then show ?thesis using w(2) by simp
  qed (use Cons in simp)
qed simp

lemma selected_parent_max:
  assumes "findSelectedParent (map (\<lambda>p. \<lparr>sb_hash = p, sb_blueWork = f p\<rparr>) ps) = Some sp"
  shows "sp \<in> set ps" "p \<in> set ps \<Longrightarrow> f p \<le> f sp"
  using assms by (auto simp: findSelectedParent_Some sb_key_def less_eq_prod_def)

lemma engine_selected_work:
  assumes "computeGhostdag eng block bs st = Inr d" "hdr_hash (header block) \<noteq> eng_genesisHash eng"
    "\<forall>h b. map_of bs h = Some b \<longrightarrow> 0 \<le> hdr_bits (header b) \<and> hdr_bits (header b) < MAX_WORK"
  shows "selectedParent d \<in> set (hdr_parents (header block)) \<and>
    (\<forall>p \<in> set (hdr_parents (header block)). workOr0 st p < blueWork d)"
  using assms(1,2)
proof (rule computeGhostdag_Inr)
  fix sp spBlock w0 added col
  assume sp: "findSelectedParent (map (\<lambda>p. \<lparr>sb_hash = p, sb_blueWork = workOr0 st p\<rparr>) (hdr_parents (header block))) = Some sp"
    and b: "map_of bs sp = Some spBlock" "headerWork (header spBlock) = Inr w0" "addBlueWork bs (col_blues col) w0 = Inr added"
    and d: "d = \<lparr>blueScore = (case getBlueScore st sp of None \<Rightarrow> 0 | Some s \<Rightarrow> s) + 1 + int (length (col_blues col)),
          blueWork = workOr0 st sp + added, selectedParent = sp, mergesetBlues = sp # col_blues col,
          mergesetReds = col_reds col, bluesAnticoneSizes = [0]\<rparr>"
  have "0 < w0" using assms(3) b(1,2) headerWork_pos by blast
  moreover have "w0 \<le> added" using b(3) assms(3) by (intro addBlueWork_mono) auto
  ultimately have "workOr0 st p < blueWork d" if "p \<in> set (hdr_parents (header block))" for p
    using selected_parent_max(2) [OF sp that] d by simp
  then show ?thesis using selected_parent_max(1) [OF sp] d by simp
qed

subsection \<open>Well-formed contexts\<close>

text \<open>The context the engine is called in: the parents of the block are known, every known block
  reaches genesis, the block is not in the past of its own parents, and along every edge but
  the block's own the blue work grows. \<open>HK_Dag\<close> shows that every DAG the simulator builds is one.\<close>

definition work_grows :: "blocks \<Rightarrow> GhostdagStore \<Rightarrow> BlockHash \<Rightarrow> bool" where
  "work_grows bs st new \<longleftrightarrow>
     list_all (\<lambda>(h, b). h = new \<or> list_all (\<lambda>p. workOr0 st p < workOr0 st h) (parents_of bs h)) bs"

definition rooted :: "blocks \<Rightarrow> bool" where
  "rooted bs \<longleftrightarrow> list_all (\<lambda>(h, b). GENESIS_HASH \<in> set (pastSet h bs)) bs"

definition wf_context :: "SimBlock \<Rightarrow> blocks \<Rightarrow> GhostdagStore \<Rightarrow> bool" where
  "wf_context block bs st \<longleftrightarrow>
     work_grows bs st (hdr_hash (header block)) \<and> rooted bs \<and>
     list_all (\<lambda>p. p \<in> fst ` set bs \<and> hdr_hash (header block) \<notin> set (pastSet p bs)) (hdr_parents (header block))"

lemma work_grows_edge:
  assumes "work_grows bs st new" "(h, p) \<in> par bs" "h \<noteq> new"
  shows "workOr0 st p < workOr0 st h"
proof -
  obtain b where "(h, b) \<in> set bs" "p \<in> set (parents_of bs h)"
    using assms(2) by (cases "map_of bs h") (auto simp: par_def parents_of_def dest: map_of_SomeD)
  then show ?thesis using assms(1,3) by (auto simp: work_grows_def list_all_iff)
qed

lemma work_grows_path:
  assumes "work_grows bs st new" "(h, x) \<in> (par bs)\<^sup>*" "(h, new) \<notin> (par bs)\<^sup>*"
  shows "x = h \<or> workOr0 st x < workOr0 st h"
  using assms(2)
proof (induction rule: rtrancl_induct)
  case (step y z)
  then have "y \<noteq> new" using assms(3) by auto
  then have "workOr0 st z < workOr0 st y" using work_grows_edge assms(1) step by blast
  then show ?case using step by auto
qed simp

lemma rootedD: "rooted bs \<Longrightarrow> h \<in> fst ` set bs \<Longrightarrow> (h, GENESIS_HASH) \<in> (par bs)\<^sup>*"
  by (auto simp: rooted_def list_all_iff)

lemma candidate_in_anticone:
  assumes wf: "wf_context block bs st"
    and sp: "findSelectedParent (map (\<lambda>p. \<lparr>sb_hash = p, sb_blueWork = workOr0 st p\<rparr>) (hdr_parents (header block))) = Some sp"
    and c: "c \<in> set (unorderedMergesetWithoutSelectedParent block sp bs)"
  shows "in_anticone bs sp c"
proof -
  define new where "new = hdr_hash (header block)"
  have grows: "work_grows bs st new" and rooted: "rooted bs"
    and known: "\<And>p. p \<in> set (hdr_parents (header block)) \<Longrightarrow> p \<in> fst ` set bs \<and> (p, new) \<notin> (par bs)\<^sup>*"
    using wf by (auto simp: wf_context_def list_all_iff new_def)
  have spP: "sp \<in> set (hdr_parents (header block))" and max: "\<And>p. p \<in> set (hdr_parents (header block)) \<Longrightarrow> workOr0 st p \<le> workOr0 st sp"
    using selected_parent_max [OF sp] by blast+
  have spG: "(sp, GENESIS_HASH) \<in> (par bs)\<^sup>*" using rootedD [OF rooted] known [OF spP] by blast
  obtain p where p: "p \<in> set (hdr_parents (header block))" "(p, c) \<in> (par bs)\<^sup>*" and cs: "(sp, c) \<notin> (par bs)\<^sup>*"
    using c set_unorderedMergeset [OF spG] by auto
  have pc: "workOr0 st c \<le> workOr0 st p" using work_grows_path [OF grows p(2)] known [OF p(1)] by auto
  have "(c, sp) \<notin> (par bs)\<^sup>*"
  proof
    assume csp: "(c, sp) \<in> (par bs)\<^sup>*"
    have "(c, new) \<notin> (par bs)\<^sup>*" using known [OF p(1)] p(2) by (meson rtrancl_trans)
    then have "sp = c \<or> workOr0 st sp < workOr0 st c" using work_grows_path [OF grows csp] by blast
    then show False using cs pc max [OF p(1)] by auto
  qed
  moreover have "sp \<noteq> GENESIS_HASH"
  proof
    assume "sp = GENESIS_HASH"
    have "(p, GENESIS_HASH) \<in> (par bs)\<^sup>*" using rootedD [OF rooted] known [OF p(1)] by simp
    then have "sp = p \<or> workOr0 st sp < workOr0 st p"
      using work_grows_path [OF grows] known [OF p(1)] \<open>sp = GENESIS_HASH\<close> by simp
    then show False using max [OF p(1)] p(2) cs by auto
  qed
  moreover have "c \<noteq> GENESIS_HASH" using cs spG by auto
  ultimately show ?thesis using cs by (auto simp: in_anticone_def isDagAncestorOf_iff)
qed

lemma engine_blue_count:
  assumes "computeGhostdag eng block bs st = Inr d" "hdr_hash (header block) \<noteq> eng_genesisHash eng"
    "wf_context block bs st" "0 \<le> eng_k eng"
  shows "int (length (mergesetBlues d)) \<le> eng_k eng + 1"
  using assms(1,2)
proof (rule computeGhostdag_Inr)
  fix sp spBlock w0 added col
  assume sp: "findSelectedParent (map (\<lambda>p. \<lparr>sb_hash = p, sb_blueWork = workOr0 st p\<rparr>) (hdr_parents (header block))) = Some sp"
    and col: "col = colorLoop (eng_k eng) bs (map sb_hash (orderedMergesetWithoutSelectedParent block sp bs st)) (initialColoring sp)"
    and d: "d = \<lparr>blueScore = (case getBlueScore st sp of None \<Rightarrow> 0 | Some s \<Rightarrow> s) + 1 + int (length (col_blues col)),
          blueWork = workOr0 st sp + added, selectedParent = sp, mergesetBlues = sp # col_blues col,
          mergesetReds = col_reds col, bluesAnticoneSizes = [0]\<rparr>"
  have "\<forall>c \<in> set (map sb_hash (orderedMergesetWithoutSelectedParent block sp bs st)). in_anticone bs sp c"
    unfolding orderedMergeset_hashes using candidate_in_anticone [OF assms(3) sp] by blast
  then have "int (length (col_blues col)) \<le> eng_k eng"
    unfolding col by (rule colorLoop_count [OF _ assms(4)]) (use assms(4) in \<open>simp_all add: initialColoring_def col_inv_def\<close>)
  then show ?thesis using d by simp
qed

subsection \<open>Properties of the engine\<close>

text \<open>A small DAG for the witnesses: genesis, two blocks on it, and a block that merges them.\<close>

definition ex_header :: "BlockHash \<Rightarrow> BlockHash list \<Rightarrow> SimBlock" where
  "ex_header h ps = \<lparr>header = \<lparr>hdr_hash = h, hdr_parents = ps, hdr_timestampUs = 0, hdr_minerId = 0,
     hdr_bits = 1000, hdr_nonce = 0\<rparr>, ghostdag_of = None\<rparr>"

definition ex_bs :: blocks where
  "ex_bs = [(GENESIS_HASH, ex_header GENESIS_HASH []), (''a'', ex_header ''a'' [GENESIS_HASH]),
     (''b'', ex_header ''b'' [GENESIS_HASH]), (''m'', ex_header ''m'' [''a'', ''b''])]"

definition ex_store :: GhostdagStore where
  "ex_store = store_insert ''b'' \<lparr>blueScore = 1, blueWork = 7, selectedParent = GENESIS_HASH, mergesetBlues = [GENESIS_HASH],
       mergesetReds = [], bluesAnticoneSizes = [0]\<rparr> []
     (store_insert ''a'' \<lparr>blueScore = 1, blueWork = 7, selectedParent = GENESIS_HASH, mergesetBlues = [GENESIS_HASH],
       mergesetReds = [], bluesAnticoneSizes = [0]\<rparr> []
     (store_insert GENESIS_HASH (genesisGhostdagData GENESIS_HASH) [] newGhostdagStore))"

lemma ex_compute: "is_ok (computeGhostdag (newEngine None None) (ex_header ''m'' [''a'', ''b'']) ex_bs ex_store)"
  by code_simp

lemma ex_wf: "wf_context (ex_header ''m'' [''a'', ''b'']) ex_bs ex_store"
  by code_simp

lemma ex_facts:
  "hdr_hash (header (ex_header ''m'' [''a'', ''b''])) \<noteq> eng_genesisHash (newEngine None None)"
  "0 \<le> eng_k (newEngine None None)"
  by code_simp+

text \<open>colouring partitions the mergeset. The selected parent heads the blues; the other blues
  and the reds are, without repetition, exactly the blocks in the past of the parents outside
  the past of the selected parent; and the blue score is the selected parent's plus the number
  of blues.\<close>

theorem engine_mergeset_partition:
  assumes "computeGhostdag eng block bs st = Inr d"
    and "hdr_hash (header block) \<noteq> eng_genesisHash eng"
    and "GENESIS_HASH \<in> set (pastSet (selectedParent d) bs)"
  shows "hd (mergesetBlues d) = selectedParent d \<and> distinct (tl (mergesetBlues d) @ mergesetReds d) \<and>
    set (tl (mergesetBlues d) @ mergesetReds d) =
      (\<Union>p \<in> set (hdr_parents (header block)). set (pastSet p bs)) - set (pastSet (selectedParent d) bs) \<and>
    blueScore d = (case getBlueScore st (selectedParent d) of None \<Rightarrow> 0 | Some s \<Rightarrow> s) + int (length (mergesetBlues d))"
  using assms(1,2)
proof (rule computeGhostdag_Inr)
  fix sp spBlock w0 added col
  assume col: "col = colorLoop (eng_k eng) bs (map sb_hash (orderedMergesetWithoutSelectedParent block sp bs st)) (initialColoring sp)"
    and d: "d = \<lparr>blueScore = (case getBlueScore st sp of None \<Rightarrow> 0 | Some s \<Rightarrow> s) + 1 + int (length (col_blues col)),
          blueWork = workOr0 st sp + added, selectedParent = sp, mergesetBlues = sp # col_blues col,
          mergesetReds = col_reds col, bluesAnticoneSizes = [0]\<rparr>"
  have "mset (col_blues col @ col_reds col) = mset (unorderedMergesetWithoutSelectedParent block sp bs)"
    using colorLoop_mset [of "eng_k eng" bs "map sb_hash (orderedMergesetWithoutSelectedParent block sp bs st)"
        "initialColoring sp"] map_hash_orderedMergeset_mset [of block sp bs st]
    by (simp add: col initialColoring_def)
  then have "distinct (col_blues col @ col_reds col)"
    "set (col_blues col @ col_reds col) = set (unorderedMergesetWithoutSelectedParent block sp bs)"
    using distinct_unorderedMergeset mset_eq_imp_distinct_iff mset_eq_setD by metis+
  then show ?thesis using assms(3) set_unorderedMergeset [of sp bs block] d by auto
qed

lemma ex_data_genesis:
  "computeGhostdag (newEngine None None) (ex_header ''m'' [''a'', ''b'']) ex_bs ex_store = Inr d \<Longrightarrow>
   GENESIS_HASH \<in> set (pastSet (selectedParent d) ex_bs)"
proof -
  have "case computeGhostdag (newEngine None None) (ex_header ''m'' [''a'', ''b'']) ex_bs ex_store of
    Inl e \<Rightarrow> True | Inr d \<Rightarrow> GENESIS_HASH \<in> set (pastSet (selectedParent d) ex_bs)" by code_simp
  then show "computeGhostdag (newEngine None None) (ex_header ''m'' [''a'', ''b'']) ex_bs ex_store = Inr d \<Longrightarrow>
    GENESIS_HASH \<in> set (pastSet (selectedParent d) ex_bs)" by simp
qed

theorem engine_mergeset_partition_witness:
  "\<exists>d. computeGhostdag (newEngine None None) (ex_header ''m'' [''a'', ''b'']) ex_bs ex_store = Inr d \<and>
     hd (mergesetBlues d) = selectedParent d \<and> distinct (tl (mergesetBlues d) @ mergesetReds d)"
  using ex_compute ex_facts(1) ex_data_genesis engine_mergeset_partition unfolding is_ok_iff by blast

text \<open>C1: the blue set is a \<open>k\<close>-cluster. In a well-formed context no blue of the result (the
  selected parent included) has more than \<open>k\<close> blues of the result in its anticone, and there are
  at most \<open>k + 1\<close> of them.\<close>

theorem engine_k_cluster:
  assumes "computeGhostdag eng block bs st = Inr d"
    and "hdr_hash (header block) \<noteq> eng_genesisHash eng"
    and "wf_context block bs st" and "0 \<le> eng_k eng"
  shows "k_cluster bs (eng_k eng) (mergesetBlues d) \<and> int (length (mergesetBlues d)) \<le> eng_k eng + 1"
  using engine_blue_count [OF assms] cluster_of_count by blast

theorem engine_k_cluster_witness:
  "\<exists>d. computeGhostdag (newEngine None None) (ex_header ''m'' [''a'', ''b'']) ex_bs ex_store = Inr d \<and>
     k_cluster ex_bs (eng_k (newEngine None None)) (mergesetBlues d)"
  using ex_compute ex_facts ex_wf engine_k_cluster unfolding is_ok_iff by blast

text \<open>in any context, well-formed or not, a blue has at most \<open>k\<close> of the blues coloured before
  it in its anticone.\<close>

theorem engine_earlier_blues_bounded:
  assumes "computeGhostdag eng block bs st = Inr d"
    and "hdr_hash (header block) \<noteq> eng_genesisHash eng"
    and "0 \<le> eng_k eng" and "i < length (mergesetBlues d)"
  shows "int (length (anticone_in bs (take i (mergesetBlues d)) (mergesetBlues d ! i))) \<le> eng_k eng"
  using assms(1,2)
proof (rule computeGhostdag_Inr)
  fix sp spBlock w0 added col
  assume col: "col = colorLoop (eng_k eng) bs (map sb_hash (orderedMergesetWithoutSelectedParent block sp bs st)) (initialColoring sp)"
    and d: "d = \<lparr>blueScore = (case getBlueScore st sp of None \<Rightarrow> 0 | Some s \<Rightarrow> s) + 1 + int (length (col_blues col)),
          blueWork = workOr0 st sp + added, selectedParent = sp, mergesetBlues = sp # col_blues col,
          mergesetReds = col_reds col, bluesAnticoneSizes = [0]\<rparr>"
  have "earlier_bounded bs (eng_k eng) (sp # col_blues col)"
    unfolding col by (rule colorLoop_earlier) (simp_all add: initialColoring_def col_inv_def earlier_bounded_def anticone_in_def)
  then show ?thesis using assms(3,4) d unfolding earlier_bounded_def by simp
qed

lemma ex_blues_nonempty:
  "computeGhostdag (newEngine None None) (ex_header ''m'' [''a'', ''b'']) ex_bs ex_store = Inr d \<Longrightarrow> 0 < length (mergesetBlues d)"
  by (erule computeGhostdag_Inr [OF _ ex_facts(1)]) simp

theorem engine_earlier_blues_bounded_witness:
  "\<exists>d. computeGhostdag (newEngine None None) (ex_header ''m'' [''a'', ''b'']) ex_bs ex_store = Inr d \<and>
     int (length (anticone_in ex_bs (take 0 (mergesetBlues d)) (mergesetBlues d ! 0))) \<le> eng_k (newEngine None None)"
  using ex_compute ex_facts ex_blues_nonempty engine_earlier_blues_bounded unfolding is_ok_iff by blast

text \<open>The blue work of a block is strictly above that of each of its parents, and its selected
  parent is one of them; so the selected chain of a block ends.\<close>

theorem engine_blue_work_grows:
  assumes "computeGhostdag eng block bs st = Inr d"
    and "hdr_hash (header block) \<noteq> eng_genesisHash eng"
    and "\<forall>h b. map_of bs h = Some b \<longrightarrow> 0 \<le> hdr_bits (header b) \<and> hdr_bits (header b) < MAX_WORK"
  shows "selectedParent d \<in> set (hdr_parents (header block)) \<and>
    (\<forall>p \<in> set (hdr_parents (header block)). workOr0 st p < blueWork d)"
  by (rule engine_selected_work) (use assms in blast)+

lemma ex_bits: "\<forall>h b. map_of ex_bs h = Some b \<longrightarrow> 0 \<le> hdr_bits (header b) \<and> hdr_bits (header b) < MAX_WORK"
  by (auto simp: ex_bs_def ex_header_def MAX_WORK_def split: if_splits)

theorem engine_blue_work_grows_witness:
  "\<exists>d. computeGhostdag (newEngine None None) (ex_header ''m'' [''a'', ''b'']) ex_bs ex_store = Inr d \<and>
     workOr0 ex_store ''a'' < blueWork d"
proof -
  obtain d where d: "computeGhostdag (newEngine None None) (ex_header ''m'' [''a'', ''b'']) ex_bs ex_store = Inr d"
    using ex_compute unfolding is_ok_iff by blast
  show ?thesis using engine_blue_work_grows [OF d ex_facts(1) ex_bits] d by (auto simp: ex_header_def)
qed

lemma engine_returns:
  assumes "hdr_hash (header block) \<noteq> eng_genesisHash eng"
    and "set (hdr_parents (header block)) \<subseteq> fst ` set bs"
    and "\<forall>h b. map_of bs h = Some b \<longrightarrow> 0 \<le> hdr_bits (header b)"
  shows "is_ok (computeGhostdag eng block bs st) \<longleftrightarrow> hdr_parents (header block) \<noteq> []"
proof
  assume ne: "hdr_parents (header block) \<noteq> []"
  then obtain sp where sp: "findSelectedParent (map (\<lambda>p. \<lparr>sb_hash = p, sb_blueWork = workOr0 st p\<rparr>) (hdr_parents (header block))) = Some sp"
    by (metis findSelectedParent_None map_is_Nil_conv not_None_eq)
  then have "sp \<in> fst ` set bs" using selected_parent_max(1) assms(2) by blast
  then obtain b where b: "map_of bs sp = Some b" by (metis map_of_eq_None_iff not_None_eq)
  have add: "\<exists>t. addBlueWork bs hs acc = Inr t" for hs acc
  proof (induction hs arbitrary: acc)
    case (Cons h hs)
    then show ?case using assms(3) by (cases "map_of bs h") (auto simp: headerWork_nonneg)
  qed simp
  show "is_ok (computeGhostdag eng block bs st)"
    using assms(1,3) ne sp b add by (auto simp: computeGhostdag_def Let_def is_ok_iff headerWork_nonneg)
qed (use assms(1) in \<open>auto simp: computeGhostdag_def Let_def\<close>)

text \<open>the engine returns a result for every block but genesis whose parents are known and whose
  header targets are not negative, and it throws for a block without parents.\<close>

theorem engine_total:
  assumes "hdr_hash (header block) \<noteq> eng_genesisHash eng"
    and "set (hdr_parents (header block)) \<subseteq> fst ` set bs"
    and "\<forall>h b. map_of bs h = Some b \<longrightarrow> 0 \<le> hdr_bits (header b)"
  shows "is_ok (computeGhostdag eng block bs st) \<longleftrightarrow> hdr_parents (header block) \<noteq> []"
  using assms by (rule engine_returns)

theorem engine_total_witness:
  "is_ok (computeGhostdag (newEngine None None) (ex_header ''m'' [''a'', ''b'']) ex_bs ex_store) \<longleftrightarrow>
   hdr_parents (header (ex_header ''m'' [''a'', ''b''])) \<noteq> []"
proof (rule engine_total)
  show "set (hdr_parents (header (ex_header ''m'' [''a'', ''b'']))) \<subseteq> fst ` set ex_bs"
    by (simp add: ex_header_def ex_bs_def)
qed (use ex_facts(1) ex_bits in auto)

text \<open>The documented field \<open>bluesAnticoneSizes\<close> ("anticone sizes for each blue in mergesetBlues") is
  never filled: with two blues it still has one entry.\<close>

lemma anticone_sizes_not_recorded:
  "\<exists>d. computeGhostdag (newEngine None None) (ex_header ''m'' [''a'', ''b'']) ex_bs ex_store = Inr d \<and>
     length (mergesetBlues d) = 2 \<and> length (bluesAnticoneSizes d) = 1"
proof -
  have "case computeGhostdag (newEngine None None) (ex_header ''m'' [''a'', ''b'']) ex_bs ex_store of
    Inl e \<Rightarrow> False | Inr d \<Rightarrow> length (mergesetBlues d) = 2 \<and> length (bluesAnticoneSizes d) = 1" by code_simp
  then show ?thesis by (auto split: sum.splits)
qed

end
