(* ===== verification/HK_Dag.thy ===== *)
theory HK_Dag
  imports HK_Engine
begin

text \<open>
  The simulated block DAG of the local network: \<open>packages/localnet/src/dag.ts\<close> and the types
  \<open>SimulatedBlock\<close> and \<open>SimulatedDag\<close> of \<open>types.ts\<close>.

  \<^item> \<open>dag.blocks\<close> is an association list in insertion order. The two \<open>WeakMap\<close>s that hang the id
    maps on a DAG object are two optional fields of the record; an object made by spreading
    another one (\<open>moveSink\<close>) has none, and the accessors then start from the genesis entry.
  \<^item> \<open>addSimulatedBlock\<close> writes the store and the id maps of the DAG it is given; the model
    passes them on to the DAG it returns, which is the only one the code goes on with.
  \<^item> The walk of \<open>calculateSelectedPath\<close> may not end (block ids can be reused, see below), so it
    is a partial function into \<^typ>\<open>'a option\<close>; \<open>moveSink\<close> then returns \<^const>\<open>None\<close>.
\<close>

subsection \<open>Data\<close>

record SimulatedBlock =
  b_id :: string
  b_parents :: "string list"
  b_blueScore :: string
  b_daaScore :: string
  b_acceptedTxIds :: "string list"
  b_isGenesis :: bool
  b_blueWork :: "string option"
  b_isBlue :: "bool option"
  b_ghostdagData :: "GhostdagData option"

record ConflictEntry =
  ce_outpoint :: string
  ce_winnerTxId :: string
  ce_loserTxIds :: "string list"

record SimulatedDag =
  dag_blocks :: "(string \<times> SimulatedBlock) list"
  dag_sink :: string
  dag_selectedPathToSink :: "string list"
  dag_acceptedTxIds :: "string list"
  dag_displacedTxIds :: "string list"
  dag_conflictSet :: "ConflictEntry list"
  dag_ghostdagStore :: "GhostdagStore option"
  dag_ghostdagEngine :: "ApproxGhostdagEngine option"
  dag_idMap :: "(string \<times> BlockHash) list option"
  dag_reverseIdMap :: "(BlockHash \<times> string) list option"

definition getIdMap :: "SimulatedDag \<Rightarrow> (string \<times> BlockHash) list" where
  "getIdMap dag = (case dag_idMap dag of Some m \<Rightarrow> m | None \<Rightarrow> [(''genesis'', GENESIS_HASH)])"

definition getReverseIdMap :: "SimulatedDag \<Rightarrow> (BlockHash \<times> string) list" where
  "getReverseIdMap dag = (case dag_reverseIdMap dag of Some m \<Rightarrow> m | None \<Rightarrow> [(GENESIS_HASH, ''genesis'')])"

definition lookupOr :: "(string \<times> string) list \<Rightarrow> string \<Rightarrow> string" where
  "lookupOr m x = js_or (map_of m x) x"

definition toGhostdagSimBlock :: "SimulatedBlock \<Rightarrow> (string \<times> BlockHash) list \<Rightarrow> SimBlock" where
  "toGhostdagSimBlock block idMap =
     \<lparr>header = \<lparr>hdr_hash = lookupOr idMap (b_id block), hdr_parents = map (lookupOr idMap) (b_parents block),
        hdr_timestampUs = 0, hdr_minerId = 0, hdr_bits = 1000, hdr_nonce = 0\<rparr>,
      ghostdag_of = None\<rparr>"

definition genesisBlock :: SimulatedBlock where
  "genesisBlock = \<lparr>b_id = ''genesis'', b_parents = [], b_blueScore = ''0'', b_daaScore = ''0'',
     b_acceptedTxIds = [], b_isGenesis = True, b_blueWork = None, b_isBlue = None, b_ghostdagData = None\<rparr>"

definition createSimulatedDag :: "int option \<Rightarrow> SimulatedDag" where
  "createSimulatedDag k =
     \<lparr>dag_blocks = [(''genesis'', genesisBlock)], dag_sink = ''genesis'', dag_selectedPathToSink = [''genesis''],
      dag_acceptedTxIds = [], dag_displacedTxIds = [], dag_conflictSet = [],
      dag_ghostdagStore = Some (store_insert GENESIS_HASH (genesisGhostdagData GENESIS_HASH) [] newGhostdagStore),
      dag_ghostdagEngine = Some (newEngine (Some (case k of None \<Rightarrow> 18 | Some v \<Rightarrow> v)) None),
      dag_idMap = Some [(''genesis'', GENESIS_HASH)], dag_reverseIdMap = Some [(GENESIS_HASH, ''genesis'')]\<rparr>"

subsection \<open>Adding a block\<close>

definition allGdBlocks :: "SimulatedDag \<Rightarrow> (string \<times> BlockHash) list \<Rightarrow> SimBlock \<Rightarrow> blocks" where
  "allGdBlocks dag idMap gdBlock =
     AList.update (hdr_hash (header gdBlock)) gdBlock
       (foldl (\<lambda>m b. AList.update (lookupOr idMap (b_id b)) (toGhostdagSimBlock b idMap) m) [] (map snd (dag_blocks dag)))"

definition setBlue :: "bool \<Rightarrow> (BlockHash \<times> string) list \<Rightarrow> (string \<times> SimulatedBlock) list \<Rightarrow> BlockHash \<Rightarrow> (string \<times> SimulatedBlock) list" where
  "setBlue v reverseIdMap bs h =
     (let i = lookupOr reverseIdMap h in
      case map_of bs i of None \<Rightarrow> bs | Some b \<Rightarrow> AList.update i (b\<lparr>b_isBlue := Some v\<rparr>) bs)"

definition addSimulatedBlock :: "SimulatedDag \<Rightarrow> SimulatedBlock \<Rightarrow> SimulatedDag result" where
  "addSimulatedBlock dag block =
     (let idMap = getIdMap dag;
          reverseIdMap = getReverseIdMap dag;
          gdBlock = toGhostdagSimBlock block idMap;
          gdStore = (case dag_ghostdagStore dag of None \<Rightarrow> newGhostdagStore | Some s \<Rightarrow> s);
          dagEngine = (case dag_ghostdagEngine dag of None \<Rightarrow> newEngine None None | Some e \<Rightarrow> e)
      in bindE (computeGhostdag dagEngine gdBlock (allGdBlocks dag idMap gdBlock) gdStore) (\<lambda>gdData.
         let gdStore' = store_insert (hdr_hash (header gdBlock)) gdData [] gdStore;
             updatedBlock = block\<lparr>b_ghostdagData := Some gdData, b_blueWork := Some (int_str (blueWork gdData)),
               b_isBlue := Some True\<rparr>;
             isNew = (map_of idMap (b_id block) = None);
             idMap' = (if isNew then AList.update (b_id block) (b_id block) idMap else idMap);
             reverseIdMap' = (if isNew then AList.update (b_id block) (b_id block) reverseIdMap else reverseIdMap);
             newBlocks = AList.update (b_id block) updatedBlock (dag_blocks dag);
             blued = foldl (setBlue True reverseIdMap') newBlocks (mergesetBlues gdData);
             colored = foldl (setBlue False reverseIdMap') blued (mergesetReds gdData)
         in Inr (dag\<lparr>dag_blocks := colored,
                     dag_ghostdagStore := map_option (\<lambda>_. gdStore') (dag_ghostdagStore dag),
                     dag_idMap := Some idMap', dag_reverseIdMap := Some reverseIdMap'\<rparr>)))"

subsection \<open>The selected path and the reachable blocks\<close>

partial_function (option) selectedPath_loop :: "SimulatedDag \<Rightarrow> string \<Rightarrow> SimulatedBlock list \<Rightarrow> SimulatedBlock list option" where
  "selectedPath_loop dag currentId path =
     (if currentId = [] then Some path
      else case map_of (dag_blocks dag) currentId of
        None \<Rightarrow> Some path
      | Some current \<Rightarrow>
          if b_isGenesis current then Some (current # path)
          else case b_ghostdagData current of
            Some gd \<Rightarrow> selectedPath_loop dag (lookupOr (getReverseIdMap dag) (selectedParent gd)) (current # path)
          | None \<Rightarrow>
              if b_parents current = [] then Some (current # path)
              else selectedPath_loop dag (hd (b_parents current)) (current # path))"

declare selectedPath_loop.simps [code]

definition calculateSelectedPath :: "SimulatedDag \<Rightarrow> string \<Rightarrow> SimulatedBlock list option" where
  "calculateSelectedPath dag sinkId = selectedPath_loop dag sinkId []"

definition block_parents :: "(string \<times> SimulatedBlock) list \<Rightarrow> string \<Rightarrow> string list" where
  "block_parents bs i = (case map_of bs i of None \<Rightarrow> [] | Some b \<Rightarrow> b_parents b)"

definition all_pids :: "(string \<times> SimulatedBlock) list \<Rightarrow> string set" where
  "all_pids bs = (\<Union>(i, b) \<in> set bs. set (b_parents b))"

lemma block_parents_all: "set (block_parents bs i) \<subseteq> all_pids bs"
  by (cases "map_of bs i") (fastforce simp: block_parents_def all_pids_def dest: map_of_SomeD)+

text \<open>The stack grows at its end in the code; here its top is the head of the list.\<close>

function reach_loop :: "(string \<times> SimulatedBlock) list \<Rightarrow> string list \<Rightarrow> string list \<Rightarrow> string list" where
  "reach_loop bs [] reachable = reachable"
| "reach_loop bs (i # stack) reachable =
     (if i \<in> set reachable then reach_loop bs stack reachable
      else reach_loop bs (rev (block_parents bs i) @ stack) (reachable @ [i]))"
  by pat_completeness auto
termination
proof (relation "measures [\<lambda>(bs, stack, reachable). card ((set stack \<union> all_pids bs) - set reachable),
    \<lambda>(bs, stack, reachable). length stack]", goal_cases)
  case (2 bs i stack reachable)
  have "finite (all_pids bs)" by (auto simp: all_pids_def)
  then have "card ((set stack \<union> all_pids bs) - set reachable) \<le> card ((set (i # stack) \<union> all_pids bs) - set reachable)"
    by (intro card_mono) auto
  then show ?case by auto
next
  case (3 bs i stack reachable)
  have "finite (all_pids bs)" by (auto simp: all_pids_def)
  then have "card ((set (rev (block_parents bs i) @ stack) \<union> all_pids bs) - set (reachable @ [i]))
      < card ((set (i # stack) \<union> all_pids bs) - set reachable)"
    using 3 block_parents_all [of bs i] by (intro psubset_card_mono) auto
  then show ?case by simp
qed simp

definition identifyReachableBlocks :: "SimulatedDag \<Rightarrow> string \<Rightarrow> SimulatedBlock list" where
  "identifyReachableBlocks dag sinkId =
     List.map_filter (map_of (dag_blocks dag)) (reach_loop (dag_blocks dag) [sinkId] [])"

subsection \<open>Conflicts\<close>

text \<open>The state of a conflict resolution: the four accumulators both \<open>moveSink\<close> and
  \<open>resolveConflictsDeterministically\<close> thread through their loops.\<close>

record resolution =
  rs_accepted :: "string list"
  rs_displaced :: "string list"
  rs_conflicts :: "ConflictEntry list"
  rs_spent :: "(string \<times> string) list"

definition noResolution :: resolution where
  "noResolution = \<lparr>rs_accepted = [], rs_displaced = [], rs_conflicts = [], rs_spent = []\<rparr>"

fun firstSpent :: "(string \<times> string) list \<Rightarrow> string list \<Rightarrow> (string \<times> string) option" where
  "firstSpent spent [] = None"
| "firstSpent spent (i # inputs) =
     (case map_of spent i of Some w \<Rightarrow> Some (i, w) | None \<Rightarrow> firstSpent spent inputs)"

text \<open>Find the entry of an outpoint, or push a new one, and change its losers with \<open>push\<close>.\<close>

fun addLoser :: "(string list \<Rightarrow> string list) \<Rightarrow> string \<Rightarrow> string \<Rightarrow> ConflictEntry list \<Rightarrow> ConflictEntry list" where
  "addLoser push op w [] = [\<lparr>ce_outpoint = op, ce_winnerTxId = w, ce_loserTxIds = push []\<rparr>]"
| "addLoser push op w (c # cs) =
     (if ce_outpoint c = op then c\<lparr>ce_loserTxIds := push (ce_loserTxIds c)\<rparr> # cs
      else c # addLoser push op w cs)"

definition resolveTx :: "string \<Rightarrow> string list \<Rightarrow> resolution \<Rightarrow> resolution" where
  "resolveTx txId inputs rs =
     (case firstSpent (rs_spent rs) inputs of
        Some (op, w) \<Rightarrow>
          rs\<lparr>rs_conflicts := addLoser (\<lambda>ls. ls @ [txId]) op w (rs_conflicts rs),
             rs_displaced := rs_displaced rs @ [txId]\<rparr>
      | None \<Rightarrow>
          rs\<lparr>rs_accepted := rs_accepted rs @ [txId],
             rs_spent := foldl (\<lambda>m i. AList.update i txId m) (rs_spent rs) inputs\<rparr>)"

type_synonym txProvider = "string \<Rightarrow> string list option"

definition resolveBlockTx :: "txProvider \<Rightarrow> resolution \<Rightarrow> string \<Rightarrow> resolution" where
  "resolveBlockTx provider rs txId =
     (case provider txId of None \<Rightarrow> rs | Some inputs \<Rightarrow> resolveTx txId inputs rs)"

definition displaceTx :: "txProvider \<Rightarrow> resolution \<Rightarrow> string \<Rightarrow> resolution" where
  "displaceTx provider rs txId =
     (let rs1 = (if txId \<in> set (rs_displaced rs) then rs else rs\<lparr>rs_displaced := rs_displaced rs @ [txId]\<rparr>) in
      case provider txId of
        None \<Rightarrow> rs1
      | Some inputs \<Rightarrow>
          (case firstSpent (rs_spent rs1) inputs of
             None \<Rightarrow> rs1
           | Some (op, w) \<Rightarrow>
               rs1\<lparr>rs_conflicts :=
                 addLoser (\<lambda>ls. if txId \<in> set ls then ls else ls @ [txId]) op w (rs_conflicts rs1)\<rparr>))"

definition daaThen :: "SimulatedBlock \<Rightarrow> SimulatedBlock \<Rightarrow> int \<Rightarrow> int result" where
  "daaThen a b tie =
     bindE (bigE (b_daaScore a)) (\<lambda>daaA. bindE (bigE (b_daaScore b)) (\<lambda>daaB.
       Inr (if daaA \<noteq> daaB then (if daaA < daaB then -1 else 1) else tie)))"

definition compareSinkOrder :: "SimulatedBlock \<Rightarrow> SimulatedBlock \<Rightarrow> int result" where
  "compareSinkOrder a b =
     (let legacy = daaThen a b (deterministicCompare (b_id a) (b_id b)) in
      if b_ghostdagData a \<noteq> None \<and> b_ghostdagData b \<noteq> None then
        bindE (bigE (js_or (b_blueWork a) ''0'')) (\<lambda>workA. bindE (bigE (js_or (b_blueWork b) ''0'')) (\<lambda>workB.
          if workA \<noteq> workB then Inr (if workA < workB then -1 else 1)
          else if b_isBlue a \<noteq> b_isBlue b then Inr (if b_isBlue a = Some True then -1 else 1)
          else legacy))
      else legacy)"

definition moveSink :: "SimulatedDag \<Rightarrow> string \<Rightarrow> txProvider \<Rightarrow> SimulatedDag result option" where
  "moveSink dag newSinkId provider =
     (if map_of (dag_blocks dag) newSinkId = None then Some (Inl (''Block '' @ newSinkId @ '' not found in DAG.''))
      else case calculateSelectedPath dag newSinkId of
        None \<Rightarrow> None
      | Some selectedPath \<Rightarrow> Some (
          bindE (js_sortE compareSinkOrder (identifyReachableBlocks dag newSinkId)) (\<lambda>sortedBlocks.
            let rs = foldl (resolveBlockTx provider) noResolution (concat (map b_acceptedTxIds sortedBlocks));
                newlyDisplaced = filter (\<lambda>i. i \<notin> set (rs_accepted rs)) (dag_acceptedTxIds dag);
                rs' = foldl (displaceTx provider) rs newlyDisplaced
            in Inr (dag\<lparr>dag_sink := newSinkId, dag_selectedPathToSink := map b_id selectedPath,
                        dag_acceptedTxIds := rs_accepted rs', dag_displacedTxIds := rs_displaced rs',
                        dag_conflictSet := rs_conflicts rs',
                        dag_idMap := None, dag_reverseIdMap := None\<rparr>))))"

record ConflictTx =
  ct_txId :: string
  ct_blockId :: string
  ct_inputs :: "string list"

definition compareConflictTxs :: "SimulatedDag \<Rightarrow> ConflictTx \<Rightarrow> ConflictTx \<Rightarrow> int result" where
  "compareConflictTxs dag a b =
     (case (map_of (dag_blocks dag) (ct_blockId a), map_of (dag_blocks dag) (ct_blockId b)) of
        (None, None) \<Rightarrow> Inr (deterministicCompare (ct_txId a) (ct_txId b))
      | (None, Some _) \<Rightarrow> Inr 1
      | (Some _, None) \<Rightarrow> Inr (-1)
      | (Some blockA, Some blockB) \<Rightarrow>
          (let inPathA = (ct_blockId a \<in> set (dag_selectedPathToSink dag));
               inPathB = (ct_blockId b \<in> set (dag_selectedPathToSink dag));
               legacy = daaThen blockA blockB
                 (if ct_blockId a \<noteq> ct_blockId b then deterministicCompare (ct_blockId a) (ct_blockId b)
                  else deterministicCompare (ct_txId a) (ct_txId b))
           in if inPathA \<noteq> inPathB then Inr (if inPathA then -1 else 1)
              else if b_ghostdagData blockA \<noteq> None \<and> b_ghostdagData blockB \<noteq> None then
                (if b_isBlue blockA \<noteq> b_isBlue blockB then Inr (if b_isBlue blockA = Some True then -1 else 1)
                 else bindE (bigE (js_or (b_blueWork blockA) ''0'')) (\<lambda>workA.
                      bindE (bigE (js_or (b_blueWork blockB) ''0'')) (\<lambda>workB.
                        if workA \<noteq> workB then Inr (if workA < workB then -1 else 1) else legacy)))
              else legacy))"

definition resolveConflictsDeterministically :: "ConflictTx list \<Rightarrow> SimulatedDag \<Rightarrow> resolution result" where
  "resolveConflictsDeterministically txs dag =
     bindE (js_sortE (compareConflictTxs dag) txs) (\<lambda>sortedTxs.
       Inr (foldl (\<lambda>rs t. resolveTx (ct_txId t) (ct_inputs t) rs) noResolution sortedTxs))"

subsection \<open>Chain and tips\<close>

definition getSelectedChain :: "SimulatedDag \<Rightarrow> string list option" where
  "getSelectedChain dag = map_option (map b_id) (calculateSelectedPath dag (dag_sink dag))"

definition tipsOf :: "SimulatedDag \<Rightarrow> string list" where
  "tipsOf dag = filter (\<lambda>i. i \<notin> set (concat (map (b_parents \<circ> snd) (dag_blocks dag)))) (map fst (dag_blocks dag))"

definition findBestTip :: "SimulatedDag \<Rightarrow> string result" where
  "findBestTip dag =
     (let idMap = getIdMap dag; tips = tipsOf dag in
      if dag_blocks dag = [] then Inr ''genesis''
      else if tips = [] then Inr (dag_sink dag)
      else bindE (mapE (\<lambda>i. bindE (bigE (js_or (case map_of (dag_blocks dag) i of None \<Rightarrow> None | Some b \<Rightarrow> b_blueWork b) ''0'')) (\<lambda>w.
             Inr \<lparr>sb_hash = lookupOr idMap i, sb_blueWork = w\<rparr>)) tips) (\<lambda>tipData.
        let bestTipHash = findSelectedParent tipData;
            bestTip = List.find (\<lambda>i. Some (lookupOr idMap i) = bestTipHash) tips
        in Inr (js_or bestTip (hd tips))))"

subsection \<open>What the depth-first walk reaches\<close>

definition bpar :: "(string \<times> SimulatedBlock) list \<Rightarrow> (string \<times> string) set" where
  "bpar bs = {(i, p). p \<in> set (block_parents bs i)}"

lemma reach_loop_set:
  "\<forall>x \<in> set reachable. bpar bs `` {x} \<subseteq> set reachable \<union> set stack \<Longrightarrow>
   set (reach_loop bs stack reachable) = (bpar bs)\<^sup>* `` (set stack \<union> set reachable)"
proof (induction bs stack reachable rule: reach_loop.induct)
  case (1 bs reachable)
  then have "bpar bs `` set reachable \<subseteq> set reachable" by auto
  then show ?case by (simp add: closed_Image_rtrancl)
next
  case (2 bs i stack reachable)
  show ?case
  proof (cases "i \<in> set reachable")
    case True
    then have eq: "set (i # stack) \<union> set reachable = set stack \<union> set reachable" by auto
    have "set (reach_loop bs stack reachable) = (bpar bs)\<^sup>* `` (set stack \<union> set reachable)"
      using 2 True by (intro "2.IH"(1)) auto
    then show ?thesis using True eq by simp
  next
    case False
    have "set (reach_loop bs (rev (block_parents bs i) @ stack) (reachable @ [i])) =
      (bpar bs)\<^sup>* `` (set (rev (block_parents bs i) @ stack) \<union> set (reachable @ [i]))"
      using 2 False by (intro "2.IH"(2)) (auto simp: bpar_def)
    also have "set (rev (block_parents bs i) @ stack) \<union> set (reachable @ [i]) =
      bpar bs `` {i} \<union> (set (i # stack) \<union> set reachable)" by (auto simp: bpar_def)
    also have "(bpar bs)\<^sup>* `` (bpar bs `` {i} \<union> (set (i # stack) \<union> set reachable)) =
      (bpar bs)\<^sup>* `` (set (i # stack) \<union> set reachable)" by (auto intro: converse_rtrancl_into_rtrancl)
    finally show ?thesis using False by simp
  qed
qed

lemma set_reach_loop: "set (reach_loop bs [sinkId] []) = (bpar bs)\<^sup>* `` {sinkId}"
  by (subst reach_loop_set) auto

lemma distinct_reach_loop: "distinct reachable \<Longrightarrow> distinct (reach_loop bs stack reachable)"
  by (induction bs stack reachable rule: reach_loop.induct) auto

lemma mem_map_filter: "y \<in> set (List.map_filter f xs) \<longleftrightarrow> (\<exists>x \<in> set xs. f x = Some y)"
  by (induction xs) (auto split: option.splits)

lemma reachable_blocks_iff:
  "b \<in> set (identifyReachableBlocks dag s) \<longleftrightarrow> (\<exists>i. (s, i) \<in> (bpar (dag_blocks dag))\<^sup>* \<and> map_of (dag_blocks dag) i = Some b)"
  unfolding identifyReachableBlocks_def mem_map_filter set_reach_loop by auto

subsection \<open>What a resolution guarantees\<close>

definition res_ok :: "txProvider \<Rightarrow> resolution \<Rightarrow> bool" where
  "res_ok provider rs \<longleftrightarrow>
     (\<forall>i w. map_of (rs_spent rs) i = Some w \<longrightarrow> w \<in> set (rs_accepted rs) \<and> (\<exists>is. provider w = Some is \<and> i \<in> set is)) \<and>
     (\<forall>t \<in> set (rs_accepted rs). \<exists>is. provider t = Some is \<and> (\<forall>i \<in> set is. map_of (rs_spent rs) i = Some t))"

definition conflicts_ok :: "txProvider \<Rightarrow> resolution \<Rightarrow> bool" where
  "conflicts_ok provider rs \<longleftrightarrow>
     (\<forall>c \<in> set (rs_conflicts rs). map_of (rs_spent rs) (ce_outpoint c) = Some (ce_winnerTxId c) \<and>
        (\<forall>l \<in> set (ce_loserTxIds c). l \<in> set (rs_displaced rs) \<and> (\<exists>is. provider l = Some is \<and> ce_outpoint c \<in> set is)))"

lemma firstSpent_Some:
  "firstSpent spent inputs = Some (op, w) \<Longrightarrow> op \<in> set inputs \<and> map_of spent op = Some w"
  by (induction inputs) (auto split: option.splits)

lemma firstSpent_None: "firstSpent spent inputs = None \<longleftrightarrow> (\<forall>i \<in> set inputs. map_of spent i = None)"
  by (induction inputs) (auto split: option.splits)

lemma map_of_foldl_spend:
  "map_of (foldl (\<lambda>m i. AList.update i t m) spent inputs) i = (if i \<in> set inputs then Some t else map_of spent i)"
  by (induction inputs arbitrary: spent) auto

lemma addLoser_mem:
  assumes "c \<in> set (addLoser push op w cs)"
  shows "c \<in> set cs \<or> (c = \<lparr>ce_outpoint = op, ce_winnerTxId = w, ce_loserTxIds = push []\<rparr>) \<or>
    (\<exists>c' \<in> set cs. ce_outpoint c' = op \<and> c = c'\<lparr>ce_loserTxIds := push (ce_loserTxIds c')\<rparr>)"
  using assms by (induction cs) (auto split: if_splits)

lemma conflicts_ok_addLoser:
  assumes "conflicts_ok provider rs" "map_of (rs_spent rs) op = Some w" "provider t = Some is" "op \<in> set is"
    and "\<And>ls. set (push ls) \<subseteq> insert t (set ls)" "t \<in> set (rs_displaced rs')"
    and "rs_spent rs' = rs_spent rs" "rs_conflicts rs' = addLoser push op w (rs_conflicts rs)"
    and "set (rs_displaced rs) \<subseteq> set (rs_displaced rs')"
  shows "conflicts_ok provider rs'"
  unfolding conflicts_ok_def
proof
  fix c
  assume "c \<in> set (rs_conflicts rs')"
  then consider "c \<in> set (rs_conflicts rs)" | "c = \<lparr>ce_outpoint = op, ce_winnerTxId = w, ce_loserTxIds = push []\<rparr>"
    | c' where "c' \<in> set (rs_conflicts rs)" "ce_outpoint c' = op" "c = c'\<lparr>ce_loserTxIds := push (ce_loserTxIds c')\<rparr>"
    using assms(8) addLoser_mem [of c push op w "rs_conflicts rs"] by auto
  then show "map_of (rs_spent rs') (ce_outpoint c) = Some (ce_winnerTxId c) \<and>
      (\<forall>l \<in> set (ce_loserTxIds c). l \<in> set (rs_displaced rs') \<and> (\<exists>is. provider l = Some is \<and> ce_outpoint c \<in> set is))"
  proof cases
    case 1
    then show ?thesis using assms(1,7,9) by (auto simp: conflicts_ok_def)
  next
    case 2
    then show ?thesis using assms(2-7) assms(5) [of "[]"] by auto
  next
    case 3
    then show ?thesis using assms(1-4,6,7,9) assms(5) [of "ce_loserTxIds c'"] by (fastforce simp: conflicts_ok_def)
  qed
qed

lemma resolveTx_cases:
  obtains (displaced) op w where "op \<in> set inputs" "map_of (rs_spent rs) op = Some w"
      "resolveTx t inputs rs = rs\<lparr>rs_conflicts := addLoser (\<lambda>ls. ls @ [t]) op w (rs_conflicts rs),
         rs_displaced := rs_displaced rs @ [t]\<rparr>"
  | (accepted) "\<forall>i \<in> set inputs. map_of (rs_spent rs) i = None"
      "resolveTx t inputs rs = rs\<lparr>rs_accepted := rs_accepted rs @ [t],
         rs_spent := foldl (\<lambda>m i. AList.update i t m) (rs_spent rs) inputs\<rparr>"
proof (cases "firstSpent (rs_spent rs) inputs")
  case None
  then show ?thesis using accepted firstSpent_None [of "rs_spent rs" inputs] by (simp add: resolveTx_def)
next
  case (Some r)
  then obtain op w where eq: "firstSpent (rs_spent rs) inputs = Some (op, w)" by (cases r) auto
  from firstSpent_Some [OF eq] show ?thesis using eq by (intro displaced [of op w]) (auto simp: resolveTx_def)
qed

lemma resolveTx_ok:
  assumes ok: "res_ok provider rs" and inp: "provider t = Some inputs"
  shows "res_ok provider (resolveTx t inputs rs)"
proof (cases rule: resolveTx_cases [of inputs rs t])
  case displaced
  then show ?thesis using ok by (simp add: res_ok_def)
next
  case accepted
  have keep: "map_of (rs_spent rs) i = Some w \<Longrightarrow> i \<notin> set inputs" for i w using accepted(1) by force
  have "map_of (rs_spent (resolveTx t inputs rs)) i = (if i \<in> set inputs then Some t else map_of (rs_spent rs) i)" for i
    by (simp add: accepted(2) map_of_foldl_spend)
  moreover have "rs_accepted (resolveTx t inputs rs) = rs_accepted rs @ [t]" by (simp add: accepted(2))
  ultimately show ?thesis using ok inp keep unfolding res_ok_def by (auto split: if_splits)
qed

lemma resolveTx_conflicts_ok:
  assumes ok: "conflicts_ok provider rs" and inp: "provider t = Some inputs"
  shows "conflicts_ok provider (resolveTx t inputs rs)"
proof (cases rule: resolveTx_cases [of inputs rs t])
  case (displaced op w)
  then show ?thesis using inp by (intro conflicts_ok_addLoser [OF ok, of op w t inputs "\<lambda>ls. ls @ [t]"]) auto
next
  case accepted
  have "map_of (rs_spent rs) i = Some w \<Longrightarrow> i \<notin> set inputs" for i w using accepted(1) by force
  then show ?thesis using ok unfolding conflicts_ok_def accepted(2) by (simp add: map_of_foldl_spend)
qed

lemma resolveTx_covers: "set (rs_accepted (resolveTx t inputs rs)) \<union> set (rs_displaced (resolveTx t inputs rs)) =
    insert t (set (rs_accepted rs) \<union> set (rs_displaced rs))"
  by (cases rule: resolveTx_cases [of inputs rs t]) auto

lemma resolveBlockTx_step:
  assumes "res_ok provider rs" "conflicts_ok provider rs"
  shows "res_ok provider (resolveBlockTx provider rs t)" "conflicts_ok provider (resolveBlockTx provider rs t)"
    "set (rs_accepted (resolveBlockTx provider rs t)) \<union> set (rs_displaced (resolveBlockTx provider rs t)) =
      set (rs_accepted rs) \<union> set (rs_displaced rs) \<union> {x. x = t \<and> provider t \<noteq> None}"
  using assms
  by (cases "provider t"; simp add: resolveBlockTx_def resolveTx_ok resolveTx_conflicts_ok resolveTx_covers)+

lemma resolveBlockTx_fold:
  "\<lbrakk>res_ok provider rs; conflicts_ok provider rs; rs' = foldl (resolveBlockTx provider) rs ts\<rbrakk> \<Longrightarrow>
    res_ok provider rs' \<and> conflicts_ok provider rs' \<and>
    set (rs_accepted rs') \<union> set (rs_displaced rs') =
      set (rs_accepted rs) \<union> set (rs_displaced rs) \<union> {t \<in> set ts. provider t \<noteq> None}"
proof (induction ts arbitrary: rs)
  case (Cons t ts)
  note step = resolveBlockTx_step [OF Cons.prems(1,2), of t]
  from Cons.prems(3) have rs': "rs' = foldl (resolveBlockTx provider) (resolveBlockTx provider rs t) ts" by simp
  have "{x. x = t \<and> provider t \<noteq> None} \<union> {t \<in> set ts. provider t \<noteq> None} = {u \<in> set (t # ts). provider u \<noteq> None}"
    by auto
  then show ?case using Cons.IH [OF step(1,2) rs'] step(3) by (simp add: Un_assoc)
qed simp

lemma noResolution_ok [simp]: "res_ok provider noResolution" "conflicts_ok provider noResolution"
  by (simp_all add: res_ok_def conflicts_ok_def noResolution_def)

lemma displaceTx_simps [simp]:
  "rs_accepted (displaceTx provider rs t) = rs_accepted rs"
  "rs_spent (displaceTx provider rs t) = rs_spent rs"
  "set (rs_displaced (displaceTx provider rs t)) = insert t (set (rs_displaced rs))"
  by (auto simp: displaceTx_def Let_def split: option.splits prod.splits)

lemma displaceTx_conflicts_ok:
  assumes "conflicts_ok provider rs"
  shows "conflicts_ok provider (displaceTx provider rs t)"
proof -
  define rs1 where "rs1 = (if t \<in> set (rs_displaced rs) then rs else rs\<lparr>rs_displaced := rs_displaced rs @ [t]\<rparr>)"
  have ok1: "conflicts_ok provider rs1" using assms by (auto simp: rs1_def conflicts_ok_def)
  have mem: "t \<in> set (rs_displaced rs1)" by (simp add: rs1_def)
  show ?thesis
  proof (cases "\<exists>is op w. provider t = Some is \<and> firstSpent (rs_spent rs1) is = Some (op, w)")
    case True
    then obtain is' op w where i: "provider t = Some is'" and f: "firstSpent (rs_spent rs1) is' = Some (op, w)" by blast
    from firstSpent_Some [OF f] have g: "op \<in> set is'" "map_of (rs_spent rs1) op = Some w" by auto
    have "displaceTx provider rs t = rs1\<lparr>rs_conflicts :=
        addLoser (\<lambda>ls. if t \<in> set ls then ls else ls @ [t]) op w (rs_conflicts rs1)\<rparr>"
      using i f by (simp add: displaceTx_def Let_def rs1_def)
    then show ?thesis using i g mem
      by (intro conflicts_ok_addLoser [OF ok1, of op w t is' "\<lambda>ls. if t \<in> set ls then ls else ls @ [t]"]) auto
  next
    case False
    then have "displaceTx provider rs t = rs1"
      by (auto simp: displaceTx_def Let_def rs1_def split: option.splits)
    then show ?thesis using ok1 by simp
  qed
qed

lemma displaceTx_fold:
  "rs_accepted (foldl (displaceTx provider) rs ts) = rs_accepted rs"
  "rs_spent (foldl (displaceTx provider) rs ts) = rs_spent rs"
  "set (rs_displaced (foldl (displaceTx provider) rs ts)) = set ts \<union> set (rs_displaced rs)"
  "conflicts_ok provider rs \<Longrightarrow> conflicts_ok provider (foldl (displaceTx provider) rs ts)"
  by (induction ts arbitrary: rs) (auto simp: displaceTx_conflicts_ok)

end
