(* ===== verification/HK_DagInv.thy ===== *)
theory HK_DagInv
  imports HK_Dag
begin

text \<open>
  The invariant of the simulated DAG and the properties of its operations (\<open>dag.ts\<close>).

  \<open>dag_reach\<close> is the state machine of a DAG session: it is created, blocks with a fresh id and
  known parents are added, the sink is moved. \<open>dag_inv\<close> holds in every state of it; with it the
  engine is always called in a well-formed context, the selected path ends and runs from genesis
  to the sink, and the best tip is the tip with the most blue work.
\<close>

subsection \<open>Ids and hashes\<close>

definition hash_of :: "string \<Rightarrow> BlockHash" where
  "hash_of i = (if i = ''genesis'' then GENESIS_HASH else i)"

definition id_of :: "BlockHash \<Rightarrow> string" where
  "id_of h = (if h = GENESIS_HASH then ''genesis'' else h)"

lemma genesis_hash_neq [simp]: "''genesis'' \<noteq> GENESIS_HASH" "GENESIS_HASH \<noteq> ''genesis''" "GENESIS_HASH \<noteq> []"
  by code_simp+

definition valid_id :: "string \<Rightarrow> bool" where
  "valid_id i \<longleftrightarrow> i \<noteq> [] \<and> i \<noteq> GENESIS_HASH"

lemma id_of_hash_of [simp]: "valid_id i \<Longrightarrow> id_of (hash_of i) = i"
  by (simp add: id_of_def hash_of_def valid_id_def)

lemma hash_of_inj: "valid_id i \<Longrightarrow> valid_id j \<Longrightarrow> hash_of i = hash_of j \<longleftrightarrow> i = j"
  by (metis id_of_hash_of)

lemma hash_of_genesis: "valid_id i \<Longrightarrow> hash_of i = GENESIS_HASH \<longleftrightarrow> i = ''genesis''"
  by (auto simp: hash_of_def valid_id_def)

definition maps_ok :: "SimulatedDag \<Rightarrow> bool" where
  "maps_ok dag \<longleftrightarrow>
     map_of (getIdMap dag) ''genesis'' = Some GENESIS_HASH \<and> list_all (\<lambda>(i, h). h = hash_of i) (getIdMap dag) \<and>
     map_of (getReverseIdMap dag) GENESIS_HASH = Some ''genesis'' \<and> list_all (\<lambda>(h, i). i = id_of h) (getReverseIdMap dag)"

lemma lookupOr_id:
  assumes "map_of m ''genesis'' = Some GENESIS_HASH" "list_all (\<lambda>(i, h). h = hash_of i) m"
  shows "lookupOr m i = hash_of i"
proof (cases "map_of m i")
  case None
  then have "i \<noteq> ''genesis''" using assms(1) by auto
  with None show ?thesis by (simp add: lookupOr_def hash_of_def del: map_of_eq_None_iff)
next
  case (Some h)
  then have "h = hash_of i" using assms(2) map_of_SomeD by (fastforce simp: list_all_iff)
  with Some show ?thesis by (simp add: lookupOr_def js_or_def hash_of_def)
qed

lemma lookupOr_rev:
  assumes "map_of m GENESIS_HASH = Some ''genesis''" "list_all (\<lambda>(h, i). i = id_of h) m"
  shows "lookupOr m h = id_of h"
proof (cases "map_of m h")
  case None
  then have "h \<noteq> GENESIS_HASH" using assms(1) by auto
  with None show ?thesis by (simp add: lookupOr_def id_of_def del: map_of_eq_None_iff)
next
  case (Some i)
  then have "i = id_of h" using assms(2) map_of_SomeD by (fastforce simp: list_all_iff)
  with Some show ?thesis by (simp add: lookupOr_def js_or_def id_of_def)
qed

lemma maps_ok_lookup:
  "maps_ok dag \<Longrightarrow> lookupOr (getIdMap dag) i = hash_of i"
  "maps_ok dag \<Longrightarrow> lookupOr (getReverseIdMap dag) h = id_of h"
  by (simp_all add: maps_ok_def lookupOr_id lookupOr_rev)

subsection \<open>The invariant\<close>

definition genesis_ok :: "SimulatedBlock \<Rightarrow> bool" where
  "genesis_ok b \<longleftrightarrow> b_id b = ''genesis'' \<and> b_isGenesis b \<and> b_parents b = [] \<and> b_ghostdagData b = None \<and> b_blueWork b = None \<and>
     is_ok (bigE (b_daaScore b))"

definition block_ok :: "string set \<Rightarrow> GhostdagStore \<Rightarrow> string \<Rightarrow> SimulatedBlock \<Rightarrow> bool" where
  "block_ok ids st i b \<longleftrightarrow> b_id b = i \<and> \<not> b_isGenesis b \<and> b_parents b \<noteq> [] \<and> set (b_parents b) \<subseteq> ids \<and>
     is_ok (bigE (b_daaScore b)) \<and>
     (\<exists>d. b_ghostdagData b = Some d \<and> b_blueWork b = Some (int_str (blueWork d)) \<and> getData st i = Some d \<and>
        selectedParent d \<in> hash_of ` set (b_parents b) \<and> 0 < blueWork d \<and>
        (\<forall>p \<in> set (b_parents b). workOr0 st (hash_of p) < blueWork d))"

definition dag_ids :: "SimulatedDag \<Rightarrow> string set" where
  "dag_ids dag = fst ` set (dag_blocks dag)"

definition dag_inv :: "SimulatedDag \<Rightarrow> bool" where
  "dag_inv dag \<longleftrightarrow> maps_ok dag \<and> distinct (map fst (dag_blocks dag)) \<and> (\<forall>i \<in> dag_ids dag. valid_id i) \<and>
     (\<exists>eng. dag_ghostdagEngine dag = Some eng \<and> eng_genesisHash eng = GENESIS_HASH) \<and>
     (\<exists>b. map_of (dag_blocks dag) ''genesis'' = Some b \<and> genesis_ok b) \<and>
     (\<exists>st. dag_ghostdagStore dag = Some st \<and> store_inv st \<and> workOr0 st GENESIS_HASH = 0 \<and>
        (\<forall>i b. map_of (dag_blocks dag) i = Some b \<longrightarrow> i \<noteq> ''genesis'' \<longrightarrow> block_ok (dag_ids dag) st i b))"

lemma dag_ids_iff: "i \<in> dag_ids dag \<longleftrightarrow> (\<exists>b. map_of (dag_blocks dag) i = Some b)"
  by (metis dag_ids_def map_of_None_iff_keys not_Some_eq)

lemma dag_inv_block:
  assumes "dag_inv dag" "map_of (dag_blocks dag) i = Some b" "i \<noteq> ''genesis''" "dag_ghostdagStore dag = Some st"
  shows "block_ok (dag_ids dag) st i b"
  using assms by (auto simp: dag_inv_def)

lemma dag_inv_id: "dag_inv dag \<Longrightarrow> map_of (dag_blocks dag) i = Some b \<Longrightarrow> b_id b = i"
  by (cases "i = ''genesis''") (auto simp: dag_inv_def genesis_ok_def block_ok_def)

lemma dag_inv_genesis:
  assumes "dag_inv dag" "map_of (dag_blocks dag) ''genesis'' = Some b"
  shows "genesis_ok b"
  using assms by (auto simp: dag_inv_def)

lemma dag_inv_parents:
  assumes inv: "dag_inv dag" and b: "map_of (dag_blocks dag) i = Some b"
  shows "set (b_parents b) \<subseteq> dag_ids dag"
proof (cases "i = ''genesis''")
  case True
  then show ?thesis using dag_inv_genesis [OF inv] b by (simp add: genesis_ok_def)
next
  case False
  obtain st where "dag_ghostdagStore dag = Some st" using inv by (auto simp: dag_inv_def)
  then show ?thesis using dag_inv_block [OF inv b False] by (simp add: block_ok_def)
qed

lemma workOr0_data: "store_inv st \<Longrightarrow> getData st h = Some d \<Longrightarrow> workOr0 st h = blueWork d"
  by (simp add: workOr0_def gds.work_data)

lemma bigE_0: "is_ok (bigE ''0'')"
  by code_simp

lemma createSimulatedDag_inv: "dag_inv (createSimulatedDag k)"
proof -
  have "store_inv (store_insert GENESIS_HASH (genesisGhostdagData GENESIS_HASH) [] newGhostdagStore)"
    by (intro gds.inv_insert gds.inv_empty)
  moreover have "workOr0 (store_insert GENESIS_HASH (genesisGhostdagData GENESIS_HASH) [] newGhostdagStore) GENESIS_HASH = 0"
    using gds.read_back [OF gds.inv_empty, of GENESIS_HASH "genesisGhostdagData GENESIS_HASH" "[]"]
    by (simp add: workOr0_def genesisGhostdagData_def)
  ultimately show ?thesis
    using bigE_0 by (simp add: dag_inv_def createSimulatedDag_def maps_ok_def getIdMap_def getReverseIdMap_def hash_of_def id_of_def
        dag_ids_def valid_id_def newEngine_def genesis_ok_def genesisBlock_def)
qed

subsection \<open>The context of the engine\<close>

lemma map_of_foldl_gd:
  "map_of (foldl (\<lambda>m b. AList.update (f b) (g b) m) m bs) h =
     (case List.find (\<lambda>b. f b = h) (rev bs) of Some b \<Rightarrow> Some (g b) | None \<Rightarrow> map_of m h)"
  by (induction bs arbitrary: m rule: rev_induct) auto

lemma keys_foldl_gd: "fst ` set (foldl (\<lambda>m b. AList.update (f b) (g b) m) m bs) = fst ` set m \<union> f ` set bs"
  by (induction bs arbitrary: m) (auto simp: dom_map_of_conv_image_fst [symmetric])

lemma allGdBlocks_keys:
  assumes "dag_inv dag"
  shows "fst ` set (allGdBlocks dag (getIdMap dag) (toGhostdagSimBlock block (getIdMap dag))) =
    insert (hash_of (b_id block)) (hash_of ` dag_ids dag)"
proof -
  have maps: "maps_ok dag" using assms by (simp add: dag_inv_def)
  have "b_id (snd ib) = fst ib" if "ib \<in> set (dag_blocks dag)" for ib
    using assms that by (cases ib) (auto simp: dag_inv_def intro: dag_inv_id [OF assms] map_of_is_SomeI)
  then have "hash_of ` b_id ` snd ` set (dag_blocks dag) = hash_of ` dag_ids dag"
    by (force simp: dag_ids_def image_iff)
  then show ?thesis
    unfolding allGdBlocks_def
    by (simp add: dom_map_of_conv_image_fst [symmetric] toGhostdagSimBlock_def maps_ok_lookup [OF maps])
       (simp add: dom_map_of_conv_image_fst keys_foldl_gd image_image)
qed

lemma allGdBlocks_lookup:
  assumes inv: "dag_inv dag" and b: "map_of (dag_blocks dag) i = Some b"
    and new: "b_id block \<notin> dag_ids dag" "valid_id (b_id block)"
  shows "map_of (allGdBlocks dag (getIdMap dag) (toGhostdagSimBlock block (getIdMap dag))) (hash_of i) =
    Some (toGhostdagSimBlock b (getIdMap dag))"
proof -
  have maps: "maps_ok dag" and dist: "distinct (map fst (dag_blocks dag))" and valid: "\<forall>i \<in> dag_ids dag. valid_id i"
    using inv by (auto simp: dag_inv_def)
  have i: "i \<in> dag_ids dag" using b dag_ids_iff by blast
  have bid: "b_id b = i" using dag_inv_id [OF inv b] .
  have uniq: "c = b" if "c \<in> set (map snd (dag_blocks dag))" "hash_of (b_id c) = hash_of i" for c
  proof -
    from that(1) obtain j where "(j, c) \<in> set (dag_blocks dag)" by auto
    then have c: "map_of (dag_blocks dag) j = Some c" using dist by (simp add: map_of_is_SomeI)
    then have "b_id c = j" "j \<in> dag_ids dag" using dag_inv_id [OF inv] dag_ids_iff by auto
    then have "j = i" using that(2) valid i hash_of_inj by metis
    then show "c = b" using b c by simp
  qed
  have "b \<in> set (rev (map snd (dag_blocks dag)))" using map_of_SomeD [OF b] by force
  then obtain c where c: "List.find (\<lambda>c. hash_of (b_id c) = hash_of i) (rev (map snd (dag_blocks dag))) = Some c"
    using bid by (metis (mono_tags, lifting) find_None_iff not_Some_eq)
  then have "c = b" using uniq by (auto simp: find_Some_iff) (metis nth_mem length_rev length_map set_rev set_map)
  moreover have "hash_of (b_id block) \<noteq> hash_of i" using new valid i hash_of_inj by metis
  ultimately show ?thesis
    using c unfolding allGdBlocks_def by (simp add: toGhostdagSimBlock_def maps_ok_lookup [OF maps] map_of_foldl_gd)
qed

text \<open>A block that may be added: a new, valid id that is not marked as genesis, and at least one
  parent, all of them known; the DAA score is a number.\<close>

definition addable :: "SimulatedDag \<Rightarrow> SimulatedBlock \<Rightarrow> bool" where
  "addable dag block \<longleftrightarrow> b_id block \<notin> dag_ids dag \<and> valid_id (b_id block) \<and> \<not> b_isGenesis block \<and>
     b_parents block \<noteq> [] \<and> set (b_parents block) \<subseteq> dag_ids dag \<and> is_ok (bigE (b_daaScore block))"

definition context_of :: "SimulatedDag \<Rightarrow> SimulatedBlock \<Rightarrow> blocks" where
  "context_of dag block = allGdBlocks dag (getIdMap dag) (toGhostdagSimBlock block (getIdMap dag))"

lemma context_parents:
  assumes inv: "dag_inv dag" and add: "addable dag block" and b: "map_of (dag_blocks dag) i = Some b"
  shows "parents_of (context_of dag block) (hash_of i) = map hash_of (b_parents b)"
  using allGdBlocks_lookup [OF inv b] add maps_ok_lookup(1) [of dag] inv
  by (simp add: context_of_def parents_of_def toGhostdagSimBlock_def addable_def dag_inv_def comp_def cong: map_cong)

lemma context_closed:
  assumes inv: "dag_inv dag" and add: "addable dag block"
  shows "par (context_of dag block) `` (hash_of ` dag_ids dag) \<subseteq> hash_of ` dag_ids dag"
proof
  fix q
  assume "q \<in> par (context_of dag block) `` (hash_of ` dag_ids dag)"
  then obtain i b where b: "map_of (dag_blocks dag) i = Some b" and q: "q \<in> hash_of ` set (b_parents b)"
    using context_parents [OF inv add] by (auto simp: par_def dag_ids_iff)
  have "set (b_parents b) \<subseteq> dag_ids dag" using dag_inv_parents [OF inv b] .
  then show "q \<in> hash_of ` dag_ids dag" using q by blast
qed

lemma context_to_genesis:
  assumes inv: "dag_inv dag" and add: "addable dag block" and st: "dag_ghostdagStore dag = Some st"
  shows "i \<in> dag_ids dag \<Longrightarrow> (hash_of i, GENESIS_HASH) \<in> (par (context_of dag block))\<^sup>*"
proof (induction "nat (workOr0 st (hash_of i))" arbitrary: i rule: less_induct)
  case less
  then obtain b where b: "map_of (dag_blocks dag) i = Some b" by (auto simp: dag_ids_iff)
  show ?case
  proof (cases "i = ''genesis''")
    case True
    then show ?thesis by (simp add: hash_of_def)
  next
    case False
    have inv': "store_inv st" using inv st by (auto simp: dag_inv_def)
    from dag_inv_block [OF inv b False st] obtain d where
      d: "getData st i = Some d" "0 < blueWork d" "\<forall>p \<in> set (b_parents b). workOr0 st (hash_of p) < blueWork d"
      "b_parents b \<noteq> []" "set (b_parents b) \<subseteq> dag_ids dag" by (auto simp: block_ok_def)
    define p where "p = hd (b_parents b)"
    have p: "p \<in> set (b_parents b)" using d(4) by (simp add: p_def)
    have "workOr0 st (hash_of i) = blueWork d" using False workOr0_data [OF inv' d(1)] by (simp add: hash_of_def)
    then have "nat (workOr0 st (hash_of p)) < nat (workOr0 st (hash_of i))" using d(2,3) p by (simp add: zless_nat_conj)
    then have "(hash_of p, GENESIS_HASH) \<in> (par (context_of dag block))\<^sup>*" using less(1) p d(5) by blast
    moreover have "(hash_of i, hash_of p) \<in> par (context_of dag block)"
      using context_parents [OF inv add b] p by (simp add: par_def)
    ultimately show ?thesis by (rule converse_rtrancl_into_rtrancl [rotated])
  qed
qed

lemma context_path_known:
  assumes "dag_inv dag" "addable dag block" "i \<in> dag_ids dag" "(hash_of i, h) \<in> (par (context_of dag block))\<^sup>*"
  shows "h \<in> hash_of ` dag_ids dag"
  using closed_Image_rtrancl [OF context_closed [OF assms(1,2)]] assms(3,4) by blast

lemma simulated_context_wf:
  assumes inv: "dag_inv dag" and add: "addable dag block" and st: "dag_ghostdagStore dag = Some st"
  shows "wf_context (toGhostdagSimBlock block (getIdMap dag)) (context_of dag block) st"
proof -
  let ?bs = "context_of dag block" and ?new = "hash_of (b_id block)"
  have maps: "maps_ok dag" and valid: "\<forall>i \<in> dag_ids dag. valid_id i" and sinv: "store_inv st"
    using inv st by (auto simp: dag_inv_def)
  have hdr: "hdr_hash (header (toGhostdagSimBlock block (getIdMap dag))) = ?new"
    "hdr_parents (header (toGhostdagSimBlock block (getIdMap dag))) = map hash_of (b_parents block)"
    by (simp_all add: toGhostdagSimBlock_def maps_ok_lookup(1) [OF maps] cong: map_cong)
  have keys: "fst ` set ?bs = insert ?new (hash_of ` dag_ids dag)"
    unfolding context_of_def using allGdBlocks_keys [OF inv] .
  have fresh: "?new \<notin> hash_of ` dag_ids dag" using add valid hash_of_inj by (auto simp: addable_def)
  have par_new: "parents_of ?bs ?new = map hash_of (b_parents block)"
    by (simp add: context_of_def allGdBlocks_def parents_of_def hdr)
  have known: "set (b_parents block) \<subseteq> dag_ids dag" and ne: "b_parents block \<noteq> []" using add by (auto simp: addable_def)
  have "work_grows ?bs st ?new"
    unfolding work_grows_def list_all_iff
  proof clarify
    fix h b' p
    assume hb: "(h, b') \<in> set ?bs" and "h \<noteq> ?new" and p: "p \<in> set (parents_of ?bs h)"
    then obtain i where i: "i \<in> dag_ids dag" "h = hash_of i" using keys by (metis fst_conv image_iff insertE)
    then obtain b where b: "map_of (dag_blocks dag) i = Some b" by (auto simp: dag_ids_iff)
    have "i \<noteq> ''genesis''"
    proof
      assume "i = ''genesis''"
      then show False using dag_inv_genesis [OF inv] b p context_parents [OF inv add b] i(2) by (auto simp: genesis_ok_def)
    qed
    then show "workOr0 st p < workOr0 st h"
      using dag_inv_block [OF inv b _ st] p context_parents [OF inv add b] i(2) workOr0_data [OF sinv]
      by (auto simp: block_ok_def hash_of_def)
  qed
  moreover have "rooted ?bs"
    unfolding rooted_def list_all_iff
  proof clarify
    fix h b'
    assume "(h, b') \<in> set ?bs"
    then consider "h = ?new" | i where "i \<in> dag_ids dag" "h = hash_of i" using keys by (metis fst_conv image_iff insertE)
    then have "(h, GENESIS_HASH) \<in> (par ?bs)\<^sup>*"
    proof cases
      case 1
      have "(?new, hash_of (hd (b_parents block))) \<in> par ?bs" using ne par_new by (simp add: par_def)
      moreover have "(hash_of (hd (b_parents block)), GENESIS_HASH) \<in> (par ?bs)\<^sup>*"
        using context_to_genesis [OF inv add st] known ne hd_in_set by blast
      ultimately show ?thesis using 1 by (simp add: converse_rtrancl_into_rtrancl)
    qed (use context_to_genesis [OF inv add st] in blast)
    then show "GENESIS_HASH \<in> set (pastSet h ?bs)" by simp
  qed
  moreover have "hash_of p \<in> fst ` set ?bs \<and> ?new \<notin> set (pastSet (hash_of p) ?bs)" if "p \<in> set (b_parents block)" for p
    using keys known that fresh context_path_known [OF inv add, of p] by auto
  ultimately show ?thesis by (simp add: wf_context_def hdr list_all_iff)
qed

subsection \<open>Adding a block keeps the invariant\<close>

lemma setBlue_spec:
  "map fst (setBlue v m bs h) = map fst bs"
  "\<exists>f. \<forall>i. map_of (setBlue v m bs h) i = map_option (\<lambda>b. b\<lparr>b_isBlue := f i b\<rparr>) (map_of bs i)"
proof -
  show "map fst (setBlue v m bs h) = map fst bs"
    by (auto simp: setBlue_def Let_def AList.update_keys map_of_None_iff_keys split: option.splits dest: map_of_SomeD)
  show "\<exists>f. \<forall>i. map_of (setBlue v m bs h) i = map_option (\<lambda>b. b\<lparr>b_isBlue := f i b\<rparr>) (map_of bs i)"
  proof (intro exI allI)
    fix i
    show "map_of (setBlue v m bs h) i =
      map_option (\<lambda>b. b\<lparr>b_isBlue := (if i = lookupOr m h then Some v else b_isBlue b)\<rparr>) (map_of bs i)"
      by (cases "map_of bs (lookupOr m h)"; cases "map_of bs i") (auto simp: setBlue_def Let_def)
  qed
qed

lemma foldl_setBlue_spec:
  "map fst (foldl (setBlue v m) bs hs) = map fst bs"
  "\<exists>f. \<forall>i. map_of (foldl (setBlue v m) bs hs) i = map_option (\<lambda>b. b\<lparr>b_isBlue := f i b\<rparr>) (map_of bs i)"
proof (induction hs arbitrary: bs)
  case Nil
  case 2
  show ?case by (intro exI [of _ "\<lambda>i b. b_isBlue b"]) (simp add: option.map_ident)
next
  case (Cons h hs)
  case 1
  then show ?case using Cons.IH(1) setBlue_spec(1) by (metis foldl_Cons)
  case 2
  obtain f where f: "\<And>i. map_of (setBlue v m bs h) i = map_option (\<lambda>b. b\<lparr>b_isBlue := f i b\<rparr>) (map_of bs i)"
    using setBlue_spec(2) by blast
  obtain g where g: "\<And>i. map_of (foldl (setBlue v m) (setBlue v m bs h) hs) i =
      map_option (\<lambda>b. b\<lparr>b_isBlue := g i b\<rparr>) (map_of (setBlue v m bs h) i)"
    using Cons.IH(2) by blast
  show ?case
    by (intro exI [of _ "\<lambda>i b. g i (b\<lparr>b_isBlue := f i b\<rparr>)"])
       (simp add: f g option.map_comp o_def)
qed simp

lemma block_ok_isBlue [simp]: "block_ok ids st i (b\<lparr>b_isBlue := v\<rparr>) = block_ok ids st i b"
  by (simp add: block_ok_def)

lemma genesis_ok_isBlue [simp]: "genesis_ok (b\<lparr>b_isBlue := v\<rparr>) = genesis_ok b"
  by (simp add: genesis_ok_def)

lemma block_ok_insert:
  assumes ok: "block_ok ids st i b" and inv: "store_inv st" and new: "i \<noteq> h" "h \<notin> hash_of ` ids" and sub: "ids \<subseteq> ids'"
  shows "block_ok ids' (store_insert h d ps st) i b"
proof -
  have other: "getData (store_insert h d ps st) i = getData st i" using gds.read_other [OF inv, of i h] new by simp
  have "workOr0 (store_insert h d ps st) (hash_of p) = workOr0 st (hash_of p)" if "p \<in> set (b_parents b)" for p
  proof -
    have "hash_of p \<noteq> h" using ok new(2) that by (auto simp: block_ok_def)
    then show ?thesis using gds.read_other [OF inv, of "hash_of p" h] by (simp add: workOr0_def)
  qed
  then show ?thesis using ok sub other by (auto simp: block_ok_def)
qed

lemma context_bits:
  assumes "map_of (context_of dag block) h = Some b"
  shows "hdr_bits (header b) = 1000"
  using assms
  by (auto simp: context_of_def allGdBlocks_def map_of_foldl_gd toGhostdagSimBlock_def split: if_splits option.splits)

lemma dag_work_nonneg:
  assumes inv: "dag_inv dag" and st: "dag_ghostdagStore dag = Some st" and i: "i \<in> dag_ids dag"
  shows "0 \<le> workOr0 st (hash_of i)"
proof (cases "i = ''genesis''")
  case True
  then show ?thesis using inv st by (auto simp: dag_inv_def hash_of_def)
next
  case False
  obtain b where b: "map_of (dag_blocks dag) i = Some b" using i by (auto simp: dag_ids_iff)
  have "store_inv st" using inv st by (auto simp: dag_inv_def)
  then show ?thesis
    using dag_inv_block [OF inv b False st] False workOr0_data [of st i] by (auto simp: block_ok_def hash_of_def)
qed

text \<open>What the engine returns for a block that may be added.\<close>

lemma addable_engine:
  assumes inv: "dag_inv dag" and add: "addable dag block" and st: "dag_ghostdagStore dag = Some st"
    and eng: "dag_ghostdagEngine dag = Some eng"
  obtains d where "computeGhostdag eng (toGhostdagSimBlock block (getIdMap dag)) (context_of dag block) st = Inr d"
    "selectedParent d \<in> hash_of ` set (b_parents block)" "0 < blueWork d"
    "\<forall>p \<in> set (b_parents block). workOr0 st (hash_of p) < blueWork d"
proof -
  let ?b = "toGhostdagSimBlock block (getIdMap dag)"
  have maps: "maps_ok dag" and g: "eng_genesisHash eng = GENESIS_HASH" using inv eng by (auto simp: dag_inv_def)
  have hdr: "hdr_hash (header ?b) = hash_of (b_id block)" "hdr_parents (header ?b) = map hash_of (b_parents block)"
    by (simp_all add: toGhostdagSimBlock_def maps_ok_lookup(1) [OF maps] cong: map_cong)
  obtain gb where "map_of (dag_blocks dag) ''genesis'' = Some gb" using inv by (auto simp: dag_inv_def)
  then have gid: "''genesis'' \<in> dag_ids dag" using dag_ids_iff by blast
  have ng: "hdr_hash (header ?b) \<noteq> eng_genesisHash eng"
    using add gid hash_of_genesis [of "b_id block"] by (auto simp: hdr g addable_def)
  have keys: "fst ` set (context_of dag block) = insert (hash_of (b_id block)) (hash_of ` dag_ids dag)"
    unfolding context_of_def using allGdBlocks_keys [OF inv] .
  have known: "set (b_parents block) \<subseteq> dag_ids dag" "b_parents block \<noteq> []" using add by (auto simp: addable_def)
  have "is_ok (computeGhostdag eng ?b (context_of dag block) st)"
    using known keys by (subst engine_returns [OF ng]) (auto simp: hdr context_bits)
  then obtain d where d: "computeGhostdag eng ?b (context_of dag block) st = Inr d" by (auto simp: is_ok_iff)
  have "selectedParent d \<in> set (hdr_parents (header ?b)) \<and> (\<forall>p \<in> set (hdr_parents (header ?b)). workOr0 st p < blueWork d)"
    by (rule engine_selected_work [OF d ng]) (simp add: context_bits MAX_WORK_def)
  then have sel: "selectedParent d \<in> hash_of ` set (b_parents block)" "\<forall>p \<in> set (b_parents block). workOr0 st (hash_of p) < blueWork d"
    by (auto simp: hdr)
  moreover have "0 \<le> workOr0 st (hash_of (hd (b_parents block)))"
    using dag_work_nonneg [OF inv st] known hd_in_set by blast
  ultimately have "0 < blueWork d" using known(2) hd_in_set by (metis order_le_less_trans)
  then show thesis using that d sel by blast
qed

definition withData :: "SimulatedBlock \<Rightarrow> GhostdagData \<Rightarrow> SimulatedBlock" where
  "withData block d = block\<lparr>b_ghostdagData := Some d, b_blueWork := Some (int_str (blueWork d)), b_isBlue := Some True\<rparr>"

lemma ball_insert_subset: "A \<subseteq> insert x B \<Longrightarrow> P x \<Longrightarrow> \<forall>y \<in> B. P y \<Longrightarrow> \<forall>y \<in> A. P y"
  by blast

lemma set_update_subset: "set (AList.update k v al) \<subseteq> insert (k, v) (set al)"
  by (induction al) auto

text \<open>The DAG after an addition: ids, blocks up to their colour, store, engine and id maps.\<close>

lemma addSimulatedBlock_eq:
  assumes st: "dag_ghostdagStore dag = Some st" and eng: "dag_ghostdagEngine dag = Some eng" and maps: "maps_ok dag"
    and d: "computeGhostdag eng (toGhostdagSimBlock block (getIdMap dag)) (context_of dag block) st = Inr d"
    and fresh: "b_id block \<noteq> ''genesis''" "b_id block \<noteq> GENESIS_HASH"
  obtains dag' f where "addSimulatedBlock dag block = Inr dag'"
    "map fst (dag_blocks dag') = map fst (AList.update (b_id block) (withData block d) (dag_blocks dag))"
    "\<And>i. map_of (dag_blocks dag') i = map_option (\<lambda>b. b\<lparr>b_isBlue := f i b\<rparr>) (((map_of (dag_blocks dag))(b_id block \<mapsto> withData block d)) i)"
    "dag_ghostdagStore dag' = Some (store_insert (b_id block) d [] st)" "dag_ghostdagEngine dag' = Some eng" "maps_ok dag'"
proof -
  define m where "m = (if map_of (getIdMap dag) (b_id block) = None then AList.update (b_id block) (b_id block) (getIdMap dag) else getIdMap dag)"
  define r where "r = (if map_of (getIdMap dag) (b_id block) = None then AList.update (b_id block) (b_id block) (getReverseIdMap dag) else getReverseIdMap dag)"
  define bs1 where "bs1 = foldl (setBlue True r) (AList.update (b_id block) (withData block d) (dag_blocks dag)) (mergesetBlues d)"
  define bs2 where "bs2 = foldl (setBlue False r) bs1 (mergesetReds d)"
  define dag' where "dag' = dag\<lparr>dag_blocks := bs2, dag_ghostdagStore := Some (store_insert (b_id block) d [] st),
    dag_idMap := Some m, dag_reverseIdMap := Some r\<rparr>"
  have hash: "hdr_hash (header (toGhostdagSimBlock block (getIdMap dag))) = b_id block"
    using fresh by (simp add: toGhostdagSimBlock_def maps_ok_lookup(1) [OF maps] hash_of_def)
  have eq: "addSimulatedBlock dag block = Inr dag'"
    using d st eng by (simp add: addSimulatedBlock_def Let_def context_of_def dag'_def bs2_def bs1_def m_def r_def withData_def hash)
  obtain f1 where f1: "\<And>i. map_of bs1 i = map_option (\<lambda>b. b\<lparr>b_isBlue := f1 i b\<rparr>) (((map_of (dag_blocks dag))(b_id block \<mapsto> withData block d)) i)"
    using foldl_setBlue_spec(2) [of True r "AList.update (b_id block) (withData block d) (dag_blocks dag)" "mergesetBlues d"]
    unfolding bs1_def map_of_update by blast
  obtain f2 where f2: "\<And>i. map_of bs2 i = map_option (\<lambda>b. b\<lparr>b_isBlue := f2 i b\<rparr>) (map_of bs1 i)"
    using foldl_setBlue_spec(2) [of False r bs1 "mergesetReds d"] unfolding bs2_def by blast
  have look: "map_of (dag_blocks dag') i = map_option (\<lambda>b. b\<lparr>b_isBlue := f2 i (b\<lparr>b_isBlue := f1 i b\<rparr>)\<rparr>)
      (((map_of (dag_blocks dag))(b_id block \<mapsto> withData block d)) i)" for i
    by (simp add: dag'_def f1 f2 option.map_comp o_def)
  have keys: "map fst (dag_blocks dag') = map fst (AList.update (b_id block) (withData block d) (dag_blocks dag))"
    by (simp add: dag'_def bs2_def bs1_def foldl_setBlue_spec(1))
  have mset: "set m \<subseteq> insert (b_id block, b_id block) (set (getIdMap dag))"
    "set r \<subseteq> insert (b_id block, b_id block) (set (getReverseIdMap dag))"
    using set_update_subset [of "b_id block" "b_id block"] by (auto simp: m_def r_def)
  have old: "\<forall>x \<in> set (getIdMap dag). case x of (i, h) \<Rightarrow> h = hash_of i" "\<forall>x \<in> set (getReverseIdMap dag). case x of (h, i) \<Rightarrow> i = id_of h"
    using maps by (simp_all add: maps_ok_def list_all_iff)
  have "\<forall>x \<in> set m. case x of (i, h) \<Rightarrow> h = hash_of i" "\<forall>x \<in> set r. case x of (h, i) \<Rightarrow> i = id_of h"
    by (rule ball_insert_subset [OF mset(1)], use old(1) fresh in \<open>simp_all add: hash_of_def\<close>)
       (rule ball_insert_subset [OF mset(2)], use old(2) fresh in \<open>simp_all add: id_of_def\<close>)
  moreover have "map_of m ''genesis'' = Some GENESIS_HASH" "map_of r GENESIS_HASH = Some ''genesis''"
    using maps fresh by (simp_all add: m_def r_def maps_ok_def)
  ultimately have "maps_ok dag'"
    by (simp add: maps_ok_def getIdMap_def getReverseIdMap_def dag'_def list_all_iff)
  then show thesis using that [OF eq keys look] by (simp add: dag'_def eng)
qed

lemma addSimulatedBlock_inv:
  assumes inv: "dag_inv dag" and add: "addable dag block"
  obtains dag' where "addSimulatedBlock dag block = Inr dag'" "dag_inv dag'" "dag_ids dag' = insert (b_id block) (dag_ids dag)"
proof -
  obtain st eng where st: "dag_ghostdagStore dag = Some st" "store_inv st" and eng: "dag_ghostdagEngine dag = Some eng"
      "eng_genesisHash eng = GENESIS_HASH" and w0: "workOr0 st GENESIS_HASH = 0" and maps: "maps_ok dag"
    using inv by (auto simp: dag_inv_def)
  obtain gb where gb: "map_of (dag_blocks dag) ''genesis'' = Some gb" "genesis_ok gb" using inv by (auto simp: dag_inv_def)
  have gid: "''genesis'' \<in> dag_ids dag" using gb dag_ids_iff by blast
  have id: "b_id block \<noteq> ''genesis''" "b_id block \<noteq> GENESIS_HASH" "b_id block \<notin> dag_ids dag" "valid_id (b_id block)"
    using add gid by (auto simp: addable_def valid_id_def)
  obtain d where d: "computeGhostdag eng (toGhostdagSimBlock block (getIdMap dag)) (context_of dag block) st = Inr d"
    "selectedParent d \<in> hash_of ` set (b_parents block)" "0 < blueWork d"
    "\<forall>p \<in> set (b_parents block). workOr0 st (hash_of p) < blueWork d"
    using addable_engine [OF inv add st(1) eng(1)] by blast
  obtain dag' f where eq: "addSimulatedBlock dag block = Inr dag'"
    and keys: "map fst (dag_blocks dag') = map fst (AList.update (b_id block) (withData block d) (dag_blocks dag))"
    and look: "\<And>i. map_of (dag_blocks dag') i = map_option (\<lambda>b. b\<lparr>b_isBlue := f i b\<rparr>) (((map_of (dag_blocks dag))(b_id block \<mapsto> withData block d)) i)"
    and st': "dag_ghostdagStore dag' = Some (store_insert (b_id block) d [] st)" and eng': "dag_ghostdagEngine dag' = Some eng"
    and maps': "maps_ok dag'"
    using addSimulatedBlock_eq [OF st(1) eng(1) maps d(1) id(1,2)] by blast
  let ?st = "store_insert (b_id block) d [] st"
  have ids: "dag_ids dag' = insert (b_id block) (dag_ids dag)"
    unfolding set_eq_iff dag_ids_iff [of _ dag'] look by (auto simp: dag_ids_iff)
  have valid: "\<forall>i \<in> dag_ids dag. valid_id i" using inv by (simp add: dag_inv_def)
  have newh: "b_id block \<notin> hash_of ` dag_ids dag" using id valid by (auto simp: hash_of_def)
  have sinv: "store_inv ?st" using st(2) by (rule store_inv_insert)
  have work: "workOr0 ?st (hash_of p) = workOr0 st (hash_of p)" if "p \<in> dag_ids dag" for p
  proof -
    have "hash_of p \<noteq> b_id block" using newh that by (metis imageI)
    then show ?thesis using gds.read_other [OF st(2), of "hash_of p" "b_id block"] by (simp add: workOr0_def)
  qed
  have known: "set (b_parents block) \<subseteq> dag_ids dag" using add by (simp add: addable_def)
  have new_ok: "block_ok (dag_ids dag') ?st (b_id block) (withData block d)"
    using add d work known ids gds.read_back [OF st(2), of "b_id block" d "[]"]
    by (auto simp: block_ok_def withData_def addable_def subset_iff)
  have blocks: "block_ok (dag_ids dag') ?st i b" if b: "map_of (dag_blocks dag') i = Some b" and ng: "i \<noteq> ''genesis''" for i b
  proof (cases "i = b_id block")
    case True
    then show ?thesis using b look new_ok by auto
  next
    case False
    then obtain b0 where b0: "map_of (dag_blocks dag) i = Some b0" "b = b0\<lparr>b_isBlue := f i b0\<rparr>" using b look by auto
    show ?thesis
      using block_ok_insert [OF dag_inv_block [OF inv b0(1) ng st(1)] st(2) False newh, of "dag_ids dag'"] ids b0(2) by auto
  qed
  have "dag_inv dag'"
    unfolding dag_inv_def
  proof (intro conjI)
    show "distinct (map fst (dag_blocks dag'))" using inv by (simp add: keys AList.distinct_update dag_inv_def)
    show "\<forall>i \<in> dag_ids dag'. valid_id i" using valid id ids by auto
    show "\<exists>b. map_of (dag_blocks dag') ''genesis'' = Some b \<and> genesis_ok b" using gb id(1) by (simp add: look)
    show "\<exists>st. dag_ghostdagStore dag' = Some st \<and> store_inv st \<and> workOr0 st GENESIS_HASH = 0 \<and>
        (\<forall>i b. map_of (dag_blocks dag') i = Some b \<longrightarrow> i \<noteq> ''genesis'' \<longrightarrow> block_ok (dag_ids dag') st i b)"
      using st' sinv work [OF gid] w0 blocks by (auto simp: hash_of_def)
  qed (use maps' eng' eng(2) in auto)
  then show thesis using that eq ids by blast
qed

subsection \<open>The selected path\<close>

definition selected_edge :: "SimulatedBlock \<Rightarrow> SimulatedBlock \<Rightarrow> bool" where
  "selected_edge a b \<longleftrightarrow> b_id a \<in> set (b_parents b) \<and> (\<exists>d. b_ghostdagData b = Some d \<and> selectedParent d = hash_of (b_id a))"

lemma selectedPath_loop_inv:
  assumes inv: "dag_inv dag" and st: "dag_ghostdagStore dag = Some st"
  shows "i \<in> dag_ids dag \<Longrightarrow> \<exists>new. selectedPath_loop dag i acc = Some (new @ acc) \<and> new \<noteq> [] \<and> b_id (hd new) = ''genesis'' \<and>
    map_of (dag_blocks dag) i = Some (last new) \<and> successively selected_edge new"
proof (induction "nat (workOr0 st (hash_of i))" arbitrary: i acc rule: less_induct)
  case less
  then obtain b where b: "map_of (dag_blocks dag) i = Some b" by (auto simp: dag_ids_iff)
  have maps: "maps_ok dag" and valid: "\<forall>i \<in> dag_ids dag. valid_id i" and sinv: "store_inv st"
    using inv st by (auto simp: dag_inv_def)
  have ne: "i \<noteq> []" using valid less.prems by (auto simp: valid_id_def)
  show ?case
  proof (cases "i = ''genesis''")
    case True
    then have "genesis_ok b" using dag_inv_genesis [OF inv] b by simp
    then show ?thesis using b ne
      by (intro exI [of _ "[b]"]) (simp add: selectedPath_loop.simps [of dag i acc] genesis_ok_def)
  next
    case False
    from dag_inv_block [OF inv b False st] obtain d where
      d: "b_ghostdagData b = Some d" "getData st i = Some d" "selectedParent d \<in> hash_of ` set (b_parents b)" "0 < blueWork d"
      "\<forall>p \<in> set (b_parents b). workOr0 st (hash_of p) < blueWork d" "set (b_parents b) \<subseteq> dag_ids dag" "\<not> b_isGenesis b"
      by (auto simp: block_ok_def)
    then obtain p where p: "p \<in> set (b_parents b)" "selectedParent d = hash_of p" by blast
    then have pid: "p \<in> dag_ids dag" "valid_id p" using d(6) valid by auto
    have wi: "workOr0 st (hash_of i) = blueWork d" using False workOr0_data [OF sinv d(2)] by (simp add: hash_of_def)
    have "nat (workOr0 st (hash_of p)) < nat (workOr0 st (hash_of i))" using wi d(4,5) p(1) by (simp add: zless_nat_conj)
    from less.hyps [OF this pid(1), of "b # acc"] obtain new where
      new: "selectedPath_loop dag p (b # acc) = Some (new @ b # acc)" "new \<noteq> []" "b_id (hd new) = ''genesis''"
        "map_of (dag_blocks dag) p = Some (last new)" "successively selected_edge new" by blast
    have "selectedPath_loop dag i acc = selectedPath_loop dag p (b # acc)"
      using b ne d(1,7) p(2) pid(2) by (simp add: selectedPath_loop.simps [of dag i acc] maps_ok_lookup(2) [OF maps])
    moreover have "selected_edge (last new) b"
      using dag_inv_id [OF inv new(4)] p d(1) by (simp add: selected_edge_def)
    ultimately show ?thesis using new b
      by (intro exI [of _ "new @ [b]"]) (simp add: successively_append_iff)
  qed
qed

subsection \<open>Moving the sink\<close>

lemma calculateSelectedPath_inv:
  assumes "dag_inv dag" "i \<in> dag_ids dag"
  shows "\<exists>path. calculateSelectedPath dag i = Some path \<and> path \<noteq> [] \<and> b_id (hd path) = ''genesis'' \<and> b_id (last path) = i \<and>
    successively selected_edge path"
proof -
  obtain st where "dag_ghostdagStore dag = Some st" using assms(1) by (auto simp: dag_inv_def)
  from selectedPath_loop_inv [OF assms(1) this assms(2), of "[]"] show ?thesis
    using dag_inv_id [OF assms(1)] by (auto simp: calculateSelectedPath_def)
qed

lemma compareSinkOrder_ok:
  assumes inv: "dag_inv dag" and a: "map_of (dag_blocks dag) i = Some a" and b: "map_of (dag_blocks dag) j = Some b"
  shows "is_ok (compareSinkOrder a b)"
proof -
  have fact: "is_ok (bigE (b_daaScore c)) \<and> (b_ghostdagData c = None \<or> (\<exists>w. b_blueWork c = Some (int_str w)))"
    if c: "map_of (dag_blocks dag) l = Some c" for c l
  proof (cases "l = ''genesis''")
    case True
    then show ?thesis using dag_inv_genesis [OF inv] c by (simp add: genesis_ok_def)
  next
    case False
    obtain st where "dag_ghostdagStore dag = Some st" using inv by (auto simp: dag_inv_def)
    then show ?thesis using dag_inv_block [OF inv c False] by (auto simp: block_ok_def)
  qed
  obtain da db where "bigE (b_daaScore a) = Inr da" "bigE (b_daaScore b) = Inr db"
    using fact [OF a] fact [OF b] by (auto simp: is_ok_iff)
  then show ?thesis using fact [OF a] fact [OF b] by (auto simp: compareSinkOrder_def Let_def daaThen_def)
qed

lemma js_sortE_ok: "\<forall>x \<in> set xs. \<forall>y \<in> set xs. is_ok (cmp x y) \<Longrightarrow> is_ok (js_sortE cmp xs)"
  using js_sortE_total [of xs cmp "\<lambda>x y. case cmp x y of Inr v \<Rightarrow> v | Inl _ \<Rightarrow> 0"] by (fastforce simp: is_ok_iff)

lemma moveSink_returns_inv:
  assumes inv: "dag_inv dag" and s: "s \<in> dag_ids dag"
  shows "\<exists>dag'. moveSink dag s provider = Some (Inr dag')"
proof -
  obtain path where path: "calculateSelectedPath dag s = Some path" using calculateSelectedPath_inv [OF assms] by blast
  obtain b where b: "map_of (dag_blocks dag) s = Some b" using s dag_ids_iff by blast
  have "is_ok (js_sortE compareSinkOrder (identifyReachableBlocks dag s))"
    by (rule js_sortE_ok) (auto simp: reachable_blocks_iff compareSinkOrder_ok [OF inv])
  then show ?thesis using path b by (auto simp: moveSink_def is_ok_iff Let_def)
qed

lemma moveSink_Inr:
  assumes "moveSink dag s provider = Some (Inr dag')"
  obtains path bs rs where "calculateSelectedPath dag s = Some path" "set bs = set (identifyReachableBlocks dag s)"
    "rs = foldl (resolveBlockTx provider) noResolution (concat (map b_acceptedTxIds bs))"
    "dag' = dag\<lparr>dag_sink := s, dag_selectedPathToSink := map b_id path, dag_acceptedTxIds := rs_accepted rs,
       dag_displacedTxIds := rs_displaced (foldl (displaceTx provider) rs (filter (\<lambda>i. i \<notin> set (rs_accepted rs)) (dag_acceptedTxIds dag))),
       dag_conflictSet := rs_conflicts (foldl (displaceTx provider) rs (filter (\<lambda>i. i \<notin> set (rs_accepted rs)) (dag_acceptedTxIds dag))),
       dag_idMap := None, dag_reverseIdMap := None\<rparr>"
    "s \<in> dag_ids dag"
  using assms by (fastforce simp: moveSink_def Let_def displaceTx_fold dag_ids_iff dest: js_sortE_set split: if_splits option.splits)

lemma moveSink_inv:
  assumes inv: "dag_inv dag" and mv: "moveSink dag s provider = Some (Inr dag')"
  shows "dag_inv dag' \<and> dag_ids dag' = dag_ids dag"
  using mv
proof (rule moveSink_Inr)
  fix path bs rs
  assume eq: "dag' = dag\<lparr>dag_sink := s, dag_selectedPathToSink := map b_id path, dag_acceptedTxIds := rs_accepted rs,
       dag_displacedTxIds := rs_displaced (foldl (displaceTx provider) rs (filter (\<lambda>i. i \<notin> set (rs_accepted rs)) (dag_acceptedTxIds dag))),
       dag_conflictSet := rs_conflicts (foldl (displaceTx provider) rs (filter (\<lambda>i. i \<notin> set (rs_accepted rs)) (dag_acceptedTxIds dag))),
       dag_idMap := None, dag_reverseIdMap := None\<rparr>"
  have same: "dag_blocks dag' = dag_blocks dag" "dag_ghostdagEngine dag' = dag_ghostdagEngine dag"
    "dag_ghostdagStore dag' = dag_ghostdagStore dag" unfolding eq by simp_all
  have "maps_ok dag'" unfolding eq by (simp add: maps_ok_def getIdMap_def getReverseIdMap_def hash_of_def id_of_def)
  then show ?thesis using inv unfolding dag_inv_def dag_ids_def same by blast
qed

subsection \<open>DAG sessions\<close>

inductive dag_reach :: "int option \<Rightarrow> SimulatedDag \<Rightarrow> bool" for k where
  create: "dag_reach k (createSimulatedDag k)"
| add: "\<lbrakk>dag_reach k dag; addable dag block; addSimulatedBlock dag block = Inr dag'\<rbrakk> \<Longrightarrow> dag_reach k dag'"
| move: "\<lbrakk>dag_reach k dag; moveSink dag s provider = Some (Inr dag')\<rbrakk> \<Longrightarrow> dag_reach k dag'"

lemma dag_reach_inv: "dag_reach k dag \<Longrightarrow> dag_inv dag"
proof (induction rule: dag_reach.induct)
  case create
  show ?case by (rule createSimulatedDag_inv)
next
  case (add dag block dag')
  then show ?case using addSimulatedBlock_inv by (metis sum.inject(2))
next
  case (move dag s provider dag')
  then show ?case using moveSink_inv by blast
qed

lemma addSimulatedBlock_engine: "addSimulatedBlock dag block = Inr dag' \<Longrightarrow> dag_ghostdagEngine dag' = dag_ghostdagEngine dag"
  by (auto simp: addSimulatedBlock_def Let_def)

lemma dag_reach_engine: "dag_reach k dag \<Longrightarrow> dag_ghostdagEngine dag = Some (newEngine (Some (case k of None \<Rightarrow> 18 | Some v \<Rightarrow> v)) None)"
proof (induction rule: dag_reach.induct)
  case (move dag s provider dag')
  show ?case using move(2) by (rule moveSink_Inr) (use move in simp)
qed (auto simp: createSimulatedDag_def addSimulatedBlock_engine)

subsection \<open>The best tip\<close>

lemma tipsOf_iff:
  assumes "dag_inv dag"
  shows "t \<in> set (tipsOf dag) \<longleftrightarrow> t \<in> dag_ids dag \<and> (\<forall>i b. map_of (dag_blocks dag) i = Some b \<longrightarrow> t \<notin> set (b_parents b))"
proof -
  have "distinct (map fst (dag_blocks dag))" using assms by (simp add: dag_inv_def)
  then show ?thesis by (auto simp: tipsOf_def dag_ids_def map_of_eq_Some_iff)
qed

lemma dag_blueWork:
  assumes inv: "dag_inv dag" and st: "dag_ghostdagStore dag = Some st" and b: "map_of (dag_blocks dag) i = Some b"
  shows "bigE (js_or (b_blueWork b) ''0'') = Inr (workOr0 st (hash_of i))"
proof (cases "i = ''genesis''")
  case True
  have "workOr0 st GENESIS_HASH = 0" using inv st by (auto simp: dag_inv_def)
  moreover have "bigE ''0'' = Inr 0" by code_simp
  ultimately show ?thesis using dag_inv_genesis [OF inv] b True by (simp add: genesis_ok_def hash_of_def)
next
  case False
  have "store_inv st" using inv st by (auto simp: dag_inv_def)
  then show ?thesis using dag_inv_block [OF inv b False st] False
    by (auto simp: block_ok_def hash_of_def workOr0_data)
qed

lemma tips_nonempty:
  assumes inv: "dag_inv dag"
  shows "tipsOf dag \<noteq> []"
proof -
  obtain st gb where st: "dag_ghostdagStore dag = Some st" "store_inv st" and g: "map_of (dag_blocks dag) ''genesis'' = Some gb"
    using inv by (auto simp: dag_inv_def)
  let ?w = "\<lambda>i. workOr0 st (hash_of i)"
  have fin: "finite (dag_ids dag)" "dag_ids dag \<noteq> {}" using g dag_ids_iff by (auto simp: dag_ids_def)
  have "Max (?w ` dag_ids dag) \<in> ?w ` dag_ids dag" using fin by simp
  then obtain t where "t \<in> dag_ids dag" "?w t = Max (?w ` dag_ids dag)" by (metis imageE)
  then have tm: "t \<in> dag_ids dag" "\<forall>i \<in> dag_ids dag. ?w i \<le> ?w t" using fin by simp_all
  have "t \<notin> set (b_parents b)" if b: "map_of (dag_blocks dag) i = Some b" for i b
  proof
    assume p: "t \<in> set (b_parents b)"
    have "i \<noteq> ''genesis''"
    proof
      assume "i = ''genesis''"
      then show False using dag_inv_genesis [OF inv] b p by (simp add: genesis_ok_def)
    qed
    then have "?w t < ?w i" using dag_inv_block [OF inv b _ st(1)] p workOr0_data [OF st(2)]
      by (auto simp: block_ok_def hash_of_def)
    moreover have "i \<in> dag_ids dag" using b dag_ids_iff by blast
    ultimately show False using tm(2) by fastforce
  qed
  then have "t \<in> set (tipsOf dag)" using tm(1) tipsOf_iff [OF inv] by blast
  then show ?thesis by auto
qed

lemma findBestTip_inv:
  assumes inv: "dag_inv dag" and st: "dag_ghostdagStore dag = Some st"
  shows "\<exists>t. findBestTip dag = Inr t \<and> t \<in> set (tipsOf dag) \<and>
    (\<forall>u \<in> set (tipsOf dag). (workOr0 st (hash_of u), hash_of u) \<le> (workOr0 st (hash_of t), hash_of t))"
proof -
  have maps: "maps_ok dag" and valid: "\<forall>i \<in> dag_ids dag. valid_id i" using inv by (auto simp: dag_inv_def)
  let ?tip = "\<lambda>i. \<lparr>sb_hash = hash_of i, sb_blueWork = workOr0 st (hash_of i)\<rparr>"
  have known: "u \<in> dag_ids dag" if "u \<in> set (tipsOf dag)" for u using that tipsOf_iff [OF inv] by blast
  have data: "mapE (\<lambda>i. bindE (bigE (js_or (case map_of (dag_blocks dag) i of None \<Rightarrow> None | Some b \<Rightarrow> b_blueWork b) ''0''))
      (\<lambda>w. Inr \<lparr>sb_hash = lookupOr (getIdMap dag) i, sb_blueWork = w\<rparr>)) (tipsOf dag) = Inr (map ?tip (tipsOf dag))"
  proof (rule mapE_total)
    fix i
    assume "i \<in> set (tipsOf dag)"
    then obtain b where "map_of (dag_blocks dag) i = Some b" using known dag_ids_iff by blast
    then show "bindE (bigE (js_or (case map_of (dag_blocks dag) i of None \<Rightarrow> None | Some b \<Rightarrow> b_blueWork b) ''0''))
      (\<lambda>w. Inr \<lparr>sb_hash = lookupOr (getIdMap dag) i, sb_blueWork = w\<rparr>) = Inr (?tip i)"
      using dag_blueWork [OF inv st] by (simp add: maps_ok_lookup(1) [OF maps])
  qed
  obtain h where h: "findSelectedParent (map ?tip (tipsOf dag)) = Some h"
    using tips_nonempty [OF inv] by (cases "findSelectedParent (map ?tip (tipsOf dag))") auto
  then obtain t where t: "t \<in> set (tipsOf dag)" "h = hash_of t"
    and max: "\<forall>u \<in> set (tipsOf dag). (workOr0 st (hash_of u), hash_of u) \<le> (workOr0 st (hash_of t), hash_of t)"
    by (auto simp: findSelectedParent_Some sb_key_def)
  have uniq: "hash_of u = hash_of t \<longleftrightarrow> u = t" if "u \<in> set (tipsOf dag)" for u
    using known valid that t(1) hash_of_inj by blast
  have find: "List.find (\<lambda>i. Some (lookupOr (getIdMap dag) i) = Some h) (tipsOf dag) = Some t"
  proof (cases "List.find (\<lambda>i. Some (lookupOr (getIdMap dag) i) = Some h) (tipsOf dag)")
    case None
    then show ?thesis using t by (auto simp: find_None_iff maps_ok_lookup(1) [OF maps])
  next
    case (Some u)
    then have "u \<in> set (tipsOf dag)" "hash_of u = h" by (auto simp: find_Some_iff maps_ok_lookup(1) [OF maps])
    then show ?thesis using Some uniq t(2) by simp
  qed
  have "dag_blocks dag \<noteq> []" using tips_nonempty [OF inv] by (auto simp: tipsOf_def)
  moreover have "t \<noteq> []" using known t(1) valid by (auto simp: valid_id_def)
  ultimately have "findBestTip dag = Inr t"
    using data h find tips_nonempty [OF inv] by (simp add: findBestTip_def Let_def)
  then show ?thesis using t(1) max by blast
qed

subsection \<open>Properties of the DAG\<close>

text \<open>C2: every state of a DAG session (creation, blocks added on known parents under a new id, any
  moves of the sink) satisfies the DAG invariant: ids are unique, every block but genesis names known
  parents and carries the engine's data, its selected parent is one of its parents, and blue work
  grows along every edge. And the session is never stuck: such an addition never throws.\<close>

theorem dag_session_invariant:
  assumes "dag_reach k dag"
  shows "dag_inv dag \<and> (\<forall>block. addable dag block \<longrightarrow> is_ok (addSimulatedBlock dag block))"
  using dag_reach_inv [OF assms] addSimulatedBlock_inv by (metis is_ok.simps(2))

definition ex_block :: "string \<Rightarrow> string list \<Rightarrow> string list \<Rightarrow> SimulatedBlock" where
  "ex_block i ps txs = \<lparr>b_id = i, b_parents = ps, b_blueScore = ''1'', b_daaScore = ''1'', b_acceptedTxIds = txs,
     b_isGenesis = False, b_blueWork = None, b_isBlue = None, b_ghostdagData = None\<rparr>"

lemma reach_add:
  assumes "dag_reach k dag" "addable dag block"
  shows "\<exists>dag'. dag_reach k dag' \<and> dag_ids dag' = insert (b_id block) (dag_ids dag)"
  using addSimulatedBlock_inv [OF dag_reach_inv [OF assms(1)] assms(2)] dag_reach.add [OF assms] by metis

lemma valid_ids [simp]: "valid_id ''genesis''" "valid_id ''a''" "valid_id ''b''" "valid_id ''c''" "valid_id ''d''"
  by code_simp+

lemma bigE_1 [simp]: "is_ok (bigE ''1'')"
  by code_simp

text \<open>A session with two parallel blocks and one that merges them.\<close>

lemma ex_session:
  "\<exists>dag. dag_reach k dag \<and> dag_ids dag = {''genesis'', ''a'', ''b'', ''c''}"
proof -
  have g: "dag_ids (createSimulatedDag k) = {''genesis''}" by (simp add: dag_ids_def createSimulatedDag_def)
  have "addable (createSimulatedDag k) (ex_block ''a'' [''genesis''] [''t''])" by (simp add: addable_def g ex_block_def)
  from reach_add [OF dag_reach.create this] obtain d1 where
    d1: "dag_reach k d1" "dag_ids d1 = {''a'', ''genesis''}" by (auto simp: g ex_block_def)
  have "addable d1 (ex_block ''b'' [''genesis''] [''u''])" by (simp add: addable_def d1 ex_block_def)
  from reach_add [OF d1(1) this] obtain d2 where
    d2: "dag_reach k d2" "dag_ids d2 = {''b'', ''a'', ''genesis''}" by (auto simp: d1(2) ex_block_def)
  have "addable d2 (ex_block ''c'' [''a'', ''b''] [''t''])" by (simp add: addable_def d2 ex_block_def)
  from reach_add [OF d2(1) this] show ?thesis by (auto simp: d2(2) ex_block_def insert_commute)
qed

theorem dag_session_invariant_witness:
  "\<exists>dag. dag_reach None dag \<and> dag_inv dag \<and> is_ok (addSimulatedBlock dag (ex_block ''d'' [''c''] []))"
proof -
  obtain dag where dag: "dag_reach None dag" "dag_ids dag = {''genesis'', ''a'', ''b'', ''c''}" using ex_session by blast
  have "addable dag (ex_block ''d'' [''c''] [])" by (simp add: addable_def dag ex_block_def)
  then show ?thesis using dag_session_invariant [OF dag(1)] dag(1) by blast
qed

text \<open>The \<open>k\<close>-cluster property for whole sessions. Whatever was built before, the blues the engine
  records for a block added to the DAG are a \<open>k\<close>-cluster of the DAG of at most \<open>k + 1\<close> blocks, for the
  \<open>k\<close> the DAG was created with.\<close>

theorem dag_session_k_cluster:
  assumes "dag_reach (Some k) dag" and "0 \<le> k" and "addable dag block" and "dag_ghostdagStore dag = Some st"
  shows "\<exists>d. computeGhostdag (newEngine (Some k) None) (toGhostdagSimBlock block (getIdMap dag)) (context_of dag block) st = Inr d \<and>
    k_cluster (context_of dag block) k (mergesetBlues d) \<and> int (length (mergesetBlues d)) \<le> k + 1"
proof -
  have inv: "dag_inv dag" using assms(1) by (rule dag_reach_inv)
  have eng: "dag_ghostdagEngine dag = Some (newEngine (Some k) None)" using dag_reach_engine [OF assms(1)] by simp
  have ek: "eng_k (newEngine (Some k) None) = k" "eng_genesisHash (newEngine (Some k) None) = GENESIS_HASH"
    by (simp_all add: newEngine_def)
  obtain d where d: "computeGhostdag (newEngine (Some k) None) (toGhostdagSimBlock block (getIdMap dag)) (context_of dag block) st = Inr d"
    using addable_engine [OF inv assms(3,4) eng] by blast
  have maps: "maps_ok dag" and "''genesis'' \<in> dag_ids dag" using inv dag_ids_iff by (auto simp: dag_inv_def)
  then have ng: "hdr_hash (header (toGhostdagSimBlock block (getIdMap dag))) \<noteq> eng_genesisHash (newEngine (Some k) None)"
    using assms(3) hash_of_genesis [of "b_id block"]
    by (auto simp: ek toGhostdagSimBlock_def maps_ok_lookup(1) [OF maps] addable_def)
  have "int (length (mergesetBlues d)) \<le> eng_k (newEngine (Some k) None) + 1"
    by (rule engine_blue_count [OF d ng simulated_context_wf [OF inv assms(3,4)]]) (use assms(2) ek in simp)
  then show ?thesis using d ek(1) cluster_of_count by auto
qed

theorem dag_session_k_cluster_witness:
  "\<exists>dag st d. dag_reach (Some 18) dag \<and> dag_ghostdagStore dag = Some st \<and>
    computeGhostdag (newEngine (Some 18) None) (toGhostdagSimBlock (ex_block ''d'' [''c''] []) (getIdMap dag))
      (context_of dag (ex_block ''d'' [''c''] [])) st = Inr d \<and>
    k_cluster (context_of dag (ex_block ''d'' [''c''] [])) 18 (mergesetBlues d)"
proof -
  obtain dag where dag: "dag_reach (Some 18) dag" "dag_ids dag = {''genesis'', ''a'', ''b'', ''c''}" using ex_session by blast
  have add: "addable dag (ex_block ''d'' [''c''] [])" by (simp add: addable_def dag ex_block_def)
  obtain st where "dag_ghostdagStore dag = Some st" using dag_reach_inv [OF dag(1)] by (auto simp: dag_inv_def)
  then show ?thesis using dag_session_k_cluster [OF dag(1) _ add] dag(1) by auto
qed

text \<open>C35: the selected path of every block of a session is found in finitely many steps, starts at
  genesis, ends at the block, and each block on it is a parent, and the selected parent, of the next.\<close>

theorem selected_path_correct:
  assumes "dag_reach k dag" and "i \<in> dag_ids dag"
  shows "\<exists>path. calculateSelectedPath dag i = Some path \<and> path \<noteq> [] \<and> b_id (hd path) = ''genesis'' \<and> b_id (last path) = i \<and>
    successively selected_edge path"
  using calculateSelectedPath_inv dag_reach_inv assms by blast

theorem selected_path_correct_witness:
  "\<exists>dag path. dag_reach None dag \<and> calculateSelectedPath dag ''c'' = Some path \<and> b_id (last path) = ''c''"
proof -
  obtain dag where dag: "dag_reach None dag" "dag_ids dag = {''genesis'', ''a'', ''b'', ''c''}" using ex_session by blast
  have "''c'' \<in> dag_ids dag" by (simp add: dag(2))
  from selected_path_correct [OF dag(1) this] dag(1) show ?thesis by metis
qed

text \<open>moving the sink. On a DAG of a session \<open>moveSink\<close> returns for every known block, throws
  exactly for an unknown one, records the selected path of the new sink, and keeps the invariant.\<close>

theorem move_sink_total:
  assumes "dag_reach k dag"
  shows "(s \<in> dag_ids dag \<longrightarrow> (\<exists>dag' path. moveSink dag s provider = Some (Inr dag') \<and> dag_inv dag' \<and> dag_sink dag' = s \<and>
      calculateSelectedPath dag s = Some path \<and> dag_selectedPathToSink dag' = map b_id path)) \<and>
    (s \<notin> dag_ids dag \<longrightarrow> moveSink dag s provider = Some (Inl (''Block '' @ s @ '' not found in DAG.'')))"
proof (intro conjI impI)
  have inv: "dag_inv dag" using assms by (rule dag_reach_inv)
  assume s: "s \<in> dag_ids dag"
  then obtain dag' where mv: "moveSink dag s provider = Some (Inr dag')" using moveSink_returns_inv [OF inv] by blast
  have "dag_sink dag' = s \<and> (\<exists>path. calculateSelectedPath dag s = Some path \<and> dag_selectedPathToSink dag' = map b_id path)"
    using mv by (rule moveSink_Inr) simp
  then show "\<exists>dag' path. moveSink dag s provider = Some (Inr dag') \<and> dag_inv dag' \<and> dag_sink dag' = s \<and>
      calculateSelectedPath dag s = Some path \<and> dag_selectedPathToSink dag' = map b_id path"
    using mv moveSink_inv [OF inv mv] by blast
next
  assume "s \<notin> dag_ids dag"
  then have "map_of (dag_blocks dag) s = None" using dag_ids_iff by (metis not_Some_eq)
  then show "moveSink dag s provider = Some (Inl (''Block '' @ s @ '' not found in DAG.''))"
    by (simp add: moveSink_def del: map_of_eq_None_iff)
qed

theorem move_sink_total_witness:
  "\<exists>dag dag'. dag_reach None dag \<and> moveSink dag ''c'' (\<lambda>t. Some [t]) = Some (Inr dag') \<and> dag_sink dag' = ''c'' \<and>
     moveSink dag ''z'' (\<lambda>t. Some [t]) = Some (Inl (''Block '' @ ''z'' @ '' not found in DAG.''))"
proof -
  obtain dag where dag: "dag_reach None dag" "dag_ids dag = {''genesis'', ''a'', ''b'', ''c''}" using ex_session by blast
  have "''c'' \<in> dag_ids dag" "''z'' \<notin> dag_ids dag" by (simp_all add: dag(2))
  then show ?thesis
    using move_sink_total [OF dag(1), of "''c''" "\<lambda>t. Some [t]"] move_sink_total [OF dag(1), of "''z''" "\<lambda>t. Some [t]"] dag(1)
    by metis
qed

lemma move_sink_resolution:
  assumes "moveSink dag s provider = Some (Inr dag')"
  obtains rs where "res_ok provider rs" "conflicts_ok provider rs" "dag_acceptedTxIds dag' = rs_accepted rs"
    "dag_displacedTxIds dag' = rs_displaced rs" "dag_conflictSet dag' = rs_conflicts rs"
    "set (rs_accepted rs) \<union> set (rs_displaced rs) = set (dag_acceptedTxIds dag) \<union>
       {t. \<exists>b \<in> set (identifyReachableBlocks dag s). t \<in> set (b_acceptedTxIds b) \<and> provider t \<noteq> None}"
proof (rule moveSink_Inr [OF assms])
  fix path bs rs
  assume bs: "set bs = set (identifyReachableBlocks dag s)"
    and rs: "rs = foldl (resolveBlockTx provider) noResolution (concat (map b_acceptedTxIds bs))"
    and dag': "dag' = dag\<lparr>dag_sink := s, dag_selectedPathToSink := map b_id path, dag_acceptedTxIds := rs_accepted rs,
       dag_displacedTxIds := rs_displaced (foldl (displaceTx provider) rs (filter (\<lambda>i. i \<notin> set (rs_accepted rs)) (dag_acceptedTxIds dag))),
       dag_conflictSet := rs_conflicts (foldl (displaceTx provider) rs (filter (\<lambda>i. i \<notin> set (rs_accepted rs)) (dag_acceptedTxIds dag))),
       dag_idMap := None, dag_reverseIdMap := None\<rparr>"
  define rs' where "rs' = foldl (displaceTx provider) rs (filter (\<lambda>i. i \<notin> set (rs_accepted rs)) (dag_acceptedTxIds dag))"
  have ok: "res_ok provider rs" "conflicts_ok provider rs" and cov: "set (rs_accepted rs) \<union> set (rs_displaced rs) =
      {t \<in> set (concat (map b_acceptedTxIds bs)). provider t \<noteq> None}"
    using resolveBlockTx_fold [OF noResolution_ok rs] by (simp_all add: noResolution_def)
  have rs'f: "rs_accepted rs' = rs_accepted rs" "rs_spent rs' = rs_spent rs"
    "set (rs_displaced rs') = (set (dag_acceptedTxIds dag) - set (rs_accepted rs)) \<union> set (rs_displaced rs)"
    unfolding rs'_def displaceTx_fold by auto
  have "res_ok provider rs'" using ok(1) by (simp add: res_ok_def rs'f(1,2))
  moreover have "conflicts_ok provider rs'" unfolding rs'_def by (rule displaceTx_fold(4) [OF ok(2)])
  moreover have "set (rs_accepted rs') \<union> set (rs_displaced rs') = set (dag_acceptedTxIds dag) \<union>
       {t. \<exists>b \<in> set (identifyReachableBlocks dag s). t \<in> set (b_acceptedTxIds b) \<and> provider t \<noteq> None}"
    using cov bs unfolding rs'f by auto
  ultimately show thesis using that [of rs'] dag' rs'f(1) by (simp add: rs'_def)
qed

text \<open>C3: after a move of the sink the accepted transactions are free of double spends: two different
  accepted transactions share no input. Every conflict reported names an accepted winner that spends
  the outpoint, and losers that spend it too and are listed as displaced.\<close>

theorem move_sink_conflict_free:
  assumes "moveSink dag s provider = Some (Inr dag')"
  shows "(\<forall>t \<in> set (dag_acceptedTxIds dag'). \<forall>u \<in> set (dag_acceptedTxIds dag').
      t \<noteq> u \<longrightarrow> set (the (provider t)) \<inter> set (the (provider u)) = {}) \<and>
    (\<forall>c \<in> set (dag_conflictSet dag'). ce_winnerTxId c \<in> set (dag_acceptedTxIds dag') \<and>
      ce_outpoint c \<in> set (the (provider (ce_winnerTxId c))) \<and>
      (\<forall>l \<in> set (ce_loserTxIds c). l \<in> set (dag_displacedTxIds dag') \<and> ce_outpoint c \<in> set (the (provider l))))"
  using assms
proof (rule move_sink_resolution)
  fix rs
  assume ok: "res_ok provider rs" "conflicts_ok provider rs" and eq: "dag_acceptedTxIds dag' = rs_accepted rs"
    "dag_displacedTxIds dag' = rs_displaced rs" "dag_conflictSet dag' = rs_conflicts rs"
  have spent: "\<forall>i \<in> set (the (provider t)). map_of (rs_spent rs) i = Some t" if "t \<in> set (rs_accepted rs)" for t
    using ok(1) that by (auto simp: res_ok_def)
  have "set (the (provider t)) \<inter> set (the (provider u)) = {}"
    if "t \<in> set (rs_accepted rs)" "u \<in> set (rs_accepted rs)" "t \<noteq> u" for t u
    using spent [OF that(1)] spent [OF that(2)] that(3) by fastforce
  moreover have "ce_winnerTxId c \<in> set (rs_accepted rs) \<and> ce_outpoint c \<in> set (the (provider (ce_winnerTxId c))) \<and>
      (\<forall>l \<in> set (ce_loserTxIds c). l \<in> set (rs_displaced rs) \<and> ce_outpoint c \<in> set (the (provider l)))"
    if "c \<in> set (rs_conflicts rs)" for c
  proof -
    have c: "map_of (rs_spent rs) (ce_outpoint c) = Some (ce_winnerTxId c)"
      "\<forall>l \<in> set (ce_loserTxIds c). l \<in> set (rs_displaced rs) \<and> (\<exists>is. provider l = Some is \<and> ce_outpoint c \<in> set is)"
      using ok(2) that by (auto simp: conflicts_ok_def)
    then show ?thesis using ok(1) by (fastforce simp: res_ok_def)
  qed
  ultimately show ?thesis unfolding eq by blast
qed

definition ex_legacy :: SimulatedDag where
  "ex_legacy = (createSimulatedDag None)\<lparr>dag_blocks := [(''genesis'', genesisBlock),
     (''a'', ex_block ''a'' [''genesis''] [''t'']), (''b'', ex_block ''b'' [''genesis''] [''u'', ''t'']),
     (''c'', ex_block ''c'' [''a'', ''b''] [])]\<rparr>"

definition ex_provider :: txProvider where
  "ex_provider t = (if t = ''t'' then Some [''x'', ''y''] else if t = ''u'' then Some [''y''] else None)"

definition ok_with :: "('a \<Rightarrow> bool) \<Rightarrow> 'a result option \<Rightarrow> bool" where
  "ok_with P r = (case r of Some (Inr x) \<Rightarrow> P x | _ \<Rightarrow> False)"

lemma ok_with_iff: "ok_with P r \<longleftrightarrow> (\<exists>x. r = Some (Inr x) \<and> P x)"
  by (auto simp: ok_with_def split: option.splits sum.splits)

theorem move_sink_conflict_free_witness:
  "\<exists>dag'. moveSink ex_legacy ''c'' ex_provider = Some (Inr dag') \<and>
    (\<forall>c \<in> set (dag_conflictSet dag'). ce_winnerTxId c \<in> set (dag_acceptedTxIds dag'))"
proof -
  have "ok_with (\<lambda>_. True) (moveSink ex_legacy ''c'' ex_provider)" by code_simp
  then obtain dag' where mv: "moveSink ex_legacy ''c'' ex_provider = Some (Inr dag')" by (auto simp: ok_with_iff)
  show ?thesis using mv move_sink_conflict_free [OF mv] by blast
qed

text \<open>Nothing is lost when the sink moves. The transactions accepted or displaced after the move are
  exactly the ones accepted before it and the known ones of the blocks reachable from the new sink.\<close>

theorem move_sink_accounts_for_all:
  assumes "moveSink dag s provider = Some (Inr dag')"
  shows "set (dag_acceptedTxIds dag') \<union> set (dag_displacedTxIds dag') = set (dag_acceptedTxIds dag) \<union>
    {t. \<exists>i b. (s, i) \<in> (bpar (dag_blocks dag))\<^sup>* \<and> map_of (dag_blocks dag) i = Some b \<and>
       t \<in> set (b_acceptedTxIds b) \<and> provider t \<noteq> None}"
  using assms
proof (rule move_sink_resolution)
  fix rs
  assume eq: "dag_acceptedTxIds dag' = rs_accepted rs" "dag_displacedTxIds dag' = rs_displaced rs"
    and cov: "set (rs_accepted rs) \<union> set (rs_displaced rs) = set (dag_acceptedTxIds dag) \<union>
       {t. \<exists>b \<in> set (identifyReachableBlocks dag s). t \<in> set (b_acceptedTxIds b) \<and> provider t \<noteq> None}"
  show ?thesis unfolding eq cov Bex_def reachable_blocks_iff
    by (intro arg_cong [where f = "\<lambda>S. set (dag_acceptedTxIds dag) \<union> S"] Collect_cong) blast
qed

theorem move_sink_accounts_for_all_witness:
  "\<exists>dag'. moveSink ex_legacy ''c'' ex_provider = Some (Inr dag') \<and> ''u'' \<in> set (dag_acceptedTxIds dag') \<union> set (dag_displacedTxIds dag')"
proof -
  have "ok_with (\<lambda>_. True) (moveSink ex_legacy ''c'' ex_provider)" by code_simp
  then obtain dag' where mv: "moveSink ex_legacy ''c'' ex_provider = Some (Inr dag')" by (auto simp: ok_with_iff)
  have edge: "(''c'', ''b'') \<in> bpar (dag_blocks ex_legacy)"
    by (simp add: bpar_def block_parents_def ex_legacy_def ex_block_def)
  have b: "map_of (dag_blocks ex_legacy) ''b'' = Some (ex_block ''b'' [''genesis''] [''u'', ''t''])"
    "''u'' \<in> set (b_acceptedTxIds (ex_block ''b'' [''genesis''] [''u'', ''t'']))" "ex_provider ''u'' \<noteq> None"
    by (simp_all add: ex_legacy_def ex_block_def ex_provider_def)
  show ?thesis using mv move_sink_accounts_for_all [OF mv] r_into_rtrancl [OF edge] b by blast
qed

text \<open>the best tip. In a session \<open>findBestTip\<close> returns a block no other block builds on, and no
  other such block has more blue work (the greater hash breaks ties).\<close>

theorem best_tip_correct:
  assumes "dag_reach k dag" and "dag_ghostdagStore dag = Some st"
  shows "\<exists>t. findBestTip dag = Inr t \<and> t \<in> set (tipsOf dag) \<and>
    (\<forall>u \<in> set (tipsOf dag). (workOr0 st (hash_of u), hash_of u) \<le> (workOr0 st (hash_of t), hash_of t))"
  using findBestTip_inv dag_reach_inv assms by blast

theorem best_tip_correct_witness:
  "\<exists>dag t. dag_reach None dag \<and> dag_ids dag = {''genesis'', ''a'', ''b'', ''c''} \<and> findBestTip dag = Inr t \<and> t \<in> set (tipsOf dag)"
proof -
  obtain dag where dag: "dag_reach None dag" "dag_ids dag = {''genesis'', ''a'', ''b'', ''c''}" using ex_session by blast
  obtain st where "dag_ghostdagStore dag = Some st" using dag_reach_inv [OF dag(1)] by (auto simp: dag_inv_def)
  from best_tip_correct [OF dag(1) this] dag show ?thesis by metis
qed

text \<open>A transaction that two reachable blocks carry is a conflict with itself: it is accepted and
  displaced at once, and the entry names it as winner and as loser.\<close>

lemma duplicate_tx_displaces_itself:
  "\<exists>dag'. moveSink (ex_legacy\<lparr>dag_blocks := [(''genesis'', genesisBlock), (''a'', ex_block ''a'' [''genesis''] [''t'']),
      (''b'', ex_block ''b'' [''a''] [''t''])]\<rparr>) ''b'' ex_provider = Some (Inr dag') \<and>
    dag_acceptedTxIds dag' = [''t''] \<and> dag_displacedTxIds dag' = [''t''] \<and>
    map ce_winnerTxId (dag_conflictSet dag') = [''t''] \<and> map ce_loserTxIds (dag_conflictSet dag') = [[''t'']]"
  unfolding ok_with_iff [symmetric] by code_simp

text \<open>Block ids may be reused: adding a second block under the id of an ancestor makes two blocks each
  other's selected parent, and the walk of \<open>calculateSelectedPath\<close> never ends.\<close>

definition selects :: "SimulatedDag \<Rightarrow> string \<Rightarrow> string \<Rightarrow> bool" where
  "selects dag i j \<longleftrightarrow> i \<noteq> [] \<and> (case map_of (dag_blocks dag) i of None \<Rightarrow> False
     | Some b \<Rightarrow> \<not> b_isGenesis b \<and> (case b_ghostdagData b of None \<Rightarrow> False
        | Some d \<Rightarrow> lookupOr (getReverseIdMap dag) (selectedParent d) = j))"

lemma selects_cycle:
  assumes "selects dag i j" "selects dag j i"
  shows "selectedPath_loop dag i path = None"
proof (rule ccontr)
  assume "selectedPath_loop dag i path \<noteq> None"
  then obtain y where y: "selectedPath_loop dag i path = Some y" by auto
  have "(dag = dag \<and> (i = i \<or> i = j)) \<longrightarrow> False"
  proof (rule selectedPath_loop.raw_induct [OF _ y, of "\<lambda>dg x p y. dg = dag \<and> (x = i \<or> x = j) \<longrightarrow> False"], rule impI)
    fix loop :: "SimulatedDag \<Rightarrow> string \<Rightarrow> SimulatedBlock list \<Rightarrow> SimulatedBlock list option" and dg x p r
    assume IH: "\<And>dg x p y. loop dg x p = Some y \<Longrightarrow> dg = dag \<and> (x = i \<or> x = j) \<longrightarrow> False"
      and body: "(if x = [] then Some p else case map_of (dag_blocks dg) x of None \<Rightarrow> Some p
        | Some current \<Rightarrow> if b_isGenesis current then Some (current # p)
            else case b_ghostdagData current of
              None \<Rightarrow> if b_parents current = [] then Some (current # p) else loop dg (hd (b_parents current)) (current # p)
            | Some gd \<Rightarrow> loop dg (lookupOr (getReverseIdMap dg) (selectedParent gd)) (current # p)) = Some r"
      and x: "dg = dag \<and> (x = i \<or> x = j)"
    obtain z where z: "selects dag x z" "z = i \<or> z = j" using assms x by auto
    from z(1) body x have "\<exists>b. loop dag z (b # p) = Some r"
      by (auto simp: selects_def split: option.splits if_splits)
    then show False using IH z(2) by blast
  qed
  then show False by simp
qed

lemma id_reuse_diverges:
  "\<exists>dag. bindE (addSimulatedBlock (createSimulatedDag None) (ex_block ''a'' [''genesis''] [])) (\<lambda>d1.
      bindE (addSimulatedBlock d1 (ex_block ''b'' [''a''] [])) (\<lambda>d2. addSimulatedBlock d2 (ex_block ''a'' [''b''] []))) = Inr dag \<and>
    calculateSelectedPath dag ''a'' = None"
proof -
  have "ok_with (\<lambda>dag. selects dag ''a'' ''b'' \<and> selects dag ''b'' ''a'') (Some (
     bindE (addSimulatedBlock (createSimulatedDag None) (ex_block ''a'' [''genesis''] [])) (\<lambda>d1.
      bindE (addSimulatedBlock d1 (ex_block ''b'' [''a''] [])) (\<lambda>d2. addSimulatedBlock d2 (ex_block ''a'' [''b''] [])))))"
    by code_simp
  then show ?thesis by (auto simp: ok_with_iff calculateSelectedPath_def selects_cycle)
qed

end
