(* ===== verification/HK_Canonical.thy ===== *)
theory HK_Canonical
  imports HK_Prelude
begin

text \<open>
  The canonical form of artifacts and their hashes: \<open>packages/artifacts/src/canonical.ts\<close> and
  \<open>domain-digest.ts\<close>.

  \<^item> A JavaScript value is a \<open>json\<close>: an object is the list of its own keys in insertion order, an
    integral number is \<open>JNum\<close>, any other number \<open>JFrac\<close> with the text \<open>JSON.stringify\<close> gives it;
    the last six constructors are the values the canonicalizer refuses.
  \<^item> Strings have code units below 256, on which \<open>normalize("NFC")\<close> is the identity (no combining
    mark and no character with a canonical decomposition that does not recompose is below 768).
  \<^item> SHA-256 is not modelled: \<open>sha\<close>, the hex digest of a string, is a parameter of every definition
    that hashes. What the theorems need of it is stated as "or a collision of \<open>sha\<close> is at hand".
\<close>

subsection \<open>Values\<close>

datatype json =
    JUndefined
  | JNull
  | JBool bool
  | JNum int
  | JFrac string
  | JBigInt int
  | JStr string
  | JArr "json list"
  | JObj "(string \<times> json) list"
  | JSymbol | JFunction | JMap | JSet | JDate | JNonPlain

definition SEMANTIC_EXCLUSIONS :: "string list" where
  "SEMANTIC_EXCLUSIONS = [''contentHash'', ''artifactId'', ''planId'', ''lineage'', ''createdAt'', ''rpcUrl'', ''rpcHost'',
     ''latencyMs'', ''indexedAt'', ''file_path'', ''file_mtime_ms'', ''hardkasVersion'', ''hashVersion'', ''parentArtifactId'',
     ''signedId'', ''deployedAt'', ''tracePath'', ''receiptPath'', ''events'', ''status'', ''sourceSignedId'', ''submittedAt'',
     ''confirmedAt'', ''dagContext'', ''executionId'', ''signatureMetadata'']"

definition V4_SEMANTIC_EXCLUSIONS :: "string list" where
  "V4_SEMANTIC_EXCLUSIONS = [''contentHash'', ''artifactId'', ''planId'', ''signedId'', ''hashVersion'', ''filePath'', ''file_path'',
     ''workspacePath'', ''debug'', ''logs'', ''uiHints'', ''cache'', ''lastViewedAt'', ''createdAt'', ''events'', ''status'',
     ''submittedAt'', ''confirmedAt'', ''dagContext'', ''executionId'', ''deployedAt'', ''tracePath'', ''receiptPath'',
     ''sourceSignedId'', ''signatureMetadata'', ''rpcHost'', ''rpcUrl'', ''latencyMs'', ''indexedAt'', ''file_mtime_ms'', ''hardkasVersion'']"

definition V5_UNAUTHENTICATED :: "string list" where
  "V5_UNAUTHENTICATED = [''createdAt'', ''submittedAt'', ''confirmedAt'', ''deployedAt'', ''executionId'', ''tracePath'', ''receiptPath'',
     ''filePath'', ''file_path'', ''workspacePath'', ''debug'', ''logs'', ''uiHints'', ''cache'', ''lastViewedAt'', ''indexedAt'',
     ''file_mtime_ms'', ''latencyMs'', ''rpcHost'', ''rpcUrl'', ''hardkasVersion'', ''signatureMetadata'']"

definition V5_DERIVED_LABELS :: "string list" where
  "V5_DERIVED_LABELS = [''planId'', ''signedId'']"

definition CURRENT_HASH_VERSION :: int where
  "CURRENT_HASH_VERSION = 5"

definition MIN_HASH_VERSION :: int where
  "MIN_HASH_VERSION = 1"

definition UNEXCLUDED_FORM :: int where
  "UNEXCLUDED_FORM = 9007199254740991"

definition STRICT_PATH_KEYS :: "string list" where
  "STRICT_PATH_KEYS = [''file_path'', ''sandboxSnapshotPath'', ''receiptPath'', ''tracePath'', ''outputPath'', ''artifactPath'',
     ''workspacePath'', ''relativePath'', ''absolutePath'']"

definition HashVersionInvalid :: "'a result" where
  "HashVersionInvalid = Inl ''HASH_VERSION_INVALID''"

text \<open>\<open>obj.key\<close> of a value: \<open>undefined\<close> where there is no such key.\<close>

definition jget :: "json \<Rightarrow> string \<Rightarrow> json" where
  "jget j k = (case j of JObj es \<Rightarrow> (case map_of es k of None \<Rightarrow> JUndefined | Some v \<Rightarrow> v) | _ \<Rightarrow> JUndefined)"

definition readDeclaredHashVersion :: "json \<Rightarrow> int option" where
  "readDeclaredHashVersion artifact =
     (case jget artifact ''hashVersion'' of
        JNum declared \<Rightarrow> if declared < MIN_HASH_VERSION \<or> declared > CURRENT_HASH_VERSION then None else Some declared
      | _ \<Rightarrow> None)"

definition isExcluded :: "string \<Rightarrow> int \<Rightarrow> nat \<Rightarrow> string option \<Rightarrow> bool" where
  "isExcluded key version depth parentKey =
     (if version = UNEXCLUDED_FORM then False
      else if version \<ge> 5 then
        (if depth = 0 then key = ''contentHash'' \<or> key \<in> set V5_UNAUTHENTICATED \<or> key \<in> set V5_DERIVED_LABELS
         else if depth = 1 \<and> parentKey = Some ''lineage'' then key = ''artifactId''
         else False)
      else key \<in> set (if version \<ge> 4 then V4_SEMANTIC_EXCLUSIONS else SEMANTIC_EXCLUSIONS))"

text \<open>The loop of \<open>isAuthenticatedPath\<close> from a depth on; \<^const>\<open>None\<close> in the path is an array index.\<close>

fun authenticatedFrom :: "string option list \<Rightarrow> int \<Rightarrow> nat \<Rightarrow> string option \<Rightarrow> bool" where
  "authenticatedFrom [] version depth parentKey = True"
| "authenticatedFrom (None # path) version depth parentKey = authenticatedFrom path version (Suc depth) None"
| "authenticatedFrom (Some key # path) version depth parentKey =
     (if isExcluded key version depth parentKey then False else authenticatedFrom path version (Suc depth) (Some key))"

definition isAuthenticatedPath :: "string option list \<Rightarrow> int \<Rightarrow> bool" where
  "isAuthenticatedPath path version = authenticatedFrom path version 0 None"

subsection \<open>JSON text\<close>

definition hex_digit :: "nat \<Rightarrow> char" where
  "hex_digit n = (if n < 10 then char_of (48 + n) else char_of (87 + n))"

text \<open>\<open>JSON.stringify\<close> of one code unit of a string.\<close>

definition escape_char :: "char \<Rightarrow> string" where
  "escape_char c = (let n = of_char c :: nat in
     if c = CHR 0x22 then [CHR 0x5C, CHR 0x22]
     else if c = CHR 0x5C then [CHR 0x5C, CHR 0x5C]
     else if n = 8 then [CHR 0x5C, CHR ''b'']
     else if n = 12 then [CHR 0x5C, CHR ''f'']
     else if n = 10 then [CHR 0x5C, CHR ''n'']
     else if n = 13 then [CHR 0x5C, CHR ''r'']
     else if n = 9 then [CHR 0x5C, CHR ''t'']
     else if n < 32 then [CHR 0x5C, CHR ''u'', CHR ''0'', CHR ''0'', hex_digit (n div 16), hex_digit (n mod 16)]
     else [c])"

definition json_string :: "string \<Rightarrow> string" where
  "json_string s = CHR 0x22 # concat (map escape_char s) @ [CHR 0x22]"

fun crlf :: "string \<Rightarrow> string" where
  "crlf (a # b # s) = (if a = CHR 0x0D \<and> b = CHR 0x0A then CHR 0x0A # crlf s else a # crlf (b # s))"
| "crlf s = s"

definition slashes :: "string \<Rightarrow> string" where
  "slashes s = map (\<lambda>c. if c = CHR 0x5C then CHR ''/'' else c) s"

fun join_with :: "string \<Rightarrow> string list \<Rightarrow> string" where
  "join_with sep [] = []"
| "join_with sep [x] = x"
| "join_with sep (x # y # xs) = x @ sep @ join_with sep (y # xs)"

subsection \<open>The canonical serializer\<close>

definition normalizeString :: "int \<Rightarrow> string option \<Rightarrow> string \<Rightarrow> string" where
  "normalizeString version keyName s =
     (if version \<ge> 3 then
        (if (case keyName of None \<Rightarrow> False | Some k \<Rightarrow> k \<noteq> [] \<and> k \<in> set STRICT_PATH_KEYS) then slashes (crlf s) else crlf s)
      else s)"

definition compareKeys :: "(string \<times> json) \<Rightarrow> (string \<times> json) \<Rightarrow> int" where
  "compareKeys a b = deterministicCompare (fst a) (fst b)"

definition keptEntries :: "int \<Rightarrow> nat \<Rightarrow> string option \<Rightarrow> (string \<times> json) list \<Rightarrow> (string \<times> json) list" where
  "keptEntries version depth parentKey es =
     js_sort compareKeys (filter (\<lambda>(k, v). \<not> isExcluded k version depth parentKey \<and> v \<noteq> JUndefined) es)"

lemma mapE_cong [fundef_cong]:
  "xs = ys \<Longrightarrow> (\<And>x. x \<in> set ys \<Longrightarrow> f x = g x) \<Longrightarrow> mapE f xs = mapE g ys"
proof (induction xs arbitrary: ys)
  case (Cons x xs)
  then show ?case by (cases ys) auto
qed simp

lemma size_json_entry: "(k, v) \<in> set es \<Longrightarrow> size v < Suc (size_list (size_prod (\<lambda>_. 0) size) es)"
  by (induction es) auto

lemma set_keptEntries:
  "set (keptEntries version depth parentKey es) = {(k, v) \<in> set es. \<not> isExcluded k version depth parentKey \<and> v \<noteq> JUndefined}"
  by (auto simp: keptEntries_def)

function serialize :: "json \<Rightarrow> int \<Rightarrow> string option \<Rightarrow> bool \<Rightarrow> nat \<Rightarrow> string option \<Rightarrow> string result" where
  "serialize JSymbol version keyName isRoot depth parentKey = Inl ''Type symbol is not canonicalizable.''"
| "serialize JFunction version keyName isRoot depth parentKey = Inl ''Type function is not canonicalizable.''"
| "serialize JUndefined version keyName isRoot depth parentKey =
     (if isRoot then Inl ''Type undefined is not canonicalizable at the root.'' else Inr ''null'')"
| "serialize (JBigInt i) version keyName isRoot depth parentKey =
     Inr (if version \<ge> 2 then json_string (''n:'' @ int_str i) else json_string (int_str i))"
| "serialize (JStr s) version keyName isRoot depth parentKey = Inr (json_string (normalizeString version keyName s))"
| "serialize JNull version keyName isRoot depth parentKey = Inr ''null''"
| "serialize (JBool b) version keyName isRoot depth parentKey = Inr (if b then ''true'' else ''false'')"
| "serialize (JNum i) version keyName isRoot depth parentKey = Inr (int_str i)"
| "serialize (JFrac t) version keyName isRoot depth parentKey = Inr t"
| "serialize (JArr xs) version keyName isRoot depth parentKey =
     bindE (mapE (\<lambda>item. serialize item version keyName False (Suc depth) None) xs) (\<lambda>ts.
       Inr (''['' @ join_with '','' ts @ '']''))"
| "serialize JMap version keyName isRoot depth parentKey = Inl ''Map is not canonicalizable. Use a plain object.''"
| "serialize JSet version keyName isRoot depth parentKey = Inl ''Set is not canonicalizable. Use an array.''"
| "serialize JDate version keyName isRoot depth parentKey = Inl ''Date must be serialized explicitly.''"
| "serialize JNonPlain version keyName isRoot depth parentKey = Inl ''Non-plain object encountered in canonicalizer.''"
| "serialize (JObj es) version keyName isRoot depth parentKey =
     bindE (mapE (\<lambda>kv. bindE (serialize (snd kv) version (Some (fst kv)) False (Suc depth) (Some (fst kv))) (\<lambda>t.
         Inr (json_string (fst kv) @ '':'' @ t))) (keptEntries version depth parentKey es)) (\<lambda>ts.
       Inr (''{'' @ join_with '','' ts @ ''}''))"
  by pat_completeness auto
termination
proof (relation "measure (\<lambda>(j, _). size j)", goal_cases)
  case (2 xs version keyName isRoot depth parentKey item)
  then show ?case by (simp add: less_Suc_eq_le size_list_estimation')
next
  case (3 es version keyName isRoot depth parentKey kv)
  then have "(fst kv, snd kv) \<in> set es" by (auto simp: set_keptEntries)
  from size_json_entry [OF this] show ?case by simp
qed simp

definition canonicalStringify :: "json \<Rightarrow> int \<Rightarrow> string option \<Rightarrow> bool \<Rightarrow> string result" where
  "canonicalStringify obj version keyName isRoot =
     (if version = UNEXCLUDED_FORM then HashVersionInvalid else serialize obj version keyName isRoot 0 None)"

definition canonicalStringifyUnexcluded :: "json \<Rightarrow> string result" where
  "canonicalStringifyUnexcluded obj = serialize obj UNEXCLUDED_FORM None True 0 None"

definition calculateContentHash :: "(string \<Rightarrow> string) \<Rightarrow> json \<Rightarrow> int \<Rightarrow> string result" where
  "calculateContentHash sha obj version = bindE (canonicalStringify obj version None True) (\<lambda>s. Inr (sha s))"

definition recomputeDeclaredContentHash :: "(string \<Rightarrow> string) \<Rightarrow> json \<Rightarrow> string result" where
  "recomputeDeclaredContentHash sha artifact =
     (case readDeclaredHashVersion artifact of
        None \<Rightarrow> HashVersionInvalid
      | Some version \<Rightarrow> calculateContentHash sha artifact version)"

subsection \<open>Fields a legacy version leaves open\<close>

function legacyVisit :: "int \<Rightarrow> json \<Rightarrow> nat \<Rightarrow> string option \<Rightarrow> string \<Rightarrow> string list" where
  "legacyVisit version (JArr xs) depth parentKey prefix =
     concat (map (\<lambda>(i, item). legacyVisit version item (Suc depth) None (prefix @ ''['' @ nat_str i @ '']''))
       (enumerate 0 xs))"
| "legacyVisit version (JObj es) depth parentKey prefix =
     concat (map (\<lambda>(key, v).
       if v = JUndefined then []
       else (let path = (if prefix \<noteq> [] then prefix @ ''.'' @ key else key);
                 legacyDrops = isExcluded key version depth parentKey;
                 currentDrops = isExcluded key CURRENT_HASH_VERSION depth parentKey
             in if legacyDrops \<and> \<not> currentDrops then [path]
                else if \<not> legacyDrops then legacyVisit version v (Suc depth) (Some key) path
                else [])) es)"
| "legacyVisit version JUndefined depth parentKey prefix = []"
| "legacyVisit version JNull depth parentKey prefix = []"
| "legacyVisit version (JBool b) depth parentKey prefix = []"
| "legacyVisit version (JNum i) depth parentKey prefix = []"
| "legacyVisit version (JFrac t) depth parentKey prefix = []"
| "legacyVisit version (JBigInt i) depth parentKey prefix = []"
| "legacyVisit version (JStr s) depth parentKey prefix = []"
| "legacyVisit version JSymbol depth parentKey prefix = []"
| "legacyVisit version JFunction depth parentKey prefix = []"
| "legacyVisit version JMap depth parentKey prefix = []"
| "legacyVisit version JSet depth parentKey prefix = []"
| "legacyVisit version JDate depth parentKey prefix = []"
| "legacyVisit version JNonPlain depth parentKey prefix = []"
  by pat_completeness auto
termination
proof (relation "measure (\<lambda>(_, j, _). size j)", goal_cases)
  case (2 version xs depth parentKey prefix x i item)
  then have "item \<in> set xs" by (auto simp: in_set_enumerate_eq)
  then show ?case by (simp add: less_Suc_eq_le size_list_estimation')
next
  case (3 version es depth parentKey prefix x key v)
  then show ?case using size_json_entry [of key v es] by auto
qed simp

definition legacyUnauthenticatedMaterialFields :: "json \<Rightarrow> int \<Rightarrow> string list" where
  "legacyUnauthenticatedMaterialFields artifact version =
     (if version \<ge> CURRENT_HASH_VERSION then [] else legacyVisit version artifact 0 None [])"

subsection \<open>Domain digests\<close>

definition CURRENT_DOMAIN_DIGEST_VERSION :: int where
  "CURRENT_DOMAIN_DIGEST_VERSION = 1"

datatype DomainDigestVersion = DigestVersion int | LegacyDigest

definition domainDigest :: "(string \<Rightarrow> string) \<Rightarrow> json \<Rightarrow> int \<Rightarrow> string result" where
  "domainDigest sha v version =
     (if version \<noteq> CURRENT_DOMAIN_DIGEST_VERSION then Inl ''DOMAIN_DIGEST_VERSION_INVALID''
      else bindE (canonicalStringifyUnexcluded v) (\<lambda>s. Inr (sha s)))"

definition legacyDomainDigest :: "(string \<Rightarrow> string) \<Rightarrow> json \<Rightarrow> string result" where
  "legacyDomainDigest sha v = calculateContentHash sha v 4"

definition domainDigestVersionFor :: "json \<Rightarrow> DomainDigestVersion result" where
  "domainDigestVersionFor hashVersion =
     (case readDeclaredHashVersion (JObj [(''hashVersion'', hashVersion)]) of
        None \<Rightarrow> HashVersionInvalid
      | Some declared \<Rightarrow> Inr (if declared \<ge> CURRENT_HASH_VERSION then DigestVersion CURRENT_DOMAIN_DIGEST_VERSION else LegacyDigest))"

definition domainDigestForHashVersion :: "(string \<Rightarrow> string) \<Rightarrow> json \<Rightarrow> json \<Rightarrow> string result" where
  "domainDigestForHashVersion sha v hashVersion =
     bindE (domainDigestVersionFor hashVersion) (\<lambda>version.
       case version of LegacyDigest \<Rightarrow> legacyDomainDigest sha v | DigestVersion n \<Rightarrow> domainDigest sha v n)"

end
