(* ===== verification/HK_Localnet.thy ===== *)
theory HK_Localnet
  imports HK_Dag HK_Canonical
begin

text \<open>
  The simulated local network: \<open>packages/localnet/src/types.ts\<close>, \<open>accounts.ts\<close>, \<open>state.ts\<close>,
  \<open>balance.ts\<close>, \<open>faucet.ts\<close> and \<open>simulated-chain.ts\<close>.

  Amounts and DAA scores are decimal strings in the code; they are strings here, read with \<open>BigInt\<close>
  and written with \<open>toString\<close>, so that every place that can throw on a malformed number does. SHA-256
  and the clock are parameters (\<open>sha\<close>, \<open>now\<close>).
\<close>

subsection \<open>Types\<close>

record LocalnetAccount =
  acc_name :: string
  acc_address :: string

record LocalnetUtxo =
  u_id :: string
  u_address :: string
  u_amountSompi :: string
  u_spent :: bool
  u_createdAtDaaScore :: string
  u_spentAtDaaScore :: "string option"

record Snapshot =
  sn_id :: "string option"
  sn_createdAt :: string
  sn_hardkasVersion :: string
  sn_version :: string
  sn_hashVersion :: json
  sn_name :: "string option"
  sn_daaScore :: string
  sn_accountsHash :: string
  sn_utxoSetHash :: string
  sn_stateHash :: string
  sn_accounts :: "LocalnetAccount list"
  sn_utxos :: "LocalnetUtxo list"
  sn_networkId :: string
  sn_mode :: string
  sn_contentHash :: string

record ExecutionClock =
  clk_traceStartedAtMs :: int
  clk_submittedAt :: string
  clk_receiptCreatedAt :: string
  clk_traceCompletedAtMs :: int
  clk_snapshotCreatedAt :: string

record EvidenceFormat =
  fmt_hardkasVersion :: string
  fmt_artifactVersion :: string
  fmt_hashVersion :: int

record ExpectedEvidence =
  exp_receipt :: string
  exp_stateSnapshot :: string
  exp_trace :: string

record PendingExecutionRecord =
  pe_schema :: string
  pe_txId :: string
  pe_executedArtifactId :: string
  pe_preStateHash :: string
  pe_postStateHash :: string
  pe_clock :: ExecutionClock
  pe_workspaceRoot :: string
  pe_format :: EvidenceFormat
  pe_expected :: ExpectedEvidence

record ForkSource =
  fk_network :: string
  fk_rpcUrl :: string
  fk_daaScore :: string
  fk_forkedAt :: string
  fk_addresses :: "string list"

record LocalnetState =
  ls_schema :: string
  ls_hardkasVersion :: string
  ls_version :: string
  ls_createdAt :: string
  ls_mode :: string
  ls_networkId :: string
  ls_workflowId :: "string option"
  ls_assumptionLevel :: "string option"
  ls_daaScore :: string
  ls_accounts :: "LocalnetAccount list"
  ls_utxos :: "LocalnetUtxo list"
  ls_snapshots :: "Snapshot list option"
  ls_dag :: "SimulatedDag option"
  ls_forkSource :: "ForkSource option"
  ls_pendingExecution :: "PendingExecutionRecord option"

subsection \<open>Accounts\<close>

record HardkasAccount =
  ha_name :: string
  ha_address :: string
  ha_evmAddress :: string
  ha_balanceSompi :: int

definition DEFAULT_KASPA_ADDRESSES :: "string list" where
  "DEFAULT_KASPA_ADDRESSES =
    [''kaspasim:qqlpk9rs7yag6eqj3lttzqd8vgvssz8l8fxlpdag4h7zx2rjjr8lkkerwkezn'',
     ''kaspasim:qryj23rch0n5rc7klfug58zcrnuc966qljwgzpu3mflqgxu6w2pjg6n575980'',
     ''kaspasim:qqngk9jxxnkhcxpa8w2np5cnvl5v7ke0nx89g4hvgegmrd4awlyts3wxy0770'',
     ''kaspasim:qq49jccu6feeazyfwqz7sjhkzqcn7f74swvcjcde5khnvtdfn7x2zzzaystaj'',
     ''kaspasim:qrj0cc3yrdhajhncal833a8rsqv8q758sa647w7dpwnqdfm8696gslkrvdw5l'']"

definition DEFAULT_EVM_ADDRESSES :: "string list" where
  "DEFAULT_EVM_ADDRESSES =
    [''0xf39Fd6e51aad88F6F4ce6aB8827279cffFb92266'', ''0x70997970C51812dc3A010C7d01b50e0d17dc79C8'',
     ''0x3C44CdDdB6a900fa2b585dd299e03d12FA4293BC'', ''0x90F79bf6EB2c4f870365E785982E1f101E93b906'',
     ''0x15d34AAf54267DB7D7c367839AAf71A00a2C6A65'']"

definition account_names :: "string list" where
  "account_names = [''alice'', ''bob'', ''carol'', ''dave'', ''erin'']"

definition SOMPI_PER_KAS :: int where
  "SOMPI_PER_KAS = 100000000"

definition deterministicAccount :: "int \<Rightarrow> nat \<Rightarrow> HardkasAccount" where
  "deterministicAccount balance index =
     (let name = (if index < length account_names then account_names ! index else ''account'' @ nat_str index) in
      \<lparr>ha_name = name,
       ha_address = (if index < length DEFAULT_KASPA_ADDRESSES then DEFAULT_KASPA_ADDRESSES ! index else ''kaspa:sim_'' @ name),
       ha_evmAddress = (if index < length DEFAULT_EVM_ADDRESSES then DEFAULT_EVM_ADDRESSES ! index
          else ''0x000000000000000000000000000000000000000'' @ nat_str index),
       ha_balanceSompi = balance\<rparr>)"

definition createDeterministicAccounts :: "nat option \<Rightarrow> int option \<Rightarrow> HardkasAccount list" where
  "createDeterministicAccounts accountCount initialBalanceSompi =
     map (deterministicAccount (case initialBalanceSompi of None \<Rightarrow> 1000 * 100000000 | Some b \<Rightarrow> b))
       [0..<(case accountCount of None \<Rightarrow> 5 | Some n \<Rightarrow> n)]"

text \<open>An alias is looked up in an object literal; the names every object inherits (\<open>constructor\<close>,
  \<open>__proto__\<close>) are outside the model.\<close>

definition resolveAccountAddress :: "string \<Rightarrow> string result" where
  "resolveAccountAddress input =
     (if starts_with input ''kaspa:'' \<or> starts_with input ''kaspasim:'' then Inr input
      else case map_of (zip account_names DEFAULT_KASPA_ADDRESSES) (map to_lower input) of
        None \<Rightarrow> Inl (''Unknown account alias: '' @ input)
      | Some a \<Rightarrow> Inr a)"

subsection \<open>State\<close>

definition initialUtxo :: "(string \<Rightarrow> string) \<Rightarrow> HardkasAccount \<Rightarrow> LocalnetUtxo" where
  "initialUtxo sha a =
     \<lparr>u_id = sha (''genesis:'' @ ha_name a) @ '':0'', u_address = ha_address a, u_amountSompi = int_str (ha_balanceSompi a),
      u_spent = False, u_createdAtDaaScore = ''0'', u_spentAtDaaScore = None\<rparr>"

definition HARDKAS_VERSION :: string where
  "HARDKAS_VERSION = ''0.13.0-rc.1''"

definition createInitialLocalnetState :: "(string \<Rightarrow> string) \<Rightarrow> string \<Rightarrow> nat option \<Rightarrow> int option \<Rightarrow> LocalnetState" where
  "createInitialLocalnetState sha now accounts initialBalanceSompi =
     (let as = createDeterministicAccounts (Some (case accounts of None \<Rightarrow> 5 | Some n \<Rightarrow> n))
                 (Some (case initialBalanceSompi of None \<Rightarrow> 1000 * SOMPI_PER_KAS | Some b \<Rightarrow> b)) in
      \<lparr>ls_schema = ''hardkas.localnetState.v1'', ls_hardkasVersion = HARDKAS_VERSION, ls_version = ''1.0.0-alpha'',
       ls_createdAt = now, ls_mode = ''simulator'', ls_networkId = ''simnet'', ls_workflowId = Some ''wf_system_bootstrap'',
       ls_assumptionLevel = Some ''default'', ls_daaScore = ''0'',
       ls_accounts = map (\<lambda>a. \<lparr>acc_name = ha_name a, acc_address = ha_address a\<rparr>) as,
       ls_utxos = map (initialUtxo sha) as,
       ls_snapshots = Some [], ls_dag = None, ls_forkSource = None, ls_pendingExecution = None\<rparr>)"

text \<open>The group of \<open>/^kaspa:sim_(.+)$/\<close>: the dot matches no line terminator.\<close>

definition syntheticName :: "string \<Rightarrow> string option" where
  "syntheticName s =
     (let r = drop 10 s in
      if starts_with s ''kaspa:sim_'' \<and> r \<noteq> [] \<and> CHR 0x0A \<notin> set r \<and> CHR 0x0D \<notin> set r then Some r else None)"

definition findAccount :: "LocalnetState \<Rightarrow> string \<Rightarrow> LocalnetAccount option" where
  "findAccount state name = List.find (\<lambda>a. acc_name a = name) (ls_accounts state)"

definition resolveAccountAddressFromState :: "LocalnetState \<Rightarrow> string \<Rightarrow> string" where
  "resolveAccountAddressFromState state nameOrAddress =
     (case syntheticName nameOrAddress of
        Some n \<Rightarrow> (case findAccount state n of Some a \<Rightarrow> acc_address a | None \<Rightarrow> nameOrAddress)
      | None \<Rightarrow>
          if starts_with nameOrAddress ''kaspa:'' then nameOrAddress
          else (case findAccount state nameOrAddress of Some a \<Rightarrow> acc_address a | None \<Rightarrow> nameOrAddress))"

fun filterE :: "('a \<Rightarrow> bool result) \<Rightarrow> 'a list \<Rightarrow> 'a list result" where
  "filterE p [] = Inr []"
| "filterE p (x # xs) = bindE (p x) (\<lambda>b. bindE (filterE p xs) (\<lambda>ys. Inr (if b then x # ys else ys)))"

definition reviveUtxo :: "int \<Rightarrow> LocalnetUtxo \<Rightarrow> LocalnetUtxo result" where
  "reviveUtxo target u =
     (case u_spentAtDaaScore u of
        None \<Rightarrow> Inr u
      | Some s \<Rightarrow>
          if u_spent u \<and> s \<noteq> [] then
            bindE (bigE s) (\<lambda>at. Inr (if at > target then u\<lparr>u_spentAtDaaScore := None, u_spent := False\<rparr> else u))
          else Inr u)"

definition reconstructStateAtDaa :: "LocalnetState \<Rightarrow> string + int \<Rightarrow> LocalnetState result" where
  "reconstructStateAtDaa state targetDaa =
     bindE (case targetDaa of Inl s \<Rightarrow> bigE s | Inr i \<Rightarrow> Inr i) (\<lambda>target.
     bindE (filterE (\<lambda>u. bindE (bigE (if u_createdAtDaaScore u = [] then ''0'' else u_createdAtDaaScore u)) (\<lambda>c. Inr (c \<le> target)))
       (ls_utxos state)) (\<lambda>kept.
     bindE (mapE (reviveUtxo target) kept) (\<lambda>utxos.
       Inr (state\<lparr>ls_daaScore := int_str target, ls_utxos := utxos\<rparr>))))"

subsection \<open>Balances\<close>

definition is_word :: "char \<Rightarrow> bool" where
  "is_word c = (let n = of_char c :: nat in (48 \<le> n \<and> n \<le> 57) \<or> (65 \<le> n \<and> n \<le> 90) \<or> n = 95 \<or> (97 \<le> n \<and> n \<le> 122))"

definition resolveMatchAddress :: "LocalnetState \<Rightarrow> string \<Rightarrow> string" where
  "resolveMatchAddress state address =
     (if list_ex (\<lambda>u. u_address u = address \<and> \<not> u_spent u) (ls_utxos state) then address
      else
        (let name = drop 10 address;
             simMatch = (starts_with address ''kaspa:sim_'' \<and> name \<noteq> [] \<and> list_all is_word name);
             resolvedName = resolveAccountAddressFromState state name;
             resolved = resolveAccountAddressFromState state address
         in if simMatch \<and> resolvedName \<noteq> name then resolvedName
            else if resolved \<noteq> address then resolved
            else address))"

definition unspentAt :: "LocalnetUtxo list \<Rightarrow> string \<Rightarrow> LocalnetUtxo list" where
  "unspentAt utxos address = filter (\<lambda>u. u_address u = address \<and> \<not> u_spent u) utxos"

fun sumSompi :: "int \<Rightarrow> LocalnetUtxo list \<Rightarrow> int result" where
  "sumSompi acc [] = Inr acc"
| "sumSompi acc (u # us) = bindE (bigE (u_amountSompi u)) (\<lambda>a. sumSompi (acc + a) us)"

definition getAddressBalanceSompi :: "LocalnetState \<Rightarrow> string \<Rightarrow> int result" where
  "getAddressBalanceSompi state address = sumSompi 0 (unspentAt (ls_utxos state) (resolveMatchAddress state address))"

definition getAccountBalanceSompi :: "LocalnetState \<Rightarrow> string \<Rightarrow> int result" where
  "getAccountBalanceSompi state nameOrAddress =
     getAddressBalanceSompi state (resolveAccountAddressFromState state nameOrAddress)"

definition getSpendableUtxos :: "LocalnetState \<Rightarrow> string \<Rightarrow> LocalnetUtxo list" where
  "getSpendableUtxos state address = unspentAt (ls_utxos state) (resolveMatchAddress state address)"

subsection \<open>The faucet\<close>

definition lastEight :: "string \<Rightarrow> string" where
  "lastEight s = drop (length s - 8) s"

definition faucetId :: "string \<Rightarrow> string \<Rightarrow> string" where
  "faucetId address daa = ''faucet:'' @ lastEight address @ '':'' @ daa @ '':0''"

definition fundAddress :: "LocalnetState \<Rightarrow> string \<Rightarrow> int \<Rightarrow> LocalnetState result" where
  "fundAddress state address amountSompi =
     (if amountSompi \<le> 0 then Inl ''Faucet amount must be positive.''
      else bindE (bigE (ls_daaScore state)) (\<lambda>daa.
        let nextDaaScore = int_str (daa + 1);
            newUtxo = \<lparr>u_id = faucetId address nextDaaScore, u_address = resolveAccountAddressFromState state address,
              u_amountSompi = int_str amountSompi, u_spent = False, u_createdAtDaaScore = nextDaaScore, u_spentAtDaaScore = None\<rparr>
        in Inr (state\<lparr>ls_daaScore := nextDaaScore, ls_utxos := ls_utxos state @ [newUtxo]\<rparr>)))"

subsection \<open>The in-memory chain\<close>

record SimulatedUtxo =
  su_id :: string
  su_address :: string
  su_amountSompi :: int
  su_spent :: bool

record ChainSnapshot =
  cs_id :: string
  cs_utxos :: "SimulatedUtxo list"
  cs_daaScore :: int

record SimulatedKaspaChain =
  ch_utxos :: "SimulatedUtxo list"
  ch_daaScore :: int

definition newChain :: "HardkasAccount list \<Rightarrow> SimulatedKaspaChain" where
  "newChain accounts =
     \<lparr>ch_utxos = map (\<lambda>a. \<lparr>su_id = ''genesis:'' @ ha_name a @ '':0'', su_address = ha_address a,
        su_amountSompi = ha_balanceSompi a, su_spent = False\<rparr>) accounts,
      ch_daaScore = 0\<rparr>"

definition mineBlock :: "SimulatedKaspaChain \<Rightarrow> SimulatedKaspaChain \<times> int" where
  "mineBlock c = (c\<lparr>ch_daaScore := ch_daaScore c + 1\<rparr>, ch_daaScore c + 1)"

definition getUtxos :: "SimulatedKaspaChain \<Rightarrow> string \<Rightarrow> SimulatedUtxo list" where
  "getUtxos c address = filter (\<lambda>u. su_address u = address \<and> \<not> su_spent u) (ch_utxos c)"

definition getBalance :: "SimulatedKaspaChain \<Rightarrow> string \<Rightarrow> int" where
  "getBalance c address = foldl (\<lambda>s u. s + su_amountSompi u) 0 (filter (\<lambda>u. su_address u = address \<and> \<not> su_spent u) (ch_utxos c))"

definition fund :: "SimulatedKaspaChain \<Rightarrow> string \<Rightarrow> int \<Rightarrow> (SimulatedKaspaChain \<times> SimulatedUtxo) result" where
  "fund c address amountSompi =
     (if amountSompi \<le> 0 then Inl ''Faucet amount must be positive.''
      else
        (let utxo = \<lparr>su_id = ''faucet:'' @ lastEight address @ '':'' @ int_str (ch_daaScore c) @ '':'' @ nat_str (length (ch_utxos c)),
               su_address = address, su_amountSompi = amountSompi, su_spent = False\<rparr>
         in Inr (fst (mineBlock (c\<lparr>ch_utxos := ch_utxos c @ [utxo]\<rparr>)), utxo)))"

definition chain_snapshot :: "string \<Rightarrow> SimulatedKaspaChain \<Rightarrow> ChainSnapshot" where
  "chain_snapshot now c = \<lparr>cs_id = ''snapshot:'' @ now, cs_utxos = ch_utxos c, cs_daaScore = ch_daaScore c\<rparr>"

definition chain_restore :: "ChainSnapshot \<Rightarrow> SimulatedKaspaChain \<Rightarrow> SimulatedKaspaChain" where
  "chain_restore s c = c\<lparr>ch_utxos := cs_utxos s, ch_daaScore := cs_daaScore s\<rparr>"

end
