(* ===== verification/HK_LocalnetProps.thy ===== *)
theory HK_LocalnetProps
  imports HK_Localnet
begin

text \<open>
  The invariant of the simulated ledger and the properties of accounts, faucet, balances and time
  travel. \<open>ledger_ok\<close> says that every number of the state is one, that nothing is dated after the
  state's DAA score, that a UTXO is marked spent exactly when it is dated as spent, and that UTXO ids
  are unique; \<open>accounts_ok\<close> that the spellings of an account cannot be mistaken for another one.
\<close>

subsection \<open>Identity of accounts\<close>

definition name_ok :: "string \<Rightarrow> bool" where
  "name_ok n \<longleftrightarrow> n \<noteq> [] \<and> \<not> starts_with n ''kaspa:'' \<and> CHR 0x0A \<notin> set n \<and> CHR 0x0D \<notin> set n"

definition accounts_ok :: "LocalnetAccount list \<Rightarrow> bool" where
  "accounts_ok as \<longleftrightarrow> distinct (map acc_name as) \<and>
     (\<forall>a \<in> set as. name_ok (acc_name a) \<and>
        (syntheticName (acc_address a) = Some (acc_name a) \<or>
         (syntheticName (acc_address a) = None \<and> (starts_with (acc_address a) ''kaspa:'' \<or> acc_address a \<notin> set (map acc_name as)))))"

lemma syntheticName_append: "name_ok n \<Longrightarrow> syntheticName (''kaspa:sim_'' @ n) = Some n"
  by (simp add: syntheticName_def name_ok_def starts_with_def)

lemma syntheticName_Some: "syntheticName s = Some n \<Longrightarrow> s = ''kaspa:sim_'' @ n \<and> n \<noteq> []"
  by (auto simp: syntheticName_def Let_def starts_with_iff split: if_splits)

lemma syntheticName_prefix: "syntheticName s = Some n \<Longrightarrow> starts_with s ''kaspa:''"
  by (drule syntheticName_Some) (simp add: starts_with_def)

lemma syntheticName_name: "name_ok n \<Longrightarrow> syntheticName n = None"
  using syntheticName_prefix by (cases "syntheticName n") (auto simp: name_ok_def)

lemma find_key: "distinct (map f xs) \<Longrightarrow> x \<in> set xs \<Longrightarrow> List.find (\<lambda>y. f y = f x) xs = Some x"
  by (induction xs) (auto simp: image_iff)

lemma findAccount_name:
  assumes "distinct (map acc_name (ls_accounts st))" "a \<in> set (ls_accounts st)"
  shows "findAccount st (acc_name a) = Some a"
  using find_key [OF assms] by (simp add: findAccount_def)

lemma findAccount_Some: "findAccount st n = Some a \<Longrightarrow> a \<in> set (ls_accounts st) \<and> acc_name a = n"
  by (auto simp: findAccount_def find_Some_iff)

lemma findAccount_None: "findAccount st n = None \<longleftrightarrow> n \<notin> set (map acc_name (ls_accounts st))"
  by (auto simp: findAccount_def find_None_iff)

lemma resolve_name:
  assumes "accounts_ok (ls_accounts st)" "a \<in> set (ls_accounts st)"
  shows "resolveAccountAddressFromState st (acc_name a) = acc_address a"
    "resolveAccountAddressFromState st (''kaspa:sim_'' @ acc_name a) = acc_address a"
    "resolveAccountAddressFromState st (acc_address a) = acc_address a"
proof -
  have n: "name_ok (acc_name a)" and f: "findAccount st (acc_name a) = Some a"
    using assms findAccount_name by (auto simp: accounts_ok_def)
  show "resolveAccountAddressFromState st (acc_name a) = acc_address a"
    using n f syntheticName_name [OF n] by (simp add: resolveAccountAddressFromState_def name_ok_def)
  show "resolveAccountAddressFromState st (''kaspa:sim_'' @ acc_name a) = acc_address a"
    using f by (simp only: resolveAccountAddressFromState_def syntheticName_append [OF n] option.case)
  have "syntheticName (acc_address a) = Some (acc_name a) \<or>
    (syntheticName (acc_address a) = None \<and> (starts_with (acc_address a) ''kaspa:'' \<or> acc_address a \<notin> set (map acc_name (ls_accounts st))))"
    using assms by (auto simp: accounts_ok_def)
  then show "resolveAccountAddressFromState st (acc_address a) = acc_address a"
  proof (elim disjE conjE)
    assume "acc_address a \<notin> set (map acc_name (ls_accounts st))" "syntheticName (acc_address a) = None"
    then show ?thesis by (simp add: resolveAccountAddressFromState_def findAccount_None [symmetric] del: set_map)
  qed (use f in \<open>simp_all add: resolveAccountAddressFromState_def\<close>)
qed

lemma resolve_cases:
  obtains (account) a where "a \<in> set (ls_accounts st)" "resolveAccountAddressFromState st x = acc_address a"
      "x = acc_name a \<or> syntheticName x = Some (acc_name a)"
  | (same) "resolveAccountAddressFromState st x = x"
proof (cases "resolveAccountAddressFromState st x = x")
  case True
  then show thesis by (rule same)
next
  case False
  then obtain a n where "findAccount st n = Some a" "resolveAccountAddressFromState st x = acc_address a" "n = x \<or> syntheticName x = Some n"
    by (auto simp: resolveAccountAddressFromState_def split: option.splits if_splits)
  then show thesis using account findAccount_Some by blast
qed

lemma resolve_idem:
  assumes "accounts_ok (ls_accounts st)"
  shows "resolveAccountAddressFromState st (resolveAccountAddressFromState st x) = resolveAccountAddressFromState st x"
proof (cases rule: resolve_cases [of st x])
  case (account a)
  then show ?thesis using resolve_name(3) [OF assms] by simp
qed simp

lemma resolveMatch_resolved:
  assumes ok: "accounts_ok (ls_accounts st)" and x: "resolveAccountAddressFromState st x = x"
  shows "resolveMatchAddress st x = x"
proof -
  have "resolveAccountAddressFromState st (drop 10 x) = drop 10 x \<or> resolveAccountAddressFromState st (drop 10 x) = x"
    if sim: "starts_with x ''kaspa:sim_''" "drop 10 x \<noteq> []" "list_all is_word (drop 10 x)"
  proof -
    have no: "CHR 0x0A \<notin> set (drop 10 x)" "CHR 0x0D \<notin> set (drop 10 x)"
      using sim(3) by (auto simp: list_all_iff is_word_def Let_def)
    then have syn: "syntheticName x = Some (drop 10 x)" using sim by (simp add: syntheticName_def)
    show ?thesis
    proof (cases rule: resolve_cases [of st "drop 10 x"])
      case (account a)
      have "\<not> starts_with (drop 10 x) ''kaspa:''"
      proof
        assume "starts_with (drop 10 x) ''kaspa:''"
        then have "CHR '':'' \<in> set (drop 10 x)" by (auto simp: starts_with_iff)
        then show False using sim(3) by (auto simp: list_all_iff is_word_def Let_def)
      qed
      then have "drop 10 x = acc_name a" using account(3) syntheticName_prefix by blast
      moreover have "acc_address a = x"
        using x syn resolve_name(2) [OF ok account(1)] \<open>drop 10 x = acc_name a\<close> syntheticName_Some [OF syn] by metis
      ultimately show ?thesis using account(2) by simp
    qed simp
  qed
  then show ?thesis using x by (auto simp: resolveMatchAddress_def Let_def)
qed

subsection \<open>The ledger invariant\<close>

definition utxo_ok :: "int \<Rightarrow> LocalnetUtxo \<Rightarrow> bool" where
  "utxo_ok d u \<longleftrightarrow>
     (\<exists>a c. u_amountSompi u = int_str a \<and> 0 \<le> a \<and> u_createdAtDaaScore u = int_str c \<and> c \<le> d \<and>
        (case u_spentAtDaaScore u of None \<Rightarrow> \<not> u_spent u | Some s \<Rightarrow> u_spent u \<and> (\<exists>e. s = int_str e \<and> c \<le> e \<and> e \<le> d)))"

definition faucet_below :: "int \<Rightarrow> LocalnetUtxo \<Rightarrow> bool" where
  "faucet_below d u \<longleftrightarrow> (\<forall>a e. u_id u = faucetId a (int_str e) \<longrightarrow> e \<le> d)"

definition ledger_ok :: "int \<Rightarrow> LocalnetState \<Rightarrow> bool" where
  "ledger_ok d st \<longleftrightarrow> ls_daaScore st = int_str d \<and> distinct (map u_id (ls_utxos st)) \<and>
     (\<forall>u \<in> set (ls_utxos st). utxo_ok d u \<and> faucet_below d u)"

definition amount :: "LocalnetUtxo \<Rightarrow> int" where
  "amount u = (case BigInt (u_amountSompi u) of None \<Rightarrow> 0 | Some a \<Rightarrow> a)"

definition balance :: "LocalnetUtxo list \<Rightarrow> string \<Rightarrow> int" where
  "balance us a = (\<Sum>u \<leftarrow> unspentAt us a. amount u)"

lemma utxo_ok_amount: "utxo_ok d u \<Longrightarrow> bigE (u_amountSompi u) = Inr (amount u) \<and> 0 \<le> amount u"
  by (auto simp: utxo_ok_def amount_def)

lemma utxo_ok_mono: "utxo_ok d u \<Longrightarrow> d \<le> d' \<Longrightarrow> utxo_ok d' u"
  unfolding utxo_ok_def by (fastforce split: option.splits)

lemma sumSompi_ok: "\<forall>u \<in> set us. utxo_ok d u \<Longrightarrow> sumSompi acc us = Inr (acc + (\<Sum>u \<leftarrow> us. amount u))"
  by (induction us arbitrary: acc) (auto simp: utxo_ok_amount)

lemma balance_ok:
  assumes "ledger_ok d st" "accounts_ok (ls_accounts st)"
  shows "getAccountBalanceSompi st x = Inr (balance (ls_utxos st) (resolveAccountAddressFromState st x))"
proof -
  have "\<forall>u \<in> set (unspentAt (ls_utxos st) a). utxo_ok d u" for a
    using assms(1) by (auto simp: ledger_ok_def unspentAt_def)
  then show ?thesis
    using resolveMatch_resolved [OF assms(2) resolve_idem [OF assms(2)]]
    by (simp add: getAccountBalanceSompi_def getAddressBalanceSompi_def sumSompi_ok [of _ d] balance_def)
qed

subsection \<open>Ledger steps and their inverse\<close>

text \<open>Every transition of the ledger has one form: the DAA score grows by one, some unspent UTXOs are
  marked as spent at the new score, and new ones created at it are appended.\<close>

definition spendUtxos :: "string list \<Rightarrow> string \<Rightarrow> LocalnetUtxo list \<Rightarrow> LocalnetUtxo list" where
  "spendUtxos ids next us = map (\<lambda>u. if u_id u \<in> set ids then u\<lparr>u_spent := True, u_spentAtDaaScore := Some next\<rparr> else u) us"

definition ledger_step :: "int \<Rightarrow> string list \<Rightarrow> LocalnetUtxo list \<Rightarrow> LocalnetState \<Rightarrow> LocalnetState" where
  "ledger_step d ids new st =
     st\<lparr>ls_daaScore := int_str (d + 1), ls_utxos := spendUtxos ids (int_str (d + 1)) (ls_utxos st) @ new\<rparr>"

definition step_ok :: "int \<Rightarrow> string list \<Rightarrow> LocalnetUtxo list \<Rightarrow> LocalnetState \<Rightarrow> bool" where
  "step_ok d ids new st \<longleftrightarrow>
     (\<forall>u \<in> set (ls_utxos st). u_id u \<in> set ids \<longrightarrow> \<not> u_spent u) \<and>
     (\<forall>u \<in> set new. (\<exists>a. u_amountSompi u = int_str a \<and> 0 \<le> a) \<and> u_createdAtDaaScore u = int_str (d + 1) \<and> \<not> u_spent u \<and>
        u_spentAtDaaScore u = None \<and> u_id u \<notin> u_id ` set (ls_utxos st) \<and> faucet_below (d + 1) u) \<and>
     distinct (map u_id new)"

lemma spendUtxos_ids [simp]: "map u_id (spendUtxos ids n us) = map u_id us"
  by (simp add: spendUtxos_def)

lemma faucet_below_mono: "faucet_below d u \<Longrightarrow> d \<le> d' \<Longrightarrow> faucet_below d' u"
  unfolding faucet_below_def by (meson order_trans)

lemma spend_ok:
  assumes "utxo_ok d u"
  shows "utxo_ok (d + 1) (u\<lparr>u_spent := True, u_spentAtDaaScore := Some (int_str (d + 1))\<rparr>)"
  using assms by (fastforce simp: utxo_ok_def)

lemma image_disjoint: "\<forall>u \<in> A. f u \<notin> B \<Longrightarrow> B \<inter> f ` A = {}"
  by auto

lemma ledger_step_ok:
  assumes ok: "ledger_ok d st" and step: "step_ok d ids new st"
  shows "ledger_ok (d + 1) (ledger_step d ids new st)"
proof -
  have old: "utxo_ok (d + 1) u \<and> faucet_below (d + 1) u" if "u \<in> set (spendUtxos ids (int_str (d + 1)) (ls_utxos st))" for u
  proof -
    from that obtain v where v: "v \<in> set (ls_utxos st)"
      "u = (if u_id v \<in> set ids then v\<lparr>u_spent := True, u_spentAtDaaScore := Some (int_str (d + 1))\<rparr> else v)"
      by (auto simp: spendUtxos_def)
    have v_ok: "utxo_ok d v" "faucet_below d v" using ok v(1) by (auto simp: ledger_ok_def)
    have "faucet_below (d + 1) u" using faucet_below_mono [OF v_ok(2), of "d + 1"] v(2) by (simp add: faucet_below_def)
    moreover have "utxo_ok (d + 1) u" using spend_ok [OF v_ok(1)] utxo_ok_mono [OF v_ok(1), of "d + 1"] v(2) by simp
    ultimately show ?thesis by blast
  qed
  have new: "utxo_ok (d + 1) u \<and> faucet_below (d + 1) u" if "u \<in> set new" for u
  proof -
    obtain a where "u_amountSompi u = int_str a" "0 \<le> a" "u_createdAtDaaScore u = int_str (d + 1)" "\<not> u_spent u"
      "u_spentAtDaaScore u = None" "faucet_below (d + 1) u" using step \<open>u \<in> set new\<close> by (auto simp: step_ok_def)
    then show ?thesis by (simp add: utxo_ok_def)
  qed
  have "distinct (map u_id (spendUtxos ids (int_str (d + 1)) (ls_utxos st) @ new))"
  proof -
    have "\<forall>u \<in> set new. u_id u \<notin> u_id ` set (ls_utxos st)" using step by (simp add: step_ok_def)
    then have "set (map u_id (ls_utxos st)) \<inter> set (map u_id new) = {}" unfolding set_map by (rule image_disjoint)
    then show ?thesis using ok step unfolding map_append spendUtxos_ids distinct_append ledger_ok_def step_ok_def by blast
  qed
  then show ?thesis using old new unfolding ledger_ok_def ledger_step_def by auto
qed

lemma filterE_total: "(\<And>x. x \<in> set xs \<Longrightarrow> p x = Inr (q x)) \<Longrightarrow> filterE p xs = Inr (filter q xs)"
  by (induction xs) auto

definition created :: "LocalnetUtxo \<Rightarrow> int" where
  "created u = (case BigInt (u_createdAtDaaScore u) of None \<Rightarrow> 0 | Some c \<Rightarrow> c)"

definition revived :: "int \<Rightarrow> LocalnetUtxo \<Rightarrow> LocalnetUtxo" where
  "revived t u = (case u_spentAtDaaScore u of None \<Rightarrow> u
     | Some s \<Rightarrow> (case BigInt s of None \<Rightarrow> u | Some e \<Rightarrow> if e > t then u\<lparr>u_spentAtDaaScore := None, u_spent := False\<rparr> else u))"

text \<open>Reconstruction in closed form, on a ledger that satisfies the invariant.\<close>

lemma reconstruct_eq:
  assumes "ledger_ok d st"
  shows "reconstructStateAtDaa st (Inr t) =
    Inr (st\<lparr>ls_daaScore := int_str t, ls_utxos := map (revived t) (filter (\<lambda>u. created u \<le> t) (ls_utxos st))\<rparr>)"
proof -
  have c: "bindE (bigE (if u_createdAtDaaScore u = [] then ''0'' else u_createdAtDaaScore u)) (\<lambda>c. Inr (c \<le> t)) = Inr (created u \<le> t)"
    and r: "reviveUtxo t u = Inr (revived t u)" if "u \<in> set (ls_utxos st)" for u
  proof -
    have "utxo_ok d u" using assms that by (simp add: ledger_ok_def)
    then obtain c where cr: "u_createdAtDaaScore u = int_str c"
      and sp: "case u_spentAtDaaScore u of None \<Rightarrow> \<not> u_spent u | Some s \<Rightarrow> u_spent u \<and> (\<exists>e. s = int_str e \<and> c \<le> e \<and> e \<le> d)"
      by (auto simp: utxo_ok_def)
    show "bindE (bigE (if u_createdAtDaaScore u = [] then ''0'' else u_createdAtDaaScore u)) (\<lambda>c. Inr (c \<le> t)) = Inr (created u \<le> t)"
      by (simp add: cr created_def)
    show "reviveUtxo t u = Inr (revived t u)"
    proof (cases "u_spentAtDaaScore u")
      case (Some s)
      then obtain e where "s = int_str e" "u_spent u" using sp by auto
      then have "u_spent u \<and> s \<noteq> []" "bigE s = Inr e" "BigInt s = Some e" by simp_all
      then show ?thesis using Some by (simp only: reviveUtxo_def revived_def option.case bindE.simps if_True) simp
    qed (simp add: reviveUtxo_def revived_def)
  qed
  have "filterE (\<lambda>u. bindE (bigE (if u_createdAtDaaScore u = [] then ''0'' else u_createdAtDaaScore u)) (\<lambda>c. Inr (c \<le> t))) (ls_utxos st) =
    Inr (filter (\<lambda>u. created u \<le> t) (ls_utxos st))" by (rule filterE_total) (rule c)
  moreover have "mapE (reviveUtxo t) (filter (\<lambda>u. created u \<le> t) (ls_utxos st)) = Inr (map (revived t) (filter (\<lambda>u. created u \<le> t) (ls_utxos st)))"
    by (rule mapE_total) (use r in auto)
  ultimately show ?thesis by (simp add: reconstructStateAtDaa_def)
qed

lemma created_le: "utxo_ok d u \<Longrightarrow> created u \<le> d"
  by (auto simp: utxo_ok_def created_def)

lemma revived_id: "utxo_ok d u \<Longrightarrow> d \<le> t \<Longrightarrow> revived t u = u"
  by (auto simp: utxo_ok_def revived_def split: option.splits)

lemma reconstruct_step_undo:
  assumes ok: "ledger_ok d st" and step: "step_ok d ids new st"
  shows "reconstructStateAtDaa (ledger_step d ids new st) (Inr d) = Inr st"
proof -
  have new: "filter (\<lambda>u. created u \<le> d) new = []"
    using step by (auto simp: step_ok_def created_def filter_empty_conv)
  have old: "filter (\<lambda>u. created u \<le> d) (spendUtxos ids (int_str (d + 1)) (ls_utxos st)) = spendUtxos ids (int_str (d + 1)) (ls_utxos st)"
    using ok created_le by (fastforce simp: filter_id_conv spendUtxos_def ledger_ok_def created_def)
  have "map (revived d) (spendUtxos ids (int_str (d + 1)) (ls_utxos st)) = ls_utxos st"
    unfolding spendUtxos_def map_map
  proof (rule map_idI)
    fix u
    assume u: "u \<in> set (ls_utxos st)"
    have uok: "utxo_ok d u" using ok u by (simp add: ledger_ok_def)
    have "u_spentAtDaaScore u = None \<and> \<not> u_spent u" if "u_id u \<in> set ids"
      using step u that uok by (auto simp: step_ok_def utxo_ok_def split: option.splits)
    then show "(revived d \<circ> (\<lambda>u. if u_id u \<in> set ids then u\<lparr>u_spent := True, u_spentAtDaaScore := Some (int_str (d + 1))\<rparr> else u)) u = u"
      using revived_id [OF uok] by (auto simp: revived_def)
  qed
  then show ?thesis
    using reconstruct_eq [OF ledger_step_ok [OF assms]] ok new old by (simp add: ledger_step_def ledger_ok_def)
qed

subsection \<open>The initial state\<close>

definition account_name :: "nat \<Rightarrow> string" where
  "account_name i = (if i < 5 then account_names ! i else ''account'' @ nat_str i)"

lemma account_names_len [simp]: "length account_names = 5" "length DEFAULT_KASPA_ADDRESSES = 5" "length DEFAULT_EVM_ADDRESSES = 5"
  by (simp_all add: account_names_def DEFAULT_KASPA_ADDRESSES_def DEFAULT_EVM_ADDRESSES_def)

lemma account_name_inj: "account_name i = account_name j \<Longrightarrow> i = j"
proof -
  have d: "distinct account_names" by (simp add: account_names_def)
  have s: "account_names ! k \<noteq> ''account'' @ m" if "k < 5" for k m
  proof -
    have "list_all (\<lambda>x. take 7 x \<noteq> ''account'') account_names" by code_simp
    then have "take 7 (account_names ! k) \<noteq> ''account''" using that by (simp add: list_all_length)
    then show ?thesis by auto
  qed
  show "account_name i = account_name j \<Longrightarrow> i = j"
    using d s by (auto simp: account_name_def nth_eq_iff_index_eq split: if_splits) (metis s)+
qed

lemma name_ok_account: "name_ok (account_name i)"
proof (cases "i < 5")
  case True
  have "list_all name_ok account_names" by code_simp
  then show ?thesis using True by (simp add: account_name_def list_all_length)
next
  case False
  have "list_all is_digit (nat_str i)" by simp
  then have "CHR 0x0A \<notin> set (nat_str i)" "CHR 0x0D \<notin> set (nat_str i)" by (auto simp: list_all_iff is_digit_def)
  then show ?thesis using False by (simp add: account_name_def name_ok_def starts_with_def)
qed

lemma initial_accounts:
  "ls_accounts (createInitialLocalnetState sha now n b) =
    map (\<lambda>i. \<lparr>acc_name = account_name i, acc_address = (if i < 5 then DEFAULT_KASPA_ADDRESSES ! i else ''kaspa:sim_'' @ account_name i)\<rparr>)
      [0..<(case n of None \<Rightarrow> 5 | Some m \<Rightarrow> m)]"
  by (cases n) (simp_all add: createInitialLocalnetState_def createDeterministicAccounts_def deterministicAccount_def account_name_def Let_def)

lemma initial_accounts_ok: "accounts_ok (ls_accounts (createInitialLocalnetState sha now n b))"
proof -
  let ?addr = "\<lambda>i. if i < 5 then DEFAULT_KASPA_ADDRESSES ! i else ''kaspa:sim_'' @ account_name i"
  have sim: "list_all (\<lambda>x. syntheticName x = None \<and> take 8 x = ''kaspasim'') DEFAULT_KASPA_ADDRESSES" by code_simp
  have names: "take 8 (account_name j) \<noteq> ''kaspasim''" for j
  proof (cases "j < 5")
    case True
    have "list_all (\<lambda>x. take 8 x \<noteq> ''kaspasim'') account_names" by code_simp
    then show ?thesis using True by (simp add: account_name_def list_all_length)
  qed (simp add: account_name_def)
  have addr: "syntheticName (?addr i) = Some (account_name i) \<or>
      (syntheticName (?addr i) = None \<and> ?addr i \<notin> range account_name)" for i
  proof (cases "i < 5")
    case True
    then have "syntheticName (?addr i) = None" "take 8 (?addr i) = ''kaspasim''" using sim by (simp_all add: list_all_length)
    moreover have "?addr i \<noteq> account_name j" for j using \<open>take 8 (?addr i) = ''kaspasim''\<close> names [of j] by auto
    ultimately show ?thesis by blast
  next
    case False
    then show ?thesis using syntheticName_append [OF name_ok_account] by simp
  qed
  let ?as = "ls_accounts (createInitialLocalnetState sha now n b)"
  have "distinct (map acc_name ?as)"
    unfolding initial_accounts by (simp add: distinct_map inj_on_def comp_def account_name_inj)
  moreover have "name_ok (acc_name a) \<and> (syntheticName (acc_address a) = Some (acc_name a) \<or>
      (syntheticName (acc_address a) = None \<and> (starts_with (acc_address a) ''kaspa:'' \<or> acc_address a \<notin> set (map acc_name ?as))))"
    if a_in: "a \<in> set ?as" for a
  proof -
    obtain i where "a = \<lparr>acc_name = account_name i, acc_address = ?addr i\<rparr>"
      using a_in unfolding initial_accounts set_map by (rule imageE)
    then have i: "acc_name a = account_name i" "acc_address a = ?addr i" by simp_all
    have sub: "set (map acc_name ?as) \<subseteq> range account_name" by (auto simp: initial_accounts)
    have n: "name_ok (acc_name a)" using i(1) name_ok_account by simp
    have "syntheticName (acc_address a) = Some (acc_name a) \<or> (syntheticName (acc_address a) = None \<and> acc_address a \<notin> range account_name)"
      using addr [of i] unfolding i .
    then show ?thesis using n sub by blast
  qed
  ultimately show ?thesis unfolding accounts_ok_def by blast
qed

text \<open>What is relied on of SHA-256: a digest is printed without colons, and the digests of the account
  seeds differ.\<close>

definition seeds_distinct :: "(string \<Rightarrow> string) \<Rightarrow> bool" where
  "seeds_distinct sha \<longleftrightarrow> (\<forall>s. CHR '':'' \<notin> set (sha s)) \<and> 
     (\<forall>i j. sha (''genesis:'' @ account_name i) = sha (''genesis:'' @ account_name j) \<longrightarrow> account_name i = account_name j)"

lemma faucetId_inj: "faucetId a (int_str e) = faucetId a' (int_str e') \<Longrightarrow> e = e'"
proof -
  assume "faucetId a (int_str e) = faucetId a' (int_str e')"
  then have "(''faucet:'' @ lastEight a) @ CHR '':'' # int_str e @ '':0'' = (''faucet:'' @ lastEight a') @ CHR '':'' # int_str e' @ '':0''"
    by (simp add: faucetId_def)
  then have "((''faucet:'' @ lastEight a) @ CHR '':'' # int_str e) @ '':0'' = ((''faucet:'' @ lastEight a') @ CHR '':'' # int_str e') @ '':0''"
    by simp
  then have "(''faucet:'' @ lastEight a) @ CHR '':'' # int_str e = (''faucet:'' @ lastEight a') @ CHR '':'' # int_str e'"
    by (simp only: append_same_eq)
  then have "int_str e = int_str e'" using append_colon_inj [of "int_str e" "int_str e'"] int_str_no_colon by blast
  then show "e = e'" by simp
qed

lemma int_str_0: "int_str 0 = ''0''"
  by code_simp

lemma initial_ledger_ok:
  assumes "seeds_distinct sha" "\<And>x. b = Some x \<Longrightarrow> 0 \<le> x"
  shows "ledger_ok 0 (createInitialLocalnetState sha now n b)"
proof -
  let ?bal = "case b of None \<Rightarrow> 1000 * SOMPI_PER_KAS | Some x \<Rightarrow> x"
  have us: "ls_utxos (createInitialLocalnetState sha now n b) =
    map (\<lambda>i. initialUtxo sha (deterministicAccount ?bal i)) [0..<(case n of None \<Rightarrow> 5 | Some m \<Rightarrow> m)]"
    by (cases n) (simp_all add: createInitialLocalnetState_def createDeterministicAccounts_def Let_def)
  have id: "u_id (initialUtxo sha (deterministicAccount ?bal i)) = sha (''genesis:'' @ account_name i) @ '':0''" for i
    by (simp add: initialUtxo_def deterministicAccount_def account_name_def Let_def)
  have "0 \<le> ?bal" using assms(2) by (auto simp: SOMPI_PER_KAS_def split: option.splits)
  then have ok: "utxo_ok 0 (initialUtxo sha (deterministicAccount ?bal i))" for i
    unfolding utxo_ok_def
    by (intro exI [of _ ?bal] exI [of _ 0]) (simp add: initialUtxo_def deterministicAccount_def Let_def int_str_0)
  have fb: "faucet_below 0 (initialUtxo sha (deterministicAccount ?bal i))" for i
    unfolding faucet_below_def
  proof (intro allI impI)
    fix a e
    assume "u_id (initialUtxo sha (deterministicAccount ?bal i)) = faucetId a (int_str e)"
    then have "sha (''genesis:'' @ account_name i) @ '':0'' = (''faucet:'' @ lastEight a @ CHR '':'' # int_str e) @ '':0''"
      unfolding id faucetId_def by simp
    then have "sha (''genesis:'' @ account_name i) = ''faucet:'' @ lastEight a @ CHR '':'' # int_str e" by (simp only: append_same_eq)
    then have "CHR '':'' \<in> set (sha (''genesis:'' @ account_name i))" by simp
    then show "e \<le> 0" using assms(1) by (simp add: seeds_distinct_def)
  qed
  have "inj (\<lambda>i. sha (''genesis:'' @ account_name i))"
    unfolding inj_def using assms(1) account_name_inj unfolding seeds_distinct_def by blast
  then have "distinct (map u_id (ls_utxos (createInitialLocalnetState sha now n b)))"
    unfolding us map_map comp_def id by (simp add: distinct_map inj_on_def)
  moreover have "ls_daaScore (createInitialLocalnetState sha now n b) = int_str 0"
    by (simp add: createInitialLocalnetState_def Let_def int_str_0)
  ultimately show ?thesis unfolding ledger_ok_def us using ok fb by auto
qed

subsection \<open>The faucet\<close>

definition faucetUtxo :: "LocalnetState \<Rightarrow> string \<Rightarrow> int \<Rightarrow> int \<Rightarrow> LocalnetUtxo" where
  "faucetUtxo st a amt d = \<lparr>u_id = faucetId a (int_str (d + 1)), u_address = resolveAccountAddressFromState st a,
     u_amountSompi = int_str amt, u_spent = False, u_createdAtDaaScore = int_str (d + 1), u_spentAtDaaScore = None\<rparr>"

lemma spendUtxos_Nil [simp]: "spendUtxos [] n us = us"
  by (simp add: spendUtxos_def)

lemma fund_step:
  assumes "ledger_ok d st" "0 < amt"
  shows "fundAddress st a amt = Inr (ledger_step d [] [faucetUtxo st a amt d] st)"
    and "step_ok d [] [faucetUtxo st a amt d] st"
proof -
  show "fundAddress st a amt = Inr (ledger_step d [] [faucetUtxo st a amt d] st)"
    using assms by (simp add: fundAddress_def ledger_ok_def ledger_step_def faucetUtxo_def Let_def)
  have "faucetId a (int_str (d + 1)) \<notin> u_id ` set (ls_utxos st)"
  proof
    assume "faucetId a (int_str (d + 1)) \<in> u_id ` set (ls_utxos st)"
    then obtain u where "u \<in> set (ls_utxos st)" "u_id u = faucetId a (int_str (d + 1))" by auto
    then have "faucet_below d u" using assms(1) by (simp add: ledger_ok_def)
    then have "d + 1 \<le> d" using \<open>u_id u = faucetId a (int_str (d + 1))\<close> unfolding faucet_below_def by blast
    then show False by simp
  qed
  moreover have "faucet_below (d + 1) (faucetUtxo st a amt d)"
    using faucetId_inj by (fastforce simp: faucet_below_def faucetUtxo_def)
  ultimately show "step_ok d [] [faucetUtxo st a amt d] st"
    using assms(2) by (auto simp: step_ok_def faucetUtxo_def intro: exI [of _ amt])
qed

lemma resolve_same_accounts:
  assumes "ls_accounts st' = ls_accounts st"
  shows "resolveAccountAddressFromState st' = resolveAccountAddressFromState st"
  unfolding resolveAccountAddressFromState_def [abs_def] findAccount_def [abs_def] assms by (rule refl)

lemma ledger_step_accounts [simp]: "ls_accounts (ledger_step d ids new st) = ls_accounts st"
  by (simp add: ledger_step_def)

subsection \<open>Properties of the local network\<close>

text \<open>an account never has two addresses. In every state with the accounts of the initial one, an
  account's name, its synthetic spelling \<open>kaspa:sim_<name>\<close> and its recorded address all resolve to that
  address, and resolution is idempotent on every string.\<close>

theorem account_identity:
  assumes "ls_accounts st = ls_accounts (createInitialLocalnetState sha now n b)"
  shows "(\<forall>a \<in> set (ls_accounts st).
      resolveAccountAddressFromState st (acc_name a) = acc_address a \<and>
      resolveAccountAddressFromState st (''kaspa:sim_'' @ acc_name a) = acc_address a \<and>
      resolveAccountAddressFromState st (acc_address a) = acc_address a) \<and>
    (\<forall>x. resolveAccountAddressFromState st (resolveAccountAddressFromState st x) = resolveAccountAddressFromState st x \<and>
      resolveMatchAddress st (resolveAccountAddressFromState st x) = resolveAccountAddressFromState st x)"
proof -
  have ok: "accounts_ok (ls_accounts st)" unfolding assms by (rule initial_accounts_ok)
  then show ?thesis using resolve_name [OF ok] resolve_idem [OF ok] resolveMatch_resolved [OF ok] by blast
qed

theorem account_identity_witness:
  "map (\<lambda>a. resolveAccountAddressFromState (createInitialLocalnetState id [] (Some 7) None) (''kaspa:sim_'' @ acc_name a))
     (ls_accounts (createInitialLocalnetState id [] (Some 7) None)) =
   map acc_address (ls_accounts (createInitialLocalnetState id [] (Some 7) None))"
  unfolding map_eq_conv using account_identity [OF refl, of id "[]" "Some 7" None] by blast

text \<open>The faucet. A positive amount is credited to the account, whatever spelling names it, and to no
  other account; the DAA score grows by one, the ledger invariant is kept, and reconstructing the
  state at the score before gives the state before. An amount that is not positive is refused.\<close>

theorem faucet_credits:
  assumes "ledger_ok d st" and "accounts_ok (ls_accounts st)"
  shows "(amt \<le> 0 \<longrightarrow> fundAddress st a amt = Inl ''Faucet amount must be positive.'') \<and>
    (0 < amt \<longrightarrow> (\<exists>st'. fundAddress st a amt = Inr st' \<and> ledger_ok (d + 1) st' \<and> ls_accounts st' = ls_accounts st \<and>
      (\<forall>x. getAccountBalanceSompi st' x = bindE (getAccountBalanceSompi st x) (\<lambda>bal.
         Inr (bal + (if resolveAccountAddressFromState st x = resolveAccountAddressFromState st a then amt else 0)))) \<and>
      reconstructStateAtDaa st' (Inr d) = Inr st))"
proof (intro conjI impI)
  assume pos: "0 < amt"
  define st' where "st' = ledger_step d [] [faucetUtxo st a amt d] st"
  note step = fund_step [OF assms(1) pos, of a]
  have ok': "ledger_ok (d + 1) st'" unfolding st'_def by (rule ledger_step_ok [OF assms(1) step(2)])
  have acc: "ls_accounts st' = ls_accounts st" by (simp add: st'_def)
  have "balance (ls_utxos st') y = balance (ls_utxos st) y + (if y = resolveAccountAddressFromState st a then amt else 0)" for y
    by (simp add: st'_def ledger_step_def balance_def unspentAt_def faucetUtxo_def amount_def)
  then have bal: "getAccountBalanceSompi st' x = bindE (getAccountBalanceSompi st x) (\<lambda>bal.
         Inr (bal + (if resolveAccountAddressFromState st x = resolveAccountAddressFromState st a then amt else 0)))" for x
    using balance_ok [OF ok'] balance_ok [OF assms] assms(2) resolve_same_accounts [OF acc] acc by simp
  have "reconstructStateAtDaa st' (Inr d) = Inr st" unfolding st'_def by (rule reconstruct_step_undo [OF assms(1) step(2)])
  then show "\<exists>st'. fundAddress st a amt = Inr st' \<and> ledger_ok (d + 1) st' \<and> ls_accounts st' = ls_accounts st \<and>
      (\<forall>x. getAccountBalanceSompi st' x = bindE (getAccountBalanceSompi st x) (\<lambda>bal.
         Inr (bal + (if resolveAccountAddressFromState st x = resolveAccountAddressFromState st a then amt else 0)))) \<and>
      reconstructStateAtDaa st' (Inr d) = Inr st"
    using step(1) ok' acc bal unfolding st'_def by blast
qed (simp add: fundAddress_def)

text \<open>A stand-in for the digest in witnesses: printable, without colons, and different on account seeds.\<close>

definition ex_sha :: "string \<Rightarrow> string" where
  "ex_sha s = map (\<lambda>c. if c = CHR '':'' then CHR ''-'' else c) s"

lemma account_name_no_colon: "CHR '':'' \<notin> set (account_name i)"
proof (cases "i < 5")
  case True
  have "list_all (\<lambda>x. CHR '':'' \<notin> set x) account_names" by code_simp
  then show ?thesis using True by (simp add: account_name_def list_all_length)
next
  case False
  have "list_all is_digit (nat_str i)" by simp
  then show ?thesis using False by (auto simp: account_name_def list_all_iff)
qed

lemma ex_sha_seeds: "seeds_distinct ex_sha"
proof -
  have "map (\<lambda>c. if c = CHR '':'' then CHR ''-'' else c) (account_name i) = account_name i" for i
    using account_name_no_colon [of i] by (intro map_idI) auto
  then show ?thesis by (auto simp: seeds_distinct_def ex_sha_def)
qed

definition ex_state :: LocalnetState where
  "ex_state = createInitialLocalnetState ex_sha [] (Some 2) (Some 5000)"

lemma ex_state_ok: "ledger_ok 0 ex_state" "accounts_ok (ls_accounts ex_state)"
  unfolding ex_state_def by (rule initial_ledger_ok [OF ex_sha_seeds], simp) (rule initial_accounts_ok)

theorem faucet_credits_witness:
  "\<exists>st'. fundAddress ex_state ''alice'' 700 = Inr st' \<and> ledger_ok 1 st' \<and> reconstructStateAtDaa st' (Inr 0) = Inr ex_state"
  using faucet_credits [OF ex_state_ok, of 700 "''alice''"] by auto

end
