(* ===== verification/HK_CanonicalProps.thy ===== *)
theory HK_CanonicalProps
  imports HK_Canonical
begin

text \<open>
  What the canonical form and the hashes guarantee.

  The abstract specification is a canonical value \<open>cjson\<close> and its text \<open>ctext\<close>: \<open>canonicalize\<close> drops
  the excluded keys, orders the rest and normalizes strings, and \<open>serialize\<close> refines it
  (\<open>serialize_refines\<close>): it returns exactly the text of the canonical value. The text is uniquely
  readable (\<open>ctext_unique\<close>), so two artifacts with the same hash have the same canonical value, or
  exhibit a collision of the hash function.
\<close>

subsection \<open>Canonical values and their text\<close>

datatype cjson = CNull | CBool bool | CNum string | CStr string | CArr "cjson list" | CObj "(string \<times> cjson) list"

fun ctext :: "cjson \<Rightarrow> string" where
  "ctext CNull = ''null''"
| "ctext (CBool b) = (if b then ''true'' else ''false'')"
| "ctext (CNum s) = s"
| "ctext (CStr s) = json_string s"
| "ctext (CArr xs) = ''['' @ join_with '','' (map ctext xs) @ '']''"
| "ctext (CObj es) = ''{'' @ join_with '','' (map (\<lambda>kc. json_string (fst kc) @ '':'' @ ctext (snd kc)) es) @ ''}''"

function canonicalize :: "json \<Rightarrow> int \<Rightarrow> string option \<Rightarrow> bool \<Rightarrow> nat \<Rightarrow> string option \<Rightarrow> cjson result" where
  "canonicalize JSymbol version keyName isRoot depth parentKey = Inl ''Type symbol is not canonicalizable.''"
| "canonicalize JFunction version keyName isRoot depth parentKey = Inl ''Type function is not canonicalizable.''"
| "canonicalize JUndefined version keyName isRoot depth parentKey =
     (if isRoot then Inl ''Type undefined is not canonicalizable at the root.'' else Inr CNull)"
| "canonicalize (JBigInt i) version keyName isRoot depth parentKey =
     Inr (CStr (if version \<ge> 2 then ''n:'' @ int_str i else int_str i))"
| "canonicalize (JStr s) version keyName isRoot depth parentKey = Inr (CStr (normalizeString version keyName s))"
| "canonicalize JNull version keyName isRoot depth parentKey = Inr CNull"
| "canonicalize (JBool b) version keyName isRoot depth parentKey = Inr (CBool b)"
| "canonicalize (JNum i) version keyName isRoot depth parentKey = Inr (CNum (int_str i))"
| "canonicalize (JFrac t) version keyName isRoot depth parentKey = Inr (if t = ''null'' then CNull else CNum t)"
| "canonicalize (JArr xs) version keyName isRoot depth parentKey =
     bindE (mapE (\<lambda>item. canonicalize item version keyName False (Suc depth) None) xs) (\<lambda>cs. Inr (CArr cs))"
| "canonicalize JMap version keyName isRoot depth parentKey = Inl ''Map is not canonicalizable. Use a plain object.''"
| "canonicalize JSet version keyName isRoot depth parentKey = Inl ''Set is not canonicalizable. Use an array.''"
| "canonicalize JDate version keyName isRoot depth parentKey = Inl ''Date must be serialized explicitly.''"
| "canonicalize JNonPlain version keyName isRoot depth parentKey = Inl ''Non-plain object encountered in canonicalizer.''"
| "canonicalize (JObj es) version keyName isRoot depth parentKey =
     bindE (mapE (\<lambda>kv. bindE (canonicalize (snd kv) version (Some (fst kv)) False (Suc depth) (Some (fst kv))) (\<lambda>c.
         Inr (fst kv, c))) (keptEntries version depth parentKey es)) (\<lambda>cs. Inr (CObj cs))"
  by pat_completeness auto
termination
proof (relation "measure (\<lambda>(j, _). size j)", goal_cases)
  case (2 xs version keyName isRoot depth parentKey item)
  then show ?case by (simp add: less_Suc_eq_le size_list_estimation')
next
  case (3 es version keyName isRoot depth parentKey kv)
  then have "(fst kv, snd kv) \<in> set es" by (auto simp: set_keptEntries)
  from size_json_entry [OF this] show ?case by simp
qed simp

definition mapR :: "('a \<Rightarrow> 'b) \<Rightarrow> 'a result \<Rightarrow> 'b result" where
  "mapR f r = bindE r (\<lambda>x. Inr (f x))"

lemma mapR_simps [simp]: "mapR f (Inl e) = Inl e" "mapR f (Inr x) = Inr (f x)"
  by (simp_all add: mapR_def)

lemma mapR_eq_Inr: "mapR f r = Inr y \<longleftrightarrow> (\<exists>x. r = Inr x \<and> y = f x)"
  by (cases r) auto

lemma mapE_mapR:
  "(\<And>x. x \<in> set xs \<Longrightarrow> f x = mapR h (g x)) \<Longrightarrow> mapE f xs = mapR (map h) (mapE g xs)"
proof (induction xs)
  case (Cons x xs)
  then have "mapE f xs = mapR (map h) (mapE g xs)" "f x = mapR h (g x)" by simp_all
  then show ?case by (cases "g x"; cases "mapE g xs") simp_all
qed simp

text \<open>The serializer refines the specification, errors included.\<close>

lemma serialize_refines:
  "serialize j version keyName isRoot depth parentKey = mapR ctext (canonicalize j version keyName isRoot depth parentKey)"
proof (induction j version keyName isRoot depth parentKey rule: serialize.induct)
  case (10 xs version keyName isRoot depth parentKey)
  then have "mapE (\<lambda>item. serialize item version keyName False (Suc depth) None) xs =
    mapR (map ctext) (mapE (\<lambda>item. canonicalize item version keyName False (Suc depth) None) xs)"
    by (intro mapE_mapR) simp
  then show ?case by (cases "mapE (\<lambda>item. canonicalize item version keyName False (Suc depth) None) xs") simp_all
next
  case (15 es version keyName isRoot depth parentKey)
  let ?kept = "keptEntries version depth parentKey es"
  let ?c = "\<lambda>kv. bindE (canonicalize (snd kv) version (Some (fst kv)) False (Suc depth) (Some (fst kv))) (\<lambda>c. Inr (fst kv, c))"
  have "mapE (\<lambda>kv. bindE (serialize (snd kv) version (Some (fst kv)) False (Suc depth) (Some (fst kv))) (\<lambda>t.
      Inr (json_string (fst kv) @ '':'' @ t))) ?kept = mapR (map (\<lambda>kc. json_string (fst kc) @ '':'' @ ctext (snd kc))) (mapE ?c ?kept)"
  proof (rule mapE_mapR)
    fix kv
    assume "kv \<in> set ?kept"
    from 15 [OF this] show "bindE (serialize (snd kv) version (Some (fst kv)) False (Suc depth) (Some (fst kv))) (\<lambda>t.
        Inr (json_string (fst kv) @ '':'' @ t)) = mapR (\<lambda>kc. json_string (fst kc) @ '':'' @ ctext (snd kc)) (?c kv)"
      by (cases "canonicalize (snd kv) version (Some (fst kv)) False (Suc depth) (Some (fst kv))") simp_all
  qed
  then show ?case by (cases "mapE ?c ?kept") simp_all
qed simp_all

subsection \<open>The text is uniquely readable\<close>

definition hex_of :: "char \<Rightarrow> nat" where
  "hex_of c = (let n = of_char c :: nat in if n < 58 then n - 48 else n - 87)"

lemma hex_of_hex_digit: "n < 16 \<Longrightarrow> hex_of (hex_digit n) = n"
  by (auto simp: hex_of_def hex_digit_def Let_def)

text \<open>One code unit of a JSON string, read back.\<close>

fun unescape :: "string \<Rightarrow> (char \<times> string) option" where
  "unescape (a # k # s) =
     (if a \<noteq> CHR 0x5C then Some (a, k # s)
      else if k = CHR 0x22 \<or> k = CHR 0x5C then Some (k, s)
      else if k = CHR ''b'' then Some (char_of (8 :: nat), s)
      else if k = CHR ''f'' then Some (char_of (12 :: nat), s)
      else if k = CHR ''n'' then Some (char_of (10 :: nat), s)
      else if k = CHR ''r'' then Some (char_of (13 :: nat), s)
      else if k = CHR ''t'' then Some (char_of (9 :: nat), s)
      else (case s of z1 # z2 # h1 # h2 # s' \<Rightarrow> Some (char_of (16 * hex_of h1 + hex_of h2), s') | _ \<Rightarrow> None))"
| "unescape [a] = Some (a, [])"
| "unescape [] = None"

lemma char_of_nat_eq: "(of_char c :: nat) = n \<Longrightarrow> char_of n = c"
  by auto

lemma unescape_escape: "unescape (escape_char c @ s) = Some (c, s)"
proof -
  define n where "n = (of_char c :: nat)"
  have c: "char_of n = c" by (simp add: n_def)
  show ?thesis
  proof (cases "c = CHR 0x22 \<or> c = CHR 0x5C \<or> n = 8 \<or> n = 12 \<or> n = 10 \<or> n = 13 \<or> n = 9")
    case True
    then show ?thesis using c by (auto simp: escape_char_def n_def [symmetric] Let_def)
  next
    case False
    show ?thesis
    proof (cases "n < 32")
      case True
      then have "hex_of (hex_digit (n div 16)) = n div 16" "hex_of (hex_digit (n mod 16)) = n mod 16"
        by (simp_all add: hex_of_hex_digit)
      then show ?thesis using False True c by (auto simp: escape_char_def n_def [symmetric] Let_def)
    next
      case ge: False
      then have "escape_char c = [c]" using False by (simp add: escape_char_def n_def [symmetric] Let_def)
      then show ?thesis using False by (cases s) auto
    qed
  qed
qed

lemma escape_char_hd: "escape_char c \<noteq> [] \<and> hd (escape_char c) \<noteq> CHR 0x22"
  by (simp add: escape_char_def Let_def)

lemma escape_char_inj: "escape_char c @ s = escape_char d @ t \<Longrightarrow> c = d \<and> s = t"
  by (metis option.inject prod.inject unescape_escape)

lemma escaped_inj:
  "concat (map escape_char s) @ CHR 0x22 # r = concat (map escape_char t) @ CHR 0x22 # r' \<Longrightarrow> s = t \<and> r = r'"
proof (induction s arbitrary: t)
  case Nil
  show ?case
  proof (cases t)
    case (Cons d t')
    with Nil have "CHR 0x22 # r = escape_char d @ (concat (map escape_char t') @ CHR 0x22 # r')" by simp
    then have "hd (escape_char d) = CHR 0x22" using escape_char_hd [of d] by (metis hd_append2 list.sel(1))
    then show ?thesis using escape_char_hd by blast
  qed (use Nil in simp)
next
  case (Cons c s)
  show ?case
  proof (cases t)
    case Nil
    with Cons.prems have "CHR 0x22 # r' = escape_char c @ (concat (map escape_char s) @ CHR 0x22 # r)" by simp
    then have "hd (escape_char c) = CHR 0x22" using escape_char_hd [of c] by (metis hd_append2 list.sel(1))
    then show ?thesis using escape_char_hd by blast
  next
    case t: (Cons d t')
    with Cons.prems have "escape_char c @ (concat (map escape_char s) @ CHR 0x22 # r) =
      escape_char d @ (concat (map escape_char t') @ CHR 0x22 # r')" by simp
    from escape_char_inj [OF this] Cons.IH show ?thesis using t by blast
  qed
qed

lemma json_string_inj: "json_string s @ r = json_string t @ r' \<Longrightarrow> s = t \<and> r = r'"
  by (rule escaped_inj) (simp add: json_string_def)

definition num_char :: "char \<Rightarrow> bool" where
  "num_char c \<longleftrightarrow> is_digit c \<or> c \<in> {CHR ''-'', CHR ''+'', CHR ''.'', CHR ''e'', CHR ''E''}"

fun wf_c :: "cjson \<Rightarrow> bool" where
  "wf_c (CNum s) = (s \<noteq> [] \<and> list_all num_char s)"
| "wf_c (CArr xs) = list_all wf_c xs"
| "wf_c (CObj es) = list_all (\<lambda>kc. wf_c (snd kc)) es"
| "wf_c c = True"

definition delim :: "string \<Rightarrow> bool" where
  "delim r \<longleftrightarrow> r = [] \<or> hd r \<in> {CHR '','', CHR '']'', CHR ''}''}"

lemma delim_simps [simp]: "delim []" "delim (CHR '','' # r)" "delim (CHR '']'' # r)" "delim (CHR ''}'' # r)"
  by (simp_all add: delim_def)

lemma delim_not_num: "delim r \<Longrightarrow> r \<noteq> [] \<Longrightarrow> \<not> num_char (hd r)"
  by (auto simp: delim_def num_char_def is_digit_def)

lemma takeWhile_num: "list_all num_char s \<Longrightarrow> delim r \<Longrightarrow> takeWhile num_char (s @ r) = s"
  by (cases r) (auto simp: takeWhile_append2 list_all_iff dest: delim_not_num)

text \<open>The kind of a value shows in the first character of its text.\<close>

fun kind :: "cjson \<Rightarrow> nat" where
  "kind CNull = 0" | "kind (CBool b) = (if b then 1 else 2)" | "kind (CNum s) = 3" | "kind (CStr s) = 4"
| "kind (CArr xs) = 5" | "kind (CObj es) = 6"

definition kind_of_char :: "char \<Rightarrow> nat" where
  "kind_of_char c = (if c = CHR ''n'' then 0 else if c = CHR ''t'' then 1 else if c = CHR ''f'' then 2
     else if c = CHR 0x22 then 4 else if c = CHR ''['' then 5 else if c = CHR ''{'' then 6
     else if num_char c then 3 else 7)"

lemma num_char_kind: "num_char c \<Longrightarrow> kind_of_char c = 3"
  by (auto simp: kind_of_char_def num_char_def is_digit_def)

lemma ctext_first: "wf_c c \<Longrightarrow> ctext c \<noteq> [] \<and> kind_of_char (hd (ctext c)) = kind c"
proof (cases c)
  case (CNum s)
  then show "wf_c c \<Longrightarrow> ?thesis" by (cases s) (auto simp: num_char_kind)
qed (auto simp: kind_of_char_def json_string_def num_char_def is_digit_def)

lemma ctext_kind:
  assumes "wf_c a" "wf_c b" "ctext a @ r = ctext b @ s"
  shows "kind a = kind b"
  using ctext_first [OF assms(1)] ctext_first [OF assms(2)] assms(3) by (metis hd_append2)

lemma ctext_not_closing:
  assumes "wf_c a"
  shows "ctext a @ r \<noteq> CHR '']'' # s" "ctext a @ r \<noteq> CHR '','' # s"
proof -
  have "kind_of_char (hd (ctext a @ r)) < 7" "ctext a @ r \<noteq> []" using ctext_first [OF assms] by (cases a; simp)+
  moreover have "kind_of_char CHR '']'' = 7" "kind_of_char CHR '','' = 7"
    by (simp_all add: kind_of_char_def num_char_def is_digit_def)
  ultimately show "ctext a @ r \<noteq> CHR '']'' # s" "ctext a @ r \<noteq> CHR '','' # s" by (metis less_irrefl list.sel(1))+
qed

lemma join_Cons: "join_with sep (x # xs) = x @ (if xs = [] then [] else sep @ join_with sep xs)"
  by (cases xs) auto

text \<open>A list of texts between commas, closed by \<open>e\<close>, is uniquely readable when its elements are.\<close>

lemma join_unique:
  assumes elem: "\<And>x y r s. \<lbrakk>x \<in> set xs; P y; delim r; delim s; f x @ r = f y @ s\<rbrakk> \<Longrightarrow> x = y \<and> r = s"
    and open1: "\<And>x r s. x \<in> set xs \<Longrightarrow> f x @ r \<noteq> e # s" and open2: "\<And>y r s. P y \<Longrightarrow> f y @ r \<noteq> e # s"
    and e: "e \<in> {CHR '']'', CHR ''}''}" and ys: "list_all P ys"
    and eq: "join_with '','' (map f xs) @ e # r = join_with '','' (map f ys) @ e # s"
  shows "xs = ys \<and> r = s"
  using assms
proof (induction xs arbitrary: ys)
  case Nil
  show ?case
  proof (cases ys)
    case (Cons y ys')
    then have "P y" "e # r = f y @ ((if ys' = [] then [] else '','' @ join_with '','' (map f ys')) @ e # s)"
      using Nil.prems(5,6) by (simp_all add: join_Cons)
    then show ?thesis using Nil.prems(3) by metis
  qed (use Nil in simp)
next
  case (Cons x xs)
  let ?rest = "\<lambda>zs. (if zs = [] then [] else '','' @ join_with '','' (map f zs))"
  have del: "delim (?rest zs @ e # t)" for zs t using Cons.prems(4) by (auto simp: delim_def)
  show ?case
  proof (cases ys)
    case Nil
    then have "f x @ (?rest xs @ e # r) = e # s" using Cons.prems(6) by (simp add: join_Cons)
    then show ?thesis using Cons.prems(2) [of x] by simp
  next
    case ys: (Cons y ys')
    then have eq: "f x @ (?rest xs @ e # r) = f y @ (?rest ys' @ e # s)" and P: "P y" "list_all P ys'"
      using Cons.prems(5,6) by (auto simp: join_Cons)
    have xy: "x = y" "?rest xs @ e # r = ?rest ys' @ e # s"
      using Cons.prems(1) [OF _ P(1) del del eq] by auto
    have nc: "e \<noteq> CHR '',''" using Cons.prems(4) by auto
    have "xs = ys' \<and> r = s"
    proof (cases "xs = [] \<or> ys' = []")
      case True
      then show ?thesis using xy(2) nc by (auto split: if_splits)
    next
      case False
      then have "join_with '','' (map f xs) @ e # r = join_with '','' (map f ys') @ e # s" using xy(2) by simp
      then show ?thesis using Cons.IH [OF _ _ Cons.prems(3,4) P(2)] Cons.prems(1,2) by (meson list.set_intros(2))
    qed
    then show ?thesis using xy(1) ys by simp
  qed
qed

lemma kind_cases:
  "kind b = 0 \<Longrightarrow> b = CNull" "kind b = 1 \<Longrightarrow> b = CBool True" "kind b = 2 \<Longrightarrow> b = CBool False"
  "kind b = 3 \<Longrightarrow> \<exists>s. b = CNum s" "kind b = 4 \<Longrightarrow> \<exists>s. b = CStr s" "kind b = 5 \<Longrightarrow> \<exists>xs. b = CArr xs"
  "kind b = 6 \<Longrightarrow> \<exists>es. b = CObj es"
  by (cases b; simp split: if_splits)+

lemma ctext_unique:
  "\<lbrakk>wf_c a; wf_c b; delim r; delim s; ctext a @ r = ctext b @ s\<rbrakk> \<Longrightarrow> a = b \<and> r = s"
proof (induction a arbitrary: b r s)
  case (CNum n)
  then obtain m where b: "b = CNum m" using ctext_kind [OF CNum.prems(1,2,5)] kind_cases(4) [of b] by auto
  have "n = m" using CNum.prems takeWhile_num [of n r] takeWhile_num [of m s] b by auto
  then show ?case using CNum.prems b by simp
next
  case (CStr t)
  then obtain u where b: "b = CStr u" using ctext_kind [OF CStr.prems(1,2,5)] kind_cases(5) [of b] by auto
  then show ?case using CStr.prems(5) json_string_inj [of t r u s] by simp
next
  case (CArr xs)
  then obtain ys where b: "b = CArr ys" using ctext_kind [OF CArr.prems(1,2,5)] kind_cases(6) [of b] by auto
  have wf: "\<And>x. x \<in> set xs \<Longrightarrow> wf_c x" "list_all wf_c ys" using CArr.prems(1,2) b by (auto simp: list_all_iff)
  have "xs = ys \<and> r = s"
  proof (rule join_unique [where f = ctext and P = wf_c and e = "CHR '']''"])
    show "join_with '','' (map ctext xs) @ CHR '']'' # r = join_with '','' (map ctext ys) @ CHR '']'' # s"
      using CArr.prems(5) b by simp
  qed (use CArr.IH wf ctext_not_closing in auto)
  then show ?case using b by simp
next
  case (CObj es)
  then obtain fs where b: "b = CObj fs" using ctext_kind [OF CObj.prems(1,2,5)] kind_cases(7) [of b] by auto
  let ?f = "\<lambda>kc :: string \<times> cjson. json_string (fst kc) @ '':'' @ ctext (snd kc)"
  have wf: "\<And>x. x \<in> set es \<Longrightarrow> wf_c (snd x)" "list_all (\<lambda>kc. wf_c (snd kc)) fs"
    using CObj.prems(1,2) b by (auto simp: list_all_iff)
  have not_closing: "?f x @ r' \<noteq> CHR ''}'' # s'" for x r' s' by (simp add: json_string_def)
  have "es = fs \<and> r = s"
  proof (rule join_unique [where f = ?f and P = "\<lambda>kc. wf_c (snd kc)" and e = "CHR ''}''"])
    fix x y :: "string \<times> cjson" and r' s'
    assume *: "x \<in> set es" "wf_c (snd y)" "delim r'" "delim s'" "?f x @ r' = ?f y @ s'"
    then have "json_string (fst x) @ ('':'' @ ctext (snd x) @ r') = json_string (fst y) @ ('':'' @ ctext (snd y) @ s')" by simp
    from json_string_inj [OF this] have k: "fst x = fst y" "ctext (snd x) @ r' = ctext (snd y) @ s'" by auto
    have "snd x \<in> Basic_BNFs.snds x" by (metis prod.collapse snds.intros)
    then have "snd x = snd y \<and> r' = s'" using CObj.IH [OF *(1) _ wf(1) [OF *(1)] *(2,3,4) k(2)] by simp
    then show "x = y \<and> r' = s'" using k(1) by (simp add: prod_eq_iff)
  next
    show "join_with '','' (map ?f es) @ CHR ''}'' # r = join_with '','' (map ?f fs) @ CHR ''}'' # s"
      using CObj.prems(5) b by simp
  qed (use wf not_closing in auto)
  then show ?case using b by simp
next
  case CNull
  then have "b = CNull" using ctext_kind [OF CNull(1,2,5)] kind_cases(1) by simp
  then show ?case using CNull(5) by simp
next
  case (CBool x)
  have "kind b = (if x then 1 else 2)" using ctext_kind [OF CBool(1,2,5)] by simp
  then have "b = CBool x" using kind_cases(2,3) [of b] by (cases x) simp_all
  then show ?case using CBool(5) by simp
qed

subsection \<open>Numbers and fields\<close>

text \<open>The text of a number that is no integer: what \<open>JSON.stringify\<close> prints, \<open>null\<close> for \<open>NaN\<close> and the
  infinities.\<close>

fun nums_ok :: "json \<Rightarrow> bool" where
  "nums_ok (JFrac t) = (t = ''null'' \<or> (t \<noteq> [] \<and> list_all num_char t))"
| "nums_ok (JArr xs) = list_all nums_ok xs"
| "nums_ok (JObj es) = list_all (\<lambda>kv. nums_ok (snd kv)) es"
| "nums_ok j = True"

lemma int_str_num: "list_all num_char (int_str i)"
  using nat_str_digits [of "nat i"] nat_str_digits [of "nat (- i)"]
  by (auto simp: int_str_def num_char_def list_all_iff)

lemma mapE_all: "mapE f xs = Inr ys \<Longrightarrow> (\<And>x y. x \<in> set xs \<Longrightarrow> f x = Inr y \<Longrightarrow> Q y) \<Longrightarrow> list_all Q ys"
  by (induction xs arbitrary: ys) fastforce+

lemma mapE_mem: "mapE f xs = Inr ys \<Longrightarrow> x \<in> set xs \<Longrightarrow> \<exists>y. f x = Inr y"
  by (induction xs arbitrary: ys) auto

lemma canonicalize_wf:
  "\<lbrakk>nums_ok j; canonicalize j version keyName isRoot depth parentKey = Inr c\<rbrakk> \<Longrightarrow> wf_c c"
proof (induction j version keyName isRoot depth parentKey arbitrary: c rule: canonicalize.induct)
  case (10 xs version keyName isRoot depth parentKey)
  then obtain cs where cs: "mapE (\<lambda>item. canonicalize item version keyName False (Suc depth) None) xs = Inr cs" "c = CArr cs" by auto
  have "list_all wf_c cs" by (rule mapE_all [OF cs(1)]) (use 10 in \<open>auto simp: list_all_iff\<close>)
  then show ?case using cs(2) by simp
next
  case (15 es version keyName isRoot depth parentKey)
  then obtain cs where cs: "mapE (\<lambda>kv. bindE (canonicalize (snd kv) version (Some (fst kv)) False (Suc depth) (Some (fst kv))) (\<lambda>c.
      Inr (fst kv, c))) (keptEntries version depth parentKey es) = Inr cs" "c = CObj cs" by auto
  have "list_all (\<lambda>kc. wf_c (snd kc)) cs"
  proof (rule mapE_all [OF cs(1)])
    fix kv y
    assume kv: "kv \<in> set (keptEntries version depth parentKey es)"
      and y: "bindE (canonicalize (snd kv) version (Some (fst kv)) False (Suc depth) (Some (fst kv))) (\<lambda>c. Inr (fst kv, c)) = Inr y"
    have "kv \<in> set es" using kv by (auto simp: set_keptEntries)
    then have "nums_ok (snd kv)" using 15(2) by (simp add: list_all_iff)
    then show "wf_c (snd y)" using 15(1) [OF kv] y by auto
  qed
  then show ?case using cs(2) by simp
qed (auto simp: int_str_num split: if_splits)

lemma serialize_inj:
  assumes "nums_ok a" "nums_ok b"
    and "serialize a version keyName isRoot depth parentKey = Inr t" "serialize b version keyName isRoot depth parentKey = Inr t"
  shows "canonicalize a version keyName isRoot depth parentKey = canonicalize b version keyName isRoot depth parentKey"
proof -
  obtain x y where x: "canonicalize a version keyName isRoot depth parentKey = Inr x" "t = ctext x"
    and y: "canonicalize b version keyName isRoot depth parentKey = Inr y" "t = ctext y"
    using assms(3,4) unfolding serialize_refines mapR_eq_Inr by blast
  have "wf_c x" "wf_c y" using canonicalize_wf assms(1,2) x(1) y(1) by blast+
  then have "x = y" using ctext_unique [of x y "[]" "[]"] x(2) y(2) by simp
  then show ?thesis using x y by simp
qed

fun is_object :: "json \<Rightarrow> bool" where
  "is_object (JObj es) = distinct (map fst es)"
| "is_object j = False"

lemma is_objectE:
  assumes "is_object a"
  obtains es where "a = JObj es" "distinct (map fst es)"
  using assms by (cases a) auto

interpretation keys_order: keyed_comparator compareKeys fst
  by unfold_locales (simp add: compareKeys_def deterministicCompare_def)

lemma kept_map_of:
  assumes "distinct (map fst es)" "\<not> isExcluded k version depth parentKey"
  shows "map_of (keptEntries version depth parentKey es) k = (case map_of es k of None \<Rightarrow> None | Some v \<Rightarrow> if v = JUndefined then None else Some v)"
proof -
  have dist: "distinct (map fst (keptEntries version depth parentKey es))"
  proof -
    have "mset (map fst (keptEntries version depth parentKey es)) =
      mset (map fst (filter (\<lambda>(k, v). \<not> isExcluded k version depth parentKey \<and> v \<noteq> JUndefined) es))"
      by (simp add: keptEntries_def)
    then show ?thesis using distinct_map_filter [OF assms(1)] mset_eq_imp_distinct_iff by blast
  qed
  have "map_of (keptEntries version depth parentKey es) k = Some v \<longleftrightarrow> map_of es k = Some v \<and> v \<noteq> JUndefined" for v
    using assms by (simp add: map_of_eq_Some_iff [OF dist] map_of_eq_Some_iff [OF assms(1)] set_keptEntries)
  then have eq: "map_of (keptEntries version depth parentKey es) k = Some v \<longleftrightarrow>
      (case map_of es k of None \<Rightarrow> None | Some v \<Rightarrow> if v = JUndefined then None else Some v) = Some v" for v
    by (simp split: option.splits) blast
  then show ?thesis by (metis not_None_eq)
qed

lemma mapE_entries:
  "mapE (\<lambda>kv. bindE (g kv) (\<lambda>c. Inr (fst kv, c))) es = Inr cs \<Longrightarrow>
   map_of cs k = (case map_of es k of None \<Rightarrow> None | Some v \<Rightarrow> (case g (k, v) of Inl e \<Rightarrow> None | Inr c \<Rightarrow> Some c))"
  by (induction es arbitrary: cs) auto

text \<open>The canonical value of a field of an object at some depth; an absent and an undefined field have none.\<close>

definition field_at :: "int \<Rightarrow> nat \<Rightarrow> json \<Rightarrow> string \<Rightarrow> cjson result option" where
  "field_at version depth a k =
     (if jget a k = JUndefined then None else Some (canonicalize (jget a k) version (Some k) False (Suc depth) (Some k)))"

lemma object_field:
  assumes "distinct (map fst es)" "canonicalize (JObj es) version keyName isRoot depth parentKey = Inr c"
    "\<not> isExcluded k version depth parentKey"
  shows "\<exists>cs. c = CObj cs \<and> field_at version depth (JObj es) k = map_option Inr (map_of cs k)"
proof -
  let ?g = "\<lambda>kv. canonicalize (snd kv) version (Some (fst kv)) False (Suc depth) (Some (fst kv))"
  let ?kept = "keptEntries version depth parentKey es"
  obtain cs where cs: "mapE (\<lambda>kv. bindE (?g kv) (\<lambda>c. Inr (fst kv, c))) ?kept = Inr cs" "c = CObj cs"
    using assms(2) by auto
  have ok: "\<exists>y. ?g kv = Inr y" if "kv \<in> set ?kept" for kv
    using mapE_mem [OF cs(1) that] by auto
  note look = mapE_entries [OF cs(1), of k] kept_map_of [OF assms(1,3)]
  show ?thesis
  proof (cases "jget (JObj es) k = JUndefined")
    case True
    then have "(case map_of es k of None \<Rightarrow> None | Some v \<Rightarrow> if v = JUndefined then None else Some v) = None"
      by (simp add: jget_def split: option.splits)
    then have "map_of cs k = None" using look by (simp only: option.case)
    then show ?thesis using cs(2) True by (simp add: field_at_def del: map_of_eq_None_iff)
  next
    case False
    then obtain v where v: "map_of es k = Some v" "v \<noteq> JUndefined" by (auto simp: jget_def split: option.splits)
    then have kept: "map_of ?kept k = Some v" using look(2) by simp
    then obtain y where y: "?g (k, v) = Inr y" using ok [OF map_of_SomeD [OF kept]] by blast
    then have "map_of cs k = Some y" using look(1) kept by simp
    then show ?thesis using cs(2) v y by (simp add: field_at_def jget_def)
  qed
qed

text \<open>Two objects with the same canonical value agree on every field that is not excluded.\<close>

lemma object_fields_agree:
  assumes "distinct (map fst es)" "distinct (map fst fs)" "\<not> isExcluded k version depth parentKey"
    "canonicalize (JObj es) version keyName isRoot depth parentKey = Inr c"
    "canonicalize (JObj fs) version keyName isRoot depth parentKey = Inr c"
  shows "field_at version depth (JObj es) k = field_at version depth (JObj fs) k"
  using object_field [OF assms(1,4,3)] object_field [OF assms(2,5,3)] by auto

lemma hash_Inr:
  assumes "calculateContentHash sha a version = Inr h"
  obtains t where "serialize a version None True 0 None = Inr t" "h = sha t" "version \<noteq> UNEXCLUDED_FORM"
  using assms by (auto simp: calculateContentHash_def canonicalStringify_def HashVersionInvalid_def split: if_splits)

text \<open>Two objects that keep the same entries have the same canonical value.\<close>

lemma kept_same:
  assumes "distinct (map fst es)" "distinct (map fst fs)"
    and "\<And>k v. \<not> isExcluded k version depth parentKey \<Longrightarrow> v \<noteq> JUndefined \<Longrightarrow> (k, v) \<in> set es \<longleftrightarrow> (k, v) \<in> set fs"
  shows "keptEntries version depth parentKey es = keptEntries version depth parentKey fs"
proof -
  let ?P = "\<lambda>(k, v). \<not> isExcluded k version depth parentKey \<and> v \<noteq> JUndefined"
  have "x \<in> set (filter ?P es) \<longleftrightarrow> x \<in> set (filter ?P fs)" for x
    using assms(3) [of "fst x" "snd x"] by (cases x) (simp, blast)
  then have "set (filter ?P es) = set (filter ?P fs)" by blast
  moreover have "distinct (filter ?P es)" "distinct (filter ?P fs)"
    using assms(1,2) by (simp_all add: distinct_map)
  ultimately have "mset (filter ?P es) = mset (filter ?P fs)" 
    using set_eq_iff_mset_eq_distinct [of "filter ?P es" "filter ?P fs"] by blast
  moreover have "\<forall>x \<in> set (filter ?P es). \<forall>y \<in> set (filter ?P es). compareKeys x y = 0 \<longrightarrow> x = y"
  proof (intro ballI impI)
    fix x y
    assume "x \<in> set (filter ?P es)" "y \<in> set (filter ?P es)" "compareKeys x y = 0"
    then have mem: "x \<in> set es" "y \<in> set es" and fst: "fst x = fst y" by (simp_all add: keys_order.cmp_eq_key)
    have "snd x = snd y"
      using eq_key_imp_eq_value [OF assms(1), of "fst x" "snd x" "snd y"] mem fst by (metis prod.collapse)
    then show "x = y" using fst by (simp add: prod_eq_iff)
  qed
  ultimately show ?thesis unfolding keptEntries_def by (rule keys_order.js_sort_perm)
qed

subsection \<open>Properties of the hashes\<close>

text \<open>The serializer refines the canonical value, and its text is uniquely readable. Under every
  version two values have the same canonical text exactly when they have the same canonical value.\<close>

theorem canonical_text_unique:
  assumes "nums_ok a" and "nums_ok b"
    and "canonicalStringify a version keyName isRoot = Inr s" and "canonicalStringify b version keyName isRoot = Inr t"
  shows "s = t \<longleftrightarrow> canonicalize a version keyName isRoot 0 None = canonicalize b version keyName isRoot 0 None"
proof -
  have sa: "serialize a version keyName isRoot 0 None = Inr s" "serialize b version keyName isRoot 0 None = Inr t"
    using assms(3,4) by (simp_all add: canonicalStringify_def HashVersionInvalid_def split: if_splits)
  show ?thesis
  proof
    assume "s = t"
    then show "canonicalize a version keyName isRoot 0 None = canonicalize b version keyName isRoot 0 None"
      using serialize_inj [OF assms(1,2)] sa by metis
  next
    assume "canonicalize a version keyName isRoot 0 None = canonicalize b version keyName isRoot 0 None"
    then show "s = t" using sa unfolding serialize_refines by simp
  qed
qed

definition ex_artifact :: json where
  "ex_artifact = JObj [(''schema'', JStr ''hardkas.txPlan''), (''hashVersion'', JNum 5), (''createdAt'', JStr ''now''),
     (''lineage'', JObj [(''artifactId'', JStr ''x''), (''parentArtifactId'', JStr ''p'')]), (''amount'', JBigInt 7)]"

definition ex_artifact2 :: json where
  "ex_artifact2 = JObj [(''amount'', JBigInt 7), (''createdAt'', JStr ''later''), (''hashVersion'', JNum 5),
     (''schema'', JStr ''hardkas.txPlan''), (''lineage'', JObj [(''parentArtifactId'', JStr ''p'')])]"

definition ex_text :: string where
  "ex_text = (case canonicalStringify ex_artifact 5 None True of Inr s \<Rightarrow> s | Inl e \<Rightarrow> [])"

lemma ex_texts: "nums_ok ex_artifact" "nums_ok ex_artifact2"
  "canonicalStringify ex_artifact 5 None True = Inr ex_text" "canonicalStringify ex_artifact2 5 None True = Inr ex_text"
  by code_simp+

theorem canonical_text_unique_witness:
  "canonicalize ex_artifact 5 None True 0 None = canonicalize ex_artifact2 5 None True 0 None"
  using canonical_text_unique [OF ex_texts] by simp

text \<open>
  Artifacts as they are read from their files: no \<open>undefined\<close>, no \<open>bigint\<close>, line ends without carriage return, and in the
  fields that hold paths no backslash, which are the texts the canonical form leaves as they are. A number that is no
  integer is printed with a point or an exponent.
\<close>

fun stored_json :: "string option \<Rightarrow> json \<Rightarrow> bool" where
  "stored_json key JNull = True"
| "stored_json key (JBool b) = True"
| "stored_json key (JNum i) = True"
| "stored_json key (JFrac t) = (list_all num_char t \<and> (CHR ''.'' \<in> set t \<or> CHR ''e'' \<in> set t))"
| "stored_json key (JStr s) = (CHR 0x0D \<notin> set s \<and> (case key of Some k \<Rightarrow> k \<in> set STRICT_PATH_KEYS \<longrightarrow> CHR 0x5C \<notin> set s | None \<Rightarrow> True))"
| "stored_json key (JArr xs) = list_all (stored_json key) xs"
| "stored_json key (JObj es) = (distinct (map fst es) \<and> list_all (\<lambda>kv. stored_json (Some (fst kv)) (snd kv)) es)"
| "stored_json key j = False"

text \<open>A place in an artifact, what stands there, and what is compared: a primitive value, the length of an array, or
  that it is an object.\<close>

datatype path_step = AtKey string | AtIndex nat

fun at_path :: "json \<Rightarrow> path_step list \<Rightarrow> json option" where
  "at_path j [] = Some j"
| "at_path (JObj es) (AtKey k # p) = (case map_of es k of None \<Rightarrow> None | Some v \<Rightarrow> at_path v p)"
| "at_path (JArr xs) (AtIndex i # p) = (if i < length xs then at_path (xs ! i) p else None)"
| "at_path j (s # p) = None"

fun value_shape :: "json \<Rightarrow> json" where
  "value_shape (JArr xs) = JArr (map (\<lambda>_. JNull) xs)"
| "value_shape (JObj es) = JObj []"
| "value_shape j = j"

text \<open>The places version 5 leaves open: the listed names and derived labels at the top level, and the two self references.\<close>

fun open_path :: "path_step list \<Rightarrow> bool" where
  "open_path (AtKey k # p) \<longleftrightarrow> k = ''contentHash'' \<or> k \<in> set V5_UNAUTHENTICATED \<or> k \<in> set V5_DERIVED_LABELS \<or>
     (k = ''lineage'' \<and> take 1 p = [AtKey ''artifactId''])"
| "open_path p \<longleftrightarrow> False"

lemma crlf_no_cr: "CHR 0x0D \<notin> set s \<Longrightarrow> crlf s = s"
  by (induction s rule: crlf.induct) auto

lemma slashes_none: "CHR 0x5C \<notin> set s \<Longrightarrow> slashes s = s"
  unfolding slashes_def by (induction s) auto

lemma stored_string: "stored_json key (JStr s) \<Longrightarrow> normalizeString version key s = s"
  by (auto simp: normalizeString_def crlf_no_cr slashes_none split: option.splits)

lemma stored_defined: "stored_json key j \<Longrightarrow> j \<noteq> JUndefined"
  by auto

lemma stored_nums: "stored_json key j \<Longrightarrow> nums_ok j"
  by (induction key j rule: stored_json.induct) (auto simp: list_all_iff)

lemma frac_not_int: "CHR ''.'' \<in> set t \<or> CHR ''e'' \<in> set t \<Longrightarrow> int_str i \<noteq> t"
proof
  assume t: "CHR ''.'' \<in> set t \<or> CHR ''e'' \<in> set t" and "int_str i = t"
  moreover have "c = CHR ''-'' \<or> is_digit c" if "c \<in> set (int_str i)" for c
    using that nat_str_digits [of "nat i"] nat_str_digits [of "nat (- i)"] by (auto simp: int_str_def list_all_iff split: if_splits)
  ultimately have "is_digit (CHR ''.'') \<or> is_digit (CHR ''e'')" by fastforce
  then show False by (simp add: is_digit_def)
qed

lemma canonical_shape:
  assumes "stored_json key x" "stored_json key y" "canonicalize x v key r d pk = Inr c" "canonicalize y v key r d pk = Inr c"
  shows "value_shape x = value_shape y"
proof -
  have len: "length xs = length cs" if "mapE f xs = Inr cs" for f :: "json \<Rightarrow> cjson result" and xs cs
    using that by (induction xs arbitrary: cs) auto
  have ints: "int_str i = int_str j \<Longrightarrow> i = j" for i j by (metis bigE_int_str sum.inject(2))
  show ?thesis
    using assms stored_string [of key _ v] frac_not_int
    by (cases x; cases y) (auto simp: map_replicate_const dest!: len ints split: if_splits)
qed


lemma canonical_item:
  assumes "mapE f xs = Inr cs" "i < length xs"
  shows "f (xs ! i) = Inr (cs ! i)"
  using assms by (induction xs arbitrary: cs i) (auto simp: nth_Cons split: nat.splits)

text \<open>The steps of a path as \<open>isAuthenticatedPath\<close> takes them.\<close>

fun step_key :: "path_step \<Rightarrow> string option" where
  "step_key (AtKey k) = Some k"
| "step_key (AtIndex i) = None"

lemma stored_field:
  assumes "stored_json key (JObj es)" "map_of es k = Some v"
  shows "stored_json (Some k) v"
proof -
  have "(k, v) \<in> set es" using assms(2) by (rule map_of_SomeD)
  then show ?thesis using assms(1) unfolding stored_json.simps list_all_iff by fastforce
qed

lemma canonical_paths_agree:
  "stored_json key x \<Longrightarrow> stored_json key y \<Longrightarrow> canonicalize x v key r d pk = Inr c \<Longrightarrow> canonicalize y v key r d pk = Inr c \<Longrightarrow>
   authenticatedFrom (map step_key p) v d pk \<Longrightarrow> map_option value_shape (at_path x p) = map_option value_shape (at_path y p)"
proof (induction p arbitrary: key x y r d pk c)
  case Nil
  have "value_shape x = value_shape y" by (rule canonical_shape [OF Nil(1-4)])
  then show ?case by simp
next
  case (Cons s p)
  have sh: "value_shape x = value_shape y" by (rule canonical_shape [OF Cons.prems(1-4)])
  show ?case
  proof (cases s)
    case (AtKey k)
    show ?thesis
    proof (cases x)
      case (JObj es)
      then obtain fs where y: "y = JObj fs" using sh by (cases y) auto
      have k: "\<not> isExcluded k v d pk" "authenticatedFrom (map step_key p) v (Suc d) (Some k)" using Cons.prems(5) AtKey by (simp_all split: if_splits)
      have dist: "distinct (map fst es)" "distinct (map fst fs)" using Cons.prems(1,2) JObj y by simp_all
      obtain cs where cs: "field_at v d x k = map_option Inr (map_of cs k)" "field_at v d y k = map_option Inr (map_of cs k)"
        using object_field [OF dist(1) Cons.prems(3) [unfolded JObj] k(1)] object_field [OF dist(2) Cons.prems(4) [unfolded y] k(1)] JObj y by auto
      have und: "map_of gs k \<noteq> Some JUndefined" if "stored_json key (JObj gs)" for gs using stored_field [OF that] by fastforce
      have f: "field_at v d (JObj gs) k = map_option (\<lambda>w. canonicalize w v (Some k) False (Suc d) (Some k)) (map_of gs k)" if "stored_json key (JObj gs)" for gs
        using und [OF that] by (cases "map_of gs k") (auto simp: field_at_def jget_def)
      note fx = f [OF Cons.prems(1) [unfolded JObj], folded JObj] and fy = f [OF Cons.prems(2) [unfolded y], folded y]
      show ?thesis
      proof (cases "map_of es k")
        case None
        then have "map_of fs k = None" using fx fy cs by simp
        then show ?thesis using None AtKey JObj y by simp
      next
        case (Some w)
        then obtain w' e where w': "map_of fs k = Some w'" "canonicalize w v (Some k) False (Suc d) (Some k) = Inr e"
          "canonicalize w' v (Some k) False (Suc d) (Some k) = Inr e" using fx fy cs by (cases "map_of cs k"; cases "map_of fs k") (auto dest: sym)
        have "map_option value_shape (at_path w p) = map_option value_shape (at_path w' p)"
          by (rule Cons.IH [OF stored_field [OF Cons.prems(1) [unfolded JObj] Some] stored_field [OF Cons.prems(2) [unfolded y] w'(1)] w'(2,3) k(2)])
        then show ?thesis using Some w'(1) AtKey JObj y by simp
      qed
    qed (use sh AtKey in \<open>cases y; simp\<close>)+
  next
    case (AtIndex i)
    show ?thesis
    proof (cases x)
      case (JArr xs)
      then obtain ys where y: "y = JArr ys" and len: "length xs = length ys" using sh by (cases y) (auto dest: map_eq_imp_length_eq)
      obtain cs where cs: "mapE (\<lambda>item. canonicalize item v key False (Suc d) None) xs = Inr cs" "mapE (\<lambda>item. canonicalize item v key False (Suc d) None) ys = Inr cs"
        using Cons.prems(3,4) JArr y by auto
      show ?thesis
      proof (cases "i < length xs")
        case True
        then have "map_option value_shape (at_path (xs ! i) p) = map_option value_shape (at_path (ys ! i) p)"
          using Cons.prems JArr y AtIndex len canonical_item [OF cs(1) True] canonical_item [OF cs(2)]
          by (intro Cons.IH [of key _ _ False "Suc d" None "cs ! i"]) (auto simp: list_all_length)
        then show ?thesis using AtIndex JArr y len by simp
      next
        case False
        then show ?thesis using AtIndex JArr y len by simp
      qed
    qed (use sh AtIndex in \<open>cases y; simp\<close>)+
  qed
qed

lemma nested_authenticated: "authenticatedFrom p 5 (Suc (Suc d)) pk"
  by (induction p "5::int" "Suc (Suc d)" pk arbitrary: d rule: authenticatedFrom.induct) (simp_all add: isExcluded_def UNEXCLUDED_FORM_def)

lemma authenticated_path: "isAuthenticatedPath (map step_key p) 5 \<longleftrightarrow> \<not> open_path p"
proof (cases p)
  case Nil
  then show ?thesis by (simp add: isAuthenticatedPath_def)
next
  case (Cons s q)
  show ?thesis unfolding Cons
    using nested_authenticated [of "map step_key (tl q)" 0]
    by (cases s; cases q rule: open_path.cases) (auto simp: isAuthenticatedPath_def isExcluded_def UNEXCLUDED_FORM_def)
qed

text \<open>C8: tamper evidence of version 5. Two artifacts, as they are read from their files, with the same content hash hold the
  same values at every place and depth that is not left open: same primitive values, arrays of the same length, objects where
  the other has objects, fields where the other has fields. Otherwise their two canonical texts are a collision of the
  digest. Left open are the content hash, the names version 5 excludes at the top level, and the artifact's own id in its
  lineage. Artifacts as they are read hold no \<open>bigint\<close> and no \<open>undefined\<close>, and texts that the canonical form leaves as they are:
  without carriage returns, and without backslashes in the fields that hold paths. (In memory a \<open>bigint\<close> and a string can share their canonical text, lemma \<open>bigint_marker_collides\<close>; a file holds no
  \<open>bigint\<close>.)\<close>

theorem content_hash_binds_fields:
  assumes "stored_json None a" "stored_json None b"
    and "calculateContentHash sha a 5 = Inr h" "calculateContentHash sha b 5 = Inr h"
  shows "(\<forall>p. \<not> open_path p \<longrightarrow> map_option value_shape (at_path a p) = map_option value_shape (at_path b p)) \<or>
    (\<exists>s t. s \<noteq> t \<and> sha s = sha t \<and> canonicalStringify a 5 None True = Inr s \<and> canonicalStringify b 5 None True = Inr t)"
proof -
  obtain s where s: "serialize a 5 None True 0 None = Inr s" "h = sha s" using assms(3) by (rule hash_Inr)
  obtain t where t: "serialize b 5 None True 0 None = Inr t" "h = sha t" using assms(4) by (rule hash_Inr)
  show ?thesis
  proof (cases "s = t")
    case True
    obtain c where c: "canonicalize a 5 None True 0 None = Inr c" using s(1) unfolding serialize_refines mapR_eq_Inr by blast
    then have c': "canonicalize b 5 None True 0 None = Inr c"
      using serialize_inj [OF stored_nums [OF assms(1)] stored_nums [OF assms(2)] s(1)] t(1) True by simp
    have "map_option value_shape (at_path a p) = map_option value_shape (at_path b p)" if "\<not> open_path p" for p
      by (rule canonical_paths_agree [OF assms(1,2) c c']) (use that authenticated_path in \<open>simp add: isAuthenticatedPath_def\<close>)
    then show ?thesis by blast
  next
    case False
    then have "s \<noteq> t \<and> sha s = sha t \<and> canonicalStringify a 5 None True = Inr s \<and> canonicalStringify b 5 None True = Inr t"
      using s t by (simp add: canonicalStringify_def UNEXCLUDED_FORM_def)
    then show ?thesis by blast
  qed
qed

definition ex_stored :: json where
  "ex_stored = JObj [(''schema'', JStr ''hardkas.txPlan''), (''hashVersion'', JNum 5), (''createdAt'', JStr ''now''),
     (''lineage'', JObj [(''artifactId'', JStr ''x''), (''parentArtifactId'', JStr ''p'')]), (''outputs'', JArr [JObj [(''amount'', JStr ''7'')]])]"

definition ex_stored2 :: json where
  "ex_stored2 = JObj [(''outputs'', JArr [JObj [(''amount'', JStr ''7'')]]), (''createdAt'', JStr ''later''), (''hashVersion'', JNum 5),
     (''schema'', JStr ''hardkas.txPlan''), (''lineage'', JObj [(''parentArtifactId'', JStr ''p'')])]"

definition ex_stored_text :: string where
  "ex_stored_text = (case canonicalStringify ex_stored 5 None True of Inr s \<Rightarrow> s | Inl e \<Rightarrow> [])"

lemma ex_stored_facts: "stored_json None ex_stored" "stored_json None ex_stored2"
  "calculateContentHash id ex_stored 5 = Inr ex_stored_text" "calculateContentHash id ex_stored2 5 = Inr ex_stored_text"
  by code_simp+

theorem content_hash_binds_fields_witness:
  "map_option value_shape (at_path ex_stored [AtKey ''outputs'', AtIndex 0, AtKey ''amount'']) =
   map_option value_shape (at_path ex_stored2 [AtKey ''outputs'', AtIndex 0, AtKey ''amount''])"
proof -
  have "\<not> open_path [AtKey ''outputs'', AtIndex 0, AtKey ''amount'']" by code_simp
  then show ?thesis using content_hash_binds_fields [OF ex_stored_facts] by auto
qed

text \<open>The hash is a function of the authenticated content. Objects that agree on the entries a
  version keeps, whatever the order of their keys and whatever their excluded or undefined fields
  hold, have the same canonical text, and so the same content hash.\<close>

theorem content_hash_ignores_order_and_exclusions:
  assumes "distinct (map fst es)" and "distinct (map fst fs)"
    and "\<forall>k v. \<not> isExcluded k version 0 None \<and> v \<noteq> JUndefined \<longrightarrow> (k, v) \<in> set es \<longleftrightarrow> (k, v) \<in> set fs"
  shows "canonicalStringify (JObj es) version None True = canonicalStringify (JObj fs) version None True \<and>
    calculateContentHash sha (JObj es) version = calculateContentHash sha (JObj fs) version"
proof -
  have "keptEntries version 0 None es = keptEntries version 0 None fs" by (rule kept_same) (use assms in auto)
  then have "canonicalStringify (JObj es) version None True = canonicalStringify (JObj fs) version None True"
    by (simp add: canonicalStringify_def)
  then show ?thesis by (simp add: calculateContentHash_def)
qed

theorem content_hash_ignores_order_and_exclusions_witness:
  "calculateContentHash id (JObj [(''a'', JNull), (''createdAt'', JStr ''x''), (''b'', JNum 1)]) 5 =
   calculateContentHash id (JObj [(''b'', JNum 1), (''a'', JNull)]) 5"
proof -
  have "isExcluded ''createdAt'' 5 0 None" by code_simp
  then have "\<forall>k v. \<not> isExcluded k 5 0 None \<and> v \<noteq> JUndefined \<longrightarrow>
      (k, v) \<in> set [(''a'', JNull), (''createdAt'', JStr ''x''), (''b'', JNum 1)] \<longleftrightarrow> (k, v) \<in> set [(''b'', JNum 1), (''a'', JNull)]"
    by auto
  from content_hash_ignores_order_and_exclusions [OF _ _ this, of id] show ?thesis by simp
qed

text \<open>A producer hashes an artifact and then writes the hash into \<open>contentHash\<close> and \<open>lineage.artifactId\<close>.\<close>

definition seal :: "string \<Rightarrow> (string \<times> json) list \<Rightarrow> (string \<times> json) list \<Rightarrow> json" where
  "seal h es ls = JObj (AList.update ''contentHash'' (JStr h)
     (AList.update ''lineage'' (JObj (AList.update ''artifactId'' (JStr h) ls)) es))"

lemma update_mem_iff:
  "distinct (map fst es) \<Longrightarrow> (k', v') \<in> set (AList.update k v es) \<longleftrightarrow> (if k' = k then v' = v else (k', v') \<in> set es)"
  by (metis AList.distinct_update fun_upd_apply map_of_eq_Some_iff map_of_update option.inject)

lemma lineage_self_reference_free:
  assumes "distinct (map fst ls)"
  shows "serialize (JObj (AList.update ''artifactId'' (JStr h) ls)) 5 key False (Suc 0) (Some ''lineage'') =
    serialize (JObj ls) 5 key False (Suc 0) (Some ''lineage'')"
proof -
  have "keptEntries 5 (Suc 0) (Some ''lineage'') (AList.update ''artifactId'' (JStr h) ls) =
    keptEntries 5 (Suc 0) (Some ''lineage'') ls"
  proof (rule kept_same)
    fix k v
    assume "\<not> isExcluded k 5 (Suc 0) (Some ''lineage'')"
    then have "k \<noteq> ''artifactId''" by (auto simp: isExcluded_def UNEXCLUDED_FORM_def)
    then show "(k, v) \<in> set (AList.update ''artifactId'' (JStr h) ls) \<longleftrightarrow> (k, v) \<in> set ls"
      by (simp add: update_mem_iff [OF assms])
  qed (use assms in \<open>simp_all add: AList.distinct_update\<close>)
  then show ?thesis by simp
qed

lemma serialize_fields_cong:
  assumes "\<And>kv. kv \<in> set (keptEntries version depth parentKey es) \<Longrightarrow>
      serialize (f kv) version (Some (fst kv)) False (Suc depth) (Some (fst kv)) =
      serialize (snd kv) version (Some (fst kv)) False (Suc depth) (Some (fst kv))"
    and "keptEntries version depth parentKey fs = map (\<lambda>kv. (fst kv, f kv)) (keptEntries version depth parentKey es)"
  shows "serialize (JObj fs) version keyName isRoot depth parentKey = serialize (JObj es) version keyName isRoot depth parentKey"
proof -
  have "mapE (\<lambda>kv. bindE (serialize (snd kv) version (Some (fst kv)) False (Suc depth) (Some (fst kv))) (\<lambda>t.
      Inr (json_string (fst kv) @ '':'' @ t))) (map (\<lambda>kv. (fst kv, f kv)) xs) =
    mapE (\<lambda>kv. bindE (serialize (snd kv) version (Some (fst kv)) False (Suc depth) (Some (fst kv))) (\<lambda>t.
      Inr (json_string (fst kv) @ '':'' @ t))) xs"
    if "\<And>kv. kv \<in> set xs \<Longrightarrow> serialize (f kv) version (Some (fst kv)) False (Suc depth) (Some (fst kv)) =
      serialize (snd kv) version (Some (fst kv)) False (Suc depth) (Some (fst kv))" for xs
    using that by (induction xs) simp_all
  then show ?thesis using assms by simp
qed

lemma js_sort_map_keys: "js_sort compareKeys (map (\<lambda>kv. (fst kv, f kv)) xs) = map (\<lambda>kv. (fst kv, f kv)) (js_sort compareKeys xs)"
proof (induction xs)
  case (Cons x xs)
  have "insert_by compareKeys (fst x, f x) (map (\<lambda>kv. (fst kv, f kv)) ys) = map (\<lambda>kv. (fst kv, f kv)) (insert_by compareKeys x ys)" for ys
    by (induction ys) (simp_all add: compareKeys_def)
  then show ?case using Cons by simp
qed simp

text \<open>Replacing the value of one field by another one that is not \<open>undefined\<close> and has the same text.\<close>

lemma serialize_update:
  assumes dist: "distinct (map fst es)" and v: "(k, v) \<in> set es" "v \<noteq> JUndefined" "w \<noteq> JUndefined"
    and same: "serialize w version (Some k) False (Suc depth) (Some k) = serialize v version (Some k) False (Suc depth) (Some k)"
  shows "serialize (JObj (AList.update k w es)) version keyName isRoot depth parentKey =
    serialize (JObj es) version keyName isRoot depth parentKey"
proof (rule serialize_fields_cong [where f = "\<lambda>kv. if fst kv = k then w else snd kv"])
  have upd: "AList.update k w es = map (\<lambda>kv. (fst kv, if fst kv = k then w else snd kv)) es"
    using dist v(1)
  proof (induction es)
    case (Cons e es)
    have "map (\<lambda>kv. (fst kv, if fst kv = k then w else snd kv)) es = es" if "k \<notin> fst ` set es"
      using that by (induction es) auto
    then show ?case using Cons by (cases e) (auto simp: image_iff)
  qed simp
  have uniq: "snd kv = v" if "kv \<in> set es" "fst kv = k" for kv
    using that dist v(1) eq_key_imp_eq_value by (metis prod.collapse)
  have "filter (\<lambda>(k, v). \<not> isExcluded k version depth parentKey \<and> v \<noteq> JUndefined) (AList.update k w es) =
    map (\<lambda>kv. (fst kv, if fst kv = k then w else snd kv)) (filter (\<lambda>(k, v). \<not> isExcluded k version depth parentKey \<and> v \<noteq> JUndefined) es)"
    unfolding upd filter_map o_def using uniq v(2,3)
    by (intro arg_cong [where f = "map _"] filter_cong) (auto simp: case_prod_beta)
  then show "keptEntries version depth parentKey (AList.update k w es) =
    map (\<lambda>kv. (fst kv, if fst kv = k then w else snd kv)) (keptEntries version depth parentKey es)"
    by (simp add: keptEntries_def js_sort_map_keys)
  fix kv
  assume "kv \<in> set (keptEntries version depth parentKey es)"
  then have "kv \<in> set es" by (auto simp: set_keptEntries)
  then show "serialize (if fst kv = k then w else snd kv) version (Some (fst kv)) False (Suc depth) (Some (fst kv)) =
    serialize (snd kv) version (Some (fst kv)) False (Suc depth) (Some (fst kv))"
    using uniq same by auto
qed

lemma seal_serialize:
  assumes "distinct (map fst es)" "distinct (map fst ls)" "(''lineage'', JObj ls) \<in> set es"
  shows "serialize (seal h es ls) 5 None True 0 None = serialize (JObj es) 5 None True 0 None"
proof -
  let ?es = "AList.update ''lineage'' (JObj (AList.update ''artifactId'' (JStr h) ls)) es"
  have "keptEntries 5 0 None (AList.update ''contentHash'' (JStr h) ?es) = keptEntries 5 0 None ?es"
  proof (rule kept_same)
    fix k v
    assume "\<not> isExcluded k 5 0 None"
    then have "k \<noteq> ''contentHash''" by (auto simp: isExcluded_def UNEXCLUDED_FORM_def)
    then show "(k, v) \<in> set (AList.update ''contentHash'' (JStr h) ?es) \<longleftrightarrow> (k, v) \<in> set ?es"
      using update_mem_iff [OF AList.distinct_update [OF assms(1)]] by simp
  qed (use assms(1) in \<open>simp_all add: AList.distinct_update\<close>)
  then have "serialize (seal h es ls) 5 None True 0 None = serialize (JObj ?es) 5 None True 0 None"
    unfolding seal_def by simp
  also have "\<dots> = serialize (JObj es) 5 None True 0 None"
    by (rule serialize_update [OF assms(1,3)]) (use lineage_self_reference_free [OF assms(2)] in simp_all)
  finally show ?thesis .
qed

text \<open>sealing is stable. A producer hashes an artifact that declares version 5 and then writes the
  hash into \<open>contentHash\<close> and \<open>lineage.artifactId\<close>; the verifier, which recomputes the hash of the sealed
  artifact with the version it declares, gets the same hash, for every hash function.\<close>

theorem seal_round_trip:
  assumes "distinct (map fst es)" and "distinct (map fst ls)"
    and "(''lineage'', JObj ls) \<in> set es" and "(''hashVersion'', JNum 5) \<in> set es"
    and "calculateContentHash sha (JObj es) CURRENT_HASH_VERSION = Inr h"
  shows "recomputeDeclaredContentHash sha (seal h es ls) = Inr h"
proof -
  have "map_of es ''hashVersion'' = Some (JNum 5)" using assms(1,4) by (simp add: map_of_is_SomeI)
  then have "readDeclaredHashVersion (seal h es ls) = Some 5"
    by (simp add: readDeclaredHashVersion_def seal_def jget_def MIN_HASH_VERSION_def CURRENT_HASH_VERSION_def)
  then have "recomputeDeclaredContentHash sha (seal h es ls) = calculateContentHash sha (seal h es ls) 5"
    by (simp add: recomputeDeclaredContentHash_def)
  also have "\<dots> = calculateContentHash sha (JObj es) 5"
    unfolding calculateContentHash_def canonicalStringify_def seal_serialize [OF assms(1-3)] ..
  finally show ?thesis using assms(5) by (simp add: CURRENT_HASH_VERSION_def)
qed

definition ex_lineage :: "(string \<times> json) list" where
  "ex_lineage = [(''artifactId'', JStr ''x''), (''parentArtifactId'', JStr ''p'')]"

definition ex_entries :: "(string \<times> json) list" where
  "ex_entries = [(''schema'', JStr ''hardkas.txPlan''), (''hashVersion'', JNum 5), (''createdAt'', JStr ''now''),
     (''lineage'', JObj ex_lineage), (''amount'', JBigInt 7)]"

theorem seal_round_trip_witness:
  "recomputeDeclaredContentHash id (seal ex_text ex_entries ex_lineage) = Inr ex_text"
proof (rule seal_round_trip)
  show "calculateContentHash id (JObj ex_entries) CURRENT_HASH_VERSION = Inr ex_text"
    using ex_texts(3) by (simp add: calculateContentHash_def ex_entries_def ex_lineage_def ex_artifact_def CURRENT_HASH_VERSION_def)
qed (simp_all add: ex_entries_def ex_lineage_def)

text \<open>The type marker of a \<open>bigint\<close> does not tell it from a string that starts with the marker: 7 and
  \<open>"n:7"\<close> have the same canonical form, and so the same hash.\<close>

lemma bigint_marker_collides:
  "canonicalStringify (JObj [(''amount'', JBigInt 7)]) 5 None True = canonicalStringify (JObj [(''amount'', JStr ''n:7'')]) 5 None True"
  by code_simp

end
