(* ===== verification/HK_Snapshot.thy ===== *)
theory HK_Snapshot
  imports HK_LocalnetProps HK_CanonicalProps
begin

text \<open>
  State digests and snapshots of the local network: \<open>packages/localnet/src/snapshot.ts\<close>, with
  \<open>sortUtxosByOutpoint\<close> of \<open>packages/artifacts/src/verify.ts\<close>.

  Accounts, UTXOs and snapshots are turned into the JSON objects the code hashes; the deep copies by
  \<open>JSON.parse(JSON.stringify(x))\<close> of these values are the values themselves. The digest \<open>sha\<close> and the
  clock \<open>now\<close> are parameters.
\<close>

subsection \<open>Definitions\<close>

definition opt_field :: "string \<Rightarrow> string option \<Rightarrow> (string \<times> json) list" where
  "opt_field k v = (case v of None \<Rightarrow> [] | Some s \<Rightarrow> [(k, JStr s)])"

definition account_json :: "LocalnetAccount \<Rightarrow> json" where
  "account_json a = JObj [(''name'', JStr (acc_name a)), (''address'', JStr (acc_address a))]"

definition utxo_json :: "LocalnetUtxo \<Rightarrow> json" where
  "utxo_json u = JObj ([(''id'', JStr (u_id u)), (''address'', JStr (u_address u)), (''amountSompi'', JStr (u_amountSompi u)),
     (''spent'', JBool (u_spent u)), (''createdAtDaaScore'', JStr (u_createdAtDaaScore u))] @
     opt_field ''spentAtDaaScore'' (u_spentAtDaaScore u))"

definition compareUtxos :: "LocalnetUtxo \<Rightarrow> LocalnetUtxo \<Rightarrow> int" where
  "compareUtxos a b = deterministicCompare (u_id a) (u_id b)"

definition sortUtxosByOutpoint :: "LocalnetUtxo list \<Rightarrow> LocalnetUtxo list" where
  "sortUtxosByOutpoint us = js_sort compareUtxos us"

definition compareAccounts :: "LocalnetAccount \<Rightarrow> LocalnetAccount \<Rightarrow> int" where
  "compareAccounts a b = deterministicCompare (acc_address a) (acc_address b)"

definition digestFor :: "(string \<Rightarrow> string) \<Rightarrow> json \<Rightarrow> json \<Rightarrow> string result" where
  "digestFor sha v hashVersion = domainDigestForHashVersion sha v hashVersion"

definition calculateUtxoSetHash :: "(string \<Rightarrow> string) \<Rightarrow> LocalnetUtxo list \<Rightarrow> json \<Rightarrow> string result" where
  "calculateUtxoSetHash sha utxos hv = digestFor sha (JArr (map utxo_json (sortUtxosByOutpoint utxos))) hv"

definition calculateAccountsHash :: "(string \<Rightarrow> string) \<Rightarrow> LocalnetAccount list \<Rightarrow> json \<Rightarrow> string result" where
  "calculateAccountsHash sha accounts hv = digestFor sha (JArr (map account_json (js_sort compareAccounts accounts))) hv"

definition stateDigest :: "(string \<Rightarrow> string) \<Rightarrow> string \<Rightarrow> string \<Rightarrow> string \<Rightarrow> json \<Rightarrow> string result" where
  "stateDigest sha daa accountsHash utxoSetHash hv =
     digestFor sha (JObj [(''daaScore'', JStr daa), (''accountsHash'', JStr accountsHash), (''utxoSetHash'', JStr utxoSetHash)]) hv"

text \<open>The default of \<open>options?.hashVersion\<close> is the current version.\<close>

definition currentVersion :: json where
  "currentVersion = JNum CURRENT_HASH_VERSION"

definition calculateStateHash :: "(string \<Rightarrow> string) \<Rightarrow> LocalnetState \<Rightarrow> json \<Rightarrow> string result" where
  "calculateStateHash sha state hv =
     bindE (calculateAccountsHash sha (ls_accounts state) hv) (\<lambda>accountsHash.
     bindE (calculateUtxoSetHash sha (ls_utxos state) hv) (\<lambda>utxoSetHash.
       stateDigest sha (ls_daaScore state) accountsHash utxoSetHash hv))"

definition snapshot_json :: "Snapshot \<Rightarrow> json" where
  "snapshot_json s = JObj ([(''schema'', JStr ''hardkas.snapshot.v1''), (''createdAt'', JStr (sn_createdAt s)),
     (''hardkasVersion'', JStr (sn_hardkasVersion s)), (''version'', JStr (sn_version s)), (''hashVersion'', sn_hashVersion s)] @
     opt_field ''name'' (sn_name s) @ opt_field ''id'' (sn_id s) @
     [(''daaScore'', JStr (sn_daaScore s)), (''accountsHash'', JStr (sn_accountsHash s)), (''utxoSetHash'', JStr (sn_utxoSetHash s)),
      (''stateHash'', JStr (sn_stateHash s)), (''accounts'', JArr (map account_json (sn_accounts s))),
      (''utxos'', JArr (map utxo_json (sn_utxos s))), (''networkId'', JStr (sn_networkId s)), (''mode'', JStr (sn_mode s)),
      (''contentHash'', JStr (sn_contentHash s))])"

definition ARTIFACT_VERSION :: string where
  "ARTIFACT_VERSION = ''1.0.0-alpha''"

text \<open>The draft of a snapshot has no \<open>contentHash\<close>; in the record it is the empty string, which the hash
  ignores (\<open>contentHash\<close> is excluded from it).\<close>

definition createLocalnetSnapshot :: "(string \<Rightarrow> string) \<Rightarrow> string \<Rightarrow> LocalnetState \<Rightarrow> string option \<Rightarrow> LocalnetState result" where
  "createLocalnetSnapshot sha now state name =
     bindE (calculateAccountsHash sha (ls_accounts state) currentVersion) (\<lambda>accountsHash.
     bindE (calculateUtxoSetHash sha (ls_utxos state) currentVersion) (\<lambda>utxoSetHash.
     bindE (calculateStateHash sha state currentVersion) (\<lambda>stateHash.
       let draft = \<lparr>sn_id = None, sn_createdAt = now, sn_hardkasVersion = HARDKAS_VERSION, sn_version = ARTIFACT_VERSION,
             sn_hashVersion = currentVersion, sn_name = name, sn_daaScore = ls_daaScore state, sn_accountsHash = accountsHash,
             sn_utxoSetHash = utxoSetHash, sn_stateHash = stateHash, sn_accounts = ls_accounts state,
             sn_utxos = sortUtxosByOutpoint (ls_utxos state), sn_networkId = ls_networkId state, sn_mode = ls_mode state,
             sn_contentHash = []\<rparr>
       in bindE (calculateContentHash sha (snapshot_json draft) CURRENT_HASH_VERSION) (\<lambda>contentHash.
          Inr (state\<lparr>ls_snapshots := Some ((case ls_snapshots state of None \<Rightarrow> [] | Some ss \<Rightarrow> ss) @
            [draft\<lparr>sn_contentHash := contentHash\<rparr>])\<rparr>)))))"

record SnapshotVerificationResult =
  vr_ok :: bool
  vr_accountsMatch :: bool
  vr_utxoSetMatch :: bool
  vr_stateMatch :: bool
  vr_contentMatch :: bool
  vr_errors :: "string list"

definition mismatch :: "string \<Rightarrow> string \<Rightarrow> string \<Rightarrow> string list" where
  "mismatch what expected actual =
     (if expected = actual then [] else [what @ '' mismatch: expected '' @ expected @ '', got '' @ actual])"

text \<open>Outside the \<open>try\<close>, a digest under a declared version cannot throw: the version was read before.\<close>

definition verifySnapshot :: "(string \<Rightarrow> string) \<Rightarrow> Snapshot \<Rightarrow> SnapshotVerificationResult result" where
  "verifySnapshot sha s =
     (case recomputeDeclaredContentHash sha (snapshot_json s) of
        Inl e \<Rightarrow> Inr \<lparr>vr_ok = False, vr_accountsMatch = False, vr_utxoSetMatch = False, vr_stateMatch = False,
          vr_contentMatch = False, vr_errors = [e]\<rparr>
      | Inr currentContentHash \<Rightarrow>
          bindE (calculateAccountsHash sha (sn_accounts s) (sn_hashVersion s)) (\<lambda>currentAccountsHash.
          bindE (calculateUtxoSetHash sha (sn_utxos s) (sn_hashVersion s)) (\<lambda>currentUtxoSetHash.
          bindE (stateDigest sha (sn_daaScore s) currentAccountsHash currentUtxoSetHash (sn_hashVersion s)) (\<lambda>currentStateHash.
            let errors = mismatch ''Content hash'' (sn_contentHash s) currentContentHash @
                  mismatch ''Accounts hash'' (sn_accountsHash s) currentAccountsHash @
                  mismatch ''UTXO set hash'' (sn_utxoSetHash s) currentUtxoSetHash @
                  mismatch ''State hash'' (sn_stateHash s) currentStateHash
            in Inr \<lparr>vr_ok = (errors = []), vr_accountsMatch = (sn_accountsHash s = currentAccountsHash),
                 vr_utxoSetMatch = (sn_utxoSetHash s = currentUtxoSetHash), vr_stateMatch = (sn_stateHash s = currentStateHash),
                 vr_contentMatch = (sn_contentHash s = currentContentHash), vr_errors = errors\<rparr>))))"

definition matchesSnapshot :: "string \<Rightarrow> Snapshot \<Rightarrow> bool" where
  "matchesSnapshot key s \<longleftrightarrow> sn_id s = Some key \<or> sn_name s = Some key \<or> sn_contentHash s = key"

definition restoreLocalnetSnapshot :: "(string \<Rightarrow> string) \<Rightarrow> LocalnetState \<Rightarrow> string \<Rightarrow> LocalnetState result" where
  "restoreLocalnetSnapshot sha state key =
     (case List.find (matchesSnapshot key) (case ls_snapshots state of None \<Rightarrow> [] | Some ss \<Rightarrow> ss) of
        None \<Rightarrow> Inl (''Snapshot not found: '' @ key)
      | Some s \<Rightarrow>
          bindE (verifySnapshot sha s) (\<lambda>v.
            if \<not> vr_ok v then Inl (''Corrupted snapshot: '' @ join_with '', '' (vr_errors v))
            else Inr (state\<lparr>ls_daaScore := sn_daaScore s, ls_accounts := sn_accounts s, ls_utxos := sn_utxos s\<rparr>)))"

text \<open>The state snapshot artifact the store keeps.\<close>

definition buildStateSnapshotArtifact :: "(string \<Rightarrow> string) \<Rightarrow> LocalnetState \<Rightarrow> string \<Rightarrow> json result" where
  "buildStateSnapshotArtifact sha state createdAt =
     bindE (calculateAccountsHash sha (ls_accounts state) currentVersion) (\<lambda>accountsHash.
     bindE (calculateUtxoSetHash sha (ls_utxos state) currentVersion) (\<lambda>utxoSetHash.
     bindE (calculateStateHash sha state currentVersion) (\<lambda>stateHash.
       let es = [(''schema'', JStr ''hardkas.snapshot.v1''), (''hashVersion'', JNum CURRENT_HASH_VERSION), (''createdAt'', JStr createdAt),
             (''daaScore'', JStr (ls_daaScore state)), (''accountsHash'', JStr accountsHash), (''utxoSetHash'', JStr utxoSetHash),
             (''hardkasVersion'', JStr (ls_hardkasVersion state)), (''version'', JStr (ls_version state)),
             (''networkId'', JStr (ls_networkId state)), (''mode'', JStr (ls_mode state)),
             (''accounts'', JArr (map account_json (js_sort compareAccounts (ls_accounts state)))),
             (''utxos'', JArr (map utxo_json (sortUtxosByOutpoint (ls_utxos state)))), (''stateHash'', JStr stateHash)]
       in bindE (calculateContentHash sha (JObj es) CURRENT_HASH_VERSION) (\<lambda>contentHash.
          Inr (JObj (es @ [(''contentHash'', JStr contentHash)]))))))"

subsection \<open>The digests are defined and depend on the sets only\<close>

interpretation utxo_order: keyed_comparator compareUtxos u_id
  by unfold_locales (simp add: compareUtxos_def deterministicCompare_def)

interpretation account_order: keyed_comparator compareAccounts acc_address
  by unfold_locales (simp add: compareAccounts_def deterministicCompare_def)

lemma sort_utxos_perm:
  assumes "mset us = mset vs" "distinct (map u_id us)"
  shows "sortUtxosByOutpoint us = sortUtxosByOutpoint vs"
  unfolding sortUtxosByOutpoint_def
proof (rule utxo_order.js_sort_perm [OF assms(1)])
  show "\<forall>x \<in> set us. \<forall>y \<in> set us. compareUtxos x y = 0 \<longrightarrow> x = y"
    using assms(2) by (auto simp: utxo_order.cmp_eq_key distinct_map inj_on_def)
qed

lemma sort_utxos_idem: "sortUtxosByOutpoint (sortUtxosByOutpoint us) = sortUtxosByOutpoint us"
  by (simp add: sortUtxosByOutpoint_def utxo_order.js_sort_idem)

fun plain_json :: "json \<Rightarrow> bool" where
  "plain_json JSymbol = False" | "plain_json JFunction = False" | "plain_json JMap = False" | "plain_json JSet = False"
| "plain_json JDate = False" | "plain_json JNonPlain = False"
| "plain_json (JArr xs) = list_all plain_json xs"
| "plain_json (JObj es) = list_all (\<lambda>kv. plain_json (snd kv)) es"
| "plain_json j = True"

lemma plain_jget: "plain_json j \<Longrightarrow> plain_json (jget j k)"
proof (cases j)
  case (JObj es)
  moreover assume "plain_json j"
  ultimately show ?thesis by (cases "map_of es k") (auto simp: jget_def list_all_iff dest!: map_of_SomeD)
qed (simp_all add: jget_def)

lemma mapE_ok: "(\<And>x. x \<in> set xs \<Longrightarrow> is_ok (f x)) \<Longrightarrow> is_ok (mapE f xs)"
proof (induction xs)
  case (Cons x xs)
  then have "is_ok (mapE f xs)" "is_ok (f x)" by simp_all
  then show ?case by (cases "f x"; cases "mapE f xs") simp_all
qed simp

lemma is_ok_bindE: "is_ok (bindE m f) \<longleftrightarrow> (\<exists>x. m = Inr x \<and> is_ok (f x))"
  by (cases m) simp_all

lemma serialize_ok:
  "plain_json j \<Longrightarrow> \<not> (isRoot \<and> j = JUndefined) \<Longrightarrow> is_ok (serialize j version keyName isRoot depth parentKey)"
proof (induction j version keyName isRoot depth parentKey rule: serialize.induct)
  case (10 xs version keyName isRoot depth parentKey)
  then have "is_ok (mapE (\<lambda>item. serialize item version keyName False (Suc depth) None) xs)"
    by (intro mapE_ok) (simp add: list_all_iff)
  then show ?case by (auto simp: is_ok_iff)
next
  case (15 es version keyName isRoot depth parentKey)
  have "is_ok (mapE (\<lambda>kv. bindE (serialize (snd kv) version (Some (fst kv)) False (Suc depth) (Some (fst kv))) (\<lambda>t.
         Inr (json_string (fst kv) @ '':'' @ t))) (keptEntries version depth parentKey es))"
  proof (rule mapE_ok)
    fix kv
    assume kv: "kv \<in> set (keptEntries version depth parentKey es)"
    then have "kv \<in> set es" by (auto simp: set_keptEntries)
    then have "plain_json (snd kv)" using 15(2) by (simp add: list_all_iff)
    then show "is_ok (bindE (serialize (snd kv) version (Some (fst kv)) False (Suc depth) (Some (fst kv))) (\<lambda>t.
         Inr (json_string (fst kv) @ '':'' @ t)))" using 15(1) [OF kv] by (auto simp: is_ok_iff)
  qed
  then show ?case by (auto simp: is_ok_iff)
qed simp_all

lemma plain_account [simp]: "plain_json (account_json a)"
  by (simp add: account_json_def)

lemma plain_utxo [simp]: "plain_json (utxo_json u)"
  by (simp add: utxo_json_def opt_field_def split: option.splits)

lemma plain_map [simp]: "list_all plain_json (map account_json as)" "list_all plain_json (map utxo_json us)"
  by (simp_all add: list_all_iff)

lemma digest_current: "digestFor sha v currentVersion = bindE (serialize v UNEXCLUDED_FORM None True 0 None) (\<lambda>s. Inr (sha s))"
  by (simp add: digestFor_def currentVersion_def domainDigestForHashVersion_def domainDigestVersionFor_def
      readDeclaredHashVersion_def jget_def MIN_HASH_VERSION_def CURRENT_HASH_VERSION_def domainDigest_def
      CURRENT_DOMAIN_DIGEST_VERSION_def canonicalStringifyUnexcluded_def)

lemma digest_ok: "plain_json v \<Longrightarrow> v \<noteq> JUndefined \<Longrightarrow> \<exists>h. digestFor sha v currentVersion = Inr h"
  using serialize_ok [of v True UNEXCLUDED_FORM None 0 None] by (auto simp: digest_current is_ok_iff)

lemma state_hash_ok:
  "\<exists>h. calculateAccountsHash sha as currentVersion = Inr h" "\<exists>h. calculateUtxoSetHash sha us currentVersion = Inr h"
  "\<exists>h. stateDigest sha daa x y currentVersion = Inr h"
  by (simp_all add: calculateAccountsHash_def calculateUtxoSetHash_def stateDigest_def digest_ok)

lemma calculateStateHash_ok: "\<exists>h. calculateStateHash sha st currentVersion = Inr h"
  using state_hash_ok by (fastforce simp: calculateStateHash_def)

subsection \<open>The state digest binds the state\<close>

definition clean :: "string \<Rightarrow> bool" where
  "clean s \<longleftrightarrow> CHR 0x0D \<notin> set s"

lemma crlf_clean: "clean s \<Longrightarrow> crlf s = s"
  by (induction s rule: crlf.induct) (auto simp: clean_def)

lemma normalize_clean: "clean s \<Longrightarrow> k \<notin> set STRICT_PATH_KEYS \<Longrightarrow> normalizeString version (Some k) s = s"
  by (simp add: normalizeString_def crlf_clean)

lemma not_excluded_unexcluded [simp]: "\<not> isExcluded k UNEXCLUDED_FORM depth parentKey"
  by (simp add: isExcluded_def)

text \<open>A string field of two objects with the same unexcluded canonical value.\<close>

lemma str_field_agree:
  assumes "distinct (map fst es)" "distinct (map fst fs)"
    "canonicalize (JObj es) UNEXCLUDED_FORM keyName isRoot depth parentKey = canonicalize (JObj fs) UNEXCLUDED_FORM keyName isRoot depth parentKey"
    "canonicalize (JObj es) UNEXCLUDED_FORM keyName isRoot depth parentKey = Inr c"
    "map_of es k = Some (JStr s)" "map_of fs k = Some (JStr t)" "clean s" "clean t" "k \<notin> set STRICT_PATH_KEYS"
  shows "s = t"
proof -
  have "field_at UNEXCLUDED_FORM depth (JObj es) k = field_at UNEXCLUDED_FORM depth (JObj fs) k"
    by (rule object_fields_agree [OF assms(1,2), where parentKey = parentKey and keyName = keyName and isRoot = isRoot and c = c])
       (use assms(3,4) in simp_all)
  then show ?thesis using assms(5-9) by (simp add: field_at_def jget_def normalize_clean)
qed

definition opt_clean :: "string option \<Rightarrow> bool" where
  "opt_clean o' = (case o' of None \<Rightarrow> True | Some s \<Rightarrow> clean s)"

definition utxo_clean :: "LocalnetUtxo \<Rightarrow> bool" where
  "utxo_clean u \<longleftrightarrow> clean (u_id u) \<and> clean (u_address u) \<and> clean (u_amountSompi u) \<and> clean (u_createdAtDaaScore u) \<and>
     opt_clean (u_spentAtDaaScore u)"

definition account_clean :: "LocalnetAccount \<Rightarrow> bool" where
  "account_clean a \<longleftrightarrow> clean (acc_name a) \<and> clean (acc_address a)"

definition utxo_entries :: "LocalnetUtxo \<Rightarrow> (string \<times> json) list" where
  "utxo_entries u = [(''id'', JStr (u_id u)), (''address'', JStr (u_address u)), (''amountSompi'', JStr (u_amountSompi u)),
     (''spent'', JBool (u_spent u)), (''createdAtDaaScore'', JStr (u_createdAtDaaScore u))] @
     opt_field ''spentAtDaaScore'' (u_spentAtDaaScore u)"

lemma utxo_entries: "utxo_json u = JObj (utxo_entries u)" "distinct (map fst (utxo_entries u))"
  by (simp_all add: utxo_json_def utxo_entries_def opt_field_def split: option.splits)

lemma strict_keys [simp]:
  "''id'' \<notin> set STRICT_PATH_KEYS" "''address'' \<notin> set STRICT_PATH_KEYS" "''amountSompi'' \<notin> set STRICT_PATH_KEYS"
  "''createdAtDaaScore'' \<notin> set STRICT_PATH_KEYS" "''spentAtDaaScore'' \<notin> set STRICT_PATH_KEYS" "''name'' \<notin> set STRICT_PATH_KEYS"
  "''daaScore'' \<notin> set STRICT_PATH_KEYS" "''accountsHash'' \<notin> set STRICT_PATH_KEYS" "''utxoSetHash'' \<notin> set STRICT_PATH_KEYS"
  by (simp_all add: STRICT_PATH_KEYS_def)

lemma utxo_json_inj:
  assumes eq: "canonicalize (utxo_json u) UNEXCLUDED_FORM key isRoot depth parent = canonicalize (utxo_json v) UNEXCLUDED_FORM key isRoot depth parent"
    and c: "canonicalize (utxo_json u) UNEXCLUDED_FORM key isRoot depth parent = Inr c" and clean: "utxo_clean u" "utxo_clean v"
  shows "u = v"
proof -
  note agree = str_field_agree [OF utxo_entries(2) [of u] utxo_entries(2) [of v] eq [unfolded utxo_entries(1)] c [unfolded utxo_entries(1)]]
  have c': "canonicalize (utxo_json v) UNEXCLUDED_FORM key isRoot depth parent = Inr c" using eq c by simp
  note field = object_fields_agree [OF utxo_entries(2) [of u] utxo_entries(2) [of v] not_excluded_unexcluded
      c [unfolded utxo_entries(1)] c' [unfolded utxo_entries(1)]]
  have id: "u_id u = u_id v" by (rule agree [of "''id''"]) (use clean in \<open>simp_all add: utxo_entries_def utxo_clean_def\<close>)
  have ad: "u_address u = u_address v" by (rule agree [of "''address''"]) (use clean in \<open>simp_all add: utxo_entries_def utxo_clean_def\<close>)
  have am: "u_amountSompi u = u_amountSompi v"
    by (rule agree [of "''amountSompi''"]) (use clean in \<open>simp_all add: utxo_entries_def utxo_clean_def\<close>)
  have cr: "u_createdAtDaaScore u = u_createdAtDaaScore v"
    by (rule agree [of "''createdAtDaaScore''"]) (use clean in \<open>simp_all add: utxo_entries_def utxo_clean_def\<close>)
  have sp: "u_spent u = u_spent v"
    using field [of "''spent''"] by (simp add: field_at_def jget_def utxo_entries_def)
  have sa: "u_spentAtDaaScore u = u_spentAtDaaScore v"
    using field [of "''spentAtDaaScore''"] clean
    by (cases "u_spentAtDaaScore u"; cases "u_spentAtDaaScore v")
       (simp_all add: field_at_def jget_def utxo_entries_def opt_field_def utxo_clean_def opt_clean_def normalize_clean)
  show ?thesis using id ad am cr sp sa by simp
qed

lemma account_json_inj:
  assumes eq: "canonicalize (account_json a) UNEXCLUDED_FORM key isRoot depth parent = canonicalize (account_json b) UNEXCLUDED_FORM key isRoot depth parent"
    and c: "canonicalize (account_json a) UNEXCLUDED_FORM key isRoot depth parent = Inr c" and clean: "account_clean a" "account_clean b"
  shows "a = b"
proof -
  have d: "distinct (map fst [(''name'', JStr (acc_name x)), (''address'', JStr (acc_address x))])" for x :: LocalnetAccount by simp
  note agree = str_field_agree [OF d [of a] d [of b] eq [unfolded account_json_def] c [unfolded account_json_def]]
  have "acc_name a = acc_name b" by (rule agree [of "''name''"]) (use clean in \<open>simp_all add: account_clean_def\<close>)
  moreover have "acc_address a = acc_address b" by (rule agree [of "''address''"]) (use clean in \<open>simp_all add: account_clean_def\<close>)
  ultimately show ?thesis by simp
qed

lemma mapE_inj:
  assumes "mapE f (map g xs) = Inr cs" "mapE f (map g ys) = Inr cs"
    and "\<And>x y c. x \<in> set xs \<Longrightarrow> y \<in> set ys \<Longrightarrow> f (g x) = f (g y) \<Longrightarrow> f (g x) = Inr c \<Longrightarrow> x = y"
  shows "xs = ys"
  using assms
proof (induction xs arbitrary: ys cs)
  case Nil
  then show ?case by (cases ys) auto
next
  case (Cons x xs)
  then obtain c cs' where c: "f (g x) = Inr c" "mapE f (map g xs) = Inr cs'" "cs = c # cs'" by auto
  then obtain y ys' where y: "ys = y # ys'" "f (g y) = Inr c" "mapE f (map g ys') = Inr cs'"
    using Cons.prems(2) by (cases ys) auto
  have "x = y" using Cons.prems(3) [of x y c] c(1) y by simp
  moreover have "xs = ys'" using Cons.IH [OF c(2) y(3)] Cons.prems(3) y(1) by simp
  ultimately show ?case using y(1) by simp
qed

lemma nums_ok_maps [simp]: "list_all nums_ok (map account_json as)" "list_all nums_ok (map utxo_json us)"
  by (auto simp: list_all_iff account_json_def utxo_json_def opt_field_def split: option.splits)

lemma digest_eq:
  assumes "digestFor sha v currentVersion = Inr h" "digestFor sha w currentVersion = Inr h" "nums_ok v" "nums_ok w"
    and no: "\<not> (\<exists>s t. s \<noteq> t \<and> sha s = sha t)"
  shows "canonicalize v UNEXCLUDED_FORM None True 0 None = canonicalize w UNEXCLUDED_FORM None True 0 None \<and>
    (\<exists>c. canonicalize v UNEXCLUDED_FORM None True 0 None = Inr c)"
proof -
  obtain s t where s: "serialize v UNEXCLUDED_FORM None True 0 None = Inr s" "h = sha s"
    and t: "serialize w UNEXCLUDED_FORM None True 0 None = Inr t" "h = sha t"
    using assms(1,2) by (auto simp: digest_current)
  have "s = t" using no s(2) t(2) by blast
  then show ?thesis using serialize_inj [OF assms(3,4) s(1)] t(1) s(1) unfolding serialize_refines mapR_eq_Inr by blast
qed

lemma arr_digest_inj:
  assumes "digestFor sha (JArr (map g xs)) currentVersion = Inr h" "digestFor sha (JArr (map g ys)) currentVersion = Inr h"
    and "list_all nums_ok (map g xs)" "list_all nums_ok (map g ys)" "\<not> (\<exists>s t. s \<noteq> t \<and> sha s = sha t)"
    and inj: "\<And>x y c. \<lbrakk>x \<in> set xs; y \<in> set ys;
      canonicalize (g x) UNEXCLUDED_FORM None False (Suc 0) None = canonicalize (g y) UNEXCLUDED_FORM None False (Suc 0) None;
      canonicalize (g x) UNEXCLUDED_FORM None False (Suc 0) None = Inr c\<rbrakk> \<Longrightarrow> x = y"
  shows "xs = ys"
proof -
  have n: "nums_ok (JArr (map g xs))" "nums_ok (JArr (map g ys))" using assms(3,4) by simp_all
  obtain c where c: "canonicalize (JArr (map g xs)) UNEXCLUDED_FORM None True 0 None = Inr c"
    "canonicalize (JArr (map g ys)) UNEXCLUDED_FORM None True 0 None = Inr c"
    using digest_eq [OF assms(1,2) n assms(5)] by metis
  then obtain cs where
    "mapE (\<lambda>item. canonicalize item UNEXCLUDED_FORM None False (Suc 0) None) (map g xs) = Inr cs"
    "mapE (\<lambda>item. canonicalize item UNEXCLUDED_FORM None False (Suc 0) None) (map g ys) = Inr cs" by auto
  then show ?thesis by (rule mapE_inj) (rule inj)
qed

definition state_clean :: "LocalnetState \<Rightarrow> bool" where
  "state_clean st \<longleftrightarrow> clean (ls_daaScore st) \<and> list_all account_clean (ls_accounts st) \<and> list_all utxo_clean (ls_utxos st)"

text \<open>The state hash binds the simulated state. Two states with the same hash have the same DAA score,
  the same accounts and the same UTXOs up to order, or the digest function has a collision. (Strings
  without carriage returns, which the canonical form would normalize away.)\<close>

theorem state_hash_binds_state:
  assumes "calculateStateHash sha s currentVersion = Inr h" and "calculateStateHash sha t currentVersion = Inr h"
    and "state_clean s" and "state_clean t" and "\<forall>x. clean (sha x)"
  shows "(ls_daaScore s = ls_daaScore t \<and> mset (ls_accounts s) = mset (ls_accounts t) \<and> mset (ls_utxos s) = mset (ls_utxos t)) \<or>
    (\<exists>x y. x \<noteq> y \<and> sha x = sha y)"
proof (rule disjCI)
  assume no: "\<not> (\<exists>x y. x \<noteq> y \<and> sha x = sha y)"
  let ?es = "\<lambda>st a u. [(''daaScore'', JStr (ls_daaScore st)), (''accountsHash'', JStr a), (''utxoSetHash'', JStr u)]"
  obtain a u where a: "calculateAccountsHash sha (ls_accounts s) currentVersion = Inr a" "calculateUtxoSetHash sha (ls_utxos s) currentVersion = Inr u"
      "digestFor sha (JObj (?es s a u)) currentVersion = Inr h"
    using assms(1) by (auto simp: calculateStateHash_def stateDigest_def)
  obtain b v where b: "calculateAccountsHash sha (ls_accounts t) currentVersion = Inr b" "calculateUtxoSetHash sha (ls_utxos t) currentVersion = Inr v"
      "digestFor sha (JObj (?es t b v)) currentVersion = Inr h"
    using assms(2) by (auto simp: calculateStateHash_def stateDigest_def)
  have hashes: "clean a" "clean u" "clean b" "clean v"
    using a(1,2) b(1,2) assms(5) by (auto simp: calculateAccountsHash_def calculateUtxoSetHash_def digest_current)
  have d: "distinct (map fst (?es st x y))" for st x y by simp
  obtain c where eq: "canonicalize (JObj (?es s a u)) UNEXCLUDED_FORM None True 0 None = canonicalize (JObj (?es t b v)) UNEXCLUDED_FORM None True 0 None"
    and c: "canonicalize (JObj (?es s a u)) UNEXCLUDED_FORM None True 0 None = Inr c"
  proof -
    have "nums_ok (JObj (?es s a u))" "nums_ok (JObj (?es t b v))" by simp_all
    from digest_eq [OF a(3) b(3) this no] show ?thesis using that by metis
  qed
  note agree = str_field_agree [OF d d eq c]
  have daa: "ls_daaScore s = ls_daaScore t"
    by (rule agree [of "''daaScore''"]) (use assms(3,4) in \<open>simp_all add: state_clean_def\<close>)
  have ab: "a = b" by (rule agree [of "''accountsHash''"]) (use hashes in simp_all)
  have uv: "u = v" by (rule agree [of "''utxoSetHash''"]) (use hashes in simp_all)
  have "js_sort compareAccounts (ls_accounts s) = js_sort compareAccounts (ls_accounts t)"
  proof (rule arr_digest_inj [OF _ _ nums_ok_maps(1) nums_ok_maps(1) no])
    show "digestFor sha (JArr (map account_json (js_sort compareAccounts (ls_accounts s)))) currentVersion = Inr b"
      "digestFor sha (JArr (map account_json (js_sort compareAccounts (ls_accounts t)))) currentVersion = Inr b"
      using a(1) b(1) ab by (simp_all add: calculateAccountsHash_def)
    fix x y c
    assume "x \<in> set (js_sort compareAccounts (ls_accounts s))" "y \<in> set (js_sort compareAccounts (ls_accounts t))"
      and c: "canonicalize (account_json x) UNEXCLUDED_FORM None False (Suc 0) None = canonicalize (account_json y) UNEXCLUDED_FORM None False (Suc 0) None"
        "canonicalize (account_json x) UNEXCLUDED_FORM None False (Suc 0) None = Inr c"
    then have "account_clean x" "account_clean y" using assms(3,4) by (simp_all add: state_clean_def list_all_iff)
    then show "x = y" by (rule account_json_inj [OF c])
  qed
  then have acc: "mset (ls_accounts s) = mset (ls_accounts t)" by (metis mset_js_sort)
  have "sortUtxosByOutpoint (ls_utxos s) = sortUtxosByOutpoint (ls_utxos t)"
  proof (rule arr_digest_inj [OF _ _ nums_ok_maps(2) nums_ok_maps(2) no])
    show "digestFor sha (JArr (map utxo_json (sortUtxosByOutpoint (ls_utxos s)))) currentVersion = Inr v"
      "digestFor sha (JArr (map utxo_json (sortUtxosByOutpoint (ls_utxos t)))) currentVersion = Inr v"
      using a(2) b(2) uv by (simp_all add: calculateUtxoSetHash_def)
    fix x y c
    assume "x \<in> set (sortUtxosByOutpoint (ls_utxos s))" "y \<in> set (sortUtxosByOutpoint (ls_utxos t))"
      and c: "canonicalize (utxo_json x) UNEXCLUDED_FORM None False (Suc 0) None = canonicalize (utxo_json y) UNEXCLUDED_FORM None False (Suc 0) None"
        "canonicalize (utxo_json x) UNEXCLUDED_FORM None False (Suc 0) None = Inr c"
    then have "utxo_clean x" "utxo_clean y" using assms(3,4) by (simp_all add: state_clean_def list_all_iff sortUtxosByOutpoint_def)
    then show "x = y" by (rule utxo_json_inj [OF c])
  qed
  then have "mset (ls_utxos s) = mset (ls_utxos t)" unfolding sortUtxosByOutpoint_def by (metis mset_js_sort)
  then show "ls_daaScore s = ls_daaScore t \<and> mset (ls_accounts s) = mset (ls_accounts t) \<and> mset (ls_utxos s) = mset (ls_utxos t)"
    using daa acc by blast
qed

lemma ex_sha_clean: "clean (ex_sha x) \<longleftrightarrow> clean x"
  by (auto simp: clean_def ex_sha_def image_iff)

definition ex_digest :: "string \<Rightarrow> string" where
  "ex_digest s = map (\<lambda>c. if c = CHR 0x0D then CHR ''r'' else c) s"

lemma ex_digest_clean: "\<forall>x. clean (ex_digest x)"
  by (auto simp: clean_def ex_digest_def)

lemma ex_state_clean: "state_clean ex_state"
  by code_simp

theorem state_hash_binds_state_witness:
  "\<exists>h. calculateStateHash ex_digest ex_state currentVersion = Inr h \<and>
    (mset (ls_utxos ex_state) = mset (ls_utxos ex_state) \<or> (\<exists>x y. x \<noteq> y \<and> ex_digest x = ex_digest y))"
  using state_hash_binds_state [OF _ _ ex_state_clean ex_state_clean ex_digest_clean] calculateStateHash_ok by metis

subsection \<open>Snapshots\<close>

lemma snapshot_keys: "distinct (map fst (case snapshot_json s of JObj es \<Rightarrow> es | _ \<Rightarrow> []))"
  by (simp add: snapshot_json_def opt_field_def split: option.splits)

lemma snapshot_hash_contentHash:
  "serialize (snapshot_json (s\<lparr>sn_contentHash := h\<rparr>)) 5 None True 0 None = serialize (snapshot_json s) 5 None True 0 None"
proof -
  obtain es where es: "snapshot_json s = JObj es" by (simp add: snapshot_json_def)
  obtain fs where fs: "snapshot_json (s\<lparr>sn_contentHash := h\<rparr>) = JObj fs" by (simp add: snapshot_json_def)
  have "keptEntries 5 0 None fs = keptEntries 5 0 None es"
  proof (rule kept_same)
    show "distinct (map fst fs)" "distinct (map fst es)" using snapshot_keys [of s] snapshot_keys [of "s\<lparr>sn_contentHash := h\<rparr>"] es fs by simp_all
    fix k v
    assume "\<not> isExcluded k 5 0 None"
    then have "k \<noteq> ''contentHash''" by (auto simp: isExcluded_def UNEXCLUDED_FORM_def)
    then show "(k, v) \<in> set fs \<longleftrightarrow> (k, v) \<in> set es" using es fs by (auto simp: snapshot_json_def)
  qed
  then show ?thesis unfolding es fs by simp
qed

lemma snapshot_version:
  "sn_hashVersion s = currentVersion \<Longrightarrow> readDeclaredHashVersion (snapshot_json s) = Some 5"
  by (simp add: readDeclaredHashVersion_def snapshot_json_def jget_def currentVersion_def CURRENT_HASH_VERSION_def
      MIN_HASH_VERSION_def opt_field_def split: option.splits)

definition snapshot_of :: "(string \<Rightarrow> string) \<Rightarrow> string \<Rightarrow> LocalnetState \<Rightarrow> string option \<Rightarrow> Snapshot \<Rightarrow> bool" where
  "snapshot_of sha now st name s \<longleftrightarrow>
     calculateAccountsHash sha (ls_accounts st) currentVersion = Inr (sn_accountsHash s) \<and>
     calculateUtxoSetHash sha (ls_utxos st) currentVersion = Inr (sn_utxoSetHash s) \<and>
     calculateStateHash sha st currentVersion = Inr (sn_stateHash s) \<and>
     calculateContentHash sha (snapshot_json s) 5 = Inr (sn_contentHash s) \<and> sn_hashVersion s = currentVersion \<and>
     sn_name s = name \<and> sn_id s = None \<and> sn_daaScore s = ls_daaScore st \<and> sn_accounts s = ls_accounts st \<and>
     sn_utxos s = sortUtxosByOutpoint (ls_utxos st)"

lemma plain_snapshot: "sn_hashVersion s = currentVersion \<Longrightarrow> plain_json (snapshot_json s)"
  by (simp add: snapshot_json_def opt_field_def currentVersion_def split: option.splits)

lemma snapshot_json_defined: "snapshot_json s \<noteq> JUndefined"
  by (simp add: snapshot_json_def)

lemma createLocalnetSnapshot_eq:
  "\<exists>s. createLocalnetSnapshot sha now st name =
      Inr (st\<lparr>ls_snapshots := Some ((case ls_snapshots st of None \<Rightarrow> [] | Some ss \<Rightarrow> ss) @ [s])\<rparr>) \<and> snapshot_of sha now st name s"
proof -
  obtain a u h where hs: "calculateAccountsHash sha (ls_accounts st) currentVersion = Inr a"
    "calculateUtxoSetHash sha (ls_utxos st) currentVersion = Inr u" "calculateStateHash sha st currentVersion = Inr h"
    using state_hash_ok calculateStateHash_ok by metis
  define draft where "draft = \<lparr>sn_id = None, sn_createdAt = now, sn_hardkasVersion = HARDKAS_VERSION, sn_version = ARTIFACT_VERSION,
             sn_hashVersion = currentVersion, sn_name = name, sn_daaScore = ls_daaScore st, sn_accountsHash = a,
             sn_utxoSetHash = u, sn_stateHash = h, sn_accounts = ls_accounts st,
             sn_utxos = sortUtxosByOutpoint (ls_utxos st), sn_networkId = ls_networkId st, sn_mode = ls_mode st,
             sn_contentHash = []\<rparr>"
  have "is_ok (serialize (snapshot_json draft) 5 None True 0 None)"
    by (rule serialize_ok) (simp_all add: plain_snapshot snapshot_json_defined, simp add: plain_snapshot draft_def)
  then obtain t where t: "serialize (snapshot_json draft) 5 None True 0 None = Inr t" by (auto simp: is_ok_iff)
  then have c: "calculateContentHash sha (snapshot_json draft) 5 = Inr (sha t)"
    "calculateContentHash sha (snapshot_json (draft\<lparr>sn_contentHash := sha t\<rparr>)) 5 = Inr (sha t)"
    by (simp_all add: calculateContentHash_def canonicalStringify_def UNEXCLUDED_FORM_def snapshot_hash_contentHash)
  have "createLocalnetSnapshot sha now st name =
      Inr (st\<lparr>ls_snapshots := Some ((case ls_snapshots st of None \<Rightarrow> [] | Some ss \<Rightarrow> ss) @ [draft\<lparr>sn_contentHash := sha t\<rparr>])\<rparr>)"
    using hs c(1) by (simp add: createLocalnetSnapshot_def Let_def draft_def CURRENT_HASH_VERSION_def)
  moreover have "snapshot_of sha now st name (draft\<lparr>sn_contentHash := sha t\<rparr>)"
    using hs c(2) by (simp add: snapshot_of_def draft_def)
  ultimately show ?thesis by blast
qed

lemma snapshot_verifies:
  assumes "snapshot_of sha now st name s"
  shows "\<exists>v. verifySnapshot sha s = Inr v \<and> vr_ok v"
proof -
  have rec: "recomputeDeclaredContentHash sha (snapshot_json s) = Inr (sn_contentHash s)"
    using assms snapshot_version [of s] by (simp add: recomputeDeclaredContentHash_def snapshot_of_def)
  have us: "calculateUtxoSetHash sha (sortUtxosByOutpoint (ls_utxos st)) currentVersion = Inr (sn_utxoSetHash s)"
    using assms by (simp add: snapshot_of_def calculateUtxoSetHash_def sort_utxos_idem)
  have "stateDigest sha (ls_daaScore st) (sn_accountsHash s) (sn_utxoSetHash s) currentVersion = Inr (sn_stateHash s)"
    using assms unfolding snapshot_of_def calculateStateHash_def by (metis bindE.simps(2))
  then show ?thesis using rec us assms by (simp add: verifySnapshot_def snapshot_of_def mismatch_def)
qed

text \<open>C36: snapshot and restore. Taking a snapshot always succeeds; the snapshot passes verification; and
  restoring it by its content hash, in any later state that still lists it first under that hash, gives
  back the DAA score, the accounts, the UTXOs (ordered by outpoint) and the state hash.\<close>

theorem snapshot_round_trip:
  "\<exists>st' s. createLocalnetSnapshot sha now st name = Inr st' \<and>
    ls_snapshots st' = Some ((case ls_snapshots st of None \<Rightarrow> [] | Some ss \<Rightarrow> ss) @ [s]) \<and>
    (\<exists>v. verifySnapshot sha s = Inr v \<and> vr_ok v) \<and>
    (\<forall>later ss. ls_snapshots later = Some ss \<longrightarrow> List.find (matchesSnapshot (sn_contentHash s)) ss = Some s \<longrightarrow>
      (\<exists>restored. restoreLocalnetSnapshot sha later (sn_contentHash s) = Inr restored \<and> ls_daaScore restored = ls_daaScore st \<and>
        ls_accounts restored = ls_accounts st \<and> mset (ls_utxos restored) = mset (ls_utxos st) \<and>
        calculateStateHash sha restored currentVersion = calculateStateHash sha st currentVersion))"
proof -
  obtain s where s: "createLocalnetSnapshot sha now st name =
      Inr (st\<lparr>ls_snapshots := Some ((case ls_snapshots st of None \<Rightarrow> [] | Some ss \<Rightarrow> ss) @ [s])\<rparr>)" "snapshot_of sha now st name s"
    using createLocalnetSnapshot_eq by blast
  obtain v where v: "verifySnapshot sha s = Inr v" "vr_ok v" using snapshot_verifies [OF s(2)] by blast
  have "\<exists>restored. restoreLocalnetSnapshot sha later (sn_contentHash s) = Inr restored \<and> ls_daaScore restored = ls_daaScore st \<and>
        ls_accounts restored = ls_accounts st \<and> mset (ls_utxos restored) = mset (ls_utxos st) \<and>
        calculateStateHash sha restored currentVersion = calculateStateHash sha st currentVersion"
    if "ls_snapshots later = Some ss" "List.find (matchesSnapshot (sn_contentHash s)) ss = Some s" for later ss
  proof (intro exI conjI)
    let ?r = "later\<lparr>ls_daaScore := sn_daaScore s, ls_accounts := sn_accounts s, ls_utxos := sn_utxos s\<rparr>"
    show "restoreLocalnetSnapshot sha later (sn_contentHash s) = Inr ?r"
      using that v by (simp add: restoreLocalnetSnapshot_def)
    show "ls_daaScore ?r = ls_daaScore st" "ls_accounts ?r = ls_accounts st" "mset (ls_utxos ?r) = mset (ls_utxos st)"
      using s(2) by (simp_all add: snapshot_of_def sortUtxosByOutpoint_def)
    show "calculateStateHash sha ?r currentVersion = calculateStateHash sha st currentVersion"
      using s(2) by (simp add: snapshot_of_def calculateStateHash_def calculateUtxoSetHash_def sort_utxos_idem)
  qed
  then show ?thesis using s(1) v by (intro exI [of _ "st\<lparr>ls_snapshots := Some ((case ls_snapshots st of None \<Rightarrow> [] | Some ss \<Rightarrow> ss) @ [s])\<rparr>"] exI [of _ s]) auto
qed

theorem snapshot_round_trip_witness:
  "\<exists>st' (s :: Snapshot) restored. createLocalnetSnapshot ex_sha [] ex_state None = Inr st' \<and>
    restoreLocalnetSnapshot ex_sha st' (sn_contentHash s) = Inr restored \<and> mset (ls_utxos restored) = mset (ls_utxos ex_state)"
proof -
  obtain st' s where *: "createLocalnetSnapshot ex_sha [] ex_state None = Inr st'"
    "ls_snapshots st' = Some ((case ls_snapshots ex_state of None \<Rightarrow> [] | Some ss \<Rightarrow> ss) @ [s])"
    "\<forall>later ss. ls_snapshots later = Some ss \<longrightarrow> List.find (matchesSnapshot (sn_contentHash s)) ss = Some s \<longrightarrow>
      (\<exists>restored. restoreLocalnetSnapshot ex_sha later (sn_contentHash s) = Inr restored \<and> ls_daaScore restored = ls_daaScore ex_state \<and>
        ls_accounts restored = ls_accounts ex_state \<and> mset (ls_utxos restored) = mset (ls_utxos ex_state) \<and>
        calculateStateHash ex_sha restored currentVersion = calculateStateHash ex_sha ex_state currentVersion)"
    using snapshot_round_trip [of ex_sha "[]" ex_state None] by blast
  have "ls_snapshots ex_state = Some []" by (simp add: ex_state_def createInitialLocalnetState_def Let_def)
  then have "ls_snapshots st' = Some [s]" using *(2) by simp
  moreover have "List.find (matchesSnapshot (sn_contentHash s)) [s] = Some s" by (simp add: matchesSnapshot_def)
  ultimately obtain restored where "restoreLocalnetSnapshot ex_sha st' (sn_contentHash s) = Inr restored"
    "mset (ls_utxos restored) = mset (ls_utxos ex_state)" using *(3) [rule_format, of st' "[s]"] by auto
  with *(1) show ?thesis by metis
qed

end
