(* ===== verification/HK_Mass.thy ===== *)
theory HK_Mass
  imports HK_Prelude
begin

text \<open>
  Transaction mass and minimum fee: \<open>packages/tx-builder/src/mass.ts\<close>, with \<open>getNetworkPrefix\<close> of
  \<open>packages/core/src/index.ts\<close>.

  The numbers themselves come from the pinned kaspa-wasm SDK, which is not part of the repository: the
  record \<open>Sdk\<close> is a parameter of every definition that calls it, and what is modelled is the
  transaction the code hands to it and what it makes of the answer. Loading the SDK may throw, so the
  parameter is \<open>Sdk result\<close>; so may building or pricing a transaction. A \<open>number\<close> that may be \<open>NaN\<close>
  is \<open>int option\<close>, with \<^const>\<open>None\<close> for \<open>NaN\<close>.
\<close>

subsection \<open>The SDK\<close>

record SdkScript =
  sc_version :: int
  sc_script :: string

record SdkInput =
  si_transactionId :: string
  si_index :: "int option"
  si_sigOpCount :: int
  si_amount :: int
  si_script :: SdkScript

record SdkOutput =
  so_value :: int
  so_script :: SdkScript

record SdkTransaction =
  st_version :: int
  st_inputs :: "SdkInput list"
  st_outputs :: "SdkOutput list"
  st_payload :: string

record Sdk =
  sdk_validate :: "string \<Rightarrow> bool"
  sdk_payToAddressScript :: "string \<Rightarrow> SdkScript"
  sdk_mass :: "string \<Rightarrow> SdkTransaction \<Rightarrow> int \<Rightarrow> int result"
  sdk_fee :: "string \<Rightarrow> SdkTransaction \<Rightarrow> int \<Rightarrow> int option result"
  sdk_maximumStandardMass :: int
  sdk_version :: string

subsection \<open>What is measured\<close>

record Outpoint =
  op_transactionId :: string
  op_index :: "int option"

text \<open>\<open>scriptPublicKey?: unknown\<close>: absent (or any other value), a string, or an object with a numeric version.\<close>

datatype Spk = NoSpk | SpkString string | SpkObject "int option" "string option" "string option"

record MassInput =
  mi_amountSompi :: int
  mi_outpoint :: "Outpoint option"
  mi_scriptPublicKey :: Spk

record MassOutput =
  mo_amountSompi :: int
  mo_address :: "string option"
  mo_scriptPublicKey :: Spk

record UpstreamMassInput =
  um_networkId :: "string option"
  um_inputs :: "MassInput list"
  um_outputs :: "MassOutput list"
  um_payloadBytes :: "nat option"
  um_version :: "int option"
  um_minimumSignatures :: "int option"

text \<open>\<open>minimumFeeSompi\<close> is \<^const>\<open>None\<close> where the SDK returns none, which is where \<open>standard\<close> is false.\<close>

record UpstreamMassResult =
  ur_mass :: int
  ur_minimumFeeSompi :: "int option"
  ur_standard :: bool
  ur_maximumStandardMass :: int
  ur_authority :: string
  ur_assumptions :: "string list"

definition repeat_str :: "nat \<Rightarrow> string \<Rightarrow> string" where
  "repeat_str n s = concat (replicate n s)"

definition P2PK_SIZED_SCRIPT :: string where
  "P2PK_SIZED_SCRIPT = ''20'' @ repeat_str 32 ''00'' @ ''ac''"

definition ZERO_TXID :: string where
  "ZERO_TXID = repeat_str 32 ''00''"

text \<open>The regular expression \<open>/^(?:[0-9a-fA-F]{2})+$/\<close>.\<close>

definition HEX :: "string \<Rightarrow> bool" where
  "HEX s \<longleftrightarrow> s \<noteq> [] \<and> even (length s) \<and> list_all is_hex s"

definition getNetworkPrefix :: "string option \<Rightarrow> string" where
  "getNetworkPrefix networkId =
     (case networkId of None \<Rightarrow> ''simnet''
      | Some n \<Rightarrow>
          if n = [] then ''simnet''
          else (let net = map to_lower n in
            if net = ''simnet'' \<or> net = ''simnet-1'' \<or> net = ''simulated'' \<or> net = ''kaspasim'' then ''simnet''
            else if net = ''mainnet'' \<or> net = ''kaspa'' then ''mainnet''
            else if starts_with net ''testnet'' \<or> net = ''kaspatest'' then ''testnet-10''
            else if net = ''devnet'' \<or> net = ''kaspadev'' then ''devnet''
            else net))"

definition sdkNetwork :: "string option \<Rightarrow> string result" where
  "sdkNetwork networkId =
     (let net = getNetworkPrefix (case networkId of None \<Rightarrow> Some ''simnet'' | Some n \<Rightarrow> Some n) in
      if net = ''simnet'' \<or> net = ''mainnet'' \<or> net = ''testnet-10'' \<or> net = ''devnet'' then Inr net
      else Inl (''MASS_NETWORK_UNSUPPORTED: no Kaspa mass parameters for network '' @ [CHR 0x27] @
        (case networkId of None \<Rightarrow> ''undefined'' | Some n \<Rightarrow> n) @ [CHR 0x27]))"

definition scriptFrom :: "Spk \<Rightarrow> SdkScript option" where
  "scriptFrom spk =
     (case spk of
        NoSpk \<Rightarrow> None
      | SpkObject v spk' script \<Rightarrow>
          (let s = js_or spk' (js_or script []) in
           if HEX s then Some \<lparr>sc_version = (case v of None \<Rightarrow> 0 | Some n \<Rightarrow> n), sc_script = s\<rparr> else None)
      | SpkString s \<Rightarrow>
          if \<not> HEX s then None
          else if length s = 72 \<and> starts_with s ''0000'' then Some \<lparr>sc_version = 0, sc_script = drop 4 s\<rparr>
          else Some \<lparr>sc_version = 0, sc_script = s\<rparr>)"

definition sdkInput :: "int \<Rightarrow> nat \<Rightarrow> MassInput \<Rightarrow> SdkInput \<times> string list" where
  "sdkInput version index i =
     (let txid = (case mi_outpoint i of None \<Rightarrow> ZERO_TXID
                  | Some o' \<Rightarrow> if is_hex64 (op_transactionId o') then op_transactionId o' else ZERO_TXID);
          idNote = (if txid = ZERO_TXID \<and> mi_outpoint i \<noteq> None
            then [''input '' @ nat_str index @ '': outpoint id is not a txid, zero id used (mass-neutral)''] else []);
          spk = scriptFrom (mi_scriptPublicKey i);
          spkNote = (if spk = None then [''input '' @ nat_str index @ '': script not parseable, P2PK-sized script used''] else [])
      in (\<lparr>si_transactionId = txid, si_index = (case mi_outpoint i of None \<Rightarrow> Some (int index) | Some o' \<Rightarrow> op_index o'),
           si_sigOpCount = (if version = 1 then 0 else 1), si_amount = mi_amountSompi i,
           si_script = (case spk of None \<Rightarrow> \<lparr>sc_version = 0, sc_script = P2PK_SIZED_SCRIPT\<rparr> | Some s \<Rightarrow> s)\<rparr>,
          idNote @ spkNote))"

definition sdkOutput :: "Sdk \<Rightarrow> nat \<Rightarrow> MassOutput \<Rightarrow> SdkOutput \<times> string list" where
  "sdkOutput k index out =
     (let scripted = (case scriptFrom (mo_scriptPublicKey out) of
            Some s \<Rightarrow> (\<lparr>so_value = mo_amountSompi out, so_script = s\<rparr>, [])
          | None \<Rightarrow> (\<lparr>so_value = mo_amountSompi out, so_script = \<lparr>sc_version = 0, sc_script = P2PK_SIZED_SCRIPT\<rparr>\<rparr>,
              [''output '' @ nat_str index @ '': '' @ [CHR 0x27] @ (case mo_address out of None \<Rightarrow> ''?'' | Some a \<Rightarrow> a) @ [CHR 0x27] @
               '' is not a Kaspa address, P2PK-sized script used'']))
      in case mo_address out of
           None \<Rightarrow> scripted
         | Some a \<Rightarrow> if a \<noteq> [] \<and> sdk_validate k a
             then (\<lparr>so_value = mo_amountSompi out, so_script = sdk_payToAddressScript k a\<rparr>, []) else scripted)"

definition MASS_AUTHORITY :: "Sdk \<Rightarrow> string" where
  "MASS_AUTHORITY k = ''kaspa-wasm '' @ sdk_version k"

definition mapi :: "(nat \<Rightarrow> 'a \<Rightarrow> 'b) \<Rightarrow> 'a list \<Rightarrow> 'b list" where
  "mapi f xs = map (\<lambda>(i, x). f i x) (zip [0..<length xs] xs)"

definition measureUpstreamMass :: "Sdk result \<Rightarrow> UpstreamMassInput \<Rightarrow> UpstreamMassResult result" where
  "measureUpstreamMass load input =
     (if um_inputs input = [] then Inl ''MASS_REQUIRES_INPUTS: a transaction needs at least one input to have a mass''
      else bindE load (\<lambda>k.
       bindE (sdkNetwork (um_networkId input)) (\<lambda>network.
         let version = (case um_version input of None \<Rightarrow> 0 | Some v \<Rightarrow> v);
             inputs = mapi (sdkInput version) (um_inputs input);
             outputs = mapi (sdkOutput k) (um_outputs input);
             tx = \<lparr>st_version = version, st_inputs = map fst inputs, st_outputs = map fst outputs,
               st_payload = repeat_str (case um_payloadBytes input of None \<Rightarrow> 0 | Some n \<Rightarrow> n) ''00''\<rparr>;
             minimumSignatures = (case um_minimumSignatures input of None \<Rightarrow> 1 | Some n \<Rightarrow> n)
         in bindE (sdk_mass k network tx minimumSignatures) (\<lambda>mass.
            bindE (sdk_fee k network tx minimumSignatures) (\<lambda>fee.
            Inr \<lparr>ur_mass = mass, ur_minimumFeeSompi = fee, ur_standard = (fee \<noteq> None),
              ur_maximumStandardMass = sdk_maximumStandardMass k, ur_authority = MASS_AUTHORITY k,
              ur_assumptions = concat (map snd inputs) @ concat (map snd outputs)\<rparr>)))))"

text \<open>The error a caller may recognise by its code is kept apart from every other one.\<close>

datatype MassError = TX_MASS_ABOVE_STANDARD_LIMIT string | MassFailure string

fun massErrorMessage :: "MassError \<Rightarrow> string" where
  "massErrorMessage (TX_MASS_ABOVE_STANDARD_LIMIT m) = m"
| "massErrorMessage (MassFailure m) = m"

definition calculateUpstreamMass :: "Sdk result \<Rightarrow> UpstreamMassInput \<Rightarrow> MassError + UpstreamMassResult" where
  "calculateUpstreamMass load input =
     (case measureUpstreamMass load input of
        Inl e \<Rightarrow> Inl (MassFailure e)
      | Inr r \<Rightarrow>
          if \<not> ur_standard r then
            Inl (TX_MASS_ABOVE_STANDARD_LIMIT (''TX_MASS_ABOVE_STANDARD_LIMIT: mass '' @ int_str (ur_mass r) @
              '' exceeds the maximum standard transaction mass '' @ int_str (ur_maximumStandardMass r)))
          else Inr r)"

definition SHAPE_ONLY_AMOUNT :: int where
  "SHAPE_ONLY_AMOUNT = 100000000000000"

text \<open>\<open>relayFeeSompi\<close> is \<^const>\<open>None\<close> where the shape itself is above the standard mass.\<close>

definition measureRelayFee :: "Sdk result \<Rightarrow> UpstreamMassInput \<Rightarrow> (int \<times> int option) result" where
  "measureRelayFee load input =
     (let outputAmount = SHAPE_ONLY_AMOUNT * int (length (um_inputs input)) div (int (length (um_outputs input)) + 1) in
      bindE (measureUpstreamMass load (input\<lparr>
          um_inputs := map (\<lambda>i. i\<lparr>mi_amountSompi := SHAPE_ONLY_AMOUNT\<rparr>) (um_inputs input),
          um_outputs := map (\<lambda>o'. o'\<lparr>mo_amountSompi := outputAmount\<rparr>) (um_outputs input)\<rparr>))
        (\<lambda>shape. Inr (ur_mass shape, ur_minimumFeeSompi shape)))"

subsection \<open>Shape-only estimates\<close>

text \<open>Amounts beyond the range of a JavaScript \<open>number\<close> are refused before the SDK sees them.\<close>

definition MAX_SAFE_INTEGER :: int where
  "MAX_SAFE_INTEGER = 9007199254740991"

definition amountToNumber :: "int \<Rightarrow> int result" where
  "amountToNumber v = (if v < 0 \<or> v > MAX_SAFE_INTEGER then Inl (''MASS_AMOUNT_OUT_OF_RANGE: '' @ int_str v) else Inr v)"

definition calculateUpstreamStorageMass :: "Sdk result \<Rightarrow> (string \<Rightarrow> int list \<Rightarrow> int list \<Rightarrow> int option) \<Rightarrow> int list \<Rightarrow> int list \<Rightarrow> string option \<Rightarrow> int result" where
  "calculateUpstreamStorageMass load storageMass inputAmounts outputAmounts networkId =
     bindE load (\<lambda>k.
     bindE (sdkNetwork networkId) (\<lambda>network.
     bindE (mapE amountToNumber inputAmounts) (\<lambda>ins.
     bindE (mapE amountToNumber outputAmounts) (\<lambda>outs.
       of_opt ''MASS_INCOMPUTABLE: the SDK could not compute the storage mass of these amounts'' (storageMass network ins outs)))))"

definition shapeMass :: "Sdk result \<Rightarrow> nat \<Rightarrow> (string option \<times> Spk) list \<Rightarrow> nat \<Rightarrow> string option \<Rightarrow> int option \<Rightarrow> MassError + UpstreamMassResult" where
  "shapeMass load inputCount outputs payloadBytes networkId version =
     (let outCount = max (length outputs) 1;
          amount = SHAPE_ONLY_AMOUNT * int (if inputCount = 0 then 1 else inputCount) div (int outCount + 1)
      in calculateUpstreamMass load
        \<lparr>um_networkId = networkId,
         um_inputs = replicate inputCount \<lparr>mi_amountSompi = SHAPE_ONLY_AMOUNT, mi_outpoint = None, mi_scriptPublicKey = NoSpk\<rparr>,
         um_outputs = map (\<lambda>(a, s). \<lparr>mo_amountSompi = amount, mo_address = a, mo_scriptPublicKey = s\<rparr>) outputs,
         um_payloadBytes = Some payloadBytes, um_version = version, um_minimumSignatures = None\<rparr>)"

definition estimateFeeFromMass :: "int \<Rightarrow> int \<Rightarrow> int" where
  "estimateFeeFromMass mass feeRateSompiPerMass = mass * feeRateSompiPerMass"

subsection \<open>Facts\<close>

lemma length_mapi [simp]: "length (mapi f xs) = length xs"
  by (simp add: mapi_def)

lemma measure_standard: "measureUpstreamMass load i = Inr r \<Longrightarrow> ur_standard r \<longleftrightarrow> ur_minimumFeeSompi r \<noteq> None"
  by (auto simp: measureUpstreamMass_def Let_def split: if_splits)

lemma calculateUpstreamMass_ok:
  "calculateUpstreamMass load i = Inr r \<longleftrightarrow> measureUpstreamMass load i = Inr r \<and> ur_standard r"
  by (auto simp: calculateUpstreamMass_def split: sum.splits if_splits)

end
