(* ===== verification/HK_Payment.thy ===== *)
theory HK_Payment
  imports HK_Mass
begin

text \<open>
  Payment plans: \<open>buildPaymentPlan\<close> of \<open>packages/tx-builder/src/index.ts\<close> and the semantic verification of
  plans, \<open>verifyTxPlanSemantics\<close> of \<open>packages/tx-builder/src/verify.ts\<close>.

  The mutable variables of the planner that its closure \<open>feeFor\<close> and its loop share (\<open>nonStandard\<close>,
  \<open>lastAttemptNonStandard\<close>, \<open>selected\<close>, \<open>selectedAmount\<close>) are arguments of the loop. Fields of a
  request that the planner does not read (\<open>computeGrams\<close>, \<open>feePolicy\<close>, \<open>genesisCovenantGroups\<close>) are left out.
\<close>

subsection \<open>Types\<close>

definition DUST_THRESHOLD_SOMPI :: int where
  "DUST_THRESHOLD_SOMPI = 600"

record CovenantBindingInput =
  cb_covenantId :: string
  cb_authorizingInput :: int

record Utxo =
  ux_outpoint :: Outpoint
  ux_address :: string
  ux_amountSompi :: int
  ux_scriptPublicKey :: string
  ux_blockDaaScore :: "int option"
  ux_isCoinbase :: "bool option"
  ux_covenantId :: "string option"
  ux_lane :: "string option"

record TxOutput =
  to_address :: string
  to_amountSompi :: int
  to_scriptPublicKey :: "string option"
  to_covenant :: "CovenantBindingInput option"

record TxBuildRequest =
  rq_fromAddress :: string
  rq_outputs :: "TxOutput list"
  rq_availableUtxos :: "Utxo list"
  rq_feeRateSompiPerMass :: int
  rq_changeAddress :: "string option"
  rq_payloadBytes :: "nat option"
  rq_version :: "int option"
  rq_computeBudget :: "int option"
  rq_storageMass :: "int option"
  rq_lane :: "string option"
  rq_virtualDaaScore :: "int option"
  rq_coinbaseMaturity :: "int option"
  rq_networkId :: "string option"
  rq_feeOverrideSompi :: "int option"

record TxPlan =
  pl_version :: int
  pl_inputs :: "Utxo list"
  pl_outputs :: "TxOutput list"
  pl_change :: "TxOutput option"
  pl_estimatedMass :: int
  pl_estimatedFeeSompi :: int
  pl_computeBudget :: "int option"
  pl_storageMass :: "int option"
  pl_lane :: "string option"

subsection \<open>Canonical orders\<close>

definition compareTxOutputs :: "TxOutput \<Rightarrow> TxOutput \<Rightarrow> int" where
  "compareTxOutputs a b =
     (if to_amountSompi a < to_amountSompi b then -1
      else if to_amountSompi a > to_amountSompi b then 1
      else if to_address a < to_address b then -1
      else if to_address a > to_address b then 1
      else 0)"

text \<open>A comparison with \<open>NaN\<close> is false.\<close>

definition num_less :: "int option \<Rightarrow> int option \<Rightarrow> bool" where
  "num_less a b = (case (a, b) of (Some i, Some j) \<Rightarrow> i < j | _ \<Rightarrow> False)"

definition compareTxInputs :: "Utxo \<Rightarrow> Utxo \<Rightarrow> int" where
  "compareTxInputs a b =
     (if ux_amountSompi a < ux_amountSompi b then -1
      else if ux_amountSompi a > ux_amountSompi b then 1
      else if op_transactionId (ux_outpoint a) < op_transactionId (ux_outpoint b) then -1
      else if op_transactionId (ux_outpoint a) > op_transactionId (ux_outpoint b) then 1
      else if num_less (op_index (ux_outpoint a)) (op_index (ux_outpoint b)) then -1
      else if num_less (op_index (ux_outpoint b)) (op_index (ux_outpoint a)) then 1
      else 0)"

subsection \<open>The planner\<close>

definition outputsTotal :: "TxOutput list \<Rightarrow> int" where
  "outputsTotal os = foldl (\<lambda>s x. s + to_amountSompi x) 0 os"

definition matureUtxo :: "int \<Rightarrow> int \<Rightarrow> Utxo \<Rightarrow> bool" where
  "matureUtxo virtualDaaScore maturity u \<longleftrightarrow>
     \<not> (ux_isCoinbase u = Some True \<and>
        (case ux_blockDaaScore u of None \<Rightarrow> False | Some d \<Rightarrow> virtualDaaScore - d < maturity))"

definition candidateUtxos :: "TxBuildRequest \<Rightarrow> int \<Rightarrow> Utxo list" where
  "candidateUtxos rq maturity =
     (case rq_virtualDaaScore rq of
        None \<Rightarrow> rq_availableUtxos rq
      | Some v \<Rightarrow> filter (matureUtxo v maturity) (rq_availableUtxos rq))"

definition utxoMassInput :: "Utxo \<Rightarrow> MassInput" where
  "utxoMassInput u = \<lparr>mi_amountSompi = ux_amountSompi u, mi_outpoint = Some (ux_outpoint u),
     mi_scriptPublicKey = SpkString (ux_scriptPublicKey u)\<rparr>"

definition outputMassOutput :: "TxOutput \<Rightarrow> MassOutput" where
  "outputMassOutput x = \<lparr>mo_amountSompi = to_amountSompi x, mo_address = Some (to_address x),
     mo_scriptPublicKey = (case to_scriptPublicKey x of None \<Rightarrow> NoSpk | Some s \<Rightarrow> SpkString s)\<rparr>"

definition changeMassOutput :: "string \<Rightarrow> int \<Rightarrow> MassOutput" where
  "changeMassOutput address amount = \<lparr>mo_amountSompi = amount, mo_address = Some address, mo_scriptPublicKey = NoSpk\<rparr>"

definition planMassInput :: "TxBuildRequest \<Rightarrow> TxOutput list \<Rightarrow> string \<Rightarrow> Utxo list \<Rightarrow> int option \<Rightarrow> UpstreamMassInput" where
  "planMassInput rq outputs changeAddress inputs change =
     \<lparr>um_networkId = rq_networkId rq, um_inputs = map utxoMassInput inputs,
      um_outputs = map outputMassOutput outputs @
        (case change of None \<Rightarrow> [] | Some c \<Rightarrow> [changeMassOutput changeAddress c]),
      um_payloadBytes = Some (case rq_payloadBytes rq of None \<Rightarrow> 0 | Some n \<Rightarrow> n),
      um_version = Some (case rq_version rq of None \<Rightarrow> 0 | Some v \<Rightarrow> v), um_minimumSignatures = None\<rparr>"

text \<open>\<open>feeFor\<close> takes the value of \<open>nonStandard\<close> and returns it with the quote (mass and fee), which is
  \<^const>\<open>None\<close> where the transaction would exceed the standard mass. A standard result has a minimum fee.\<close>

type_synonym quote = "(int \<times> int) option \<times> string option"

definition feeFor :: "Sdk result \<Rightarrow> TxBuildRequest \<Rightarrow> TxOutput list \<Rightarrow> string \<Rightarrow> Utxo list \<Rightarrow> int option \<Rightarrow> string option \<Rightarrow> quote result" where
  "feeFor load rq outputs changeAddress inputs change nonStandard =
     (case calculateUpstreamMass load (planMassInput rq outputs changeAddress inputs change) of
        Inl (TX_MASS_ABOVE_STANDARD_LIMIT e) \<Rightarrow> Inr (None, Some e)
      | Inl (MassFailure e) \<Rightarrow> Inl e
      | Inr upstream \<Rightarrow>
          (case ur_minimumFeeSompi upstream of
             None \<Rightarrow> Inl ''minimum fee undefined''
           | Some minimumFee \<Rightarrow>
               (case rq_feeOverrideSompi rq of
                  Some f \<Rightarrow>
                    if f < minimumFee then
                      Inl (''FEE_BELOW_NETWORK_MINIMUM: fee override '' @ int_str f @ '' sompi is below the '' @ int_str minimumFee @
                        '' sompi the node requires for mass '' @ int_str (ur_mass upstream) @ '' ('' @ ur_authority upstream @ '')'')
                    else Inr (Some (ur_mass upstream, f), nonStandard)
                | None \<Rightarrow>
                    (let atRate = ur_mass upstream * rq_feeRateSompiPerMass rq in
                     Inr (Some (ur_mass upstream, if atRate > minimumFee then atRate else minimumFee), nonStandard)))))"

text \<open>The eight passes that settle a fee covering the transaction with the change it leaves.\<close>

type_synonym quoter = "int option \<Rightarrow> string option \<Rightarrow> quote result"

fun settleFee :: "quoter \<Rightarrow> nat \<Rightarrow> int \<Rightarrow> int \<Rightarrow> string option \<Rightarrow> ((int \<times> int \<times> int) option \<times> string option) result" where
  "settleFee q 0 surplus fee ns = Inr (None, ns)"
| "settleFee q (Suc passes) surplus fee ns =
     (let change = surplus - fee in
      if change < DUST_THRESHOLD_SOMPI then Inr (None, ns)
      else bindE (q (Some change) ns) (\<lambda>(required, ns').
        case required of
          None \<Rightarrow> Inr (None, ns')
        | Some (mass, requiredFee) \<Rightarrow>
            if requiredFee \<le> fee then Inr (Some (mass, fee, change), ns')
            else settleFee q passes surplus requiredFee ns'))"

definition withChange :: "quoter \<Rightarrow> int \<Rightarrow> string option \<Rightarrow> ((int \<times> int \<times> int) option \<times> string option) result" where
  "withChange q surplus ns =
     (if surplus \<ge> DUST_THRESHOLD_SOMPI then
        bindE (q (Some surplus) ns) (\<lambda>(first, ns').
          case first of None \<Rightarrow> Inr (None, ns') | Some (mass, fee) \<Rightarrow> settleFee q 8 surplus fee ns')
      else Inr (None, ns))"

record chosen =
  ch_mass :: int
  ch_fee :: int
  ch_change :: "int option"

record planner =
  pn_nonStandard :: "string option"
  pn_lastAttemptNonStandard :: bool

text \<open>One iteration of the selection loop after the check of the target: \<^const>\<open>None\<close> is its \<open>continue\<close>.\<close>

definition attempt :: "quoter \<Rightarrow> int \<Rightarrow> planner \<Rightarrow> (chosen option \<times> planner) result" where
  "attempt q surplus p =
     bindE (withChange q surplus (pn_nonStandard p)) (\<lambda>(settled, ns).
       case settled of
         Some (mass, fee, change) \<Rightarrow>
           Inr (Some \<lparr>ch_mass = mass, ch_fee = fee, ch_change = Some change\<rparr>, p\<lparr>pn_nonStandard := ns\<rparr>)
       | None \<Rightarrow>
           bindE (q None ns) (\<lambda>(required, ns').
             case required of
               None \<Rightarrow> Inr (None, \<lparr>pn_nonStandard = ns', pn_lastAttemptNonStandard = True\<rparr>)
             | Some (mass, requiredFee) \<Rightarrow>
                 if surplus < requiredFee
                 then Inr (None, \<lparr>pn_nonStandard = ns', pn_lastAttemptNonStandard = False\<rparr>)
                 else Inr (Some \<lparr>ch_mass = mass, ch_fee = surplus, ch_change = None\<rparr>,
                        \<lparr>pn_nonStandard = ns', pn_lastAttemptNonStandard = False\<rparr>)))"

fun selectInputs :: "(Utxo list \<Rightarrow> quoter) \<Rightarrow> int \<Rightarrow> Utxo list \<Rightarrow> Utxo list \<Rightarrow> int \<Rightarrow> planner \<Rightarrow> (Utxo list \<times> chosen) result" where
  "selectInputs quoteFor target [] selected selectedAmount p =
     (case pn_nonStandard p of
        Some e \<Rightarrow> if pn_lastAttemptNonStandard p then Inl e else Inl ''Insufficient funds for transaction amount plus estimated fee.''
      | None \<Rightarrow> Inl ''Insufficient funds for transaction amount plus estimated fee.'')"
| "selectInputs quoteFor target (utxo # rest) selected selectedAmount p =
     (let selected' = selected @ [utxo]; amount = selectedAmount + ux_amountSompi utxo in
      if amount < target then selectInputs quoteFor target rest selected' amount p
      else bindE (attempt (quoteFor selected') (amount - target) p) (\<lambda>(found, p').
        case found of
          Some c \<Rightarrow> Inr (selected', c)
        | None \<Rightarrow> selectInputs quoteFor target rest selected' amount p'))"

definition changeAddressOf :: "TxBuildRequest \<Rightarrow> string" where
  "changeAddressOf rq = (case rq_changeAddress rq of None \<Rightarrow> rq_fromAddress rq | Some a \<Rightarrow> a)"

definition planOf :: "TxBuildRequest \<Rightarrow> TxOutput list \<Rightarrow> Utxo list \<Rightarrow> chosen \<Rightarrow> TxPlan" where
  "planOf rq sortedOutputs selected c =
     \<lparr>pl_version = (case rq_version rq of None \<Rightarrow> 0 | Some v \<Rightarrow> v), pl_inputs = js_sort compareTxInputs selected,
      pl_outputs = sortedOutputs,
      pl_change = (case ch_change c of None \<Rightarrow> None
        | Some a \<Rightarrow> Some \<lparr>to_address = changeAddressOf rq, to_amountSompi = a, to_scriptPublicKey = None, to_covenant = None\<rparr>),
      pl_estimatedMass = ch_mass c, pl_estimatedFeeSompi = ch_fee c, pl_computeBudget = rq_computeBudget rq,
      pl_storageMass = rq_storageMass rq, pl_lane = rq_lane rq\<rparr>"

definition buildPaymentPlan :: "Sdk result \<Rightarrow> TxBuildRequest \<Rightarrow> TxPlan result" where
  "buildPaymentPlan load rq =
     (if rq_outputs rq = [] then Inl ''At least one transaction output is required.''
      else (let sortedOutputs = js_sort compareTxOutputs (rq_outputs rq); target = outputsTotal sortedOutputs in
        if target \<le> 0 then Inl ''Transaction amount must be positive.''
        else case rq_coinbaseMaturity rq of
          None \<Rightarrow> Inl ''COINBASE_MATURITY_UNRESOLVED: coinbaseMaturity must be explicitly provided to TxBuilder''
        | Some maturity \<Rightarrow>
            bindE (selectInputs (feeFor load rq sortedOutputs (changeAddressOf rq)) target
                (js_sort compareTxInputs (candidateUtxos rq maturity)) [] 0
                \<lparr>pn_nonStandard = None, pn_lastAttemptNonStandard = False\<rparr>)
              (\<lambda>(selected, c). Inr (planOf rq sortedOutputs selected c))))"

definition createMockUtxo :: "string \<Rightarrow> int \<Rightarrow> nat option \<Rightarrow> Utxo" where
  "createMockUtxo address amountSompi index =
     (let i = (case index of None \<Rightarrow> 0 | Some n \<Rightarrow> n) in
      \<lparr>ux_outpoint = \<lparr>op_transactionId = ''mock-'' @ address @ ''-'' @ nat_str i, op_index = Some (int i)\<rparr>, ux_address = address,
       ux_amountSompi = amountSompi, ux_scriptPublicKey = ''mock-script'', ux_blockDaaScore = None, ux_isCoinbase = None,
       ux_covenantId = None, ux_lane = None\<rparr>)"

end
