(* ===== verification/HK_Json.thy ===== *)
theory HK_Json
  imports HK_Canonical
begin

text \<open>
  Reading and writing untyped values: what the code does with artifacts, configurations and other values
  of type \<open>any\<close> or \<open>unknown\<close>. Property access with \<open>?.\<close> is \<^const>\<open>jget\<close>; without it, on \<open>undefined\<close> or
  \<open>null\<close>, it throws (\<open>jfield\<close>).
\<close>

text \<open>Truthiness, \<open>String(v)\<close> in a template and \<open>BigInt(v)\<close> of a JSON value; the texts of fractions, arrays and
  objects in a template are outside the model.\<close>

fun truthy :: "json \<Rightarrow> bool" where
  "truthy JUndefined = False"
| "truthy JNull = False"
| "truthy (JBool b) = b"
| "truthy (JNum i) = (i \<noteq> 0)"
| "truthy (JBigInt i) = (i \<noteq> 0)"
| "truthy (JStr s) = (s \<noteq> [])"
| "truthy _ = True"

fun template_text :: "json \<Rightarrow> string" where
  "template_text JUndefined = ''undefined''"
| "template_text JNull = ''null''"
| "template_text (JBool b) = (if b then ''true'' else ''false'')"
| "template_text (JNum i) = int_str i"
| "template_text (JFrac s) = s"
| "template_text (JBigInt i) = int_str i"
| "template_text (JStr s) = s"
| "template_text _ = ''[object]''"

fun json_bigE :: "json \<Rightarrow> int result" where
  "json_bigE (JBool b) = Inr (if b then 1 else 0)"
| "json_bigE (JNum i) = Inr i"
| "json_bigE (JBigInt i) = Inr i"
| "json_bigE (JStr s) = bigE s"
| "json_bigE _ = Inl ''Cannot convert to a BigInt''"

text \<open>\<open>a || b\<close>, \<open>a ?? b\<close>, \<open>obj.key\<close> where \<open>obj\<close> may be missing, \<open>obj.key = v\<close>.\<close>

definition jor :: "json \<Rightarrow> json \<Rightarrow> json" where
  "jor a b = (if truthy a then a else b)"

definition jnn :: "json \<Rightarrow> json \<Rightarrow> json" where
  "jnn a b = (if a = JUndefined \<or> a = JNull then b else a)"

definition jfield :: "json \<Rightarrow> string \<Rightarrow> json result" where
  "jfield j k = (if j = JUndefined \<or> j = JNull then Inl (''Cannot read properties of '' @ template_text j) else Inr (jget j k))"

definition jset :: "string \<Rightarrow> json \<Rightarrow> json \<Rightarrow> json" where
  "jset k v j = (case j of JObj es \<Rightarrow> JObj (AList.update k v es) | _ \<Rightarrow> j)"

text \<open>\<open>x.map(...)\<close>: a value that is not an array has no such method.\<close>

definition jlist :: "json \<Rightarrow> json list result" where
  "jlist j = (case j of JArr xs \<Rightarrow> Inr xs | _ \<Rightarrow> Inl ''is not a function'')"

text \<open>\<open>...(c ? { k: v } : {})\<close> in an object literal.\<close>

definition jwhen :: "bool \<Rightarrow> string \<Rightarrow> json \<Rightarrow> (string \<times> json) list" where
  "jwhen c k v = (if c then [(k, v)] else [])"

lemma jget_simps [simp]:
  "jget JUndefined k = JUndefined" "jget JNull k = JUndefined"
  "jget (JObj es) k = (case map_of es k of None \<Rightarrow> JUndefined | Some v \<Rightarrow> v)"
  by (simp_all add: jget_def)

lemma jget_jset [simp]:
  "jget (jset k v (JObj es)) l = (if l = k then v else jget (JObj es) l)"
  by (simp add: jset_def)

lemma jor_simps [simp]: "jor JUndefined b = b" "jor JNull b = b" "s \<noteq> [] \<Longrightarrow> jor (JStr s) b = JStr s" "jor (JStr []) b = b"
  by (simp_all add: jor_def)

lemma jnn_simps [simp]: "jnn JUndefined b = b" "jnn JNull b = b" "jnn (JStr s) b = JStr s" "jnn (JNum i) b = JNum i"
  by (simp_all add: jnn_def)

end
