(* ===== verification/HK_PlanVerify.thy ===== *)
theory HK_PlanVerify
  imports HK_Payment HK_Json
begin

text \<open>
  Semantic verification of plans, signed transactions and receipts: \<open>packages/tx-builder/src/verify.ts\<close>.
  Signed transactions and receipts are untyped in the code (\<open>any\<close>) and JSON values here.
\<close>

subsection \<open>Issues\<close>

datatype Severity = Info | Warning | Error | Critical

record Issue =
  is_code :: string
  is_severity :: Severity
  is_message :: string
  is_path :: "string option"

definition issue :: "string \<Rightarrow> Severity \<Rightarrow> string \<Rightarrow> Issue" where
  "issue code severity message = \<lparr>is_code = code, is_severity = severity, is_message = message, is_path = None\<rparr>"

definition issueAt :: "string \<Rightarrow> Severity \<Rightarrow> string \<Rightarrow> string \<Rightarrow> Issue" where
  "issueAt code severity message path = \<lparr>is_code = code, is_severity = severity, is_message = message, is_path = Some path\<rparr>"

definition issuesOk :: "Issue list \<Rightarrow> bool" where
  "issuesOk issues \<longleftrightarrow> list_all (\<lambda>i. is_severity i \<noteq> Error \<and> is_severity i \<noteq> Critical) issues"

definition addIssue :: "bool \<Rightarrow> Issue \<Rightarrow> Issue list" where
  "addIssue b i = (if b then [i] else [])"

definition quoted :: "string \<Rightarrow> string" where
  "quoted s = [CHR 0x27] @ s @ [CHR 0x27]"

definition num_str :: "int option \<Rightarrow> string" where
  "num_str n = (case n of None \<Rightarrow> ''NaN'' | Some i \<Rightarrow> int_str i)"

definition outpointId :: "Outpoint \<Rightarrow> string" where
  "outpointId o' = op_transactionId o' @ '':'' @ num_str (op_index o')"

subsection \<open>Plans\<close>

record ExtendedPlan = TxPlan +
  ep_mode :: "string option"
  ep_networkId :: "string option"
  ep_planId :: "string option"
  ep_contentHash :: "string option"
  ep_amountSompi :: "string option"

record ContextUtxo =
  cu_address :: string
  cu_amountSompi :: int
  cu_outpoint :: Outpoint

record SemanticVerifyContext =
  vc_utxoContext :: "ContextUtxo list option"
  vc_expectedChangeAddress :: "string option"

record SemanticVerificationResult =
  sv_ok :: bool
  sv_issues :: "Issue list"
  sv_recomputedFeeSompi :: int
  sv_recomputedMass :: int
  sv_inputTotalSompi :: int
  sv_outputTotalSompi :: int
  sv_changeAmountSompi :: int

definition inputsTotal :: "Utxo list \<Rightarrow> int" where
  "inputsTotal us = foldl (\<lambda>s u. s + ux_amountSompi u) 0 us"

definition environmentIssues :: "ExtendedPlan \<Rightarrow> Issue list" where
  "environmentIssues plan =
     (let simulatorPlan = (ep_mode plan = Some ''simulator'' \<or> ep_mode plan = Some ''simulated'') in
      addIssue (simulatorPlan \<and> ep_networkId plan \<noteq> Some ''simulated'' \<and> ep_networkId plan \<noteq> Some ''simnet'')
        (issue ''ENV_CONSISTENCY_FAILURE'' Error (''Environment mismatch: a simulator plan must target '' @ quoted ''simulated'' @
           '' (legacy artifacts: '' @ quoted ''simnet'' @ ''), but targets '' @
           quoted (case ep_networkId plan of None \<Rightarrow> ''undefined'' | Some n \<Rightarrow> n))))"

definition addressIssues :: "ExtendedPlan \<Rightarrow> Issue list" where
  "addressIssues plan =
     addIssue (\<not> list_all (\<lambda>i. CHR '':'' \<in> set (ux_address i)) (pl_inputs plan))
       (issue ''INVALID_ADDRESS_FORMAT'' Error ''One or more input addresses are missing prefix (e.g. kaspa:)'') @
     addIssue (\<not> list_all (\<lambda>x. CHR '':'' \<in> set (to_address x)) (pl_outputs plan))
       (issue ''INVALID_ADDRESS_FORMAT'' Error ''One or more output addresses are missing prefix (e.g. kaspa:)'')"

definition totalIssues :: "int \<Rightarrow> int \<Rightarrow> int \<Rightarrow> Issue list" where
  "totalIssues inputTotal outputTotal changeAmount =
     addIssue (inputTotal \<le> 0) (issue ''ZERO_INPUTS'' Critical ''Transaction has zero or negative total inputs.'') @
     addIssue (outputTotal \<le> 0) (issue ''ZERO_OUTPUTS'' Error ''Transaction has zero or negative total outputs (excluding change).'') @
     addIssue (inputTotal - outputTotal - changeAmount < 0) (issue ''NEGATIVE_FEE'' Critical
       (''Negative fee detected: inputs ('' @ int_str inputTotal @ '') < outputs + change ('' @ int_str (outputTotal + changeAmount) @ '')''))"

definition verifyMassInput :: "ExtendedPlan \<Rightarrow> UpstreamMassInput" where
  "verifyMassInput plan =
     \<lparr>um_networkId = ep_networkId plan, um_inputs = map utxoMassInput (pl_inputs plan),
      um_outputs = map outputMassOutput (pl_outputs plan) @
        (case pl_change plan of None \<Rightarrow> [] | Some c \<Rightarrow> [changeMassOutput (to_address c) (to_amountSompi c)]),
      um_payloadBytes = None, um_version = Some (pl_version plan), um_minimumSignatures = None\<rparr>"

text \<open>The comparison of the fee with the minimum fee and, below it, with the relay fee: \<open>x < undefined\<close> is false.\<close>

definition feeIssues :: "Sdk result \<Rightarrow> ExtendedPlan \<Rightarrow> UpstreamMassResult \<Rightarrow> int \<Rightarrow> Issue list result" where
  "feeIssues load plan upstream recomputedFee =
     (if \<not> ur_standard upstream then
        Inr [issue ''MASS_ABOVE_STANDARD_LIMIT'' Critical (''Mass '' @ int_str (ur_mass upstream) @
          '' exceeds the maximum standard transaction mass '' @ int_str (ur_maximumStandardMass upstream) @
          '': the node will not relay it'')]
      else if (case ur_minimumFeeSompi upstream of None \<Rightarrow> False | Some m \<Rightarrow> recomputedFee < m) then
        bindE (measureRelayFee load (verifyMassInput plan)) (\<lambda>(computeMass, relayFee).
          case relayFee of
            None \<Rightarrow> Inr []
          | Some r \<Rightarrow> Inr (addIssue (recomputedFee < r) (issue ''FEE_BELOW_NETWORK_MINIMUM'' Critical
              (''Fee '' @ int_str recomputedFee @ '' sompi is below the '' @ int_str r @
               '' sompi the node requires for compute mass '' @ int_str computeMass))))
      else Inr [])"

definition massIssues :: "Sdk result \<Rightarrow> ExtendedPlan \<Rightarrow> int \<Rightarrow> (int \<times> Issue list) result" where
  "massIssues load plan recomputedFee =
     (if pl_inputs plan = [] then Inr (0, [])
      else bindE (measureUpstreamMass load (verifyMassInput plan)) (\<lambda>upstream.
        bindE (feeIssues load plan upstream recomputedFee) (\<lambda>fees.
          Inr (ur_mass upstream,
            addIssue (ur_mass upstream \<noteq> pl_estimatedMass plan) (issue ''MASS_MISMATCH'' Critical
              (''Mass mismatch: plan says '' @ int_str (pl_estimatedMass plan) @ '', '' @ ur_authority upstream @ '' computes '' @
               int_str (ur_mass upstream))) @ fees))))"

definition outputIssues :: "nat \<Rightarrow> TxOutput \<Rightarrow> Issue list" where
  "outputIssues i x =
     addIssue (to_amountSompi x \<le> 0) (issueAt ''INVALID_OUTPUT_AMOUNT'' Error
       (''Output '' @ nat_str i @ '' has non-positive amount: '' @ int_str (to_amountSompi x)) (''outputs['' @ nat_str i @ '']'')) @
     addIssue (to_amountSompi x < DUST_THRESHOLD_SOMPI) (issueAt ''DUST_OUTPUT'' Error
       (''Output '' @ nat_str i @ '' is below dust threshold ('' @ int_str DUST_THRESHOLD_SOMPI @ '' sompi): '' @
        int_str (to_amountSompi x) @ '' sompi'') (''outputs['' @ nat_str i @ '']''))"

definition changeIssues :: "TxOutput option \<Rightarrow> Issue list" where
  "changeIssues change =
     (case change of None \<Rightarrow> []
      | Some c \<Rightarrow> addIssue (to_amountSompi c < DUST_THRESHOLD_SOMPI) (issueAt ''DUST_CHANGE'' Error
          (''Change output is below dust threshold ('' @ int_str DUST_THRESHOLD_SOMPI @ '' sompi): '' @ int_str (to_amountSompi c) @ '' sompi'')
          ''change''))"

fun duplicateIssues :: "nat \<Rightarrow> string list \<Rightarrow> Utxo list \<Rightarrow> Issue list" where
  "duplicateIssues i seenInputs [] = []"
| "duplicateIssues i seenInputs (u # us) =
     (let inputId = outpointId (ux_outpoint u) in
      addIssue (inputId \<in> set seenInputs) (issueAt ''DUPLICATE_INPUT'' Critical (''Duplicate input detected: '' @ inputId)
        (''inputs['' @ nat_str i @ '']'')) @
      duplicateIssues (Suc i) (inputId # seenInputs) us)"

text \<open>\<open>===\<close> on numbers: \<open>NaN\<close> equals nothing.\<close>

definition sameOutpoint :: "Outpoint \<Rightarrow> Outpoint \<Rightarrow> bool" where
  "sameOutpoint a b \<longleftrightarrow> op_transactionId a = op_transactionId b \<and> op_index a \<noteq> None \<and> op_index a = op_index b"

definition contextIssues :: "ContextUtxo list \<Rightarrow> nat \<Rightarrow> Utxo \<Rightarrow> Issue list" where
  "contextIssues context i u =
     (case List.find (\<lambda>c. sameOutpoint (cu_outpoint c) (ux_outpoint u)) context of
        None \<Rightarrow> [issueAt ''UNKNOWN_INPUT'' Error (''Input '' @ nat_str i @ '' not found in provided UTXO context'') (''inputs['' @ nat_str i @ '']'')]
      | Some m \<Rightarrow> addIssue (cu_amountSompi m \<noteq> ux_amountSompi u) (issueAt ''INPUT_AMOUNT_MISMATCH'' Critical
          (''Input '' @ nat_str i @ '' amount mismatch: plan says '' @ int_str (ux_amountSompi u) @ '', context says '' @
           int_str (cu_amountSompi m)) (''inputs['' @ nat_str i @ '']'')))"

definition changeAddressIssues :: "string option \<Rightarrow> TxOutput option \<Rightarrow> Issue list" where
  "changeAddressIssues expected change =
     (case (expected, change) of
        (Some e, Some c) \<Rightarrow> addIssue (e \<noteq> [] \<and> to_address c \<noteq> e) (issueAt ''CHANGE_ADDRESS_MISMATCH'' Error
          (''Change address mismatch: expected '' @ e @ '', got '' @ to_address c) ''change.address'')
      | _ \<Rightarrow> [])"

definition verifyTxPlanSemantics :: "Sdk result \<Rightarrow> ExtendedPlan \<Rightarrow> SemanticVerifyContext \<Rightarrow> SemanticVerificationResult result" where
  "verifyTxPlanSemantics load plan context =
     (let inputTotal = inputsTotal (pl_inputs plan);
          outputTotal = outputsTotal (pl_outputs plan);
          changeAmount = (case pl_change plan of None \<Rightarrow> 0 | Some c \<Rightarrow> to_amountSompi c);
          recomputedFee = inputTotal - outputTotal - changeAmount
      in bindE (massIssues load plan recomputedFee) (\<lambda>(recomputedMass, masses).
        let issues = environmentIssues plan @ addressIssues plan @ totalIssues inputTotal outputTotal changeAmount @ masses @
              addIssue (pl_estimatedFeeSompi plan \<noteq> recomputedFee) (issue ''FEE_MISMATCH'' Critical
                (''Fee mismatch: estimatedFeeSompi ('' @ int_str (pl_estimatedFeeSompi plan) @
                 '') does not match input-output delta ('' @ int_str recomputedFee @ '')'')) @
              concat (mapi outputIssues (pl_outputs plan)) @ changeIssues (pl_change plan) @
              duplicateIssues 0 [] (pl_inputs plan) @
              (case vc_utxoContext context of None \<Rightarrow> [] | Some us \<Rightarrow> concat (mapi (contextIssues us) (pl_inputs plan))) @
              changeAddressIssues (vc_expectedChangeAddress context) (pl_change plan)
        in Inr \<lparr>sv_ok = issuesOk issues, sv_issues = issues, sv_recomputedFeeSompi = recomputedFee,
             sv_recomputedMass = recomputedMass, sv_inputTotalSompi = inputTotal, sv_outputTotalSompi = outputTotal,
             sv_changeAmountSompi = changeAmount\<rparr>))"

subsection \<open>Signed transactions and receipts\<close>

text \<open>\<open>a !== b\<close> for values that are strings or absent on the side of the plan.\<close>

definition differs_from :: "json \<Rightarrow> string option \<Rightarrow> bool" where
  "differs_from v p \<longleftrightarrow> (case p of None \<Rightarrow> v \<noteq> JUndefined | Some s \<Rightarrow> v \<noteq> JStr s)"

definition opt_text :: "string option \<Rightarrow> string" where
  "opt_text o' = (case o' of None \<Rightarrow> ''undefined'' | Some s \<Rightarrow> s)"

definition planBindingIssues :: "json \<Rightarrow> ExtendedPlan \<Rightarrow> Issue list result" where
  "planBindingIssues signed plan =
     bindE (case ep_amountSompi plan of
         None \<Rightarrow> Inr []
       | Some a \<Rightarrow>
           if a = [] then Inr []
           else bindE (json_bigE (jget signed ''amountSompi'')) (\<lambda>s. bindE (bigE a) (\<lambda>p.
             Inr (addIssue (s \<noteq> p) (issue ''IMMUTABLE_FIELD_MUTATION'' Critical
               (''Security violation: amountSompi changed from '' @ a @ '' to '' @ template_text (jget signed ''amountSompi'') @ '' after signing''))))))
       (\<lambda>amounts. Inr (
          addIssue (differs_from (jget signed ''sourcePlanId'') (ep_planId plan) \<and> differs_from (jget signed ''sourcePlanId'') (ep_contentHash plan))
            (issue ''PLAN_ID_MISMATCH'' Critical (''Security violation: sourcePlanId mismatch. Signed sourcePlanId is '' @
               template_text (jget signed ''sourcePlanId'') @ '', but plan is '' @ opt_text (ep_planId plan))) @
          amounts @
          addIssue (differs_from (jget signed ''networkId'') (ep_networkId plan)) (issue ''NETWORK_MISMATCH'' Critical
            (''Security violation: networkId changed from '' @ opt_text (ep_networkId plan) @ '' to '' @
             template_text (jget signed ''networkId'') @ '' after signing''))))"

definition verifySignedTxSemantics :: "json \<Rightarrow> ExtendedPlan option \<Rightarrow> (bool \<times> Issue list) result" where
  "verifySignedTxSemantics signed plan =
     bindE (case plan of
         Some p \<Rightarrow> planBindingIssues signed p
       | None \<Rightarrow> Inr [issue ''PLAN_UNAVAILABLE_FOR_LINEAGE_CHECK'' Warning
           ''Source plan is not available in the workspace; skipping lineage check''])
       (\<lambda>bindings.
         let issues = bindings @ addIssue (\<not> truthy (jget (jget signed ''signedTransaction'') ''payload''))
               (issue ''MISSING_PAYLOAD'' Error ''Signed transaction is missing its raw payload'')
         in Inr (issuesOk issues, issues))"

definition verifyTxReceiptSemantics :: "json \<Rightarrow> bool \<times> Issue list" where
  "verifyTxReceiptSemantics receipt =
     (let issues =
         addIssue (jget receipt ''status'' = JStr ''accepted'' \<and> \<not> truthy (jget receipt ''txId''))
           (issue ''MISSING_TXID'' Error ''Accepted receipt is missing transaction ID'') @
         addIssue ((jget receipt ''mode'' = JStr ''simulator'' \<or> jget receipt ''mode'' = JStr ''simulated'') \<and> \<not> truthy (jget receipt ''tracePath''))
           (issue ''MISSING_TRACE'' Warning ''Simulated receipt is missing trace path'')
      in (issuesOk issues, issues))"

end
