(* ===== verification/HK_PaymentProps.thy ===== *)
theory HK_PaymentProps
  imports HK_PlanVerify
begin

text \<open>
  What a payment plan guarantees: value is conserved, the fee covers what the SDK asks for the
  transaction as built, the change is above the dust threshold, the inputs are among the mature
  candidates; a plan that passes out of the planner passes the verifier; the planner finds a plan
  whenever the candidates can pay, and the plan does not depend on the order they are listed in.

  The selection loop is verified once, in the locales \<open>fee_quotes\<close> and \<open>fee_quotes_total\<close>, against an abstract
  price of a candidate transaction; the planner's \<open>feeFor\<close> is their instance.
\<close>

subsection \<open>Sums and orders\<close>

lemma inputsTotal_eq: "inputsTotal us = (\<Sum>u\<leftarrow>us. ux_amountSompi u)"
proof -
  have "foldl (\<lambda>s u. s + ux_amountSompi u) a us = a + (\<Sum>u\<leftarrow>us. ux_amountSompi u)" for a
    by (induction us arbitrary: a) simp_all
  then show ?thesis by (simp add: inputsTotal_def)
qed

lemma outputsTotal_eq: "outputsTotal xs = (\<Sum>x\<leftarrow>xs. to_amountSompi x)"
proof -
  have "foldl (\<lambda>s x. s + to_amountSompi x) a xs = a + (\<Sum>x\<leftarrow>xs. to_amountSompi x)" for a
    by (induction xs arbitrary: a) simp_all
  then show ?thesis by (simp add: outputsTotal_def)
qed

lemma inputsTotal_append [simp]: "inputsTotal (xs @ ys) = inputsTotal xs + inputsTotal ys"
  by (simp add: inputsTotal_eq)

lemma inputsTotal_simps [simp]: "inputsTotal [] = 0" "inputsTotal (u # us) = ux_amountSompi u + inputsTotal us"
  by (simp_all add: inputsTotal_eq)

lemma inputsTotal_js_sort [simp]: "inputsTotal (js_sort c us) = inputsTotal us"
  unfolding inputsTotal_eq by (rule sum_list_mset_cong) simp

lemma outputsTotal_js_sort [simp]: "outputsTotal (js_sort c us) = outputsTotal us"
  unfolding outputsTotal_eq by (rule sum_list_mset_cong) simp

lemma js_sort_cong: "(\<And>x y. x \<in> set xs \<Longrightarrow> y \<in> set xs \<Longrightarrow> c x y = d x y) \<Longrightarrow> js_sort c xs = js_sort d xs"
proof (induction xs)
  case (Cons x xs)
  have "insert_by c x ys = insert_by d x ys" if "set ys \<subseteq> set xs" for ys
    using that Cons.prems by (induction ys) auto
  moreover have "js_sort c xs = js_sort d xs" using Cons by simp
  ultimately show ?case by simp
qed simp

text \<open>On outpoints with a numeric index the order of inputs is the one of this key.\<close>

definition input_key :: "Utxo \<Rightarrow> int \<times> string \<times> int" where
  "input_key u = (ux_amountSompi u, op_transactionId (ux_outpoint u), case op_index (ux_outpoint u) of None \<Rightarrow> 0 | Some i \<Rightarrow> i)"

definition compareKeyedInputs :: "Utxo \<Rightarrow> Utxo \<Rightarrow> int" where
  "compareKeyedInputs a b = (if input_key a < input_key b then -1 else if input_key b < input_key a then 1 else 0)"

definition numbered :: "Utxo list \<Rightarrow> bool" where
  "numbered us \<longleftrightarrow> list_all (\<lambda>u. op_index (ux_outpoint u) \<noteq> None) us"

interpretation input_order: keyed_comparator compareKeyedInputs input_key
  by unfold_locales (simp add: compareKeyedInputs_def)

interpretation output_order: keyed_comparator compareTxOutputs "\<lambda>x. (to_amountSompi x, to_address x)"
  by unfold_locales (auto simp: compareTxOutputs_def less_prod_def)

lemma compareTxInputs_keyed:
  "op_index (ux_outpoint a) \<noteq> None \<Longrightarrow> op_index (ux_outpoint b) \<noteq> None \<Longrightarrow> compareTxInputs a b = compareKeyedInputs a b"
  by (auto simp: compareTxInputs_def compareKeyedInputs_def input_key_def num_less_def less_prod_def)

lemma sort_inputs_keyed: "numbered us \<Longrightarrow> js_sort compareTxInputs us = js_sort compareKeyedInputs us"
  by (rule js_sort_cong) (simp add: numbered_def list_all_iff compareTxInputs_keyed)

lemma numbered_append: "numbered (xs @ ys) \<longleftrightarrow> numbered xs \<and> numbered ys"
  by (simp add: numbered_def)

lemma numbered_js_sort [simp]: "numbered (js_sort c us) = numbered us"
  by (simp add: numbered_def list_all_iff)

lemma sort_inputs_prefix:
  assumes "js_sort compareTxInputs us = xs @ ys" "numbered us"
  shows "js_sort compareTxInputs xs = xs"
proof -
  have "numbered (xs @ ys)" using assms by (metis numbered_js_sort)
  then have n: "numbered xs" by (simp add: numbered_append)
  have "sorted_wrt (\<lambda>x y. compareKeyedInputs x y \<le> 0) (xs @ ys)"
    using input_order.js_sort_sorted [of us] assms by (simp add: sort_inputs_keyed)
  then have "js_sort compareKeyedInputs xs = xs" by (intro input_order.js_sort_id) (simp add: sorted_wrt_append)
  then show ?thesis by (simp add: sort_inputs_keyed n)
qed

subsection \<open>The selection loop against an abstract price\<close>

text \<open>\<open>price sel change\<close> is the mass and the required fee of the transaction that spends \<open>sel\<close> and returns
  \<open>change\<close>.\<close>

locale fee_quotes =
  fixes quoteFor :: "Utxo list \<Rightarrow> quoter" and price :: "Utxo list \<Rightarrow> int option \<Rightarrow> (int \<times> int) option"
  assumes quote_price: "quoteFor sel change ns = Inr (Some r, ns') \<Longrightarrow> price sel change = Some r"
begin

definition covers :: "Utxo list \<Rightarrow> chosen \<Rightarrow> bool" where
  "covers sel c \<longleftrightarrow> (\<exists>required \<le> ch_fee c. price sel (ch_change c) = Some (ch_mass c, required))"

lemma settle_covers:
  "settleFee (quoteFor sel) n surplus fee ns = Inr (Some (m, f, c), ns') \<Longrightarrow>
     c = surplus - f \<and> DUST_THRESHOLD_SOMPI \<le> c \<and> covers sel \<lparr>ch_mass = m, ch_fee = f, ch_change = Some c\<rparr>"
proof (induction n arbitrary: fee ns)
  case (Suc n)
  show ?case
  proof (cases "surplus - fee < DUST_THRESHOLD_SOMPI")
    case True
    then show ?thesis using Suc.prems by simp
  next
    case False
    then obtain required ns1 where q: "quoteFor sel (Some (surplus - fee)) ns = Inr (required, ns1)"
      using Suc.prems by (auto simp: Let_def)
    show ?thesis
    proof (cases required)
      case None
      then show ?thesis using Suc.prems q False by (simp add: Let_def)
    next
      case (Some r)
      obtain mass rf where r: "r = (mass, rf)" by fastforce
      show ?thesis
      proof (cases "rf \<le> fee")
        case True
        then show ?thesis using Suc.prems q False Some r quote_price [of sel "Some (surplus - fee)" ns] by (auto simp: Let_def covers_def)
      next
        case not: False
        have "settleFee (quoteFor sel) n surplus rf ns1 = Inr (Some (m, f, c), ns')"
          using Suc.prems q False Some r not by (simp add: Let_def)
        then show ?thesis by (rule Suc.IH)
      qed
    qed
  qed
qed simp

lemma withChange_covers:
  assumes "withChange (quoteFor sel) surplus ns = Inr (Some (m, f, c), ns')"
  shows "c = surplus - f \<and> DUST_THRESHOLD_SOMPI \<le> c \<and> covers sel \<lparr>ch_mass = m, ch_fee = f, ch_change = Some c\<rparr>"
proof -
  obtain fee ns1 where "settleFee (quoteFor sel) 8 surplus fee ns1 = Inr (Some (m, f, c), ns')"
    using assms by (auto simp: withChange_def split: if_splits option.splits)
  then show ?thesis by (rule settle_covers)
qed

lemma attempt_covers:
  assumes "attempt (quoteFor sel) surplus p = Inr (Some c, p')"
  shows "ch_fee c + (case ch_change c of None \<Rightarrow> 0 | Some a \<Rightarrow> a) = surplus"
    and "covers sel c" and "\<forall>a. ch_change c = Some a \<longrightarrow> DUST_THRESHOLD_SOMPI \<le> a"
proof -
  obtain settled ns where w: "withChange (quoteFor sel) surplus (pn_nonStandard p) = Inr (settled, ns)"
    using assms by (auto simp: attempt_def)
  have "ch_fee c + (case ch_change c of None \<Rightarrow> 0 | Some a \<Rightarrow> a) = surplus \<and> covers sel c \<and>
    (\<forall>a. ch_change c = Some a \<longrightarrow> DUST_THRESHOLD_SOMPI \<le> a)"
  proof (cases settled)
    case (Some s)
    obtain m f ch where s: "s = (m, f, ch)" by (cases s) auto
    then have "c = \<lparr>ch_mass = m, ch_fee = f, ch_change = Some ch\<rparr>" using assms w Some by (simp add: attempt_def)
    then show ?thesis using withChange_covers [OF w [unfolded Some s]] by auto
  next
    case None
    then obtain r ns' where q: "quoteFor sel None ns = Inr (Some r, ns')"
      using assms w by (auto simp: attempt_def split: option.splits)
    obtain m f where r: "r = (m, f)" by fastforce
    have "f \<le> surplus" "c = \<lparr>ch_mass = m, ch_fee = surplus, ch_change = None\<rparr>"
      using assms w None q r by (auto simp: attempt_def split: if_splits)
    then show ?thesis using quote_price [OF q] r by (auto simp: covers_def)
  qed
  then show "ch_fee c + (case ch_change c of None \<Rightarrow> 0 | Some a \<Rightarrow> a) = surplus"
    "covers sel c" "\<forall>a. ch_change c = Some a \<longrightarrow> DUST_THRESHOLD_SOMPI \<le> a" by auto
qed

lemma select_covers:
  "selectInputs quoteFor target us sel amount p = Inr (sel', c) \<Longrightarrow>
     \<exists>taken rest. us = taken @ rest \<and> taken \<noteq> [] \<and> sel' = sel @ taken \<and>
       amount + inputsTotal taken = target + ch_fee c + (case ch_change c of None \<Rightarrow> 0 | Some a \<Rightarrow> a) \<and>
       covers sel' c \<and> (\<forall>a. ch_change c = Some a \<longrightarrow> DUST_THRESHOLD_SOMPI \<le> a)"
proof (induction us arbitrary: sel amount p)
  case Nil
  then show ?case by (auto split: option.splits if_splits)
next
  case (Cons u us)
  let ?goal = "\<exists>taken rest. u # us = taken @ rest \<and> taken \<noteq> [] \<and> sel' = sel @ taken \<and>
       amount + inputsTotal taken = target + ch_fee c + (case ch_change c of None \<Rightarrow> 0 | Some a \<Rightarrow> a) \<and>
       covers sel' c \<and> (\<forall>a. ch_change c = Some a \<longrightarrow> DUST_THRESHOLD_SOMPI \<le> a)"
  have later: ?goal if step: "selectInputs quoteFor target us (sel @ [u]) (amount + ux_amountSompi u) p' = Inr (sel', c)" for p'
  proof -
    obtain taken rest where t: "us = taken @ rest" "sel' = sel @ [u] @ taken"
      "amount + ux_amountSompi u + inputsTotal taken = target + ch_fee c + (case ch_change c of None \<Rightarrow> 0 | Some a \<Rightarrow> a)"
      "covers sel' c" "\<forall>a. ch_change c = Some a \<longrightarrow> DUST_THRESHOLD_SOMPI \<le> a"
      using Cons.IH [OF step] by auto
    then show ?thesis by (intro exI [of _ "u # taken"] exI [of _ rest]) simp
  qed
  show ?case
  proof (cases "amount + ux_amountSompi u < target")
    case True
    then show ?thesis using Cons.prems by (intro later) simp
  next
    case False
    then obtain found p' where a: "attempt (quoteFor (sel @ [u])) (amount + ux_amountSompi u - target) p = Inr (found, p')"
      using Cons.prems by (auto simp: Let_def)
    show ?thesis
    proof (cases found)
      case None
      then show ?thesis using Cons.prems a False by (intro later) (simp add: Let_def)
    next
      case (Some c')
      then have "sel' = sel @ [u]" "c' = c" using Cons.prems a False by (simp_all add: Let_def)
      then show ?thesis using attempt_covers [OF a [unfolded Some]]
        by (intro exI [of _ "[u]"] exI [of _ us]) simp
    qed
  qed
qed

end

text \<open>\<open>answers sel surplus\<close>: the transactions that spend \<open>sel\<close> and return no change, or a change between the dust threshold and
  \<open>surplus\<close>, are quoted, and at no negative fee. Where this holds of every selection the loop tries, it finds one as soon
  as all the candidates together can pay.\<close>

definition change_within :: "int \<Rightarrow> int option \<Rightarrow> bool" where
  "change_within surplus change \<longleftrightarrow> (case change of None \<Rightarrow> True | Some c \<Rightarrow> DUST_THRESHOLD_SOMPI \<le> c \<and> c \<le> surplus)"

locale fee_quotes_total = fee_quotes +
  fixes answers :: "Utxo list \<Rightarrow> int \<Rightarrow> bool"
  assumes quote_total: "answers sel surplus \<Longrightarrow> change_within surplus change \<Longrightarrow> \<exists>ns'. quoteFor sel change ns = Inr (price sel change, ns')"
    and price_nonneg: "answers sel surplus \<Longrightarrow> change_within surplus change \<Longrightarrow> price sel change = Some (m, f) \<Longrightarrow> 0 \<le> f"
begin

lemma settle_total:
  assumes "answers sel surplus" "0 \<le> fee"
  shows "\<exists>r ns'. settleFee (quoteFor sel) n surplus fee ns = Inr (r, ns')"
  using assms(2)
proof (induction n arbitrary: fee ns)
  case (Suc n)
  show ?case
  proof (cases "surplus - fee < DUST_THRESHOLD_SOMPI")
    case False
    then have w: "change_within surplus (Some (surplus - fee))" using Suc.prems by (simp add: change_within_def)
    obtain ns1 where q: "quoteFor sel (Some (surplus - fee)) ns = Inr (price sel (Some (surplus - fee)), ns1)"
      using quote_total [OF assms(1) w] by blast
    show ?thesis
      using Suc.IH [of _ ns1] price_nonneg [OF assms(1) w] q by (cases "price sel (Some (surplus - fee))") (auto simp: Let_def)
  qed simp
qed simp

lemma attempt_total:
  assumes "answers sel surplus"
  shows "\<exists>found p'. attempt (quoteFor sel) surplus p = Inr (found, p') \<and>
    (\<forall>m f. price sel None = Some (m, f) \<longrightarrow> f \<le> surplus \<longrightarrow> found \<noteq> None)"
proof -
  have "\<exists>r ns2. withChange (quoteFor sel) surplus (pn_nonStandard p) = Inr (r, ns2)"
  proof (cases "surplus \<ge> DUST_THRESHOLD_SOMPI")
    case True
    then have w: "change_within surplus (Some surplus)" by (simp add: change_within_def)
    obtain ns1 where q: "quoteFor sel (Some surplus) (pn_nonStandard p) = Inr (price sel (Some surplus), ns1)"
      using quote_total [OF assms w] by blast
    show ?thesis using settle_total [OF assms, of _ 8 ns1] price_nonneg [OF assms w] q by (cases "price sel (Some surplus)") (auto simp: withChange_def)
  qed (simp add: withChange_def)
  then obtain r ns2 where w: "withChange (quoteFor sel) surplus (pn_nonStandard p) = Inr (r, ns2)" by blast
  obtain ns3 where n: "quoteFor sel None ns2 = Inr (price sel None, ns3)"
    using quote_total [OF assms, of None] by (auto simp: change_within_def)
  show ?thesis
    by (cases r; cases "price sel None") (auto simp: attempt_def w n)
qed

lemma select_total:
  assumes "\<And>xs ys. us = xs @ ys \<Longrightarrow> xs \<noteq> [] \<Longrightarrow> answers (sel @ xs) (amount + inputsTotal xs - target)" "us \<noteq> []"
    "price (sel @ us) None = Some (m, f)" "target + f \<le> amount + inputsTotal us" "0 \<le> f"
  shows "\<exists>sel' c. selectInputs quoteFor target us sel amount p = Inr (sel', c)"
  using assms(1-4)
proof (induction us arbitrary: sel amount p)
  case (Cons u us)
  have k: "answers (sel @ [u]) (amount + ux_amountSompi u - target)" using Cons.prems(1) [of "[u]" us] by simp
  have later: "\<exists>sel' c. selectInputs quoteFor target us (sel @ [u]) (amount + ux_amountSompi u) p' = Inr (sel', c)" if more: "us \<noteq> []" for p'
  proof (rule Cons.IH)
    fix xs ys
    assume "us = xs @ ys"
    then show "answers ((sel @ [u]) @ xs) (amount + ux_amountSompi u + inputsTotal xs - target)"
      using Cons.prems(1) [of "u # xs" ys] by (simp add: add.assoc)
  qed (use Cons.prems more in \<open>auto simp: add.assoc\<close>)
  obtain found p' where a: "attempt (quoteFor (sel @ [u])) (amount + ux_amountSompi u - target) p = Inr (found, p')"
    and last: "\<forall>m f. price (sel @ [u]) None = Some (m, f) \<longrightarrow> f \<le> amount + ux_amountSompi u - target \<longrightarrow> found \<noteq> None"
    using attempt_total [OF k, of p] by auto
  show ?case
  proof (cases "us = []")
    case True
    then have "found \<noteq> None" using last Cons.prems(3,4) by auto
    moreover have "\<not> amount + ux_amountSompi u < target" using Cons.prems(4) True assms(5) by simp
    ultimately show ?thesis using a by auto
  next
    case False
    show ?thesis using later [OF False] a by (cases found) (auto simp: Let_def)
  qed
qed simp

end

text \<open>No prefix of the candidates reaches the target: the loop never quotes.\<close>

lemma select_insufficient:
  "\<lbrakk>list_all (\<lambda>u. 0 \<le> ux_amountSompi u) us; amount + inputsTotal us < target; pn_nonStandard p = None\<rbrakk> \<Longrightarrow>
    selectInputs quoteFor target us sel amount p = Inl ''Insufficient funds for transaction amount plus estimated fee.''"
proof (induction us arbitrary: sel amount)
  case (Cons u us)
  have "0 \<le> inputsTotal us" using Cons.prems(1) by (auto simp: inputsTotal_eq list_all_iff intro!: sum_list_nonneg)
  then show ?case using Cons by (simp add: Let_def add.assoc)
qed simp

subsection \<open>The planner's quotes\<close>

definition planPrice :: "Sdk result \<Rightarrow> TxBuildRequest \<Rightarrow> TxOutput list \<Rightarrow> string \<Rightarrow> Utxo list \<Rightarrow> int option \<Rightarrow> (int \<times> int) option" where
  "planPrice load rq outputs changeAddress inputs change =
     (case measureUpstreamMass load (planMassInput rq outputs changeAddress inputs change) of
        Inl _ \<Rightarrow> None
      | Inr r \<Rightarrow>
          (case ur_minimumFeeSompi r of
             None \<Rightarrow> None
           | Some m \<Rightarrow>
               (case rq_feeOverrideSompi rq of
                  None \<Rightarrow> Some (ur_mass r, max (ur_mass r * rq_feeRateSompiPerMass rq) m)
                | Some f \<Rightarrow> if m \<le> f then Some (ur_mass r, f) else None)))"

interpretation planner: fee_quotes "feeFor load rq outputs changeAddress" "planPrice load rq outputs changeAddress"
proof unfold_locales
  fix sel change ns r ns'
  assume q: "feeFor load rq outputs changeAddress sel change ns = Inr (Some r, ns')"
  then obtain u where u: "calculateUpstreamMass load (planMassInput rq outputs changeAddress sel change) = Inr u"
    by (auto simp: feeFor_def split: sum.splits MassError.splits)
  then have m: "measureUpstreamMass load (planMassInput rq outputs changeAddress sel change) = Inr u" by (simp add: calculateUpstreamMass_ok)
  show "planPrice load rq outputs changeAddress sel change = Some r"
    using q u by (auto simp: feeFor_def planPrice_def m Let_def max_def split: option.splits if_splits)
qed

text \<open>What a plan needs of the SDK: it measures the transactions the planner may propose for a selection, those without change and
  those whose change is at least the dust threshold and no more than the selection leaves over the amount; the minimum fee
  it answers is not negative, and a fee override pays it.\<close>

definition sdk_measures :: "Sdk result \<Rightarrow> TxBuildRequest \<Rightarrow> TxOutput list \<Rightarrow> string \<Rightarrow> Utxo list \<Rightarrow> int \<Rightarrow> bool" where
  "sdk_measures load rq outputs changeAddress sel surplus \<longleftrightarrow>
     (\<forall>change. change_within surplus change \<longrightarrow>
       (\<exists>r. measureUpstreamMass load (planMassInput rq outputs changeAddress sel change) = Inr r \<and>
         (\<forall>m. ur_minimumFeeSompi r = Some m \<longrightarrow> 0 \<le> m \<and> (\<forall>f. rq_feeOverrideSompi rq = Some f \<longrightarrow> m \<le> f))))"

interpretation planner_total: fee_quotes_total "feeFor load rq outputs changeAddress" "planPrice load rq outputs changeAddress"
  "sdk_measures load rq outputs changeAddress"
proof unfold_locales
  fix sel surplus change ns
  assume k: "sdk_measures load rq outputs changeAddress sel surplus" and w: "change_within surplus change"
  obtain r where r: "measureUpstreamMass load (planMassInput rq outputs changeAddress sel change) = Inr r"
      and f: "\<forall>m. ur_minimumFeeSompi r = Some m \<longrightarrow> 0 \<le> m \<and> (\<forall>f. rq_feeOverrideSompi rq = Some f \<longrightarrow> m \<le> f)"
    using k w unfolding sdk_measures_def by blast
  show "\<exists>ns'. feeFor load rq outputs changeAddress sel change ns = Inr (planPrice load rq outputs changeAddress sel change, ns')"
    using measure_standard [OF r] f
    by (auto simp: feeFor_def planPrice_def calculateUpstreamMass_def r Let_def max_def split: option.splits)
  fix m fee
  assume "planPrice load rq outputs changeAddress sel change = Some (m, fee)"
  then show "0 \<le> fee" using f r by (auto simp: planPrice_def split: option.splits if_splits)
qed

subsection \<open>Plans\<close>

definition changeOf :: "TxPlan \<Rightarrow> int" where
  "changeOf plan = (case pl_change plan of None \<Rightarrow> 0 | Some c \<Rightarrow> to_amountSompi c)"

text \<open>What the planner returns, in terms of the candidates it selected.\<close>

lemma buildPaymentPlan_cases:
  assumes "buildPaymentPlan load rq = Inr plan"
  obtains maturity taken rest c where "rq_coinbaseMaturity rq = Some maturity" "0 < outputsTotal (rq_outputs rq)"
    "js_sort compareTxInputs (candidateUtxos rq maturity) = taken @ rest" "taken \<noteq> []"
    "plan = planOf rq (js_sort compareTxOutputs (rq_outputs rq)) taken c"
    "inputsTotal taken = outputsTotal (rq_outputs rq) + ch_fee c + (case ch_change c of None \<Rightarrow> 0 | Some a \<Rightarrow> a)"
    "\<exists>required \<le> ch_fee c. planPrice load rq (js_sort compareTxOutputs (rq_outputs rq)) (changeAddressOf rq) taken (ch_change c) = Some (ch_mass c, required)"
    "\<forall>a. ch_change c = Some a \<longrightarrow> DUST_THRESHOLD_SOMPI \<le> a"
proof -
  let ?outs = "js_sort compareTxOutputs (rq_outputs rq)"
  obtain maturity where m: "rq_coinbaseMaturity rq = Some maturity" and pos: "0 < outputsTotal (rq_outputs rq)"
    using assms by (auto simp: buildPaymentPlan_def Let_def split: if_splits option.splits)
  obtain sel c where s: "selectInputs (feeFor load rq ?outs (changeAddressOf rq)) (outputsTotal ?outs)
        (js_sort compareTxInputs (candidateUtxos rq maturity)) [] 0 \<lparr>pn_nonStandard = None, pn_lastAttemptNonStandard = False\<rparr> = Inr (sel, c)"
      "plan = planOf rq ?outs sel c"
    using assms m by (auto simp: buildPaymentPlan_def Let_def split: if_splits)
  from planner.select_covers [OF s(1)] obtain taken rest where t: "js_sort compareTxInputs (candidateUtxos rq maturity) = taken @ rest"
      "taken \<noteq> []" "sel = taken" "inputsTotal taken = outputsTotal ?outs + ch_fee c + (case ch_change c of None \<Rightarrow> 0 | Some a \<Rightarrow> a)"
      "planner.covers load rq ?outs (changeAddressOf rq) sel c" "\<forall>a. ch_change c = Some a \<longrightarrow> DUST_THRESHOLD_SOMPI \<le> a" by auto
  have cov: "\<exists>required \<le> ch_fee c. planPrice load rq ?outs (changeAddressOf rq) taken (ch_change c) = Some (ch_mass c, required)"
    using t(3,5) by (simp add: planner.covers_def)
  show ?thesis
    by (rule that [OF m pos t(1,2) _ _ cov t(6)]) (use s(2) t(3,4) in simp_all)
qed

lemma candidates_subset: "set (candidateUtxos rq maturity) \<subseteq> set (rq_availableUtxos rq)"
  by (auto simp: candidateUtxos_def split: option.splits)

lemma candidates_mset: "mset (candidateUtxos rq maturity) \<subseteq># mset (rq_availableUtxos rq)"
  by (auto simp: candidateUtxos_def split: option.splits)

lemma taken_mset:
  assumes "js_sort c us = taken @ rest"
  shows "mset taken \<subseteq># mset us"
proof -
  have "mset us = mset taken + mset rest" by (metis assms mset_append mset_js_sort)
  then show ?thesis by simp
qed

lemma planPrice_measured:
  assumes "planPrice load rq outs ca sel change = Some (m, required)"
  shows "\<exists>r minimum. measureUpstreamMass load (planMassInput rq outs ca sel change) = Inr r \<and> ur_mass r = m \<and>
    ur_minimumFeeSompi r = Some minimum \<and> minimum \<le> required"
  using assms by (auto simp: planPrice_def split: sum.splits option.splits if_splits)


text \<open>The parts of a plan whose candidates have numeric outpoint indices: its inputs are a prefix of the
  sorted candidates, already in canonical order.\<close>

lemma plan_parts:
  assumes "buildPaymentPlan load rq = Inr plan" and "numbered (rq_availableUtxos rq)"
  obtains maturity where "rq_coinbaseMaturity rq = Some maturity" "pl_inputs plan \<noteq> []" "0 < outputsTotal (rq_outputs rq)"
    "mset (pl_inputs plan) \<subseteq># mset (candidateUtxos rq maturity)" "pl_outputs plan = js_sort compareTxOutputs (rq_outputs rq)"
    "inputsTotal (pl_inputs plan) = outputsTotal (pl_outputs plan) + changeOf plan + pl_estimatedFeeSompi plan"
    "\<forall>c. pl_change plan = Some c \<longrightarrow> to_address c = changeAddressOf rq \<and> DUST_THRESHOLD_SOMPI \<le> to_amountSompi c"
    "\<exists>r minimum. measureUpstreamMass load (planMassInput rq (pl_outputs plan) (changeAddressOf rq) (pl_inputs plan)
           (map_option to_amountSompi (pl_change plan))) = Inr r \<and> ur_mass r = pl_estimatedMass plan \<and> ur_standard r \<and>
         ur_minimumFeeSompi r = Some minimum \<and> minimum \<le> pl_estimatedFeeSompi plan"
proof -
  obtain maturity taken rest c where p: "rq_coinbaseMaturity rq = Some maturity" "0 < outputsTotal (rq_outputs rq)"
    "js_sort compareTxInputs (candidateUtxos rq maturity) = taken @ rest" "taken \<noteq> []"
    "plan = planOf rq (js_sort compareTxOutputs (rq_outputs rq)) taken c"
    "inputsTotal taken = outputsTotal (rq_outputs rq) + ch_fee c + (case ch_change c of None \<Rightarrow> 0 | Some a \<Rightarrow> a)"
    "\<exists>required \<le> ch_fee c. planPrice load rq (js_sort compareTxOutputs (rq_outputs rq)) (changeAddressOf rq) taken (ch_change c) = Some (ch_mass c, required)"
    "\<forall>a. ch_change c = Some a \<longrightarrow> DUST_THRESHOLD_SOMPI \<le> a"
    using buildPaymentPlan_cases [OF assms(1)] by metis
  have n: "numbered (candidateUtxos rq maturity)"
    using assms(2) candidates_subset [of rq maturity] by (auto simp: numbered_def list_all_iff)
  have sorted: "js_sort compareTxInputs taken = taken" using sort_inputs_prefix [OF p(3) n] .
  have fields: "pl_inputs plan = taken" "pl_outputs plan = js_sort compareTxOutputs (rq_outputs rq)" "pl_estimatedFeeSompi plan = ch_fee c"
      "pl_estimatedMass plan = ch_mass c" "map_option to_amountSompi (pl_change plan) = ch_change c"
    using p(5) sorted by (simp_all add: planOf_def split: option.splits)
  have balance: "inputsTotal (pl_inputs plan) = outputsTotal (pl_outputs plan) + changeOf plan + pl_estimatedFeeSompi plan"
    using p(5,6) fields by (simp add: changeOf_def planOf_def split: option.splits)
  have change: "\<forall>c. pl_change plan = Some c \<longrightarrow> to_address c = changeAddressOf rq \<and> DUST_THRESHOLD_SOMPI \<le> to_amountSompi c"
    using p(5,8) by (auto simp: planOf_def split: option.splits)
  obtain required where req: "required \<le> ch_fee c"
      "planPrice load rq (js_sort compareTxOutputs (rq_outputs rq)) (changeAddressOf rq) taken (ch_change c) = Some (ch_mass c, required)"
    using p(7) by blast
  have price: "\<exists>r minimum. measureUpstreamMass load (planMassInput rq (pl_outputs plan) (changeAddressOf rq) (pl_inputs plan)
           (map_option to_amountSompi (pl_change plan))) = Inr r \<and> ur_mass r = pl_estimatedMass plan \<and> ur_standard r \<and>
         ur_minimumFeeSompi r = Some minimum \<and> minimum \<le> pl_estimatedFeeSompi plan"
    unfolding fields using planPrice_measured [OF req(2)] req(1) measure_standard by fastforce
  show ?thesis
    by (rule that [OF p(1) _ p(2) _ fields(2) balance change price]) (use fields(1) p(4) taken_mset [OF p(3)] in simp_all)
qed

text \<open>C7: a payment plan conserves value and pays for itself. Whenever the planner returns a plan, the inputs
  equal outputs, change and fee; the outputs are those of the request; the inputs are candidates, each used
  at most as often as it is listed, and none is an immature coinbase output; change is never dust; and the
  SDK prices the transaction as built (inputs in the plan's order, change included) at the plan's mass, within
  the standard limit, with a minimum fee the plan's fee covers.\<close>

theorem payment_plan_sound:
  assumes "buildPaymentPlan load rq = Inr plan" and "numbered (rq_availableUtxos rq)"
  shows "(inputsTotal (pl_inputs plan) = outputsTotal (pl_outputs plan) + changeOf plan + pl_estimatedFeeSompi plan) \<and>
    (mset (pl_outputs plan) = mset (rq_outputs rq) \<and> mset (pl_inputs plan) \<subseteq># mset (rq_availableUtxos rq) \<and> pl_inputs plan \<noteq> []) \<and>
    (\<forall>u v m. u \<in> set (pl_inputs plan) \<longrightarrow> rq_virtualDaaScore rq = Some v \<longrightarrow> rq_coinbaseMaturity rq = Some m \<longrightarrow> matureUtxo v m u) \<and>
    (\<forall>c. pl_change plan = Some c \<longrightarrow> to_address c = changeAddressOf rq \<and> DUST_THRESHOLD_SOMPI \<le> to_amountSompi c) \<and>
    (\<exists>r minimum. measureUpstreamMass load (planMassInput rq (pl_outputs plan) (changeAddressOf rq) (pl_inputs plan)
           (map_option to_amountSompi (pl_change plan))) = Inr r \<and> ur_mass r = pl_estimatedMass plan \<and> ur_standard r \<and>
         ur_minimumFeeSompi r = Some minimum \<and> minimum \<le> pl_estimatedFeeSompi plan)"
proof -
  obtain maturity where p: "rq_coinbaseMaturity rq = Some maturity" "pl_inputs plan \<noteq> []"
      "mset (pl_inputs plan) \<subseteq># mset (candidateUtxos rq maturity)" "pl_outputs plan = js_sort compareTxOutputs (rq_outputs rq)"
    and facts: "inputsTotal (pl_inputs plan) = outputsTotal (pl_outputs plan) + changeOf plan + pl_estimatedFeeSompi plan"
      "\<forall>c. pl_change plan = Some c \<longrightarrow> to_address c = changeAddressOf rq \<and> DUST_THRESHOLD_SOMPI \<le> to_amountSompi c"
      "\<exists>r minimum. measureUpstreamMass load (planMassInput rq (pl_outputs plan) (changeAddressOf rq) (pl_inputs plan)
           (map_option to_amountSompi (pl_change plan))) = Inr r \<and> ur_mass r = pl_estimatedMass plan \<and> ur_standard r \<and>
         ur_minimumFeeSompi r = Some minimum \<and> minimum \<le> pl_estimatedFeeSompi plan"
    by (rule plan_parts [OF assms])
  have "mset (pl_outputs plan) = mset (rq_outputs rq) \<and> mset (pl_inputs plan) \<subseteq># mset (rq_availableUtxos rq) \<and> pl_inputs plan \<noteq> []"
    using p candidates_mset [of rq maturity] by (auto intro: subset_mset.order_trans)
  moreover have "set (pl_inputs plan) \<subseteq> set (candidateUtxos rq maturity)" using p(3) by (metis set_mset_mono set_mset_mset)
  then have "\<forall>u v m. u \<in> set (pl_inputs plan) \<longrightarrow> rq_virtualDaaScore rq = Some v \<longrightarrow> rq_coinbaseMaturity rq = Some m \<longrightarrow> matureUtxo v m u"
    using p(1) by (auto simp: candidateUtxos_def)
  ultimately show ?thesis using facts by (elim conjE) (intro conjI)
qed

text \<open>A concrete SDK: mass grows with inputs, outputs and payload; the fee is the mass; the limit is 100,000.\<close>

definition ex_sdk :: Sdk where
  "ex_sdk = \<lparr>sdk_validate = (\<lambda>a. False), sdk_payToAddressScript = (\<lambda>a. \<lparr>sc_version = 0, sc_script = []\<rparr>),
     sdk_mass = (\<lambda>n tx s. Inr (100 + 1000 * int (length (st_inputs tx)) + 400 * int (length (st_outputs tx)) + int (length (st_payload tx)))),
     sdk_fee = (\<lambda>n tx s. Inr (Some (100 + 1000 * int (length (st_inputs tx)) + 400 * int (length (st_outputs tx)) + int (length (st_payload tx))))),
     sdk_maximumStandardMass = 100000, sdk_version = ''2.0.1''\<rparr>"

definition ex_request :: TxBuildRequest where
  "ex_request = \<lparr>rq_fromAddress = ''kaspa:sim_alice'',
     rq_outputs = [\<lparr>to_address = ''kaspa:sim_bob'', to_amountSompi = 5000, to_scriptPublicKey = None, to_covenant = None\<rparr>],
     rq_availableUtxos = [createMockUtxo ''kaspa:sim_alice'' 9000 (Some 1), createMockUtxo ''kaspa:sim_alice'' 4000 (Some 0)],
     rq_feeRateSompiPerMass = 1, rq_changeAddress = None, rq_payloadBytes = None, rq_version = None, rq_computeBudget = None,
     rq_storageMass = None, rq_lane = None, rq_virtualDaaScore = None, rq_coinbaseMaturity = Some 100,
     rq_networkId = Some ''simnet'', rq_feeOverrideSompi = None\<rparr>"

lemma ex_request_plan: "case buildPaymentPlan (Inr ex_sdk) ex_request of
    Inr p \<Rightarrow> changeOf p = 5100 \<and> pl_estimatedFeeSompi p = 2900 \<and> length (pl_inputs p) = 2 | Inl _ \<Rightarrow> False"
  by code_simp

lemma ex_request_numbered: "numbered (rq_availableUtxos ex_request)"
  by code_simp

theorem payment_plan_sound_witness:
  "\<exists>plan. buildPaymentPlan (Inr ex_sdk) ex_request = Inr plan \<and> changeOf plan = 5100 \<and>
     inputsTotal (pl_inputs plan) = outputsTotal (pl_outputs plan) + 5100 + 2900"
proof -
  obtain plan where b: "buildPaymentPlan (Inr ex_sdk) ex_request = Inr plan" "changeOf plan = 5100" "pl_estimatedFeeSompi plan = 2900"
    using ex_request_plan by (auto split: sum.splits)
  then show ?thesis using payment_plan_sound [OF b(1) ex_request_numbered] by simp
qed


subsection \<open>The planner's plans pass the verifier\<close>

definition extendPlan :: "TxPlan \<Rightarrow> string option \<Rightarrow> string option \<Rightarrow> ExtendedPlan" where
  "extendPlan plan mode networkId = TxPlan.extend plan
     \<lparr>ep_mode = mode, ep_networkId = networkId, ep_planId = None, ep_contentHash = None, ep_amountSompi = None\<rparr>"

lemma extendPlan_simps [simp]:
  "pl_version (extendPlan p m n) = pl_version p" "pl_inputs (extendPlan p m n) = pl_inputs p"
  "pl_outputs (extendPlan p m n) = pl_outputs p" "pl_change (extendPlan p m n) = pl_change p"
  "pl_estimatedMass (extendPlan p m n) = pl_estimatedMass p" "pl_estimatedFeeSompi (extendPlan p m n) = pl_estimatedFeeSompi p"
  "ep_mode (extendPlan p m n) = m" "ep_networkId (extendPlan p m n) = n"
  by (simp_all add: extendPlan_def TxPlan.defs)

definition contextUtxo :: "Utxo \<Rightarrow> ContextUtxo" where
  "contextUtxo u = \<lparr>cu_address = ux_address u, cu_amountSompi = ux_amountSompi u, cu_outpoint = ux_outpoint u\<rparr>"

definition fullContext :: "TxBuildRequest \<Rightarrow> SemanticVerifyContext" where
  "fullContext rq = \<lparr>vc_utxoContext = Some (map contextUtxo (rq_availableUtxos rq)), vc_expectedChangeAddress = Some (changeAddressOf rq)\<rparr>"

text \<open>The SDK's minimum fees are not negative.\<close>

definition fees_nonneg :: "Sdk result \<Rightarrow> bool" where
  "fees_nonneg load \<longleftrightarrow> (\<forall>i r m. measureUpstreamMass load i = Inr r \<longrightarrow> ur_minimumFeeSompi r = Some m \<longrightarrow> 0 \<le> m)"

text \<open>A request whose plans the verifier has no objection to: no dust output, prefixed addresses, no outpoint
  listed twice, no payload.\<close>

definition request_ok :: "TxBuildRequest \<Rightarrow> bool" where
  "request_ok rq \<longleftrightarrow> rq_payloadBytes rq = None \<and> numbered (rq_availableUtxos rq) \<and>
     distinct (map (outpointId \<circ> ux_outpoint) (rq_availableUtxos rq)) \<and>
     list_all (\<lambda>u. CHR '':'' \<in> set (ux_address u)) (rq_availableUtxos rq) \<and>
     list_all (\<lambda>x. CHR '':'' \<in> set (to_address x) \<and> DUST_THRESHOLD_SOMPI \<le> to_amountSompi x) (rq_outputs rq)"

lemma addIssue_simps [simp]: "addIssue True i = [i]" "addIssue False i = []"
  by (simp_all add: addIssue_def)

lemma distinct_submset:
  assumes "mset xs \<subseteq># mset ys" "distinct ys"
  shows "distinct xs"
proof -
  obtain zs where "mset ys = mset (xs @ zs)" using assms(1) by (metis ex_mset mset_append mset_subset_eq_exists_conv)
  then show ?thesis using assms(2) by (metis distinct_append mset_eq_imp_distinct_iff)
qed

lemma concat_mapi_Nil: "(\<And>i x. x \<in> set xs \<Longrightarrow> f i x = []) \<Longrightarrow> concat (mapi f xs) = []"
  by (auto simp: mapi_def dest: set_zip_rightD)

lemma duplicateIssues_Nil:
  "distinct (map (outpointId \<circ> ux_outpoint) us) \<Longrightarrow> set seen \<inter> (outpointId \<circ> ux_outpoint) ` set us = {} \<Longrightarrow> duplicateIssues i seen us = []"
  by (induction us arbitrary: i seen) (auto simp: Let_def)

lemma contextIssues_Nil:
  assumes "distinct (map (outpointId \<circ> ux_outpoint) us)" "u \<in> set us" "op_index (ux_outpoint u) \<noteq> None"
  shows "contextIssues (map contextUtxo us) i u = []"
proof -
  have same: "v = u" if v: "v \<in> set us" "sameOutpoint (ux_outpoint v) (ux_outpoint u)" for v
    using assms(1,2) v by (auto simp: sameOutpoint_def outpointId_def distinct_map inj_on_def)
  have "List.find (\<lambda>c. sameOutpoint (cu_outpoint c) (ux_outpoint u)) (map contextUtxo us) \<noteq> None"
    using assms(2,3) by (auto simp: find_None_iff contextUtxo_def sameOutpoint_def)
  then obtain c where c: "List.find (\<lambda>c. sameOutpoint (cu_outpoint c) (ux_outpoint u)) (map contextUtxo us) = Some c" by auto
  then have "c \<in> set (map contextUtxo us)" "sameOutpoint (cu_outpoint c) (ux_outpoint u)"
    using find_Some_iff [of "\<lambda>c. sameOutpoint (cu_outpoint c) (ux_outpoint u)" "map contextUtxo us" c] by (metis nth_mem)+
  then obtain v where v: "v \<in> set us" "c = contextUtxo v" "sameOutpoint (cu_outpoint c) (ux_outpoint u)" by auto
  have "c = contextUtxo u" using same [OF v(1)] v(2,3) by (simp add: contextUtxo_def)
  then show ?thesis by (simp add: contextIssues_def c contextUtxo_def)
qed

lemma verify_mass_input:
  assumes "rq_payloadBytes rq = None" "pl_version plan = (case rq_version rq of None \<Rightarrow> 0 | Some v \<Rightarrow> v)"
    "\<forall>c. pl_change plan = Some c \<longrightarrow> to_address c = ca"
  shows "measureUpstreamMass load (verifyMassInput (extendPlan plan mode (rq_networkId rq))) =
    measureUpstreamMass load (planMassInput rq (pl_outputs plan) ca (pl_inputs plan) (map_option to_amountSompi (pl_change plan)))"
  using assms by (cases "pl_change plan") (simp_all add: measureUpstreamMass_def verifyMassInput_def planMassInput_def)

lemma plan_version: "buildPaymentPlan load rq = Inr plan \<Longrightarrow> pl_version plan = (case rq_version rq of None \<Rightarrow> 0 | Some v \<Rightarrow> v)"
  by (auto simp: buildPaymentPlan_def Let_def planOf_def split: if_splits option.splits)

text \<open>C38: the planner and the verifier agree. For a request without dust outputs, payload or repeated outpoints, with
  prefixed addresses, and an SDK whose minimum fees are not negative, every plan the planner returns passes
  \<open>verifyTxPlanSemantics\<close> without a single issue, checked against the UTXOs and the change address of the request.\<close>

theorem payment_plan_verifies:
  assumes built: "buildPaymentPlan load rq = Inr plan" and ok: "request_ok rq" and fees: "fees_nonneg load"
    and env: "mode = Some ''simulator'' \<longrightarrow> rq_networkId rq = Some ''simnet''" "mode \<noteq> Some ''simulated''"
  shows "\<exists>r. verifyTxPlanSemantics load (extendPlan plan mode (rq_networkId rq)) (fullContext rq) = Inr r \<and> sv_ok r \<and> sv_issues r = [] \<and>
    sv_recomputedFeeSompi r = pl_estimatedFeeSompi plan \<and> sv_recomputedMass r = pl_estimatedMass plan"
proof -
  have n: "numbered (rq_availableUtxos rq)" using ok by (simp add: request_ok_def)
  obtain maturity r minimum where p: "pl_inputs plan \<noteq> []" "0 < outputsTotal (rq_outputs rq)"
      "mset (pl_inputs plan) \<subseteq># mset (candidateUtxos rq maturity)" "pl_outputs plan = js_sort compareTxOutputs (rq_outputs rq)"
      "inputsTotal (pl_inputs plan) = outputsTotal (pl_outputs plan) + changeOf plan + pl_estimatedFeeSompi plan"
      and change: "\<forall>c. pl_change plan = Some c \<longrightarrow> to_address c = changeAddressOf rq \<and> DUST_THRESHOLD_SOMPI \<le> to_amountSompi c"
      and r: "measureUpstreamMass load (planMassInput rq (pl_outputs plan) (changeAddressOf rq) (pl_inputs plan)
           (map_option to_amountSompi (pl_change plan))) = Inr r" "ur_mass r = pl_estimatedMass plan" "ur_standard r"
           "ur_minimumFeeSompi r = Some minimum" "minimum \<le> pl_estimatedFeeSompi plan"
    using plan_parts [OF built n] by metis
  let ?plan = "extendPlan plan mode (rq_networkId rq)"
  have sub: "mset (pl_inputs plan) \<subseteq># mset (rq_availableUtxos rq)"
    using p(3) candidates_mset [of rq maturity] by (rule subset_mset.order_trans)
  then have mem: "set (pl_inputs plan) \<subseteq> set (rq_availableUtxos rq)" by (metis set_mset_mono set_mset_mset)
  have dist: "distinct (map (outpointId \<circ> ux_outpoint) (pl_inputs plan))"
    using ok image_mset_subseteq_mono [OF sub, of "outpointId \<circ> ux_outpoint"]
    by (metis request_ok_def distinct_submset mset_map)
  have amount: "0 \<le> changeOf plan" using change by (auto simp: changeOf_def DUST_THRESHOLD_SOMPI_def split: option.splits)
  have fee: "0 \<le> pl_estimatedFeeSompi plan" using fees r(1,4,5) unfolding fees_nonneg_def by fastforce
  have pre: "list_all (\<lambda>i. CHR '':'' \<in> set (ux_address i)) (pl_inputs plan)" "list_all (\<lambda>x. CHR '':'' \<in> set (to_address x)) (pl_outputs plan)"
    using ok mem p(4) by (auto simp: request_ok_def list_all_iff)
  have "environmentIssues ?plan = []" using env by (auto simp: environmentIssues_def)
  moreover have "addressIssues ?plan = []" using pre by (simp add: addressIssues_def)
  moreover have "totalIssues (inputsTotal (pl_inputs plan)) (outputsTotal (pl_outputs plan)) (changeOf plan) = []"
    using p(2,4,5) amount fee by (simp add: totalIssues_def)
  moreover have "massIssues load ?plan (pl_estimatedFeeSompi plan) = Inr (pl_estimatedMass plan, [])"
    using verify_mass_input [of rq plan "changeAddressOf rq" load mode] ok plan_version [OF built] change r p(1)
    by (simp add: massIssues_def request_ok_def feeIssues_def)
  moreover have "concat (mapi outputIssues (pl_outputs plan)) = []"
    using ok p(4) by (intro concat_mapi_Nil) (auto simp: outputIssues_def request_ok_def list_all_iff DUST_THRESHOLD_SOMPI_def)
  moreover have "changeIssues (pl_change plan) = []" "changeAddressIssues (Some (changeAddressOf rq)) (pl_change plan) = []"
    using change by (auto simp: changeIssues_def changeAddressIssues_def split: option.splits)
  moreover have "duplicateIssues 0 [] (pl_inputs plan) = []" using dist by (intro duplicateIssues_Nil) auto
  moreover have "concat (mapi (contextIssues (map contextUtxo (rq_availableUtxos rq))) (pl_inputs plan)) = []"
    using ok mem by (intro concat_mapi_Nil contextIssues_Nil) (auto simp: request_ok_def numbered_def list_all_iff)
  moreover have "inputsTotal (pl_inputs plan) - outputsTotal (pl_outputs plan) - changeOf plan = pl_estimatedFeeSompi plan" using p(5) by simp
  ultimately show ?thesis by (auto simp: verifyTxPlanSemantics_def fullContext_def issuesOk_def changeOf_def list_all_iff)
qed


lemma ex_sdk_fees: "fees_nonneg (Inr ex_sdk)"
  by (auto simp: fees_nonneg_def measureUpstreamMass_def ex_sdk_def Let_def split: if_splits)

lemma ex_request_ok: "request_ok ex_request"
  by code_simp

theorem payment_plan_verifies_witness:
  "\<exists>plan r. buildPaymentPlan (Inr ex_sdk) ex_request = Inr plan \<and>
     verifyTxPlanSemantics (Inr ex_sdk) (extendPlan plan (Some ''simulator'') (Some ''simnet'')) (fullContext ex_request) = Inr r \<and> sv_ok r"
proof -
  obtain plan where b: "buildPaymentPlan (Inr ex_sdk) ex_request = Inr plan"
    using ex_request_plan by (auto split: sum.splits)
  have net: "rq_networkId ex_request = Some ''simnet''" by (simp add: ex_request_def)
  show ?thesis
    using payment_plan_verifies [OF b ex_request_ok ex_sdk_fees, of "Some ''simulator''"] b net by auto
qed

text \<open>A payload is part of the mass the planner prices, but a plan does not record it and the verifier prices the
  plan without: the same request with a payload gives a plan the verifier rejects.\<close>

lemma payload_plan_rejected:
  "case buildPaymentPlan (Inr ex_sdk) (ex_request\<lparr>rq_payloadBytes := Some 10\<rparr>) of
     Inl _ \<Rightarrow> False
   | Inr plan \<Rightarrow> (case verifyTxPlanSemantics (Inr ex_sdk) (extendPlan plan None (Some ''simnet'')) (fullContext ex_request) of
       Inl _ \<Rightarrow> False | Inr r \<Rightarrow> \<not> sv_ok r \<and> map is_code (sv_issues r) = [''MASS_MISMATCH''])"
  by code_simp

subsection \<open>The planner finds a plan\<close>

lemma plan_if_selected:
  assumes "rq_coinbaseMaturity rq = Some maturity" "0 < outputsTotal (rq_outputs rq)"
    "selectInputs (feeFor load rq (js_sort compareTxOutputs (rq_outputs rq)) (changeAddressOf rq)) (outputsTotal (rq_outputs rq))
        (js_sort compareTxInputs (candidateUtxos rq maturity)) [] 0 \<lparr>pn_nonStandard = None, pn_lastAttemptNonStandard = False\<rparr> = Inr (sel, c)"
  shows "buildPaymentPlan load rq = Inr (planOf rq (js_sort compareTxOutputs (rq_outputs rq)) sel c)"
proof -
  have "rq_outputs rq \<noteq> []" using assms(2) by (auto simp: outputsTotal_def)
  then show ?thesis using assms by (simp add: buildPaymentPlan_def Let_def)
qed

text \<open>C39: the planner finds a plan whenever the candidates can pay, and says so when they cannot. Take outputs of a positive
  total, a known maturity, and the spendable candidates in the planner's order. Suppose the SDK measures the transactions that
  spend a first part of them and return no change or a change that this part leaves, at minimum fees that are not negative and
  that a fee override pays. If all of them together cover the amount and the fee of spending them without change, a
  plan is returned. If they do not even cover the amount, the answer is the insufficient-funds error, whatever the SDK does.\<close>

theorem payment_plan_found:
  assumes "rq_coinbaseMaturity rq = Some maturity" and "0 < outputsTotal (rq_outputs rq)"
  shows "((\<forall>xs ys. js_sort compareTxInputs (candidateUtxos rq maturity) = xs @ ys \<longrightarrow> xs \<noteq> [] \<longrightarrow>
        sdk_measures load rq (js_sort compareTxOutputs (rq_outputs rq)) (changeAddressOf rq) xs (inputsTotal xs - outputsTotal (rq_outputs rq))) \<longrightarrow>
      planPrice load rq (js_sort compareTxOutputs (rq_outputs rq)) (changeAddressOf rq)
        (js_sort compareTxInputs (candidateUtxos rq maturity)) None = Some (mass, fee) \<longrightarrow>
      outputsTotal (rq_outputs rq) + fee \<le> inputsTotal (candidateUtxos rq maturity) \<longrightarrow> 0 \<le> fee \<longrightarrow>
      (\<exists>plan. buildPaymentPlan load rq = Inr plan)) \<and>
    (list_all (\<lambda>u. 0 \<le> ux_amountSompi u) (candidateUtxos rq maturity) \<longrightarrow>
      inputsTotal (candidateUtxos rq maturity) < outputsTotal (rq_outputs rq) \<longrightarrow>
      buildPaymentPlan load rq = Inl ''Insufficient funds for transaction amount plus estimated fee.'')"
proof -
  let ?outs = "js_sort compareTxOutputs (rq_outputs rq)" and ?ca = "changeAddressOf rq"
  let ?us = "js_sort compareTxInputs (candidateUtxos rq maturity)"
  have "\<exists>plan. buildPaymentPlan load rq = Inr plan"
    if measures: "\<forall>xs ys. ?us = xs @ ys \<longrightarrow> xs \<noteq> [] \<longrightarrow> sdk_measures load rq ?outs ?ca xs (inputsTotal xs - outputsTotal (rq_outputs rq))"
    and price: "planPrice load rq ?outs ?ca ?us None = Some (mass, fee)" "0 \<le> fee"
      "outputsTotal (rq_outputs rq) + fee \<le> inputsTotal (candidateUtxos rq maturity)"
  proof -
    have "?us \<noteq> []" using price(2,3) assms(2) by auto
    moreover have "sdk_measures load rq ?outs ?ca ([] @ xs) (0 + inputsTotal xs - outputsTotal (rq_outputs rq))" if "?us = xs @ ys" "xs \<noteq> []" for xs ys
      using measures that by simp
    ultimately show ?thesis
      using planner_total.select_total [of ?us load rq ?outs ?ca "[]" 0 "outputsTotal (rq_outputs rq)" mass fee] price
        plan_if_selected [OF assms] by fastforce
  qed
  moreover have "buildPaymentPlan load rq = Inl ''Insufficient funds for transaction amount plus estimated fee.''"
    if poor: "list_all (\<lambda>u. 0 \<le> ux_amountSompi u) (candidateUtxos rq maturity)" "inputsTotal (candidateUtxos rq maturity) < outputsTotal (rq_outputs rq)"
  proof -
    have "list_all (\<lambda>u. 0 \<le> ux_amountSompi u) ?us" using poor(1) by (simp add: list_all_iff)
    moreover have "rq_outputs rq \<noteq> []" using assms(2) by (auto simp: outputsTotal_def)
    ultimately show ?thesis using poor(2) assms by (simp add: buildPaymentPlan_def Let_def select_insufficient)
  qed
  ultimately show ?thesis by blast
qed

lemma ex_sdk_measures: "sel \<noteq> [] \<Longrightarrow> sdk_measures (Inr ex_sdk) ex_request outs ca sel surplus"
  by (auto simp: sdk_measures_def measureUpstreamMass_def ex_sdk_def ex_request_def planMassInput_def Let_def
      sdkNetwork_def getNetworkPrefix_def to_lower_def)

theorem payment_plan_found_witness:
  "(\<exists>plan. buildPaymentPlan (Inr ex_sdk) ex_request = Inr plan) \<and>
   buildPaymentPlan (Inr ex_sdk) (ex_request\<lparr>rq_availableUtxos := []\<rparr>) = Inl ''Insufficient funds for transaction amount plus estimated fee.''"
proof
  have price: "planPrice (Inr ex_sdk) ex_request (js_sort compareTxOutputs (rq_outputs ex_request)) (changeAddressOf ex_request)
      (js_sort compareTxInputs (candidateUtxos ex_request 100)) None = Some (2500, 2500)"
    by code_simp
  have funds: "outputsTotal (rq_outputs ex_request) + 2500 \<le> inputsTotal (candidateUtxos ex_request 100)" "0 < outputsTotal (rq_outputs ex_request)"
    "rq_coinbaseMaturity ex_request = Some 100"
    by code_simp+
  show "\<exists>plan. buildPaymentPlan (Inr ex_sdk) ex_request = Inr plan"
    using payment_plan_found [OF funds(3,2), of "Inr ex_sdk" 2500 2500] ex_sdk_measures price funds(1) by simp
  show "buildPaymentPlan (Inr ex_sdk) (ex_request\<lparr>rq_availableUtxos := []\<rparr>) = Inl ''Insufficient funds for transaction amount plus estimated fee.''"
    using payment_plan_found [of "ex_request\<lparr>rq_availableUtxos := []\<rparr>" 100 "Inr ex_sdk"] funds(2,3) by (simp add: candidateUtxos_def ex_request_def)
qed

subsection \<open>The plan does not depend on the order of the request\<close>

lemma input_key_eq:
  assumes "input_key u = input_key v" "op_index (ux_outpoint u) \<noteq> None" "op_index (ux_outpoint v) \<noteq> None"
  shows "outpointId (ux_outpoint u) = outpointId (ux_outpoint v)"
  using assms by (auto simp: input_key_def outpointId_def)

lemma sort_inputs_perm:
  assumes "mset us = mset vs" "numbered us" "distinct (map (outpointId \<circ> ux_outpoint) us)"
  shows "js_sort compareTxInputs us = js_sort compareTxInputs vs"
proof -
  have sets: "set us = set vs" using assms(1) by (metis set_mset_mset)
  then have nv: "numbered vs" using assms(2) by (simp add: numbered_def list_all_iff)
  have "u = v" if m: "u \<in> set us" "v \<in> set us" "compareKeyedInputs u v = 0" for u v
  proof -
    have "outpointId (ux_outpoint u) = outpointId (ux_outpoint v)"
      using m assms(2) by (intro input_key_eq) (auto simp: input_order.cmp_eq_key numbered_def list_all_iff)
    then show ?thesis using m assms(3) by (auto simp: distinct_map inj_on_def)
  qed
  then have "js_sort compareKeyedInputs us = js_sort compareKeyedInputs vs"
    by (intro input_order.js_sort_perm [OF assms(1)]) blast
  then show ?thesis by (simp add: sort_inputs_keyed assms(2) nv)
qed

lemma candidates_perm:
  "mset us = mset (rq_availableUtxos rq) \<Longrightarrow> mset (candidateUtxos (rq\<lparr>rq_availableUtxos := us, rq_outputs := outs\<rparr>) m) = mset (candidateUtxos rq m)"
  by (cases "rq_virtualDaaScore rq") (simp_all add: candidateUtxos_def)

text \<open>payment plans are deterministic. Listing the same UTXOs and the same outputs in another order gives the same
  plan, or the same error: selection and result depend on amounts and outpoints only.\<close>

theorem payment_plan_deterministic:
  assumes "mset us = mset (rq_availableUtxos rq)" and "mset outs = mset (rq_outputs rq)"
    and "numbered (rq_availableUtxos rq)" "distinct (map (outpointId \<circ> ux_outpoint) (rq_availableUtxos rq))"
    and "distinct (map (\<lambda>x. (to_amountSompi x, to_address x)) (rq_outputs rq))"
  shows "buildPaymentPlan load (rq\<lparr>rq_availableUtxos := us, rq_outputs := outs\<rparr>) = buildPaymentPlan load rq"
proof -
  let ?rq = "rq\<lparr>rq_availableUtxos := us, rq_outputs := outs\<rparr>"
  have outputs: "js_sort compareTxOutputs outs = js_sort compareTxOutputs (rq_outputs rq)"
  proof (rule output_order.js_sort_perm [symmetric])
    show "mset (rq_outputs rq) = mset outs" using assms(2) by simp
    show "\<forall>x \<in> set (rq_outputs rq). \<forall>y \<in> set (rq_outputs rq). compareTxOutputs x y = 0 \<longrightarrow> x = y"
      using assms(5) by (auto simp: output_order.cmp_eq_key distinct_map inj_on_def)
  qed
  have cands: "js_sort compareTxInputs (candidateUtxos ?rq m) = js_sort compareTxInputs (candidateUtxos rq m)" for m
  proof (rule sort_inputs_perm [symmetric])
    show "mset (candidateUtxos rq m) = mset (candidateUtxos ?rq m)" using candidates_perm [OF assms(1)] by simp
    show "numbered (candidateUtxos rq m)"
      using assms(3) candidates_subset [of rq m] by (auto simp: numbered_def list_all_iff)
    show "distinct (map (outpointId \<circ> ux_outpoint) (candidateUtxos rq m))"
      using assms(4) by (cases "rq_virtualDaaScore rq") (simp_all add: candidateUtxos_def distinct_map_filter)
  qed
  have same: "rq_feeOverrideSompi ?rq = rq_feeOverrideSompi rq" "rq_feeRateSompiPerMass ?rq = rq_feeRateSompiPerMass rq"
      "planMassInput ?rq = planMassInput rq"
    by (simp_all add: planMassInput_def fun_eq_iff)
  have quotes: "feeFor load ?rq = feeFor load rq"
    unfolding feeFor_def same by (rule refl)
  have "outs = [] \<longleftrightarrow> rq_outputs rq = []" using assms(2) by (metis mset_zero_iff)
  then show ?thesis
    unfolding buildPaymentPlan_def using outputs cands quotes by (simp add: Let_def changeAddressOf_def planOf_def cong: option.case_cong)
qed

theorem payment_plan_deterministic_witness:
  "buildPaymentPlan (Inr ex_sdk) (ex_request\<lparr>rq_availableUtxos := rev (rq_availableUtxos ex_request), rq_outputs := rq_outputs ex_request\<rparr>) =
   buildPaymentPlan (Inr ex_sdk) ex_request"
proof (rule payment_plan_deterministic)
  show "distinct (map (outpointId \<circ> ux_outpoint) (rq_availableUtxos ex_request))" by code_simp
qed (simp_all add: ex_request_numbered, simp add: ex_request_def)

end
