(* ===== verification/HK_Money.thy ===== *)
theory HK_Money
  imports HK_Json HK_Mass
begin

text \<open>
  Amounts, fee limits and policies: \<open>packages/core/src/money.ts\<close>, \<open>fee-guard.ts\<close>, \<open>mainnet-policy.ts\<close>,
  \<open>confirmation-policy.ts\<close> and \<open>packages/tx-builder/src/kaspa-uri.ts\<close>.

  Arguments of type \<open>unknown\<close>, and the union \<open>string | bigint | number\<close>, are JSON values. An error that has
  a code is its code.
\<close>

subsection \<open>KAS and sompi\<close>

definition KAS_SOMPI :: int where
  "KAS_SOMPI = 100000000"

definition isSafeInteger :: "int \<Rightarrow> bool" where
  "isSafeInteger i \<longleftrightarrow> - MAX_SAFE_INTEGER \<le> i \<and> i \<le> MAX_SAFE_INTEGER"

definition padStart :: "nat \<Rightarrow> char \<Rightarrow> string \<Rightarrow> string" where
  "padStart n c s = replicate (n - length s) c @ s"

definition padEnd :: "nat \<Rightarrow> char \<Rightarrow> string \<Rightarrow> string" where
  "padEnd n c s = s @ replicate (n - length s) c"

text \<open>The regular expression \<open>/^[0-9]+(\.[0-9]+)?$/\<close> with the two parts \<open>split(".")\<close> gives; the fractional part is
  empty where there is none.\<close>

definition kasParts :: "string \<Rightarrow> (string \<times> string) option" where
  "kasParts s =
     (let i = takeWhile is_digit s; r = dropWhile is_digit s in
      if i = [] then None
      else case r of
        [] \<Rightarrow> Some (i, [])
      | c # f \<Rightarrow> if c = CHR ''.'' \<and> f \<noteq> [] \<and> list_all is_digit f then Some (i, f) else None)"

definition withoutKasSuffix :: "string \<Rightarrow> string" where
  "withoutKasSuffix s =
     (let n = length s - 3 in
      if 3 \<le> length s \<and> map to_lower (drop n s) = ''kas'' then js_trim (take n s) else s)"

fun parseKasToSompi :: "json \<Rightarrow> int result" where
  "parseKasToSompi (JBigInt i) = (if i < 0 then Inl ''KAS_AMOUNT_NEGATIVE: negative money not allowed'' else Inr i)"
| "parseKasToSompi (JNum i) =
     (if \<not> isSafeInteger i then Inl ''KAS_AMOUNT_UNSAFE_NUMBER''
      else if i < 0 then Inl ''KAS_AMOUNT_NEGATIVE: negative money not allowed''
      else Inr i)"
| "parseKasToSompi (JFrac x) = Inl ''KAS_AMOUNT_UNSAFE_NUMBER''"
| "parseKasToSompi (JStr input) =
     (let trimmed = js_trim input in
      if starts_with trimmed ''-'' then Inl ''KAS_AMOUNT_NEGATIVE: negative money not allowed''
      else if starts_with trimmed ''+'' then Inl ''INVALID_KAS_AMOUNT: explicit positive sign not supported''
      else if CHR ''e'' \<in> set (map to_lower trimmed) then Inl ''KAS_AMOUNT_SCIENTIFIC_NOTATION_UNSUPPORTED: scientific notation is not supported''
      else case kasParts (withoutKasSuffix trimmed) of
        None \<Rightarrow> Inl (''INVALID_KAS_AMOUNT: invalid characters or format in '' @ [CHR 0x27] @ input @ [CHR 0x27])
      | Some (integerPart, fractionalPart) \<Rightarrow>
          if length fractionalPart > 8
          then Inl (''KAS_AMOUNT_TOO_MANY_DECIMALS: too many decimal places in '' @ [CHR 0x27] @ input @ [CHR 0x27])
          else bigE (integerPart @ padEnd 8 (CHR ''0'') fractionalPart))"
| "parseKasToSompi _ = Inl ''INVALID_KAS_AMOUNT: amount must be a string or bigint''"

definition stripZeros :: "string \<Rightarrow> string" where
  "stripZeros s = rev (dropWhile (\<lambda>c. c = CHR ''0'') (rev s))"

definition formatSompiToKas :: "string + int \<Rightarrow> string result" where
  "formatSompiToKas sompi =
     (case (case sompi of Inr i \<Rightarrow> Some i | Inl s \<Rightarrow> BigInt s) of
        None \<Rightarrow> Inl ''INVALID_KAS_AMOUNT: invalid sompi format''
      | Some s \<Rightarrow>
          if s < 0 then Inl ''SOMPI_AMOUNT_NEGATIVE: negative sompi amounts are not supported''
          else (let str = padStart 9 (CHR ''0'') (int_str s);
                    intPart = take (length str - 8) str;
                    fracPart = stripZeros (drop (length str - 8) str)
                in Inr (if fracPart \<noteq> [] then intPart @ ''.'' @ fracPart else intPart)))"

definition formatSignedSompiToKas :: "string + int \<Rightarrow> string result" where
  "formatSignedSompiToKas sompi =
     (case (case sompi of Inr i \<Rightarrow> Some i | Inl s \<Rightarrow> BigInt s) of
        None \<Rightarrow> Inl ''INVALID_KAS_AMOUNT: invalid sompi format''
      | Some s \<Rightarrow>
          if s < 0 then bindE (formatSompiToKas (Inr (- s))) (\<lambda>t. Inr (CHR ''-'' # t))
          else formatSompiToKas (Inr s))"

subsection \<open>Payment URIs\<close>

definition sompiToKasDisplay :: "int \<Rightarrow> string result" where
  "sompiToKasDisplay sompi =
     (if sompi < 0 then Inl ''KASPA_URI_INVALID_AMOUNT: Negative amounts are not allowed.''
      else (let whole = sompi div KAS_SOMPI; remainder = sompi mod KAS_SOMPI in
        if remainder = 0 then Inr (int_str whole)
        else Inr (int_str whole @ ''.'' @ stripZeros (padStart 8 (CHR ''0'') (int_str remainder)))))"

definition upper_hex :: "nat \<Rightarrow> char" where
  "upper_hex d = (if d < 10 then char_of (48 + d) else char_of (55 + d))"

definition percent :: "nat \<Rightarrow> string" where
  "percent b = [CHR ''%'', upper_hex (b div 16), upper_hex (b mod 16)]"

text \<open>\<open>encodeURIComponent\<close>: code units below 256 are one or two bytes of UTF-8.\<close>

definition uri_char :: "char \<Rightarrow> string" where
  "uri_char c = (let n = of_char c :: nat in
     if (48 \<le> n \<and> n \<le> 57) \<or> (65 \<le> n \<and> n \<le> 90) \<or> (97 \<le> n \<and> n \<le> 122) \<or>
        c \<in> set ''-_.!~*()'' \<or> n = 39 then [c]
     else if n < 128 then percent n
     else percent (192 + n div 64) @ percent (128 + n mod 64))"

definition encodeURIComponent :: "string \<Rightarrow> string" where
  "encodeURIComponent s = concat (map uri_char s)"

record KaspaUriRequest =
  ku_address :: string
  ku_amountSompi :: int
  ku_label :: "string option"
  ku_message :: "string option"

record KaspaUriResult =
  kr_uri :: string
  kr_address :: string
  kr_amountSompi :: int
  kr_amountKasDisplay :: string
  kr_params :: "(string \<times> string) list"

definition uriParam :: "string \<Rightarrow> string option \<Rightarrow> (string \<times> string) list" where
  "uriParam k v = (case v of None \<Rightarrow> [] | Some s \<Rightarrow> if s = [] then [] else [(k, s)])"

definition buildKaspaUri :: "KaspaUriRequest \<Rightarrow> KaspaUriResult result" where
  "buildKaspaUri rq =
     (if ku_address rq = [] \<or> js_trim (ku_address rq) = [] then Inl ''KASPA_URI_INVALID_ADDRESS: Address is required.''
      else if ku_amountSompi rq < 0 then Inl ''KASPA_URI_INVALID_AMOUNT: Negative amounts are not allowed.''
      else bindE (sompiToKasDisplay (ku_amountSompi rq)) (\<lambda>display.
        let amount = (if ku_amountSompi rq > 0 then [(''amount'', display)] else []);
            texts = uriParam ''label'' (ku_label rq) @ uriParam ''message'' (ku_message rq);
            queryParts = map (\<lambda>(k, v). k @ ''='' @ v) amount @ map (\<lambda>(k, v). k @ ''='' @ encodeURIComponent v) texts;
            query = (if queryParts \<noteq> [] then ''?'' @ join_with ''&'' queryParts else [])
        in Inr \<lparr>kr_uri = ''kaspa:'' @ ku_address rq @ query, kr_address = ku_address rq, kr_amountSompi = ku_amountSompi rq,
             kr_amountKasDisplay = display, kr_params = amount @ texts\<rparr>))"

subsection \<open>Fee limits\<close>

definition U64_MAX :: int where
  "U64_MAX = 2 ^ 64 - 1"

text \<open>A number given as \<open>bigint\<close>, as a safe integer or as the text \<open>/^\+?\d+$/\<close>.\<close>

definition plusDigits :: "string \<Rightarrow> bool" where
  "plusDigits s = (let d = (if starts_with s ''+'' then drop 1 s else s) in d \<noteq> [] \<and> list_all is_digit d)"

fun wholeNumber :: "json \<Rightarrow> int option" where
  "wholeNumber (JBigInt i) = Some i"
| "wholeNumber (JNum i) = (if isSafeInteger i then Some i else None)"
| "wholeNumber (JStr s) = (if plusDigits (js_trim s) then BigInt (js_trim s) else None)"
| "wholeNumber _ = None"

definition positiveU64 :: "string \<Rightarrow> json \<Rightarrow> int result" where
  "positiveU64 code input =
     (case wholeNumber input of
        None \<Rightarrow> Inl code
      | Some v \<Rightarrow> if v \<le> 0 \<or> v > U64_MAX then Inl code else Inr v)"

definition parseFeeRate :: "json \<Rightarrow> int result" where
  "parseFeeRate input = positiveU64 ''INVALID_FEE_RATE'' input"

definition parseMaxFeeSompi :: "json \<Rightarrow> int result" where
  "parseMaxFeeSompi input = positiveU64 ''INVALID_MAX_FEE'' input"

definition networkMaxFeeSompi :: "json \<Rightarrow> string option \<Rightarrow> int option result" where
  "networkMaxFeeSompi config network =
     (case network of
        None \<Rightarrow> Inr None
      | Some n \<Rightarrow>
          if n = [] then Inr None
          else (let raw = jget (jget (jget config ''networks'') n) ''maxFeeSompi'' in
            if raw = JUndefined \<or> raw = JNull then Inr None
            else bindE (parseMaxFeeSompi raw) (\<lambda>v. Inr (Some v))))"

datatype FeeLimitSource = FromPlan | FromNetworkConfig

record FeeLimit =
  fl_maxFeeSompi :: int
  fl_source :: FeeLimitSource

definition lowestLimit :: "int option \<Rightarrow> int option \<Rightarrow> FeeLimit option" where
  "lowestLimit plan net =
     (case (plan, net) of
        (None, None) \<Rightarrow> None
      | (Some p, None) \<Rightarrow> Some \<lparr>fl_maxFeeSompi = p, fl_source = FromPlan\<rparr>
      | (None, Some n) \<Rightarrow> Some \<lparr>fl_maxFeeSompi = n, fl_source = FromNetworkConfig\<rparr>
      | (Some p, Some n) \<Rightarrow>
          if p \<le> n then Some \<lparr>fl_maxFeeSompi = p, fl_source = FromPlan\<rparr>
          else Some \<lparr>fl_maxFeeSompi = n, fl_source = FromNetworkConfig\<rparr>)"

definition planLimit :: "json \<Rightarrow> int option result" where
  "planLimit planMaxFeeSompi =
     (if planMaxFeeSompi = JUndefined \<or> planMaxFeeSompi = JNull then Inr None
      else bindE (parseMaxFeeSompi planMaxFeeSompi) (\<lambda>v. Inr (Some v)))"

definition effectiveFeeLimit :: "json \<Rightarrow> json \<Rightarrow> string option \<Rightarrow> FeeLimit option result" where
  "effectiveFeeLimit planMaxFeeSompi config network =
     bindE (planLimit planMaxFeeSompi) (\<lambda>plan.
     bindE (networkMaxFeeSompi config network) (\<lambda>net. Inr (lowestLimit plan net)))"

definition assertFeeWithinLimit :: "int \<Rightarrow> FeeLimit option \<Rightarrow> unit result" where
  "assertFeeWithinLimit feeSompi limit =
     (case limit of
        None \<Rightarrow> Inr ()
      | Some l \<Rightarrow> if feeSompi > fl_maxFeeSompi l then Inl ''FEE_EXCEEDS_MAX'' else Inr ())"

fun amountOf :: "json \<Rightarrow> int option" where
  "amountOf (JBigInt i) = Some i"
| "amountOf (JStr s) = (if s \<noteq> [] \<and> list_all is_digit s then BigInt s else None)"
| "amountOf (JNum i) = (if isSafeInteger i \<and> i \<ge> 0 then Some i else None)"
| "amountOf _ = None"

fun addAmounts :: "int \<Rightarrow> int \<Rightarrow> json list \<Rightarrow> int option" where
  "addAmounts sign acc [] = Some acc"
| "addAmounts sign acc (x # xs) =
     (case amountOf (jget x ''amountSompi'') of None \<Rightarrow> None | Some a \<Rightarrow> addAmounts sign (acc + sign * a) xs)"

definition planPaysFeeSompi :: "json \<Rightarrow> int option" where
  "planPaysFeeSompi plan =
     (case (jget plan ''inputs'', jget plan ''outputs'') of
        (JArr inputs, JArr outputs) \<Rightarrow>
          if inputs = [] then None
          else (case addAmounts 1 0 inputs of
              None \<Rightarrow> None
            | Some consumed \<Rightarrow>
                (case addAmounts (- 1) consumed outputs of
                   None \<Rightarrow> None
                 | Some paid \<Rightarrow>
                     (let change = jget plan ''change'' in
                      if truthy change then map_option (\<lambda>a. paid - a) (amountOf (jget change ''amountSompi'')) else Some paid)))
      | _ \<Rightarrow> None)"

subsection \<open>The mainnet policy\<close>

datatype KaspaNetworkType = Mainnet | Testnet | Devnet | Simnet

definition MAINNET_TRANSACTIONS_ENABLED :: bool where
  "MAINNET_TRANSACTIONS_ENABLED = False"

text \<open>The optional \<open>-<digits>\<close> at the end of \<open>/^(mainnet|testnet|devnet|simnet)(?:-\d+)?$/\<close>.\<close>

definition networkSuffix :: "string \<Rightarrow> bool" where
  "networkSuffix s \<longleftrightarrow> s = [] \<or> (hd s = CHR ''-'' \<and> tl s \<noteq> [] \<and> list_all is_digit (tl s))"

definition hasType :: "string \<Rightarrow> string \<Rightarrow> bool" where
  "hasType t n \<longleftrightarrow> starts_with n t \<and> networkSuffix (drop (length t) n)"

fun networkTypeOf :: "json \<Rightarrow> KaspaNetworkType option" where
  "networkTypeOf (JStr s) =
     (let n = map to_lower (js_trim s) in
      if n = ''kaspa'' then Some Mainnet
      else (let m = (if starts_with n ''kaspa-'' then drop 6 n else n) in
        if hasType ''mainnet'' m then Some Mainnet
        else if hasType ''testnet'' m then Some Testnet
        else if hasType ''devnet'' m then Some Devnet
        else if hasType ''simnet'' m then Some Simnet
        else None))"
| "networkTypeOf _ = None"

definition isMainnetNetworkId :: "json \<Rightarrow> bool" where
  "isMainnetNetworkId networkId \<longleftrightarrow> networkTypeOf networkId = Some Mainnet"

definition SIMNET_NETWORK_ALIASES :: "string list" where
  "SIMNET_NETWORK_ALIASES = [''simulated'', ''local-docker-simnet'']"

fun isSimnetNetworkId :: "json \<Rightarrow> bool" where
  "isSimnetNetworkId (JStr s) =
     (let n = map to_lower (js_trim s) in n \<noteq> [] \<and> (networkTypeOf (JStr n) = Some Simnet \<or> n \<in> set SIMNET_NETWORK_ALIASES))"
| "isSimnetNetworkId _ = False"

fun declaredNetworkIdOf :: "json \<Rightarrow> json \<Rightarrow> string option" where
  "declaredNetworkIdOf config (JStr name) =
     (case jget (jget (jget config ''networks'') name) ''network'' of
        JStr declared \<Rightarrow> if js_trim declared \<noteq> [] then Some declared else Some name
      | _ \<Rightarrow> Some name)"
| "declaredNetworkIdOf config _ = None"

datatype MainnetTransactionOperation = Sign | Broadcast

fun nonBlank :: "json \<Rightarrow> bool" where
  "nonBlank (JStr s) = (js_trim s \<noteq> [])"
| "nonBlank _ = False"

definition assertMainnetTransactionsDisabled :: "MainnetTransactionOperation \<Rightarrow> json list \<Rightarrow> unit result" where
  "assertMainnetTransactionsDisabled operation networkIds =
     (if MAINNET_TRANSACTIONS_ENABLED then Inr ()
      else (let seen = filter nonBlank networkIds in
        if \<not> list_ex isMainnetNetworkId seen then Inr ()
        else Inl (case operation of Sign \<Rightarrow> ''MAINNET_SIGNING_DISABLED'' | Broadcast \<Rightarrow> ''MAINNET_BROADCAST_DISABLED'')))"

subsection \<open>The confirmation policy\<close>

datatype RiskProfile = Lenient | Standard | Strict

definition getRequiredConfirmations :: "int \<Rightarrow> RiskProfile option \<Rightarrow> nat result" where
  "getRequiredConfirmations amountSompi risk =
     (if amountSompi < 0 then Inl ''CONFIRMATION_POLICY_INVALID_AMOUNT: Negative amounts are not allowed.''
      else (let riskProfile = (case risk of None \<Rightarrow> Standard | Some r \<Rightarrow> r); amountKas = amountSompi div KAS_SOMPI in
        Inr (if amountKas < 1000 then (case riskProfile of Lenient \<Rightarrow> 1 | Standard \<Rightarrow> 2 | Strict \<Rightarrow> 10)
             else if amountKas \<le> 10000 then (case riskProfile of Lenient \<Rightarrow> 5 | Standard \<Rightarrow> 10 | Strict \<Rightarrow> 30)
             else (case riskProfile of Lenient \<Rightarrow> 10 | Standard \<Rightarrow> 30 | Strict \<Rightarrow> 60))))"

end
