(* ===== verification/HK_MoneyProps.thy ===== *)
theory HK_MoneyProps
  imports HK_Money
begin

text \<open>
  What the amount functions and the policies guarantee: printing and parsing KAS amounts are inverse, the two
  printers agree, a fee limit that is set is enforced wherever it is set, and no spelling of mainnet passes the
  mainnet guard.
\<close>

subsection \<open>Decimal strings\<close>

lemma digits_val_zeros [simp]: "digits_val (replicate n (CHR ''0'')) = 0"
proof (induction n)
  case (Suc n)
  have "replicate (Suc n) (CHR ''0'') = replicate n (CHR ''0'') @ [CHR ''0'']" by (simp add: replicate_append_same)
  then show ?case using Suc by (simp add: digit_val_def del: replicate_Suc)
qed simp

lemma padStart_digits [simp]: "list_all is_digit s \<Longrightarrow> list_all is_digit (padStart n (CHR ''0'') s)"
  by (auto simp: padStart_def list_all_iff is_digit_def)

lemma padStart_val [simp]: "digits_val (padStart n (CHR ''0'') s) = digits_val s"
  by (simp add: padStart_def digits_val_append)

lemma length_padStart [simp]: "length (padStart n c s) = max n (length s)"
  by (simp add: padStart_def)

lemma length_nat_str: "0 < k \<Longrightarrow> n < 10 ^ k \<Longrightarrow> length (nat_str n) \<le> k"
proof (induction k arbitrary: n rule: nat_induct_non_zero)
  case 1
  then show ?case by (simp add: nat_str.simps [of n])
next
  case (Suc k)
  show ?case
  proof (cases "n < 10")
    case True
    then show ?thesis by (simp add: nat_str.simps [of n])
  next
    case False
    have "length (nat_str (n div 10)) \<le> k" using Suc.prems by (intro Suc.IH) auto
    then show ?thesis using False by (simp add: nat_str.simps [of n])
  qed
qed

lemma padStart_snoc:
  assumes "0 < k" "m < 10 ^ k" "d < 10"
  shows "padStart k (CHR ''0'') (nat_str m) @ [digit_char d] = padStart (Suc k) (CHR ''0'') (nat_str (10 * m + d))"
proof (cases "m = 0")
  case True
  have "nat_str 0 = [CHR ''0'']" by code_simp
  then have "padStart k (CHR ''0'') (nat_str m) = replicate k (CHR ''0'')"
    using assms(1) True by (cases k) (simp_all add: padStart_def replicate_append_same)
  then show ?thesis using True assms(3) by (simp add: padStart_def nat_str.simps [of d])
next
  case False
  then have "nat_str (10 * m + d) = nat_str m @ [digit_char d]" using assms(3) by (simp add: nat_str.simps [of "10 * m + d"])
  then show ?thesis by (simp add: padStart_def)
qed

lemma nat_str_split:
  "0 < k \<Longrightarrow> 10 ^ k \<le> n \<Longrightarrow> nat_str n = nat_str (n div 10 ^ k) @ padStart k (CHR ''0'') (nat_str (n mod 10 ^ k))"
proof (induction k arbitrary: n rule: nat_induct_non_zero)
  case 1
  then have "nat_str n = nat_str (n div 10) @ [digit_char (n mod 10)]" by (simp add: nat_str.simps [of n])
  then show ?case by (simp add: padStart_def nat_str.simps [of "n mod 10"])
next
  case (Suc k)
  have "10 ^ k \<le> n div 10" using Suc.prems by (simp add: less_eq_div_iff_mult_less_eq mult.commute)
  then have "nat_str (n div 10) = nat_str (n div 10 ^ Suc k) @ padStart k (CHR ''0'') (nat_str (n div 10 mod 10 ^ k))"
    using Suc.IH by (simp add: div_mult2_eq)
  moreover have "10 * (n div 10 mod 10 ^ k) + n mod 10 = n mod 10 ^ Suc k" by (simp add: mod_mult2_eq)
  moreover have "10 \<le> n" using Suc.prems order_trans [of 10 "10 ^ Suc k" n] by simp
  then have "nat_str n = nat_str (n div 10) @ [digit_char (n mod 10)]" by (simp add: nat_str.simps [of n])
  ultimately show ?case using padStart_snoc [OF Suc.hyps, of "n div 10 mod 10 ^ k" "n mod 10"] by simp
qed

text \<open>The printed amount: the integer part and the eight decimals.\<close>

lemma padded_parts:
  "padStart 9 (CHR ''0'') (nat_str n) = nat_str (n div 10 ^ 8) @ padStart 8 (CHR ''0'') (nat_str (n mod 10 ^ 8))"
proof (cases "n < 10 ^ 8")
  case True
  then have "length (nat_str n) \<le> 8" by (intro length_nat_str) simp_all
  moreover have "nat_str 0 = ''0''" by code_simp
  ultimately show ?thesis using True by (simp add: padStart_def Suc_diff_le flip: replicate_Suc)
next
  case False
  then have split: "nat_str n = nat_str (n div 10 ^ 8) @ padStart 8 (CHR ''0'') (nat_str (n mod 10 ^ 8))"
    by (intro nat_str_split) simp_all
  have "length (nat_str (n div 10 ^ 8)) \<ge> 1" by (simp add: Suc_le_eq)
  then have "9 \<le> length (nat_str n)" unfolding split by simp
  then have "padStart 9 (CHR ''0'') (nat_str n) = nat_str n" by (simp add: padStart_def)
  then show ?thesis using split by simp
qed

lemma stripZeros_pad:
  assumes "length s = n"
  shows "padEnd n (CHR ''0'') (stripZeros s) = s"
proof -
  let ?z = "takeWhile (\<lambda>c. c = CHR ''0'') (rev s)" and ?r = "dropWhile (\<lambda>c. c = CHR ''0'') (rev s)"
  have "?z = replicate (length ?z) (CHR ''0'')" by (intro replicate_eqI) (auto dest: set_takeWhileD)
  moreover have s: "s = rev ?r @ rev ?z" by (metis rev_append rev_swap takeWhile_dropWhile_id)
  then have "length ?z = n - length ?r" using assms by (metis add_diff_cancel_left' length_append length_rev)
  ultimately show ?thesis using s by (metis length_rev padEnd_def rev_replicate stripZeros_def)
qed

lemma stripZeros_digits: "list_all is_digit s \<Longrightarrow> list_all is_digit (stripZeros s)"
  by (auto simp: stripZeros_def list_all_iff dest: set_dropWhileD)

lemma stripZeros_length: "length (stripZeros s) \<le> length s"
  by (simp add: stripZeros_def length_dropWhile_le [of _ "rev s", simplified])

lemma stripZeros_Nil: "stripZeros s = [] \<longleftrightarrow> digits_val s = 0" if "list_all is_digit s"
proof
  assume "stripZeros s = []"
  then have "s = replicate (length s) (CHR ''0'')" using stripZeros_pad [of s "length s"] by (simp add: padEnd_def)
  then show "digits_val s = 0" using digits_val_zeros [of "length s"] by simp
next
  assume "digits_val s = 0"
  then show "stripZeros s = []" using that
  proof (induction s rule: rev_induct)
    case (snoc c s)
    then have "digit_val c = 0" "is_digit c" by simp_all
    then have "of_char c = (of_char (CHR ''0'') :: nat)" by (simp add: digit_val_def is_digit_def)
    then have "c = CHR ''0''" by (metis char_of_char)
    then show ?case using snoc by (simp add: stripZeros_def)
  qed (simp add: stripZeros_def)
qed

lemma format_parts:
  assumes "0 \<le> s"
  shows "\<exists>i f. i \<noteq> [] \<and> list_all is_digit i \<and> list_all is_digit f \<and> length f \<le> 8 \<and>
    formatSompiToKas (Inr s) = Inr (i @ (if f = [] then [] else CHR ''.'' # f)) \<and>
    sompiToKasDisplay s = Inr (i @ (if f = [] then [] else CHR ''.'' # f)) \<and>
    int (digits_val (i @ padEnd 8 (CHR ''0'') f)) = s"
proof -
  define w where "w = nat_str (nat s div 10 ^ 8)"
  define f where "f = padStart 8 (CHR ''0'') (nat_str (nat s mod 10 ^ 8))"
  have len: "length f = 8" using length_nat_str [of 8 "nat s mod 10 ^ 8"] by (simp add: f_def)
  have dig: "list_all is_digit f" "list_all is_digit w" "w \<noteq> []" "digits_val f = nat s mod 10 ^ 8" by (simp_all add: f_def w_def)
  have str: "padStart 9 (CHR ''0'') (int_str s) = w @ f"
    using assms padded_parts [of "nat s"] by (simp add: int_str_def w_def f_def)
  have nonneg: "\<not> s mod 100000000 < 0" by presburger
  have parts: "int_str (s div KAS_SOMPI) = w" "padStart 8 (CHR ''0'') (int_str (s mod KAS_SOMPI)) = f"
    using assms nonneg by (simp_all add: int_str_def KAS_SOMPI_def nat_div_distrib nat_mod_distrib pos_imp_zdiv_neg_iff w_def f_def)
  have "nat s mod 10 ^ 8 = nat (s mod KAS_SOMPI)" using assms by (simp add: KAS_SOMPI_def nat_mod_distrib)
  moreover have "0 \<le> s mod KAS_SOMPI" by (simp add: KAS_SOMPI_def)
  ultimately have zero: "stripZeros f = [] \<longleftrightarrow> s mod KAS_SOMPI = 0"
    unfolding stripZeros_Nil [OF dig(1)] dig(4) by linarith
  have val: "int (digits_val (w @ padEnd 8 (CHR ''0'') (stripZeros f))) = s"
    unfolding stripZeros_pad [OF len] str [symmetric] using assms by (simp add: int_str_def)
  have fmt: "formatSompiToKas (Inr s) = Inr (w @ (if stripZeros f = [] then [] else CHR ''.'' # stripZeros f))"
    using assms str len by (simp add: formatSompiToKas_def Let_def)
  have disp: "sompiToKasDisplay s = Inr (w @ (if stripZeros f = [] then [] else CHR ''.'' # stripZeros f))"
    using assms parts zero by (simp add: sompiToKasDisplay_def Let_def)
  have "length (stripZeros f) \<le> 8" using stripZeros_length [of f] len by simp
  then show ?thesis
    using dig stripZeros_digits [OF dig(1)] fmt disp val by blast
qed

subsection \<open>Parsing what was printed\<close>

definition kas_text :: "string \<Rightarrow> string \<Rightarrow> string" where
  "kas_text i f = i @ (if f = [] then [] else CHR ''.'' # f)"

lemma kas_text_chars: "list_all is_digit i \<Longrightarrow> list_all is_digit f \<Longrightarrow> c \<in> set (kas_text i f) \<Longrightarrow> is_digit c \<or> c = CHR ''.''"
  by (auto simp: kas_text_def list_all_iff split: if_splits)

lemma kas_text_ends:
  assumes "i \<noteq> []" "list_all is_digit i" "list_all is_digit f"
  shows "kas_text i f \<noteq> []" "is_digit (hd (kas_text i f))" "is_digit (last (kas_text i f))"
  using assms by (auto simp: kas_text_def list_all_iff hd_append last_append)

lemma to_lower_digit: "is_digit c \<or> c = CHR ''.'' \<Longrightarrow> to_lower c = c"
  by (auto simp: to_lower_def is_digit_def Let_def)

lemma kasParts_text:
  assumes "i \<noteq> []" "list_all is_digit i" "list_all is_digit f"
  shows "kasParts (kas_text i f) = Some (i, f)"
proof -
  have "\<not> is_digit (CHR ''.'')" by (simp add: is_digit_def)
  then have "takeWhile is_digit (kas_text i f) = i" "dropWhile is_digit (kas_text i f) = (if f = [] then [] else CHR ''.'' # f)"
    using assms(2) by (auto simp: kas_text_def takeWhile_append2 list_all_iff)
  then show ?thesis using assms by (simp add: kasParts_def Let_def)
qed

lemma withoutKasSuffix_text:
  assumes "s \<noteq> []" "is_digit (last s)"
  shows "withoutKasSuffix s = s"
proof -
  have "map to_lower (drop (length s - 3) s) \<noteq> ''kas''"
  proof
    assume "map to_lower (drop (length s - 3) s) = ''kas''"
    then have "drop (length s - 3) s \<noteq> []" "to_lower (last (drop (length s - 3) s)) = CHR ''s''"
      by (metis list.distinct(1) list.map_disc_iff, metis (no_types) last.simps last_map list.distinct(1) list.map_disc_iff)
    then have "to_lower (last s) = CHR ''s''" by (metis drop_eq_Nil last_drop leI)
    then have "is_digit (CHR ''s'')" using to_lower_digit [of "last s"] assms(2) by simp
    then show False by (simp add: is_digit_def)
  qed
  then show ?thesis by (simp add: withoutKasSuffix_def Let_def)
qed

lemma js_trim_snoc:
  assumes "is_ws w" "s \<noteq> []" "\<not> is_ws (hd s)" "\<not> is_ws (last s)"
  shows "js_trim (s @ [w]) = s"
proof -
  have "dropWhile is_ws (s @ [w]) = s @ [w]" using assms by (simp add: dropWhile_eq_self_iff)
  moreover have "dropWhile is_ws (rev s) = rev s" using assms by (simp add: dropWhile_eq_self_iff hd_rev)
  ultimately show ?thesis using assms(1) by (simp add: js_trim_def)
qed

lemma parse_kas_text:
  assumes "i \<noteq> []" "list_all is_digit i" "list_all is_digit f" "length f \<le> 8"
    and t: "js_trim t = kas_text i f \<or> js_trim t = kas_text i f @ '' KAS''"
  shows "parseKasToSompi (JStr t) = Inr (int (digits_val (i @ padEnd 8 (CHR ''0'') f)))"
proof -
  note ends = kas_text_ends [OF assms(1-3)]
  obtain c r where cr: "kas_text i f = c # r" "is_digit c" using ends by (cases "kas_text i f") auto
  have sign: "\<not> starts_with (js_trim t) ''-''" "\<not> starts_with (js_trim t) ''+''"
    using t cr by (auto simp: starts_with_def is_digit_def)
  have "CHR ''e'' \<notin> set (map to_lower (kas_text i f))"
  proof -
    have "map to_lower (kas_text i f) = kas_text i f"
      using to_lower_digit kas_text_chars [OF assms(2,3)] by (intro map_idI) blast
    then show ?thesis using kas_text_chars [OF assms(2,3), of "CHR ''e''"] by (auto simp: is_digit_def)
  qed
  moreover have "CHR ''e'' \<notin> set (map to_lower '' KAS'')" by code_simp
  ultimately have no_e: "CHR ''e'' \<notin> set (map to_lower (js_trim t))" using t by auto
  have "map to_lower ''KAS'' = ''kas''" by code_simp
  moreover have "js_trim (kas_text i f @ '' '') = kas_text i f"
    using ends is_digit_not_ws by (intro js_trim_snoc) (auto simp: is_ws_def)
  ultimately have "withoutKasSuffix (kas_text i f @ '' KAS'') = kas_text i f" by (simp add: withoutKasSuffix_def Let_def)
  then have "withoutKasSuffix (js_trim t) = kas_text i f" using t withoutKasSuffix_text [OF ends(1,3)] by auto
  moreover have "BigInt (i @ padEnd 8 (CHR ''0'') f) = Some (int (digits_val (i @ padEnd 8 (CHR ''0'') f)))"
    using assms by (intro BigInt_digits) (auto simp: padEnd_def list_all_iff is_digit_def)
  ultimately show ?thesis
    using sign no_e assms(4) kasParts_text [OF assms(1-3)] by (simp add: Let_def bigE_def)
qed

declare parseKasToSompi.simps(4) [simp del]

text \<open>amounts survive printing and parsing. Every sompi amount that is not negative is printed as a decimal KAS text, the same
  by \<open>formatSompiToKas\<close> and by the URI builder's \<open>sompiToKasDisplay\<close>; parsing that text, with or without the suffix
  KAS and surrounding blanks, gives the amount back exactly. Negative amounts are refused by both printers.\<close>

theorem money_round_trip:
  "if s < 0 then (\<forall>t. formatSompiToKas (Inr s) \<noteq> Inr t \<and> sompiToKasDisplay s \<noteq> Inr t)
   else (\<exists>t. formatSompiToKas (Inr s) = Inr t \<and> sompiToKasDisplay s = Inr t \<and> parseKasToSompi (JStr t) = Inr s \<and>
      parseKasToSompi (JStr ('' '' @ t @ '' KAS '')) = Inr s)"
proof (cases "s < 0")
  case True
  then show ?thesis by (simp add: formatSompiToKas_def sompiToKasDisplay_def)
next
  case False
  then obtain i f where p: "i \<noteq> []" "list_all is_digit i" "list_all is_digit f" "length f \<le> 8"
      "formatSompiToKas (Inr s) = Inr (kas_text i f)" "sompiToKasDisplay s = Inr (kas_text i f)"
      "int (digits_val (i @ padEnd 8 (CHR ''0'') f)) = s"
    using format_parts [of s] by (auto simp: kas_text_def)
  note ends = kas_text_ends [OF p(1-3)]
  have "js_trim (kas_text i f) = kas_text i f" using ends is_digit_not_ws by (intro js_trim_id) auto
  moreover have "js_trim ('' '' @ kas_text i f @ '' KAS '') = kas_text i f @ '' KAS''"
    using ends is_digit_not_ws [OF ends(2)] by (cases "kas_text i f") (auto simp: js_trim_def is_ws_def)
  ultimately show ?thesis using parse_kas_text [OF p(1-4)] p(5-7) False by auto
qed


subsection \<open>Fee limits\<close>

definition set_limit :: "json \<Rightarrow> bool" where
  "set_limit p \<longleftrightarrow> p \<noteq> JUndefined \<and> p \<noteq> JNull"

lemma positiveU64_bounds: "positiveU64 code p = Inr m \<Longrightarrow> 0 < m \<and> m \<le> U64_MAX"
  by (auto simp: positiveU64_def split: option.splits if_splits)

lemma within_lowest:
  "assertFeeWithinLimit fee (lowestLimit plan net) = Inr () \<longleftrightarrow>
     (\<forall>m. plan = Some m \<longrightarrow> fee \<le> m) \<and> (\<forall>m. net = Some m \<longrightarrow> fee \<le> m)"
  by (cases plan; cases net) (auto simp: assertFeeWithinLimit_def lowestLimit_def)

text \<open>A fee limit that is set is enforced. A plan's or a network's limit that is not a whole number between 1 and the largest
  64-bit number is an error, never ignored; otherwise a fee passes the guard exactly when it is at most the plan's
  limit, where the plan has one, and at most the network's, where the workspace sets one.\<close>

theorem fee_limit_enforced:
  assumes "set_limit p"
  shows "(\<forall>e. parseMaxFeeSompi p = Inl e \<longrightarrow> effectiveFeeLimit p config network = Inl ''INVALID_MAX_FEE'') \<and>
    (\<forall>m l. parseMaxFeeSompi p = Inr m \<longrightarrow> effectiveFeeLimit p config network = Inr l \<longrightarrow> 0 < m \<and> m \<le> U64_MAX \<and>
      (\<forall>fee. assertFeeWithinLimit fee l = Inr () \<longleftrightarrow>
        fee \<le> m \<and> (\<forall>n. networkMaxFeeSompi config network = Inr (Some n) \<longrightarrow> fee \<le> n)))"
proof (intro conjI allI impI)
  fix e
  assume "parseMaxFeeSompi p = Inl e"
  moreover from this have "e = ''INVALID_MAX_FEE''" by (auto simp: parseMaxFeeSompi_def positiveU64_def split: option.splits if_splits)
  ultimately show "effectiveFeeLimit p config network = Inl ''INVALID_MAX_FEE''"
    using assms by (simp add: effectiveFeeLimit_def planLimit_def set_limit_def)
next
  fix m l
  assume m: "parseMaxFeeSompi p = Inr m" and l: "effectiveFeeLimit p config network = Inr l"
  show "0 < m" "m \<le> U64_MAX" using positiveU64_bounds m by (auto simp: parseMaxFeeSompi_def)
  fix fee
  show "assertFeeWithinLimit fee l = Inr () \<longleftrightarrow> fee \<le> m \<and> (\<forall>n. networkMaxFeeSompi config network = Inr (Some n) \<longrightarrow> fee \<le> n)"
    using l assms m by (auto simp: effectiveFeeLimit_def planLimit_def set_limit_def within_lowest)
qed

theorem fee_limit_enforced_witness:
  "\<exists>l. effectiveFeeLimit (JStr ''5000'') (JObj [(''networks'', JObj [(''simnet'', JObj [(''maxFeeSompi'', JNum 3000)])])]) (Some ''simnet'') = Inr l \<and>
     assertFeeWithinLimit 4000 l \<noteq> Inr () \<and> assertFeeWithinLimit 3000 l = Inr ()"
proof -
  let ?p = "JStr ''5000''" and ?c = "JObj [(''networks'', JObj [(''simnet'', JObj [(''maxFeeSompi'', JNum 3000)])])]"
  have *: "set_limit ?p" "parseMaxFeeSompi ?p = Inr 5000" "networkMaxFeeSompi ?c (Some ''simnet'') = Inr (Some 3000)"
      "effectiveFeeLimit ?p ?c (Some ''simnet'') = Inr (Some \<lparr>fl_maxFeeSompi = 3000, fl_source = FromNetworkConfig\<rparr>)"
    by code_simp+
  then show ?thesis using fee_limit_enforced [OF *(1), of ?c "Some ''simnet''"] by auto
qed

subsection \<open>The mainnet guard\<close>

text \<open>The names of mainnet, in lower case.\<close>

inductive mainnet_name :: "string \<Rightarrow> bool" where
  mainnet_kaspa: "mainnet_name ''kaspa''"
| mainnet_plain: "mainnet_name ''mainnet''"
| mainnet_numbered: "ds \<noteq> [] \<Longrightarrow> list_all is_digit ds \<Longrightarrow> mainnet_name (''mainnet-'' @ ds)"
| mainnet_prefixed: "mainnet_name ''kaspa-mainnet''"
| mainnet_prefixed_numbered: "ds \<noteq> [] \<Longrightarrow> list_all is_digit ds \<Longrightarrow> mainnet_name (''kaspa-mainnet-'' @ ds)"

inductive_cases mainnet_nameE: "mainnet_name n"

lemma hasType_mainnet:
  "hasType ''mainnet'' m \<longleftrightarrow> m = ''mainnet'' \<or> (\<exists>ds. ds \<noteq> [] \<and> list_all is_digit ds \<and> m = ''mainnet-'' @ ds)"
proof
  assume "hasType ''mainnet'' m"
  then obtain r where r: "m = ''mainnet'' @ r" "networkSuffix r" by (auto simp: hasType_def starts_with_iff)
  then show "m = ''mainnet'' \<or> (\<exists>ds. ds \<noteq> [] \<and> list_all is_digit ds \<and> m = ''mainnet-'' @ ds)"
    by (cases r) (auto simp: networkSuffix_def)
qed (auto simp: hasType_def starts_with_def networkSuffix_def)

lemma isMainnet_name: "isMainnetNetworkId (JStr s) \<longleftrightarrow> mainnet_name (map to_lower (js_trim s))"
proof -
  define n where "n = map to_lower (js_trim s)"
  have "isMainnetNetworkId (JStr s) \<longleftrightarrow> n = ''kaspa'' \<or> hasType ''mainnet'' (if starts_with n ''kaspa-'' then drop 6 n else n)"
    by (simp add: isMainnetNetworkId_def n_def Let_def)
  also have "\<dots> \<longleftrightarrow> mainnet_name n"
  proof (cases "starts_with n ''kaspa-''")
    case True
    then obtain m where m: "n = ''kaspa-'' @ m" by (auto simp: starts_with_iff)
    have "mainnet_name n \<longleftrightarrow> hasType ''mainnet'' m"
      unfolding hasType_mainnet m by (auto elim!: mainnet_nameE intro: mainnet_name.intros mainnet_prefixed_numbered [simplified])
    moreover have "drop 6 n = m" "n \<noteq> ''kaspa''" by (simp_all add: m)
    ultimately show ?thesis using True by simp
  next
    case False
    then have "mainnet_name n \<longleftrightarrow> n = ''kaspa'' \<or> hasType ''mainnet'' n"
      unfolding hasType_mainnet by (auto elim!: mainnet_nameE intro: mainnet_name.intros mainnet_numbered [simplified] simp: starts_with_def)
    then show ?thesis using False by simp
  qed
  finally show ?thesis by (simp add: n_def)
qed

lemma mainnet_nonBlank: "isMainnetNetworkId x \<Longrightarrow> nonBlank x"
  by (cases x) (auto simp: isMainnetNetworkId_def hasType_def starts_with_def)

text \<open>No spelling of mainnet passes the guard. Signing or broadcasting is allowed exactly when none of the network identities
  involved is a name of mainnet, whatever its case and surrounding blanks, wherever in the list it stands; otherwise
  the error is the one of the operation.\<close>

theorem mainnet_guard:
  "assertMainnetTransactionsDisabled op ids =
    (if \<exists>s. JStr s \<in> set ids \<and> mainnet_name (map to_lower (js_trim s))
     then Inl (case op of Sign \<Rightarrow> ''MAINNET_SIGNING_DISABLED'' | Broadcast \<Rightarrow> ''MAINNET_BROADCAST_DISABLED'')
     else Inr ())"
proof -
  have "list_ex isMainnetNetworkId (filter nonBlank ids) \<longleftrightarrow> (\<exists>x \<in> set ids. isMainnetNetworkId x)"
    using mainnet_nonBlank by (auto simp: list_ex_iff)
  also have "\<dots> \<longleftrightarrow> (\<exists>s. JStr s \<in> set ids \<and> isMainnetNetworkId (JStr s))"
  proof
    assume "\<exists>x \<in> set ids. isMainnetNetworkId x"
    then obtain x where x: "x \<in> set ids" "isMainnetNetworkId x" by blast
    have "isMainnetNetworkId x \<Longrightarrow> \<exists>s. x = JStr s" by (cases x) (auto simp: isMainnetNetworkId_def)
    then obtain s where "x = JStr s" using x(2) by blast
    then show "\<exists>s. JStr s \<in> set ids \<and> isMainnetNetworkId (JStr s)" using x by blast
  qed blast
  finally show ?thesis
    by (auto simp: assertMainnetTransactionsDisabled_def MAINNET_TRANSACTIONS_ENABLED_def isMainnet_name)
qed

subsection \<open>Confirmations\<close>

definition risk_rank :: "RiskProfile \<Rightarrow> nat" where
  "risk_rank r = (case r of Lenient \<Rightarrow> 0 | Standard \<Rightarrow> 1 | Strict \<Rightarrow> 2)"

lemma confirmations_monotone:
  assumes "0 \<le> a" "a \<le> b" "risk_rank r \<le> risk_rank q"
    and "getRequiredConfirmations a (Some r) = Inr m" "getRequiredConfirmations b (Some q) = Inr n"
  shows "1 \<le> m \<and> m \<le> n \<and> n \<le> 60"
proof -
  have "a div KAS_SOMPI \<le> b div KAS_SOMPI" using assms(2) by (simp add: KAS_SOMPI_def zdiv_mono1)
  then show ?thesis using assms
    by (cases r; cases q) (auto simp: getRequiredConfirmations_def risk_rank_def Let_def split: if_splits)
qed

end
