(* ===== verification/HK_Lineage.thy ===== *)
theory HK_Lineage
  imports HK_Json
begin

text \<open>
  Lineage of artifacts: \<open>packages/artifacts/src/lineage.ts\<close>. Artifacts are JSON values. Issues keep their code and
  severity; their messages, which only describe them, are left out. A schema of an artifact is a string, and a
  sequence number an integer.
\<close>

subsection \<open>Schemas\<close>

definition schemaSnapshot :: string where "schemaSnapshot = ''hardkas.snapshot''"

definition schemaSnapshotV1 :: string where "schemaSnapshotV1 = ''hardkas.snapshot.v1''"

definition schemaTxPlan :: string where "schemaTxPlan = ''hardkas.txPlan''"

definition schemaSignedTx :: string where "schemaSignedTx = ''hardkas.signedTx''"

definition schemaTxReceipt :: string where "schemaTxReceipt = ''hardkas.txReceipt''"

definition schemaTxReceiptV1 :: string where "schemaTxReceiptV1 = ''hardkas.txReceipt.v1''"

definition schemaTxTrace :: string where "schemaTxTrace = ''hardkas.txTrace''"

definition schemaTxSubmissionV1 :: string where "schemaTxSubmissionV1 = ''hardkas.txSubmission.v1''"

definition schemaTxObservationV1 :: string where "schemaTxObservationV1 = ''hardkas.txObservation.v1''"

definition schemaReplayReportV1 :: string where "schemaReplayReportV1 = ''hardkas.replayReport.v1''"

definition schemaMigrationReceiptV1 :: string where "schemaMigrationReceiptV1 = ''hardkas.migrationReceipt.v1''"

definition schemaWorkflowV1 :: string where "schemaWorkflowV1 = ''hardkas.workflow.v1''"

lemmas schema_defs = schemaSnapshot_def schemaSnapshotV1_def schemaTxPlan_def schemaSignedTx_def schemaTxReceipt_def
  schemaTxReceiptV1_def schemaTxTrace_def schemaTxSubmissionV1_def schemaTxObservationV1_def schemaReplayReportV1_def
  schemaMigrationReceiptV1_def schemaWorkflowV1_def

subsection \<open>Issues\<close>

datatype LineageSeverity = LError | LWarning

type_synonym lineage_issue = "string \<times> LineageSeverity"

definition issueIf :: "bool \<Rightarrow> string \<Rightarrow> LineageSeverity \<Rightarrow> lineage_issue list" where
  "issueIf c code severity = (if c then [(code, severity)] else [])"

lemma issueIf_simps [simp]: "issueIf True c s = [(c, s)]" "issueIf False c s = []"
  by (simp_all add: issueIf_def)

definition lineageOk :: "lineage_issue list \<Rightarrow> bool" where
  "lineageOk issues \<longleftrightarrow> list_all (\<lambda>i. snd i \<noteq> LError) issues"

definition isHash :: "json \<Rightarrow> bool" where
  "isHash j = (case j of JStr s \<Rightarrow> is_hex64 s | _ \<Rightarrow> False)"

subsection \<open>Verification\<close>

definition missingLineage :: "json \<Rightarrow> bool \<Rightarrow> lineage_issue list" where
  "missingLineage artifact strict =
     (let isWorkflow = (jget artifact ''schema'' = JStr schemaWorkflowV1);
          isSnapshot = (jget artifact ''schema'' = JStr schemaSnapshot \<or> jget artifact ''schema'' = JStr schemaSnapshotV1);
          isObservation = (jget artifact ''schema'' = JStr schemaTxObservationV1);
          severity = (if strict \<and> \<not> isWorkflow \<and> \<not> isSnapshot then LError else LWarning)
      in if isObservation then []
         else issueIf ((\<not> isWorkflow \<and> \<not> isSnapshot \<or> strict) \<and> (severity = LError \<or> \<not> isSnapshot)) ''MISSING_LINEAGE'' severity)"

definition structuralIssues :: "json \<Rightarrow> json \<Rightarrow> lineage_issue list" where
  "structuralIssues artifact lineage =
     (let isCurrentForm = ((case readDeclaredHashVersion artifact of None \<Rightarrow> 0 | Some v \<Rightarrow> v) \<ge> 5);
          isRootForm = (isCurrentForm \<and> \<not> truthy (jget lineage ''parentArtifactId''))
      in if isRootForm then
           (if \<not> truthy (jget lineage ''artifactId'') then [(''INVALID_LINEAGE_STRUCTURE'', LError)]
            else issueIf (\<not> isHash (jget lineage ''artifactId'')) ''INVALID_LINEAGE_FORMAT'' LError) @
           issueIf (jget lineage ''lineageId'' \<noteq> JUndefined) ''LINEAGE_ROOT_SELF_REFERENCE'' LError @
           issueIf (jget lineage ''rootArtifactId'' \<noteq> JUndefined) ''LINEAGE_ROOT_SELF_REFERENCE'' LError
         else if \<not> truthy (jget lineage ''artifactId'') \<or> \<not> truthy (jget lineage ''lineageId'') \<or> \<not> truthy (jget lineage ''rootArtifactId'')
         then [(''INVALID_LINEAGE_STRUCTURE'', LError)]
         else issueIf (\<not> isHash (jget lineage ''artifactId'')) ''INVALID_LINEAGE_FORMAT'' LError @
           issueIf (\<not> isHash (jget lineage ''lineageId'')) ''INVALID_LINEAGE_FORMAT'' LError @
           issueIf (\<not> isHash (jget lineage ''rootArtifactId'')) ''INVALID_LINEAGE_FORMAT'' LError @
           issueIf (truthy (jget lineage ''parentArtifactId'') \<and> \<not> isHash (jget lineage ''parentArtifactId'')) ''INVALID_LINEAGE_FORMAT'' LError)"

definition seq_le :: "json \<Rightarrow> json \<Rightarrow> bool" where
  "seq_le a b = (case (a, b) of (JNum i, JNum j) \<Rightarrow> i \<le> j | _ \<Rightarrow> False)"

definition continuityIssues :: "json \<Rightarrow> json \<Rightarrow> bool \<Rightarrow> lineage_issue list" where
  "continuityIssues lineage parentLineage strict =
     (if \<not> truthy parentLineage then [(''PARENT_MISSING_LINEAGE'', LError)]
      else
        (if \<not> truthy (jget lineage ''parentArtifactId'') then [(''MISSING_PARENT_ID'', LError)]
         else issueIf (jget lineage ''parentArtifactId'' \<noteq> jget parentLineage ''artifactId'') ''PARENT_ID_MISMATCH'' LError) @
        issueIf (jget lineage ''lineageId'' \<noteq> jnn (jget parentLineage ''lineageId'') (jget parentLineage ''artifactId'')) ''LINEAGE_ID_MISMATCH'' LError @
        issueIf (jget lineage ''rootArtifactId'' \<noteq> jnn (jget parentLineage ''rootArtifactId'') (jget parentLineage ''artifactId''))
          ''ROOT_ARTIFACT_ID_MISMATCH'' LError @
        issueIf (jget lineage ''sequence'' \<noteq> JUndefined \<and> jget parentLineage ''sequence'' \<noteq> JUndefined \<and>
            seq_le (jget lineage ''sequence'') (jget parentLineage ''sequence''))
          ''NON_MONOTONIC_SEQUENCE'' (if strict then LError else LWarning))"

definition validTransitions :: "(string \<times> string list) list" where
  "validTransitions =
     [(schemaSnapshot, [schemaTxPlan, schemaMigrationReceiptV1]),
      (schemaTxPlan, [schemaSignedTx, schemaMigrationReceiptV1]),
      (schemaSignedTx, [schemaTxReceipt, schemaTxSubmissionV1, schemaSignedTx, schemaMigrationReceiptV1]),
      (schemaTxReceipt, [schemaTxTrace, schemaReplayReportV1, schemaMigrationReceiptV1]),
      (schemaTxSubmissionV1, [schemaMigrationReceiptV1])]"

definition text_of :: "json \<Rightarrow> string" where
  "text_of j = (case j of JStr s \<Rightarrow> s | _ \<Rightarrow> [])"

definition withoutV1 :: "string \<Rightarrow> string" where
  "withoutV1 s = (let n = length s - 3 in if 3 \<le> length s \<and> drop n s = ''.v1'' then take n s else s)"

definition isValidTransition :: "json \<Rightarrow> json \<Rightarrow> bool" where
  "isValidTransition parent artifact \<longleftrightarrow>
     (if jget parent ''schema'' = JStr schemaMigrationReceiptV1 then jget parent ''toSchema'' = jget artifact ''schema''
      else if jget artifact ''schema'' = JStr schemaMigrationReceiptV1 then jget artifact ''fromSchema'' = jget parent ''schema''
      else (case map_of validTransitions (text_of (jget parent ''schema'')) of None \<Rightarrow> False | Some allowed \<Rightarrow>
        text_of (jget artifact ''schema'') \<in> set allowed)) \<or>
     (let parentBase = withoutV1 (text_of (jget parent ''schema'')); childBase = withoutV1 (text_of (jget artifact ''schema'')) in
      parentBase \<noteq> [] \<and> childBase \<noteq> [] \<and> parentBase = childBase)"

definition verifyLineage :: "json \<Rightarrow> json \<Rightarrow> bool \<Rightarrow> lineage_issue list" where
  "verifyLineage artifact parent strict =
     (let lineage = jget artifact ''lineage'' in
      if \<not> truthy lineage then missingLineage artifact strict
      else
        structuralIssues artifact lineage @
        issueIf (truthy (jget artifact ''contentHash'') \<and> jget lineage ''artifactId'' \<noteq> jget artifact ''contentHash'') ''LINEAGE_IDENTITY_MISMATCH'' LError @
        (if truthy parent then
           continuityIssues lineage (jget parent ''lineage'') strict @
           issueIf (jget artifact ''networkId'' \<noteq> jget parent ''networkId'') ''LINEAGE_NETWORK_MISMATCH'' LError @
           issueIf (jget artifact ''mode'' \<noteq> jget parent ''mode'') ''MODE_MISMATCH'' LError @
           issueIf (jget lineage ''artifactId'' = jget lineage ''parentArtifactId'') ''SELF_PARENT'' LError @
           issueIf (\<not> isValidTransition parent artifact) ''INVALID_TRANSITION'' LError
         else []))"

subsection \<open>Transitions\<close>

definition zeros64 :: string where
  "zeros64 = replicate 64 (CHR ''0'')"

definition seq_of :: "json \<Rightarrow> int" where
  "seq_of j = (case j of JNum i \<Rightarrow> i | _ \<Rightarrow> 0)"

definition createLineageTransition :: "json \<Rightarrow> json" where
  "createLineageTransition parent =
     (let parentLineage = jor (jget parent ''lineage'') (JObj []);
          parentId = jor (jget parent ''contentHash'') (jor (jget parent ''artifactId'') (jor (jget parent ''planId'')
            (jor (jget parent ''signedId'') (JStr zeros64))))
      in JObj [(''artifactId'', JStr []), (''lineageId'', jor (jget parentLineage ''lineageId'') parentId), (''parentArtifactId'', parentId),
           (''rootArtifactId'', jor (jget parentLineage ''rootArtifactId'') parentId),
           (''sequence'', JNum (seq_of (jget parentLineage ''sequence'') + 1))])"

end
