(* ===== verification/HK_Redact.thy ===== *)
theory HK_Redact
  imports HK_Json
begin

text \<open>
  Credentials of URLs: \<open>isSecretUrlParamName\<close>, \<open>redactParams\<close> and \<open>redactUrlCredentials\<close> of
  \<open>packages/core/src/security.ts\<close>.

  Code units are below 256. A percent-encoded name decodes to code points; of the letters that are not ASCII only the
  Kelvin sign has an ASCII lower case, so the others are left as they are where names are compared.
\<close>

subsection \<open>Cutting strings\<close>

text \<open>\<open>s.indexOf(c)\<close> with the two slices around it.\<close>

definition cutAt :: "char \<Rightarrow> string \<Rightarrow> string \<times> string option" where
  "cutAt c s = (if c \<in> set s then (takeWhile (\<lambda>d. d \<noteq> c) s, Some (tl (dropWhile (\<lambda>d. d \<noteq> c) s))) else (s, None))"

fun splitOn :: "char \<Rightarrow> string \<Rightarrow> string list" where
  "splitOn d [] = [[]]"
| "splitOn d (c # cs) = (if c = d then [] # splitOn d cs else (case splitOn d cs of [] \<Rightarrow> [[c]] | p # ps \<Rightarrow> (c # p) # ps))"

subsection \<open>Secret names\<close>

definition SECRET_FIELD_NAMES :: "string list" where
  "SECRET_FIELD_NAMES = [''privatekey'', ''privatekeyhex'', ''privatekeywif'', ''privkey'', ''xprv'', ''kprv'', ''ktrv'', ''extendedprivatekey'',
     ''masterxprv'', ''accountxprv'', ''seedhex'', ''bip39seed'', ''mnemonic'', ''seed'', ''seedphrase'', ''password'', ''passphrase'',
     ''keystorepassword'', ''secret'', ''secretkey'', ''apikey'', ''token'', ''accesstoken'', ''authtoken'']"

definition SECRET_URL_PARAM_NAMES :: "string list" where
  "SECRET_URL_PARAM_NAMES = [''token'', ''accesstoken'', ''authtoken'', ''apikey'', ''key'', ''auth'', ''sig'', ''signature'', ''password'',
     ''passphrase'', ''secret'', ''secretkey''] @ SECRET_FIELD_NAMES"

definition lowerPoint :: "nat \<Rightarrow> nat" where
  "lowerPoint n = (if 65 \<le> n \<and> n \<le> 90 then n + 32 else if n = 0x212A then 107 else n)"

definition normalizeSecretName :: "nat list \<Rightarrow> nat list" where
  "normalizeSecretName name = filter (\<lambda>n. n \<noteq> 95 \<and> n \<noteq> 45) (map lowerPoint name)"

definition isSecretUrlParamName :: "nat list \<Rightarrow> bool" where
  "isSecretUrlParamName name \<longleftrightarrow> normalizeSecretName name \<in> set (map (map of_char) SECRET_URL_PARAM_NAMES)"

subsection \<open>Percent decoding\<close>

definition percentByte :: "string \<Rightarrow> (nat \<times> string) option" where
  "percentByte s =
     (case s of p # a # b # r \<Rightarrow>
        if p = CHR ''%'' then (case (hex_val a, hex_val b) of (Some x, Some y) \<Rightarrow> Some (16 * x + y, r) | _ \<Rightarrow> None) else None
      | _ \<Rightarrow> None)"

fun continuation :: "nat \<Rightarrow> nat \<Rightarrow> string \<Rightarrow> (nat \<times> string) option" where
  "continuation 0 acc s = Some (acc, s)"
| "continuation (Suc n) acc s =
     (case percentByte s of Some (b, r) \<Rightarrow> if 128 \<le> b \<and> b < 192 then continuation n (64 * acc + (b - 128)) r else None | None \<Rightarrow> None)"

text \<open>One code point: a byte of ASCII, or a lead byte with its continuation; overlong forms, surrogates and points
  beyond the last one are errors.\<close>

definition codePoint :: "string \<Rightarrow> (nat \<times> string) option" where
  "codePoint s =
     (case percentByte s of None \<Rightarrow> None
      | Some (b, r) \<Rightarrow>
          if b < 128 then Some (b, r)
          else (let (n, lead, lo) = (if 192 \<le> b \<and> b < 224 then (1, b - 192, 0x80) else if 224 \<le> b \<and> b < 240 then (2, b - 224, 0x800)
                  else if 240 \<le> b \<and> b < 248 then (3, b - 240, 0x10000) else (0, 0, 1)) in
                case continuation n lead r of None \<Rightarrow> None
                | Some (v, r') \<Rightarrow> if lo \<le> v \<and> v \<le> 0x10FFFF \<and> \<not> (0xD800 \<le> v \<and> v \<le> 0xDFFF) then Some (v, r') else None))"

lemma percentByte_shorter: "percentByte s = Some (b, r) \<Longrightarrow> length r < length s"
  by (auto simp: percentByte_def split: list.splits if_splits option.splits)

lemma continuation_shorter: "continuation n acc s = Some (v, r) \<Longrightarrow> length r \<le> length s"
  by (induction n acc s rule: continuation.induct) (fastforce dest: percentByte_shorter split: option.splits if_splits)+

lemma codePoint_shorter: "codePoint s = Some (v, r) \<Longrightarrow> length r < length s"
  by (fastforce simp: codePoint_def Let_def dest: percentByte_shorter continuation_shorter split: option.splits if_splits prod.splits)

function decodePoints :: "string \<Rightarrow> nat list option" where
  "decodePoints [] = Some []"
| "decodePoints (c # cs) =
     (if c = CHR ''%'' then (case codePoint (c # cs) of Some (v, r) \<Rightarrow> map_option ((#) v) (decodePoints r) | None \<Rightarrow> None)
      else map_option ((#) (of_char c)) (decodePoints cs))"
  by pat_completeness auto
termination by (relation "measure length") (auto dest: codePoint_shorter)

subsection \<open>Parameters\<close>

definition URL_SECRET_MARKER :: string where "URL_SECRET_MARKER = ''REDACTED''"

definition paramName :: "string \<Rightarrow> nat list" where
  "paramName rawName =
     (case decodePoints (map (\<lambda>c. if c = CHR ''+'' then CHR '' '' else c) rawName) of Some name \<Rightarrow> name | None \<Rightarrow> map of_char rawName)"

definition redactPart :: "string \<Rightarrow> string" where
  "redactPart part =
     (case cutAt (CHR ''='') part of (rawName, None) \<Rightarrow> part
      | (rawName, Some v) \<Rightarrow> if isSecretUrlParamName (paramName rawName) then rawName @ ''='' @ URL_SECRET_MARKER else part)"

definition redactParams :: "string \<Rightarrow> string" where
  "redactParams params = join_with ''&'' (map redactPart (splitOn (CHR ''&'') params))"

subsection \<open>URLs\<close>

definition is_letter :: "char \<Rightarrow> bool" where
  "is_letter c \<longleftrightarrow> (let n = of_char (to_lower c) :: nat in 97 \<le> n \<and> n \<le> 122)"

definition schemeChar :: "char \<Rightarrow> bool" where
  "schemeChar c \<longleftrightarrow> is_letter c \<or> is_digit c \<or> c \<in> set ''+.-''"

text \<open>The length of the match of the pattern of a scheme, 0 when there is none.\<close>

definition schemeLength :: "string \<Rightarrow> nat" where
  "schemeLength s =
     (let name = takeWhile schemeChar s in
      if name \<noteq> [] \<and> is_letter (hd name) \<and> take 3 (drop (length name) s) = ''://'' then length name + 3 else 0)"

text \<open>\<open>user:password@host\<close> without a scheme.\<close>

definition bareUserinfo :: "string \<Rightarrow> bool" where
  "bareUserinfo authority =
     (case cutAt (CHR ''@'') authority of (user, Some host) \<Rightarrow>
        list_all (\<lambda>c. \<not> is_ws c \<and> c \<noteq> CHR ''/'') (user @ host) \<and> CHR '':'' \<in> set (drop 1 user) \<and> host \<noteq> [] \<and> CHR ''@'' \<notin> set host
      | _ \<Rightarrow> False)"

definition stripUserinfo :: "string \<Rightarrow> string" where
  "stripUserinfo head =
     (let n = schemeLength head; rest = drop n head; authority = fst (cutAt (CHR ''/'') rest) in
      if CHR ''@'' \<in> set authority \<and> (0 < n \<or> bareUserinfo authority)
      then take n head @ rev (takeWhile (\<lambda>c. c \<noteq> CHR ''@'') (rev authority)) @ drop (length authority) rest
      else head)"

definition redactFragment :: "string \<Rightarrow> string" where
  "redactFragment fragment = (if CHR ''='' \<in> set fragment then redactParams fragment else fragment)"

definition urlParts :: "string \<Rightarrow> string \<times> string option \<times> string option" where
  "urlParts url = (let (beforeHash, fragment) = cutAt (CHR ''#'') url; (head, query) = cutAt (CHR ''?'') beforeHash in (head, query, fragment))"

definition joinUrl :: "string \<times> string option \<times> string option \<Rightarrow> string" where
  "joinUrl = (\<lambda>(head, query, fragment). head @ (case query of None \<Rightarrow> [] | Some q \<Rightarrow> ''?'' @ q) @ (case fragment of None \<Rightarrow> [] | Some f \<Rightarrow> ''#'' @ f))"

definition redactUrlCredentials :: "string \<Rightarrow> string" where
  "redactUrlCredentials url =
     (if url = [] then url
      else let (head, query, fragment) = urlParts url in joinUrl (stripUserinfo head, map_option redactParams query, map_option redactFragment fragment))"

subsection \<open>Cutting and joining\<close>

lemma cutAt_absent [simp]: "c \<notin> set s \<Longrightarrow> cutAt c s = (s, None)"
  by (simp add: cutAt_def)

lemma cutAt_append [simp]: "c \<notin> set a \<Longrightarrow> cutAt c (a @ c # b) = (a, Some b)"
proof -
  assume "c \<notin> set a"
  then have "takeWhile (\<lambda>d. d \<noteq> c) (a @ c # b) = a" "dropWhile (\<lambda>d. d \<noteq> c) (a @ c # b) = c # b" by (induction a) auto
  then show ?thesis by (simp add: cutAt_def)
qed

lemma cutAt_fst: "c \<notin> set (fst (cutAt c s))" "set (fst (cutAt c s)) \<subseteq> set s"
  by (auto simp: cutAt_def dest: set_takeWhileD)

lemma cutAt_cases:
  obtains "c \<notin> set s" "cutAt c s = (s, None)" | a b where "c \<notin> set a" "s = a @ c # b" "cutAt c s = (a, Some b)"
proof (cases "c \<in> set s")
  case True
  then obtain a b where "s = a @ c # b" "c \<notin> set a" by (meson split_list_first)
  then show ?thesis using that(2) by simp
qed (use that(1) in simp)

lemma splitOn_nonempty [simp]: "splitOn d s \<noteq> []"
  by (induction s) (auto split: list.splits)

lemma splitOn_parts: "p \<in> set (splitOn d s) \<Longrightarrow> d \<notin> set p \<and> set p \<subseteq> set s"
  by (induction s arbitrary: p) (fastforce split: list.splits if_splits)+

lemma splitOn_part_append: "d \<notin> set p \<Longrightarrow> splitOn d (p @ d # s) = p # splitOn d s"
  by (induction p) auto

lemma splitOn_single: "d \<notin> set p \<Longrightarrow> splitOn d p = [p]"
  by (induction p) auto

lemma splitOn_join: "ps \<noteq> [] \<Longrightarrow> \<forall>p \<in> set ps. d \<notin> set p \<Longrightarrow> splitOn d (join_with [d] ps) = ps"
  by (induction "[d]" ps rule: join_with.induct) (simp_all add: splitOn_single splitOn_part_append)

subsection \<open>Redacted URLs\<close>

text \<open>What a part of a query carries: a secret name with a value other than the marker.\<close>

definition carriesSecret :: "string \<Rightarrow> bool" where
  "carriesSecret part =
     (case cutAt (CHR ''='') part of (rawName, Some v) \<Rightarrow> isSecretUrlParamName (paramName rawName) \<and> v \<noteq> URL_SECRET_MARKER | _ \<Rightarrow> False)"

lemma redactPart_cases:
  obtains "redactPart p = p" "\<not> carriesSecret p"
  | n v where "CHR ''='' \<notin> set n" "p = n @ ''='' @ v" "isSecretUrlParamName (paramName n)" "redactPart p = n @ ''='' @ URL_SECRET_MARKER"
proof (cases rule: cutAt_cases [of "CHR ''=''" p])
  case (2 a b)
  show ?thesis
  proof (cases "isSecretUrlParamName (paramName a)")
    case True
    then show ?thesis using 2 that(2) [of a b] by (simp add: redactPart_def)
  next
    case False
    then show ?thesis using 2 that(1) by (simp add: redactPart_def carriesSecret_def)
  qed
qed (use that(1) in \<open>simp add: redactPart_def carriesSecret_def\<close>)

lemma redactPart_clean: "\<not> carriesSecret (redactPart p)" "redactPart (redactPart p) = redactPart p"
  "carriesSecret p \<or> redactPart p = p" "set (redactPart p) \<subseteq> set p \<union> set URL_SECRET_MARKER" "CHR ''='' \<in> set (redactPart p) \<longleftrightarrow> CHR ''='' \<in> set p"
  by (cases rule: redactPart_cases [of p]; simp add: carriesSecret_def redactPart_def URL_SECRET_MARKER_def; auto)+


lemma redactParams_parts: "splitOn (CHR ''&'') (redactParams q) = map redactPart (splitOn (CHR ''&'') q)"
proof -
  have "CHR ''&'' \<notin> set (redactPart p)" if "p \<in> set (splitOn (CHR ''&'') q)" for p
    using splitOn_parts [OF that] redactPart_clean(4) [of p] by (auto simp: URL_SECRET_MARKER_def)
  then show ?thesis unfolding redactParams_def by (intro splitOn_join) auto
qed

lemma redactParams_idem: "redactParams (redactParams q) = redactParams q"
proof -
  have "redactParams (redactParams q) = join_with ''&'' (map redactPart (map redactPart (splitOn (CHR ''&'') q)))"
    unfolding redactParams_def [of "redactParams q"] redactParams_parts ..
  then show ?thesis by (simp add: redactPart_clean(2) redactParams_def comp_def)
qed

lemma set_join_with: "set (join_with sep ps) \<subseteq> set sep \<union> \<Union> (set ` set ps)" "p \<in> set ps \<Longrightarrow> set p \<subseteq> set (join_with sep ps)"
  by (induction sep ps rule: join_with.induct) auto

lemma splitOn_covers: "c \<in> set s \<Longrightarrow> c \<noteq> d \<Longrightarrow> \<exists>p \<in> set (splitOn d s). c \<in> set p"
  by (induction s) (auto split: list.splits)

lemma redactParams_chars:
  "set (redactParams q) \<subseteq> insert (CHR ''&'') (set q \<union> set URL_SECRET_MARKER)" "CHR ''='' \<in> set (redactParams q) \<longleftrightarrow> CHR ''='' \<in> set q"
proof -
  have sub: "set (redactPart p) \<subseteq> set q \<union> set URL_SECRET_MARKER" if "p \<in> set (splitOn (CHR ''&'') q)" for p
    using splitOn_parts [OF that] redactPart_clean(4) [of p] by blast
  then have "\<Union> (set ` set (map redactPart (splitOn (CHR ''&'') q))) \<subseteq> set q \<union> set URL_SECRET_MARKER" by auto
  then show "set (redactParams q) \<subseteq> insert (CHR ''&'') (set q \<union> set URL_SECRET_MARKER)"
    using set_join_with(1) [of "''&''" "map redactPart (splitOn (CHR ''&'') q)"] unfolding redactParams_def by simp blast
  have "CHR ''='' \<in> set (redactParams q)" if eq: "CHR ''='' \<in> set q"
  proof -
    obtain p where "p \<in> set (splitOn (CHR ''&'') q)" "CHR ''='' \<in> set p" using splitOn_covers [OF eq, of "CHR ''&''"] by auto
    then show ?thesis using set_join_with(2) [of "redactPart p" "map redactPart (splitOn (CHR ''&'') q)" "''&''"] redactPart_clean(5) [of p]
      unfolding redactParams_def by auto
  qed
  moreover have "CHR ''='' \<in> set q" if "CHR ''='' \<in> set (redactParams q)"
  proof -
    have "CHR ''='' \<in> (\<Union>p \<in> set (splitOn (CHR ''&'') q). set (redactPart p))"
      using that set_join_with(1) [of "''&''" "map redactPart (splitOn (CHR ''&'') q)"] unfolding redactParams_def by auto
    then show ?thesis using splitOn_parts redactPart_clean(5) by blast
  qed
  ultimately show "CHR ''='' \<in> set (redactParams q) \<longleftrightarrow> CHR ''='' \<in> set q" by blast
qed

lemma redactFragment_idem: "redactFragment (redactFragment f) = redactFragment f"
  by (simp add: redactFragment_def redactParams_chars(2) redactParams_idem)

lemma schemeLength_pos:
  assumes "0 < schemeLength s"
  obtains name r where "s = name @ ''://'' @ r" "\<forall>r'. schemeLength (name @ ''://'' @ r') = length name + 3"
proof -
  define name where "name = takeWhile schemeChar s"
  have n: "name \<noteq> []" "is_letter (hd name)" "take 3 (drop (length name) s) = ''://''" "list_all schemeChar name"
    using assms set_takeWhileD unfolding schemeLength_def name_def Let_def list_all_iff by (auto split: if_splits dest: set_takeWhileD)
  have sep: "\<not> schemeChar (CHR '':'')" by code_simp
  have "takeWhile schemeChar (name @ ''://'' @ r') = name" for r'
    using n(4) sep by (induction name) auto
  then have len: "schemeLength (name @ ''://'' @ r') = length name + 3" for r' using n(1,2) by (simp add: schemeLength_def Let_def)
  have "s = take (length name) s @ take 3 (drop (length name) s) @ drop 3 (drop (length name) s)" by (metis append_take_drop_id)
  moreover have "take (length name) s = name" unfolding name_def by (metis takeWhile_eq_take)
  ultimately have "s = name @ ''://'' @ drop 3 (drop (length name) s)" using n(3) by simp
  then show thesis using that len by blast
qed

lemma last_after: "c \<notin> set (rev (takeWhile (\<lambda>d. d \<noteq> c) (rev s)))" "set (rev (takeWhile (\<lambda>d. d \<noteq> c) (rev s))) \<subseteq> set s"
  by (auto dest: set_takeWhileD)

text \<open>The authority of a head with a scheme.\<close>

definition authorityOf :: "string \<Rightarrow> string" where
  "authorityOf head = fst (cutAt (CHR ''/'') (drop (schemeLength head) head))"

lemma cutAt_path: "fst (cutAt c s) @ drop (length (fst (cutAt c s))) s = s"
  "drop (length (fst (cutAt c s))) s = [] \<or> (\<exists>r. drop (length (fst (cutAt c s))) s = c # r)"
  by (cases rule: cutAt_cases [of c s]; simp)+

lemma fst_cutAt_append: "c \<notin> set a \<Longrightarrow> p = [] \<or> (\<exists>r. p = c # r) \<Longrightarrow> fst (cutAt c (a @ p)) = a"
  by auto

lemma stripUserinfo_clean:
  assumes "0 < schemeLength head"
  shows "0 < schemeLength (stripUserinfo head)" "CHR ''@'' \<notin> set (authorityOf (stripUserinfo head))"
    "stripUserinfo (stripUserinfo head) = stripUserinfo head" "set (stripUserinfo head) \<subseteq> set head"
proof -
  obtain name r where h: "head = name @ ''://'' @ r" "\<forall>r'. schemeLength (name @ ''://'' @ r') = length name + 3" by (rule schemeLength_pos [OF assms])
  define a where "a = fst (cutAt (CHR ''/'') r)"
  define p where "p = drop (length a) r"
  define b where "b = (if CHR ''@'' \<in> set a then rev (takeWhile (\<lambda>c. c \<noteq> CHR ''@'') (rev a)) else a)"
  have r: "r = a @ p" "p = [] \<or> (\<exists>q. p = CHR ''/'' # q)" using cutAt_path [of "CHR ''/''" r] by (simp_all add: a_def p_def)
  have b: "CHR ''@'' \<notin> set b" "set b \<subseteq> set a" using last_after [of "CHR ''@''" a] by (simp_all add: b_def)
  have "CHR ''/'' \<notin> set b" using b(2) cutAt_fst(1) [of "CHR ''/''" r] by (auto simp: a_def)
  then have cut: "fst (cutAt (CHR ''/'') (b @ p)) = b" using fst_cutAt_append r(2) by blast
  have strip: "stripUserinfo head = name @ ''://'' @ b @ p"
  proof -
    have "fst (cutAt (CHR ''/'') (a @ p)) = a" using r(1) by (simp add: a_def)
    then show ?thesis using h(2) [rule_format, of r] r(1) by (simp add: stripUserinfo_def Let_def h(1) b_def)
  qed
  have auth: "authorityOf (stripUserinfo head) = b" using h(2) [rule_format, of "b @ p"] cut unfolding strip by (simp add: authorityOf_def)
  show "0 < schemeLength (stripUserinfo head)" using h(2) [rule_format, of "b @ p"] unfolding strip by simp
  show "CHR ''@'' \<notin> set (authorityOf (stripUserinfo head))" using auth b(1) by simp
  then show "stripUserinfo (stripUserinfo head) = stripUserinfo head" by (simp add: stripUserinfo_def [of "stripUserinfo head"] authorityOf_def Let_def)
  show "set (stripUserinfo head) \<subseteq> set head" using b(2) r(1) unfolding strip by (auto simp: h(1))
qed

lemma urlParts_join:
  assumes "CHR ''#'' \<notin> set h" "CHR ''?'' \<notin> set h" "\<forall>q'. q = Some q' \<longrightarrow> CHR ''#'' \<notin> set q'"
  shows "urlParts (joinUrl (h, q, f)) = (h, q, f)"
  using assms cutAt_append [of "CHR ''#''" "h @ (case q of None \<Rightarrow> [] | Some q \<Rightarrow> ''?'' @ q)"]
  by (cases q; cases f) (auto simp: urlParts_def joinUrl_def Let_def)

lemma urlParts_chars:
  assumes "urlParts url = (h, q, f)"
  shows "CHR ''#'' \<notin> set h" "CHR ''?'' \<notin> set h" "\<forall>q'. q = Some q' \<longrightarrow> CHR ''#'' \<notin> set q'"
  using assms
  by (cases rule: cutAt_cases [of "CHR ''#''" url]; cases rule: cutAt_cases [of "CHR ''?''" "fst (cutAt (CHR ''#'') url)"]; auto simp: urlParts_def Let_def)+

text \<open>no credential of a URL is kept. In a URL with a scheme, the redaction leaves no user information before the host
  and no secret-named parameter with a value other than the marker; the parameters that carry no secret keep their
  bytes and their places, and redacting again changes nothing.\<close>

theorem redaction_removes_credentials:
  assumes "urlParts url = (head, query, fragment)" and "0 < schemeLength head"
  shows "\<exists>head' query' fragment'. urlParts (redactUrlCredentials url) = (head', query', fragment') \<and>
    schemeLength head' > 0 \<and> CHR ''@'' \<notin> set (authorityOf head') \<and>
    query' = map_option redactParams query \<and>
    (\<forall>q. query = Some q \<longrightarrow> list_all2 (\<lambda>p p'. \<not> carriesSecret p' \<and> (carriesSecret p \<or> p' = p))
       (splitOn (CHR ''&'') q) (splitOn (CHR ''&'') (redactParams q))) \<and>
    redactUrlCredentials (redactUrlCredentials url) = redactUrlCredentials url"
proof -
  note c = urlParts_chars [OF assms(1)] and s = stripUserinfo_clean [OF assms(2)]
  let ?parts = "(stripUserinfo head, map_option redactParams query, map_option redactFragment fragment)"
  have "url \<noteq> []" using assms by (auto simp: urlParts_def schemeLength_def)
  then have red: "redactUrlCredentials url = joinUrl ?parts" using assms(1) by (simp add: redactUrlCredentials_def)
  have h: "CHR ''#'' \<notin> set (stripUserinfo head)" "CHR ''?'' \<notin> set (stripUserinfo head)" using s(4) c(1,2) by blast+
  have q: "\<forall>q'. map_option redactParams query = Some q' \<longrightarrow> CHR ''#'' \<notin> set q'"
  proof (intro allI impI)
    fix q'
    assume "map_option redactParams query = Some q'"
    then obtain q where "query = Some q" "q' = redactParams q" by auto
    then show "CHR ''#'' \<notin> set q'" using c(3) redactParams_chars(1) [of q] by (auto simp: URL_SECRET_MARKER_def)
  qed
  have parts: "urlParts (redactUrlCredentials url) = ?parts" unfolding red by (rule urlParts_join [OF h q])
  have "stripUserinfo head \<noteq> []" using s(1) by (auto simp: schemeLength_def)
  then have "redactUrlCredentials url \<noteq> []" by (simp add: red joinUrl_def)
  then have "redactUrlCredentials (redactUrlCredentials url) = joinUrl ?parts"
    using s(3) by (simp add: redactUrlCredentials_def [of "redactUrlCredentials url"] parts option.map_comp comp_def redactParams_idem redactFragment_idem)
  then have "redactUrlCredentials (redactUrlCredentials url) = redactUrlCredentials url" using red by simp
  moreover have "list_all2 (\<lambda>p p'. \<not> carriesSecret p' \<and> (carriesSecret p \<or> p' = p)) (splitOn (CHR ''&'') q) (splitOn (CHR ''&'') (redactParams q))" for q
    using redactPart_clean(1,3) unfolding redactParams_parts by (simp add: list.rel_map list.rel_refl)
  ultimately show ?thesis using s(1,2) unfolding parts by simp
qed

definition ex_url :: string where
  "ex_url = ''ws://user:p@ss@host:17110/x?a=1&To_ken=abc#f''"

theorem redaction_removes_credentials_witness:
  "redactUrlCredentials ex_url = ''ws://host:17110/x?a=1&To_ken=REDACTED#f'' \<and> redactUrlCredentials (redactUrlCredentials ex_url) = redactUrlCredentials ex_url"
proof -
  have u: "urlParts ex_url = (''ws://user:p@ss@host:17110/x'', Some ''a=1&To_ken=abc'', Some ''f'')" "0 < schemeLength ''ws://user:p@ss@host:17110/x''"
    by code_simp+
  have "redactUrlCredentials ex_url = ''ws://host:17110/x?a=1&To_ken=REDACTED#f''" by code_simp
  then show ?thesis using redaction_removes_credentials [OF u] by blast
qed

end
