(* ===== verification/HK_SignedTx.thy ===== *)
theory HK_SignedTx
  imports HK_Lineage HK_Snapshot HK_PlanVerify HK_Redact
begin

text \<open>
  Plan, authorization and receipt artifacts of the simulator: \<open>packages/artifacts/src/workflow-id.ts\<close>,
  \<open>tx-plan.ts\<close> and \<open>signed-tx.ts\<close>.

  An artifact is a JSON object. The hash function \<open>sha\<close> is a parameter, and a runtime context carries the ISO text of
  its clock. An error is the message where a failed execution records it, and otherwise the code of the error. Where the source
  has the character U+2212 the message has its three UTF-8 bytes. The index of an outpoint that is not a number
  serializes as \<open>null\<close>.
\<close>

subsection \<open>Sealing an artifact\<close>

text \<open>The last steps of every producer: \<open>artifact.contentHash = hash\<close> and
  \<open>if (artifact.lineage) artifact.lineage.artifactId = hash\<close>.\<close>

definition sealWith :: "string \<Rightarrow> json \<Rightarrow> json" where
  "sealWith hash artifact =
     (let sealed = jset ''contentHash'' (JStr hash) artifact; lineage = jget sealed ''lineage'' in
      if truthy lineage then jset ''lineage'' (jset ''artifactId'' (JStr hash) lineage) sealed else sealed)"

record RuntimeContext =
  rc_now :: string
  rc_workflowId :: json
  rc_assumptionLevel :: json
  rc_utxoSelection :: json
  rc_pendingSpendEvidence :: json
  rc_planningWindow :: json
  rc_plannerAuthority :: json
  rc_plannerAuthorityDetail :: json

subsection \<open>Workflow identifiers\<close>

definition is_jstr :: "json \<Rightarrow> bool" where
  "is_jstr j = (case j of JStr s \<Rightarrow> True | _ \<Rightarrow> False)"

definition is_jarr :: "json \<Rightarrow> bool" where
  "is_jarr j = (case j of JArr xs \<Rightarrow> True | _ \<Rightarrow> False)"

definition assertIntent :: "json \<Rightarrow> unit result" where
  "assertIntent intent =
     (let kind = jget intent ''kind'' in
      if kind = JStr ''transfer'' then
        (if \<not> list_all (\<lambda>field. is_jstr (jget intent field)) [''networkId'', ''mode'', ''fromAddress'', ''toAddress'', ''amountSompi'']
         then Inl ''WORKFLOW_INTENT_INVALID''
         else if \<not> is_jarr (jget intent ''outpoints'') then Inl ''WORKFLOW_INTENT_INVALID'' else Inr ())
      else if kind = JStr ''steps'' then
        (if \<not> is_jarr (jget intent ''steps'') then Inl ''WORKFLOW_INTENT_INVALID'' else Inr ())
      else Inl ''WORKFLOW_INTENT_INVALID'')"

definition deriveWorkflowId :: "(string \<Rightarrow> string) \<Rightarrow> json \<Rightarrow> string result" where
  "deriveWorkflowId sha intent =
     bindE (assertIntent intent) (\<lambda>_.
     bindE (domainDigest sha intent CURRENT_DOMAIN_DIGEST_VERSION) (\<lambda>d. Inr (''wf_'' @ take 16 d)))"

definition indexJson :: "int option \<Rightarrow> json" where
  "indexJson n = (case n of None \<Rightarrow> JFrac ''null'' | Some i \<Rightarrow> JNum i)"

definition outpointJson :: "Outpoint \<Rightarrow> json" where
  "outpointJson p = JObj [(''transactionId'', JStr (op_transactionId p)), (''index'', indexJson (op_index p))]"

definition deriveIntentWorkflowId ::
    "(string \<Rightarrow> string) \<Rightarrow> string \<Rightarrow> string \<Rightarrow> string \<Rightarrow> string \<Rightarrow> string \<Rightarrow> Outpoint list \<Rightarrow> string result" where
  "deriveIntentWorkflowId sha networkId mode fromAddress toAddress amountSompi outpoints =
     deriveWorkflowId sha (JObj [(''kind'', JStr ''transfer''), (''networkId'', JStr networkId), (''mode'', JStr mode),
       (''fromAddress'', JStr fromAddress), (''toAddress'', JStr toAddress), (''amountSompi'', JStr amountSompi),
       (''outpoints'', JArr (map outpointJson outpoints))])"

subsection \<open>Plan artifacts\<close>

definition schemaArtifactV1 :: string where "schemaArtifactV1 = ''hardkas.artifact.v1''"

record CreateTxPlanArtifactOptions =
  cp_networkId :: string
  cp_mode :: string
  cp_fromInput :: string
  cp_fromAddress :: string
  cp_fromAccountName :: "string option"
  cp_toInput :: string
  cp_toAddress :: string
  cp_amountSompi :: int
  cp_plan :: TxPlan
  cp_rpcUrl :: "string option"
  cp_ctx :: RuntimeContext
  cp_maxFeeSompi :: "int option"

definition optStr :: "string option \<Rightarrow> json" where
  "optStr s = (case s of None \<Rightarrow> JUndefined | Some t \<Rightarrow> JStr t)"

text \<open>\<open>...(x !== undefined ? { k: x.toString() } : {})\<close>.\<close>

definition opt_int :: "string \<Rightarrow> int option \<Rightarrow> (string \<times> json) list" where
  "opt_int k x = (case x of None \<Rightarrow> [] | Some i \<Rightarrow> [(k, JStr (int_str i))])"

definition planInputJson :: "Utxo \<Rightarrow> json" where
  "planInputJson i = JObj ([(''outpoint'', outpointJson (ux_outpoint i)), (''amountSompi'', JStr (int_str (ux_amountSompi i))),
     (''address'', JStr (ux_address i)), (''scriptPublicKey'', JStr (ux_scriptPublicKey i))] @
     opt_int ''blockDaaScore'' (ux_blockDaaScore i) @
     (case ux_isCoinbase i of None \<Rightarrow> [] | Some b \<Rightarrow> [(''isCoinbase'', JBool b)]) @
     opt_field ''covenantId'' (ux_covenantId i) @ opt_field ''lane'' (ux_lane i))"

definition planOutputJson :: "TxOutput \<Rightarrow> json" where
  "planOutputJson t = JObj ([(''address'', JStr (to_address t)), (''amountSompi'', JStr (int_str (to_amountSompi t)))] @
     (case to_covenant t of None \<Rightarrow> [] | Some c \<Rightarrow>
       [(''covenant'', JObj [(''covenantId'', JStr (cb_covenantId c)), (''authorizingInput'', JNum (cb_authorizingInput c))])]))"

definition executionJson :: "json \<Rightarrow> json \<Rightarrow> json" where
  "executionJson mode network = JObj [(''mode'', mode), (''domain'', JStr ''kaspa-l1''), (''network'', network)]"

definition changeJson :: "TxOutput option \<Rightarrow> (string \<times> json) list" where
  "changeJson change = (case change of None \<Rightarrow> [] | Some c \<Rightarrow>
     [(''change'', JObj [(''address'', JStr (to_address c)), (''amountSompi'', JStr (int_str (to_amountSompi c)))])])"

definition planDraft :: "CreateTxPlanArtifactOptions \<Rightarrow> json \<Rightarrow> (string \<times> json) list" where
  "planDraft o' workflowId =
     (let ctx = cp_ctx o'; plan = cp_plan o' in
      [(''schema'', JStr schemaTxPlan), (''hardkasVersion'', JStr HARDKAS_VERSION), (''schemaVersion'', JStr schemaArtifactV1),
       (''version'', JStr ARTIFACT_VERSION), (''hashVersion'', JNum CURRENT_HASH_VERSION), (''createdAt'', JStr (rc_now ctx)),
       (''networkId'', JStr (cp_networkId o')), (''mode'', JStr (cp_mode o')),
       (''execution'', executionJson (JStr (cp_mode o')) (JStr (cp_networkId o'))),
       (''from'', JObj [(''address'', JStr (cp_fromAddress o')), (''accountName'', optStr (cp_fromAccountName o')), (''input'', JStr (cp_fromInput o'))]),
       (''to'', JObj [(''address'', JStr (cp_toAddress o')), (''input'', JStr (cp_toInput o'))]),
       (''amountSompi'', JStr (int_str (cp_amountSompi o'))),
       (''estimatedFeeSompi'', JStr (int_str (pl_estimatedFeeSompi plan))),
       (''estimatedMass'', JStr (int_str (pl_estimatedMass plan))),
       (''inputs'', JArr (map planInputJson (pl_inputs plan))),
       (''outputs'', JArr (map planOutputJson (pl_outputs plan))),
       (''rpcUrl'', optStr (map_option redactUrlCredentials (cp_rpcUrl o'))),
       (''lineage'', JObj [(''artifactId'', JStr []), (''sequence'', JNum 1)]),
       (''workflowId'', workflowId),
       (''metadata'', JObj ([(''schema'', JStr schemaArtifactV1)] @
          jwhen (truthy (rc_utxoSelection ctx)) ''utxoSelection'' (rc_utxoSelection ctx) @
          jwhen (truthy (rc_pendingSpendEvidence ctx)) ''pendingSpendEvidence'' (rc_pendingSpendEvidence ctx) @
          jwhen (truthy (rc_planningWindow ctx)) ''planningWindow'' (rc_planningWindow ctx))),
       (''assumptionLevel'', jor (rc_assumptionLevel ctx)
          (JStr (if cp_mode o' = ''simulator'' then ''local-simulated'' else ''local-dev'')))] @
      jwhen (truthy (rc_plannerAuthority ctx)) ''plannerAuthority'' (rc_plannerAuthority ctx) @
      jwhen (truthy (rc_plannerAuthorityDetail ctx)) ''plannerAuthorityDetail'' (rc_plannerAuthorityDetail ctx) @
      opt_int ''computeBudget'' (pl_computeBudget plan) @ opt_int ''storageMass'' (pl_storageMass plan) @
      opt_field ''lane'' (pl_lane plan) @ [(''txVersion'', JNum (pl_version plan))] @
      opt_int ''maxFeeSompi'' (cp_maxFeeSompi o') @ changeJson (pl_change plan))"

text \<open>\<open>finalizeTxPlanIdentity\<close> sets the version, hashes, and then writes hash, label and self reference.\<close>

definition finalizeTxPlanIdentity :: "(string \<Rightarrow> string) \<Rightarrow> json \<Rightarrow> json result" where
  "finalizeTxPlanIdentity sha plan =
     (let plan' = jset ''hashVersion'' (JNum CURRENT_HASH_VERSION) plan in
      bindE (calculateContentHash sha plan' CURRENT_HASH_VERSION) (\<lambda>hash.
        let sealed = jset ''planId'' (JStr (''plan-'' @ take 16 hash)) (jset ''contentHash'' (JStr hash) plan');
            lineage = jget sealed ''lineage''
        in Inr (if truthy lineage then jset ''lineage'' (jset ''artifactId'' (JStr hash) lineage) sealed else sealed)))"

definition createTxPlanArtifact :: "(string \<Rightarrow> string) \<Rightarrow> CreateTxPlanArtifactOptions \<Rightarrow> json result" where
  "createTxPlanArtifact sha o' =
     bindE (if rc_workflowId (cp_ctx o') \<noteq> JUndefined \<and> rc_workflowId (cp_ctx o') \<noteq> JNull then Inr (rc_workflowId (cp_ctx o'))
       else bindE (deriveIntentWorkflowId sha (cp_networkId o') (cp_mode o') (cp_fromAddress o') (cp_toAddress o') (int_str (cp_amountSompi o'))
              (map ux_outpoint (pl_inputs (cp_plan o')))) (\<lambda>w. Inr (JStr w)))
       (\<lambda>workflowId. finalizeTxPlanIdentity sha (JObj (planDraft o' workflowId)))"

subsection \<open>Synthetic authorizations\<close>

definition SYNTHETIC_AUTHORIZATION_FORMAT :: string where
  "SYNTHETIC_AUTHORIZATION_FORMAT = ''synthetic-authorization''"

definition is_lower_hex :: "char \<Rightarrow> bool" where
  "is_lower_hex c \<longleftrightarrow> is_digit c \<or> (let n = of_char c :: nat in 97 \<le> n \<and> n \<le> 102)"

definition HEX64 :: "string \<Rightarrow> bool" where
  "HEX64 s \<longleftrightarrow> length s = 64 \<and> list_all is_lower_hex s"

definition is_HEX64 :: "json \<Rightarrow> bool" where
  "is_HEX64 j = (case j of JStr s \<Rightarrow> HEX64 s | _ \<Rightarrow> False)"

definition json_text :: "json \<Rightarrow> string" where
  "json_text j = (case j of JStr s \<Rightarrow> json_string s | _ \<Rightarrow> template_text j)"

definition syntheticTxIdFor :: "json \<Rightarrow> string result" where
  "syntheticTxIdFor planArtifactId =
     (if \<not> is_HEX64 planArtifactId
      then Inl (''A synthetic txId names a plan by its 64-hex artifactId (got '' @ json_text planArtifactId @ '')'')
      else Inr (''synthetic-'' @ text_of planArtifactId))"

definition authorizablePlanIdentity :: "(string \<Rightarrow> string) \<Rightarrow> json \<Rightarrow> string result" where
  "authorizablePlanIdentity sha p =
     (if \<not> is_HEX64 (jget p ''contentHash'') then Inl ''PLAN_UNIDENTIFIED''
      else if jget p ''hashVersion'' \<noteq> JNum CURRENT_HASH_VERSION then Inl ''MIGRATION_REQUIRED''
      else bindE (calculateContentHash sha p CURRENT_HASH_VERSION) (\<lambda>recomputed.
        if JStr recomputed \<noteq> jget p ''contentHash'' then Inl ''PLAN_UNIDENTIFIED'' else Inr recomputed))"

text \<open>A signer is an address, or an account that carries one.\<close>

datatype SyntheticSigner = SignerAddress string | SignerAccount "string option"

definition signerAddressOf :: "SyntheticSigner \<Rightarrow> string result" where
  "signerAddressOf signer =
     (case (case signer of SignerAddress a \<Rightarrow> Some a | SignerAccount a \<Rightarrow> a) of
        None \<Rightarrow> Inl ''SIGNER_MISMATCH''
      | Some address \<Rightarrow> if address = [] then Inl ''SIGNER_MISMATCH'' else Inr address)"

definition signedDraft :: "json \<Rightarrow> string \<Rightarrow> string \<Rightarrow> string \<Rightarrow> RuntimeContext \<Rightarrow> json \<Rightarrow> (string \<times> json) list" where
  "signedDraft plan planArtifactId signerAddress txId ctx toAddress =
     [(''schema'', JStr schemaSignedTx), (''schemaVersion'', JStr schemaArtifactV1), (''hardkasVersion'', JStr HARDKAS_VERSION),
      (''version'', JStr ARTIFACT_VERSION), (''hashVersion'', JNum CURRENT_HASH_VERSION), (''createdAt'', JStr (rc_now ctx)),
      (''status'', JStr ''signed''), (''sourcePlanId'', jget plan ''planId''), (''networkId'', jget plan ''networkId''),
      (''mode'', jget plan ''mode''), (''from'', JObj [(''address'', jget (jget plan ''from'') ''address'')]),
      (''to'', JObj [(''address'', toAddress)]), (''amountSompi'', jget plan ''amountSompi''), (''txId'', JStr txId),
      (''authorization'', JObj [(''kind'', JStr ''synthetic''), (''planArtifactId'', JStr planArtifactId), (''signers'', JArr [JStr signerAddress])]),
      (''signedTransaction'', JObj [(''format'', JStr SYNTHETIC_AUTHORIZATION_FORMAT), (''payload'', JStr planArtifactId)]),
      (''lineage'', createLineageTransition plan),
      (''execution'', jor (jget plan ''execution'') (executionJson (jget plan ''mode'') (jget plan ''networkId'')))] @
     jwhen (truthy (jget plan ''workflowId'')) ''workflowId'' (jget plan ''workflowId'') @
     jwhen (truthy (jget plan ''assumptionLevel'')) ''assumptionLevel'' (jget plan ''assumptionLevel'')"

definition createSimulatedSignedTxArtifact :: "(string \<Rightarrow> string) \<Rightarrow> json \<Rightarrow> SyntheticSigner \<Rightarrow> RuntimeContext \<Rightarrow> json result" where
  "createSimulatedSignedTxArtifact sha plan signer ctx =
     bindE (authorizablePlanIdentity sha plan) (\<lambda>planArtifactId.
     bindE (signerAddressOf signer) (\<lambda>signerAddress.
     bindE (jfield (jget plan ''from'') ''address'') (\<lambda>fromAddress.
       if JStr signerAddress \<noteq> fromAddress then Inl ''SIGNER_MISMATCH''
       else bindE (jfield (jget plan ''to'') ''address'') (\<lambda>toAddress.
         bindE (syntheticTxIdFor (JStr planArtifactId)) (\<lambda>txId.
         let artifact = JObj (signedDraft plan planArtifactId signerAddress txId ctx toAddress) in
         bindE (calculateContentHash sha artifact CURRENT_HASH_VERSION) (\<lambda>hash.
           Inr (sealWith hash (jset ''signedId'' (JStr (''signed-'' @ take 16 hash)) artifact))))))))"

text \<open>\<open>Array.from(new Set(xs)).sort()\<close>, and \<open>Number(v)\<close> of a threshold; a threshold is an integer.\<close>

definition sortedUnique :: "string list \<Rightarrow> string list" where
  "sortedUnique xs = js_sort deterministicCompare (rev (remdups (rev xs)))"

fun numberOf :: "json \<Rightarrow> int option" where
  "numberOf JNull = Some 0"
| "numberOf (JBool b) = Some (if b then 1 else 0)"
| "numberOf (JNum i) = Some i"
| "numberOf (JBigInt i) = Some i"
| "numberOf (JStr s) = BigInt s"
| "numberOf _ = None"

definition NUL :: string where "NUL = [CHR 0x00]"

definition signersOf :: "json \<Rightarrow> string list" where
  "signersOf auth = (case jget auth ''signers'' of JArr xs \<Rightarrow> map text_of xs | _ \<Rightarrow> [])"

definition authShapeOk :: "json \<Rightarrow> bool" where
  "authShapeOk auth \<longleftrightarrow> jget auth ''kind'' = JStr ''synthetic'' \<and> is_HEX64 (jget auth ''planArtifactId'') \<and>
     (case jget auth ''signers'' of JArr xs \<Rightarrow> xs \<noteq> [] \<and> list_all (\<lambda>x. is_jstr x \<and> text_of x \<noteq> []) xs | _ \<Rightarrow> False)"

record SyntheticAuthorization =
  sa_planArtifactId :: string
  sa_txId :: string
  sa_signers :: "string list"

text \<open>The three parts of the check, each \<open>Some code\<close> when it fails: the completed or partial transaction, the
  signers with their lineage, and the binding to a plan.\<close>

definition statusCheck :: "json \<Rightarrow> string \<Rightarrow> string \<Rightarrow> string option" where
  "statusCheck s planArtifactId expectedTxId =
     (if jget s ''status'' = JStr ''signed'' then
        (if jget (jget s ''signedTransaction'') ''format'' \<noteq> JStr SYNTHETIC_AUTHORIZATION_FORMAT then Some ''AUTHORIZATION_INVALID''
         else if jget (jget s ''signedTransaction'') ''payload'' \<noteq> JStr planArtifactId then Some ''AUTHORIZATION_PLAN_MISMATCH''
         else if jget s ''txId'' \<noteq> JStr expectedTxId then Some ''AUTHORIZATION_PLAN_MISMATCH'' else None)
      else if jget s ''status'' = JStr ''partially_signed'' then
        (if jget s ''signedTransaction'' \<noteq> JUndefined \<or> jget s ''txId'' \<noteq> JUndefined then Some ''AUTHORIZATION_INVALID'' else None)
      else Some ''AUTHORIZATION_INVALID'')"

definition arrayOr :: "json \<Rightarrow> json list" where
  "arrayOr j = (case j of JArr xs \<Rightarrow> xs | _ \<Rightarrow> [])"

definition signersCheck :: "json \<Rightarrow> string \<Rightarrow> string list \<Rightarrow> string option" where
  "signersCheck s planArtifactId signers =
     (let multisig = jget s ''multisig''; fromAddress = jget (jget s ''from'') ''address'' in
      if multisig = JUndefined then
        (if jget (jget s ''lineage'') ''parentArtifactId'' \<noteq> JStr planArtifactId then Some ''AUTHORIZATION_PLAN_MISMATCH''
         else if length signers \<noteq> 1 \<or> JStr (hd signers) \<noteq> fromAddress then Some ''SIGNER_MISMATCH'' else None)
      else
        (let entries = arrayOr (jget multisig ''signatures''); required = arrayOr (jget multisig ''requiredSigners'') in
         if list_ex (\<lambda>e. jget e ''kind'' \<noteq> JStr ''synthetic'' \<or> jget e ''signature'' \<noteq> JUndefined) entries then Some ''AUTHORIZATION_INVALID''
         else if join_with NUL (sortedUnique (map (\<lambda>e. template_text (jget e ''signer'')) entries)) \<noteq> join_with NUL signers
         then Some ''SIGNER_MISMATCH''
         else if \<not> list_all (\<lambda>x. JStr x \<in> set required) signers then Some ''SIGNER_MISMATCH''
         else if jget s ''status'' = JStr ''signed'' \<and>
             (case numberOf (jget multisig ''threshold'') of None \<Rightarrow> False | Some t \<Rightarrow> int (length signers) < t)
         then Some ''AUTHORIZATION_INVALID''
         else if jget s ''status'' = JStr ''signed'' \<and> fromAddress \<notin> JStr ` set signers then Some ''SIGNER_MISMATCH'' else None))"

definition planCheck :: "(string \<Rightarrow> string) \<Rightarrow> json \<Rightarrow> json \<Rightarrow> string \<Rightarrow> string list \<Rightarrow> string option" where
  "planCheck sha s p planArtifactId signers =
     (if jget p ''contentHash'' \<noteq> JStr planArtifactId then Some ''AUTHORIZATION_PLAN_MISMATCH''
      else if \<not> is_ok (authorizablePlanIdentity sha p) then Some ''PLAN_NOT_FULL''
      else if jget (jget p ''from'') ''address'' \<notin> JStr ` set signers then Some ''SIGNER_MISMATCH''
      else if jget (jget s ''from'') ''address'' \<noteq> jget (jget p ''from'') ''address'' \<or>
          jget (jget s ''to'') ''address'' \<noteq> jget (jget p ''to'') ''address'' \<or>
          template_text (jget s ''amountSompi'') \<noteq> template_text (jget p ''amountSompi'') \<or>
          jget s ''networkId'' \<noteq> jget p ''networkId''
      then Some ''AUTHORIZATION_PLAN_MISMATCH''
      else if jget s ''multisig'' \<noteq> JUndefined \<and>
          jget (jget s ''lineage'') ''rootArtifactId'' \<noteq> jnn (jget (jget p ''lineage'') ''rootArtifactId'') (jget p ''contentHash'')
      then Some ''AUTHORIZATION_PLAN_MISMATCH'' else None)"

text \<open>A plan that is not given is \<^const>\<open>JUndefined\<close>.\<close>

definition checkSyntheticAuthorization :: "(string \<Rightarrow> string) \<Rightarrow> json \<Rightarrow> json \<Rightarrow> SyntheticAuthorization result" where
  "checkSyntheticAuthorization sha s plan =
     (let auth = jget s ''authorization'' in
      if auth = JUndefined \<or> auth = JNull then
        (if jget (jget s ''signedTransaction'') ''format'' = JStr SYNTHETIC_AUTHORIZATION_FORMAT then Inl ''AUTHORIZATION_INVALID''
         else Inl ''LEGACY_UNBOUND_SIGNED'')
      else if \<not> authShapeOk auth then Inl ''AUTHORIZATION_INVALID''
      else (let planArtifactId = text_of (jget auth ''planArtifactId''); signers = signersOf auth in
        if join_with NUL signers \<noteq> join_with NUL (sortedUnique signers) then Inl ''AUTHORIZATION_INVALID''
        else bindE (syntheticTxIdFor (JStr planArtifactId)) (\<lambda>expectedTxId.
          case statusCheck s planArtifactId expectedTxId of Some code \<Rightarrow> Inl code | None \<Rightarrow>
          (case signersCheck s planArtifactId signers of Some code \<Rightarrow> Inl code | None \<Rightarrow>
          (case (if plan \<noteq> JUndefined then planCheck sha s plan planArtifactId signers else None) of Some code \<Rightarrow> Inl code | None \<Rightarrow>
            Inr \<lparr>sa_planArtifactId = planArtifactId, sa_txId = expectedTxId, sa_signers = signers\<rparr>)))))"

subsection \<open>Receipts\<close>

definition itemAmount :: "json \<Rightarrow> int result" where
  "itemAmount i = bindE (jfield i ''amountSompi'') json_bigE"

fun addItems :: "int \<Rightarrow> json list \<Rightarrow> int result" where
  "addItems acc [] = Inr acc"
| "addItems acc (i # is) = bindE (itemAmount i) (\<lambda>a. addItems (acc + a) is)"

text \<open>The fee, or the reason why there is none.\<close>

definition deriveSimulatedFee :: "json \<Rightarrow> (string + int) result" where
  "deriveSimulatedFee plan =
     (let inputs = arrayOr (jget plan ''inputs'') in
      if inputs = [] then Inr (Inl ''the plan records no inputs'')
      else bindE (addItems 0 inputs) (\<lambda>consumed.
        bindE (jlist (jnn (jget plan ''outputs'') (JArr []))) (\<lambda>outputs.
        bindE (addItems 0 outputs) (\<lambda>paid.
        bindE (if truthy (jget plan ''change'') then bindE (itemAmount (jget plan ''change'')) (\<lambda>c. Inr (paid + c)) else Inr paid) (\<lambda>produced.
          if produced > consumed
          then Inr (Inl (''outputs ('' @ int_str produced @ '') exceed inputs ('' @ int_str consumed @ '')''))
          else Inr (Inr (consumed - produced)))))))"

record ReceiptExtra =
  re_spentUtxoIds :: json
  re_createdUtxoIds :: json
  re_daaScore :: json
  re_preStateHash :: json
  re_postStateHash :: json
  re_dagContext :: json
  re_submittedAt :: json
  re_confirmedAt :: json
  re_rpcUrl :: json
  re_tracePath :: json
  re_sourceSignedId :: json
  re_parentArtifact :: json

definition receiptDraft :: "json \<Rightarrow> string \<Rightarrow> RuntimeContext \<Rightarrow> ReceiptExtra \<Rightarrow> json \<Rightarrow> json \<Rightarrow> int \<Rightarrow> (string \<times> json) list" where
  "receiptDraft plan txId ctx extra fromAddress toAddress fee =
     [(''schema'', JStr schemaTxReceipt), (''schemaVersion'', JStr schemaTxReceiptV1), (''hardkasVersion'', JStr HARDKAS_VERSION),
      (''version'', JStr ARTIFACT_VERSION), (''hashVersion'', JNum CURRENT_HASH_VERSION), (''createdAt'', JStr (rc_now ctx)),
      (''txId'', JStr txId), (''status'', JStr ''accepted''), (''mode'', JStr ''simulator''), (''networkId'', jget plan ''networkId''),
      (''from'', JObj [(''address'', fromAddress)]), (''to'', JObj [(''address'', toAddress)]),
      (''amountSompi'', jget plan ''amountSompi''), (''feeSompi'', JStr (int_str fee)), (''mass'', jget plan ''estimatedMass''),
      (''changeSompi'', jget (jget plan ''change'') ''amountSompi''), (''spentUtxoIds'', re_spentUtxoIds extra),
      (''createdUtxoIds'', re_createdUtxoIds extra), (''daaScore'', re_daaScore extra), (''preStateHash'', re_preStateHash extra),
      (''postStateHash'', re_postStateHash extra), (''dagContext'', re_dagContext extra),
      (''lineage'', createLineageTransition (jnn (re_parentArtifact extra) plan)),
      (''execution'', jor (jget plan ''execution'') (executionJson (jget plan ''mode'') (jget plan ''networkId'')))] @
     jwhen (truthy (jget plan ''workflowId'')) ''workflowId'' (jget plan ''workflowId'') @
     jwhen (truthy (jget plan ''assumptionLevel'')) ''assumptionLevel'' (jget plan ''assumptionLevel'') @
     jwhen (truthy (re_submittedAt extra)) ''submittedAt'' (re_submittedAt extra) @
     jwhen (truthy (re_confirmedAt extra)) ''confirmedAt'' (re_confirmedAt extra) @
     jwhen (truthy (re_rpcUrl extra)) ''rpcUrl'' (re_rpcUrl extra) @
     jwhen (truthy (re_tracePath extra)) ''tracePath'' (re_tracePath extra) @
     jwhen (truthy (re_sourceSignedId extra)) ''sourceSignedId'' (re_sourceSignedId extra)"

definition MINUS :: string where "MINUS = [CHR 0xE2, CHR 0x88, CHR 0x92]"

definition createSimulatedTxReceipt :: "(string \<Rightarrow> string) \<Rightarrow> json \<Rightarrow> string \<Rightarrow> RuntimeContext \<Rightarrow> ReceiptExtra \<Rightarrow> json result" where
  "createSimulatedTxReceipt sha plan txId ctx extra =
     bindE (deriveSimulatedFee plan) (\<lambda>derivedFee. case derivedFee of
       Inl reason \<Rightarrow> Inl (''Refusing to write a simulated receipt: the fee cannot be derived from the plan ('' @ reason @ '')'')
     | Inr fee \<Rightarrow>
         bindE (json_bigE (jget plan ''estimatedFeeSompi'')) (\<lambda>declared.
         if declared \<noteq> fee
         then Inl (''Refusing to write a simulated receipt: the plan declares estimatedFeeSompi '' @ template_text (jget plan ''estimatedFeeSompi'') @
           '' but consumes '' @ MINUS @ '' produces = '' @ int_str fee)
         else bindE (jfield (jget plan ''from'') ''address'') (\<lambda>fromAddress.
           bindE (jfield (jget plan ''to'') ''address'') (\<lambda>toAddress.
           let artifact = JObj (receiptDraft plan txId ctx extra fromAddress toAddress fee) in
           bindE (calculateContentHash sha artifact CURRENT_HASH_VERSION) (\<lambda>hash. Inr (sealWith hash artifact))))))"

subsection \<open>Broadcast\<close>

definition getBroadcastableSignedTransaction :: "json \<Rightarrow> (json \<times> json) result" where
  "getBroadcastableSignedTransaction artifact =
     (if jget (jget artifact ''signedTransaction'') ''format'' = JStr SYNTHETIC_AUTHORIZATION_FORMAT \<or>
         jget (jget artifact ''authorization'') ''kind'' = JStr ''synthetic'' then Inl ''SYNTHETIC_NOT_BROADCASTABLE''
      else if \<not> truthy (jget (jget artifact ''signedTransaction'') ''payload'')
      then Inl ''Signed artifact is missing the raw transaction payload.''
      else Inr (jor (jget artifact ''mode'') (JStr ''rpc''), jget (jget artifact ''signedTransaction'') ''payload''))"

end
