(* ===== verification/HK_Identity.thy ===== *)
theory HK_Identity
  imports HK_SignedTx
begin

text \<open>
  The identity of one artifact: \<open>checkArtifactIdentity\<close> and \<open>safeRecompute\<close> of \<open>packages/artifacts/src/resolve.ts\<close>.
  An artifact is recomputed under the version it declares, and every identity it claims must be the recomputed one.
  Issues are their codes; their messages, which only describe them, are left out. A refusal of the canonicalizer is
  the error of the result.
\<close>

datatype AuthScope = FULL | LEGACY | NONE

type_synonym candidate_check = "string list + string \<times> AuthScope"

definition codeIf :: "bool \<Rightarrow> string \<Rightarrow> string list" where
  "codeIf c code = (if c then [code] else [])"

lemma codeIf_Nil [simp]: "codeIf c code = [] \<longleftrightarrow> \<not> c"
  by (simp add: codeIf_def)

definition identityIssues :: "json \<Rightarrow> int \<Rightarrow> string \<Rightarrow> string list" where
  "identityIssues artifact version recomputed =
     (let claimed = jget artifact ''contentHash'';
          lineageId = jget (jget artifact ''lineage'') ''artifactId'';
          schema = text_of (jget artifact ''schema'');
          planId = jget artifact ''planId''; signedId = jget artifact ''signedId''
      in (if text_of claimed = [] then [''MISSING_CONTENT_HASH''] else codeIf (claimed \<noteq> JStr recomputed) ''ARTIFACT_HASH_MISMATCH'') @
         codeIf (text_of lineageId \<noteq> [] \<and> lineageId \<noteq> JStr recomputed) ''LINEAGE_IDENTITY_MISMATCH'' @
         codeIf (starts_with schema schemaTxPlan \<and> planId \<noteq> JUndefined \<and> planId \<noteq> JStr (''plan-'' @ take 16 recomputed)) ''LABEL_MISMATCH'' @
         codeIf (starts_with schema schemaSignedTx \<and> signedId \<noteq> JUndefined \<and> signedId \<noteq> JStr (''signed-'' @ take 16 recomputed)) ''LABEL_MISMATCH'' @
         codeIf (version = CURRENT_HASH_VERSION \<and> jget artifact ''artifactId'' \<noteq> JUndefined) ''FORBIDDEN_IDENTITY_FIELD'')"

definition checkArtifactIdentity :: "(string \<Rightarrow> string) \<Rightarrow> json \<Rightarrow> candidate_check result" where
  "checkArtifactIdentity sha artifact =
     (case readDeclaredHashVersion artifact of
        None \<Rightarrow> Inr (Inl [''HASH_VERSION_INVALID''])
      | Some version \<Rightarrow>
          bindE (calculateContentHash sha artifact version) (\<lambda>recomputed.
            let issues = identityIssues artifact version recomputed in
            if issues \<noteq> [] then Inr (Inl issues)
            else Inr (Inr (recomputed, if version = CURRENT_HASH_VERSION then FULL else LEGACY))))"

definition safeRecompute :: "(string \<Rightarrow> string) \<Rightarrow> json \<Rightarrow> string option" where
  "safeRecompute sha artifact =
     (case readDeclaredHashVersion artifact of
        None \<Rightarrow> None
      | Some version \<Rightarrow> (case calculateContentHash sha artifact version of Inl _ \<Rightarrow> None | Inr h \<Rightarrow> Some h))"

lemma text_of_nonempty: "text_of j \<noteq> [] \<Longrightarrow> j = JStr (text_of j)"
  by (cases j) (auto simp: text_of_def)

text \<open>An identity that is accepted is the recomputed hash, and every place that claims one claims this one.\<close>

lemma checkArtifactIdentity_ok:
  assumes "checkArtifactIdentity sha artifact = Inr (Inr (i, scope))"
  obtains version where "readDeclaredHashVersion artifact = Some version" "calculateContentHash sha artifact version = Inr i"
    "recomputeDeclaredContentHash sha artifact = Inr i" "jget artifact ''contentHash'' = JStr i" "identityIssues artifact version i = []"
    "scope = (if version = CURRENT_HASH_VERSION then FULL else LEGACY)"
proof -
  obtain version where v: "readDeclaredHashVersion artifact = Some version" using assms by (auto simp: checkArtifactIdentity_def split: option.splits)
  then obtain h where h: "calculateContentHash sha artifact version = Inr h"
    using assms by (cases "calculateContentHash sha artifact version") (auto simp: checkArtifactIdentity_def)
  have i: "h = i" "identityIssues artifact version i = []" "scope = (if version = CURRENT_HASH_VERSION then FULL else LEGACY)"
    using assms v h by (auto simp: checkArtifactIdentity_def Let_def split: if_splits)
  have "jget artifact ''contentHash'' = JStr i"
    using i(2) text_of_nonempty [of "jget artifact ''contentHash''"] by (auto simp: identityIssues_def Let_def codeIf_def split: if_splits)
  then show thesis using that v h i by (simp add: recomputeDeclaredContentHash_def)
qed

end
