(* ===== verification/HK_Transactions.thy ===== *)
theory HK_Transactions
  imports HK_SignedTx
begin

text \<open>
  Simulated transactions: \<open>packages/localnet/src/transactions.ts\<close>. A payment is planned, turned into a plan artifact
  and applied to the state; a plan that exists is applied as it is. Either way the result is a new state with an
  accepted receipt, or the state as it was with a failed one.

  The digest \<open>sha\<close> and the SDK behind the planner are parameters. The state digest before the transition is
  computed outside the \<open>try\<close>, so its error is not turned into a failed receipt. The last part of a UTXO id is read
  with \<open>Number\<close>: an integer, or not a number; exponents, fractions and integers beyond the safe range do not occur.
\<close>

subsection \<open>Contexts and identifiers\<close>

definition strs :: "string list \<Rightarrow> json" where
  "strs xs = JArr (map JStr xs)"

definition conflictJson :: "ConflictEntry \<Rightarrow> json" where
  "conflictJson c = JObj [(''outpoint'', JStr (ce_outpoint c)), (''winnerTxId'', JStr (ce_winnerTxId c)), (''loserTxIds'', strs (ce_loserTxIds c))]"

definition buildDagContextFromState :: "LocalnetState \<Rightarrow> json" where
  "buildDagContextFromState state =
     (case ls_dag state of
        Some dag \<Rightarrow> JObj [(''mode'', JStr ''dag-light''), (''sink'', JStr (dag_sink dag)), (''acceptedTxIds'', strs (dag_acceptedTxIds dag)),
          (''displacedTxIds'', strs (dag_displacedTxIds dag)), (''conflictSet'', JArr (map conflictJson (dag_conflictSet dag)))]
      | None \<Rightarrow> JObj [(''mode'', JStr ''linear''), (''sink'', JStr ''linear-pseudo-sink'')])"

text \<open>The class \<open>[a-zA-Z0-9_:. -]\<close>.\<close>

definition idChar :: "char \<Rightarrow> bool" where
  "idChar c \<longleftrightarrow> is_word c \<or> c \<in> set '':. -''"

definition generateDeterministicFailedTxId :: "(string \<Rightarrow> string) \<Rightarrow> string \<Rightarrow> string \<Rightarrow> string \<Rightarrow> string" where
  "generateDeterministicFailedTxId sha preStateHash errorMessage daaScore =
     (let normalized = filter idChar errorMessage;
          input = ''failed:'' @ preStateHash @ '':'' @ normalized @ '':'' @ daaScore
      in ''synthetic-'' @ sha input)"

definition generateDeterministicTxId :: "(string \<Rightarrow> string) \<Rightarrow> json \<Rightarrow> string result" where
  "generateDeterministicTxId sha planArtifact =
     (if truthy (jget planArtifact ''contentHash'') then syntheticTxIdFor (jget planArtifact ''contentHash'')
      else bindE (recomputeDeclaredContentHash sha planArtifact) (\<lambda>planHash. syntheticTxIdFor (JStr planHash)))"

subsection \<open>Results\<close>

record SimulationResult =
  sr_ok :: bool
  sr_state :: LocalnetState
  sr_receipt :: json
  sr_planArtifact :: json
  sr_errors :: "string list"

definition failedReceipt :: "LocalnetState \<Rightarrow> string \<Rightarrow> string \<Rightarrow> string \<Rightarrow> json" where
  "failedReceipt state txId preStateHash errorMessage =
     JObj [(''schema'', JStr schemaTxReceipt), (''schemaVersion'', JStr schemaTxReceiptV1), (''hardkasVersion'', JStr HARDKAS_VERSION),
       (''version'', JStr ARTIFACT_VERSION), (''status'', JStr ''failed''), (''mode'', JStr ''simulator''),
       (''networkId'', JStr (ls_networkId state)), (''txId'', JStr txId), (''createdAt'', JStr ''1970-01-01T00:00:00.000Z''),
       (''errors'', strs [errorMessage]), (''preStateHash'', JStr preStateHash), (''postStateHash'', JStr preStateHash),
       (''dagContext'', buildDagContextFromState state), (''from'', JObj [(''address'', JStr [])]), (''to'', JObj [(''address'', JStr [])]),
       (''amountSompi'', JStr ''0''), (''feeSompi'', JStr ''0''),
       (''execution'', executionJson (JStr ''simulator'') (JStr (if ls_networkId state = [] then ''simnet'' else ls_networkId state)))]"

definition failedResult :: "(string \<Rightarrow> string) \<Rightarrow> LocalnetState \<Rightarrow> string \<Rightarrow> string \<Rightarrow> SimulationResult" where
  "failedResult sha state preStateHash errorMessage =
     (let daaScore = (if ls_daaScore state = [] then ''0'' else ls_daaScore state);
          txId = generateDeterministicFailedTxId sha preStateHash errorMessage daaScore
      in \<lparr>sr_ok = False, sr_state = state, sr_receipt = failedReceipt state txId preStateHash errorMessage,
          sr_planArtifact = JUndefined, sr_errors = [errorMessage]\<rparr>)"

text \<open>The \<open>catch\<close>: an error of the body becomes a failed result.\<close>

definition caught :: "(string \<Rightarrow> string) \<Rightarrow> LocalnetState \<Rightarrow> string \<Rightarrow> SimulationResult result \<Rightarrow> SimulationResult" where
  "caught sha state preStateHash body = (case body of Inl message \<Rightarrow> failedResult sha state preStateHash message | Inr r \<Rightarrow> r)"

subsection \<open>Inputs and outputs\<close>

fun checkInputs :: "LocalnetState \<Rightarrow> string list \<Rightarrow> unit result" where
  "checkInputs state [] = Inr ()"
| "checkInputs state (i # ids) =
     (case List.find (\<lambda>u. u_id u = i) (ls_utxos state) of
        None \<Rightarrow> Inl ''missing simulated UTXO''
      | Some u \<Rightarrow> if u_spent u then Inl ''invalid simulated input'' else checkInputs state ids)"

definition newUtxo :: "string \<Rightarrow> nat \<Rightarrow> string \<Rightarrow> string \<Rightarrow> string \<Rightarrow> LocalnetUtxo" where
  "newUtxo txId idx address amountSompi nextDaaScore =
     \<lparr>u_id = txId @ '':'' @ nat_str idx, u_address = address, u_amountSompi = amountSompi, u_spent = False,
      u_createdAtDaaScore = nextDaaScore, u_spentAtDaaScore = None\<rparr>"

text \<open>The parts of a UTXO id before and after its last colon.\<close>

definition idTransaction :: "string \<Rightarrow> string" where
  "idTransaction i = (case dropWhile (\<lambda>c. c \<noteq> CHR '':'') (rev i) of [] \<Rightarrow> [] | _ # r \<Rightarrow> rev r)"

definition idIndex :: "string \<Rightarrow> int option" where
  "idIndex i = (case BigInt (rev (takeWhile (\<lambda>c. c \<noteq> CHR '':'') (rev i))) of
     Some n \<Rightarrow> if - MAX_SAFE_INTEGER \<le> n \<and> n \<le> MAX_SAFE_INTEGER then Some n else None | None \<Rightarrow> None)"

definition availableUtxo :: "LocalnetUtxo \<Rightarrow> Utxo result" where
  "availableUtxo u = bindE (bigE (u_amountSompi u)) (\<lambda>a.
     Inr \<lparr>ux_outpoint = \<lparr>op_transactionId = idTransaction (u_id u), op_index = idIndex (u_id u)\<rparr>, ux_address = u_address u,
       ux_amountSompi = a, ux_scriptPublicKey = ''mock-script'', ux_blockDaaScore = None, ux_isCoinbase = None,
       ux_covenantId = None, ux_lane = None\<rparr>)"

subsection \<open>Payments\<close>

record SimulatedPaymentInput =
  pi_from :: string
  pi_to :: string
  pi_amountSompi :: int
  pi_feeRateSompiPerMass :: "int option"

definition DUST_LIMIT_SOMPI :: int where
  "DUST_LIMIT_SOMPI = 600"

definition paymentRequest :: "string \<Rightarrow> string \<Rightarrow> int \<Rightarrow> Utxo list \<Rightarrow> int \<Rightarrow> TxBuildRequest" where
  "paymentRequest fromAddress toAddress amountSompi availableUtxos feeRate =
     \<lparr>rq_fromAddress = fromAddress,
      rq_outputs = [\<lparr>to_address = toAddress, to_amountSompi = amountSompi, to_scriptPublicKey = None, to_covenant = None\<rparr>],
      rq_availableUtxos = availableUtxos, rq_feeRateSompiPerMass = feeRate, rq_changeAddress = None, rq_payloadBytes = None,
      rq_version = None, rq_computeBudget = None, rq_storageMass = None, rq_lane = None, rq_virtualDaaScore = None,
      rq_coinbaseMaturity = Some 100, rq_networkId = None, rq_feeOverrideSompi = None\<rparr>"

definition noReceiptExtra :: ReceiptExtra where
  "noReceiptExtra = \<lparr>re_spentUtxoIds = JUndefined, re_createdUtxoIds = JUndefined, re_daaScore = JUndefined, re_preStateHash = JUndefined,
     re_postStateHash = JUndefined, re_dagContext = JUndefined, re_submittedAt = JUndefined, re_confirmedAt = JUndefined,
     re_rpcUrl = JUndefined, re_tracePath = JUndefined, re_sourceSignedId = JUndefined, re_parentArtifact = JUndefined\<rparr>"

definition executionExtra :: "string list \<Rightarrow> LocalnetUtxo list \<Rightarrow> string \<Rightarrow> string \<Rightarrow> string \<Rightarrow> LocalnetState \<Rightarrow> ReceiptExtra \<Rightarrow> ReceiptExtra" where
  "executionExtra spentUtxoIds newUtxos daaScore preStateHash postStateHash state extra =
     extra\<lparr>re_spentUtxoIds := strs spentUtxoIds, re_createdUtxoIds := strs (map u_id newUtxos), re_daaScore := JStr daaScore,
       re_preStateHash := JStr preStateHash, re_postStateHash := JStr postStateHash, re_dagContext := buildDagContextFromState state\<rparr>"

text \<open>The state after spending some UTXOs and appending others, at the next DAA score.\<close>

definition nextState :: "LocalnetState \<Rightarrow> string \<Rightarrow> string list \<Rightarrow> LocalnetUtxo list \<Rightarrow> LocalnetState" where
  "nextState state nextDaaScore spentUtxoIds newUtxos =
     state\<lparr>ls_daaScore := nextDaaScore, ls_utxos := spendUtxos spentUtxoIds nextDaaScore (ls_utxos state) @ newUtxos\<rparr>"

definition paymentOutputs :: "string \<Rightarrow> string \<Rightarrow> string \<Rightarrow> int \<Rightarrow> TxPlan \<Rightarrow> string \<Rightarrow> LocalnetUtxo list" where
  "paymentOutputs txId fromAddress toAddress amountSompi plan nextDaaScore =
     newUtxo txId 0 toAddress (int_str amountSompi) nextDaaScore #
     (case pl_change plan of None \<Rightarrow> [] | Some c \<Rightarrow> [newUtxo txId 1 fromAddress (int_str (to_amountSompi c)) nextDaaScore])"

definition paymentArtifactOptions ::
    "LocalnetState \<Rightarrow> SimulatedPaymentInput \<Rightarrow> string \<Rightarrow> string \<Rightarrow> TxPlan \<Rightarrow> RuntimeContext \<Rightarrow> CreateTxPlanArtifactOptions" where
  "paymentArtifactOptions state inp fromAddress toAddress plan ctx =
     \<lparr>cp_networkId = (if ls_networkId state = [] then ''simnet'' else ls_networkId state), cp_mode = ''simulator'',
      cp_fromInput = pi_from inp, cp_fromAddress = fromAddress, cp_fromAccountName = None, cp_toInput = pi_to inp,
      cp_toAddress = toAddress, cp_amountSompi = pi_amountSompi inp, cp_plan = plan, cp_rpcUrl = None, cp_ctx = ctx, cp_maxFeeSompi = None\<rparr>"

text \<open>The transition of a payment whose plan is made: lines 138 to 229.\<close>

definition settlePayment ::
    "(string \<Rightarrow> string) \<Rightarrow> LocalnetState \<Rightarrow> SimulatedPaymentInput \<Rightarrow> RuntimeContext \<Rightarrow> string \<Rightarrow> string \<Rightarrow> string \<Rightarrow> TxPlan \<Rightarrow> string list \<Rightarrow>
     SimulationResult result" where
  "settlePayment sha state inp ctx preStateHash fromAddress toAddress plan errors =
     (let spentUtxoIds = map (\<lambda>i. outpointId (ux_outpoint i)) (pl_inputs plan) in
      if \<not> distinct spentUtxoIds then Inl ''Duplicate inputs detected in transaction plan''
      else bindE (checkInputs state spentUtxoIds) (\<lambda>_.
        bindE (createTxPlanArtifact sha (paymentArtifactOptions state inp fromAddress toAddress plan ctx)) (\<lambda>planArtifact.
        bindE (bigE (ls_daaScore state)) (\<lambda>daa.
        let nextDaaScore = int_str (daa + 1) in
        bindE (generateDeterministicTxId sha planArtifact) (\<lambda>txId.
        let newUtxos = paymentOutputs txId fromAddress toAddress (pi_amountSompi inp) plan nextDaaScore;
            next = nextState state nextDaaScore spentUtxoIds newUtxos
        in bindE (calculateStateHash sha next currentVersion) (\<lambda>postStateHash.
           bindE (createSimulatedTxReceipt sha planArtifact txId ctx
               (executionExtra spentUtxoIds newUtxos nextDaaScore preStateHash postStateHash state noReceiptExtra)) (\<lambda>receipt.
             Inr \<lparr>sr_ok = True, sr_state = next, sr_receipt = receipt, sr_planArtifact = planArtifact, sr_errors = errors\<rparr>)))))))"

definition paymentBody ::
    "(string \<Rightarrow> string) \<Rightarrow> Sdk result \<Rightarrow> LocalnetState \<Rightarrow> SimulatedPaymentInput \<Rightarrow> RuntimeContext \<Rightarrow> string \<Rightarrow> SimulationResult result" where
  "paymentBody sha sdk state inp ctx preStateHash =
     (let fromAddress = resolveAccountAddressFromState state (pi_from inp);
          toAddress = resolveAccountAddressFromState state (pi_to inp);
          amountSompi = pi_amountSompi inp;
          feeRate = (case pi_feeRateSompiPerMass inp of None \<Rightarrow> 1 | Some r \<Rightarrow> r)
      in if fromAddress = [] then Inl (''Sender account/address not found: '' @ pi_from inp)
         else if toAddress = [] then Inl (''Recipient account/address not found: '' @ pi_to inp)
         else if amountSompi \<le> 0 then Inl ''Amount must be greater than 0''
         else
           (let errors = (if amountSompi < DUST_LIMIT_SOMPI
                  then [''Amount '' @ int_str amountSompi @ '' is below dust limit ('' @ int_str DUST_LIMIT_SOMPI @ '')''] else []);
                unspent = getSpendableUtxos state fromAddress
            in if unspent = [] then Inl ''insufficient simulated funds''
               else bindE (mapE availableUtxo unspent) (\<lambda>availableUtxos.
                 bindE (buildPaymentPlan sdk (paymentRequest fromAddress toAddress amountSompi availableUtxos feeRate)) (\<lambda>plan.
                   settlePayment sha state inp ctx preStateHash fromAddress toAddress plan errors))))"

definition applySimulatedPayment ::
    "(string \<Rightarrow> string) \<Rightarrow> Sdk result \<Rightarrow> LocalnetState \<Rightarrow> SimulatedPaymentInput \<Rightarrow> RuntimeContext \<Rightarrow> SimulationResult result" where
  "applySimulatedPayment sha sdk state inp ctx =
     bindE (calculateStateHash sha state currentVersion) (\<lambda>preStateHash.
       Inr (caught sha state preStateHash (paymentBody sha sdk state inp ctx preStateHash)))"

subsection \<open>Plans\<close>

record PlanOptions =
  po_txId :: "string option"
  po_digestHashVersion :: json
  po_submittedAt :: json
  po_confirmedAt :: json
  po_rpcUrl :: json
  po_tracePath :: json
  po_sourceSignedId :: json
  po_parentArtifact :: json

definition noPlanOptions :: PlanOptions where
  "noPlanOptions = \<lparr>po_txId = None, po_digestHashVersion = JUndefined, po_submittedAt = JUndefined, po_confirmedAt = JUndefined,
     po_rpcUrl = JUndefined, po_tracePath = JUndefined, po_sourceSignedId = JUndefined, po_parentArtifact = JUndefined\<rparr>"

text \<open>\<open>...(x ? { k: x } : {})\<close>: what is not truthy is left out.\<close>

definition onlyTruthy :: "json \<Rightarrow> json" where
  "onlyTruthy j = (if truthy j then j else JUndefined)"

definition planReceiptExtra :: "PlanOptions \<Rightarrow> ReceiptExtra" where
  "planReceiptExtra o' = noReceiptExtra\<lparr>re_submittedAt := onlyTruthy (po_submittedAt o'), re_confirmedAt := onlyTruthy (po_confirmedAt o'),
     re_rpcUrl := onlyTruthy (po_rpcUrl o'), re_tracePath := onlyTruthy (po_tracePath o'),
     re_sourceSignedId := onlyTruthy (po_sourceSignedId o'), re_parentArtifact := onlyTruthy (po_parentArtifact o')\<rparr>"

definition inputId :: "json \<Rightarrow> string result" where
  "inputId i = bindE (jfield i ''outpoint'') (\<lambda>p. bindE (jfield p ''transactionId'') (\<lambda>t. bindE (jfield p ''index'') (\<lambda>n.
     Inr (template_text t @ '':'' @ template_text n))))"

definition toStringE :: "json \<Rightarrow> string result" where
  "toStringE j = (if j = JUndefined \<or> j = JNull then Inl (''Cannot read properties of '' @ template_text j) else Inr (template_text j))"

definition addressE :: "json \<Rightarrow> string result" where
  "addressE j = (case j of JStr s \<Rightarrow> Inr s | _ \<Rightarrow> Inl ''nameOrAddress.startsWith is not a function'')"

definition outputUtxo :: "LocalnetState \<Rightarrow> string \<Rightarrow> string \<Rightarrow> nat \<Rightarrow> json \<Rightarrow> LocalnetUtxo result" where
  "outputUtxo state txId nextDaaScore idx o' =
     bindE (jfield o' ''address'') (\<lambda>a. bindE (addressE a) (\<lambda>address.
     bindE (toStringE (jget o' ''amountSompi'')) (\<lambda>amountSompi.
       Inr (newUtxo txId idx (resolveAccountAddressFromState state address) amountSompi nextDaaScore))))"

fun outputUtxos :: "LocalnetState \<Rightarrow> string \<Rightarrow> string \<Rightarrow> nat \<Rightarrow> json list \<Rightarrow> LocalnetUtxo list result" where
  "outputUtxos state txId nextDaaScore idx [] = Inr []"
| "outputUtxos state txId nextDaaScore idx (x # xs) =
     bindE (outputUtxo state txId nextDaaScore idx x) (\<lambda>u. bindE (outputUtxos state txId nextDaaScore (Suc idx) xs) (\<lambda>us. Inr (u # us)))"

text \<open>The outputs of a plan, then its change, numbered in this order.\<close>

definition createdUtxos :: "LocalnetState \<Rightarrow> json \<Rightarrow> string \<Rightarrow> string \<Rightarrow> LocalnetUtxo list result" where
  "createdUtxos state planArtifact txId nextDaaScore =
     bindE (jlist (jget planArtifact ''outputs'')) (\<lambda>outputs.
     bindE (outputUtxos state txId nextDaaScore 0 outputs) (\<lambda>us.
       if truthy (jget planArtifact ''change'')
       then bindE (outputUtxo state txId nextDaaScore (length outputs) (jget planArtifact ''change'')) (\<lambda>c. Inr (us @ [c]))
       else Inr us))"

definition planTxId :: "(string \<Rightarrow> string) \<Rightarrow> json \<Rightarrow> PlanOptions \<Rightarrow> string result" where
  "planTxId sha planArtifact o' =
     (case po_txId o' of
        Some t \<Rightarrow> if t = [] then generateDeterministicTxId sha planArtifact else Inr t
      | None \<Rightarrow> generateDeterministicTxId sha planArtifact)"

definition planBody ::
    "(string \<Rightarrow> string) \<Rightarrow> LocalnetState \<Rightarrow> json \<Rightarrow> RuntimeContext \<Rightarrow> PlanOptions \<Rightarrow> json \<Rightarrow> string \<Rightarrow> SimulationResult result" where
  "planBody sha state planArtifact ctx o' hv preStateHash =
     bindE (jlist (jget planArtifact ''inputs'')) (\<lambda>inputs.
     bindE (mapE inputId inputs) (\<lambda>spentUtxoIds.
     bindE (checkInputs state spentUtxoIds) (\<lambda>_.
     bindE (bigE (ls_daaScore state)) (\<lambda>daa.
     let nextDaaScore = int_str (daa + 1) in
     bindE (planTxId sha planArtifact o') (\<lambda>txId.
     bindE (createdUtxos state planArtifact txId nextDaaScore) (\<lambda>newUtxos.
     let next = nextState state nextDaaScore spentUtxoIds newUtxos in
     bindE (calculateStateHash sha next hv) (\<lambda>postStateHash.
     bindE (createSimulatedTxReceipt sha planArtifact txId ctx
         (executionExtra spentUtxoIds newUtxos nextDaaScore preStateHash postStateHash state (planReceiptExtra o'))) (\<lambda>receipt.
       Inr \<lparr>sr_ok = True, sr_state = next, sr_receipt = receipt, sr_planArtifact = planArtifact, sr_errors = []\<rparr>))))))))"

definition applySimulatedPlan ::
    "(string \<Rightarrow> string) \<Rightarrow> LocalnetState \<Rightarrow> json \<Rightarrow> RuntimeContext \<Rightarrow> PlanOptions \<Rightarrow> SimulationResult result" where
  "applySimulatedPlan sha state planArtifact ctx o' =
     (let hv = (if po_digestHashVersion o' = JUndefined then currentVersion else po_digestHashVersion o') in
      bindE (calculateStateHash sha state hv) (\<lambda>preStateHash.
        Inr (caught sha state preStateHash (planBody sha state planArtifact ctx o' hv preStateHash))))"

end
