(* ===== verification/HK_Diff.thy ===== *)
theory HK_Diff
  imports HK_Redact HK_Transactions
begin

text \<open>
  Semantic comparison of artifacts: \<open>packages/artifacts/src/diff.ts\<close>, with the names of secret fields of
  \<open>packages/core/src/security.ts\<close>.

  Two values are compared without masking anything; what is recorded of a difference under a secret field is only
  that it differs. The entries are the list the code appends to, in its order. A field an entry does not carry is
  \<^const>\<open>JUndefined\<close>. Strict equality of primitives is equality of \<^typ>\<open>json\<close> values, which leaves out \<open>NaN\<close> and the
  identity of symbols; functions, maps, sets and dates have no own keys.
\<close>

subsection \<open>Values\<close>

definition isSecretFieldName :: "string \<Rightarrow> bool" where
  "isSecretFieldName name \<longleftrightarrow> map to_lower name \<in> set SECRET_FIELD_NAMES"

fun isPrimitive :: "json \<Rightarrow> bool" where
  "isPrimitive (JArr xs) = False"
| "isPrimitive (JObj es) = False"
| "isPrimitive JFunction = False"
| "isPrimitive JMap = False"
| "isPrimitive JSet = False"
| "isPrimitive JDate = False"
| "isPrimitive JNonPlain = False"
| "isPrimitive _ = True"

text \<open>\<open>Object.keys(v)\<close> and \<open>Array.isArray(v)\<close>.\<close>

definition keysOf :: "json \<Rightarrow> string list" where
  "keysOf j = (case j of JObj es \<Rightarrow> map fst es | _ \<Rightarrow> [])"

definition isArray :: "json \<Rightarrow> bool" where
  "isArray j = (case j of JArr xs \<Rightarrow> True | _ \<Rightarrow> False)"

text \<open>\<open>[...new Set(xs)]\<close>: the first occurrence of each element, in order.\<close>

definition setOrder :: "'a list \<Rightarrow> 'a list" where
  "setOrder xs = rev (remdups (rev xs))"

lemma set_setOrder [simp]: "set (setOrder xs) = set xs"
  by (simp add: setOrder_def)

fun holdsSecret :: "json \<Rightarrow> bool" where
  "holdsSecret (JArr xs) = list_ex holdsSecret xs"
| "holdsSecret (JObj es) = list_ex (\<lambda>kv. isSecretFieldName (fst kv) \<or> holdsSecret (snd kv)) es"
| "holdsSecret _ = False"

subsection \<open>Entries\<close>

datatype DiffKind = Added | Removed | Changed

record DiffEntry =
  de_path :: string
  de_kind :: DiffKind
  de_left :: json
  de_right :: json
  de_secret :: bool

definition recordEntry :: "string \<Rightarrow> DiffKind \<Rightarrow> json \<Rightarrow> json \<Rightarrow> bool \<Rightarrow> DiffEntry list" where
  "recordEntry path k left right inSecret =
     (if inSecret \<or> holdsSecret left \<or> holdsSecret right
      then [\<lparr>de_path = path, de_kind = k, de_left = JUndefined, de_right = JUndefined, de_secret = True\<rparr>]
      else case k of
        Added \<Rightarrow> [\<lparr>de_path = path, de_kind = Added, de_left = JUndefined, de_right = right, de_secret = False\<rparr>]
      | Removed \<Rightarrow> [\<lparr>de_path = path, de_kind = Removed, de_left = left, de_right = JUndefined, de_secret = False\<rparr>]
      | Changed \<Rightarrow> [\<lparr>de_path = path, de_kind = Changed, de_left = left, de_right = right, de_secret = False\<rparr>])"

subsection \<open>Comparison\<close>

definition itemsOf :: "json \<Rightarrow> json list" where
  "itemsOf j = (case j of JArr xs \<Rightarrow> xs | _ \<Rightarrow> [])"

definition comparedKeys :: "(string \<Rightarrow> string \<Rightarrow> bool) \<Rightarrow> string \<Rightarrow> json \<Rightarrow> string list" where
  "comparedKeys excluded path j = filter (\<lambda>k. \<not> excluded k path) (keysOf j)"

definition itemPath :: "string \<Rightarrow> nat \<Rightarrow> string" where
  "itemPath path i = path @ ''['' @ nat_str i @ '']''"

definition fieldPath :: "string \<Rightarrow> string \<Rightarrow> string" where
  "fieldPath path key = (if path = ''$'' then key else path @ ''.'' @ key)"

lemma size_jget: "k \<in> set (keysOf j) \<Longrightarrow> size (jget j k) < size j"
proof (cases j)
  case (JObj es)
  assume "k \<in> set (keysOf j)"
  then obtain v where v: "map_of es k = Some v" unfolding JObj keysOf_def by (auto dest: weak_map_of_SomeI)
  show ?thesis using size_json_entry [OF map_of_SomeD [OF v]] v by (simp add: JObj)
qed (auto simp: keysOf_def)

lemma size_items: "i < length (itemsOf j) \<Longrightarrow> size (itemsOf j ! i) < size j"
  by (cases j) (auto simp: itemsOf_def less_Suc_eq_le intro: size_list_estimation' [OF nth_mem])

function compareRecursive :: "(string \<Rightarrow> string \<Rightarrow> bool) \<Rightarrow> json \<Rightarrow> json \<Rightarrow> string \<Rightarrow> bool \<Rightarrow> DiffEntry list" where
  "compareRecursive excluded left right path inSecret =
     (if isPrimitive left \<or> isPrimitive right then
        (if left \<noteq> right then recordEntry path Changed left right inSecret else [])
      else if isArray left \<or> isArray right then
        (if \<not> isArray left \<or> \<not> isArray right then recordEntry path Changed left right inSecret
         else concat (map (\<lambda>i.
           if i \<ge> length (itemsOf left) then recordEntry (itemPath path i) Added JUndefined (itemsOf right ! i) inSecret
           else if i \<ge> length (itemsOf right) then recordEntry (itemPath path i) Removed (itemsOf left ! i) JUndefined inSecret
           else compareRecursive excluded (itemsOf left ! i) (itemsOf right ! i) (itemPath path i) inSecret)
           [0..<max (length (itemsOf left)) (length (itemsOf right))]))
      else
        (let leftKeys = comparedKeys excluded path left; rightKeys = comparedKeys excluded path right in
         concat (map (\<lambda>key.
           let nextPath = fieldPath path key; secret = (inSecret \<or> isSecretFieldName key) in
           if key \<notin> set leftKeys then recordEntry nextPath Added JUndefined (jget right key) secret
           else if key \<notin> set rightKeys then recordEntry nextPath Removed (jget left key) JUndefined secret
           else compareRecursive excluded (jget left key) (jget right key) nextPath secret)
           (setOrder (leftKeys @ rightKeys)))))"
  by pat_completeness auto
termination
  by (relation "measure (\<lambda>(_, left, _). size left)") (auto simp: size_items size_jget comparedKeys_def)

declare compareRecursive.simps [simp del]

record ArtifactDiff =
  ad_identical :: bool
  ad_entries :: "DiffEntry list"

text \<open>The keys that are not compared: the frozen exclusions at any depth, or the named ones at the top level only.\<close>

definition excludedKey :: "string list option \<Rightarrow> string \<Rightarrow> string \<Rightarrow> bool" where
  "excludedKey topLevel key path =
     (case topLevel of Some ks \<Rightarrow> path = ''$'' \<and> key \<in> set ks | None \<Rightarrow> key \<in> set SEMANTIC_EXCLUSIONS)"

definition diffArtifacts :: "json \<Rightarrow> json \<Rightarrow> string list option \<Rightarrow> ArtifactDiff" where
  "diffArtifacts left right topLevel =
     (let entries = compareRecursive (excludedKey topLevel) left right ''$'' False
      in \<lparr>ad_identical = (entries = []), ad_entries = entries\<rparr>)"

subsection \<open>What is compared\<close>

text \<open>The specification: two values agree when they are equal up to the order of keys and up to the keys that are
  dropped at their depth.\<close>

inductive agrees :: "(nat \<Rightarrow> string \<Rightarrow> bool) \<Rightarrow> nat \<Rightarrow> json \<Rightarrow> json \<Rightarrow> bool" for drops where
  primitive: "isPrimitive v \<Longrightarrow> agrees drops d v v"
| items: "list_all2 (agrees drops (Suc d)) xs ys \<Longrightarrow> agrees drops d (JArr xs) (JArr ys)"
| fields: "\<not> isPrimitive l \<Longrightarrow> \<not> isPrimitive r \<Longrightarrow> \<not> isArray l \<Longrightarrow> \<not> isArray r \<Longrightarrow>
    {k \<in> set (keysOf l). \<not> drops d k} = {k \<in> set (keysOf r). \<not> drops d k} \<Longrightarrow>
    (\<And>k. k \<in> set (keysOf l) \<Longrightarrow> \<not> drops d k \<Longrightarrow> agrees drops (Suc d) (jget l k) (jget r k)) \<Longrightarrow> agrees drops d l r"

inductive_cases agreesE: "agrees drops d l r"

definition droppedAt :: "string list option \<Rightarrow> nat \<Rightarrow> string \<Rightarrow> bool" where
  "droppedAt topLevel d k \<longleftrightarrow> (case topLevel of Some ks \<Rightarrow> d = 0 \<and> k \<in> set ks | None \<Rightarrow> k \<in> set SEMANTIC_EXCLUSIONS)"

lemma agrees_primitive: "isPrimitive l \<or> isPrimitive r \<Longrightarrow> agrees drops d l r \<longleftrightarrow> l = r"
  by (auto elim!: agreesE intro: agrees.primitive)

lemma isArray_items: "isArray j \<longleftrightarrow> j = JArr (itemsOf j)"
  by (auto simp: isArray_def itemsOf_def split: json.splits)

lemma agrees_mixed: "isArray l \<noteq> isArray r \<Longrightarrow> \<not> agrees drops d l r"
  by (auto elim!: agreesE simp: isArray_def)

lemma agrees_items:
  assumes "isArray l" "isArray r"
  shows "agrees drops d l r \<longleftrightarrow> list_all2 (agrees drops (Suc d)) (itemsOf l) (itemsOf r)"
proof -
  obtain xs ys where l: "l = JArr xs" and r: "r = JArr ys" using assms isArray_items by metis
  have "agrees drops d (JArr xs) (JArr ys) \<longleftrightarrow> list_all2 (agrees drops (Suc d)) xs ys"
    by (auto elim: agreesE simp: isArray_def intro: agrees.items)
  then show ?thesis by (simp add: l r itemsOf_def)
qed

lemma agrees_fields:
  assumes "\<not> isPrimitive l" "\<not> isPrimitive r" "\<not> isArray l" "\<not> isArray r"
  shows "agrees drops d l r \<longleftrightarrow> {k \<in> set (keysOf l). \<not> drops d k} = {k \<in> set (keysOf r). \<not> drops d k} \<and>
    (\<forall>k \<in> {k \<in> set (keysOf l). \<not> drops d k}. agrees drops (Suc d) (jget l k) (jget r k))"
proof
  assume "agrees drops d l r"
  then show "{k \<in> set (keysOf l). \<not> drops d k} = {k \<in> set (keysOf r). \<not> drops d k} \<and>
    (\<forall>k \<in> {k \<in> set (keysOf l). \<not> drops d k}. agrees drops (Suc d) (jget l k) (jget r k))"
    using assms by cases (auto simp: isArray_def)
next
  assume "{k \<in> set (keysOf l). \<not> drops d k} = {k \<in> set (keysOf r). \<not> drops d k} \<and>
    (\<forall>k \<in> {k \<in> set (keysOf l). \<not> drops d k}. agrees drops (Suc d) (jget l k) (jget r k))"
  then show "agrees drops d l r" using assms by (elim conjE) (rule agrees.fields, assumption+, blast)
qed

lemma recordEntry_nonempty [simp]: "recordEntry path k l r s \<noteq> []"
  by (simp add: recordEntry_def split: DiffKind.split)

lemma path_not_root [simp]: "itemPath path i \<noteq> ''$''" "fieldPath path k = ''$'' \<longleftrightarrow> path = ''$'' \<and> k = ''$''"
  by (auto simp: itemPath_def fieldPath_def append_eq_Cons_conv)

lemma zipped_Nil:
  assumes "\<And>i. f i = [] \<longleftrightarrow> i < m \<and> i < n \<and> P i"
  shows "concat (map f [0..<max m n]) = [] \<longleftrightarrow> m = n \<and> (\<forall>i < m. P i)"
proof -
  have "concat (map f [0..<max m n]) = [] \<longleftrightarrow> (\<forall>i < max m n. i < m \<and> i < n \<and> P i)"
    unfolding concat_eq_Nil_conv assms [symmetric] by auto
  also have "\<dots> \<longleftrightarrow> m = n \<and> (\<forall>i < m. P i)" by (cases m n rule: linorder_cases) (simp_all add: max_def, blast+)
  finally show ?thesis .
qed

lemma compareRecursive_agrees:
  assumes "topLevel \<noteq> None \<Longrightarrow> d = 0 \<longleftrightarrow> path = ''$''" "d = 0 \<Longrightarrow> topLevel \<noteq> None \<Longrightarrow> ''$'' \<notin> set (keysOf l)"
  shows "compareRecursive (excludedKey topLevel) l r path s = [] \<longleftrightarrow> agrees (droppedAt topLevel) d l r"
  using assms
proof (induction l arbitrary: r path s d rule: measure_induct_rule [where f = size])
  case (less l)
  have ex: "excludedKey topLevel k path = droppedAt topLevel d k" for k
    using less.prems(1) by (auto simp: excludedKey_def droppedAt_def split: option.split)
  consider "isPrimitive l \<or> isPrimitive r" | "isArray l \<noteq> isArray r" "\<not> isPrimitive l" "\<not> isPrimitive r"
    | "isArray l" "isArray r" | "\<not> isPrimitive l" "\<not> isPrimitive r" "\<not> isArray l" "\<not> isArray r" by blast
  then show ?case
  proof cases
    case 1
    then show ?thesis by (subst compareRecursive.simps) (simp add: agrees_primitive)
  next
    case 2
    then show ?thesis using agrees_mixed [OF 2(1)] by (subst compareRecursive.simps) auto
  next
    case 3
    then have np: "\<not> isPrimitive l" "\<not> isPrimitive r" by (auto simp: isArray_def split: json.splits)
    have IH: "compareRecursive (excludedKey topLevel) (itemsOf l ! i) r' (itemPath path i) s = [] \<longleftrightarrow>
        agrees (droppedAt topLevel) (Suc d) (itemsOf l ! i) r'" if "i < length (itemsOf l)" for i r'
      by (rule less.IH) (use that size_items in auto)
    have "compareRecursive (excludedKey topLevel) l r path s = [] \<longleftrightarrow>
        length (itemsOf l) = length (itemsOf r) \<and>
        (\<forall>i < length (itemsOf l). agrees (droppedAt topLevel) (Suc d) (itemsOf l ! i) (itemsOf r ! i))"
      using IH by (subst compareRecursive.simps) (simp add: np 3 del: concat_eq_Nil_conv, rule zipped_Nil, simp add: not_le)
    then show ?thesis by (simp add: agrees_items [OF 3] list_all2_conv_all_nth)
  next
    case 4
    have IH: "compareRecursive (excludedKey topLevel) (jget l k) r' (fieldPath path k) s' = [] \<longleftrightarrow>
        agrees (droppedAt topLevel) (Suc d) (jget l k) r'" if "k \<in> set (keysOf l)" "\<not> droppedAt topLevel d k" for k r' s'
    proof (rule less.IH)
      show "size (jget l k) < size l" using size_jget [OF that(1)] .
      show "Suc d = 0 \<longleftrightarrow> fieldPath path k = ''$''" if "topLevel \<noteq> None" using less.prems that \<open>k \<in> set (keysOf l)\<close> by auto
    qed simp
    have "compareRecursive (excludedKey topLevel) l r path s = [] \<longleftrightarrow>
      (\<forall>k \<in> {k \<in> set (keysOf l). \<not> droppedAt topLevel d k} \<union> {k \<in> set (keysOf r). \<not> droppedAt topLevel d k}.
        k \<in> set (keysOf l) \<and> k \<in> set (keysOf r) \<and> agrees (droppedAt topLevel) (Suc d) (jget l k) (jget r k))"
      by (subst compareRecursive.simps) (simp add: 4 Let_def comparedKeys_def ex IH ball_Un cong: conj_cong, blast)
    then show ?thesis unfolding agrees_fields [OF 4] by blast
  qed
qed

text \<open>C34: the comparison decides exactly agreement. Two artifacts are reported identical if and only if they agree, up to
  the order of keys, outside the keys that are excluded: the frozen exclusions at any depth, or the given ones at the top
  level. (With given ones, the left artifact has no top-level key \<open>$\<close>, which the code takes for the root.)\<close>

theorem diff_decides_agreement:
  assumes "topLevel \<noteq> None \<Longrightarrow> ''$'' \<notin> set (keysOf left)"
  shows "ad_identical (diffArtifacts left right topLevel) \<longleftrightarrow> agrees (droppedAt topLevel) 0 left right"
  using compareRecursive_agrees [of topLevel 0 "''$''" left right False] assms by (simp add: diffArtifacts_def Let_def)

theorem diff_decides_agreement_witness:
  "\<not> agrees (droppedAt (Some [''createdAt''])) 0 (JObj [(''createdAt'', JNum 1), (''a'', JObj [(''createdAt'', JNum 1)])])
     (JObj [(''a'', JObj [(''createdAt'', JNum 2)]), (''createdAt'', JNum 2)]) \<and>
   agrees (droppedAt (Some [''createdAt''])) 0 (JObj [(''createdAt'', JNum 1), (''a'', JArr [JNum 1])])
     (JObj [(''a'', JArr [JNum 1]), (''createdAt'', JNum 2)])"
proof -
  have "\<not> ad_identical (diffArtifacts (JObj [(''createdAt'', JNum 1), (''a'', JObj [(''createdAt'', JNum 1)])])
     (JObj [(''a'', JObj [(''createdAt'', JNum 2)]), (''createdAt'', JNum 2)]) (Some [''createdAt'']))"
    "ad_identical (diffArtifacts (JObj [(''createdAt'', JNum 1), (''a'', JArr [JNum 1])])
     (JObj [(''a'', JArr [JNum 1]), (''createdAt'', JNum 2)]) (Some [''createdAt'']))" by code_simp+
  then show ?thesis
    using diff_decides_agreement [of "Some [''createdAt'']" "JObj [(''createdAt'', JNum 1), (''a'', JObj [(''createdAt'', JNum 1)])]"]
      diff_decides_agreement [of "Some [''createdAt'']" "JObj [(''createdAt'', JNum 1), (''a'', JArr [JNum 1])]"]
    by (simp add: keysOf_def)
qed

text \<open>A top-level field named \<open>$\<close> is taken for the root: the given keys are dropped inside it too.\<close>

theorem diff_takes_dollar_for_root:
  "ad_identical (diffArtifacts (JObj [(''$'', JObj [(''createdAt'', JNum 1)])]) (JObj [(''$'', JObj [(''createdAt'', JNum 2)])])
     (Some [''createdAt'']))"
  by code_simp

subsection \<open>What is recorded\<close>

text \<open>The artifact with every primitive below a secret field replaced.\<close>

fun blind :: "(json \<Rightarrow> json) \<Rightarrow> bool \<Rightarrow> json \<Rightarrow> json" where
  "blind f s (JArr xs) = JArr (map (blind f s) xs)"
| "blind f s (JObj es) = JObj (map (\<lambda>kv. (fst kv, blind f (s \<or> isSecretFieldName (fst kv)) (snd kv))) es)"
| "blind f s v = (if s \<and> isPrimitive v then f v else v)"

definition primitive_renaming :: "(json \<Rightarrow> json) \<Rightarrow> bool" where
  "primitive_renaming f \<longleftrightarrow> inj_on f {v. isPrimitive v} \<and> (\<forall>v. isPrimitive v \<longrightarrow> isPrimitive (f v))"

lemma blind_primitive: "isPrimitive v \<Longrightarrow> blind f s v = (if s then f v else v)"
  by (cases v) auto

lemma primitive_parts: "isPrimitive v \<Longrightarrow> keysOf v = [] \<and> \<not> isArray v \<and> itemsOf v = [] \<and> \<not> holdsSecret v"
  by (cases v) (auto simp: keysOf_def isArray_def itemsOf_def)

lemma renaming_primitive: "primitive_renaming f \<Longrightarrow> isPrimitive v \<Longrightarrow> isPrimitive (f v)"
  by (simp add: primitive_renaming_def)

lemma blind_shape:
  assumes "primitive_renaming f"
  shows "isPrimitive (blind f s v) = isPrimitive v" "keysOf (blind f s v) = keysOf v" "isArray (blind f s v) = isArray v"
    "itemsOf (blind f s v) = map (blind f s) (itemsOf v)"
proof -
  note p = renaming_primitive [OF assms]
  show "isPrimitive (blind f s v) = isPrimitive v" using p by (cases v) auto
  show "keysOf (blind f s v) = keysOf v" using p primitive_parts by (cases v) (auto simp: keysOf_def)
  show "isArray (blind f s v) = isArray v" using p primitive_parts by (cases v) (auto simp: isArray_def)
  show "itemsOf (blind f s v) = map (blind f s) (itemsOf v)" using p primitive_parts by (cases v) (auto simp: itemsOf_def)
qed

lemma blind_field: "k \<in> set (keysOf v) \<Longrightarrow> jget (blind f s v) k = blind f (s \<or> isSecretFieldName k) (jget v k)"
proof (cases v)
  case (JObj es)
  assume k: "k \<in> set (keysOf v)"
  have "map_of (map (\<lambda>kv. (fst kv, g (fst kv) (snd kv))) es) k = map_option (g k) (map_of es k)" for g :: "string \<Rightarrow> json \<Rightarrow> json"
    by (induction es) auto
  from this [of "\<lambda>l. blind f (s \<or> isSecretFieldName l)"] show ?thesis
    using k unfolding JObj keysOf_def by (auto dest!: weak_map_of_SomeI)
qed (auto simp: keysOf_def)

lemma blind_holdsSecret: "primitive_renaming f \<Longrightarrow> holdsSecret (blind f s v) = holdsSecret v"
proof (induction v arbitrary: s rule: holdsSecret.induct)
  case (1 xs)
  then show ?case by (simp add: list_ex_iff)
next
  case (2 es)
  then show ?case by (auto simp: list_ex_iff)
qed (auto simp: primitive_parts renaming_primitive)

lemma blind_public: "\<not> holdsSecret v \<Longrightarrow> blind f False v = v"
proof (induction v rule: holdsSecret.induct)
  case (1 xs)
  then show ?case by (auto simp: list_ex_iff intro: map_idI)
next
  case (2 es)
  then show ?case by (auto simp: list_ex_iff intro!: map_idI)
qed auto

lemma recordEntry_blind:
  assumes "primitive_renaming f"
  shows "recordEntry path k (blind f s l) (blind f s r) s = recordEntry path k l r s"
    "recordEntry path k JUndefined (blind f s r) s = recordEntry path k JUndefined r s"
    "recordEntry path k (blind f s l) JUndefined s = recordEntry path k l JUndefined s"
  using blind_public [of l f] blind_public [of r f] blind_holdsSecret [OF assms]
  by (cases s; auto simp: recordEntry_def split: DiffKind.split)+

lemma compareRecursive_blind:
  assumes f: "primitive_renaming f"
  shows "compareRecursive ex (blind f s l) (blind f s r) path s = compareRecursive ex l r path s"
proof (induction l arbitrary: r path s rule: measure_induct_rule [where f = size])
  case (less l)
  note shape = blind_shape [OF f]
  have eq: "blind f s l = blind f s r \<longleftrightarrow> l = r" if "isPrimitive l \<or> isPrimitive r"
  proof (cases "isPrimitive l \<and> isPrimitive r")
    case True
    then show ?thesis using f by (auto simp: blind_primitive primitive_renaming_def dest: inj_onD)
  next
    case False
    then show ?thesis using that shape(1) by metis
  qed
  consider "isPrimitive l \<or> isPrimitive r" | "isArray l" "isArray r" | "isArray l \<noteq> isArray r" "\<not> isPrimitive l" "\<not> isPrimitive r"
    | "\<not> isPrimitive l" "\<not> isPrimitive r" "\<not> isArray l" "\<not> isArray r" by blast
  then show ?case
  proof cases
    case 1
    then show ?thesis using eq by (subst (1 2) compareRecursive.simps) (simp add: shape recordEntry_blind [OF f])
  next
    case 2
    have np: "\<not> isPrimitive l" "\<not> isPrimitive r" using 2 primitive_parts by blast+
    have IH: "compareRecursive ex (blind f s (itemsOf l ! i)) (blind f s r') p s = compareRecursive ex (itemsOf l ! i) r' p s"
      if "i < length (itemsOf l)" for i r' p using less.IH [OF size_items [OF that]] .
    show ?thesis
      by (subst (1 2) compareRecursive.simps)
        (auto simp: np 2 shape IH recordEntry_blind [OF f] not_le intro!: arg_cong [where f = concat] map_cong)
  next
    case 3
    then show ?thesis by (subst (1 2) compareRecursive.simps) (simp add: shape recordEntry_blind [OF f])
  next
    case 4
    have IH: "compareRecursive ex (blind f s' (jget l k)) (blind f s' r') p s' = compareRecursive ex (jget l k) r' p s'"
      if "k \<in> set (keysOf l)" for k r' p s' using less.IH [OF size_jget [OF that]] .
    have k: "comparedKeys ex path (blind f s v) = comparedKeys ex path v" for v by (simp add: comparedKeys_def shape)
    have mem: "k \<in> set (comparedKeys ex path v) \<Longrightarrow> k \<in> set (keysOf v)" for k v by (simp add: comparedKeys_def)
    show ?thesis
      by (subst (1 2) compareRecursive.simps)
        (auto simp: 4 shape Let_def k IH mem blind_field recordEntry_blind [OF f] simp del: de_Morgan_disj
          intro!: arg_cong [where f = concat] map_cong)
  qed
qed

text \<open>C33: the comparison leaks nothing of a secret field. Whatever primitive values stand below secret field names, at any
  depth, can be exchanged for others, equal ones for equal ones and different ones for different ones: the verdict
  and the recorded entries stay the same.\<close>

theorem diff_hides_secrets:
  assumes "primitive_renaming f"
  shows "diffArtifacts (blind f False left) (blind f False right) topLevel = diffArtifacts left right topLevel"
  using compareRecursive_blind [OF assms, of _ False] by (simp add: diffArtifacts_def)

text \<open>A renaming that puts a star before every string.\<close>

definition ex_masking :: "json \<Rightarrow> json" where
  "ex_masking v = (case v of JStr s \<Rightarrow> JStr (CHR ''*'' # s) | _ \<Rightarrow> v)"

lemma ex_masking_renaming: "primitive_renaming ex_masking"
  by (auto simp: primitive_renaming_def inj_on_def ex_masking_def split: json.splits)

theorem diff_hides_secrets_witness:
  "diffArtifacts (JObj [(''wallet'', JObj [(''Mnemonic'', JStr ''*one''), (''name'', JStr ''a'')])])
     (JObj [(''wallet'', JObj [(''Mnemonic'', JStr ''*two''), (''name'', JStr ''b'')])]) None =
   diffArtifacts (JObj [(''wallet'', JObj [(''Mnemonic'', JStr ''one''), (''name'', JStr ''a'')])])
     (JObj [(''wallet'', JObj [(''Mnemonic'', JStr ''two''), (''name'', JStr ''b'')])]) None"
proof -
  have "blind ex_masking False (JObj [(''wallet'', JObj [(''Mnemonic'', JStr ''one''), (''name'', JStr ''a'')])]) =
      JObj [(''wallet'', JObj [(''Mnemonic'', JStr ''*one''), (''name'', JStr ''a'')])]"
    "blind ex_masking False (JObj [(''wallet'', JObj [(''Mnemonic'', JStr ''two''), (''name'', JStr ''b'')])]) =
      JObj [(''wallet'', JObj [(''Mnemonic'', JStr ''*two''), (''name'', JStr ''b'')])]" by code_simp+
  then show ?thesis using diff_hides_secrets [OF ex_masking_renaming,
      of "JObj [(''wallet'', JObj [(''Mnemonic'', JStr ''one''), (''name'', JStr ''a'')])]"
         "JObj [(''wallet'', JObj [(''Mnemonic'', JStr ''two''), (''name'', JStr ''b'')])]" None] by simp
qed

end
