(* ===== verification/HK_Resolve.thy ===== *)
theory HK_Resolve
  imports HK_Identity HK_Diff
begin

text \<open>
  The artifact store as its readers see it: the verified, namespaced resolver of \<open>packages/artifacts/src/resolve.ts\<close>.

  The store is the list of entries that \<open>enumerateWorkspaceArtifactsSync\<close> returns: the parsed objects with their real
  paths, which are distinct, in the order of their relative paths; reading the directory is not modelled. Reading one
  file by its path (containment, existence, parsing) is the parameter \<open>readPath\<close>. An \<open>ArtifactResolveError\<close> is its code; messages
  and contexts are left out.
\<close>

subsection \<open>Lookups\<close>

datatype LookupInput = LArtifact string | LPlan string | LSigned string | LTx string | LWorkflow string

datatype LookupNamespace = NsArtifact | NsPlan | NsSigned | NsTx | NsWorkflow

fun namespaceOf :: "LookupInput \<Rightarrow> LookupNamespace" where
  "namespaceOf (LArtifact v) = NsArtifact" | "namespaceOf (LPlan v) = NsPlan" | "namespaceOf (LSigned v) = NsSigned"
| "namespaceOf (LTx v) = NsTx" | "namespaceOf (LWorkflow v) = NsWorkflow"

fun lookupValue :: "LookupInput \<Rightarrow> string" where
  "lookupValue (LArtifact v) = v" | "lookupValue (LPlan v) = v" | "lookupValue (LSigned v) = v"
| "lookupValue (LTx v) = v" | "lookupValue (LWorkflow v) = v"

datatype LookupClassification = CPath | CArtifactId | CNamespaced LookupInput | CUnknown

text \<open>On POSIX an absolute path starts with a slash.\<close>

definition looksLikePath :: "string \<Rightarrow> bool" where
  "looksLikePath s \<longleftrightarrow> starts_with s ''/'' \<or> CHR ''/'' \<in> set s \<or> CHR 0x5C \<in> set s \<or> s = ''.'' \<or> s = ''..'' \<or> starts_with s ''./'' \<or> starts_with s ''../''"

definition hexLabel :: "string \<Rightarrow> string \<Rightarrow> bool" where
  "hexLabel p s \<longleftrightarrow> starts_with s p \<and> length s = length p + 16 \<and> list_all is_lower_hex (drop (length p) s)"

text \<open>The expression for transaction ids of the simulator, without case: \<open>simulated-.+-tx\<close>, \<open>simtx_[0-9a-z_]+\<close> or
  \<open>synthetic-\<close> with 64 hexadecimal digits. A dot is anything but a line terminator.\<close>

definition simulatorTxId :: "string \<Rightarrow> bool" where
  "simulatorTxId input \<longleftrightarrow>
     (let s = map to_lower input in
      starts_with s ''simulated-'' \<and> 14 \<le> length s \<and> drop (length s - 3) s = ''-tx'' \<and>
        list_all (\<lambda>c. c \<noteq> CHR 0x0A \<and> c \<noteq> CHR 0x0D) s \<or>
      starts_with s ''simtx_'' \<and> 6 < length s \<and> list_all is_word (drop 6 s) \<or>
      starts_with s ''synthetic-'' \<and> HEX64 (drop 10 s))"

definition classifyLookupInput :: "string \<Rightarrow> LookupClassification" where
  "classifyLookupInput s =
     (if s = [] then CUnknown
      else if looksLikePath s then CPath
      else if HEX64 s then CArtifactId
      else if hexLabel ''plan-'' s then CNamespaced (LPlan s)
      else if hexLabel ''signed-'' s then CNamespaced (LSigned s)
      else if hexLabel ''wf_'' s then CNamespaced (LWorkflow s)
      else if simulatorTxId s then CNamespaced (LTx s)
      else CUnknown)"

definition parseUntypedLookup :: "string \<Rightarrow> LookupInput result" where
  "parseUntypedLookup s =
     (case classifyLookupInput s of CPath \<Rightarrow> Inr (LArtifact s) | CArtifactId \<Rightarrow> Inr (LArtifact s) | _ \<Rightarrow> Inl ''NAMESPACE_REQUIRED'')"

subsection \<open>Entries\<close>

record WorkspaceArtifactEntry =
  we_path :: string
  we_relativeSubpath :: string
  we_subDir :: string
  we_artifact :: json

type_synonym store = "WorkspaceArtifactEntry list"

text \<open>\<open>path.basename(path.dirname(p)) === "artifacts"\<close>, and the comparison of two copies.\<close>

definition atStoreRoot :: "string \<Rightarrow> int" where
  "atStoreRoot p = (let parts = filter (\<lambda>x. x \<noteq> []) (splitOn (CHR ''/'') p) in
     if 2 \<le> length parts \<and> parts ! (length parts - 2) = ''artifacts'' then 1 else 0)"

definition compareStoreCopies :: "string \<Rightarrow> string \<Rightarrow> int" where
  "compareStoreCopies a b =
     (let c = atStoreRoot a - atStoreRoot b in if c \<noteq> 0 then c else deterministicCompare a b)"

text \<open>The identity an entry verifies as, if it does.\<close>

definition identityOption :: "candidate_check \<Rightarrow> string option" where
  "identityOption c = (case c of Inl _ \<Rightarrow> None | Inr (i, _) \<Rightarrow> Some i)"

definition verifiedWorkspaceEntries :: "(string \<Rightarrow> string) \<Rightarrow> store \<Rightarrow> (WorkspaceArtifactEntry \<times> string option) list result" where
  "verifiedWorkspaceEntries sha entries =
     mapE (\<lambda>e. bindE (checkArtifactIdentity sha (we_artifact e)) (\<lambda>c. Inr (e, identityOption c))) entries"

text \<open>The loop over the verified entries: which copy represents each identity.\<close>

definition representStep :: "(string \<times> WorkspaceArtifactEntry) list \<Rightarrow> WorkspaceArtifactEntry \<times> string option \<Rightarrow> (string \<times> WorkspaceArtifactEntry) list" where
  "representStep representative v =
     (case snd v of None \<Rightarrow> representative
      | Some i \<Rightarrow> (case map_of representative i of
          None \<Rightarrow> AList.update i (fst v) representative
        | Some current \<Rightarrow> if compareStoreCopies (we_path (fst v)) (we_path current) < 0 then AList.update i (fst v) representative else representative))"

definition distinctWorkspaceArtifacts :: "(string \<Rightarrow> string) \<Rightarrow> store \<Rightarrow> WorkspaceArtifactEntry list result" where
  "distinctWorkspaceArtifacts sha entries =
     bindE (verifiedWorkspaceEntries sha entries) (\<lambda>verified.
       let representative = foldl representStep [] verified in
       Inr (map fst (filter (\<lambda>v. case snd v of None \<Rightarrow> True | Some i \<Rightarrow> map_of representative i = Some (fst v)) verified)))"

record ArtifactCount =
  ac_artifacts :: nat
  ac_entries :: nat
  ac_unverified :: nat

definition countWorkspaceArtifacts :: "(string \<Rightarrow> string) \<Rightarrow> store \<Rightarrow> ArtifactCount result" where
  "countWorkspaceArtifacts sha entries =
     bindE (verifiedWorkspaceEntries sha entries) (\<lambda>verified.
       let identities = setOrder (List.map_filter snd verified); unverified = length (filter (\<lambda>v. snd v = None) verified) in
       Inr \<lparr>ac_artifacts = length identities + unverified, ac_entries = length verified, ac_unverified = unverified\<rparr>)"

subsection \<open>Candidates\<close>

datatype ResolvedBy = ByPath | ByArtifactId | ByLabel | ByTxId | ByWorkflowId

record ResolvedArtifact =
  ra_artifact :: json
  ra_artifactId :: string
  ra_path :: string
  ra_authScope :: AuthScope
  ra_namespace :: LookupNamespace
  ra_resolvedBy :: ResolvedBy
  ra_copies :: "string list"

record VerifiedCandidate =
  vc_entry :: WorkspaceArtifactEntry
  vc_artifactId :: string
  vc_authScope :: AuthScope

definition resolveByPath :: "(string \<Rightarrow> string) \<Rightarrow> (string \<Rightarrow> (json \<times> string) result) \<Rightarrow> string \<Rightarrow> ResolvedArtifact result" where
  "resolveByPath sha readPath input =
     bindE (readPath input) (\<lambda>(artifact, candidate).
     bindE (checkArtifactIdentity sha artifact) (\<lambda>check.
       case check of Inl _ \<Rightarrow> Inl ''CANDIDATE_INVALID''
       | Inr (i, scope) \<Rightarrow> Inr \<lparr>ra_artifact = artifact, ra_artifactId = i, ra_path = candidate, ra_authScope = scope,
           ra_namespace = NsArtifact, ra_resolvedBy = ByPath, ra_copies = [candidate]\<rparr>))"

text \<open>One entry of the store: no candidate, an invalid one, or a valid one.\<close>

definition collectEntry ::
    "(string \<Rightarrow> string) \<Rightarrow> (json \<Rightarrow> string option \<Rightarrow> bool) \<Rightarrow> (string \<Rightarrow> string option) \<Rightarrow> WorkspaceArtifactEntry \<Rightarrow>
     VerifiedCandidate list \<times> (WorkspaceArtifactEntry \<times> string list) list \<Rightarrow>
     (VerifiedCandidate list \<times> (WorkspaceArtifactEntry \<times> string list) list) result" where
  "collectEntry sha isCandidate extraCheck entry found =
     (if \<not> isCandidate (we_artifact entry) (safeRecompute sha (we_artifact entry)) then Inr found
      else bindE (checkArtifactIdentity sha (we_artifact entry)) (\<lambda>check.
        case check of Inl issues \<Rightarrow> Inr (fst found, snd found @ [(entry, issues)])
        | Inr (i, scope) \<Rightarrow> (case extraCheck i of
            Some code \<Rightarrow> Inr (fst found, snd found @ [(entry, [code])])
          | None \<Rightarrow> Inr (fst found @ [\<lparr>vc_entry = entry, vc_artifactId = i, vc_authScope = scope\<rparr>], snd found))))"

fun collect ::
    "(string \<Rightarrow> string) \<Rightarrow> (json \<Rightarrow> string option \<Rightarrow> bool) \<Rightarrow> (string \<Rightarrow> string option) \<Rightarrow> store \<Rightarrow>
     VerifiedCandidate list \<times> (WorkspaceArtifactEntry \<times> string list) list \<Rightarrow>
     (VerifiedCandidate list \<times> (WorkspaceArtifactEntry \<times> string list) list) result" where
  "collect sha isCandidate extraCheck [] found = Inr found"
| "collect sha isCandidate extraCheck (entry # entries) found =
     bindE (collectEntry sha isCandidate extraCheck entry found) (collect sha isCandidate extraCheck entries)"

text \<open>The candidates by identity, in the order of their first occurrence: the map \<open>groups\<close>.\<close>

definition groupStep :: "(string \<times> VerifiedCandidate list) list \<Rightarrow> VerifiedCandidate \<Rightarrow> (string \<times> VerifiedCandidate list) list" where
  "groupStep groups c =
     (case map_of groups (vc_artifactId c) of
        Some g \<Rightarrow> AList.update (vc_artifactId c) (g @ [c]) groups
      | None \<Rightarrow> AList.update (vc_artifactId c) [c] groups)"

definition resolvedOf :: "LookupNamespace \<Rightarrow> ResolvedBy \<Rightarrow> VerifiedCandidate list \<Rightarrow> ResolvedArtifact" where
  "resolvedOf namespace resolvedBy copies =
     (let first = hd copies in
      \<lparr>ra_artifact = we_artifact (vc_entry first), ra_artifactId = vc_artifactId first, ra_path = we_path (vc_entry first),
       ra_authScope = vc_authScope first, ra_namespace = namespace, ra_resolvedBy = resolvedBy, ra_copies = map (\<lambda>c. we_path (vc_entry c)) copies\<rparr>)"

definition pick ::
    "LookupNamespace \<Rightarrow> ResolvedBy \<Rightarrow> VerifiedCandidate list \<times> (WorkspaceArtifactEntry \<times> string list) list \<Rightarrow> string \<Rightarrow> string \<Rightarrow> ResolvedArtifact result" where
  "pick namespace resolvedBy found ambiguityCode notFoundCode =
     (if snd found \<noteq> [] then Inl ''CANDIDATE_INVALID''
      else if fst found = [] then Inl notFoundCode
      else (let groups = foldl groupStep [] (fst found) in
        if length groups > 1 then Inl ambiguityCode
        else Inr (resolvedOf namespace resolvedBy (snd (hd groups)))))"

subsection \<open>Resolution\<close>

definition TX_NAMESPACE_SCHEMAS :: "string list" where
  "TX_NAMESPACE_SCHEMAS = [schemaTxReceipt, schemaTxReceiptV1, schemaTxSubmissionV1]"

definition schemaOf :: "json \<Rightarrow> string" where
  "schemaOf a = text_of (jget a ''schema'')"

definition resolveWorkflowRuns :: "(string \<Rightarrow> string) \<Rightarrow> store \<Rightarrow> string \<Rightarrow> ResolvedArtifact list result" where
  "resolveWorkflowRuns sha entries workflowId =
     bindE (collect sha (\<lambda>a _. schemaOf a = schemaWorkflowV1 \<and> jget a ''workflowId'' = JStr workflowId) (\<lambda>_. None) entries ([], [])) (\<lambda>found.
       if snd found \<noteq> [] then Inl ''CANDIDATE_INVALID''
       else Inr (map (\<lambda>g. resolvedOf NsWorkflow ByWorkflowId (snd g)) (foldl groupStep [] (fst found))))"

definition isReceiptArtifact :: "json \<Rightarrow> bool" where
  "isReceiptArtifact a \<longleftrightarrow> schemaOf a \<in> set TX_NAMESPACE_SCHEMAS \<or> schemaOf a = [] \<and> text_of (jget a ''schemaVersion'') \<in> set TX_NAMESPACE_SCHEMAS"

text \<open>A claim of an identity: the declared hash, the lineage's, or the recomputed one.\<close>

definition claims :: "string \<Rightarrow> json \<Rightarrow> string option \<Rightarrow> bool" where
  "claims i a recomputed \<longleftrightarrow> jget a ''contentHash'' = JStr i \<or> jget (jget a ''lineage'') ''artifactId'' = JStr i \<or> recomputed = Some i"

definition identityMismatch :: "string \<Rightarrow> string \<Rightarrow> string option" where
  "identityMismatch i artifactId = (if artifactId = i then None else Some ''IDENTITY_CLAIM_MISMATCH'')"

function resolveLookup ::
    "(string \<Rightarrow> string) \<Rightarrow> (string \<Rightarrow> (json \<times> string) result) \<Rightarrow> store \<Rightarrow> LookupInput \<Rightarrow> ResolvedArtifact result" where
  "resolveLookup sha readPath entries input =
     (if lookupValue input = [] then Inl ''ARTIFACT_INPUT_UNRECOGNIZED''
      else case input of
        LArtifact v \<Rightarrow>
          if looksLikePath v then resolveByPath sha readPath v
          else if \<not> HEX64 v then (case parseUntypedLookup v of Inl e \<Rightarrow> Inl e | Inr l \<Rightarrow> resolveLookup sha readPath entries l)
          else bindE (collect sha (claims v) (identityMismatch v) entries ([], [])) (\<lambda>found.
            pick NsArtifact ByArtifactId found ''REFERENCE_AMBIGUOUS'' ''ARTIFACT_NOT_FOUND'')
      | LPlan v \<Rightarrow>
          bindE (collect sha (\<lambda>a _. starts_with (schemaOf a) schemaTxPlan \<and> jget a ''planId'' = JStr v) (\<lambda>_. None) entries ([], [])) (\<lambda>found.
            pick NsPlan ByLabel found ''LABEL_AMBIGUOUS'' ''ARTIFACT_NOT_FOUND'')
      | LSigned v \<Rightarrow>
          bindE (collect sha (\<lambda>a _. starts_with (schemaOf a) schemaSignedTx \<and> jget a ''signedId'' = JStr v) (\<lambda>_. None) entries ([], [])) (\<lambda>found.
            pick NsSigned ByLabel found ''LABEL_AMBIGUOUS'' ''ARTIFACT_NOT_FOUND'')
      | LTx v \<Rightarrow>
          bindE (collect sha (\<lambda>a _. isReceiptArtifact a \<and> jget a ''txId'' = JStr v) (\<lambda>_. None) entries ([], [])) (\<lambda>found.
            pick NsTx ByTxId found ''RECEIPT_AMBIGUOUS_CONFLICT'' ''RECEIPT_NOT_FOUND'')
      | LWorkflow v \<Rightarrow>
          bindE (resolveWorkflowRuns sha entries v) (\<lambda>runs.
            if runs = [] then Inl ''ARTIFACT_NOT_FOUND''
            else if length runs > 1 then Inl ''REFERENCE_AMBIGUOUS''
            else Inr (hd runs)))"
  by pat_completeness auto
termination
proof (relation "{}")
  fix sha readPath entries input v l
  assume "\<not> looksLikePath v" "\<not> HEX64 v" "parseUntypedLookup v = Inr (l :: LookupInput)"
  then show "((sha :: string \<Rightarrow> string, readPath :: string \<Rightarrow> (json \<times> string) result, entries :: store, l), sha, readPath, entries, input) \<in> {}"
    by (auto simp: parseUntypedLookup_def classifyLookupInput_def split: if_splits)
qed simp

declare resolveLookup.simps [simp del]

text \<open>\<open>resolveArtifactSync\<close> of a workspace with this store; a plain string is first given its namespace.\<close>

definition resolveArtifactSync ::
    "(string \<Rightarrow> string) \<Rightarrow> (string \<Rightarrow> (json \<times> string) result) \<Rightarrow> store \<Rightarrow> string + LookupInput \<Rightarrow> ResolvedArtifact result" where
  "resolveArtifactSync sha readPath entries input =
     (case input of
        Inl s \<Rightarrow> bindE (parseUntypedLookup s) (resolveLookup sha readPath entries)
      | Inr l \<Rightarrow> resolveLookup sha readPath entries l)"

end
