(* ===== verification/HK_Recovery.thy ===== *)
theory HK_Recovery
  imports HK_Transactions
begin

text \<open>
  Durable execution: \<open>packages/localnet/src/pending-execution.ts\<close>, \<open>buildSimulatedTrace\<close> and \<open>traceFileFor\<close> of
  \<open>traces.ts\<close>, \<open>storeEntryFor\<close> of \<open>packages/artifacts/src/store.ts\<close> with \<open>file-id.ts\<close>, and \<open>plainChildPath\<close> of
  \<open>packages/core/src/fs.ts\<close>.

  The disk is the state file and the files of the artifact store. Every write is atomic, so an operation is the
  list of its writes, and an interrupted one has done a prefix of them. The state file holds the state it was
  written from. The host (digest, dates, paths, \<open>JSON.parse\<close>) and the lookup of artifacts in the store are
  parameters. Errors keep their codes.
\<close>

subsection \<open>The host\<close>

record Host =
  h_sha :: "string \<Rightarrow> string"
  h_iso :: "int \<Rightarrow> string"
  h_parse :: "string \<Rightarrow> int"
  h_artifactPath :: "string \<Rightarrow> string \<Rightarrow> string"
  h_parseJson :: "string \<Rightarrow> json result"
  h_freshId :: string

subsection \<open>File names\<close>

definition safeFirst :: "char \<Rightarrow> bool" where
  "safeFirst c \<longleftrightarrow> is_word c"

definition SAFE_FILE_ID :: "string \<Rightarrow> bool" where
  "SAFE_FILE_ID s = (case s of [] \<Rightarrow> False | c # cs \<Rightarrow> safeFirst c \<and> length cs \<le> 199 \<and> list_all (\<lambda>d. is_word d \<or> d = CHR ''.'' \<or> d = CHR ''-'') cs)"

definition assertSafeFileId :: "json \<Rightarrow> string result" where
  "assertSafeFileId v = (case v of JStr s \<Rightarrow> if SAFE_FILE_ID s then Inr s else Inl ''ARTIFACT_ID_INVALID'' | _ \<Rightarrow> Inl ''ARTIFACT_ID_INVALID'')"

text \<open>The second segment of a schema (\<open>segment\<close> is 1).\<close>

definition schemaFilePrefix :: "json \<Rightarrow> string \<Rightarrow> string" where
  "schemaFilePrefix schema fallback =
     (case schema of
        JStr s \<Rightarrow> (let parts = splitOn (CHR ''.'') s in if 1 < length parts \<and> SAFE_FILE_ID (parts ! 1) then parts ! 1 else fallback)
      | _ \<Rightarrow> fallback)"

definition STORE_ID_FIELDS :: "string list" where
  "STORE_ID_FIELDS = [''artifactId'', ''contentHash'', ''planId'', ''signedId'', ''txId'']"

fun resolveStoreIdFrom :: "Host \<Rightarrow> json \<Rightarrow> string list \<Rightarrow> string result" where
  "resolveStoreIdFrom h artifact [] = Inr (h_freshId h)"
| "resolveStoreIdFrom h artifact (field # rest) =
     (let v = jget artifact field in
      if v = JUndefined \<or> v = JNull \<or> v = JStr [] then resolveStoreIdFrom h artifact rest else assertSafeFileId v)"

definition resolveStoreId :: "Host \<Rightarrow> json \<Rightarrow> string result" where
  "resolveStoreId h artifact = resolveStoreIdFrom h artifact STORE_ID_FIELDS"

definition js_includes :: "string \<Rightarrow> string \<Rightarrow> bool" where
  "js_includes s t \<longleftrightarrow> list_ex (\<lambda>i. starts_with (drop i s) t) [0..<Suc (length s)]"

definition storeSubDir :: "json \<Rightarrow> string" where
  "storeSubDir schema =
     (case schema of
        JStr schema' \<Rightarrow>
          (let s = map to_lower schema' in
           if js_includes s ''txplan'' then ''plans'' else if js_includes s ''signedtx'' then ''signed''
           else if js_includes s ''txobservation'' then ''observations''
           else if js_includes s ''txreceipt'' \<or> js_includes s ''txsubmission'' then ''receipts''
           else if js_includes s ''lineage'' then ''lineage'' else ''misc'')
      | _ \<Rightarrow> ''misc'')"

text \<open>\<open>JSON.stringify(v, bigIntReplacer, 2)\<close>: what has no JSON form is left out of objects and is \<open>null\<close> in arrays.\<close>

definition unprintable :: "json \<Rightarrow> bool" where
  "unprintable j \<longleftrightarrow> j = JUndefined \<or> j = JFunction \<or> j = JSymbol"

definition indented :: "nat \<Rightarrow> string \<Rightarrow> string \<Rightarrow> string list \<Rightarrow> string" where
  "indented n op cl items =
     (if items = [] then op @ cl
      else op @ [CHR 0x0A] @ join_with ('','' @ [CHR 0x0A]) (map (\<lambda>t. replicate (n + 2) (CHR '' '') @ t) items) @ [CHR 0x0A] @ replicate n (CHR '' '') @ cl)"

function stringify :: "nat \<Rightarrow> json \<Rightarrow> string" where
  "stringify n (JBool b) = (if b then ''true'' else ''false'')"
| "stringify n (JNum i) = int_str i"
| "stringify n (JFrac t) = t"
| "stringify n (JBigInt i) = json_string (int_str i)"
| "stringify n (JStr s) = json_string s"
| "stringify n (JArr xs) = indented n ''['' '']'' (map (stringify (n + 2)) xs)"
| "stringify n (JObj es) = indented n ''{'' ''}''
     (map (\<lambda>kv. json_string (fst kv) @ '': '' @ stringify (n + 2) (snd kv)) (filter (\<lambda>kv. \<not> unprintable (snd kv)) es))"
| "stringify n JUndefined = ''null''" | "stringify n JNull = ''null''" | "stringify n JSymbol = ''null''" | "stringify n JFunction = ''null''"
| "stringify n JMap = ''{}''" | "stringify n JSet = ''{}''" | "stringify n JDate = ''{}''" | "stringify n JNonPlain = ''{}''"
  by pat_completeness auto
termination
proof (relation "measure (\<lambda>(n, j). size j)", goal_cases)
  case (2 n xs x)
  then show ?case by (simp add: less_Suc_eq_le size_list_estimation')
next
  case (3 n es kv)
  then have "(fst kv, snd kv) \<in> set es" by auto
  from size_json_entry [OF this] show ?case by simp
qed simp

record StoreEntry =
  se_rel :: string
  se_content :: string

definition storeEntryFor :: "Host \<Rightarrow> json \<Rightarrow> StoreEntry result" where
  "storeEntryFor h artifact =
     bindE (resolveStoreId h artifact) (\<lambda>i.
       let prefix = schemaFilePrefix (jget artifact ''schema'') ''artifact'';
           filename = prefix @ ''-'' @ i @ ''.json''
       in if CHR ''/'' \<in> set filename then Inl ''PATH_TRAVERSAL''
          else Inr \<lparr>se_rel = storeSubDir (jget artifact ''schema'') @ ''/'' @ filename, se_content = stringify 0 artifact @ [CHR 0x0A]\<rparr>)"

subsection \<open>Traces\<close>

text \<open>The names Windows maps to a device; the superscript digits are Latin-1 characters.\<close>

definition windowsDeviceStem :: "string \<Rightarrow> bool" where
  "windowsDeviceStem s =
     (let t = map to_lower s in
      t \<in> set [''con'', ''prn'', ''aux'', ''nul'', ''conin$'', ''conout$''] \<or>
      length t = 4 \<and> take 3 t \<in> set [''com'', ''lpt''] \<and> (is_digit (t ! 3) \<or> t ! 3 \<in> set [CHR 0xB9, CHR 0xB2, CHR 0xB3]))"

definition isWindowsHostileName :: "string \<Rightarrow> bool" where
  "isWindowsHostileName name \<longleftrightarrow> windowsDeviceStem (hd (splitOn (CHR ''.'') name)) \<or> (name \<noteq> [] \<and> last name \<in> set ''. '')"

definition plainChild :: "string \<Rightarrow> bool" where
  "plainChild name \<longleftrightarrow> name \<notin> set [[], ''.'', ''..''] \<and> \<not> list_ex (\<lambda>c. c \<in> set [CHR 0x5C, CHR ''/'', CHR '':'', CHR 0x00]) name \<and>
     \<not> isWindowsHostileName name"

definition validateTxId :: "string \<Rightarrow> unit result" where
  "validateTxId txId =
     (if CHR ''/'' \<in> set txId \<or> CHR 0x5C \<in> set txId \<or> js_includes txId ''..'' \<or> \<not> plainChild (txId @ ''.trace.json'')
      then Inl (''Invalid txId: '' @ txId) else Inr ())"

definition getTracePath :: "Host \<Rightarrow> string \<Rightarrow> string \<Rightarrow> string result" where
  "getTracePath h txId cwd = bindE (validateTxId txId) (\<lambda>_. Inr (h_artifactPath h cwd (txId @ ''.trace.json'')))"

definition traceEvent :: "string \<Rightarrow> int \<Rightarrow> json" where
  "traceEvent type ms = JObj [(''type'', JStr type), (''phase'', JStr ''send''), (''timestamp'', JNum ms)]"

definition traceStep :: "Host \<Rightarrow> string \<Rightarrow> int \<Rightarrow> json" where
  "traceStep h status ms = JObj [(''phase'', JStr ''send''), (''status'', JStr status), (''timestamp'', JStr (h_iso h ms)), (''details'', JUndefined)]"

definition traceDraft :: "Host \<Rightarrow> json \<Rightarrow> int \<Rightarrow> int \<Rightarrow> (string \<times> json) list" where
  "traceDraft h receipt startedAtMs completedAtMs =
     (let lin = jget receipt ''lineage''; ch = jget receipt ''contentHash'' in
      [(''schema'', JStr schemaTxTrace), (''hardkasVersion'', JStr HARDKAS_VERSION), (''version'', JStr ARTIFACT_VERSION),
       (''hashVersion'', JNum CURRENT_HASH_VERSION), (''createdAt'', jget receipt ''createdAt''), (''txId'', jget receipt ''txId''),
       (''mode'', jnn (jget receipt ''mode'') (JStr ''simulator'')), (''networkId'', jget receipt ''networkId''),
       (''steps'', JArr [traceStep h ''started'' startedAtMs, traceStep h ''completed'' completedAtMs]),
       (''events'', JArr [traceEvent ''phase.started'' startedAtMs, traceEvent ''phase.completed'' completedAtMs])] @
      jwhen (truthy (jget receipt ''workflowId'')) ''workflowId'' (jget receipt ''workflowId'') @
      jwhen (truthy (jget receipt ''assumptionLevel'')) ''assumptionLevel'' (jget receipt ''assumptionLevel'') @
      [(''lineage'', JObj [(''artifactId'', JStr []), (''lineageId'', jor (jget lin ''lineageId'') (jor ch (JStr zeros64))),
         (''parentArtifactId'', jor ch (JStr zeros64)), (''rootArtifactId'', jor (jget lin ''rootArtifactId'') (jor ch (JStr zeros64))),
         (''sequence'', JNum (seq_of (jor (jget lin ''sequence'') (JNum 1)) + 1))])])"

definition buildSimulatedTrace :: "Host \<Rightarrow> json \<Rightarrow> int \<Rightarrow> int \<Rightarrow> string \<Rightarrow> json result" where
  "buildSimulatedTrace h receipt startedAtMs completedAtMs receiptPath =
     (let base = JObj (traceDraft h receipt startedAtMs completedAtMs) in
      bindE (calculateContentHash (h_sha h) base CURRENT_HASH_VERSION) (\<lambda>hash.
        Inr (jset ''receiptPath'' (JStr receiptPath) (sealWith hash base))))"

definition traceFileFor :: "json \<Rightarrow> StoreEntry result" where
  "traceFileFor trace =
     bindE (validateTxId (text_of (jget trace ''txId''))) (\<lambda>_.
       Inr \<lparr>se_rel = text_of (jget trace ''txId'') @ ''.trace.json'', se_content = stringify 0 trace\<rparr>)"

subsection \<open>Executions and their evidence\<close>

definition PENDING_EXECUTION_SCHEMA :: string where
  "PENDING_EXECUTION_SCHEMA = ''hardkas.pendingExecution.v1''"

datatype EvidenceKind = EvStateSnapshot | EvReceipt | EvTrace

record EvidenceFile =
  ef_kind :: EvidenceKind
  ef_rel :: string
  ef_content :: string
  ef_identity :: json

record SimulatedExecutionEvidence =
  ev_stateSnapshot :: json
  ev_receipt :: json
  ev_trace :: json
  ev_receiptPath :: string
  ev_files :: "EvidenceFile list"

definition currentEvidenceFormat :: EvidenceFormat where
  "currentEvidenceFormat = \<lparr>fmt_hardkasVersion = HARDKAS_VERSION, fmt_artifactVersion = ARTIFACT_VERSION, fmt_hashVersion = CURRENT_HASH_VERSION\<rparr>"

definition withoutPending :: "LocalnetState \<Rightarrow> LocalnetState" where
  "withoutPending state = state\<lparr>ls_pendingExecution := None\<rparr>"

definition systemContext :: "string \<Rightarrow> RuntimeContext" where
  "systemContext now = \<lparr>rc_now = now, rc_workflowId = JUndefined, rc_assumptionLevel = JUndefined, rc_utxoSelection = JUndefined,
     rc_pendingSpendEvidence = JUndefined, rc_planningWindow = JUndefined, rc_plannerAuthority = JUndefined, rc_plannerAuthorityDetail = JUndefined\<rparr>"

definition isSigned :: "json \<Rightarrow> bool" where
  "isSigned executed \<longleftrightarrow> jget executed ''schema'' = JStr schemaSignedTx"

definition executionOptions :: "json \<Rightarrow> string \<Rightarrow> string \<Rightarrow> ExecutionClock \<Rightarrow> PlanOptions" where
  "executionOptions executed txId tracePath clock =
     (let signedId = (if isSigned executed then jor (jget executed ''signedId'') (jor (jget executed ''id'') (JStr ''unknown'')) else JStr ''unknown'') in
      \<lparr>po_txId = Some txId, po_digestHashVersion = JUndefined, po_submittedAt = JStr (clk_submittedAt clock),
       po_confirmedAt = JStr (clk_submittedAt clock), po_rpcUrl = JStr ''simulated://local'', po_tracePath = JStr tracePath,
       po_sourceSignedId = (if isSigned executed \<and> signedId \<noteq> JStr ''unknown'' then signedId else JUndefined),
       po_parentArtifact = (if isSigned executed then JObj [(''contentHash'', jget executed ''contentHash''), (''lineage'', jget executed ''lineage'')] else JUndefined)\<rparr>)"

text \<open>The state after an execution with its receipt, or the errors of the simulation.\<close>

definition applySimulatedExecution ::
    "Host \<Rightarrow> LocalnetState \<Rightarrow> json \<Rightarrow> json \<Rightarrow> string \<Rightarrow> string \<Rightarrow> ExecutionClock \<Rightarrow> (string list + LocalnetState \<times> json) result" where
  "applySimulatedExecution h state plan executed txId workspaceRoot clock =
     bindE (getTracePath h txId workspaceRoot) (\<lambda>tracePath.
     bindE (applySimulatedPlan (h_sha h) (withoutPending state) plan (systemContext (h_iso h (h_parse h (clk_receiptCreatedAt clock))))
       (executionOptions executed txId tracePath clock)) (\<lambda>sim.
         Inr (if \<not> sr_ok sim then Inl (sr_errors sim) else Inr (sr_state sim, sr_receipt sim))))"

definition evidenceFile :: "EvidenceKind \<Rightarrow> StoreEntry \<Rightarrow> json \<Rightarrow> EvidenceFile" where
  "evidenceFile k entry artifact =
     \<lparr>ef_kind = k, ef_rel = se_rel entry, ef_content = se_content entry, ef_identity = jget artifact ''contentHash''\<rparr>"

definition buildSimulatedExecutionEvidence ::
    "Host \<Rightarrow> LocalnetState \<Rightarrow> json \<Rightarrow> string \<Rightarrow> ExecutionClock \<Rightarrow> SimulatedExecutionEvidence result" where
  "buildSimulatedExecutionEvidence h postState receipt workspaceRoot clock =
     bindE (buildStateSnapshotArtifact (h_sha h) (withoutPending postState) (clk_snapshotCreatedAt clock)) (\<lambda>stateSnapshot.
     bindE (storeEntryFor h stateSnapshot) (\<lambda>snapshotEntry.
     bindE (storeEntryFor h receipt) (\<lambda>receiptEntry.
       let receiptPath = h_artifactPath h workspaceRoot (se_rel receiptEntry) in
       bindE (buildSimulatedTrace h receipt (clk_traceStartedAtMs clock) (clk_traceCompletedAtMs clock) receiptPath) (\<lambda>trace.
       bindE (traceFileFor trace) (\<lambda>traceEntry.
         Inr \<lparr>ev_stateSnapshot = stateSnapshot, ev_receipt = receipt, ev_trace = trace, ev_receiptPath = receiptPath,
           ev_files = [evidenceFile EvStateSnapshot snapshotEntry stateSnapshot, evidenceFile EvReceipt receiptEntry receipt,
             evidenceFile EvTrace traceEntry trace]\<rparr>)))))"

subsection \<open>The disk\<close>

record Disk =
  dk_ledger :: "LocalnetState option"
  dk_files :: "string \<rightharpoonup> string"

datatype DiskWrite = WriteLedger LocalnetState | WriteFile string string

fun applyWrite :: "DiskWrite \<Rightarrow> Disk \<Rightarrow> Disk" where
  "applyWrite (WriteLedger st) d = d\<lparr>dk_ledger := Some st\<rparr>"
| "applyWrite (WriteFile rel content) d = d\<lparr>dk_files := (dk_files d)(rel \<mapsto> content)\<rparr>"

definition runWrites :: "DiskWrite list \<Rightarrow> Disk \<Rightarrow> Disk" where
  "runWrites ws d = fold applyWrite ws d"

datatype Found = Missing | Exact | SameIdentityOtherBytes | OtherIdentity

definition inspect :: "Host \<Rightarrow> Disk \<Rightarrow> EvidenceFile \<Rightarrow> Found" where
  "inspect h d f =
     (case dk_files d (ef_rel f) of
        None \<Rightarrow> Missing
      | Some have \<Rightarrow>
          if have = ef_content f then Exact
          else (case h_parseJson h have of
                  Inr j \<Rightarrow> if jget j ''contentHash'' = ef_identity f then SameIdentityOtherBytes else OtherIdentity
                | Inl e \<Rightarrow> OtherIdentity))"

definition clashes :: "Host \<Rightarrow> Disk \<Rightarrow> EvidenceFile \<Rightarrow> bool" where
  "clashes h d f \<longleftrightarrow> inspect h d f \<noteq> Missing \<and> inspect h d f \<noteq> Exact"

text \<open>What publishing found, with the writes it makes.\<close>

definition publishEvidence :: "Host \<Rightarrow> Disk \<Rightarrow> SimulatedExecutionEvidence \<Rightarrow> ((EvidenceKind \<times> Found) list \<times> DiskWrite list) result" where
  "publishEvidence h d evidence =
     (if list_ex (clashes h d) (ev_files evidence) then Inl ''RECOVERY_CONFLICT''
      else Inr (map (\<lambda>f. (ef_kind f, inspect h d f)) (ev_files evidence),
             map (\<lambda>f. WriteFile (ef_rel f) (ef_content f)) (filter (\<lambda>f. inspect h d f = Missing) (ev_files evidence))))"

definition commitSimulatedExecution ::
    "Host \<Rightarrow> Disk \<Rightarrow> LocalnetState \<Rightarrow> PendingExecutionRecord \<Rightarrow> SimulatedExecutionEvidence \<Rightarrow> DiskWrite list result" where
  "commitSimulatedExecution h d state record' evidence =
     (let postState = withoutPending state; commit = WriteLedger (postState\<lparr>ls_pendingExecution := Some record'\<rparr>) in
      if list_ex (clashes h d) (ev_files evidence) then Inl ''RECOVERY_CONFLICT''
      else bindE (publishEvidence h (applyWrite commit d) evidence) (\<lambda>(found, writes).
        Inr ([commit] @ writes @ [WriteLedger postState])))"

text \<open>The record \<open>packages/sdk/src/tx.ts\<close> commits with an execution.\<close>

definition executionRecord :: "json \<Rightarrow> SimulatedExecutionEvidence \<Rightarrow> string \<Rightarrow> string \<Rightarrow> ExecutionClock \<Rightarrow> PendingExecutionRecord" where
  "executionRecord receipt evidence executedArtifactId workspaceRoot clock =
     \<lparr>pe_schema = PENDING_EXECUTION_SCHEMA, pe_txId = text_of (jget receipt ''txId''), pe_executedArtifactId = executedArtifactId,
      pe_preStateHash = text_of (jget receipt ''preStateHash''), pe_postStateHash = text_of (jget receipt ''postStateHash''),
      pe_clock = clock, pe_workspaceRoot = workspaceRoot, pe_format = currentEvidenceFormat,
      pe_expected = \<lparr>exp_receipt = text_of (jget receipt ''contentHash''),
        exp_stateSnapshot = text_of (jget (ev_stateSnapshot evidence) ''contentHash''),
        exp_trace = text_of (jget (ev_trace evidence) ''contentHash'')\<rparr>\<rparr>"

subsection \<open>Recovery\<close>

definition undoSpent :: "string \<Rightarrow> LocalnetUtxo \<Rightarrow> LocalnetUtxo" where
  "undoSpent daa u = (if u_spent u \<and> u_spentAtDaaScore u = Some daa then u\<lparr>u_spentAtDaaScore := None, u_spent := False\<rparr> else u)"

definition invertSimulatedTransition :: "LocalnetState \<Rightarrow> string \<Rightarrow> LocalnetState result" where
  "invertSimulatedTransition state txId =
     (let daa = ls_daaScore state;
          utxos = map (undoSpent daa) (filter (\<lambda>u. \<not> starts_with (u_id u) (txId @ '':'')) (ls_utxos state))
      in bindE (bigE daa) (\<lambda>n. Inr ((withoutPending state)\<lparr>ls_daaScore := int_str (n - 1), ls_utxos := utxos\<rparr>)))"

text \<open>The artifact store answers by artifact id; an artifact that cannot be read is an error.\<close>

definition loadRecoveryMaterial :: "Host \<Rightarrow> (string \<Rightarrow> json option) \<Rightarrow> PendingExecutionRecord \<Rightarrow> (json \<times> json) result" where
  "loadRecoveryMaterial h resolve record' =
     bindE (of_opt ''RECOVERY_MATERIAL_MISSING'' (resolve (pe_executedArtifactId record'))) (\<lambda>executed.
       if isSigned executed then
         (case checkSyntheticAuthorization (h_sha h) executed JUndefined of
            Inl code \<Rightarrow> Inl ''RECOVERY_MATERIAL_MISSING''
          | Inr structural \<Rightarrow>
              bindE (of_opt ''RECOVERY_MATERIAL_MISSING'' (resolve (sa_planArtifactId structural))) (\<lambda>plan.
                case checkSyntheticAuthorization (h_sha h) executed plan of
                  Inl code \<Rightarrow> Inl ''RECOVERY_DIVERGED''
                | Inr binding \<Rightarrow> if sa_txId binding \<noteq> pe_txId record' then Inl ''RECOVERY_DIVERGED'' else Inr (executed, plan)))
       else if jget executed ''schema'' = JStr schemaTxPlan then Inr (executed, executed)
       else Inl ''RECOVERY_MATERIAL_MISSING'')"

datatype PendingExecutionRecovery =
    NoLedger | NoPending
  | Recovered (rec_txId: string) (rec_published: "EvidenceKind list") (rec_alreadyPresent: "EvidenceKind list")

definition divergedFrom :: "Host \<Rightarrow> PendingExecutionRecord \<Rightarrow> string \<Rightarrow> SimulatedExecutionEvidence \<Rightarrow> bool" where
  "divergedFrom h record' postStateHash evidence \<longleftrightarrow> postStateHash \<noteq> pe_postStateHash record' \<or>
     jget (ev_receipt evidence) ''contentHash'' \<noteq> JStr (exp_receipt (pe_expected record')) \<or>
     jget (ev_stateSnapshot evidence) ''contentHash'' \<noteq> JStr (exp_stateSnapshot (pe_expected record')) \<or>
     jget (ev_trace evidence) ''contentHash'' \<noteq> JStr (exp_trace (pe_expected record'))"

text \<open>The evidence of a pending execution, rebuilt from the state that carries its record.\<close>

definition rebuildEvidence ::
    "Host \<Rightarrow> (string \<Rightarrow> json option) \<Rightarrow> LocalnetState \<Rightarrow> PendingExecutionRecord \<Rightarrow> SimulatedExecutionEvidence result" where
  "rebuildEvidence h resolve state record' =
     bindE (calculateStateHash (h_sha h) state currentVersion) (\<lambda>stateHash.
     if stateHash \<noteq> pe_postStateHash record' then Inl ''PENDING_EXECUTION_STALE''
     else bindE (loadRecoveryMaterial h resolve record') (\<lambda>(executed, plan).
       bindE (invertSimulatedTransition state (pe_txId record')) (\<lambda>pre.
       bindE (calculateStateHash (h_sha h) pre currentVersion) (\<lambda>preHash.
       if preHash \<noteq> pe_preStateHash record' then Inl ''RECOVERY_INVERSION_MISMATCH''
       else bindE (applySimulatedExecution h pre plan executed (pe_txId record') (pe_workspaceRoot record') (pe_clock record')) (\<lambda>applied.
         case applied of
           Inl errors \<Rightarrow> Inl ''RECOVERY_DIVERGED''
         | Inr (applied', receipt) \<Rightarrow>
             bindE (buildSimulatedExecutionEvidence h applied' receipt (pe_workspaceRoot record') (pe_clock record')) (\<lambda>evidence.
             bindE (calculateStateHash (h_sha h) applied' currentVersion) (\<lambda>appliedHash.
               if divergedFrom h record' appliedHash evidence then Inl ''RECOVERY_DIVERGED'' else Inr evidence)))))))"

definition recoverPendingExecution ::
    "Host \<Rightarrow> (string \<Rightarrow> json option) \<Rightarrow> Disk \<Rightarrow> (PendingExecutionRecovery \<times> DiskWrite list) result" where
  "recoverPendingExecution h resolve d =
     (case dk_ledger d of
        None \<Rightarrow> Inr (NoLedger, [])
      | Some ledger \<Rightarrow>
          (case ls_pendingExecution ledger of
             None \<Rightarrow> Inr (NoPending, [])
           | Some record' \<Rightarrow>
               if pe_schema record' \<noteq> PENDING_EXECUTION_SCHEMA then Inl ''PENDING_EXECUTION_UNSUPPORTED''
               else if pe_format record' \<noteq> currentEvidenceFormat then Inl ''RECOVERY_FORMAT_MISMATCH''
               else bindE (rebuildEvidence h resolve (withoutPending ledger) record') (\<lambda>evidence.
                 bindE (publishEvidence h d evidence) (\<lambda>(found, writes).
                   Inr (Recovered (pe_txId record') (map fst (filter (\<lambda>f. snd f = Missing) found)) (map fst (filter (\<lambda>f. snd f = Exact) found)),
                        writes @ [WriteLedger (withoutPending ledger)])))))"

end
