(* ===== verification/HK_TransactionsProps.thy ===== *)
theory HK_TransactionsProps
  imports HK_Transactions HK_PaymentProps
begin

text \<open>
  Properties of simulated transactions. A successful execution is a step on the abstract ledger, the finite map from
  the ids of unspent outputs to owner and amount; a failed one changes nothing. Value is conserved up to the fee, a
  spent output is never spent again, and a payment moves exactly its amount between two balances.
\<close>

subsection \<open>The body of an execution\<close>

lemma planBody_Inr:
  assumes "planBody sha st plan ctx o' hv pre = Inr r"
  obtains inputs ids daa txId new post receipt where
    "jget plan ''inputs'' = JArr inputs" "mapE inputId inputs = Inr ids" "checkInputs st ids = Inr ()"
    "bigE (ls_daaScore st) = Inr daa" "planTxId sha plan o' = Inr txId"
    "createdUtxos st plan txId (int_str (daa + 1)) = Inr new"
    "calculateStateHash sha (nextState st (int_str (daa + 1)) ids new) hv = Inr post"
    "createSimulatedTxReceipt sha plan txId ctx (executionExtra ids new (int_str (daa + 1)) pre post st (planReceiptExtra o')) = Inr receipt"
    "r = \<lparr>sr_ok = True, sr_state = nextState st (int_str (daa + 1)) ids new, sr_receipt = receipt, sr_planArtifact = plan, sr_errors = []\<rparr>"
  using assms by (auto simp: planBody_def Let_def jlist_def split: json.splits)

lemma settlePayment_Inr:
  assumes "settlePayment sha st inp ctx pre fa ta plan errs = Inr r"
  obtains ids artifact daa txId new post receipt where
    "ids = map (\<lambda>i. outpointId (ux_outpoint i)) (pl_inputs plan)" "distinct ids" "checkInputs st ids = Inr ()"
    "createTxPlanArtifact sha (paymentArtifactOptions st inp fa ta plan ctx) = Inr artifact"
    "bigE (ls_daaScore st) = Inr daa" "generateDeterministicTxId sha artifact = Inr txId"
    "new = paymentOutputs txId fa ta (pi_amountSompi inp) plan (int_str (daa + 1))"
    "calculateStateHash sha (nextState st (int_str (daa + 1)) ids new) currentVersion = Inr post"
    "createSimulatedTxReceipt sha artifact txId ctx (executionExtra ids new (int_str (daa + 1)) pre post st noReceiptExtra) = Inr receipt"
    "r = \<lparr>sr_ok = True, sr_state = nextState st (int_str (daa + 1)) ids new, sr_receipt = receipt, sr_planArtifact = artifact, sr_errors = errs\<rparr>"
  using assms by (auto simp: settlePayment_def Let_def split: if_splits)

lemma failedResult_simps [simp]:
  "sr_ok (failedResult sha st pre m) = False" "sr_state (failedResult sha st pre m) = st" "sr_errors (failedResult sha st pre m) = [m]"
  by (simp_all add: failedResult_def Let_def)

lemma failedResult_receipt [simp]:
  "jget (sr_receipt (failedResult sha st pre m)) ''status'' = JStr ''failed''"
  "jget (sr_receipt (failedResult sha st pre m)) ''preStateHash'' = JStr pre"
  "jget (sr_receipt (failedResult sha st pre m)) ''postStateHash'' = JStr pre"
  by (simp_all add: failedResult_def failedReceipt_def Let_def)

lemma checkInputs_iff:
  "checkInputs st ids = Inr () \<longleftrightarrow> (\<forall>i \<in> set ids. \<exists>u. List.find (\<lambda>u. u_id u = i) (ls_utxos st) = Some u \<and> \<not> u_spent u)"
  by (induction ids) (auto split: option.splits)

lemma checkInputs_Inl: "checkInputs st ids = Inl e \<Longrightarrow> e = ''missing simulated UTXO'' \<or> e = ''invalid simulated input''"
  by (induction ids) (auto split: option.splits if_splits)

text \<open>The result of an execution is that of its body, or a failed result that keeps the state.\<close>

lemma applySimulatedPlan_cases:
  assumes "applySimulatedPlan sha st plan ctx o' = Inr r"
  obtains (ok) hv pre where "planBody sha st plan ctx o' hv pre = Inr r" "sr_ok r"
      "hv = (if po_digestHashVersion o' = JUndefined then currentVersion else po_digestHashVersion o')" "calculateStateHash sha st hv = Inr pre"
  | (failed) pre m where "r = failedResult sha st pre m"
proof -
  obtain hv pre where hv: "hv = (if po_digestHashVersion o' = JUndefined then currentVersion else po_digestHashVersion o')"
    and pre: "calculateStateHash sha st hv = Inr pre" and r: "r = caught sha st pre (planBody sha st plan ctx o' hv pre)"
    using assms by (auto simp: applySimulatedPlan_def Let_def)
  show thesis
  proof (cases "planBody sha st plan ctx o' hv pre")
    case (Inl m)
    then show ?thesis using failed r by (simp add: caught_def)
  next
    case (Inr r')
    then have "planBody sha st plan ctx o' hv pre = Inr r" using r by (simp add: caught_def)
    moreover from this have "sr_ok r" by (elim planBody_Inr) simp
    ultimately show ?thesis using ok hv pre by blast
  qed
qed

lemma paymentBody_ok: "paymentBody sha sdk st inp ctx pre = Inr r \<Longrightarrow> sr_ok r"
  by (auto simp: paymentBody_def Let_def split: if_splits elim!: settlePayment_Inr)

lemma applySimulatedPayment_cases:
  assumes "applySimulatedPayment sha sdk st inp ctx = Inr r"
  obtains (ok) pre where "paymentBody sha sdk st inp ctx pre = Inr r" "sr_ok r" "calculateStateHash sha st currentVersion = Inr pre"
  | (failed) pre m where "r = failedResult sha st pre m"
proof -
  obtain pre where pre: "calculateStateHash sha st currentVersion = Inr pre" and r: "r = caught sha st pre (paymentBody sha sdk st inp ctx pre)"
    using assms by (auto simp: applySimulatedPayment_def)
  show thesis
  proof (cases "paymentBody sha sdk st inp ctx pre")
    case (Inl m)
    then show ?thesis using failed r by (simp add: caught_def)
  next
    case (Inr r')
    then have "paymentBody sha sdk st inp ctx pre = Inr r" using r by (simp add: caught_def)
    moreover from this have "sr_ok r" by (rule paymentBody_ok)
    ultimately show ?thesis using ok pre by blast
  qed
qed

subsection \<open>Spent outputs stay spent\<close>

definition spent_in :: "LocalnetState \<Rightarrow> string \<Rightarrow> bool" where
  "spent_in st i \<longleftrightarrow> (case List.find (\<lambda>u. u_id u = i) (ls_utxos st) of None \<Rightarrow> False | Some u \<Rightarrow> u_spent u)"

lemma find_spend:
  assumes "List.find (\<lambda>u. u_id u = i) us = Some u"
  shows "List.find (\<lambda>u. u_id u = i) (spendUtxos ids n us @ new) =
    Some (if i \<in> set ids then u\<lparr>u_spent := True, u_spentAtDaaScore := Some n\<rparr> else u)"
  using assms by (induction us) (auto simp: spendUtxos_def split: if_splits)

lemma nextState_spent:
  "spent_in st i \<Longrightarrow> spent_in (nextState st n ids new) i"
  "checkInputs st ids = Inr () \<Longrightarrow> i \<in> set ids \<Longrightarrow> spent_in (nextState st n ids new) i"
proof -
  show "spent_in st i \<Longrightarrow> spent_in (nextState st n ids new) i"
    by (auto simp: spent_in_def nextState_def find_spend split: option.splits)
next
  assume "checkInputs st ids = Inr ()" "i \<in> set ids"
  then obtain u where "List.find (\<lambda>u. u_id u = i) (ls_utxos st) = Some u" unfolding checkInputs_iff by blast
  from find_spend [OF this, of ids n new] show "spent_in (nextState st n ids new) i"
    using \<open>i \<in> set ids\<close> by (simp add: spent_in_def nextState_def)
qed

lemma checkInputs_spent: "spent_in st i \<Longrightarrow> i \<in> set ids \<Longrightarrow> checkInputs st ids \<noteq> Inr ()"
  unfolding checkInputs_iff spent_in_def by (force split: option.splits)

text \<open>The transitions of the simulated network, with any plan, payment and clock.\<close>

inductive sim_step :: "(string \<Rightarrow> string) \<Rightarrow> Sdk result \<Rightarrow> LocalnetState \<Rightarrow> LocalnetState \<Rightarrow> bool" for sha sdk where
  step_fund: "fundAddress st address amount' = Inr st' \<Longrightarrow> sim_step sha sdk st st'"
| step_payment: "applySimulatedPayment sha sdk st inp ctx = Inr r \<Longrightarrow> sim_step sha sdk st (sr_state r)"
| step_plan: "applySimulatedPlan sha st plan ctx o' = Inr r \<Longrightarrow> sim_step sha sdk st (sr_state r)"

lemma find_append_Some: "List.find P xs = Some x \<Longrightarrow> List.find P (xs @ ys) = Some x"
  by (induction xs) (auto split: if_splits)

lemma paymentBody_Inr:
  assumes "paymentBody sha sdk st inp ctx pre = Inr r"
  obtains us plan errs where
    "pi_amountSompi inp > 0" "resolveAccountAddressFromState st (pi_from inp) \<noteq> []" "resolveAccountAddressFromState st (pi_to inp) \<noteq> []"
    "mapE availableUtxo (getSpendableUtxos st (resolveAccountAddressFromState st (pi_from inp))) = Inr us"
    "buildPaymentPlan sdk (paymentRequest (resolveAccountAddressFromState st (pi_from inp)) (resolveAccountAddressFromState st (pi_to inp))
       (pi_amountSompi inp) us (case pi_feeRateSompiPerMass inp of None \<Rightarrow> 1 | Some r \<Rightarrow> r)) = Inr plan"
    "settlePayment sha st inp ctx pre (resolveAccountAddressFromState st (pi_from inp)) (resolveAccountAddressFromState st (pi_to inp)) plan errs = Inr r"
  using assms by (auto simp: paymentBody_def Let_def split: if_splits)

lemma sim_step_spent:
  assumes "sim_step sha sdk st st'" "spent_in st i"
  shows "spent_in st' i"
  using assms
proof cases
  case (step_fund address amount')
  then show ?thesis using assms(2)
    by (auto simp: fundAddress_def Let_def spent_in_def find_append_Some split: if_splits option.splits)
next
  case (step_payment inp ctx r)
  from step_payment(2) show ?thesis
  proof (cases rule: applySimulatedPayment_cases)
    case (ok pre)
    from ok(1) show ?thesis
      by (elim paymentBody_Inr settlePayment_Inr) (use step_payment(1) assms(2) nextState_spent(1) in simp)
  qed (use step_payment assms(2) in simp)
next
  case (step_plan plan ctx o' r)
  from step_plan(2) show ?thesis
  proof (cases rule: applySimulatedPlan_cases)
    case (ok hv pre)
    from ok(1) show ?thesis by (elim planBody_Inr) (use step_plan(1) assms(2) nextState_spent(1) in simp)
  qed (use step_plan assms(2) in simp)
qed

lemma sim_run_spent: "(sim_step sha sdk)\<^sup>*\<^sup>* st st' \<Longrightarrow> spent_in st i \<Longrightarrow> spent_in st' i"
  by (induction rule: rtranclp_induct) (auto intro: sim_step_spent)

text \<open>The ids of the outputs a plan spends.\<close>

definition plan_spends :: "json \<Rightarrow> string list \<Rightarrow> bool" where
  "plan_spends plan ids \<longleftrightarrow> mapE inputId (arrayOr (jget plan ''inputs'')) = Inr ids"

lemma plan_ok_spends:
  assumes "applySimulatedPlan sha st plan ctx o' = Inr r" "sr_ok r" "plan_spends plan ids"
  shows "checkInputs st ids = Inr () \<and> (\<exists>n new. sr_state r = nextState st n ids new)"
  using assms(1)
proof (cases rule: applySimulatedPlan_cases)
  case (ok hv pre)
  from ok(1) show ?thesis
    by (elim planBody_Inr) (use assms(3) in \<open>auto simp: plan_spends_def arrayOr_def\<close>)
qed (use assms(2) in simp)

text \<open>C6: no double spend. Once a plan has been executed, no plan that shares an input with it is executed again, in
  whatever state the network has reached since through the faucet, payments and plans, under whatever options: the
  execution fails and the state stays as it is.\<close>

theorem double_spend_refused:
  assumes "applySimulatedPlan sha st plan ctx o' = Inr r" "sr_ok r" "plan_spends plan ids"
    and "(sim_step sha sdk)\<^sup>*\<^sup>* (sr_state r) st'"
    and "plan_spends plan' ids'" "set ids \<inter> set ids' \<noteq> {}" "applySimulatedPlan sha st' plan' ctx' o'' = Inr r'"
  shows "\<not> sr_ok r' \<and> sr_state r' = st' \<and> jget (sr_receipt r') ''status'' = JStr ''failed''"
proof -
  obtain i where i: "i \<in> set ids" "i \<in> set ids'" using assms(6) by blast
  have "spent_in (sr_state r) i"
    using plan_ok_spends [OF assms(1-3)] nextState_spent(2) [OF _ i(1)] by auto
  then have "checkInputs st' ids' \<noteq> Inr ()" using sim_run_spent [OF assms(4)] checkInputs_spent i(2) by blast
  then have "\<not> sr_ok r'" using plan_ok_spends [OF assms(7) _ assms(5)] by blast
  with assms(7) show ?thesis by (cases rule: applySimulatedPlan_cases) simp_all
qed

subsection \<open>Value\<close>

text \<open>The unspent value at the addresses that satisfy a predicate.\<close>

definition value_at :: "(string \<Rightarrow> bool) \<Rightarrow> LocalnetUtxo list \<Rightarrow> int" where
  "value_at P us = (\<Sum>u \<leftarrow> filter (\<lambda>u. P (u_address u) \<and> \<not> u_spent u) us. amount u)"

definition total_value :: "LocalnetState \<Rightarrow> int" where
  "total_value st = value_at (\<lambda>_. True) (ls_utxos st)"

definition price_at :: "(string \<Rightarrow> bool) \<Rightarrow> LocalnetUtxo list \<Rightarrow> string \<Rightarrow> int" where
  "price_at P us i = (case List.find (\<lambda>u. u_id u = i) us of None \<Rightarrow> 0 | Some u \<Rightarrow> if P (u_address u) then amount u else 0)"

lemma value_at_append [simp]: "value_at P (xs @ ys) = value_at P xs + value_at P ys"
  by (simp add: value_at_def)

lemma value_at_spend: "value_at P (spendUtxos ids n us) = (\<Sum>u \<leftarrow> filter (\<lambda>u. P (u_address u) \<and> \<not> u_spent u \<and> u_id u \<notin> set ids) us. amount u)"
  by (induction us) (auto simp: value_at_def spendUtxos_def)

lemma find_id: "distinct (map u_id us) \<Longrightarrow> u \<in> set us \<Longrightarrow> List.find (\<lambda>v. u_id v = u_id u) us = Some u"
  by (rule find_key)

lemma spend_value:
  assumes us: "distinct (map u_id us)" and ids: "distinct ids"
    and found: "\<And>i. i \<in> set ids \<Longrightarrow> \<exists>u. List.find (\<lambda>u. u_id u = i) us = Some u \<and> \<not> u_spent u"
  shows "value_at P us = value_at P (spendUtxos ids n us) + (\<Sum>i \<leftarrow> ids. price_at P us i)"
proof -
  let ?Q = "\<lambda>u. P (u_address u) \<and> \<not> u_spent u"
  have d: "distinct us" using us by (simp add: distinct_map)
  have s: "(\<Sum>u \<leftarrow> filter R us. amount u) = (\<Sum>u \<in> {u \<in> set us. R u}. amount u)" for R
    using sum_list_distinct_conv_sum_set [of "filter R us" amount] d by simp
  have split: "(\<Sum>u \<in> {u \<in> set us. ?Q u}. amount u) =
    (\<Sum>u \<in> {u \<in> set us. ?Q u \<and> u_id u \<notin> set ids}. amount u) + (\<Sum>u \<in> {u \<in> set us. ?Q u \<and> u_id u \<in> set ids}. amount u)"
    by (subst sum.union_disjoint [symmetric]) (auto intro!: sum.cong)
  have inj: "inj_on u_id {u \<in> set us. u_id u \<in> set ids}" using us by (auto simp: distinct_map inj_on_def)
  have img: "u_id ` {u \<in> set us. u_id u \<in> set ids} = set ids"
    using found by (fastforce simp: find_Some_iff image_iff)
  have unspent: "\<not> u_spent u" if "u \<in> set us" "u_id u \<in> set ids" for u
    using found [OF that(2)] find_id [OF us that(1)] by simp
  have "(\<Sum>i \<leftarrow> ids. price_at P us i) = (\<Sum>i \<in> u_id ` {u \<in> set us. u_id u \<in> set ids}. price_at P us i)"
    using ids img by (simp add: sum_list_distinct_conv_sum_set)
  also have "\<dots> = (\<Sum>u \<in> {u \<in> set us. u_id u \<in> set ids}. price_at P us (u_id u))" using inj by (simp add: sum.reindex)
  also have "\<dots> = (\<Sum>u \<in> {u \<in> set us. u_id u \<in> set ids}. if ?Q u then amount u else 0)"
    using find_id [OF us] unspent by (intro sum.cong) (auto simp: price_at_def)
  also have "\<dots> = (\<Sum>u \<in> {u \<in> set us. ?Q u \<and> u_id u \<in> set ids}. amount u)"
    by (subst sum.inter_filter [symmetric]) (auto intro!: sum.cong)
  finally show ?thesis using split unfolding value_at_spend by (simp add: value_at_def s)
qed

lemma balance_value: "balance us a = value_at (\<lambda>x. x = a) us"
  by (simp add: balance_def value_at_def unspentAt_def)

subsection \<open>What a plan creates\<close>

text \<open>Amounts as the schema of plans has them: decimal strings of numbers that are not negative.\<close>

definition amount_field :: "json \<Rightarrow> bool" where
  "amount_field j \<longleftrightarrow> (\<exists>a. jget j ''amountSompi'' = JStr (int_str a) \<and> 0 \<le> a)"

definition plan_amounts :: "json \<Rightarrow> bool" where
  "plan_amounts plan \<longleftrightarrow> list_all amount_field (arrayOr (jget plan ''outputs'')) \<and>
     (truthy (jget plan ''change'') \<longrightarrow> amount_field (jget plan ''change''))"

definition fresh_output :: "string \<Rightarrow> string \<Rightarrow> LocalnetUtxo \<Rightarrow> bool" where
  "fresh_output txId n u \<longleftrightarrow> (\<exists>a k. 0 \<le> a \<and> u = newUtxo txId k (u_address u) (int_str a) n)"

lemma amount_newUtxo [simp]: "amount (newUtxo txId k x (int_str a) n) = a"
  by (simp add: amount_def newUtxo_def)

lemma newUtxo_simps [simp]:
  "u_id (newUtxo t k x m n) = t @ '':'' @ nat_str k" "u_address (newUtxo t k x m n) = x" "\<not> u_spent (newUtxo t k x m n)"
  "u_createdAtDaaScore (newUtxo t k x m n) = n" "u_spentAtDaaScore (newUtxo t k x m n) = None" "u_amountSompi (newUtxo t k x m n) = m"
  by (simp_all add: newUtxo_def)

lemma fresh_newUtxo: "0 \<le> a \<Longrightarrow> fresh_output t n (newUtxo t k x (int_str a) n)"
  unfolding fresh_output_def newUtxo_simps by blast

lemma outputUtxo_spec:
  assumes "outputUtxo st t n k x = Inr u" "amount_field x"
  shows "u_id u = t @ '':'' @ nat_str k \<and> fresh_output t n u \<and> itemAmount x = Inr (amount u)"
proof -
  obtain a where a: "jget x ''amountSompi'' = JStr (int_str a)" "0 \<le> a" using assms(2) by (auto simp: amount_field_def)
  then have "x \<noteq> JUndefined" "x \<noteq> JNull" by auto
  then show ?thesis using assms(1) a
    by (auto simp: outputUtxo_def toStringE_def itemAmount_def jfield_def intro: fresh_newUtxo)
qed

lemma outputUtxos_spec:
  "outputUtxos st t n k xs = Inr us \<Longrightarrow> list_all amount_field xs \<Longrightarrow>
   map u_id us = map (\<lambda>j. t @ '':'' @ nat_str j) [k..<k + length xs] \<and> list_all (fresh_output t n) us \<and>
   addItems acc xs = Inr (acc + (\<Sum>u \<leftarrow> us. amount u))"
proof (induction xs arbitrary: k us acc)
  case (Cons x xs)
  then obtain u vs where u: "outputUtxo st t n k x = Inr u" "outputUtxos st t n (Suc k) xs = Inr vs" "us = u # vs" by auto
  have "[k..<k + length (x # xs)] = k # [Suc k..<Suc k + length xs]" by (simp add: upt_conv_Cons del: upt_Suc)
  then show ?case using Cons.IH [OF u(2), of "acc + amount u"] outputUtxo_spec [OF u(1)] u(3) Cons.prems(2)
    by (simp del: upt_Suc)
qed simp

lemma truthy_fields: "\<not> truthy j \<Longrightarrow> jget j k = JUndefined"
  by (cases j) (simp_all add: jget_def)

lemma createdUtxos_spec:
  assumes "createdUtxos st plan t n = Inr new" "plan_amounts plan"
  shows "\<exists>m. map u_id new = map (\<lambda>j. t @ '':'' @ nat_str j) [0..<m]"
    and "list_all (fresh_output t n) new"
    and "deriveSimulatedFee plan = Inr (Inr fee) \<Longrightarrow>
      addItems 0 (arrayOr (jget plan ''inputs'')) = Inr (fee + (\<Sum>u \<leftarrow> new. amount u)) \<and> 0 \<le> fee"
proof -
  obtain os us where os: "jget plan ''outputs'' = JArr os" and us: "outputUtxos st t n 0 os = Inr us"
    and new: "(if truthy (jget plan ''change'') then bindE (outputUtxo st t n (length os) (jget plan ''change'')) (\<lambda>c. Inr (us @ [c])) else Inr us) = Inr new"
    using assms(1) by (auto simp: createdUtxos_def jlist_def split: json.splits)
  have am: "list_all amount_field os" "truthy (jget plan ''change'') \<Longrightarrow> amount_field (jget plan ''change'')"
    using assms(2) os by (auto simp: plan_amounts_def arrayOr_def)
  note s = outputUtxos_spec [OF us am(1)]
  show "\<exists>m. map u_id new = map (\<lambda>j. t @ '':'' @ nat_str j) [0..<m]"
  proof (cases "truthy (jget plan ''change'')")
    case True
    then obtain c where c: "outputUtxo st t n (length os) (jget plan ''change'') = Inr c" "new = us @ [c]" using new by auto
    then show ?thesis using outputUtxo_spec [OF c(1) am(2)] True s by (intro exI [of _ "Suc (length os)"]) simp
  next
    case False
    then show ?thesis using new s by auto
  qed
  show "list_all (fresh_output t n) new"
    using new s outputUtxo_spec am(2) by (cases "truthy (jget plan ''change'')") auto
  show "addItems 0 (arrayOr (jget plan ''inputs'')) = Inr (fee + (\<Sum>u \<leftarrow> new. amount u)) \<and> 0 \<le> fee"
    if fee: "deriveSimulatedFee plan = Inr (Inr fee)"
  proof (cases "truthy (jget plan ''change'')")
    case True
    then obtain c where c: "outputUtxo st t n (length os) (jget plan ''change'') = Inr c" "new = us @ [c]" using new by auto
    have "itemAmount (jget plan ''change'') = Inr (amount c)" using outputUtxo_spec [OF c(1) am(2)] True by simp
    then show ?thesis using fee True os s c(2)
      by (auto simp: deriveSimulatedFee_def Let_def jlist_def jnn_def split: if_splits)
  next
    case False
    then show ?thesis using fee new os s
      by (auto simp: deriveSimulatedFee_def Let_def jlist_def jnn_def split: if_splits)
  qed
qed

subsection \<open>Executions on the abstract ledger\<close>

text \<open>The abstract ledger: the unspent outputs with their owner and amount.\<close>

definition utxo_entry :: "LocalnetUtxo \<Rightarrow> string \<times> string \<times> int" where
  "utxo_entry u = (u_id u, u_address u, amount u)"

definition utxo_map :: "LocalnetUtxo list \<Rightarrow> string \<rightharpoonup> string \<times> int" where
  "utxo_map us = map_of (map utxo_entry us)"

definition utxo_set :: "LocalnetState \<Rightarrow> string \<rightharpoonup> string \<times> int" where
  "utxo_set st = utxo_map (filter (\<lambda>u. \<not> u_spent u) (ls_utxos st))"

definition tx_fresh :: "string \<Rightarrow> LocalnetState \<Rightarrow> bool" where
  "tx_fresh txId st \<longleftrightarrow> starts_with txId ''synthetic-'' \<and> list_all (\<lambda>u. \<not> starts_with (u_id u) (txId @ '':'')) (ls_utxos st)"

lemma dom_utxo_map [simp]: "dom (utxo_map us) = u_id ` set us"
  by (simp add: utxo_map_def dom_map_of_conv_image_fst image_image utxo_entry_def)

lemma utxo_map_append: "utxo_map (xs @ ys) = utxo_map ys ++ utxo_map xs"
  by (simp add: utxo_map_def)

lemma utxo_map_filter: "utxo_map (filter (\<lambda>u. u_id u \<notin> A) us) = utxo_map us |` (- A)"
  by (induction us) (auto simp: utxo_map_def utxo_entry_def restrict_map_def fun_eq_iff)

lemma unspent_spend: "filter (\<lambda>u. \<not> u_spent u) (spendUtxos ids n us) = filter (\<lambda>u. u_id u \<notin> set ids) (filter (\<lambda>u. \<not> u_spent u) us)"
  by (induction us) (auto simp: spendUtxos_def)

lemma utxo_set_next:
  assumes "list_all (\<lambda>u. \<not> u_spent u) new" "u_id ` set new \<inter> u_id ` set (ls_utxos st) = {}"
  shows "utxo_set (nextState st n ids new) = (utxo_set st |` (- set ids)) ++ utxo_map new"
proof -
  have "filter (\<lambda>u. \<not> u_spent u) new = new" using assms(1) by (auto simp: filter_id_conv list_all_iff)
  then have "utxo_set (nextState st n ids new) = utxo_map new ++ (utxo_set st |` (- set ids))"
    by (simp add: utxo_set_def nextState_def unspent_spend utxo_map_append utxo_map_filter del: filter_filter)
  also have "\<dots> = (utxo_set st |` (- set ids)) ++ utxo_map new"
    by (rule map_add_comm) (use assms(2) in \<open>auto simp: utxo_set_def\<close>)
  finally show ?thesis .
qed

lemma checkInputs_dom:
  assumes "distinct (map u_id (ls_utxos st))"
  shows "checkInputs st ids = Inr () \<longleftrightarrow> set ids \<subseteq> dom (utxo_set st)"
proof -
  have "(\<exists>u. List.find (\<lambda>u. u_id u = i) (ls_utxos st) = Some u \<and> \<not> u_spent u) \<longleftrightarrow> i \<in> dom (utxo_set st)" for i
  proof
    assume "\<exists>u. List.find (\<lambda>u. u_id u = i) (ls_utxos st) = Some u \<and> \<not> u_spent u"
    then show "i \<in> dom (utxo_set st)" by (auto simp: utxo_set_def find_Some_iff)
  next
    assume "i \<in> dom (utxo_set st)"
    then obtain u where "u \<in> set (ls_utxos st)" "\<not> u_spent u" "i = u_id u" by (auto simp: utxo_set_def)
    then show "\<exists>u. List.find (\<lambda>u. u_id u = i) (ls_utxos st) = Some u \<and> \<not> u_spent u" using find_id [OF assms] by simp
  qed
  then show ?thesis unfolding checkInputs_iff by blast
qed

lemma fresh_outputs_step:
  assumes ok: "ledger_ok d st" and ins: "checkInputs st ids = Inr ()" and t: "tx_fresh t st"
    and new: "list_all (fresh_output t (int_str (d + 1))) new" "map u_id new = map (\<lambda>j. t @ '':'' @ nat_str j) [0..<m]"
  shows "step_ok d ids new st" and "u_id ` set new \<inter> u_id ` set (ls_utxos st) = {}"
proof -
  have fresh: "u_id u \<notin> u_id ` set (ls_utxos st)" if "u \<in> set new" for u
  proof
    assume "u_id u \<in> u_id ` set (ls_utxos st)"
    then obtain v where v: "v \<in> set (ls_utxos st)" "u_id v = u_id u" by auto
    have "u_id u \<in> set (map u_id new)" using that by simp
    then obtain j where "u_id u = t @ '':'' @ nat_str j" unfolding new(2) by auto
    then have "starts_with (u_id v) (t @ '':'')" using v(2) by (simp add: starts_with_iff)
    then show False using t v(1) by (auto simp: tx_fresh_def list_all_iff)
  qed
  then show "u_id ` set new \<inter> u_id ` set (ls_utxos st) = {}" by auto
  have "faucet_below (d + 1) u" if "u \<in> set new" for u
  proof -
    have "u_id u \<in> set (map u_id new)" using that by simp
    then obtain j where j: "u_id u = t @ '':'' @ nat_str j" unfolding new(2) by auto
    obtain r where "t = ''synthetic-'' @ r" using t by (auto simp: tx_fresh_def starts_with_iff)
    then show ?thesis using j by (simp add: faucet_below_def faucetId_def)
  qed
  moreover have "distinct (map u_id new)" unfolding new(2) by (auto simp: distinct_map inj_on_def nat_str_inj)
  moreover have "(\<exists>a. u_amountSompi u = int_str a \<and> 0 \<le> a) \<and> u_createdAtDaaScore u = int_str (d + 1) \<and> \<not> u_spent u \<and> u_spentAtDaaScore u = None"
    if u: "u \<in> set new" for u
  proof -
    obtain a k where "0 \<le> a" "u = newUtxo t k (u_address u) (int_str a) (int_str (d + 1))"
      using new(1) u by (auto simp: list_all_iff fresh_output_def)
    then show ?thesis using newUtxo_simps by metis
  qed
  moreover have "\<not> u_spent u" if "u \<in> set (ls_utxos st)" "u_id u \<in> set ids" for u
    using ins that find_id [of "ls_utxos st" u] ok unfolding checkInputs_iff ledger_ok_def by fastforce
  ultimately show "step_ok d ids new st" using fresh unfolding step_ok_def by blast
qed

lemma nextState_step: "nextState st (int_str (d + 1)) ids new = ledger_step d ids new st"
  by (simp add: nextState_def ledger_step_def)

subsection \<open>Receipts are written\<close>

lemma plain_jor: "plain_json a \<Longrightarrow> plain_json b \<Longrightarrow> plain_json (jor a b)" and plain_jnn: "plain_json a \<Longrightarrow> plain_json b \<Longrightarrow> plain_json (jnn a b)"
  by (simp_all add: jor_def jnn_def)

lemma plain_strs [simp]: "plain_json (strs xs)"
  by (simp add: strs_def list_all_iff)

lemma plain_jwhen [simp]: "plain_json v \<Longrightarrow> list_all (\<lambda>kv. plain_json (snd kv)) (jwhen c k v)"
  by (simp add: jwhen_def)

lemma plain_lineage: "plain_json parent \<Longrightarrow> plain_json (createLineageTransition parent)"
  by (simp add: createLineageTransition_def Let_def plain_jor plain_jget)

lemma plain_dagContext [simp]: "plain_json (buildDagContextFromState st)"
  by (simp add: buildDagContextFromState_def conflictJson_def list_all_iff split: option.splits)

lemma hash_plain: "plain_json j \<Longrightarrow> j \<noteq> JUndefined \<Longrightarrow> \<exists>h. calculateContentHash sha j CURRENT_HASH_VERSION = Inr h"
  using serialize_ok [of j True 5 None 0 None]
  by (auto simp: calculateContentHash_def canonicalStringify_def CURRENT_HASH_VERSION_def UNEXCLUDED_FORM_def is_ok_iff)

definition plain_extra :: "ReceiptExtra \<Rightarrow> bool" where
  "plain_extra e \<longleftrightarrow> list_all plain_json [re_spentUtxoIds e, re_createdUtxoIds e, re_daaScore e, re_preStateHash e, re_postStateHash e,
     re_dagContext e, re_submittedAt e, re_confirmedAt e, re_rpcUrl e, re_tracePath e, re_sourceSignedId e, re_parentArtifact e]"

lemma plain_receipt:
  assumes "plain_json plan" "plain_extra e" "plain_json fa" "plain_json ta"
  shows "plain_json (JObj (receiptDraft plan txId ctx e fa ta fee))"
  using assms by (simp add: receiptDraft_def plain_extra_def plain_jget plain_jor plain_jnn plain_lineage executionJson_def)

text \<open>A plan that can be executed: its fee is the difference of its amounts, and its addresses are there.\<close>

definition has_address :: "json \<Rightarrow> bool" where
  "has_address j \<longleftrightarrow> is_jstr (jget j ''address'')"

definition executable_plan :: "json \<Rightarrow> bool" where
  "executable_plan plan \<longleftrightarrow> plain_json plan \<and> plan_amounts plan \<and> is_jarr (jget plan ''inputs'') \<and> is_jarr (jget plan ''outputs'') \<and>
     has_address (jget plan ''from'') \<and> has_address (jget plan ''to'') \<and> list_all has_address (arrayOr (jget plan ''outputs'')) \<and>
     (truthy (jget plan ''change'') \<longrightarrow> has_address (jget plan ''change'')) \<and>
     (case deriveSimulatedFee plan of Inr (Inr fee) \<Rightarrow> json_bigE (jget plan ''estimatedFeeSompi'') = Inr fee | _ \<Rightarrow> False)"

lemma has_address_jfield: "has_address j \<Longrightarrow> \<exists>a. jfield j ''address'' = Inr (JStr a)"
  by (auto simp: has_address_def is_jstr_def jfield_def split: json.splits)

lemma outputUtxo_total: "has_address x \<Longrightarrow> amount_field x \<Longrightarrow> \<exists>u. outputUtxo st t n k x = Inr u"
  using has_address_jfield [of x] by (auto simp: outputUtxo_def addressE_def amount_field_def toStringE_def)

lemma outputUtxos_total:
  "list_all has_address xs \<Longrightarrow> list_all amount_field xs \<Longrightarrow> \<exists>us. outputUtxos st t n k xs = Inr us"
proof (induction xs arbitrary: k)
  case (Cons x xs)
  obtain u where "outputUtxo st t n k x = Inr u" using outputUtxo_total [of x st t n k] Cons.prems by auto
  moreover obtain us where "outputUtxos st t n (Suc k) xs = Inr us" using Cons.IH [of "Suc k"] Cons.prems by auto
  ultimately show ?case by simp
qed simp

lemma createdUtxos_total:
  assumes "executable_plan plan"
  shows "\<exists>new. createdUtxos st plan t n = Inr new"
proof -
  obtain os where os: "jget plan ''outputs'' = JArr os" using assms by (auto simp: executable_plan_def is_jarr_def split: json.splits)
  obtain us where us: "outputUtxos st t n 0 os = Inr us"
    using outputUtxos_total [of os st t n 0] assms os by (auto simp: executable_plan_def plan_amounts_def arrayOr_def)
  show ?thesis
  proof (cases "truthy (jget plan ''change'')")
    case True
    then obtain c where "outputUtxo st t n (length os) (jget plan ''change'') = Inr c"
      using outputUtxo_total assms unfolding executable_plan_def plan_amounts_def by blast
    then show ?thesis using os us True by (simp add: createdUtxos_def jlist_def)
  qed (use os us in \<open>simp add: createdUtxos_def jlist_def\<close>)
qed

lemma receipt_total:
  assumes "executable_plan plan" "plain_extra e"
  shows "\<exists>receipt. createSimulatedTxReceipt sha plan txId ctx e = Inr receipt"
proof -
  obtain fee fa ta where fee: "deriveSimulatedFee plan = Inr (Inr fee)" "json_bigE (jget plan ''estimatedFeeSompi'') = Inr fee"
    and a: "jfield (jget plan ''from'') ''address'' = Inr (JStr fa)" "jfield (jget plan ''to'') ''address'' = Inr (JStr ta)"
    using assms(1) has_address_jfield by (fastforce simp: executable_plan_def split: sum.splits)
  have "plain_json (JObj (receiptDraft plan txId ctx e (JStr fa) (JStr ta) fee))"
    using plain_receipt [OF _ assms(2)] assms(1) by (simp add: executable_plan_def)
  from hash_plain [OF this, of sha] show ?thesis using fee a by (auto simp: createSimulatedTxReceipt_def Let_def)
qed

lemma plain_executionExtra: "plain_extra e \<Longrightarrow> plain_extra (executionExtra ids new n pre post st e)"
  by (simp add: plain_extra_def executionExtra_def)

lemma planBody_step:
  assumes "planBody sha st plan ctx o' hv pre = Inr r" "plan_spends plan ids" "ledger_ok d st"
  obtains txId new post receipt where "planTxId sha plan o' = Inr txId" "checkInputs st ids = Inr ()"
    "createdUtxos st plan txId (int_str (d + 1)) = Inr new"
    "createSimulatedTxReceipt sha plan txId ctx (executionExtra ids new (int_str (d + 1)) pre post st (planReceiptExtra o')) = Inr receipt"
    "r = \<lparr>sr_ok = True, sr_state = nextState st (int_str (d + 1)) ids new, sr_receipt = receipt, sr_planArtifact = plan, sr_errors = []\<rparr>"
  using assms(1)
proof (rule planBody_Inr)
  note result = that
  fix inputs ids' daa
  assume i: "jget plan ''inputs'' = JArr inputs" "mapE inputId inputs = Inr ids'" "bigE (ls_daaScore st) = Inr daa"
  have eq: "ids' = ids" "daa = d" using i assms(2,3) by (simp_all add: plan_spends_def arrayOr_def ledger_ok_def)
  show thesis if f: "planTxId sha plan o' = Inr txId" "checkInputs st ids' = Inr ()" "createdUtxos st plan txId (int_str (daa + 1)) = Inr new"
    "createSimulatedTxReceipt sha plan txId ctx (executionExtra ids' new (int_str (daa + 1)) pre post st (planReceiptExtra o')) = Inr receipt"
    "r = \<lparr>sr_ok = True, sr_state = nextState st (int_str (daa + 1)) ids' new, sr_receipt = receipt, sr_planArtifact = plan, sr_errors = []\<rparr>"
    for txId new post receipt
    using f unfolding eq by (rule result)
qed

definition plain_options :: "PlanOptions \<Rightarrow> bool" where
  "plain_options o' \<longleftrightarrow> po_digestHashVersion o' = JUndefined \<and> plain_extra (planReceiptExtra o')"

lemma planBody_total:
  assumes "executable_plan plan" "plain_options o'" "bigE (ls_daaScore st) = Inr daa" "plan_spends plan ids" "planTxId sha plan o' = Inr txId"
  shows "(\<exists>r. planBody sha st plan ctx o' currentVersion pre = Inr r) \<longleftrightarrow> checkInputs st ids = Inr ()"
proof -
  obtain inputs where inputs: "jget plan ''inputs'' = JArr inputs" "mapE inputId inputs = Inr ids"
    using assms(1,4) by (auto simp: executable_plan_def is_jarr_def plan_spends_def arrayOr_def split: json.splits)
  obtain new where new: "createdUtxos st plan txId (int_str (daa + 1)) = Inr new" using createdUtxos_total [OF assms(1)] by blast
  obtain post where post: "calculateStateHash sha (nextState st (int_str (daa + 1)) ids new) currentVersion = Inr post"
    using calculateStateHash_ok by blast
  have "plain_extra (executionExtra ids new (int_str (daa + 1)) pre post st (planReceiptExtra o'))"
    using assms(2) by (simp add: plain_options_def plain_executionExtra)
  from receipt_total [OF assms(1) this] obtain receipt where
    "createSimulatedTxReceipt sha plan txId ctx (executionExtra ids new (int_str (daa + 1)) pre post st (planReceiptExtra o')) = Inr receipt"
    by blast
  then show ?thesis using assms(3,5) inputs new post
    by (cases "checkInputs st ids") (simp_all add: planBody_def jlist_def Let_def)
qed

lemma receipt_status:
  assumes "createSimulatedTxReceipt sha plan txId ctx e = Inr receipt"
  shows "jget receipt ''status'' = JStr ''accepted''" "jget receipt ''spentUtxoIds'' = re_spentUtxoIds e"
    "jget receipt ''createdUtxoIds'' = re_createdUtxoIds e" "jget receipt ''preStateHash'' = re_preStateHash e"
    "jget receipt ''postStateHash'' = re_postStateHash e" "jget receipt ''txId'' = JStr txId"
    "\<exists>fee. deriveSimulatedFee plan = Inr (Inr fee) \<and> jget receipt ''feeSompi'' = JStr (int_str fee)"
proof -
  obtain derived where derived: "deriveSimulatedFee plan = Inr derived" using assms by (auto simp: createSimulatedTxReceipt_def)
  then obtain fee fa ta h where fee: "deriveSimulatedFee plan = Inr (Inr fee)"
    and r: "receipt = sealWith h (JObj (receiptDraft plan txId ctx e fa ta fee))"
    using assms by (cases derived) (auto simp: createSimulatedTxReceipt_def Let_def split: if_splits)
  have "jget (sealWith h (JObj es)) k = jget (JObj es) k" if "k \<noteq> ''contentHash''" "k \<noteq> ''lineage''" for es k
    using that by (simp add: sealWith_def Let_def jset_def)
  then have j: "jget receipt k = jget (JObj (receiptDraft plan txId ctx e fa ta fee)) k" if "k \<noteq> ''contentHash''" "k \<noteq> ''lineage''" for k
    using that r by blast
  show "jget receipt ''status'' = JStr ''accepted''" "jget receipt ''spentUtxoIds'' = re_spentUtxoIds e"
    "jget receipt ''createdUtxoIds'' = re_createdUtxoIds e" "jget receipt ''preStateHash'' = re_preStateHash e"
    "jget receipt ''postStateHash'' = re_postStateHash e" "jget receipt ''txId'' = JStr txId"
    by (simp_all add: j) (simp_all add: receiptDraft_def)
  show "\<exists>fee. deriveSimulatedFee plan = Inr (Inr fee) \<and> jget receipt ''feeSompi'' = JStr (int_str fee)"
    using fee j [of "''feeSompi''"] by (simp add: receiptDraft_def)
qed

lemma executionExtra_simps [simp]:
  "re_spentUtxoIds (executionExtra ids new n pre post st e) = strs ids" "re_createdUtxoIds (executionExtra ids new n pre post st e) = strs (map u_id new)"
  "re_preStateHash (executionExtra ids new n pre post st e) = JStr pre" "re_postStateHash (executionExtra ids new n pre post st e) = JStr post"
  by (simp_all add: executionExtra_def)

subsection \<open>What a plan pays\<close>

text \<open>What a plan says it pays, read from the plan alone: its outputs and then its change, numbered in this order, each to the account
  its address stands for in the ledger. The executed outputs are compared with this list.\<close>

definition executed_items :: "json \<Rightarrow> json list" where
  "executed_items plan = arrayOr (jget plan ''outputs'') @ (if truthy (jget plan ''change'') then [jget plan ''change''] else [])"

definition entry_owner :: "LocalnetState \<Rightarrow> json \<Rightarrow> string" where
  "entry_owner st x = (case jget x ''address'' of JStr a \<Rightarrow> resolveAccountAddressFromState st a | _ \<Rightarrow> [])"

definition entry_amount :: "json \<Rightarrow> int" where
  "entry_amount x = (case jget x ''amountSompi'' of JStr s \<Rightarrow> (case bigE s of Inr a \<Rightarrow> a | Inl e \<Rightarrow> 0) | _ \<Rightarrow> 0)"

definition entry_list :: "LocalnetState \<Rightarrow> string \<Rightarrow> nat \<Rightarrow> json list \<Rightarrow> (string \<times> string \<times> int) list" where
  "entry_list st txId k xs = map (\<lambda>(j, x). (txId @ '':'' @ nat_str j, entry_owner st x, entry_amount x)) (enumerate k xs)"

lemma outputUtxo_entry:
  assumes "outputUtxo st t n k x = Inr u" "amount_field x"
  shows "utxo_entry u = (t @ '':'' @ nat_str k, entry_owner st x, entry_amount x)"
proof -
  obtain a where a: "jget x ''amountSompi'' = JStr (int_str a)" using assms(2) by (auto simp: amount_field_def)
  obtain b where b: "jget x ''address'' = JStr b" "u = newUtxo t k (resolveAccountAddressFromState st b) (int_str a) n"
    using assms(1) a by (auto simp: outputUtxo_def toStringE_def jfield_def addressE_def split: if_splits json.split_asm)
  show ?thesis using a b by (simp add: utxo_entry_def entry_owner_def entry_amount_def)
qed

lemma outputUtxos_entries:
  "outputUtxos st t n k xs = Inr us \<Longrightarrow> list_all amount_field xs \<Longrightarrow> map utxo_entry us = entry_list st t k xs"
proof (induction xs arbitrary: k us)
  case (Cons x xs)
  then obtain u vs where u: "outputUtxo st t n k x = Inr u" "outputUtxos st t n (Suc k) xs = Inr vs" "us = u # vs" by auto
  then show ?case using Cons.IH [OF u(2)] Cons.prems(2) outputUtxo_entry [OF u(1)] by (simp add: entry_list_def)
qed (simp add: entry_list_def)

lemma createdUtxos_entries:
  assumes "createdUtxos st plan t n = Inr new" "plan_amounts plan"
  shows "map utxo_entry new = entry_list st t 0 (executed_items plan)"
proof -
  obtain os us where os: "jget plan ''outputs'' = JArr os" and us: "outputUtxos st t n 0 os = Inr us"
    and new: "(if truthy (jget plan ''change'') then bindE (outputUtxo st t n (length os) (jget plan ''change'')) (\<lambda>c. Inr (us @ [c])) else Inr us) = Inr new"
    using assms(1) by (auto simp: createdUtxos_def jlist_def split: json.splits)
  have am: "list_all amount_field os" "truthy (jget plan ''change'') \<Longrightarrow> amount_field (jget plan ''change'')"
    using assms(2) os by (auto simp: plan_amounts_def arrayOr_def)
  have items: "executed_items plan = os @ (if truthy (jget plan ''change'') then [jget plan ''change''] else [])" by (simp add: executed_items_def os arrayOr_def)
  show ?thesis
  proof (cases "truthy (jget plan ''change'')")
    case True
    then obtain c where c: "outputUtxo st t n (length os) (jget plan ''change'') = Inr c" "new = us @ [c]" using new by auto
    then show ?thesis using outputUtxo_entry [OF c(1)] am True outputUtxos_entries [OF us] items by (simp add: entry_list_def enumerate_append_eq)
  next
    case False
    then show ?thesis using new outputUtxos_entries [OF us] am items by simp
  qed
qed

lemma map_fst_entries: "map fst (entry_list st t k xs) = map (\<lambda>j. t @ '':'' @ nat_str j) [k..<k + length xs]"
  unfolding entry_list_def by (simp add: map_fst_enumerate [symmetric] split_def comp_def del: map_fst_enumerate)

lemma addItems_Inr: "addItems acc xs = Inr t \<Longrightarrow> \<exists>as. mapE itemAmount xs = Inr as \<and> t = acc + sum_list as"
  by (induction xs arbitrary: acc) (fastforce simp: add.assoc)+


text \<open>C37: the value an execution moves. On a ledger that satisfies the invariant, executing a plan with decimal amounts
  changes the unspent value by the amounts the plan lists for its inputs, minus the fee of the receipt, minus the value of
  the outputs it spends, each counted once. The fee is not negative. So the unspent value drops by exactly the fee when
  the plan names each input once and with the amount of the output it spends; the code checks neither, and the
  lemma \<open>duplicate_input_creates_value\<close> below is the plan that gains from it.\<close>

theorem plan_conserves_value:
  assumes ok: "ledger_ok d st" and am: "plan_amounts plan" and ids: "plan_spends plan ids"
    and r: "applySimulatedPlan sha st plan ctx o' = Inr r" "sr_ok r"
  shows "\<exists>fee listed. jget (sr_receipt r) ''feeSompi'' = JStr (int_str fee) \<and> 0 \<le> fee \<and>
    mapE itemAmount (arrayOr (jget plan ''inputs'')) = Inr listed \<and>
    total_value (sr_state r) + fee + (\<Sum>i \<leftarrow> remdups ids. price_at (\<lambda>_. True) (ls_utxos st) i) = total_value st + sum_list listed \<and>
    (distinct ids \<and> listed = map (price_at (\<lambda>_. True) (ls_utxos st)) ids \<longrightarrow> total_value (sr_state r) + fee = total_value st)"
  using r(1)
proof (cases rule: applySimulatedPlan_cases)
  case (ok hv pre)
  from planBody_step [OF ok(1) ids \<open>ledger_ok d st\<close>] obtain new txId receipt post where ins: "checkInputs st ids = Inr ()"
    and new: "createdUtxos st plan txId (int_str (d + 1)) = Inr new"
    and rc: "createSimulatedTxReceipt sha plan txId ctx (executionExtra ids new (int_str (d + 1)) pre post st (planReceiptExtra o')) = Inr receipt"
    and rr: "r = \<lparr>sr_ok = True, sr_state = nextState st (int_str (d + 1)) ids new, sr_receipt = receipt, sr_planArtifact = plan, sr_errors = []\<rparr>" by metis
  have r: "sr_state r = nextState st (int_str (d + 1)) ids new" "sr_receipt r = receipt" using rr by simp_all
  obtain fee where fee: "deriveSimulatedFee plan = Inr (Inr fee)" "jget receipt ''feeSompi'' = JStr (int_str fee)"
    using receipt_status(7) [OF rc] by blast
  have "\<forall>u \<in> set new. \<not> u_spent u" using createdUtxos_spec(2) [OF new am] by (auto simp: list_all_iff fresh_output_def) (metis newUtxo_simps(3))
  then have made: "value_at (\<lambda>_. True) new = (\<Sum>u \<leftarrow> new. amount u)" by (simp add: value_at_def)
  from createdUtxos_spec(3) [OF new am fee(1)] obtain listed where listed: "mapE itemAmount (arrayOr (jget plan ''inputs'')) = Inr listed"
    "sum_list listed = fee + (\<Sum>u \<leftarrow> new. amount u)" "0 \<le> fee" using addItems_Inr by fastforce
  have "spendUtxos (remdups ids) n us = spendUtxos ids n us" for n us by (simp add: spendUtxos_def)
  moreover have "value_at (\<lambda>_. True) (ls_utxos st) = value_at (\<lambda>_. True) (spendUtxos (remdups ids) (int_str (d + 1)) (ls_utxos st)) +
      (\<Sum>i \<leftarrow> remdups ids. price_at (\<lambda>_. True) (ls_utxos st) i)"
    by (rule spend_value) (use \<open>ledger_ok d st\<close> ins in \<open>auto simp: ledger_ok_def checkInputs_iff\<close>)
  ultimately have bal: "total_value (sr_state r) + fee + (\<Sum>i \<leftarrow> remdups ids. price_at (\<lambda>_. True) (ls_utxos st) i) = total_value st + sum_list listed"
    using r made listed(2) by (simp add: total_value_def nextState_def)
  then have "distinct ids \<and> listed = map (price_at (\<lambda>_. True) (ls_utxos st)) ids \<longrightarrow> total_value (sr_state r) + fee = total_value st"
    by (auto simp: distinct_remdups_id)
  then show ?thesis using fee(2) r(2) listed(1,3) bal by auto
qed (use r(2) in simp)

subsection \<open>An execution\<close>

definition ex_ctx :: RuntimeContext where
  "ex_ctx = \<lparr>rc_now = ''2025-01-01T00:00:00.000Z'', rc_workflowId = JUndefined, rc_assumptionLevel = JUndefined, rc_utxoSelection = JUndefined,
     rc_pendingSpendEvidence = JUndefined, rc_planningWindow = JUndefined, rc_plannerAuthority = JUndefined, rc_plannerAuthorityDetail = JUndefined\<rparr>"

definition ex_plan :: json where
  "ex_plan = JObj [(''schema'', JStr schemaTxPlan), (''hashVersion'', JNum 5), (''contentHash'', JStr (replicate 64 (CHR ''a''))),
     (''networkId'', JStr ''simnet''), (''mode'', JStr ''simulator''), (''from'', JObj [(''address'', JStr ''alice'')]),
     (''to'', JObj [(''address'', JStr ''bob'')]), (''amountSompi'', JStr ''3000''), (''estimatedFeeSompi'', JStr ''500''),
     (''inputs'', JArr [JObj [(''outpoint'', JObj [(''transactionId'', JStr ''genesis-alice''), (''index'', JNum 0)]), (''amountSompi'', JStr ''5000'')]]),
     (''outputs'', JArr [JObj [(''address'', JStr ''bob''), (''amountSompi'', JStr ''3000'')]]),
     (''change'', JObj [(''address'', JStr ''alice''), (''amountSompi'', JStr ''1500'')]),
     (''lineage'', JObj [(''artifactId'', JStr (replicate 64 (CHR ''a''))), (''sequence'', JNum 1)])]"

definition ex_txId :: string where
  "ex_txId = ''synthetic-'' @ replicate 64 (CHR ''a'')"

lemma amount_fieldI: "jget j ''amountSompi'' = JStr s \<Longrightarrow> s = int_str a \<Longrightarrow> 0 \<le> a \<Longrightarrow> amount_field j"
  by (auto simp: amount_field_def)

lemma ex_plan_executable: "executable_plan ex_plan"
proof -
  have "''3000'' = int_str 3000" "''1500'' = int_str 1500" by code_simp+
  from amount_fieldI [OF _ this(1)] amount_fieldI [OF _ this(2)] have "plan_amounts ex_plan"
    by (simp add: plan_amounts_def ex_plan_def arrayOr_def)
  moreover have "case deriveSimulatedFee ex_plan of Inr (Inr fee) \<Rightarrow> json_bigE (jget ex_plan ''estimatedFeeSompi'') = Inr fee | _ \<Rightarrow> False"
    by code_simp
  moreover have "plain_json ex_plan" "is_jarr (jget ex_plan ''inputs'')" "is_jarr (jget ex_plan ''outputs'')" by code_simp+
  moreover have "has_address (jget ex_plan ''from'')" "has_address (jget ex_plan ''to'')" "has_address (jget ex_plan ''change'')"
    "list_all has_address (arrayOr (jget ex_plan ''outputs''))" by code_simp+
  ultimately show ?thesis by (simp add: executable_plan_def)
qed

lemma ex_plan_facts: "plain_options noPlanOptions" "plan_spends ex_plan [''genesis-alice:0'']" "planTxId sha ex_plan noPlanOptions = Inr ex_txId"
  "tx_fresh ex_txId ex_state" "checkInputs ex_state [''genesis-alice:0''] = Inr ()"
proof -
  show "plain_options noPlanOptions" "plan_spends ex_plan [''genesis-alice:0'']" by code_simp+
  have "HEX64 (replicate 64 (CHR ''a''))" by code_simp
  then show "planTxId sha ex_plan noPlanOptions = Inr ex_txId"
    by (simp add: planTxId_def noPlanOptions_def generateDeterministicTxId_def ex_plan_def syntheticTxIdFor_def is_HEX64_def text_of_def ex_txId_def)
  show "tx_fresh ex_txId ex_state" "checkInputs ex_state [''genesis-alice:0''] = Inr ()" by code_simp+
qed

lemma plan_executed:
  assumes "ledger_ok d st" "executable_plan plan" "plain_options o'" "plan_spends plan ids" "planTxId sha plan o' = Inr txId"
    "checkInputs st ids = Inr ()"
  shows "\<exists>r. applySimulatedPlan sha st plan ctx o' = Inr r \<and> sr_ok r"
proof -
  have daa: "bigE (ls_daaScore st) = Inr d" using assms(1) by (simp add: ledger_ok_def)
  obtain pre where pre: "calculateStateHash sha st currentVersion = Inr pre" using calculateStateHash_ok by blast
  obtain r where r: "planBody sha st plan ctx o' currentVersion pre = Inr r" using planBody_total [OF assms(2,3) daa assms(4,5)] assms(6) by blast
  then have "sr_ok r" by (elim planBody_Inr) simp
  then show ?thesis using r pre assms(3) by (simp add: applySimulatedPlan_def plain_options_def caught_def)
qed

lemmas ex_plan_executed = plan_executed [OF ex_state_ok(1) ex_plan_executable ex_plan_facts(1-3,5)]

theorem double_spend_refused_witness:
  "\<exists>r r'. applySimulatedPlan ex_sha ex_state ex_plan ex_ctx noPlanOptions = Inr r \<and> sr_ok r \<and>
     applySimulatedPlan ex_sha (sr_state r) ex_plan ex_ctx noPlanOptions = Inr r' \<and> \<not> sr_ok r' \<and> sr_state r' = sr_state r"
proof -
  obtain r where r: "applySimulatedPlan ex_sha ex_state ex_plan ex_ctx noPlanOptions = Inr r" "sr_ok r" using ex_plan_executed by blast
  obtain r' where r': "applySimulatedPlan ex_sha (sr_state r) ex_plan ex_ctx noPlanOptions = Inr r'"
    using calculateStateHash_ok [of ex_sha "sr_state r"] by (auto simp: applySimulatedPlan_def noPlanOptions_def)
  show ?thesis
    using double_spend_refused [OF r ex_plan_facts(2) rtranclp.rtrancl_refl ex_plan_facts(2) _ r'] r r' by auto
qed

lemma ex_plan_entries: "entry_list ex_state ex_txId 0 (executed_items ex_plan) = 
    [(ex_txId @ '':0'', resolveAccountAddressFromState ex_state ''bob'', 3000), (ex_txId @ '':1'', resolveAccountAddressFromState ex_state ''alice'', 1500)]"
  by code_simp


theorem plan_conserves_value_witness:
  "\<exists>r fee. applySimulatedPlan ex_sha ex_state ex_plan ex_ctx noPlanOptions = Inr r \<and> 0 \<le> fee \<and>
     total_value (sr_state r) + fee = total_value ex_state"
proof -
  obtain r where r: "applySimulatedPlan ex_sha ex_state ex_plan ex_ctx noPlanOptions = Inr r" "sr_ok r" using ex_plan_executed by blast
  have "plan_amounts ex_plan" using ex_plan_executable by (simp add: executable_plan_def)
  moreover have "mapE itemAmount (arrayOr (jget ex_plan ''inputs'')) = Inr (map (price_at (\<lambda>_. True) (ls_utxos ex_state)) [''genesis-alice:0''])"
    by code_simp
  ultimately show ?thesis using plan_conserves_value [OF ex_state_ok(1) _ ex_plan_facts(2) r] r by auto
qed

subsection \<open>Payments\<close>

text \<open>Ids of outputs as every producer writes them: a transaction id and an index.\<close>

definition id_canonical :: "string \<Rightarrow> bool" where
  "id_canonical i \<longleftrightarrow> (\<exists>t n. i = t @ '':'' @ nat_str n \<and> int n \<le> MAX_SAFE_INTEGER)"

lemma id_canonicalI: "int n \<le> MAX_SAFE_INTEGER \<Longrightarrow> id_canonical (t @ '':'' @ nat_str n)"
  unfolding id_canonical_def by blast

lemma id_parts: "idTransaction (t @ CHR '':'' # nat_str n) = t" "int n \<le> MAX_SAFE_INTEGER \<Longrightarrow> idIndex (t @ CHR '':'' # nat_str n) = Some (int n)"
proof -
  have "list_all is_digit (rev (nat_str n))" by (simp add: list_all_rev)
  then have d: "\<forall>c \<in> set (rev (nat_str n)). c \<noteq> CHR '':''" by (auto simp: list_all_iff)
  have "dropWhile (\<lambda>c. c \<noteq> CHR '':'') (rev (nat_str n) @ CHR '':'' # rev t) = CHR '':'' # rev t"
    "takeWhile (\<lambda>c. c \<noteq> CHR '':'') (rev (nat_str n) @ CHR '':'' # rev t) = rev (nat_str n)"
    using d by (simp_all add: dropWhile_append takeWhile_append)
  then show "idTransaction (t @ CHR '':'' # nat_str n) = t" "int n \<le> MAX_SAFE_INTEGER \<Longrightarrow> idIndex (t @ CHR '':'' # nat_str n) = Some (int n)"
    by (simp_all add: idTransaction_def idIndex_def MAX_SAFE_INTEGER_def)
qed

lemma availableUtxo_id:
  assumes "utxo_ok d u" "id_canonical (u_id u)" "availableUtxo u = Inr x"
  shows "outpointId (ux_outpoint x) = u_id u \<and> ux_amountSompi x = amount u \<and> op_index (ux_outpoint x) \<noteq> None"
  using assms utxo_ok_amount [OF assms(1)]
  by (auto simp: availableUtxo_def id_canonical_def outpointId_def num_str_def id_parts int_str_def)

lemma mapE_Inr_mem: "mapE f xs = Inr ys \<Longrightarrow> y \<in> set ys \<Longrightarrow> \<exists>x \<in> set xs. f x = Inr y"
  by (induction xs arbitrary: ys) auto

text \<open>The inputs of a payment are spendable outputs of the sender, named by their ids.\<close>

lemma payment_utxo:
  assumes "ledger_ok d st" "list_all (\<lambda>u. id_canonical (u_id u)) (ls_utxos st)"
    and us: "mapE availableUtxo (unspentAt (ls_utxos st) a) = Inr us" and y: "y \<in> set us"
  shows "\<exists>u \<in> set (unspentAt (ls_utxos st) a). outpointId (ux_outpoint y) = u_id u \<and> ux_amountSompi y = amount u \<and> op_index (ux_outpoint y) \<noteq> None"
proof -
  obtain u where u: "u \<in> set (unspentAt (ls_utxos st) a)" "availableUtxo u = Inr y" using mapE_Inr_mem [OF us y] by blast
  then have "utxo_ok d u" "id_canonical (u_id u)" using assms(1,2) by (auto simp: unspentAt_def ledger_ok_def list_all_iff)
  then show ?thesis using availableUtxo_id u by blast
qed

lemma payment_inputs:
  assumes "ledger_ok d st" "list_all (\<lambda>u. id_canonical (u_id u)) (ls_utxos st)"
    and us: "mapE availableUtxo (unspentAt (ls_utxos st) a) = Inr us"
    and plan: "buildPaymentPlan sdk rq = Inr plan" "rq_availableUtxos rq = us"
  shows "(\<Sum>i \<leftarrow> map (\<lambda>i. outpointId (ux_outpoint i)) (pl_inputs plan). price_at P (ls_utxos st) i) = (if P a then inputsTotal (pl_inputs plan) else 0)"
    and "inputsTotal (pl_inputs plan) = outputsTotal (rq_outputs rq) + changeOf plan + pl_estimatedFeeSompi plan"
proof -
  have n: "numbered (rq_availableUtxos rq)"
    using payment_utxo [OF assms(1,2) us] plan(2) by (fastforce simp: numbered_def list_all_iff)
  obtain maturity where p: "mset (pl_inputs plan) \<subseteq># mset (candidateUtxos rq maturity)" "pl_outputs plan = js_sort compareTxOutputs (rq_outputs rq)"
    "inputsTotal (pl_inputs plan) = outputsTotal (pl_outputs plan) + changeOf plan + pl_estimatedFeeSompi plan"
    by (rule plan_parts [OF plan(1) n])
  show "inputsTotal (pl_inputs plan) = outputsTotal (rq_outputs rq) + changeOf plan + pl_estimatedFeeSompi plan" using p(2,3) by simp
  have "set (pl_inputs plan) \<subseteq> set us" using p(1) candidates_subset plan(2) by (metis order_trans set_mset_mono set_mset_mset)
  then have "price_at P (ls_utxos st) (outpointId (ux_outpoint x)) = (if P a then ux_amountSompi x else 0)" if x: "x \<in> set (pl_inputs plan)" for x
  proof -
    have "x \<in> set us" using \<open>set (pl_inputs plan) \<subseteq> set us\<close> x by blast
    from payment_utxo [OF assms(1,2) us this] obtain u where
      "u \<in> set (ls_utxos st)" "u_address u = a" "outpointId (ux_outpoint x) = u_id u" "ux_amountSompi x = amount u"
      by (auto simp: unspentAt_def)
    then show ?thesis using find_id [of "ls_utxos st" u] assms(1) by (simp add: price_at_def ledger_ok_def)
  qed
  then have "map (\<lambda>x. price_at P (ls_utxos st) (outpointId (ux_outpoint x))) (pl_inputs plan) = map (\<lambda>x. if P a then ux_amountSompi x else 0) (pl_inputs plan)"
    by simp
  then show "(\<Sum>i \<leftarrow> map (\<lambda>i. outpointId (ux_outpoint i)) (pl_inputs plan). price_at P (ls_utxos st) i) = (if P a then inputsTotal (pl_inputs plan) else 0)"
    unfolding map_map o_def by (cases "P a") (simp_all only: inputsTotal_eq if_True if_False sum_list_0)
qed

lemma receipt_fee:
  assumes "createSimulatedTxReceipt sha plan txId ctx e = Inr receipt"
  shows "\<exists>fee. json_bigE (jget plan ''estimatedFeeSompi'') = Inr fee \<and> 0 \<le> fee \<and> jget receipt ''feeSompi'' = JStr (int_str fee)"
proof -
  obtain fee where fee: "deriveSimulatedFee plan = Inr (Inr fee)" "jget receipt ''feeSompi'' = JStr (int_str fee)"
    using receipt_status(7) [OF assms] by blast
  then have "json_bigE (jget plan ''estimatedFeeSompi'') = Inr fee"
    using assms by (auto simp: createSimulatedTxReceipt_def split: if_splits)
  moreover have "0 \<le> fee" using fee(1) by (auto simp: deriveSimulatedFee_def Let_def split: if_splits)
  ultimately show ?thesis using fee(2) by blast
qed

lemma finalize_keeps:
  assumes "finalizeTxPlanIdentity sha (JObj es) = Inr j" "k \<notin> {''hashVersion'', ''contentHash'', ''planId'', ''lineage''}"
  shows "jget j k = jget (JObj es) k"
  using assms by (auto simp: finalizeTxPlanIdentity_def Let_def jset_def)

lemma planArtifact_fee:
  assumes "createTxPlanArtifact sha o' = Inr artifact"
  shows "jget artifact ''estimatedFeeSompi'' = JStr (int_str (pl_estimatedFeeSompi (cp_plan o')))"
proof -
  obtain w where "finalizeTxPlanIdentity sha (JObj (planDraft o' w)) = Inr artifact"
    using assms by (auto simp: createTxPlanArtifact_def)
  from finalize_keeps [OF this, of "''estimatedFeeSompi''"] show ?thesis by (simp add: planDraft_def Let_def)
qed

subsection \<open>Payments are accepted\<close>

lemma itemAmount_planInput [simp]: "itemAmount (planInputJson u) = Inr (ux_amountSompi u)"
  by (simp add: itemAmount_def planInputJson_def jfield_def)

lemma itemAmount_planOutput [simp]: "itemAmount (planOutputJson t) = Inr (to_amountSompi t)"
  by (simp add: itemAmount_def planOutputJson_def jfield_def)

lemma addItems_plan:
  "addItems acc (map planInputJson us) = Inr (acc + inputsTotal us)" "addItems acc (map planOutputJson ts) = Inr (acc + outputsTotal ts)"
proof -
  show "addItems acc (map planInputJson us) = Inr (acc + inputsTotal us)" by (induction us arbitrary: acc) simp_all
  show "addItems acc (map planOutputJson ts) = Inr (acc + outputsTotal ts)" by (induction ts arbitrary: acc) (simp_all add: outputsTotal_eq)
qed

lemma map_of_optional [simp]:
  "map_of (jwhen c k v) l = (if c \<and> l = k then Some v else None)"
  "map_of (opt_int k x) l = (if l = k then map_option (\<lambda>i. JStr (int_str i)) x else None)"
  "map_of (opt_field k y) l = (if l = k then map_option JStr y else None)"
  by (auto simp: jwhen_def opt_int_def opt_field_def split: option.splits)

lemma planDraft_fields:
  "jget (JObj (planDraft o' w)) ''inputs'' = JArr (map planInputJson (pl_inputs (cp_plan o')))"
  "jget (JObj (planDraft o' w)) ''outputs'' = JArr (map planOutputJson (pl_outputs (cp_plan o')))"
  "jget (JObj (planDraft o' w)) ''from'' = JObj [(''address'', JStr (cp_fromAddress o')), (''accountName'', optStr (cp_fromAccountName o')), (''input'', JStr (cp_fromInput o'))]"
  "jget (JObj (planDraft o' w)) ''to'' = JObj [(''address'', JStr (cp_toAddress o')), (''input'', JStr (cp_toInput o'))]"
  "jget (JObj (planDraft o' w)) ''estimatedFeeSompi'' = JStr (int_str (pl_estimatedFeeSompi (cp_plan o')))"
  "jget (JObj (planDraft o' w)) ''lineage'' = JObj [(''artifactId'', JStr []), (''sequence'', JNum 1)]"
  "jget (JObj (planDraft o' w)) ''change'' = (case pl_change (cp_plan o') of None \<Rightarrow> JUndefined
     | Some c \<Rightarrow> JObj [(''address'', JStr (to_address c)), (''amountSompi'', JStr (int_str (to_amountSompi c)))])"
  unfolding planDraft_def Let_def by (simp_all add: map_add_def changeJson_def split: option.splits)

definition plain_ctx :: "RuntimeContext \<Rightarrow> bool" where
  "plain_ctx ctx \<longleftrightarrow> list_all plain_json [rc_workflowId ctx, rc_assumptionLevel ctx, rc_utxoSelection ctx, rc_pendingSpendEvidence ctx,
     rc_planningWindow ctx, rc_plannerAuthority ctx, rc_plannerAuthorityDetail ctx]"

lemma plain_optional [simp]:
  "list_all (\<lambda>kv. plain_json (snd kv)) (opt_int k x)" "list_all (\<lambda>kv. plain_json (snd kv)) (opt_field k y)"
  "list_all (\<lambda>kv. plain_json (snd kv)) (changeJson c)" "plain_json (optStr y)" "plain_json (outpointJson p)"
  by (simp_all add: opt_int_def opt_field_def changeJson_def optStr_def outpointJson_def indexJson_def split: option.splits)

lemma plain_planItems [simp]: "plain_json (planInputJson u)" "plain_json (planOutputJson t)"
  by (simp_all add: planInputJson_def planOutputJson_def split: option.splits)

lemma plain_planDraft: "plain_ctx (cp_ctx o') \<Longrightarrow> plain_json w \<Longrightarrow> plain_json (JObj (planDraft o' w))"
  by (simp add: planDraft_def Let_def plain_ctx_def plain_jor executionJson_def list_all_iff [of plain_json "map f xs" for f xs])

lemma plain_jset: "plain_json j \<Longrightarrow> plain_json v \<Longrightarrow> plain_json (jset k v j)"
proof (cases j)
  case (JObj es)
  moreover assume "plain_json j" "plain_json v"
  moreover have "set (AList.update k v es) \<subseteq> insert (k, v) (set es)" by (induction es) auto
  ultimately show ?thesis by (auto simp: jset_def list_all_iff)
qed (simp_all add: jset_def)

lemma workflowId_total: "\<exists>w. deriveIntentWorkflowId sha n m f t a ps = Inr w"
proof -
  let ?i = "JObj [(''kind'', JStr ''transfer''), (''networkId'', JStr n), (''mode'', JStr m), (''fromAddress'', JStr f), (''toAddress'', JStr t),
    (''amountSompi'', JStr a), (''outpoints'', JArr (map outpointJson ps))]"
  have "assertIntent ?i = Inr ()" by (simp add: assertIntent_def is_jstr_def is_jarr_def)
  moreover have "plain_json ?i" by (simp add: list_all_iff)
  from serialize_ok [OF this, of True UNEXCLUDED_FORM None 0 None] have "\<exists>d. domainDigest sha ?i CURRENT_DOMAIN_DIGEST_VERSION = Inr d"
    by (auto simp: domainDigest_def canonicalStringifyUnexcluded_def is_ok_iff CURRENT_DOMAIN_DIGEST_VERSION_def)
  ultimately show ?thesis by (auto simp: deriveIntentWorkflowId_def deriveWorkflowId_def)
qed

lemma planArtifact_total:
  assumes "plain_ctx (cp_ctx o')"
  obtains artifact w h where "createTxPlanArtifact sha o' = Inr artifact" "finalizeTxPlanIdentity sha (JObj (planDraft o' w)) = Inr artifact"
    "plain_json artifact" "jget artifact ''contentHash'' = JStr (sha h)"
proof -
  obtain w where w: "plain_json w" "createTxPlanArtifact sha o' = finalizeTxPlanIdentity sha (JObj (planDraft o' w))"
  proof (cases "rc_workflowId (cp_ctx o') \<noteq> JUndefined \<and> rc_workflowId (cp_ctx o') \<noteq> JNull")
    case True
    then show ?thesis using that [of "rc_workflowId (cp_ctx o')"] assms by (simp add: createTxPlanArtifact_def plain_ctx_def)
  next
    case False
    obtain w where "deriveIntentWorkflowId sha (cp_networkId o') (cp_mode o') (cp_fromAddress o') (cp_toAddress o') (int_str (cp_amountSompi o'))
      (map ux_outpoint (pl_inputs (cp_plan o'))) = Inr w" using workflowId_total by blast
    then show ?thesis using that [of "JStr w"] False by (auto simp: createTxPlanArtifact_def)
  qed
  let ?p = "jset ''hashVersion'' (JNum CURRENT_HASH_VERSION) (JObj (planDraft o' w))"
  have p: "plain_json ?p" "?p \<noteq> JUndefined"
    using plain_jset [OF plain_planDraft [OF assms w(1)], of "JNum CURRENT_HASH_VERSION"] by (simp_all add: jset_def)
  obtain x where x: "calculateContentHash sha ?p CURRENT_HASH_VERSION = Inr (sha x)"
    using hash_plain [OF p, of sha] by (auto simp: calculateContentHash_def)
  obtain artifact where a: "finalizeTxPlanIdentity sha (JObj (planDraft o' w)) = Inr artifact"
    using x by (auto simp: finalizeTxPlanIdentity_def Let_def)
  have "artifact = jset ''lineage'' (jset ''artifactId'' (JStr (sha x)) (jget ?p ''lineage''))
      (jset ''planId'' (JStr (''plan-'' @ take 16 (sha x))) (jset ''contentHash'' (JStr (sha x)) ?p))"
    using a x planDraft_fields(6) [of o' w] by (simp add: finalizeTxPlanIdentity_def Let_def jset_def)
  moreover from this have "plain_json artifact" by (simp only:) (intro plain_jset plain_jget p(1) plain_json.simps TrueI; simp)
  moreover from calculation(1) have "jget artifact ''contentHash'' = JStr (sha x)" by (simp add: jset_def)
  ultimately show thesis using that w(2) a by metis
qed

lemma planArtifact_executable:
  assumes o': "plain_ctx (cp_ctx o')" and art: "createTxPlanArtifact sha o' = Inr artifact"
    and nonneg: "pl_inputs (cp_plan o') \<noteq> []" "list_all (\<lambda>t. 0 \<le> to_amountSompi t) (pl_outputs (cp_plan o'))" "0 \<le> pl_estimatedFeeSompi (cp_plan o')"
      "0 \<le> changeOf (cp_plan o')"
    and total: "inputsTotal (pl_inputs (cp_plan o')) = outputsTotal (pl_outputs (cp_plan o')) + changeOf (cp_plan o') + pl_estimatedFeeSompi (cp_plan o')"
  shows "executable_plan artifact"
proof -
  obtain w where w: "finalizeTxPlanIdentity sha (JObj (planDraft o' w)) = Inr artifact" and plain: "plain_json artifact"
    using planArtifact_total [OF o'] art by (metis sum.inject(2))
  have k: "jget artifact k = jget (JObj (planDraft o' w)) k" if "k \<notin> {''hashVersion'', ''contentHash'', ''planId'', ''lineage''}" for k
    using finalize_keeps [OF w that] .
  note f = k [of "''inputs''"] k [of "''outputs''"] k [of "''from''"] k [of "''to''"] k [of "''estimatedFeeSompi''"] k [of "''change''"]
  note fields = f [unfolded planDraft_fields, simplified]
  have am: "plan_amounts artifact"
    using nonneg(2,4) unfolding plan_amounts_def fields arrayOr_def
    by (auto simp: amount_field_def list_all_iff planOutputJson_def changeOf_def split: option.splits)
  have "deriveSimulatedFee artifact = Inr (Inr (pl_estimatedFeeSompi (cp_plan o')))"
    using nonneg(1,3) total unfolding deriveSimulatedFee_def fields Let_def arrayOr_def jlist_def jnn_def
    by (cases "pl_change (cp_plan o')") (simp_all add: addItems_plan changeOf_def itemAmount_def jfield_def)
  moreover have "list_all has_address (arrayOr (jget artifact ''outputs''))"
    unfolding fields by (simp add: arrayOr_def list_all_iff has_address_def planOutputJson_def is_jstr_def)
  moreover have "truthy (jget artifact ''change'') \<longrightarrow> has_address (jget artifact ''change'')"
    unfolding fields by (simp add: has_address_def is_jstr_def split: option.splits)
  ultimately show ?thesis using plain am unfolding executable_plan_def
    by (simp add: fields is_jarr_def has_address_def is_jstr_def)
qed

definition paymentPlan :: "Sdk result \<Rightarrow> LocalnetState \<Rightarrow> SimulatedPaymentInput \<Rightarrow> TxPlan result" where
  "paymentPlan sdk st inp = bindE (mapE availableUtxo (getSpendableUtxos st (resolveAccountAddressFromState st (pi_from inp)))) (\<lambda>us.
     buildPaymentPlan sdk (paymentRequest (resolveAccountAddressFromState st (pi_from inp)) (resolveAccountAddressFromState st (pi_to inp))
       (pi_amountSompi inp) us (case pi_feeRateSompiPerMass inp of None \<Rightarrow> 1 | Some r \<Rightarrow> r)))"

text \<open>A payment can be made: both parties have an address, and the planner covers a positive amount from the spendable outputs.\<close>

definition payable :: "Sdk result \<Rightarrow> LocalnetState \<Rightarrow> SimulatedPaymentInput \<Rightarrow> bool" where
  "payable sdk st inp \<longleftrightarrow> 0 < pi_amountSompi inp \<and> resolveAccountAddressFromState st (pi_from inp) \<noteq> [] \<and>
     resolveAccountAddressFromState st (pi_to inp) \<noteq> [] \<and> getSpendableUtxos st (resolveAccountAddressFromState st (pi_from inp)) \<noteq> [] \<and>
     is_ok (paymentPlan sdk st inp)"

lemma payment_ids:
  assumes "ledger_ok d st" "list_all (\<lambda>u. id_canonical (u_id u)) (ls_utxos st)"
    and us: "mapE availableUtxo (unspentAt (ls_utxos st) a) = Inr us" and sub: "mset ins \<subseteq># mset us"
  shows "distinct (map (\<lambda>i. outpointId (ux_outpoint i)) ins)" "checkInputs st (map (\<lambda>i. outpointId (ux_outpoint i)) ins) = Inr ()"
proof -
  have eq: "map (\<lambda>i. outpointId (ux_outpoint i)) ys = map u_id xs" if "mapE availableUtxo xs = Inr ys" "set xs \<subseteq> set (ls_utxos st)" for xs ys
    using that
  proof (induction xs arbitrary: ys)
    case (Cons x xs)
    then have "utxo_ok d x" "id_canonical (u_id x)" using assms(1,2) by (auto simp: ledger_ok_def list_all_iff)
    then show ?case using Cons availableUtxo_id by fastforce
  qed simp
  have "distinct (map u_id (ls_utxos st))" using assms(1) by (simp add: ledger_ok_def)
  then have "distinct (map u_id (unspentAt (ls_utxos st) a))" by (simp add: unspentAt_def distinct_map_filter)
  then have "distinct (map (\<lambda>i. outpointId (ux_outpoint i)) us)" using eq [OF us] by (auto simp: unspentAt_def)
  moreover have "mset (map (\<lambda>i. outpointId (ux_outpoint i)) ins) \<subseteq># mset (map (\<lambda>i. outpointId (ux_outpoint i)) us)"
    using image_mset_subseteq_mono [OF sub] by simp
  ultimately show "distinct (map (\<lambda>i. outpointId (ux_outpoint i)) ins)" using distinct_submset by blast
  have "\<exists>u. List.find (\<lambda>u. u_id u = outpointId (ux_outpoint x)) (ls_utxos st) = Some u \<and> \<not> u_spent u" if x: "x \<in> set ins" for x
  proof -
    have "x \<in> set us" using sub x by (metis set_mset_mono set_mset_mset subsetD)
    from payment_utxo [OF assms(1,2) us this] obtain u where "u \<in> set (ls_utxos st)" "\<not> u_spent u" "outpointId (ux_outpoint x) = u_id u"
      by (auto simp: unspentAt_def)
    then show ?thesis using find_id \<open>distinct (map u_id (ls_utxos st))\<close> by metis
  qed
  then show "checkInputs st (map (\<lambda>i. outpointId (ux_outpoint i)) ins) = Inr ()" unfolding checkInputs_iff by auto
qed

lemma settlePayment_total:
  assumes "ledger_ok d st" "plain_ctx ctx" "\<And>x. HEX64 (sha x)"
    and ids: "distinct (map (\<lambda>i. outpointId (ux_outpoint i)) (pl_inputs plan))" "checkInputs st (map (\<lambda>i. outpointId (ux_outpoint i)) (pl_inputs plan)) = Inr ()"
    and plan: "pl_inputs plan \<noteq> []" "list_all (\<lambda>t. 0 \<le> to_amountSompi t) (pl_outputs plan)" "0 \<le> pl_estimatedFeeSompi plan" "0 \<le> changeOf plan"
      "inputsTotal (pl_inputs plan) = outputsTotal (pl_outputs plan) + changeOf plan + pl_estimatedFeeSompi plan"
  shows "is_ok (settlePayment sha st inp ctx pre fa ta plan errs)"
proof -
  let ?o = "paymentArtifactOptions st inp fa ta plan ctx" and ?ids = "map (\<lambda>i. outpointId (ux_outpoint i)) (pl_inputs plan)"
  have o: "cp_ctx ?o = ctx" "cp_plan ?o = plan" by (simp_all add: paymentArtifactOptions_def)
  obtain artifact h where art: "createTxPlanArtifact sha ?o = Inr artifact" "jget artifact ''contentHash'' = JStr (sha h)"
    using planArtifact_total [of ?o sha] assms(2) o by metis
  have ex: "executable_plan artifact" by (rule planArtifact_executable [OF _ art(1)]) (use assms(2) plan o in simp_all)
  have "sha h \<noteq> []" using assms(3) [of h] by (auto simp: HEX64_def)
  then have tx: "generateDeterministicTxId sha artifact = Inr (''synthetic-'' @ sha h)"
    using assms(3) art(2) by (simp add: generateDeterministicTxId_def syntheticTxIdFor_def is_HEX64_def text_of_def)
  let ?new = "paymentOutputs (''synthetic-'' @ sha h) fa ta (pi_amountSompi inp) plan (int_str (d + 1))"
  obtain post where post: "calculateStateHash sha (nextState st (int_str (d + 1)) ?ids ?new) currentVersion = Inr post" using calculateStateHash_ok by blast
  have "plain_extra (executionExtra ?ids ?new (int_str (d + 1)) pre post st noReceiptExtra)"
    by (rule plain_executionExtra) (simp add: plain_extra_def noReceiptExtra_def)
  from receipt_total [OF ex this, of sha "''synthetic-'' @ sha h" ctx] obtain receipt where
    "createSimulatedTxReceipt sha artifact (''synthetic-'' @ sha h) ctx (executionExtra ?ids ?new (int_str (d + 1)) pre post st noReceiptExtra) = Inr receipt" by blast
  then show ?thesis using ids art(1) tx post assms(1) by (simp add: settlePayment_def ledger_ok_def Let_def)
qed

lemma payment_accepted:
  assumes ledger: "ledger_ok d st" and acc: "accounts_ok (ls_accounts st)" and ids: "list_all (\<lambda>u. id_canonical (u_id u)) (ls_utxos st)"
    and env: "plain_ctx ctx" "\<And>x. HEX64 (sha x)" "fees_nonneg sdk" and pay: "payable sdk st inp"
  shows "is_ok (paymentBody sha sdk st inp ctx pre)"
proof -
  define fa ta amt where a: "fa = resolveAccountAddressFromState st (pi_from inp)" "ta = resolveAccountAddressFromState st (pi_to inp)"
    "amt = pi_amountSompi inp"
  obtain us plan rq where us: "mapE availableUtxo (getSpendableUtxos st fa) = Inr us"
    and rq: "rq = paymentRequest fa ta amt us (case pi_feeRateSompiPerMass inp of None \<Rightarrow> 1 | Some r \<Rightarrow> r)"
    and plan: "buildPaymentPlan sdk rq = Inr plan"
    using pay unfolding payable_def paymentPlan_def a by (auto simp: is_ok_iff)
  have "resolveMatchAddress st fa = fa" unfolding a by (rule resolveMatch_resolved [OF acc resolve_idem [OF acc]])
  then have us': "mapE availableUtxo (unspentAt (ls_utxos st) fa) = Inr us" using us by (simp add: getSpendableUtxos_def)
  have av: "rq_availableUtxos rq = us" "rq_outputs rq = [\<lparr>to_address = ta, to_amountSompi = amt, to_scriptPublicKey = None, to_covenant = None\<rparr>]"
    by (simp_all add: rq paymentRequest_def)
  have n: "numbered (rq_availableUtxos rq)" using payment_utxo [OF ledger ids us'] av(1) by (fastforce simp: numbered_def list_all_iff)
  obtain maturity where p: "pl_inputs plan \<noteq> []" "mset (pl_inputs plan) \<subseteq># mset (candidateUtxos rq maturity)"
    "pl_outputs plan = js_sort compareTxOutputs (rq_outputs rq)"
    "inputsTotal (pl_inputs plan) = outputsTotal (pl_outputs plan) + changeOf plan + pl_estimatedFeeSompi plan"
    "\<forall>c. pl_change plan = Some c \<longrightarrow> to_address c = changeAddressOf rq \<and> DUST_THRESHOLD_SOMPI \<le> to_amountSompi c"
    "\<exists>r minimum. measureUpstreamMass sdk (planMassInput rq (pl_outputs plan) (changeAddressOf rq) (pl_inputs plan)
       (map_option to_amountSompi (pl_change plan))) = Inr r \<and> ur_mass r = pl_estimatedMass plan \<and> ur_standard r \<and>
       ur_minimumFeeSompi r = Some minimum \<and> minimum \<le> pl_estimatedFeeSompi plan"
    by (rule plan_parts [OF plan n])
  have "mset (pl_inputs plan) \<subseteq># mset us" using p(2) candidates_mset [of rq maturity] av(1) by (auto intro: subset_mset.order_trans)
  note i = payment_ids [OF ledger ids us' this]
  have fee: "0 \<le> pl_estimatedFeeSompi plan" using p(6) env(3) unfolding fees_nonneg_def by (meson order_trans)
  have change: "0 \<le> changeOf plan" using p(5) by (auto simp: changeOf_def DUST_THRESHOLD_SOMPI_def split: option.splits)
  have "list_all (\<lambda>t. 0 \<le> to_amountSompi t) (pl_outputs plan)" using p(3) av(2) pay a(3) by (simp add: payable_def)
  note settle = settlePayment_total [OF ledger env(1,2) i p(1) this fee change p(4), where inp = inp and pre = pre and fa = fa and ta = ta]
  have "is_ok (buildPaymentPlan sdk rq)" using plan by simp
  then show ?thesis using settle plan us pay unfolding paymentBody_def payable_def Let_def a [symmetric] by (simp add: rq)
qed

text \<open>a payment moves its amount. Whatever the planner selected, an accepted payment lowers the balance of the sender
  by the amount and the fee its receipt records, raises that of the recipient by the amount and leaves every other balance
  as it was, with sender and recipient resolved to the addresses the state records; a payment that is not accepted
  leaves the state as it was. With a digest of 64 hexadecimal characters and fees that are not negative, it is accepted
  exactly when it is payable: the planner covers the amount from the outputs the sender can spend.\<close>

theorem payment_moves_amount:
  assumes ledger: "ledger_ok d st" and acc: "accounts_ok (ls_accounts st)" and ids: "list_all (\<lambda>u. id_canonical (u_id u)) (ls_utxos st)"
    and pay: "applySimulatedPayment sha sdk st inp ctx = Inr r"
  shows "(plain_ctx ctx \<and> (\<forall>x. HEX64 (sha x)) \<and> fees_nonneg sdk \<longrightarrow> (sr_ok r \<longleftrightarrow> payable sdk st inp)) \<and>
    (if sr_ok r then \<exists>fee \<ge> 0. jget (sr_receipt r) ''feeSompi'' = JStr (int_str fee) \<and> 0 < pi_amountSompi inp \<and>
      (\<forall>x. balance (ls_utxos (sr_state r)) x = balance (ls_utxos st) x +
         (if x = resolveAccountAddressFromState st (pi_to inp) then pi_amountSompi inp else 0) -
         (if x = resolveAccountAddressFromState st (pi_from inp) then pi_amountSompi inp + fee else 0))
    else sr_state r = st \<and> jget (sr_receipt r) ''status'' = JStr ''failed'')"
  using pay
proof (cases rule: applySimulatedPayment_cases)
  case (ok pre)
  define fa ta amt where a: "fa = resolveAccountAddressFromState st (pi_from inp)" "ta = resolveAccountAddressFromState st (pi_to inp)"
    "amt = pi_amountSompi inp"
  from ok(1) obtain us plan errs rq where pos: "amt > 0" and us: "mapE availableUtxo (getSpendableUtxos st fa) = Inr us"
    and rq: "rq = paymentRequest fa ta amt us (case pi_feeRateSompiPerMass inp of None \<Rightarrow> 1 | Some r \<Rightarrow> r)"
    and plan: "buildPaymentPlan sdk rq = Inr plan" and settle: "settlePayment sha st inp ctx pre fa ta plan errs = Inr r"
    unfolding a by (elim paymentBody_Inr) blast
  have "resolveMatchAddress st fa = fa" unfolding a by (rule resolveMatch_resolved [OF acc resolve_idem [OF acc]])
  then have us': "mapE availableUtxo (unspentAt (ls_utxos st) fa) = Inr us" using us by (simp add: getSpendableUtxos_def)
  have "rq_availableUtxos rq = us" by (simp add: rq paymentRequest_def)
  note ins = payment_inputs [OF ledger ids us' plan this]
  from settle obtain artifact txId new post receipt where d: "distinct (map (\<lambda>i. outpointId (ux_outpoint i)) (pl_inputs plan))"
    and c: "checkInputs st (map (\<lambda>i. outpointId (ux_outpoint i)) (pl_inputs plan)) = Inr ()"
    and art: "createTxPlanArtifact sha (paymentArtifactOptions st inp fa ta plan ctx) = Inr artifact"
    and new: "new = paymentOutputs txId fa ta amt plan (int_str (d + 1))"
    and rc: "createSimulatedTxReceipt sha artifact txId ctx (executionExtra (map (\<lambda>i. outpointId (ux_outpoint i)) (pl_inputs plan)) new (int_str (d + 1)) pre post st noReceiptExtra) = Inr receipt"
    and r: "sr_state r = nextState st (int_str (d + 1)) (map (\<lambda>i. outpointId (ux_outpoint i)) (pl_inputs plan)) new" "sr_receipt r = receipt"
    by (elim settlePayment_Inr) (use ledger a(3) in \<open>auto simp: ledger_ok_def\<close>)
  obtain fee where fee: "0 \<le> fee" "jget receipt ''feeSompi'' = JStr (int_str fee)" "pl_estimatedFeeSompi plan = fee"
    using receipt_fee [OF rc] planArtifact_fee [OF art] by (auto simp: paymentArtifactOptions_def)
  have total: "inputsTotal (pl_inputs plan) = amt + changeOf plan + fee" using ins(2) fee(3) rq by (simp add: paymentRequest_def outputsTotal_eq)
  have created: "value_at P new = (if P ta then amt else 0) + (if P fa then changeOf plan else 0)" for P
    by (simp add: new paymentOutputs_def value_at_def changeOf_def split: option.splits)
  have "value_at P (ls_utxos (sr_state r)) = value_at P (ls_utxos st) + (if P ta then amt else 0) - (if P fa then amt + fee else 0)" for P
  proof -
    have "value_at P (ls_utxos st) = value_at P (spendUtxos (map (\<lambda>i. outpointId (ux_outpoint i)) (pl_inputs plan)) (int_str (d + 1)) (ls_utxos st)) +
        (if P fa then inputsTotal (pl_inputs plan) else 0)"
      unfolding ins(1) [symmetric] by (rule spend_value) (use ledger d c in \<open>auto simp: ledger_ok_def checkInputs_iff\<close>)
    then show ?thesis using total created [of P] by (simp add: r nextState_def)
  qed
  moreover have "payable sdk st inp"
    using ok(1) by (auto simp: payable_def paymentPlan_def paymentBody_def Let_def split: if_splits)
  ultimately show ?thesis using fee(1,2) pos r(2) ok(2) unfolding balance_value a by auto
next
  case (failed pre m)
  have "\<not> payable sdk st inp" if env: "plain_ctx ctx \<and> (\<forall>x. HEX64 (sha x)) \<and> fees_nonneg sdk"
  proof
    assume "payable sdk st inp"
    then have "is_ok (paymentBody sha sdk st inp ctx pre)" for pre using payment_accepted [OF ledger acc ids] env by blast
    then have "sr_ok (caught sha st pre (paymentBody sha sdk st inp ctx pre))" for pre
      using paymentBody_ok [of sha sdk st inp ctx pre] unfolding caught_def by (metis is_ok_iff old.sum.simps(6))
    then have "sr_ok r" using pay by (auto simp: applySimulatedPayment_def)
    then show False using failed by simp
  qed
  then show ?thesis using failed by auto
qed

definition ex_hash :: "string \<Rightarrow> string" where
  "ex_hash s = replicate 64 (CHR ''a'')"

definition ex_payment :: SimulatedPaymentInput where
  "ex_payment = \<lparr>pi_from = ''alice'', pi_to = ''bob'', pi_amountSompi = 2000, pi_feeRateSompiPerMass = None\<rparr>"

lemma ex_payment_facts: "payable (Inr ex_sdk) ex_state ex_payment" "list_all (\<lambda>u. id_canonical (u_id u)) (ls_utxos ex_state)" "plain_ctx ex_ctx" "HEX64 (ex_hash x)"
proof -
  show "payable (Inr ex_sdk) ex_state ex_payment" by code_simp
  have "map u_id (ls_utxos ex_state) = [''genesis-alice'' @ '':'' @ nat_str 0, ''genesis-bob'' @ '':'' @ nat_str 0]" by code_simp
  then have "list_all id_canonical (map u_id (ls_utxos ex_state))"
    using id_canonicalI [of 0 "''genesis-alice''"] id_canonicalI [of 0 "''genesis-bob''"] by (simp add: MAX_SAFE_INTEGER_def)
  then show "list_all (\<lambda>u. id_canonical (u_id u)) (ls_utxos ex_state)" by (simp add: list_all_iff)
  show "plain_ctx ex_ctx" by code_simp
  have "HEX64 (replicate 64 (CHR ''a''))" by code_simp
  then show "HEX64 (ex_hash x)" by (simp add: ex_hash_def)
qed

theorem payment_moves_amount_witness:
  "\<exists>r fee. applySimulatedPayment ex_hash (Inr ex_sdk) ex_state ex_payment ex_ctx = Inr r \<and> sr_ok r \<and>
     balance (ls_utxos (sr_state r)) (resolveAccountAddressFromState ex_state ''bob'') =
       balance (ls_utxos ex_state) (resolveAccountAddressFromState ex_state ''bob'') + 2000 \<and>
     balance (ls_utxos (sr_state r)) (resolveAccountAddressFromState ex_state ''alice'') =
       balance (ls_utxos ex_state) (resolveAccountAddressFromState ex_state ''alice'') - 2000 - fee"
proof -
  obtain r where r: "applySimulatedPayment ex_hash (Inr ex_sdk) ex_state ex_payment ex_ctx = Inr r"
    using calculateStateHash_ok [of ex_hash ex_state] by (auto simp: applySimulatedPayment_def)
  have "resolveAccountAddressFromState ex_state ''bob'' \<noteq> resolveAccountAddressFromState ex_state ''alice''" by code_simp
  then show ?thesis
    using payment_moves_amount [OF ex_state_ok ex_payment_facts(2) r] r ex_payment_facts(1,3,4) ex_sdk_fees
    by (auto simp: ex_payment_def split: if_splits)
qed

subsection \<open>What executions do not check\<close>

text \<open>Unlike \<open>applySimulatedPayment\<close>, \<open>applySimulatedPlan\<close> does not reject a plan that lists an input twice: the
  fee is derived from the sum of the listed amounts, and the ledger gains value.\<close>

definition ex_twice :: json where
  "ex_twice = (let i = JObj [(''outpoint'', JObj [(''transactionId'', JStr ''genesis-alice''), (''index'', JNum 0)]), (''amountSompi'', JStr ''5000'')] in
     JObj [(''contentHash'', JStr (replicate 64 (CHR ''a''))), (''from'', JObj [(''address'', JStr ''alice'')]), (''to'', JObj [(''address'', JStr ''bob'')]),
       (''estimatedFeeSompi'', JStr ''500''), (''inputs'', JArr [i, i]),
       (''outputs'', JArr [JObj [(''address'', JStr ''bob''), (''amountSompi'', JStr ''9500'')]])])"

lemma duplicate_input_creates_value:
  "\<exists>r. applySimulatedPlan ex_sha ex_state ex_twice ex_ctx noPlanOptions = Inr r \<and> sr_ok r \<and> total_value (sr_state r) = total_value ex_state + 4500"
proof -
  have "''9500'' = int_str 9500" by code_simp
  from amount_fieldI [OF _ this] have "plan_amounts ex_twice" by (simp add: plan_amounts_def ex_twice_def arrayOr_def Let_def)
  moreover have "case deriveSimulatedFee ex_twice of Inr (Inr fee) \<Rightarrow> json_bigE (jget ex_twice ''estimatedFeeSompi'') = Inr fee | _ \<Rightarrow> False"
    "plain_json ex_twice" "is_jarr (jget ex_twice ''inputs'')" "is_jarr (jget ex_twice ''outputs'')" "\<not> truthy (jget ex_twice ''change'')"
    "has_address (jget ex_twice ''from'')" "has_address (jget ex_twice ''to'')" "list_all has_address (arrayOr (jget ex_twice ''outputs''))" by code_simp+
  ultimately have ex: "executable_plan ex_twice" by (simp add: executable_plan_def)
  have sp: "plan_spends ex_twice [''genesis-alice:0'', ''genesis-alice:0'']" "checkInputs ex_state [''genesis-alice:0'', ''genesis-alice:0''] = Inr ()" by code_simp+
  have tx: "planTxId ex_sha ex_twice noPlanOptions = Inr ex_txId" by code_simp
  obtain r where r: "applySimulatedPlan ex_sha ex_state ex_twice ex_ctx noPlanOptions = Inr r" "sr_ok r"
    using plan_executed [OF ex_state_ok(1) ex ex_plan_facts(1) sp(1) tx sp(2)] by blast
  from r(1) show ?thesis
  proof (cases rule: applySimulatedPlan_cases)
    case (ok hv pre)
    from planBody_step [OF ok(1) sp(1) ex_state_ok(1)] tx obtain new where
      new: "createdUtxos ex_state ex_twice ex_txId (int_str (0 + 1)) = Inr new"
      and st: "sr_state r = nextState ex_state (int_str (0 + 1)) [''genesis-alice:0'', ''genesis-alice:0''] new"
      by (metis sum.inject(2) SimulationResult.select_convs(2))
    have "case createdUtxos ex_state ex_twice ex_txId (int_str (0 + 1)) of Inr new \<Rightarrow>
      total_value (nextState ex_state (int_str (0 + 1)) [''genesis-alice:0'', ''genesis-alice:0''] new) = total_value ex_state + 4500 | Inl e \<Rightarrow> False"
      by code_simp
    then show ?thesis using new st r by simp
  qed (use r in simp)
qed

end
