(* ===== verification/HK_RecoveryProps.thy ===== *)
theory HK_RecoveryProps
  imports HK_Recovery HK_TransactionsProps
begin

text \<open>
  Properties of durable execution: undoing a transition gives back the state it was applied to, and recovery, however
  often it is interrupted, ends in the disk the uninterrupted commit would have left.
\<close>

subsection \<open>Undoing a transition\<close>

lemma outputUtxos_prefix:
  "outputUtxos st t n k xs = Inr us \<Longrightarrow> u \<in> set us \<Longrightarrow> starts_with (u_id u) (t @ '':'')"
  by (induction xs arbitrary: k us) (auto simp: outputUtxo_def starts_with_iff)

lemma createdUtxos_prefix:
  assumes "createdUtxos st plan t n = Inr new" "u \<in> set new"
  shows "starts_with (u_id u) (t @ '':'')"
proof -
  obtain os us where us: "outputUtxos st t n 0 os = Inr us"
    and new: "(if truthy (jget plan ''change'') then bindE (outputUtxo st t n (length os) (jget plan ''change'')) (\<lambda>c. Inr (us @ [c])) else Inr us) = Inr new"
    using assms(1) by (auto simp: createdUtxos_def)
  have "u \<in> set us \<or> outputUtxo st t n (length os) (jget plan ''change'') = Inr u" using new assms(2) by (auto split: if_splits)
  then show ?thesis using outputUtxos_prefix [OF us] by (auto simp: outputUtxo_def starts_with_iff)
qed

definition no_outputs_of :: "string \<Rightarrow> LocalnetState \<Rightarrow> bool" where
  "no_outputs_of txId st \<longleftrightarrow> list_all (\<lambda>u. \<not> starts_with (u_id u) (txId @ '':'')) (ls_utxos st)"

lemma undo_spend:
  assumes "utxo_ok d u" "i \<Longrightarrow> \<not> u_spent u"
  shows "undoSpent (int_str (d + 1)) (if i then u\<lparr>u_spent := True, u_spentAtDaaScore := Some (int_str (d + 1))\<rparr> else u) = u"
proof (cases i)
  case True
  then have "\<not> u_spent u" "u_spentAtDaaScore u = None" using assms by (auto simp: utxo_ok_def split: option.splits)
  then show ?thesis using True by (simp add: undoSpent_def)
next
  case False
  have "u_spentAtDaaScore u \<noteq> Some (int_str (d + 1))" using assms(1) by (auto simp: utxo_ok_def split: option.splits)
  then show ?thesis using False by (simp add: undoSpent_def)
qed

lemma invert_nextState:
  assumes ok: "ledger_ok d st" and "ls_pendingExecution st = None" and ins: "checkInputs st ids = Inr ()"
    and old: "no_outputs_of t st" and new: "\<And>u. u \<in> set new \<Longrightarrow> starts_with (u_id u) (t @ '':'')"
  shows "invertSimulatedTransition (nextState st (int_str (d + 1)) ids new) t = Inr st"
proof -
  let ?keep = "\<lambda>u. \<not> starts_with (u_id u) (t @ '':'')"
  have "filter ?keep (spendUtxos ids (int_str (d + 1)) (ls_utxos st)) = spendUtxos ids (int_str (d + 1)) (ls_utxos st)"
    using old by (auto simp: filter_id_conv spendUtxos_def no_outputs_of_def list_all_iff)
  moreover have "filter ?keep new = []" using new by (auto simp: filter_empty_conv)
  moreover have "map (undoSpent (int_str (d + 1))) (spendUtxos ids (int_str (d + 1)) (ls_utxos st)) = ls_utxos st"
    unfolding spendUtxos_def map_map
  proof (rule map_idI)
    fix u
    assume u: "u \<in> set (ls_utxos st)"
    have "utxo_ok d u" using ok u by (simp add: ledger_ok_def)
    moreover have "\<not> u_spent u" if "u_id u \<in> set ids"
      using ins that find_id [of "ls_utxos st" u] ok u unfolding checkInputs_iff ledger_ok_def by fastforce
    ultimately show "(undoSpent (int_str (d + 1)) \<circ> (\<lambda>u. if u_id u \<in> set ids then u\<lparr>u_spent := True, u_spentAtDaaScore := Some (int_str (d + 1))\<rparr> else u)) u = u"
      using undo_spend [of d u "u_id u \<in> set ids"] by simp
  qed
  ultimately show ?thesis using ok assms(2) by (simp add: invertSimulatedTransition_def nextState_def withoutPending_def ledger_ok_def)
qed

lemma execution_step:
  assumes "applySimulatedPlan sha st plan ctx o' = Inr r" "sr_ok r" "ledger_ok d st"
  obtains ids txId new pre post where "planTxId sha plan o' = Inr txId" "checkInputs st ids = Inr ()"
    "createdUtxos st plan txId (int_str (d + 1)) = Inr new" "sr_state r = nextState st (int_str (d + 1)) ids new"
    "createSimulatedTxReceipt sha plan txId ctx (executionExtra ids new (int_str (d + 1)) pre post st (planReceiptExtra o')) = Inr (sr_receipt r)"
    "calculateStateHash sha st (if po_digestHashVersion o' = JUndefined then currentVersion else po_digestHashVersion o') = Inr pre"
    "calculateStateHash sha (sr_state r) (if po_digestHashVersion o' = JUndefined then currentVersion else po_digestHashVersion o') = Inr post"
  using assms(1)
proof (cases rule: applySimulatedPlan_cases)
  case (ok hv pre)
  from ok(1) show thesis
  proof (rule planBody_Inr)
    fix inputs ids daa txId new post receipt
    assume p: "checkInputs st ids = Inr ()" "bigE (ls_daaScore st) = Inr daa" "planTxId sha plan o' = Inr txId"
      "createdUtxos st plan txId (int_str (daa + 1)) = Inr new"
      "calculateStateHash sha (nextState st (int_str (daa + 1)) ids new) hv = Inr post"
      "createSimulatedTxReceipt sha plan txId ctx (executionExtra ids new (int_str (daa + 1)) pre post st (planReceiptExtra o')) = Inr receipt"
      "r = \<lparr>sr_ok = True, sr_state = nextState st (int_str (daa + 1)) ids new, sr_receipt = receipt, sr_planArtifact = plan, sr_errors = []\<rparr>"
    have "daa = d" using p(2) assms(3) by (simp add: ledger_ok_def)
    then show thesis using that [OF p(3,1)] p ok(3,4) by simp
  qed
qed (use assms(2) in simp)

text \<open>a transition can be undone. From the state an execution left and its transaction id alone,
  \<open>invertSimulatedTransition\<close> gives back exactly the state the execution started from.\<close>

theorem execution_inverts:
  assumes "ledger_ok d st" "ls_pendingExecution st = None" "planTxId sha plan o' = Inr txId" "no_outputs_of txId st"
    and r: "applySimulatedPlan sha st plan ctx o' = Inr r" "sr_ok r"
  shows "invertSimulatedTransition (sr_state r) txId = Inr st"
  using r assms(1)
proof (rule execution_step)
  fix ids txId' new
  assume s: "planTxId sha plan o' = Inr txId'" "checkInputs st ids = Inr ()" "createdUtxos st plan txId' (int_str (d + 1)) = Inr new"
    "sr_state r = nextState st (int_str (d + 1)) ids new"
  have "txId' = txId" using s(1) assms(3) by simp
  then show ?thesis using invert_nextState [OF assms(1,2) s(2) assms(4)] createdUtxos_prefix [OF s(3)] s(4) by simp
qed

theorem execution_inverts_witness:
  "\<exists>r. applySimulatedPlan ex_sha ex_state ex_plan ex_ctx noPlanOptions = Inr r \<and> sr_ok r \<and> invertSimulatedTransition (sr_state r) ex_txId = Inr ex_state"
proof -
  obtain r where r: "applySimulatedPlan ex_sha ex_state ex_plan ex_ctx noPlanOptions = Inr r" "sr_ok r" using ex_plan_executed by blast
  have "ls_pendingExecution ex_state = None" by code_simp
  moreover have "no_outputs_of ex_txId ex_state" using ex_plan_facts(4) by (simp add: tx_fresh_def no_outputs_of_def)
  ultimately show ?thesis using execution_inverts [OF ex_state_ok(1) _ ex_plan_facts(3) _ r] r by blast
qed

subsection \<open>Rebuilding the evidence\<close>

lemma sealWith_hash: "jget (sealWith h (JObj es)) ''contentHash'' = JStr h"
  by (simp add: sealWith_def Let_def jset_def)

lemma receipt_identity:
  assumes "createSimulatedTxReceipt sha plan txId ctx e = Inr receipt"
  shows "\<exists>h. jget receipt ''contentHash'' = JStr h" "jget receipt ''schema'' = JStr schemaTxReceipt"
proof -
  obtain derived where derived: "deriveSimulatedFee plan = Inr derived" using assms by (auto simp: createSimulatedTxReceipt_def)
  then obtain fee fa ta h where r: "receipt = sealWith h (JObj (receiptDraft plan txId ctx e fa ta fee))"
    using assms by (cases derived) (auto simp: createSimulatedTxReceipt_def Let_def split: if_splits)
  show "\<exists>h. jget receipt ''contentHash'' = JStr h" using r sealWith_hash by blast
  show "jget receipt ''schema'' = JStr schemaTxReceipt" using r by (simp add: sealWith_def Let_def jset_def receiptDraft_def)
qed

lemma snapshot_identity:
  assumes "buildStateSnapshotArtifact sha st now = Inr s"
  shows "\<exists>h. jget s ''contentHash'' = JStr h" "jget s ''schema'' = JStr ''hardkas.snapshot.v1''"
  using assms by (auto simp: buildStateSnapshotArtifact_def Let_def)

lemma trace_identity:
  assumes "buildSimulatedTrace h receipt a b p = Inr t"
  shows "\<exists>c. jget t ''contentHash'' = JStr c"
  using assms by (auto simp: buildSimulatedTrace_def Let_def sealWith_def jset_def)

lemma JStr_text_of: "\<exists>s. j = JStr s \<Longrightarrow> JStr (text_of j) = j"
  by (auto simp: text_of_def)

lemma evidence_parts:
  assumes "buildSimulatedExecutionEvidence h post receipt root clock = Inr ev"
  obtains sE rE tE where "buildStateSnapshotArtifact (h_sha h) (withoutPending post) (clk_snapshotCreatedAt clock) = Inr (ev_stateSnapshot ev)"
    "storeEntryFor h (ev_stateSnapshot ev) = Inr sE" "storeEntryFor h receipt = Inr rE" "ev_receipt ev = receipt"
    "buildSimulatedTrace h receipt (clk_traceStartedAtMs clock) (clk_traceCompletedAtMs clock) (h_artifactPath h root (se_rel rE)) = Inr (ev_trace ev)"
    "traceFileFor (ev_trace ev) = Inr tE"
    "ev_files ev = [evidenceFile EvStateSnapshot sE (ev_stateSnapshot ev), evidenceFile EvReceipt rE receipt, evidenceFile EvTrace tE (ev_trace ev)]"
  using assms by (auto simp: buildSimulatedExecutionEvidence_def Let_def)

lemma execution_parts:
  assumes "applySimulatedExecution h st plan executed txId root clock = Inr (Inr (post, receipt))"
  obtains tracePath sim where "getTracePath h txId root = Inr tracePath" "sr_ok sim" "sr_state sim = post" "sr_receipt sim = receipt"
    "applySimulatedPlan (h_sha h) (withoutPending st) plan (systemContext (h_iso h (h_parse h (clk_receiptCreatedAt clock)))) (executionOptions executed txId tracePath clock) = Inr sim"
  using assms by (auto simp: applySimulatedExecution_def split: if_splits)

text \<open>From the committed state, the record and the material of the store, recovery rebuilds the evidence that was committed.\<close>

lemma rebuild_committed:
  assumes ok: "ledger_ok d st" and pend: "ls_pendingExecution st = None" and tx: "txId \<noteq> []" "no_outputs_of txId st"
    and exec: "applySimulatedExecution h st plan executed txId root clock = Inr (Inr (post, receipt))"
    and ev: "buildSimulatedExecutionEvidence h post receipt root clock = Inr ev"
    and rec': "rec' = executionRecord receipt ev executedId root clock"
    and mat: "loadRecoveryMaterial h resolve rec' = Inr (executed, plan)"
  shows "rebuildEvidence h resolve post rec' = Inr ev" and "ls_pendingExecution post = None" and "jget receipt ''schema'' = JStr schemaTxReceipt"
proof -
  have wp: "withoutPending st = st" using pend by (simp add: withoutPending_def)
  from exec obtain tracePath sim where sim: "sr_ok sim" "sr_state sim = post" "sr_receipt sim = receipt"
    "applySimulatedPlan (h_sha h) st plan (systemContext (h_iso h (h_parse h (clk_receiptCreatedAt clock)))) (executionOptions executed txId tracePath clock) = Inr sim"
    by (rule execution_parts) (use wp in auto)
  have o: "po_digestHashVersion (executionOptions executed txId tracePath clock) = JUndefined"
    "planTxId (h_sha h) plan (executionOptions executed txId tracePath clock) = Inr txId"
    using tx(1) by (simp_all add: executionOptions_def planTxId_def Let_def)
  from sim(4,1) ok obtain ids new pre posth e where s: "checkInputs st ids = Inr ()" "createdUtxos st plan txId (int_str (d + 1)) = Inr new"
    "post = nextState st (int_str (d + 1)) ids new"
    and rc: "createSimulatedTxReceipt (h_sha h) plan txId (systemContext (h_iso h (h_parse h (clk_receiptCreatedAt clock)))) e = Inr receipt"
    and e: "re_preStateHash e = JStr pre" "re_postStateHash e = JStr posth"
    and hashes: "calculateStateHash (h_sha h) st currentVersion = Inr pre" "calculateStateHash (h_sha h) post currentVersion = Inr posth"
    by (rule execution_step) (use o sim in auto)
  have inv: "invertSimulatedTransition post txId = Inr st"
    using invert_nextState [OF ok pend s(1) tx(2)] createdUtxos_prefix [OF s(2)] s(3) by simp
  have fields: "pe_txId rec' = txId" "pe_preStateHash rec' = pre" "pe_postStateHash rec' = posth" "pe_workspaceRoot rec' = root" "pe_clock rec' = clock"
    using receipt_status [OF rc] e by (simp_all add: rec' executionRecord_def text_of_def)
  from ev obtain sE where "buildStateSnapshotArtifact (h_sha h) (withoutPending post) (clk_snapshotCreatedAt clock) = Inr (ev_stateSnapshot ev)"
    and er: "ev_receipt ev = receipt" and tr: "\<exists>p. buildSimulatedTrace h receipt (clk_traceStartedAtMs clock) (clk_traceCompletedAtMs clock) p = Inr (ev_trace ev)"
    by (rule evidence_parts) blast
  then have "\<not> divergedFrom h rec' posth ev"
    using fields(3) receipt_identity(1) [OF rc] snapshot_identity(1) trace_identity JStr_text_of
    by (auto simp: divergedFrom_def rec' executionRecord_def)
  then show "rebuildEvidence h resolve post rec' = Inr ev"
    using fields hashes inv mat exec ev by (simp add: rebuildEvidence_def)
  show "ls_pendingExecution post = None" using pend s(3) by (simp add: nextState_def)
  show "jget receipt ''schema'' = JStr schemaTxReceipt" by (rule receipt_identity(2) [OF rc])
qed

subsection \<open>Writes of the evidence\<close>

lemma js_includes_dirs: "storeSubDir (JStr ''hardkas.snapshot.v1'') = ''misc''" "storeSubDir (JStr schemaTxReceipt) = ''receipts''"
  by code_simp+

lemma storeEntry_rel: "storeEntryFor h j = Inr e \<Longrightarrow> \<exists>f. se_rel e = storeSubDir (jget j ''schema'') @ ''/'' @ f"
  by (auto simp: storeEntryFor_def Let_def split: if_splits)

lemma trace_rel: "traceFileFor t = Inr e \<Longrightarrow> CHR ''/'' \<notin> set (se_rel e)"
  by (auto simp: traceFileFor_def validateTxId_def split: if_splits)

lemma evidence_rels:
  assumes "buildSimulatedExecutionEvidence h post receipt root clock = Inr ev" "jget receipt ''schema'' = JStr schemaTxReceipt"
  shows "distinct (map ef_rel (ev_files ev))"
  using assms(1)
proof (rule evidence_parts)
  fix sE rE tE
  assume p: "buildStateSnapshotArtifact (h_sha h) (withoutPending post) (clk_snapshotCreatedAt clock) = Inr (ev_stateSnapshot ev)"
    "storeEntryFor h (ev_stateSnapshot ev) = Inr sE" "storeEntryFor h receipt = Inr rE" "traceFileFor (ev_trace ev) = Inr tE"
    "ev_files ev = [evidenceFile EvStateSnapshot sE (ev_stateSnapshot ev), evidenceFile EvReceipt rE receipt, evidenceFile EvTrace tE (ev_trace ev)]"
  obtain f g where fg: "se_rel sE = ''misc'' @ ''/'' @ f" "se_rel rE = ''receipts'' @ ''/'' @ g"
    using storeEntry_rel [OF p(2)] storeEntry_rel [OF p(3)] snapshot_identity(2) [OF p(1)] assms(2) js_includes_dirs by auto
  then have "se_rel sE \<noteq> se_rel rE" "CHR ''/'' \<in> set (se_rel sE)" "CHR ''/'' \<in> set (se_rel rE)" by simp_all
  then have "se_rel sE \<noteq> se_rel rE" "se_rel sE \<noteq> se_rel tE" "se_rel rE \<noteq> se_rel tE" using trace_rel [OF p(4)] by metis+
  then show ?thesis using p(5) by (simp add: evidenceFile_def)
qed

text \<open>The files of the store once all the evidence is in it.\<close>

definition published :: "SimulatedExecutionEvidence \<Rightarrow> (string \<rightharpoonup> string) \<Rightarrow> string \<rightharpoonup> string" where
  "published ev files = files ++ map_of (map (\<lambda>f. (ef_rel f, ef_content f)) (ev_files ev))"

lemma published_file:
  assumes "distinct (map ef_rel (ev_files ev))" "f \<in> set (ev_files ev)"
  shows "published ev files (ef_rel f) = Some (ef_content f)"
  using assms by (simp add: published_def o_def distinct_map map_of_eq_Some_iff)

lemma published_other: "rel \<notin> ef_rel ` set (ev_files ev) \<Longrightarrow> published ev files rel = files rel"
  by (simp add: published_def map_add_dom_app_simps(3) dom_map_of_conv_image_fst image_image)

text \<open>A disk on which some of the evidence has been published since the execution began.\<close>

definition partly_published :: "SimulatedExecutionEvidence \<Rightarrow> (string \<rightharpoonup> string) \<Rightarrow> Disk \<Rightarrow> bool" where
  "partly_published ev files d \<longleftrightarrow> (\<forall>rel. dk_files d rel = files rel \<or> dk_files d rel = published ev files rel)"

definition unclashed :: "SimulatedExecutionEvidence \<Rightarrow> (string \<rightharpoonup> string) \<Rightarrow> bool" where
  "unclashed ev files \<longleftrightarrow> (\<forall>f \<in> set (ev_files ev). files (ef_rel f) = None \<or> files (ef_rel f) = Some (ef_content f))"

lemma clashes_iff: "clashes h d f \<longleftrightarrow> dk_files d (ef_rel f) \<noteq> None \<and> dk_files d (ef_rel f) \<noteq> Some (ef_content f)"
  by (auto simp: clashes_def inspect_def split: option.splits sum.splits)

lemma missing_iff: "inspect h d f = Missing \<longleftrightarrow> dk_files d (ef_rel f) = None"
  by (auto simp: inspect_def split: option.splits sum.splits)

lemma run_file_writes:
  assumes "\<forall>w \<in> set ws. \<exists>f \<in> set (ev_files ev). w = WriteFile (ef_rel f) (ef_content f)"
    and "distinct (map ef_rel (ev_files ev))" "partly_published ev files d"
  shows "partly_published ev files (runWrites ws d)" "dk_ledger (runWrites ws d) = dk_ledger d"
proof -
  have "partly_published ev files (runWrites ws d) \<and> dk_ledger (runWrites ws d) = dk_ledger d"
    using assms(1,3)
  proof (induction ws arbitrary: d)
    case (Cons w ws)
    then obtain f where f: "f \<in> set (ev_files ev)" "w = WriteFile (ef_rel f) (ef_content f)" by auto
    then have "partly_published ev files (applyWrite w d)"
      using Cons.prems(2) published_file [OF assms(2) f(1)] by (auto simp: partly_published_def)
    then show ?case using Cons.IH [of "applyWrite w d"] Cons.prems(1) f(2) by (simp add: runWrites_def)
  qed (simp add: runWrites_def)
  then show "partly_published ev files (runWrites ws d)" "dk_ledger (runWrites ws d) = dk_ledger d" by simp_all
qed

lemma run_file_writes_done:
  "rel \<in> ef_rel ` set fs \<Longrightarrow> distinct (map ef_rel fs) \<Longrightarrow>
   dk_files (runWrites (map (\<lambda>f. WriteFile (ef_rel f) (ef_content f)) fs) d) rel = map_of (map (\<lambda>f. (ef_rel f, ef_content f)) fs) rel"
  "rel \<notin> ef_rel ` set fs \<Longrightarrow> dk_files (runWrites (map (\<lambda>f. WriteFile (ef_rel f) (ef_content f)) fs) d) rel = dk_files d rel"
proof -
  show other: "rel \<notin> ef_rel ` set fs \<Longrightarrow> dk_files (runWrites (map (\<lambda>f. WriteFile (ef_rel f) (ef_content f)) fs) d) rel = dk_files d rel" for fs d
    by (induction fs arbitrary: d) (auto simp: runWrites_def)
  show "rel \<in> ef_rel ` set fs \<Longrightarrow> distinct (map ef_rel fs) \<Longrightarrow>
    dk_files (runWrites (map (\<lambda>f. WriteFile (ef_rel f) (ef_content f)) fs) d) rel = map_of (map (\<lambda>f. (ef_rel f, ef_content f)) fs) rel"
  proof (induction fs arbitrary: d)
    case (Cons f fs)
    show ?case
    proof (cases "rel = ef_rel f")
      case True
      then show ?thesis using other [of fs "applyWrite (WriteFile (ef_rel f) (ef_content f)) d"] Cons.prems(2) by (simp add: runWrites_def)
    qed (use Cons in \<open>simp add: runWrites_def\<close>)
  qed simp
qed

lemma publish_partly:
  assumes dist: "distinct (map ef_rel (ev_files ev))" and un: "unclashed ev files" and part: "partly_published ev files d"
  obtains found ws where "publishEvidence h d ev = Inr (found, ws)" "\<forall>w \<in> set ws. \<exists>f \<in> set (ev_files ev). w = WriteFile (ef_rel f) (ef_content f)"
    "dk_files (runWrites ws d) = published ev files"
proof -
  let ?m = "filter (\<lambda>f. inspect h d f = Missing) (ev_files ev)"
  let ?ws = "map (\<lambda>f. WriteFile (ef_rel f) (ef_content f)) ?m"
  have fl: "dk_files d (ef_rel f) = None \<or> dk_files d (ef_rel f) = Some (ef_content f)" if "f \<in> set (ev_files ev)" for f
    using part un that published_file [OF dist that, of files] unfolding partly_published_def unclashed_def by metis
  then have "\<not> list_ex (clashes h d) (ev_files ev)" by (auto simp: list_ex_iff clashes_iff)
  then have "publishEvidence h d ev = Inr (map (\<lambda>f. (ef_kind f, inspect h d f)) (ev_files ev), ?ws)" by (simp add: publishEvidence_def)
  moreover have "dk_files (runWrites ?ws d) rel = published ev files rel" for rel
  proof (cases "rel \<in> ef_rel ` set ?m")
    case True
    then obtain f where f: "f \<in> set ?m" "rel = ef_rel f" by blast
    have dm: "distinct (map ef_rel ?m)" using dist by (simp add: distinct_map_filter)
    have "map_of (map (\<lambda>f. (ef_rel f, ef_content f)) ?m) rel = Some (ef_content f)" using dm f by (simp add: map_of_eq_Some_iff o_def image_iff) blast
    then show ?thesis using run_file_writes_done(1) [OF True dm] published_file [OF dist] f by simp
  next
    case False
    then have same: "dk_files (runWrites ?ws d) rel = dk_files d rel" by (rule run_file_writes_done(2))
    show ?thesis
    proof (cases "rel \<in> ef_rel ` set (ev_files ev)")
      case True
      then obtain f where f: "f \<in> set (ev_files ev)" "rel = ef_rel f" by blast
      then have "dk_files d rel \<noteq> None" using False by (auto simp: missing_iff)
      then show ?thesis using same fl [OF f(1)] published_file [OF dist f(1)] f(2) by auto
    next
      case False
      then show ?thesis using same part published_other [OF False] unfolding partly_published_def by metis
    qed
  qed
  ultimately show thesis using that by fastforce
qed

lemma runWrites_append: "runWrites (xs @ ys) d = runWrites ys (runWrites xs d)"
  by (simp add: runWrites_def)

lemma runWrites_simps [simp]: "runWrites [] d = d" "runWrites (w # ws) d = runWrites ws (applyWrite w d)"
  by (simp_all add: runWrites_def)

text \<open>The disks between the commit and the end of the recovery.\<close>

definition settling :: "LocalnetState \<Rightarrow> PendingExecutionRecord \<Rightarrow> SimulatedExecutionEvidence \<Rightarrow> (string \<rightharpoonup> string) \<Rightarrow> Disk \<Rightarrow> bool" where
  "settling post rec' ev files d \<longleftrightarrow> partly_published ev files d \<and>
     (dk_ledger d = Some (post\<lparr>ls_pendingExecution := Some rec'\<rparr>) \<or> dk_ledger d = Some post \<and> dk_files d = published ev files)"

text \<open>Publishing the evidence and then clearing the record, from any such disk and interrupted anywhere.\<close>

lemma publish_and_clear:
  assumes dist: "distinct (map ef_rel (ev_files ev))" and un: "unclashed ev files"
    and d: "partly_published ev files d" "dk_ledger d = Some (post\<lparr>ls_pendingExecution := Some rec'\<rparr>)"
  obtains found ws where "publishEvidence h d ev = Inr (found, ws)"
    "runWrites (ws @ [WriteLedger post]) d = d\<lparr>dk_ledger := Some post, dk_files := published ev files\<rparr>"
    "\<forall>k. settling post rec' ev files (runWrites (take k (ws @ [WriteLedger post])) d)"
proof -
  obtain found ws where p: "publishEvidence h d ev = Inr (found, ws)"
    "\<forall>w \<in> set ws. \<exists>f \<in> set (ev_files ev). w = WriteFile (ef_rel f) (ef_content f)" "dk_files (runWrites ws d) = published ev files"
    by (rule publish_partly [OF dist un d(1)])
  have fin: "runWrites (ws @ [WriteLedger post]) d = d\<lparr>dk_ledger := Some post, dk_files := published ev files\<rparr>"
    using p(3) by (simp add: runWrites_append Disk.equality)
  have "settling post rec' ev files (runWrites (take k (ws @ [WriteLedger post])) d)" for k
  proof (cases "k \<le> length ws")
    case True
    have "\<forall>w \<in> set (take k ws). \<exists>f \<in> set (ev_files ev). w = WriteFile (ef_rel f) (ef_content f)" using p(2) by (auto dest: in_set_takeD)
    from run_file_writes [OF this dist d(1)] show ?thesis using True d(2) by (simp add: settling_def)
  next
    case False
    then have "take k (ws @ [WriteLedger post]) = ws @ [WriteLedger post]" by simp
    then show ?thesis using fin by (simp add: settling_def partly_published_def)
  qed
  then show thesis using that p(1) fin by blast
qed

text \<open>Recoveries that are interrupted, one after the other.\<close>

inductive interrupted :: "Host \<Rightarrow> (string \<Rightarrow> json option) \<Rightarrow> Disk \<Rightarrow> Disk \<Rightarrow> bool" for h resolve where
  interrupted_none: "interrupted h resolve d d"
| interrupted_again: "interrupted h resolve d d' \<Longrightarrow> recoverPendingExecution h resolve d' = Inr (res, ws) \<Longrightarrow>
    interrupted h resolve d (runWrites (take k ws) d')"

lemma recover_settling:
  assumes dist: "distinct (map ef_rel (ev_files ev))" and un: "unclashed ev files"
    and reb: "rebuildEvidence h resolve post rec' = Inr ev" "ls_pendingExecution post = None"
    and rec': "pe_schema rec' = PENDING_EXECUTION_SCHEMA" "pe_format rec' = currentEvidenceFormat"
    and s: "settling post rec' ev files d"
  shows "\<exists>res ws. recoverPendingExecution h resolve d = Inr (res, ws) \<and>
    runWrites ws d = d\<lparr>dk_ledger := Some post, dk_files := published ev files\<rparr> \<and> (\<forall>k. settling post rec' ev files (runWrites (take k ws) d))"
proof (cases "dk_ledger d = Some post \<and> dk_files d = published ev files")
  case True
  then show ?thesis using reb(2) s by (intro exI [of _ NoPending] exI [of _ "[]"]) (simp add: recoverPendingExecution_def)
next
  case False
  then have d: "partly_published ev files d" "dk_ledger d = Some (post\<lparr>ls_pendingExecution := Some rec'\<rparr>)" using s by (auto simp: settling_def)
  have wp: "withoutPending (post\<lparr>ls_pendingExecution := Some rec'\<rparr>) = post" using reb(2) by (simp add: withoutPending_def)
  from publish_and_clear [OF dist un d, of h] obtain found ws where p: "publishEvidence h d ev = Inr (found, ws)"
    "runWrites (ws @ [WriteLedger post]) d = d\<lparr>dk_ledger := Some post, dk_files := published ev files\<rparr>"
    "\<forall>k. settling post rec' ev files (runWrites (take k (ws @ [WriteLedger post])) d)" by metis
  then show ?thesis using d(2) wp reb(1) rec' by (simp add: recoverPendingExecution_def)
qed

text \<open>C4: recovery converges. An execution is applied to a ledger and committed with its evidence; the commit is
  interrupted after any number of its writes, and so is any number of recoveries after it. Then recovery succeeds,
  and once it has run to its end the disk is exactly the one the uninterrupted commit leaves: the state after the
  execution, without the record, and the evidence byte for byte. A commit interrupted before its first write has
  changed nothing, and there is nothing to recover. The one hypothesis on the store is that it still has the
  executed artifact and its plan.\<close>

theorem recovery_converges:
  assumes ok: "ledger_ok d st" and pend: "ls_pendingExecution st = None" and tx: "txId \<noteq> []" "no_outputs_of txId st"
    and exec: "applySimulatedExecution h st plan executed txId root clock = Inr (Inr (post, receipt))"
    and ev: "buildSimulatedExecutionEvidence h post receipt root clock = Inr ev"
    and rec': "rec' = executionRecord receipt ev executedId root clock"
    and mat: "loadRecoveryMaterial h resolve rec' = Inr (executed, plan)"
    and disk: "dk_ledger disk = Some st" and commit: "commitSimulatedExecution h disk post rec' ev = Inr ws"
    and run: "interrupted h resolve (runWrites (take k ws) disk) disk'"
  shows "\<exists>res ws'. recoverPendingExecution h resolve disk' = Inr (res, ws') \<and> runWrites ws' disk' = (if k = 0 then disk else runWrites ws disk) \<and>
    dk_ledger (runWrites ws disk) = Some post"
proof -
  note reb = rebuild_committed [OF ok pend tx exec ev rec' mat]
  note dist = evidence_rels [OF ev reb(3)]
  define disk1 where "disk1 = applyWrite (WriteLedger (post\<lparr>ls_pendingExecution := Some rec'\<rparr>)) disk"
  have un: "unclashed ev (dk_files disk)" using commit
    by (auto simp: commitSimulatedExecution_def unclashed_def list_ex_iff clashes_iff Let_def split: if_splits)
  have d1: "partly_published ev (dk_files disk) disk1" "dk_ledger disk1 = Some (post\<lparr>ls_pendingExecution := Some rec'\<rparr>)"
    by (simp_all add: disk1_def partly_published_def)
  have wp: "withoutPending post = post" using reb(2) by (simp add: withoutPending_def)
  obtain found fs where p: "publishEvidence h disk1 ev = Inr (found, fs)"
    "runWrites (fs @ [WriteLedger post]) disk1 = disk1\<lparr>dk_ledger := Some post, dk_files := published ev (dk_files disk)\<rparr>"
    "\<forall>k. settling post rec' ev (dk_files disk) (runWrites (take k (fs @ [WriteLedger post])) disk1)"
    by (rule publish_and_clear [OF dist un d1, where h = h])
  have ws: "ws = WriteLedger (post\<lparr>ls_pendingExecution := Some rec'\<rparr>) # fs @ [WriteLedger post]"
    using commit p(1) wp by (simp add: commitSimulatedExecution_def Let_def disk1_def split: if_splits)
  have fin: "runWrites ws disk = disk\<lparr>dk_ledger := Some post, dk_files := published ev (dk_files disk)\<rparr>" using p(2) ws by (simp add: disk1_def)
  show ?thesis
  proof (cases k)
    case 0
    have "disk' = disk" using run 0
      by (induction "runWrites (take k ws) disk" disk' rule: interrupted.induct) (use disk pend in \<open>auto simp: recoverPendingExecution_def\<close>)
    then show ?thesis using 0 disk pend fin by (simp add: recoverPendingExecution_def)
  next
    case (Suc n)
    have r: "pe_schema rec' = PENDING_EXECUTION_SCHEMA" "pe_format rec' = currentEvidenceFormat" by (simp_all add: rec' executionRecord_def)
    have "settling post rec' ev (dk_files disk) (runWrites (take k ws) disk)" using p(3) [rule_format, of n] ws Suc by (simp add: disk1_def)
    with run have "settling post rec' ev (dk_files disk) disk'"
    proof (induction "runWrites (take k ws) disk" disk' rule: interrupted.induct)
      case (interrupted_again d' res ws k)
      then show ?case using recover_settling [OF dist un reb(1,2) r] by fastforce
    qed
    from recover_settling [OF dist un reb(1,2) r this] show ?thesis using fin Suc by fastforce
  qed
qed

subsection \<open>An interrupted execution\<close>

definition ex_host :: Host where
  "ex_host = \<lparr>h_sha = ex_hash, h_iso = (\<lambda>ms. ''1970-01-01T00:00:00.000Z''), h_parse = (\<lambda>s. 0), h_artifactPath = (\<lambda>root rel. root @ ''/'' @ rel),
     h_parseJson = (\<lambda>s. Inl ''unread''), h_freshId = ''0''\<rparr>"

definition ex_clock :: ExecutionClock where
  "ex_clock = \<lparr>clk_traceStartedAtMs = 0, clk_submittedAt = ''s'', clk_receiptCreatedAt = ''c'', clk_traceCompletedAtMs = 1, clk_snapshotCreatedAt = ''n''\<rparr>"

definition ex_lookup :: "string \<Rightarrow> json option" where
  "ex_lookup i = (if i = ex_hash [] then Some ex_plan else None)"

lemma ex_ids: "SAFE_FILE_ID (ex_hash x)" "CHR ''/'' \<notin> set (ex_hash x)" "ex_hash x \<noteq> []"
proof -
  have "SAFE_FILE_ID (replicate 64 (CHR ''a''))" by code_simp
  then show "SAFE_FILE_ID (ex_hash x)" by (simp add: ex_hash_def)
qed (simp_all add: ex_hash_def)

lemma entry_of_identified:
  assumes "jget j ''artifactId'' = JUndefined" "jget j ''contentHash'' = JStr (ex_hash x)"
    and "CHR ''/'' \<notin> set (schemaFilePrefix (jget j ''schema'') ''artifact'')"
  shows "\<exists>e. storeEntryFor h j = Inr e"
proof -
  have "resolveStoreId h j = Inr (ex_hash x)"
    using assms(1,2) ex_ids [of x] by (simp add: resolveStoreId_def STORE_ID_FIELDS_def assertSafeFileId_def)
  then show ?thesis using assms(3) ex_ids(2) [of x] by (simp add: storeEntryFor_def Let_def)
qed

lemma plain_sealWith: "plain_json j \<Longrightarrow> plain_json (sealWith h j)"
  by (simp add: sealWith_def Let_def plain_jset plain_jget)

lemma receipt_seal:
  assumes "createSimulatedTxReceipt sha plan txId ctx e = Inr receipt" "plain_json plan" "plain_extra e"
  shows "\<exists>x. jget receipt ''contentHash'' = JStr (sha x)" "jget receipt ''artifactId'' = JUndefined" "plain_json receipt"
proof -
  obtain derived where derived: "deriveSimulatedFee plan = Inr derived" using assms by (auto simp: createSimulatedTxReceipt_def)
  then obtain fee fa ta x where r: "receipt = sealWith (sha x) (JObj (receiptDraft plan txId ctx e fa ta fee))"
    and a: "jfield (jget plan ''from'') ''address'' = Inr fa" "jfield (jget plan ''to'') ''address'' = Inr ta"
    using assms(1) by (cases derived) (auto simp: createSimulatedTxReceipt_def Let_def calculateContentHash_def split: if_splits)
  show "\<exists>x. jget receipt ''contentHash'' = JStr (sha x)" using r sealWith_hash by blast
  show "jget receipt ''artifactId'' = JUndefined" using r by (simp add: sealWith_def Let_def jset_def receiptDraft_def map_add_def)
  have "plain_json fa" "plain_json ta" using a assms(2) by (auto simp: jfield_def plain_jget split: if_splits)
  then show "plain_json receipt" using r plain_sealWith plain_receipt [OF assms(2,3)] by blast
qed

lemma state_snapshot_total:
  "\<exists>s x. buildStateSnapshotArtifact sha st now = Inr s \<and> jget s ''contentHash'' = JStr (sha x) \<and> jget s ''artifactId'' = JUndefined"
proof -
  obtain a u g where h: "calculateAccountsHash sha (ls_accounts st) currentVersion = Inr a" "calculateUtxoSetHash sha (ls_utxos st) currentVersion = Inr u"
    "calculateStateHash sha st currentVersion = Inr g" using state_hash_ok calculateStateHash_ok by metis
  let ?es = "[(''schema'', JStr ''hardkas.snapshot.v1''), (''hashVersion'', JNum CURRENT_HASH_VERSION), (''createdAt'', JStr now),
    (''daaScore'', JStr (ls_daaScore st)), (''accountsHash'', JStr a), (''utxoSetHash'', JStr u),
    (''hardkasVersion'', JStr (ls_hardkasVersion st)), (''version'', JStr (ls_version st)), (''networkId'', JStr (ls_networkId st)), (''mode'', JStr (ls_mode st)),
    (''accounts'', JArr (map account_json (js_sort compareAccounts (ls_accounts st)))),
    (''utxos'', JArr (map utxo_json (sortUtxosByOutpoint (ls_utxos st)))), (''stateHash'', JStr g)]"
  have "plain_json (JObj ?es)" by simp
  from hash_plain [OF this, of sha] obtain x where x: "calculateContentHash sha (JObj ?es) CURRENT_HASH_VERSION = Inr (sha x)"
    by (auto simp: calculateContentHash_def)
  have "buildStateSnapshotArtifact sha st now = Inr (JObj (?es @ [(''contentHash'', JStr (sha x))]))"
    by (simp only: buildStateSnapshotArtifact_def h bindE.simps Let_def x)
  then show ?thesis by (intro exI [of _ "JObj (?es @ [(''contentHash'', JStr (sha x))])"] exI [of _ x]) simp
qed

lemma trace_total:
  assumes "plain_json receipt"
  shows "\<exists>t. buildSimulatedTrace h receipt a b p = Inr t \<and> jget t ''txId'' = jget receipt ''txId''"
proof -
  have "plain_json (JObj (traceDraft h receipt a b))"
    using assms by (simp add: traceDraft_def Let_def traceStep_def traceEvent_def plain_jget plain_jnn plain_jor)
  from hash_plain [OF this, of "h_sha h"] obtain c where "calculateContentHash (h_sha h) (JObj (traceDraft h receipt a b)) CURRENT_HASH_VERSION = Inr c" by blast
  moreover have "jget (JObj (traceDraft h receipt a b)) ''txId'' = jget receipt ''txId''" by (simp add: traceDraft_def Let_def map_add_def)
  ultimately show ?thesis by (simp add: buildSimulatedTrace_def sealWith_def Let_def jset_def)
qed

lemma execution_total:
  assumes plan: "executable_plan plan" "plan_spends plan ids" "checkInputs ex_state ids = Inr ()" and txId: "validateTxId txId = Inr ()" "txId \<noteq> []"
    and executed: "plain_json executed"
  shows "\<exists>post receipt ev. applySimulatedExecution ex_host ex_state plan executed txId ''/w'' ex_clock = Inr (Inr (post, receipt)) \<and>
    buildSimulatedExecutionEvidence ex_host post receipt ''/w'' ex_clock = Inr ev"
proof -
  have st: "withoutPending ex_state = ex_state" by code_simp
  obtain tp where tp: "getTracePath ex_host txId ''/w'' = Inr tp" using txId(1) by (simp add: getTracePath_def)
  let ?o = "executionOptions executed txId tp ex_clock" and ?ctx = "systemContext (h_iso ex_host (h_parse ex_host (clk_receiptCreatedAt ex_clock)))"
  have o: "plain_options ?o" "planTxId ex_hash plan ?o = Inr txId"
    using txId(2) executed by (simp_all add: executionOptions_def plain_options_def plain_jget plain_jor Let_def planReceiptExtra_def onlyTruthy_def noReceiptExtra_def plain_extra_def planTxId_def)
  obtain r where r: "applySimulatedPlan ex_hash ex_state plan ?ctx ?o = Inr r" "sr_ok r"
    using plan_executed [OF ex_state_ok(1) plan(1) o(1) plan(2) o(2) plan(3)] by blast
  have exec: "applySimulatedExecution ex_host ex_state plan executed txId ''/w'' ex_clock = Inr (Inr (sr_state r, sr_receipt r))"
    using r tp st by (simp add: applySimulatedExecution_def ex_host_def)
  obtain e where rc: "createSimulatedTxReceipt ex_hash plan txId ?ctx e = Inr (sr_receipt r)" "plain_extra e"
  proof (rule execution_step [OF r ex_state_ok(1)])
    fix ids' txId' new pre post
    assume s: "planTxId ex_hash plan ?o = Inr txId'"
      "createSimulatedTxReceipt ex_hash plan txId' ?ctx (executionExtra ids' new (int_str (0 + 1)) pre post ex_state (planReceiptExtra ?o)) = Inr (sr_receipt r)"
    then show thesis using that [OF _ plain_executionExtra] o by (simp add: plain_options_def)
  qed
  have plain: "plain_json plan" using plan(1) by (simp add: executable_plan_def)
  note rs = receipt_seal [OF rc(1) plain rc(2)]
  have pre: "CHR ''/'' \<notin> set (schemaFilePrefix (JStr schemaTxReceipt) ''artifact'')" "CHR ''/'' \<notin> set (schemaFilePrefix (JStr ''hardkas.snapshot.v1'') ''artifact'')"
    by code_simp+
  obtain rE where rE: "storeEntryFor ex_host (sr_receipt r) = Inr rE"
    using entry_of_identified [OF rs(2)] rs(1) receipt_identity(2) [OF rc(1)] pre(1) by auto
  obtain s x where s: "buildStateSnapshotArtifact ex_hash (withoutPending (sr_state r)) ''n'' = Inr s" "jget s ''contentHash'' = JStr (ex_hash x)" "jget s ''artifactId'' = JUndefined"
    using state_snapshot_total [of ex_hash "withoutPending (sr_state r)" "''n''"] by blast
  obtain sE where sE: "storeEntryFor ex_host s = Inr sE"
    using entry_of_identified [OF s(3,2)] snapshot_identity(2) [OF s(1)] pre(2) by auto
  obtain t where t: "buildSimulatedTrace ex_host (sr_receipt r) 0 1 (h_artifactPath ex_host ''/w'' (se_rel rE)) = Inr t" "jget t ''txId'' = JStr txId"
    using trace_total [OF rs(3), of ex_host 0 1] receipt_status(6) [OF rc(1)] by metis
  have "\<exists>tE. traceFileFor t = Inr tE" using t(2) txId(1) by (simp add: traceFileFor_def text_of_def)
  then show ?thesis using exec s(1) sE rE t by (auto simp: buildSimulatedExecutionEvidence_def Let_def ex_host_def ex_clock_def)
qed

lemma ex_execution: "\<exists>post receipt ev. applySimulatedExecution ex_host ex_state ex_plan ex_plan ex_txId ''/w'' ex_clock = Inr (Inr (post, receipt)) \<and>
  buildSimulatedExecutionEvidence ex_host post receipt ''/w'' ex_clock = Inr ev"
proof (rule execution_total [OF ex_plan_executable ex_plan_facts(2,5)])
  show "validateTxId ex_txId = Inr ()" "plain_json ex_plan" by code_simp+
qed (simp add: ex_txId_def)

theorem recovery_converges_witness:
  "\<exists>post receipt ev ws res ws'. let rec' = executionRecord receipt ev (ex_hash []) ''/w'' ex_clock; disk = \<lparr>dk_ledger = Some ex_state, dk_files = Map.empty\<rparr>;
       disk' = runWrites (take 2 ws) disk in
     commitSimulatedExecution ex_host disk post rec' ev = Inr ws \<and> recoverPendingExecution ex_host ex_lookup disk' = Inr (res, ws') \<and>
     runWrites ws' disk' = runWrites ws disk"
proof -
  let ?disk = "\<lparr>dk_ledger = Some ex_state, dk_files = Map.empty\<rparr>"
  obtain post receipt ev where e: "applySimulatedExecution ex_host ex_state ex_plan ex_plan ex_txId ''/w'' ex_clock = Inr (Inr (post, receipt))"
    "buildSimulatedExecutionEvidence ex_host post receipt ''/w'' ex_clock = Inr ev" using ex_execution by blast
  let ?rec = "executionRecord receipt ev (ex_hash []) ''/w'' ex_clock"
  have facts: "ls_pendingExecution ex_state = None" "\<not> isSigned ex_plan" "jget ex_plan ''schema'' = JStr schemaTxPlan" by code_simp+
  have "no_outputs_of ex_txId ex_state" using ex_plan_facts(4) by (simp add: tx_fresh_def no_outputs_of_def)
  moreover have "loadRecoveryMaterial ex_host ex_lookup ?rec = Inr (ex_plan, ex_plan)"
    using facts(2,3) by (simp add: loadRecoveryMaterial_def ex_lookup_def executionRecord_def)
  moreover obtain ws where ws: "commitSimulatedExecution ex_host ?disk post ?rec ev = Inr ws"
    by (simp add: commitSimulatedExecution_def publishEvidence_def clashes_iff list_ex_iff Let_def)
  moreover have "ex_txId \<noteq> []" by (simp add: ex_txId_def)
  ultimately obtain res ws' where "recoverPendingExecution ex_host ex_lookup (runWrites (take 2 ws) ?disk) = Inr (res, ws')"
      "runWrites ws' (runWrites (take 2 ws) ?disk) = runWrites ws ?disk"
    using recovery_converges [OF ex_state_ok(1) facts(1) _ _ e refl _ _ ws interrupted_none, of ex_lookup 2] by auto
  then show ?thesis using ws unfolding Let_def by blast
qed

end
