(* ===== verification/HK_ArtifactProps.thy ===== *)
theory HK_ArtifactProps
  imports HK_RecoveryProps
begin

text \<open>
  Properties of the artifacts of a simulated transfer: the plan, its authorization, the receipt and the trace. Each is
  sealed under its content hash, names its predecessor, and descends from the plan; an authorization that passes the
  check is bound to one plan, by its recomputed hash.
\<close>

subsection \<open>Lineage of a child\<close>

definition lineage_of :: "json \<Rightarrow> string \<Rightarrow> string \<Rightarrow> int \<Rightarrow> bool" where
  "lineage_of p hp root n \<longleftrightarrow> jget p ''contentHash'' = JStr hp \<and> is_hex64 hp \<and> is_hex64 root \<and> 0 < n \<and> truthy (jget p ''lineage'') \<and>
     jget (jget p ''lineage'') ''artifactId'' = JStr hp \<and> jget (jget p ''lineage'') ''sequence'' = JNum n \<and>
     (jget (jget p ''lineage'') ''lineageId'' = JUndefined \<and> jget (jget p ''lineage'') ''rootArtifactId'' = JUndefined \<and> root = hp \<or>
      jget (jget p ''lineage'') ''lineageId'' = JStr root \<and> jget (jget p ''lineage'') ''rootArtifactId'' = JStr root)"

definition child_lineage :: "json \<Rightarrow> string \<Rightarrow> string \<Rightarrow> string \<Rightarrow> int \<Rightarrow> bool" where
  "child_lineage c hc hp root n \<longleftrightarrow> jget c ''contentHash'' = JStr hc \<and> truthy (jget c ''lineage'') \<and>
     jget (jget c ''lineage'') ''artifactId'' = JStr hc \<and> jget (jget c ''lineage'') ''lineageId'' = JStr root \<and>
     jget (jget c ''lineage'') ''parentArtifactId'' = JStr hp \<and> jget (jget c ''lineage'') ''rootArtifactId'' = JStr root \<and>
     jget (jget c ''lineage'') ''sequence'' = JNum (n + 1)"

lemma is_hex64_nonempty: "is_hex64 s \<Longrightarrow> s \<noteq> []"
  by (auto simp: is_hex64_def)

lemma child_verifies:
  assumes p: "lineage_of p hp root n" "truthy p" and c: "child_lineage c hc hp root n" "is_hex64 hc"
    and same: "jget c ''networkId'' = jget p ''networkId''" "jget c ''mode'' = jget p ''mode''" "isValidTransition p c"
  shows "verifyLineage c p strict = issueIf (jget c ''contentHash'' = jget p ''contentHash'') ''SELF_PARENT'' LError" "lineage_of c hc root (n + 1)"
proof -
  have ne: "hp \<noteq> []" "root \<noteq> []" "hc \<noteq> []" using p c(2) is_hex64_nonempty by (auto simp: lineage_of_def)
  have str: "structuralIssues c (jget c ''lineage'') = []"
    using p(1) c ne by (simp add: structuralIssues_def child_lineage_def isHash_def lineage_of_def)
  have cont: "continuityIssues (jget c ''lineage'') (jget p ''lineage'') strict = []"
    using p(1) c(1) ne by (auto simp: continuityIssues_def child_lineage_def lineage_of_def seq_le_def)
  show "verifyLineage c p strict = issueIf (jget c ''contentHash'' = jget p ''contentHash'') ''SELF_PARENT'' LError"
    using str cont p c same by (simp add: verifyLineage_def child_lineage_def lineage_of_def)
  show "lineage_of c hc root (n + 1)" using p(1) c by (auto simp: lineage_of_def child_lineage_def)
qed

lemma transition_child:
  assumes "lineage_of p hp root n" "jget q ''contentHash'' = jget p ''contentHash''" "jget q ''lineage'' = jget p ''lineage''"
    and "jget c ''contentHash'' = JStr hc" "jget c ''lineage'' = jset ''artifactId'' (JStr hc) (createLineageTransition q)"
  shows "child_lineage c hc hp root n"
proof -
  have ne: "hp \<noteq> []" "root \<noteq> []" using assms(1) is_hex64_nonempty by (auto simp: lineage_of_def)
  have "jor (jget p ''lineage'') (JObj []) = jget p ''lineage''" using assms(1) by (simp add: jor_def lineage_of_def)
  then show ?thesis using assms ne by (auto simp: child_lineage_def lineage_of_def createLineageTransition_def Let_def jset_def seq_of_def)
qed

lemma is_hex_lower: "is_lower_hex c \<Longrightarrow> is_hex c"
  by (auto simp: is_lower_hex_def is_hex_def hex_val_def is_digit_def to_lower_def Let_def)

lemma HEX64_hex: "HEX64 s \<Longrightarrow> is_hex64 s"
  using is_hex_lower by (auto simp: HEX64_def is_hex64_def list_all_iff)

lemma sealWith_lineage:
  assumes "(\<exists>ls. jget (JObj es) ''lineage'' = JObj ls)"
  shows "jget (sealWith h (JObj es)) ''lineage'' = jset ''artifactId'' (JStr h) (jget (JObj es) ''lineage'')"
  using assms by (auto simp: sealWith_def Let_def jset_def)

lemma sealWith_other: "k \<noteq> ''contentHash'' \<Longrightarrow> k \<noteq> ''lineage'' \<Longrightarrow> jget (sealWith h (JObj es)) k = jget (JObj es) k"
  by (simp add: sealWith_def Let_def jset_def)

subsection \<open>The artifacts of a transfer\<close>

lemma contentHash_image: "calculateContentHash sha j v = Inr h \<Longrightarrow> \<exists>x. h = sha x"
  by (auto simp: calculateContentHash_def)

lemma finalize_shape:
  assumes "finalizeTxPlanIdentity sha (JObj (planDraft o' w)) = Inr P"
  obtains h where "calculateContentHash sha (jset ''hashVersion'' (JNum 5) (JObj (planDraft o' w))) 5 = Inr h"
    "P = jset ''lineage'' (JObj [(''artifactId'', JStr h), (''sequence'', JNum 1)]) (jset ''planId'' (JStr (''plan-'' @ take 16 h))
      (jset ''contentHash'' (JStr h) (jset ''hashVersion'' (JNum 5) (JObj (planDraft o' w)))))"
proof -
  obtain h where h: "calculateContentHash sha (jset ''hashVersion'' (JNum 5) (JObj (planDraft o' w))) 5 = Inr h"
    using assms by (auto simp: finalizeTxPlanIdentity_def Let_def CURRENT_HASH_VERSION_def)
  have "P = jset ''lineage'' (JObj [(''artifactId'', JStr h), (''sequence'', JNum 1)]) (jset ''planId'' (JStr (''plan-'' @ take 16 h))
      (jset ''contentHash'' (JStr h) (jset ''hashVersion'' (JNum 5) (JObj (planDraft o' w)))))"
    using assms h planDraft_fields(6) [of o' w] by (simp add: finalizeTxPlanIdentity_def Let_def CURRENT_HASH_VERSION_def jset_def)
  with h that show thesis by blast
qed

lemma planDraft_ids:
  "jget (JObj (planDraft o' w)) ''schema'' = JStr schemaTxPlan" "jget (JObj (planDraft o' w)) ''networkId'' = JStr (cp_networkId o')"
  "jget (JObj (planDraft o' w)) ''mode'' = JStr (cp_mode o')"
  unfolding planDraft_def Let_def by (simp_all add: map_add_def)

lemma plan_lineage:
  assumes "createTxPlanArtifact sha o' = Inr P" "\<And>x. HEX64 (sha x)"
  obtains h where "lineage_of P h h 1" "jget P ''schema'' = JStr schemaTxPlan" "jget P ''networkId'' = JStr (cp_networkId o')"
    "jget P ''mode'' = JStr (cp_mode o')" "jget P ''hashVersion'' = JNum 5" "jget (jget P ''lineage'') ''parentArtifactId'' = JUndefined" "truthy P"
    "jget (jget P ''from'') ''address'' = JStr (cp_fromAddress o')"
    "jget (jget P ''lineage'') ''lineageId'' = JUndefined" "jget (jget P ''lineage'') ''rootArtifactId'' = JUndefined"
proof -
  obtain w where w: "finalizeTxPlanIdentity sha (JObj (planDraft o' w)) = Inr P"
    using assms(1) by (auto simp: createTxPlanArtifact_def)
  from w obtain h where h: "calculateContentHash sha (jset ''hashVersion'' (JNum 5) (JObj (planDraft o' w))) 5 = Inr h"
    and P: "P = jset ''lineage'' (JObj [(''artifactId'', JStr h), (''sequence'', JNum 1)]) (jset ''planId'' (JStr (''plan-'' @ take 16 h))
      (jset ''contentHash'' (JStr h) (jset ''hashVersion'' (JNum 5) (JObj (planDraft o' w)))))" by (rule finalize_shape)
  have "is_hex64 h" using contentHash_image [OF h] assms(2) HEX64_hex by auto
  then have "lineage_of P h h 1" by (simp add: P jset_def lineage_of_def)
  moreover have "jget P k = jget (JObj (planDraft o' w)) k" if "k \<notin> {''hashVersion'', ''contentHash'', ''planId'', ''lineage''}" for k
    using finalize_keeps [OF w that] .
  then have "jget P ''schema'' = JStr schemaTxPlan" "jget P ''networkId'' = JStr (cp_networkId o')" "jget P ''mode'' = JStr (cp_mode o')"
    "jget (jget P ''from'') ''address'' = JStr (cp_fromAddress o')"
    using planDraft_ids planDraft_fields(3) [of o' w] by simp_all
  moreover have "jget P ''hashVersion'' = JNum 5" "jget (jget P ''lineage'') ''parentArtifactId'' = JUndefined" "truthy P"
    "jget (jget P ''lineage'') ''lineageId'' = JUndefined" "jget (jget P ''lineage'') ''rootArtifactId'' = JUndefined" by (simp_all add: P jset_def)
  ultimately show thesis using that by blast
qed

lemma root_verifies:
  assumes "lineage_of P h h 1" "jget P ''hashVersion'' = JNum 5" "jget (jget P ''lineage'') ''parentArtifactId'' = JUndefined"
    "jget (jget P ''lineage'') ''lineageId'' = JUndefined" "jget (jget P ''lineage'') ''rootArtifactId'' = JUndefined"
  shows "verifyLineage P JUndefined strict = []"
  using assms is_hex64_nonempty [of h]
  by (simp add: verifyLineage_def structuralIssues_def lineage_of_def isHash_def readDeclaredHashVersion_def MIN_HASH_VERSION_def CURRENT_HASH_VERSION_def)

lemma createLineage_obj: "\<exists>ls. createLineageTransition p = JObj ls"
  by (simp add: createLineageTransition_def Let_def)

lemma signed_shape:
  assumes "createSimulatedSignedTxArtifact sha plan signer ctx = Inr S"
  obtains pid addr ta h where "authorizablePlanIdentity sha plan = Inr pid" "signerAddressOf signer = Inr addr" "HEX64 pid"
    "jget (jget plan ''from'') ''address'' = JStr addr" "jget (jget plan ''to'') ''address'' = ta"
    "calculateContentHash sha (JObj (signedDraft plan pid addr (''synthetic-'' @ pid) ctx ta)) 5 = Inr h"
    "S = sealWith h (jset ''signedId'' (JStr (''signed-'' @ take 16 h)) (JObj (signedDraft plan pid addr (''synthetic-'' @ pid) ctx ta)))"
  using assms
  by (auto simp: createSimulatedSignedTxArtifact_def Let_def CURRENT_HASH_VERSION_def jfield_def syntheticTxIdFor_def is_HEX64_def text_of_def split: if_splits)

lemma signed_fields:
  assumes "S = sealWith h (jset ''signedId'' l (JObj (signedDraft plan pid addr tx ctx ta)))"
  shows "jget S ''contentHash'' = JStr h" "jget S ''lineage'' = jset ''artifactId'' (JStr h) (createLineageTransition plan)"
    "jget S ''schema'' = JStr schemaSignedTx" "jget S ''networkId'' = jget plan ''networkId''" "jget S ''mode'' = jget plan ''mode''"
    "jget S ''authorization'' = JObj [(''kind'', JStr ''synthetic''), (''planArtifactId'', JStr pid), (''signers'', JArr [JStr addr])]"
    "jget S ''signedTransaction'' = JObj [(''format'', JStr SYNTHETIC_AUTHORIZATION_FORMAT), (''payload'', JStr pid)]"
    "jget S ''txId'' = JStr tx" "jget S ''status'' = JStr ''signed''" "jget S ''multisig'' = JUndefined"
    "jget S ''from'' = JObj [(''address'', jget (jget plan ''from'') ''address'')]" "jget S ''to'' = JObj [(''address'', ta)]"
    "jget S ''amountSompi'' = jget plan ''amountSompi''" "truthy S"
proof -
  obtain es where es: "jset ''signedId'' l (JObj (signedDraft plan pid addr tx ctx ta)) = JObj es" by (simp add: jset_def)
  have f: "jget (JObj es) k = (if k = ''signedId'' then l else jget (JObj (signedDraft plan pid addr tx ctx ta)) k)" for k
    unfolding es [symmetric] by simp
  have S: "S = sealWith h (JObj es)" using assms es by simp
  show "jget S ''contentHash'' = JStr h" using S by (simp add: sealWith_hash)
  have lin: "jget (JObj es) ''lineage'' = createLineageTransition plan" unfolding f by (simp add: signedDraft_def)
  then show "jget S ''lineage'' = jset ''artifactId'' (JStr h) (createLineageTransition plan)"
    using sealWith_lineage [of es h] createLineage_obj [of plan] S by simp
  note o = sealWith_other [of _ h es, folded S, unfolded f]
  show "jget S ''schema'' = JStr schemaSignedTx" "jget S ''networkId'' = jget plan ''networkId''" "jget S ''mode'' = jget plan ''mode''"
    "jget S ''authorization'' = JObj [(''kind'', JStr ''synthetic''), (''planArtifactId'', JStr pid), (''signers'', JArr [JStr addr])]"
    "jget S ''signedTransaction'' = JObj [(''format'', JStr SYNTHETIC_AUTHORIZATION_FORMAT), (''payload'', JStr pid)]"
    "jget S ''txId'' = JStr tx" "jget S ''status'' = JStr ''signed''" "jget S ''multisig'' = JUndefined"
    "jget S ''from'' = JObj [(''address'', jget (jget plan ''from'') ''address'')]" "jget S ''to'' = JObj [(''address'', ta)]"
    "jget S ''amountSompi'' = jget plan ''amountSompi''"
    by (simp_all add: o) (simp_all add: signedDraft_def map_add_def)
  show "truthy S" using S by (simp add: sealWith_def Let_def jset_def)
qed

subsection \<open>Authorizations\<close>

lemma authorizable_Inr:
  "authorizablePlanIdentity sha p = Inr pid \<longleftrightarrow> jget p ''contentHash'' = JStr pid \<and> HEX64 pid \<and> jget p ''hashVersion'' = JNum 5 \<and>
     calculateContentHash sha p 5 = Inr pid"
  by (auto simp: authorizablePlanIdentity_def CURRENT_HASH_VERSION_def is_HEX64_def split: json.splits if_splits)

lemma sortedUnique_single [simp]: "sortedUnique [x] = [x]"
  by (simp add: sortedUnique_def)

lemma is_jstr_iff: "is_jstr j \<longleftrightarrow> (\<exists>s. j = JStr s)"
  by (cases j) (simp_all add: is_jstr_def)

lemma is_HEX64_iff: "is_HEX64 j \<longleftrightarrow> (\<exists>s. j = JStr s \<and> HEX64 s)"
  by (cases j) (simp_all add: is_HEX64_def)

lemma check_Inr:
  assumes "checkSyntheticAuthorization sha s plan = Inr a"
  shows "jget (jget s ''authorization'') ''planArtifactId'' = JStr (sa_planArtifactId a)" "HEX64 (sa_planArtifactId a)"
    "sa_txId a = ''synthetic-'' @ sa_planArtifactId a" "sa_signers a = signersOf (jget s ''authorization'')"
    "statusCheck s (sa_planArtifactId a) (sa_txId a) = None" "signersCheck s (sa_planArtifactId a) (sa_signers a) = None"
    "plan \<noteq> JUndefined \<Longrightarrow> planCheck sha s plan (sa_planArtifactId a) (sa_signers a) = None"
  using assms
  by (auto simp: checkSyntheticAuthorization_def Let_def authShapeOk_def is_HEX64_iff text_of_def syntheticTxIdFor_def split: if_splits option.splits)

text \<open>C9: an authorization is bound to one plan. When the check accepts an artifact as the authorization of a plan, the plan
  is sealed under the current version and its content, hashed again, gives the identity the authorization names; the
  transaction id is derived from that identity, the payer of the plan is among the signers, and payer, recipient,
  amount and network are those of the plan.\<close>

theorem authorization_binds:
  assumes "checkSyntheticAuthorization sha s plan = Inr a" and "plan \<noteq> JUndefined"
  shows "calculateContentHash sha plan CURRENT_HASH_VERSION = Inr (sa_planArtifactId a) \<and>
    jget plan ''contentHash'' = JStr (sa_planArtifactId a) \<and> jget plan ''hashVersion'' = JNum CURRENT_HASH_VERSION \<and>
    sa_txId a = ''synthetic-'' @ sa_planArtifactId a \<and>
    (jget s ''status'' = JStr ''signed'' \<longrightarrow> jget s ''txId'' = JStr (sa_txId a)) \<and>
    (\<exists>f \<in> set (sa_signers a). jget (jget plan ''from'') ''address'' = JStr f \<and> jget (jget s ''from'') ''address'' = JStr f) \<and>
    jget (jget s ''to'') ''address'' = jget (jget plan ''to'') ''address'' \<and> jget s ''networkId'' = jget plan ''networkId'' \<and>
    template_text (jget s ''amountSompi'') = template_text (jget plan ''amountSompi'')"
proof -
  note c = check_Inr [OF assms(1)]
  have p: "planCheck sha s plan (sa_planArtifactId a) (sa_signers a) = None" by (rule c(7) [OF assms(2)])
  then obtain pid where "authorizablePlanIdentity sha plan = Inr pid" by (auto simp: planCheck_def is_ok_iff split: if_splits)
  then have "calculateContentHash sha plan CURRENT_HASH_VERSION = Inr (sa_planArtifactId a)" "jget plan ''contentHash'' = JStr (sa_planArtifactId a)"
    "jget plan ''hashVersion'' = JNum CURRENT_HASH_VERSION"
    using p by (auto simp: planCheck_def authorizable_Inr CURRENT_HASH_VERSION_def split: if_splits)
  moreover have "jget s ''status'' = JStr ''signed'' \<longrightarrow> jget s ''txId'' = JStr (sa_txId a)" using c(5) by (auto simp: statusCheck_def split: if_splits)
  moreover have "(\<exists>f \<in> set (sa_signers a). jget (jget plan ''from'') ''address'' = JStr f \<and> jget (jget s ''from'') ''address'' = JStr f)"
    "jget (jget s ''to'') ''address'' = jget (jget plan ''to'') ''address''" "jget s ''networkId'' = jget plan ''networkId''"
    "template_text (jget s ''amountSompi'') = template_text (jget plan ''amountSompi'')"
    using p by (auto simp: planCheck_def split: if_splits)
  ultimately show ?thesis using c(3) by blast
qed

lemma created_authorization:
  assumes "createSimulatedSignedTxArtifact sha plan signer ctx = Inr S"
  obtains pid addr where "jget plan ''contentHash'' = JStr pid" "jget (jget plan ''from'') ''address'' = JStr addr"
    "\<And>p. p = plan \<or> p = JUndefined \<Longrightarrow>
       checkSyntheticAuthorization sha S p = Inr \<lparr>sa_planArtifactId = pid, sa_txId = ''synthetic-'' @ pid, sa_signers = [addr]\<rparr>"
    "getBroadcastableSignedTransaction S = Inl ''SYNTHETIC_NOT_BROADCASTABLE''"
  using assms
proof (rule signed_shape)
  fix pid addr ta h
  assume s: "authorizablePlanIdentity sha plan = Inr pid" "signerAddressOf signer = Inr addr" "HEX64 pid"
    "jget (jget plan ''from'') ''address'' = JStr addr" "jget (jget plan ''to'') ''address'' = ta"
    and S: "S = sealWith h (jset ''signedId'' (JStr (''signed-'' @ take 16 h)) (JObj (signedDraft plan pid addr (''synthetic-'' @ pid) ctx ta)))"
  note f = signed_fields [OF S]
  have plan: "jget plan ''contentHash'' = JStr pid" "jget plan ''hashVersion'' = JNum 5" using s(1) by (simp_all add: authorizable_Inr)
  have ne: "pid \<noteq> []" "addr \<noteq> []" using s(2,3) by (auto simp: HEX64_def signerAddressOf_def split: SyntheticSigner.splits option.splits if_splits)
  have parent: "jget (jget S ''lineage'') ''parentArtifactId'' = JStr pid"
    using plan(1) ne(1) by (simp add: f createLineageTransition_def Let_def jset_def)
  have shape: "authShapeOk (jget S ''authorization'')" "signersOf (jget S ''authorization'') = [addr]"
    "text_of (jget (jget S ''authorization'') ''planArtifactId'') = pid"
    using s(3) ne(2) by (simp_all add: f authShapeOk_def signersOf_def is_jstr_def text_of_def is_HEX64_def)
  have status: "statusCheck S pid (''synthetic-'' @ pid) = None" by (simp add: statusCheck_def f)
  have signers: "signersCheck S pid [addr] = None" using parent s(4) by (simp add: signersCheck_def f(10,11) Let_def)
  have bound: "planCheck sha S plan pid [addr] = None"
    using plan(1) s(1,4,5) by (simp add: planCheck_def f)
  have tx: "syntheticTxIdFor (JStr pid) = Inr (''synthetic-'' @ pid)" using s(3) by (simp add: syntheticTxIdFor_def is_HEX64_def text_of_def)
  have "checkSyntheticAuthorization sha S p = Inr \<lparr>sa_planArtifactId = pid, sa_txId = ''synthetic-'' @ pid, sa_signers = [addr]\<rparr>"
    if p: "p = plan \<or> p = JUndefined" for p
  proof -
    have none: "(if p \<noteq> JUndefined then planCheck sha S p pid [addr] else None) = None" using p bound by auto
    have auth: "jget S ''authorization'' \<noteq> JUndefined" "jget S ''authorization'' \<noteq> JNull" by (simp_all add: f)
    show ?thesis using auth shape(1)
      unfolding checkSyntheticAuthorization_def Let_def shape(2,3) tx sortedUnique_single bindE.simps status signers none by simp
  qed
  moreover have "getBroadcastableSignedTransaction S = Inl ''SYNTHETIC_NOT_BROADCASTABLE''" by (simp add: getBroadcastableSignedTransaction_def f)
  ultimately show thesis using that plan(1) s(4) by blast
qed

text \<open>what is authorized can be executed, and never broadcast. Every authorization the simulator creates passes the
  check, on its own and against its plan: it names the plan and the transaction id of the plan, and its one signer
  is the payer. It is not accepted as a transaction to broadcast.\<close>

theorem created_authorization_passes:
  assumes "createSimulatedSignedTxArtifact sha plan signer ctx = Inr s"
  shows "\<exists>pid f. jget plan ''contentHash'' = JStr pid \<and> jget (jget plan ''from'') ''address'' = JStr f \<and>
    checkSyntheticAuthorization sha s plan = Inr \<lparr>sa_planArtifactId = pid, sa_txId = ''synthetic-'' @ pid, sa_signers = [f]\<rparr> \<and>
    checkSyntheticAuthorization sha s JUndefined = checkSyntheticAuthorization sha s plan \<and>
    getBroadcastableSignedTransaction s = Inl ''SYNTHETIC_NOT_BROADCASTABLE''"
  using assms by (rule created_authorization) auto


subsection \<open>Witnesses of the authorizations\<close>

lemma signed_total:
  assumes "plain_json plan" "authorizablePlanIdentity sha plan = Inr pid" "signerAddressOf signer = Inr addr"
    "jget (jget plan ''from'') ''address'' = JStr addr" "jget (jget plan ''to'') ''address'' = JStr ta"
  shows "\<exists>S. createSimulatedSignedTxArtifact sha plan signer ctx = Inr S"
proof -
  have pid: "HEX64 pid" using assms(2) by (simp add: authorizable_Inr)
  have "plain_json (JObj (signedDraft plan pid addr (''synthetic-'' @ pid) ctx (JStr ta)))"
    using assms(1) by (simp add: signedDraft_def executionJson_def plain_jget plain_jor plain_lineage)
  from hash_plain [OF this, of sha] obtain h
    where h: "calculateContentHash sha (JObj (signedDraft plan pid addr (''synthetic-'' @ pid) ctx (JStr ta))) CURRENT_HASH_VERSION = Inr h" by blast
  have "jfield (jget plan ''from'') ''address'' = Inr (JStr addr)" "jfield (jget plan ''to'') ''address'' = Inr (JStr ta)"
    using assms(4,5) by (auto simp: jfield_def)
  then show ?thesis using assms(2,3) h pid
    by (simp add: createSimulatedSignedTxArtifact_def Let_def syntheticTxIdFor_def is_HEX64_def text_of_def del: append.simps)
qed

lemma ex_authorizable: "authorizablePlanIdentity ex_hash ex_plan = Inr (ex_hash [])"
proof -
  have "plain_json ex_plan" "HEX64 (replicate 64 (CHR ''a''))" "jget ex_plan ''contentHash'' = JStr (replicate 64 (CHR ''a''))"
    "jget ex_plan ''hashVersion'' = JNum 5" by code_simp+
  moreover obtain x where "calculateContentHash ex_hash ex_plan CURRENT_HASH_VERSION = Inr (ex_hash x)"
    using hash_plain [OF calculation(1), of ex_hash] by (auto simp: calculateContentHash_def ex_plan_def)
  ultimately show ?thesis by (simp add: authorizable_Inr ex_hash_def CURRENT_HASH_VERSION_def)
qed

lemma ex_signed: "\<exists>S. createSimulatedSignedTxArtifact ex_hash ex_plan (SignerAddress ''alice'') ex_ctx = Inr S"
proof (rule signed_total [OF _ ex_authorizable])
  show "plain_json ex_plan" "signerAddressOf (SignerAddress ''alice'') = Inr ''alice''" "jget (jget ex_plan ''from'') ''address'' = JStr ''alice''"
    "jget (jget ex_plan ''to'') ''address'' = JStr ''bob''" by code_simp+
qed

theorem created_authorization_passes_witness:
  "\<exists>s pid f. createSimulatedSignedTxArtifact ex_hash ex_plan (SignerAddress ''alice'') ex_ctx = Inr s \<and>
     checkSyntheticAuthorization ex_hash s ex_plan = Inr \<lparr>sa_planArtifactId = pid, sa_txId = ''synthetic-'' @ pid, sa_signers = [f]\<rparr>"
  using ex_signed created_authorization_passes by blast

theorem authorization_binds_witness:
  "\<exists>s a. checkSyntheticAuthorization ex_hash s ex_plan = Inr a \<and> calculateContentHash ex_hash ex_plan CURRENT_HASH_VERSION = Inr (sa_planArtifactId a)"
proof -
  obtain s where "createSimulatedSignedTxArtifact ex_hash ex_plan (SignerAddress ''alice'') ex_ctx = Inr s" using ex_signed by blast
  then obtain a where a: "checkSyntheticAuthorization ex_hash s ex_plan = Inr a" by (rule created_authorization) auto
  moreover have "ex_plan \<noteq> JUndefined" by (simp add: ex_plan_def)
  ultimately show ?thesis using authorization_binds by blast
qed


lemma execution_receipt:
  assumes "applySimulatedExecution h st plan S txId root clock = Inr (Inr (post, R))" "ledger_ok d st" "jget S ''schema'' = JStr schemaSignedTx"
  obtains i e where "createSimulatedTxReceipt (h_sha h) plan i (systemContext (h_iso h (h_parse h (clk_receiptCreatedAt clock)))) e = Inr R"
    "re_parentArtifact e = JObj [(''contentHash'', jget S ''contentHash''), (''lineage'', jget S ''lineage'')]"
proof -
  let ?ctx = "systemContext (h_iso h (h_parse h (clk_receiptCreatedAt clock)))"
  obtain tp sim where sim: "applySimulatedPlan (h_sha h) (withoutPending st) plan ?ctx (executionOptions S txId tp clock) = Inr sim"
    "sr_ok sim" "R = sr_receipt sim" using assms(1) by (auto simp: applySimulatedExecution_def split: if_splits)
  have ok: "ledger_ok d (withoutPending st)" using assms(2) by (simp add: ledger_ok_def withoutPending_def)
  have signed: "isSigned S" using assms(3) by (simp add: isSigned_def)
  show thesis
  proof (rule execution_step [OF sim(1,2) ok])
    fix ids txId' new pre post'
    assume s: "createSimulatedTxReceipt (h_sha h) plan txId' ?ctx
         (executionExtra ids new (int_str (d + 1)) pre post' (withoutPending st) (planReceiptExtra (executionOptions S txId tp clock))) = Inr (sr_receipt sim)"
    show thesis by (rule that [OF s [folded sim(3)]]) (simp add: executionExtra_def planReceiptExtra_def executionOptions_def Let_def onlyTruthy_def signed)
  qed
qed


subsection \<open>The chain of a transfer\<close>

lemma receipt_lineage:
  assumes "createSimulatedTxReceipt sha plan txId ctx e = Inr R" "re_parentArtifact e = JObj ps" "\<forall>x. HEX64 (sha x)"
  obtains h where "is_hex64 h" "jget R ''contentHash'' = JStr h" "jget R ''lineage'' = jset ''artifactId'' (JStr h) (createLineageTransition (JObj ps))"
    "jget R ''networkId'' = jget plan ''networkId''" "jget R ''mode'' = JStr ''simulator''" "truthy R"
proof -
  obtain derived where derived: "deriveSimulatedFee plan = Inr derived" using assms by (auto simp: createSimulatedTxReceipt_def)
  then obtain fee fa ta x where r: "R = sealWith (sha x) (JObj (receiptDraft plan txId ctx e fa ta fee))"
    using assms(1) by (cases derived) (auto simp: createSimulatedTxReceipt_def Let_def calculateContentHash_def split: if_splits)
  have lin: "jget (JObj (receiptDraft plan txId ctx e fa ta fee)) ''lineage'' = createLineageTransition (JObj ps)"
    using assms(2) by (simp add: receiptDraft_def jnn_def)
  show thesis
  proof (rule that)
    show "is_hex64 (sha x)" using assms(3) HEX64_hex by blast
    show "jget R ''contentHash'' = JStr (sha x)" using r by (simp add: sealWith_hash)
    show "jget R ''lineage'' = jset ''artifactId'' (JStr (sha x)) (createLineageTransition (JObj ps))"
      using sealWith_lineage [of "receiptDraft plan txId ctx e fa ta fee" "sha x"] createLineage_obj [of "JObj ps"] lin r by simp
    show "jget R ''networkId'' = jget plan ''networkId''" "jget R ''mode'' = JStr ''simulator''"
      by (simp_all add: r sealWith_other) (simp_all add: receiptDraft_def map_add_def)
    show "truthy R" using r by (simp add: sealWith_def Let_def jset_def)
  qed
qed

lemma trace_lineage:
  assumes "buildSimulatedTrace h R a b path = Inr T" "lineage_of R hr root n" "jget R ''mode'' = JStr m" "\<forall>x. HEX64 (h_sha h x)"
  obtains ht where "is_hex64 ht" "child_lineage T ht hr root n" "jget T ''schema'' = JStr schemaTxTrace"
    "jget T ''networkId'' = jget R ''networkId''" "jget T ''mode'' = jget R ''mode''"
proof -
  obtain x where T: "T = jset ''receiptPath'' (JStr path) (sealWith (h_sha h x) (JObj (traceDraft h R a b)))"
    using assms(1) by (auto simp: buildSimulatedTrace_def Let_def calculateContentHash_def)
  have j: "jget T k = jget (sealWith (h_sha h x) (JObj (traceDraft h R a b))) k" if "k \<noteq> ''receiptPath''" for k
    using that by (simp add: T sealWith_def Let_def jset_def)
  have ne: "hr \<noteq> []" "root \<noteq> []" "n \<noteq> 0" using assms(2) is_hex64_nonempty by (auto simp: lineage_of_def)
  let ?lin = "JObj [(''artifactId'', JStr []), (''lineageId'', JStr root), (''parentArtifactId'', JStr hr), (''rootArtifactId'', JStr root), (''sequence'', JNum (n + 1))]"
  have lin: "jget (JObj (traceDraft h R a b)) ''lineage'' = ?lin"
    using assms(2) ne by (auto simp: traceDraft_def Let_def lineage_of_def jor_def seq_of_def map_add_def)
  then have "jget T ''lineage'' = jset ''artifactId'' (JStr (h_sha h x)) ?lin"
    using sealWith_lineage [of "traceDraft h R a b" "h_sha h x"] j by simp
  moreover have "jget T ''contentHash'' = JStr (h_sha h x)" using j by (simp add: sealWith_hash)
  ultimately have "child_lineage T (h_sha h x) hr root n" by (simp add: child_lineage_def jset_def)
  moreover have "is_hex64 (h_sha h x)" using assms(4) HEX64_hex by blast
  moreover have "jget T ''schema'' = JStr schemaTxTrace" "jget T ''networkId'' = jget R ''networkId''" "jget T ''mode'' = jget R ''mode''"
    using assms(3) by (simp_all add: j sealWith_other) (simp_all add: traceDraft_def Let_def map_add_def jnn_def)
  ultimately show thesis using that by blast
qed

lemma transitions:
  "jget p ''schema'' = JStr schemaTxPlan \<Longrightarrow> jget c ''schema'' = JStr schemaSignedTx \<Longrightarrow> isValidTransition p c"
  "jget p ''schema'' = JStr schemaSignedTx \<Longrightarrow> jget c ''schema'' = JStr schemaTxReceipt \<Longrightarrow> isValidTransition p c"
  "jget p ''schema'' = JStr schemaTxReceipt \<Longrightarrow> jget c ''schema'' = JStr schemaTxTrace \<Longrightarrow> isValidTransition p c"
  by (simp_all add: isValidTransition_def validTransitions_def text_of_def schema_defs)

text \<open>The links of a transfer: the plan is the root, and each artifact the child of the one before it.\<close>

lemma transfer_links:
  assumes sha: "\<forall>x. HEX64 (h_sha h x)" and ok: "ledger_ok d st"
    and plan: "createTxPlanArtifact (h_sha h) o' = Inr P" "cp_mode o' = ''simulator''"
    and signed: "createSimulatedSignedTxArtifact (h_sha h) P signer ctx = Inr S"
    and exec: "applySimulatedExecution h st P S txId root clock = Inr (Inr (post, R))"
    and ev: "buildSimulatedExecutionEvidence h post R root clock = Inr ev"
  obtains hp hs hr ht where "lineage_of P hp hp 1" "child_lineage S hs hp hp 1" "child_lineage R hr hs hp 2" "child_lineage (ev_trace ev) ht hr hp 3"
    "verifyLineage P JUndefined True = []"
    "verifyLineage S P True = issueIf (jget S ''contentHash'' = jget P ''contentHash'') ''SELF_PARENT'' LError"
    "verifyLineage R S True = issueIf (jget R ''contentHash'' = jget S ''contentHash'') ''SELF_PARENT'' LError"
    "verifyLineage (ev_trace ev) R True = issueIf (jget (ev_trace ev) ''contentHash'' = jget R ''contentHash'') ''SELF_PARENT'' LError"
    "\<exists>i c e. createSimulatedTxReceipt (h_sha h) P i c e = Inr R" "\<exists>a b path. buildSimulatedTrace h R a b path = Inr (ev_trace ev)"
proof -
  obtain hp where P: "lineage_of P hp hp 1" "jget P ''schema'' = JStr schemaTxPlan" "jget P ''mode'' = JStr ''simulator''" "jget P ''hashVersion'' = JNum 5"
    "jget (jget P ''lineage'') ''parentArtifactId'' = JUndefined" "truthy P" "jget (jget P ''lineage'') ''lineageId'' = JUndefined"
    "jget (jget P ''lineage'') ''rootArtifactId'' = JUndefined"
    by (rule plan_lineage [OF plan(1)]) (use sha plan(2) in auto)
  obtain pid addr ta hs where S: "S = sealWith hs (jset ''signedId'' (JStr (''signed-'' @ take 16 hs)) (JObj (signedDraft P pid addr (''synthetic-'' @ pid) ctx ta)))"
    and hs: "calculateContentHash (h_sha h) (JObj (signedDraft P pid addr (''synthetic-'' @ pid) ctx ta)) 5 = Inr hs" using signed by (rule signed_shape)
  note f = signed_fields [OF S]
  have hexs: "is_hex64 hs" using contentHash_image [OF hs] sha HEX64_hex by auto
  have cS: "child_lineage S hs hp hp 1" by (rule transition_child [OF P(1) refl refl f(1,2)])
  note vS = child_verifies [OF P(1,6) cS hexs f(4,5) transitions(1) [OF P(2) f(3)]]
  obtain i e where rc: "createSimulatedTxReceipt (h_sha h) P i (systemContext (h_iso h (h_parse h (clk_receiptCreatedAt clock)))) e = Inr R"
    and pa: "re_parentArtifact e = JObj [(''contentHash'', jget S ''contentHash''), (''lineage'', jget S ''lineage'')]"
    by (rule execution_receipt [OF exec ok f(3)])
  obtain hr where R: "is_hex64 hr" "jget R ''contentHash'' = JStr hr"
    "jget R ''lineage'' = jset ''artifactId'' (JStr hr) (createLineageTransition (JObj [(''contentHash'', jget S ''contentHash''), (''lineage'', jget S ''lineage'')]))"
    "jget R ''networkId'' = jget P ''networkId''" "jget R ''mode'' = JStr ''simulator''" "truthy R"
    by (rule receipt_lineage [OF rc pa sha])
  have cR: "child_lineage R hr hs hp 2" using transition_child [OF vS(2) _ _ R(2,3)] by simp
  note vR = child_verifies [OF vS(2) f(14) _ R(1) _ _ transitions(2) [OF f(3) receipt_identity(2) [OF rc]]]
  have lR: "lineage_of R hr hp 3" "verifyLineage R S True = issueIf (jget R ''contentHash'' = jget S ''contentHash'') ''SELF_PARENT'' LError" using vR cR R(4,5) f(4,5) P(3) by simp_all
  obtain path where tr: "buildSimulatedTrace h R (clk_traceStartedAtMs clock) (clk_traceCompletedAtMs clock) path = Inr (ev_trace ev)"
    using ev by (rule evidence_parts)
  obtain ht where T: "is_hex64 ht" "child_lineage (ev_trace ev) ht hr hp 3" "jget (ev_trace ev) ''schema'' = JStr schemaTxTrace"
    "jget (ev_trace ev) ''networkId'' = jget R ''networkId''" "jget (ev_trace ev) ''mode'' = jget R ''mode''"
    by (rule trace_lineage [OF tr lR(1) R(5) sha])
  note vT = child_verifies(1) [OF lR(1) R(6) T(2,1) T(4,5) transitions(3) [OF receipt_identity(2) [OF rc] T(3)], of True]
  show thesis by (rule that [OF P(1) cS cR T(2) root_verifies [OF P(1,4,5,7,8)] vS(1) lR(2) vT]) (use rc tr in blast)+
qed

text \<open>the artifacts of a transfer form one lineage. A plan made for the simulator, its authorization, the receipt of
  its execution and the trace of the receipt each pass the strict check against their predecessor, the plan as a
  root; all descend from the content hash of the plan, with sequence numbers 1 to 4. The only issue there can be is
  that of a digest equal to the one of the predecessor, a collision. The digests are 64 lower-case hexadecimal
  digits.\<close>

theorem transfer_lineage:
  assumes sha: "\<forall>x. HEX64 (h_sha h x)" and ok: "ledger_ok d st"
    and plan: "createTxPlanArtifact (h_sha h) o' = Inr P" "cp_mode o' = ''simulator''"
    and signed: "createSimulatedSignedTxArtifact (h_sha h) P signer ctx = Inr S"
    and exec: "applySimulatedExecution h st P S txId root clock = Inr (Inr (post, R))"
    and ev: "buildSimulatedExecutionEvidence h post R root clock = Inr ev"
  shows "verifyLineage P JUndefined True = [] \<and>
    verifyLineage S P True = issueIf (jget S ''contentHash'' = jget P ''contentHash'') ''SELF_PARENT'' LError \<and>
    verifyLineage R S True = issueIf (jget R ''contentHash'' = jget S ''contentHash'') ''SELF_PARENT'' LError \<and>
    verifyLineage (ev_trace ev) R True = issueIf (jget (ev_trace ev) ''contentHash'' = jget R ''contentHash'') ''SELF_PARENT'' LError \<and>
    map (\<lambda>a. jget (jget a ''lineage'') ''rootArtifactId'') [S, R, ev_trace ev] = replicate 3 (jget P ''contentHash'') \<and>
    map (\<lambda>a. jget (jget a ''lineage'') ''sequence'') [P, S, R, ev_trace ev] = map JNum [1, 2, 3, 4]"
proof (rule transfer_links [OF assms])
  fix hp hs hr ht
  assume "lineage_of P hp hp 1" "child_lineage S hs hp hp 1" "child_lineage R hr hs hp 2" "child_lineage (ev_trace ev) ht hr hp 3"
    "verifyLineage P JUndefined True = []"
    "verifyLineage S P True = issueIf (jget S ''contentHash'' = jget P ''contentHash'') ''SELF_PARENT'' LError"
    "verifyLineage R S True = issueIf (jget R ''contentHash'' = jget S ''contentHash'') ''SELF_PARENT'' LError"
    "verifyLineage (ev_trace ev) R True = issueIf (jget (ev_trace ev) ''contentHash'' = jget R ''contentHash'') ''SELF_PARENT'' LError"
  then show ?thesis by (simp add: child_lineage_def lineage_of_def numeral_3_eq_3)
qed


subsection \<open>A transfer\<close>

definition ex_options :: CreateTxPlanArtifactOptions where
  "ex_options = \<lparr>cp_networkId = ''simnet'', cp_mode = ''simulator'', cp_fromInput = ''alice'', cp_fromAddress = ''alice'', cp_fromAccountName = None,
     cp_toInput = ''bob'', cp_toAddress = ''bob'', cp_amountSompi = 3000,
     cp_plan = \<lparr>pl_version = 0, pl_inputs = [\<lparr>ux_outpoint = \<lparr>op_transactionId = ''genesis-alice'', op_index = Some 0\<rparr>, ux_address = ''alice'',
         ux_amountSompi = 5000, ux_scriptPublicKey = ''s'', ux_blockDaaScore = None, ux_isCoinbase = None, ux_covenantId = None, ux_lane = None\<rparr>],
       pl_outputs = [\<lparr>to_address = ''bob'', to_amountSompi = 3000, to_scriptPublicKey = None, to_covenant = None\<rparr>],
       pl_change = Some \<lparr>to_address = ''alice'', to_amountSompi = 1500, to_scriptPublicKey = None, to_covenant = None\<rparr>,
       pl_estimatedMass = 2000, pl_estimatedFeeSompi = 500, pl_computeBudget = None, pl_storageMass = None, pl_lane = None\<rparr>,
     cp_rpcUrl = None, cp_ctx = ex_ctx\<lparr>rc_workflowId := JStr ''wf_0''\<rparr>, cp_maxFeeSompi = None\<rparr>"

definition ex_sealed :: json where
  "ex_sealed = jset ''lineage'' (JObj [(''artifactId'', JStr (replicate 64 (CHR ''a''))), (''sequence'', JNum 1)])
     (jset ''planId'' (JStr (''plan-'' @ replicate 16 (CHR ''a''))) (jset ''contentHash'' (JStr (replicate 64 (CHR ''a'')))
       (jset ''hashVersion'' (JNum 5) (JObj (planDraft ex_options (JStr ''wf_0''))))))"

lemma hash_constant:
  assumes "plain_json j" "j \<noteq> JUndefined"
  shows "calculateContentHash ex_hash j 5 = Inr (replicate 64 (CHR ''a''))"
  using hash_plain [OF assms, of ex_hash] by (auto simp: calculateContentHash_def ex_hash_def CURRENT_HASH_VERSION_def)

lemma ex_sealed_created: "createTxPlanArtifact ex_hash ex_options = Inr ex_sealed"
proof -
  let ?d = "JObj (planDraft ex_options (JStr ''wf_0''))"
  have plain: "plain_json (jset ''hashVersion'' (JNum 5) ?d)" "jset ''hashVersion'' (JNum 5) ?d \<noteq> JUndefined" by code_simp+
  have "finalizeTxPlanIdentity ex_hash ?d = Inr ex_sealed"
    using hash_constant [OF plain] planDraft_fields(6) [of ex_options "JStr ''wf_0''"]
    by (simp add: finalizeTxPlanIdentity_def Let_def CURRENT_HASH_VERSION_def jset_def ex_sealed_def take_replicate min_def)
  moreover have "rc_workflowId (cp_ctx ex_options) = JStr ''wf_0''" by (simp add: ex_options_def)
  ultimately show ?thesis by (simp add: createTxPlanArtifact_def)
qed

lemma ex_sealed_facts:
  "executable_plan ex_sealed" "plan_spends ex_sealed [''genesis-alice:0'']" "plain_json ex_sealed"
  "jget (jget ex_sealed ''from'') ''address'' = JStr ''alice''" "jget (jget ex_sealed ''to'') ''address'' = JStr ''bob''"
  "authorizablePlanIdentity ex_hash ex_sealed = Inr (replicate 64 (CHR ''a''))"
proof -
  show plain: "plain_json ex_sealed" by code_simp
  have "''3000'' = int_str 3000" "''1500'' = int_str 1500" by code_simp+
  note am = amount_fieldI [OF _ this(1)] amount_fieldI [OF _ this(2)]
  have "arrayOr (jget ex_sealed ''outputs'') = [JObj [(''address'', JStr ''bob''), (''amountSompi'', JStr ''3000'')]]"
    "jget ex_sealed ''change'' = JObj [(''address'', JStr ''alice''), (''amountSompi'', JStr ''1500'')]" by code_simp+
  then have "plan_amounts ex_sealed" using am by (simp add: plan_amounts_def)
  moreover have "case deriveSimulatedFee ex_sealed of Inr (Inr fee) \<Rightarrow> json_bigE (jget ex_sealed ''estimatedFeeSompi'') = Inr fee | _ \<Rightarrow> False"
    by code_simp
  moreover have "is_jarr (jget ex_sealed ''inputs'')" "is_jarr (jget ex_sealed ''outputs'')"
    "has_address (jget ex_sealed ''from'')" "has_address (jget ex_sealed ''to'')" "has_address (jget ex_sealed ''change'')"
    "list_all has_address (arrayOr (jget ex_sealed ''outputs''))" by code_simp+
  ultimately show "executable_plan ex_sealed" using plain by (simp add: executable_plan_def)
  show "plan_spends ex_sealed [''genesis-alice:0'']" "jget (jget ex_sealed ''from'') ''address'' = JStr ''alice''"
    "jget (jget ex_sealed ''to'') ''address'' = JStr ''bob''" by code_simp+
  have "HEX64 (replicate 64 (CHR ''a''))" "jget ex_sealed ''contentHash'' = JStr (replicate 64 (CHR ''a''))" "jget ex_sealed ''hashVersion'' = JNum 5"
    "ex_sealed \<noteq> JUndefined" by code_simp+
  then show "authorizablePlanIdentity ex_hash ex_sealed = Inr (replicate 64 (CHR ''a''))" using hash_constant [OF plain] by (simp add: authorizable_Inr)
qed

lemma plain_signed:
  assumes "createSimulatedSignedTxArtifact sha plan signer ctx = Inr S" "plain_json plan"
  shows "plain_json S"
  using assms(1)
proof (rule signed_shape)
  fix pid addr ta h
  assume s: "jget (jget plan ''to'') ''address'' = ta"
    and S: "S = sealWith h (jset ''signedId'' (JStr (''signed-'' @ take 16 h)) (JObj (signedDraft plan pid addr (''synthetic-'' @ pid) ctx ta)))"
  have "plain_json ta" using plain_jget [OF plain_jget [OF assms(2)]] s by blast
  then have "plain_json (JObj (signedDraft plan pid addr (''synthetic-'' @ pid) ctx ta))"
    using assms(2) by (simp add: signedDraft_def executionJson_def plain_jget plain_jor plain_lineage)
  then show ?thesis unfolding S by (intro plain_sealWith plain_jset) simp_all
qed

theorem transfer_lineage_witness:
  "\<exists>S post R ev. createSimulatedSignedTxArtifact ex_hash ex_sealed (SignerAddress ''alice'') ex_ctx = Inr S \<and>
     applySimulatedExecution ex_host ex_state ex_sealed S ex_txId ''/w'' ex_clock = Inr (Inr (post, R)) \<and>
     buildSimulatedExecutionEvidence ex_host post R ''/w'' ex_clock = Inr ev \<and> verifyLineage ex_sealed JUndefined True = [] \<and>
     map (\<lambda>a. jget (jget a ''lineage'') ''sequence'') [ex_sealed, S, R, ev_trace ev] = map JNum [1, 2, 3, 4]"
proof -
  have "signerAddressOf (SignerAddress ''alice'') = Inr ''alice''" by code_simp
  from signed_total [OF ex_sealed_facts(3,6) this ex_sealed_facts(4,5)] obtain S where
    S: "createSimulatedSignedTxArtifact ex_hash ex_sealed (SignerAddress ''alice'') ex_ctx = Inr S" by blast
  have tx: "validateTxId ex_txId = Inr ()" "ex_txId \<noteq> []" by code_simp+
  from execution_total [OF ex_sealed_facts(1,2) ex_plan_facts(5) tx plain_signed [OF S ex_sealed_facts(3)]] obtain post R ev where
    e: "applySimulatedExecution ex_host ex_state ex_sealed S ex_txId ''/w'' ex_clock = Inr (Inr (post, R))"
    "buildSimulatedExecutionEvidence ex_host post R ''/w'' ex_clock = Inr ev" by blast
  have host: "h_sha ex_host = ex_hash" by (simp add: ex_host_def)
  have "HEX64 (replicate 64 (CHR ''a''))" "cp_mode ex_options = ''simulator''" by code_simp+
  then have h: "\<forall>x. HEX64 (h_sha ex_host x)" "cp_mode ex_options = ''simulator''" by (simp_all add: host ex_hash_def)
  note c = transfer_lineage [OF h(1) ex_state_ok(1) _ h(2) _ e, unfolded host, OF ex_sealed_created S]
  show ?thesis using S e c by blast
qed

end
