(* ===== verification/HK_ResolveProps.thy ===== *)
theory HK_ResolveProps
  imports HK_Resolve HK_ArtifactProps
begin

text \<open>
  Properties of the resolver: it answers exactly when the store holds one verified identity for the lookup, and the
  list and the count of artifacts agree.
\<close>

subsection \<open>Candidates\<close>

definition identity :: "(string \<Rightarrow> string) \<Rightarrow> json \<Rightarrow> string option" where
  "identity sha a = (case checkArtifactIdentity sha a of Inl _ \<Rightarrow> None | Inr c \<Rightarrow> identityOption c)"

lemma identity_Some: "identity sha a = Some i \<longleftrightarrow> (\<exists>s. checkArtifactIdentity sha a = Inr (Inr (i, s)))"
  by (auto simp: identity_def identityOption_def split: sum.splits)

lemma identity_recomputed: "identity sha a = Some i \<Longrightarrow> recomputeDeclaredContentHash sha a = Inr i \<and> jget a ''contentHash'' = JStr i"
  unfolding identity_Some by (blast elim: checkArtifactIdentity_ok)

definition scope_of :: "(string \<Rightarrow> string) \<Rightarrow> json \<Rightarrow> AuthScope" where
  "scope_of sha a = snd (projr (projr (checkArtifactIdentity sha a)))"

definition isAnswer :: "(string \<Rightarrow> string) \<Rightarrow> (json \<Rightarrow> string option \<Rightarrow> bool) \<Rightarrow> WorkspaceArtifactEntry \<Rightarrow> bool" where
  "isAnswer sha isCandidate e \<longleftrightarrow> isCandidate (we_artifact e) (safeRecompute sha (we_artifact e))"

definition accepted :: "(string \<Rightarrow> string) \<Rightarrow> (string \<Rightarrow> string option) \<Rightarrow> WorkspaceArtifactEntry \<Rightarrow> bool" where
  "accepted sha extra e \<longleftrightarrow> (case identity sha (we_artifact e) of None \<Rightarrow> False | Some i \<Rightarrow> extra i = None)"

definition candidateOf :: "(string \<Rightarrow> string) \<Rightarrow> WorkspaceArtifactEntry \<Rightarrow> VerifiedCandidate" where
  "candidateOf sha e = \<lparr>vc_entry = e, vc_artifactId = the (identity sha (we_artifact e)), vc_authScope = scope_of sha (we_artifact e)\<rparr>"

lemma collectEntry_cases:
  "collectEntry sha c x e found = (if \<not> isAnswer sha c e then Inr found
    else if accepted sha x e then Inr (fst found @ [candidateOf sha e], snd found) else collectEntry sha c x e found)"
  by (cases "checkArtifactIdentity sha (we_artifact e)")
    (auto simp: collectEntry_def isAnswer_def accepted_def identity_def identityOption_def candidateOf_def scope_of_def split: option.splits sum.splits)

lemma collectEntry_refused:
  assumes "isAnswer sha c e" "\<not> accepted sha x e" "collectEntry sha c x e found = Inr found'"
  shows "snd found' \<noteq> []"
  using assms by (cases "checkArtifactIdentity sha (we_artifact e)")
    (auto simp: collectEntry_def isAnswer_def accepted_def identity_def identityOption_def split: sum.splits option.splits prod.splits)

lemma collectEntry_mono: "collectEntry sha c x e found = Inr found' \<Longrightarrow> snd found \<noteq> [] \<Longrightarrow> snd found' \<noteq> []"
  by (cases "checkArtifactIdentity sha (we_artifact e)") (auto simp: collectEntry_def split: if_splits sum.splits option.splits prod.splits)

lemma collect_mono: "collect sha c x es found = Inr found' \<Longrightarrow> snd found \<noteq> [] \<Longrightarrow> snd found' \<noteq> []"
proof (induction es arbitrary: found)
  case (Cons e es)
  then obtain f where f: "collectEntry sha c x e found = Inr f" "collect sha c x es f = Inr found'" by auto
  show ?case using Cons.IH [OF f(2) collectEntry_mono [OF f(1) Cons.prems(2)]] .
qed simp

text \<open>Nothing is refused exactly when every answer of the store is accepted, and then the candidates are the answers.\<close>

lemma collect_clean:
  "(\<exists>vs. collect sha c x es (vs0, []) = Inr (vs, []) \<and> vs = vs') \<longleftrightarrow>
   (\<forall>e \<in> set es. isAnswer sha c e \<longrightarrow> accepted sha x e) \<and> vs' = vs0 @ map (candidateOf sha) (filter (isAnswer sha c) es)"
proof (induction es arbitrary: vs0)
  case (Cons e es)
  consider "\<not> isAnswer sha c e" | "isAnswer sha c e" "accepted sha x e" | "isAnswer sha c e" "\<not> accepted sha x e" by blast
  then show ?case
  proof cases
    case 1
    then show ?thesis using Cons by (simp add: collectEntry_cases [of sha c x e])
  next
    case 2
    then show ?thesis using Cons by (simp add: collectEntry_cases [of sha c x e])
  next
    case 3
    have "collect sha c x (e # es) (vs0, []) \<noteq> Inr (vs, [])" for vs
    proof
      assume "collect sha c x (e # es) (vs0, []) = Inr (vs, [])"
      then obtain f where f: "collectEntry sha c x e (vs0, []) = Inr f" "collect sha c x es f = Inr (vs, [])" by auto
      from collectEntry_refused [OF 3 f(1)] collect_mono [OF f(2)] show False by simp
    qed
    then show ?thesis using 3 by auto
  qed
qed auto

lemma groups_same:
  "\<forall>v \<in> set vs. vc_artifactId v = i \<Longrightarrow> foldl groupStep [(i, g)] vs = [(i, g @ vs)]"
  by (induction vs arbitrary: g) (auto simp: groupStep_def)

lemma groups_keys: "fst ` set (foldl groupStep gs vs) = fst ` set gs \<union> vc_artifactId ` set vs"
proof (induction vs arbitrary: gs)
  case (Cons v vs)
  have "fst ` set (groupStep gs v) = insert (vc_artifactId v) (fst ` set gs)"
    by (auto simp: groupStep_def dom_update [unfolded dom_map_of_conv_image_fst] split: option.splits)
  then show ?case using Cons by auto
qed simp

lemma groups_one:
  assumes "vs \<noteq> []"
  shows "length (foldl groupStep [] vs) \<le> 1 \<longleftrightarrow> (\<exists>i. \<forall>v \<in> set vs. vc_artifactId v = i)"
    and "\<forall>v \<in> set vs. vc_artifactId v = i \<Longrightarrow> foldl groupStep [] vs = [(i, vs)]"
proof -
  show single: "foldl groupStep [] vs = [(i, vs)]" if "\<forall>v \<in> set vs. vc_artifactId v = i" for i
    using assms that groups_same [of "tl vs" i "[hd vs]"] by (cases vs) (auto simp: groupStep_def)
  show "length (foldl groupStep [] vs) \<le> 1 \<longleftrightarrow> (\<exists>i. \<forall>v \<in> set vs. vc_artifactId v = i)"
  proof
    assume le: "length (foldl groupStep [] vs) \<le> 1"
    have "vc_artifactId ` set vs = fst ` set (foldl groupStep [] vs)" using groups_keys [of "[]" vs] by simp
    moreover obtain gs where "foldl groupStep [] vs = gs" "length gs \<le> 1" using le by blast
    ultimately show "\<exists>i. \<forall>v \<in> set vs. vc_artifactId v = i" by (cases gs) auto
  next
    assume "\<exists>i. \<forall>v \<in> set vs. vc_artifactId v = i"
    then obtain i where "\<forall>v \<in> set vs. vc_artifactId v = i" by blast
    from single [OF this] show "length (foldl groupStep [] vs) \<le> 1" by simp
  qed
qed

lemma pick_Inr:
  "pick ns by' (vs, bad) amb nf = Inr r \<longleftrightarrow> bad = [] \<and> vs \<noteq> [] \<and> (\<exists>i. \<forall>v \<in> set vs. vc_artifactId v = i) \<and> r = resolvedOf ns by' vs"
proof (cases "bad = [] \<and> vs \<noteq> []")
  case True
  have "pick ns by' (vs, bad) amb nf = (if length (foldl groupStep [] vs) \<le> 1 then Inr (resolvedOf ns by' (snd (hd (foldl groupStep [] vs)))) else Inl amb)"
    using True by (simp add: pick_def Let_def not_le)
  then show ?thesis
  proof (cases "\<exists>i. \<forall>v \<in> set vs. vc_artifactId v = i")
    case same: True
    then obtain i where "\<forall>v \<in> set vs. vc_artifactId v = i" by blast
    then have "foldl groupStep [] vs = [(i, vs)]" using groups_one(2) True by blast
    then have "pick ns by' (vs, bad) amb nf = Inr (resolvedOf ns by' vs)" using True by (simp add: pick_def)
    then show ?thesis using True same by auto
  next
    case False
    then have "\<not> length (foldl groupStep [] vs) \<le> 1" using True groups_one(1) [of vs] by blast
    then show ?thesis using False True \<open>pick ns by' (vs, bad) amb nf = _\<close> by simp
  qed
qed (auto simp: pick_def)

subsection \<open>Answers\<close>

text \<open>Which artifacts answer a lookup, and which identity it asks for.\<close>

fun answers :: "LookupInput \<Rightarrow> json \<Rightarrow> string option \<Rightarrow> bool" where
  "answers (LArtifact v) = claims v"
| "answers (LPlan v) = (\<lambda>a _. starts_with (schemaOf a) schemaTxPlan \<and> jget a ''planId'' = JStr v)"
| "answers (LSigned v) = (\<lambda>a _. starts_with (schemaOf a) schemaSignedTx \<and> jget a ''signedId'' = JStr v)"
| "answers (LTx v) = (\<lambda>a _. isReceiptArtifact a \<and> jget a ''txId'' = JStr v)"
| "answers (LWorkflow v) = (\<lambda>a _. schemaOf a = schemaWorkflowV1 \<and> jget a ''workflowId'' = JStr v)"

fun asked :: "LookupInput \<Rightarrow> string \<Rightarrow> bool" where
  "asked (LArtifact v) i = (i = v)"
| "asked _ i = True"

fun well_formed_lookup :: "LookupInput \<Rightarrow> bool" where
  "well_formed_lookup (LArtifact v) = HEX64 v"
| "well_formed_lookup l = (lookupValue l \<noteq> [])"

fun extraOf :: "LookupInput \<Rightarrow> string \<Rightarrow> string option" where
  "extraOf (LArtifact v) = identityMismatch v"
| "extraOf _ = (\<lambda>_. None)"

fun resolvedBy :: "LookupInput \<Rightarrow> ResolvedBy" where
  "resolvedBy (LArtifact v) = ByArtifactId" | "resolvedBy (LPlan v) = ByLabel" | "resolvedBy (LSigned v) = ByLabel"
| "resolvedBy (LTx v) = ByTxId" | "resolvedBy (LWorkflow v) = ByWorkflowId"

lemma extraOf_None: "extraOf l i = None \<longleftrightarrow> asked l i"
  by (cases l) (auto simp: identityMismatch_def)

lemma HEX64_no_path: "HEX64 v \<Longrightarrow> \<not> looksLikePath v \<and> v \<noteq> []"
proof -
  assume v: "HEX64 v"
  have "c \<noteq> CHR ''/'' \<and> c \<noteq> CHR 0x5C \<and> c \<noteq> CHR ''.''" if "is_lower_hex c" for c
    using that by (auto simp: is_lower_hex_def is_digit_def)
  moreover have "list_all is_lower_hex v" "length v = 64" using v by (simp_all add: HEX64_def)
  ultimately show ?thesis by (cases v) (auto simp: looksLikePath_def starts_with_def list_all_iff)
qed

text \<open>A lookup is the candidates that answer it, picked.\<close>

lemma resolve_collect:
  assumes "well_formed_lookup l"
  shows "resolveArtifactSync sha readPath es (Inr l) = Inr r \<longleftrightarrow>
    (\<exists>found. collect sha (answers l) (extraOf l) es ([], []) = Inr found \<and> pick (namespaceOf l) (resolvedBy l) found a b = Inr r)"
proof -
  have pick: "pick ns by' found a' b' = Inr r \<longleftrightarrow> pick ns by' found a b = Inr r" for ns by' a' b' found
    using pick_Inr [of ns by' "fst found" "snd found"] by simp
  show ?thesis
  proof (cases l)
    case (LWorkflow v)
    have runs: "(let runs = map (\<lambda>g. resolvedOf NsWorkflow ByWorkflowId (snd g)) (foldl groupStep [] vs) in
        (if runs = [] then Inl ''ARTIFACT_NOT_FOUND'' else if length runs > 1 then Inl ''REFERENCE_AMBIGUOUS'' else Inr (hd runs))) = Inr r \<longleftrightarrow>
      pick NsWorkflow ByWorkflowId (vs, []) a b = Inr r" for vs
    proof (cases "vs = []")
      case False
      then have "foldl groupStep [] vs \<noteq> []" using groups_keys [of "[]" vs] by auto
      then show ?thesis using False by (simp add: pick_def Let_def hd_map)
    qed (simp add: pick_def)
    let ?c = "collect sha (answers l) (extraOf l) es ([], [])"
    have eq: "resolveArtifactSync sha readPath es (Inr l) = bindE (resolveWorkflowRuns sha es v) (\<lambda>runs.
        if runs = [] then Inl ''ARTIFACT_NOT_FOUND'' else if length runs > 1 then Inl ''REFERENCE_AMBIGUOUS'' else Inr (hd runs))"
      using assms LWorkflow by (simp add: resolveArtifactSync_def resolveLookup.simps [of _ _ _ "LWorkflow v"])
    have "resolveArtifactSync sha readPath es (Inr l) = Inr r \<longleftrightarrow> (\<exists>vs. ?c = Inr (vs, []) \<and> pick NsWorkflow ByWorkflowId (vs, []) a b = Inr r)"
      unfolding runs [symmetric] eq using LWorkflow by (cases ?c) (auto simp: resolveWorkflowRuns_def Let_def)
    moreover have "bad = []" if "pick NsWorkflow ByWorkflowId (vs, bad) a b = Inr r" for vs bad using that unfolding pick_Inr by blast
    ultimately show ?thesis using LWorkflow by auto
  next
    case (LArtifact v)
    then show ?thesis using assms HEX64_no_path [of v] by (simp add: resolveArtifactSync_def resolveLookup.simps [of _ _ _ "LArtifact v"])
        (use pick [where a' = "''REFERENCE_AMBIGUOUS''" and b' = "''ARTIFACT_NOT_FOUND''"] in auto)
  next
    case (LPlan v)
    then show ?thesis using assms by (simp add: resolveArtifactSync_def resolveLookup.simps [of _ _ _ "LPlan v"])
        (use pick [where a' = "''LABEL_AMBIGUOUS''" and b' = "''ARTIFACT_NOT_FOUND''"] in auto)
  next
    case (LSigned v)
    then show ?thesis using assms by (simp add: resolveArtifactSync_def resolveLookup.simps [of _ _ _ "LSigned v"])
        (use pick [where a' = "''LABEL_AMBIGUOUS''" and b' = "''ARTIFACT_NOT_FOUND''"] in auto)
  next
    case (LTx v)
    then show ?thesis using assms by (simp add: resolveArtifactSync_def resolveLookup.simps [of _ _ _ "LTx v"])
        (use pick [where a' = "''RECEIPT_AMBIGUOUS_CONFLICT''" and b' = "''RECEIPT_NOT_FOUND''"] in auto)
  qed
qed

lemma resolve_Inr:
  assumes "well_formed_lookup l"
  shows "resolveArtifactSync sha readPath es (Inr l) = Inr r \<longleftrightarrow>
    (\<forall>e \<in> set es. isAnswer sha (answers l) e \<longrightarrow> accepted sha (extraOf l) e) \<and> filter (isAnswer sha (answers l)) es \<noteq> [] \<and>
    (\<exists>i. \<forall>e \<in> set es. isAnswer sha (answers l) e \<longrightarrow> the (identity sha (we_artifact e)) = i) \<and>
    r = resolvedOf (namespaceOf l) (resolvedBy l) (map (candidateOf sha) (filter (isAnswer sha (answers l)) es))"
proof -
  have ids: "(\<forall>v \<in> set (map (candidateOf sha) (filter (isAnswer sha (answers l)) es)). vc_artifactId v = i) \<longleftrightarrow>
      (\<forall>e \<in> set es. isAnswer sha (answers l) e \<longrightarrow> the (identity sha (we_artifact e)) = i)" for i
    by (auto simp: candidateOf_def)
  have "resolveArtifactSync sha readPath es (Inr l) = Inr r \<longleftrightarrow> (\<exists>vs. collect sha (answers l) (extraOf l) es ([], []) = Inr (vs, []) \<and>
      vs \<noteq> [] \<and> (\<exists>i. \<forall>v \<in> set vs. vc_artifactId v = i) \<and> r = resolvedOf (namespaceOf l) (resolvedBy l) vs)"
    unfolding resolve_collect [OF assms, of _ _ _ _ "[]" "[]"] by (auto simp: pick_Inr)
  also have "\<dots> \<longleftrightarrow> (\<exists>vs. (\<forall>e \<in> set es. isAnswer sha (answers l) e \<longrightarrow> accepted sha (extraOf l) e) \<and>
      vs = map (candidateOf sha) (filter (isAnswer sha (answers l)) es) \<and>
      vs \<noteq> [] \<and> (\<exists>i. \<forall>v \<in> set vs. vc_artifactId v = i) \<and> r = resolvedOf (namespaceOf l) (resolvedBy l) vs)"
    using collect_clean [of sha "answers l" "extraOf l" es "[]"] by simp
  finally show ?thesis unfolding ids [symmetric] by (simp del: set_map)
qed

lemma resolved_identity:
  assumes "well_formed_lookup l" "resolveArtifactSync sha readPath es (Inr l) = Inr r"
  shows "asked l (ra_artifactId r)" "identity sha (ra_artifact r) = Some (ra_artifactId r)"
proof -
  let ?as = "filter (isAnswer sha (answers l)) es"
  have first: "hd ?as \<in> set es \<and> isAnswer sha (answers l) (hd ?as)" if "?as \<noteq> []" using hd_in_set [OF that] by simp
  have r: "?as \<noteq> []" "accepted sha (extraOf l) (hd ?as)" "r = resolvedOf (namespaceOf l) (resolvedBy l) (map (candidateOf sha) ?as)"
    using assms(2) first unfolding resolve_Inr [OF assms(1)] by blast+
  then obtain i where i: "identity sha (we_artifact (hd ?as)) = Some i" "asked l i"
    by (auto simp: accepted_def extraOf_None split: option.splits)
  have "ra_artifactId r = i" "ra_artifact r = we_artifact (hd ?as)"
    using r(1) i(1) unfolding r(3) by (simp_all add: resolvedOf_def Let_def hd_map candidateOf_def)
  then show "asked l (ra_artifactId r)" "identity sha (ra_artifact r) = Some (ra_artifactId r)" using i by simp_all
qed

text \<open>C11: a lookup answers with one verified identity or not at all. For every namespace, the resolver returns an artifact
  if and only if the store has an entry that answers the lookup and every such entry verifies as the same identity
  (the one asked for, when an identity is asked for): a candidate that does not verify or a second identity refuses the
  lookup. What it returns is the first such entry with its recomputed hash, and the paths of all copies.\<close>

theorem lookup_fails_closed:
  assumes "well_formed_lookup l"
  shows "((\<exists>r. resolveArtifactSync sha readPath es (Inr l) = Inr r) \<longleftrightarrow>
     (\<exists>i. asked l i \<and> (\<exists>e \<in> set es. isAnswer sha (answers l) e) \<and>
        (\<forall>e \<in> set es. isAnswer sha (answers l) e \<longrightarrow> identity sha (we_artifact e) = Some i))) \<and>
   (\<forall>r. resolveArtifactSync sha readPath es (Inr l) = Inr r \<longrightarrow>
     asked l (ra_artifactId r) \<and> recomputeDeclaredContentHash sha (ra_artifact r) = Inr (ra_artifactId r) \<and>
     (\<exists>e. hd (filter (isAnswer sha (answers l)) es) = e \<and> e \<in> set es \<and> ra_artifact r = we_artifact e \<and> ra_path r = we_path e) \<and>
     ra_copies r = map we_path (filter (isAnswer sha (answers l)) es))"
proof -
  let ?as = "filter (isAnswer sha (answers l)) es"
  have acc: "accepted sha (extraOf l) e \<longleftrightarrow> (\<exists>i. identity sha (we_artifact e) = Some i \<and> asked l i)" for e
    by (auto simp: accepted_def extraOf_None split: option.splits)
  have first: "hd ?as \<in> set es \<and> isAnswer sha (answers l) (hd ?as)" if "?as \<noteq> []" using hd_in_set [OF that] by simp
  have "(\<exists>i. asked l i \<and> (\<exists>e \<in> set es. isAnswer sha (answers l) e) \<and> (\<forall>e \<in> set es. isAnswer sha (answers l) e \<longrightarrow> identity sha (we_artifact e) = Some i)) \<longleftrightarrow>
    (\<forall>e \<in> set es. isAnswer sha (answers l) e \<longrightarrow> accepted sha (extraOf l) e) \<and> ?as \<noteq> [] \<and>
    (\<exists>i. \<forall>e \<in> set es. isAnswer sha (answers l) e \<longrightarrow> the (identity sha (we_artifact e)) = i)"
    (is "?unique \<longleftrightarrow> ?clean")
  proof
    assume ?unique
    then show ?clean unfolding filter_empty_conv acc by fastforce
  next
    assume c: ?clean
    then obtain i where i: "\<forall>e \<in> set es. isAnswer sha (answers l) e \<longrightarrow> the (identity sha (we_artifact e)) = i" by blast
    have "identity sha (we_artifact e) = Some i \<and> asked l i" if "e \<in> set es" "isAnswer sha (answers l) e" for e
      using c i acc that by fastforce
    then show ?unique using first c by blast
  qed
  moreover have "asked l (ra_artifactId r) \<and> recomputeDeclaredContentHash sha (ra_artifact r) = Inr (ra_artifactId r) \<and>
     (\<exists>e. hd ?as = e \<and> e \<in> set es \<and> ra_artifact r = we_artifact e \<and> ra_path r = we_path e) \<and> ra_copies r = map we_path ?as"
    if "resolveArtifactSync sha readPath es (Inr l) = Inr r" for r
  proof -
    have r: "?as \<noteq> []" "r = resolvedOf (namespaceOf l) (resolvedBy l) (map (candidateOf sha) ?as)"
      using that unfolding resolve_Inr [OF assms] by blast+
    have "ra_artifact r = we_artifact (hd ?as)" "ra_path r = we_path (hd ?as)" "ra_copies r = map we_path ?as"
      using r(1) unfolding r(2) by (simp_all add: resolvedOf_def Let_def hd_map candidateOf_def)
    then show ?thesis using resolved_identity [OF assms that] identity_recomputed first [OF r(1)] by simp
  qed
  ultimately show ?thesis using resolve_Inr [OF assms] by blast
qed


text \<open>A store with two copies of one artifact.\<close>

definition ex_entry :: "string \<Rightarrow> json \<Rightarrow> WorkspaceArtifactEntry" where
  "ex_entry p a = \<lparr>we_path = p, we_relativeSubpath = p, we_subDir = ''root'', we_artifact = a\<rparr>"

definition ex_receipt :: json where
  "ex_receipt = JObj [(''schema'', JStr schemaTxReceipt), (''hashVersion'', JNum 5), (''txId'', JStr ''t''), (''contentHash'', JStr (ex_hash []))]"

definition ex_store_entries :: store where
  "ex_store_entries = [ex_entry ''/w/artifacts/r.json'' ex_receipt, ex_entry ''/w/artifacts/receipts/r.json'' ex_receipt]"

theorem lookup_fails_closed_witness:
  "\<exists>r. resolveArtifactSync ex_hash (\<lambda>_. Inl []) ex_store_entries (Inr (LTx ''t'')) = Inr r \<and>
     recomputeDeclaredContentHash ex_hash (ra_artifact r) = Inr (ra_artifactId r)"
proof -
  have f: "well_formed_lookup (LTx ''t'')" "asked (LTx ''t'') (ex_hash [])"
    "list_all (\<lambda>e. isAnswer ex_hash (answers (LTx ''t'')) e \<and> identity ex_hash (we_artifact e) = Some (ex_hash [])) ex_store_entries"
    by code_simp+
  then have e: "isAnswer ex_hash (answers (LTx ''t'')) e \<and> identity ex_hash (we_artifact e) = Some (ex_hash [])" if "e \<in> set ex_store_entries" for e
    using that by (simp add: list_all_iff)
  have "ex_entry ''/w/artifacts/r.json'' ex_receipt \<in> set ex_store_entries" by (simp add: ex_store_entries_def)
  with e f(2) have "\<exists>i. asked (LTx ''t'') i \<and> (\<exists>e \<in> set ex_store_entries. isAnswer ex_hash (answers (LTx ''t'')) e) \<and>
      (\<forall>e \<in> set ex_store_entries. isAnswer ex_hash (answers (LTx ''t'')) e \<longrightarrow> identity ex_hash (we_artifact e) = Some i)" by blast
  then show ?thesis using lookup_fails_closed [OF f(1), of ex_hash "\<lambda>_. Inl []" ex_store_entries] by blast
qed

subsection \<open>Distinct artifacts\<close>

lemma verified_entries:
  assumes "verifiedWorkspaceEntries sha entries = Inr V"
  shows "V = map (\<lambda>e. (e, identity sha (we_artifact e))) entries"
  using assms unfolding verifiedWorkspaceEntries_def
proof (induction entries arbitrary: V)
  case (Cons e es)
  then show ?case by (auto simp: identity_def)
qed simp

lemma compareStoreCopies_less: "compareStoreCopies a b < 0 \<longleftrightarrow> atStoreRoot a < atStoreRoot b \<or> atStoreRoot a = atStoreRoot b \<and> a < b"
  by (auto simp: compareStoreCopies_def Let_def deterministicCompare_def)

lemma compareStoreCopies_trans: "compareStoreCopies a b < 0 \<Longrightarrow> \<not> compareStoreCopies c b < 0 \<Longrightarrow> \<not> compareStoreCopies c a < 0"
  unfolding compareStoreCopies_less by auto

lemma representStep_get:
  "map_of (representStep R (e, j)) i = (if j = Some i then
     Some (case map_of R i of None \<Rightarrow> e | Some y \<Rightarrow> if compareStoreCopies (we_path e) (we_path y) < 0 then e else y) else map_of R i)"
  by (auto simp: representStep_def split: option.splits)

lemma representative_spec:
  "(\<exists>e. map_of (foldl representStep [] V) i = Some e) \<longleftrightarrow> Some i \<in> snd ` set V"
  "map_of (foldl representStep [] V) i = Some e \<Longrightarrow> (e, Some i) \<in> set V"
  "map_of (foldl representStep [] V) i = Some e \<Longrightarrow> (e', Some i) \<in> set V \<Longrightarrow> \<not> compareStoreCopies (we_path e') (we_path e) < 0"
proof (induction V arbitrary: i e e' rule: rev_induct)
  case (snoc v V)
  { case 1
    then show ?case using snoc(1) by (cases v) (auto simp: representStep_get)
  next
    case 2
    then show ?case using snoc(2) by (cases v) (auto simp: representStep_get split: option.splits if_splits)
  next
    case 3
    have irrefl: "\<not> compareStoreCopies p p < 0" for p by (simp add: compareStoreCopies_less)
    have none: "(e', Some i) \<notin> set V" if "map_of (foldl representStep [] V) i = None" for e' using snoc(1) [of i] that by force
    obtain e0 o0 where v: "v = (e0, o0)" by (cases v)
    let ?cur = "map_of (foldl representStep [] V) i"
    have old: "\<not> compareStoreCopies (we_path x) (we_path y) < 0" if "?cur = Some y" "(x, Some i) \<in> set V" for x y using snoc(3) that .
    show ?case
    proof (cases "o0 = Some i")
      case False
      then have "?cur = Some e" "(e', Some i) \<in> set V" using 3 by (auto simp: v representStep_get)
      then show ?thesis by (rule old)
    next
      case True
      then have at: "(case ?cur of None \<Rightarrow> e0 | Some y \<Rightarrow> if compareStoreCopies (we_path e0) (we_path y) < 0 then e0 else y) = e"
        using 3(1) by (simp add: v representStep_get)
      have e': "e' = e0 \<or> (e', Some i) \<in> set V" using 3(2) by (auto simp: v)
      show ?thesis
      proof (cases ?cur)
        case None
        then show ?thesis using at e' none irrefl by auto
      next
        case (Some y)
        then show ?thesis using at e' old [OF Some] irrefl compareStoreCopies_trans [of "we_path e0" "we_path y" "we_path e'"]
          by (cases "compareStoreCopies (we_path e0) (we_path y) < 0") auto
      qed
    qed
  }
qed auto

lemma length_setOrder: "length (setOrder xs) = card (set xs)"
  by (simp add: setOrder_def length_remdups_card_conv)

text \<open>The list of artifacts and their count agree. The distinct artifacts of a store are as many as it counts: every
  identity that verifies is listed once, by the copy that comes first (one in a canonical subdirectory before one at the
  store root, then by path), and every entry that does not verify is listed on its own.\<close>

theorem artifacts_listed_once:
  assumes "distinct (map we_path entries)" "distinctWorkspaceArtifacts sha entries = Inr ds" "countWorkspaceArtifacts sha entries = Inr c"
  shows "ac_artifacts c = length ds \<and> ac_entries c = length entries \<and> set ds \<subseteq> set entries \<and>
    (\<forall>e \<in> set entries. identity sha (we_artifact e) = None \<longrightarrow> e \<in> set ds) \<and>
    (\<forall>e \<in> set entries. identity sha (we_artifact e) \<noteq> None \<longrightarrow> (\<exists>!r. r \<in> set ds \<and> identity sha (we_artifact r) = identity sha (we_artifact e))) \<and>
    (\<forall>e \<in> set entries. \<forall>r \<in> set ds. identity sha (we_artifact e) \<noteq> None \<and> identity sha (we_artifact r) = identity sha (we_artifact e) \<longrightarrow>
       \<not> compareStoreCopies (we_path e) (we_path r) < 0)"
proof -
  let ?id = "\<lambda>e. identity sha (we_artifact e)"
  define V where "V = map (\<lambda>e. (e, ?id e)) entries"
  define rep where "rep = foldl representStep [] V"
  let ?chosen = "\<lambda>v. case snd v of None \<Rightarrow> True | Some i \<Rightarrow> map_of rep i = Some (fst v)"
  have V: "verifiedWorkspaceEntries sha entries = Inr V" using assms(2) verified_entries by (auto simp: distinctWorkspaceArtifacts_def V_def)
  have ds: "ds = map fst (filter ?chosen V)" using assms(2) V unfolding distinctWorkspaceArtifacts_def rep_def Let_def by simp
  have c: "ac_artifacts c = card (set (List.map_filter snd V)) + length (filter (\<lambda>v. snd v = None) V)" "ac_entries c = length entries"
    using assms(3) V by (auto simp: countWorkspaceArtifacts_def Let_def length_setOrder V_def)
  have dV: "distinct V" unfolding V_def by (rule distinct_map [THEN iffD2]) (use assms(1) in \<open>auto simp: distinct_map inj_on_def\<close>)
  have mem: "(e, o') \<in> set V \<longleftrightarrow> e \<in> set entries \<and> o' = ?id e" for e o' by (auto simp: V_def)
  have in_ds: "e \<in> set ds \<longleftrightarrow> e \<in> set entries \<and> (case ?id e of None \<Rightarrow> True | Some i \<Rightarrow> map_of rep i = Some e)" for e
    by (cases "?id e") (auto simp: ds V_def image_iff)
  note r = representative_spec [of V, folded rep_def]
  have rep: "\<exists>r. map_of rep i = Some r \<and> r \<in> set entries \<and> ?id r = Some i" if "e \<in> set entries" "?id e = Some i" for e i
    using r(1) [of i] r(2) [of i] that mem by force
  let ?F = "filter (\<lambda>v. snd v \<noteq> None \<and> ?chosen v) V"
  have "length ?F = card (set ?F)" by (rule distinct_card [symmetric]) (rule distinct_filter [OF dV])
  also have "\<dots> = card ((\<lambda>v. the (snd v)) ` set ?F)"
    by (rule card_image [symmetric]) (auto simp: inj_on_def split: option.splits)
  also have "(\<lambda>v. the (snd v)) ` set ?F = set (List.map_filter snd V)"
    using rep mem by (fastforce simp: List.map_filter_def image_iff split: option.splits)
  finally have F: "length ?F = card (set (List.map_filter snd V))" .
  have "length (filter ?chosen V) = length ?F + length (filter (\<lambda>v. snd v = None) V)"
    by (induction V) (auto split: option.splits)
  then have count: "ac_artifacts c = length ds" using F c(1) by (simp add: ds)
  have unique: "\<exists>!r. r \<in> set ds \<and> ?id r = ?id e" if "e \<in> set entries" "?id e \<noteq> None" for e
    using rep [OF that(1)] that(2) in_ds by fastforce
  have first: "\<not> compareStoreCopies (we_path e) (we_path r) < 0" if "e \<in> set entries" "r \<in> set ds" "?id e \<noteq> None" "?id r = ?id e" for e r
    using that in_ds [of r] r(3) mem by force
  show ?thesis using count c(2) in_ds unique first by auto
qed


theorem artifacts_listed_once_witness:
  "\<exists>ds c. distinctWorkspaceArtifacts ex_hash ex_store_entries = Inr ds \<and> countWorkspaceArtifacts ex_hash ex_store_entries = Inr c \<and>
     ac_artifacts c = length ds \<and> map we_path ds = [''/w/artifacts/receipts/r.json''] \<and> ac_entries c = 2"
proof -
  have f: "distinct (map we_path ex_store_entries)"
    "distinctWorkspaceArtifacts ex_hash ex_store_entries = Inr [ex_entry ''/w/artifacts/receipts/r.json'' ex_receipt]"
    "countWorkspaceArtifacts ex_hash ex_store_entries = Inr \<lparr>ac_artifacts = 1, ac_entries = 2, ac_unverified = 0\<rparr>" by code_simp+
  show ?thesis using artifacts_listed_once [OF f] f by (simp add: ex_entry_def)
qed

end
