(* ===== verification/HK_Chain.thy ===== *)
theory HK_Chain
  imports HK_ResolveProps
begin

text \<open>
  Provenance chains: \<open>packages/artifacts/src/lineage-chain.ts\<close>. The parent of an artifact is looked up through a given
  resolver and the store; a chain is walked up to its root. The details of a resolution, which only describe it, are
  left out.
\<close>

subsection \<open>Parents\<close>

datatype ParentStatus = Resolved | Missing | Invalid | Unresolved | Root

record ParentResolution =
  pr_status :: ParentStatus
  pr_artifactId :: "string option"
  pr_artifact :: json

text \<open>A lookup: the store that is searched, if there is a workspace, and the resolver that is asked first, if one is given;
  it returns \<open>undefined\<close> for what it does not know.\<close>

record ParentLookup =
  lk_workspace :: "store option"
  lk_resolveArtifact :: "(string \<Rightarrow> json) option"

definition parentReferenceOf :: "json \<Rightarrow> string option" where
  "parentReferenceOf artifact =
     (let lineage = jget artifact ''lineage'' in
      if truthy lineage \<and> \<not> isPrimitive lineage \<and> lineage \<noteq> JFunction \<and> ''parentArtifactId'' \<in> set (keysOf lineage) then
        (let i = jget lineage ''parentArtifactId'' in
         if text_of i \<noteq> [] \<and> i \<noteq> jget lineage ''artifactId'' then Some (text_of i) else None)
      else (let legacy = jget artifact ''parentArtifactId'' in if is_HEX64 legacy then Some (text_of legacy) else None))"

definition parentIs :: "ParentStatus \<Rightarrow> string \<Rightarrow> json \<Rightarrow> ParentResolution" where
  "parentIs status i a = \<lparr>pr_status = status, pr_artifactId = Some i, pr_artifact = a\<rparr>"

text \<open>The search of the store, with the \<open>catch\<close>: what is not there is missing, any other failure invalid.\<close>

definition searchStore :: "(string \<Rightarrow> string) \<Rightarrow> store option \<Rightarrow> string \<Rightarrow> ParentResolution" where
  "searchStore sha workspace i =
     (case workspace of
        None \<Rightarrow> parentIs Unresolved i JUndefined
      | Some entries \<Rightarrow>
          (case resolveArtifactSync sha (\<lambda>_. Inl []) entries (Inr (LArtifact i)) of
             Inr r \<Rightarrow> parentIs Resolved i (ra_artifact r)
           | Inl code \<Rightarrow> parentIs (if code = ''ARTIFACT_NOT_FOUND'' then Missing else Invalid) i JUndefined))"

definition resolveParentReference :: "(string \<Rightarrow> string) \<Rightarrow> ParentLookup \<Rightarrow> json \<Rightarrow> ParentResolution result" where
  "resolveParentReference sha lookup artifact =
     (case parentReferenceOf artifact of
        None \<Rightarrow> Inr \<lparr>pr_status = Root, pr_artifactId = None, pr_artifact = JUndefined\<rparr>
      | Some i \<Rightarrow>
          if \<not> HEX64 i then Inr (parentIs Invalid i JUndefined)
          else (case lk_resolveArtifact lookup of
              None \<Rightarrow> Inr (searchStore sha (lk_workspace lookup) i)
            | Some resolve \<Rightarrow>
                (let found = resolve i in
                 if truthy found then
                   bindE (checkArtifactIdentity sha found) (\<lambda>check.
                     Inr (if identityOption check = Some i then parentIs Resolved i found else parentIs Invalid i JUndefined))
                 else if lk_workspace lookup = None then Inr (parentIs Missing i JUndefined)
                 else Inr (searchStore sha (lk_workspace lookup) i))))"

subsection \<open>Chains\<close>

datatype LinkStatus = Here | Ancestor ParentStatus

record LineageChainLink =
  cl_artifactId :: "string option"
  cl_schema :: "string option"
  cl_status :: LinkStatus

record ResolvedLineageChain =
  rl_links :: "LineageChainLink list"
  rl_complete :: bool
  rl_issues :: "string list"

definition MAX_LINEAGE_HOPS :: nat where
  "MAX_LINEAGE_HOPS = 64"

definition stringField :: "json \<Rightarrow> string \<Rightarrow> string option" where
  "stringField a k = (case jget a k of JStr s \<Rightarrow> Some s | _ \<Rightarrow> None)"

definition identityOf :: "(string \<Rightarrow> string) \<Rightarrow> json \<Rightarrow> string option result" where
  "identityOf sha a = bindE (checkArtifactIdentity sha a) (\<lambda>check.
     Inr (case identityOption check of Some i \<Rightarrow> Some i | None \<Rightarrow> stringField a ''contentHash''))"

definition linkErrors :: "json \<Rightarrow> json \<Rightarrow> string list" where
  "linkErrors current parent = map fst (filter (\<lambda>i. snd i = LError) (verifyLineage current parent True))"

text \<open>The loop: \<open>hops\<close> are the parent hops left; the walk ends early with a chain, or at a root with the links, the issues
  and the root.\<close>

fun chainLoop ::
    "(string \<Rightarrow> string) \<Rightarrow> ParentLookup \<Rightarrow> nat \<Rightarrow> json \<Rightarrow> string set \<Rightarrow> LineageChainLink list \<Rightarrow> string list \<Rightarrow>
     (ResolvedLineageChain + LineageChainLink list \<times> string list \<times> json) result" where
  "chainLoop sha lookup 0 current visited links issues =
     bindE (resolveParentReference sha lookup current) (\<lambda>parent.
       if pr_status parent = Root then Inr (Inr (links, issues, current))
       else Inr (Inl \<lparr>rl_links = links, rl_complete = False, rl_issues = issues @ [''LINEAGE_DEPTH_EXCEEDED'']\<rparr>))"
| "chainLoop sha lookup (Suc hops) current visited links issues =
     bindE (resolveParentReference sha lookup current) (\<lambda>parent.
       if pr_status parent = Root then Inr (Inr (links, issues, current))
       else if pr_status parent \<noteq> Resolved then
         Inr (Inl \<lparr>rl_links = links @ [\<lparr>cl_artifactId = pr_artifactId parent, cl_schema = None, cl_status = Ancestor (pr_status parent)\<rparr>],
           rl_complete = False, rl_issues = issues\<rparr>)
       else (let parentId = the (pr_artifactId parent) in
         if parentId \<in> visited then
           Inr (Inl \<lparr>rl_links = links, rl_complete = False, rl_issues = issues @ [''LINEAGE_CYCLE_DETECTED'']\<rparr>)
         else chainLoop sha lookup hops (pr_artifact parent) (insert parentId visited)
           (links @ [\<lparr>cl_artifactId = Some parentId, cl_schema = stringField (pr_artifact parent) ''schema'', cl_status = Ancestor Resolved\<rparr>])
           (issues @ linkErrors current (pr_artifact parent))))"

definition rootNames :: "string option \<Rightarrow> json \<Rightarrow> string list" where
  "rootNames reachedRoot root =
     filter (\<lambda>s. s \<noteq> []) ((case reachedRoot of None \<Rightarrow> [] | Some s \<Rightarrow> [s]) @
       [text_of (jget (jget root ''lineage'') ''artifactId''), text_of (jget (jget root ''lineage'') ''rootArtifactId'')])"

definition rootIssues :: "json \<Rightarrow> LineageChainLink list \<Rightarrow> json \<Rightarrow> string list" where
  "rootIssues artifact links root =
     (let declaredRoot = text_of (jget (jget artifact ''lineage'') ''rootArtifactId'') in
      codeIf (length links > 1 \<and> declaredRoot \<noteq> [] \<and> declaredRoot \<notin> set (rootNames (cl_artifactId (last links)) root)) ''ROOT_ARTIFACT_ID_MISMATCH'')"

definition resolveLineageChain :: "(string \<Rightarrow> string) \<Rightarrow> ParentLookup \<Rightarrow> nat \<Rightarrow> json \<Rightarrow> ResolvedLineageChain result" where
  "resolveLineageChain sha lookup maxHops artifact =
     bindE (identityOf sha artifact) (\<lambda>here.
     let first = \<lparr>cl_artifactId = here, cl_schema = stringField artifact ''schema'', cl_status = Here\<rparr>;
         visited = (case here of None \<Rightarrow> {} | Some i \<Rightarrow> if i = [] then {} else {i})
     in bindE (chainLoop sha lookup maxHops artifact visited [first] []) (\<lambda>walk.
       case walk of Inl chain \<Rightarrow> Inr chain
       | Inr (links, issues, root) \<Rightarrow>
           (let issues = issues @ rootIssues artifact links root in Inr \<lparr>rl_links = links, rl_complete = (issues = []), rl_issues = issues\<rparr>)))"

end
