(* ===== verification/HK_ChainProps.thy ===== *)
theory HK_ChainProps
  imports HK_Chain
begin

text \<open>
  Properties of provenance chains. What a client of a lookup relies on is one law, that what is found under an identity
  verifies as that identity; it is the locale \<open>verified_source\<close>, and the lookups of the code are an interpretation of
  it. From it alone, a finite provenance has no repeated ancestor.
\<close>

subsection \<open>Provenance\<close>

text \<open>The ancestors of an artifact, from its parent to a root, as a source finds them.\<close>

inductive provenance :: "(string \<Rightarrow> json option) \<Rightarrow> json \<Rightarrow> json list \<Rightarrow> bool" for look where
  root: "parentReferenceOf a = None \<Longrightarrow> provenance look a []"
| parent: "parentReferenceOf a = Some i \<Longrightarrow> look i = Some p \<Longrightarrow> provenance look p ps \<Longrightarrow> provenance look a (p # ps)"

inductive_cases provenance_NilE: "provenance look a []"
inductive_cases provenance_ConsE: "provenance look a (p # ps)"

lemma provenance_unique: "provenance look a ps \<Longrightarrow> provenance look a qs \<Longrightarrow> ps = qs"
proof (induction arbitrary: qs rule: provenance.induct)
  case (root a)
  then show ?case by (auto elim: provenance.cases)
next
  case (parent a i p ps)
  from parent.prems show ?case
  proof cases
    case root
    then show ?thesis using parent.hyps(1) by simp
  next
    case p: (parent j q qs')
    then have "q = p" using parent.hyps(1,2) by simp
    then show ?thesis using p(1,4) parent.IH by simp
  qed
qed

locale verified_source =
  fixes look :: "string \<Rightarrow> json option" and ident :: "json \<Rightarrow> string option"
  assumes found_verifies: "look i = Some a \<Longrightarrow> ident a = Some i"
begin

text \<open>Every ancestor verifies as the identity it was referenced by.\<close>

lemma ancestor_identity: "provenance look a ps \<Longrightarrow> p \<in> set ps \<Longrightarrow> \<exists>i. ident p = Some i \<and> look i = Some p"
proof (induction rule: provenance.induct)
  case (parent a i q ps)
  then show ?case using found_verifies by auto
qed simp

lemma parent_identity: "provenance look a (p # ps) \<Longrightarrow> parentReferenceOf a = ident p"
  by (auto elim: provenance_ConsE simp: found_verifies)

lemma suffix_provenance: "provenance look a (ps @ q # qs) \<Longrightarrow> provenance look q qs"
  by (induction ps arbitrary: a) (auto elim: provenance_ConsE)

text \<open>No identity occurs twice among the ancestors: it would repeat its own ancestors for ever.\<close>

lemma ancestors_distinct: "provenance look a ps \<Longrightarrow> distinct (map ident ps)"
proof (induction rule: provenance.induct)
  case (parent a i p ps)
  have "ident p \<notin> ident ` set ps"
  proof
    assume "ident p \<in> ident ` set ps"
    then obtain q where q: "q \<in> set ps" "ident q = ident p" by auto
    then obtain xs ys where ps: "ps = xs @ q # ys" by (auto simp: in_set_conv_decomp)
    obtain j where "ident q = Some j" "look j = Some q" using ancestor_identity [OF parent.hyps(3) q(1)] by blast
    then have "p = q" using q(2) found_verifies [OF parent.hyps(2)] parent.hyps(2) by simp
    then have "provenance look p ys" using suffix_provenance parent.hyps(3) ps by blast
    then have "ys = ps" using provenance_unique parent.hyps(3) by blast
    then show False using ps by simp
  qed
  then show ?case using parent.IH by simp
qed simp

end

text \<open>What a lookup of the code finds under a reference.\<close>

definition findParent :: "(string \<Rightarrow> string) \<Rightarrow> ParentLookup \<Rightarrow> string \<Rightarrow> json option" where
  "findParent sha lookup i =
     (case resolveParentReference sha lookup (JObj [(''lineage'', JObj [(''parentArtifactId'', JStr i)])]) of
        Inl _ \<Rightarrow> None
      | Inr parent \<Rightarrow> if pr_status parent = Resolved then Some (pr_artifact parent) else None)"

lemma parentReferenceOf_child: "i \<noteq> [] \<Longrightarrow> parentReferenceOf (JObj [(''lineage'', JObj [(''parentArtifactId'', JStr i)])]) = Some i"
  by (simp add: parentReferenceOf_def keysOf_def text_of_def)

lemma reference_nonempty: "parentReferenceOf a = Some i \<Longrightarrow> i \<noteq> []"
  by (auto simp: parentReferenceOf_def Let_def is_HEX64_iff HEX64_def text_of_def split: if_splits)

lemma resolve_by_reference:
  "parentReferenceOf a = parentReferenceOf b \<Longrightarrow> resolveParentReference sha lookup a = resolveParentReference sha lookup b"
  by (simp add: resolveParentReference_def)

lemma findParent_eq:
  assumes "parentReferenceOf a = Some i"
  shows "findParent sha lookup i = (case resolveParentReference sha lookup a of Inl _ \<Rightarrow> None
    | Inr parent \<Rightarrow> if pr_status parent = Resolved then Some (pr_artifact parent) else None)"
  using resolve_by_reference [of a "JObj [(''lineage'', JObj [(''parentArtifactId'', JStr i)])]"] assms
    parentReferenceOf_child [OF reference_nonempty [OF assms]] by (simp add: findParent_def)

lemma resolveParent_cases:
  assumes "parentReferenceOf a = Some i" "resolveParentReference sha lookup a = Inr parent"
  shows "pr_artifactId parent = Some i" "pr_status parent \<noteq> Root"
    "pr_status parent = Resolved \<Longrightarrow> HEX64 i \<and> identity sha (pr_artifact parent) = Some i"
proof -
  have store: "pr_artifactId (searchStore sha w i) = Some i" "pr_status (searchStore sha w i) \<noteq> Root"
    "HEX64 i \<Longrightarrow> pr_status (searchStore sha w i) = Resolved \<Longrightarrow> identity sha (pr_artifact (searchStore sha w i)) = Some i" for w
  proof -
    show "pr_artifactId (searchStore sha w i) = Some i" "pr_status (searchStore sha w i) \<noteq> Root"
      by (simp_all add: searchStore_def parentIs_def split: option.split sum.split)
    assume i: "HEX64 i" and res: "pr_status (searchStore sha w i) = Resolved"
    then obtain es r where r: "w = Some es" "resolveArtifactSync sha (\<lambda>_. Inl []) es (Inr (LArtifact i)) = Inr r"
      "pr_artifact (searchStore sha w i) = ra_artifact r"
      by (auto simp: searchStore_def parentIs_def split: option.splits sum.splits if_splits)
    show "identity sha (pr_artifact (searchStore sha w i)) = Some i" unfolding r(3) using resolved_identity [OF _ r(2)] i by simp
  qed
  show "pr_artifactId parent = Some i" "pr_status parent \<noteq> Root"
    "pr_status parent = Resolved \<Longrightarrow> HEX64 i \<and> identity sha (pr_artifact parent) = Some i"
    using assms store by (auto simp: resolveParentReference_def parentIs_def Let_def identity_def split: if_splits option.splits)
qed

interpretation parents: verified_source "findParent sha lookup" "identity sha" for sha lookup
proof
  fix i a
  assume f: "findParent sha lookup i = Some a"
  show "identity sha a = Some i"
  proof (cases "i = []")
    case True
    then show ?thesis using f by (simp add: findParent_def resolveParentReference_def parentReferenceOf_def text_of_def keysOf_def)
  next
    case False
    note child = parentReferenceOf_child [OF False]
    show ?thesis using f resolveParent_cases(3) [OF child] unfolding findParent_eq [OF child] by (auto split: sum.splits if_splits)
  qed
qed

subsection \<open>The walk\<close>

definition ancestorLink :: "(string \<Rightarrow> string) \<Rightarrow> json \<Rightarrow> LineageChainLink" where
  "ancestorLink sha p = \<lparr>cl_artifactId = identity sha p, cl_schema = stringField p ''schema'', cl_status = Ancestor Resolved\<rparr>"

fun chainErrors :: "json \<Rightarrow> json list \<Rightarrow> string list" where
  "chainErrors a [] = []"
| "chainErrors a (p # ps) = linkErrors a p @ chainErrors p ps"

lemma chainLoop_root: "parentReferenceOf a = None \<Longrightarrow> chainLoop sha lookup n a visited links issues = Inr (Inr (links, issues, a))"
  by (cases n) (simp_all add: resolveParentReference_def)

lemma chainLoop_step:
  assumes "parentReferenceOf a = Some i" "findParent sha lookup i = Some p" "i \<notin> visited"
  shows "chainLoop sha lookup (Suc n) a visited links issues =
    chainLoop sha lookup n p (insert i visited) (links @ [ancestorLink sha p]) (issues @ linkErrors a p)"
proof -
  obtain parent where r: "resolveParentReference sha lookup a = Inr parent" "pr_status parent = Resolved" "pr_artifact parent = p"
    using assms(2) unfolding findParent_eq [OF assms(1)] by (auto split: sum.splits if_splits)
  note c = resolveParent_cases [OF assms(1) r(1)]
  show ?thesis using r c assms(3) by (simp add: ancestorLink_def)
qed

lemma chainLoop_walks:
  assumes "provenance (findParent sha lookup) a ps" "length ps \<le> n" "\<forall>p \<in> set ps. the (identity sha p) \<notin> visited"
  shows "chainLoop sha lookup n a visited links issues = Inr (Inr (links @ map (ancestorLink sha) ps, issues @ chainErrors a ps, last (a # ps)))"
  using assms
proof (induction arbitrary: n visited links issues rule: provenance.induct)
  case (root a)
  then show ?case by (simp add: chainLoop_root)
next
  case (parent a i p ps)
  obtain m where n: "n = Suc m" using parent.prems(1) by (cases n) auto
  have i: "identity sha p = Some i" using parents.found_verifies [OF parent.hyps(2)] .
  have "distinct (map (identity sha) (p # ps))"
    by (rule parents.ancestors_distinct [OF provenance.parent [OF parent.hyps(1-3)]])
  then have fresh: "Some i \<notin> identity sha ` set ps" using i by simp
  have "the (identity sha q) \<notin> insert i visited" if q: "q \<in> set ps" for q
  proof -
    obtain j where "identity sha q = Some j" using parents.ancestor_identity [OF parent.hyps(3) q] by blast
    then show ?thesis using fresh q parent.prems(2) by force
  qed
  then have "chainLoop sha lookup m p (insert i visited) (links @ [ancestorLink sha p]) (issues @ linkErrors a p) =
      Inr (Inr ((links @ [ancestorLink sha p]) @ map (ancestorLink sha) ps, (issues @ linkErrors a p) @ chainErrors p ps, last (p # ps)))"
    using parent.IH [of m "insert i visited"] parent.prems(1) n by simp
  then show ?case using chainLoop_step [OF parent.hyps(1,2), of visited m] parent.prems(2) i n by simp
qed

lemma chainLoop_reaches:
  assumes "chainLoop sha lookup n a visited links issues = Inr (Inr out)"
  shows "\<exists>ps. provenance (findParent sha lookup) a ps \<and> length ps \<le> n \<and> (\<forall>p \<in> set ps. the (identity sha p) \<notin> visited)"
  using assms
proof (induction n arbitrary: a visited links issues)
  case 0
  then obtain parent where r: "resolveParentReference sha lookup a = Inr parent" "pr_status parent = Root" by (auto split: if_splits)
  then have "parentReferenceOf a = None" using resolveParent_cases(2) by (cases "parentReferenceOf a") blast+
  then show ?case using provenance.root by force
next
  case (Suc n)
  show ?case
  proof (cases "parentReferenceOf a")
    case None
    then show ?thesis using provenance.root by force
  next
    case (Some i)
    obtain parent where r: "resolveParentReference sha lookup a = Inr parent" using Suc.prems by auto
    note c = resolveParent_cases [OF Some r]
    have s: "pr_status parent = Resolved" "i \<notin> visited"
      and loop: "chainLoop sha lookup n (pr_artifact parent) (insert i visited)
        (links @ [\<lparr>cl_artifactId = Some i, cl_schema = stringField (pr_artifact parent) ''schema'', cl_status = Ancestor Resolved\<rparr>])
        (issues @ linkErrors a (pr_artifact parent)) = Inr (Inr out)"
      using Suc.prems r c(1,2) by (auto simp: Let_def split: if_splits)
    have p: "findParent sha lookup i = Some (pr_artifact parent)" using r s(1) by (simp add: findParent_eq [OF Some])
    from Suc.IH [OF loop] obtain ps where ps: "provenance (findParent sha lookup) (pr_artifact parent) ps" "length ps \<le> n"
      "\<forall>p \<in> set ps. the (identity sha p) \<notin> insert i visited" by blast
    have "provenance (findParent sha lookup) a (pr_artifact parent # ps)" by (rule provenance.parent [OF Some p ps(1)])
    moreover have "the (identity sha (pr_artifact parent)) \<notin> visited" using c(3) [OF s(1)] s(2) by simp
    ultimately show ?thesis using ps by force
  qed
qed

lemma chainLoop_incomplete: "chainLoop sha lookup n a visited links issues = Inr (Inl c) \<Longrightarrow> \<not> rl_complete c"
proof (induction n arbitrary: a visited links issues)
  case 0
  then show ?case by (auto split: if_splits)
next
  case (Suc n)
  obtain parent where r: "resolveParentReference sha lookup a = Inr parent" using Suc.prems by auto
  show ?case using Suc.prems r Suc.IH by (auto simp: Let_def split: if_splits)
qed

text \<open>The conditions of a complete chain: a root within the hops, no ancestor that is the artifact itself, every link
  passes the strict lineage check, and the declared root is the one that was reached.\<close>

definition complete_provenance :: "(string \<Rightarrow> string) \<Rightarrow> json \<Rightarrow> string option \<Rightarrow> json list \<Rightarrow> bool" where
  "complete_provenance sha a here ps \<longleftrightarrow>
     (\<forall>i. here = Some i \<and> i \<noteq> [] \<longrightarrow> Some i \<notin> identity sha ` set ps) \<and> chainErrors a ps = [] \<and>
     (let declared = text_of (jget (jget a ''lineage'') ''rootArtifactId''); top = jget (last (a # ps)) ''lineage'' in
      ps \<noteq> [] \<and> declared \<noteq> [] \<longrightarrow> identity sha (last ps) = Some declared \<or> text_of (jget top ''artifactId'') = declared \<or>
        text_of (jget top ''rootArtifactId'') = declared)"

lemma rootIssues_Nil:
  assumes "links = first # map (ancestorLink sha) ps"
  shows "rootIssues a links (last (a # ps)) = [] \<longleftrightarrow>
    (let declared = text_of (jget (jget a ''lineage'') ''rootArtifactId''); top = jget (last (a # ps)) ''lineage'' in
      ps \<noteq> [] \<and> declared \<noteq> [] \<longrightarrow> identity sha (last ps) = Some declared \<or> text_of (jget top ''artifactId'') = declared \<or>
        text_of (jget top ''rootArtifactId'') = declared)"
proof (cases "ps = []")
  case False
  then have "last links = ancestorLink sha (last ps)" using assms by (simp add: last_map)
  then show ?thesis using False assms by (auto simp: rootIssues_def Let_def rootNames_def ancestorLink_def split: option.splits)
qed (simp add: rootIssues_def assms Let_def)

lemma start_visited:
  assumes "provenance (findParent sha lookup) a ps"
  shows "(\<forall>p \<in> set ps. the (identity sha p) \<notin> (case here of None \<Rightarrow> {} | Some i \<Rightarrow> if i = [] then {} else {i})) \<longleftrightarrow>
    (\<forall>i. here = Some i \<and> i \<noteq> [] \<longrightarrow> Some i \<notin> identity sha ` set ps)"
proof -
  have "the (identity sha p) = i \<longleftrightarrow> identity sha p = Some i" if p: "p \<in> set ps" for p i
    using parents.ancestor_identity [OF assms p] by auto
  then show ?thesis by (cases here) (auto simp: image_iff)
qed

text \<open>A provenance that satisfies the conditions is reported complete.\<close>

lemma chain_completeI:
  assumes "identityOf sha a = Inr here" "provenance (findParent sha lookup) a ps" "length ps \<le> n" "complete_provenance sha a here ps"
  shows "resolveLineageChain sha lookup n a = Inr \<lparr>rl_links =
      \<lparr>cl_artifactId = here, cl_schema = stringField a ''schema'', cl_status = Here\<rparr> # map (ancestorLink sha) ps, rl_complete = True, rl_issues = []\<rparr>"
proof -
  let ?first = "\<lparr>cl_artifactId = here, cl_schema = stringField a ''schema'', cl_status = Here\<rparr>"
  have v: "\<forall>p \<in> set ps. the (identity sha p) \<notin> (case here of None \<Rightarrow> {} | Some i \<Rightarrow> if i = [] then {} else {i})"
    using assms(4) start_visited [OF assms(2)] unfolding complete_provenance_def by blast
  have "rootIssues a (?first # map (ancestorLink sha) ps) (last (a # ps)) = []" "chainErrors a ps = []"
    using assms(4) rootIssues_Nil [OF refl, of a ?first sha ps] unfolding complete_provenance_def by blast+
  then show ?thesis using assms(1) chainLoop_walks [OF assms(2,3) v, of "[?first]" "[]"] by (simp add: resolveLineageChain_def Let_def)
qed

text \<open>C29: a chain is reported complete exactly when it is. The walk through a resolver and the store says \<open>complete\<close> if and
  only if the artifact has a provenance of at most the given number of verified ancestors up to a root, none of them
  the artifact itself, with every link accepted by the strict check and the declared root reached; the links of the
  report are then the artifact and these ancestors, in order and without repetition.\<close>

theorem chain_complete_exactly:
  assumes "resolveLineageChain sha lookup n a = Inr chain" "identityOf sha a = Inr here"
  shows "(rl_complete chain \<longleftrightarrow> (\<exists>ps. provenance (findParent sha lookup) a ps \<and> length ps \<le> n \<and> complete_provenance sha a here ps)) \<and>
    (\<forall>ps. rl_complete chain \<and> provenance (findParent sha lookup) a ps \<longrightarrow>
       map cl_artifactId (rl_links chain) = here # map (identity sha) ps \<and> distinct (map (identity sha) ps) \<and> rl_issues chain = [])"
proof -
  let ?first = "\<lparr>cl_artifactId = here, cl_schema = stringField a ''schema'', cl_status = Here\<rparr>"
  let ?visited = "case here of None \<Rightarrow> {} | Some i \<Rightarrow> if i = [] then {} else {i}"
  note visited = start_visited [of sha lookup a _ here]
  obtain walk where walk: "chainLoop sha lookup n a ?visited [?first] [] = Inr walk"
    using assms by (auto simp: resolveLineageChain_def Let_def)
  have walked: "walk = Inr (?first # map (ancestorLink sha) ps, chainErrors a ps, last (a # ps))"
    if "provenance (findParent sha lookup) a ps" "length ps \<le> n" "\<forall>p \<in> set ps. the (identity sha p) \<notin> ?visited" for ps
    using chainLoop_walks [OF that, of "[?first]" "[]"] walk by simp
  show ?thesis
  proof (cases walk)
    case (Inl c)
    have "chain = c" using assms walk Inl by (simp add: resolveLineageChain_def Let_def)
    moreover have "\<not> rl_complete c" using chainLoop_incomplete walk Inl by blast
    moreover have "\<not> complete_provenance sha a here ps" if "provenance (findParent sha lookup) a ps" "length ps \<le> n" for ps
      using walked [OF that] visited [OF that(1)] Inl by (auto simp: complete_provenance_def)
    ultimately show ?thesis by blast
  next
    case (Inr out)
    obtain ps where ps: "provenance (findParent sha lookup) a ps" "length ps \<le> n" "\<forall>p \<in> set ps. the (identity sha p) \<notin> ?visited"
      using chainLoop_reaches walk Inr by blast
    have only: "qs = ps" if "provenance (findParent sha lookup) a qs" for qs using provenance_unique [OF that ps(1)] .
    have chain: "chain = \<lparr>rl_links = ?first # map (ancestorLink sha) ps,
        rl_complete = (chainErrors a ps @ rootIssues a (?first # map (ancestorLink sha) ps) (last (a # ps)) = []),
        rl_issues = chainErrors a ps @ rootIssues a (?first # map (ancestorLink sha) ps) (last (a # ps))\<rparr>"
      using assms walk walked [OF ps] by (simp add: resolveLineageChain_def Let_def)
    have eq: "rl_complete chain \<longleftrightarrow> complete_provenance sha a here ps"
      using visited [OF ps(1)] ps(3) rootIssues_Nil [OF refl, of a ?first sha ps] unfolding chain complete_provenance_def by simp
    have links: "map cl_artifactId (rl_links chain) = here # map (identity sha) ps" "rl_complete chain \<Longrightarrow> rl_issues chain = []"
      by (simp_all add: chain ancestorLink_def)
    show ?thesis
    proof (intro conjI allI impI)
      show "rl_complete chain \<longleftrightarrow> (\<exists>ps. provenance (findParent sha lookup) a ps \<and> length ps \<le> n \<and> complete_provenance sha a here ps)"
        unfolding eq using ps(1,2) only by metis
    qed (use only links parents.ancestors_distinct [OF ps(1)] in auto)
  qed
qed

text \<open>A plan and its authorization, under a digest that tells them apart by their length.\<close>

definition ex_length_digest :: "string \<Rightarrow> string" where
  "ex_length_digest s = replicate 64 (if 150 < length s then CHR ''b'' else CHR ''a'')"

definition ex_parent :: json where
  "ex_parent = JObj [(''schema'', JStr schemaTxPlan), (''hashVersion'', JNum 5), (''contentHash'', JStr (replicate 64 (CHR ''a''))),
     (''lineage'', JObj [(''artifactId'', JStr (replicate 64 (CHR ''a''))), (''sequence'', JNum 1)])]"

definition ex_child :: json where
  "ex_child = JObj [(''schema'', JStr schemaSignedTx), (''hashVersion'', JNum 5), (''contentHash'', JStr (replicate 64 (CHR ''b''))),
     (''lineage'', JObj [(''artifactId'', JStr (replicate 64 (CHR ''b''))), (''lineageId'', JStr (replicate 64 (CHR ''a''))),
        (''parentArtifactId'', JStr (replicate 64 (CHR ''a''))), (''rootArtifactId'', JStr (replicate 64 (CHR ''a''))), (''sequence'', JNum 2)])]"

definition ex_chain_lookup :: ParentLookup where
  "ex_chain_lookup = \<lparr>lk_workspace = Some [ex_entry ''/w/artifacts/p.json'' ex_parent], lk_resolveArtifact = None\<rparr>"

lemma ex_chain:
  "identityOf ex_length_digest ex_child = Inr (Some (replicate 64 (CHR ''b'')))" "identity ex_length_digest ex_parent = Some (replicate 64 (CHR ''a''))"
  "parentReferenceOf ex_child = Some (replicate 64 (CHR ''a''))" "parentReferenceOf ex_parent = None"
  "findParent ex_length_digest ex_chain_lookup (replicate 64 (CHR ''a'')) = Some ex_parent" "linkErrors ex_child ex_parent = []"
  "text_of (jget (jget ex_child ''lineage'') ''rootArtifactId'') = replicate 64 (CHR ''a'')"
  by code_simp+

theorem chain_complete_exactly_witness:
  "\<exists>chain. resolveLineageChain ex_length_digest ex_chain_lookup MAX_LINEAGE_HOPS ex_child = Inr chain \<and> rl_complete chain \<and>
     map cl_artifactId (rl_links chain) = [Some (replicate 64 (CHR ''b'')), Some (replicate 64 (CHR ''a''))]"
proof -
  have ps: "provenance (findParent ex_length_digest ex_chain_lookup) ex_child [ex_parent]"
    by (rule provenance.parent [where look = "findParent ex_length_digest ex_chain_lookup", OF ex_chain(3,5)]) (rule provenance.root [OF ex_chain(4)])
  have c: "complete_provenance ex_length_digest ex_child (Some (replicate 64 (CHR ''b''))) [ex_parent]"
    by (simp add: complete_provenance_def ex_chain replicate_eq_replicate)
  obtain chain where r: "resolveLineageChain ex_length_digest ex_chain_lookup MAX_LINEAGE_HOPS ex_child = Inr chain"
    using chain_completeI [OF ex_chain(1) ps _ c, of MAX_LINEAGE_HOPS] by (simp add: MAX_LINEAGE_HOPS_def)
  have "length [ex_parent] \<le> MAX_LINEAGE_HOPS" by (simp add: MAX_LINEAGE_HOPS_def)
  then have complete: "rl_complete chain" using chain_complete_exactly [OF r ex_chain(1)] ps c by blast
  then have "map cl_artifactId (rl_links chain) = Some (replicate 64 (CHR ''b'')) # map (identity ex_length_digest) [ex_parent]"
    using chain_complete_exactly [OF r ex_chain(1)] ps by blast
  then show ?thesis using r complete ex_chain(2) by auto
qed

end
