(* ===== verification/HK_Replay.thy ===== *)
theory HK_Replay
  imports HK_Diff HK_Identity HK_Recovery
begin

text \<open>
  Replay verification: \<open>verifyReplay\<close> of \<open>packages/localnet/src/replay.ts\<close> with the fields of \<open>packages/core/src/replay.ts\<close>
  a replay cannot reproduce. The plan is executed again on the given state and its receipt compared with the recorded
  one; the outcome is a sealed report artifact and the events of the replay.

  The report is a \<^typ>\<open>json\<close> artifact with the fields of the object literal; the events are the arguments given to
  \<open>createEventEnvelope\<close>, in the order they are emitted (the envelope adds a random id and a time). \<open>asTxId\<close> and its like
  return their argument. The messages of errors of the canonical form are their codes.
\<close>

subsection \<open>Texts\<close>

definition REPLAY_UNREPRODUCIBLE_RECEIPT_FIELDS :: "string list" where
  "REPLAY_UNREPRODUCIBLE_RECEIPT_FIELDS = [''createdAt'', ''submittedAt'', ''confirmedAt'', ''rpcUrl'', ''tracePath'', ''sourceSignedId'',
     ''lineage'', ''contentHash'', ''artifactId'', ''hardkasVersion'', ''hashVersion'']"

text \<open>\<open>JSON.stringify(v)\<close>: it throws on a big integer, and gives \<open>undefined\<close> for what has no JSON form.\<close>

fun holdsBigInt :: "json \<Rightarrow> bool" where
  "holdsBigInt (JBigInt i) = True"
| "holdsBigInt (JArr xs) = list_ex holdsBigInt xs"
| "holdsBigInt (JObj es) = list_ex (\<lambda>kv. holdsBigInt (snd kv)) es"
| "holdsBigInt _ = False"

function compactJson :: "json \<Rightarrow> string" where
  "compactJson (JBool b) = (if b then ''true'' else ''false'')"
| "compactJson (JNum i) = int_str i"
| "compactJson (JFrac t) = t"
| "compactJson (JBigInt i) = int_str i"
| "compactJson (JStr s) = json_string s"
| "compactJson (JArr xs) = ''['' @ join_with '','' (map compactJson xs) @ '']''"
| "compactJson (JObj es) = ''{'' @ join_with '',''
     (map (\<lambda>kv. json_string (fst kv) @ '':'' @ compactJson (snd kv)) (filter (\<lambda>kv. \<not> unprintable (snd kv)) es)) @ ''}''"
| "compactJson JUndefined = ''null''" | "compactJson JNull = ''null''" | "compactJson JSymbol = ''null''" | "compactJson JFunction = ''null''"
| "compactJson JMap = ''{}''" | "compactJson JSet = ''{}''" | "compactJson JDate = ''{}''" | "compactJson JNonPlain = ''{}''"
  by pat_completeness auto
termination
proof (relation "measure size", goal_cases)
  case (2 xs x)
  then show ?case by (simp add: less_Suc_eq_le size_list_estimation')
next
  case (3 es x)
  then show ?case using size_json_entry [of "fst x" "snd x" es] by auto
qed simp

definition jsonStringify :: "json \<Rightarrow> json result" where
  "jsonStringify j =
     (if unprintable j then Inr JUndefined
      else if holdsBigInt j then Inl ''Do not know how to serialize a BigInt'' else Inr (JStr (compactJson j)))"

subsection \<open>Checks before the execution\<close>

text \<open>What a check adds: errors and divergences.\<close>

type_synonym findings = "string list \<times> json list"

definition divergence :: "string \<Rightarrow> json \<Rightarrow> json \<Rightarrow> json" where
  "divergence path expected actual = JObj [(''path'', JStr path), (''expected'', expected), (''actual'', actual)]"

definition declaredPlanHash :: "(string \<Rightarrow> string) \<Rightarrow> json \<Rightarrow> string" where
  "declaredPlanHash sha plan =
     (case recomputeDeclaredContentHash sha plan of Inl message \<Rightarrow> ''HASH_VERSION_INVALID:'' @ message | Inr h \<Rightarrow> h)"

definition planDiverges :: "(string \<Rightarrow> string) \<Rightarrow> json \<Rightarrow> bool" where
  "planDiverges sha plan \<longleftrightarrow> truthy (jget plan ''contentHash'') \<and> JStr (declaredPlanHash sha plan) \<noteq> jget plan ''contentHash''"

definition planFindings :: "(string \<Rightarrow> string) \<Rightarrow> json \<Rightarrow> findings" where
  "planFindings sha plan =
     (if planDiverges sha plan
      then ([''TxPlan contentHash mismatch: expected '' @ template_text (jget plan ''contentHash'') @ '', got '' @ declaredPlanHash sha plan],
            [divergence ''plan.contentHash'' (jget plan ''contentHash'') (JStr (declaredPlanHash sha plan))])
      else ([], []))"

definition versionFindings :: "json \<Rightarrow> findings result" where
  "versionFindings receipt =
     (case readDeclaredHashVersion receipt of
        Some v \<Rightarrow> Inr ([], [])
      | None \<Rightarrow> bindE (jsonStringify (jget receipt ''hashVersion'')) (\<lambda>t.
          Inr ([''TxReceipt hashVersion invalid: '' @ template_text t],
               [divergence ''receipt.hashVersion'' (JStr ''an integer hash version declared by the receipt'')
                  (JStr (template_text (jget receipt ''hashVersion'')))])))"

definition digestVersion :: "json \<Rightarrow> int" where
  "digestVersion receipt = (case readDeclaredHashVersion receipt of Some v \<Rightarrow> v | None \<Rightarrow> CURRENT_HASH_VERSION)"

definition preStateFindings :: "(string \<Rightarrow> string) \<Rightarrow> LocalnetState \<Rightarrow> json \<Rightarrow> findings result" where
  "preStateFindings sha state receipt =
     (let originalPreState = jget receipt ''preStateHash'' in
      if truthy originalPreState then
        bindE (calculateStateHash sha state (JNum (digestVersion receipt))) (\<lambda>currentStateHash.
          if JStr currentStateHash \<noteq> originalPreState
          then Inr ([''preStateHash mismatch: expected '' @ template_text originalPreState @ '', got '' @ currentStateHash],
                    [divergence ''preStateHash'' originalPreState (JStr currentStateHash)])
          else Inr ([], []))
      else Inr ([], [JObj [(''path'', JStr ''preStateHash''), (''expected'', JStr ''present''), (''actual'', JStr ''missing''),
                 (''severity'', JStr ''warning'')]]))"

subsection \<open>Findings of the comparison\<close>

definition entryFindings :: "DiffEntry \<Rightarrow> (string \<times> json) result" where
  "entryFindings e =
     (if de_secret e
      then Inr (''Receipt divergence at '' @ de_path e @ '': differs (a secret field; its values are not recorded)'',
                JObj [(''path'', JStr (''receipt.'' @ de_path e)), (''status'', JStr ''differs'')])
      else bindE (jsonStringify (de_left e)) (\<lambda>l. bindE (jsonStringify (de_right e)) (\<lambda>r.
        Inr (''Receipt divergence at '' @ de_path e @ '': expected '' @ template_text l @ '', got '' @ template_text r,
             divergence (''receipt.'' @ de_path e) (de_left e) (de_right e)))))"

subsection \<open>Events\<close>

record ReplayEvent =
  rv_kind :: string
  rv_workflowId :: string
  rv_networkId :: json
  rv_txId :: json
  rv_artifactId :: json
  rv_sequence :: nat
  rv_payload :: json

definition asText :: "json \<Rightarrow> json result" where
  "asText v = (case v of JStr s \<Rightarrow> Inr (JStr s) | _ \<Rightarrow> jsonStringify v)"

definition divergencePayload :: "json \<Rightarrow> json \<Rightarrow> json result" where
  "divergencePayload txId d =
     (let differs = (jget d ''status'' = JStr ''differs'') in
      bindE (if differs then Inr (JStr ''differs'') else asText (jget d ''expected'')) (\<lambda>expected.
      bindE (if differs then Inr (JStr ''differs'') else asText (jget d ''actual'')) (\<lambda>actual.
        Inr (JObj [(''txId'', txId), (''field'', jget d ''path''), (''expected'', expected), (''actual'', actual)]))))"

definition isText :: "json \<Rightarrow> bool" where
  "isText j = (case j of JStr s \<Rightarrow> s \<noteq> [] | _ \<Rightarrow> False)"

definition replayNetwork :: "LocalnetState \<Rightarrow> json \<Rightarrow> json" where
  "replayNetwork state receipt = jor (jget receipt ''networkId'') (jor (JStr (ls_networkId state)) (JStr ''simnet''))"

definition replayEvent :: "LocalnetState \<Rightarrow> json \<Rightarrow> json \<Rightarrow> nat \<Rightarrow> string \<Rightarrow> json \<Rightarrow> ReplayEvent" where
  "replayEvent state receipt artifactId n k payload =
     (let workflowId = jget receipt ''workflowId'' in
      \<lparr>rv_kind = k, rv_workflowId = (if isText workflowId then text_of workflowId else ''replay-'' @ template_text (jget receipt ''txId'')),
       rv_networkId = replayNetwork state receipt, rv_txId = jget receipt ''txId'', rv_artifactId = artifactId, rv_sequence = n, rv_payload = payload\<rparr>)"

fun divergenceEvents :: "LocalnetState \<Rightarrow> json \<Rightarrow> json \<Rightarrow> nat \<Rightarrow> json list \<Rightarrow> ReplayEvent list result" where
  "divergenceEvents state receipt artifactId n [] = Inr []"
| "divergenceEvents state receipt artifactId n (d # ds) =
     bindE (divergencePayload (jget receipt ''txId'') d) (\<lambda>payload.
     bindE (divergenceEvents state receipt artifactId (Suc n) ds) (\<lambda>es.
       Inr (replayEvent state receipt artifactId n ''replay.divergence'' payload # es)))"

subsection \<open>The report\<close>

definition replayLineage :: "json \<Rightarrow> candidate_check \<Rightarrow> json" where
  "replayLineage receipt identity =
     (case identity of
        Inl _ \<Rightarrow> JUndefined
      | Inr (i, _) \<Rightarrow> jset ''artifactId'' (JStr []) (createLineageTransition (jset ''contentHash'' (JStr i) receipt)))"

definition replayReport ::
    "LocalnetState \<Rightarrow> json \<Rightarrow> RuntimeContext \<Rightarrow> json \<Rightarrow> bool \<Rightarrow> bool \<Rightarrow> string list \<Rightarrow> json list \<Rightarrow> json" where
  "replayReport state receipt ctx lineage planOk receiptOk errors divergences =
     (let invariantsOk = (errors = []) in
      JObj ([(''schema'', JStr schemaReplayReportV1), (''hardkasVersion'', JStr HARDKAS_VERSION), (''version'', JStr ARTIFACT_VERSION),
        (''hashVersion'', JNum CURRENT_HASH_VERSION), (''networkId'', replayNetwork state receipt),
        (''mode'', jor (jget receipt ''mode'') (JStr ''simulator'')), (''createdAt'', JStr (rc_now ctx))] @
        jwhen (truthy lineage) ''lineage'' lineage @
        jwhen (isText (jget receipt ''workflowId'')) ''workflowId'' (jget receipt ''workflowId'') @
        jwhen (isText (jget receipt ''assumptionLevel'')) ''assumptionLevel'' (jget receipt ''assumptionLevel'') @
        [(''txId'', jget receipt ''txId''), (''receiptComparison'', JStr ''raw''), (''planOk'', JBool planOk), (''receiptOk'', JBool receiptOk),
         (''invariantsOk'', JBool invariantsOk),
         (''checks'', JObj [(''workflowDeterministic'', JStr (if invariantsOk then ''reproduced'' else ''diverged'')),
            (''consensusValidation'', JStr ''unimplemented''), (''l2BridgeCorrectness'', JStr ''unimplemented'')]),
         (''divergences'', JArr divergences), (''errors'', strs errors)]))"

text \<open>Steps 1 to 3: the checks, the execution and the comparison, with the errors, the divergences and the entries they give.\<close>

definition replayFindings ::
    "(string \<Rightarrow> string) \<Rightarrow> LocalnetState \<Rightarrow> json \<Rightarrow> json \<Rightarrow> RuntimeContext \<Rightarrow> (string list \<times> json list \<times> DiffEntry list) result" where
  "replayFindings sha state plan receipt ctx =
     bindE (versionFindings receipt) (\<lambda>version.
     bindE (preStateFindings sha state receipt) (\<lambda>preState.
     bindE (applySimulatedPlan sha state plan ctx (noPlanOptions\<lparr>po_digestHashVersion := JNum (digestVersion receipt)\<rparr>)) (\<lambda>result.
     let entries = ad_entries (diffArtifacts receipt (sr_receipt result) (Some REPLAY_UNREPRODUCIBLE_RECEIPT_FIELDS)) in
     bindE (mapE entryFindings entries) (\<lambda>found.
       Inr (fst (planFindings sha plan) @ fst version @ fst preState @ map fst found,
            snd (planFindings sha plan) @ snd version @ snd preState @ map snd found, entries)))))"

text \<open>Step 4: the events, and the sealed report.\<close>

definition verifyReplay ::
    "(string \<Rightarrow> string) \<Rightarrow> LocalnetState \<Rightarrow> json \<Rightarrow> json \<Rightarrow> RuntimeContext \<Rightarrow> (json \<times> ReplayEvent list) result" where
  "verifyReplay sha state plan receipt ctx =
     bindE (replayFindings sha state plan receipt ctx) (\<lambda>(errors, divergences, entries).
     bindE (checkArtifactIdentity sha receipt) (\<lambda>identity.
     let lineage = replayLineage receipt identity;
         artifactId = (case identity of Inl _ \<Rightarrow> JUndefined | Inr (i, _) \<Rightarrow> JStr i) in
     bindE (divergenceEvents state receipt artifactId 0 divergences) (\<lambda>events.
     let verified = replayEvent state receipt artifactId (length events) ''replay.verified''
           (JObj [(''txId'', jget receipt ''txId''), (''lineageId'', jnn (jget lineage ''lineageId'') (jnn artifactId (jget receipt ''txId'')))]);
         report = replayReport state receipt ctx lineage (\<not> planDiverges sha plan)
           (list_all (\<lambda>e. starts_with (de_path e) ''plan'') entries) errors divergences in
     bindE (calculateContentHash sha report CURRENT_HASH_VERSION) (\<lambda>hash.
       Inr (sealWith hash report, events @ (if errors = [] then [verified] else []))))))"

text \<open>The execution step of the SDK's replay (\<open>packages/sdk/src/replay.ts\<close>): a simulator receipt is replayed on the ledger
  as it was before its DAA score.\<close>

definition replayReceipt ::
    "(string \<Rightarrow> string) \<Rightarrow> LocalnetState \<Rightarrow> json \<Rightarrow> json \<Rightarrow> RuntimeContext \<Rightarrow> (json \<times> ReplayEvent list) result" where
  "replayReceipt sha loaded plan receipt ctx =
     bindE (if jget receipt ''mode'' = JStr ''simulator'' \<and> truthy (jget receipt ''daaScore'')
            then bindE (json_bigE (jget receipt ''daaScore'')) (\<lambda>receiptDaa. reconstructStateAtDaa loaded (Inr (receiptDaa - 1)))
            else Inr loaded) (\<lambda>state.
       verifyReplay sha state plan receipt ctx)"

end
