(* ===== verification/HK_ReplayProps.thy ===== *)
theory HK_ReplayProps
  imports HK_Replay HK_ArtifactProps
begin

text \<open>
  Properties of artifact identity and of replay verification: an artifact keeps its identity through storage, a
  receipt of the simulator is reproduced by its replay, and a replay that reports no error certifies the receipt.
\<close>

subsection \<open>Storage\<close>

text \<open>\<open>JSON.parse(JSON.stringify(v))\<close> of a value without big integers: what has no JSON form is left out of objects and is
  \<open>null\<close> in arrays.\<close>

function stored :: "json \<Rightarrow> json" where
  "stored (JArr xs) = JArr (map (\<lambda>x. if unprintable x then JNull else stored x) xs)"
| "stored (JObj es) = JObj (map (\<lambda>kv. (fst kv, stored (snd kv))) (filter (\<lambda>kv. \<not> unprintable (snd kv)) es))"
| "stored JUndefined = JUndefined" | "stored JNull = JNull" | "stored (JBool b) = JBool b" | "stored (JNum i) = JNum i"
| "stored (JFrac t) = JFrac t" | "stored (JBigInt i) = JBigInt i" | "stored (JStr s) = JStr s" | "stored JSymbol = JSymbol"
| "stored JFunction = JFunction" | "stored JMap = JMap" | "stored JSet = JSet" | "stored JDate = JDate" | "stored JNonPlain = JNonPlain"
  by pat_completeness auto
termination
proof (relation "measure size", goal_cases)
  case (2 xs x)
  then show ?case by (simp add: less_Suc_eq_le size_list_estimation')
next
  case (3 es x)
  then show ?case using size_json_entry [of "fst x" "snd x" es] by auto
qed simp

text \<open>A JSON value: what parsing gives.\<close>

fun json_value :: "json \<Rightarrow> bool" where
  "json_value (JArr xs) = list_all json_value xs"
| "json_value (JObj es) = list_all (\<lambda>kv. json_value (snd kv)) es"
| "json_value JNull = True" | "json_value (JBool b) = True" | "json_value (JNum i) = True" | "json_value (JFrac t) = True"
| "json_value (JStr s) = True"
| "json_value _ = False"

lemma json_value_printable: "json_value j \<Longrightarrow> \<not> unprintable j"
  by (auto simp: unprintable_def)

lemma stored_value: "json_value j \<Longrightarrow> stored j = j"
proof (induction j rule: json_value.induct)
  case (1 xs)
  then show ?case by (auto simp: list_all_iff json_value_printable intro!: map_idI)
next
  case (2 es)
  then have "filter (\<lambda>kv. \<not> unprintable (snd kv)) es = es" by (auto simp: list_all_iff filter_id_conv json_value_printable)
  moreover have "map (\<lambda>kv. (fst kv, stored (snd kv))) es = es" using 2 by (auto simp: list_all_iff intro!: map_idI)
  ultimately show ?case by simp
qed auto

lemma stored_undefined: "plain_json j \<Longrightarrow> stored j = JUndefined \<longleftrightarrow> j = JUndefined"
  by (cases j) auto

lemma plain_unprintable: "plain_json j \<Longrightarrow> unprintable j \<longleftrightarrow> j = JUndefined"
  by (cases j) (auto simp: unprintable_def)

lemma plain_stored: "plain_json j \<Longrightarrow> plain_json (stored j)"
proof (induction j rule: stored.induct)
  case (1 xs)
  then show ?case by (auto simp: list_all_iff)
next
  case (2 es)
  then show ?case by (auto simp: list_all_iff)
qed auto

lemma img_snd: "k \<notin> fst ` A \<Longrightarrow> (k, v) \<notin> A"
  by force

lemma mapE_map: "mapE f (map g xs) = mapE (f \<circ> g) xs"
  by (induction xs) auto

lemma stored_get: "jget (stored (JObj es)) k = stored (jget (JObj es) k)" if "plain_json (JObj es)" "distinct (map fst es)"
proof -
  have "map_of (map (\<lambda>kv. (fst kv, stored (snd kv))) (filter (\<lambda>kv. \<not> unprintable (snd kv)) es)) k =
      (case map_of es k of None \<Rightarrow> None | Some v \<Rightarrow> if v = JUndefined then None else Some (stored v))"
    using that by (induction es) (auto simp: plain_unprintable split: option.splits dest!: map_of_SomeD dest: img_snd)
  then show ?thesis by (auto split: option.splits)
qed

lemma kept_stored:
  assumes "plain_json (JObj es)"
  shows "keptEntries version depth pk (map (\<lambda>kv. (fst kv, stored (snd kv))) (filter (\<lambda>kv. \<not> unprintable (snd kv)) es)) =
    map (\<lambda>kv. (fst kv, stored (snd kv))) (keptEntries version depth pk es)"
proof -
  have "filter (\<lambda>(k, v). \<not> isExcluded k version depth pk \<and> v \<noteq> JUndefined)
      (map (\<lambda>kv. (fst kv, stored (snd kv))) (filter (\<lambda>kv. \<not> unprintable (snd kv)) es)) =
    map (\<lambda>kv. (fst kv, stored (snd kv))) (filter (\<lambda>(k, v). \<not> isExcluded k version depth pk \<and> v \<noteq> JUndefined) es)"
    using assms by (induction es) (auto simp: plain_unprintable stored_undefined)
  then show ?thesis by (simp add: keptEntries_def js_sort_map_keys)
qed

lemma serialize_stored:
  assumes "plain_json j"
  shows "serialize (stored j) version key root depth pk = serialize j version key root depth pk"
  using assms
proof (induction j version key root depth pk rule: serialize.induct)
  case (10 xs version keyName isRoot depth parentKey)
  have "serialize (if unprintable x then JNull else stored x) version keyName False (Suc depth) None = serialize x version keyName False (Suc depth) None"
    if "x \<in> set xs" for x
    using 10 that plain_unprintable [of x] by (auto simp: list_all_iff)
  then show ?case by (simp add: mapE_map o_def cong: mapE_cong)
next
  case (15 es version keyName isRoot depth parentKey)
  have "serialize (stored (snd kv)) version (Some (fst kv)) False (Suc depth) (Some (fst kv)) =
      serialize (snd kv) version (Some (fst kv)) False (Suc depth) (Some (fst kv))"
    if "kv \<in> set (keptEntries version depth parentKey es)" for kv
    using 15 that by (auto simp: list_all_iff set_keptEntries)
  then show ?case using 15(2) by (simp add: kept_stored mapE_map o_def cong: mapE_cong)
qed auto

lemma stored_identity:
  assumes "plain_json (JObj es)" "distinct (map fst es)" "distinct (keysOf (jget (JObj es) ''lineage''))"
  shows "calculateContentHash sha (stored (JObj es)) v = calculateContentHash sha (JObj es) v \<and>
    checkArtifactIdentity sha (stored (JObj es)) = checkArtifactIdentity sha (JObj es)"
proof -
  let ?a = "JObj es"
  note get = stored_get [OF assms(1,2)]
  have hash: "calculateContentHash sha (stored ?a) v = calculateContentHash sha ?a v" for v
    unfolding calculateContentHash_def canonicalStringify_def serialize_stored [OF assms(1)] ..
  have str: "stored j = JStr s \<longleftrightarrow> j = JStr s" "text_of (stored j) = text_of j" if "plain_json j" for j s
    using that by (cases j; simp add: text_of_def)+
  have pget: "plain_json (jget ?a k)" for k using assms(1) plain_jget by blast
  have version: "readDeclaredHashVersion (stored ?a) = readDeclaredHashVersion ?a"
    unfolding readDeclaredHashVersion_def get by (cases "jget ?a ''hashVersion''") simp_all
  have lineage: "jget (jget (stored ?a) ''lineage'') ''artifactId'' = stored (jget (jget ?a ''lineage'') ''artifactId'')"
  proof (cases "jget ?a ''lineage''")
    case (JObj ls)
    have "distinct (map fst ls)" "plain_json (JObj ls)" using assms(3) pget [of "''lineage''"] unfolding JObj by (simp_all add: keysOf_def)
    then show ?thesis unfolding get JObj using stored_get by blast
  qed (unfold get, simp_all add: jget_def)
  have pl: "plain_json (jget (jget ?a ''lineage'') ''artifactId'')" using pget plain_jget by blast
  have issues: "identityIssues (stored ?a) version h = identityIssues ?a version h" for version h
    unfolding identityIssues_def Let_def lineage unfolding get str(1) [OF pget] str(2) [OF pget] str(1) [OF pl] str(2) [OF pl] stored_undefined [OF pget] ..
  show ?thesis unfolding checkArtifactIdentity_def version hash issues by simp
qed

text \<open>an artifact keeps its identity in the store. Written as JSON and read back, an artifact has the same content hash
  under every version and the same outcome of the identity check.\<close>

theorem identity_survives_storage:
  assumes "plain_json (JObj es)" "distinct (map fst es)" "distinct (keysOf (jget (JObj es) ''lineage''))"
  shows "calculateContentHash sha (stored (JObj es)) v = calculateContentHash sha (JObj es) v \<and>
    checkArtifactIdentity sha (stored (JObj es)) = checkArtifactIdentity sha (JObj es)"
  using assms by (rule stored_identity)

text \<open>A sealed artifact with a field that is not defined.\<close>

definition ex_stored_receipt :: json where
  "ex_stored_receipt = JObj [(''schema'', JStr schemaTxReceipt), (''hashVersion'', JNum 5), (''changeSompi'', JUndefined),
     (''contentHash'', JStr (replicate 64 (CHR ''a''))), (''lineage'', JObj [(''artifactId'', JStr (replicate 64 (CHR ''a'')))])]"

theorem identity_survives_storage_witness:
  "checkArtifactIdentity ex_hash (stored ex_stored_receipt) = Inr (Inr (replicate 64 (CHR ''a''), FULL))"
proof -
  have f: "plain_json ex_stored_receipt" "distinct (keysOf ex_stored_receipt)" "distinct (keysOf (jget ex_stored_receipt ''lineage''))"
    "checkArtifactIdentity ex_hash ex_stored_receipt = Inr (Inr (replicate 64 (CHR ''a''), FULL))" by code_simp+
  obtain es where es: "ex_stored_receipt = JObj es" by (simp add: ex_stored_receipt_def)
  have "distinct (map fst es)" using f(2) by (simp add: es keysOf_def)
  then have "checkArtifactIdentity ex_hash (stored ex_stored_receipt) = checkArtifactIdentity ex_hash ex_stored_receipt"
    using identity_survives_storage [OF f(1) [unfolded es] _ f(3) [unfolded es]] unfolding es by blast
  then show ?thesis using f(4) by simp
qed

subsection \<open>Agreement of receipts\<close>

lemma agrees_refl: "agrees drops d v v"
proof (induction v arbitrary: d rule: measure_induct_rule [where f = size])
  case (less v)
  consider "isPrimitive v" | "isArray v" | "\<not> isPrimitive v" "\<not> isArray v" by blast
  then show ?case
  proof cases
    case 2
    then show ?thesis using less size_items by (simp add: agrees_items list_all2_conv_all_nth)
  next
    case 3
    then show ?thesis using less size_jget by (simp add: agrees_fields)
  qed (simp add: agrees.primitive)
qed

lemma agrees_top:
  assumes "filter (\<lambda>kv. fst kv \<notin> set ks) es = filter (\<lambda>kv. fst kv \<notin> set ks) es'"
  shows "agrees (droppedAt (Some ks)) 0 (JObj es) (JObj es')"
proof -
  have m: "map_of (filter (\<lambda>kv. fst kv \<notin> set ks) es) k = map_of es k" if "k \<notin> set ks" for k and es :: "(string \<times> json) list"
    using that by (induction es) auto
  have k: "{k \<in> set (keysOf (JObj es)). \<not> droppedAt (Some ks) 0 k} = fst ` set (filter (\<lambda>kv. fst kv \<notin> set ks) es)" for es
    by (auto simp: keysOf_def droppedAt_def)
  have "jget (JObj es) l = jget (JObj es') l" if "l \<notin> set ks" for l using m [OF that, of es] m [OF that, of es'] assms by simp
  moreover have "l \<notin> set ks" if "\<not> droppedAt (Some ks) 0 l" for l using that by (simp add: droppedAt_def)
  ultimately show ?thesis by (subst agrees_fields) (auto simp: isArray_def k assms agrees_refl simp del: jget_simps)
qed

lemma filter_update: "P k = False \<Longrightarrow> filter (\<lambda>kv. P (fst kv)) (AList.update k v es) = filter (\<lambda>kv. P (fst kv)) es"
  by (induction es) auto

lemma sealWith_filter:
  assumes "\<not> P ''contentHash''" "\<not> P ''lineage''"
  shows "\<exists>es'. sealWith h (JObj es) = JObj es' \<and> filter (\<lambda>kv. P (fst kv)) es' = filter (\<lambda>kv. P (fst kv)) es"
  using assms by (simp add: sealWith_def Let_def jset_def filter_update)

lemma receipt_shape:
  assumes "createSimulatedTxReceipt sha plan txId ctx e = Inr receipt"
  obtains fee fa ta h where "deriveSimulatedFee plan = Inr (Inr fee)" "jfield (jget plan ''from'') ''address'' = Inr fa"
    "jfield (jget plan ''to'') ''address'' = Inr ta" "receipt = sealWith h (JObj (receiptDraft plan txId ctx e fa ta fee))"
    "calculateContentHash sha (JObj (receiptDraft plan txId ctx e fa ta fee)) CURRENT_HASH_VERSION = Inr h"
proof -
  obtain derived where derived: "deriveSimulatedFee plan = Inr derived" using assms by (auto simp: createSimulatedTxReceipt_def)
  then show thesis using assms that by (cases derived) (auto simp: createSimulatedTxReceipt_def Let_def split: if_splits)
qed

subsection \<open>Reproducing a receipt\<close>

text \<open>The names of the fields that a replay compares.\<close>

abbreviation compared :: "string \<Rightarrow> bool" where
  "compared k \<equiv> k \<notin> set REPLAY_UNREPRODUCIBLE_RECEIPT_FIELDS"

text \<open>What a receipt compares depends neither on the clock nor on the submission.\<close>

lemma draft_compared:
  assumes "re_spentUtxoIds e = re_spentUtxoIds e'" "re_createdUtxoIds e = re_createdUtxoIds e'" "re_daaScore e = re_daaScore e'"
    "re_preStateHash e = re_preStateHash e'" "re_postStateHash e = re_postStateHash e'" "re_dagContext e = re_dagContext e'"
  shows "filter (\<lambda>kv. compared (fst kv)) (receiptDraft plan txId ctx e fa ta fee) = filter (\<lambda>kv. compared (fst kv)) (receiptDraft plan txId ctx' e' fa ta fee)"
  by (simp add: receiptDraft_def REPLAY_UNREPRODUCIBLE_RECEIPT_FIELDS_def jwhen_def assms)

text \<open>A plan read from the store with everything a receipt takes from it: in particular a change output.\<close>

definition replayable_plan :: "json \<Rightarrow> bool" where
  "replayable_plan plan \<longleftrightarrow> json_value plan \<and> jget plan ''networkId'' \<noteq> JUndefined \<and> jget plan ''mode'' \<noteq> JUndefined \<and>
     jget plan ''amountSompi'' \<noteq> JUndefined \<and> jget plan ''estimatedMass'' \<noteq> JUndefined \<and> jget (jget plan ''change'') ''amountSompi'' \<noteq> JUndefined"

lemma json_value_get: "json_value j \<Longrightarrow> jget j k \<noteq> JUndefined \<Longrightarrow> json_value (jget j k)"
  by (cases j) (auto simp: jget_def list_all_iff split: option.splits dest!: map_of_SomeD)

lemma json_value_get2: "json_value j \<Longrightarrow> jget (jget j k) l \<noteq> JUndefined \<Longrightarrow> json_value (jget (jget j k) l)"
  using json_value_get [of j k] json_value_get [of "jget j k" l] by (cases "jget j k = JUndefined") auto

lemma json_value_strs [simp]: "json_value (strs xs)"
  by (simp add: strs_def list_all_iff)

lemma json_value_dagContext [simp]: "json_value (buildDagContextFromState st)"
  by (simp add: buildDagContextFromState_def conflictJson_def list_all_iff split: option.split)

lemma draft_values:
  assumes "replayable_plan plan" "json_value fa" "json_value ta" "e = executionExtra ids new n pre post st e'"
  shows "list_all (\<lambda>kv. json_value (snd kv)) (filter (\<lambda>kv. compared (fst kv)) (receiptDraft plan txId ctx e fa ta fee))"
proof -
  have v: "json_value (jget plan k)" if "jget plan k \<noteq> JUndefined" for k using assms(1) that json_value_get by (simp add: replayable_plan_def)
  have c: "json_value (jget (jget plan ''change'') ''amountSompi'')" using assms(1) json_value_get2 by (simp add: replayable_plan_def)
  have t: "json_value (jget plan k)" if "truthy (jget plan k)" for k using v [of k] that by (cases "jget plan k = JUndefined") auto
  have x: "json_value (jor (jget plan ''execution'') (executionJson (jget plan ''mode'') (jget plan ''networkId'')))"
    using assms(1) v t by (simp add: jor_def executionJson_def replayable_plan_def)
  show ?thesis using assms v c t x
    by (simp add: receiptDraft_def REPLAY_UNREPRODUCIBLE_RECEIPT_FIELDS_def jwhen_def executionExtra_def replayable_plan_def)
qed

lemma stored_filter:
  assumes "list_all (\<lambda>kv. json_value (snd kv)) (filter (\<lambda>kv. P (fst kv)) es)"
  shows "\<exists>es'. stored (JObj es) = JObj es' \<and> filter (\<lambda>kv. P (fst kv)) es' = filter (\<lambda>kv. P (fst kv)) es"
proof -
  have "filter (\<lambda>kv. P (fst kv)) (map (\<lambda>kv. (fst kv, stored (snd kv))) (filter (\<lambda>kv. \<not> unprintable (snd kv)) es)) = filter (\<lambda>kv. P (fst kv)) es"
    using assms by (induction es) (auto simp: stored_value json_value_printable split: if_splits)
  then show ?thesis by simp
qed

text \<open>Two executions of one plan on one state: the stored receipt of the first agrees with the receipt of the second.\<close>

lemma receipts_agree:
  assumes "replayable_plan plan"
    and r: "createSimulatedTxReceipt sha plan txId ctx (executionExtra ids new n pre post st e) = Inr receipt"
    and r': "createSimulatedTxReceipt sha plan txId ctx' (executionExtra ids new n pre post st e') = Inr receipt'"
    and addresses: "has_address (jget plan ''from'')" "has_address (jget plan ''to'')"
  shows "agrees (droppedAt (Some REPLAY_UNREPRODUCIBLE_RECEIPT_FIELDS)) 0 (stored receipt) receipt'"
proof -
  let ?e = "executionExtra ids new n pre post st e" and ?e' = "executionExtra ids new n pre post st e'"
  obtain fee fa ta h where p: "deriveSimulatedFee plan = Inr (Inr fee)" "jfield (jget plan ''from'') ''address'' = Inr fa"
    "jfield (jget plan ''to'') ''address'' = Inr ta" "receipt = sealWith h (JObj (receiptDraft plan txId ctx ?e fa ta fee))"
    using r by (rule receipt_shape)
  obtain h' where p': "receipt' = sealWith h' (JObj (receiptDraft plan txId ctx' ?e' fa ta fee))"
    using r' by (rule receipt_shape) (use p(1-3) in auto)
  have vals: "json_value fa" "json_value ta" using p(2,3) has_address_jfield [OF addresses(1)] has_address_jfield [OF addresses(2)] by auto
  have out: "\<not> compared ''contentHash''" "\<not> compared ''lineage''" by (simp_all add: REPLAY_UNREPRODUCIBLE_RECEIPT_FIELDS_def)
  obtain es where es: "receipt = JObj es" "filter (\<lambda>kv. compared (fst kv)) es = filter (\<lambda>kv. compared (fst kv)) (receiptDraft plan txId ctx ?e fa ta fee)"
    using sealWith_filter [of compared, OF out] p(4) by metis
  obtain es' where es': "receipt' = JObj es'" "filter (\<lambda>kv. compared (fst kv)) es' = filter (\<lambda>kv. compared (fst kv)) (receiptDraft plan txId ctx' ?e' fa ta fee)"
    using sealWith_filter [of compared, OF out] p' by metis
  have "list_all (\<lambda>kv. json_value (snd kv)) (filter (\<lambda>kv. compared (fst kv)) es)" unfolding es(2) using draft_values [OF assms(1) vals refl] .
  from stored_filter [OF this] obtain fs where fs: "stored receipt = JObj fs" "filter (\<lambda>kv. compared (fst kv)) fs = filter (\<lambda>kv. compared (fst kv)) es"
    unfolding es(1) by blast
  have "filter (\<lambda>kv. compared (fst kv)) fs = filter (\<lambda>kv. compared (fst kv)) es'"
    unfolding fs(2) es(2) es'(2) by (rule draft_compared) (simp_all add: executionExtra_def)
  then show ?thesis unfolding fs(1) es'(1) by (rule agrees_top)
qed

text \<open>No key of a receipt is taken for the root.\<close>

lemma receipt_keys:
  assumes "createSimulatedTxReceipt sha plan txId ctx e = Inr receipt"
  shows "''$'' \<notin> set (keysOf (stored receipt))"
proof -
  obtain fee fa ta h where r: "receipt = sealWith h (JObj (receiptDraft plan txId ctx e fa ta fee))" using assms by (rule receipt_shape)
  have "''$'' \<notin> set (map fst (receiptDraft plan txId ctx e fa ta fee))" by (auto simp: receiptDraft_def jwhen_def)
  then have "filter (\<lambda>kv. fst kv = ''$'') (receiptDraft plan txId ctx e fa ta fee) = []" by (force simp: filter_empty_conv)
  then obtain es where es: "receipt = JObj es" "filter (\<lambda>kv. fst kv = ''$'') es = []"
    using sealWith_filter [of "\<lambda>k. k = ''$''" h] r by fastforce
  then have "''$'' \<notin> set (map fst es)" by (auto simp: filter_empty_conv)
  with es(1) show ?thesis by (auto simp: keysOf_def)
qed

subsection \<open>Later ledgers\<close>

text \<open>The ledgers a ledger can become: each step spends unspent outputs and adds fresh ones at the next DAA score.\<close>

inductive ledger_run :: "int \<Rightarrow> LocalnetState \<Rightarrow> int \<Rightarrow> LocalnetState \<Rightarrow> bool" for d st where
  here: "ledger_run d st d st"
| step: "ledger_run d st e st' \<Longrightarrow> step_ok e ids new st' \<Longrightarrow> ledger_run d st (e + 1) (ledger_step e ids new st')"

lemma ledger_run_ok: "ledger_run d st e st' \<Longrightarrow> ledger_ok d st \<Longrightarrow> ledger_ok e st' \<and> d \<le> e"
proof (induction rule: ledger_run.induct)
  case (step e st' ids new)
  then show ?case using ledger_step_ok by fastforce
qed simp

lemma revived_spent:
  assumes "utxo_ok e u" "i \<Longrightarrow> \<not> u_spent u" "t \<le> e"
  shows "revived t (if i then u\<lparr>u_spent := True, u_spentAtDaaScore := Some (int_str (e + 1))\<rparr> else u) = revived t u"
  using assms by (auto simp: utxo_ok_def revived_def split: option.splits)

lemma reconstruct_after_step:
  assumes "ledger_ok e st" "step_ok e ids new st" "t \<le> e"
  shows "reconstructStateAtDaa (ledger_step e ids new st) (Inr t) = reconstructStateAtDaa st (Inr t)"
proof -
  have new: "filter (\<lambda>u. created u \<le> t) new = []"
    using assms(2,3) by (auto simp: step_ok_def created_def filter_empty_conv)
  have c: "created (if i then u\<lparr>u_spent := True, u_spentAtDaaScore := Some n\<rparr> else u) = created u" for i u n by (simp add: created_def)
  have "map (revived t) (filter (\<lambda>u. created u \<le> t) (spendUtxos ids (int_str (e + 1)) (ls_utxos st))) =
      map (revived t) (filter (\<lambda>u. created u \<le> t) (ls_utxos st))"
    unfolding spendUtxos_def filter_map map_map o_def c
    by (rule map_cong [OF refl]) (rule revived_spent, use assms in \<open>auto simp: ledger_ok_def step_ok_def\<close>)
  then show ?thesis using new reconstruct_eq [OF assms(1)] reconstruct_eq [OF ledger_step_ok [OF assms(1,2)]]
    by (simp add: ledger_step_def)
qed

lemma reconstruct_later:
  assumes "ledger_run d st e st'" "ledger_ok d st" "t \<le> d"
  shows "reconstructStateAtDaa st' (Inr t) = reconstructStateAtDaa st (Inr t)"
  using assms
proof (induction rule: ledger_run.induct)
  case (step e st' ids new)
  then have "ledger_ok e st'" "t \<le> e" using ledger_run_ok by fastforce+
  then show ?case using step reconstruct_after_step by simp
qed simp

subsection \<open>Genuine receipts\<close>

lemma update_commute:
  "l \<noteq> c \<Longrightarrow> l \<in> fst ` set es \<Longrightarrow> AList.update l v (AList.update c h es) = AList.update c h (AList.update l v es)"
  by (induction es) auto

lemma sealWith_seal:
  assumes "jget (JObj es) ''lineage'' = JObj ls" "ls \<noteq> []"
  shows "sealWith h (JObj es) = seal h es ls"
proof -
  have "map_of es ''lineage'' \<noteq> None" using assms(1) by (auto split: option.splits)
  then have "''lineage'' \<in> fst ` set es" by (simp add: map_of_eq_None_iff)
  then show ?thesis using assms update_commute [of "''lineage''" "''contentHash''" es] by (simp add: sealWith_def seal_def Let_def jset_def)
qed

lemma jwhen_keys: "x \<in> fst ` set (jwhen c k v) \<longleftrightarrow> c \<and> x = k" "distinct (map fst (jwhen c k v))"
  by (auto simp: jwhen_def)

lemma draft_distinct: "distinct (map fst (receiptDraft plan txId ctx e fa ta fee))"
  unfolding receiptDraft_def map_append distinct_append set_append set_map image_Un
  by (simp add: jwhen_keys disjoint_iff)

lemma receipt_self_identity:
  assumes "createSimulatedTxReceipt sha plan txId ctx e = Inr R" "\<forall>x. HEX64 (sha x)"
  obtains h es where "jget R ''contentHash'' = JStr h" "checkArtifactIdentity sha R = Inr (Inr (h, FULL))"
    "R = JObj es" "distinct (map fst es)" "distinct (keysOf (jget R ''lineage''))" "readDeclaredHashVersion R = Some 5"
proof -
  obtain fee fa ta h where r: "R = sealWith h (JObj (receiptDraft plan txId ctx e fa ta fee))"
    and h: "calculateContentHash sha (JObj (receiptDraft plan txId ctx e fa ta fee)) CURRENT_HASH_VERSION = Inr h"
    using assms(1) by (rule receipt_shape)
  let ?d = "receiptDraft plan txId ctx e fa ta fee"
  obtain ls where ls: "createLineageTransition (jnn (re_parentArtifact e) plan) = JObj ls" "distinct (map fst ls)" "ls \<noteq> []"
    by (simp add: createLineageTransition_def Let_def)
  have lin: "jget (JObj ?d) ''lineage'' = JObj ls" "(''lineage'', JObj ls) \<in> set ?d" by (simp_all add: receiptDraft_def ls)
  have R: "R = seal h ?d ls" using r sealWith_seal [OF lin(1) ls(3)] by simp
  have "is_hex64 h" using contentHash_image [OF h] assms(2) HEX64_hex by blast
  then have "h \<noteq> []" using is_hex64_nonempty by simp
  have hash: "calculateContentHash sha R 5 = Inr h"
    using h unfolding R calculateContentHash_def canonicalStringify_def seal_serialize [OF draft_distinct ls(2) lin(2)]
      CURRENT_HASH_VERSION_def .
  have get: "jget R k = jget (JObj ?d) k" if "k \<noteq> ''contentHash''" "k \<noteq> ''lineage''" for k using that unfolding r by (rule sealWith_other)
  have c: "jget R ''contentHash'' = JStr h" unfolding r by (rule sealWith_hash)
  have l: "jget R ''lineage'' = JObj (AList.update ''artifactId'' (JStr h) ls)" by (simp add: R seal_def)
  have v: "readDeclaredHashVersion R = Some 5"
    unfolding readDeclaredHashVersion_def get [of "''hashVersion''", simplified]
    by (simp add: receiptDraft_def CURRENT_HASH_VERSION_def MIN_HASH_VERSION_def)
  have others: "jget R ''schema'' = JStr schemaTxReceipt" "jget R ''artifactId'' = JUndefined"
    using get [of "''schema''"] get [of "''artifactId''"] by (simp_all add: receiptDraft_def jwhen_def)
  have "identityIssues R 5 h = []"
    unfolding identityIssues_def c l others using \<open>h \<noteq> []\<close> by (simp add: text_of_def starts_with_def schema_defs codeIf_def)
  then have "checkArtifactIdentity sha R = Inr (Inr (h, FULL))"
    unfolding checkArtifactIdentity_def v by (simp add: hash CURRENT_HASH_VERSION_def)
  then show thesis
  proof (rule that [OF c])
    show "R = JObj (AList.update ''contentHash'' (JStr h) (AList.update ''lineage'' (JObj (AList.update ''artifactId'' (JStr h) ls)) ?d))"
      by (simp add: R seal_def)
    show "distinct (map fst (AList.update ''contentHash'' (JStr h) (AList.update ''lineage'' (JObj (AList.update ''artifactId'' (JStr h) ls)) ?d)))"
      by (intro AList.distinct_update draft_distinct)
    show "distinct (keysOf (jget R ''lineage''))" using ls(2) unfolding l by (simp add: keysOf_def AList.distinct_update)
  qed (rule v)
qed

lemma run_parts:
  assumes "applySimulatedPlan sha st plan ctx o' = Inr r" "sr_ok r" "plan_spends plan ids" "ledger_ok d st" "po_digestHashVersion o' = JUndefined"
  obtains txId new pre post where "planTxId sha plan o' = Inr txId" "checkInputs st ids = Inr ()" "createdUtxos st plan txId (int_str (d + 1)) = Inr new"
    "calculateStateHash sha st currentVersion = Inr pre" "calculateStateHash sha (nextState st (int_str (d + 1)) ids new) currentVersion = Inr post"
    "createSimulatedTxReceipt sha plan txId ctx (executionExtra ids new (int_str (d + 1)) pre post st (planReceiptExtra o')) = Inr (sr_receipt r)"
    "sr_state r = nextState st (int_str (d + 1)) ids new"
  using assms(1)
proof (cases rule: applySimulatedPlan_cases)
  case (ok hv pre)
  note result = that
  have hv: "hv = currentVersion" using ok(3) assms(5) by simp
  from ok(1) show thesis
  proof (rule planBody_Inr)
    fix inputs ids' daa txId new post receipt
    assume p: "jget plan ''inputs'' = JArr inputs" "mapE inputId inputs = Inr ids'" "checkInputs st ids' = Inr ()" "bigE (ls_daaScore st) = Inr daa"
      "planTxId sha plan o' = Inr txId" "createdUtxos st plan txId (int_str (daa + 1)) = Inr new"
      "calculateStateHash sha (nextState st (int_str (daa + 1)) ids' new) hv = Inr post"
      "createSimulatedTxReceipt sha plan txId ctx (executionExtra ids' new (int_str (daa + 1)) pre post st (planReceiptExtra o')) = Inr receipt"
      "r = \<lparr>sr_ok = True, sr_state = nextState st (int_str (daa + 1)) ids' new, sr_receipt = receipt, sr_planArtifact = plan, sr_errors = []\<rparr>"
    have "ids' = ids" "daa = d" using p(1,2,4) assms(3,4) by (simp_all add: plan_spends_def arrayOr_def ledger_ok_def)
    then show thesis using result p ok(4) hv by simp
  qed
qed (use assms(2) in simp)

lemma replay_options: "applySimulatedPlan sha st plan ctx (noPlanOptions\<lparr>po_digestHashVersion := currentVersion\<rparr>) = applySimulatedPlan sha st plan ctx noPlanOptions"
  by (simp add: applySimulatedPlan_def planBody_def planTxId_def planReceiptExtra_def noPlanOptions_def currentVersion_def Let_def)

subsection \<open>Replay of a genuine receipt\<close>

lemma current_version_num: "JNum 5 = currentVersion"
  by (simp add: currentVersion_def CURRENT_HASH_VERSION_def)

text \<open>A replay without findings: the report and the one event.\<close>

lemma verified_replay:
  assumes "planDiverges sha plan = False" "readDeclaredHashVersion R = Some 5" "jget R ''preStateHash'' = JStr pre" "pre \<noteq> []"
    and pre: "calculateStateHash sha st currentVersion = Inr pre"
    and again: "applySimulatedPlan sha st plan ctx noPlanOptions = Inr r"
    and same: "diffArtifacts R (sr_receipt r) (Some REPLAY_UNREPRODUCIBLE_RECEIPT_FIELDS) = \<lparr>ad_identical = True, ad_entries = []\<rparr>"
    and identity: "checkArtifactIdentity sha R = Inr (Inr (h, FULL))"
    and "plain_json R"
  shows "\<exists>report event. verifyReplay sha st plan R ctx = Inr (report, [event]) \<and> rv_kind event = ''replay.verified'' \<and>
    jget report ''invariantsOk'' = JBool True \<and> jget report ''planOk'' = JBool True \<and> jget report ''receiptOk'' = JBool True \<and>
    jget report ''divergences'' = JArr [] \<and> jget (jget report ''lineage'') ''parentArtifactId'' = jget (createLineageTransition (jset ''contentHash'' (JStr h) R)) ''parentArtifactId''"
proof -
  let ?l = "replayLineage R (Inr (h, FULL))"
  let ?report = "replayReport st R ctx ?l True True [] []"
  have lineage: "\<exists>ls. ?l = JObj ls \<and> ls \<noteq> []" by (simp add: replayLineage_def createLineageTransition_def Let_def jset_def)
  have plain_l: "plain_json ?l" using assms(9) by (simp add: replayLineage_def plain_jset plain_lineage)
  have "plain_json ?report"
    using assms(9) plain_l by (simp add: replayReport_def Let_def replayNetwork_def plain_jor plain_jget jwhen_def)
  then obtain c where c: "calculateContentHash sha ?report CURRENT_HASH_VERSION = Inr c"
    using hash_plain [of ?report sha] by (auto simp: replayReport_def Let_def)
  have "planFindings sha plan = ([], [])" "versionFindings R = Inr ([], [])" "preStateFindings sha st R = Inr ([], [])" "digestVersion R = 5"
    using assms(1-4) pre by (simp_all add: planFindings_def versionFindings_def preStateFindings_def digestVersion_def current_version_num)
  then have "\<exists>event. verifyReplay sha st plan R ctx = Inr (sealWith c ?report, [event]) \<and> rv_kind event = ''replay.verified''"
    using again same identity c assms(1) by (simp add: verifyReplay_def replayFindings_def current_version_num replay_options Let_def replayEvent_def)
  moreover obtain es where es: "?report = JObj es" "jget (JObj es) ''lineage'' = ?l"
    using lineage by (auto simp: replayReport_def Let_def jwhen_def)
  moreover have "jget (sealWith c ?report) k = jget ?report k" if "k \<noteq> ''contentHash''" "k \<noteq> ''lineage''" for k
    using sealWith_other [OF that] es(1) by simp
  moreover have "jget (jget (sealWith c ?report) ''lineage'') ''parentArtifactId'' = jget ?l ''parentArtifactId''"
    using sealWith_lineage [of es c] lineage es by auto
  moreover have "jget ?l ''parentArtifactId'' = jget (createLineageTransition (jset ''contentHash'' (JStr h) R)) ''parentArtifactId''"
    by (simp add: replayLineage_def createLineageTransition_def Let_def jset_def)
  moreover have "jget ?report ''invariantsOk'' = JBool True" "jget ?report ''planOk'' = JBool True" "jget ?report ''receiptOk'' = JBool True"
    "jget ?report ''divergences'' = JArr []" by (simp_all add: replayReport_def Let_def jwhen_def)
  ultimately show ?thesis by auto
qed

lemma stateHash_image: "calculateStateHash sha st currentVersion = Inr h \<Longrightarrow> \<exists>x. h = sha x"
  by (auto simp: calculateStateHash_def stateDigest_def digest_current)

lemma receipt_of_execution:
  assumes "createSimulatedTxReceipt sha plan txId ctx (executionExtra ids new n pre post st e) = Inr R"
  shows "jget R ''mode'' = JStr ''simulator''" "jget R ''daaScore'' = JStr n" "jget R ''preStateHash'' = JStr pre"
proof -
  obtain fee fa ta h where r: "R = sealWith h (JObj (receiptDraft plan txId ctx (executionExtra ids new n pre post st e) fa ta fee))"
    using assms by (rule receipt_shape)
  show "jget R ''mode'' = JStr ''simulator''" "jget R ''daaScore'' = JStr n" "jget R ''preStateHash'' = JStr pre"
    unfolding r by (simp_all add: sealWith_other) (simp_all add: receiptDraft_def executionExtra_def)
qed

text \<open>What a replay reads from a stored receipt.\<close>

lemma stored_receipt:
  assumes "createSimulatedTxReceipt sha plan txId ctx (executionExtra ids new n pre post st e) = Inr R" "\<forall>x. HEX64 (sha x)"
    and "plain_json plan" "plain_extra e"
  obtains h es where "jget R ''contentHash'' = JStr h" "h \<noteq> []" "stored R = JObj es" "plain_json (stored R)" "readDeclaredHashVersion (stored R) = Some 5"
    "jget (stored R) ''mode'' = JStr ''simulator''" "jget (stored R) ''daaScore'' = JStr n" "jget (stored R) ''preStateHash'' = JStr pre"
    "checkArtifactIdentity sha (stored R) = Inr (Inr (h, FULL))"
proof (rule receipt_self_identity [OF assms(1,2)])
  fix h es
  assume id: "jget R ''contentHash'' = JStr h" "checkArtifactIdentity sha R = Inr (Inr (h, FULL))" "R = JObj es" "distinct (map fst es)"
    "distinct (keysOf (jget R ''lineage''))" "readDeclaredHashVersion R = Some 5"
  have plain: "plain_json R" using receipt_seal(3) [OF assms(1,3) plain_executionExtra [OF assms(4)]] .
  have get: "jget (stored R) k = stored (jget R k)" for k using stored_get [of es] plain id(3,4) by simp
  have version: "readDeclaredHashVersion (stored R) = Some 5"
    using id(6) unfolding readDeclaredHashVersion_def get by (cases "jget R ''hashVersion''") simp_all
  have "h \<noteq> []" using checkArtifactIdentity_ok [OF id(2)] contentHash_image assms(2) HEX64_hex is_hex64_nonempty by metis
  moreover have "checkArtifactIdentity sha (stored R) = Inr (Inr (h, FULL))" using stored_identity [of es sha] plain id by simp
  moreover obtain fs where "stored R = JObj fs" by (simp add: id(3))
  moreover have "jget (stored R) ''mode'' = JStr ''simulator''" "jget (stored R) ''daaScore'' = JStr n" "jget (stored R) ''preStateHash'' = JStr pre"
    unfolding get receipt_of_execution [OF assms(1)] by simp_all
  ultimately show thesis using that id(1) plain_stored [OF plain] version by blast
qed

text \<open>An executed plan is a step of the ledger, and every later ledger can be taken back to before it.\<close>

lemma replay_state:
  assumes "ledger_ok d st" "checkInputs st ids = Inr ()" "tx_fresh txId st" "executable_plan plan" "createdUtxos st plan txId (int_str (d + 1)) = Inr new"
    and "ledger_run (d + 1) (nextState st (int_str (d + 1)) ids new) e later"
  shows "reconstructStateAtDaa later (Inr d) = Inr st"
proof -
  have amounts: "plan_amounts plan" using assms(4) by (simp add: executable_plan_def)
  obtain m where "map u_id new = map (\<lambda>j. txId @ '':'' @ nat_str j) [0..<m]" using createdUtxos_spec(1) [OF assms(5) amounts] by blast
  then have step: "step_ok d ids new st" using fresh_outputs_step(1) [OF assms(1-3) createdUtxos_spec(2) [OF assms(5) amounts]] by blast
  have "reconstructStateAtDaa later (Inr d) = reconstructStateAtDaa (ledger_step d ids new st) (Inr d)"
    using reconstruct_later [OF assms(6) [unfolded nextState_step] ledger_step_ok [OF assms(1) step]] by simp
  then show ?thesis using reconstruct_step_undo [OF assms(1) step] by simp
qed

definition authentic_plan :: "(string \<Rightarrow> string) \<Rightarrow> json \<Rightarrow> bool" where
  "authentic_plan sha plan \<longleftrightarrow> (case recomputeDeclaredContentHash sha plan of Inl _ \<Rightarrow> False | Inr h \<Rightarrow> jget plan ''contentHash'' = JStr h)"

lemma authentic_no_divergence: "authentic_plan sha plan \<Longrightarrow> \<not> planDiverges sha plan"
  by (auto simp: authentic_plan_def planDiverges_def declaredPlanHash_def split: sum.splits)

lemma replay_genuine:
  assumes "ledger_ok d st" "executable_plan plan" "replayable_plan plan" "authentic_plan sha plan" "plan_spends plan ids" "plain_options o'"
    and "planTxId sha plan o' = Inr txId" "planTxId sha plan noPlanOptions = Inr txId" "tx_fresh txId st" "\<forall>x. HEX64 (sha x)"
    and r: "applySimulatedPlan sha st plan ctx o' = Inr r" "sr_ok r"
    and later: "ledger_run (d + 1) (sr_state r) e later"
  shows "\<exists>report event. replayReceipt sha later plan (stored (sr_receipt r)) ctx' = Inr (report, [event]) \<and> rv_kind event = ''replay.verified'' \<and>
    jget report ''invariantsOk'' = JBool True \<and> jget report ''planOk'' = JBool True \<and> jget report ''receiptOk'' = JBool True \<and>
    jget report ''divergences'' = JArr [] \<and> jget (jget report ''lineage'') ''parentArtifactId'' = jget (sr_receipt r) ''contentHash''"
proof -
  let ?R = "sr_receipt r"
  have o': "po_digestHashVersion o' = JUndefined" "plain_extra (planReceiptExtra o')" using assms(6) by (simp_all add: plain_options_def)
  have no: "plain_options noPlanOptions" "po_digestHashVersion noPlanOptions = JUndefined" by code_simp+
  obtain new pre post where p: "checkInputs st ids = Inr ()" "createdUtxos st plan txId (int_str (d + 1)) = Inr new"
    "calculateStateHash sha st currentVersion = Inr pre" "calculateStateHash sha (nextState st (int_str (d + 1)) ids new) currentVersion = Inr post"
    "createSimulatedTxReceipt sha plan txId ctx (executionExtra ids new (int_str (d + 1)) pre post st (planReceiptExtra o')) = Inr ?R"
    "sr_state r = nextState st (int_str (d + 1)) ids new"
    by (rule run_parts [OF r assms(5,1) o'(1)]) (use assms(7) in simp)
  obtain r' where r': "applySimulatedPlan sha st plan ctx' noPlanOptions = Inr r'" "sr_ok r'"
    using plan_executed [OF assms(1,2) no(1) assms(5,8) p(1)] by blast
  have again: "createSimulatedTxReceipt sha plan txId ctx' (executionExtra ids new (int_str (d + 1)) pre post st (planReceiptExtra noPlanOptions)) = Inr (sr_receipt r')"
    by (rule run_parts [OF r' assms(5,1) no(2)]) (use assms(8) p in simp)
  have addresses: "has_address (jget plan ''from'')" "has_address (jget plan ''to'')" "plain_json plan" using assms(2) by (simp_all add: executable_plan_def)
  have same: "diffArtifacts (stored ?R) (sr_receipt r') (Some REPLAY_UNREPRODUCIBLE_RECEIPT_FIELDS) = \<lparr>ad_identical = True, ad_entries = []\<rparr>"
    using receipts_agree [OF assms(3) p(5) again addresses(1,2)] receipt_keys [OF p(5)]
      compareRecursive_agrees [of "Some REPLAY_UNREPRODUCIBLE_RECEIPT_FIELDS" 0 "''$''" "stored ?R" "sr_receipt r'" False]
    by (simp add: diffArtifacts_def Let_def)
  show ?thesis
  proof (rule stored_receipt [OF p(5) assms(10) addresses(3) o'(2)])
    fix h es
    assume s: "jget ?R ''contentHash'' = JStr h" "h \<noteq> []" "stored ?R = JObj es" "plain_json (stored ?R)" "readDeclaredHashVersion (stored ?R) = Some 5"
      "jget (stored ?R) ''mode'' = JStr ''simulator''" "jget (stored ?R) ''daaScore'' = JStr (int_str (d + 1))"
      "jget (stored ?R) ''preStateHash'' = JStr pre" "checkArtifactIdentity sha (stored ?R) = Inr (Inr (h, FULL))"
    have ne: "pre \<noteq> []" using stateHash_image [OF p(3)] assms(10) HEX64_hex is_hex64_nonempty by metis
    have "reconstructStateAtDaa later (Inr d) = Inr st" using replay_state [OF assms(1) p(1) assms(9,2) p(2)] later p(6) by simp
    then have "replayReceipt sha later plan (stored ?R) ctx' = verifyReplay sha st plan (stored ?R) ctx'"
      unfolding replayReceipt_def s(6,7) by simp
    moreover have "jget (createLineageTransition (jset ''contentHash'' (JStr h) (stored ?R))) ''parentArtifactId'' = JStr h"
      using s(2) unfolding s(3) by (simp add: createLineageTransition_def Let_def jset_def)
    ultimately show ?thesis
      using verified_replay [OF _ s(5,8) ne p(3) r'(1) same s(9,4)] authentic_no_divergence [OF assms(4)] s(1) by simp
  qed
qed

text \<open>C30: a receipt of the simulator is reproduced by its replay, on every later ledger. A plan is executed, its receipt
  stored, and the ledger goes on; a replay takes the ledger back to the DAA score of the receipt, executes the plan
  again under another clock and finds no divergence: the report says so, is sealed as a child of the receipt's identity,
  and the only event is the verification. (The plan is authentic and has a change output.)\<close>

theorem replay_reproduces:
  assumes "ledger_ok d st" "executable_plan plan" "replayable_plan plan" "authentic_plan sha plan" "plan_spends plan ids" "plain_options o'"
    and "planTxId sha plan o' = Inr txId" "planTxId sha plan noPlanOptions = Inr txId" "tx_fresh txId st" "\<forall>x. HEX64 (sha x)"
    and r: "applySimulatedPlan sha st plan ctx o' = Inr r" "sr_ok r"
    and later: "ledger_run (d + 1) (sr_state r) e later"
  shows "\<exists>report event. replayReceipt sha later plan (stored (sr_receipt r)) ctx' = Inr (report, [event]) \<and> rv_kind event = ''replay.verified'' \<and>
    jget report ''invariantsOk'' = JBool True \<and> jget report ''planOk'' = JBool True \<and> jget report ''receiptOk'' = JBool True \<and>
    jget report ''divergences'' = JArr [] \<and> jget (jget report ''lineage'') ''parentArtifactId'' = jget (sr_receipt r) ''contentHash''"
  using assms by (rule replay_genuine)

text \<open>The plan of the examples with its mass.\<close>

definition ex_replay_plan :: json where
  "ex_replay_plan = jset ''estimatedMass'' (JStr ''2000'') ex_plan"

lemma ex_replay_facts:
  "executable_plan ex_replay_plan" "replayable_plan ex_replay_plan" "authentic_plan ex_hash ex_replay_plan"
  "plan_spends ex_replay_plan [''genesis-alice:0'']" "planTxId ex_hash ex_replay_plan noPlanOptions = Inr ex_txId"
proof -
  have get: "jget ex_replay_plan k = (if k = ''estimatedMass'' then JStr ''2000'' else jget ex_plan k)" for k
    by (simp add: ex_replay_plan_def ex_plan_def jset_def)
  have plain: "plain_json ex_replay_plan" by code_simp
  have same: "jget ex_replay_plan ''inputs'' = jget ex_plan ''inputs''" "jget ex_replay_plan ''outputs'' = jget ex_plan ''outputs''"
    "jget ex_replay_plan ''change'' = jget ex_plan ''change''" "jget ex_replay_plan ''from'' = jget ex_plan ''from''"
    "jget ex_replay_plan ''to'' = jget ex_plan ''to''" "jget ex_replay_plan ''estimatedFeeSompi'' = jget ex_plan ''estimatedFeeSompi''"
    by (simp_all add: get)
  have fee: "deriveSimulatedFee ex_replay_plan = deriveSimulatedFee ex_plan" unfolding deriveSimulatedFee_def same ..
  show "executable_plan ex_replay_plan"
    using ex_plan_executable plain unfolding executable_plan_def plan_amounts_def fee same by simp
  show "replayable_plan ex_replay_plan" "plan_spends ex_replay_plan [''genesis-alice:0'']" by code_simp+
  show "planTxId ex_hash ex_replay_plan noPlanOptions = Inr ex_txId"
    using ex_plan_facts(3) [of ex_hash] by (simp add: planTxId_def noPlanOptions_def generateDeterministicTxId_def get ex_plan_def)
  obtain h where h: "calculateContentHash ex_hash ex_replay_plan CURRENT_HASH_VERSION = Inr h"
    using hash_plain [OF plain] by (auto simp: ex_replay_plan_def ex_plan_def jset_def)
  then have "h = replicate 64 (CHR ''a'')" using contentHash_image [OF h] by (simp add: ex_hash_def)
  moreover have "readDeclaredHashVersion ex_replay_plan = Some CURRENT_HASH_VERSION" "jget ex_replay_plan ''contentHash'' = JStr (replicate 64 (CHR ''a''))"
    by code_simp+
  ultimately show "authentic_plan ex_hash ex_replay_plan" using h by (simp add: authentic_plan_def recomputeDeclaredContentHash_def)
qed

theorem replay_reproduces_witness:
  "\<exists>r report event. applySimulatedPlan ex_hash ex_state ex_replay_plan ex_ctx noPlanOptions = Inr r \<and>
    replayReceipt ex_hash (sr_state r) ex_replay_plan (stored (sr_receipt r)) ex_ctx = Inr (report, [event]) \<and> jget report ''invariantsOk'' = JBool True"
proof -
  note facts = ex_replay_facts ex_plan_facts(1,4,5)
  obtain r where r: "applySimulatedPlan ex_hash ex_state ex_replay_plan ex_ctx noPlanOptions = Inr r" "sr_ok r"
    using plan_executed [OF ex_state_ok(1) facts(1,6,4,5,8)] by blast
  have "\<forall>x. HEX64 (ex_hash x)" using ex_payment_facts(4) by blast
  from replay_reproduces [OF ex_state_ok(1) facts(1-4,6,5,5,7) this r ledger_run.here] r(1) show ?thesis by blast
qed

lemma ex_replay_verified:
  assumes "applySimulatedPlan ex_hash ex_state ex_replay_plan ex_ctx noPlanOptions = Inr r" "sr_ok r"
  shows "\<exists>report events. verifyReplay ex_hash ex_state ex_replay_plan (stored (sr_receipt r)) ex_ctx = Inr (report, events) \<and>
    jget report ''invariantsOk'' = JBool True \<and> ''$'' \<notin> set (keysOf (stored (sr_receipt r)))"
proof -
  have hex: "\<forall>x. HEX64 (ex_hash x)" using ex_payment_facts(4) by blast
  obtain report event where rep: "replayReceipt ex_hash (sr_state r) ex_replay_plan (stored (sr_receipt r)) ex_ctx = Inr (report, [event])"
    "jget report ''invariantsOk'' = JBool True"
    using replay_genuine [OF ex_state_ok(1) ex_replay_facts(1-4) ex_plan_facts(1) ex_replay_facts(5,5) ex_plan_facts(4) hex assms ledger_run.here] by blast
  show ?thesis
  proof (rule run_parts [OF assms ex_replay_facts(4) ex_state_ok(1)])
    show "po_digestHashVersion noPlanOptions = JUndefined" by code_simp
    fix txId new pre post
    let ?e = "executionExtra [''genesis-alice:0''] new (int_str (0 + 1)) pre post ex_state (planReceiptExtra noPlanOptions)"
    assume t: "planTxId ex_hash ex_replay_plan noPlanOptions = Inr txId" and c: "checkInputs ex_state [''genesis-alice:0''] = Inr ()"
      "createdUtxos ex_state ex_replay_plan txId (int_str (0 + 1)) = Inr new"
      and x: "createSimulatedTxReceipt ex_hash ex_replay_plan txId ex_ctx ?e = Inr (sr_receipt r)"
      and n: "sr_state r = nextState ex_state (int_str (0 + 1)) [''genesis-alice:0''] new"
    have "tx_fresh txId ex_state" using t ex_replay_facts(5) ex_plan_facts(4) by simp
    then have state: "reconstructStateAtDaa (sr_state r) (Inr 0) = Inr ex_state"
      unfolding n by (rule replay_state [OF ex_state_ok(1) c(1) _ ex_replay_facts(1) c(2) ledger_run.here])
    have plain: "plain_json ex_replay_plan" "plain_extra (planReceiptExtra noPlanOptions)" by code_simp+
    show ?thesis
    proof (rule stored_receipt [OF x hex plain])
      assume "jget (stored (sr_receipt r)) ''mode'' = JStr ''simulator''" "jget (stored (sr_receipt r)) ''daaScore'' = JStr (int_str (0 + 1))"
      then have "verifyReplay ex_hash ex_state ex_replay_plan (stored (sr_receipt r)) ex_ctx = Inr (report, [event])"
        using rep(1) state by (simp add: replayReceipt_def)
      then show ?thesis using rep(2) receipt_keys [OF x] by blast
    qed
  qed
qed

subsection \<open>What a verified replay certifies\<close>

lemma agrees_atoms:
  "agrees drops d l (JStr s) \<longleftrightarrow> l = JStr s"
  "agrees drops d l (strs xs) \<longleftrightarrow> l = strs xs"
proof -
  show "agrees drops d l (JStr s) \<longleftrightarrow> l = JStr s" for d l s by (rule agrees_primitive) simp
  then have "list_all2 (agrees drops d) ys (map JStr xs) \<longleftrightarrow> ys = map JStr xs" for d ys
    by (auto simp: list_all2_conv_all_nth list_eq_iff_nth_eq)
  then have "agrees drops d (JArr ys) (strs xs) \<longleftrightarrow> JArr ys = strs xs" for ys
    by (subst agrees_items) (simp_all add: strs_def isArray_def itemsOf_def)
  moreover have "\<not> agrees drops d l (strs xs)" if "\<not> isArray l" using that by (intro agrees_mixed) (simp add: strs_def isArray_def)
  ultimately show "agrees drops d l (strs xs) \<longleftrightarrow> l = strs xs" by (cases l) (auto simp: isArray_def strs_def)
qed

lemma agrees_field:
  assumes "agrees (droppedAt (Some ks)) 0 l r" "k \<in> set (keysOf r)" "k \<notin> set ks"
  shows "agrees (droppedAt (Some ks)) 1 (jget l k) (jget r k)"
proof -
  have "\<not> isPrimitive r" "\<not> isArray r" using assms(2) by (cases r; simp add: keysOf_def isArray_def)+
  moreover from this have "\<not> isPrimitive l" "\<not> isArray l"
    using assms(1) agrees_primitive [of l r "droppedAt (Some ks)" 0] agrees_mixed [of l r "droppedAt (Some ks)" 0] by auto
  moreover have "\<not> droppedAt (Some ks) 0 k" using assms(3) by (simp add: droppedAt_def)
  ultimately show ?thesis using assms(1,2) agrees_fields [of l r "droppedAt (Some ks)" 0] by auto
qed

text \<open>A replay without errors: every check passed.\<close>

lemma verified_parts:
  assumes "verifyReplay sha st plan R ctx = Inr (report, events)" "jget report ''invariantsOk'' = JBool True"
  obtains v r where "readDeclaredHashVersion R = Some v" "\<not> planDiverges sha plan" "preStateFindings sha st R = Inr ([], snd (projr (preStateFindings sha st R)))"
    "applySimulatedPlan sha st plan ctx (noPlanOptions\<lparr>po_digestHashVersion := JNum v\<rparr>) = Inr r"
    "ad_entries (diffArtifacts R (sr_receipt r) (Some REPLAY_UNREPRODUCIBLE_RECEIPT_FIELDS)) = []"
proof -
  obtain errors ds entries where f: "replayFindings sha st plan R ctx = Inr (errors, ds, entries)"
    and report: "\<exists>hash l p q ds. report = sealWith hash (replayReport st R ctx l p q errors ds)"
    using assms(1) by (fastforce simp: verifyReplay_def Let_def)
  obtain version preState r found where p: "versionFindings R = Inr version" "preStateFindings sha st R = Inr preState"
    "applySimulatedPlan sha st plan ctx (noPlanOptions\<lparr>po_digestHashVersion := JNum (digestVersion R)\<rparr>) = Inr r"
    "mapE entryFindings (ad_entries (diffArtifacts R (sr_receipt r) (Some REPLAY_UNREPRODUCIBLE_RECEIPT_FIELDS))) = Inr found"
    "errors = fst (planFindings sha plan) @ fst version @ fst preState @ map fst found"
    using f by (fastforce simp: replayFindings_def Let_def)
  have inv: "jget (sealWith c (replayReport st R ctx l p q errors ds)) ''invariantsOk'' = JBool (errors = [])" for c l p q errors ds
    unfolding replayReport_def Let_def by (subst sealWith_other) (simp_all add: jwhen_def)
  have none: "fst (planFindings sha plan) = []" "fst version = []" "fst preState = []" "found = []"
    using assms(2) report inv p(5) by auto
  obtain v where v: "readDeclaredHashVersion R = Some v"
    using p(1) none(2) by (cases "readDeclaredHashVersion R") (auto simp: versionFindings_def)
  have "digestVersion R = v" by (simp add: digestVersion_def v)
  moreover have "ad_entries (diffArtifacts R (sr_receipt r) (Some REPLAY_UNREPRODUCIBLE_RECEIPT_FIELDS)) = []"
    using p(4) none(4) by (cases "ad_entries (diffArtifacts R (sr_receipt r) (Some REPLAY_UNREPRODUCIBLE_RECEIPT_FIELDS))") auto
  ultimately show thesis using that [OF v] p none by (cases preState) (auto simp: planFindings_def split: if_splits)
qed

lemma receipt_compared_keys:
  assumes "createSimulatedTxReceipt sha plan txId ctx e = Inr R"
  shows "{''status'', ''txId'', ''spentUtxoIds'', ''createdUtxoIds'', ''postStateHash'', ''feeSompi''} \<subseteq> set (keysOf R)"
proof -
  obtain fee fa ta h where r: "R = sealWith h (JObj (receiptDraft plan txId ctx e fa ta fee))" using assms by (rule receipt_shape)
  obtain es where es: "R = JObj es" "filter (\<lambda>kv. compared (fst kv)) es = filter (\<lambda>kv. compared (fst kv)) (receiptDraft plan txId ctx e fa ta fee)"
    using sealWith_filter [of compared h] r by (fastforce simp: REPLAY_UNREPRODUCIBLE_RECEIPT_FIELDS_def)
  have "fst ` set (filter (\<lambda>kv. compared (fst kv)) es) \<subseteq> set (keysOf R)" by (auto simp: es(1) keysOf_def)
  then show ?thesis unfolding es(2) by (auto simp: receiptDraft_def REPLAY_UNREPRODUCIBLE_RECEIPT_FIELDS_def)
qed

lemma failed_status: "jget (sr_receipt (failedResult sha st pre m)) ''status'' = JStr ''failed''" "''status'' \<in> set (keysOf (sr_receipt (failedResult sha st pre m)))"
  by (simp_all add: failedResult_def Let_def failedReceipt_def keysOf_def)

lemma certified_fields:
  assumes "applySimulatedPlan sha st plan ctx (noPlanOptions\<lparr>po_digestHashVersion := JNum v\<rparr>) = Inr r"
    and "agrees (droppedAt (Some REPLAY_UNREPRODUCIBLE_RECEIPT_FIELDS)) 0 R (sr_receipt r)"
    and "jget R ''status'' = JStr ''accepted''" "ledger_ok d st"
  shows "\<exists>txId post fee. sr_ok r \<and> generateDeterministicTxId sha plan = Inr txId \<and>
    calculateStateHash sha (sr_state r) (JNum v) = Inr post \<and> deriveSimulatedFee plan = Inr (Inr fee) \<and>
    jget R ''txId'' = JStr txId \<and> jget R ''postStateHash'' = JStr post \<and> jget R ''feeSompi'' = JStr (int_str fee) \<and>
    jget R ''spentUtxoIds'' = jget (sr_receipt r) ''spentUtxoIds'' \<and> jget R ''createdUtxoIds'' = jget (sr_receipt r) ''createdUtxoIds''"
proof -
  let ?o = "noPlanOptions\<lparr>po_digestHashVersion := JNum v\<rparr>" and ?ks = "REPLAY_UNREPRODUCIBLE_RECEIPT_FIELDS"
  have field: "agrees (droppedAt (Some ?ks)) 1 (jget R k) (jget (sr_receipt r) k)" if "k \<in> set (keysOf (sr_receipt r))" "compared k" for k
    using agrees_field [OF assms(2) that] .
  have ok: "sr_ok r" using assms(1)
  proof (cases rule: applySimulatedPlan_cases)
    case (failed pre m)
    have "jget R ''status'' = JStr ''failed''" using field [of "''status''"] failed_status unfolding failed
      by (simp add: agrees_atoms REPLAY_UNREPRODUCIBLE_RECEIPT_FIELDS_def)
    then show ?thesis using assms(3) by simp
  qed
  obtain ids txId new pre post where x: "planTxId sha plan ?o = Inr txId" "calculateStateHash sha (sr_state r) (JNum v) = Inr post"
    "createSimulatedTxReceipt sha plan txId ctx (executionExtra ids new (int_str (d + 1)) pre post st (planReceiptExtra ?o)) = Inr (sr_receipt r)"
    by (rule execution_step [OF assms(1) ok assms(4)]) simp
  note s = receipt_status [OF x(3)]
  obtain fee where fee: "deriveSimulatedFee plan = Inr (Inr fee)" "jget (sr_receipt r) ''feeSompi'' = JStr (int_str fee)" using s(7) by blast
  have get: "agrees (droppedAt (Some ?ks)) 1 (jget R k) (jget (sr_receipt r) k)"
    if "k \<in> {''txId'', ''spentUtxoIds'', ''createdUtxoIds'', ''postStateHash'', ''feeSompi''}" for k
    by (rule field) (use that receipt_compared_keys [OF x(3)] in \<open>auto simp: REPLAY_UNREPRODUCIBLE_RECEIPT_FIELDS_def\<close>)
  have "generateDeterministicTxId sha plan = Inr txId" using x(1) by (simp add: planTxId_def noPlanOptions_def)
  moreover have "jget R ''txId'' = JStr txId" "jget R ''postStateHash'' = JStr post" "jget R ''feeSompi'' = JStr (int_str fee)"
    using get [of "''txId''"] get [of "''postStateHash''"] get [of "''feeSompi''"] s(5,6) fee(2) by (simp_all add: agrees_atoms executionExtra_def)
  moreover have "jget R ''spentUtxoIds'' = jget (sr_receipt r) ''spentUtxoIds''" "jget R ''createdUtxoIds'' = jget (sr_receipt r) ''createdUtxoIds''"
    using get [of "''spentUtxoIds''"] get [of "''createdUtxoIds''"] s(2,3) by (simp_all add: agrees_atoms executionExtra_def)
  ultimately show ?thesis using ok x(2) fee(1) by blast
qed

text \<open>C10: a verified replay certifies the receipt. When the report says that the invariants hold, the receipt agrees, at
  every depth and in everything but the fields that no replay can reproduce, with the receipt of executing the plan
  on that state; the plan's hash and the state before are what they claim; and a receipt that says it was accepted
  records the transaction id, the spent and created outputs, the fee and the state digest of that execution.\<close>

theorem replay_certifies:
  assumes "verifyReplay sha st plan R ctx = Inr (report, events)" "jget report ''invariantsOk'' = JBool True"
    and "''$'' \<notin> set (keysOf R)" "ledger_ok d st"
  shows "\<exists>v r. readDeclaredHashVersion R = Some v \<and>
    applySimulatedPlan sha st plan ctx (noPlanOptions\<lparr>po_digestHashVersion := JNum v\<rparr>) = Inr r \<and>
    agrees (droppedAt (Some REPLAY_UNREPRODUCIBLE_RECEIPT_FIELDS)) 0 R (sr_receipt r) \<and>
    (truthy (jget plan ''contentHash'') \<longrightarrow> jget plan ''contentHash'' = JStr (declaredPlanHash sha plan)) \<and>
    (truthy (jget R ''preStateHash'') \<longrightarrow> (\<exists>h. calculateStateHash sha st (JNum v) = Inr h \<and> jget R ''preStateHash'' = JStr h)) \<and>
    (jget R ''status'' = JStr ''accepted'' \<longrightarrow> (\<exists>txId post fee. sr_ok r \<and> generateDeterministicTxId sha plan = Inr txId \<and>
       calculateStateHash sha (sr_state r) (JNum v) = Inr post \<and> deriveSimulatedFee plan = Inr (Inr fee) \<and>
       jget R ''txId'' = JStr txId \<and> jget R ''postStateHash'' = JStr post \<and> jget R ''feeSompi'' = JStr (int_str fee) \<and>
       jget R ''spentUtxoIds'' = jget (sr_receipt r) ''spentUtxoIds'' \<and> jget R ''createdUtxoIds'' = jget (sr_receipt r) ''createdUtxoIds''))"
  using assms(1,2)
proof (rule verified_parts)
  fix v r
  let ?ks = "REPLAY_UNREPRODUCIBLE_RECEIPT_FIELDS"
  assume v: "readDeclaredHashVersion R = Some v" and plan: "\<not> planDiverges sha plan"
    and pre: "preStateFindings sha st R = Inr ([], snd (projr (preStateFindings sha st R)))"
    and r: "applySimulatedPlan sha st plan ctx (noPlanOptions\<lparr>po_digestHashVersion := JNum v\<rparr>) = Inr r" and same: "ad_entries (diffArtifacts R (sr_receipt r) (Some ?ks)) = []"
  have agree: "agrees (droppedAt (Some ?ks)) 0 R (sr_receipt r)"
    using same compareRecursive_agrees [of "Some ?ks" 0 "''$''" R "sr_receipt r" False] assms(3) by (simp add: diffArtifacts_def Let_def)
  have state: "\<exists>h. calculateStateHash sha st (JNum v) = Inr h \<and> jget R ''preStateHash'' = JStr h" if "truthy (jget R ''preStateHash'')"
    using pre that by (auto simp: preStateFindings_def digestVersion_def v Let_def split: if_splits)
  show ?thesis using v r agree plan state certified_fields [OF r agree _ assms(4)] by (auto simp: planDiverges_def)
qed

theorem replay_certifies_witness:
  "\<exists>R report events v r. verifyReplay ex_hash ex_state ex_replay_plan R ex_ctx = Inr (report, events) \<and> jget report ''invariantsOk'' = JBool True \<and>
    readDeclaredHashVersion R = Some v \<and> applySimulatedPlan ex_hash ex_state ex_replay_plan ex_ctx (noPlanOptions\<lparr>po_digestHashVersion := JNum v\<rparr>) = Inr r \<and>
    agrees (droppedAt (Some REPLAY_UNREPRODUCIBLE_RECEIPT_FIELDS)) 0 R (sr_receipt r)"
proof -
  obtain r where r: "applySimulatedPlan ex_hash ex_state ex_replay_plan ex_ctx noPlanOptions = Inr r" "sr_ok r"
    using plan_executed [OF ex_state_ok(1) ex_replay_facts(1) ex_plan_facts(1) ex_replay_facts(4,5) ex_plan_facts(5)] by blast
  obtain report events where v: "verifyReplay ex_hash ex_state ex_replay_plan (stored (sr_receipt r)) ex_ctx = Inr (report, events)"
      "jget report ''invariantsOk'' = JBool True" "''$'' \<notin> set (keysOf (stored (sr_receipt r)))"
    using ex_replay_verified [OF r] by blast
  show ?thesis using replay_certifies [OF v ex_state_ok(1)] v(1,2) by blast
qed

subsection \<open>Receipts without change\<close>

lemma change_key:
  assumes "createSimulatedTxReceipt sha plan txId ctx e = Inr R"
  shows "''changeSompi'' \<in> set (keysOf R)" "jget R ''changeSompi'' = jget (jget plan ''change'') ''amountSompi''" "\<exists>es. R = JObj es"
proof -
  obtain fee fa ta h where r: "R = sealWith h (JObj (receiptDraft plan txId ctx e fa ta fee))" using assms by (rule receipt_shape)
  obtain es where es: "R = JObj es" "filter (\<lambda>kv. fst kv = ''changeSompi'') es = filter (\<lambda>kv. fst kv = ''changeSompi'') (receiptDraft plan txId ctx e fa ta fee)"
    using sealWith_filter [of "\<lambda>k. k = ''changeSompi''" h] r by fastforce
  have "fst ` set (filter (\<lambda>kv. fst kv = ''changeSompi'') es) \<subseteq> set (keysOf R)" by (force simp: es(1) keysOf_def)
  then show "''changeSompi'' \<in> set (keysOf R)" unfolding es(2) by (auto simp: receiptDraft_def)
  show "jget R ''changeSompi'' = jget (jget plan ''change'') ''amountSompi''" unfolding r by (simp add: sealWith_other) (simp add: receiptDraft_def)
  show "\<exists>es. R = JObj es" using es(1) by blast
qed

lemma stored_drops_undefined: "jget (JObj es) k = JUndefined \<Longrightarrow> distinct (map fst es) \<Longrightarrow> k \<notin> set (keysOf (stored (JObj es)))"
  by (auto simp: keysOf_def unprintable_def split: option.splits) (metis eq_key_imp_eq_value)

text \<open>A receipt of a plan without change, read from the store, has no field \<open>changeSompi\<close>; the receipt of the replay has
  one, with no value. The comparison takes this for a difference, so such a receipt is never reproduced.\<close>

theorem replay_without_change_diverges:
  assumes "createSimulatedTxReceipt sha plan txId ctx e = Inr R" "\<forall>x. HEX64 (sha x)" "jget (jget plan ''change'') ''amountSompi'' = JUndefined"
    and "verifyReplay sha st plan (stored R) ctx' = Inr (report, events)" "ledger_ok d st" "plain_json plan" "plain_extra e"
  shows "jget report ''invariantsOk'' \<noteq> JBool True"
proof
  assume "jget report ''invariantsOk'' = JBool True"
  with assms(4) show False
  proof (rule verified_parts)
    fix v r
    let ?ks = "REPLAY_UNREPRODUCIBLE_RECEIPT_FIELDS" and ?o = "noPlanOptions\<lparr>po_digestHashVersion := JNum v\<rparr>"
    assume r: "applySimulatedPlan sha st plan ctx' ?o = Inr r" and same: "ad_entries (diffArtifacts (stored R) (sr_receipt r) (Some ?ks)) = []"
    have agree: "agrees (droppedAt (Some ?ks)) 0 (stored R) (sr_receipt r)"
      using same compareRecursive_agrees [of "Some ?ks" 0 "''$''" "stored R" "sr_receipt r" False] receipt_keys [OF assms(1)]
      by (simp add: diffArtifacts_def Let_def)
    obtain es where es: "R = JObj es" "distinct (map fst es)" using receipt_self_identity [OF assms(1,2)] by metis
    have "plain_json R" using receipt_seal(3) [OF assms(1,6,7)] .
    then have "jget (stored R) ''status'' = JStr ''accepted''" using stored_get [of es "''status''"] es receipt_status(1) [OF assms(1)] by simp
    from certified_fields [OF r agree this assms(5)] have ok: "sr_ok r" by blast
    obtain txId' e' where x: "createSimulatedTxReceipt sha plan txId' ctx' e' = Inr (sr_receipt r)"
      by (rule execution_step [OF r ok assms(5)]) blast
    obtain es' where es': "sr_receipt r = JObj es'" using change_key(3) [OF x] by blast
    have "''changeSompi'' \<notin> set (keysOf (stored R))"
      using stored_drops_undefined [OF _ es(2)] change_key(2) [OF assms(1)] assms(3) unfolding es(1) by simp
    moreover have "{k \<in> set (keysOf (stored R)). \<not> droppedAt (Some ?ks) 0 k} = {k \<in> set (keysOf (sr_receipt r)). \<not> droppedAt (Some ?ks) 0 k}"
      using agree agrees_fields [of "stored R" "sr_receipt r" "droppedAt (Some ?ks)" 0] unfolding es(1) es' by (simp add: isArray_def)
    ultimately show False using change_key(1) [OF x] by (auto simp: droppedAt_def REPLAY_UNREPRODUCIBLE_RECEIPT_FIELDS_def)
  qed
qed

end
