(* ===== verification/HK_TransferChain.thy ===== *)
theory HK_TransferChain
  imports HK_ChainProps HK_ReplayProps
begin

text \<open>
  The artifacts of a transfer in the store: each verifies under its own hash, and the provenance of the trace is found
  complete, up to the plan.
\<close>

subsection \<open>Sealed artifacts verify\<close>

lemma map_of_mem: "distinct (map fst es) \<Longrightarrow> (k, v) \<in> set es \<longleftrightarrow> map_of es k = Some v"
  by (auto intro: map_of_is_SomeI dest: map_of_SomeD)

lemma sealed_hash:
  assumes "distinct (map fst es)" "distinct (map fst ls)" "map_of es ''lineage'' = Some (JObj ls)" "distinct (map fst fs)"
    and "map_of fs ''lineage'' = Some (JObj (AList.update ''artifactId'' (JStr h) ls))"
    and "\<And>k. \<not> isExcluded k 5 0 None \<Longrightarrow> k \<noteq> ''lineage'' \<Longrightarrow> map_of fs k = map_of es k"
  shows "calculateContentHash sha (JObj fs) 5 = calculateContentHash sha (JObj es) 5"
proof -
  let ?es = "AList.update ''contentHash'' (JStr h) (AList.update ''lineage'' (JObj (AList.update ''artifactId'' (JStr h) ls)) es)"
  have d: "distinct (map fst ?es)" by (intro AList.distinct_update assms(1))
  have ex: "isExcluded ''contentHash'' 5 0 None" by (simp add: isExcluded_def UNEXCLUDED_FORM_def)
  have "keptEntries 5 0 None fs = keptEntries 5 0 None ?es"
  proof (rule kept_same [OF assms(4) d])
    fix k v
    assume "\<not> isExcluded k 5 0 None"
    then have "map_of fs k = map_of ?es k" using assms(5,6) ex by (cases "k = ''lineage''"; cases "k = ''contentHash''") auto
    then show "(k, v) \<in> set fs \<longleftrightarrow> (k, v) \<in> set ?es" by (simp add: map_of_mem [OF assms(4)] map_of_mem [OF d])
  qed
  then have "serialize (JObj fs) 5 None True 0 None = serialize (seal h es ls) 5 None True 0 None" by (simp add: seal_def)
  also have "\<dots> = serialize (JObj es) 5 None True 0 None" by (rule seal_serialize [OF assms(1,2) map_of_SomeD [OF assms(3)]])
  finally show ?thesis by (simp add: calculateContentHash_def canonicalStringify_def)
qed

lemma sealed_identity:
  assumes "calculateContentHash sha a 5 = Inr h" "jget a ''hashVersion'' = JNum 5" "h \<noteq> []" "jget a ''contentHash'' = JStr h"
    and "jget (jget a ''lineage'') ''artifactId'' = JStr h" "jget a ''artifactId'' = JUndefined"
    and "starts_with (text_of (jget a ''schema'')) schemaTxPlan \<Longrightarrow> jget a ''planId'' \<in> {JUndefined, JStr (''plan-'' @ take 16 h)}"
    and "starts_with (text_of (jget a ''schema'')) schemaSignedTx \<Longrightarrow> jget a ''signedId'' \<in> {JUndefined, JStr (''signed-'' @ take 16 h)}"
  shows "identity sha a = Some h"
proof -
  have v: "readDeclaredHashVersion a = Some 5" by (simp add: readDeclaredHashVersion_def assms(2) MIN_HASH_VERSION_def CURRENT_HASH_VERSION_def)
  have "identityIssues a 5 h = []" using assms(3-8) by (auto simp: identityIssues_def Let_def text_of_def codeIf_def)
  then show ?thesis unfolding identity_Some checkArtifactIdentity_def v using assms(1) by (simp add: CURRENT_HASH_VERSION_def)
qed

lemma hash_nonempty: "calculateContentHash sha j v = Inr h \<Longrightarrow> \<forall>x. HEX64 (sha x) \<Longrightarrow> h \<noteq> []"
  using contentHash_image [of sha j v h] HEX64_hex is_hex64_nonempty by metis

lemma optional_keys:
  "x \<in> fst ` set (opt_int k i) \<longleftrightarrow> i \<noteq> None \<and> x = k" "distinct (map fst (opt_int k i))"
  "x \<in> fst ` set (opt_field k s) \<longleftrightarrow> s \<noteq> None \<and> x = k" "distinct (map fst (opt_field k s))"
  "x \<in> fst ` set (changeJson c) \<longleftrightarrow> c \<noteq> None \<and> x = ''change''" "distinct (map fst (changeJson c))"
  by (auto simp: opt_int_def opt_field_def changeJson_def split: option.splits)

lemma planDraft_distinct: "distinct (map fst (planDraft o' w))"
  unfolding planDraft_def Let_def map_append distinct_append set_append set_map image_Un
  by (simp add: jwhen_keys optional_keys disjoint_iff)

lemma planDraft_absent: "jget (JObj (planDraft o' w)) ''artifactId'' = JUndefined" "jget (JObj (planDraft o' w)) ''parentArtifactId'' = JUndefined"
proof -
  have "map_of (planDraft o' w) k = None" if "k \<in> {''artifactId'', ''parentArtifactId''}" for k
    using that unfolding map_of_eq_None_iff planDraft_def Let_def set_append image_Un by (auto simp: jwhen_keys optional_keys)
  then show "jget (JObj (planDraft o' w)) ''artifactId'' = JUndefined" "jget (JObj (planDraft o' w)) ''parentArtifactId'' = JUndefined" by simp_all
qed

lemma plan_identity:
  assumes "createTxPlanArtifact sha o' = Inr P" "\<forall>x. HEX64 (sha x)"
  shows "\<exists>h. jget P ''contentHash'' = JStr h \<and> identity sha P = Some h" "parentReferenceOf P = None"
proof -
  obtain w where w: "finalizeTxPlanIdentity sha (JObj (planDraft o' w)) = Inr P" using assms(1) by (auto simp: createTxPlanArtifact_def)
  from w obtain h where h: "calculateContentHash sha (jset ''hashVersion'' (JNum 5) (JObj (planDraft o' w))) 5 = Inr h"
    and P: "P = jset ''lineage'' (JObj [(''artifactId'', JStr h), (''sequence'', JNum 1)]) (jset ''planId'' (JStr (''plan-'' @ take 16 h))
      (jset ''contentHash'' (JStr h) (jset ''hashVersion'' (JNum 5) (JObj (planDraft o' w)))))" by (rule finalize_shape)
  let ?d = "AList.update ''hashVersion'' (JNum 5) (planDraft o' w)"
  have dd: "distinct (map fst ?d)" by (intro AList.distinct_update planDraft_distinct)
  have lin: "map_of ?d ''lineage'' = Some (JObj [(''artifactId'', JStr []), (''sequence'', JNum 1)])"
    using planDraft_fields(6) [of o' w] by (auto split: option.splits)
  have ne: "h \<noteq> []" using hash_nonempty [OF h assms(2)] .
  obtain fs where fs: "P = JObj fs" "fs = AList.update ''lineage'' (JObj [(''artifactId'', JStr h), (''sequence'', JNum 1)])
      (AList.update ''planId'' (JStr (''plan-'' @ take 16 h)) (AList.update ''contentHash'' (JStr h) ?d))" by (simp add: P jset_def)
  have hash: "calculateContentHash sha P 5 = Inr h"
    unfolding fs(1) using h sealed_hash [OF dd _ lin, of fs h sha] dd
    by (auto simp: fs(2) jset_def AList.distinct_update isExcluded_def UNEXCLUDED_FORM_def V5_DERIVED_LABELS_def)
  have keep: "jget P k = jget (JObj (planDraft o' w)) k" if "k \<notin> {''hashVersion'', ''contentHash'', ''planId'', ''lineage''}" for k
    using finalize_keeps [OF w that] .
  have none: "jget P ''artifactId'' = JUndefined" "jget P ''parentArtifactId'' = JUndefined" "jget P ''schema'' = JStr schemaTxPlan"
    using keep [of "''artifactId''"] keep [of "''parentArtifactId''"] keep [of "''schema''"] planDraft_absent [of o' w] planDraft_ids(1) [of o' w] by simp_all
  have "identity sha P = Some h"
    by (rule sealed_identity [OF hash _ ne]) (simp_all add: none, simp_all add: fs text_of_def starts_with_def schema_defs)
  then show "\<exists>h. jget P ''contentHash'' = JStr h \<and> identity sha P = Some h" by (auto simp: fs)
  show "parentReferenceOf P = None" using none(2) by (simp add: parentReferenceOf_def Let_def is_HEX64_def) (simp add: fs keysOf_def)
qed

lemma lineageTransition_obj: "\<exists>ls. createLineageTransition p = JObj ls \<and> distinct (map fst ls) \<and> ls \<noteq> []"
  by (simp add: createLineageTransition_def Let_def)

lemma get_some: "jget (JObj es) k = v \<Longrightarrow> v \<noteq> JUndefined \<Longrightarrow> map_of es k = Some v"
  by (auto split: option.splits)

lemma signedDraft_distinct: "distinct (map fst (signedDraft plan pid addr tx ctx ta))"
  unfolding signedDraft_def map_append distinct_append set_append set_map image_Un by (simp add: jwhen_keys disjoint_iff)

lemma signed_identity:
  assumes "createSimulatedSignedTxArtifact sha plan signer ctx = Inr S" "\<forall>x. HEX64 (sha x)"
  shows "\<exists>h. jget S ''contentHash'' = JStr h \<and> identity sha S = Some h"
  using assms(1)
proof (rule signed_shape)
  fix pid addr ta h
  let ?d = "signedDraft plan pid addr (''synthetic-'' @ pid) ctx ta"
  assume h: "calculateContentHash sha (JObj ?d) 5 = Inr h" and S: "S = sealWith h (jset ''signedId'' (JStr (''signed-'' @ take 16 h)) (JObj ?d))"
  note f = signed_fields [OF S]
  obtain ls where ls: "createLineageTransition plan = JObj ls" "distinct (map fst ls)" "ls \<noteq> []" using lineageTransition_obj by blast
  have lin: "map_of ?d ''lineage'' = Some (JObj ls)" by (simp add: signedDraft_def ls)
  let ?es = "AList.update ''signedId'' (JStr (''signed-'' @ take 16 h)) ?d"
  have lin': "jget (JObj ?es) ''lineage'' = JObj ls" using lin by simp
  have fs: "S = JObj (AList.update ''contentHash'' (JStr h) (AList.update ''lineage'' (JObj (AList.update ''artifactId'' (JStr h) ls)) ?es))" (is "_ = JObj ?fs")
    unfolding S jset_def json.case using sealWith_seal [OF lin' ls(3), of h] by (simp add: seal_def)
  have "distinct (map fst ?fs)" by (intro AList.distinct_update signedDraft_distinct)
  then have hash: "calculateContentHash sha S 5 = Inr h"
    unfolding fs using h sealed_hash [OF signedDraft_distinct ls(2) lin, of ?fs h sha]
    by (auto simp: isExcluded_def UNEXCLUDED_FORM_def V5_DERIVED_LABELS_def)
  have other: "jget S ''hashVersion'' = JNum 5" "jget S ''artifactId'' = JUndefined" "jget S ''signedId'' = JStr (''signed-'' @ take 16 h)"
    unfolding fs by (simp_all add: signedDraft_def CURRENT_HASH_VERSION_def jwhen_def)
  have "identity sha S = Some h"
  proof (rule sealed_identity [OF hash other(1) hash_nonempty [OF h assms(2)] f(1) _ other(2)])
    show "jget (jget S ''lineage'') ''artifactId'' = JStr h" unfolding f(2) ls by simp
    show "jget S ''planId'' \<in> {JUndefined, JStr (''plan-'' @ take 16 h)}" if "starts_with (text_of (jget S ''schema'')) schemaTxPlan"
      using that unfolding f(3) by (simp add: text_of_def starts_with_def schema_defs)
  qed (simp add: other(3))
  then show ?thesis using f(1) by blast
qed

lemma traceDraft_distinct: "distinct (map fst (traceDraft h R a b))"
  unfolding traceDraft_def Let_def map_append distinct_append set_append set_map image_Un by (simp add: jwhen_keys disjoint_iff)

lemma trace_verifies:
  assumes "buildSimulatedTrace h R a b path = Inr T" "\<forall>x. HEX64 (h_sha h x)"
  shows "\<exists>c. jget T ''contentHash'' = JStr c \<and> identity (h_sha h) T = Some c"
proof -
  let ?d = "traceDraft h R a b"
  obtain c where c: "calculateContentHash (h_sha h) (JObj ?d) 5 = Inr c" and T: "T = jset ''receiptPath'' (JStr path) (sealWith c (JObj ?d))"
    using assms(1) by (auto simp: buildSimulatedTrace_def Let_def CURRENT_HASH_VERSION_def)
  obtain ls where lin: "map_of ?d ''lineage'' = Some (JObj ls)" "distinct (map fst ls)" "ls \<noteq> []"
    by (simp add: traceDraft_def Let_def map_add_def jwhen_def)
  have fs: "T = JObj (AList.update ''receiptPath'' (JStr path) (AList.update ''contentHash'' (JStr c)
      (AList.update ''lineage'' (JObj (AList.update ''artifactId'' (JStr c) ls)) ?d)))" (is "_ = JObj ?fs")
    using sealWith_seal [of ?d ls c] lin unfolding T by (simp add: seal_def jset_def)
  have "distinct (map fst ?fs)" by (intro AList.distinct_update traceDraft_distinct)
  then have hash: "calculateContentHash (h_sha h) T 5 = Inr c"
    unfolding fs using c sealed_hash [OF traceDraft_distinct lin(2,1), of ?fs c "h_sha h"]
    by (auto simp: isExcluded_def UNEXCLUDED_FORM_def V5_UNAUTHENTICATED_def)
  have draft: "jget (JObj ?d) ''hashVersion'' = JNum 5" "jget (JObj ?d) ''artifactId'' = JUndefined" "jget (JObj ?d) ''schema'' = JStr schemaTxTrace"
    by (simp_all add: traceDraft_def Let_def CURRENT_HASH_VERSION_def map_add_def jwhen_def)
  have get: "jget T k = jget (JObj ?d) k" if "k \<notin> {''receiptPath'', ''contentHash'', ''lineage''}" for k using that by (simp add: fs)
  have "identity (h_sha h) T = Some c"
  proof (rule sealed_identity [OF hash _ hash_nonempty [OF c assms(2)]])
    have schema: "jget T ''schema'' = JStr schemaTxTrace" using get draft by simp
    show "jget T ''planId'' \<in> {JUndefined, JStr (''plan-'' @ take 16 c)}" if "starts_with (text_of (jget T ''schema'')) schemaTxPlan"
      using that schema by (simp add: text_of_def starts_with_def schema_defs)
    show "jget T ''signedId'' \<in> {JUndefined, JStr (''signed-'' @ take 16 c)}" if "starts_with (text_of (jget T ''schema'')) schemaSignedTx"
      using that schema by (simp add: text_of_def starts_with_def schema_defs)
    show "jget T ''hashVersion'' = JNum 5" "jget T ''artifactId'' = JUndefined" using get draft by simp_all
  qed (simp_all add: fs)
  then show ?thesis by (auto simp: fs)
qed


subsection \<open>The provenance of a transfer\<close>

text \<open>A store holds an artifact when it has a copy and nothing else claims its identity.\<close>

definition holds :: "(string \<Rightarrow> string) \<Rightarrow> store \<Rightarrow> json \<Rightarrow> bool" where
  "holds sha es a \<longleftrightarrow> (\<exists>e \<in> set es. we_artifact e = a) \<and>
     (\<forall>e \<in> set es. \<forall>i. identity sha a = Some i \<and> claims i (we_artifact e) (safeRecompute sha (we_artifact e)) \<longrightarrow> we_artifact e = a)"

definition inWorkspace :: "store \<Rightarrow> ParentLookup" where
  "inWorkspace es = \<lparr>lk_workspace = Some es, lk_resolveArtifact = None\<rparr>"

lemma find_held:
  assumes "identity sha a = Some i" "HEX64 i" "holds sha es a"
  shows "findParent sha (inWorkspace es) i = Some a"
proof -
  let ?l = "LArtifact i"
  have ans: "isAnswer sha (answers ?l) e \<longleftrightarrow> we_artifact e = a" if "e \<in> set es" for e
    using that assms identity_recomputed [OF assms(1)] by (auto simp: isAnswer_def holds_def claims_def)
  have acc: "accepted sha (extraOf ?l) e" if "we_artifact e = a" for e using that assms(1) by (simp add: accepted_def identityMismatch_def)
  obtain e where e: "e \<in> set es" "we_artifact e = a" using assms(3) by (auto simp: holds_def)
  have ne: "filter (isAnswer sha (answers ?l)) es \<noteq> []" using e ans by (auto simp: filter_empty_conv)
  then obtain r where r: "resolveArtifactSync sha (\<lambda>_. Inl []) es (Inr ?l) = Inr r"
    using resolve_Inr [of ?l sha "\<lambda>_. Inl []" es] assms(1,2) ans acc by auto
  have "ra_artifact r = we_artifact (hd (filter (isAnswer sha (answers ?l)) es))"
    using r ne assms(2) resolve_Inr [of ?l sha "\<lambda>_. Inl []" es] by (auto simp: resolvedOf_def Let_def hd_map candidateOf_def)
  also have "\<dots> = a" using hd_in_set [OF ne] ans by auto
  finally have a: "ra_artifact r = a" .
  have "i \<noteq> []" using assms(2) by (auto simp: HEX64_def)
  from parentReferenceOf_child [OF this] show ?thesis
    using r a assms(2) by (simp add: findParent_def resolveParentReference_def searchStore_def inWorkspace_def parentIs_def)
qed

lemma child_reference:
  assumes "child_lineage c hc hp root n" "hp \<noteq> []" "hc \<noteq> hp"
  shows "parentReferenceOf c = Some hp"
proof -
  have f: "jget (jget c ''lineage'') ''parentArtifactId'' = JStr hp" "jget (jget c ''lineage'') ''artifactId'' = JStr hc"
    using assms(1) by (simp_all add: child_lineage_def)
  obtain ls where ls: "jget c ''lineage'' = JObj ls" using f(1) by (cases "jget c ''lineage''") (auto simp: jget_def)
  have "map_of ls ''parentArtifactId'' = Some (JStr hp)" using f(1) unfolding ls by (rule get_some) simp
  then have "''parentArtifactId'' \<in> set (map fst ls)" by (auto dest!: map_of_SomeD simp: rev_image_eqI)
  then show ?thesis using f assms(2,3) unfolding parentReferenceOf_def ls by (simp add: keysOf_def text_of_def)
qed

lemma held_step:
  assumes "identity sha p = Some hp" "HEX64 hp" "holds sha es p" "child_lineage c hc hp root n" "hc \<noteq> hp"
    and "provenance (findParent sha (inWorkspace es)) p ps"
  shows "provenance (findParent sha (inWorkspace es)) c (p # ps)"
proof -
  have "hp \<noteq> []" using assms(2) by (auto simp: HEX64_def)
  from provenance.parent [OF child_reference [OF assms(4) this assms(5)] find_held [OF assms(1-3)] assms(6)] show ?thesis .
qed

lemma identity_image: "identity sha a = Some i \<Longrightarrow> \<exists>x. i = sha x"
  unfolding identity_Some by (auto elim!: checkArtifactIdentity_ok dest!: contentHash_image)

text \<open>The provenance of a transfer is found complete. When the store holds the plan, the authorization and the receipt of
  a simulated transfer, the walk from the trace resolves all three, up to the plan, and reports the chain complete,
  with the four content hashes as its links. The digests are 64 lower-case hexadecimal digits, and the four
  artifacts have different ones.\<close>

theorem transfer_chain_complete:
  assumes sha: "\<forall>x. HEX64 (h_sha h x)" and "ledger_ok d st" "createTxPlanArtifact (h_sha h) o' = Inr P" "cp_mode o' = ''simulator''"
    and "createSimulatedSignedTxArtifact (h_sha h) P signer ctx = Inr S"
    and "applySimulatedExecution h st P S txId root clock = Inr (Inr (post, R))" "buildSimulatedExecutionEvidence h post R root clock = Inr ev"
    and store: "holds (h_sha h) es P" "holds (h_sha h) es S" "holds (h_sha h) es R"
    and different: "distinct (map (\<lambda>a. jget a ''contentHash'') [P, S, R, ev_trace ev])"
  shows "\<exists>chain. resolveLineageChain (h_sha h) (inWorkspace es) MAX_LINEAGE_HOPS (ev_trace ev) = Inr chain \<and> rl_complete chain \<and>
    map (map_option JStr \<circ> cl_artifactId) (rl_links chain) = map (\<lambda>a. Some (jget a ''contentHash'')) [ev_trace ev, R, S, P]"
proof (rule transfer_links [OF assms(1-7)])
  let ?T = "ev_trace ev" and ?sha = "h_sha h"
  fix hp hs hr ht
  assume P: "lineage_of P hp hp 1" and S: "child_lineage S hs hp hp 1" and R: "child_lineage R hr hs hp 2" and T: "child_lineage ?T ht hr hp 3"
    and v: "verifyLineage S P True = issueIf (jget S ''contentHash'' = jget P ''contentHash'') ''SELF_PARENT'' LError"
      "verifyLineage R S True = issueIf (jget R ''contentHash'' = jget S ''contentHash'') ''SELF_PARENT'' LError"
      "verifyLineage ?T R True = issueIf (jget ?T ''contentHash'' = jget R ''contentHash'') ''SELF_PARENT'' LError"
    and made: "\<exists>i c e. createSimulatedTxReceipt ?sha P i c e = Inr R" "\<exists>a b path. buildSimulatedTrace h R a b path = Inr ?T"
  have c: "jget P ''contentHash'' = JStr hp" "jget S ''contentHash'' = JStr hs" "jget R ''contentHash'' = JStr hr" "jget ?T ''contentHash'' = JStr ht"
    using P S R T by (simp_all add: lineage_of_def child_lineage_def)
  have ne: "hs \<noteq> hp" "hr \<noteq> hs" "ht \<noteq> hr" "ht \<noteq> hs" "ht \<noteq> hp" using different by (auto simp: c)
  obtain hr' where "jget R ''contentHash'' = JStr hr'" "checkArtifactIdentity ?sha R = Inr (Inr (hr', FULL))"
    using made(1) receipt_self_identity [OF _ sha] by metis
  moreover have "\<exists>c. jget ?T ''contentHash'' = JStr c \<and> identity ?sha ?T = Some c" using made(2) trace_verifies [OF _ sha] by blast
  ultimately have id: "identity ?sha P = Some hp" "identity ?sha S = Some hs" "identity ?sha R = Some hr" "identity ?sha ?T = Some ht"
    using plan_identity(1) [OF assms(3) sha] signed_identity [OF assms(5) sha] c by (auto simp: identity_Some)
  have hex: "HEX64 hp" "HEX64 hs" "HEX64 hr" using id(1-3) [THEN identity_image] sha by auto
  have prov: "provenance (findParent ?sha (inWorkspace es)) ?T [R, S, P]"
    by (intro held_step [OF id(3) hex(3) store(3) T ne(3)] held_step [OF id(2) hex(2) store(2) R ne(2)] held_step [OF id(1) hex(1) store(1) S ne(1)]
        provenance.root plan_identity(2) [OF assms(3) sha])
  have here: "identityOf ?sha ?T = Inr (Some ht)" using id(4) unfolding identity_Some by (auto simp: identityOf_def identityOption_def)
  have "text_of (jget (jget ?T ''lineage'') ''rootArtifactId'') = hp" using T by (simp add: child_lineage_def text_of_def)
  then have "complete_provenance ?sha ?T (Some ht) [R, S, P]"
    using v ne by (simp add: complete_provenance_def id linkErrors_def c Let_def)
  from chain_completeI [OF here prov _ this, of MAX_LINEAGE_HOPS] show ?thesis
    by (simp add: MAX_LINEAGE_HOPS_def ancestorLink_def id c)
qed

end
