(* ===== verification/HK_Zod.thy ===== *)
theory HK_Zod
  imports HK_Diff HK_SignedTx
begin

text \<open>
  The language of Zod in which the code writes its schemas, and what the development assumes of the library. A schema is
  a value of \<open>ZodType\<close>; a regular expression or another check of a text is the predicate it decides. Whether a schema
  accepts a value (\<open>safeParse(v).success\<close>) is the parameter \<open>accepts\<close> of the model, and the locale \<open>zod\<close> states the documented
  meaning of the combinators, over values without class instances. None of the schemas transforms what it parses, so
  \<open>parsed.data\<close> has the fields of its input that the schema names, unchanged.
\<close>

datatype ZodType =
    ZString
  | ZText "string \<Rightarrow> bool"
  | ZDatetime
  | ZNumber
  | ZInteger "int option" "int option"
  | ZBoolean
  | ZAny
  | ZLiteral json
  | ZEnum "string list"
  | ZOptional ZodType
  | ZArray nat ZodType
  | ZRecord ZodType
  | ZObject bool "(string \<times> ZodType) list"
  | ZUnion "ZodType list"
  | ZDiscriminatedUnion string "ZodType list"
  | ZRefine ZodType "json \<Rightarrow> bool"
  | ZLazyArgument

abbreviation optString :: ZodType where
  "optString \<equiv> ZOptional ZString"

text \<open>\<open>schema.extend(fields)\<close> and \<open>z.object(...).strict()\<close>.\<close>

definition zextend :: "ZodType \<Rightarrow> (string \<times> ZodType) list \<Rightarrow> ZodType" where
  "zextend base fs = (case base of ZObject b gs \<Rightarrow> ZObject b (foldl (\<lambda>a f. AList.update (fst f) (snd f) a) gs fs) | _ \<Rightarrow> base)"

abbreviation zstrict :: "(string \<times> ZodType) list \<Rightarrow> ZodType" where
  "zstrict fs \<equiv> ZObject True fs"

text \<open>The texts that the schemas check: decimal digits, 64 or an even number of hexadecimal digits, an outpoint, an integer.\<close>

definition decimalDigits :: "string \<Rightarrow> bool" where
  "decimalDigits s \<longleftrightarrow> s \<noteq> [] \<and> list_all is_digit s"

definition nonEmptyText :: "string \<Rightarrow> bool" where
  "nonEmptyText s \<longleftrightarrow> s \<noteq> []"

definition sequenceDigits :: "string \<Rightarrow> bool" where
  "sequenceDigits s \<longleftrightarrow> decimalDigits s \<and> length s \<le> 20"

definition hexBytes :: "string \<Rightarrow> bool" where
  "hexBytes s \<longleftrightarrow> even (length s) \<and> list_all is_lower_hex s"

definition outpointText :: "string \<Rightarrow> bool" where
  "outpointText s \<longleftrightarrow> HEX64 (take 64 s) \<and> take 1 (drop 64 s) = '':'' \<and> decimalDigits (drop 65 s)"

definition integerText :: "string \<Rightarrow> bool" where
  "integerText s = (let d = (if starts_with s ''-'' then drop 1 s else s) in d = ''0'' \<or> decimalDigits d \<and> \<not> starts_with d ''0'')"

text \<open>The only schema that refers to itself: the arguments of a contract (\<open>V1ArgValueSchema\<close>, a \<open>z.lazy\<close>).\<close>

definition V1ArgValueUnion :: ZodType where
  "V1ArgValueUnion = ZUnion [
     zstrict [(''kind'', ZLiteral (JStr ''int'')), (''value'', ZText integerText)],
     zstrict [(''kind'', ZLiteral (JStr ''bool'')), (''value'', ZBoolean)],
     zstrict [(''kind'', ZLiteral (JStr ''byte'')), (''value'', ZInteger (Some 0) (Some 255))],
     zstrict [(''kind'', ZLiteral (JStr ''bytes'')), (''value'', ZArray 0 (ZInteger (Some 0) (Some 255)))],
     zstrict [(''kind'', ZLiteral (JStr ''text'')), (''value'', ZString)],
     zstrict [(''kind'', ZLiteral (JStr ''array'')), (''value'', ZArray 0 ZLazyArgument)],
     zstrict [(''kind'', ZLiteral (JStr ''object'')), (''value'', ZRecord ZLazyArgument)],
     zstrict [(''kind'', ZLiteral (JStr ''signer'')), (''signer'', ZText nonEmptyText)]]"

subsection \<open>What the library promises\<close>

fun isString :: "json \<Rightarrow> bool" where
  "isString (JStr s) = True" | "isString _ = False"

fun isNumber :: "json \<Rightarrow> bool" where
  "isNumber (JNum i) = True" | "isNumber (JFrac t) = True" | "isNumber _ = False"

fun isBoolean :: "json \<Rightarrow> bool" where
  "isBoolean (JBool b) = True" | "isBoolean _ = False"

fun inBounds :: "int option \<Rightarrow> int option \<Rightarrow> json \<Rightarrow> bool" where
  "inBounds lo hi (JNum i) = ((case lo of None \<Rightarrow> True | Some l \<Rightarrow> l \<le> i) \<and> (case hi of None \<Rightarrow> True | Some h \<Rightarrow> i \<le> h))"
| "inBounds lo hi _ = False"

fun entriesOf :: "json \<Rightarrow> (string \<times> json) list option" where
  "entriesOf (JObj es) = Some es" | "entriesOf _ = None"

locale zod =
  fixes accepts :: "ZodType \<Rightarrow> json \<Rightarrow> bool" and datetime :: "string \<Rightarrow> bool"
  assumes string: "accepts ZString j = isString j"
    and texts: "accepts (ZText p) j = (isString j \<and> p (text_of j))"
    and dates: "accepts ZDatetime j = (isString j \<and> datetime (text_of j))"
    and number: "accepts ZNumber j = isNumber j"
    and integer: "accepts (ZInteger lo hi) j = inBounds lo hi j"
    and boolean: "accepts ZBoolean j = isBoolean j"
    and any: "accepts ZAny j"
    and literal: "accepts (ZLiteral l) j = (j = l)"
    and enum: "accepts (ZEnum names) j = (isString j \<and> text_of j \<in> set names)"
    and optional: "accepts (ZOptional s) j = (j = JUndefined \<or> accepts s j)"
    and array: "accepts (ZArray n s) j = (isArray j \<and> n \<le> length (itemsOf j) \<and> list_all (accepts s) (itemsOf j))"
    and record_of: "j \<noteq> JNonPlain \<Longrightarrow> accepts (ZRecord s) j = (\<exists>es. entriesOf j = Some es \<and> list_all (\<lambda>e. accepts s (snd e)) es)"
    and object: "j \<noteq> JNonPlain \<Longrightarrow> accepts (ZObject strict fs) j =
      (\<exists>es. entriesOf j = Some es \<and> list_all (\<lambda>f. accepts (snd f) (jget j (fst f))) fs \<and> (strict \<longrightarrow> fst ` set es \<subseteq> fst ` set fs))"
    and union: "accepts (ZUnion ss) j = list_ex (\<lambda>s. accepts s j) ss"
    and discriminated: "accepts (ZDiscriminatedUnion k ss) j = list_ex (\<lambda>s. accepts s j) ss"
    and refine: "accepts (ZRefine s q) j = (accepts s j \<and> q j)"
    and lazy: "accepts ZLazyArgument j = accepts V1ArgValueUnion j"

text \<open>The discriminator of a union is a literal of each of its members, so the member it selects is the only one that can
  accept. Below, the function these laws describe; it is what the laws say on every plain value, and it is executable.\<close>

fun zrank :: "ZodType \<Rightarrow> nat" where
  "zrank (ZOptional s) = Suc (zrank s)"
| "zrank (ZUnion ss) = Suc (sum_list (map zrank ss))"
| "zrank (ZDiscriminatedUnion k ss) = Suc (sum_list (map zrank ss))"
| "zrank (ZRefine s p) = Suc (zrank s)"
| "zrank ZLazyArgument = 20"
| "zrank _ = 1"

lemma zrank_member: "s \<in> set ss \<Longrightarrow> zrank s \<le> sum_list (map zrank ss)"
  using member_le_sum_list [of "zrank s" "map zrank ss"] by auto

lemma size_field: "size (jget (JObj es) k) < size (JObj es)"
  by (cases "map_of es k") (auto dest!: map_of_SomeD intro: size_json_entry)

function conforms :: "(string \<Rightarrow> bool) \<Rightarrow> ZodType \<Rightarrow> json \<Rightarrow> bool" where
  "conforms dt ZString j = isString j"
| "conforms dt (ZText p) j = (isString j \<and> p (text_of j))"
| "conforms dt ZDatetime j = (isString j \<and> dt (text_of j))"
| "conforms dt ZNumber j = isNumber j"
| "conforms dt (ZInteger lo hi) j = inBounds lo hi j"
| "conforms dt ZBoolean j = isBoolean j"
| "conforms dt ZAny j = True"
| "conforms dt (ZLiteral l) j = (j = l)"
| "conforms dt (ZEnum ss) j = (isString j \<and> text_of j \<in> set ss)"
| "conforms dt (ZOptional s) j = (j = JUndefined \<or> conforms dt s j)"
| "conforms dt (ZArray n s) j = (case j of JArr xs \<Rightarrow> n \<le> length xs \<and> list_all (conforms dt s) xs | _ \<Rightarrow> False)"
| "conforms dt (ZRecord s) j = (case j of JObj es \<Rightarrow> list_all (\<lambda>e. conforms dt s (snd e)) es | _ \<Rightarrow> False)"
| "conforms dt (ZObject strict fs) j =
     (case j of JObj es \<Rightarrow> list_all (\<lambda>f. conforms dt (snd f) (jget (JObj es) (fst f))) fs \<and> (strict \<longrightarrow> fst ` set es \<subseteq> fst ` set fs) | _ \<Rightarrow> False)"
| "conforms dt (ZUnion ss) j = list_ex (\<lambda>s. conforms dt s j) ss"
| "conforms dt (ZDiscriminatedUnion k ss) j = list_ex (\<lambda>s. conforms dt s j) ss"
| "conforms dt (ZRefine s p) j = (conforms dt s j \<and> p j)"
| "conforms dt ZLazyArgument j = conforms dt V1ArgValueUnion j"
  by pat_completeness auto
termination
proof (relation "measures [\<lambda>(_, _, j). size j, \<lambda>(_, s, _). zrank s]", goal_cases)
  case (5 dt strict fs j es z)
  then show ?case using size_field [of es "fst z"] by simp
qed (auto simp: less_Suc_eq_le size_list_estimation' zrank_member V1ArgValueUnion_def dest: size_json_entry)

interpretation reference: zod "conforms datetime" datetime for datetime
proof
  fix j n s strict and fs :: "(string \<times> ZodType) list"
  show "conforms datetime (ZArray n s) j = (isArray j \<and> n \<le> length (itemsOf j) \<and> list_all (conforms datetime s) (itemsOf j))"
    by (cases j) (simp_all add: isArray_def itemsOf_def)
  show "conforms datetime (ZRecord s) j = (\<exists>es. entriesOf j = Some es \<and> list_all (\<lambda>e. conforms datetime s (snd e)) es)" if "j \<noteq> JNonPlain"
    by (cases j) simp_all
  show "conforms datetime (ZObject strict fs) j = (\<exists>es. entriesOf j = Some es \<and>
    list_all (\<lambda>f. conforms datetime (snd f) (jget j (fst f))) fs \<and> (strict \<longrightarrow> fst ` set es \<subseteq> fst ` set fs))" if "j \<noteq> JNonPlain"
    by (cases j) simp_all
qed simp_all

text \<open>On plain values the laws leave no choice.\<close>

context zod
begin

lemma decides_at: "plain_json j \<Longrightarrow> dt = datetime \<Longrightarrow> accepts s j = conforms dt s j"
proof (induction dt s j rule: conforms.induct)
  case (11 dt n s j)
  then show ?case by (cases j) (auto simp: array isArray_def itemsOf_def list_all_iff)
next
  case (12 dt s j)
  then show ?case by (cases j) (auto simp: record_of list_all_iff)
next
  case (13 dt strict fs j)
  then show ?case by (cases j) (auto simp: object list_all_iff plain_jget simp del: jget_simps(3))
qed (auto simp: string texts dates number integer boolean any literal enum optional union discriminated refine lazy list_ex_iff)

lemma decides: "plain_json j \<Longrightarrow> accepts s j = conforms datetime s j"
  by (rule decides_at [OF _ refl])

end

end
