(* ===== verification/HK_Schema.thy ===== *)
theory HK_Schema
  imports HK_Zod
begin

text \<open>
  The schemas of the artifacts, as \<open>packages/artifacts/src/schemas.ts\<close> writes them: the base of every artifact, plans,
  authorizations, receipts, traces, snapshots, submissions, observations, replay reports, workflows and policies.
  The schemas of SilverScript, zero-knowledge and programmability records are left out.
\<close>

subsection \<open>Shared parts\<close>

definition schemaPolicyV1 :: string where "schemaPolicyV1 = ''hardkas.policy.v1''"

definition schemaNetworkProfileV1 :: string where "schemaNetworkProfileV1 = ''hardkas.networkProfile.v1''"

definition schemaAssumptionV1 :: string where "schemaAssumptionV1 = ''hardkas.assumption.v1''"

definition schemaTxPlanV2 :: string where "schemaTxPlanV2 = ''hardkas.txPlan.v2''"

definition schemaSignedTxV2 :: string where "schemaSignedTxV2 = ''hardkas.signedTx.v2''"

definition schemaTxReceiptV2 :: string where "schemaTxReceiptV2 = ''hardkas.txReceipt.v2''"

definition kaspaNetworkIdSchema :: ZodType where
  "kaspaNetworkIdSchema = ZEnum [''mainnet'', ''testnet-10'', ''testnet-11'', ''testnet-12'', ''simnet'', ''simnet-1'', ''devnet'', ''simulated'', ''igra'']"

definition executionModeSchema :: ZodType where
  "executionModeSchema = ZEnum [''simulator'', ''localnet'', ''rpc'']"

definition ArtifactLineageSchema :: ZodType where
  "ArtifactLineageSchema = ZObject False [(''artifactId'', ZString), (''lineageId'', optString), (''parentArtifactId'', optString),
     (''rootArtifactId'', optString), (''sequence'', ZOptional ZNumber)]"

definition ScriptCapabilitySchema :: ZodType where
  "ScriptCapabilitySchema = ZEnum [''p2pk'', ''multisig'', ''timelock'', ''covenant-experimental'', ''silverscript-experimental'', ''tockata-experimental'']"

definition ScriptMetadataSchema :: ZodType where
  "ScriptMetadataSchema = ZObject False [(''language'', ZOptional (ZEnum [''native'', ''silverscript'', ''tockata''])), (''version'', optString),
     (''experimental'', ZBoolean), (''notes'', ZOptional (ZArray 0 ZString)), (''consensusImpact'', ZOptional (ZEnum [''none'', ''experimental'']))]"

definition BaseArtifactSchema :: ZodType where
  "BaseArtifactSchema = ZObject False [
     (''schema'', ZString),
     (''schemaVersion'', optString),
     (''hardkasVersion'', ZString),
     (''version'', ZLiteral (JStr ARTIFACT_VERSION)),
     (''hashVersion'', ZOptional (ZUnion [ZNumber, ZString])),
     (''networkId'', kaspaNetworkIdSchema),
     (''mode'', executionModeSchema),
     (''contentHash'', optString),
     (''createdAt'', ZDatetime),
     (''lineage'', ZOptional ArtifactLineageSchema),
     (''parents'', ZOptional (ZArray 0 ZString)),
     (''lineageDepth'', ZOptional ZNumber),
     (''workflowId'', optString),
     (''assumptionLevel'', optString),
     (''scriptProfile'', ZOptional (ZEnum [''standard'', ''experimental''])),
     (''scriptCapabilities'', ZOptional (ZArray 0 ScriptCapabilitySchema)),
     (''scriptMetadata'', ZOptional ScriptMetadataSchema),
     (''metadata'', ZOptional ZAny)]"

definition AccountRefSchema :: ZodType where
  "AccountRefSchema = ZObject False [(''address'', ZString), (''accountName'', optString), (''input'', optString)]"

definition executionTargetSchema :: ZodType where
  "executionTargetSchema = ZObject False [(''mode'', ZEnum [''simulator'', ''localnet'', ''rpc'', ''l2-rpc'']),
     (''domain'', ZEnum [''kaspa-l1'', ''evm-l2'']), (''network'', ZString)]"

definition Hex64Schema :: ZodType where
  "Hex64Schema = ZText HEX64"

definition decimalString :: ZodType where
  "decimalString = ZText decimalDigits"

definition txVersionSchema :: ZodType where
  "txVersionSchema = ZOptional (ZUnion [ZLiteral (JNum 0), ZLiteral (JNum 1)])"

subsection \<open>Policies, profiles, assumptions and migrations\<close>

definition PolicySchema :: ZodType where
  "PolicySchema = zextend BaseArtifactSchema [
     (''schema'', ZLiteral (JStr schemaPolicyV1)),
     (''decision'', ZEnum [''ALLOW'', ''DENY'']),
     (''rules'', ZArray 0 (ZObject False [(''id'', ZString), (''result'', ZEnum [''PASS'', ''FAIL'']), (''inputHash'', optString)]))]"

definition NetworkProfileSchema :: ZodType where
  "NetworkProfileSchema = zextend BaseArtifactSchema [
     (''schema'', ZLiteral (JStr schemaNetworkProfileV1)),
     (''networkProfileId'', ZString),
     (''layer'', ZString),
     (''capabilities'', ZRecord ZAny)]"

definition AssumptionSchema :: ZodType where
  "AssumptionSchema = zextend BaseArtifactSchema [
     (''schema'', ZLiteral (JStr schemaAssumptionV1)),
     (''settlement'', optString),
     (''securityModel'', optString),
     (''bridgePhase'', optString),
     (''exitModel'', optString),
     (''customAssumptions'', ZOptional (ZRecord ZAny))]"

definition MigrationReceiptSchema :: ZodType where
  "MigrationReceiptSchema = zextend BaseArtifactSchema [
     (''schema'', ZLiteral (JStr schemaMigrationReceiptV1)),
     (''oldHash'', ZString),
     (''newHash'', ZString),
     (''fromSchema'', ZString),
     (''toSchema'', ZString),
     (''migrationId'', ZString),
     (''migrationVersion'', optString),
     (''decision'', ZLiteral (JStr ''MIGRATED_WITH_PROOF''))]"

subsection \<open>Contracts of version 1 plans\<close>

definition V1ArgValueSchema :: ZodType where
  "V1ArgValueSchema = ZLazyArgument"

definition V1CompileRecordRefSchema :: ZodType where
  "V1CompileRecordRefSchema = zstrict [(''contentHash'', Hex64Schema), (''artifactSha256'', Hex64Schema), (''path'', optString)]"

definition V1CompiledContractSchema :: ZodType where
  "V1CompiledContractSchema = zstrict [(''compileRecord'', V1CompileRecordRefSchema), (''contract'', ZText nonEmptyText),
     (''constructorArgs'', ZArray 0 V1ArgValueSchema)]"

definition V1ContractRefSchema :: ZodType where
  "V1ContractRefSchema = zstrict [(''compileRecord'', V1CompileRecordRefSchema), (''contract'', ZText nonEmptyText),
     (''constructorArgs'', ZArray 0 V1ArgValueSchema), (''state'', ZOptional (ZRecord V1ArgValueSchema)), (''entry'', ZText nonEmptyText),
     (''policy'', ZOptional (ZText nonEmptyText)), (''args'', ZArray 0 V1ArgValueSchema)]"

definition V1NextStateSchema :: ZodType where
  "V1NextStateSchema = ZUnion [
     zstrict [(''covenantId'', Hex64Schema), (''input'', ZInteger (Some 0) None), (''outputs'', ZArray 0 (ZInteger (Some 0) None)),
       (''successor'', zstrict [(''artifactSha256'', Hex64Schema), (''constructorArgs'', ZArray 0 V1ArgValueSchema),
          (''stateToConstructorArg'', ZRecord (ZInteger (Some 0) None)), (''state'', ZRecord V1ArgValueSchema)])],
     zstrict [(''covenantId'', Hex64Schema), (''input'', ZInteger (Some 0) None), (''outputs'', ZArray 0 (ZInteger (Some 0) None)),
       (''states'', ZArray 0 (ZRecord V1ArgValueSchema))]]"

subsection \<open>Plans\<close>

definition planInputFields :: "(string \<times> ZodType) list" where
  "planInputFields = [
     (''outpoint'', ZObject False [(''transactionId'', ZString), (''index'', ZNumber)]),
     (''amountSompi'', ZString),
     (''address'', optString),
     (''scriptPublicKey'', optString),
     (''blockDaaScore'', optString),
     (''isCoinbase'', ZOptional ZBoolean),
     (''covenantId'', optString),
     (''lane'', optString)]"

definition planFields :: "(string \<times> ZodType) list" where
  "planFields = [
     (''networkId'', kaspaNetworkIdSchema),
     (''mode'', executionModeSchema),
     (''planId'', ZString),
     (''from'', AccountRefSchema),
     (''to'', AccountRefSchema),
     (''amountSompi'', ZString),
     (''estimatedFeeSompi'', ZString),
     (''estimatedMass'', ZString),
     (''txVersion'', txVersionSchema),
     (''computeBudget'', optString),
     (''storageMass'', optString),
     (''lane'', optString)]"

definition changeSchema :: ZodType where
  "changeSchema = ZOptional (ZObject False [(''address'', ZString), (''amountSompi'', ZString)])"

definition planReferences :: "(string \<times> ZodType) list" where
  "planReferences = [
     (''rpcUrl'', optString),
     (''networkProfileRef'', optString),
     (''policyRef'', optString),
     (''policyRefs'', ZOptional (ZArray 0 ZString)),
     (''assumptionRef'', optString)]"

definition TxPlanSchemaV2 :: ZodType where
  "TxPlanSchemaV2 = zextend BaseArtifactSchema ((''schema'', ZLiteral (JStr schemaTxPlanV2)) # planFields @ [
     (''inputs'', ZArray 0 (ZObject False planInputFields)),
     (''outputs'', ZArray 0 (ZObject False [(''address'', ZString), (''amountSompi'', ZString)])),
     (''change'', changeSchema)] @ planReferences)"

definition TxPlanSchema :: ZodType where
  "TxPlanSchema = zextend BaseArtifactSchema ((''schema'', ZLiteral (JStr schemaTxPlan)) # (''execution'', executionTargetSchema) # planFields @ [
     (''inputs'', ZArray 0 (ZObject False (planInputFields @ [
        (''kind'', ZOptional (ZEnum [''p2pk'', ''p2sh'', ''covenant''])),
        (''computeBudget'', ZOptional (ZInteger (Some 0) (Some 65535))),
        (''contract'', ZOptional V1ContractRefSchema),
        (''signer'', ZOptional (ZText nonEmptyText)),
        (''sequence'', ZOptional (ZText sequenceDigits))]))),
     (''outputs'', ZArray 0 (ZObject False [
        (''address'', ZString),
        (''amountSompi'', ZString),
        (''covenant'', ZOptional (ZObject False [(''authorizingInput'', ZInteger (Some 0) None), (''covenantId'', optString)])),
        (''role'', ZOptional (ZEnum [''change'', ''payment'']))])),
     (''change'', changeSchema),
     (''genesisCovenantGroups'', ZOptional (ZArray 0 (ZObject False [
        (''authorizingInput'', ZInteger (Some 0) None),
        (''outputs'', ZArray 0 (ZInteger (Some 0) None)),
        (''contract'', ZOptional V1CompiledContractSchema),
        (''covenantId'', ZOptional Hex64Schema),
        (''states'', ZOptional (ZArray 0 (ZRecord V1ArgValueSchema)))]))),
     (''payload'', ZOptional (ZText hexBytes)),
     (''covenantOutpoints'', ZOptional (ZArray 0 (ZText outpointText))),
     (''nextState'', ZOptional (ZArray 0 V1NextStateSchema))] @ planReferences @ [
     (''plannerAuthority'', ZOptional (ZEnum [''KASPA_WASM_GENERATOR'', ''SYNTHETIC_SIMULATOR'', ''HARDKAS_V1_PLANNER''])),
     (''plannerAuthorityDetail'', optString),
     (''maxFeeSompi'', ZOptional decimalString)])"

subsection \<open>Snapshots and receipts\<close>

definition DagContextSchema :: ZodType where
  "DagContextSchema = ZObject False [
     (''mode'', ZEnum [''linear'', ''dag-light'']),
     (''sink'', ZString),
     (''selectedParent'', optString),
     (''branchId'', optString),
     (''acceptedTxIds'', ZOptional (ZArray 0 ZString)),
     (''displacedTxIds'', ZOptional (ZArray 0 ZString)),
     (''conflictSet'', ZOptional (ZArray 0 (ZObject False [(''outpoint'', ZString), (''winnerTxId'', ZString), (''loserTxIds'', ZArray 0 ZString)]))),
     (''nonSelectedContext'', ZOptional ZBoolean)]"

definition LocalnetUtxoSchemaV2 :: ZodType where
  "LocalnetUtxoSchemaV2 = ZObject False [(''id'', ZString), (''address'', ZString), (''amountSompi'', ZString), (''spent'', ZBoolean),
     (''createdAtDaaScore'', ZString)]"

definition SnapshotSchema :: ZodType where
  "SnapshotSchema = zextend BaseArtifactSchema [
     (''schema'', ZLiteral (JStr schemaSnapshotV1)),
     (''name'', optString),
     (''daaScore'', ZString),
     (''accountsHash'', optString),
     (''utxoSetHash'', optString),
     (''stateHash'', optString),
     (''accounts'', ZArray 0 (ZObject False [(''name'', ZString), (''address'', ZString)])),
     (''utxos'', ZArray 0 LocalnetUtxoSchemaV2)]"

definition receiptFields :: "(string \<times> ZodType) list" where
  "receiptFields = [
     (''txId'', ZString),
     (''status'', ZEnum [''submitted'', ''accepted'', ''confirmed'', ''failed'']),
     (''mode'', executionModeSchema),
     (''networkId'', kaspaNetworkIdSchema),
     (''from'', AccountRefSchema),
     (''to'', AccountRefSchema),
     (''amountSompi'', ZString),
     (''feeSompi'', ZString),
     (''mass'', optString),
     (''txVersion'', txVersionSchema),
     (''computeBudget'', optString),
     (''storageMass'', optString),
     (''lane'', optString),
     (''changeSompi'', optString),
     (''spentUtxoIds'', ZOptional (ZArray 0 ZString)),
     (''createdUtxoIds'', ZOptional (ZArray 0 ZString)),
     (''daaScore'', optString),
     (''preStateHash'', optString),
     (''postStateHash'', optString),
     (''submittedAt'', optString),
     (''confirmedAt'', optString),
     (''dagContext'', ZOptional DagContextSchema),
     (''tracePath'', optString),
     (''rpcUrl'', optString),
     (''sourceSignedId'', optString),
     (''errors'', ZOptional (ZArray 0 ZString)),
     (''metadata'', ZOptional ZAny)]"

definition TxReceiptSchemaV2 :: ZodType where
  "TxReceiptSchemaV2 = zextend BaseArtifactSchema ((''schema'', ZLiteral (JStr schemaTxReceiptV2)) # receiptFields @ [
     (''confirmations'', ZOptional ZNumber),
     (''acceptingBlockHash'', optString),
     (''observedAtDaaScore'', optString)])"

definition TxReceiptSchema :: ZodType where
  "TxReceiptSchema = zextend BaseArtifactSchema ((''schema'', ZLiteral (JStr schemaTxReceipt)) # (''execution'', executionTargetSchema) # receiptFields)"

subsection \<open>Submissions and observations\<close>

definition submissionFeeSchema :: ZodType where
  "submissionFeeSchema = ZDiscriminatedUnion ''status'' [
     ZObject False [(''status'', ZLiteral (JStr ''derived'')), (''method'', ZLiteral (JStr ''inputs-minus-outputs'')), (''inputsSompi'', decimalString),
       (''outputsSompi'', decimalString), (''feeSompi'', decimalString), (''inputCount'', ZInteger (Some 1) None), (''outputCount'', ZInteger (Some 1) None),
       (''planArtifactId'', Hex64Schema)],
     ZObject False [(''status'', ZLiteral (JStr ''insufficient-evidence'')), (''reason'', ZText nonEmptyText)]]"

definition TxSubmissionSchema :: ZodType where
  "TxSubmissionSchema = zextend BaseArtifactSchema [
     (''schema'', ZLiteral (JStr schemaTxSubmissionV1)),
     (''execution'', ZOptional executionTargetSchema),
     (''signedArtifactId'', Hex64Schema),
     (''txId'', ZString),
     (''submitResult'', ZObject False [(''accepted'', ZBoolean), (''transactionId'', optString), (''error'', optString)]),
     (''submittedAt'', optString),
     (''rpcUrl'', optString),
     (''policyRefs'', ZOptional (ZArray 0 ZString)),
     (''networkProfileRef'', optString),
     (''assumptionRef'', optString),
     (''submitPoint'', ZOptional (ZObject False [(''virtualDaaScore'', decimalString), (''sinkHash'', ZString), (''sinkBlueScore'', decimalString)])),
     (''submitPointUnavailable'', ZOptional (ZObject False [(''reason'', ZText nonEmptyText)])),
     (''fee'', ZOptional submissionFeeSchema),
     (''covenantSpends'', ZOptional (ZArray 0 (zstrict [(''outpoint'', ZText outpointText), (''covenantId'', Hex64Schema), (''address'', ZText nonEmptyText)]))),
     (''preflight'', ZOptional (zstrict [(''observedAtDaaScore'', ZOptional decimalString), (''inputs'', ZInteger (Some 1) None),
        (''scope'', ZLiteral (JStr ''observer-local'')), (''guarantee'', ZText nonEmptyText)])),
     (''replaces'', ZOptional (ZArray 0 Hex64Schema))]"

definition TxObservationPointSchema :: ZodType where
  "TxObservationPointSchema = ZObject False [(''virtualDaaScore'', decimalString), (''sinkHash'', ZString), (''sinkBlueScore'', decimalString),
     (''pruningPointHash'', optString)]"

definition TxObservationFindingSchema :: ZodType where
  "TxObservationFindingSchema = ZDiscriminatedUnion ''type'' [
     ZObject False [(''type'', ZLiteral (JStr ''mempool_entry'')), (''isOrphan'', ZBoolean), (''feeSompi'', ZOptional decimalString),
       (''scannedFrom'', optString), (''scannedTo'', optString), (''scannedChainBlocks'', ZOptional (ZInteger (Some 0) None)),
       (''scanComplete'', ZOptional ZBoolean)],
     ZObject False [(''type'', ZLiteral (JStr ''mempool_absent''))],
     ZObject False [(''type'', ZLiteral (JStr ''chain_accepted'')), (''acceptingBlockHash'', ZString), (''acceptingBlueScore'', decimalString),
       (''acceptingDaaScore'', ZOptional decimalString), (''confirmationsBlue'', decimalString), (''confirmationsDaa'', ZOptional decimalString),
       (''removedAcceptingBlockHash'', optString)],
     ZObject False [(''type'', ZLiteral (JStr ''chain_removed'')), (''acceptingBlockHash'', ZString)],
     ZObject False [(''type'', ZLiteral (JStr ''finality_reached'')), (''acceptingBlockHash'', ZString), (''acceptingBlueScore'', decimalString),
       (''confirmationsBlue'', decimalString), (''finalityDepth'', decimalString)],
     ZObject False [(''type'', ZLiteral (JStr ''pruned_unobservable'')), (''reason'', ZString)],
     ZObject False [(''type'', ZLiteral (JStr ''not_found'')), (''scannedFrom'', optString), (''scannedTo'', optString),
       (''scannedChainBlocks'', ZOptional (ZInteger (Some 0) None))],
     ZObject False [(''type'', ZLiteral (JStr ''synthetic_executed'')), (''receiptArtifactId'', Hex64Schema)]]"

definition observerIdText :: "string \<Rightarrow> bool" where
  "observerIdText s \<longleftrightarrow> starts_with s ''obs_'' \<and> HEX64 (drop 4 s)"

definition TxObservationSchema :: ZodType where
  "TxObservationSchema = zextend BaseArtifactSchema [
     (''schema'', ZLiteral (JStr schemaTxObservationV1)),
     (''execution'', ZOptional executionTargetSchema),
     (''subject'', ZObject False [(''txId'', ZString), (''submissionArtifactId'', ZOptional Hex64Schema)]),
     (''observer'', ZObject False [
        (''observerId'', ZText observerIdText),
        (''kind'', ZEnum [''rpc'', ''synthetic'']),
        (''networkId'', kaspaNetworkIdSchema),
        (''serverVersion'', optString),
        (''capabilities'', ZObject False [(''reorgAware'', ZBoolean), (''prunedBelowBlueScore'', ZOptional decimalString)]),
        (''description'', ZString)]),
     (''point'', TxObservationPointSchema),
     (''finding'', TxObservationFindingSchema),
     (''evidence'', ZArray 0 (ZObject False [(''method'', ZString), (''params'', ZAny), (''responseDigest'', Hex64Schema)])),
     (''observedAt'', ZDatetime),
     (''rpcUrl'', optString)]"

subsection \<open>Replay reports, authorizations, traces and workflows\<close>

definition ReplayReportSchema :: ZodType where
  "ReplayReportSchema = zextend BaseArtifactSchema [
     (''schema'', ZLiteral (JStr schemaReplayReportV1)),
     (''txId'', ZString),
     (''receiptComparison'', ZOptional (ZLiteral (JStr ''raw''))),
     (''planOk'', ZBoolean),
     (''receiptOk'', ZBoolean),
     (''invariantsOk'', ZBoolean),
     (''checks'', ZObject False [(''workflowDeterministic'', ZEnum [''reproduced'', ''diverged'', ''skipped'']),
        (''consensusValidation'', ZEnum [''unimplemented'', ''partial'', ''skipped'']), (''l2BridgeCorrectness'', ZEnum [''unimplemented'', ''partial'', ''skipped''])]),
     (''divergences'', ZArray 0 ZAny),
     (''errors'', ZArray 0 ZString)]"

definition signatureEntryOk :: "json \<Rightarrow> bool" where
  "signatureEntryOk e \<longleftrightarrow>
     (if jget e ''kind'' = JStr ''synthetic'' then jget e ''signature'' = JUndefined else isString (jget e ''signature''))"

definition SignatureEntrySchema :: ZodType where
  "SignatureEntrySchema = ZRefine (ZObject False [(''signer'', ZString), (''signature'', optString), (''kind'', ZOptional (ZLiteral (JStr ''synthetic'')))])
     signatureEntryOk"

definition SyntheticAuthorizationSchema :: ZodType where
  "SyntheticAuthorizationSchema = zstrict [(''kind'', ZLiteral (JStr ''synthetic'')), (''planArtifactId'', Hex64Schema),
     (''signers'', ZArray 1 (ZText nonEmptyText))]"

definition SignatureMetadataEntrySchema :: ZodType where
  "SignatureMetadataEntrySchema = ZObject False [(''signer'', ZString), (''signedAt'', ZDatetime)]"

definition signedFields :: "(string \<times> ZodType) list" where
  "signedFields = [
     (''status'', ZEnum [''partially_signed'', ''signed'']),
     (''signedId'', ZString),
     (''sourcePlanId'', ZString),
     (''networkId'', kaspaNetworkIdSchema),
     (''mode'', executionModeSchema),
     (''from'', AccountRefSchema),
     (''to'', AccountRefSchema),
     (''amountSompi'', ZString),
     (''txVersion'', txVersionSchema),
     (''computeBudget'', optString),
     (''storageMass'', optString),
     (''lane'', optString),
     (''unsignedPayloadHash'', optString),
     (''signedTransaction'', ZOptional (ZObject False [(''format'', ZString), (''payload'', ZString)])),
     (''txId'', optString)]"

definition multisigFields :: "(string \<times> ZodType) list" where
  "multisigFields = [
     (''multisig'', ZOptional (ZObject False [(''threshold'', ZNumber), (''requiredSigners'', ZArray 0 ZString), (''signatures'', ZArray 0 SignatureEntrySchema)])),
     (''signatureMetadata'', ZOptional (ZArray 0 SignatureMetadataEntrySchema)),
     (''metadata'', ZOptional ZAny)]"

definition SignedTxSchemaV2 :: ZodType where
  "SignedTxSchemaV2 = zextend BaseArtifactSchema ((''schema'', ZLiteral (JStr schemaSignedTxV2)) # signedFields @ multisigFields)"

definition SignedTxSchema :: ZodType where
  "SignedTxSchema = zextend BaseArtifactSchema ((''schema'', ZLiteral (JStr schemaSignedTx)) # (''execution'', executionTargetSchema) # signedFields @
     [(''authorization'', ZOptional SyntheticAuthorizationSchema)] @ multisigFields)"

definition TxTraceSchema :: ZodType where
  "TxTraceSchema = zextend BaseArtifactSchema [
     (''schema'', ZLiteral (JStr schemaTxTrace)),
     (''txId'', ZString),
     (''networkId'', kaspaNetworkIdSchema),
     (''mode'', executionModeSchema),
     (''steps'', ZArray 0 (ZObject False [(''phase'', ZString), (''status'', ZString), (''timestamp'', ZDatetime), (''details'', ZOptional ZAny)])),
     (''dagContext'', ZOptional DagContextSchema)]"

definition WorkflowSchema :: ZodType where
  "WorkflowSchema = zextend BaseArtifactSchema [
     (''schema'', ZLiteral (JStr schemaWorkflowV1)),
     (''workflowId'', ZString),
     (''status'', ZEnum [''pending'', ''running'', ''completed'', ''failed'']),
     (''inputs'', ZOptional (ZRecord ZAny)),
     (''steps'', ZArray 0 (ZObject False [(''type'', ZString), (''status'', ZEnum [''pending'', ''success'', ''failed'', ''skipped'']),
        (''startedAt'', ZOptional ZDatetime), (''completedAt'', ZOptional ZDatetime), (''producedArtifactId'', optString), (''error'', optString)])),
     (''parentArtifacts'', ZOptional (ZArray 0 ZString)),
     (''producedArtifacts'', ZArray 0 ZString),
     (''generationRange'', ZOptional (ZObject False [(''start'', optString), (''end'', optString)])),
     (''policy'', ZOptional (ZObject False [(''allowNetwork'', ZBoolean), (''allowMainnet'', ZBoolean), (''allowExternalWallet'', ZBoolean),
        (''requireDryRun'', ZBoolean)])),
     (''generationId'', optString),
     (''replayResult'', ZOptional (ZObject False [(''verified'', ZBoolean), (''stateHash'', optString)])),
     (''errorEnvelope'', ZOptional (ZObject False [(''code'', ZString), (''message'', ZString), (''redacted'', ZBoolean)]))]"

end
