(* ===== verification/HK_TxObservation.thy ===== *)
theory HK_TxObservation
  imports HK_Schema HK_Redact
begin

text \<open>
  Observations of a transaction: \<open>packages/artifacts/src/tx-observation.ts\<close> with the network parameters of
  \<open>packages/core/src/kaspa-params.ts\<close>. An observation records what one observer saw about a transaction at one point.

  \<open>TxObservation\<close> holds the fields of the parsed artifact that the code reads, with its finding as a tagged union. Texts of
  the schema library are left out; the typographic signs of the code's own texts (a minus, at least, an em dash)
  are written in ASCII.
\<close>

subsection \<open>Network parameters\<close>

record KaspaNetworkParams =
  kp_networkId :: string
  kp_bps :: int
  kp_targetTimePerBlockMs :: int
  kp_finalityDurationSeconds :: int
  kp_finalityDepth :: int
  kp_pruningDurationSeconds :: int
  kp_mergeDepth :: int

definition tenBps :: "string \<Rightarrow> KaspaNetworkParams" where
  "tenBps n = \<lparr>kp_networkId = n, kp_bps = 10, kp_targetTimePerBlockMs = 100, kp_finalityDurationSeconds = 43200, kp_finalityDepth = 10 * 43200,
     kp_pruningDurationSeconds = 108000, kp_mergeDepth = 10 * 3600\<rparr>"

definition KASPA_NETWORK_PARAMS :: "(string \<times> KaspaNetworkParams) list" where
  "KASPA_NETWORK_PARAMS = [(''mainnet'', tenBps ''mainnet''), (''testnet'', tenBps ''testnet''), (''testnet-10'', tenBps ''testnet-10''),
     (''simnet'', tenBps ''simnet''), (''devnet'', tenBps ''devnet'')]"

definition kaspaParamsFor :: "string \<Rightarrow> KaspaNetworkParams option" where
  "kaspaParamsFor n = map_of KASPA_NETWORK_PARAMS n"

definition finalityDepthFor :: "string \<Rightarrow> int option" where
  "finalityDepthFor n = map_option kp_finalityDepth (kaspaParamsFor n)"

subsection \<open>The parsed observation\<close>

datatype TxObservationFinding =
    MempoolEntry (isOrphan: bool) (scanWindow: "json list")
  | MempoolAbsent
  | ChainAccepted (acceptingBlockHash: string) (acceptingBlueScore: string) (acceptingDaaScore: "string option") (confirmationsBlue: string)
      (confirmationsDaa: "string option") (removedAcceptingBlockHash: "string option")
  | ChainRemoved (removedBlock: string)
  | FinalityReached (finalBlock: string) (finalBlueScore: string) (finalConfirmations: string) (finalityDepth: string)
  | PrunedUnobservable (prunedReason: string)
  | NotFound
  | SyntheticExecuted (receiptArtifactId: string)

record TxObservationPoint =
  op_virtualDaaScore :: string
  op_sinkHash :: string
  op_sinkBlueScore :: string

record Observer =
  ob_observerId :: string
  ob_kind :: string
  ob_networkId :: string
  ob_serverVersion :: "string option"
  ob_description :: string

record TxObservation =
  to_txId :: string
  to_submissionArtifactId :: "string option"
  to_observer :: Observer
  to_point :: TxObservationPoint
  to_finding :: TxObservationFinding
  to_observedAt :: string

definition optText :: "json \<Rightarrow> string option" where
  "optText j = (case j of JStr s \<Rightarrow> Some s | _ \<Rightarrow> None)"

definition findingOf :: "json \<Rightarrow> TxObservationFinding" where
  "findingOf f =
     (let t = text_of (jget f ''type'') in
      if t = ''mempool_entry'' then
        MempoolEntry (truthy (jget f ''isOrphan''))
          [jget f ''scannedFrom'', jget f ''scannedTo'', jget f ''scannedChainBlocks'', jget f ''scanComplete'']
      else if t = ''mempool_absent'' then MempoolAbsent
      else if t = ''chain_accepted'' then
        ChainAccepted (text_of (jget f ''acceptingBlockHash'')) (text_of (jget f ''acceptingBlueScore'')) (optText (jget f ''acceptingDaaScore''))
          (text_of (jget f ''confirmationsBlue'')) (optText (jget f ''confirmationsDaa'')) (optText (jget f ''removedAcceptingBlockHash''))
      else if t = ''chain_removed'' then ChainRemoved (text_of (jget f ''acceptingBlockHash''))
      else if t = ''finality_reached'' then
        FinalityReached (text_of (jget f ''acceptingBlockHash'')) (text_of (jget f ''acceptingBlueScore'')) (text_of (jget f ''confirmationsBlue''))
          (text_of (jget f ''finalityDepth''))
      else if t = ''pruned_unobservable'' then PrunedUnobservable (text_of (jget f ''reason''))
      else if t = ''not_found'' then NotFound
      else SyntheticExecuted (text_of (jget f ''receiptArtifactId'')))"

definition observerOf :: "json \<Rightarrow> Observer" where
  "observerOf v = \<lparr>ob_observerId = text_of (jget v ''observerId''), ob_kind = text_of (jget v ''kind''), ob_networkId = text_of (jget v ''networkId''),
     ob_serverVersion = optText (jget v ''serverVersion''), ob_description = text_of (jget v ''description'')\<rparr>"

definition observationOf :: "json \<Rightarrow> TxObservation" where
  "observationOf j =
     (let p = jget j ''point'' in
      \<lparr>to_txId = text_of (jget (jget j ''subject'') ''txId''), to_submissionArtifactId = optText (jget (jget j ''subject'') ''submissionArtifactId''),
       to_observer = observerOf (jget j ''observer''),
       to_point = \<lparr>op_virtualDaaScore = text_of (jget p ''virtualDaaScore''), op_sinkHash = text_of (jget p ''sinkHash''),
         op_sinkBlueScore = text_of (jget p ''sinkBlueScore'')\<rparr>,
       to_finding = findingOf (jget j ''finding''), to_observedAt = text_of (jget j ''observedAt'')\<rparr>)"

text \<open>\<open>big(s)!\<close> and \<open>BigInt(s)\<close> of a decimal string of the schema.\<close>

definition score :: "string \<Rightarrow> int" where
  "score s = (case decimal_val s of Some i \<Rightarrow> i | None \<Rightarrow> 0)"

subsection \<open>Coherence\<close>

text \<open>The message and path of an incoherence; \<open>None\<close> is coherent.\<close>

type_synonym coherence = "(string \<times> string) option"

definition acceptanceIncoherence :: "int \<Rightarrow> int \<Rightarrow> int \<Rightarrow> coherence" where
  "acceptanceIncoherence sinkBlue acceptingBlue confirmations =
     (if acceptingBlue > sinkBlue
      then Some (''acceptingBlueScore is above the observation point's sinkBlueScore'', ''finding.acceptingBlueScore'')
      else if confirmations \<noteq> sinkBlue - acceptingBlue
      then Some (''confirmationsBlue must be sinkBlueScore - acceptingBlueScore ('' @ int_str (sinkBlue - acceptingBlue) @ '')'', ''finding.confirmationsBlue'')
      else None)"

definition daaIncoherence :: "string \<Rightarrow> string option \<Rightarrow> string option \<Rightarrow> coherence" where
  "daaIncoherence virtualDaa acceptingDaa confirmations =
     (case (acceptingDaa, confirmations) of
        (Some a, Some c) \<Rightarrow> if score virtualDaa - score a \<noteq> score c
          then Some (''confirmationsDaa must be virtualDaaScore - acceptingDaaScore'', ''finding.confirmationsDaa'') else None
      | _ \<Rightarrow> None)"

definition finalityIncoherence :: "string \<Rightarrow> string \<Rightarrow> int \<Rightarrow> coherence" where
  "finalityIncoherence network depth confirmations =
     (case finalityDepthFor network of
        None \<Rightarrow> Some (''HardKAS has no verified finality depth for network '' @ network @ ''; finality cannot be observed'', ''observer.networkId'')
      | Some d \<Rightarrow>
          if score depth \<noteq> d
          then Some (''finalityDepth must be the verified upstream depth for '' @ network @ '' ('' @ int_str d @ '')'', ''finding.finalityDepth'')
          else if confirmations < d
          then Some (''finality_reached needs confirmationsBlue >= '' @ int_str d @ '' (got '' @ int_str confirmations @ '')'', ''finding.confirmationsBlue'')
          else None)"

definition orElse :: "coherence \<Rightarrow> coherence \<Rightarrow> coherence" where
  "orElse a b = (case a of Some m \<Rightarrow> Some m | None \<Rightarrow> b)"

definition isSynthetic :: "TxObservationFinding \<Rightarrow> bool" where
  "isSynthetic f = (case f of SyntheticExecuted _ \<Rightarrow> True | _ \<Rightarrow> False)"

definition findingIncoherence :: "TxObservation \<Rightarrow> coherence" where
  "findingIncoherence ob =
     (let sinkBlue = score (op_sinkBlueScore (to_point ob)); f = to_finding ob in
      if isSynthetic f \<noteq> (ob_kind (to_observer ob) = ''synthetic'')
      then Some (''a synthetic finding requires a synthetic observer and vice versa'', ''finding.type'')
      else case f of
        MempoolEntry _ window \<Rightarrow>
          if list_ex (\<lambda>v. v \<noteq> JUndefined) window \<and> list_ex (\<lambda>v. v = JUndefined) window
          then Some (''a mempool_entry chain window needs scannedFrom, scannedTo, scannedChainBlocks and scanComplete together'', ''finding.scannedTo'')
          else None
      | ChainAccepted block blue daa conf confDaa removed \<Rightarrow>
          orElse (acceptanceIncoherence sinkBlue (score blue) (score conf))
            (if removed = Some block
             then Some (''removedAcceptingBlockHash names the accepting block itself'', ''finding.removedAcceptingBlockHash'')
             else daaIncoherence (op_virtualDaaScore (to_point ob)) daa confDaa)
      | FinalityReached block blue conf depth \<Rightarrow>
          orElse (acceptanceIncoherence sinkBlue (score blue) (score conf))
            (finalityIncoherence (ob_networkId (to_observer ob)) depth (score conf))
      | _ \<Rightarrow> None)"

definition checkTxObservationCoherence :: "(ZodType \<Rightarrow> json \<Rightarrow> bool) \<Rightarrow> json \<Rightarrow> coherence" where
  "checkTxObservationCoherence accepts observation =
     (if \<not> accepts TxObservationSchema observation
      then Some (''observation does not match hardkas.txObservation.v1'', [])
      else findingIncoherence (observationOf observation))"

subsection \<open>Creation\<close>

definition evidenceDigest :: "(string \<Rightarrow> string) \<Rightarrow> json \<Rightarrow> string result" where
  "evidenceDigest sha response = domainDigest sha (if response = JUndefined then JNull else response) CURRENT_DOMAIN_DIGEST_VERSION"

definition deriveObserverId :: "(string \<Rightarrow> string) \<Rightarrow> string \<Rightarrow> string \<Rightarrow> json \<Rightarrow> string result" where
  "deriveObserverId sha k target locator =
     bindE (domainDigest sha (JObj [(''kind'', JStr k), (''target'', JStr target), (''locator'', jnn locator (JStr []))]) CURRENT_DOMAIN_DIGEST_VERSION) (\<lambda>d. Inr (''obs_'' @ d))"

record TxObservationInput =
  ti_networkId :: json
  ti_mode :: json
  ti_execution :: json
  ti_subject :: json
  ti_observer :: json
  ti_point :: json
  ti_finding :: json
  ti_evidence :: json
  ti_rpcUrl :: json
  ti_workflowId :: json
  ti_assumptionLevel :: json

definition observationBody :: "TxObservationInput \<Rightarrow> RuntimeContext \<Rightarrow> (string \<times> json) list" where
  "observationBody input ctx =
     [(''schema'', JStr schemaTxObservationV1), (''hardkasVersion'', JStr HARDKAS_VERSION), (''version'', JStr ARTIFACT_VERSION),
      (''hashVersion'', JNum CURRENT_HASH_VERSION), (''createdAt'', JStr (rc_now ctx)), (''networkId'', ti_networkId input), (''mode'', ti_mode input)] @
     jwhen (truthy (ti_execution input)) ''execution'' (ti_execution input) @
     [(''subject'', ti_subject input), (''observer'', ti_observer input), (''point'', ti_point input), (''finding'', ti_finding input),
      (''evidence'', ti_evidence input), (''observedAt'', JStr (rc_now ctx))] @
     jwhen (truthy (ti_rpcUrl input)) ''rpcUrl'' (JStr (redactUrlCredentials (text_of (ti_rpcUrl input)))) @
     jwhen (truthy (ti_workflowId input)) ''workflowId'' (ti_workflowId input) @
     jwhen (truthy (ti_assumptionLevel input)) ''assumptionLevel'' (ti_assumptionLevel input)"

definition createTxObservationArtifact ::
    "(string \<Rightarrow> string) \<Rightarrow> (ZodType \<Rightarrow> json \<Rightarrow> bool) \<Rightarrow> TxObservationInput \<Rightarrow> RuntimeContext \<Rightarrow> json result" where
  "createTxObservationArtifact sha accepts input ctx =
     (let body = JObj (observationBody input ctx) in
      case checkTxObservationCoherence accepts body of
        Some _ \<Rightarrow> Inl ''OBSERVATION_INCOHERENT''
      | None \<Rightarrow> bindE (calculateContentHash sha body CURRENT_HASH_VERSION) (\<lambda>h. Inr (jset ''contentHash'' (JStr h) body)))"

end
