(* ===== verification/HK_TxStatus.thy ===== *)
theory HK_TxStatus
  imports HK_TxObservation HK_Identity
begin

text \<open>
  The status of a transaction, derived from evidence: \<open>packages/artifacts/src/tx-status.ts\<close>. One submission and any number of
  observations are classified; each observer's observations give its own history; the status combines the histories.

  Evidence that does not count is listed with the reason. The typographic signs of the code's texts are written in ASCII.
\<close>

subsection \<open>Policies and statuses\<close>

datatype TxStatusKind =
    REJECTED_BY_NODE | SUBMITTED | MEMPOOL_ACCEPTED | MEMPOOL_ORPHAN | ACCEPTED | CONFIRMED | FINALIZED | REORGED
  | UNOBSERVABLE_PRUNED | INSUFFICIENT_EVIDENCE | CONFLICTING_OBSERVATIONS | SYNTHETIC_EXECUTED

record TxStatusPolicy =
  sp_policyId :: string
  sp_policyVersion :: int
  sp_origin :: string
  sp_minConfirmations :: int
  sp_confirmationUnit :: string

definition TX_STATUS_POLICY_HARDKAS_DEFAULT_V1 :: TxStatusPolicy where
  "TX_STATUS_POLICY_HARDKAS_DEFAULT_V1 = \<lparr>sp_policyId = ''hardkas.txStatusPolicy.default'', sp_policyVersion = 1,
     sp_origin = ''hardkas-product-default'', sp_minConfirmations = 100, sp_confirmationUnit = ''blue-score''\<rparr>"

datatype ObserverHistoryStatus =
    Own_FINALIZED | Own_CONFIRMED | Own_ACCEPTED | Own_REORGED | Own_NOT_ON_CHAIN | Own_MEMPOOL_ACCEPTED | Own_MEMPOOL_ORPHAN
  | Own_UNOBSERVABLE_PRUNED | Own_CONFLICTING_OBSERVATIONS | Own_NO_CLAIM

fun statusText :: "ObserverHistoryStatus \<Rightarrow> string" where
  "statusText Own_FINALIZED = ''FINALIZED''" | "statusText Own_CONFIRMED = ''CONFIRMED''" | "statusText Own_ACCEPTED = ''ACCEPTED''"
| "statusText Own_REORGED = ''REORGED''" | "statusText Own_NOT_ON_CHAIN = ''NOT_ON_CHAIN''" | "statusText Own_MEMPOOL_ACCEPTED = ''MEMPOOL_ACCEPTED''"
| "statusText Own_MEMPOOL_ORPHAN = ''MEMPOOL_ORPHAN''" | "statusText Own_UNOBSERVABLE_PRUNED = ''UNOBSERVABLE_PRUNED''"
| "statusText Own_CONFLICTING_OBSERVATIONS = ''CONFLICTING_OBSERVATIONS''" | "statusText Own_NO_CLAIM = ''NO_CLAIM''"

record Confirmations =
  cf_blue :: string
  cf_daa :: "string option"

record Finality =
  fi_depth :: string
  fi_asObservedAt :: TxObservationPoint
  fi_observerId :: string

record ObserverHistory =
  oh_observerId :: string
  oh_status :: ObserverHistoryStatus
  oh_acceptingBlockHash :: "string option"
  oh_confirmations :: "Confirmations option"
  oh_finality :: "Finality option"
  oh_latestPoint :: TxObservationPoint
  oh_observationArtifactIds :: "string list"
  oh_reasons :: "string list"

record Ignored =
  ig_artifactId :: "string option"
  ig_reason :: string

record DerivedTxStatus =
  ds_txId :: string
  ds_status :: TxStatusKind
  ds_policy :: TxStatusPolicy
  ds_confirmations :: "Confirmations option"
  ds_acceptingBlockHash :: "string option"
  ds_finality :: "Finality option"
  ds_perObserver :: "ObserverHistory list"
  ds_observers :: "Observer list"
  ds_submissionArtifactId :: "string option"
  ds_observationArtifactIds :: "string list"
  ds_ignored :: "Ignored list"
  ds_reasons :: "string list"
  ds_isFinal :: bool

subsection \<open>Submissions\<close>

datatype SubmitOutcome = OutcomeAccepted | OutcomeRejected | OutcomeUnknown

text \<open>A word boundary at the end of a text that starts with a word: the next character is no word character.\<close>

definition wordEnd :: "string \<Rightarrow> bool" where
  "wordEnd s = (case s of [] \<Rightarrow> True | c # _ \<Rightarrow> \<not> is_word c)"

definition NODE_REJECTION :: "string \<Rightarrow> bool" where
  "NODE_REJECTION s \<longleftrightarrow> starts_with s ''Rejected transaction'' \<and> wordEnd (drop 20 s)"

fun hasPhrase :: "string \<Rightarrow> bool \<Rightarrow> string \<Rightarrow> bool" where
  "hasPhrase p atStart [] = False"
| "hasPhrase p atStart (c # s) = (atStart \<and> starts_with (c # s) p \<and> wordEnd (drop (length p) (c # s)) \<or> hasPhrase p (\<not> is_word c) s)"

definition NODE_ALREADY_HOLDS :: "string \<Rightarrow> bool" where
  "NODE_ALREADY_HOLDS s \<longleftrightarrow> hasPhrase ''is already in the mempool'' True s \<or> hasPhrase ''was already accepted by the consensus'' True s \<or>
     hasPhrase ''is already in the orphan pool'' True s"

definition nodeAlreadyHoldsTx :: "json \<Rightarrow> bool" where
  "nodeAlreadyHoldsTx error = (case error of JStr s \<Rightarrow> NODE_REJECTION s \<and> NODE_ALREADY_HOLDS s | _ \<Rightarrow> False)"

definition submitOutcomeOf :: "json \<Rightarrow> SubmitOutcome" where
  "submitOutcomeOf submitResult =
     (if \<not> truthy submitResult then OutcomeUnknown
      else if jget submitResult ''accepted'' = JBool True then OutcomeAccepted
      else if jget submitResult ''accepted'' \<noteq> JBool False then OutcomeUnknown
      else let error = jget submitResult ''error'' in
        if text_of error = [] then OutcomeRejected
        else if nodeAlreadyHoldsTx error then OutcomeUnknown
        else if NODE_REJECTION (text_of error) then OutcomeRejected else OutcomeUnknown)"

datatype Submission = Submitted string SubmitOutcome json | SyntheticReceipt string | NoSubmission

definition submissionId :: "Submission \<Rightarrow> string option" where
  "submissionId s = (case s of Submitted i _ _ \<Rightarrow> Some i | SyntheticReceipt i \<Rightarrow> Some i | NoSubmission \<Rightarrow> None)"

text \<open>\<open>Inl\<close> is the reason why the artifact does not count.\<close>

definition fullIdentity :: "(string \<Rightarrow> string) \<Rightarrow> json \<Rightarrow> (string + string) result" where
  "fullIdentity sha artifact =
     (case readDeclaredHashVersion artifact of
        None \<Rightarrow> Inr (Inl ''hashVersion invalid or absent'')
      | Some declared \<Rightarrow>
          if declared \<noteq> CURRENT_HASH_VERSION
          then Inr (Inl (''hashVersion '' @ int_str declared @ '' is LEGACY (authScope != FULL): never decides (IC-2'.8)''))
          else bindE (checkArtifactIdentity sha artifact) (\<lambda>check.
            case check of Inl codes \<Rightarrow> Inr (Inl (''identity does not verify: '' @ join_with '', '' codes))
            | Inr (i, _) \<Rightarrow> Inr (Inr i)))"

definition ignoredAs :: "string option \<Rightarrow> string \<Rightarrow> Ignored list" where
  "ignoredAs i reason = [\<lparr>ig_artifactId = i, ig_reason = reason\<rparr>]"

definition submissionOf :: "(ZodType \<Rightarrow> json \<Rightarrow> bool) \<Rightarrow> string \<Rightarrow> string \<Rightarrow> json \<Rightarrow> Submission \<times> Ignored list" where
  "submissionOf accepts txId i s =
     (let schema = jget s ''schema'' in
      if schema = JStr schemaTxSubmissionV1 then
        (if \<not> accepts TxSubmissionSchema s then (NoSubmission, ignoredAs (Some i) ''submission: schema invalid'')
         else if text_of (jget s ''txId'') \<noteq> txId
         then (NoSubmission, ignoredAs (Some i) (''submission: txId '' @ text_of (jget s ''txId'') @ '' is not '' @ txId))
         else (Submitted i (submitOutcomeOf (jget s ''submitResult'')) (jget (jget s ''submitResult'') ''error''), []))
      else if schema = JStr schemaTxReceipt \<or> schema = JStr schemaTxReceiptV1 then
        (if jget s ''txId'' \<noteq> JStr txId
         then (NoSubmission, ignoredAs (Some i) (''receipt: txId '' @ template_text (jget s ''txId'') @ '' is not '' @ txId))
         else if jget s ''mode'' = JStr ''simulator'' then (SyntheticReceipt i, [])
         else (NoSubmission, ignoredAs (Some i) ''a network txReceipt is a legacy submission: its status is not evidence (IC-2'.8)''))
      else (NoSubmission, ignoredAs (Some i) (''not a submission: '' @ template_text schema)))"

definition classifySubmission :: "(string \<Rightarrow> string) \<Rightarrow> (ZodType \<Rightarrow> json \<Rightarrow> bool) \<Rightarrow> string \<Rightarrow> json \<Rightarrow> (Submission \<times> Ignored list) result" where
  "classifySubmission sha accepts txId s =
     (if s = JUndefined \<or> s = JNull then Inr (NoSubmission, [])
      else bindE (fullIdentity sha s) (\<lambda>identity.
        case identity of Inl reason \<Rightarrow> Inr (NoSubmission, ignoredAs (optText (jget s ''contentHash'')) (''submission: '' @ reason))
        | Inr i \<Rightarrow> Inr (submissionOf accepts txId i s)))"

subsection \<open>Observations\<close>

record ValidObservation =
  vo_artifactId :: string
  vo_o :: TxObservation
  vo_sinkBlue :: int

abbreviation vo_observerId :: "ValidObservation \<Rightarrow> string" where
  "vo_observerId x \<equiv> ob_observerId (to_observer (vo_o x))"

abbreviation vo_finding :: "ValidObservation \<Rightarrow> TxObservationFinding" where
  "vo_finding x \<equiv> to_finding (vo_o x)"

definition byPoint :: "ValidObservation \<Rightarrow> ValidObservation \<Rightarrow> int" where
  "byPoint a b =
     (if vo_sinkBlue a \<noteq> vo_sinkBlue b then (if vo_sinkBlue a < vo_sinkBlue b then -1 else 1)
      else if to_observedAt (vo_o a) \<noteq> to_observedAt (vo_o b) then (if to_observedAt (vo_o a) < to_observedAt (vo_o b) then -1 else 1)
      else deterministicCompare (vo_artifactId a) (vo_artifactId b))"

definition classifyObservation ::
    "(string \<Rightarrow> string) \<Rightarrow> (ZodType \<Rightarrow> json \<Rightarrow> bool) \<Rightarrow> string \<Rightarrow> Submission \<Rightarrow> json \<Rightarrow> (Ignored list + ValidObservation) result" where
  "classifyObservation sha accepts txId submission r =
     (if jget r ''schema'' \<noteq> JStr schemaTxObservationV1
      then Inr (Inl (ignoredAs (optText (jget r ''contentHash'')) (''not an observation: '' @ template_text (jget r ''schema''))))
      else bindE (fullIdentity sha r) (\<lambda>identity.
        case identity of Inl reason \<Rightarrow> Inr (Inl (ignoredAs (optText (jget r ''contentHash'')) (''observation: '' @ reason)))
        | Inr i \<Rightarrow>
            if \<not> accepts TxObservationSchema r then Inr (Inl (ignoredAs (Some i) ''observation: schema invalid''))
            else (case checkTxObservationCoherence accepts r of
                Some (message, _) \<Rightarrow> Inr (Inl (ignoredAs (Some i) (''observation incoherent: '' @ message)))
              | None \<Rightarrow>
                  (let ob = observationOf r in
                   if to_txId ob \<noteq> txId then Inr (Inl (ignoredAs (Some i) (''observation subject '' @ to_txId ob @ '' is not '' @ txId)))
                   else if (case (to_submissionArtifactId ob, submission) of (Some n, Submitted m _ _) \<Rightarrow> n \<noteq> m | _ \<Rightarrow> False)
                   then Inr (Inl (ignoredAs (Some i) ''observation names a different submission''))
                   else Inr (Inr \<lparr>vo_artifactId = i, vo_o = ob, vo_sinkBlue = score (op_sinkBlueScore (to_point ob))\<rparr>)))))"

definition collectObservations ::
    "(string \<Rightarrow> string) \<Rightarrow> (ZodType \<Rightarrow> json \<Rightarrow> bool) \<Rightarrow> string \<Rightarrow> Submission \<Rightarrow> json list \<Rightarrow> (ValidObservation list \<times> Ignored list) result" where
  "collectObservations sha accepts txId submission observations =
     bindE (mapE (classifyObservation sha accepts txId submission) observations) (\<lambda>cs.
       Inr (js_sort byPoint (List.map_filter (\<lambda>c. case c of Inr x \<Rightarrow> Some x | Inl _ \<Rightarrow> None) cs),
            concat (map (\<lambda>c. case c of Inl i \<Rightarrow> i | Inr _ \<Rightarrow> []) cs)))"

subsection \<open>The history of one observer\<close>

text \<open>The blocks that accept the transaction, in the order the map holds them; the blocks that ever did; the last finality; the
  last removal of a block that had accepted it, and whether the observation just read is that removal.\<close>

record HistoryState =
  hs_accepted :: "(string \<times> ValidObservation) list"
  hs_everAccepted :: "string list"
  hs_finalized :: "ValidObservation option"
  hs_lastRemoval :: "ValidObservation option"
  hs_removedNow :: bool

definition noHistory :: HistoryState where
  "noHistory = \<lparr>hs_accepted = [], hs_everAccepted = [], hs_finalized = None, hs_lastRemoval = None, hs_removedNow = False\<rparr>"

definition finalizedBlock :: "HistoryState \<Rightarrow> string option" where
  "finalizedBlock st = (case hs_finalized st of None \<Rightarrow> None | Some x \<Rightarrow> (case vo_finding x of FinalityReached b _ _ _ \<Rightarrow> Some b | _ \<Rightarrow> None))"

definition acceptBlock :: "string \<Rightarrow> ValidObservation \<Rightarrow> HistoryState \<Rightarrow> HistoryState" where
  "acceptBlock block x st = st\<lparr>hs_accepted := AList.update block x (hs_accepted st), hs_everAccepted := block # hs_everAccepted st\<rparr>"

text \<open>One round of the loop; \<open>Inl\<close> is the reason of an incoherent history.\<close>

definition historyStep :: "ValidObservation \<Rightarrow> HistoryState \<Rightarrow> string + HistoryState" where
  "historyStep x st0 =
     (let st = st0\<lparr>hs_removedNow := False\<rparr> in
      case vo_finding x of
        ChainAccepted block _ _ _ _ removed \<Rightarrow>
          (case removed of
             None \<Rightarrow> Inr (acceptBlock block x st)
           | Some old \<Rightarrow>
               if finalizedBlock st = Some old
               then Inl (''this observer reported block '' @ old @ '' final and later replaced on its selected chain by '' @ block @
                 '': its own history is incoherent'')
               else Inr (acceptBlock block x (st\<lparr>hs_accepted := AList.delete old (hs_accepted st)\<rparr>)))
      | FinalityReached block _ _ _ \<Rightarrow> Inr ((acceptBlock block x st)\<lparr>hs_finalized := Some x\<rparr>)
      | ChainRemoved block \<Rightarrow>
          if finalizedBlock st = Some block
          then Inl (''this observer reported block '' @ block @ '' final and later removed from its selected chain: its own history is incoherent'')
          else Inr (let st' = st\<lparr>hs_accepted := AList.delete block (hs_accepted st)\<rparr> in
            if block \<in> set (hs_everAccepted st') then st'\<lparr>hs_lastRemoval := Some x, hs_removedNow := True\<rparr> else st')
      | _ \<Rightarrow> Inr st)"

fun historyLoop :: "ValidObservation list \<Rightarrow> HistoryState \<Rightarrow> string + HistoryState" where
  "historyLoop [] st = Inr st"
| "historyLoop (x # xs) st = (case historyStep x st of Inl reason \<Rightarrow> Inl reason | Inr st' \<Rightarrow> historyLoop xs st')"

definition baseHistory :: "string \<Rightarrow> ValidObservation list \<Rightarrow> ObserverHistory" where
  "baseHistory observerId ordered =
     \<lparr>oh_observerId = observerId, oh_status = Own_NO_CLAIM, oh_acceptingBlockHash = None, oh_confirmations = None, oh_finality = None,
      oh_latestPoint = to_point (vo_o (last ordered)), oh_observationArtifactIds = map vo_artifactId ordered,
      oh_reasons = [''absence from the mempool or from the scanned chain window is not evidence of anything by itself'']\<rparr>"

definition finalHistory :: "ObserverHistory \<Rightarrow> ValidObservation \<Rightarrow> ObserverHistory" where
  "finalHistory base x =
     (case vo_finding x of
        FinalityReached block _ conf depth \<Rightarrow>
          base\<lparr>oh_status := Own_FINALIZED, oh_acceptingBlockHash := Some block, oh_confirmations := Some \<lparr>cf_blue = conf, cf_daa = None\<rparr>,
            oh_finality := Some \<lparr>fi_depth = depth, fi_asObservedAt = to_point (vo_o x), fi_observerId = oh_observerId base\<rparr>,
            oh_reasons := [''final according to the observed Kaspa virtual-chain finality rule at sink blue score '' @
              op_sinkBlueScore (to_point (vo_o x)) @ '' (this observer's view)'']\<rparr>
      | _ \<Rightarrow> base)"

definition blueOf :: "TxObservationFinding \<Rightarrow> string" where
  "blueOf f = (case f of ChainAccepted _ _ _ conf _ _ \<Rightarrow> conf | FinalityReached _ _ conf _ \<Rightarrow> conf | _ \<Rightarrow> [])"

definition daaOf :: "TxObservationFinding \<Rightarrow> string option" where
  "daaOf f = (case f of ChainAccepted _ _ _ _ daa _ \<Rightarrow> (case daa of Some d \<Rightarrow> if d = [] then None else Some d | None \<Rightarrow> None) | _ \<Rightarrow> None)"

definition acceptedHistory :: "ObserverHistory \<Rightarrow> string \<Rightarrow> ValidObservation \<Rightarrow> TxStatusPolicy \<Rightarrow> ObserverHistory" where
  "acceptedHistory base block x policy =
     (let blue = score (blueOf (vo_finding x)); confirmed = (blue \<ge> sp_minConfirmations policy) in
      base\<lparr>oh_status := if confirmed then Own_CONFIRMED else Own_ACCEPTED, oh_acceptingBlockHash := Some block,
        oh_confirmations := Some \<lparr>cf_blue = blueOf (vo_finding x), cf_daa = daaOf (vo_finding x)\<rparr>,
        oh_reasons := [if confirmed
          then ''accepted by chain block '' @ block @ '' with '' @ int_str blue @ '' blue-score confirmations >= policy '' @ sp_policyId policy @ '' v'' @
            int_str (sp_policyVersion policy) @ '' ('' @ int_str (sp_minConfirmations policy) @ '', '' @ sp_origin policy @ '')''
          else ''accepted by chain block '' @ block @ '' with '' @ int_str blue @ '' blue-score confirmations (< '' @
            int_str (sp_minConfirmations policy) @ ''); revertible until finality'']\<rparr>)"

definition lastFindingHistory :: "ObserverHistory \<Rightarrow> TxObservationFinding \<Rightarrow> ObserverHistory" where
  "lastFindingHistory base f =
     (case f of
        ChainRemoved block \<Rightarrow> base\<lparr>oh_status := Own_NOT_ON_CHAIN, oh_acceptingBlockHash := Some block,
          oh_reasons := [''this observer reports block '' @ block @ '' as not on its selected chain (it never observed the acceptance itself)'']\<rparr>
      | MempoolEntry orphan _ \<Rightarrow> base\<lparr>oh_status := if orphan then Own_MEMPOOL_ORPHAN else Own_MEMPOOL_ACCEPTED,
          oh_reasons := [if orphan then ''present in this observer's orphan pool (parents missing): not accepted''
            else ''present in this observer's mempool at the observation point (local, transient)'']\<rparr>
      | PrunedUnobservable reason \<Rightarrow> base\<lparr>oh_status := Own_UNOBSERVABLE_PRUNED,
          oh_reasons := [''this observer can no longer observe the transaction: '' @ reason]\<rparr>
      | _ \<Rightarrow> base)"

definition removedHistory :: "ObserverHistory \<Rightarrow> ValidObservation \<Rightarrow> ObserverHistory" where
  "removedHistory base x =
     (case vo_finding x of ChainRemoved block \<Rightarrow>
        base\<lparr>oh_status := Own_REORGED, oh_acceptingBlockHash := Some block,
          oh_reasons := [''the accepting block '' @ block @ '' left this observer's selected chain and no new acceptance was observed by it'']\<rparr>
      | _ \<Rightarrow> base)"

definition isAbsence :: "TxObservationFinding \<Rightarrow> bool" where
  "isAbsence f \<longleftrightarrow> f = NotFound \<or> f = MempoolAbsent"

definition deriveObserverHistory :: "TxStatusPolicy \<Rightarrow> string \<Rightarrow> ValidObservation list \<Rightarrow> ObserverHistory" where
  "deriveObserverHistory policy observerId own =
     (let ordered = js_sort byPoint own; base = baseHistory observerId ordered; f = vo_finding (last ordered) in
      case historyLoop ordered noHistory of
        Inl reason \<Rightarrow> base\<lparr>oh_status := Own_CONFLICTING_OBSERVATIONS, oh_reasons := [reason]\<rparr>
      | Inr st \<Rightarrow>
          (case hs_finalized st of
             Some x \<Rightarrow> finalHistory base x
           | None \<Rightarrow>
               if length (hs_accepted st) > 1
               then base\<lparr>oh_status := Own_CONFLICTING_OBSERVATIONS,
                 oh_reasons := [''this observer reports two accepting blocks both on its selected chain: '' @ join_with '', '' (map fst (hs_accepted st))]\<rparr>
               else (case hs_accepted st of
                   (block, x) # _ \<Rightarrow> acceptedHistory base block x policy
                 | [] \<Rightarrow> (case hs_lastRemoval st of
                     Some x \<Rightarrow> if hs_removedNow st \<or> isAbsence f then removedHistory base x else lastFindingHistory base f
                   | None \<Rightarrow> lastFindingHistory base f))))"


subsection \<open>The derived status\<close>

definition isPositive :: "ObserverHistory \<Rightarrow> bool" where
  "isPositive h \<longleftrightarrow> oh_status h \<in> {Own_FINALIZED, Own_CONFIRMED, Own_ACCEPTED}"

definition isNegative :: "ObserverHistory \<Rightarrow> bool" where
  "isNegative h \<longleftrightarrow> oh_status h \<in> {Own_REORGED, Own_NOT_ON_CHAIN}"

definition isMempoolLevel :: "ObserverHistory \<Rightarrow> bool" where
  "isMempoolLevel h \<longleftrightarrow> oh_status h \<in> {Own_MEMPOOL_ACCEPTED, Own_MEMPOOL_ORPHAN}"

text \<open>The comparator \<open>(a < b ? -1 : 1)\<close> on the observer ids.\<close>

definition byObserver :: "('a \<Rightarrow> string) \<Rightarrow> 'a \<Rightarrow> 'a \<Rightarrow> int" where
  "byObserver key a b = (if key a < key b then -1 else 1)"

definition addObserver :: "Observer list \<Rightarrow> ValidObservation \<Rightarrow> Observer list" where
  "addObserver seen x = (if vo_observerId x \<in> set (map ob_observerId seen) then seen
     else seen @ [(to_observer (vo_o x))\<lparr>ob_serverVersion :=
       (case ob_serverVersion (to_observer (vo_o x)) of Some v \<Rightarrow> if v = [] then None else Some v | None \<Rightarrow> None)\<rparr>])"

definition observersOf :: "ValidObservation list \<Rightarrow> Observer list" where
  "observersOf xs = js_sort (byObserver ob_observerId) (foldl addObserver [] xs)"

record StatusInput =
  si_txId :: string
  si_policy :: TxStatusPolicy
  si_submission :: Submission
  si_ignored :: "Ignored list"

definition statusResult :: "StatusInput \<Rightarrow> TxStatusKind \<Rightarrow> ValidObservation list \<Rightarrow> ObserverHistory list \<Rightarrow> string list \<Rightarrow> DerivedTxStatus" where
  "statusResult si status decidedBy perObserver reasons =
     \<lparr>ds_txId = si_txId si, ds_status = status, ds_policy = si_policy si, ds_confirmations = None, ds_acceptingBlockHash = None, ds_finality = None,
      ds_perObserver = perObserver, ds_observers = observersOf decidedBy, ds_submissionArtifactId = submissionId (si_submission si),
      ds_observationArtifactIds = js_sort deterministicCompare (map vo_artifactId decidedBy), ds_ignored = si_ignored si, ds_reasons = reasons,
      ds_isFinal = (status = FINALIZED)\<rparr>"

definition groupObservation :: "(string \<times> ValidObservation list) list \<Rightarrow> ValidObservation \<Rightarrow> (string \<times> ValidObservation list) list" where
  "groupObservation groups x =
     (let i = vo_observerId x in AList.update i ((case map_of groups i of None \<Rightarrow> [] | Some g \<Rightarrow> g) @ [x]) groups)"

definition historiesOf :: "TxStatusPolicy \<Rightarrow> ValidObservation list \<Rightarrow> ObserverHistory list" where
  "historiesOf policy network =
     js_sort (byObserver oh_observerId) (map (\<lambda>(i, g). deriveObserverHistory policy i g) (foldl groupObservation [] network))"

definition obsOf :: "ValidObservation list \<Rightarrow> ObserverHistory list \<Rightarrow> ValidObservation list" where
  "obsOf network hs = filter (\<lambda>x. list_ex (\<lambda>h. oh_observerId h = vo_observerId x) hs) network"

definition viewText :: "ObserverHistory \<Rightarrow> string" where
  "viewText h = oh_observerId h @ '': '' @ statusText (oh_status h) @
     (case oh_acceptingBlockHash h of Some b \<Rightarrow> if b = [] then [] else '' ('' @ b @ '')'' | None \<Rightarrow> [])"

definition disagreement :: "ObserverHistory list \<Rightarrow> ObserverHistory list \<Rightarrow> string list" where
  "disagreement chainLevel current =
     (''observer_views_disagree: '' @ join_with ''; '' (map viewText chainLevel)) #
     (if list_ex (\<lambda>h. oh_status h = Own_FINALIZED) current
      then [''one observer's view satisfies the finality rule and another's does not contain the block: this is a disagreement between observers, not an observed violation of the finality rule in one virtual-chain history'']
      else [])"

definition blueConfirmations :: "ObserverHistory \<Rightarrow> int" where
  "blueConfirmations h = score (case oh_confirmations h of Some c \<Rightarrow> cf_blue c | None \<Rightarrow> [])"

fun minBlueOf :: "ObserverHistory list \<Rightarrow> int option \<Rightarrow> int option" where
  "minBlueOf [] m = m"
| "minBlueOf (h # hs) m = minBlueOf hs (case m of None \<Rightarrow> Some (blueConfirmations h)
     | Some v \<Rightarrow> if blueConfirmations h < v then Some (blueConfirmations h) else Some v)"

definition daaConfirmations :: "ObserverHistory \<Rightarrow> string option" where
  "daaConfirmations h = (case oh_confirmations h of Some c \<Rightarrow> cf_daa c | None \<Rightarrow> None)"

definition minDaaOf :: "ObserverHistory list \<Rightarrow> string option" where
  "minDaaOf current =
     (let withDaa = List.map_filter daaConfirmations current in
      if length withDaa = length current then
        (case withDaa of [] \<Rightarrow> None | d # ds \<Rightarrow>
           (let m = foldl (\<lambda>m d. if score d < score m then d else m) d ds in if m = [] then None else Some m))
      else None)"

text \<open>Observers that see the transaction on the chain, all naming one block.\<close>

definition agreedStatus :: "StatusInput \<Rightarrow> ValidObservation list \<Rightarrow> ObserverHistory list \<Rightarrow> ObserverHistory list \<Rightarrow> string \<Rightarrow> DerivedTxStatus" where
  "agreedStatus si network histories current block =
     (let policy = si_policy si;
          minBlue = (case minBlueOf current None of Some m \<Rightarrow> m | None \<Rightarrow> 0);
          confirmations = \<lparr>cf_blue = int_str minBlue, cf_daa = minDaaOf current\<rparr>;
          agreement = (if length current > 1 then '' ('' @ nat_str (length current) @ '' observers agree on block '' @ block @ '')'' else []) in
      case filter (\<lambda>h. oh_status h = Own_FINALIZED) current of
        h # _ \<Rightarrow>
          (statusResult si FINALIZED (obsOf network current) histories [hd (oh_reasons h) @ agreement])
            \<lparr>ds_acceptingBlockHash := Some block, ds_confirmations := Some confirmations, ds_finality := oh_finality h\<rparr>
      | [] \<Rightarrow>
          (let confirmed = (minBlue \<ge> sp_minConfirmations policy) in
           (statusResult si (if confirmed then CONFIRMED else ACCEPTED) (obsOf network current) histories
             [if confirmed
              then ''accepted by chain block '' @ block @ '' with '' @ int_str minBlue @ '' blue-score confirmations (minimum across observers) >= policy '' @
                sp_policyId policy @ '' v'' @ int_str (sp_policyVersion policy) @ '' ('' @ int_str (sp_minConfirmations policy) @ '', '' @ sp_origin policy @ '')'' @ agreement
              else ''accepted by chain block '' @ block @ '' with '' @ int_str minBlue @ '' blue-score confirmations (minimum across observers, < '' @
                int_str (sp_minConfirmations policy) @ ''); revertible until finality'' @ agreement])
             \<lparr>ds_acceptingBlockHash := Some block, ds_confirmations := Some confirmations\<rparr>))"

definition blocksOf :: "ObserverHistory list \<Rightarrow> string list" where
  "blocksOf current = setOrder (List.map_filter oh_acceptingBlockHash current)"

definition positiveStatus :: "StatusInput \<Rightarrow> ValidObservation list \<Rightarrow> ObserverHistory list \<Rightarrow> DerivedTxStatus" where
  "positiveStatus si network histories =
     (let current = filter isPositive histories; negative = filter isNegative histories; chainLevel = current @ negative in
      if length (blocksOf current) > 1 \<or> negative \<noteq> [] then
        statusResult si CONFLICTING_OBSERVATIONS (obsOf network chainLevel) histories (disagreement chainLevel current)
      else agreedStatus si network histories current (hd (blocksOf current)))"

definition reorgedStatus :: "StatusInput \<Rightarrow> ValidObservation list \<Rightarrow> ObserverHistory list \<Rightarrow> ObserverHistory list \<Rightarrow> DerivedTxStatus" where
  "reorgedStatus si network histories reorged =
     (let block = oh_acceptingBlockHash (hd reorged) in
      if \<not> list_all (\<lambda>h. oh_acceptingBlockHash h = block) reorged then
        statusResult si CONFLICTING_OBSERVATIONS (obsOf network reorged) histories
          [''observer_views_disagree: '' @ join_with ''; '' (map (\<lambda>h. oh_observerId h @ '': REORGED ('' @
             (case oh_acceptingBlockHash h of Some b \<Rightarrow> b | None \<Rightarrow> ''undefined'') @ '')'') reorged)]
      else (statusResult si REORGED (obsOf network reorged) histories (concat (map oh_reasons reorged)))
        \<lparr>ds_acceptingBlockHash := (case block of Some b \<Rightarrow> if b = [] then None else Some b | None \<Rightarrow> None)\<rparr>)"

definition mempoolStatus :: "StatusInput \<Rightarrow> ValidObservation list \<Rightarrow> ObserverHistory list \<Rightarrow> ObserverHistory list \<Rightarrow> DerivedTxStatus" where
  "mempoolStatus si network histories mempoolLevel =
     (if length (setOrder (map oh_status mempoolLevel)) > 1 then
        statusResult si CONFLICTING_OBSERVATIONS (obsOf network mempoolLevel) histories
          [''observer_views_disagree: '' @ join_with ''; '' (map (\<lambda>h. oh_observerId h @ '': '' @ statusText (oh_status h)) mempoolLevel)]
      else statusResult si (if oh_status (hd mempoolLevel) = Own_MEMPOOL_ACCEPTED then MEMPOOL_ACCEPTED else MEMPOOL_ORPHAN)
        (obsOf network mempoolLevel) histories (concat (map oh_reasons mempoolLevel)))"

text \<open>No observer says anything about the transaction: the submission decides.\<close>

definition submissionStatus :: "StatusInput \<Rightarrow> ObserverHistory list \<Rightarrow> DerivedTxStatus" where
  "submissionStatus si histories =
     (let reasons = concat (map oh_reasons histories) in
      case si_submission si of
        Submitted _ outcome error \<Rightarrow>
          (case outcome of
             OutcomeAccepted \<Rightarrow> statusResult si SUBMITTED [] histories
               (reasons @ [''submitTransaction returned success at that instant on the responding node; nothing has been observed since''])
           | OutcomeRejected \<Rightarrow> statusResult si REJECTED_BY_NODE [] histories (reasons @ [''the responding node rejected this submission''])
           | OutcomeUnknown \<Rightarrow>
               statusResult si INSUFFICIENT_EVIDENCE [] histories (reasons @
                 [if nodeAlreadyHoldsTx error
                  then ''the responding node answered that it already holds this transaction ('' @ template_text error @
                    ''): not a rejection and not an acceptance, so no state is decided - observe it; never plan and sign the payment again''
                  else ''the submit call failed without an answer from the responding node'' @
                    (if truthy error then '' ('' @ template_text error @ '')'' else []) @
                    '': whether the node received this transaction is unknown, so no state is decided - observe it'']))
      | _ \<Rightarrow> statusResult si INSUFFICIENT_EVIDENCE [] histories (reasons @ [''no FULL-scope submission or observation decides this txId'']))"

definition networkStatus :: "StatusInput \<Rightarrow> ValidObservation list \<Rightarrow> DerivedTxStatus" where
  "networkStatus si network =
     (let histories = historiesOf (si_policy si) network;
          intraConflict = filter (\<lambda>h. oh_status h = Own_CONFLICTING_OBSERVATIONS) histories;
          reorged = filter (\<lambda>h. oh_status h = Own_REORGED) histories;
          mempoolLevel = filter isMempoolLevel histories;
          pruned = filter (\<lambda>h. oh_status h = Own_UNOBSERVABLE_PRUNED) histories in
      if intraConflict \<noteq> [] then
        statusResult si CONFLICTING_OBSERVATIONS (obsOf network intraConflict) histories (concat (map oh_reasons intraConflict))
      else if filter isPositive histories \<noteq> [] then positiveStatus si network histories
      else if reorged \<noteq> [] then reorgedStatus si network histories reorged
      else if mempoolLevel \<noteq> [] then mempoolStatus si network histories mempoolLevel
      else if pruned \<noteq> [] then statusResult si UNOBSERVABLE_PRUNED (obsOf network pruned) histories (concat (map oh_reasons pruned))
      else submissionStatus si histories)"

definition isSyntheticReceipt :: "Submission \<Rightarrow> bool" where
  "isSyntheticReceipt s = (case s of SyntheticReceipt _ \<Rightarrow> True | _ \<Rightarrow> False)"

definition combineEvidence :: "StatusInput \<Rightarrow> ValidObservation list \<Rightarrow> DerivedTxStatus" where
  "combineEvidence si valid =
     (let synthetic = filter (\<lambda>x. isSynthetic (vo_finding x)) valid; network = filter (\<lambda>x. \<not> isSynthetic (vo_finding x)) valid in
      if synthetic \<noteq> [] \<or> isSyntheticReceipt (si_submission si) then
        (if network \<noteq> [] then statusResult si CONFLICTING_OBSERVATIONS valid [] [''synthetic and network evidence exist for the same txId'']
         else statusResult si SYNTHETIC_EXECUTED synthetic [] [''executed by the HardKAS simulator: no Kaspa consensus was involved''])
      else networkStatus si network)"

definition deriveTxStatus ::
    "(string \<Rightarrow> string) \<Rightarrow> (ZodType \<Rightarrow> json \<Rightarrow> bool) \<Rightarrow> string \<Rightarrow> json \<Rightarrow> json list \<Rightarrow> TxStatusPolicy option \<Rightarrow> DerivedTxStatus result" where
  "deriveTxStatus sha accepts txId submission observations policy =
     bindE (classifySubmission sha accepts txId submission) (\<lambda>(s, ignored).
     bindE (collectObservations sha accepts txId s observations) (\<lambda>(valid, ignored').
       Inr (combineEvidence \<lparr>si_txId = txId, si_policy = (case policy of Some p \<Rightarrow> p | None \<Rightarrow> TX_STATUS_POLICY_HARDKAS_DEFAULT_V1),
         si_submission = s, si_ignored = ignored @ ignored'\<rparr> valid)))"

definition isConfirmed :: "DerivedTxStatus \<Rightarrow> TxStatusPolicy option \<Rightarrow> bool" where
  "isConfirmed derived policy =
     (let p = (case policy of Some p \<Rightarrow> p | None \<Rightarrow> ds_policy derived) in
      if ds_status derived = FINALIZED then True
      else if ds_status derived \<noteq> CONFIRMED \<and> ds_status derived \<noteq> ACCEPTED then False
      else (case ds_confirmations derived of None \<Rightarrow> False | Some c \<Rightarrow> score (cf_blue c) \<ge> sp_minConfirmations p))"

end
