(* ===== verification/HK_TxStatusProps.thy ===== *)
theory HK_TxStatusProps
  imports HK_TxStatus HK_ResolveProps
begin

text \<open>
  Properties of derived statuses. A history is read off one observer's observations in the order of their points; the
  derived status does not depend on the order in which the evidence arrives, a status that places the transaction on
  the chain rests on coherent evidence that no observer contradicts, and \<open>REORGED\<close> is one observer's own history.
\<close>

subsection \<open>The order of observations\<close>

interpretation point_order: keyed_comparator byPoint "\<lambda>x. (vo_sinkBlue x, to_observedAt (vo_o x), vo_artifactId x)"
  by unfold_locales (auto simp: byPoint_def deterministicCompare_def less_prod_def)

lemma mapE_Inr: "mapE f xs = Inr ys \<Longrightarrow> \<exists>g. (\<forall>x \<in> set xs. f x = Inr (g x)) \<and> ys = map g xs"
proof (rule exI [of _ "\<lambda>x. projr (f x)"])
  assume "mapE f xs = Inr ys"
  then show "(\<forall>x \<in> set xs. f x = Inr (projr (f x))) \<and> ys = map (\<lambda>x. projr (f x)) xs"
    by (induction xs arbitrary: ys) fastforce+
qed

lemma mapE_perm:
  assumes "mapE f xs = Inr cs" "mset xs = mset ys"
  obtains ds where "mapE f ys = Inr ds" "mset ds = mset cs" "\<And>c. c \<in> set cs \<Longrightarrow> \<exists>x \<in> set xs. f x = Inr c"
proof -
  obtain g where g: "\<forall>x \<in> set xs. f x = Inr (g x)" "cs = map g xs" using mapE_Inr [OF assms(1)] by blast
  have "mapE f ys = Inr (map g ys)" using g(1) mset_eq_setD [OF assms(2)] by (intro mapE_total) simp
  moreover have "mset (map g ys) = mset cs" using g(2) assms(2) by simp
  moreover have "\<exists>x \<in> set xs. f x = Inr c" if "c \<in> set cs" for c using that g by auto
  ultimately show thesis using that by blast
qed

text \<open>What an observation that counts has passed.\<close>

lemma fullIdentity_Inr:
  assumes "fullIdentity sha r = Inr (Inr i)"
  shows "identity sha r = Some i" "readDeclaredHashVersion r = Some CURRENT_HASH_VERSION"
proof -
  show v: "readDeclaredHashVersion r = Some CURRENT_HASH_VERSION" using assms by (auto simp: fullIdentity_def split: option.splits if_splits)
  obtain c where c: "checkArtifactIdentity sha r = Inr c" using assms v by (cases "checkArtifactIdentity sha r") (auto simp: fullIdentity_def)
  show "identity sha r = Some i" using assms v c by (cases c) (auto simp: fullIdentity_def identity_Some)
qed

lemma classifyObservation_Inr:
  assumes "classifyObservation sha accepts txId submission r = Inr (Inr x)"
  shows "vo_o x = observationOf r" "identity sha r = Some (vo_artifactId x)" "readDeclaredHashVersion r = Some CURRENT_HASH_VERSION"
    "accepts TxObservationSchema r" "findingIncoherence (vo_o x) = None" "to_txId (vo_o x) = txId"
    "vo_sinkBlue x = score (op_sinkBlueScore (to_point (vo_o x)))"
proof -
  obtain c where "fullIdentity sha r = Inr c" using assms by (cases "fullIdentity sha r") (auto simp: classifyObservation_def split: if_splits)
  with assms obtain i where f: "fullIdentity sha r = Inr (Inr i)" by (cases c) (auto simp: classifyObservation_def split: if_splits)
  have i: "accepts TxObservationSchema r" "checkTxObservationCoherence accepts r = None"
    and x: "x = \<lparr>vo_artifactId = i, vo_o = observationOf r, vo_sinkBlue = score (op_sinkBlueScore (to_point (observationOf r)))\<rparr>"
    "to_txId (observationOf r) = txId"
    using assms f by (auto simp: classifyObservation_def Let_def split: if_splits option.splits prod.splits)
  show "vo_o x = observationOf r" "identity sha r = Some (vo_artifactId x)" "readDeclaredHashVersion r = Some CURRENT_HASH_VERSION"
    "accepts TxObservationSchema r" "findingIncoherence (vo_o x) = None" "to_txId (vo_o x) = txId"
    "vo_sinkBlue x = score (op_sinkBlueScore (to_point (vo_o x)))"
    using i x fullIdentity_Inr [OF f] by (simp_all add: checkTxObservationCoherence_def)
qed


text \<open>Copies of one identity hold the same data.\<close>

definition same_copies :: "(string \<Rightarrow> string) \<Rightarrow> json list \<Rightarrow> bool" where
  "same_copies sha obs \<longleftrightarrow>
     list_all (\<lambda>r. list_all (\<lambda>r'. identity sha r = None \<or> identity sha r \<noteq> identity sha r' \<or> observationOf r = observationOf r') obs) obs"

lemma mset_map_filter: "mset (List.map_filter f xs) = mset (map (the \<circ> f) (filter (\<lambda>x. f x \<noteq> None) xs))"
  by (simp add: List.map_filter_def)

lemma map_filter_perm: "mset xs = mset ys \<Longrightarrow> mset (List.map_filter f xs) = mset (List.map_filter f ys)"
  unfolding mset_map_filter mset_map mset_filter by simp

lemma mset_concat_map: "mset (concat (map f xs)) = \<Sum>\<^sub># (image_mset (mset \<circ> f) (mset xs))"
  by (induction xs) simp_all

lemma concat_perm: "mset xs = mset ys \<Longrightarrow> mset (concat (map f xs)) = mset (concat (map f ys))"
  unfolding mset_concat_map by simp

lemma mem_valid: "x \<in> set (List.map_filter (\<lambda>c. case c of Inr x \<Rightarrow> Some x | Inl _ \<Rightarrow> None) cs) \<longleftrightarrow> Inr x \<in> set cs"
  by (induction cs) (auto simp: List.map_filter_simps split: sum.splits)

lemma collect_perm:
  assumes "collectObservations sha accepts txId s obs = Inr (valid, ig)" "mset obs = mset obs'" "same_copies sha obs"
  obtains ig' where "collectObservations sha accepts txId s obs' = Inr (valid, ig')" "mset ig' = mset ig"
proof -
  let ?c = "classifyObservation sha accepts txId s" and ?v = "List.map_filter (\<lambda>c. case c of Inr x \<Rightarrow> Some x | Inl _ \<Rightarrow> None)"
  obtain cs where cs: "mapE ?c obs = Inr cs" "valid = js_sort byPoint (?v cs)" "ig = concat (map (\<lambda>c. case c of Inl i \<Rightarrow> i | Inr _ \<Rightarrow> []) cs)"
    using assms(1) by (auto simp: collectObservations_def)
  obtain ds where ds: "mapE ?c obs' = Inr ds" "mset ds = mset cs" and src: "\<And>c. c \<in> set cs \<Longrightarrow> \<exists>r \<in> set obs. ?c r = Inr c"
    using mapE_perm [OF cs(1) assms(2)] by metis
  have "x = y" if xy: "x \<in> set (?v cs)" "y \<in> set (?v cs)" "byPoint x y = 0" for x y
  proof -
    obtain r r' where r: "r \<in> set obs" "r' \<in> set obs" "?c r = Inr (Inr x)" "?c r' = Inr (Inr y)"
      using src [of "Inr x"] src [of "Inr y"] xy(1,2) unfolding mem_valid by blast
    note x = classifyObservation_Inr [OF r(3)] and y = classifyObservation_Inr [OF r(4)]
    have "vo_artifactId x = vo_artifactId y" using xy(3) by (simp add: point_order.cmp_eq_key)
    moreover from this have "vo_o x = vo_o y" using assms(3) r(1,2) x(1,2) y(1,2) unfolding same_copies_def list_all_iff by fastforce
    ultimately show "x = y" using x(7) y(7) by simp
  qed
  then have "js_sort byPoint (?v ds) = valid"
    unfolding cs(2) using point_order.js_sort_perm [of "?v cs" "?v ds"] map_filter_perm [OF ds(2)] by metis
  then have "collectObservations sha accepts txId s obs' = Inr (valid, concat (map (\<lambda>c. case c of Inl i \<Rightarrow> i | Inr _ \<Rightarrow> []) ds))"
    using ds(1) by (simp add: collectObservations_def)
  then show thesis using that concat_perm [OF ds(2)] cs(3) by metis
qed

lemma statusResult_ignored: "statusResult (si\<lparr>si_ignored := ig\<rparr>) k ds hs rs = (statusResult si k ds hs rs)\<lparr>ds_ignored := ig\<rparr>"
  by (simp add: statusResult_def)

lemma ignored_commutes:
  "d\<lparr>ds_ignored := ig\<rparr>\<lparr>ds_acceptingBlockHash := a, ds_confirmations := c\<rparr> = d\<lparr>ds_acceptingBlockHash := a, ds_confirmations := c\<rparr>\<lparr>ds_ignored := ig\<rparr>"
  "d\<lparr>ds_ignored := ig\<rparr>\<lparr>ds_finality := f\<rparr> = d\<lparr>ds_finality := f\<rparr>\<lparr>ds_ignored := ig\<rparr>"
  by simp_all

lemma combine_ignored: "combineEvidence (si\<lparr>si_ignored := ig\<rparr>) valid = (combineEvidence si valid)\<lparr>ds_ignored := ig\<rparr>"
proof -
  have si: "si_policy (si\<lparr>si_ignored := ig\<rparr>) = si_policy si" "si_submission (si\<lparr>si_ignored := ig\<rparr>) = si_submission si" by simp_all
  have a: "agreedStatus (si\<lparr>si_ignored := ig\<rparr>) network hs current b = (agreedStatus si network hs current b)\<lparr>ds_ignored := ig\<rparr>" for network hs current b
    unfolding agreedStatus_def Let_def statusResult_ignored ignored_commutes si
    by (cases "filter (\<lambda>h. oh_status h = Own_FINALIZED) current") (simp_all only: list.case ignored_commutes)
  have p: "positiveStatus (si\<lparr>si_ignored := ig\<rparr>) network hs = (positiveStatus si network hs)\<lparr>ds_ignored := ig\<rparr>" for network hs
    by (simp add: positiveStatus_def statusResult_ignored a Let_def)
  have r: "reorgedStatus (si\<lparr>si_ignored := ig\<rparr>) network hs rs = (reorgedStatus si network hs rs)\<lparr>ds_ignored := ig\<rparr>" for network hs rs
    by (simp add: reorgedStatus_def statusResult_ignored Let_def)
  have m: "mempoolStatus (si\<lparr>si_ignored := ig\<rparr>) network hs rs = (mempoolStatus si network hs rs)\<lparr>ds_ignored := ig\<rparr>" for network hs rs
    by (simp add: mempoolStatus_def statusResult_ignored Let_def)
  have s: "submissionStatus (si\<lparr>si_ignored := ig\<rparr>) hs = (submissionStatus si hs)\<lparr>ds_ignored := ig\<rparr>" for hs
    unfolding submissionStatus_def Let_def statusResult_ignored si
    by (simp only: Submission.case_distrib [where h = "\<lambda>d. d\<lparr>ds_ignored := ig\<rparr>"] SubmitOutcome.case_distrib [where h = "\<lambda>d. d\<lparr>ds_ignored := ig\<rparr>"])
  have "networkStatus (si\<lparr>si_ignored := ig\<rparr>) network = (networkStatus si network)\<lparr>ds_ignored := ig\<rparr>" for network
    by (simp add: networkStatus_def statusResult_ignored p r m s Let_def)
  then show ?thesis by (simp add: combineEvidence_def statusResult_ignored Let_def)
qed

lemma combine_keeps_ignored: "ds_ignored (combineEvidence si valid) = si_ignored si"
proof -
  have "ds_ignored (combineEvidence (si\<lparr>si_ignored := si_ignored si\<rparr>) valid) = si_ignored si" unfolding combine_ignored by simp
  then show ?thesis by simp
qed

text \<open>C13: the derived status does not depend on the order in which the evidence arrives. For observations whose copies (the
  ones of the same identity) hold the same data, whatever their order, the same status is derived, with the same histories, observers, deciding artifacts and reasons; only
  the list of ignored artifacts is permuted.\<close>

theorem status_order_independent:
  assumes "deriveTxStatus sha accepts txId submission obs policy = Inr r" "mset obs = mset obs'" "same_copies sha obs"
  shows "\<exists>r'. deriveTxStatus sha accepts txId submission obs' policy = Inr r' \<and> r' = r\<lparr>ds_ignored := ds_ignored r'\<rparr> \<and> mset (ds_ignored r') = mset (ds_ignored r)"
proof -
  obtain s ig0 valid ig where s: "classifySubmission sha accepts txId submission = Inr (s, ig0)" "collectObservations sha accepts txId s obs = Inr (valid, ig)"
    and r: "r = combineEvidence \<lparr>si_txId = txId, si_policy = (case policy of Some p \<Rightarrow> p | None \<Rightarrow> TX_STATUS_POLICY_HARDKAS_DEFAULT_V1),
      si_submission = s, si_ignored = ig0 @ ig\<rparr> valid" (is "r = combineEvidence ?si valid")
    using assms(1) by (auto simp: deriveTxStatus_def)
  obtain ig' where ig': "collectObservations sha accepts txId s obs' = Inr (valid, ig')" "mset ig' = mset ig"
    using collect_perm [OF s(2) assms(2,3)] by blast
  have "deriveTxStatus sha accepts txId submission obs' policy = Inr (combineEvidence (?si\<lparr>si_ignored := ig0 @ ig'\<rparr>) valid)"
    using s(1) ig'(1) by (simp add: deriveTxStatus_def)
  moreover have "ds_ignored r = ig0 @ ig" unfolding r combine_keeps_ignored by simp
  ultimately show ?thesis using ig'(2) unfolding combine_ignored r [symmetric] by simp
qed

end
