(* ===== verification/HK_TxHistory.thy ===== *)
theory HK_TxHistory
  imports HK_TxStatusProps
begin

text \<open>
  What the history of one observer means: which block it sees accepting the transaction, and what a removal says. The
  invariant of the loop relates its state to the observations read so far.
\<close>

subsection \<open>The invariant of the loop\<close>

definition acceptedIn :: "string \<Rightarrow> TxObservationFinding \<Rightarrow> bool" where
  "acceptedIn b f \<longleftrightarrow> (case f of ChainAccepted b' _ _ _ _ _ \<Rightarrow> b' = b | FinalityReached b' _ _ _ \<Rightarrow> b' = b | _ \<Rightarrow> False)"

text \<open>A finding withdraws a block when it reports it off the chain, alone or with the block that replaces it.\<close>

definition withdrawnIn :: "string \<Rightarrow> TxObservationFinding \<Rightarrow> bool" where
  "withdrawnIn b f \<longleftrightarrow> (case f of ChainRemoved b' \<Rightarrow> b' = b | ChainAccepted _ _ _ _ _ removed \<Rightarrow> removed = Some b | _ \<Rightarrow> False)"

definition finalIn :: "TxObservationFinding \<Rightarrow> bool" where
  "finalIn f \<longleftrightarrow> (case f of FinalityReached _ _ _ _ \<Rightarrow> True | _ \<Rightarrow> False)"

abbreviation acceptsBlock :: "string \<Rightarrow> ValidObservation \<Rightarrow> bool" where
  "acceptsBlock b x \<equiv> acceptedIn b (vo_finding x)"

abbreviation withdraws :: "string \<Rightarrow> ValidObservation \<Rightarrow> bool" where
  "withdraws b y \<equiv> withdrawnIn b (vo_finding y)"

abbreviation isFinality :: "ValidObservation \<Rightarrow> bool" where
  "isFinality x \<equiv> finalIn (vo_finding x)"

lemma historyStep_Inr:
  assumes "historyStep z st = Inr st'"
  shows "hs_accepted st' = (case vo_finding z of
      ChainAccepted b _ _ _ _ removed \<Rightarrow> AList.update b z (case removed of None \<Rightarrow> hs_accepted st | Some old \<Rightarrow> AList.delete old (hs_accepted st))
    | FinalityReached b _ _ _ \<Rightarrow> AList.update b z (hs_accepted st) | ChainRemoved b \<Rightarrow> AList.delete b (hs_accepted st) | _ \<Rightarrow> hs_accepted st)"
    and "hs_everAccepted st' = (case vo_finding z of
      ChainAccepted b _ _ _ _ _ \<Rightarrow> b # hs_everAccepted st | FinalityReached b _ _ _ \<Rightarrow> b # hs_everAccepted st | _ \<Rightarrow> hs_everAccepted st)"
    and "hs_finalized st' = (if isFinality z then Some z else hs_finalized st)"
    and "hs_lastRemoval st' = (case vo_finding z of
      ChainRemoved b \<Rightarrow> if b \<in> set (hs_everAccepted st) then Some z else hs_lastRemoval st | _ \<Rightarrow> hs_lastRemoval st)"
    and "hs_removedNow st' = (case vo_finding z of ChainRemoved b \<Rightarrow> b \<in> set (hs_everAccepted st) | _ \<Rightarrow> False)"
  using assms by (auto simp: historyStep_def acceptBlock_def finalIn_def Let_def split: TxObservationFinding.splits option.splits if_splits)

lemma historyLoop_snoc:
  "historyLoop (xs @ [z]) st = (case historyLoop xs st of Inl r \<Rightarrow> Inl r | Inr st' \<Rightarrow> historyStep z st')"
  by (induction xs arbitrary: st) (auto split: sum.splits)

lemma history_snocE:
  assumes "historyLoop (xs @ [z]) st = Inr st'"
  obtains st1 where "historyLoop xs st = Inr st1" "historyStep z st1 = Inr st'"
  using assms by (auto simp: historyLoop_snoc split: sum.splits)

lemma delete_mem [simp]: "p \<in> set (AList.delete k ps) \<longleftrightarrow> p \<in> set ps \<and> fst p \<noteq> k"
  by (auto simp: AList.delete_eq)

lemma update_mem_cases: "p \<in> set (AList.update k v ps) \<Longrightarrow> p = (k, v) \<or> p \<in> set ps"
  by (induction ps) (auto split: if_splits)

lemma update_fst [simp]: "fst ` set (AList.update k v ps) = insert k (fst ` set ps)"
  by (induction ps) auto

lemma history_accepted:
  assumes "historyLoop xs noHistory = Inr st" "(b, x) \<in> set (hs_accepted st)"
  shows "x \<in> set xs \<and> acceptsBlock b x"
  using assms
proof (induction xs arbitrary: st rule: rev_induct)
  case (snoc z xs)
  obtain st1 where st1: "historyLoop xs noHistory = Inr st1" "historyStep z st1 = Inr st" using snoc.prems(1) by (rule history_snocE)
  have "(b, x) \<in> set (hs_accepted st1) \<or> x = z \<and> acceptsBlock b z"
    using snoc.prems(2) unfolding historyStep_Inr(1) [OF st1(2)]
    by (auto simp: acceptedIn_def dest!: update_mem_cases split: TxObservationFinding.splits option.splits)
  then show ?case using snoc.IH [OF st1(1)] by auto
qed (simp add: noHistory_def)

lemma history_ever:
  assumes "historyLoop xs noHistory = Inr st"
  shows "b \<in> set (hs_everAccepted st) \<longleftrightarrow> (\<exists>x \<in> set xs. acceptsBlock b x)"
  using assms
proof (induction xs arbitrary: st rule: rev_induct)
  case (snoc z xs)
  obtain st1 where st1: "historyLoop xs noHistory = Inr st1" "historyStep z st1 = Inr st" using snoc.prems by (rule history_snocE)
  have "b \<in> set (hs_everAccepted st) \<longleftrightarrow> b \<in> set (hs_everAccepted st1) \<or> acceptsBlock b z"
    unfolding historyStep_Inr(2) [OF st1(2)] by (auto simp: acceptedIn_def split: TxObservationFinding.splits)
  then show ?case using snoc.IH [OF st1(1)] by auto
qed (simp add: noHistory_def)

lemma history_finalized:
  assumes "historyLoop xs noHistory = Inr st"
  shows "case hs_finalized st of Some x \<Rightarrow> x \<in> set xs \<and> isFinality x | None \<Rightarrow> \<forall>x \<in> set xs. \<not> isFinality x"
  using assms
proof (induction xs arbitrary: st rule: rev_induct)
  case (snoc z xs)
  obtain st1 where st1: "historyLoop xs noHistory = Inr st1" "historyStep z st1 = Inr st" using snoc.prems by (rule history_snocE)
  show ?case using snoc.IH [OF st1(1)] unfolding historyStep_Inr(3) [OF st1(2)] by (auto split: option.splits)
qed (simp add: noHistory_def)

lemma history_removal:
  assumes "historyLoop xs noHistory = Inr st" "hs_lastRemoval st = Some y"
  shows "\<exists>us vs b. xs = us @ y # vs \<and> vo_finding y = ChainRemoved b \<and> (\<exists>x \<in> set us. acceptsBlock b x)"
  using assms
proof (induction xs arbitrary: st rule: rev_induct)
  case (snoc z xs)
  obtain st1 where st1: "historyLoop xs noHistory = Inr st1" "historyStep z st1 = Inr st" using snoc.prems(1) by (rule history_snocE)
  show ?case
  proof (cases "hs_lastRemoval st1 = Some y")
    case True
    then obtain us vs b where "xs = us @ y # vs" "vo_finding y = ChainRemoved b" "\<exists>x \<in> set us. acceptsBlock b x" using snoc.IH [OF st1(1)] by blast
    then have "xs @ [z] = us @ y # (vs @ [z]) \<and> vo_finding y = ChainRemoved b \<and> (\<exists>x \<in> set us. acceptsBlock b x)" by simp
    then show ?thesis by blast
  next
    case False
    then obtain b where "y = z" "vo_finding z = ChainRemoved b" "b \<in> set (hs_everAccepted st1)"
      using snoc.prems(2) unfolding historyStep_Inr(4) [OF st1(2)] by (auto split: TxObservationFinding.splits if_splits)
    then have "xs @ [z] = xs @ y # [] \<and> vo_finding y = ChainRemoved b \<and> (\<exists>x \<in> set xs. acceptsBlock b x)" using history_ever [OF st1(1)] by simp
    then show ?thesis by blast
  qed
qed (simp add: noHistory_def)

text \<open>Every acceptance that is no longer in force was withdrawn by a later observation.\<close>

lemma history_withdrawn:
  assumes "historyLoop xs noHistory = Inr st" "xs = us @ x # vs" "acceptsBlock b x" "b \<notin> fst ` set (hs_accepted st)"
  shows "\<exists>y \<in> set vs. withdraws b y"
  using assms
proof (induction xs arbitrary: st vs rule: rev_induct)
  case (snoc z xs)
  obtain st1 where st1: "historyLoop xs noHistory = Inr st1" "historyStep z st1 = Inr st" using snoc.prems(1) by (rule history_snocE)
  note acc = historyStep_Inr(1) [OF st1(2)]
  show ?case
  proof (cases vs rule: rev_cases)
    case Nil
    then have "acceptsBlock b z" using snoc.prems(2,3) by simp
    then show ?thesis using snoc.prems(4) unfolding acc by (auto simp: acceptedIn_def split: TxObservationFinding.splits)
  next
    case vs: (snoc ws w)
    then have ws: "xs = us @ x # ws" "w = z" using snoc.prems(2) by simp_all
    show ?thesis
    proof (cases "withdraws b z")
      case False
      then have "b \<notin> fst ` set (hs_accepted st1)" using snoc.prems(4) unfolding acc
        by (force simp: withdrawnIn_def split: TxObservationFinding.splits option.splits)
      then show ?thesis using snoc.IH [OF st1(1) ws(1) snoc.prems(3)] vs by auto
    qed (use vs ws in simp)
  qed
qed simp


subsection \<open>What a history says\<close>

lemma baseHistory_sel [simp]:
  "oh_observerId (baseHistory i xs) = i" "oh_status (baseHistory i xs) = Own_NO_CLAIM" "oh_acceptingBlockHash (baseHistory i xs) = None"
  by (simp_all add: baseHistory_def)

lemma lastFinding_status: "oh_status (lastFindingHistory (baseHistory i xs) f) \<in>
    {Own_NOT_ON_CHAIN, Own_MEMPOOL_ORPHAN, Own_MEMPOOL_ACCEPTED, Own_UNOBSERVABLE_PRUNED, Own_NO_CLAIM}"
  by (auto simp: lastFindingHistory_def split: TxObservationFinding.splits)

lemma keeps_observerId [simp]:
  "oh_observerId (finalHistory base x) = oh_observerId base" "oh_observerId (acceptedHistory base b x policy) = oh_observerId base"
  "oh_observerId (removedHistory base x) = oh_observerId base" "oh_observerId (lastFindingHistory base f) = oh_observerId base"
  by (simp_all add: finalHistory_def acceptedHistory_def removedHistory_def lastFindingHistory_def Let_def split: TxObservationFinding.split)

lemma historyOf_observerId [simp]: "oh_observerId (deriveObserverHistory policy i own) = i"
  unfolding deriveObserverHistory_def Let_def by (simp split: sum.split option.split list.split prod.split)

text \<open>A history that ends with the transaction on the chain, or without it.\<close>

lemma history_cases:
  obtains reason where "historyLoop (js_sort byPoint own) noHistory = Inl reason" "oh_status (deriveObserverHistory policy i own) = Own_CONFLICTING_OBSERVATIONS"
  | st x where "historyLoop (js_sort byPoint own) noHistory = Inr st" "hs_finalized st = Some x"
      "deriveObserverHistory policy i own = finalHistory (baseHistory i (js_sort byPoint own)) x"
  | st where "historyLoop (js_sort byPoint own) noHistory = Inr st" "hs_finalized st = None" "length (hs_accepted st) > 1"
      "oh_status (deriveObserverHistory policy i own) = Own_CONFLICTING_OBSERVATIONS"
  | st b x where "historyLoop (js_sort byPoint own) noHistory = Inr st" "hs_finalized st = None" "hs_accepted st = [(b, x)]"
      "deriveObserverHistory policy i own = acceptedHistory (baseHistory i (js_sort byPoint own)) b x policy"
  | st y where "historyLoop (js_sort byPoint own) noHistory = Inr st" "hs_finalized st = None" "hs_accepted st = []" "hs_lastRemoval st = Some y"
      "deriveObserverHistory policy i own = removedHistory (baseHistory i (js_sort byPoint own)) y"
  | st f where "historyLoop (js_sort byPoint own) noHistory = Inr st" "hs_finalized st = None" "hs_accepted st = []"
      "deriveObserverHistory policy i own = lastFindingHistory (baseHistory i (js_sort byPoint own)) f"
proof (cases "historyLoop (js_sort byPoint own) noHistory")
  case (Inl reason)
  then show thesis using that(1) by (simp add: deriveObserverHistory_def Let_def)
next
  case (Inr st)
  note d = deriveObserverHistory_def [of policy i own, unfolded Let_def Inr sum.case]
  show thesis
  proof (cases "hs_finalized st")
    case (Some x)
    then show thesis using that(2) Inr d by simp
  next
    case None
    show thesis
    proof (cases "length (hs_accepted st) > 1")
      case True
      then show thesis using that(3) Inr None d by simp
    next
      case short: False
      show thesis
      proof (cases "hs_accepted st")
        case (Cons p ps)
        then obtain b x where "hs_accepted st = [(b, x)]" using short by (cases p) simp
        then show thesis using that(4) Inr None d by simp
      next
        case Nil
        show thesis
        proof (cases "hs_lastRemoval st")
          case n: None
          then show thesis using that(6) Inr None Nil d by simp
        next
          case (Some y)
          then show thesis using that(5,6) Inr None Nil d by (cases "hs_removedNow st \<or> isAbsence (vo_finding (last (js_sort byPoint own)))") simp_all
        qed
      qed
    qed
  qed
qed

lemma positive_history:
  assumes "isPositive (deriveObserverHistory policy i own)"
  obtains b x c where "oh_acceptingBlockHash (deriveObserverHistory policy i own) = Some b" "x \<in> set own" "acceptsBlock b x"
    "oh_confirmations (deriveObserverHistory policy i own) = Some c" "cf_blue c = blueOf (vo_finding x)"
    "oh_status (deriveObserverHistory policy i own) = Own_FINALIZED \<longleftrightarrow> isFinality x"
proof (rule history_cases [of own policy i])
  fix st x assume h: "historyLoop (js_sort byPoint own) noHistory = Inr st" "hs_finalized st = Some x"
    "deriveObserverHistory policy i own = finalHistory (baseHistory i (js_sort byPoint own)) x"
  have x: "x \<in> set own" "isFinality x" using history_finalized [OF h(1)] h(2) by simp_all
  then show thesis using that h(3) by (cases "vo_finding x") (auto simp: finalIn_def finalHistory_def acceptedIn_def blueOf_def)
next
  fix st b x assume h: "historyLoop (js_sort byPoint own) noHistory = Inr st" "hs_finalized st = None" "hs_accepted st = [(b, x)]"
    "deriveObserverHistory policy i own = acceptedHistory (baseHistory i (js_sort byPoint own)) b x policy"
  have x: "x \<in> set own" "acceptsBlock b x" "\<not> isFinality x" using history_accepted [OF h(1), of b x] history_finalized [OF h(1)] h(2,3) by auto
  then show thesis using that h(4) by (simp add: acceptedHistory_def Let_def)
next
  fix st y assume h: "historyLoop (js_sort byPoint own) noHistory = Inr st" "hs_lastRemoval st = Some y"
    "deriveObserverHistory policy i own = removedHistory (baseHistory i (js_sort byPoint own)) y"
  then show thesis using assms by (auto simp: removedHistory_def isPositive_def split: TxObservationFinding.splits)
next
  fix f assume "deriveObserverHistory policy i own = lastFindingHistory (baseHistory i (js_sort byPoint own)) f"
  then show thesis using assms lastFinding_status [of i "js_sort byPoint own" f] by (auto simp: isPositive_def)
qed (use assms in \<open>auto simp: isPositive_def\<close>)

text \<open>A history is \<open>REORGED\<close> only by a block that this observer saw accepting the transaction and later saw removed, and when every
  acceptance it saw was withdrawn later.\<close>

lemma reorged_history:
  assumes "oh_status (deriveObserverHistory policy i own) = Own_REORGED"
  obtains b us y vs where "oh_acceptingBlockHash (deriveObserverHistory policy i own) = Some b" "js_sort byPoint own = us @ y # vs"
    "vo_finding y = ChainRemoved b" "\<exists>x \<in> set us. acceptsBlock b x"
    "\<forall>us' x vs' c. js_sort byPoint own = us' @ x # vs' \<and> acceptsBlock c x \<longrightarrow> (\<exists>w \<in> set vs'. withdraws c w)"
proof (rule history_cases [of own policy i])
  fix st x assume h: "historyLoop (js_sort byPoint own) noHistory = Inr st" "hs_finalized st = Some x"
    "deriveObserverHistory policy i own = finalHistory (baseHistory i (js_sort byPoint own)) x"
  then show thesis using assms by (auto simp: finalHistory_def split: TxObservationFinding.splits)
next
  fix st b x assume "deriveObserverHistory policy i own = acceptedHistory (baseHistory i (js_sort byPoint own)) b x policy"
  then show thesis using assms by (auto simp: acceptedHistory_def Let_def split: if_splits)
next
  fix st y assume h: "historyLoop (js_sort byPoint own) noHistory = Inr st" "hs_accepted st = []" "hs_lastRemoval st = Some y"
    "deriveObserverHistory policy i own = removedHistory (baseHistory i (js_sort byPoint own)) y"
  obtain us vs b where r: "js_sort byPoint own = us @ y # vs" "vo_finding y = ChainRemoved b" "\<exists>x \<in> set us. acceptsBlock b x"
    using history_removal [OF h(1,3)] by blast
  have "oh_acceptingBlockHash (deriveObserverHistory policy i own) = Some b" using h(4) r(2) by (simp add: removedHistory_def)
  then show thesis using that r history_withdrawn [OF h(1)] h(2) by (metis empty_iff image_empty list.set(1))
next
  fix f assume "deriveObserverHistory policy i own = lastFindingHistory (baseHistory i (js_sort byPoint own)) f"
  then show thesis using assms lastFinding_status [of i "js_sort byPoint own" f] by auto
qed (use assms in auto)


subsection \<open>One history for every observer\<close>

definition ownOf :: "string \<Rightarrow> ValidObservation list \<Rightarrow> ValidObservation list" where
  "ownOf i xs = filter (\<lambda>x. vo_observerId x = i) xs"

lemma grouped:
  "distinct (map fst (foldl groupObservation [] xs)) \<and>
   map_of (foldl groupObservation [] xs) i = (if ownOf i xs = [] then None else Some (ownOf i xs))"
proof (induction xs arbitrary: i rule: rev_induct)
  case (snoc x xs)
  have "distinct (map fst (foldl groupObservation [] xs))" using snoc by blast
  then show ?case using snoc [of i] snoc [of "vo_observerId x"]
    by (auto simp: groupObservation_def Let_def distinct_update update_conv ownOf_def split: option.splits)
qed (simp add: ownOf_def)

lemma mem_histories:
  "h \<in> set (historiesOf policy network) \<longleftrightarrow> (\<exists>x \<in> set network. h = deriveObserverHistory policy (vo_observerId x) (ownOf (vo_observerId x) network))"
proof -
  let ?g = "foldl groupObservation [] network"
  have "(i, g) \<in> set ?g \<longleftrightarrow> g = ownOf i network \<and> g \<noteq> []" for i g
    using grouped [of network i] by (auto simp: map_of_eq_Some_iff [symmetric] split: if_splits)
  moreover have "ownOf i network \<noteq> [] \<longleftrightarrow> (\<exists>x \<in> set network. vo_observerId x = i)" for i by (auto simp: ownOf_def filter_empty_conv)
  ultimately show ?thesis by (force simp: historiesOf_def)
qed

subsection \<open>Coherent evidence\<close>

text \<open>What an observation says about the depth of the accepting block at its point.\<close>

definition observedDepth :: "TxObservation \<Rightarrow> int" where
  "observedDepth ob = score (op_sinkBlueScore (to_point ob)) -
     score (case to_finding ob of ChainAccepted _ blue _ _ _ _ \<Rightarrow> blue | FinalityReached _ blue _ _ \<Rightarrow> blue | _ \<Rightarrow> [])"

lemma score_nonneg: "0 \<le> score s"
  by (simp add: score_def decimal_val_def split: option.splits)

lemma score_int_str: "0 \<le> m \<Longrightarrow> score (int_str m) = m"
  by (simp add: score_def int_str_def decimal_val_nat_str)

lemma coherent_depth:
  assumes "findingIncoherence ob = None" "acceptedIn b (to_finding ob)"
  shows "score (blueOf (to_finding ob)) = observedDepth ob"
  using assms
  by (auto simp: findingIncoherence_def acceptedIn_def blueOf_def observedDepth_def orElse_def acceptanceIncoherence_def Let_def
      split: TxObservationFinding.splits option.splits if_splits)

lemma coherent_finality:
  assumes "findingIncoherence ob = None" "finalIn (to_finding ob)"
  shows "\<exists>n. finalityDepthFor (ob_networkId (to_observer ob)) = Some n \<and> n \<le> observedDepth ob"
  using assms
  by (auto simp: findingIncoherence_def finalIn_def observedDepth_def orElse_def acceptanceIncoherence_def finalityIncoherence_def Let_def
      split: TxObservationFinding.splits option.splits if_splits)

text \<open>An artifact that counts as evidence about a transaction: an observation with a verified identity under the current version,
  a valid schema, coherent in itself, about this transaction, and not naming another submission than the one given.\<close>

definition is_evidence :: "(string \<Rightarrow> string) \<Rightarrow> (ZodType \<Rightarrow> json \<Rightarrow> bool) \<Rightarrow> string \<Rightarrow> json \<Rightarrow> json \<Rightarrow> bool" where
  "is_evidence sha accepts txId submission r \<longleftrightarrow> jget r ''schema'' = JStr schemaTxObservationV1 \<and> identity sha r \<noteq> None \<and>
     readDeclaredHashVersion r = Some CURRENT_HASH_VERSION \<and> accepts TxObservationSchema r \<and> checkTxObservationCoherence accepts r = None \<and>
     to_txId (observationOf r) = txId \<and>
     \<not> (\<exists>n m oc e ig. to_submissionArtifactId (observationOf r) = Some n \<and> classifySubmission sha accepts txId submission = Inr (Submitted m oc e, ig) \<and> n \<noteq> m)"

lemma evidence_counts:
  assumes "classifySubmission sha accepts txId submission = Inr (s, ig)"
  shows "is_evidence sha accepts txId submission r \<longleftrightarrow> (\<exists>x. classifyObservation sha accepts txId s r = Inr (Inr x))"
proof
  assume e: "is_evidence sha accepts txId submission r"
  then obtain i scope where i: "checkArtifactIdentity sha r = Inr (Inr (i, scope))" unfolding is_evidence_def by (auto simp: identity_Some)
  then have "fullIdentity sha r = Inr (Inr i)" using e by (simp add: fullIdentity_def is_evidence_def)
  moreover have "\<not> (case (to_submissionArtifactId (observationOf r), s) of (Some n, Submitted m _ _) \<Rightarrow> n \<noteq> m | _ \<Rightarrow> False)"
    using e assms by (auto simp: is_evidence_def split: option.splits Submission.splits)
  ultimately show "\<exists>x. classifyObservation sha accepts txId s r = Inr (Inr x)"
    using e by (simp add: classifyObservation_def is_evidence_def Let_def)
next
  assume "\<exists>x. classifyObservation sha accepts txId s r = Inr (Inr x)"
  then obtain x where x: "classifyObservation sha accepts txId s r = Inr (Inr x)" by blast
  note c = classifyObservation_Inr [OF x]
  obtain f where f: "fullIdentity sha r = Inr f" using x by (cases "fullIdentity sha r") (auto simp: classifyObservation_def split: if_splits)
  have "jget r ''schema'' = JStr schemaTxObservationV1" using x by (auto simp: classifyObservation_def split: if_splits)
  moreover have "\<not> (\<exists>n m oc e ig. to_submissionArtifactId (observationOf r) = Some n \<and> s = Submitted m oc e \<and> n \<noteq> m)"
    using x f by (cases f) (auto simp: classifyObservation_def Let_def split: if_splits option.splits prod.splits)
  ultimately show "is_evidence sha accepts txId submission r" using c assms by (simp add: is_evidence_def checkTxObservationCoherence_def)
qed

text \<open>Where an observation stands in the order of its observer.\<close>

definition pointKey :: "(string \<Rightarrow> string) \<Rightarrow> json \<Rightarrow> int \<times> string \<times> string" where
  "pointKey sha r = (score (op_sinkBlueScore (to_point (observationOf r))), to_observedAt (observationOf r), the (identity sha r))"

lemma mem_collected:
  assumes "collectObservations sha accepts txId s obs = Inr (valid, ig)"
  shows "x \<in> set valid \<longleftrightarrow> (\<exists>r \<in> set obs. classifyObservation sha accepts txId s r = Inr (Inr x))"
proof -
  obtain cs where cs: "mapE (classifyObservation sha accepts txId s) obs = Inr cs"
    and v: "valid = js_sort byPoint (List.map_filter (\<lambda>c. case c of Inr x \<Rightarrow> Some x | Inl _ \<Rightarrow> None) cs)"
    using assms by (auto simp: collectObservations_def)
  obtain g where g: "\<forall>r \<in> set obs. classifyObservation sha accepts txId s r = Inr (g r)" "cs = map g obs" using mapE_Inr [OF cs] by blast
  show ?thesis unfolding v set_js_sort mem_valid g(2) using g(1) by (auto simp: image_iff) metis
qed

lemma collected_evidence:
  assumes "classifySubmission sha accepts txId submission = Inr (s, ig0)" "collectObservations sha accepts txId s obs = Inr (valid, ig)" "x \<in> set valid"
  shows "\<exists>r \<in> set obs. is_evidence sha accepts txId submission r \<and> vo_o x = observationOf r \<and> findingIncoherence (vo_o x) = None \<and>
    pointKey sha r = (vo_sinkBlue x, to_observedAt (vo_o x), vo_artifactId x)"
proof -
  obtain r where r: "r \<in> set obs" "classifyObservation sha accepts txId s r = Inr (Inr x)" using mem_collected [OF assms(2)] assms(3) by blast
  note x = classifyObservation_Inr [OF r(2)]
  have "is_evidence sha accepts txId submission r" using evidence_counts [OF assms(1)] r(2) by blast
  moreover have "pointKey sha r = (vo_sinkBlue x, to_observedAt (vo_o x), vo_artifactId x)" using x by (simp add: pointKey_def)
  ultimately show ?thesis using r(1) x(1,5) by blast
qed

subsection \<open>Statuses on the chain\<close>

lemma statusResult_sel [simp]:
  "ds_status (statusResult si k ds hs rs) = k" "ds_perObserver (statusResult si k ds hs rs) = hs" "ds_policy (statusResult si k ds hs rs) = si_policy si"
  by (simp_all add: statusResult_def)

lemma reorged_kind: "ds_status (reorgedStatus si network hs rs) \<in> {CONFLICTING_OBSERVATIONS, REORGED}"
  by (simp add: reorgedStatus_def Let_def)

lemma mempool_kind: "ds_status (mempoolStatus si network hs rs) \<in> {CONFLICTING_OBSERVATIONS, MEMPOOL_ACCEPTED, MEMPOOL_ORPHAN}"
  by (simp add: mempoolStatus_def)

lemma submission_kind: "ds_status (submissionStatus si hs) \<in> {SUBMITTED, REJECTED_BY_NODE, INSUFFICIENT_EVIDENCE}"
  unfolding submissionStatus_def Let_def by (cases "si_submission si") (auto split: SubmitOutcome.split)

lemma perObserver_sel [simp]:
  "ds_perObserver (reorgedStatus si network hs rs) = hs" "ds_perObserver (mempoolStatus si network hs rs) = hs"
  "ds_perObserver (agreedStatus si network hs current b) = hs" "ds_perObserver (submissionStatus si hs) = hs"
  unfolding reorgedStatus_def mempoolStatus_def agreedStatus_def submissionStatus_def Let_def
  by (auto split: list.split Submission.split SubmitOutcome.split)

lemma network_perObserver: "ds_perObserver (networkStatus si network) = historiesOf (si_policy si) network"
  by (simp add: networkStatus_def positiveStatus_def Let_def)

lemma agreed_kind: "ds_status (agreedStatus si network hs current b) \<in> {FINALIZED, CONFIRMED, ACCEPTED}"
  unfolding agreedStatus_def Let_def by (auto split: list.split)

lemma other_kinds [simp]:
  "ds_status (reorgedStatus si network hs rs) \<noteq> ACCEPTED" "ds_status (reorgedStatus si network hs rs) \<noteq> CONFIRMED"
  "ds_status (reorgedStatus si network hs rs) \<noteq> FINALIZED" "ds_status (mempoolStatus si network hs rs) \<noteq> ACCEPTED"
  "ds_status (mempoolStatus si network hs rs) \<noteq> CONFIRMED" "ds_status (mempoolStatus si network hs rs) \<noteq> FINALIZED"
  "ds_status (mempoolStatus si network hs rs) \<noteq> REORGED" "ds_status (submissionStatus si hs) \<noteq> ACCEPTED"
  "ds_status (submissionStatus si hs) \<noteq> CONFIRMED" "ds_status (submissionStatus si hs) \<noteq> FINALIZED" "ds_status (submissionStatus si hs) \<noteq> REORGED"
  "ds_status (agreedStatus si network hs current b) \<noteq> REORGED"
  using reorged_kind [of si network hs rs] mempool_kind [of si network hs rs] submission_kind [of si hs] agreed_kind [of si network hs current b] by auto

lemma network_on_chain:
  assumes "ds_status (networkStatus si network) \<in> {ACCEPTED, CONFIRMED, FINALIZED}"
  defines "hs \<equiv> historiesOf (si_policy si) network"
  shows "networkStatus si network = agreedStatus si network hs (filter isPositive hs) (hd (blocksOf (filter isPositive hs)))"
    "filter isPositive hs \<noteq> []" "length (blocksOf (filter isPositive hs)) \<le> 1"
    "\<forall>h \<in> set hs. \<not> isNegative h \<and> oh_status h \<noteq> Own_CONFLICTING_OBSERVATIONS"
proof -
  have conflict: "filter (\<lambda>h. oh_status h = Own_CONFLICTING_OBSERVATIONS) hs = []"
    using assms by (auto simp: networkStatus_def Let_def split: if_splits)
  show positive: "filter isPositive hs \<noteq> []"
    using assms conflict by (auto simp: networkStatus_def Let_def split: if_splits)
  have s: "networkStatus si network = positiveStatus si network hs"
    using conflict positive by (simp add: networkStatus_def Let_def hs_def)
  then have neg: "filter isNegative hs = []" "length (blocksOf (filter isPositive hs)) \<le> 1"
    using assms(1) by (auto simp: positiveStatus_def Let_def split: if_splits)
  show "networkStatus si network = agreedStatus si network hs (filter isPositive hs) (hd (blocksOf (filter isPositive hs)))"
    using s neg by (simp add: positiveStatus_def Let_def)
  show "length (blocksOf (filter isPositive hs)) \<le> 1" "\<forall>h \<in> set hs. \<not> isNegative h \<and> oh_status h \<noteq> Own_CONFLICTING_OBSERVATIONS"
    using neg conflict by (auto simp: filter_empty_conv)
qed

lemma minBlueOf_Some:
  "\<exists>m'. minBlueOf hs (Some m) = Some m' \<and> m' \<le> m \<and> (\<forall>h \<in> set hs. m' \<le> blueConfirmations h) \<and> (m' = m \<or> (\<exists>h \<in> set hs. m' = blueConfirmations h))"
proof (induction hs arbitrary: m)
  case (Cons h hs)
  show ?case
    using Cons [of m] Cons [of "blueConfirmations h"] by (cases "blueConfirmations h < m") fastforce+
qed simp

lemma minBlueOf_None:
  assumes "hs \<noteq> []"
  obtains m where "minBlueOf hs None = Some m" "\<forall>h \<in> set hs. m \<le> blueConfirmations h" "\<exists>h \<in> set hs. m = blueConfirmations h"
  using assms minBlueOf_Some [of "tl hs" "blueConfirmations (hd hs)"] by (cases hs) auto

lemma one_block:
  assumes "length (blocksOf hs) \<le> 1" "h \<in> set hs" "oh_acceptingBlockHash h = Some b"
  shows "hd (blocksOf hs) = b"
proof -
  have "b \<in> set (blocksOf hs)" using assms(2,3) by (force simp: blocksOf_def List.map_filter_def)
  then show ?thesis using assms(1) by (cases "blocksOf hs") (auto simp: le_Suc_eq)
qed

lemma agreedStatus_sel:
  assumes "minBlueOf current None = Some m"
  shows "ds_acceptingBlockHash (agreedStatus si network hs current b) = Some b"
    "ds_confirmations (agreedStatus si network hs current b) = Some \<lparr>cf_blue = int_str m, cf_daa = minDaaOf current\<rparr>"
    "ds_policy (agreedStatus si network hs current b) = si_policy si"
    "ds_status (agreedStatus si network hs current b) = FINALIZED \<longleftrightarrow> (\<exists>h \<in> set current. oh_status h = Own_FINALIZED)"
    "ds_status (agreedStatus si network hs current b) = CONFIRMED \<Longrightarrow> sp_minConfirmations (si_policy si) \<le> m"
    "ds_status (agreedStatus si network hs current b) = ACCEPTED \<Longrightarrow> m < sp_minConfirmations (si_policy si)"
  unfolding agreedStatus_def Let_def assms option.case
  by (auto simp: filter_empty_conv filter_eq_Cons_iff split: list.splits if_splits)


lemma derive_parts:
  assumes "deriveTxStatus sha accepts txId submission obs policy = Inr d"
  obtains s si valid ig0 ig where "classifySubmission sha accepts txId submission = Inr (s, ig0)"
    "collectObservations sha accepts txId s obs = Inr (valid, ig)" "d = combineEvidence si valid"
    "si_policy si = (case policy of Some p \<Rightarrow> p | None \<Rightarrow> TX_STATUS_POLICY_HARDKAS_DEFAULT_V1)"
    "ds_status d \<notin> {SYNTHETIC_EXECUTED, CONFLICTING_OBSERVATIONS} \<Longrightarrow> d = networkStatus si (filter (\<lambda>x. \<not> isSynthetic (vo_finding x)) valid)"
proof -
  obtain s ig0 valid ig where s: "classifySubmission sha accepts txId submission = Inr (s, ig0)" "collectObservations sha accepts txId s obs = Inr (valid, ig)"
    and d: "d = combineEvidence \<lparr>si_txId = txId, si_policy = (case policy of Some p \<Rightarrow> p | None \<Rightarrow> TX_STATUS_POLICY_HARDKAS_DEFAULT_V1),
      si_submission = s, si_ignored = ig0 @ ig\<rparr> valid" (is "d = combineEvidence ?si valid")
    using assms by (auto simp: deriveTxStatus_def)
  show thesis by (rule that [OF s d]) (auto simp: d combineEvidence_def Let_def split: if_splits)
qed

text \<open>The observation behind a positive history.\<close>

lemma positive_evidence:
  assumes "classifySubmission sha accepts txId submission = Inr (s, ig0)" "collectObservations sha accepts txId s obs = Inr (valid, ig)" "h \<in> set (historiesOf policy (filter P valid))" "isPositive h"
  obtains b r where "oh_acceptingBlockHash h = Some b" "r \<in> set obs" "is_evidence sha accepts txId submission r" "acceptedIn b (to_finding (observationOf r))"
    "blueConfirmations h = observedDepth (observationOf r)"
    "oh_status h = Own_FINALIZED \<longleftrightarrow> finalIn (to_finding (observationOf r))"
    "ob_observerId (to_observer (observationOf r)) = oh_observerId h" "findingIncoherence (observationOf r) = None"
proof -
  obtain i where h: "h = deriveObserverHistory policy i (ownOf i (filter P valid))" using assms(3) unfolding mem_histories by blast
  obtain b x c where x: "oh_acceptingBlockHash h = Some b" "x \<in> set (ownOf i (filter P valid))" "acceptsBlock b x"
    "oh_confirmations h = Some c" "cf_blue c = blueOf (vo_finding x)" "oh_status h = Own_FINALIZED \<longleftrightarrow> isFinality x"
    using positive_history [OF assms(4) [unfolded h]] unfolding h [symmetric] by metis
  have "x \<in> set valid" "vo_observerId x = i" using x(2) by (simp_all add: ownOf_def)
  then obtain r where r: "r \<in> set obs" "is_evidence sha accepts txId submission r" "vo_o x = observationOf r" "findingIncoherence (vo_o x) = None"
    using collected_evidence [OF assms(1,2)] by blast
  have "oh_observerId h = i" using h by simp
  moreover have "blueConfirmations h = observedDepth (observationOf r)"
    using coherent_depth [OF r(4) x(3)] x(4,5) by (simp add: blueConfirmations_def r(3))
  ultimately show thesis using that [OF x(1) r(1,2)] x(3,6) \<open>vo_observerId x = i\<close> r(3,4) by simp
qed

lemma on_chain_evidence:
  assumes "deriveTxStatus sha accepts txId submission obs policy = Inr d" "ds_status d \<in> {ACCEPTED, CONFIRMED, FINALIZED}"
  shows "\<exists>b c. ds_acceptingBlockHash d = Some b \<and> ds_confirmations d = Some c \<and>
    (\<exists>r \<in> set obs. is_evidence sha accepts txId submission r \<and> acceptedIn b (to_finding (observationOf r)) \<and> observedDepth (observationOf r) = score (cf_blue c)) \<and>
    (\<forall>h \<in> set (ds_perObserver d). \<not> isNegative h \<and> oh_status h \<noteq> Own_CONFLICTING_OBSERVATIONS \<and>
       (isPositive h \<longrightarrow> oh_acceptingBlockHash h = Some b \<and> score (cf_blue c) \<le> blueConfirmations h)) \<and>
    (ds_status d = CONFIRMED \<longrightarrow> sp_minConfirmations (ds_policy d) \<le> score (cf_blue c)) \<and>
    (ds_status d = ACCEPTED \<longrightarrow> score (cf_blue c) < sp_minConfirmations (ds_policy d)) \<and>
    (ds_status d = FINALIZED \<longrightarrow> (\<exists>r \<in> set obs. is_evidence sha accepts txId submission r \<and> acceptedIn b (to_finding (observationOf r)) \<and>
       (\<exists>n. finalityDepthFor (ob_networkId (to_observer (observationOf r))) = Some n \<and> n \<le> observedDepth (observationOf r))))"
  using assms(1)
proof (rule derive_parts)
  fix s valid ig0 ig and si :: StatusInput
  let ?network = "filter (\<lambda>x. \<not> isSynthetic (vo_finding x)) valid"
  define hs where "hs = historiesOf (si_policy si) ?network"
  let ?current = "filter isPositive hs"
  assume col: "classifySubmission sha accepts txId submission = Inr (s, ig0)" "collectObservations sha accepts txId s obs = Inr (valid, ig)"
    and "ds_status d \<notin> {SYNTHETIC_EXECUTED, CONFLICTING_OBSERVATIONS} \<Longrightarrow> d = networkStatus si ?network"
  then have d: "d = networkStatus si ?network" using assms(2) by auto
  note on = network_on_chain [OF assms(2) [unfolded d], folded hs_def]
  obtain m where m: "minBlueOf ?current None = Some m" "\<forall>h \<in> set ?current. m \<le> blueConfirmations h" "\<exists>h \<in> set ?current. m = blueConfirmations h"
    by (rule minBlueOf_None [OF on(2)])
  note ag = agreedStatus_sel [OF m(1), of si ?network hs "hd (blocksOf ?current)", folded on(1), folded d]
  have m0: "score (int_str m) = m" using m(3) score_nonneg by (auto simp: blueConfirmations_def score_int_str)
  note ev = positive_evidence [OF col, of _ "si_policy si" "\<lambda>x. \<not> isSynthetic (vo_finding x)", folded hs_def]
  have block: "oh_acceptingBlockHash h = Some (hd (blocksOf ?current))" if h: "h \<in> set hs" "isPositive h" for h
    using h
  proof (rule ev)
    fix b assume "oh_acceptingBlockHash h = Some b"
    then show ?thesis using one_block [OF on(3), of h] h by simp
  qed
  have found: "\<exists>r \<in> set obs. is_evidence sha accepts txId submission r \<and> acceptedIn (hd (blocksOf ?current)) (to_finding (observationOf r)) \<and>
      observedDepth (observationOf r) = blueConfirmations h \<and>
      (oh_status h = Own_FINALIZED \<longrightarrow> (\<exists>n. finalityDepthFor (ob_networkId (to_observer (observationOf r))) = Some n \<and> n \<le> observedDepth (observationOf r)))"
    if h: "h \<in> set hs" "isPositive h" for h
    using h
  proof (rule ev)
    fix b r assume r: "oh_acceptingBlockHash h = Some b" "r \<in> set obs" "is_evidence sha accepts txId submission r" "acceptedIn b (to_finding (observationOf r))"
      "blueConfirmations h = observedDepth (observationOf r)" "oh_status h = Own_FINALIZED \<longleftrightarrow> finalIn (to_finding (observationOf r))"
      "findingIncoherence (observationOf r) = None"
    have "b = hd (blocksOf ?current)" using block [OF h] r(1) by simp
    then show ?thesis using r coherent_finality [OF r(7)] by auto
  qed
  have depth: "\<exists>r \<in> set obs. is_evidence sha accepts txId submission r \<and> acceptedIn (hd (blocksOf ?current)) (to_finding (observationOf r)) \<and>
      observedDepth (observationOf r) = m"
  proof -
    obtain h where "h \<in> set hs" "isPositive h" "m = blueConfirmations h" using m(3) by auto
    then show ?thesis using found [of h] by blast
  qed
  have final: "\<exists>r \<in> set obs. is_evidence sha accepts txId submission r \<and> acceptedIn (hd (blocksOf ?current)) (to_finding (observationOf r)) \<and>
      (\<exists>n. finalityDepthFor (ob_networkId (to_observer (observationOf r))) = Some n \<and> n \<le> observedDepth (observationOf r))" if fin: "ds_status d = FINALIZED"
  proof -
    obtain h where "h \<in> set hs" "isPositive h" "oh_status h = Own_FINALIZED" using fin ag(4) by auto
    then show ?thesis using found [of h] by blast
  qed
  have views: "\<not> isNegative h \<and> oh_status h \<noteq> Own_CONFLICTING_OBSERVATIONS \<and>
      (isPositive h \<longrightarrow> oh_acceptingBlockHash h = Some (hd (blocksOf ?current)) \<and> m \<le> blueConfirmations h)" if "h \<in> set hs" for h
    using that on(4) block [of h] m(2) by simp
  have "ds_perObserver d = hs" unfolding d network_perObserver hs_def ..
  then show ?thesis using ag depth final views m0 by simp
qed

text \<open>C12: a status that places the transaction on the chain rests on evidence. It names a block and a depth: some artifact that
  counts as evidence sees that block accept the transaction at exactly that depth below its sink, no observer contradicts it,
  and no observer's view is shallower; \<open>CONFIRMED\<close> and \<open>ACCEPTED\<close> compare the depth with the policy, and \<open>FINALIZED\<close> rests on
  evidence that the block is at least the verified finality depth of the network below the sink.\<close>

theorem on_chain_status_sound:
  assumes "deriveTxStatus sha accepts txId submission obs policy = Inr d" "ds_status d \<in> {ACCEPTED, CONFIRMED, FINALIZED}"
  shows "\<exists>b c. ds_acceptingBlockHash d = Some b \<and> ds_confirmations d = Some c \<and>
    (\<exists>r \<in> set obs. is_evidence sha accepts txId submission r \<and> acceptedIn b (to_finding (observationOf r)) \<and> observedDepth (observationOf r) = score (cf_blue c)) \<and>
    (\<forall>h \<in> set (ds_perObserver d). \<not> isNegative h \<and> oh_status h \<noteq> Own_CONFLICTING_OBSERVATIONS \<and>
       (isPositive h \<longrightarrow> oh_acceptingBlockHash h = Some b \<and> score (cf_blue c) \<le> blueConfirmations h)) \<and>
    (ds_status d = CONFIRMED \<longrightarrow> sp_minConfirmations (ds_policy d) \<le> score (cf_blue c)) \<and>
    (ds_status d = ACCEPTED \<longrightarrow> score (cf_blue c) < sp_minConfirmations (ds_policy d)) \<and>
    (ds_status d = FINALIZED \<longrightarrow> (\<exists>r \<in> set obs. is_evidence sha accepts txId submission r \<and> acceptedIn b (to_finding (observationOf r)) \<and>
       (\<exists>n. finalityDepthFor (ob_networkId (to_observer (observationOf r))) = Some n \<and> n \<le> observedDepth (observationOf r))))"
  using assms by (rule on_chain_evidence)


subsection \<open>Reorganizations\<close>

lemma network_reorged:
  assumes "ds_status (networkStatus si network) = REORGED"
  defines "hs \<equiv> historiesOf (si_policy si) network"
  shows "\<forall>h \<in> set hs. \<not> isPositive h \<and> oh_status h \<noteq> Own_CONFLICTING_OBSERVATIONS"
    "\<exists>h \<in> set hs. oh_status h = Own_REORGED \<and> (\<forall>b. oh_acceptingBlockHash h = Some b \<and> b \<noteq> [] \<longrightarrow> ds_acceptingBlockHash (networkStatus si network) = Some b)"
proof -
  let ?r = "filter (\<lambda>h. oh_status h = Own_REORGED) hs"
  have conflict: "filter (\<lambda>h. oh_status h = Own_CONFLICTING_OBSERVATIONS) hs = []" using assms by (auto simp: networkStatus_def Let_def split: if_splits)
  have positive: "filter isPositive hs = []" using assms conflict by (auto simp: networkStatus_def positiveStatus_def Let_def split: if_splits)
  have reorged: "?r \<noteq> []" using assms conflict positive by (auto simp: networkStatus_def Let_def split: if_splits)
  have s: "networkStatus si network = reorgedStatus si network hs ?r" using conflict positive reorged by (simp add: networkStatus_def Let_def hs_def)
  have h: "hd ?r \<in> set hs" "oh_status (hd ?r) = Own_REORGED" using hd_in_set [OF reorged] by auto
  have "ds_acceptingBlockHash (networkStatus si network) = Some b" if "oh_acceptingBlockHash (hd ?r) = Some b" "b \<noteq> []" for b
    using assms(1) that unfolding s by (auto simp: reorgedStatus_def Let_def split: if_splits)
  then show "\<exists>h \<in> set hs. oh_status h = Own_REORGED \<and> (\<forall>b. oh_acceptingBlockHash h = Some b \<and> b \<noteq> [] \<longrightarrow> ds_acceptingBlockHash (networkStatus si network) = Some b)"
    using h by blast
  show "\<forall>h \<in> set hs. \<not> isPositive h \<and> oh_status h \<noteq> Own_CONFLICTING_OBSERVATIONS" using conflict positive by (auto simp: filter_empty_conv)
qed

text \<open>An artifact that counts as evidence and comes from the given observer.\<close>

definition seen_by :: "(string \<Rightarrow> string) \<Rightarrow> (ZodType \<Rightarrow> json \<Rightarrow> bool) \<Rightarrow> string \<Rightarrow> json \<Rightarrow> string \<Rightarrow> json \<Rightarrow> bool" where
  "seen_by sha accepts txId submission i r \<longleftrightarrow> is_evidence sha accepts txId submission r \<and> ob_observerId (to_observer (observationOf r)) = i"

text \<open>C14: \<open>REORGED\<close> is never concluded across observers. It rests on one observer that saw a block accept the transaction and, at a
  point that is not earlier, saw this very block removed, and for which every acceptance it ever saw was withdrawn at a point
  that is not earlier; no observer still sees the transaction on the chain, and the status names that block.\<close>

theorem reorged_is_own_history:
  assumes "deriveTxStatus sha accepts txId submission obs policy = Inr d" "ds_status d = REORGED"
  shows "(\<forall>h \<in> set (ds_perObserver d). \<not> isPositive h \<and> oh_status h \<noteq> Own_CONFLICTING_OBSERVATIONS) \<and>
    (\<exists>i b. (\<exists>x \<in> set obs. \<exists>y \<in> set obs. seen_by sha accepts txId submission i x \<and> seen_by sha accepts txId submission i y \<and>
         acceptedIn b (to_finding (observationOf x)) \<and> to_finding (observationOf y) = ChainRemoved b \<and> pointKey sha x \<le> pointKey sha y) \<and>
       (\<forall>x \<in> set obs. \<forall>c. seen_by sha accepts txId submission i x \<and> acceptedIn c (to_finding (observationOf x)) \<longrightarrow>
         (\<exists>w \<in> set obs. seen_by sha accepts txId submission i w \<and> withdrawnIn c (to_finding (observationOf w)) \<and> pointKey sha x \<le> pointKey sha w)) \<and>
       (b \<noteq> [] \<longrightarrow> ds_acceptingBlockHash d = Some b))"
  using assms(1)
proof (rule derive_parts)
  fix s valid ig0 ig and si :: StatusInput
  let ?network = "filter (\<lambda>x. \<not> isSynthetic (vo_finding x)) valid"
  assume col: "classifySubmission sha accepts txId submission = Inr (s, ig0)" "collectObservations sha accepts txId s obs = Inr (valid, ig)"
    and "ds_status d \<notin> {SYNTHETIC_EXECUTED, CONFLICTING_OBSERVATIONS} \<Longrightarrow> d = networkStatus si ?network"
  then have d: "d = networkStatus si ?network" using assms(2) by auto
  note re = network_reorged [OF assms(2) [unfolded d]]
  obtain h where h: "oh_status h = Own_REORGED" "\<forall>b. oh_acceptingBlockHash h = Some b \<and> b \<noteq> [] \<longrightarrow> ds_acceptingBlockHash d = Some b"
    and "h \<in> set (historiesOf (si_policy si) ?network)" using re(2) unfolding d by blast
  then obtain i where i: "h = deriveObserverHistory (si_policy si) i (ownOf i ?network)" unfolding mem_histories by blast
  define own where "own = js_sort byPoint (ownOf i ?network)"
  obtain b us y vs where r: "oh_acceptingBlockHash h = Some b" "own = us @ y # vs" "vo_finding y = ChainRemoved b" "\<exists>x \<in> set us. acceptsBlock b x"
    and w: "\<forall>us' x vs' c. own = us' @ x # vs' \<and> acceptsBlock c x \<longrightarrow> (\<exists>w \<in> set vs'. withdraws c w)"
    using reorged_history [OF h(1) [unfolded i]] unfolding i [symmetric] own_def [symmetric] by metis
  have sorted: "sorted_wrt (\<lambda>x y. byPoint x y \<le> 0) own" unfolding own_def by (rule point_order.js_sort_sorted)
  have mem: "x \<in> set own \<longleftrightarrow> x \<in> set valid \<and> vo_observerId x = i \<and> \<not> isSynthetic (vo_finding x)" for x by (auto simp: own_def ownOf_def)
  have src: "\<exists>r \<in> set obs. seen_by sha accepts txId submission i r \<and> vo_o x = observationOf r \<and> pointKey sha r = (vo_sinkBlue x, to_observedAt (vo_o x), vo_artifactId x)"
    if "x \<in> set own" for x
    using collected_evidence [OF col, of x] that unfolding mem seen_by_def by metis
  have before: "\<exists>r \<in> set obs. \<exists>r' \<in> set obs. seen_by sha accepts txId submission i r \<and> seen_by sha accepts txId submission i r' \<and>
      vo_o x = observationOf r \<and> vo_o z = observationOf r' \<and> pointKey sha r \<le> pointKey sha r' \<and>
      pointKey sha r = (vo_sinkBlue x, to_observedAt (vo_o x), vo_artifactId x)" if xz: "x \<in> set own" "z \<in> set own" "byPoint x z \<le> 0" for x z
    using src [OF xz(1)] src [OF xz(2)] xz(3) unfolding point_order.cmp_le_key by metis
  obtain x where x: "x \<in> set us" "acceptsBlock b x" using r(4) by blast
  have lost: "\<exists>x \<in> set obs. \<exists>y \<in> set obs. seen_by sha accepts txId submission i x \<and> seen_by sha accepts txId submission i y \<and>
      acceptedIn b (to_finding (observationOf x)) \<and> to_finding (observationOf y) = ChainRemoved b \<and> pointKey sha x \<le> pointKey sha y"
    using before [of x y] x r(2,3) sorted by (auto simp: sorted_wrt_append) metis
  have withdrawn: "\<exists>w \<in> set obs. seen_by sha accepts txId submission i w \<and> withdrawnIn c (to_finding (observationOf w)) \<and> pointKey sha a \<le> pointKey sha w"
    if a: "a \<in> set obs" "seen_by sha accepts txId submission i a" "acceptedIn c (to_finding (observationOf a))" for a c
  proof -
    obtain z where z: "classifyObservation sha accepts txId s a = Inr (Inr z)" using a(2) evidence_counts [OF col(1)] unfolding seen_by_def by blast
    note za = classifyObservation_Inr [OF z]
    have "z \<in> set own"
      using mem_collected [OF col(2)] z a za(1) unfolding mem seen_by_def by (auto simp: acceptedIn_def isSynthetic_def split: TxObservationFinding.splits)
    then obtain us' vs' where split: "own = us' @ z # vs'" by (meson split_list)
    then obtain w' where w': "w' \<in> set vs'" "withdraws c w'" using w a(3) za(1) by metis
    then have "byPoint z w' \<le> 0" "w' \<in> set own" using sorted split by (auto simp: sorted_wrt_append)
    then have le: "(vo_sinkBlue z, to_observedAt (vo_o z), vo_artifactId z) \<le> (vo_sinkBlue w', to_observedAt (vo_o w'), vo_artifactId w')"
      by (simp only: point_order.cmp_le_key)
    obtain r where r: "r \<in> set obs" "seen_by sha accepts txId submission i r" "vo_o w' = observationOf r"
      "pointKey sha r = (vo_sinkBlue w', to_observedAt (vo_o w'), vo_artifactId w')" using src [OF \<open>w' \<in> set own\<close>] by blast
    have "pointKey sha a = (vo_sinkBlue z, to_observedAt (vo_o z), vo_artifactId z)" using za by (simp add: pointKey_def)
    then have "pointKey sha a \<le> pointKey sha r" using le r(4) by (simp only:)
    then show ?thesis using r(1,2) w'(2) unfolding r(3) by blast
  qed
  have "ds_perObserver d = historiesOf (si_policy si) ?network" unfolding d network_perObserver ..
  then have none: "\<forall>h \<in> set (ds_perObserver d). \<not> isPositive h \<and> oh_status h \<noteq> Own_CONFLICTING_OBSERVATIONS" using re(1) by simp
  have all: "\<forall>x \<in> set obs. \<forall>c. seen_by sha accepts txId submission i x \<and> acceptedIn c (to_finding (observationOf x)) \<longrightarrow>
      (\<exists>w \<in> set obs. seen_by sha accepts txId submission i w \<and> withdrawnIn c (to_finding (observationOf w)) \<and> pointKey sha x \<le> pointKey sha w)"
    using withdrawn by blast
  have "b \<noteq> [] \<longrightarrow> ds_acceptingBlockHash d = Some b" using h(2) r(1) by blast
  then show ?thesis by (intro conjI none exI [of _ i] exI [of _ b] lost all)
qed


subsection \<open>Locality\<close>

text \<open>Sorting keeps what a filter keeps.\<close>

context js_comparator
begin

lemma filter_insert_by:
  "sorted_wrt (\<lambda>x y. cmp x y \<le> 0) ys \<Longrightarrow> filter P (insert_by cmp x ys) = (if P x then insert_by cmp x (filter P ys) else filter P ys)"
proof (induction ys)
  case (Cons y ys)
  show ?case
  proof (cases "cmp x y \<le> 0")
    case True
    then have "\<forall>z \<in> set (filter P (y # ys)). cmp x z \<le> 0" using Cons.prems cmp_trans [of x y] by auto
    then show ?thesis using True insert_by_head [of "filter P (y # ys)" x] by simp
  qed (use Cons in auto)
qed simp

lemma filter_js_sort: "filter P (js_sort cmp xs) = js_sort cmp (filter P xs)"
  by (induction xs) (simp_all add: filter_insert_by js_sort_sorted)

end

lemma own_collected:
  assumes "collectObservations sha accepts txId s obs = Inr (valid, ig)" "collectObservations sha accepts txId s obs' = Inr (valid', ig')"
    and same: "filter (\<lambda>r. ob_observerId (to_observer (observationOf r)) = i) obs = filter (\<lambda>r. ob_observerId (to_observer (observationOf r)) = i) obs'"
  shows "ownOf i (filter P valid) = ownOf i (filter P valid')"
proof -
  let ?c = "classifyObservation sha accepts txId s" and ?p = "\<lambda>c. case c of Inr x \<Rightarrow> Some x | Inl _ \<Rightarrow> None"
  let ?own = "\<lambda>r. ob_observerId (to_observer (observationOf r)) = i"
  have own: "ownOf i (filter P valid) = js_sort byPoint (filter (\<lambda>x. P x) (List.map_filter (\<lambda>r. case ?c r of Inr c \<Rightarrow> ?p c | Inl _ \<Rightarrow> None) (filter ?own obs)))"
    if col: "collectObservations sha accepts txId s obs = Inr (valid, ig)" for obs valid ig
  proof -
    obtain cs where cs: "mapE ?c obs = Inr cs" and v: "valid = js_sort byPoint (List.map_filter ?p cs)" using col by (auto simp: collectObservations_def)
    obtain g where g: "\<forall>r \<in> set obs. ?c r = Inr (g r)" "cs = map g obs" using mapE_Inr [OF cs] by blast
    have "filter (\<lambda>x. vo_observerId x = i) (List.map_filter ?p (map g rs)) = List.map_filter (\<lambda>r. case ?c r of Inr c \<Rightarrow> ?p c | Inl _ \<Rightarrow> None) (filter ?own rs)"
      if "set rs \<subseteq> set obs" for rs
      using that
    proof (induction rs)
      case (Cons r rs)
      then have r: "?c r = Inr (g r)" using g(1) by simp
      show ?case
      proof (cases "g r")
        case (Inr x)
        then have "vo_o x = observationOf r" using r classifyObservation_Inr(1) [of sha accepts txId s r x] by simp
        then show ?thesis using Cons r Inr by (simp add: List.map_filter_simps)
      qed (use Cons r in \<open>simp add: List.map_filter_simps\<close>)
    qed (simp add: List.map_filter_simps)
    then have f: "filter (\<lambda>x. vo_observerId x = i) (List.map_filter ?p cs) = List.map_filter (\<lambda>r. case ?c r of Inr c \<Rightarrow> ?p c | Inl _ \<Rightarrow> None) (filter ?own obs)"
      using g(2) by simp
    have "ownOf i (filter P valid) = filter P (filter (\<lambda>x. vo_observerId x = i) valid)" by (simp add: ownOf_def conj_commute)
    then show ?thesis unfolding v point_order.filter_js_sort f by simp
  qed
  show ?thesis unfolding own [OF assms(1)] own [OF assms(2)] same ..
qed

text \<open>what one observer reports never changes the history of another. Two collections of evidence that hold the same
  observations of an observer give it the same history, whatever else they hold.\<close>

theorem histories_are_local:
  assumes "deriveTxStatus sha accepts txId submission obs policy = Inr d" "deriveTxStatus sha accepts txId submission obs' policy = Inr d'"
    and "h \<in> set (ds_perObserver d)" "h' \<in> set (ds_perObserver d')" "oh_observerId h = oh_observerId h'"
    and same: "filter (\<lambda>r. ob_observerId (to_observer (observationOf r)) = oh_observerId h) obs =
      filter (\<lambda>r. ob_observerId (to_observer (observationOf r)) = oh_observerId h) obs'"
  shows "h = h'"
proof -
  have hist: "\<exists>s ig0 valid ig. classifySubmission sha accepts txId submission = Inr (s, ig0) \<and> collectObservations sha accepts txId s obs = Inr (valid, ig) \<and>
      h = deriveObserverHistory (case policy of Some p \<Rightarrow> p | None \<Rightarrow> TX_STATUS_POLICY_HARDKAS_DEFAULT_V1) (oh_observerId h)
        (ownOf (oh_observerId h) (filter (\<lambda>x. \<not> isSynthetic (vo_finding x)) valid))"
    if d: "deriveTxStatus sha accepts txId submission obs policy = Inr d" and mem: "h \<in> set (ds_perObserver d)" for obs d h
    using d
  proof (rule derive_parts)
    fix s valid ig0 ig and si :: StatusInput
    assume p: "classifySubmission sha accepts txId submission = Inr (s, ig0)" "collectObservations sha accepts txId s obs = Inr (valid, ig)"
      "d = combineEvidence si valid" "si_policy si = (case policy of Some p \<Rightarrow> p | None \<Rightarrow> TX_STATUS_POLICY_HARDKAS_DEFAULT_V1)"
    have "h \<in> set (historiesOf (si_policy si) (filter (\<lambda>x. \<not> isSynthetic (vo_finding x)) valid))"
      using mem unfolding p(3) by (auto simp: combineEvidence_def Let_def network_perObserver split: if_splits)
    then obtain i where "h = deriveObserverHistory (si_policy si) i (ownOf i (filter (\<lambda>x. \<not> isSynthetic (vo_finding x)) valid))"
      unfolding mem_histories by blast
    then show ?thesis using p(1,2,4) by auto
  qed
  obtain s ig0 valid ig where 1: "classifySubmission sha accepts txId submission = Inr (s, ig0)" "collectObservations sha accepts txId s obs = Inr (valid, ig)"
    "h = deriveObserverHistory (case policy of Some p \<Rightarrow> p | None \<Rightarrow> TX_STATUS_POLICY_HARDKAS_DEFAULT_V1) (oh_observerId h)
        (ownOf (oh_observerId h) (filter (\<lambda>x. \<not> isSynthetic (vo_finding x)) valid))" using hist [OF assms(1,3)] by blast
  obtain valid' ig' where 2: "collectObservations sha accepts txId s obs' = Inr (valid', ig')"
    "h' = deriveObserverHistory (case policy of Some p \<Rightarrow> p | None \<Rightarrow> TX_STATUS_POLICY_HARDKAS_DEFAULT_V1) (oh_observerId h')
        (ownOf (oh_observerId h') (filter (\<lambda>x. \<not> isSynthetic (vo_finding x)) valid'))" using hist [OF assms(2,4)] 1(1) by auto
  show ?thesis using 1(3) 2(2) own_collected [OF 1(2) 2(1) same] unfolding assms(5) by metis
qed


subsection \<open>Examples\<close>

definition ex_observation :: "string \<Rightarrow> string \<Rightarrow> json \<Rightarrow> json" where
  "ex_observation observer sink finding = JObj [(''schema'', JStr schemaTxObservationV1), (''hardkasVersion'', JStr ''0''), (''version'', JStr ARTIFACT_VERSION),
     (''hashVersion'', JNum 5), (''createdAt'', JStr ''t''), (''networkId'', JStr ''simnet''), (''mode'', JStr ''rpc''), (''subject'', JObj [(''txId'', JStr ''tx'')]),
     (''observer'', JObj [(''observerId'', JStr (''obs_'' @ replicate 63 (CHR ''0'') @ observer)), (''kind'', JStr ''rpc''), (''networkId'', JStr ''simnet''),
        (''capabilities'', JObj [(''reorgAware'', JBool True)]), (''description'', JStr ''d'')]),
     (''point'', JObj [(''virtualDaaScore'', JStr ''900''), (''sinkHash'', JStr ''s''), (''sinkBlueScore'', JStr sink)]),
     (''finding'', finding), (''evidence'', JArr []), (''observedAt'', JStr ''t''), (''contentHash'', JStr (replicate 64 (CHR ''a'')))]"

definition ex_accepted :: json where
  "ex_accepted = JObj [(''type'', JStr ''chain_accepted''), (''acceptingBlockHash'', JStr ''b''), (''acceptingBlueScore'', JStr ''100''), (''confirmationsBlue'', JStr ''150'')]"

definition ex_removed :: json where
  "ex_removed = JObj [(''type'', JStr ''chain_removed''), (''acceptingBlockHash'', JStr ''b'')]"

abbreviation ex_accepts :: "ZodType \<Rightarrow> json \<Rightarrow> bool" where
  "ex_accepts \<equiv> conforms (\<lambda>_. True)"

definition ex_valid :: "string \<Rightarrow> string \<Rightarrow> json \<Rightarrow> ValidObservation" where
  "ex_valid observer sink finding = \<lparr>vo_artifactId = replicate 64 (CHR ''a''), vo_o = observationOf (ex_observation observer sink finding), vo_sinkBlue = score sink\<rparr>"

definition ex_si :: "Ignored list \<Rightarrow> StatusInput" where
  "ex_si ig = \<lparr>si_txId = ''tx'', si_policy = TX_STATUS_POLICY_HARDKAS_DEFAULT_V1, si_submission = NoSubmission, si_ignored = ig\<rparr>"

lemma ex_classify:
  assumes "checkArtifactIdentity ex_hash (ex_observation ob sink finding) = Inr (Inr (replicate 64 (CHR ''a''), FULL))"
    "ex_accepts TxObservationSchema (ex_observation ob sink finding)" "findingIncoherence (observationOf (ex_observation ob sink finding)) = None"
  shows "classifyObservation ex_hash ex_accepts ''tx'' NoSubmission (ex_observation ob sink finding) = Inr (Inr (ex_valid ob sink finding))"
proof -
  have v: "readDeclaredHashVersion (ex_observation ob sink finding) = Some CURRENT_HASH_VERSION"
    by (simp add: ex_observation_def readDeclaredHashVersion_def CURRENT_HASH_VERSION_def MIN_HASH_VERSION_def)
  have "fullIdentity ex_hash (ex_observation ob sink finding) = Inr (Inr (replicate 64 (CHR ''a'')))"
    unfolding fullIdentity_def v option.case assms(1) by simp
  moreover have "jget (ex_observation ob sink finding) ''schema'' = JStr schemaTxObservationV1" "to_txId (observationOf (ex_observation ob sink finding)) = ''tx''"
    "op_sinkBlueScore (to_point (observationOf (ex_observation ob sink finding))) = sink"
    by (simp_all add: ex_observation_def observationOf_def Let_def text_of_def)
  ultimately show ?thesis
    using assms(2,3) by (simp add: classifyObservation_def checkTxObservationCoherence_def Let_def ex_valid_def split: option.split)
qed

lemma ex_classified:
  "classifyObservation ex_hash ex_accepts ''tx'' NoSubmission (ex_observation ''1'' ''250'' ex_accepted) = Inr (Inr (ex_valid ''1'' ''250'' ex_accepted))"
  "classifyObservation ex_hash ex_accepts ''tx'' NoSubmission (ex_observation ''1'' ''300'' ex_removed) = Inr (Inr (ex_valid ''1'' ''300'' ex_removed))"
  by (rule ex_classify; code_simp)+

lemma ex_statuses:
  "ds_status (combineEvidence (ex_si ig) [ex_valid ''1'' ''250'' ex_accepted]) = CONFIRMED"
  "ds_status (combineEvidence (ex_si ig) [ex_valid ''1'' ''250'' ex_accepted, ex_valid ''1'' ''300'' ex_removed]) = REORGED"
  by code_simp+


lemma ex_derive:
  assumes "mapE (classifyObservation ex_hash ex_accepts ''tx'' NoSubmission) obs = Inr cs"
  shows "deriveTxStatus ex_hash ex_accepts ''tx'' JUndefined obs None =
    Inr (combineEvidence (ex_si (concat (map (\<lambda>c. case c of Inl i \<Rightarrow> i | Inr _ \<Rightarrow> []) cs)))
      (js_sort byPoint (List.map_filter (\<lambda>c. case c of Inr x \<Rightarrow> Some x | Inl _ \<Rightarrow> None) cs)))"
  using assms by (simp add: deriveTxStatus_def classifySubmission_def collectObservations_def ex_si_def)

lemma ex_points: "byPoint (ex_valid ''1'' ''300'' ex_removed) (ex_valid ''1'' ''250'' ex_accepted) = 1"
  by code_simp

definition ex_confirmed :: "json list" where
  "ex_confirmed = [ex_observation ''1'' ''250'' ex_accepted, JNull]"

definition ex_reorged :: "json list" where
  "ex_reorged = [ex_observation ''1'' ''300'' ex_removed, ex_observation ''1'' ''250'' ex_accepted]"

definition ex_no_observation :: "Ignored list" where
  "ex_no_observation = ignoredAs None ''not an observation: undefined''"

lemma ex_runs:
  "deriveTxStatus ex_hash ex_accepts ''tx'' JUndefined ex_confirmed None = Inr (combineEvidence (ex_si ex_no_observation) [ex_valid ''1'' ''250'' ex_accepted])"
  "deriveTxStatus ex_hash ex_accepts ''tx'' JUndefined ex_reorged None =
     Inr (combineEvidence (ex_si []) [ex_valid ''1'' ''250'' ex_accepted, ex_valid ''1'' ''300'' ex_removed])"
proof -
  have null: "classifyObservation ex_hash ex_accepts ''tx'' NoSubmission JNull = Inr (Inl ex_no_observation)"
    by (simp add: classifyObservation_def ex_no_observation_def optText_def)
  show "deriveTxStatus ex_hash ex_accepts ''tx'' JUndefined ex_confirmed None = Inr (combineEvidence (ex_si ex_no_observation) [ex_valid ''1'' ''250'' ex_accepted])"
    using ex_derive [of ex_confirmed] ex_classified(1) null by (simp add: ex_confirmed_def List.map_filter_simps)
  show "deriveTxStatus ex_hash ex_accepts ''tx'' JUndefined ex_reorged None =
     Inr (combineEvidence (ex_si []) [ex_valid ''1'' ''250'' ex_accepted, ex_valid ''1'' ''300'' ex_removed])"
    using ex_derive [of ex_reorged] ex_classified ex_points by (simp add: ex_reorged_def List.map_filter_simps)
qed

lemma ex_histories:
  "\<exists>h. ds_perObserver (combineEvidence (ex_si ig) [ex_valid ''1'' ''250'' ex_accepted]) = [h] \<and> oh_observerId h = ''obs_'' @ replicate 63 (CHR ''0'') @ ''1''"
proof -
  have "map oh_observerId (ds_perObserver (combineEvidence (ex_si ig) [ex_valid ''1'' ''250'' ex_accepted])) = [''obs_'' @ replicate 63 (CHR ''0'') @ ''1'']"
    by code_simp
  then show ?thesis by (auto simp: map_eq_Cons_conv)
qed

theorem on_chain_status_sound_witness:
  "\<exists>b c r. ds_acceptingBlockHash (combineEvidence (ex_si ex_no_observation) [ex_valid ''1'' ''250'' ex_accepted]) = Some b \<and> r \<in> set ex_confirmed \<and>
    ds_confirmations (combineEvidence (ex_si ex_no_observation) [ex_valid ''1'' ''250'' ex_accepted]) = Some c \<and>
    acceptedIn b (to_finding (observationOf r)) \<and> observedDepth (observationOf r) = score (cf_blue c) \<and> 100 \<le> score (cf_blue c)"
proof -
  let ?d = "combineEvidence (ex_si ex_no_observation) [ex_valid ''1'' ''250'' ex_accepted]"
  have k: "ds_status ?d = CONFIRMED" "sp_minConfirmations (ds_policy ?d) = 100" by (fact ex_statuses, code_simp)
  show ?thesis using on_chain_status_sound [OF ex_runs(1)] k by auto
qed

theorem reorged_is_own_history_witness:
  "\<exists>i b x y. x \<in> set ex_reorged \<and> y \<in> set ex_reorged \<and> seen_by ex_hash ex_accepts ''tx'' JUndefined i x \<and> seen_by ex_hash ex_accepts ''tx'' JUndefined i y \<and>
    acceptedIn b (to_finding (observationOf x)) \<and> to_finding (observationOf y) = ChainRemoved b \<and> pointKey ex_hash x \<le> pointKey ex_hash y"
  using reorged_is_own_history [OF ex_runs(2) ex_statuses(2)] by blast

theorem status_order_independent_witness:
  "\<exists>r'. deriveTxStatus ex_hash ex_accepts ''tx'' JUndefined (rev ex_confirmed) None = Inr r' \<and> ds_status r' = CONFIRMED"
proof -
  have "identity ex_hash JNull = None" by code_simp
  then have "same_copies ex_hash ex_confirmed" by (simp add: same_copies_def ex_confirmed_def)
  moreover have "mset ex_confirmed = mset (rev ex_confirmed)" by simp
  ultimately obtain r' where r': "deriveTxStatus ex_hash ex_accepts ''tx'' JUndefined (rev ex_confirmed) None = Inr r'"
    "r' = (combineEvidence (ex_si ex_no_observation) [ex_valid ''1'' ''250'' ex_accepted])\<lparr>ds_ignored := ds_ignored r'\<rparr>"
    using status_order_independent [OF ex_runs(1)] by blast
  have keeps: "ds_status (d\<lparr>ds_ignored := i\<rparr>) = ds_status d" for d :: DerivedTxStatus and i by simp
  have "ds_status r' = CONFIRMED" by (subst r'(2)) (simp only: keeps ex_statuses(1))
  then show ?thesis using r'(1) by blast
qed

theorem histories_are_local_witness:
  "\<exists>h. ds_perObserver (combineEvidence (ex_si ex_no_observation) [ex_valid ''1'' ''250'' ex_accepted]) = [h] \<and>
    ds_perObserver (combineEvidence (ex_si []) [ex_valid ''1'' ''250'' ex_accepted]) = [h]"
proof -
  let ?o = "''obs_'' @ replicate 63 (CHR ''0'') @ ''1''"
  have alone: "deriveTxStatus ex_hash ex_accepts ''tx'' JUndefined [ex_observation ''1'' ''250'' ex_accepted] None =
      Inr (combineEvidence (ex_si []) [ex_valid ''1'' ''250'' ex_accepted])"
    using ex_derive [of "[ex_observation ''1'' ''250'' ex_accepted]"] ex_classified(1) by (simp add: List.map_filter_simps)
  obtain h h' where h: "ds_perObserver (combineEvidence (ex_si ex_no_observation) [ex_valid ''1'' ''250'' ex_accepted]) = [h]" "oh_observerId h = ?o"
    "ds_perObserver (combineEvidence (ex_si []) [ex_valid ''1'' ''250'' ex_accepted]) = [h']" "oh_observerId h' = ?o"
    using ex_histories by blast
  have "ob_observerId (to_observer (observationOf JNull)) \<noteq> ?o" by code_simp
  then have "h = h'" using histories_are_local [OF ex_runs(1) alone, of h h'] h by (simp add: ex_confirmed_def)
  then show ?thesis using h by simp
qed

end
