(* ===== verification/HK_Operation.thy ===== *)
theory HK_Operation
  imports HK_TxHistory
begin

text \<open>
  Summaries of operations over the derived status of their transaction (\<open>operation-status.ts\<close>): the transition of a covenant and
  the settlement of a zero-knowledge spend. Facts are values of their schemas, read with \<open>String(...)\<close>. The reasons, texts
  that describe a result, are left out. An exception is \<open>Inl\<close>.
\<close>

subsection \<open>Covenants\<close>

datatype CovenantStatusKind =
    PROPOSED | MEMPOOL_PENDING | TRANSITION_CONFIRMED | TRANSITION_REJECTED | TRANSITION_REORGED | TERMINATED | CONFLICTED | CovenantINCONCLUSIVE

record CovenantStatusResult =
  cv_kind :: CovenantStatusKind
  cv_covenantId :: string
  cv_activeOutpoint :: "string option"
  cv_currentState :: json
  cv_txStatus :: "DerivedTxStatus option"
  cv_isFinal :: bool

definition factOutpoint :: "json \<Rightarrow> string" where
  "factOutpoint p = template_text (jget p ''transactionId'') @ '':'' @ template_text (jget p ''index'')"

definition successorOf :: "json \<Rightarrow> string" where
  "successorOf f =
     (if truthy (jget f ''successorOutpoint'') then factOutpoint (jget f ''successorOutpoint'')
      else template_text (jget f ''txId'') @ '':0'')"

definition covenantResult :: "json \<Rightarrow> CovenantStatusKind \<Rightarrow> string option \<Rightarrow> json \<Rightarrow> DerivedTxStatus option \<Rightarrow> bool \<Rightarrow> CovenantStatusResult" where
  "covenantResult f k outpoint state txStatus final =
     \<lparr>cv_kind = k, cv_covenantId = template_text (jget f ''covenantId''), cv_activeOutpoint = outpoint, cv_currentState = state,
      cv_txStatus = txStatus, cv_isFinal = final\<rparr>"

definition deriveCovenantStatus :: "json \<Rightarrow> DerivedTxStatus option \<Rightarrow> bool \<Rightarrow> CovenantStatusResult result" where
  "deriveCovenantStatus f txStatus terminated =
     (let isTerminated = terminated \<or> \<not> truthy (jget f ''nextState''); previous = jget f ''previousState'' in
      bindE (jfield (jget f ''spentOutpoint'') ''transactionId'') (\<lambda>_.
      let outpointKey = factOutpoint (jget f ''spentOutpoint'') in
      Inr (case txStatus of
        None \<Rightarrow> covenantResult f PROPOSED (Some outpointKey) previous None False
      | Some d \<Rightarrow>
          (case ds_status d of
             REJECTED_BY_NODE \<Rightarrow> covenantResult f TRANSITION_REJECTED (Some outpointKey) previous txStatus True
           | REORGED \<Rightarrow> covenantResult f TRANSITION_REORGED (Some outpointKey) previous txStatus False
           | CONFLICTING_OBSERVATIONS \<Rightarrow> covenantResult f CONFLICTED None JUndefined txStatus False
           | MEMPOOL_ACCEPTED \<Rightarrow> covenantResult f MEMPOOL_PENDING None previous txStatus False
           | MEMPOOL_ORPHAN \<Rightarrow> covenantResult f MEMPOOL_PENDING None previous txStatus False
           | SUBMITTED \<Rightarrow> covenantResult f MEMPOOL_PENDING None previous txStatus False
           | k \<Rightarrow>
               if k \<in> {ACCEPTED, CONFIRMED, FINALIZED, SYNTHETIC_EXECUTED} then
                 (if isTerminated then covenantResult f TERMINATED None previous txStatus (k = FINALIZED)
                  else covenantResult f TRANSITION_CONFIRMED (Some (successorOf f)) (jget f ''nextState'') txStatus (k = FINALIZED))
               else covenantResult f CovenantINCONCLUSIVE None JUndefined txStatus False))))"

subsection \<open>Zero-knowledge spends\<close>

datatype ZkOperationStatusKind =
    PROOF_PREPARED | PROOF_VERIFIED_OFFCHAIN | PROOF_VERIFICATION_FAILED | TX_SUBMITTED | SETTLED | TX_REJECTED | TX_REORGED | ZkINCONCLUSIVE

record ZkOperationStatusResult =
  zo_kind :: ZkOperationStatusKind
  zo_imageId :: string
  zo_journalHash :: string
  zo_txId :: string
  zo_payoutAddress :: string
  zo_payoutSompi :: string
  zo_txStatus :: "DerivedTxStatus option"
  zo_isFinal :: bool

definition zkResult :: "json \<Rightarrow> ZkOperationStatusKind \<Rightarrow> DerivedTxStatus option \<Rightarrow> bool \<Rightarrow> ZkOperationStatusResult" where
  "zkResult f k txStatus final =
     \<lparr>zo_kind = k, zo_imageId = template_text (jget f ''imageId''), zo_journalHash = template_text (jget f ''journalHash''),
      zo_txId = template_text (jget f ''txId''), zo_payoutAddress = template_text (jget f ''payoutAddress''),
      zo_payoutSompi = template_text (jget f ''payoutSompi''), zo_txStatus = txStatus, zo_isFinal = final\<rparr>"

definition deriveZkOperationStatus :: "json \<Rightarrow> DerivedTxStatus option \<Rightarrow> ZkOperationStatusResult" where
  "deriveZkOperationStatus f txStatus =
     (if \<not> truthy (jget f ''verifiedOffChain'') then zkResult f PROOF_VERIFICATION_FAILED txStatus True
      else case txStatus of
        None \<Rightarrow> zkResult f PROOF_VERIFIED_OFFCHAIN None False
      | Some d \<Rightarrow>
          (case ds_status d of
             REJECTED_BY_NODE \<Rightarrow> zkResult f TX_REJECTED txStatus True
           | REORGED \<Rightarrow> zkResult f TX_REORGED txStatus False
           | SUBMITTED \<Rightarrow> zkResult f TX_SUBMITTED txStatus False
           | MEMPOOL_ACCEPTED \<Rightarrow> zkResult f TX_SUBMITTED txStatus False
           | MEMPOOL_ORPHAN \<Rightarrow> zkResult f TX_SUBMITTED txStatus False
           | k \<Rightarrow>
               if k \<in> {ACCEPTED, CONFIRMED, FINALIZED, SYNTHETIC_EXECUTED} then zkResult f SETTLED txStatus (k = FINALIZED)
               else zkResult f ZkINCONCLUSIVE txStatus False))"

subsection \<open>Operations advance on evidence\<close>

lemma covenant_cases:
  assumes "deriveCovenantStatus f txStatus terminated = Inr c"
  shows "cv_kind c \<in> {TRANSITION_CONFIRMED, TERMINATED} \<longleftrightarrow> (\<exists>d. txStatus = Some d \<and> ds_status d \<in> {ACCEPTED, CONFIRMED, FINALIZED, SYNTHETIC_EXECUTED})"
    and "cv_kind c = TRANSITION_CONFIRMED \<Longrightarrow> cv_currentState c = jget f ''nextState'' \<and> cv_activeOutpoint c = Some (successorOf f) \<and> \<not> terminated"
    and "cv_kind c \<in> {CONFLICTED, CovenantINCONCLUSIVE} \<Longrightarrow> cv_currentState c = JUndefined \<and> cv_activeOutpoint c = None"
    and "cv_kind c \<notin> {TRANSITION_CONFIRMED, CONFLICTED, CovenantINCONCLUSIVE} \<Longrightarrow> cv_currentState c = jget f ''previousState''"
    and "cv_isFinal c \<longleftrightarrow> (\<exists>d. txStatus = Some d \<and> ds_status d \<in> {FINALIZED, REJECTED_BY_NODE})"
    and "cv_kind c = TRANSITION_REJECTED \<longleftrightarrow> (\<exists>d. txStatus = Some d \<and> ds_status d = REJECTED_BY_NODE)"
  using assms by (auto simp: deriveCovenantStatus_def covenantResult_def Let_def split: option.splits TxStatusKind.splits if_splits)

text \<open>A transaction counts as executed by the simulator when its receipt is the simulator's, or an observation that counts says
  so, and no observation of a network counts against it.\<close>

definition only_simulated :: "(string \<Rightarrow> string) \<Rightarrow> (ZodType \<Rightarrow> json \<Rightarrow> bool) \<Rightarrow> string \<Rightarrow> json \<Rightarrow> json list \<Rightarrow> bool" where
  "only_simulated sha accepts txId submission obs \<longleftrightarrow>
     ((\<exists>i ig. classifySubmission sha accepts txId submission = Inr (SyntheticReceipt i, ig)) \<or>
      (\<exists>r \<in> set obs. is_evidence sha accepts txId submission r \<and> isSynthetic (to_finding (observationOf r)))) \<and>
     (\<forall>r \<in> set obs. is_evidence sha accepts txId submission r \<longrightarrow> isSynthetic (to_finding (observationOf r)))"

lemma more_kinds [simp]:
  "ds_status (reorgedStatus si network hs rs) \<noteq> SYNTHETIC_EXECUTED" "ds_status (reorgedStatus si network hs rs) \<noteq> REJECTED_BY_NODE"
  "ds_status (mempoolStatus si network hs rs) \<noteq> SYNTHETIC_EXECUTED" "ds_status (mempoolStatus si network hs rs) \<noteq> REJECTED_BY_NODE"
  "ds_status (agreedStatus si network hs current b) \<noteq> SYNTHETIC_EXECUTED" "ds_status (agreedStatus si network hs current b) \<noteq> REJECTED_BY_NODE"
  "ds_status (submissionStatus si hs) \<noteq> SYNTHETIC_EXECUTED"
  using reorged_kind [of si network hs rs] mempool_kind [of si network hs rs] agreed_kind [of si network hs current b] submission_kind [of si hs] by auto

lemma synthetic_evidence:
  assumes "deriveTxStatus sha accepts txId submission obs policy = Inr d" "ds_status d = SYNTHETIC_EXECUTED"
  shows "only_simulated sha accepts txId submission obs"
proof -
  obtain s ig0 valid ig si where s: "classifySubmission sha accepts txId submission = Inr (s, ig0)" "collectObservations sha accepts txId s obs = Inr (valid, ig)"
    and d: "d = combineEvidence si valid" "si_submission si = s"
    using assms(1) by (auto simp: deriveTxStatus_def)
  have no_network: "ds_status (networkStatus si network) \<noteq> SYNTHETIC_EXECUTED" for network
    by (auto simp: networkStatus_def positiveStatus_def Let_def)
  have "filter (\<lambda>x. \<not> isSynthetic (vo_finding x)) valid = []"
    and some: "filter (\<lambda>x. isSynthetic (vo_finding x)) valid \<noteq> [] \<or> isSyntheticReceipt s"
    using assms(2) no_network d by (auto simp: combineEvidence_def Let_def split: if_splits)
  then have all: "\<forall>x \<in> set valid. isSynthetic (vo_finding x)" by (simp add: filter_empty_conv)
  have "isSynthetic (to_finding (observationOf r))" if r: "r \<in> set obs" "is_evidence sha accepts txId submission r" for r
  proof -
    obtain x where x: "classifyObservation sha accepts txId s r = Inr (Inr x)" using evidence_counts [OF s(1)] r(2) by blast
    then have "x \<in> set valid" using mem_collected [OF s(2)] r(1) by blast
    then show ?thesis using all classifyObservation_Inr(1) [OF x] by auto
  qed
  moreover have "(\<exists>i. s = SyntheticReceipt i) \<or> (\<exists>r \<in> set obs. is_evidence sha accepts txId submission r \<and> isSynthetic (to_finding (observationOf r)))"
  proof (cases "isSyntheticReceipt s")
    case True
    then show ?thesis by (auto simp: isSyntheticReceipt_def split: Submission.splits)
  next
    case False
    then obtain x where "x \<in> set valid" "isSynthetic (vo_finding x)" using some by (auto simp: filter_empty_conv)
    then show ?thesis using collected_evidence [OF s] by metis
  qed
  ultimately show ?thesis unfolding only_simulated_def s(1) by auto
qed

lemma rejected_submission:
  assumes "deriveTxStatus sha accepts txId submission obs policy = Inr d" "ds_status d = REJECTED_BY_NODE"
  shows "\<exists>i e ig. classifySubmission sha accepts txId submission = Inr (Submitted i OutcomeRejected e, ig)"
proof -
  obtain s ig0 valid ig si where s: "classifySubmission sha accepts txId submission = Inr (s, ig0)"
    and d: "d = combineEvidence si valid" "si_submission si = s"
    using assms(1) by (auto simp: deriveTxStatus_def)
  have sub: "ds_status (submissionStatus si hs) = REJECTED_BY_NODE \<Longrightarrow> \<exists>i e. s = Submitted i OutcomeRejected e" for hs
    unfolding submissionStatus_def Let_def d(2) by (auto split: Submission.splits SubmitOutcome.splits)
  have "\<exists>i e. s = Submitted i OutcomeRejected e" if "ds_status (networkStatus si network) = REJECTED_BY_NODE" for network
    using that sub by (auto simp: networkStatus_def positiveStatus_def Let_def split: if_splits)
  then have "\<exists>i e. s = Submitted i OutcomeRejected e" using assms(2) d(1) by (auto simp: combineEvidence_def Let_def split: if_splits)
  then show ?thesis using s by blast
qed

text \<open>C32: a covenant advances, or ends, only on evidence about the transaction its fact names. When the summary says so on the
  status derived for that transaction, some verified and coherent observation sees it accepted in a block of the chain, or
  the transaction is the simulator's alone and the result is not final. A result is final only for an advance seen below
  the finality depth of its network, or for a transition that the submitting node rejected. A confirmed transition has the next
  state at the successor outpoint; a conflict and an inconclusive status report neither state nor outpoint; every other
  summary keeps the previous state.\<close>

theorem covenant_advances_on_evidence:
  assumes "deriveTxStatus sha accepts (template_text (jget f ''txId'')) submission obs policy = Inr d" "deriveCovenantStatus f (Some d) terminated = Inr c"
  shows "(cv_kind c \<in> {TRANSITION_CONFIRMED, TERMINATED} \<longrightarrow>
      (\<exists>r b. r \<in> set obs \<and> is_evidence sha accepts (template_text (jget f ''txId'')) submission r \<and> acceptedIn b (to_finding (observationOf r)) \<and>
        (cv_isFinal c \<longrightarrow> (\<exists>n. finalityDepthFor (ob_networkId (to_observer (observationOf r))) = Some n \<and> n \<le> observedDepth (observationOf r)))) \<or>
      (only_simulated sha accepts (template_text (jget f ''txId'')) submission obs \<and> \<not> cv_isFinal c)) \<and>
    (cv_isFinal c \<longrightarrow> cv_kind c \<in> {TRANSITION_CONFIRMED, TERMINATED} \<or>
      (cv_kind c = TRANSITION_REJECTED \<and>
       (\<exists>i e ig. classifySubmission sha accepts (template_text (jget f ''txId'')) submission = Inr (Submitted i OutcomeRejected e, ig)))) \<and>
    (cv_kind c = TRANSITION_CONFIRMED \<longrightarrow> cv_currentState c = jget f ''nextState'' \<and> cv_activeOutpoint c = Some (successorOf f)) \<and>
    (cv_kind c \<in> {CONFLICTED, CovenantINCONCLUSIVE} \<longrightarrow> cv_currentState c = JUndefined \<and> cv_activeOutpoint c = None) \<and>
    (cv_kind c \<notin> {TRANSITION_CONFIRMED, CONFLICTED, CovenantINCONCLUSIVE} \<longrightarrow> cv_currentState c = jget f ''previousState'')"
proof -
  let ?tx = "template_text (jget f ''txId'')"
  note k = covenant_cases [OF assms(2)]
  have advance: "(\<exists>r b. r \<in> set obs \<and> is_evidence sha accepts ?tx submission r \<and> acceptedIn b (to_finding (observationOf r)) \<and>
        (cv_isFinal c \<longrightarrow> (\<exists>n. finalityDepthFor (ob_networkId (to_observer (observationOf r))) = Some n \<and> n \<le> observedDepth (observationOf r)))) \<or>
      (only_simulated sha accepts ?tx submission obs \<and> \<not> cv_isFinal c)"
    if "cv_kind c \<in> {TRANSITION_CONFIRMED, TERMINATED}"
  proof (cases "ds_status d = SYNTHETIC_EXECUTED")
    case True
    then show ?thesis using synthetic_evidence [OF assms(1)] k(5) by auto
  next
    case False
    then have s: "ds_status d \<in> {ACCEPTED, CONFIRMED, FINALIZED}" using that k(1) by auto
    note e = on_chain_evidence [OF assms(1) s]
    have "cv_isFinal c \<longleftrightarrow> ds_status d = FINALIZED" using k(5) s by auto
    then show ?thesis using e by (cases "ds_status d = FINALIZED") blast+
  qed
  moreover have "cv_kind c \<in> {TRANSITION_CONFIRMED, TERMINATED} \<or> (cv_kind c = TRANSITION_REJECTED \<and>
       (\<exists>i e ig. classifySubmission sha accepts ?tx submission = Inr (Submitted i OutcomeRejected e, ig)))" if "cv_isFinal c"
    using that k(1,5,6) rejected_submission [OF assms(1)] by auto
  ultimately show ?thesis using k(2-4) by blast
qed

definition ex_transition :: json where
  "ex_transition = JObj [(''covenantId'', JStr ''c''), (''txId'', JStr ''tx''), (''spentOutpoint'', JObj [(''transactionId'', JStr ''t''), (''index'', JNum 0)]),
     (''previousState'', JObj [(''n'', JNum 1)]), (''nextState'', JObj [(''n'', JNum 2)])]"

theorem covenant_advances_on_evidence_witness:
  "\<exists>c r b. deriveCovenantStatus ex_transition (Some (combineEvidence (ex_si ex_no_observation) [ex_valid ''1'' ''250'' ex_accepted])) False = Inr c \<and>
    cv_activeOutpoint c = Some ''tx:0'' \<and> r \<in> set ex_confirmed \<and> acceptedIn b (to_finding (observationOf r))"
proof -
  let ?d = "combineEvidence (ex_si ex_no_observation) [ex_valid ''1'' ''250'' ex_accepted]"
  have s: "ds_status ?d = CONFIRMED" by (rule ex_statuses(1))
  have t: "truthy (jget ex_transition ''nextState'')" "jfield (jget ex_transition ''spentOutpoint'') ''transactionId'' = Inr (JStr ''t'')"
    "successorOf ex_transition = ''tx:0''" "template_text (jget ex_transition ''txId'') = ''tx''" by code_simp+
  have c: "deriveCovenantStatus ex_transition (Some ?d) False =
      Inr (covenantResult ex_transition TRANSITION_CONFIRMED (Some ''tx:0'') (jget ex_transition ''nextState'') (Some ?d) False)"
    unfolding deriveCovenantStatus_def Let_def t(2,3) bindE.simps option.case s using t(1) by simp
  have null: "identity ex_hash JNull = None" by code_simp
  have block: "\<not> isSynthetic (to_finding (observationOf (ex_observation ''1'' ''250'' ex_accepted)))" by code_simp
  have "\<not> is_evidence ex_hash ex_accepts ''tx'' JUndefined JNull" using null by (simp add: is_evidence_def)
  then have seen: "r \<in> set ex_confirmed \<Longrightarrow> is_evidence ex_hash ex_accepts ''tx'' JUndefined r \<Longrightarrow> \<not> isSynthetic (to_finding (observationOf r))" for r
    using block by (auto simp: ex_confirmed_def)
  have real: "\<not> only_simulated ex_hash ex_accepts ''tx'' JUndefined ex_confirmed"
    using seen by (auto simp: only_simulated_def classifySubmission_def)
  note use = covenant_advances_on_evidence [OF ex_runs(1) [folded t(4)] c, unfolded t(4)]
  show ?thesis using c use real by (auto simp: covenantResult_def)
qed

end
