(* ===== verification/HK_Submission.thy ===== *)
theory HK_Submission
  imports HK_Schema "HOL-Library.Word"
begin

text \<open>
  The fee of a submission (\<open>submission-fee.ts\<close>): the signed payload is read, compared with the plan that authorized it,
  input by input and output by output, and only then priced as the difference of what it consumes and produces.
  Addresses are decoded from their five-bit digits with 32-bit operations, as JavaScript computes them. \<open>JSON.parse\<close> is a
  parameter. An exception is \<open>Inl\<close>.
\<close>

unbundle bit_operations_syntax

subsection \<open>Amounts, outpoints and scripts of a payload\<close>

definition toBig :: "json \<Rightarrow> int option" where
  "toBig v = (case v of
       JBigInt i \<Rightarrow> Some i
     | JNum i \<Rightarrow> (if 0 \<le> i \<and> i \<le> 9007199254740991 then Some i else None)
     | JStr s \<Rightarrow> decimal_val s
     | _ \<Rightarrow> None)"

text \<open>\<open>Number(v)\<close> in a template: integer literals are read as \<open>BigInt\<close> reads them. Outside the model are integers beyond
  \<open>2^53\<close>, which \<open>Number\<close> rounds and the model keeps, and literals of other numbers, which the model reads as \<open>NaN\<close>.\<close>

definition numberText :: "json \<Rightarrow> string" where
  "numberText v = (case v of
       JNum i \<Rightarrow> int_str i
     | JBigInt i \<Rightarrow> int_str i
     | JFrac t \<Rightarrow> t
     | JBool b \<Rightarrow> (if b then ''1'' else ''0'')
     | JNull \<Rightarrow> ''0''
     | JStr s \<Rightarrow> (case BigInt s of Some i \<Rightarrow> int_str i | None \<Rightarrow> ''NaN'')
     | _ \<Rightarrow> ''NaN'')"

definition outpointOf :: "json \<Rightarrow> string option" where
  "outpointOf input =
     (let prev = jnn (jnn (jget input ''previousOutpoint'') (jget input ''previous_outpoint''))
                     (if jget input ''transactionId'' \<noteq> JUndefined then input else JUndefined);
          txId = jnn (jget prev ''transactionId'') (jget prev ''txId'');
          index = jget prev ''index''
      in case txId of
           JStr t \<Rightarrow> (if index = JUndefined \<or> index = JNull then None else Some (t @ '':'' @ numberText index))
         | _ \<Rightarrow> None)"

definition scriptOf :: "json \<Rightarrow> string option" where
  "scriptOf out =
     (let spk = jget out ''scriptPublicKey'';
          raw = (case spk of JStr s \<Rightarrow> spk | _ \<Rightarrow> jnn (jget spk ''scriptPublicKey'') (jget spk ''script''))
      in case raw of
           JStr s \<Rightarrow> (if s \<noteq> [] \<and> list_all is_hex s then Some (map to_lower s) else None)
         | _ \<Rightarrow> None)"

subsection \<open>Addresses\<close>

definition CHARSET :: string where
  "CHARSET = ''qpzry9x8gf2tvdw0s3jn54khce6mua7l''"

definition charsetIndex :: "char \<Rightarrow> nat option" where
  "charsetIndex c = (let i = length (takeWhile (\<lambda>d. d \<noteq> c) CHARSET) in if i < length CHARSET then Some i else None)"

text \<open>The last colon splits an address.\<close>

definition splitAddress :: "string \<Rightarrow> (string \<times> string) option" where
  "splitAddress a =
     (let r = rev a; n = length (takeWhile (\<lambda>c. c \<noteq> CHR '':'') r)
      in if n < length a then Some (take (length a - n - 1) a, drop (length a - n) a) else None)"

fun charsetValues :: "string \<Rightarrow> nat list option" where
  "charsetValues [] = Some []"
| "charsetValues (c # cs) =
     (case charsetIndex c of None \<Rightarrow> None | Some v \<Rightarrow> (case charsetValues cs of None \<Rightarrow> None | Some vs \<Rightarrow> Some (v # vs)))"

text \<open>\<open>while (bits >= 8)\<close>: the bytes that the accumulator holds.\<close>

function drainBytes :: "32 word \<Rightarrow> nat \<Rightarrow> nat list \<Rightarrow> nat \<times> nat list" where
  "drainBytes acc bits out =
     (if 8 \<le> bits then drainBytes acc (bits - 8) (out @ [unat (drop_bit (bits - 8) acc AND 0xff)]) else (bits, out))"
  by pat_completeness auto
termination by (relation "measure (\<lambda>(acc, bits, out). bits)") auto

declare drainBytes.simps [simp del]

fun regroup :: "nat list \<Rightarrow> 32 word \<Rightarrow> nat \<Rightarrow> nat list \<Rightarrow> 32 word \<times> nat \<times> nat list" where
  "regroup [] acc bits out = (acc, bits, out)"
| "regroup (v # vs) acc bits out =
     (let acc' = (push_bit 5 acc OR of_nat v) AND 0x1fff; (bits', out') = drainBytes acc' (bits + 5) out
      in regroup vs acc' bits' out')"

record KaspaAddress =
  ka_prefix :: string
  ka_version :: nat
  ka_payload :: "nat list"

definition decodeData :: "string \<Rightarrow> nat list option" where
  "decodeData data =
     (if length data < 9 then None
      else case charsetValues data of
        None \<Rightarrow> None
      | Some values \<Rightarrow>
          (case regroup (take (length values - 8) values) 0 0 [] of (acc, bits, out) \<Rightarrow>
             if 5 \<le> bits \<or> push_bit (8 - bits) acc AND 0xff \<noteq> 0 then None else if length out < 2 then None else Some out))"

definition decodeKaspaAddress :: "json \<Rightarrow> KaspaAddress option" where
  "decodeKaspaAddress address = (case address of
       JStr a \<Rightarrow>
         (case splitAddress a of
            None \<Rightarrow> None
          | Some (p, d) \<Rightarrow>
              if p = [] then None
              else case decodeData (map to_lower d) of
                None \<Rightarrow> None
              | Some out \<Rightarrow> Some \<lparr>ka_prefix = map to_lower p, ka_version = hd out, ka_payload = tl out\<rparr>)
     | _ \<Rightarrow> None)"

definition byteHex :: "nat \<Rightarrow> string" where
  "byteHex b = [hex_digit (b div 16), hex_digit (b mod 16)]"

definition expectedScriptPublicKeyHex :: "json \<Rightarrow> string option" where
  "expectedScriptPublicKeyHex address = (case decodeKaspaAddress address of
       None \<Rightarrow> None
     | Some d \<Rightarrow>
         (let hex = concat (map byteHex (ka_payload d)) in
          if ka_version d = 0 \<and> length (ka_payload d) = 32 then Some (''20'' @ hex @ ''ac'')
          else if ka_version d = 1 \<and> length (ka_payload d) = 33 then Some (''21'' @ hex @ ''ab'')
          else if ka_version d = 8 \<and> length (ka_payload d) = 32 then Some (''aa20'' @ hex @ ''87'')
          else None))"

subsection \<open>Signed payloads\<close>

record SignedOutput =
  sg_amount :: int
  sg_script :: "string option"
  sg_address :: "string option"

text \<open>The texts of the reasons that are recorded with a fee.\<close>

definition reasonOpaque :: string where
  "reasonOpaque = ''the signed payload is not a JSON transaction (opaque hex or unknown encoding)''"

definition reasonNotJson :: string where
  "reasonNotJson = ''the signed payload is not a JSON transaction''"

definition reasonNoArrays :: string where
  "reasonNoArrays = ''the signed payload carries no inputs/outputs arrays''"

definition reasonNoOutpoint :: string where
  "reasonNoOutpoint = ''a signed input has no previous outpoint''"

definition reasonNoAmount :: string where
  "reasonNoAmount = ''a signed output has no integer amount''"

definition reasonEmpty :: string where
  "reasonEmpty = ''the signed transaction has no inputs or no outputs''"

fun unwrapText :: "(string \<Rightarrow> json option) \<Rightarrow> nat \<Rightarrow> json \<Rightarrow> json result" where
  "unwrapText parse (Suc n) (JStr s) = (case parse s of None \<Rightarrow> Inl reasonNotJson | Some j \<Rightarrow> unwrapText parse n j)"
| "unwrapText parse n j = Inr j"

definition parsePayloadText :: "(string \<Rightarrow> json option) \<Rightarrow> json \<Rightarrow> json result" where
  "parsePayloadText parse payload = (case payload of
       JStr s \<Rightarrow> (case parse s of None \<Rightarrow> Inl reasonOpaque | Some j \<Rightarrow> Inr j)
     | _ \<Rightarrow> Inr payload)"

definition signedInput :: "json \<Rightarrow> string result" where
  "signedInput i = (case outpointOf i of None \<Rightarrow> Inl reasonNoOutpoint | Some k \<Rightarrow> Inr k)"

definition outputAddress :: "json \<Rightarrow> string option" where
  "outputAddress out =
     (let a = (case jget (jget out ''verboseData'') ''scriptPublicKeyAddress'' of
                 JStr s \<Rightarrow> Some s
               | _ \<Rightarrow> (case jget out ''address'' of JStr s \<Rightarrow> Some s | _ \<Rightarrow> None))
      in if a = Some [] then None else a)"

definition signedOutput :: "json \<Rightarrow> SignedOutput result" where
  "signedOutput out = (case toBig (jnn (jnn (jget out ''amount'') (jget out ''value'')) (jget out ''amountSompi'')) of
       None \<Rightarrow> Inl reasonNoAmount
     | Some n \<Rightarrow> Inr \<lparr>sg_amount = n, sg_script = scriptOf out, sg_address = outputAddress out\<rparr>)"

definition transactionOf :: "json \<Rightarrow> json" where
  "transactionOf parsed =
     (if truthy (jget parsed ''outputs'') then parsed
      else jnn (jnn (jget (jget parsed ''tx'') ''inner'') (jget parsed ''inner'')) (jget parsed ''transaction''))"

definition parseTransaction :: "json \<Rightarrow> (string list \<times> SignedOutput list) result" where
  "parseTransaction tx =
     (case (jget tx ''inputs'', jget tx ''outputs'') of
        (JArr is, JArr os) \<Rightarrow>
          bindE (mapE signedInput is) (\<lambda>inputs.
          bindE (mapE signedOutput os) (\<lambda>outputs.
            if inputs = [] \<or> outputs = [] then Inl reasonEmpty else Inr (inputs, outputs)))
      | _ \<Rightarrow> Inl reasonNoArrays)"

definition parseSignedTransactionPayload :: "(string \<Rightarrow> json option) \<Rightarrow> json \<Rightarrow> (string list \<times> SignedOutput list) result" where
  "parseSignedTransactionPayload parse payload =
     bindE (parsePayloadText parse payload) (\<lambda>text.
     bindE (unwrapText parse 3 text) (\<lambda>parsed. parseTransaction (transactionOf parsed)))"

subsection \<open>The signed transaction and its plan\<close>

text \<open>The outcome of the comparison: the same transaction, not enough evidence, or evidence of a different transaction.\<close>

datatype SignedPlanCheck =
    PlanMatches "string list" "SignedOutput list"
  | PlanInsufficient string
  | PlanMismatch string

definition reasonNoPlan :: string where
  "reasonNoPlan = ''the signed transaction's plan (its authenticated parent) could not be resolved with a verified identity''"

definition reasonNoPayload :: string where
  "reasonNoPayload = ''the signed artifact carries no transaction payload''"

definition reasonPlanInput :: string where
  "reasonPlanInput = ''a plan input has no integer amount''"

definition reasonNoInputs :: string where
  "reasonNoInputs = ''the plan records no inputs, so the consumed amounts are unknown''"

definition reasonPlanOutput :: string where
  "reasonPlanOutput = ''a plan output has no integer amount''"

definition reasonPlanChange :: string where
  "reasonPlanChange = ''the plan's change has no integer amount''"

definition reasonRepeated :: string where
  "reasonRepeated = ''the signed transaction repeats an input outpoint''"

definition reasonNotPlanned :: "string \<Rightarrow> string" where
  "reasonNotPlanned key = ''signed input '' @ key @ '' is not among the plan's inputs''"

definition reasonNotSpent :: "string \<Rightarrow> string" where
  "reasonNotSpent key = ''plan input '' @ key @ '' is not spent by the signed transaction''"

definition reasonCount :: "nat \<Rightarrow> nat \<Rightarrow> string" where
  "reasonCount n m = ''the signed transaction has '' @ nat_str n @ '' output(s) but the plan authorizes '' @ nat_str m"

text \<open>\<open>for (const x of v)\<close> over an array or a text; other values are not iterable.\<close>

definition iterateE :: "json \<Rightarrow> json list result" where
  "iterateE v = (case v of
       JArr xs \<Rightarrow> Inr xs
     | JStr s \<Rightarrow> Inr (map (\<lambda>c. JStr [c]) s)
     | _ \<Rightarrow> Inl ''is not iterable'')"

text \<open>The plan's inputs as a map from outpoints to amounts; \<open>None\<close> when an amount is no integer.\<close>

fun planInputs :: "json list \<Rightarrow> (string \<times> int) list \<Rightarrow> (string \<times> int) list option result" where
  "planInputs [] m = Inr (Some m)"
| "planInputs (pi # ps) m =
     bindE (jfield pi ''amountSompi'') (\<lambda>a.
       case toBig a of
         None \<Rightarrow> Inr None
       | Some n \<Rightarrow>
           bindE (jfield pi ''outpoint'') (\<lambda>op.
           bindE (jfield op ''transactionId'') (\<lambda>t.
             planInputs ps (AList.update (template_text t @ '':'' @ numberText (jget op ''index'')) n m))))"

record ExpectedOutput =
  eo_role :: string
  eo_address :: json
  eo_amount :: int

definition expectedOutput :: "string \<Rightarrow> json \<Rightarrow> ExpectedOutput option result" where
  "expectedOutput role out =
     bindE (jfield out ''amountSompi'') (\<lambda>a.
       Inr (map_option (\<lambda>n. \<lparr>eo_role = role, eo_address = jget out ''address'', eo_amount = n\<rparr>) (toBig a)))"

definition authorizedPayments :: "json \<Rightarrow> ExpectedOutput option list result" where
  "authorizedPayments plan =
     bindE (jlist (jnn (jget plan ''outputs'') (JArr []))) (\<lambda>os.
       mapE (\<lambda>(i, out). expectedOutput (''output['' @ nat_str i @ '']'') out) (enumerate 0 os))"

definition compareAddress :: "ExpectedOutput \<Rightarrow> string \<Rightarrow> string option result" where
  "compareAddress want a = (case eo_address want of
       JStr w \<Rightarrow>
         Inr (if map to_lower a \<noteq> map to_lower w then Some (eo_role want @ '': the signed destination '' @ a @ '' differs from the plan's '' @ w)
              else None)
     | _ \<Rightarrow> Inl ''toLowerCase is not a function'')"

definition compareOutput :: "ExpectedOutput \<Rightarrow> SignedOutput \<Rightarrow> string option result" where
  "compareOutput want got =
     (if sg_amount got \<noteq> eo_amount want then
        Inr (Some (eo_role want @ '': the signed transaction pays '' @ int_str (sg_amount got) @ '' but the plan authorizes '' @ int_str (eo_amount want)))
      else case expectedScriptPublicKeyHex (eo_address want) of
        Some wantScript \<Rightarrow>
          (case sg_script got of
             Some script \<Rightarrow>
               Inr (if script \<noteq> wantScript
                    then Some (eo_role want @ '': the signed destination script differs from the plan's '' @ template_text (eo_address want)) else None)
           | None \<Rightarrow>
               (case sg_address got of
                  Some a \<Rightarrow> compareAddress want a
                | None \<Rightarrow> Inr (Some (eo_role want @ '': the signed output carries no destination script to compare with the plan's '' @
                    template_text (eo_address want)))))
      | None \<Rightarrow>
          (case sg_address got of
             Some a \<Rightarrow> compareAddress want a
           | None \<Rightarrow> Inr (Some (eo_role want @ '': the plan's destination '' @ template_text (eo_address want) @
               '' is not a standard Kaspa address and the signed output carries no address to compare''))))"

fun compareOutputs :: "ExpectedOutput list \<Rightarrow> SignedOutput list \<Rightarrow> string option result" where
  "compareOutputs (want # ws) (got # gs) =
     bindE (compareOutput want got) (\<lambda>r. case r of Some e \<Rightarrow> Inr (Some e) | None \<Rightarrow> compareOutputs ws gs)"
| "compareOutputs _ _ = Inr None"

definition inputMismatch :: "string list \<Rightarrow> (string \<times> int) list \<Rightarrow> string option" where
  "inputMismatch inputs m =
     (if \<not> distinct inputs then Some reasonRepeated
      else case List.find (\<lambda>k. k \<notin> fst ` set m) inputs of
        Some k \<Rightarrow> Some (reasonNotPlanned k)
      | None \<Rightarrow> map_option reasonNotSpent (List.find (\<lambda>k. k \<notin> set inputs) (map fst m)))"

text \<open>The outputs the plan authorizes: its payments, then its change.\<close>

definition checkOutputs :: "json \<Rightarrow> string list \<Rightarrow> SignedOutput list \<Rightarrow> SignedPlanCheck result" where
  "checkOutputs plan inputs outputs =
     bindE (authorizedPayments plan) (\<lambda>payments.
       if \<not> list_all (\<lambda>x. x \<noteq> None) payments then Inr (PlanInsufficient reasonPlanOutput)
       else bindE (if truthy (jget plan ''change'') then bindE (expectedOutput ''change'' (jget plan ''change'')) (\<lambda>c. Inr [c]) else Inr []) (\<lambda>change.
         if \<not> list_all (\<lambda>x. x \<noteq> None) change then Inr (PlanInsufficient reasonPlanChange)
         else let wanted = map the (payments @ change)
           in if length outputs \<noteq> length wanted then Inr (PlanMismatch (reasonCount (length outputs) (length wanted)))
              else bindE (compareOutputs wanted outputs) (\<lambda>r.
                Inr (case r of Some e \<Rightarrow> PlanMismatch e | None \<Rightarrow> PlanMatches inputs outputs))))"

definition checkSignedAgainstPlan :: "(string \<Rightarrow> json option) \<Rightarrow> json \<Rightarrow> json \<Rightarrow> SignedPlanCheck result" where
  "checkSignedAgainstPlan parse signedTransaction plan =
     (if \<not> is_HEX64 (jget plan ''contentHash'') then Inr (PlanInsufficient reasonNoPlan)
      else if jget signedTransaction ''payload'' = JUndefined then Inr (PlanInsufficient reasonNoPayload)
      else case parseSignedTransactionPayload parse (jget signedTransaction ''payload'') of
        Inl reason \<Rightarrow> Inr (PlanInsufficient reason)
      | Inr (inputs, outputs) \<Rightarrow>
          bindE (iterateE (jnn (jget plan ''inputs'') (JArr []))) (\<lambda>ps.
          bindE (planInputs ps []) (\<lambda>found.
            case found of
              None \<Rightarrow> Inr (PlanInsufficient reasonPlanInput)
            | Some m \<Rightarrow>
                if m = [] then Inr (PlanInsufficient reasonNoInputs)
                else case inputMismatch inputs m of
                  Some reason \<Rightarrow> Inr (PlanMismatch reason)
                | None \<Rightarrow> checkOutputs plan inputs outputs)))"

subsection \<open>The fee\<close>

definition insufficientFee :: "string \<Rightarrow> json" where
  "insufficientFee reason = JObj [(''status'', JStr ''insufficient-evidence''), (''reason'', JStr reason)]"

definition priceTransaction :: "(string \<times> int) list \<Rightarrow> string list \<Rightarrow> SignedOutput list \<Rightarrow> json \<Rightarrow> json" where
  "priceTransaction m inputs outputs planId =
     (let inputsSompi = sum_list (map (\<lambda>k. the (map_of m k)) inputs); outputsSompi = sum_list (map sg_amount outputs)
      in if inputsSompi < outputsSompi then
           insufficientFee (''outputs ('' @ int_str outputsSompi @ '') exceed the consumed inputs ('' @ int_str inputsSompi @
             ''); the amounts are inconsistent'')
         else JObj [(''status'', JStr ''derived''), (''method'', JStr ''inputs-minus-outputs''), (''inputsSompi'', JStr (int_str inputsSompi)),
           (''outputsSompi'', JStr (int_str outputsSompi)), (''feeSompi'', JStr (int_str (inputsSompi - outputsSompi))),
           (''inputCount'', JNum (int (length inputs))), (''outputCount'', JNum (int (length outputs))), (''planArtifactId'', planId)])"

definition deriveSubmissionFee :: "(string \<Rightarrow> json option) \<Rightarrow> json \<Rightarrow> json \<Rightarrow> json result" where
  "deriveSubmissionFee parse signedTransaction plan =
     bindE (checkSignedAgainstPlan parse signedTransaction plan) (\<lambda>check.
       case check of
         PlanMismatch reason \<Rightarrow> Inr (JObj [(''status'', JStr ''mismatch''), (''code'', JStr ''SIGNED_PLAN_MISMATCH''), (''reason'', JStr reason)])
       | PlanInsufficient reason \<Rightarrow> Inr (insufficientFee reason)
       | PlanMatches inputs outputs \<Rightarrow>
           bindE (iterateE (jnn (jget plan ''inputs'') (JArr []))) (\<lambda>ps.
           bindE (planInputs ps []) (\<lambda>m.
             Inr (priceTransaction (case m of Some es \<Rightarrow> es | None \<Rightarrow> []) inputs outputs (jget plan ''contentHash'')))))"

text \<open>The verifier's check of a recorded fee. Only its verdict is kept.\<close>

definition checkSubmissionFeeCoherence :: "json \<Rightarrow> bool" where
  "checkSubmissionFeeCoherence f \<longleftrightarrow>
     (if f = JUndefined \<or> f = JNull then True
      else if jget f ''status'' = JStr ''insufficient-evidence'' then (case jget f ''reason'' of JStr r \<Rightarrow> r \<noteq> [] | _ \<Rightarrow> False)
      else if jget f ''status'' \<noteq> JStr ''derived'' then False
      else case (toBig (jget f ''inputsSompi''), toBig (jget f ''outputsSompi''), toBig (jget f ''feeSompi'')) of
        (Some i, Some out, Some fee) \<Rightarrow>
          i - out = fee \<and> jget f ''method'' = JStr ''inputs-minus-outputs'' \<and> is_HEX64 (jget f ''planArtifactId'')
      | _ \<Rightarrow> False)"

end
