(* ===== verification/HK_SubmissionProps.thy ===== *)
theory HK_SubmissionProps
  imports HK_Submission HK_ReplayProps
begin

text \<open>
  What the fee of a submission promises: a derived fee belongs to the transaction the plan authorized, it is what the plan
  consumes minus what it produces, and the verifier accepts it. The decoding of an address is its digits read in base
  32 and written in base 256, so an address is determined by its script up to prefix and checksum.
\<close>

subsection \<open>Decoding addresses\<close>

lemma unat_shift_in:
  assumes "unat acc < 8192" "v < 32"
  shows "unat ((push_bit 5 (acc :: 32 word) OR of_nat v) AND 0x1fff) = (unat acc * 32 + v) mod 8192"
proof -
  have m: "(0x1fff :: 32 word) = mask 13" by (simp add: mask_eq_exp_minus_1)
  have p: "unat (push_bit 5 acc) = unat acc * 32"
    unfolding unsigned_push_bit_eq using assms(1) by (simp add: push_bit_eq_mult take_bit_eq_mod)
  have v: "unat (of_nat v :: 32 word) = v" using assms(2) by (simp add: unsigned_of_nat take_bit_eq_mod)
  have "push_bit 5 (unat acc) AND take_bit 5 v = 0" by (auto simp: bit_eq_iff bit_simps)
  then have "push_bit 5 (unat acc) AND v = 0" using assms(2) by (simp add: take_bit_eq_mod)
  then have "unat acc * 32 OR v = unat acc * 32 + v"
    by (simp add: disjunctive_add_eq_or push_bit_eq_mult)
  then show ?thesis
    unfolding m take_bit_eq_mask [symmetric] unsigned_take_bit_eq unsigned_or_eq p v by (simp add: take_bit_eq_mod)
qed

lemma unat_byte: "unat (drop_bit n (acc :: 32 word) AND 0xff) = unat acc div 2 ^ n mod 256"
proof -
  have m: "(0xff :: 32 word) = mask 8" by (simp add: mask_eq_exp_minus_1)
  have "take_bit 32 (unat acc) = unat acc" using unsigned_less [of acc, where ?'a = nat] by (simp add: take_bit_eq_mod)
  then show ?thesis
    unfolding m take_bit_eq_mask [symmetric] unsigned_take_bit_eq unsigned_drop_bit_eq by (simp add: take_bit_eq_mod drop_bit_eq_div)
qed

definition base_value :: "nat \<Rightarrow> nat list \<Rightarrow> nat" where
  "base_value b xs = foldl (\<lambda>a x. a * b + x) 0 xs"

lemma base_value_snoc [simp]: "base_value b [] = 0" "base_value b (xs @ [x]) = base_value b xs * b + x"
  by (simp_all add: base_value_def)

lemma base_value_inj:
  "length xs = length ys \<Longrightarrow> list_all (\<lambda>x. x < b) xs \<Longrightarrow> list_all (\<lambda>x. x < b) ys \<Longrightarrow> base_value b xs = base_value b ys \<Longrightarrow> xs = ys"
proof (induction xs arbitrary: ys rule: rev_induct)
  case (snoc x xs)
  then obtain y zs where ys: "ys = zs @ [y]" "length zs = length xs" by (cases ys rule: rev_cases) auto
  have lt: "x < b" "y < b" using snoc.prems ys by auto
  have eq: "base_value b xs * b + x = base_value b zs * b + y" using snoc.prems ys by simp
  then have "x = y" using lt by (metis mod_less mod_mult_self3)
  moreover from this eq lt have "base_value b xs = base_value b zs" by simp
  ultimately show ?case using snoc ys by simp
qed simp

lemma drain_cases:
  assumes "bits < 16"
  shows "drainBytes acc bits out =
    (if 8 \<le> bits then (bits - 8, out @ [unat acc div 2 ^ (bits - 8) mod 256]) else (bits, out))"
proof -
  have "\<not> 8 \<le> bits - 8" using assms by simp
  then have "drainBytes acc (bits - 8) out' = (bits - 8, out')" for out' by (subst drainBytes.simps) simp
  then show ?thesis by (subst drainBytes.simps) (simp add: unat_byte)
qed

lemma split_bits:
  assumes "8 \<le> (b :: nat)"
  shows "(a :: nat) mod 2 ^ b = (a div 2 ^ (b - 8) mod 256) * 2 ^ (b - 8) + a mod 2 ^ (b - 8)"
proof -
  have "(2 :: nat) ^ b = 2 ^ (b - 8) * 256" using assms power_add [of "2 :: nat" "b - 8" 8] by simp
  then show ?thesis by (simp add: mod_mult2_eq)
qed

lemma regroup_step:
  assumes "unat acc < 8192" "bits < 8" "v < 32" and acc': "acc' = (push_bit 5 acc OR of_nat v) AND 0x1fff"
    and drain: "drainBytes acc' (bits + 5) out = (bits', out')"
  shows "unat acc' < 8192" "bits' < 8" "8 * length out' + bits' = 8 * length out + bits + 5"
    and "list_all (\<lambda>x. x < 256) out \<Longrightarrow> list_all (\<lambda>x. x < 256) out'"
    and "base_value 256 out' * 2 ^ bits' + unat acc' mod 2 ^ bits' = (base_value 256 out * 2 ^ bits + unat acc mod 2 ^ bits) * 32 + v"
proof -
  have a: "unat acc' = (unat acc * 32 + v) mod 8192" unfolding acc' by (rule unat_shift_in [OF assms(1,3)])
  then show "unat acc' < 8192" by simp
  have d: "(bits', out') = (if 8 \<le> bits + 5 then (bits + 5 - 8, out @ [unat acc' div 2 ^ (bits + 5 - 8) mod 256]) else (bits + 5, out))"
    using drain drain_cases [of "bits + 5" acc' out] assms(2) by simp
  then show "bits' < 8" "8 * length out' + bits' = 8 * length out + bits + 5" using assms(2) by (auto split: if_splits)
  show "list_all (\<lambda>x. x < 256) out'" if "list_all (\<lambda>x. x < 256) out" using d that by (auto split: if_splits)
  have "(8192 :: nat) = 2 ^ (bits + 5) * 2 ^ (8 - bits)" using assms(2) power_add [of "2 :: nat" "bits + 5" "8 - bits"] by simp
  then have "(2 :: nat) ^ (bits + 5) dvd 8192" by (metis dvd_triv_left)
  then have "unat acc' mod 2 ^ (bits + 5) = (unat acc * 32 + v) mod (2 ^ (bits + 5))" unfolding a by (rule mod_mod_cancel)
  also have "\<dots> = (unat acc mod 2 ^ bits) * 32 + v"
  proof -
    have "unat acc * 32 + v = (unat acc div 2 ^ bits) * 2 ^ (bits + 5) + ((unat acc mod 2 ^ bits) * 32 + v)"
    proof -
      have "unat acc * 32 = (unat acc div 2 ^ bits * 2 ^ bits + unat acc mod 2 ^ bits) * 32" by (simp only: div_mult_mod_eq)
      then show ?thesis by (simp only: power_add distrib_right) simp
    qed
    moreover have "(unat acc mod 2 ^ bits) * 32 + v < 2 ^ (bits + 5)"
    proof -
      have "unat acc mod 2 ^ bits + 1 \<le> 2 ^ bits" by (simp add: Suc_le_eq)
      then have "(unat acc mod 2 ^ bits + 1) * 32 \<le> 2 ^ bits * 32" by (rule mult_le_mono1)
      then show ?thesis using assms(3) by (simp add: power_add)
    qed
    ultimately show ?thesis by (metis mod_less mod_mult_self3)
  qed
  finally have m: "unat acc' mod 2 ^ (bits + 5) = (unat acc mod 2 ^ bits) * 32 + v" .
  show "base_value 256 out' * 2 ^ bits' + unat acc' mod 2 ^ bits' = (base_value 256 out * 2 ^ bits + unat acc mod 2 ^ bits) * 32 + v"
  proof (cases "8 \<le> bits + 5")
    case True
    have p: "(2 :: nat) ^ bits * 32 = 256 * 2 ^ (bits + 5 - 8)" using True power_add [of "2 :: nat" "bits + 5 - 8" 8] by (simp add: power_add)
    show ?thesis using d True m split_bits [OF True, of "unat acc'"] p by (simp add: algebra_simps)
  next
    case False
    then show ?thesis using d m by (simp add: power_add algebra_simps)
  qed
qed

lemma regroup_value:
  assumes "regroup vs acc bits out = (acc', bits', out')" "list_all (\<lambda>v. v < 32) vs" "unat acc < 8192" "bits < 8" "list_all (\<lambda>x. x < 256) out"
  shows "unat acc' < 8192 \<and> bits' < 8 \<and> list_all (\<lambda>x. x < 256) out' \<and> 8 * length out' + bits' = 8 * length out + bits + 5 * length vs \<and>
    base_value 256 out' * 2 ^ bits' + unat acc' mod 2 ^ bits' = foldl (\<lambda>a x. a * 32 + x) (base_value 256 out * 2 ^ bits + unat acc mod 2 ^ bits) vs"
  using assms
proof (induction vs arbitrary: acc bits out)
  case (Cons v vs)
  obtain b' o' where d: "drainBytes ((push_bit 5 acc OR of_nat v) AND 0x1fff) (bits + 5) out = (b', o')" by fastforce
  note step = regroup_step [OF Cons.prems(3,4) _ refl d]
  have v: "v < 32" using Cons.prems by simp
  have "regroup vs ((push_bit 5 acc OR of_nat v) AND 0x1fff) b' o' = (acc', bits', out')" using Cons.prems(1) d by (simp add: Let_def)
  from Cons.IH [OF this _ step(1,2) step(4)] Cons.prems v show ?case using step(3,5) [OF v] by simp
qed simp

definition address_body :: "string \<Rightarrow> string" where
  "address_body a = (case splitAddress a of None \<Rightarrow> [] | Some (p, d) \<Rightarrow> map to_lower (take (length d - 8) d))"

lemma charsetIndex_Some: "charsetIndex c = Some i \<Longrightarrow> i < 32 \<and> CHARSET ! i = c"
proof -
  assume i: "charsetIndex c = Some i"
  then have "i < length CHARSET" "i = length (takeWhile (\<lambda>d. d \<noteq> c) CHARSET)" by (auto simp: charsetIndex_def Let_def split: if_splits)
  moreover from this have "\<not> CHARSET ! i \<noteq> c" using nth_length_takeWhile [of "\<lambda>d. d \<noteq> c" CHARSET] by blast
  moreover have "length CHARSET = 32" by (simp add: CHARSET_def)
  ultimately show ?thesis by simp
qed

lemma charsetValues_Some: "charsetValues cs = Some vs \<Longrightarrow> list_all (\<lambda>v. v < 32) vs \<and> cs = map ((!) CHARSET) vs"
  by (induction cs arbitrary: vs) (auto split: option.splits dest: charsetIndex_Some)

lemma decodeData_Some:
  assumes "decodeData data = Some out"
  obtains vs where "take (length data - 8) data = map ((!) CHARSET) vs" "list_all (\<lambda>v. v < 32) vs" "list_all (\<lambda>x. x < 256) out"
    "8 * length out \<le> 5 * length vs" "5 * length vs < 8 * length out + 5" "base_value 32 vs = base_value 256 out * 2 ^ (5 * length vs - 8 * length out)"
proof -
  obtain vals acc bits where v: "charsetValues data = Some vals" "regroup (take (length vals - 8) vals) 0 0 [] = (acc, bits, out)"
    and b: "bits < 5" "push_bit (8 - bits) acc AND 0xff = 0"
    using assms by (auto simp: decodeData_def Let_def split: if_splits option.splits prod.splits)
  let ?vs = "take (length vals - 8) vals"
  note c = charsetValues_Some [OF v(1)]
  have small: "list_all (\<lambda>v. v < 32) ?vs" using c by (auto simp: list_all_iff dest: in_set_takeD)
  have r: "unat acc < 8192" "list_all (\<lambda>x. x < 256) out" "8 * length out + bits = 5 * length ?vs"
      "base_value 256 out * 2 ^ bits + unat acc mod 2 ^ bits = base_value 32 ?vs"
    using regroup_value [OF v(2) small] unfolding base_value_def [of 32] by simp_all
  have m: "(0xff :: 32 word) = mask 8" by (simp add: mask_eq_exp_minus_1)
  have "unat (take_bit 8 (push_bit (8 - bits) acc)) = 0" using b(2) unfolding m take_bit_eq_mask [symmetric] by simp
  then have "take_bit 8 (take_bit 32 (push_bit (8 - bits) (unat acc))) = 0" unfolding unsigned_take_bit_eq unsigned_push_bit_eq by simp
  then have "take_bit 8 (unat acc * 2 ^ (8 - bits)) = 0" unfolding push_bit_eq_mult take_bit_take_bit by simp
  then have "unat acc * 2 ^ (8 - bits) mod 2 ^ (bits + (8 - bits)) = 0" using b(1) unfolding take_bit_eq_mod by simp
  then have "unat acc * 2 ^ (8 - bits) mod (2 ^ bits * 2 ^ (8 - bits)) = 0" unfolding power_add .
  then have "unat acc mod 2 ^ bits = 0" unfolding mult_mod_left [symmetric] by simp
  then have "base_value 32 ?vs = base_value 256 out * 2 ^ (5 * length ?vs - 8 * length out)" using r(3,4) by (metis add.right_neutral diff_add_inverse)
  moreover have "take (length data - 8) data = map ((!) CHARSET) ?vs" using c by (metis length_map take_map)
  ultimately show ?thesis using that [of ?vs] r b(1) small by simp
qed

lemma decodeData_inj:
  assumes "decodeData d = Some out" "decodeData d' = Some out"
  shows "take (length d - 8) d = take (length d' - 8) d'"
proof -
  obtain vs where vs: "take (length d - 8) d = map ((!) CHARSET) vs" "list_all (\<lambda>v. v < 32) vs"
    "8 * length out \<le> 5 * length vs" "5 * length vs < 8 * length out + 5" "base_value 32 vs = base_value 256 out * 2 ^ (5 * length vs - 8 * length out)"
    using decodeData_Some [OF assms(1)] by metis
  obtain ws where ws: "take (length d' - 8) d' = map ((!) CHARSET) ws" "list_all (\<lambda>v. v < 32) ws"
    "8 * length out \<le> 5 * length ws" "5 * length ws < 8 * length out + 5" "base_value 32 ws = base_value 256 out * 2 ^ (5 * length ws - 8 * length out)"
    using decodeData_Some [OF assms(2)] by metis
  have "length vs = length ws" using vs(3,4) ws(3,4) by linarith
  then have "vs = ws" using base_value_inj vs(2,5) ws(2,5) by metis
  then show ?thesis using vs(1) ws(1) by simp
qed

lemma byteHex_inj:
  assumes "a < 256" "b < 256" "byteHex a = byteHex b"
  shows "a = b"
proof -
  have "hex_of (hex_digit (a div 16)) = hex_of (hex_digit (b div 16))" "hex_of (hex_digit (a mod 16)) = hex_of (hex_digit (b mod 16))"
    using assms(3) by (simp_all add: byteHex_def)
  then have "a div 16 = b div 16" "a mod 16 = b mod 16" using assms(1,2) by (simp_all add: hex_of_hex_digit)
  then show ?thesis by (metis div_mult_mod_eq)
qed

lemma length_byteHex [simp]: "length (byteHex b) = 2"
  by (simp add: byteHex_def)

lemma payload_hex_inj:
  "length ps = length qs \<Longrightarrow> list_all (\<lambda>x. x < 256) ps \<Longrightarrow> list_all (\<lambda>x. x < 256) qs \<Longrightarrow>
   concat (map byteHex ps) = concat (map byteHex qs) \<Longrightarrow> ps = qs"
proof (induction ps qs rule: list_induct2)
  case (Cons p ps q qs)
  have "byteHex p = byteHex q" "concat (map byteHex ps) = concat (map byteHex qs)" using Cons.prems(3) length_byteHex by simp_all
  then show ?case using Cons byteHex_inj [of p q] by simp
qed simp

lemma address_decoded:
  assumes "expectedScriptPublicKeyHex (JStr a) = Some s"
  obtains p d v payload where "splitAddress a = Some (p, d)" "decodeData (map to_lower d) = Some (v # payload)" "list_all (\<lambda>x. x < 256) payload"
    "(v, length payload, s) \<in> {(0, 32, ''20'' @ concat (map byteHex payload) @ ''ac''), (1, 33, ''21'' @ concat (map byteHex payload) @ ''ab''),
       (8, 32, ''aa20'' @ concat (map byteHex payload) @ ''87'')}"
proof -
  obtain p d out where d: "splitAddress a = Some (p, d)" "decodeData (map to_lower d) = Some out"
    and s: "(hd out, length (tl out), s) \<in> {(0, 32, ''20'' @ concat (map byteHex (tl out)) @ ''ac''), (1, 33, ''21'' @ concat (map byteHex (tl out)) @ ''ab''),
       (8, 32, ''aa20'' @ concat (map byteHex (tl out)) @ ''87'')}"
    using assms by (auto simp: expectedScriptPublicKeyHex_def decodeKaspaAddress_def Let_def split: option.splits if_splits)
  have "list_all (\<lambda>x. x < 256) out" using decodeData_Some [OF d(2)] by metis
  then show ?thesis using that [of p d "hd out" "tl out"] d s by (cases out) auto
qed

text \<open>C18: addresses that denote the same script are the same address, up to letter case, prefix and checksum. Comparing scripts,
  as the check of a signed transaction does, therefore compares the destinations.\<close>

theorem script_determines_address:
  assumes "expectedScriptPublicKeyHex (JStr a) = Some s" "expectedScriptPublicKeyHex (JStr b) = Some s"
  shows "address_body a = address_body b"
proof -
  obtain p d v payload where 1: "splitAddress a = Some (p, d)" "decodeData (map to_lower d) = Some (v # payload)" "list_all (\<lambda>x. x < 256) payload"
    "(v, length payload, s) \<in> {(0, 32, ''20'' @ concat (map byteHex payload) @ ''ac''), (1, 33, ''21'' @ concat (map byteHex payload) @ ''ab''),
       (8, 32, ''aa20'' @ concat (map byteHex payload) @ ''87'')}"
    using address_decoded [OF assms(1)] by metis
  obtain p' d' v' payload' where 2: "splitAddress b = Some (p', d')" "decodeData (map to_lower d') = Some (v' # payload')" "list_all (\<lambda>x. x < 256) payload'"
    "(v', length payload', s) \<in> {(0, 32, ''20'' @ concat (map byteHex payload') @ ''ac''), (1, 33, ''21'' @ concat (map byteHex payload') @ ''ab''),
       (8, 32, ''aa20'' @ concat (map byteHex payload') @ ''87'')}"
    using address_decoded [OF assms(2)] by metis
  have "v = v'" "length payload = length payload'" "concat (map byteHex payload) = concat (map byteHex payload')" using 1(4) 2(4) by auto
  then have "v # payload = v' # payload'" using payload_hex_inj 1(3) 2(3) by metis
  then show ?thesis using decodeData_inj [OF 1(2)] 1(1) 2(1,2) by (simp add: address_body_def take_map)
qed

definition ex_address :: string where
  "ex_address = ''kaspasim:'' @ replicate 53 (CHR ''q'') @ replicate 8 (CHR ''p'')"

definition ex_address_upper :: string where
  "ex_address_upper = ''kaspatest:'' @ replicate 53 (CHR ''Q'') @ replicate 8 (CHR ''Z'')"

lemma regroup_zeros:
  "b < 8 \<Longrightarrow> regroup (replicate n 0) 0 b out = (0, (b + 5 * n) mod 8, out @ replicate ((b + 5 * n) div 8) 0)"
proof (induction n arbitrary: b out)
  case (Suc n)
  have "(b + 5 * Suc n) mod 8 = (b + 5 - 8 + 5 * n) mod 8" "(b + 5 * Suc n) div 8 = Suc ((b + 5 - 8 + 5 * n) div 8)" if "8 \<le> b + 5"
    using that le_mod_geq [of 8 "b + 5 * Suc n"] le_div_geq [of 8 "b + 5 * Suc n"] by simp_all
  moreover have "b + 5 * Suc n = b + 5 + 5 * n" by simp
  ultimately show ?case using Suc.prems Suc.IH [of "b + 5 - 8" "out @ [0]"] Suc.IH [of "b + 5" out] by (auto simp: drain_cases add.assoc)
qed simp

lemma ex_scripts:
  "expectedScriptPublicKeyHex (JStr ex_address) = Some (''20'' @ replicate 64 (CHR ''0'') @ ''ac'')"
  "expectedScriptPublicKeyHex (JStr ex_address_upper) = Some (''20'' @ replicate 64 (CHR ''0'') @ ''ac'')"
proof -
  have a: "splitAddress ex_address = Some (''kaspasim'', replicate 53 (CHR ''q'') @ replicate 8 (CHR ''p''))"
    "splitAddress ex_address_upper = Some (''kaspatest'', replicate 53 (CHR ''Q'') @ replicate 8 (CHR ''Z''))" by code_simp+
  have v: "charsetValues (map to_lower (replicate 53 (CHR ''q'') @ replicate 8 (CHR ''p''))) = Some (replicate 53 0 @ replicate 8 1)"
    "charsetValues (map to_lower (replicate 53 (CHR ''Q'') @ replicate 8 (CHR ''Z''))) = Some (replicate 53 0 @ replicate 8 2)" by code_simp+
  have "decodeData (map to_lower (replicate 53 (CHR ''q'') @ replicate 8 (CHR ''p''))) = Some (replicate 33 0)"
    "decodeData (map to_lower (replicate 53 (CHR ''Q'') @ replicate 8 (CHR ''Z''))) = Some (replicate 33 0)"
    unfolding decodeData_def v by (simp_all only: option.case length_map length_append length_replicate) (simp_all add: regroup_zeros)
  moreover have "concat (map byteHex (replicate 32 0)) = replicate 64 (CHR ''0'')" by code_simp
  ultimately show "expectedScriptPublicKeyHex (JStr ex_address) = Some (''20'' @ replicate 64 (CHR ''0'') @ ''ac'')"
    "expectedScriptPublicKeyHex (JStr ex_address_upper) = Some (''20'' @ replicate 64 (CHR ''0'') @ ''ac'')"
    unfolding expectedScriptPublicKeyHex_def decodeKaspaAddress_def json.case a option.case prod.case by (simp_all add: Let_def)
qed

theorem script_determines_address_witness:
  "ex_address \<noteq> ex_address_upper \<and> address_body ex_address = address_body ex_address_upper"
proof
  show "ex_address \<noteq> ex_address_upper" by code_simp
  show "address_body ex_address = address_body ex_address_upper" by (rule script_determines_address [OF ex_scripts])
qed

subsection \<open>What a match means\<close>

definition plan_items :: "json \<Rightarrow> string \<Rightarrow> json list" where
  "plan_items plan k = (case jget plan k of JArr xs \<Rightarrow> xs | _ \<Rightarrow> [])"

definition planned_key :: "json \<Rightarrow> string" where
  "planned_key pi = template_text (jget (jget pi ''outpoint'') ''transactionId'') @ '':'' @ numberText (jget (jget pi ''outpoint'') ''index'')"

definition item_amount :: "json \<Rightarrow> int" where
  "item_amount x = (case toBig (jget x ''amountSompi'') of Some n \<Rightarrow> n | None \<Rightarrow> 0)"

definition authorized :: "json \<Rightarrow> json list" where
  "authorized plan = plan_items plan ''outputs'' @ (if truthy (jget plan ''change'') then [jget plan ''change''] else [])"

definition same_address :: "json \<Rightarrow> SignedOutput \<Rightarrow> bool" where
  "same_address address got \<longleftrightarrow> (\<exists>a w. sg_address got = Some a \<and> address = JStr w \<and> map to_lower a = map to_lower w)"

definition pays :: "json \<Rightarrow> SignedOutput \<Rightarrow> bool" where
  "pays item got \<longleftrightarrow> sg_amount got = item_amount item \<and>
     (case (expectedScriptPublicKeyHex (jget item ''address''), sg_script got) of
        (Some s, Some s') \<Rightarrow> s' = s
      | _ \<Rightarrow> same_address (jget item ''address'') got)"

lemma jfield_get: "jfield j k = Inr v \<Longrightarrow> v = jget j k"
  by (auto simp: jfield_def split: if_splits)

definition planned_amounts :: "json list \<Rightarrow> (string \<times> int) list" where
  "planned_amounts ps = foldl (\<lambda>m pi. AList.update (planned_key pi) (item_amount pi) m) [] ps"

lemma planInputs_Some:
  "planInputs ps m = Inr (Some m') \<Longrightarrow>
   m' = foldl (\<lambda>m pi. AList.update (planned_key pi) (item_amount pi) m) m ps \<and> list_all (\<lambda>pi. toBig (jget pi ''amountSompi'') \<noteq> None) ps"
proof (induction ps arbitrary: m)
  case (Cons p ps)
  then obtain n op t where n: "toBig (jget p ''amountSompi'') = Some n" "jfield p ''outpoint'' = Inr op" "jfield op ''transactionId'' = Inr t"
    and r: "planInputs ps (AList.update (template_text t @ '':'' @ numberText (jget op ''index'')) n m) = Inr (Some m')"
    by (auto dest!: jfield_get [of p "''amountSompi''"] split: option.splits)
  have "template_text t @ '':'' @ numberText (jget op ''index'') = planned_key p" "item_amount p = n"
    using n jfield_get [OF n(2)] jfield_get [OF n(3)] by (simp_all add: planned_key_def item_amount_def)
  then show ?case using Cons.IH [OF r] n(1) by simp
qed simp

lemma keys_planned: "fst ` set (planned_amounts ps) = planned_key ` set ps"
proof -
  have "fst ` set (foldl (\<lambda>m pi. AList.update (planned_key pi) (item_amount pi) m) m ps) = fst ` set m \<union> planned_key ` set ps" for m
    by (induction ps arbitrary: m) (auto simp: dom_update simp flip: dom_map_of_conv_image_fst)
  then show ?thesis by (simp add: planned_amounts_def)
qed

text \<open>The amount a plan lists last for an outpoint: a \<open>Map\<close> keeps the last of several entries.\<close>

definition last_listed :: "json list \<Rightarrow> string \<Rightarrow> int" where
  "last_listed ps k = the (map_of (rev (map (\<lambda>p. (planned_key p, item_amount p)) ps)) k)"

lemma planned_last: "the (map_of (planned_amounts ps) k) = last_listed ps k"
proof -
  have "map_of (foldl (\<lambda>m pi. AList.update (planned_key pi) (item_amount pi) m) m ps) k =
    (case map_of (rev (map (\<lambda>p. (planned_key p, item_amount p)) ps)) k of Some v \<Rightarrow> Some v | None \<Rightarrow> map_of m k)" for m
    by (induction ps arbitrary: m) (auto simp: map_of_update map_add_def split: option.splits)
  then show ?thesis unfolding planned_amounts_def last_listed_def by (simp split: option.splits)
qed

lemma planned_amount:
  "distinct (map planned_key ps) \<Longrightarrow> map_of (foldl (\<lambda>m pi. AList.update (planned_key pi) (item_amount pi) m) m ps) k =
    (case List.find (\<lambda>pi. planned_key pi = k) ps of Some pi \<Rightarrow> Some (item_amount pi) | None \<Rightarrow> map_of m k)"
proof (induction ps arbitrary: m)
  case (Cons p ps)
  have "List.find (\<lambda>pi. planned_key pi = k) ps = None" if "planned_key p = k" using Cons.prems that unfolding find_None_iff by (metis distinct.simps(2) image_eqI list.set_map list.simps(9))
  then show ?case using Cons by (auto simp: map_of_update split: option.splits)
qed simp

lemma consumed:
  assumes "distinct (map planned_key ps)" "distinct ins" "set ins = planned_key ` set ps"
  shows "sum_list (map (\<lambda>k. the (map_of (planned_amounts ps) k)) ins) = sum_list (map item_amount ps)"
proof -
  let ?f = "\<lambda>k. the (map_of (planned_amounts ps) k)"
  have f: "?f (planned_key p) = item_amount p" if "p \<in> set ps" for p
  proof -
    have "List.find (\<lambda>pi. planned_key pi = planned_key p) ps = Some p"
      using assms(1) that by (induction ps) (auto simp: image_iff)
    then show ?thesis by (simp add: planned_amounts_def planned_amount [OF assms(1)])
  qed
  have "mset ins = mset (map planned_key ps)" using assms set_eq_iff_mset_eq_distinct [of ins "map planned_key ps"] by simp
  then have "sum_list (map ?f ins) = sum_list (map ?f (map planned_key ps))" by (rule sum_list_mset_cong)
  also have "\<dots> = sum_list (map item_amount ps)" using f by (simp add: comp_def cong: map_cong)
  finally show ?thesis .
qed

lemma inputMismatch_None:
  "inputMismatch ins m = None \<Longrightarrow> distinct ins \<and> set ins = fst ` set m"
  by (auto simp: inputMismatch_def find_None_iff split: if_splits option.splits)

lemma compareOutput_None:
  assumes "compareOutput want got = Inr None"
  shows "sg_amount got = eo_amount want \<and>
     (case (expectedScriptPublicKeyHex (eo_address want), sg_script got) of
        (Some s, Some s') \<Rightarrow> s' = s
      | _ \<Rightarrow> same_address (eo_address want) got)"
  using assms by (auto simp: compareOutput_def compareAddress_def same_address_def split: if_splits option.splits json.splits)

lemma compareOutputs_None:
  "length ws = length gs \<Longrightarrow> compareOutputs ws gs = Inr None \<Longrightarrow>
   list_all2 (\<lambda>want got. compareOutput want got = Inr None) ws gs"
  by (induction ws gs rule: list_induct2) (auto split: option.splits)

lemma expectedOutput_Some:
  "expectedOutput role item = Inr (Some e) \<Longrightarrow> eo_address e = jget item ''address'' \<and> eo_amount e = item_amount item"
  by (auto simp: expectedOutput_def item_amount_def dest!: jfield_get)

lemma pays_expected:
  assumes "expectedOutput role item = Inr (Some e)" "compareOutput e got = Inr None"
  shows "pays item got"
proof -
  have e: "jget item ''address'' = eo_address e" "item_amount item = eo_amount e" using expectedOutput_Some [OF assms(1)] by simp_all
  show ?thesis unfolding pays_def e by (rule compareOutput_None [OF assms(2)])
qed

lemma payments_listed:
  assumes "authorizedPayments plan = Inr es"
  shows "list_all2 (\<lambda>item e. \<exists>role. expectedOutput role item = Inr e) (plan_items plan ''outputs'') es"
proof -
  obtain os where os: "jlist (jnn (jget plan ''outputs'') (JArr [])) = Inr os"
    and m: "mapE (\<lambda>(i, out). expectedOutput (''output['' @ nat_str i @ '']'') out) (enumerate 0 os) = Inr es"
    using assms by (auto simp: authorizedPayments_def)
  have "os = plan_items plan ''outputs''" using os by (auto simp: jlist_def jnn_def plan_items_def split: json.splits if_splits)
  moreover have "mapE (\<lambda>(i, out). expectedOutput (''output['' @ nat_str i @ '']'') out) (enumerate n os) = Inr es \<Longrightarrow>
      list_all2 (\<lambda>item e. \<exists>role. expectedOutput role item = Inr e) os es" for n
    by (induction os arbitrary: n es) auto
  ultimately show ?thesis using m by simp
qed

lemma matched_pays:
  assumes "list_all2 (\<lambda>item e. \<exists>role. expectedOutput role item = Inr e) items es" "list_all (\<lambda>x. x \<noteq> None) es"
    "list_all2 (\<lambda>want got. compareOutput want got = Inr None) (map the es) outs"
  shows "list_all2 pays items outs"
  using assms
proof (induction items es arbitrary: outs rule: list_all2_induct)
  case (Cons item items e es)
  then show ?case using pays_expected by (cases outs) auto
qed simp

lemma outputs_parts:
  assumes "checkOutputs plan ins outs = Inr (PlanMatches ins' outs')"
  shows "\<exists>es cs. authorizedPayments plan = Inr es \<and> list_all (\<lambda>x. x \<noteq> None) es \<and>
    (if truthy (jget plan ''change'') then bindE (expectedOutput ''change'' (jget plan ''change'')) (\<lambda>c. Inr [c]) else Inr []) = Inr cs \<and>
    list_all (\<lambda>x. x \<noteq> None) cs \<and> length outs = length (map the (es @ cs)) \<and> compareOutputs (map the (es @ cs)) outs = Inr None \<and>
    ins' = ins \<and> outs' = outs"
proof -
  let ?change = "if truthy (jget plan ''change'') then bindE (expectedOutput ''change'' (jget plan ''change'')) (\<lambda>c. Inr [c]) else Inr []"
  obtain es where es: "authorizedPayments plan = Inr es" "list_all (\<lambda>x. x \<noteq> None) es"
    using assms by (cases "authorizedPayments plan") (auto simp: checkOutputs_def split: if_splits)
  obtain cs where cs: "?change = Inr cs" using assms es by (cases ?change) (simp_all add: checkOutputs_def)
  have rest: "(if \<not> list_all (\<lambda>x. x \<noteq> None) cs then Inr (PlanInsufficient reasonPlanChange)
      else if length outs \<noteq> length (map the (es @ cs)) then Inr (PlanMismatch (reasonCount (length outs) (length (map the (es @ cs)))))
      else bindE (compareOutputs (map the (es @ cs)) outs) (\<lambda>r. Inr (case r of Some e \<Rightarrow> PlanMismatch e | None \<Rightarrow> PlanMatches ins outs))) =
      Inr (PlanMatches ins' outs')"
    using assms es cs unfolding checkOutputs_def Let_def by simp
  have "list_all (\<lambda>x. x \<noteq> None) cs" "length outs = length (map the (es @ cs))" using rest by (auto split: if_splits)
  moreover from this rest obtain r where "compareOutputs (map the (es @ cs)) outs = Inr r" "(case r of Some e \<Rightarrow> PlanMismatch e | None \<Rightarrow> PlanMatches ins outs) = PlanMatches ins' outs'"
    by auto
  ultimately show ?thesis using es cs by (cases r) auto
qed

lemma checkOutputs_match:
  assumes "checkOutputs plan ins outs = Inr (PlanMatches ins' outs')"
  shows "ins' = ins \<and> outs' = outs \<and> list_all2 pays (authorized plan) outs"
proof -
  let ?c = "jget plan ''change''"
  obtain es cs where es: "authorizedPayments plan = Inr es" "list_all (\<lambda>x. x \<noteq> None) es"
    and cs: "(if truthy ?c then bindE (expectedOutput ''change'' ?c) (\<lambda>c. Inr [c]) else Inr []) = Inr cs" "list_all (\<lambda>x. x \<noteq> None) cs"
    and len: "length outs = length (map the (es @ cs))" and cmp: "compareOutputs (map the (es @ cs)) outs = Inr None"
    and r: "ins' = ins" "outs' = outs"
    using outputs_parts [OF assms] by metis
  have "list_all2 (\<lambda>item e. \<exists>role. expectedOutput role item = Inr e) (if truthy ?c then [?c] else []) cs"
    using cs(1) by (auto split: if_splits)
  then have "list_all2 (\<lambda>item e. \<exists>role. expectedOutput role item = Inr e) (authorized plan) (es @ cs)"
    unfolding authorized_def by (intro list_all2_appendI payments_listed [OF es(1)])
  moreover have "list_all (\<lambda>x. x \<noteq> None) (es @ cs)" using es(2) cs(2) by simp
  moreover have "list_all2 (\<lambda>want got. compareOutput want got = Inr None) (map the (es @ cs)) outs"
    using compareOutputs_None [OF _ cmp] len by simp
  ultimately have "list_all2 pays (authorized plan) outs"
    by (rule matched_pays)
  then show ?thesis using r by simp
qed

lemma check_parts:
  assumes "checkSignedAgainstPlan parse stx plan = Inr (PlanMatches ins outs)"
  shows "\<exists>ps m ins' outs'. parseSignedTransactionPayload parse (jget stx ''payload'') = Inr (ins', outs') \<and> is_HEX64 (jget plan ''contentHash'') \<and>
    iterateE (jnn (jget plan ''inputs'') (JArr [])) = Inr ps \<and> planInputs ps [] = Inr (Some m) \<and> m \<noteq> [] \<and>
    inputMismatch ins' m = None \<and> checkOutputs plan ins' outs' = Inr (PlanMatches ins outs)"
proof -
  have g: "is_HEX64 (jget plan ''contentHash'')" "jget stx ''payload'' \<noteq> JUndefined" using assms by (auto simp: checkSignedAgainstPlan_def split: if_splits)
  obtain ins' outs' where p: "parseSignedTransactionPayload parse (jget stx ''payload'') = Inr (ins', outs')"
    using assms g by (cases "parseSignedTransactionPayload parse (jget stx ''payload'')") (auto simp: checkSignedAgainstPlan_def)
  obtain ps found where f: "iterateE (jnn (jget plan ''inputs'') (JArr [])) = Inr ps" "planInputs ps [] = Inr found"
    using assms g p by (auto simp: checkSignedAgainstPlan_def)
  obtain m where "found = Some m" using assms g p f by (cases found) (simp_all add: checkSignedAgainstPlan_def)
  then show ?thesis using assms g p f by (cases "inputMismatch ins' m") (auto simp: checkSignedAgainstPlan_def split: if_splits)
qed

lemma check_match:
  assumes "checkSignedAgainstPlan parse stx plan = Inr (PlanMatches ins outs)"
  shows "parseSignedTransactionPayload parse (jget stx ''payload'') = Inr (ins, outs)" "is_HEX64 (jget plan ''contentHash'')"
    "iterateE (jnn (jget plan ''inputs'') (JArr [])) = Inr (plan_items plan ''inputs'')"
    "planInputs (plan_items plan ''inputs'') [] =
       Inr (Some (planned_amounts (plan_items plan ''inputs'')))"
    "distinct ins" "set ins = planned_key ` set (plan_items plan ''inputs'')" "list_all2 pays (authorized plan) outs"
proof -
  obtain ps m ins' outs' where p: "parseSignedTransactionPayload parse (jget stx ''payload'') = Inr (ins', outs')" "is_HEX64 (jget plan ''contentHash'')"
    and ps: "iterateE (jnn (jget plan ''inputs'') (JArr [])) = Inr ps" "planInputs ps [] = Inr (Some m)" "m \<noteq> []"
    and i: "inputMismatch ins' m = None" and o: "checkOutputs plan ins' outs' = Inr (PlanMatches ins outs)"
    using check_parts [OF assms] by metis
  note m = planInputs_Some [OF ps(2), folded planned_amounts_def]
  have "ps = plan_items plan ''inputs''"
  proof -
    have False if "jget plan ''inputs'' = JStr s" for s
    proof -
      have "ps = map (\<lambda>c. JStr [c]) s" using ps(1) that by (simp add: iterateE_def)
      moreover have "toBig (jget (JStr [c]) ''amountSompi'') = None" for c by (simp add: toBig_def jget_def)
      ultimately have "ps = []" using m by (cases s) auto
      then show False using ps(2,3) by simp
    qed
    then show ?thesis using ps(1) by (auto simp: iterateE_def jnn_def plan_items_def split: json.splits if_splits)
  qed
  moreover have "ins' = ins" "outs' = outs" "list_all2 pays (authorized plan) outs'" using checkOutputs_match [OF o] by simp_all
  moreover have "distinct ins'" "set ins' = planned_key ` set ps" using inputMismatch_None [OF i] m keys_planned [of ps] by auto
  ultimately show "parseSignedTransactionPayload parse (jget stx ''payload'') = Inr (ins, outs)" "is_HEX64 (jget plan ''contentHash'')"
    "iterateE (jnn (jget plan ''inputs'') (JArr [])) = Inr (plan_items plan ''inputs'')"
    "planInputs (plan_items plan ''inputs'') [] =
       Inr (Some (planned_amounts (plan_items plan ''inputs'')))"
    "distinct ins" "set ins = planned_key ` set (plan_items plan ''inputs'')" "list_all2 pays (authorized plan) outs"
    using p ps m by simp_all
qed

subsection \<open>Derived fees\<close>

lemma sum_pays: "list_all2 pays items outs \<Longrightarrow> sum_list (map sg_amount outs) = sum_list (map item_amount items)"
  by (induction rule: list_all2_induct) (auto simp: pays_def)

lemma derived_parts:
  assumes "deriveSubmissionFee parse stx plan = Inr fee" "jget fee ''status'' = JStr ''derived''"
  obtains ins outs where "checkSignedAgainstPlan parse stx plan = Inr (PlanMatches ins outs)"
    "fee = priceTransaction (planned_amounts (plan_items plan ''inputs'')) ins outs (jget plan ''contentHash'')"
    "sum_list (map sg_amount outs) \<le> sum_list (map (\<lambda>k. the (map_of (planned_amounts (plan_items plan ''inputs'')) k)) ins)"
proof -
  obtain check where c: "checkSignedAgainstPlan parse stx plan = Inr check" using assms(1) by (auto simp: deriveSubmissionFee_def)
  show ?thesis
  proof (cases check)
    case (PlanMatches ins outs)
    let ?m = "planned_amounts (plan_items plan ''inputs'')"
    note k = check_match [OF c [unfolded PlanMatches]]
    have f: "fee = priceTransaction ?m ins outs (jget plan ''contentHash'')"
      using assms(1) c k(3,4) PlanMatches by (simp add: deriveSubmissionFee_def)
    then have "\<not> sum_list (map (\<lambda>k. the (map_of ?m k)) ins) < sum_list (map sg_amount outs)"
      using assms(2) by (auto simp: priceTransaction_def insufficientFee_def Let_def)
    then show ?thesis using that [OF c [unfolded PlanMatches] f] by simp
  qed (use assms c in \<open>auto simp: deriveSubmissionFee_def insufficientFee_def\<close>)
qed

text \<open>C16: a fee is only called derived for the transaction that the plan authorized: the signed payload spends exactly the
  outpoints the plan lists, each once, and pays exactly its outputs and its change, in order, with their amounts to their
  destinations. The recorded fee is the sum of the amounts of these outpoints minus what the plan produces, and it is not
  negative. An outpoint counts with the amount the plan lists last for it; when the plan lists no outpoint twice, the
  inputs match one to one and the fee is the difference of the plan's own sums. (That a plan may list an outpoint twice is
  not checked: lemma \<open>repeated_input_priced_once\<close>.)\<close>

theorem derived_fee_sound:
  assumes "deriveSubmissionFee parse stx plan = Inr fee" "jget fee ''status'' = JStr ''derived''"
  shows "\<exists>ins outs n. parseSignedTransactionPayload parse (jget stx ''payload'') = Inr (ins, outs) \<and>
    distinct ins \<and> set ins = planned_key ` set (plan_items plan ''inputs'') \<and> list_all2 pays (authorized plan) outs \<and>
    jget fee ''feeSompi'' = JStr (int_str n) \<and> 0 \<le> n \<and>
    n = sum_list (map (last_listed (plan_items plan ''inputs'')) ins) - sum_list (map item_amount (authorized plan)) \<and>
    (distinct (map planned_key (plan_items plan ''inputs'')) \<longrightarrow>
      mset ins = mset (map planned_key (plan_items plan ''inputs'')) \<and>
      n = sum_list (map item_amount (plan_items plan ''inputs'')) - sum_list (map item_amount (authorized plan)))"
proof -
  let ?ps = "plan_items plan ''inputs''"
  let ?m = "planned_amounts ?ps"
  obtain ins outs where c: "checkSignedAgainstPlan parse stx plan = Inr (PlanMatches ins outs)"
    and f: "fee = priceTransaction ?m ins outs (jget plan ''contentHash'')" "sum_list (map sg_amount outs) \<le> sum_list (map (\<lambda>k. the (map_of ?m k)) ins)"
    by (rule derived_parts [OF assms(1,2)])
  note k = check_match [OF c]
  let ?n = "sum_list (map (last_listed ?ps) ins) - sum_list (map item_amount (authorized plan))"
  have l: "map (\<lambda>k. the (map_of ?m k)) ins = map (last_listed ?ps) ins" by (simp add: planned_last)
  note p = sum_pays [OF k(7)]
  have "jget fee ''feeSompi'' = JStr (int_str ?n)" using f unfolding priceTransaction_def l p Let_def by simp
  moreover have "0 \<le> ?n" using f(2) unfolding l p by linarith
  moreover have "mset ins = mset (map planned_key ?ps) \<and> ?n = sum_list (map item_amount ?ps) - sum_list (map item_amount (authorized plan))"
    if d: "distinct (map planned_key ?ps)"
    using consumed [OF d k(5,6)] l k(5,6) d set_eq_iff_mset_eq_distinct [of ins "map planned_key ?ps"] by simp
  ultimately show ?thesis using k(1,5,6,7) by blast
qed

lemma decimal_int_str: "0 \<le> n \<Longrightarrow> decimal_val (int_str n) = Some n"
  by (simp add: int_str_def)

lemma digits_int_str: "0 \<le> n \<Longrightarrow> decimalDigits (int_str n)"
  by (simp add: int_str_def decimalDigits_def)

lemma parseTransaction_cases:
  "parseTransaction tx = Inl reasonNoArrays \<or> (\<exists>is os. parseTransaction tx = bindE (mapE signedInput is) (\<lambda>inputs.
     bindE (mapE signedOutput os) (\<lambda>outputs. if inputs = [] \<or> outputs = [] then Inl reasonEmpty else Inr (inputs, outputs))))"
  unfolding parseTransaction_def by (cases "jget tx ''inputs''"; cases "jget tx ''outputs''") auto

lemma parsed_nonempty:
  assumes "parseSignedTransactionPayload parse payload = Inr (ins, outs)"
  shows "ins \<noteq> [] \<and> outs \<noteq> []"
proof -
  obtain tx where tx: "parseTransaction tx = Inr (ins, outs)" using assms by (auto simp: parseSignedTransactionPayload_def)
  from parseTransaction_cases [of tx, unfolded tx] show ?thesis
  proof (elim disjE exE)
    fix "is" os
    assume e: "Inr (ins, outs) = bindE (mapE signedInput is) (\<lambda>inputs. bindE (mapE signedOutput os) (\<lambda>outputs.
      if inputs = [] \<or> outputs = [] then Inl reasonEmpty else Inr (inputs, outputs)))"
    show ?thesis using e [symmetric] by (auto split: if_splits)
  qed simp
qed

lemma mapE_reason: "(\<And>x e. f x = Inl e \<Longrightarrow> e \<noteq> []) \<Longrightarrow> mapE f xs = Inl e \<Longrightarrow> e \<noteq> []"
  by (induction xs) (auto simp: bindE_Inl)

lemma unwrap_reason: "unwrapText parse n j = Inl e \<Longrightarrow> e \<noteq> []"
  by (induction parse n j rule: unwrapText.induct) (auto simp: reasonNotJson_def split: option.splits)

lemma item_reasons: "signedInput i = Inl e \<Longrightarrow> e \<noteq> []" "signedOutput j = Inl e \<Longrightarrow> e \<noteq> []"
  by (auto simp: signedInput_def signedOutput_def reasonNoOutpoint_def reasonNoAmount_def split: option.splits)

lemma parse_reason:
  assumes "parseSignedTransactionPayload parse payload = Inl e"
  shows "e \<noteq> []"
proof -
  have t: "x \<noteq> []" if "parsePayloadText parse payload = Inl x" for x
    using that by (auto simp: parsePayloadText_def reasonOpaque_def split: json.splits option.splits)
  have m: "x \<noteq> []" if "mapE signedInput is = Inl x \<or> mapE signedOutput os = Inl x" for x "is" os
    using that mapE_reason [of signedInput "is" x] mapE_reason [of signedOutput os x] item_reasons by blast
  have c: "reasonEmpty \<noteq> []" "reasonNoArrays \<noteq> []" by (simp_all add: reasonEmpty_def reasonNoArrays_def)
  have "x \<noteq> []" if x: "parseTransaction tx = Inl x" for tx x
    using parseTransaction_cases [of tx, unfolded x]
  proof (elim disjE exE)
    fix "is" os
    assume e: "Inl x = bindE (mapE signedInput is) (\<lambda>inputs. bindE (mapE signedOutput os) (\<lambda>outputs.
      if inputs = [] \<or> outputs = [] then Inl reasonEmpty else Inr (inputs, outputs)))"
    show ?thesis using e [symmetric] m [of "is" x os] c by (auto simp: bindE_Inl split: if_splits)
  qed (use c in simp)
  then show ?thesis using assms t unwrap_reason unfolding parseSignedTransactionPayload_def bindE_Inl by metis
qed

lemma output_reason: "checkOutputs plan ins outs = Inr (PlanInsufficient r) \<Longrightarrow> r \<in> {reasonPlanOutput, reasonPlanChange}"
  by (auto simp: checkOutputs_def Let_def split: if_splits option.splits)

lemma check_reason:
  assumes "checkSignedAgainstPlan parse stx plan = Inr (PlanInsufficient r)"
  shows "r \<noteq> []"
proof -
  have c: "reasonNoPlan \<noteq> []" "reasonNoPayload \<noteq> []" "reasonPlanInput \<noteq> []" "reasonNoInputs \<noteq> []" "reasonPlanOutput \<noteq> []" "reasonPlanChange \<noteq> []"
    by (simp_all add: reasonNoPlan_def reasonNoPayload_def reasonPlanInput_def reasonNoInputs_def reasonPlanOutput_def reasonPlanChange_def)
  show ?thesis
  proof (cases "parseSignedTransactionPayload parse (jget stx ''payload'')")
    case (Inl e)
    then show ?thesis using assms c parse_reason [OF Inl] by (auto simp: checkSignedAgainstPlan_def split: if_splits)
  next
    case (Inr io)
    obtain ins outs where io: "io = (ins, outs)" by fastforce
    have "r \<in> {reasonNoPlan, reasonNoPayload, reasonPlanInput, reasonNoInputs, reasonPlanOutput, reasonPlanChange}"
    proof (cases "is_HEX64 (jget plan ''contentHash'') \<and> jget stx ''payload'' \<noteq> JUndefined")
      case True
      then obtain ps found where f: "iterateE (jnn (jget plan ''inputs'') (JArr [])) = Inr ps" "planInputs ps [] = Inr found"
        using assms Inr io by (auto simp: checkSignedAgainstPlan_def)
      show ?thesis
      proof (cases found)
        case (Some m)
        then show ?thesis using assms Inr io True f output_reason [of plan ins outs r]
          by (cases "inputMismatch ins m") (auto simp: checkSignedAgainstPlan_def split: if_splits)
      qed (use assms Inr io True f in \<open>simp add: checkSignedAgainstPlan_def\<close>)
    qed (use assms in \<open>auto simp: checkSignedAgainstPlan_def split: if_splits\<close>)
    then show ?thesis using c by auto
  qed
qed

lemma derived_conforms:
  assumes "0 \<le> i" "0 \<le> out" "0 \<le> i - out" "ins \<noteq> []" "outs \<noteq> []" "is_HEX64 planId" "sum_list (map (\<lambda>k. the (map_of m k)) ins) = i" "sum_list (map sg_amount outs) = out"
  shows "checkSubmissionFeeCoherence (priceTransaction m ins outs planId) \<and> conforms dt submissionFeeSchema (priceTransaction m ins outs planId) \<and>
    plain_json (priceTransaction m ins outs planId)"
proof -
  obtain h where h: "planId = JStr h" "HEX64 h" using assms(6) by (auto simp: is_HEX64_def split: json.splits)
  have "\<not> i < out" using assms(3) by simp
  moreover have "0 < length ins" "0 < length outs" using assms(4,5) by simp_all
  then have "1 \<le> int (length ins)" "1 \<le> int (length outs)" by linarith+
  ultimately show ?thesis using assms(1-3) h
    unfolding priceTransaction_def assms(7,8) Let_def
    by (simp add: checkSubmissionFeeCoherence_def toBig_def decimal_int_str digits_int_str is_HEX64_def submissionFeeSchema_def decimalString_def Hex64Schema_def text_of_def)
qed

lemma insufficient_conforms:
  assumes "r \<noteq> []"
  shows "checkSubmissionFeeCoherence (insufficientFee r) \<and> conforms dt submissionFeeSchema (insufficientFee r) \<and> plain_json (insufficientFee r)"
  using assms by (simp add: insufficientFee_def checkSubmissionFeeCoherence_def submissionFeeSchema_def nonEmptyText_def text_of_def)

lemma consumed_nonneg:
  "list_all (\<lambda>p. 0 \<le> item_amount p) ps \<Longrightarrow> set ins \<subseteq> planned_key ` set ps \<Longrightarrow> 0 \<le> sum_list (map (\<lambda>k. the (map_of (planned_amounts ps) k)) ins)"
proof -
  assume nn: "list_all (\<lambda>p. 0 \<le> item_amount p) ps" and s: "set ins \<subseteq> planned_key ` set ps"
  have "snd e \<in> item_amount ` set ps" if "e \<in> set (planned_amounts ps)" for e
  proof -
    have "snd e \<in> snd ` set m \<union> item_amount ` set ps" if "e \<in> set (foldl (\<lambda>m pi. AList.update (planned_key pi) (item_amount pi) m) m ps)" for m
      using that
    proof (induction ps arbitrary: m)
      case (Cons p ps)
      have "snd ` set (AList.update (planned_key p) (item_amount p) m) \<subseteq> insert (item_amount p) (snd ` set m)" by (induction m) auto
      moreover have "snd e \<in> snd ` set (AList.update (planned_key p) (item_amount p) m) \<union> item_amount ` set ps" using Cons.IH Cons.prems by simp
      ultimately show ?case by auto
    qed simp
    from this [of "[]"] show ?thesis using that unfolding planned_amounts_def by simp
  qed
  then have nonneg: "0 \<le> v" if "(k, v) \<in> set (planned_amounts ps)" for k v using nn that unfolding list_all_iff by fastforce
  have "0 \<le> the (map_of (planned_amounts ps) k)" if "k \<in> set ins" for k
  proof -
    have "k \<in> fst ` set (planned_amounts ps)" using s that unfolding keys_planned by blast
    then obtain v where "map_of (planned_amounts ps) k = Some v" by (metis map_of_eq_None_iff not_None_eq)
    then show ?thesis using nonneg map_of_SomeD by fastforce
  qed
  then show ?thesis by (intro sum_list_nonneg) auto
qed

lemma undecided_fee:
  assumes "deriveSubmissionFee parse stx plan = Inr fee" "jget fee ''status'' \<noteq> JStr ''derived''" "jget fee ''status'' \<noteq> JStr ''mismatch''"
  shows "\<exists>r. fee = insufficientFee r \<and> r \<noteq> []"
proof -
  obtain check where c: "checkSignedAgainstPlan parse stx plan = Inr check" using assms(1) by (auto simp: deriveSubmissionFee_def)
  show ?thesis
  proof (cases check)
    case (PlanMatches ins outs)
    then obtain m where f: "fee = priceTransaction m ins outs (jget plan ''contentHash'')" using assms(1) c by (auto simp: deriveSubmissionFee_def)
    then show ?thesis using assms(2) by (auto simp: priceTransaction_def Let_def split: if_splits)
  next
    case (PlanInsufficient r)
    then show ?thesis using assms(1) c check_reason [of parse stx plan r] by (auto simp: deriveSubmissionFee_def)
  next
    case (PlanMismatch r)
    then show ?thesis using assms(1,3) c by (auto simp: deriveSubmissionFee_def)
  qed
qed

text \<open>C17: what is recorded as the fee of a submission conforms to its type. Whatever the signed payload holds, a fee that is derived
  or called insufficient has the form of its schema, and the verifier's arithmetic check accepts it, for a plan without
  negative amounts.\<close>

theorem recorded_fee_conforms:
  assumes "zod accepts datetime" "deriveSubmissionFee parse stx plan = Inr fee" "jget fee ''status'' \<noteq> JStr ''mismatch''"
    and "list_all (\<lambda>p. 0 \<le> item_amount p) (plan_items plan ''inputs'')" "list_all (\<lambda>p. 0 \<le> item_amount p) (authorized plan)"
  shows "accepts submissionFeeSchema fee \<and> checkSubmissionFeeCoherence fee"
proof -
  have "checkSubmissionFeeCoherence fee \<and> conforms datetime submissionFeeSchema fee \<and> plain_json fee"
  proof (cases "jget fee ''status'' = JStr ''derived''")
    case True
    then obtain ins outs where c: "checkSignedAgainstPlan parse stx plan = Inr (PlanMatches ins outs)"
      and f: "fee = priceTransaction (planned_amounts (plan_items plan ''inputs'')) ins outs (jget plan ''contentHash'')"
        "sum_list (map sg_amount outs) \<le> sum_list (map (\<lambda>k. the (map_of (planned_amounts (plan_items plan ''inputs'')) k)) ins)"
      using derived_parts [OF assms(2)] by blast
    note k = check_match [OF c]
    have "0 \<le> sum_list (map item_amount (authorized plan))" using assms(5) by (intro sum_list_nonneg) (auto simp: list_all_iff)
    then show ?thesis
      unfolding f(1) using f(2) k(2,6) parsed_nonempty [OF k(1)] sum_pays [OF k(7)] consumed_nonneg [OF assms(4), of ins]
      by (intro derived_conforms [OF _ _ _ _ _ _ refl refl]) simp_all
  next
    case False
    obtain r where "fee = insufficientFee r" "r \<noteq> []" using undecided_fee [OF assms(2) False assms(3)] by blast
    then show ?thesis using insufficient_conforms by simp
  qed
  then show ?thesis using zod.decides [OF assms(1)] by blast
qed

subsection \<open>Examples\<close>

definition ex_fee_plan :: json where
  "ex_fee_plan = JObj [(''contentHash'', JStr (replicate 64 (CHR ''a''))),
     (''inputs'', JArr [JObj [(''outpoint'', JObj [(''transactionId'', JStr ''t''), (''index'', JNum 0)]), (''amountSompi'', JStr ''100'')]]),
     (''outputs'', JArr [JObj [(''address'', JStr ex_address), (''amountSompi'', JStr ''60'')]]),
     (''change'', JObj [(''address'', JStr ex_address_upper), (''amountSompi'', JStr ''30'')])]"

definition ex_payload :: json where
  "ex_payload = JObj [(''inputs'', JArr [JObj [(''transactionId'', JStr ''t''), (''index'', JNum 0)]]),
     (''outputs'', JArr [JObj [(''value'', JNum 60), (''scriptPublicKey'', JStr (''20'' @ replicate 64 (CHR ''0'') @ ''ac''))],
       JObj [(''value'', JNum 30), (''scriptPublicKey'', JStr (''20'' @ replicate 64 (CHR ''0'') @ ''ac''))]])]"

definition ex_stx :: json where
  "ex_stx = JObj [(''format'', JStr ''json''), (''payload'', JStr ''p'')]"

definition ex_parse :: "string \<Rightarrow> json option" where
  "ex_parse s = (if s = ''p'' then Some ex_payload else None)"

lemma ex_signed_parsed:
  "parseSignedTransactionPayload ex_parse (JStr ''p'') = Inr ([''t:0''],
     [\<lparr>sg_amount = 60, sg_script = Some (''20'' @ replicate 64 (CHR ''0'') @ ''ac''), sg_address = None\<rparr>,
      \<lparr>sg_amount = 30, sg_script = Some (''20'' @ replicate 64 (CHR ''0'') @ ''ac''), sg_address = None\<rparr>])"
  by code_simp

abbreviation ex_paid :: "SignedOutput list" where
  "ex_paid \<equiv> [\<lparr>sg_amount = 60, sg_script = Some (''20'' @ replicate 64 (CHR ''0'') @ ''ac''), sg_address = None\<rparr>,
     \<lparr>sg_amount = 30, sg_script = Some (''20'' @ replicate 64 (CHR ''0'') @ ''ac''), sg_address = None\<rparr>]"

lemma ex_priced:
  assumes "authorizedPayments P = Inr [Some \<lparr>eo_role = ''output[0]'', eo_address = JStr ex_address, eo_amount = 60\<rparr>]"
    "expectedOutput ''change'' (jget P ''change'') = Inr (Some \<lparr>eo_role = ''change'', eo_address = JStr ex_address_upper, eo_amount = 30\<rparr>)"
    "truthy (jget P ''change'')" "is_HEX64 (jget P ''contentHash'')" "jget P ''contentHash'' = JStr (replicate 64 (CHR ''a''))"
    "iterateE (jnn (jget P ''inputs'') (JArr [])) = Inr ps" "planInputs ps [] = Inr (Some [(''t:0'', 100)])"
  shows "deriveSubmissionFee ex_parse ex_stx P = Inr (priceTransaction [(''t:0'', 100)] [''t:0''] ex_paid (JStr (replicate 64 (CHR ''a''))))"
proof -
  have out: "checkOutputs P ins ex_paid = Inr (PlanMatches ins ex_paid)" for ins
    unfolding checkOutputs_def assms(1) by (simp add: assms(2,3) compareOutput_def ex_scripts)
  have g: "jget ex_stx ''payload'' = JStr ''p''" "inputMismatch [''t:0''] [(''t:0'', 100)] = None" by code_simp+
  have "checkSignedAgainstPlan ex_parse ex_stx P = Inr (PlanMatches [''t:0''] ex_paid)"
    unfolding checkSignedAgainstPlan_def g(1) ex_signed_parsed using assms(4) by (simp only: sum.case prod.case assms(6,7) g bindE.simps option.case out) simp
  then show ?thesis unfolding deriveSubmissionFee_def by (simp only: bindE.simps SignedPlanCheck.case assms(5-7) option.case)
qed

lemma ex_fee: "deriveSubmissionFee ex_parse ex_stx ex_fee_plan = Inr (priceTransaction [(''t:0'', 100)] [''t:0''] ex_paid (JStr (replicate 64 (CHR ''a''))))"
  by (rule ex_priced [where ps = "[JObj [(''outpoint'', JObj [(''transactionId'', JStr ''t''), (''index'', JNum 0)]), (''amountSompi'', JStr ''100'')]]"]) code_simp+

text \<open>A plan that lists one outpoint twice, 100 sompi each, against outputs of 90: a payload that spends the outpoint once
  matches it, and the derived fee is 10, not the 110 that its listed inputs leave.\<close>

definition ex_repeated_plan :: json where
  "ex_repeated_plan = jset ''inputs'' (JArr (replicate 2 (JObj [(''outpoint'', JObj [(''transactionId'', JStr ''t''), (''index'', JNum 0)]), (''amountSompi'', JStr ''100'')]))) ex_fee_plan"

lemma repeated_input_priced_once:
  "\<exists>fee. deriveSubmissionFee ex_parse ex_stx ex_repeated_plan = Inr fee \<and> jget fee ''status'' = JStr ''derived'' \<and> jget fee ''feeSompi'' = JStr ''10'' \<and>
     sum_list (map item_amount (plan_items ex_repeated_plan ''inputs'')) - sum_list (map item_amount (authorized ex_repeated_plan)) = 110"
proof -
  have "deriveSubmissionFee ex_parse ex_stx ex_repeated_plan = Inr (priceTransaction [(''t:0'', 100)] [''t:0''] ex_paid (JStr (replicate 64 (CHR ''a''))))"
    by (rule ex_priced [where ps = "replicate 2 (JObj [(''outpoint'', JObj [(''transactionId'', JStr ''t''), (''index'', JNum 0)]), (''amountSompi'', JStr ''100'')])"]) code_simp+
  moreover have "jget (priceTransaction [(''t:0'', 100)] [''t:0''] ex_paid (JStr (replicate 64 (CHR ''a'')))) ''status'' = JStr ''derived''"
    "jget (priceTransaction [(''t:0'', 100)] [''t:0''] ex_paid (JStr (replicate 64 (CHR ''a'')))) ''feeSompi'' = JStr ''10''" by code_simp+
  moreover have "map item_amount (plan_items ex_repeated_plan ''inputs'') = [100, 100]" "map item_amount (authorized ex_repeated_plan) = [60, 30]" by code_simp+
  ultimately show ?thesis by (intro exI conjI) (assumption | simp)+
qed

lemma ex_fee_plan_parts:
  "plan_items ex_fee_plan ''inputs'' = [JObj [(''outpoint'', JObj [(''transactionId'', JStr ''t''), (''index'', JNum 0)]), (''amountSompi'', JStr ''100'')]]"
  "map item_amount (plan_items ex_fee_plan ''inputs'') = [100]" "map item_amount (authorized ex_fee_plan) = [60, 30]"
  by code_simp+

abbreviation ex_price :: json where
  "ex_price \<equiv> priceTransaction [(''t:0'', 100)] [''t:0''] ex_paid (JStr (replicate 64 (CHR ''a'')))"

theorem derived_fee_sound_witness:
  "\<exists>ins outs. parseSignedTransactionPayload ex_parse (jget ex_stx ''payload'') = Inr (ins, outs) \<and>
    mset ins = mset (map planned_key (plan_items ex_fee_plan ''inputs'')) \<and> list_all2 pays (authorized ex_fee_plan) outs \<and>
    jget ex_price ''feeSompi'' = JStr (int_str 10)"
proof -
  have "jget ex_price ''status'' = JStr ''derived''" by code_simp
  moreover have "distinct (map planned_key (plan_items ex_fee_plan ''inputs''))" unfolding ex_fee_plan_parts(1) by simp
  moreover have "sum_list (map item_amount (plan_items ex_fee_plan ''inputs'')) - sum_list (map item_amount (authorized ex_fee_plan)) = 10"
    unfolding ex_fee_plan_parts(2,3) by simp
  ultimately show ?thesis using derived_fee_sound [OF ex_fee] by metis
qed

theorem recorded_fee_conforms_witness:
  "conforms (\<lambda>_. True) submissionFeeSchema ex_price \<and> checkSubmissionFeeCoherence ex_price"
proof (rule recorded_fee_conforms [OF reference.zod_axioms ex_fee])
  show "jget ex_price ''status'' \<noteq> JStr ''mismatch''" by code_simp
  have pos: "list_all (\<lambda>p. 0 \<le> item_amount p) xs = list_all (\<lambda>n. 0 \<le> n) (map item_amount xs)" for xs by (simp add: list_all_iff)
  show "list_all (\<lambda>p. 0 \<le> item_amount p) (plan_items ex_fee_plan ''inputs'')" "list_all (\<lambda>p. 0 \<le> item_amount p) (authorized ex_fee_plan)"
    unfolding pos ex_fee_plan_parts(2,3) by simp_all
qed

end
