(* ===== verification/HK_SilverSchema.thy ===== *)
theory HK_SilverSchema
  imports HK_Schema
begin

text \<open>
  The rest of the schemas of \<open>schemas.ts\<close>, first part: runtime sessions and the records of SilverScript, both the legacy
  artifacts that are still read and the records of \<open>hardkas silver\<close>.
\<close>

text \<open>\<open>.omit({ ... })\<close>, \<open>.nullable()\<close>, and a tuple of equal components; the texts the schemas check.\<close>

definition zomit :: "ZodType \<Rightarrow> string list \<Rightarrow> ZodType" where
  "zomit base ks = (case base of ZObject b fs \<Rightarrow> ZObject b (filter (\<lambda>f. fst f \<notin> set ks) fs) | _ \<Rightarrow> base)"

abbreviation znullable :: "ZodType \<Rightarrow> ZodType" where
  "znullable s \<equiv> ZUnion [s, ZLiteral JNull]"

definition ztuple :: "nat \<Rightarrow> ZodType \<Rightarrow> ZodType" where
  "ztuple n s = ZRefine (ZArray n s) (\<lambda>j. length (itemsOf j) = n)"

definition lowerHexText :: "string \<Rightarrow> bool" where
  "lowerHexText s \<longleftrightarrow> s \<noteq> [] \<and> list_all is_lower_hex s"

definition testnetText :: "string \<Rightarrow> bool" where
  "testnetText s \<longleftrightarrow> starts_with s ''testnet-'' \<and> decimalDigits (drop 8 s)"

subsection \<open>Schema names\<close>

definition schemaSilverCompile :: string where "schemaSilverCompile = ''hardkas.silver.compile''"

definition schemaSilverDeployPlan :: string where "schemaSilverDeployPlan = ''hardkas.silver.deployPlan''"

definition schemaSilverDeploy :: string where "schemaSilverDeploy = ''hardkas.silver.deploy''"

definition schemaSilverSpendPlan :: string where "schemaSilverSpendPlan = ''hardkas.silver.spendPlan''"

definition schemaSilverSpendReceipt :: string where "schemaSilverSpendReceipt = ''hardkas.silver.spendReceipt''"

definition schemaSilverDeploySimulation :: string where "schemaSilverDeploySimulation = ''hardkas.silver.deploySimulation''"

definition schemaSilverSpendSimulation :: string where "schemaSilverSpendSimulation = ''hardkas.silver.spendSimulation''"

definition schemaSilverTest :: string where "schemaSilverTest = ''hardkas.silver.test''"

definition schemaSilverCompileV1 :: string where "schemaSilverCompileV1 = ''hardkas.silverCompile.v1''"

definition schemaSilverDeployV1 :: string where "schemaSilverDeployV1 = ''hardkas.silverDeploy.v1''"

definition schemaSilverSpendV1 :: string where "schemaSilverSpendV1 = ''hardkas.silverSpend.v1''"

definition schemaSilverCovenantV1 :: string where "schemaSilverCovenantV1 = ''hardkas.silverCovenant.v1''"

definition schemaSilverVmTestV1 :: string where "schemaSilverVmTestV1 = ''hardkas.silverVmTest.v1''"

subsection \<open>Schemas\<close>

definition RuntimeSessionSchema :: ZodType where
  "RuntimeSessionSchema = zextend BaseArtifactSchema [
     (''sessionId'', ZString),
     (''workflowIds'', ZArray 0 ZString),
     (''artifactIds'', ZArray 0 ZString),
     (''startedAt'', ZDatetime),
     (''network'', ZString),
     (''deterministic'', ZBoolean),
     (''snapshotOf'', optString),
     (''parentSessionId'', optString),
     (''notes'', optString)]"

definition SilverCompileArtifactSchema :: ZodType where
  "SilverCompileArtifactSchema = zextend BaseArtifactSchema [
     (''schema'', ZLiteral (JStr schemaSilverCompile)),
     (''sourcePath'', ZString),
     (''sourceHash'', ZString),
     (''compilerName'', ZString),
     (''compilerVersion'', ZString),
     (''compilerCommand'', ZString),
     (''compiledScriptHex'', ZString),
     (''compiledScriptHash'', ZString),
     (''abi'', ZOptional ZAny),
     (''network'', ZString),
     (''assumptions'', ZOptional (ZArray 0 ZString))]"

definition SilverDeployPlanArtifactSchema :: ZodType where
  "SilverDeployPlanArtifactSchema = zextend BaseArtifactSchema [
     (''schema'', ZLiteral (JStr schemaSilverDeployPlan)),
     (''compileArtifactHash'', ZString),
     (''compiledScriptHash'', ZString),
     (''redeemScriptHex'', ZString),
     (''redeemScriptHash'', ZString),
     (''lockingScriptHex'', ZString),
     (''scriptPublicKeyVersion'', ZNumber),
     (''amountSompi'', ZString),
     (''networkId'', kaspaNetworkIdSchema),
     (''deployerAddress'', ZString)]"

definition SilverDeployArtifactSchema :: ZodType where
  "SilverDeployArtifactSchema = zextend BaseArtifactSchema [
     (''schema'', ZLiteral (JStr schemaSilverDeploy)),
     (''deployPlanHash'', ZString),
     (''compileArtifactHash'', ZString),
     (''compiledScriptHash'', ZString),
     (''redeemScriptHex'', ZString),
     (''redeemScriptHash'', ZString),
     (''lockingScriptHex'', ZString),
     (''scriptPublicKeyVersion'', ZNumber),
     (''deployTxId'', ZString),
     (''outputIndex'', ZNumber),
     (''amountSompi'', ZString),
     (''networkId'', kaspaNetworkIdSchema),
     (''nodeVersion'', ZString)]"

definition SilverScriptArgSchema :: ZodType where
  "SilverScriptArgSchema = ZObject False [(''type'', ZLiteral (JStr ''hex'')), (''value'', ZString)]"

definition SilverSpendPlanArtifactSchema :: ZodType where
  "SilverSpendPlanArtifactSchema = zextend BaseArtifactSchema [
     (''schema'', ZLiteral (JStr schemaSilverSpendPlan)),
     (''deployArtifactHash'', ZString),
     (''compileArtifactHash'', ZString),
     (''redeemScriptHash'', ZString),
     (''lockingScriptHex'', ZString),
     (''contractUtxoRef'', ZObject False [(''transactionId'', ZString), (''index'', ZNumber)]),
     (''args'', ZArray 0 SilverScriptArgSchema),
     (''argsHash'', ZString),
     (''signatureScriptHex'', ZString),
     (''expectedOutputs'', ZArray 0 (ZObject False [(''address'', ZString), (''amountSompi'', ZString), (''scriptHash'', optString)])),
     (''networkId'', kaspaNetworkIdSchema),
     (''assumptionLevel'', optString)]"

definition SilverSpendReceiptArtifactSchema :: ZodType where
  "SilverSpendReceiptArtifactSchema = zextend BaseArtifactSchema [
     (''schema'', ZLiteral (JStr schemaSilverSpendReceipt)),
     (''spendPlanHash'', ZString),
     (''deployArtifactHash'', optString),
     (''redeemScriptHash'', optString),
     (''lockingScriptHex'', optString),
     (''signatureScriptHex'', optString),
     (''spentOutpoint'', ZOptional (ZObject False [(''transactionId'', ZString), (''index'', ZNumber)])),
     (''expectedOutputs'', ZOptional (ZArray 0 (ZObject False [(''address'', ZString), (''amountSompi'', ZString), (''scriptHash'', optString)]))),
     (''txId'', ZString),
     (''status'', ZEnum [''simulated'', ''submitted'', ''accepted'', ''rejected''])]"

definition SilverDeploySimulationArtifactSchema :: ZodType where
  "SilverDeploySimulationArtifactSchema = zextend BaseArtifactSchema [
     (''schema'', ZLiteral (JStr schemaSilverDeploySimulation)),
     (''deployPlanHash'', ZString),
     (''compileArtifactHash'', ZString),
     (''compiledScriptHash'', ZString),
     (''redeemScriptHex'', ZString),
     (''redeemScriptHash'', ZString),
     (''lockingScriptHex'', ZString),
     (''scriptPublicKeyVersion'', ZLiteral (JNum 0)),
     (''simulatedDeployTxId'', ZString),
     (''syntheticOutpoint'', ZObject False [(''transactionId'', ZString), (''index'', ZNumber)]),
     (''amountSompi'', ZString),
     (''feeSompi'', ZString),
     (''status'', ZLiteral (JStr ''SIMULATED_ACCEPTED''))]"

definition SilverSpendSimulationArtifactSchema :: ZodType where
  "SilverSpendSimulationArtifactSchema = zextend BaseArtifactSchema [
     (''schema'', ZLiteral (JStr schemaSilverSpendSimulation)),
     (''deploySimulationHash'', ZString),
     (''spendPlanHash'', ZString),
     (''redeemScriptHash'', ZString),
     (''lockingScriptHex'', ZString),
     (''signatureScriptHex'', ZString),
     (''simulatedSpendTxId'', ZString),
     (''spentOutpoint'', ZObject False [(''transactionId'', ZString), (''index'', ZNumber)]),
     (''expectedOutputs'', ZArray 0 (ZObject False [(''address'', ZString), (''amountSompi'', ZString), (''scriptHash'', optString)])),
     (''feeSompi'', ZString),
     (''status'', ZLiteral (JStr ''SIMULATED_ACCEPTED''))]"

definition SilverTestArtifactSchema :: ZodType where
  "SilverTestArtifactSchema = zextend BaseArtifactSchema [
     (''schema'', ZLiteral (JStr schemaSilverTest)),
     (''compileArtifactHash'', ZString),
     (''sourceHash'', ZString),
     (''compiledScriptHash'', ZString),
     (''testVectorsHash'', znullable optString),
     (''compilerName'', ZString),
     (''compilerVersion'', ZString),
     (''results'', ZArray 0 (ZObject False [
       (''name'', ZString),
       (''status'', ZEnum [''PASS'', ''FAIL'', ''SKIPPED'', ''EXPECTED_COMPILER_FAILURE'', ''PARTIAL_TEST_VECTOR_SUPPORT'']),
       (''reason'', optString)])),
     (''status'', ZEnum [''PASS'', ''FAIL'', ''PARTIAL_TEST_VECTOR_SUPPORT'', ''EXPECTED_COMPILER_FAILURE''])]"

definition SilverScriptPublicKeySchema :: ZodType where
  "SilverScriptPublicKeySchema = ZObject False [(''version'', ZNumber), (''script'', ZText lowerHexText)]"

definition Hex64 :: ZodType where
  "Hex64 = ZText HEX64"

definition SilverOutpointSchema :: ZodType where
  "SilverOutpointSchema = ZObject False [(''transactionId'', Hex64), (''index'', ZInteger (Some 0) None)]"

definition SilverRecordRefSchema :: ZodType where
  "SilverRecordRefSchema = ZObject False [(''path'', ZString), (''contentHash'', ZString), (''artifactSha256'', ZOptional Hex64)]"

definition SilverNodeRefSchema :: ZodType where
  "SilverNodeRefSchema = ZObject False [
     (''verified'', ZLiteral (JBool True)),
     (''container'', optString),
     (''imageDigest'', ZString),
     (''serverVersion'', optString)]"

definition SilverRecordBaseSchema :: ZodType where
  "SilverRecordBaseSchema = zextend BaseArtifactSchema [
     (''networkId'', ZLiteral (JStr ''simnet'')),
     (''artifactId'', optString),
     (''capability'', ZEnum [''silver.compile.v1'', ''silver.p2sh.deploy-spend.v1'', ''toccata.covenant.auth-1to1-transition.v1''])]"

definition SilverOnChainSchema :: ZodType where
  "SilverOnChainSchema = zextend SilverRecordBaseSchema [
     (''txId'', Hex64),
     (''outpoint'', SilverOutpointSchema),
     (''feeSompi'', ZText decimalDigits),
     (''status'', ZEnum [''submitted'', ''confirmed'']),
     (''confirmedAtBlockDaaScore'', ZOptional (ZText decimalDigits)),
     (''node'', SilverNodeRefSchema)]"

definition SilverCompileV1Schema :: ZodType where
  "SilverCompileV1Schema = zextend SilverRecordBaseSchema [
     (''networkId'', ZUnion [ZLiteral (JStr ''simnet''), ZLiteral (JStr ''devnet''), ZText testnetText]),
     (''schema'', ZLiteral (JStr schemaSilverCompileV1)),
     (''source'', ZObject False [(''path'', ZString), (''sha256'', Hex64), (''text'', ZString)]),
     (''provenance'', ZObject False [
       (''schema'', ZLiteral (JStr ''hardkas.silver.compileProvenance.v1'')),
       (''compiler'', ZObject False [
         (''id'', ZLiteral (JStr ''silverc'')),
         (''releaseTag'', ZString),
         (''commit'', ZString),
         (''assetSha256'', Hex64),
         (''binarySha256'', Hex64)]),
       (''sourceSha256'', Hex64),
       (''constructorArgsSha256'', Hex64),
       (''artifactSha256'', Hex64)]),
     (''artifactJson'', ZString),
     (''contracts'', ZArray 0 (ZObject False [(''name'', ZString), (''lockingScript'', SilverScriptPublicKeySchema), (''address'', ZString)]))]"

definition SilverDeployV1Schema :: ZodType where
  "SilverDeployV1Schema = zextend SilverOnChainSchema [
     (''schema'', ZLiteral (JStr schemaSilverDeployV1)),
     (''compileRecord'', SilverRecordRefSchema),
     (''contract'', ZString),
     (''lockingScript'', SilverScriptPublicKeySchema),
     (''address'', ZString),
     (''valueSompi'', ZText decimalDigits)]"

definition SilverSpendV1Schema :: ZodType where
  "SilverSpendV1Schema = zextend (zomit SilverOnChainSchema [''outpoint'']) [
     (''schema'', ZLiteral (JStr schemaSilverSpendV1)),
     (''deployRecord'', SilverRecordRefSchema),
     (''contract'', ZString),
     (''entry'', ZString),
     (''dispatchTag'', optString),
     (''spentOutpoint'', SilverOutpointSchema),
     (''to'', ZString),
     (''outputSompi'', ZText decimalDigits),
     (''sequence'', ZString),
     (''sigOpCount'', ZInteger (Some 0) None),
     (''signatureScriptSha256'', Hex64)]"

definition SilverCovenantV1Schema :: ZodType where
  "SilverCovenantV1Schema = zextend SilverOnChainSchema [
     (''schema'', ZLiteral (JStr schemaSilverCovenantV1)),
     (''kind'', ZEnum [''genesis'', ''transition'']),
     (''compileRecord'', SilverRecordRefSchema),
     (''previous'', ZOptional (ZObject False [(''path'', ZString), (''contentHash'', ZString), (''outpoint'', SilverOutpointSchema)])),
     (''contract'', ZString),
     (''covenantId'', Hex64),
     (''covenantIdFromNode'', ZOptional Hex64),
     (''lockingScript'', SilverScriptPublicKeySchema),
     (''address'', ZString),
     (''valueSompi'', ZText decimalDigits),
     (''computeBudget'', ZInteger (Some 0) None)]"

definition SilverVmTestV1Schema :: ZodType where
  "SilverVmTestV1Schema = zextend (zomit BaseArtifactSchema [''mode'']) [
     (''schema'', ZLiteral (JStr schemaSilverVmTestV1)),
     (''mode'', ZLiteral (JStr ''vm'')),
     (''networkId'', ZLiteral (JStr ''simnet'')),
     (''evidence'', ZEnum [''official-vm-scenario'', ''unverified-vm-scenario'']),
     (''scope'', ZString),
     (''compileRecord'', SilverRecordRefSchema),
     (''contract'', ZString),
     (''runner'', ZObject False [
       (''binarySha256'', Hex64),
       (''size'', ZInteger (Some 1) None),
       (''provenance'', ZLiteral (JStr ''unmanaged-local-build'')),
       (''trust'', ZOptional (ZEnum [''VERIFIED'', ''UNVERIFIED''])),
       (''source'', ZOptional (ZEnum [''explicit-path'', ''env'', ''home-toolchains''])),
       (''trustOptIn'', ZOptional (ZEnum [''flag'', ''environment''])),
       (''expectedSource'', ZObject False [
         (''repository'', ZString),
         (''releaseTag'', ZString),
         (''commit'', ZString),
         (''package'', ZLiteral (JStr ''cli-debugger''))])]),
     (''testFile'', ZObject False [(''path'', ZString), (''sha256'', Hex64)]),
     (''runnerInputSha256'', Hex64),
     (''results'', ZArray 1 (ZObject False [
       (''name'', ZString),
       (''function'', ZString),
       (''expect'', ZEnum [''pass'', ''fail'']),
       (''outcome'', ZEnum [''PASS'', ''FAIL'']),
       (''runnerStatus'', znullable ZString),
       (''exitCode'', ZInteger None None),
       (''signedArgs'', ZInteger (Some 0) None),
       (''outputSha256'', Hex64)])),
     (''summary'', ZObject False [
       (''total'', ZInteger (Some 1) None),
       (''passed'', ZInteger (Some 0) None),
       (''failed'', ZInteger (Some 0) None)]),
     (''status'', ZEnum [''PASS'', ''FAIL''])]"

end
