(* ===== verification/HK_ZkSchema.thy ===== *)
theory HK_ZkSchema
  imports HK_SilverSchema
begin

text \<open>
  The rest of the schemas of \<open>schemas.ts\<close>, second part: the programmability surface, covenants, scenario results and evidence
  packages, observations of addresses, and the records and facts of zero-knowledge proofs.
\<close>

text \<open>The texts and numbers the schemas check.\<close>

definition canonicalDecimal :: "string \<Rightarrow> bool" where
  "canonicalDecimal s \<longleftrightarrow> s = ''0'' \<or> decimalDigits s \<and> \<not> starts_with s ''0''"

definition hexText256 :: "string \<Rightarrow> bool" where
  "hexText256 s \<longleftrightarrow> length s = 256 \<and> list_all is_hex s"

definition nonNegative :: "json \<Rightarrow> bool" where
  "nonNegative j = (case j of JNum i \<Rightarrow> 0 \<le> i | JFrac t \<Rightarrow> \<not> starts_with t ''-'' | _ \<Rightarrow> False)"

subsection \<open>Schema names\<close>

definition schemaProgrammabilityCapabilitiesV1 :: string where "schemaProgrammabilityCapabilitiesV1 = ''hardkas.programmability.capabilities.v1''"

definition schemaProgrammabilityInspectV1 :: string where "schemaProgrammabilityInspectV1 = ''hardkas.programmability.inspect.v1''"

definition schemaProgrammabilityVerifyV1 :: string where "schemaProgrammabilityVerifyV1 = ''hardkas.programmability.verify.v1''"

definition schemaProgrammabilityCorpusReportV1 :: string where "schemaProgrammabilityCorpusReportV1 = ''hardkas.programmability.corpusReport.v1''"

definition schemaProgrammabilityAppPlanV1 :: string where "schemaProgrammabilityAppPlanV1 = ''hardkas.programmability.appPlan.v1''"

definition schemaCovenantV1 :: string where "schemaCovenantV1 = ''hardkas.covenant.v1''"

definition schemaToccataCapabilitiesV1 :: string where "schemaToccataCapabilitiesV1 = ''hardkas.toccataCapabilities.v1''"

definition schemaIgraStatusV1 :: string where "schemaIgraStatusV1 = ''hardkas.igraStatus.v1''"

definition schemaToccataProgrammabilityCorpusV1 :: string where "schemaToccataProgrammabilityCorpusV1 = ''hardkas.toccataProgrammabilityCorpus.v1''"

definition schemaScenarioResultV1 :: string where "schemaScenarioResultV1 = ''hardkas.scenarioResult.v1''"

definition schemaEvidencePackageV1 :: string where "schemaEvidencePackageV1 = ''hardkas.evidencePackage.v1''"

definition schemaAddressObservationV1 :: string where "schemaAddressObservationV1 = ''hardkas.observation.address.v1''"

definition schemaZkGroth16ProofV1 :: string where "schemaZkGroth16ProofV1 = ''hardkas.zk.groth16.proof.v1''"

definition schemaZkGroth16VerificationKeyV1 :: string where "schemaZkGroth16VerificationKeyV1 = ''hardkas.zk.groth16.verificationKey.v1''"

definition schemaZkGroth16PublicInputsV1 :: string where "schemaZkGroth16PublicInputsV1 = ''hardkas.zk.groth16.publicInputs.v1''"

definition schemaZkGroth16FixtureV1 :: string where "schemaZkGroth16FixtureV1 = ''hardkas.zkGroth16Fixture.v1''"

definition schemaZkRisc0ReceiptV1 :: string where "schemaZkRisc0ReceiptV1 = ''hardkas.zk.risc0.receipt.v1''"

definition schemaZkRisc0FixtureV1 :: string where "schemaZkRisc0FixtureV1 = ''hardkas.zkRisc0Fixture.v1''"

definition schemaZkCorpusV1 :: string where "schemaZkCorpusV1 = ''hardkas.zkCorpus.v1''"

definition schemaZkProofMathVerificationV1 :: string where "schemaZkProofMathVerificationV1 = ''hardkas.zkProofMathVerification.v1''"

definition schemaZkToccataScriptsV1 :: string where "schemaZkToccataScriptsV1 = ''hardkas.zk.toccata.scripts.v1''"

definition schemaZkToccataTxV1 :: string where "schemaZkToccataTxV1 = ''hardkas.zk.toccata.tx.v1''"

definition schemaZkExecutionEvidenceV1 :: string where "schemaZkExecutionEvidenceV1 = ''hardkas.zk.executionEvidence.v1''"

definition schemaCovenantTransitionFactV1 :: string where "schemaCovenantTransitionFactV1 = ''hardkas.covenantTransitionFact.v1''"

definition schemaZkVerificationFactV1 :: string where "schemaZkVerificationFactV1 = ''hardkas.zkVerificationFact.v1''"

subsection \<open>Schemas\<close>

definition ProgrammabilityClaimsSchema :: ZodType where
  "ProgrammabilityClaimsSchema = ZObject False [
     (''artifactCoherence'', ZLiteral (JStr ''READY_MATCH'')),
     (''silverCapabilities'', ZObject False [
       (''silver.compile.v1'', ZLiteral (JStr ''REAL_NODE_EVIDENCE'')),
       (''silver.p2sh.deploy-spend.v1'', ZLiteral (JStr ''REAL_NODE_EVIDENCE'')),
       (''silver.p2sh.relative-timelock.v1'', ZLiteral (JStr ''REAL_NODE_EVIDENCE'')),
       (''toccata.covenant.auth-1to1-transition.v1'', ZLiteral (JStr ''REAL_NODE_EVIDENCE''))]),
     (''silverCompiler'', ZLiteral (JStr ''OFFICIAL_SILVERC_V1_0_0_MANAGED'')),
     (''generalCovenantSupport'', ZLiteral (JStr ''NOT_CLAIMED'')),
     (''zkCorpusSurface'', ZLiteral (JStr ''ZK_CORPUS_SURFACE_READY'')),
     (''zkLocalVerification'', ZLiteral (JStr ''READY_GROTH16_FIXTURE_COHERENCE'')),
     (''risc0InspectSurface'', ZLiteral (JStr ''RISC0_INSPECT_SURFACE_READY'')),
     (''vProgsInspectSurface'', ZLiteral (JStr ''VPROGS_INSPECT_SURFACE_READY'')),
     (''runtimeOutcome'', ZLiteral (JStr ''PARTIAL'')),
     (''vmConsensusEquivalence'', ZLiteral (JStr ''NOT_CLAIMED'')),
     (''zkOnchainVerification'', ZLiteral (JStr ''NOT_CLAIMED'')),
     (''vProgsRuntime'', ZLiteral (JStr ''NOT_CLAIMED'')),
     (''vProgsStableApi'', ZLiteral (JStr ''NOT_CLAIMED'')),
     (''mainnet'', ZLiteral (JStr ''BLOCKED_BY_POLICY''))]"

definition ProgrammabilityCapabilitiesSchema :: ZodType where
  "ProgrammabilityCapabilitiesSchema = ZObject False [
     (''schema'', ZLiteral (JStr schemaProgrammabilityCapabilitiesV1)),
     (''ok'', ZLiteral (JBool True)),
     (''status'', ZLiteral (JStr ''PROGRAMMABILITY_SURFACE_READY'')),
     (''surfaces'', ZObject False [
       (''silverScript'', ZLiteral (JStr ''SILVERSCRIPT_V1_LIFECYCLE'')),
       (''zkCorpus'', ZLiteral (JStr ''ZK_CORPUS_SURFACE_READY'')),
       (''groth16FixtureCoherence'', ZLiteral (JStr ''READY_GROTH16_FIXTURE_COHERENCE'')),
       (''risc0Inspect'', ZLiteral (JStr ''RISC0_INSPECT_SURFACE_READY'')),
       (''vProgsInspect'', ZLiteral (JStr ''VPROGS_INSPECT_SURFACE_READY''))]),
     (''claims'', ProgrammabilityClaimsSchema),
     (''nonClaims'', ZArray 0 ZString)]"

definition ProgrammabilityInspectSchema :: ZodType where
  "ProgrammabilityInspectSchema = ZObject False [
     (''schema'', ZLiteral (JStr schemaProgrammabilityInspectV1)),
     (''ok'', ZBoolean),
     (''status'', ZEnum [''PROGRAMMABILITY_ARTIFACT_INSPECTED'', ''PROGRAMMABILITY_ARTIFACT_INVALID'']),
     (''kind'', ZEnum [''silver'', ''zk'', ''vprog'']),
     (''path'', ZString),
     (''artifactSchema'', optString),
     (''contentHash'', optString),
     (''sourceStatus'', optString),
     (''claims'', ProgrammabilityClaimsSchema),
     (''issues'', ZArray 0 (ZObject False [(''code'', ZString), (''message'', ZString), (''file'', optString)]))]"

definition ProgrammabilityVerifySchema :: ZodType where
  "ProgrammabilityVerifySchema = ZObject False [
     (''schema'', ZLiteral (JStr schemaProgrammabilityVerifyV1)),
     (''ok'', ZBoolean),
     (''status'', ZEnum [''PROGRAMMABILITY_VERIFY_PASS'', ''PROGRAMMABILITY_VERIFY_FAIL'', ''PROGRAMMABILITY_VERIFY_PARTIAL'']),
     (''kind'', ZEnum [''silver'', ''zk'', ''vprog'']),
     (''path'', ZString),
     (''sourceStatus'', optString),
     (''claims'', ProgrammabilityClaimsSchema),
     (''issues'', ZArray 0 (ZObject False [(''code'', ZString), (''message'', ZString), (''file'', optString)]))]"

definition ProgrammabilityCorpusReportSchema :: ZodType where
  "ProgrammabilityCorpusReportSchema = ZObject False [
     (''schema'', ZLiteral (JStr schemaProgrammabilityCorpusReportV1)),
     (''ok'', ZBoolean),
     (''path'', ZString),
     (''status'', ZEnum [''PROGRAMMABILITY_CORPUS_PASS'', ''PROGRAMMABILITY_CORPUS_FAIL'']),
     (''summary'', ZObject False [
       (''silver'', ZEnum [''PASS'', ''FAIL'', ''SKIPPED'']),
       (''zk'', ZEnum [''PASS'', ''FAIL'', ''SKIPPED'']),
       (''vprogs'', ZEnum [''PASS'', ''FAIL'', ''SKIPPED'']),
       (''rootManifest'', ZEnum [''PASS'', ''FAIL'']),
       (''knownLimitations'', ZArray 0 ZString)]),
     (''claims'', ProgrammabilityClaimsSchema),
     (''issues'', ZArray 0 (ZObject False [(''code'', ZString), (''message'', ZString), (''file'', optString)]))]"

definition ProgrammabilityAppPlanSchema :: ZodType where
  "ProgrammabilityAppPlanSchema = zextend BaseArtifactSchema [
     (''schema'', ZLiteral (JStr schemaProgrammabilityAppPlanV1)),
     (''status'', ZEnum [''PROGRAMMABILITY_APP_PLAN_READY'']),
     (''kind'', ZString),
     (''template'', ZString),
     (''commands'', ZArray 0 ZString),
     (''sdkSurfaces'', ZArray 0 ZString),
     (''claims'', ProgrammabilityClaimsSchema),
     (''nonClaims'', ZArray 0 ZString)]"

definition CovenantSchema :: ZodType where
  "CovenantSchema = zextend BaseArtifactSchema [
     (''schema'', ZLiteral (JStr schemaCovenantV1)),
     (''scriptHash'', ZString),
     (''userLane'', optString),
     (''computeBudget'', ZOptional ZNumber),
     (''covenant'', ZOptional (ZObject False [(''covenantId'', ZString), (''authorizingInput'', ZNumber)])),
     (''networkId'', kaspaNetworkIdSchema),
     (''isExperimental'', ZLiteral (JBool True))]"

definition ToccataCapabilitiesSchema :: ZodType where
  "ToccataCapabilitiesSchema = zextend BaseArtifactSchema [
     (''schema'', ZLiteral (JStr schemaToccataCapabilitiesV1)),
     (''available'', ZBoolean),
     (''version'', optString),
     (''covenantsSupported'', ZBoolean),
     (''silverScriptSupported'', ZBoolean)]"

definition IgraStatusSchema :: ZodType where
  "IgraStatusSchema = zextend BaseArtifactSchema [
     (''schema'', ZLiteral (JStr schemaIgraStatusV1)),
     (''status'', ZEnum [''AVAILABLE'', ''MISSING_DEPENDENCY'', ''UNSUPPORTED_CAPABILITY'']),
     (''rpcUrl'', optString),
     (''version'', optString)]"

definition ToccataProgrammabilityCorpusSchema :: ZodType where
  "ToccataProgrammabilityCorpusSchema = zextend BaseArtifactSchema [
     (''schema'', ZLiteral (JStr schemaToccataProgrammabilityCorpusV1)),
     (''version'', ZString),
     (''network'', ZLiteral (JStr ''simnet'')),
     (''profile'', ZLiteral (JStr ''toccata-v2'')),
     (''status'', ZLiteral (JStr ''PROGRAMMABILITY_SURFACE_READY'')),
     (''components'', ZRecord ZAny),
     (''claims'', ZObject False [
       (''artifactCoherence'', ZLiteral (JStr ''READY_MATCH'')),
       (''runtimeOutcome'', ZLiteral (JStr ''PARTIAL'')),
       (''vmConsensusEquivalence'', ZLiteral (JStr ''NOT_CLAIMED'')),
       (''zkOnchainVerification'', ZLiteral (JStr ''NOT_CLAIMED'')),
       (''vProgsRuntime'', ZLiteral (JStr ''NOT_CLAIMED'')),
       (''vProgsStableApi'', ZLiteral (JStr ''NOT_CLAIMED'')),
       (''mainnet'', ZLiteral (JStr ''BLOCKED_BY_POLICY''))]),
     (''expectedKnownLimitations'', ZArray 0 ZString)]"

definition ScenarioResultSchema :: ZodType where
  "ScenarioResultSchema = zextend BaseArtifactSchema [
     (''schema'', ZLiteral (JStr schemaScenarioResultV1)),
     (''scenarioName'', ZString),
     (''status'', ZEnum [''passed'', ''failed'']),
     (''artifactsGenerated'', ZArray 0 ZString),
     (''evidenceClaim'', ZOptional (ZUnion [ZObject False [(''kind'', ZLiteral (JStr ''none''))], ZObject False [(''kind'', ZLiteral (JStr ''artifacts''))], ZObject False [
       (''kind'', ZLiteral (JStr ''payment'')),
       (''payments'', ZArray 1 (ZObject False [(''txId'', ZString), (''submissionArtifactId'', ZString)]))]])),
     (''error'', ZOptional (ZObject False [
       (''code'', ZString),
       (''message'', ZString),
       (''component'', optString),
       (''recoverable'', ZOptional ZBoolean)])),
     (''claims'', ZObject False [
       (''mainnet'', ZLiteral (JBool False)),
       (''testnet'', ZLiteral (JBool False)),
       (''production'', ZLiteral (JBool False))])]"

definition EvidencePackageSchema :: ZodType where
  "EvidencePackageSchema = zextend BaseArtifactSchema [
     (''schema'', ZLiteral (JStr schemaEvidencePackageV1)),
     (''name'', ZString),
     (''hardkasVersion'', ZString),
     (''mode'', executionModeSchema),
     (''scenarioResult'', ZOptional ZAny),
     (''artifacts'', ZArray 0 ZAny),
     (''hashes'', ZRecord ZString),
     (''claims'', ZObject False [
       (''mainnet'', ZBoolean),
       (''testnet'', ZBoolean),
       (''production'', ZBoolean),
       (''bridgeReady'', ZOptional ZBoolean),
       (''onchainZk'', ZOptional ZBoolean)]),
     (''artifactDiscovery'', ZOptional (ZObject False [(''source'', ZString)]))]"

definition ObservedTransactionSchema :: ZodType where
  "ObservedTransactionSchema = ZObject False [(''txId'', ZString), (''amount'', ZString), (''fee'', optString)]"

definition ObservedUtxoSchema :: ZodType where
  "ObservedUtxoSchema = ZObject False [(''txId'', ZString), (''index'', ZNumber), (''amount'', ZString)]"

definition AddressObservationSchema :: ZodType where
  "AddressObservationSchema = zextend BaseArtifactSchema [
     (''schema'', ZLiteral (JStr schemaAddressObservationV1)),
     (''type'', ZLiteral (JStr ''address_observation'')),
     (''execution'', ZObject False [(''mode'', executionModeSchema), (''network'', kaspaNetworkIdSchema)]),
     (''address'', ZString),
     (''mempool'', ZObject False [(''incoming'', ZArray 0 ObservedTransactionSchema), (''outgoing'', ZArray 0 ObservedTransactionSchema)]),
     (''utxos'', ZArray 0 ObservedUtxoSchema),
     (''totals'', ZObject False [(''mempoolIncomingSompi'', ZString), (''acceptedUtxoSompi'', ZString)]),
     (''virtual'', ZObject False [(''daaScore'', optString)]),
     (''observedAt'', ZDatetime)]"

definition ZkCanonicalDecimalSchema :: ZodType where
  "ZkCanonicalDecimalSchema = ZText canonicalDecimal"

definition ZkG1PointSchema :: ZodType where
  "ZkG1PointSchema = ztuple 3 ZkCanonicalDecimalSchema"

definition ZkG2PointSchema :: ZodType where
  "ZkG2PointSchema = ztuple 3 (ztuple 2 ZkCanonicalDecimalSchema)"

definition ZkSha256HexSchema :: ZodType where
  "ZkSha256HexSchema = ZText HEX64"

definition ZkGroth16ProofSchema :: ZodType where
  "ZkGroth16ProofSchema = zstrict [
     (''schema'', ZLiteral (JStr schemaZkGroth16ProofV1)),
     (''protocol'', ZLiteral (JStr ''groth16'')),
     (''curve'', ZText nonEmptyText),
     (''proofId'', ZText nonEmptyText),
     (''publicInputsHash'', ZOptional ZkSha256HexSchema),
     (''verificationKeyHash'', ZOptional ZkSha256HexSchema),
     (''pi_a'', ZkG1PointSchema),
     (''pi_b'', ZkG2PointSchema),
     (''pi_c'', ZkG1PointSchema),
     (''note'', optString)]"

definition ZkGroth16VerificationKeySchema :: ZodType where
  "ZkGroth16VerificationKeySchema = zstrict [
     (''schema'', ZLiteral (JStr schemaZkGroth16VerificationKeyV1)),
     (''protocol'', ZLiteral (JStr ''groth16'')),
     (''curve'', ZText nonEmptyText),
     (''verificationKeyId'', ZText nonEmptyText),
     (''statementHash'', ZOptional ZkSha256HexSchema),
     (''nPublic'', ZOptional (ZInteger (Some 0) None)),
     (''vk_alpha_1'', ZOptional ZkG1PointSchema),
     (''vk_beta_2'', ZOptional ZkG2PointSchema),
     (''vk_gamma_2'', ZOptional ZkG2PointSchema),
     (''vk_delta_2'', ZOptional ZkG2PointSchema),
     (''vk_alphabeta_12'', ZOptional (ZArray 0 ZAny)),
     (''IC'', ZOptional (ZArray 0 ZkG1PointSchema)),
     (''note'', optString)]"

definition ZkGroth16PublicInputsSchema :: ZodType where
  "ZkGroth16PublicInputsSchema = zstrict [
     (''schema'', ZLiteral (JStr schemaZkGroth16PublicInputsV1)),
     (''statement'', optString),
     (''publicSignals'', ZArray 0 ZkCanonicalDecimalSchema),
     (''statementHash'', ZOptional ZkSha256HexSchema)]"

definition ZkGroth16FixtureSchema :: ZodType where
  "ZkGroth16FixtureSchema = ZObject False [
     (''schema'', ZLiteral (JStr schemaZkGroth16FixtureV1)),
     (''proofSystem'', ZLiteral (JStr ''groth16'')),
     (''curve'', ZString),
     (''verifierAdapter'', ZString),
     (''proof'', ZString),
     (''publicInputs'', ZString),
     (''verificationKey'', ZString),
     (''verifierMetadata'', optString),
     (''verifyReport'', optString),
     (''contentHashes'', ZRecord ZString),
     (''expectedStatus'', ZString),
     (''claims'', ZRecord ZString)]"

definition ZkRisc0ReceiptSchema :: ZodType where
  "ZkRisc0ReceiptSchema = ZObject False [
     (''schema'', ZLiteral (JStr schemaZkRisc0ReceiptV1)),
     (''encoding'', ZString),
     (''receiptId'', ZText nonEmptyText),
     (''journalHash'', optString),
     (''imageIdHash'', optString),
     (''note'', optString)]"

definition ZkRisc0FixtureSchema :: ZodType where
  "ZkRisc0FixtureSchema = ZObject False [
     (''schema'', ZLiteral (JStr schemaZkRisc0FixtureV1)),
     (''proofSystem'', ZLiteral (JStr ''risc0'')),
     (''verifierAdapter'', ZString),
     (''receipt'', ZString),
     (''journal'', ZString),
     (''imageId'', ZString),
     (''verifyReport'', optString),
     (''contentHashes'', ZRecord ZString),
     (''expectedStatus'', ZString),
     (''claims'', ZRecord ZString)]"

definition ZkCorpusFixtureEntrySchema :: ZodType where
  "ZkCorpusFixtureEntrySchema = ZObject False [
     (''id'', ZText nonEmptyText),
     (''path'', ZText nonEmptyText),
     (''expectedStatus'', ZText nonEmptyText),
     (''expectedMathStatus'', ZOptional (ZText nonEmptyText)),
     (''allowWeakVerificationKey'', ZOptional ZBoolean)]"

definition ZkCorpusSchema :: ZodType where
  "ZkCorpusSchema = ZObject False [
     (''schema'', ZLiteral (JStr schemaZkCorpusV1)),
     (''version'', ZString),
     (''network'', ZString),
     (''profile'', ZString),
     (''experimental'', ZLiteral (JBool True)),
     (''proofSystems'', ZArray 0 ZString),
     (''expectedKnownLimitations'', ZArray 0 ZString),
     (''claims'', ZRecord ZString),
     (''fixtures'', ZArray 0 ZkCorpusFixtureEntrySchema)]"

definition ZkProofMathVerificationSchema :: ZodType where
  "ZkProofMathVerificationSchema = ZObject False [
     (''schema'', ZLiteral (JStr schemaZkProofMathVerificationV1)),
     (''path'', ZString),
     (''proofSystem'', ZLiteral (JStr ''groth16'')),
     (''engine'', ZLiteral (JStr ''snarkjs-bn254'')),
     (''curve'', ZString),
     (''status'', ZEnum [''ZK_GROTH16_MATH_VERIFIED'', ''ZK_GROTH16_MATH_REJECTED'', ''ZK_GROTH16_VERIFIER_ERROR'']),
     (''verified'', ZBoolean),
     (''durationMs'', ZRefine ZNumber nonNegative),
     (''experimental'', ZLiteral (JBool True)),
     (''summary'', ZObject False [
       (''proofSystem'', ZString),
       (''curve'', ZString),
       (''publicSignals'', ZArray 0 ZString),
       (''mathCheck'', ZEnum [''PASS'', ''FAIL'', ''ERROR'']),
       (''verificationKeyHash'', ZString),
       (''publicInputsHash'', ZString),
       (''proofHash'', ZString),
       (''verificationKeyStrength'', ZEnum [''NO_KNOWN_WEAKNESS'', ''WEAK_TRAPDOOR_SUSPECTED'']),
       (''binding'', ZEnum [''FIXTURE_COHERENCE'', ''MATH_ONLY''])]),
     (''claims'', ZRecord ZString),
     (''issues'', ZArray 0 (ZObject False [(''code'', ZString), (''message'', ZString), (''file'', optString)]))]"

definition ZkToccataScriptsSchema :: ZodType where
  "ZkToccataScriptsSchema = ZObject False [
     (''schema'', ZLiteral (JStr schemaZkToccataScriptsV1)),
     (''imageId'', ZText is_hex64),
     (''journalHash'', ZText is_hex64),
     (''redeemScript'', ZText nonEmptyText),
     (''sigScript'', ZText nonEmptyText),
     (''fullSignatureScript'', ZText nonEmptyText),
     (''preparedProof'', ZText hexText256),
     (''redeemScriptHash'', ZText is_hex64),
     (''p2shScriptPublicKey'', ZObject False [(''version'', ZInteger None None), (''script'', ZString)]),
     (''p2shAddresses'', ZObject False [(''simnet'', ZString), (''testnet10'', ZString), (''mainnet'', ZString)]),
     (''precompileOpcode'', ZLiteral (JStr ''0xa6'')),
     (''provingSystemTag'', ZLiteral (JStr ''0x20'')),
     (''experimental'', ZLiteral (JBool True)),
     (''warnings'', ZOptional (ZArray 0 (ZObject False [(''code'', ZString), (''message'', ZString), (''file'', optString)])))]"

definition ZkToccataTxSchema :: ZodType where
  "ZkToccataTxSchema = ZObject False [
     (''schema'', ZLiteral (JStr schemaZkToccataTxV1)),
     (''txVersion'', ZLiteral (JNum 1)),
     (''computeBudget'', ZInteger (Some 1) None),
     (''storageMass'', ZString),
     (''transactionId'', ZText is_hex64),
     (''mass'', ZString),
     (''standardMaxMass'', ZString),
     (''withinStandardMaxMass'', ZBoolean),
     (''destinationAddress'', ZString),
     (''feeSompi'', ZString),
     (''experimental'', ZLiteral (JBool True))]"

definition ZkExecutionEvidenceSchema :: ZodType where
  "ZkExecutionEvidenceSchema = ZObject False [
     (''schema'', ZLiteral (JStr schemaZkExecutionEvidenceV1)),
     (''networkId'', ZEnum [''simnet'', ''testnet-10'']),
     (''node'', ZObject False [
       (''rpcUrl'', ZString),
       (''serverVersion'', ZString),
       (''source'', ZEnum [''simnet-harness'', ''external'']),
       (''harnessRunId'', optString)]),
     (''precompile'', ZObject False [
       (''opcode'', ZLiteral (JStr ''0xa6'')),
       (''opcodeName'', ZLiteral (JStr ''OpZkPrecompile'')),
       (''tag'', ZLiteral (JStr ''0x20'')),
       (''curve'', ZLiteral (JStr ''BN254'')),
       (''provingSystem'', ZLiteral (JStr ''Groth16''))]),
     (''guestSystem'', ZLiteral (JStr ''RISC Zero'')),
     (''imageId'', ZText HEX64),
     (''journalHash'', ZText HEX64),
     (''p2shAddress'', ZString),
     (''redeemScriptHash'', ZString),
     (''funding'', ZObject False [
       (''txId'', ZString),
       (''outputIndex'', ZInteger (Some 0) None),
       (''amountSompi'', ZString),
       (''accepted'', ZBoolean),
       (''utxoObserved'', ZBoolean)]),
     (''spend'', ZObject False [
       (''txId'', optString),
       (''computeBudget'', ZInteger (Some 0) None),
       (''feeSompi'', ZString),
       (''payoutAddress'', ZString),
       (''payoutSompi'', ZString),
       (''accepted'', ZBoolean),
       (''payoutUtxoObserved'', ZBoolean),
       (''blockDaaScore'', optString),
       (''rawError'', optString)]),
     (''negativeCases'', ZArray 0 (ZObject False [
       (''testCase'', ZString),
       (''rejected'', ZBoolean),
       (''rawError'', optString),
       (''expectedPattern'', ZString),
       (''matchedExpectedPattern'', ZBoolean)])),
     (''outcome'', ZEnum [''ALL_AS_EXPECTED'', ''DEVIATIONS'']),
     (''timestamp'', ZString),
     (''notes'', ZOptional (ZArray 0 ZString))]"

definition CovenantTransitionFactSchema :: ZodType where
  "CovenantTransitionFactSchema = ZObject False [
     (''schema'', ZLiteral (JStr schemaCovenantTransitionFactV1)),
     (''hardkasVersion'', ZString),
     (''hashVersion'', ZUnion [ZNumber, ZString]),
     (''networkId'', kaspaNetworkIdSchema),
     (''covenantId'', ZText is_hex64),
     (''contractName'', ZString),
     (''artifactSha256'', ZString),
     (''entrypoint'', ZString),
     (''policy'', optString),
     (''previousState'', ZOptional (ZRecord ZAny)),
     (''nextState'', ZOptional (ZRecord ZAny)),
     (''spentOutpoint'', ZObject False [(''transactionId'', ZString), (''index'', ZInteger (Some 0) None)]),
     (''successorOutpoint'', ZOptional (ZObject False [(''transactionId'', ZString), (''index'', ZInteger (Some 0) None)])),
     (''successorAmountSompi'', optString),
     (''planArtifactId'', ZString),
     (''draftArtifactId'', optString),
     (''txId'', ZText is_hex64),
     (''validation'', ZObject False [
       (''structuralPassed'', ZBoolean),
       (''scriptVmPassed'', ZOptional ZBoolean),
       (''vmStatus'', optString),
       (''diagnostic'', optString)]),
     (''timestamp'', ZString),
     (''contentHash'', optString)]"

definition ZkVerificationFactSchema :: ZodType where
  "ZkVerificationFactSchema = ZObject False [
     (''schema'', ZLiteral (JStr schemaZkVerificationFactV1)),
     (''hardkasVersion'', ZString),
     (''hashVersion'', ZUnion [ZNumber, ZString]),
     (''networkId'', kaspaNetworkIdSchema),
     (''provingSystem'', ZLiteral (JStr ''Groth16'')),
     (''curve'', ZLiteral (JStr ''BN254'')),
     (''guestSystem'', ZEnum [''RISC Zero'', ''custom'']),
     (''imageId'', ZText is_hex64),
     (''journalHash'', ZText is_hex64),
     (''proofSha256'', ZString),
     (''verifiedOffChain'', ZBoolean),
     (''spendUtxo'', ZObject False [(''transactionId'', ZString), (''index'', ZInteger (Some 0) None), (''amountSompi'', ZString)]),
     (''p2shAddress'', ZString),
     (''redeemScriptHash'', ZString),
     (''planArtifactId'', optString),
     (''draftArtifactId'', optString),
     (''txId'', ZText is_hex64),
     (''payoutAddress'', ZString),
     (''payoutSompi'', ZString),
     (''computeBudget'', ZInteger (Some 0) None),
     (''feeSompi'', ZString),
     (''timestamp'', ZString),
     (''contentHash'', optString)]"

end
