(* ===== verification/HK_Verify.thy ===== *)
theory HK_Verify
  imports HK_ZkSchema HK_TxStatus
begin

text \<open>
  The integrity check of one artifact (\<open>verifyArtifactIntegritySync\<close> of \<open>packages/artifacts/src/verify.ts\<close>): versions, content
  hash, derived labels, the schema its name selects, and the coherence of authorizations and observations. The artifact
  is given as a value; reading it from a file is left out. What Zod reports for a schema and a value is the parameter
  \<open>issues\<close>, the list of the paths it finds fault with, empty for a value it accepts. Issues keep their codes, severities and
  paths; their messages, which only describe them, are left out. An exception ends the check with an error.
\<close>

subsection \<open>Results\<close>

datatype VerificationSeverity = SevError | SevWarning | SevInfo

record VerificationIssue =
  vi_code :: string
  vi_severity :: VerificationSeverity
  vi_path :: "string option"

record ArtifactVerificationResult =
  ir_ok :: bool
  ir_artifactType :: json
  ir_version :: json
  ir_expectedHash :: json
  ir_actualHash :: "string option"
  ir_authScope :: AuthScope
  ir_unauthenticatedMaterialFields :: "string list"
  ir_issues :: "VerificationIssue list"

definition emptyResult :: ArtifactVerificationResult where
  "emptyResult = \<lparr>ir_ok = False, ir_artifactType = JUndefined, ir_version = JUndefined, ir_expectedHash = JUndefined, ir_actualHash = None,
     ir_authScope = NONE, ir_unauthenticatedMaterialFields = [], ir_issues = []\<rparr>"

definition pushIssue :: "VerificationSeverity \<Rightarrow> string \<Rightarrow> string option \<Rightarrow> ArtifactVerificationResult \<Rightarrow> ArtifactVerificationResult" where
  "pushIssue severity code path r = r\<lparr>ir_issues := ir_issues r @ [\<lparr>vi_code = code, vi_severity = severity, vi_path = path\<rparr>]\<rparr>"

definition addError :: "string \<Rightarrow> string option \<Rightarrow> ArtifactVerificationResult \<Rightarrow> ArtifactVerificationResult" where
  "addError code path r = pushIssue SevError code path r"

definition errorIf :: "bool \<Rightarrow> string \<Rightarrow> string option \<Rightarrow> ArtifactVerificationResult \<Rightarrow> ArtifactVerificationResult" where
  "errorIf c code path r = (if c then addError code path r else r)"

subsection \<open>The schema of an artifact\<close>

definition ARTIFACT_SCHEMAS :: "(string \<times> ZodType) list" where
  "ARTIFACT_SCHEMAS = [
     (schemaSnapshot, SnapshotSchema),
     (schemaSnapshotV1, SnapshotSchema),
     (schemaTxPlan, TxPlanSchema),
     (schemaTxReceipt, TxReceiptSchema),
     (schemaTxTrace, TxTraceSchema),
     (schemaSignedTx, SignedTxSchema),
     (schemaWorkflowV1, WorkflowSchema),
     (schemaPolicyV1, PolicySchema),
     (schemaNetworkProfileV1, NetworkProfileSchema),
     (schemaAssumptionV1, AssumptionSchema),
     (schemaMigrationReceiptV1, MigrationReceiptSchema),
     (schemaTxSubmissionV1, TxSubmissionSchema),
     (schemaTxObservationV1, TxObservationSchema),
     (schemaScenarioResultV1, ScenarioResultSchema),
     (schemaReplayReportV1, ReplayReportSchema),
     (schemaSilverCompile, SilverCompileArtifactSchema),
     (schemaSilverDeployPlan, SilverDeployPlanArtifactSchema),
     (schemaSilverDeploy, SilverDeployArtifactSchema),
     (schemaSilverTest, SilverTestArtifactSchema),
     (schemaSilverSpendPlan, SilverSpendPlanArtifactSchema),
     (schemaSilverSpendReceipt, SilverSpendReceiptArtifactSchema),
     (schemaSilverDeploySimulation, SilverDeploySimulationArtifactSchema),
     (schemaSilverSpendSimulation, SilverSpendSimulationArtifactSchema),
     (schemaSilverCompileV1, SilverCompileV1Schema),
     (schemaSilverDeployV1, SilverDeployV1Schema),
     (schemaSilverSpendV1, SilverSpendV1Schema),
     (schemaSilverCovenantV1, SilverCovenantV1Schema),
     (schemaSilverVmTestV1, SilverVmTestV1Schema),
     (schemaZkGroth16ProofV1, ZkGroth16ProofSchema),
     (schemaZkGroth16VerificationKeyV1, ZkGroth16VerificationKeySchema),
     (schemaZkGroth16PublicInputsV1, ZkGroth16PublicInputsSchema),
     (schemaZkGroth16FixtureV1, ZkGroth16FixtureSchema),
     (schemaZkRisc0ReceiptV1, ZkRisc0ReceiptSchema),
     (schemaZkRisc0FixtureV1, ZkRisc0FixtureSchema),
     (schemaZkCorpusV1, ZkCorpusSchema),
     (schemaZkProofMathVerificationV1, ZkProofMathVerificationSchema),
     (schemaZkToccataScriptsV1, ZkToccataScriptsSchema),
     (schemaZkToccataTxV1, ZkToccataTxSchema),
     (schemaZkExecutionEvidenceV1, ZkExecutionEvidenceSchema)]"

definition artifactSchema :: "json \<Rightarrow> ZodType option" where
  "artifactSchema v = (case jget v ''schema'' of JStr s \<Rightarrow> map_of ARTIFACT_SCHEMAS s | _ \<Rightarrow> None)"

subsection \<open>The steps of the check\<close>

text \<open>\<open>const [major] = version.split(".")\<close>; only texts can be split.\<close>

definition majorOf :: "json \<Rightarrow> string result" where
  "majorOf v = (case v of JStr s \<Rightarrow> Inr (takeWhile (\<lambda>c. c \<noteq> CHR ''.'') s) | _ \<Rightarrow> Inl ''split is not a function'')"

definition hashStep :: "json \<Rightarrow> string \<Rightarrow> ArtifactVerificationResult \<Rightarrow> ArtifactVerificationResult" where
  "hashStep v actualHash r =
     (if \<not> truthy (jget v ''contentHash'') then addError ''MISSING_CONTENT_HASH'' None r
      else errorIf (JStr actualHash \<noteq> jget v ''contentHash'') ''ARTIFACT_HASH_MISMATCH'' None r)"

definition scopeStep :: "bool \<Rightarrow> json \<Rightarrow> int \<Rightarrow> string \<Rightarrow> ArtifactVerificationResult \<Rightarrow> ArtifactVerificationResult" where
  "scopeStep strict v hashVersion actualHash r =
     (if hashVersion < CURRENT_HASH_VERSION then
        (let r' = r\<lparr>ir_authScope := LEGACY, ir_unauthenticatedMaterialFields := legacyUnauthenticatedMaterialFields v hashVersion\<rparr>
         in if strict then addError ''MIGRATION_REQUIRED'' None r' else pushIssue SevInfo ''LEGACY_AUTH_SCOPE'' None r')
      else
        errorIf (jget v ''artifactId'' \<noteq> JUndefined) ''FORBIDDEN_IDENTITY_FIELD'' None
          (errorIf (jget v ''schema'' = JStr schemaSignedTx \<and> jget v ''signedId'' \<noteq> JUndefined \<and>
              jget v ''signedId'' \<noteq> JStr (''signed-'' @ take 16 actualHash)) ''LABEL_MISMATCH'' None
            (errorIf (jget v ''schema'' = JStr schemaTxPlan \<and> jget v ''planId'' \<noteq> JUndefined \<and>
                jget v ''planId'' \<noteq> JStr (''plan-'' @ take 16 actualHash)) ''LABEL_MISMATCH'' None
              (r\<lparr>ir_authScope := FULL\<rparr>))))"

definition schemaStep :: "(ZodType \<Rightarrow> json \<Rightarrow> string list) \<Rightarrow> bool \<Rightarrow> json \<Rightarrow> int \<Rightarrow> ArtifactVerificationResult \<Rightarrow> ArtifactVerificationResult" where
  "schemaStep issues strict v hashVersion r =
     (case artifactSchema v of
        None \<Rightarrow> addError ''ARTIFACT_SCHEMA_INVALID'' None r
      | Some schema \<Rightarrow>
          foldl (\<lambda>r path.
              if hashVersion < 4 \<and> \<not> strict then pushIssue SevWarning ''ARTIFACT_SCHEMA_INVALID'' (if path = [] then None else Some path) r
              else addError ''ARTIFACT_SCHEMA_INVALID'' (Some path) r)
            r (issues schema v))"

text \<open>The runner of an official record must be a trusted reference; there is none.\<close>

definition SILVER_RUNNER_TRUSTED_REFERENCES :: "string list" where
  "SILVER_RUNNER_TRUSTED_REFERENCES = []"

definition runnerStep :: "json \<Rightarrow> ArtifactVerificationResult \<Rightarrow> ArtifactVerificationResult" where
  "runnerStep v r =
     (if jget v ''schema'' = JStr schemaSilverVmTestV1 \<and> jget v ''evidence'' = JStr ''official-vm-scenario'' then
        (let runner = jget v ''runner'' in
         if jget runner ''trust'' \<noteq> JStr ''VERIFIED'' then addError ''ARTIFACT_SCHEMA_INVALID'' (Some ''runner.trust'') r
         else errorIf (map to_lower (template_text (jnn (jget runner ''binarySha256'') (JStr []))) \<notin> set SILVER_RUNNER_TRUSTED_REFERENCES)
           ''ARTIFACT_SCHEMA_INVALID'' (Some ''runner.binarySha256'') r)
      else r)"

definition authorizationStep :: "(string \<Rightarrow> string) \<Rightarrow> json \<Rightarrow> ArtifactVerificationResult \<Rightarrow> ArtifactVerificationResult" where
  "authorizationStep sha v r =
     (if jget v ''schema'' = JStr schemaSignedTx then
        (case checkSyntheticAuthorization sha v JUndefined of
           Inl code \<Rightarrow> errorIf (code \<noteq> ''LEGACY_UNBOUND_SIGNED'') code (Some ''authorization'') r
         | Inr _ \<Rightarrow> r)
      else r)"

definition observationStep :: "(ZodType \<Rightarrow> json \<Rightarrow> string list) \<Rightarrow> json \<Rightarrow> ArtifactVerificationResult \<Rightarrow> ArtifactVerificationResult" where
  "observationStep issues v r =
     (if jget v ''schema'' = JStr schemaTxObservationV1 \<and> issues TxObservationSchema v = [] then
        (case checkTxObservationCoherence (\<lambda>s j. issues s j = []) v of
           Some (message, path) \<Rightarrow> addError ''OBSERVATION_INCOHERENT'' (Some path) r
         | None \<Rightarrow> r)
      else r)"

definition settleResult :: "ArtifactVerificationResult \<Rightarrow> ArtifactVerificationResult" where
  "settleResult r = r\<lparr>ir_ok := list_all (\<lambda>i. vi_severity i \<noteq> SevError) (ir_issues r)\<rparr>"

definition caughtError :: "ArtifactVerificationResult \<Rightarrow> ArtifactVerificationResult" where
  "caughtError r = addError ''ARTIFACT_ID_INVALID'' None r"

definition verifyHashed :: "(string \<Rightarrow> string) \<Rightarrow> (ZodType \<Rightarrow> json \<Rightarrow> string list) \<Rightarrow> bool \<Rightarrow> json \<Rightarrow> int \<Rightarrow> string \<Rightarrow> ArtifactVerificationResult \<Rightarrow> ArtifactVerificationResult" where
  "verifyHashed sha issues strict v hashVersion actualHash r =
     settleResult (observationStep issues v (authorizationStep sha v (runnerStep v (schemaStep issues strict v hashVersion
       (scopeStep strict v hashVersion actualHash (hashStep v actualHash (r\<lparr>ir_actualHash := Some actualHash\<rparr>)))))))"

definition verifyArtifactIntegritySync ::
  "(string \<Rightarrow> string) \<Rightarrow> (ZodType \<Rightarrow> json \<Rightarrow> string list) \<Rightarrow> bool \<Rightarrow> json \<Rightarrow> ArtifactVerificationResult" where
  "verifyArtifactIntegritySync sha issues strict v =
     (if v = JUndefined \<or> v = JNull then caughtError emptyResult
      else let r = emptyResult\<lparr>ir_artifactType := jget v ''schema'', ir_version := jget v ''version'', ir_expectedHash := jget v ''contentHash''\<rparr> in
        if \<not> truthy (jget v ''version'') \<or> \<not> truthy (jget v ''schema'') then addError ''ARTIFACT_SCHEMA_MISSING'' None r
        else case majorOf (jget v ''version'') of
          Inl _ \<Rightarrow> caughtError r
        | Inr artifactMajor \<Rightarrow>
            if Inr artifactMajor \<noteq> majorOf (JStr ARTIFACT_VERSION) then addError ''ARTIFACT_SCHEMA_INVALID'' None r
            else case readDeclaredHashVersion v of
              None \<Rightarrow> addError ''HASH_VERSION_INVALID'' None r
            | Some hashVersion \<Rightarrow>
                (case calculateContentHash sha v hashVersion of
                   Inl _ \<Rightarrow> caughtError r
                 | Inr actualHash \<Rightarrow> verifyHashed sha issues strict v hashVersion actualHash r))"

end
