(* ===== verification/HK_VerifyProps.thy ===== *)
theory HK_VerifyProps
  imports HK_Verify HK_TransferChain
begin

text \<open>
  What a passed integrity check promises: the content hash is the recomputed one, the schema its name selects accepts the
  artifact, and in strict mode everything outside the closed operational list is authenticated. What the code seals as an
  observation passes. Three of the schemas the check selects can never be satisfied by an artifact that reaches them.
\<close>

subsection \<open>Steps only add issues\<close>

definition errorfree :: "ArtifactVerificationResult \<Rightarrow> bool" where
  "errorfree r \<longleftrightarrow> list_all (\<lambda>i. vi_severity i \<noteq> SevError) (ir_issues r)"

lemma clean_push [simp]: "errorfree (pushIssue s c p r) \<longleftrightarrow> s \<noteq> SevError \<and> errorfree r" "errorfree (addError c p r) \<longleftrightarrow> False"
  "errorfree (errorIf b c p r) \<longleftrightarrow> \<not> b \<and> errorfree r"
  by (auto simp: errorfree_def pushIssue_def addError_def errorIf_def)

lemma push_sel [simp]:
  "ir_authScope (pushIssue s c p r) = ir_authScope r" "ir_actualHash (pushIssue s c p r) = ir_actualHash r"
  "ir_authScope (errorIf b c p r) = ir_authScope r" "ir_actualHash (errorIf b c p r) = ir_actualHash r"
  "ir_authScope (addError c p r) = ir_authScope r" "ir_actualHash (addError c p r) = ir_actualHash r"
  by (simp_all add: pushIssue_def errorIf_def addError_def)

lemma clean_scope [simp]: "errorfree (r\<lparr>ir_authScope := a\<rparr>) = errorfree r" "errorfree (r\<lparr>ir_actualHash := h\<rparr>) = errorfree r"
  "errorfree (r\<lparr>ir_unauthenticatedMaterialFields := u\<rparr>) = errorfree r"
  by (simp_all add: errorfree_def)

lemma clean_steps:
  "errorfree (observationStep issues v r) \<longleftrightarrow> errorfree r \<and> (jget v ''schema'' = JStr schemaTxObservationV1 \<and> issues TxObservationSchema v = [] \<longrightarrow>
     checkTxObservationCoherence (\<lambda>s j. issues s j = []) v = None)"
  "errorfree (authorizationStep sha v r) \<longleftrightarrow> errorfree r \<and> (jget v ''schema'' = JStr schemaSignedTx \<longrightarrow>
     (case checkSyntheticAuthorization sha v JUndefined of Inl code \<Rightarrow> code = ''LEGACY_UNBOUND_SIGNED'' | Inr _ \<Rightarrow> True))"
  "errorfree (hashStep v h r) \<longleftrightarrow> errorfree r \<and> truthy (jget v ''contentHash'') \<and> jget v ''contentHash'' = JStr h"
  "errorfree (runnerStep v r) \<longleftrightarrow> errorfree r \<and> \<not> (jget v ''schema'' = JStr schemaSilverVmTestV1 \<and> jget v ''evidence'' = JStr ''official-vm-scenario'')"
  by (auto simp: observationStep_def authorizationStep_def hashStep_def runnerStep_def Let_def SILVER_RUNNER_TRUSTED_REFERENCES_def split: option.split sum.split)

lemma clean_schema:
  "errorfree (schemaStep issues strict v hv r) \<longleftrightarrow> errorfree r \<and> (\<exists>s. artifactSchema v = Some s \<and> (issues s v = [] \<or> (hv < 4 \<and> \<not> strict)))"
proof (cases "artifactSchema v")
  case (Some s)
  have "errorfree (foldl (\<lambda>r path. if hv < 4 \<and> \<not> strict then pushIssue SevWarning ''ARTIFACT_SCHEMA_INVALID'' (if path = [] then None else Some path) r
      else addError ''ARTIFACT_SCHEMA_INVALID'' (Some path) r) r ps) \<longleftrightarrow> errorfree r \<and> (ps = [] \<or> (hv < 4 \<and> \<not> strict))" for ps
    by (induction ps arbitrary: r) auto
  then show ?thesis using Some by (auto simp: schemaStep_def)
qed (simp add: schemaStep_def)

lemma clean_scopeStep:
  "errorfree (scopeStep strict v hv h r) \<longleftrightarrow> errorfree r \<and> (if hv < CURRENT_HASH_VERSION then \<not> strict
     else jget v ''artifactId'' = JUndefined \<and>
       (jget v ''schema'' = JStr schemaSignedTx \<longrightarrow> jget v ''signedId'' \<in> {JUndefined, JStr (''signed-'' @ take 16 h)}) \<and>
       (jget v ''schema'' = JStr schemaTxPlan \<longrightarrow> jget v ''planId'' \<in> {JUndefined, JStr (''plan-'' @ take 16 h)}))"
  by (auto simp: scopeStep_def Let_def)

lemma kept_by_steps:
  "ir_authScope (observationStep issues v r) = ir_authScope r" "ir_actualHash (observationStep issues v r) = ir_actualHash r"
  "ir_authScope (authorizationStep sha v r) = ir_authScope r" "ir_actualHash (authorizationStep sha v r) = ir_actualHash r"
  "ir_authScope (runnerStep v r) = ir_authScope r" "ir_actualHash (runnerStep v r) = ir_actualHash r"
  "ir_actualHash (hashStep v h r) = ir_actualHash r" "ir_actualHash (scopeStep strict v hv h r) = ir_actualHash r"
  "ir_authScope (scopeStep strict v hv h r) = (if hv < CURRENT_HASH_VERSION then LEGACY else FULL)"
  by (auto simp: observationStep_def authorizationStep_def runnerStep_def hashStep_def scopeStep_def Let_def split: option.split sum.split)

lemma kept_by_schema: "ir_authScope (schemaStep issues strict v hv r) = ir_authScope r \<and> ir_actualHash (schemaStep issues strict v hv r) = ir_actualHash r"
proof (cases "artifactSchema v")
  case (Some s)
  have "ir_authScope (foldl (\<lambda>r path. if hv < 4 \<and> \<not> strict then pushIssue SevWarning ''ARTIFACT_SCHEMA_INVALID'' (if path = [] then None else Some path) r
      else addError ''ARTIFACT_SCHEMA_INVALID'' (Some path) r) r ps) = ir_authScope r \<and>
    ir_actualHash (foldl (\<lambda>r path. if hv < 4 \<and> \<not> strict then pushIssue SevWarning ''ARTIFACT_SCHEMA_INVALID'' (if path = [] then None else Some path) r
      else addError ''ARTIFACT_SCHEMA_INVALID'' (Some path) r) r ps) = ir_actualHash r" for ps
    by (induction ps arbitrary: r) auto
  then show ?thesis using Some by (simp add: schemaStep_def)
qed (simp add: schemaStep_def)

subsection \<open>What a passed check means\<close>

definition versioned :: "json \<Rightarrow> bool" where
  "versioned v \<longleftrightarrow> truthy (jget v ''schema'') \<and> (\<exists>s. jget v ''version'' = JStr s \<and> takeWhile (\<lambda>c. c \<noteq> CHR ''.'') s = ''1'')"

lemma major_of_current: "majorOf (JStr ARTIFACT_VERSION) = Inr ''1''"
  by code_simp

lemma unchecked_not_ok [simp]: "ir_ok (addError c p r) = ir_ok r" "ir_ok (caughtError r) = ir_ok r" "ir_ok emptyResult = False"
  by (simp_all add: addError_def pushIssue_def caughtError_def emptyResult_def)

lemma integrity_versioned:
  assumes "versioned v"
  shows "verifyArtifactIntegritySync sha issues strict v =
    (let r = emptyResult\<lparr>ir_artifactType := jget v ''schema'', ir_version := jget v ''version'', ir_expectedHash := jget v ''contentHash''\<rparr> in
     case readDeclaredHashVersion v of
       None \<Rightarrow> addError ''HASH_VERSION_INVALID'' None r
     | Some hv \<Rightarrow> (case calculateContentHash sha v hv of Inl _ \<Rightarrow> caughtError r | Inr h \<Rightarrow> verifyHashed sha issues strict v hv h r))"
proof -
  obtain s where s: "truthy (jget v ''schema'')" "jget v ''version'' = JStr s" "takeWhile (\<lambda>c. c \<noteq> CHR ''.'') s = ''1''"
    using assms by (auto simp: versioned_def)
  have "v \<noteq> JUndefined" "v \<noteq> JNull" "s \<noteq> []" using s by auto
  then show ?thesis
    unfolding verifyArtifactIntegritySync_def Let_def major_of_current using s by (simp add: majorOf_def)
qed

lemma integrity_unversioned: "\<not> versioned v \<Longrightarrow> \<not> ir_ok (verifyArtifactIntegritySync sha issues strict v)"
  unfolding verifyArtifactIntegritySync_def Let_def major_of_current versioned_def
  by (cases "jget v ''version''") (auto simp: majorOf_def emptyResult_def addError_def pushIssue_def caughtError_def)

lemma settled_ok: "ir_ok (settleResult r) \<longleftrightarrow> errorfree r"
  by (simp add: settleResult_def errorfree_def)

lemma settle_sel [simp]: "ir_authScope (settleResult r) = ir_authScope r" "ir_actualHash (settleResult r) = ir_actualHash r"
  by (simp_all add: settleResult_def)

lemma hashed_ok:
  "ir_ok (verifyHashed sha issues strict v hv h r) \<longleftrightarrow> errorfree r \<and> jget v ''contentHash'' = JStr h \<and> h \<noteq> [] \<and>
     (if hv < CURRENT_HASH_VERSION then \<not> strict
      else jget v ''artifactId'' = JUndefined \<and>
       (jget v ''schema'' = JStr schemaSignedTx \<longrightarrow> jget v ''signedId'' \<in> {JUndefined, JStr (''signed-'' @ take 16 h)}) \<and>
       (jget v ''schema'' = JStr schemaTxPlan \<longrightarrow> jget v ''planId'' \<in> {JUndefined, JStr (''plan-'' @ take 16 h)})) \<and>
     (\<exists>s. artifactSchema v = Some s \<and> (issues s v = [] \<or> (hv < 4 \<and> \<not> strict))) \<and>
     \<not> (jget v ''schema'' = JStr schemaSilverVmTestV1 \<and> jget v ''evidence'' = JStr ''official-vm-scenario'') \<and>
     (jget v ''schema'' = JStr schemaSignedTx \<longrightarrow>
        (case checkSyntheticAuthorization sha v JUndefined of Inl code \<Rightarrow> code = ''LEGACY_UNBOUND_SIGNED'' | Inr _ \<Rightarrow> True)) \<and>
     (jget v ''schema'' = JStr schemaTxObservationV1 \<and> issues TxObservationSchema v = [] \<longrightarrow> checkTxObservationCoherence (\<lambda>s j. issues s j = []) v = None)"
  unfolding verifyHashed_def settled_ok clean_steps clean_schema clean_scopeStep clean_scope by (cases "jget v ''contentHash'' = JStr h") auto

lemma hashed_sel:
  "ir_authScope (verifyHashed sha issues strict v hv h r) = (if hv < CURRENT_HASH_VERSION then LEGACY else FULL)"
  "ir_actualHash (verifyHashed sha issues strict v hv h r) = Some h"
  by (simp_all add: verifyHashed_def kept_by_steps kept_by_schema)

lemma integrity_ok:
  assumes "ir_ok (verifyArtifactIntegritySync sha issues strict v)"
  obtains hv h r where "versioned v" "readDeclaredHashVersion v = Some hv" "calculateContentHash sha v hv = Inr h"
    "ir_ok (verifyHashed sha issues strict v hv h r)" "verifyArtifactIntegritySync sha issues strict v = verifyHashed sha issues strict v hv h r"
proof -
  have v: "versioned v" using assms integrity_unversioned by blast
  note e = integrity_versioned [OF v, of sha issues strict, unfolded Let_def]
  show ?thesis
  proof (cases "readDeclaredHashVersion v")
    case (Some hv)
    then show ?thesis
    proof (cases "calculateContentHash sha v hv")
      case (Inr h)
      then show ?thesis using that [OF v Some Inr] assms e Some by simp
    qed (use assms e Some in simp)
  qed (use assms e in simp)
qed

lemma declared_at_most: "readDeclaredHashVersion v = Some hv \<Longrightarrow> hv \<le> CURRENT_HASH_VERSION"
  by (auto simp: readDeclaredHashVersion_def split: json.splits if_splits)

text \<open>C15: an artifact that passes the integrity check is authentic. The content hash it carries is the one recomputed under the
  version it declares, and its name selects a schema. Where the check is strict, the version is the current one and the scope full;
  where it is strict or the version is at least four, the schema accepts the artifact. With full scope the derived labels are those
  of the hash and no second identity is claimed.\<close>

theorem verified_artifact_authentic:
  assumes "ir_ok (verifyArtifactIntegritySync sha issues strict v)"
  shows "\<exists>hv h s. readDeclaredHashVersion v = Some hv \<and> calculateContentHash sha v hv = Inr h \<and> jget v ''contentHash'' = JStr h \<and>
    ir_actualHash (verifyArtifactIntegritySync sha issues strict v) = Some h \<and> artifactSchema v = Some s \<and>
    (strict \<or> 4 \<le> hv \<longrightarrow> issues s v = []) \<and>
    (strict \<longrightarrow> hv = CURRENT_HASH_VERSION) \<and>
    ir_authScope (verifyArtifactIntegritySync sha issues strict v) = (if hv = CURRENT_HASH_VERSION then FULL else LEGACY) \<and>
    (hv = CURRENT_HASH_VERSION \<longrightarrow> jget v ''artifactId'' = JUndefined \<and>
      (jget v ''schema'' = JStr schemaTxPlan \<longrightarrow> jget v ''planId'' \<in> {JUndefined, JStr (''plan-'' @ take 16 h)}) \<and>
      (jget v ''schema'' = JStr schemaSignedTx \<longrightarrow> jget v ''signedId'' \<in> {JUndefined, JStr (''signed-'' @ take 16 h)}))"
proof -
  obtain hv h r where r: "readDeclaredHashVersion v = Some hv" "calculateContentHash sha v hv = Inr h"
    "ir_ok (verifyHashed sha issues strict v hv h r)" "verifyArtifactIntegritySync sha issues strict v = verifyHashed sha issues strict v hv h r"
    using integrity_ok [OF assms] by metis
  note k = r(3) [unfolded hashed_ok] and le = declared_at_most [OF r(1)]
  obtain s where s: "artifactSchema v = Some s" "issues s v = [] \<or> (hv < 4 \<and> \<not> strict)" using k by blast
  have "hv < CURRENT_HASH_VERSION \<longleftrightarrow> hv \<noteq> CURRENT_HASH_VERSION" using le by auto
  then have scope: "(if hv < CURRENT_HASH_VERSION then LEGACY else FULL) = (if hv = CURRENT_HASH_VERSION then FULL else LEGACY)" by simp
  have full: "\<not> hv < CURRENT_HASH_VERSION" if "hv = CURRENT_HASH_VERSION" using that by simp
  show ?thesis unfolding r(4) hashed_sel scope
  proof (rule exI [of _ hv], rule exI [of _ h], rule exI [of _ s], intro conjI impI)
    show "hv = CURRENT_HASH_VERSION" if strict using that k le by (simp split: if_splits)
    show "issues s v = []" if "strict \<or> 4 \<le> hv" using that s(2) by auto
  qed (use r(1,2) k s(1) full in \<open>simp_all split: if_splits\<close>)
qed

subsection \<open>What is sealed passes\<close>

text \<open>Writing the content hash into a value that has none changes neither its hash nor the verdict of a schema of artifacts.\<close>

lemma hash_written:
  assumes "distinct (map fst es)"
  shows "calculateContentHash sha (jset ''contentHash'' v (JObj es)) 5 = calculateContentHash sha (JObj es) 5"
proof -
  let ?es = "AList.update ''contentHash'' v es"
  have ex: "isExcluded ''contentHash'' 5 0 None" by (simp add: isExcluded_def UNEXCLUDED_FORM_def)
  have d: "distinct (map fst ?es)" by (intro AList.distinct_update assms)
  have "keptEntries 5 0 None ?es = keptEntries 5 0 None es"
  proof (rule kept_same [OF d assms])
    fix k w
    assume "\<not> isExcluded k 5 0 None"
    then have "map_of ?es k = map_of es k" using ex by (cases "k = ''contentHash''") auto
    then show "(k, w) \<in> set ?es \<longleftrightarrow> (k, w) \<in> set es" by (simp add: map_of_mem [OF d] map_of_mem [OF assms])
  qed
  then show ?thesis by (simp add: calculateContentHash_def canonicalStringify_def jset_def)
qed

definition hash_optional :: "ZodType \<Rightarrow> bool" where
  "hash_optional s = (case s of ZObject b fs \<Rightarrow> \<not> b \<and> list_all (\<lambda>f. fst f = ''contentHash'' \<longrightarrow> snd f = optString) fs | _ \<Rightarrow> False)"

context zod
begin

lemma accepts_hash:
  assumes "hash_optional s" "accepts s (JObj es)"
  shows "accepts s (jset ''contentHash'' (JStr h) (JObj es))"
proof -
  obtain fs where s: "s = ZObject False fs" "list_all (\<lambda>f. fst f = ''contentHash'' \<longrightarrow> snd f = optString) fs"
    using assms(1) by (auto simp: hash_optional_def split: ZodType.splits)
  have j: "jset ''contentHash'' (JStr h) (JObj es) = JObj (AList.update ''contentHash'' (JStr h) es)" by (simp add: jset_def)
  have "accepts (snd f) (jget (jset ''contentHash'' (JStr h) (JObj es)) (fst f))" if "f \<in> set fs" for f
  proof (cases "fst f = ''contentHash''")
    case True
    then show ?thesis using s(2) that by (simp add: list_all_iff optional string)
  next
    case False
    then show ?thesis using assms(2) that unfolding s(1) by (simp add: object list_all_iff del: jget_simps(3))
  qed
  then show ?thesis unfolding s(1) j by (simp add: object list_all_iff del: jget_simps(3))
qed

end

lemma schema_names_distinct: "distinct (map fst ARTIFACT_SCHEMAS)"
proof -
  have "distinct [schemaSnapshot, schemaSnapshotV1, schemaTxPlan, schemaTxReceipt, schemaTxTrace, schemaSignedTx, schemaWorkflowV1, schemaPolicyV1,
     schemaNetworkProfileV1, schemaAssumptionV1, schemaMigrationReceiptV1, schemaTxSubmissionV1, schemaTxObservationV1, schemaScenarioResultV1,
     schemaReplayReportV1, schemaSilverCompile, schemaSilverDeployPlan, schemaSilverDeploy, schemaSilverTest, schemaSilverSpendPlan,
     schemaSilverSpendReceipt, schemaSilverDeploySimulation, schemaSilverSpendSimulation, schemaSilverCompileV1, schemaSilverDeployV1,
     schemaSilverSpendV1, schemaSilverCovenantV1, schemaSilverVmTestV1, schemaZkGroth16ProofV1, schemaZkGroth16VerificationKeyV1,
     schemaZkGroth16PublicInputsV1, schemaZkGroth16FixtureV1, schemaZkRisc0ReceiptV1, schemaZkRisc0FixtureV1, schemaZkCorpusV1,
     schemaZkProofMathVerificationV1, schemaZkToccataScriptsV1, schemaZkToccataTxV1, schemaZkExecutionEvidenceV1]" by code_simp
  then show ?thesis by (simp only: ARTIFACT_SCHEMAS_def list.map fst_conv)
qed

lemma observation_schema: "map_of ARTIFACT_SCHEMAS schemaTxObservationV1 = Some TxObservationSchema" "hash_optional TxObservationSchema"
proof -
  have "(schemaTxObservationV1, TxObservationSchema) \<in> set ARTIFACT_SCHEMAS" by (simp add: ARTIFACT_SCHEMAS_def)
  then show "map_of ARTIFACT_SCHEMAS schemaTxObservationV1 = Some TxObservationSchema" by (rule map_of_is_SomeI [OF schema_names_distinct])
  show "hash_optional TxObservationSchema"
    by (simp add: hash_optional_def TxObservationSchema_def BaseArtifactSchema_def zextend_def)
qed

lemma observation_written: "observationOf (jset ''contentHash'' v (JObj es)) = observationOf (JObj es)"
  by (simp add: observationOf_def del: jget_simps(3))

lemma observationBody_distinct: "distinct (map fst (observationBody input ctx))"
  by (simp add: observationBody_def jwhen_def)

lemma observationBody_get:
  "map_of (observationBody input ctx) ''schema'' = Some (JStr schemaTxObservationV1)" "map_of (observationBody input ctx) ''version'' = Some (JStr ARTIFACT_VERSION)"
  "map_of (observationBody input ctx) ''hashVersion'' = Some (JNum CURRENT_HASH_VERSION)" "map_of (observationBody input ctx) ''artifactId'' = None"
  by (simp_all add: observationBody_def jwhen_def)

lemma sealed_observation_ok:
  assumes "zod (\<lambda>s j. issues s j = []) datetime" "createTxObservationArtifact sha (\<lambda>s j. issues s j = []) input ctx = Inr ob" "\<And>x. sha x \<noteq> []"
  shows "ir_ok (verifyArtifactIntegritySync sha issues True ob) \<and> ir_authScope (verifyArtifactIntegritySync sha issues True ob) = FULL"
proof -
  let ?es = "observationBody input ctx" and ?accepts = "\<lambda>s j. issues s j = []"
  obtain h where c: "checkTxObservationCoherence ?accepts (JObj ?es) = None" and h: "calculateContentHash sha (JObj ?es) 5 = Inr h"
    and ob: "ob = jset ''contentHash'' (JStr h) (JObj ?es)"
    using assms(2) by (auto simp: createTxObservationArtifact_def Let_def CURRENT_HASH_VERSION_def split: option.splits)
  have get: "jget ob k = (if k = ''contentHash'' then JStr h else jget (JObj ?es) k)" for k unfolding ob by (rule jget_jset)
  have a: "issues TxObservationSchema (JObj ?es) = []" "findingIncoherence (observationOf (JObj ?es)) = None"
    using c by (auto simp: checkTxObservationCoherence_def split: if_splits)
  have a': "issues TxObservationSchema ob = []" unfolding ob by (rule zod.accepts_hash [OF assms(1) observation_schema(2) a(1)])
  have v: "jget ob ''schema'' = JStr schemaTxObservationV1" "jget ob ''version'' = JStr ARTIFACT_VERSION" "jget ob ''hashVersion'' = JNum CURRENT_HASH_VERSION"
    "jget ob ''artifactId'' = JUndefined" "jget ob ''contentHash'' = JStr h"
    unfolding get by (simp_all add: observationBody_get)
  have "h \<noteq> []" using h assms(3) by (auto simp: calculateContentHash_def)
  have hv: "readDeclaredHashVersion ob = Some 5" by (simp add: readDeclaredHashVersion_def v(3) MIN_HASH_VERSION_def CURRENT_HASH_VERSION_def)
  have hash: "calculateContentHash sha ob 5 = Inr h" unfolding ob hash_written [OF observationBody_distinct] by (rule h)
  have ver: "versioned ob"
  proof -
    have "takeWhile (\<lambda>c. c \<noteq> CHR ''.'') ARTIFACT_VERSION = ''1''" "schemaTxObservationV1 \<noteq> []" by code_simp+
    then show ?thesis by (simp add: versioned_def v)
  qed
  have other: "schemaTxObservationV1 \<noteq> schemaSignedTx" "schemaTxObservationV1 \<noteq> schemaTxPlan" "schemaTxObservationV1 \<noteq> schemaSilverVmTestV1" by code_simp+
  have co: "checkTxObservationCoherence ?accepts ob = None"
    using a' a(2) unfolding checkTxObservationCoherence_def ob observation_written by simp
  have "ir_ok (verifyHashed sha issues True ob 5 h r)" if "errorfree r" for r
    unfolding hashed_ok using that \<open>h \<noteq> []\<close> v other a' co observation_schema(1) by (simp add: artifactSchema_def CURRENT_HASH_VERSION_def)
  moreover have "errorfree (emptyResult\<lparr>ir_artifactType := x, ir_version := y, ir_expectedHash := z\<rparr>)" for x y z by (simp add: errorfree_def emptyResult_def)
  ultimately show ?thesis
    unfolding integrity_versioned [OF ver] Let_def hv option.case hash sum.case hashed_sel by (simp add: CURRENT_HASH_VERSION_def)
qed

text \<open>C31: an observation that the code seals passes the strict integrity check with full scope: sealing refuses what the
  verifier would refuse, and adding the content hash to the sealed fields changes nothing the verifier recomputes.\<close>

theorem sealed_observation_verifies:
  assumes "zod (\<lambda>s j. issues s j = []) datetime" "createTxObservationArtifact sha (\<lambda>s j. issues s j = []) input ctx = Inr ob" "\<And>x. sha x \<noteq> []"
  shows "ir_ok (verifyArtifactIntegritySync sha issues True ob) \<and> ir_authScope (verifyArtifactIntegritySync sha issues True ob) = FULL"
  using assms by (rule sealed_observation_ok)

subsection \<open>Examples\<close>

definition ex_sealed_input :: TxObservationInput where
  "ex_sealed_input = \<lparr>ti_networkId = JStr ''simnet'', ti_mode = JStr ''rpc'', ti_execution = JUndefined, ti_subject = JObj [(''txId'', JStr ''tx'')],
     ti_observer = JObj [(''observerId'', JStr (''obs_'' @ replicate 64 (CHR ''0''))), (''kind'', JStr ''rpc''), (''networkId'', JStr ''simnet''),
       (''capabilities'', JObj [(''reorgAware'', JBool True)]), (''description'', JStr ''d'')],
     ti_point = JObj [(''virtualDaaScore'', JStr ''900''), (''sinkHash'', JStr ''s''), (''sinkBlueScore'', JStr ''250'')],
     ti_finding = JObj [(''type'', JStr ''mempool_absent'')], ti_evidence = JArr [], ti_rpcUrl = JUndefined, ti_workflowId = JUndefined,
     ti_assumptionLevel = JUndefined\<rparr>"

definition ex_issues :: "ZodType \<Rightarrow> json \<Rightarrow> string list" where
  "ex_issues s j = (if conforms (\<lambda>_. True) s j then [] else [''value''])"

lemma ex_issues_zod: "zod (\<lambda>s j. ex_issues s j = []) (\<lambda>_. True)"
proof -
  have "(\<lambda>s j. ex_issues s j = []) = conforms (\<lambda>_. True)" by (intro ext) (simp add: ex_issues_def)
  then show ?thesis using reference.zod_axioms by simp
qed

lemma ex_sealed_observation: "\<exists>ob. createTxObservationArtifact ex_hash (\<lambda>s j. ex_issues s j = []) ex_sealed_input ex_ctx = Inr ob"
proof -
  let ?b = "JObj (observationBody ex_sealed_input ex_ctx)"
  have "conforms (\<lambda>_. True) TxObservationSchema ?b" "findingIncoherence (observationOf ?b) = None" "plain_json ?b" by code_simp+
  then have "checkTxObservationCoherence (\<lambda>s j. ex_issues s j = []) ?b = None" "calculateContentHash ex_hash ?b 5 = Inr (replicate 64 (CHR ''a''))"
    by (simp_all only: checkTxObservationCoherence_def ex_issues_def) (auto intro: hash_constant)
  then show ?thesis by (simp add: createTxObservationArtifact_def CURRENT_HASH_VERSION_def del: jget_simps)
qed

lemma ex_hash_nonempty: "ex_hash x \<noteq> []"
  by (simp add: ex_hash_def)

theorem sealed_observation_verifies_witness:
  "\<exists>ob. createTxObservationArtifact ex_hash (\<lambda>s j. ex_issues s j = []) ex_sealed_input ex_ctx = Inr ob \<and>
    ir_ok (verifyArtifactIntegritySync ex_hash ex_issues True ob)"
proof -
  obtain ob where ob: "createTxObservationArtifact ex_hash (\<lambda>s j. ex_issues s j = []) ex_sealed_input ex_ctx = Inr ob" using ex_sealed_observation by blast
  then show ?thesis using sealed_observation_verifies [OF ex_issues_zod ob ex_hash_nonempty] by blast
qed

theorem verified_artifact_authentic_witness:
  "\<exists>ob h. createTxObservationArtifact ex_hash (\<lambda>s j. ex_issues s j = []) ex_sealed_input ex_ctx = Inr ob \<and>
    calculateContentHash ex_hash ob CURRENT_HASH_VERSION = Inr h \<and> jget ob ''contentHash'' = JStr h \<and>
    ir_actualHash (verifyArtifactIntegritySync ex_hash ex_issues True ob) = Some h"
proof -
  obtain ob where ob: "createTxObservationArtifact ex_hash (\<lambda>s j. ex_issues s j = []) ex_sealed_input ex_ctx = Inr ob" using ex_sealed_observation by blast
  then have ok: "ir_ok (verifyArtifactIntegritySync ex_hash ex_issues True ob)" using sealed_observation_ok [OF ex_issues_zod ob ex_hash_nonempty] by blast
  show ?thesis using ob verified_artifact_authentic [OF ok] by blast
qed

subsection \<open>Schemas that no artifact satisfies\<close>

text \<open>The schema of a snapshot asks for the name \<open>hardkas.snapshot.v1\<close>, so an artifact that carries the other name it is selected for
  never passes. The strict schemas of Groth16 proofs, keys and inputs know no version and no content hash, which the check
  requires, so in strict mode none of them passes either.\<close>

lemma versioned_entry: "versioned v \<Longrightarrow> \<exists>es. v = JObj es \<and> ''version'' \<in> fst ` set es"
proof -
  assume "versioned v"
  then obtain s where "jget v ''version'' = JStr s" by (auto simp: versioned_def)
  then obtain es where "v = JObj es" "map_of es ''version'' = Some (JStr s)" by (cases v) (auto simp: jget_def split: option.splits)
  then show ?thesis by (metis domI dom_map_of_conv_image_fst)
qed

lemma snapshot_name_never_verifies:
  assumes "zod (\<lambda>s j. issues s j = []) datetime" "jget v ''schema'' = JStr schemaSnapshot"
  shows "\<not> ir_ok (verifyArtifactIntegritySync sha issues True v)"
proof
  assume ok: "ir_ok (verifyArtifactIntegritySync sha issues True v)"
  then obtain hv h r where r: "versioned v" "ir_ok (verifyHashed sha issues True v hv h r)" using integrity_ok by metis
  have "(schemaSnapshot, SnapshotSchema) \<in> set ARTIFACT_SCHEMAS" by (simp add: ARTIFACT_SCHEMAS_def)
  then have "artifactSchema v = Some SnapshotSchema" using map_of_is_SomeI [OF schema_names_distinct] assms(2) by (simp add: artifactSchema_def)
  then have i: "issues SnapshotSchema v = []" using r(2) [unfolded hashed_ok] by auto
  obtain es where v: "v = JObj es" using versioned_entry [OF r(1)] by blast
  obtain fs where fs: "SnapshotSchema = ZObject False fs" "(''schema'', ZLiteral (JStr schemaSnapshotV1)) \<in> set fs"
    by (simp add: SnapshotSchema_def BaseArtifactSchema_def zextend_def)
  have "list_all (\<lambda>f. issues (snd f) (jget v (fst f)) = []) fs"
    using i zod.object [OF assms(1), of v False fs] v unfolding fs(1) by simp
  then have "issues (ZLiteral (JStr schemaSnapshotV1)) (jget v ''schema'') = []" using fs(2) unfolding list_all_iff by (metis fst_conv snd_conv)
  then have "schemaSnapshot = schemaSnapshotV1" using zod.literal [OF assms(1)] assms(2) by simp
  moreover have "schemaSnapshot \<noteq> schemaSnapshotV1" by code_simp
  ultimately show False by simp
qed

lemma groth16_records_never_verify:
  assumes "zod (\<lambda>s j. issues s j = []) datetime"
    and "(n, s) \<in> {(schemaZkGroth16ProofV1, ZkGroth16ProofSchema), (schemaZkGroth16VerificationKeyV1, ZkGroth16VerificationKeySchema),
      (schemaZkGroth16PublicInputsV1, ZkGroth16PublicInputsSchema)}" "jget v ''schema'' = JStr n"
  shows "\<not> ir_ok (verifyArtifactIntegritySync sha issues True v)"
proof
  assume ok: "ir_ok (verifyArtifactIntegritySync sha issues True v)"
  then obtain hv h r where r: "versioned v" "ir_ok (verifyHashed sha issues True v hv h r)" using integrity_ok by metis
  have "(n, s) \<in> set ARTIFACT_SCHEMAS" using assms(2) by (auto simp: ARTIFACT_SCHEMAS_def)
  then have "artifactSchema v = Some s" using map_of_is_SomeI [OF schema_names_distinct] assms(3) by (simp add: artifactSchema_def)
  then have i: "issues s v = []" using r(2) [unfolded hashed_ok] by auto
  obtain es where v: "v = JObj es" "''version'' \<in> fst ` set es" using versioned_entry [OF r(1)] by blast
  obtain fs where fs: "s = ZObject True fs" "''version'' \<notin> fst ` set fs"
    using assms(2) by (auto simp: ZkGroth16ProofSchema_def ZkGroth16VerificationKeySchema_def ZkGroth16PublicInputsSchema_def)
  then show False using i zod.object [OF assms(1), of v True fs] v by auto
qed

end
