(* ===== verification/HK_V1Mass.thy ===== *)
theory HK_V1Mass
  imports HK_Money "HOL-Library.Word"
begin

text \<open>
  The mass, the relay fee and the compute budgets of a version 1 transaction as the node computes them:
  \<open>packages/tx-builder/src/v1-mass.ts\<close> and \<open>v1-budgets.ts\<close>.

  A JavaScript \<open>number\<close> of a shape is an integer; a \<open>bigint\<close> is an \<open>int\<close>, and the places where the code bounds
  one by the largest 64-bit value are written out. A thrown error is its code. The bytes of a script are
  8-bit words.
\<close>

subsection \<open>Parameters and shapes\<close>

record V1BlockLimits =
  bl_compute :: int
  bl_storage :: int
  bl_transient :: int

record V1MassParams =
  massPerTxByte :: int
  massPerScriptPubKeyByte :: int
  gramsPerComputeBudgetUnit :: int
  gramsPerSigOpCountUnit :: int
  transientByteToMassFactor :: int
  storageMassParameter :: int
  blockLimits :: V1BlockLimits
  minimumRelayTransactionFee :: int
  maxSompi :: int
  utxoConstStorage :: int
  utxoUnitSize :: int
  covenantIdBytes :: int
  covenantBindingBytes :: int
  maxTxInputs :: nat
  maxTxOutputs :: nat
  maxSignatureScriptBytes :: int

definition V1_MASS_PARAMS :: V1MassParams where
  "V1_MASS_PARAMS = \<lparr>massPerTxByte = 1, massPerScriptPubKeyByte = 10, gramsPerComputeBudgetUnit = 100,
     gramsPerSigOpCountUnit = 1000, transientByteToMassFactor = 4, storageMassParameter = 1000000000000,
     blockLimits = \<lparr>bl_compute = 500000, bl_storage = 500000, bl_transient = 1000000\<rparr>,
     minimumRelayTransactionFee = 100000, maxSompi = 29000000000 * 100000000, utxoConstStorage = 63, utxoUnitSize = 100,
     covenantIdBytes = 32, covenantBindingBytes = 34, maxTxInputs = 1000, maxTxOutputs = 1000,
     maxSignatureScriptBytes = 250000\<rparr>"

record V1MassInputShape =
  is_signatureScriptBytes :: int
  is_computeBudget :: "int option"
  is_sigOpCount :: "int option"

record V1MassOutputShape =
  os_scriptBytes :: int
  os_covenant :: bool

record V1MassTxShape =
  ts_version :: int
  ts_inputs :: "V1MassInputShape list"
  ts_outputs :: "V1MassOutputShape list"
  ts_payloadBytes :: int

record V1StorageCell =
  sc_amountSompi :: int
  sc_scriptBytes :: int
  sc_covenantId :: bool

definition V1_MASS_SHAPE_INVALID :: string where
  "V1_MASS_SHAPE_INVALID = ''V1_MASS_SHAPE_INVALID''"

definition byteCount :: "int \<Rightarrow> int result" where
  "byteCount n = (if \<not> isSafeInteger n \<or> n < 0 then Inl V1_MASS_SHAPE_INVALID else Inr n)"

subsection \<open>Size and non-contextual masses\<close>

fun sizeOfInputs :: "int \<Rightarrow> V1MassInputShape list \<Rightarrow> int \<Rightarrow> int result" where
  "sizeOfInputs version [] sz = Inr sz"
| "sizeOfInputs version (input # inputs) sz =
     bindE (byteCount (is_signatureScriptBytes input)) (\<lambda>script.
       sizeOfInputs version inputs (sz + (32 + 4) + (8 + script) + 8 + (if version \<ge> 1 then 2 else 0)))"

fun sizeOfOutputs :: "V1MassOutputShape list \<Rightarrow> int \<Rightarrow> int result" where
  "sizeOfOutputs [] sz = Inr sz"
| "sizeOfOutputs (out # outs) sz =
     bindE (byteCount (os_scriptBytes out)) (\<lambda>script.
       sizeOfOutputs outs (sz + 8 + 2 + (8 + script) + (if os_covenant out then covenantBindingBytes V1_MASS_PARAMS else 0)))"

definition v1EstimatedSerializedSize :: "V1MassTxShape \<Rightarrow> int result" where
  "v1EstimatedSerializedSize shape =
     bindE (sizeOfInputs (ts_version shape) (ts_inputs shape) (2 + 8)) (\<lambda>sz.
     bindE (sizeOfOutputs (ts_outputs shape) (sz + 8)) (\<lambda>sz.
     bindE (byteCount (ts_payloadBytes shape)) (\<lambda>payload.
       Inr (sz + 8 + 20 + 8 + 32 + (8 + payload)))))"

record V1NonContextualMasses =
  nm_size :: int
  nm_computeMass :: int
  nm_transientMass :: int

fun spkBytesOf :: "V1MassOutputShape list \<Rightarrow> int \<Rightarrow> int result" where
  "spkBytesOf [] spkBytes = Inr spkBytes"
| "spkBytesOf (out # outs) spkBytes = bindE (byteCount (os_scriptBytes out)) (\<lambda>script. spkBytesOf outs (spkBytes + (2 + script)))"

text \<open>The two loops over the inputs are one: the committed number of each input, its bound and its price.\<close>

fun scriptMassOf :: "(V1MassInputShape \<Rightarrow> int option) \<Rightarrow> int \<Rightarrow> int \<Rightarrow> V1MassInputShape list \<Rightarrow> int \<Rightarrow> int result" where
  "scriptMassOf committed bound grams [] scriptMass = Inr scriptMass"
| "scriptMassOf committed bound grams (input # inputs) scriptMass =
     (case committed input of
        None \<Rightarrow> Inl V1_MASS_SHAPE_INVALID
      | Some n \<Rightarrow> if n < 0 \<or> n > bound then Inl V1_MASS_SHAPE_INVALID
                 else scriptMassOf committed bound grams inputs (scriptMass + n * grams))"

definition v1NonContextualMasses :: "V1MassTxShape \<Rightarrow> V1NonContextualMasses result" where
  "v1NonContextualMasses shape =
     (let p = V1_MASS_PARAMS in
      bindE (v1EstimatedSerializedSize shape) (\<lambda>sz.
      bindE (spkBytesOf (ts_outputs shape) 0) (\<lambda>spkBytes.
      bindE (if ts_version shape \<ge> 1
             then scriptMassOf is_computeBudget 0xffff (gramsPerComputeBudgetUnit p) (ts_inputs shape) 0
             else scriptMassOf is_sigOpCount 0xff (gramsPerSigOpCountUnit p) (ts_inputs shape) 0) (\<lambda>scriptMass.
        Inr \<lparr>nm_size = sz,
             nm_computeMass = sz * massPerTxByte p + spkBytes * massPerScriptPubKeyByte p + scriptMass,
             nm_transientMass = sz * transientByteToMassFactor p\<rparr>))))"

subsection \<open>Storage mass\<close>

definition v1UtxoPlurality :: "int \<Rightarrow> bool \<Rightarrow> int result" where
  "v1UtxoPlurality scriptBytes covenantId =
     (let p = V1_MASS_PARAMS in
      bindE (byteCount scriptBytes) (\<lambda>script.
        let bytes = utxoConstStorage p + script + (if covenantId then covenantIdBytes p else 0) in
        Inr ((bytes + utxoUnitSize p - 1) div utxoUnitSize p)))"

definition V1_U64_MAX :: int where
  "V1_U64_MAX = 2 ^ 64 - 1"

definition storageCell :: "V1StorageCell \<Rightarrow> (int \<times> int) result" where
  "storageCell c =
     (if sc_amountSompi c \<le> 0 then Inl V1_MASS_SHAPE_INVALID
      else bindE (v1UtxoPlurality (sc_scriptBytes c) (sc_covenantId c)) (\<lambda>plurality. Inr (sc_amountSompi c, plurality)))"

definition harmonicTerm :: "int \<times> int \<Rightarrow> int" where
  "harmonicTerm c = (storageMassParameter V1_MASS_PARAMS * snd c * snd c) div fst c"

fun harmonicOutputs :: "(int \<times> int) list \<Rightarrow> int \<Rightarrow> int \<Rightarrow> (int \<times> int) option" where
  "harmonicOutputs [] outsPlurality harmonicOuts = Some (outsPlurality, harmonicOuts)"
| "harmonicOutputs (c # outs) outsPlurality harmonicOuts =
     (if storageMassParameter V1_MASS_PARAMS * snd c * snd c > V1_U64_MAX then None
      else if harmonicOuts + harmonicTerm c > V1_U64_MAX then None
      else harmonicOutputs outs (outsPlurality + snd c) (harmonicOuts + harmonicTerm c))"

definition relaxedFormula :: "nat \<Rightarrow> int \<Rightarrow> int \<Rightarrow> bool" where
  "relaxedFormula inputs insPlurality outsPlurality \<longleftrightarrow>
     outsPlurality = 1 \<or> (inputs \<le> 2 \<and> (insPlurality = 1 \<or> (outsPlurality = 2 \<and> insPlurality = 2)))"

definition saturatingSub :: "int \<Rightarrow> int \<Rightarrow> int" where
  "saturatingSub a b = (if a > b then a - b else 0)"

fun harmonicInputs :: "(int \<times> int) list \<Rightarrow> int \<Rightarrow> int" where
  "harmonicInputs [] harmonicIns = harmonicIns"
| "harmonicInputs (c # ins) harmonicIns =
     (let h = harmonicIns + harmonicTerm c in harmonicInputs ins (if h > V1_U64_MAX then V1_U64_MAX else h))"

definition v1StorageMass :: "V1StorageCell list \<Rightarrow> V1StorageCell list \<Rightarrow> int option result" where
  "v1StorageMass inputs outputs =
     bindE (mapE storageCell outputs) (\<lambda>outs.
     bindE (mapE storageCell inputs) (\<lambda>ins.
     if ins = [] then Inl V1_MASS_SHAPE_INVALID
     else case harmonicOutputs outs 0 0 of
       None \<Rightarrow> Inr None
     | Some (outsPlurality, harmonicOuts) \<Rightarrow>
         (let insPlurality = sum_list (map snd ins) in
          if relaxedFormula (length ins) insPlurality outsPlurality
          then Inr (Some (saturatingSub harmonicOuts (harmonicInputs ins 0)))
          else
            (let sumIns = sum_list (map fst ins);
                 meanIns = sumIns div insPlurality;
                 meanIns = (if meanIns < 1 then 1 else meanIns);
                 arithmeticIns = insPlurality * (storageMassParameter V1_MASS_PARAMS div meanIns);
                 arithmeticIns = (if arithmeticIns > V1_U64_MAX then V1_U64_MAX else arithmeticIns)
             in Inr (Some (saturatingSub harmonicOuts arithmeticIns))))))"

subsection \<open>Relay fee and limits\<close>

definition v1FeeMass :: "V1NonContextualMasses \<Rightarrow> int" where
  "v1FeeMass masses =
     (let compute = bl_compute (blockLimits V1_MASS_PARAMS); transient = bl_transient (blockLimits V1_MASS_PARAMS);
          normalizedTransient = (nm_transientMass masses * compute + transient - 1) div transient
      in if nm_computeMass masses > normalizedTransient then nm_computeMass masses else normalizedTransient)"

definition v1MinimumRelayFee :: "int \<Rightarrow> int" where
  "v1MinimumRelayFee feeMass =
     (let p = V1_MASS_PARAMS;
          fee = (feeMass * minimumRelayTransactionFee p) div 1000;
          fee = (if fee = 0 then minimumRelayTransactionFee p else fee)
      in if fee > maxSompi p then maxSompi p else fee)"

record V1MassMeasure = V1NonContextualMasses +
  mm_storageMass :: int
  mm_feeMass :: int
  mm_minimumFeeSompi :: int
  mm_withinBlockLimits :: bool

definition measureV1Mass :: "V1MassTxShape \<Rightarrow> V1StorageCell list \<Rightarrow> V1StorageCell list \<Rightarrow> V1MassMeasure result" where
  "measureV1Mass shape inputs outputs =
     bindE (v1NonContextualMasses shape) (\<lambda>masses.
     bindE (v1StorageMass inputs outputs) (\<lambda>storageMass.
     case storageMass of
       None \<Rightarrow> Inl ''TX_MASS_ABOVE_STANDARD_LIMIT''
     | Some storageMass \<Rightarrow>
         (let feeMass = v1FeeMass masses; limits = blockLimits V1_MASS_PARAMS in
          Inr \<lparr>nm_size = nm_size masses, nm_computeMass = nm_computeMass masses, nm_transientMass = nm_transientMass masses,
               mm_storageMass = storageMass, mm_feeMass = feeMass, mm_minimumFeeSompi = v1MinimumRelayFee feeMass,
               mm_withinBlockLimits =
                 (nm_computeMass masses \<le> bl_compute limits \<and> storageMass \<le> bl_storage limits
                  \<and> nm_transientMass masses \<le> bl_transient limits)\<rparr>)))"

definition assertV1MassWithinLimits :: "V1MassMeasure \<Rightarrow> unit result" where
  "assertV1MassWithinLimits m = (if \<not> mm_withinBlockLimits m then Inl ''TX_MASS_ABOVE_STANDARD_LIMIT'' else Inr ())"

subsection \<open>Compute budgets\<close>

definition V1_COMPUTE_UNITS_PER_BUDGET :: int where
  "V1_COMPUTE_UNITS_PER_BUDGET = 10000"

definition V1_COMPUTE_UNITS_BASE :: int where
  "V1_COMPUTE_UNITS_BASE = 9999"

definition V1_PLAN_INVALID :: string where
  "V1_PLAN_INVALID = ''V1_PLAN_INVALID''"

definition checkComputeBudget :: "json \<Rightarrow> int result" where
  "checkComputeBudget budget =
     (case budget of
        JNum n \<Rightarrow> if n < 0 \<or> n > 0xffff then Inl V1_PLAN_INVALID else Inr n
      | _ \<Rightarrow> Inl V1_PLAN_INVALID)"

definition v1ScriptUnitsAllowed :: "json \<Rightarrow> int result" where
  "v1ScriptUnitsAllowed budget =
     bindE (checkComputeBudget budget) (\<lambda>n. Inr (n * V1_COMPUTE_UNITS_PER_BUDGET + V1_COMPUTE_UNITS_BASE))"

definition v1BudgetForUnits :: "int \<Rightarrow> int result" where
  "v1BudgetForUnits usedUnits =
     (if usedUnits \<le> V1_COMPUTE_UNITS_BASE then Inr 0
      else
        (let budget = (usedUnits - V1_COMPUTE_UNITS_BASE + V1_COMPUTE_UNITS_PER_BUDGET - 1) div V1_COMPUTE_UNITS_PER_BUDGET in
         if budget > 0xffff then Inl V1_PLAN_INVALID else Inr budget))"

datatype BudgetKind = BudgetP2pk | BudgetContract

record V1CertifiedBudget =
  cb_kind :: BudgetKind
  cb_templateHash :: "string option"
  cb_entry :: "string option"
  cb_budget :: int

definition V1_CERTIFIED_COMPUTE_BUDGETS :: "V1CertifiedBudget list" where
  "V1_CERTIFIED_COMPUTE_BUDGETS =
     [\<lparr>cb_kind = BudgetP2pk, cb_templateHash = None, cb_entry = None, cb_budget = 10\<rparr>,
      \<lparr>cb_kind = BudgetContract,
       cb_templateHash = Some ''12e80a77d386245a8a8db422137333918b3d6bbbb482e39f8e45302244e9bd95'',
       cb_entry = Some ''__covenant_entrypoint_auth_bump'', cb_budget = 0\<rparr>]"

datatype V1InputKind = KindP2pk | KindP2sh | KindCovenant

definition proposeComputeBudget :: "V1InputKind \<Rightarrow> string option \<Rightarrow> string option \<Rightarrow> V1CertifiedBudget option" where
  "proposeComputeBudget inputKind templateHash entry =
     (if inputKind = KindP2pk then List.find (\<lambda>b. cb_kind b = BudgetP2pk) V1_CERTIFIED_COMPUTE_BUDGETS
      else List.find (\<lambda>b. cb_kind b = BudgetContract \<and> cb_templateHash b = templateHash \<and> cb_entry b = entry) V1_CERTIFIED_COMPUTE_BUDGETS)"

subsection \<open>The estimate of a script's cost\<close>

type_synonym byte = "8 word"

record ScriptOp =
  so_op :: byte
  so_data :: "byte list option"

definition OP_PUSHDATA1 :: byte where "OP_PUSHDATA1 = 0x4c"
definition OP_PUSHDATA2 :: byte where "OP_PUSHDATA2 = 0x4d"
definition OP_PUSHDATA4 :: byte where "OP_PUSHDATA4 = 0x4e"
definition OP_TRUE :: byte where "OP_TRUE = 0x51"
definition OP_16 :: byte where "OP_16 = 0x60"
definition OP_EQUAL :: byte where "OP_EQUAL = 0x87"
definition OP_BLAKE2B :: byte where "OP_BLAKE2B = 0xaa"
definition OP_ZK_PRECOMPILE :: byte where "OP_ZK_PRECOMPILE = 0xa6"
definition SIG_OPS :: "byte list" where "SIG_OPS = [0xab, 0xac, 0xad, 0xd7, 0xd8]"
definition MULTISIG_OPS :: "byte list" where "MULTISIG_OPS = [0xa9, 0xae, 0xaf]"
definition MAX_PUB_KEYS_PER_MULTISIG :: nat where "MAX_PUB_KEYS_PER_MULTISIG = 20"
definition SCRIPT_UNITS_PER_SIG_OP :: int where "SCRIPT_UNITS_PER_SIG_OP = 100000"
definition SCRIPT_UNITS_PER_SCRIPT_BYTE :: int where "SCRIPT_UNITS_PER_SCRIPT_BYTE = 100"

text \<open>The little-endian length that follows a \<open>PUSHDATA\<close> opcode.\<close>

fun pushLength :: "byte list \<Rightarrow> nat" where
  "pushLength [] = 0"
| "pushLength (b # bs) = unat b + 256 * pushLength bs"

definition lengthBytes :: "byte \<Rightarrow> nat option" where
  "lengthBytes op =
     (if op = OP_PUSHDATA1 then Some 1 else if op = OP_PUSHDATA2 then Some 2 else if op = OP_PUSHDATA4 then Some 4 else None)"

text \<open>The data an opcode pushes, with its number of length bytes: \<open>Some (n, len)\<close>, or \<^const>\<open>None\<close> for an opcode that pushes none.\<close>

definition pushOf :: "byte \<Rightarrow> byte list \<Rightarrow> (nat \<times> nat) option" where
  "pushOf op rest =
     (if 0x01 \<le> op \<and> op \<le> 0x4b then Some (0, unat op)
      else case lengthBytes op of
        None \<Rightarrow> None
      | Some n \<Rightarrow> Some (n, if n > length rest then 0 else pushLength (take n rest)))"

function parseScript :: "byte list \<Rightarrow> ScriptOp list \<times> bool" where
  "parseScript [] = ([], True)"
| "parseScript (op # rest) =
     (case pushOf op rest of
        None \<Rightarrow> (let (ops, complete) = parseScript rest in (\<lparr>so_op = op, so_data = None\<rparr> # ops, complete))
      | Some (n, len) \<Rightarrow>
          if n > length rest then ([], False)
          else if n + len > length rest then ([], False)
          else (let (ops, complete) = parseScript (drop (n + len) rest) in
                (\<lparr>so_op = op, so_data = Some (take len (drop n rest))\<rparr> # ops, complete)))"
  by pat_completeness auto
termination
  by (relation "measure length") auto

fun sigOpsFrom :: "byte option \<Rightarrow> ScriptOp list \<Rightarrow> nat" where
  "sigOpsFrom prev [] = 0"
| "sigOpsFrom prev (o' # ops) =
     (if so_op o' \<in> set SIG_OPS then 1
      else if so_op o' \<in> set MULTISIG_OPS then
        (case prev of
           Some p \<Rightarrow> if OP_TRUE \<le> p \<and> p \<le> OP_16 then unat p - unat OP_TRUE + 1 else MAX_PUB_KEYS_PER_MULTISIG
         | None \<Rightarrow> MAX_PUB_KEYS_PER_MULTISIG)
      else 0) + sigOpsFrom (Some (so_op o')) ops"

definition sigOpsOf :: "ScriptOp list \<Rightarrow> nat" where
  "sigOpsOf ops = sigOpsFrom None ops"

definition isP2sh :: "byte list \<Rightarrow> bool" where
  "isP2sh script \<longleftrightarrow> length script = 35 \<and> script ! 0 = OP_BLAKE2B \<and> script ! 1 = 0x20 \<and> script ! 34 = OP_EQUAL"

text \<open>\<open>hexOk\<close> with \<open>Buffer.from(h, "hex")\<close>: the bytes of a text of digit pairs.\<close>

fun hexBytesOf :: "string \<Rightarrow> byte list option" where
  "hexBytesOf [] = Some []"
| "hexBytesOf [c] = None"
| "hexBytesOf (a # b # s) =
     (case (hex_val a, hex_val b, hexBytesOf s) of
        (Some x, Some y, Some bs) \<Rightarrow> Some (of_nat (16 * x + y) # bs)
      | _ \<Rightarrow> None)"

record V1BudgetEstimate =
  be_budget :: int
  be_units :: int
  be_sigOps :: nat

definition scannedOps :: "byte list \<Rightarrow> byte list \<Rightarrow> ScriptOp list" where
  "scannedOps sigScript spk =
     (if \<not> isP2sh spk then fst (parseScript spk)
      else
        (let (ops, complete) = parseScript sigScript in
         if complete \<and> ops \<noteq> []
         then (case so_data (last ops) of Some redeem \<Rightarrow> fst (parseScript redeem) | None \<Rightarrow> [])
         else []))"

definition estimateV1ComputeBudget :: "string \<Rightarrow> string \<Rightarrow> V1BudgetEstimate result" where
  "estimateV1ComputeBudget signatureScriptHex scriptPublicKeyHex =
     (case (hexBytesOf signatureScriptHex, hexBytesOf scriptPublicKeyHex) of
        (Some sigScript, Some prefixed) \<Rightarrow>
          if length scriptPublicKeyHex < 4 then Inl V1_PLAN_INVALID
          else
            (let spk = drop 2 prefixed; scanned = scannedOps sigScript spk in
             if list_ex (\<lambda>o'. so_op o' = OP_ZK_PRECOMPILE) scanned then Inl ''V1_COMPUTE_BUDGET_REQUIRED''
             else
               (let sigOps = sigOpsOf scanned;
                    units = int sigOps * SCRIPT_UNITS_PER_SIG_OP + int (length sigScript + length spk) * SCRIPT_UNITS_PER_SCRIPT_BYTE
                in bindE (v1BudgetForUnits units) (\<lambda>budget.
                     Inr \<lparr>be_budget = budget, be_units = units, be_sigOps = sigOps\<rparr>)))
      | _ \<Rightarrow> Inl V1_PLAN_INVALID)"

end
