(* ===== verification/HK_V1MassProps.thy ===== *)
theory HK_V1MassProps
  imports HK_V1Mass
begin

text \<open>
  What the version 1 measures are: the storage mass is the KIP-9 formula over unbounded integers, its 64-bit
  saturations never showing; the relay floor is 100 sompi per gram; an estimated budget is the least that
  covers its units; and the script scanner is the inverse of an encoder.
\<close>

subsection \<open>Storage mass against its formula\<close>

definition cell_ok :: "V1StorageCell \<Rightarrow> bool" where
  "cell_ok c \<longleftrightarrow> 0 < sc_amountSompi c \<and> 0 \<le> sc_scriptBytes c \<and> sc_scriptBytes c \<le> MAX_SAFE_INTEGER"

definition cell_units :: "V1StorageCell \<Rightarrow> int" where
  "cell_units c = (63 + sc_scriptBytes c + (if sc_covenantId c then 32 else 0) + 99) div 100"

definition kip9_term :: "V1StorageCell \<Rightarrow> int" where
  "kip9_term c = 10 ^ 12 * (cell_units c)\<^sup>2 div sc_amountSompi c"

definition kip9_harmonic :: "V1StorageCell list \<Rightarrow> int" where
  "kip9_harmonic cs = sum_list (map kip9_term cs)"

definition kip9_overflow :: "V1StorageCell list \<Rightarrow> bool" where
  "kip9_overflow outs \<longleftrightarrow> (\<exists>c \<in> set outs. 10 ^ 12 * (cell_units c)\<^sup>2 \<ge> 2 ^ 64) \<or> kip9_harmonic outs \<ge> 2 ^ 64"

definition kip9_discount :: "V1StorageCell list \<Rightarrow> V1StorageCell list \<Rightarrow> int" where
  "kip9_discount ins outs =
     (let P = sum_list (map cell_units ins) in
      if sum_list (map cell_units outs) = 1 \<or> (length ins \<le> 2 \<and> (P = 1 \<or> (P = 2 \<and> sum_list (map cell_units outs) = 2))) then kip9_harmonic ins
      else P * (10 ^ 12 div max 1 (sum_list (map sc_amountSompi ins) div P)))"

lemma byteCount_Inr [simp]: "byteCount n = Inr m \<longleftrightarrow> m = n \<and> 0 \<le> n \<and> n \<le> MAX_SAFE_INTEGER"
  by (auto simp: byteCount_def isSafeInteger_def MAX_SAFE_INTEGER_def)

lemma byteCount_ok: "0 \<le> n \<Longrightarrow> n \<le> MAX_SAFE_INTEGER \<Longrightarrow> byteCount n = Inr n"
  by simp

lemma storageCell_ok: "cell_ok c \<Longrightarrow> storageCell c = Inr (sc_amountSompi c, cell_units c)"
  by (simp add: storageCell_def v1UtxoPlurality_def cell_ok_def cell_units_def byteCount_ok V1_MASS_PARAMS_def Let_def)

lemma storageCells: "list_all cell_ok cs \<Longrightarrow> mapE storageCell cs = Inr (map (\<lambda>c. (sc_amountSompi c, cell_units c)) cs)"
  by (rule mapE_total) (auto simp: list_all_iff storageCell_ok)

lemma harmonicTerm_cell: "harmonicTerm (sc_amountSompi c, cell_units c) = kip9_term c"
  by (simp add: harmonicTerm_def kip9_term_def V1_MASS_PARAMS_def power2_eq_square mult.assoc)

lemma kip9_term_nonneg: "cell_ok c \<Longrightarrow> 0 \<le> kip9_term c"
  by (simp add: kip9_term_def cell_ok_def pos_imp_zdiv_nonneg_iff)

lemma kip9_harmonic_nonneg: "list_all cell_ok cs \<Longrightarrow> 0 \<le> kip9_harmonic cs"
  unfolding kip9_harmonic_def by (rule sum_list_nonneg) (auto simp: list_all_iff kip9_term_nonneg)

lemma harmonicOutputs_exact:
  assumes "list_all cell_ok outs" "h \<le> V1_U64_MAX"
  shows "harmonicOutputs (map (\<lambda>c. (sc_amountSompi c, cell_units c)) outs) p h =
    (if (\<exists>c \<in> set outs. 10 ^ 12 * (cell_units c)\<^sup>2 \<ge> 2 ^ 64) \<or> h + kip9_harmonic outs > V1_U64_MAX then None
     else Some (p + sum_list (map cell_units outs), h + kip9_harmonic outs))"
  using assms
proof (induction outs arbitrary: p h)
  case Nil
  then show ?case by (simp add: kip9_harmonic_def)
next
  case (Cons c outs)
  have sq: "storageMassParameter V1_MASS_PARAMS * cell_units c * cell_units c = 10 ^ 12 * (cell_units c)\<^sup>2"
    by (simp add: V1_MASS_PARAMS_def power2_eq_square mult.assoc)
  have rest: "0 \<le> kip9_harmonic outs" using Cons.prems by (auto intro: kip9_harmonic_nonneg)
  have cons: "kip9_harmonic (c # outs) = kip9_term c + kip9_harmonic outs" by (simp add: kip9_harmonic_def)
  show ?case
  proof (cases "10 ^ 12 * (cell_units c)\<^sup>2 \<ge> 2 ^ 64 \<or> h + kip9_term c > V1_U64_MAX")
    case True
    then have "harmonicOutputs (map (\<lambda>c. (sc_amountSompi c, cell_units c)) (c # outs)) p h = None"
      by (auto simp: sq harmonicTerm_cell V1_U64_MAX_def)
    with True rest show ?thesis unfolding cons by auto
  next
    case False
    then have "harmonicOutputs (map (\<lambda>c. (sc_amountSompi c, cell_units c)) (c # outs)) p h =
        harmonicOutputs (map (\<lambda>c. (sc_amountSompi c, cell_units c)) outs) (p + cell_units c) (h + kip9_term c)"
      by (simp add: sq harmonicTerm_cell V1_U64_MAX_def)
    with False Cons show ?thesis unfolding cons by (simp add: algebra_simps)
  qed
qed

lemma harmonicInputs_exact:
  assumes "list_all cell_ok ins" "h \<le> V1_U64_MAX"
  shows "harmonicInputs (map (\<lambda>c. (sc_amountSompi c, cell_units c)) ins) h = min V1_U64_MAX (h + kip9_harmonic ins)"
  using assms
proof (induction ins arbitrary: h)
  case Nil
  then show ?case by (simp add: kip9_harmonic_def)
next
  case (Cons c ins)
  have pos: "0 \<le> kip9_harmonic ins" using Cons.prems by (auto intro: kip9_harmonic_nonneg)
  have cons: "kip9_harmonic (c # ins) = kip9_term c + kip9_harmonic ins" by (simp add: kip9_harmonic_def)
  show ?case using Cons pos unfolding cons by (auto simp: harmonicTerm_cell Let_def min_def)
qed

lemma saturatingSub_min: "a \<le> V1_U64_MAX \<Longrightarrow> saturatingSub a (min V1_U64_MAX b) = max 0 (a - b)"
  by (auto simp: saturatingSub_def)

lemma storage_mass_core:
  assumes "ins \<noteq> []" "list_all cell_ok ins" "list_all cell_ok outs"
  shows "v1StorageMass ins outs =
    Inr (if kip9_overflow outs then None else Some (max 0 (kip9_harmonic outs - kip9_discount ins outs)))"
proof -
  have 0: "(0::int) \<le> V1_U64_MAX" by (simp add: V1_U64_MAX_def)
  have over: "kip9_overflow outs \<longleftrightarrow> (\<exists>c \<in> set outs. 10 ^ 12 * (cell_units c)\<^sup>2 \<ge> 2 ^ 64) \<or> 0 + kip9_harmonic outs > V1_U64_MAX"
    by (auto simp: kip9_overflow_def V1_U64_MAX_def)
  have hout: "harmonicOutputs (map (\<lambda>c. (sc_amountSompi c, cell_units c)) outs) 0 0 =
      (if kip9_overflow outs then None else Some (sum_list (map cell_units outs), kip9_harmonic outs))"
    using harmonicOutputs_exact [OF assms(3) 0, of 0] unfolding over by simp
  have hin: "harmonicInputs (map (\<lambda>c. (sc_amountSompi c, cell_units c)) ins) 0 = min V1_U64_MAX (kip9_harmonic ins)"
    using harmonicInputs_exact [OF assms(2) 0] by simp
  have maps: "map snd (map (\<lambda>c. (sc_amountSompi c, cell_units c)) ins) = map cell_units ins"
    "map fst (map (\<lambda>c. (sc_amountSompi c, cell_units c)) ins) = map sc_amountSompi ins" by simp_all
  have le: "\<not> kip9_overflow outs \<Longrightarrow> kip9_harmonic outs \<le> V1_U64_MAX" unfolding over by auto
  have cap: "(if n > V1_U64_MAX then V1_U64_MAX else n) = min V1_U64_MAX n" for n by (simp add: min_def)
  have one: "(if n < 1 then 1 else n) = max 1 n" for n :: int by (simp add: max_def)
  have C: "storageMassParameter V1_MASS_PARAMS = 10 ^ 12" by (simp add: V1_MASS_PARAMS_def)
  show ?thesis
    using assms(1) le unfolding v1StorageMass_def storageCells [OF assms(2)] storageCells [OF assms(3)] bindE.simps hout Let_def maps cap one hin C
    by (auto simp: kip9_discount_def relaxedFormula_def Let_def saturatingSub_min simp del: max_less_iff_conj)
qed

subsection \<open>The relay floor\<close>

lemma sizeOfInputs_grows: "sizeOfInputs v ins sz = Inr r \<Longrightarrow> sz \<le> r"
proof (induction ins arbitrary: sz)
  case Nil
  then show ?case by simp
next
  case (Cons i ins)
  then obtain n where n: "0 \<le> n" "sizeOfInputs v ins (sz + (32 + 4) + (8 + n) + 8 + (if v \<ge> 1 then 2 else 0)) = Inr r" by auto
  show ?case using Cons.IH [OF n(2)] n(1) by (simp split: if_splits)
qed

lemma sizeOfOutputs_grows: "sizeOfOutputs outs sz = Inr r \<Longrightarrow> sz \<le> r"
proof (induction outs arbitrary: sz)
  case Nil
  then show ?case by simp
next
  case (Cons o' outs)
  then obtain n where n: "0 \<le> n"
    "sizeOfOutputs outs (sz + 8 + 2 + (8 + n) + (if os_covenant o' then covenantBindingBytes V1_MASS_PARAMS else 0)) = Inr r" by auto
  show ?case using Cons.IH [OF n(2)] n(1) by (simp add: V1_MASS_PARAMS_def split: if_splits)
qed

lemma size_lower_bound: "v1EstimatedSerializedSize shape = Inr n \<Longrightarrow> 94 \<le> n"
  by (auto simp: v1EstimatedSerializedSize_def dest!: sizeOfInputs_grows sizeOfOutputs_grows)

lemma spkBytesOf_grows: "spkBytesOf outs n = Inr r \<Longrightarrow> n \<le> r"
  by (induction outs arbitrary: n) force+

lemma scriptMassOf_grows: "0 \<le> g \<Longrightarrow> scriptMassOf f b g ins n = Inr r \<Longrightarrow> n \<le> r"
proof (induction ins arbitrary: n)
  case Nil
  then show ?case by simp
next
  case (Cons i ins)
  then obtain k where k: "\<not> k < 0" "scriptMassOf f b g ins (n + k * g) = Inr r" by (auto split: option.splits if_splits)
  have "0 \<le> k * g" using k(1) Cons.prems(1) by (simp add: not_less)
  with Cons.IH [OF Cons.prems(1) k(2)] show ?case by linarith
qed

lemma v1_grams: "massPerTxByte V1_MASS_PARAMS = 1" "massPerScriptPubKeyByte V1_MASS_PARAMS = 10" "gramsPerComputeBudgetUnit V1_MASS_PARAMS = 100"
  "gramsPerSigOpCountUnit V1_MASS_PARAMS = 1000" "transientByteToMassFactor V1_MASS_PARAMS = 4"
  by (simp_all add: V1_MASS_PARAMS_def)

lemma masses_shape:
  assumes "v1NonContextualMasses shape = Inr m"
  shows "94 \<le> nm_size m" "nm_size m \<le> nm_computeMass m" "nm_transientMass m = 4 * nm_size m"
proof -
  obtain n s k where n: "v1EstimatedSerializedSize shape = Inr n" and s: "spkBytesOf (ts_outputs shape) 0 = Inr s"
    and k: "(if ts_version shape \<ge> 1 then scriptMassOf is_computeBudget 0xffff 100 (ts_inputs shape) 0
             else scriptMassOf is_sigOpCount 0xff 1000 (ts_inputs shape) 0) = Inr k"
    and m: "nm_size m = n" "nm_computeMass m = n + s * 10 + k" "nm_transientMass m = n * 4"
    using assms unfolding v1NonContextualMasses_def Let_def v1_grams by auto
  have "0 \<le> k" using k by (auto split: if_splits dest: scriptMassOf_grows [rotated])
  with size_lower_bound [OF n] spkBytesOf_grows [OF s] m
  show "94 \<le> nm_size m" "nm_size m \<le> nm_computeMass m" "nm_transientMass m = 4 * nm_size m" by simp_all
qed

lemma v1FeeMass_max: "v1FeeMass \<lparr>nm_size = n, nm_computeMass = c, nm_transientMass = 4 * n\<rparr> = max c (2 * n)"
proof -
  have "4 * n * 500000 + 1000000 - 1 = 999999 + (2 * n) * 1000000" by simp
  then have "(4 * n * 500000 + 1000000 - 1) div 1000000 = 2 * n" by (simp only:)
  then show ?thesis by (simp add: v1FeeMass_def V1_MASS_PARAMS_def Let_def max_def)
qed

lemma v1MinimumRelayFee_grams: "0 < g \<Longrightarrow> v1MinimumRelayFee g = min 2900000000000000000 (100 * g)"
  by (simp add: v1MinimumRelayFee_def V1_MASS_PARAMS_def Let_def min_def)

lemma relay_floor_core:
  assumes "measureV1Mass shape ins outs = Inr m"
  shows "mm_feeMass m = max (nm_computeMass m) (2 * nm_size m)"
    "mm_minimumFeeSompi m = min 2900000000000000000 (100 * mm_feeMass m)"
    "18800 \<le> mm_minimumFeeSompi m"
    "assertV1MassWithinLimits m = Inr () \<Longrightarrow> mm_minimumFeeSompi m \<le> 50000000"
proof -
  obtain ms s where ms: "v1NonContextualMasses shape = Inr ms"
    and m: "m = \<lparr>nm_size = nm_size ms, nm_computeMass = nm_computeMass ms, nm_transientMass = nm_transientMass ms,
               mm_storageMass = s, mm_feeMass = v1FeeMass ms, mm_minimumFeeSompi = v1MinimumRelayFee (v1FeeMass ms),
               mm_withinBlockLimits = (nm_computeMass ms \<le> 500000 \<and> s \<le> 500000 \<and> nm_transientMass ms \<le> 1000000)\<rparr>"
    using assms by (auto simp: measureV1Mass_def V1_MASS_PARAMS_def Let_def split: option.splits)
  note shape = masses_shape [OF ms]
  have "ms = \<lparr>nm_size = nm_size ms, nm_computeMass = nm_computeMass ms, nm_transientMass = 4 * nm_size ms\<rparr>" using shape(3) by simp
  then have fee: "v1FeeMass ms = max (nm_computeMass ms) (2 * nm_size ms)" by (metis v1FeeMass_max)
  have pos: "188 \<le> v1FeeMass ms" using shape(1) fee by simp
  have floor: "v1MinimumRelayFee (v1FeeMass ms) = min 2900000000000000000 (100 * v1FeeMass ms)" using pos by (intro v1MinimumRelayFee_grams) simp
  show "mm_feeMass m = max (nm_computeMass m) (2 * nm_size m)" using m fee by simp
  show "mm_minimumFeeSompi m = min 2900000000000000000 (100 * mm_feeMass m)" using m floor by simp
  show "18800 \<le> mm_minimumFeeSompi m" using m floor pos by simp
  assume "assertV1MassWithinLimits m = Inr ()"
  then show "mm_minimumFeeSompi m \<le> 50000000" using m floor fee shape(3)
    by (auto simp: assertV1MassWithinLimits_def split: if_splits)
qed

subsection \<open>The least budget\<close>

lemma v1ScriptUnitsAllowed_iff: "v1ScriptUnitsAllowed (JNum b) = Inr a \<longleftrightarrow> 0 \<le> b \<and> b \<le> 0xffff \<and> a = b * 10000 + 9999"
  by (auto simp: v1ScriptUnitsAllowed_def checkComputeBudget_def V1_COMPUTE_UNITS_PER_BUDGET_def V1_COMPUTE_UNITS_BASE_def)

lemma v1BudgetForUnits_Inr:
  assumes "v1BudgetForUnits u = Inr b"
  shows "v1ScriptUnitsAllowed (JNum b) = Inr (b * 10000 + 9999)" "u \<le> b * 10000 + 9999"
    "v1ScriptUnitsAllowed (JNum b') = Inr a \<Longrightarrow> u \<le> a \<Longrightarrow> b \<le> b'"
  using assms unfolding v1ScriptUnitsAllowed_iff v1BudgetForUnits_def V1_COMPUTE_UNITS_PER_BUDGET_def V1_COMPUTE_UNITS_BASE_def Let_def
  by (auto split: if_splits)

lemma v1BudgetForUnits_Inl:
  assumes "v1BudgetForUnits u = Inl e" "v1ScriptUnitsAllowed (JNum b) = Inr a"
  shows "a < u"
  using assms unfolding v1ScriptUnitsAllowed_iff v1BudgetForUnits_def V1_COMPUTE_UNITS_PER_BUDGET_def V1_COMPUTE_UNITS_BASE_def Let_def
  by (auto split: if_splits)

lemma estimate_cases:
  assumes "estimateV1ComputeBudget sig spk = Inr e"
  obtains s p where "hexBytesOf sig = Some s" "hexBytesOf spk = Some p"
    "be_sigOps e = sigOpsOf (scannedOps s (drop 2 p))"
    "be_units e = int (be_sigOps e) * 100000 + int (length s + length (drop 2 p)) * 100"
    "v1BudgetForUnits (be_units e) = Inr (be_budget e)"
  using assms by (auto simp: estimateV1ComputeBudget_def SCRIPT_UNITS_PER_SIG_OP_def SCRIPT_UNITS_PER_SCRIPT_BYTE_def Let_def
      split: option.splits if_splits)

subsection \<open>The scanner and its inverse\<close>

primrec leBytes :: "nat \<Rightarrow> nat \<Rightarrow> byte list" where
  "leBytes 0 k = []"
| "leBytes (Suc n) k = of_nat k # leBytes n (k div 256)"

definition lengthField :: "byte \<Rightarrow> nat" where
  "lengthField op = (case lengthBytes op of None \<Rightarrow> 0 | Some n \<Rightarrow> n)"

definition encodeOp :: "ScriptOp \<Rightarrow> byte list" where
  "encodeOp o' = so_op o' # (case so_data o' of None \<Rightarrow> [] | Some d \<Rightarrow> leBytes (lengthField (so_op o')) (length d) @ d)"

definition directPush :: "byte \<Rightarrow> bool" where
  "directPush op \<longleftrightarrow> 0x01 \<le> op \<and> op \<le> 0x4b"

definition wf_op :: "ScriptOp \<Rightarrow> bool" where
  "wf_op o' \<longleftrightarrow> (case so_data o' of
      None \<Rightarrow> \<not> directPush (so_op o') \<and> lengthBytes (so_op o') = None
    | Some d \<Rightarrow> if directPush (so_op o') then length d = unat (so_op o')
               else (\<exists>n \<in> {1, 2, 4}. lengthBytes (so_op o') = Some n \<and> length d < 256 ^ n))"

lemma length_leBytes [simp]: "length (leBytes n k) = n"
  by (induction n arbitrary: k) auto

lemma byte_bound: "unat (b :: byte) < 256"
  using unsigned_less [of b] by simp

lemma unat_of_byte: "unat (of_nat k :: byte) = k mod 256"
  by (simp add: unat_of_nat)

lemma pushLength_leBytes: "k < 256 ^ n \<Longrightarrow> pushLength (leBytes n k) = k"
proof (induction n arbitrary: k)
  case 0
  then show ?case by simp
next
  case (Suc n)
  then have "k div 256 < 256 ^ n" by (simp add: less_mult_imp_div_less mult.commute)
  with Suc.IH show ?case by (simp add: unat_of_byte)
qed

lemma leBytes_pushLength: "leBytes (length bs) (pushLength bs) = bs"
proof (induction bs)
  case Nil
  then show ?case by simp
next
  case (Cons b bs)
  have lt: "unat b < 256" by (rule byte_bound)
  have "of_nat (unat b + 256 * pushLength bs) = b"
  proof (rule unsigned_word_eqI)
    show "unat (of_nat (unat b + 256 * pushLength bs) :: byte) = unat b" unfolding unat_of_byte using lt by simp
  qed
  moreover have "(unat b + 256 * pushLength bs) div 256 = pushLength bs" using lt by simp
  ultimately show ?case using Cons by simp
qed

lemma pushLength_bound: "pushLength bs < 256 ^ length bs"
proof (induction bs)
  case Nil
  then show ?case by simp
next
  case (Cons b bs)
  have "unat b < 256" by (rule byte_bound)
  with Cons show ?case by simp
qed

lemma lengthBytes_cases: "lengthBytes op = Some n \<Longrightarrow> n \<in> {1, 2, 4} \<and> \<not> directPush op"
  by (auto simp: lengthBytes_def directPush_def OP_PUSHDATA1_def OP_PUSHDATA2_def OP_PUSHDATA4_def split: if_splits)

lemma lengthField_direct: "directPush op \<Longrightarrow> lengthField op = 0"
  using lengthBytes_cases by (force simp: lengthField_def split: option.splits)

lemma pushOf_direct: "directPush op \<Longrightarrow> pushOf op rest = Some (0, unat op)"
  by (simp add: pushOf_def directPush_def)

lemma pushOf_sized:
  "lengthBytes op = Some n \<Longrightarrow> pushOf op rest = Some (n, if n > length rest then 0 else pushLength (take n rest))"
  using lengthBytes_cases [of op n] by (auto simp: pushOf_def directPush_def)

lemma pushOf_none: "pushOf op rest = None \<longleftrightarrow> \<not> directPush op \<and> lengthBytes op = None"
  by (auto simp: pushOf_def directPush_def split: option.splits)

lemma pushOf_cases:
  assumes "pushOf op rest = Some (n, len)"
  obtains "directPush op" "n = 0" "len = unat op"
  | "\<not> directPush op" "lengthBytes op = Some n" "len = (if n > length rest then 0 else pushLength (take n rest))"
  using assms by (auto simp: pushOf_def directPush_def split: if_splits option.splits)

lemma parse_encode_op:
  assumes "wf_op o'"
  shows "parseScript (encodeOp o' @ s) = (let (ops, c) = parseScript s in (o' # ops, c))"
proof (cases "so_data o'")
  case None
  then have "pushOf (so_op o') s = None" using assms by (simp add: wf_op_def pushOf_none)
  moreover have "encodeOp o' @ s = so_op o' # s" "o' = \<lparr>so_op = so_op o', so_data = None\<rparr>" using None by (simp_all add: encodeOp_def)
  ultimately show ?thesis by (simp split: prod.splits)
next
  case (Some d)
  let ?n = "lengthField (so_op o')" and ?rest = "leBytes (lengthField (so_op o')) (length d) @ d @ s"
  have push: "pushOf (so_op o') ?rest = Some (?n, length d)"
  proof (cases "directPush (so_op o')")
    case True
    then show ?thesis using assms Some by (simp add: wf_op_def pushOf_direct lengthField_direct)
  next
    case False
    then obtain n where n: "lengthBytes (so_op o') = Some n" "length d < 256 ^ n" using assms Some by (auto simp: wf_op_def)
    then have "?n = n" by (simp add: lengthField_def)
    with n show ?thesis by (simp add: pushOf_sized pushLength_leBytes)
  qed
  have "encodeOp o' @ s = so_op o' # ?rest" "o' = \<lparr>so_op = so_op o', so_data = Some d\<rparr>" using Some by (simp_all add: encodeOp_def)
  with push show ?thesis by (simp split: prod.splits)
qed

lemma parse_encode: "list_all wf_op ops \<Longrightarrow> parseScript (concat (map encodeOp ops)) = (ops, True)"
  by (induction ops) (simp_all add: parse_encode_op)

lemma encode_push:
  assumes "pushOf op rest = Some (n, len)" "n + len \<le> length rest"
  shows "encodeOp \<lparr>so_op = op, so_data = Some (take len (drop n rest))\<rparr> = op # take (n + len) rest"
    "wf_op \<lparr>so_op = op, so_data = Some (take len (drop n rest))\<rparr>"
proof -
  have len: "length (take len (drop n rest)) = len" using assms(2) by simp
  have "leBytes (lengthField op) len = take n rest \<and> wf_op \<lparr>so_op = op, so_data = Some (take len (drop n rest))\<rparr>"
    using assms(1)
  proof (cases rule: pushOf_cases)
    case 1
    then show ?thesis using len by (simp add: lengthField_direct wf_op_def)
  next
    case 2
    have n: "length (take n rest) = n" using assms(2) by simp
    have l: "len = pushLength (take n rest)" using 2(3) assms(2) by simp
    have "leBytes n len = take n rest" using leBytes_pushLength [of "take n rest"] n l by simp
    moreover have "len < 256 ^ n" using pushLength_bound [of "take n rest"] n l by simp
    ultimately show ?thesis using 2 len lengthBytes_cases [OF 2(2)] by (simp add: lengthField_def wf_op_def)
  qed
  then show "encodeOp \<lparr>so_op = op, so_data = Some (take len (drop n rest))\<rparr> = op # take (n + len) rest"
    "wf_op \<lparr>so_op = op, so_data = Some (take len (drop n rest))\<rparr>"
    using len by (simp_all add: encodeOp_def take_add)
qed

lemma parse_decodes:
  "\<exists>r. s = concat (map encodeOp (fst (parseScript s))) @ r \<and> list_all wf_op (fst (parseScript s)) \<and> (snd (parseScript s) \<longleftrightarrow> r = [])"
proof (induction s rule: parseScript.induct)
  case 1
  then show ?case by simp
next
  case (2 op rest)
  show ?case
  proof (cases "pushOf op rest")
    case None
    then have "encodeOp \<lparr>so_op = op, so_data = None\<rparr> = [op]" "wf_op \<lparr>so_op = op, so_data = None\<rparr>"
      by (simp_all add: encodeOp_def wf_op_def pushOf_none)
    with 2(1) [OF None] None show ?thesis by (auto split: prod.splits)
  next
    case (Some p)
    obtain n len where p: "p = (n, len)" by (cases p)
    show ?thesis
    proof (cases "n + len \<le> length rest")
      case False
      with Some p show ?thesis by auto
    next
      case True
      obtain r where r: "drop (n + len) rest = concat (map encodeOp (fst (parseScript (drop (n + len) rest)))) @ r"
        "list_all wf_op (fst (parseScript (drop (n + len) rest)))" "snd (parseScript (drop (n + len) rest)) \<longleftrightarrow> r = []"
        using 2(2) [OF Some p [symmetric]] True by auto
      have step: "parseScript (op # rest) = (\<lparr>so_op = op, so_data = Some (take len (drop n rest))\<rparr> # fst (parseScript (drop (n + len) rest)),
          snd (parseScript (drop (n + len) rest)))"
        using Some p True by (simp split: prod.splits)
      let ?o = "\<lparr>so_op = op, so_data = Some (take len (drop n rest))\<rparr>" and ?ops = "fst (parseScript (drop (n + len) rest))"
      note enc = encode_push [OF Some [unfolded p] True]
      have "concat (map encodeOp (?o # ?ops)) @ r = (op # take (n + len) rest) @ drop (n + len) rest" using enc(1) r(1) by simp
      then have "op # rest = concat (map encodeOp (?o # ?ops)) @ r" by simp
      then show ?thesis unfolding step fst_conv snd_conv using r(2,3) enc(2) by (intro exI [of _ r] conjI) simp_all
    qed
  qed
qed

subsection \<open>The properties of the measures\<close>

text \<open>C21: The storage mass of the code (checked 64-bit products and sums for the outputs, saturating ones for the inputs)
  is the KIP-9 formula over unbounded integers cut at zero, and there is none exactly where an output's weight
  or the sum over the outputs leaves 64 bits.\<close>

theorem storage_mass_exact:
  assumes "ins \<noteq> []" "list_all cell_ok ins" "list_all cell_ok outs"
  shows "v1StorageMass ins outs =
    Inr (if kip9_overflow outs then None else Some (max 0 (kip9_harmonic outs - kip9_discount ins outs)))"
  by (rule storage_mass_core [OF assms])

definition ex_cell :: V1StorageCell where
  "ex_cell = \<lparr>sc_amountSompi = 100000000, sc_scriptBytes = 34, sc_covenantId = False\<rparr>"

definition ex_small_cell :: V1StorageCell where
  "ex_small_cell = \<lparr>sc_amountSompi = 10000000, sc_scriptBytes = 35, sc_covenantId = True\<rparr>"

theorem storage_mass_exact_witness:
  "v1StorageMass [ex_cell] [ex_cell, ex_small_cell] = Inr (Some 400000)"
proof -
  have "v1StorageMass [ex_cell] [ex_cell, ex_small_cell] =
    Inr (if kip9_overflow [ex_cell, ex_small_cell] then None
         else Some (max 0 (kip9_harmonic [ex_cell, ex_small_cell] - kip9_discount [ex_cell] [ex_cell, ex_small_cell])))"
    by (rule storage_mass_exact) (simp_all add: cell_ok_def ex_cell_def ex_small_cell_def MAX_SAFE_INTEGER_def)
  then show ?thesis
    by (simp add: kip9_overflow_def kip9_harmonic_def kip9_discount_def kip9_term_def cell_units_def ex_cell_def ex_small_cell_def Let_def)
qed

text \<open>C26: The relay floor of a measured transaction is 100 sompi per gram of the larger of its compute mass and twice its
  size, capped by the supply, never below 18,800 sompi; a transaction within the block limits never owes more
  than half a KAS. (The comment of \<open>v1MinimumRelayFee\<close> says at least 100,000 sompi; the code takes that value only where the
  quotient is zero, which no measured transaction reaches.)\<close>

theorem relay_floor_bounds:
  assumes "measureV1Mass shape ins outs = Inr m"
  shows "mm_minimumFeeSompi m = min 2900000000000000000 (100 * max (nm_computeMass m) (2 * nm_size m)) \<and> 18800 \<le> mm_minimumFeeSompi m \<and>
    (assertV1MassWithinLimits m = Inr () \<longrightarrow> mm_minimumFeeSompi m \<le> 50000000)"
  using relay_floor_core [OF assms] by simp

definition ex_shape :: V1MassTxShape where
  "ex_shape = \<lparr>ts_version = 1,
     ts_inputs = [\<lparr>is_signatureScriptBytes = 66, is_computeBudget = Some 10, is_sigOpCount = None\<rparr>],
     ts_outputs = [\<lparr>os_scriptBytes = 34, os_covenant = False\<rparr>, \<lparr>os_scriptBytes = 35, os_covenant = True\<rparr>], ts_payloadBytes = 0\<rparr>"

definition ex_measure :: V1MassMeasure where
  "ex_measure = \<lparr>nm_size = 353, nm_computeMass = 2083, nm_transientMass = 1412, mm_storageMass = 400000, mm_feeMass = 2083,
     mm_minimumFeeSompi = 208300, mm_withinBlockLimits = True\<rparr>"

lemma ex_measured: "measureV1Mass ex_shape [ex_cell] [ex_cell, ex_small_cell] = Inr ex_measure"
  by code_simp

theorem relay_floor_bounds_witness:
  "mm_minimumFeeSompi ex_measure = min 2900000000000000000 (100 * max (nm_computeMass ex_measure) (2 * nm_size ex_measure)) \<and>
   18800 \<le> mm_minimumFeeSompi ex_measure"
  using relay_floor_bounds [OF ex_measured] by blast

text \<open>C27: An estimated compute budget is a 16-bit value whose allowance covers the estimated units (100,000 per signature
  operation found, 100 per byte of the two scripts), and no smaller budget covers them.\<close>

theorem estimated_budget_least:
  assumes "estimateV1ComputeBudget sig spk = Inr e"
  shows "\<exists>s p. hexBytesOf sig = Some s \<and> hexBytesOf spk = Some p \<and>
    be_units e = int (sigOpsOf (scannedOps s (drop 2 p))) * 100000 + int (length s + length (drop 2 p)) * 100 \<and>
    v1ScriptUnitsAllowed (JNum (be_budget e)) = Inr (be_budget e * 10000 + 9999) \<and> be_units e \<le> be_budget e * 10000 + 9999 \<and>
    (\<forall>b a. v1ScriptUnitsAllowed (JNum b) = Inr a \<longrightarrow> be_units e \<le> a \<longrightarrow> be_budget e \<le> b)"
proof -
  obtain s p where e: "hexBytesOf sig = Some s" "hexBytesOf spk = Some p"
    "be_sigOps e = sigOpsOf (scannedOps s (drop 2 p))"
    "be_units e = int (be_sigOps e) * 100000 + int (length s + length (drop 2 p)) * 100"
    "v1BudgetForUnits (be_units e) = Inr (be_budget e)"
    using assms by (rule estimate_cases)
  note least = v1BudgetForUnits_Inr [OF e(5)]
  show ?thesis using e(1,2) e(4) [unfolded e(3)] least by (intro exI [of _ s] exI [of _ p]) simp
qed

definition ex_spk :: string where
  "ex_spk = ''000020'' @ replicate 64 (CHR ''a'') @ ''ac''"

definition ex_estimate :: V1BudgetEstimate where
  "ex_estimate = \<lparr>be_budget = 10, be_units = 103500, be_sigOps = 1\<rparr>"

lemma ex_estimated: "estimateV1ComputeBudget ''51'' ex_spk = Inr ex_estimate"
  by code_simp

theorem estimated_budget_least_witness:
  "v1ScriptUnitsAllowed (JNum (be_budget ex_estimate)) = Inr (be_budget ex_estimate * 10000 + 9999) \<and>
   be_units ex_estimate \<le> be_budget ex_estimate * 10000 + 9999"
  using estimated_budget_least [OF ex_estimated] by blast

text \<open>C28: The script scanner inverts the encoding of opcodes: what it returns, encoded again, is a prefix of the script, and
  the whole of it exactly when the scan is complete; and every encoding of well-formed opcodes is scanned back
  to them.\<close>

theorem script_scan_roundtrip:
  "(\<exists>r. s = concat (map encodeOp (fst (parseScript s))) @ r \<and> list_all wf_op (fst (parseScript s)) \<and> (snd (parseScript s) \<longleftrightarrow> r = [])) \<and>
   (list_all wf_op ops \<longrightarrow> parseScript (concat (map encodeOp ops)) = (ops, True))"
  by (simp add: parse_decodes parse_encode)

definition ex_ops :: "ScriptOp list" where
  "ex_ops = [\<lparr>so_op = 0x51, so_data = None\<rparr>, \<lparr>so_op = 0x4d, so_data = Some [1, 2, 3]\<rparr>, \<lparr>so_op = 2, so_data = Some [7, 8]\<rparr>]"

lemma ex_ops_wf: "list_all wf_op ex_ops"
  by (simp add: ex_ops_def wf_op_def directPush_def lengthBytes_def OP_PUSHDATA1_def OP_PUSHDATA2_def OP_PUSHDATA4_def)

theorem script_scan_roundtrip_witness: "parseScript (concat (map encodeOp ex_ops)) = (ex_ops, True)"
  using script_scan_roundtrip [of "[]" ex_ops] ex_ops_wf by blast

end
