(* ===== verification/HK_V1Plan.thy ===== *)
theory HK_V1Plan
  imports HK_V1Mass HK_Submission
begin

text \<open>
  The shape of a version 1 transaction plan: \<open>packages/tx-builder/src/v1-plan.ts\<close>.

  A plan is a JSON value. A check that throws \<open>V1_PLAN_INVALID\<close> on failure and does nothing else is a predicate;
  the checks are composed in the order of the code, so that the code of the first failing one is the result.
  Own fields are modelled for plain objects; an object of another prototype has none.
\<close>

subsection \<open>Texts and objects\<close>

definition isObject :: "json \<Rightarrow> bool" where
  "isObject v = (case v of JObj es \<Rightarrow> True | JMap \<Rightarrow> True | JSet \<Rightarrow> True | JDate \<Rightarrow> True | JNonPlain \<Rightarrow> True | _ \<Rightarrow> False)"

definition ownEntries :: "json \<Rightarrow> (string \<times> json) list" where
  "ownEntries v = (case v of JObj es \<Rightarrow> es | _ \<Rightarrow> [])"

definition amountText :: "string \<Rightarrow> bool" where
  "amountText s \<longleftrightarrow> s = ''0'' \<or> decimalDigits s \<and> \<not> starts_with s ''0''"

definition requireE :: "bool \<Rightarrow> unit result" where
  "requireE c = (if c then Inr () else Inl V1_PLAN_INVALID)"

definition isNameText :: "json \<Rightarrow> bool" where
  "isNameText v \<longleftrightarrow> isString v \<and> text_of v \<noteq> []"

definition planAmount :: "json \<Rightarrow> int result" where
  "planAmount v = (if isString v \<and> amountText (text_of v) then bigE (text_of v) else Inl V1_PLAN_INVALID)"

definition planIndex :: "nat \<Rightarrow> json \<Rightarrow> nat option" where
  "planIndex n v = (case v of JNum i \<Rightarrow> if i < 0 \<or> i \<ge> int n then None else Some (nat i) | _ \<Rightarrow> None)"

definition SECRET_KEYS :: "string list" where
  "SECRET_KEYS = [''privateKey'', ''private_key'', ''secret'', ''secretKey'', ''mnemonic'', ''seed'', ''xprv'', ''signature'',
     ''signatureScript'', ''password'']"

definition ARG_CONTAINERS :: "string list" where
  "ARG_CONTAINERS = [''args'', ''constructorArgs'', ''state'']"

function scanSecrets :: "json \<Rightarrow> bool" where
  "scanSecrets v = (case v of
       JArr xs \<Rightarrow> list_all scanSecrets xs
     | JObj es \<Rightarrow> list_all (\<lambda>e. fst e \<notin> set SECRET_KEYS \<and> (fst e \<in> set ARG_CONTAINERS \<or> scanSecrets (snd e))) es
     | _ \<Rightarrow> True)"
  by pat_completeness auto
termination
  by (relation "measure size") (auto simp: less_Suc_eq_le size_list_estimation' dest: size_json_entry)

subsection \<open>Arguments, contracts and states\<close>

lemma size_named_items: "map_of es k = Some (JArr xs) \<Longrightarrow> x \<in> set xs \<Longrightarrow> size x < size (JObj es)"
proof -
  assume v: "map_of es k = Some (JArr xs)" and x: "x \<in> set xs"
  have "size x < size (JArr xs)" using x by (simp add: less_Suc_eq_le size_list_estimation')
  with size_json_entry [OF map_of_SomeD [OF v]] show ?thesis by simp
qed

lemma size_named_entries: "map_of es k = Some (JObj fs) \<Longrightarrow> e \<in> set fs \<Longrightarrow> size (snd e) < size (JObj es)"
proof -
  assume v: "map_of es k = Some (JObj fs)" and e: "e \<in> set fs"
  have "size (snd e) < size (JObj fs)" using size_json_entry [of "fst e" "snd e" fs] e by simp
  with size_json_entry [OF map_of_SomeD [OF v]] show ?thesis by simp
qed

definition isByte :: "json \<Rightarrow> bool" where
  "isByte v \<longleftrightarrow> inBounds (Some 0) (Some 255) v"

function checkArg :: "json \<Rightarrow> bool" where
  "checkArg v = (case v of
       JObj es \<Rightarrow>
         (case map_of es ''kind'' of
            Some (JStr kd) \<Rightarrow>
              if kd = ''signer'' then isNameText (jget v ''signer'') \<and> list_all (\<lambda>e. fst e = ''kind'' \<or> fst e = ''signer'') es
              else if kd = ''int'' then isString (jget v ''value'') \<and> integerText (text_of (jget v ''value''))
              else if kd = ''bool'' then isBoolean (jget v ''value'')
              else if kd = ''byte'' then isByte (jget v ''value'')
              else if kd = ''bytes'' then isArray (jget v ''value'') \<and> list_all isByte (itemsOf (jget v ''value''))
              else if kd = ''text'' then isString (jget v ''value'')
              else if kd = ''array'' then (case map_of es ''value'' of Some (JArr xs) \<Rightarrow> list_all checkArg xs | _ \<Rightarrow> False)
              else if kd = ''object'' then
                (case map_of es ''value'' of
                   Some (JObj fs) \<Rightarrow> list_all (\<lambda>e. checkArg (snd e)) fs
                 | Some w \<Rightarrow> isObject w
                 | None \<Rightarrow> False)
              else False
          | _ \<Rightarrow> False)
     | _ \<Rightarrow> False)"
  by pat_completeness auto
termination
  by (relation "measure size") (auto dest: size_named_items size_named_entries)

definition isSigner :: "json \<Rightarrow> bool" where
  "isSigner v \<longleftrightarrow> jget v ''kind'' = JStr ''signer''"

definition checkCompiled :: "json \<Rightarrow> bool" where
  "checkCompiled c \<longleftrightarrow>
     isObject c \<and>
     isObject (jget c ''compileRecord'') \<and>
     is_HEX64 (jget (jget c ''compileRecord'') ''contentHash'') \<and> is_HEX64 (jget (jget c ''compileRecord'') ''artifactSha256'') \<and>
     isNameText (jget c ''contract'') \<and>
     isArray (jget c ''constructorArgs'') \<and>
     list_all (\<lambda>a. checkArg a \<and> \<not> isSigner a) (itemsOf (jget c ''constructorArgs''))"

definition checkState :: "json \<Rightarrow> bool" where
  "checkState s \<longleftrightarrow> isObject s \<and> ownEntries s \<noteq> [] \<and> list_all (\<lambda>e. checkArg (snd e) \<and> \<not> isSigner (snd e)) (ownEntries s)"

definition checkContract :: "json \<Rightarrow> bool" where
  "checkContract c \<longleftrightarrow>
     checkCompiled c \<and>
     isNameText (jget c ''entry'') \<and>
     (jget c ''policy'' = JUndefined \<or> isNameText (jget c ''policy'')) \<and>
     isArray (jget c ''args'') \<and> list_all checkArg (itemsOf (jget c ''args'')) \<and>
     (jget c ''state'' = JUndefined \<or> checkState (jget c ''state''))"

subsection \<open>Inputs\<close>

definition inputKey :: "json \<Rightarrow> string option" where
  "inputKey input =
     (if \<not> isObject input \<or> \<not> isObject (jget input ''outpoint'') then None
      else
        (let transactionId = jget (jget input ''outpoint'') ''transactionId'' in
         if \<not> is_HEX64 transactionId then None
         else case jget (jget input ''outpoint'') ''index'' of
           JNum index \<Rightarrow> if index < 0 \<or> index > 0xffffffff then None else Some (text_of transactionId @ '':'' @ int_str index)
         | _ \<Rightarrow> None))"

definition scriptText :: "string \<Rightarrow> bool" where
  "scriptText s \<longleftrightarrow> hexBytes s \<and> length s \<ge> 6"

definition isSequence :: "json \<Rightarrow> bool" where
  "isSequence v \<longleftrightarrow> isString v \<and> sequenceDigits (text_of v) \<and> (case bigE (text_of v) of Inr n \<Rightarrow> n \<le> 0xffffffffffffffff | Inl e \<Rightarrow> False)"

text \<open>The branch of an input's kind: whether it is a covenant's.\<close>

definition checkKind :: "json \<Rightarrow> bool result" where
  "checkKind input =
     (let covenantId = jget input ''covenantId''; contract = jget input ''contract'' in
      if jget input ''kind'' = JStr ''p2pk'' then
        (if covenantId \<noteq> JUndefined then Inl ''COVENANT_P2PK_INPUT_NOT_SUPPORTED''
         else bindE (requireE (contract = JUndefined \<and> isNameText (jget input ''signer''))) (\<lambda>_. Inr False))
      else if jget input ''kind'' = JStr ''p2sh'' then
        bindE (requireE (covenantId = JUndefined \<and> (contract = JUndefined \<or> checkContract contract))) (\<lambda>_. Inr False)
      else if jget input ''kind'' = JStr ''covenant'' then
        bindE (requireE (covenantId \<noteq> JUndefined \<and> checkContract contract \<and> isString (jget contract ''policy''))) (\<lambda>_. Inr True)
      else Inl V1_PLAN_INVALID)"

definition inputBody :: "json \<Rightarrow> (int \<times> bool) result" where
  "inputBody input =
     bindE (planAmount (jget input ''amountSompi'')) (\<lambda>n.
     bindE (requireE (isNameText (jget input ''address'') \<and>
        isString (jget input ''scriptPublicKey'') \<and> scriptText (text_of (jget input ''scriptPublicKey'')) \<and>
        inBounds (Some 0) (Some 0xffff) (jget input ''computeBudget'') \<and>
        (jget input ''covenantId'' = JUndefined \<or> is_HEX64 (jget input ''covenantId'')) \<and>
        (jget input ''sequence'' = JUndefined \<or> isSequence (jget input ''sequence'')))) (\<lambda>_.
     bindE (checkKind input) (\<lambda>covenant. Inr (n, covenant))))"

fun checkPlanInputs :: "nat \<Rightarrow> json list \<Rightarrow> string list \<Rightarrow> int \<Rightarrow> nat list \<Rightarrow> (int \<times> nat list) result" where
  "checkPlanInputs i [] seen totalIn covenantInputs = Inr (totalIn, covenantInputs)"
| "checkPlanInputs i (input # inputs) seen totalIn covenantInputs =
     (case inputKey input of
        None \<Rightarrow> Inl V1_PLAN_INVALID
      | Some key \<Rightarrow>
          if key \<in> set seen then Inl V1_PLAN_INVALID
          else bindE (inputBody input) (\<lambda>(n, covenant).
            checkPlanInputs (Suc i) inputs (key # seen) (totalIn + n) (if covenant then covenantInputs @ [i] else covenantInputs)))"

subsection \<open>Outputs and genesis groups\<close>

definition checkBinding :: "nat \<Rightarrow> json \<Rightarrow> bool" where
  "checkBinding inputs c \<longleftrightarrow> isObject c \<and> is_HEX64 (jget c ''covenantId'') \<and> planIndex inputs (jget c ''authorizingInput'') \<noteq> None"

fun checkPlanOutputs :: "nat \<Rightarrow> nat \<Rightarrow> json list \<Rightarrow> int \<Rightarrow> nat list \<Rightarrow> (int \<times> nat list) result" where
  "checkPlanOutputs inputs i [] totalOut bound = Inr (totalOut, bound)"
| "checkPlanOutputs inputs i (out # outs) totalOut bound =
     bindE (requireE (isObject out \<and> isNameText (jget out ''address''))) (\<lambda>_.
     bindE (planAmount (jget out ''amountSompi'')) (\<lambda>n.
     bindE (requireE (jget out ''role'' = JUndefined \<or> jget out ''role'' = JStr ''change'' \<or> jget out ''role'' = JStr ''payment'')) (\<lambda>_.
       if jget out ''covenant'' = JUndefined then checkPlanOutputs inputs (Suc i) outs (totalOut + n) bound
       else bindE (requireE (checkBinding inputs (jget out ''covenant''))) (\<lambda>_.
         checkPlanOutputs inputs (Suc i) outs (totalOut + n) (i # bound)))))"

text \<open>The outputs a group or a transition names: existing ones, none of them taken.\<close>

fun claimOutputs :: "nat \<Rightarrow> nat list \<Rightarrow> json list \<Rightarrow> nat list \<Rightarrow> nat list result" where
  "claimOutputs outputs bound [] claimed = Inr claimed"
| "claimOutputs outputs bound (v # vs) claimed =
     (case planIndex outputs v of
        None \<Rightarrow> Inl V1_PLAN_INVALID
      | Some o' \<Rightarrow> if o' \<in> set bound \<or> o' \<in> set claimed then Inl V1_PLAN_INVALID
                  else claimOutputs outputs bound vs (o' # claimed))"

definition checkStates :: "json \<Rightarrow> nat \<Rightarrow> bool" where
  "checkStates states n \<longleftrightarrow> isArray states \<and> length (itemsOf states) = n \<and> list_all checkState (itemsOf states)"

definition checkGroup :: "nat \<Rightarrow> json \<Rightarrow> bool" where
  "checkGroup inputs g \<longleftrightarrow>
     isObject g \<and> isArray (jget g ''outputs'') \<and> itemsOf (jget g ''outputs'') \<noteq> [] \<and>
     planIndex inputs (jget g ''authorizingInput'') \<noteq> None \<and>
     (jget g ''contract'' = JUndefined \<or> checkCompiled (jget g ''contract'')) \<and>
     (jget g ''covenantId'' = JUndefined \<or> is_HEX64 (jget g ''covenantId'')) \<and>
     (jget g ''states'' = JUndefined \<or>
        jget g ''contract'' \<noteq> JUndefined \<and> checkStates (jget g ''states'') (length (itemsOf (jget g ''outputs''))))"

fun checkGroups :: "nat \<Rightarrow> nat \<Rightarrow> nat list \<Rightarrow> json list \<Rightarrow> nat list \<Rightarrow> nat list result" where
  "checkGroups inputs outputs bound [] inGroup = Inr inGroup"
| "checkGroups inputs outputs bound (g # gs) inGroup =
     bindE (requireE (checkGroup inputs g)) (\<lambda>_.
     bindE (claimOutputs outputs bound (itemsOf (jget g ''outputs'')) inGroup) (\<lambda>inGroup.
       checkGroups inputs outputs bound gs inGroup))"

subsection \<open>Transitions and the whole plan\<close>

definition checkCovenantOutpoints :: "json \<Rightarrow> string list \<Rightarrow> unit result" where
  "checkCovenantOutpoints declared actual =
     (if declared \<noteq> JUndefined
      then bindE (iterateE declared) (\<lambda>ds.
        requireE (js_sort deterministicCompare (map template_text ds) = js_sort deterministicCompare actual))
      else requireE (actual = []))"

definition checkSuccessor :: "json \<Rightarrow> bool" where
  "checkSuccessor s \<longleftrightarrow>
     isObject s \<and> is_HEX64 (jget s ''artifactSha256'') \<and> isArray (jget s ''constructorArgs'') \<and> isObject (jget s ''stateToConstructorArg'') \<and>
     list_all checkArg (itemsOf (jget s ''constructorArgs'')) \<and> checkState (jget s ''state'')"

definition checkTransition :: "json list \<Rightarrow> nat list \<Rightarrow> json \<Rightarrow> bool" where
  "checkTransition inputs covenantInputs n \<longleftrightarrow>
     isObject n \<and> is_HEX64 (jget n ''covenantId'') \<and> isArray (jget n ''outputs'') \<and>
     (case planIndex (length inputs) (jget n ''input'') of
        None \<Rightarrow> False
      | Some i \<Rightarrow> i \<in> set covenantInputs \<and> jget (inputs ! i) ''covenantId'' = jget n ''covenantId'')"

definition checkNextForm :: "json \<Rightarrow> bool" where
  "checkNextForm n \<longleftrightarrow>
     (jget n ''successor'' \<noteq> JUndefined) \<noteq> (jget n ''states'' \<noteq> JUndefined) \<and>
     (if jget n ''states'' \<noteq> JUndefined then checkStates (jget n ''states'') (length (itemsOf (jget n ''outputs'')))
      else checkSuccessor (jget n ''successor''))"

fun checkNextStates :: "json list \<Rightarrow> nat \<Rightarrow> nat list \<Rightarrow> json list \<Rightarrow> nat list \<Rightarrow> nat list result" where
  "checkNextStates inputs outputs covenantInputs [] continued = Inr continued"
| "checkNextStates inputs outputs covenantInputs (n # ns) continued =
     bindE (requireE (checkTransition inputs covenantInputs n)) (\<lambda>_.
     bindE (claimOutputs outputs [] (itemsOf (jget n ''outputs'')) continued) (\<lambda>continued.
     bindE (requireE (checkNextForm n)) (\<lambda>_.
       checkNextStates inputs outputs covenantInputs ns continued)))"

definition isV1Plan :: "json \<Rightarrow> bool" where
  "isV1Plan plan \<longleftrightarrow> isObject plan \<and> jget plan ''txVersion'' = JNum 1"

definition assertV0Plan :: "json \<Rightarrow> int result" where
  "assertV0Plan plan =
     bindE (requireE (\<not> list_ex (\<lambda>f. jget plan f \<noteq> JUndefined) [''genesisCovenantGroups'', ''covenantOutpoints'', ''nextState'', ''payload''] \<and>
        \<not> list_ex (\<lambda>o'. jget o' ''covenant'' \<noteq> JUndefined) (itemsOf (jget plan ''outputs'')) \<and>
        \<not> list_ex (\<lambda>i. jget i ''computeBudget'' \<noteq> JUndefined \<or> jget i ''kind'' \<noteq> JUndefined \<or> jget i ''contract'' \<noteq> JUndefined)
           (itemsOf (jget plan ''inputs'')))) (\<lambda>_.
       json_bigE (jnn (jget plan ''estimatedFeeSompi'') (JNum 0)))"

definition planHead :: "json \<Rightarrow> bool" where
  "planHead plan \<longleftrightarrow>
     scanSecrets plan \<and>
     isArray (jget plan ''inputs'') \<and> itemsOf (jget plan ''inputs'') \<noteq> [] \<and>
     isArray (jget plan ''outputs'') \<and> itemsOf (jget plan ''outputs'') \<noteq> [] \<and>
     length (itemsOf (jget plan ''inputs'')) \<le> maxTxInputs V1_MASS_PARAMS \<and>
     length (itemsOf (jget plan ''outputs'')) \<le> maxTxOutputs V1_MASS_PARAMS \<and>
     jget plan ''computeBudget'' = JUndefined \<and>
     jget plan ''change'' = JUndefined \<and>
     (jget plan ''payload'' = JUndefined \<or> isString (jget plan ''payload'') \<and> hexBytes (text_of (jget plan ''payload'')))"

definition settlePlanFee :: "json \<Rightarrow> int \<Rightarrow> int result" where
  "settlePlanFee plan fee =
     bindE (requireE (fee \<ge> 0)) (\<lambda>_.
     bindE (planAmount (jget plan ''estimatedFeeSompi'')) (\<lambda>estimated.
     bindE (requireE (estimated = fee)) (\<lambda>_.
     bindE (planAmount (jget plan ''estimatedMass'')) (\<lambda>_.
     bindE (planAmount (jget plan ''storageMass'')) (\<lambda>_.
     if jget plan ''maxFeeSompi'' = JUndefined then Inl ''V1_FEE_LIMIT_REQUIRED''
     else bindE (planAmount (jget plan ''maxFeeSompi'')) (\<lambda>limit.
       if fee > limit then Inl ''FEE_EXCEEDS_MAX'' else Inr fee))))))"

definition assertV1PlanShape :: "json \<Rightarrow> int result" where
  "assertV1PlanShape plan =
     (if jget plan ''txVersion'' \<noteq> JNum 1 then assertV0Plan plan
      else
        (let inputs = itemsOf (jget plan ''inputs''); outputs = itemsOf (jget plan ''outputs'') in
         bindE (requireE (planHead plan)) (\<lambda>_.
         bindE (checkPlanInputs 0 inputs [] 0 []) (\<lambda>(totalIn, covenantInputs).
         bindE (checkPlanOutputs (length inputs) 0 outputs 0 []) (\<lambda>(totalOut, bound).
         let groups = jnn (jget plan ''genesisCovenantGroups'') (JArr []) in
         bindE (requireE (isArray groups)) (\<lambda>_.
         bindE (checkGroups (length inputs) (length outputs) bound (itemsOf groups) []) (\<lambda>_.
         bindE (checkCovenantOutpoints (jget plan ''covenantOutpoints'')
                  (map (\<lambda>i. case inputKey (inputs ! i) of Some key \<Rightarrow> key | None \<Rightarrow> []) covenantInputs)) (\<lambda>_.
         let nextStates = jnn (jget plan ''nextState'') (JArr []) in
         bindE (requireE (isArray nextStates)) (\<lambda>_.
         bindE (checkNextStates inputs (length outputs) covenantInputs (itemsOf nextStates) []) (\<lambda>_.
           settlePlanFee plan (totalIn - totalOut)))))))))))"

end
