(* ===== verification/HK_V1PlanProps.thy ===== *)
theory HK_V1PlanProps
  imports HK_V1Plan
begin

text \<open>
  What an accepted version 1 plan is: it spends each outpoint once and accounts for every sompi within its fee
  limit, no output serves two covenants, and no field outside the arguments of a contract is named like a
  secret.
\<close>

declare scanSecrets.simps [simp del] checkArg.simps [simp del]

lemma requireE_Inr [simp]: "requireE c = Inr u \<longleftrightarrow> c"
  by (simp add: requireE_def)

subsection \<open>Value\<close>

definition amount_in :: "json \<Rightarrow> int" where
  "amount_in item = (case planAmount (jget item ''amountSompi'') of Inr n \<Rightarrow> n | Inl e \<Rightarrow> 0)"

definition is_covenant_input :: "json \<Rightarrow> bool" where
  "is_covenant_input input \<longleftrightarrow> jget input ''kind'' = JStr ''covenant''"

lemma inputBody_Inr:
  assumes "inputBody input = Inr (n, c)"
  shows "n = amount_in input" "c = is_covenant_input input"
proof -
  show "n = amount_in input" using assms by (auto simp: inputBody_def amount_in_def)
  have "checkKind input = Inr c" using assms by (auto simp: inputBody_def)
  then show "c = is_covenant_input input" by (auto simp: checkKind_def is_covenant_input_def Let_def split: if_splits)
qed

lemma checkPlanInputs_Inr:
  assumes "checkPlanInputs i ins seen t cs = Inr (t', cs')"
  shows "t' = t + sum_list (map amount_in ins)"
    and "\<exists>keys. map inputKey ins = map Some keys \<and> distinct keys \<and> set keys \<inter> set seen = {}"
    and "cs' = cs @ map (\<lambda>j. j + i) (filter (\<lambda>j. is_covenant_input (ins ! j)) [0..<length ins])"
proof -
  have "t' = t + sum_list (map amount_in ins) \<and>
    (\<exists>keys. map inputKey ins = map Some keys \<and> distinct keys \<and> set keys \<inter> set seen = {}) \<and>
    cs' = cs @ map (\<lambda>j. j + i) (filter (\<lambda>j. is_covenant_input (ins ! j)) [0..<length ins])"
    using assms
  proof (induction ins arbitrary: i seen t cs)
    case Nil
    then show ?case by simp
  next
    case (Cons input ins)
    obtain key n c where key: "inputKey input = Some key" "key \<notin> set seen" and body: "inputBody input = Inr (n, c)"
      and rest: "checkPlanInputs (Suc i) ins (key # seen) (t + n) (if c then cs @ [i] else cs) = Inr (t', cs')"
      using Cons.prems by (auto split: option.splits if_splits)
    note nc = inputBody_Inr [OF body]
    obtain keys where keys: "map inputKey ins = map Some keys" "distinct keys" "set keys \<inter> set (key # seen) = {}"
      and t: "t' = t + n + sum_list (map amount_in ins)"
      and cs: "cs' = (if c then cs @ [i] else cs) @ map (\<lambda>j. j + Suc i) (filter (\<lambda>j. is_covenant_input (ins ! j)) [0..<length ins])"
      using Cons.IH [OF rest] by auto
    have "filter (\<lambda>j. is_covenant_input ((input # ins) ! j)) [0..<length (input # ins)] =
        (if c then [0] else []) @ map Suc (filter (\<lambda>j. is_covenant_input (ins ! j)) [0..<length ins])"
      using nc(2) by (simp add: upt_conv_Cons map_Suc_upt [symmetric] filter_map o_def del: upt_Suc)
    then have "cs' = cs @ map (\<lambda>j. j + i) (filter (\<lambda>j. is_covenant_input ((input # ins) ! j)) [0..<length (input # ins)])"
      using cs by (simp add: o_def)
    moreover have "\<exists>ks. map inputKey (input # ins) = map Some ks \<and> distinct ks \<and> set ks \<inter> set seen = {}"
      using key keys by (intro exI [of _ "key # keys"]) auto
    ultimately show ?case using t nc(1) by simp
  qed
  then show "t' = t + sum_list (map amount_in ins)"
    and "\<exists>keys. map inputKey ins = map Some keys \<and> distinct keys \<and> set keys \<inter> set seen = {}"
    and "cs' = cs @ map (\<lambda>j. j + i) (filter (\<lambda>j. is_covenant_input (ins ! j)) [0..<length ins])" by blast+
qed

definition is_bound :: "json \<Rightarrow> bool" where
  "is_bound out \<longleftrightarrow> jget out ''covenant'' \<noteq> JUndefined"

lemma checkPlanOutputs_Inr:
  assumes "checkPlanOutputs n i outs t bs = Inr (t', bs')"
  shows "t' = t + sum_list (map amount_in outs) \<and> set bs' = set bs \<union> {i + j |j. j < length outs \<and> is_bound (outs ! j)} \<and>
    list_all (\<lambda>out. is_bound out \<longrightarrow> checkBinding n (jget out ''covenant'')) outs"
  using assms
proof (induction outs arbitrary: i t bs)
  case Nil
  then show ?case by simp
next
  case (Cons out outs)
  obtain k where k: "planAmount (jget out ''amountSompi'') = Inr k"
    and rest: "checkPlanOutputs n (Suc i) outs (t + k) (if is_bound out then i # bs else bs) = Inr (t', bs')"
    and b: "is_bound out \<longrightarrow> checkBinding n (jget out ''covenant'')"
    using Cons.prems by (auto simp: is_bound_def split: if_splits)
  have "{i + j |j. j < length (out # outs) \<and> is_bound ((out # outs) ! j)} =
      (if is_bound out then {i} else {}) \<union> {Suc i + j |j. j < length outs \<and> is_bound (outs ! j)}"
    by (auto simp: less_Suc_eq_0_disj)
  with Cons.IH [OF rest] b k show ?case by (auto simp: amount_in_def)
qed

subsection \<open>Claims on outputs\<close>

definition named_outputs :: "json list \<Rightarrow> json list" where
  "named_outputs gs = concat (map (\<lambda>g. itemsOf (jget g ''outputs'')) gs)"

lemma claimOutputs_append:
  "claimOutputs n b (vs @ ws) c = bindE (claimOutputs n b vs c) (claimOutputs n b ws)"
  by (induction vs arbitrary: c) (auto split: option.splits)

lemma claimOutputs_Inr:
  "claimOutputs n b vs c = Inr c' \<Longrightarrow>
   \<exists>is. map (planIndex n) vs = map Some is \<and> distinct is \<and> set is \<inter> (set b \<union> set c) = {} \<and> c' = rev is @ c"
proof (induction vs arbitrary: c)
  case Nil
  then show ?case by simp
next
  case (Cons v vs)
  obtain k where k: "planIndex n v = Some k" "k \<notin> set b" "k \<notin> set c" and rest: "claimOutputs n b vs (k # c) = Inr c'"
    using Cons.prems by (auto split: option.splits if_splits)
  obtain ks where "map (planIndex n) vs = map Some ks" "distinct ks" "set ks \<inter> (set b \<union> set (k # c)) = {}" "c' = rev ks @ (k # c)"
    using Cons.IH [OF rest] by blast
  with k show ?case by (intro exI [of _ "k # ks"]) auto
qed

lemma checkGroups_claims:
  "checkGroups m n b gs c = Inr c' \<Longrightarrow> claimOutputs n b (named_outputs gs) c = Inr c' \<and> list_all (checkGroup m) gs"
  by (induction gs arbitrary: c) (auto simp: named_outputs_def claimOutputs_append)

lemma checkNextStates_claims:
  "checkNextStates ins n cs ns c = Inr c' \<Longrightarrow> claimOutputs n [] (named_outputs ns) c = Inr c' \<and> list_all (checkTransition ins cs) ns"
  by (induction ns arbitrary: c) (auto simp: named_outputs_def claimOutputs_append)

lemma planIndex_Some: "planIndex n v = Some i \<longleftrightarrow> v = JNum (int i) \<and> i < n"
  by (cases v) (auto simp: planIndex_def)

subsection \<open>Accepted plans\<close>

definition plan_inputs :: "json \<Rightarrow> json list" where
  "plan_inputs plan = itemsOf (jget plan ''inputs'')"

definition plan_outputs :: "json \<Rightarrow> json list" where
  "plan_outputs plan = itemsOf (jget plan ''outputs'')"

definition plan_groups :: "json \<Rightarrow> json list" where
  "plan_groups plan = itemsOf (jget plan ''genesisCovenantGroups'')"

definition plan_transitions :: "json \<Rightarrow> json list" where
  "plan_transitions plan = itemsOf (jget plan ''nextState'')"

definition covenant_keys :: "json \<Rightarrow> string option list" where
  "covenant_keys plan = map inputKey (filter is_covenant_input (plan_inputs plan))"

lemma filter_by_index: "map (\<lambda>i. xs ! i) (filter (\<lambda>i. P (xs ! i)) [0..<length xs]) = filter P xs"
proof -
  have "filter P xs = filter P (map (\<lambda>i. xs ! i) [0..<length xs])" by (simp add: map_nth)
  then show ?thesis by (simp add: filter_map o_def)
qed

lemma itemsOf_default: "isArray (jnn v (JArr [])) \<Longrightarrow> itemsOf (jnn v (JArr [])) = itemsOf v"
  by (cases v) (simp_all add: jnn_def itemsOf_def)

text \<open>Everything the acceptance of a version 1 plan says, in the order the checks establish it.\<close>

lemma accepted_plan:
  assumes "assertV1PlanShape plan = Inr fee" "jget plan ''txVersion'' = JNum 1"
  obtains keys cs bound claimed continued where
    "planHead plan"
    "map inputKey (plan_inputs plan) = map Some keys" "distinct keys"
    "cs = filter (\<lambda>j. is_covenant_input (plan_inputs plan ! j)) [0..<length (plan_inputs plan)]"
    "set bound = {j. j < length (plan_outputs plan) \<and> is_bound (plan_outputs plan ! j)}"
    "list_all (\<lambda>out. is_bound out \<longrightarrow> checkBinding (length (plan_inputs plan)) (jget out ''covenant'')) (plan_outputs plan)"
    "claimOutputs (length (plan_outputs plan)) bound (named_outputs (plan_groups plan)) [] = Inr claimed"
    "list_all (checkGroup (length (plan_inputs plan))) (plan_groups plan)"
    "checkCovenantOutpoints (jget plan ''covenantOutpoints'') (map (\<lambda>i. case inputKey (plan_inputs plan ! i) of Some key \<Rightarrow> key | None \<Rightarrow> []) cs) = Inr ()"
    "claimOutputs (length (plan_outputs plan)) [] (named_outputs (plan_transitions plan)) [] = Inr continued"
    "list_all (checkTransition (plan_inputs plan) cs) (plan_transitions plan)"
    "settlePlanFee plan (sum_list (map amount_in (plan_inputs plan)) - sum_list (map amount_in (plan_outputs plan))) = Inr fee"
proof -
  let ?ins = "plan_inputs plan" and ?outs = "plan_outputs plan"
    and ?gs = "jnn (jget plan ''genesisCovenantGroups'') (JArr [])" and ?ns = "jnn (jget plan ''nextState'') (JArr [])"
  obtain ti cs to bound claimed continued where
    h: "planHead plan" and i: "checkPlanInputs 0 ?ins [] 0 [] = Inr (ti, cs)"
    and o: "checkPlanOutputs (length ?ins) 0 ?outs 0 [] = Inr (to, bound)"
    and ga: "isArray ?gs" and g: "checkGroups (length ?ins) (length ?outs) bound (itemsOf ?gs) [] = Inr claimed"
    and c: "checkCovenantOutpoints (jget plan ''covenantOutpoints'') (map (\<lambda>i. case inputKey (?ins ! i) of Some key \<Rightarrow> key | None \<Rightarrow> []) cs) = Inr ()"
    and na: "isArray ?ns" and n: "checkNextStates ?ins (length ?outs) cs (itemsOf ?ns) [] = Inr continued"
    and f: "settlePlanFee plan (ti - to) = Inr fee"
    using assms unfolding assertV1PlanShape_def Let_def plan_inputs_def [symmetric] plan_outputs_def [symmetric]
    by (auto split: prod.splits)
  note ii = checkPlanInputs_Inr [OF i] and oo = checkPlanOutputs_Inr [OF o]
  have gs: "itemsOf ?gs = plan_groups plan" and ns: "itemsOf ?ns = plan_transitions plan"
    using itemsOf_default [OF ga] itemsOf_default [OF na] by (simp_all add: plan_groups_def plan_transitions_def)
  obtain keys where keys: "map inputKey ?ins = map Some keys" "distinct keys" using ii(2) by blast
  have cs: "cs = filter (\<lambda>j. is_covenant_input (?ins ! j)) [0..<length ?ins]" using ii(3) by simp
  have bound: "set bound = {j. j < length ?outs \<and> is_bound (?outs ! j)}" using oo by simp
  have fee: "settlePlanFee plan (sum_list (map amount_in ?ins) - sum_list (map amount_in ?outs)) = Inr fee" using f ii(1) oo by simp
  note groups = checkGroups_claims [OF g [unfolded gs]] and next' = checkNextStates_claims [OF n [unfolded ns]]
  show thesis by (rule that [OF h keys cs bound]) (use oo groups next' c fee in simp_all)
qed

lemma settlePlanFee_Inr:
  assumes "settlePlanFee plan f = Inr fee"
  shows "fee = f" "0 \<le> fee" "planAmount (jget plan ''estimatedFeeSompi'') = Inr fee"
    "\<exists>limit. planAmount (jget plan ''maxFeeSompi'') = Inr limit \<and> fee \<le> limit"
  using assms by (auto simp: settlePlanFee_def split: if_splits)

lemma inputKey_long: "inputKey x = Some key \<Longrightarrow> 64 < length key"
  by (auto simp: inputKey_def is_HEX64_def HEX64_def text_of_def Let_def split: if_splits json.splits)

lemma covenant_outpoints_listed:
  assumes "map inputKey xs = map Some keys"
    and "checkCovenantOutpoints declared
      (map (\<lambda>i. case inputKey (xs ! i) of Some key \<Rightarrow> key | None \<Rightarrow> []) (filter (\<lambda>j. is_covenant_input (xs ! j)) [0..<length xs])) = Inr ()"
  shows "mset (map (\<lambda>v. Some (template_text v)) (itemsOf declared)) = mset (map inputKey (filter is_covenant_input xs))"
proof -
  let ?key = "\<lambda>x. case inputKey x of Some key \<Rightarrow> key | None \<Rightarrow> []"
  have some: "x \<in> set xs \<Longrightarrow> inputKey x = Some (?key x)" for x
  proof -
    assume "x \<in> set xs"
    then have "inputKey x \<in> set (map Some keys)" unfolding assms(1) [symmetric] by simp
    then show ?thesis by auto
  qed
  have "map (\<lambda>i. ?key (xs ! i)) (filter (\<lambda>j. is_covenant_input (xs ! j)) [0..<length xs]) =
      map ?key (map (\<lambda>i. xs ! i) (filter (\<lambda>j. is_covenant_input (xs ! j)) [0..<length xs]))" by simp
  then have actual: "map (\<lambda>i. ?key (xs ! i)) (filter (\<lambda>j. is_covenant_input (xs ! j)) [0..<length xs]) = map ?key (filter is_covenant_input xs)"
    unfolding filter_by_index .
  have lifted: "map Some (map ?key (filter is_covenant_input xs)) = map inputKey (filter is_covenant_input xs)"
    using some by (simp add: o_def)
  show ?thesis
  proof (cases "declared = JUndefined")
    case True
    then have "map ?key (filter is_covenant_input xs) = []" using assms(2) unfolding actual by (simp add: checkCovenantOutpoints_def)
    then have "filter is_covenant_input xs = []" by simp
    then show ?thesis using True by (simp add: itemsOf_def)
  next
    case False
    then obtain ds where ds: "iterateE declared = Inr ds"
      and eq: "js_sort deterministicCompare (map template_text ds) = js_sort deterministicCompare (map ?key (filter is_covenant_input xs))"
      using assms(2) unfolding actual by (auto simp: checkCovenantOutpoints_def)
    have "mset (map template_text ds) = mset (map ?key (filter is_covenant_input xs))" using arg_cong [OF eq, of mset] by simp
    then have "mset (map Some (map template_text ds)) = mset (map Some (map ?key (filter is_covenant_input xs)))" by (metis mset_map)
    then have m: "mset (map (\<lambda>v. Some (template_text v)) ds) = mset (map inputKey (filter is_covenant_input xs))"
      unfolding lifted by (simp add: o_def image_mset.compositionality)
    show ?thesis
    proof (cases declared)
      case (JStr t)
      have "inputKey x \<noteq> Some [c]" for x c using inputKey_long [of x "[c]"] by auto
      then have "Some [c] \<notin># mset (map inputKey (filter is_covenant_input xs))" for c by (auto simp: image_iff) metis
      then have "Some [c] \<notin># mset (map (\<lambda>v. Some (template_text v)) ds)" for c unfolding m .
      moreover have "ds = map (\<lambda>c. JStr [c]) t" using ds JStr by (simp add: iterateE_def)
      ultimately have "t = []" by (cases t) auto
      then show ?thesis using m ds JStr by (simp add: iterateE_def itemsOf_def)
    qed (use ds m in \<open>auto simp: iterateE_def itemsOf_def\<close>)
  qed
qed

subsection \<open>Names of secrets\<close>

text \<open>The fields that occur in a value, at any depth but below a field named \<open>args\<close>, \<open>constructorArgs\<close> or \<open>state\<close>. The code
  means the arguments and the state of a contract by these names, and leaves them out wherever they stand.\<close>

inductive names_field :: "json \<Rightarrow> string \<Rightarrow> bool" where
  item: "x \<in> set xs \<Longrightarrow> names_field x k \<Longrightarrow> names_field (JArr xs) k"
| field: "(k, v) \<in> set es \<Longrightarrow> names_field (JObj es) k"
| nested: "(n, v) \<in> set es \<Longrightarrow> n \<notin> set ARG_CONTAINERS \<Longrightarrow> names_field v k \<Longrightarrow> names_field (JObj es) k"

inductive_simps names_field_simps: "names_field (JArr xs) k" "names_field (JObj es) k"

lemma scanSecrets_sound: "names_field j k \<Longrightarrow> scanSecrets j \<Longrightarrow> k \<notin> set SECRET_KEYS"
proof (induction rule: names_field.induct)
  case (item x xs k)
  then show ?case by (subst (asm) scanSecrets.simps) (auto simp: list_all_iff)
next
  case (field k v es)
  then show ?case by (subst (asm) scanSecrets.simps) (auto simp: list_all_iff)
next
  case (nested n v es k)
  have "scanSecrets v" using nested.prems nested.hyps(1,2) by (subst (asm) scanSecrets.simps) (auto simp: list_all_iff)
  then show ?case by (rule nested.IH)
qed

lemma scanSecrets_complete: "\<not> scanSecrets j \<Longrightarrow> \<exists>k \<in> set SECRET_KEYS. names_field j k"
proof (induction j rule: scanSecrets.induct)
  case (1 j)
  show ?case
  proof (cases j)
    case (JArr xs)
    then obtain x where "x \<in> set xs" "\<not> scanSecrets x" using "1.prems" by (subst (asm) scanSecrets.simps) (auto simp: list_all_iff)
    with "1.IH"(1) [OF JArr] JArr show ?thesis by (auto simp: names_field_simps) blast
  next
    case (JObj es)
    then obtain e where e: "e \<in> set es" "fst e \<in> set SECRET_KEYS \<or> fst e \<notin> set ARG_CONTAINERS \<and> \<not> scanSecrets (snd e)"
      using "1.prems" by (subst (asm) scanSecrets.simps) (auto simp: list_all_iff)
    with "1.IH"(2) [OF JObj] JObj show ?thesis by (cases e) (auto simp: names_field_simps, blast+)
  qed (use "1.prems" in \<open>simp_all add: scanSecrets.simps\<close>)
qed

text \<open>A field of a state may have any name where the plan gives one state, but not where it gives a list of them: the
  exemption is by the field \<open>state\<close>, and a list of states stands in the field \<open>states\<close>.\<close>

lemma single_state_exempt: "scanSecrets (JObj [(''state'', JObj [(''seed'', v)])])"
  by (simp add: scanSecrets.simps [of "JObj es" for es] SECRET_KEYS_def ARG_CONTAINERS_def)

lemma listed_states_scanned: "\<not> scanSecrets (JObj [(''states'', JArr [JObj [(''seed'', v)]])])"
  by (simp add: scanSecrets.simps [of "JObj es" for es] scanSecrets.simps [of "JArr es" for es] SECRET_KEYS_def ARG_CONTAINERS_def)

subsection \<open>The schema of arguments and the planner's check\<close>

lemma conforms_strict:
  assumes "conforms dt (zstrict [(''kind'', ZLiteral (JStr kd)), (f, s)]) j"
  shows "\<exists>es. j = JObj es \<and> map_of es ''kind'' = Some (JStr kd) \<and> conforms dt s (jget j f) \<and> fst ` set es \<subseteq> {''kind'', f}"
  using assms by (cases j) (auto simp: jget_def split: option.splits)

lemma schema_argument_passes: "conforms dt ZLazyArgument j \<Longrightarrow> checkArg j"
proof (induction j rule: measure_induct_rule [of size])
  case (less j)
  have u: "list_ex (\<lambda>s. conforms dt s j) (case V1ArgValueUnion of ZUnion ss \<Rightarrow> ss | _ \<Rightarrow> [])"
    using less.prems by (simp add: V1ArgValueUnion_def)
  consider (is_int) "conforms dt (zstrict [(''kind'', ZLiteral (JStr ''int'')), (''value'', ZText integerText)]) j"
    | (is_bool) "conforms dt (zstrict [(''kind'', ZLiteral (JStr ''bool'')), (''value'', ZBoolean)]) j"
    | (is_byte) "conforms dt (zstrict [(''kind'', ZLiteral (JStr ''byte'')), (''value'', ZInteger (Some 0) (Some 255))]) j"
    | (is_bytes) "conforms dt (zstrict [(''kind'', ZLiteral (JStr ''bytes'')), (''value'', ZArray 0 (ZInteger (Some 0) (Some 255)))]) j"
    | (is_text) "conforms dt (zstrict [(''kind'', ZLiteral (JStr ''text'')), (''value'', ZString)]) j"
    | (is_array) "conforms dt (zstrict [(''kind'', ZLiteral (JStr ''array'')), (''value'', ZArray 0 ZLazyArgument)]) j"
    | (is_object) "conforms dt (zstrict [(''kind'', ZLiteral (JStr ''object'')), (''value'', ZRecord ZLazyArgument)]) j"
    | (is_signer) "conforms dt (zstrict [(''kind'', ZLiteral (JStr ''signer'')), (''signer'', ZText nonEmptyText)]) j"
    using u unfolding V1ArgValueUnion_def by (simp only: ZodType.case list_ex_iff list.set) blast
  then show ?case
  proof cases
    case is_int
    from conforms_strict [OF this] show ?thesis by (subst checkArg.simps) auto
  next
    case is_bool
    from conforms_strict [OF this] show ?thesis by (subst checkArg.simps) auto
  next
    case is_byte
    from conforms_strict [OF this] show ?thesis by (subst checkArg.simps) (auto simp: isByte_def)
  next
    case is_bytes
    from conforms_strict [OF this] show ?thesis by (subst checkArg.simps) (auto simp: isByte_def isArray_def itemsOf_def list_all_iff split: json.splits)
  next
    case is_text
    from conforms_strict [OF this] show ?thesis by (subst checkArg.simps) auto
  next
    case is_array
    then obtain es where es: "j = JObj es" "map_of es ''kind'' = Some (JStr ''array'')" "conforms dt (ZArray 0 ZLazyArgument) (jget j ''value'')"
      using conforms_strict by blast
    then obtain xs where xs: "map_of es ''value'' = Some (JArr xs)" "\<forall>x \<in> set xs. conforms dt ZLazyArgument x"
      by (cases "map_of es ''value''"; cases "jget j ''value''") (auto simp: jget_def list_all_iff)
    have "\<forall>x \<in> set xs. checkArg x" using xs less.IH es(1) size_named_items [OF xs(1)] by blast
    then show ?thesis using es xs(1) by (subst checkArg.simps) (simp add: list_all_iff)
  next
    case is_object
    then obtain es where es: "j = JObj es" "map_of es ''kind'' = Some (JStr ''object'')" "conforms dt (ZRecord ZLazyArgument) (jget j ''value'')"
      using conforms_strict by blast
    then obtain fs where fs: "map_of es ''value'' = Some (JObj fs)" "\<forall>e \<in> set fs. conforms dt ZLazyArgument (snd e)"
      by (cases "map_of es ''value''"; cases "jget j ''value''") (auto simp: jget_def list_all_iff)
    have "\<forall>e \<in> set fs. checkArg (snd e)" using fs less.IH es(1) size_named_entries [OF fs(1)] by blast
    then show ?thesis using es fs(1) by (subst checkArg.simps) (simp add: list_all_iff)
  next
    case is_signer
    then obtain es where es: "j = JObj es" "map_of es ''kind'' = Some (JStr ''signer'')" "conforms dt (ZText nonEmptyText) (jget j ''signer'')"
      "fst ` set es \<subseteq> {''kind'', ''signer''}" using conforms_strict by blast
    have "list_all (\<lambda>e. fst e = ''kind'' \<or> fst e = ''signer'') es" unfolding list_all_iff using es(4) by blast
    then show ?thesis using es(1,2,3) by (subst checkArg.simps) (simp add: isNameText_def nonEmptyText_def)
  qed
qed

lemma claimed_indices:
  assumes "claimOutputs n b vs [] = Inr c'"
  shows "\<exists>is. vs = map (\<lambda>i. JNum (int i)) is \<and> distinct is \<and> set is \<subseteq> {j. j < n \<and> j \<notin> set b}"
proof -
  obtain ks where ks: "map (planIndex n) vs = map Some ks" "distinct ks" "set ks \<inter> (set b \<union> set []) = {}"
    using claimOutputs_Inr [OF assms] by blast
  have "list_all2 (\<lambda>v i. v = JNum (int i) \<and> i < n) vs ks"
    using ks(1) unfolding list_all2_conv_all_nth by (metis length_map nth_map planIndex_Some)
  then have "vs = map (\<lambda>i. JNum (int i)) ks" "set ks \<subseteq> {..<n}" by (induction rule: list_all2_induct) auto
  with ks show ?thesis by (intro exI [of _ ks]) auto
qed

subsection \<open>The properties of accepted plans\<close>

text \<open>C19: An accepted version 1 plan accounts for its value: it spends pairwise different outpoints, what goes in is what
  goes out plus the fee it returns, the fee is the one the plan declares, it is not negative, and it stays
  within the limit the plan records.\<close>

theorem v1_plan_accounts:
  assumes "assertV1PlanShape plan = Inr fee" "jget plan ''txVersion'' = JNum 1"
  shows "sum_list (map amount_in (plan_inputs plan)) = sum_list (map amount_in (plan_outputs plan)) + fee \<and> 0 \<le> fee \<and>
    planAmount (jget plan ''estimatedFeeSompi'') = Inr fee \<and>
    (\<exists>limit. planAmount (jget plan ''maxFeeSompi'') = Inr limit \<and> fee \<le> limit) \<and>
    distinct (map inputKey (plan_inputs plan)) \<and> None \<notin> set (map inputKey (plan_inputs plan))"
proof -
  obtain keys where keys: "map inputKey (plan_inputs plan) = map Some keys" "distinct keys"
    and f: "settlePlanFee plan (sum_list (map amount_in (plan_inputs plan)) - sum_list (map amount_in (plan_outputs plan))) = Inr fee"
    using assms by (rule accepted_plan)
  show ?thesis using settlePlanFee_Inr [OF f] keys by (simp add: distinct_map)
qed

text \<open>C20: What an accepted version 1 plan says of covenants is sound, kind by kind. Every output named by a genesis group
  exists, is named once over all groups and carries no binding to a covenant; every binding names an input of the plan; every
  output named by a transition exists and is named once over all transitions; the input of a transition is a covenant
  input of the covenant the transition names; and the declared covenant outpoints are exactly those of the covenant
  inputs. The three kinds are not compared with each other beyond that: an output of a genesis group may also be named by a
  transition of another covenant (lemma \<open>group_output_continued\<close>).\<close>

theorem v1_plan_covenants_separate:
  assumes "assertV1PlanShape plan = Inr fee" "jget plan ''txVersion'' = JNum 1"
  shows "(\<exists>new. named_outputs (plan_groups plan) = map (\<lambda>i. JNum (int i)) new \<and> distinct new \<and>
      set new \<subseteq> {j. j < length (plan_outputs plan) \<and> \<not> is_bound (plan_outputs plan ! j)}) \<and>
    list_all (\<lambda>out. is_bound out \<longrightarrow> (\<exists>i < length (plan_inputs plan). jget (jget out ''covenant'') ''authorizingInput'' = JNum (int i))) (plan_outputs plan) \<and>
    (\<exists>moved. named_outputs (plan_transitions plan) = map (\<lambda>i. JNum (int i)) moved \<and> distinct moved \<and> set moved \<subseteq> {..<length (plan_outputs plan)}) \<and>
    list_all (\<lambda>t. \<exists>i < length (plan_inputs plan). jget t ''input'' = JNum (int i) \<and> is_covenant_input (plan_inputs plan ! i) \<and>
      jget (plan_inputs plan ! i) ''covenantId'' = jget t ''covenantId'') (plan_transitions plan) \<and>
    mset (map (\<lambda>v. Some (template_text v)) (itemsOf (jget plan ''covenantOutpoints''))) = mset (covenant_keys plan)"
proof -
  let ?n = "length (plan_outputs plan)"
  obtain keys cs bound claimed continued where a: "map inputKey (plan_inputs plan) = map Some keys"
    "cs = filter (\<lambda>j. is_covenant_input (plan_inputs plan ! j)) [0..<length (plan_inputs plan)]"
    "set bound = {j. j < ?n \<and> is_bound (plan_outputs plan ! j)}"
    "list_all (\<lambda>out. is_bound out \<longrightarrow> checkBinding (length (plan_inputs plan)) (jget out ''covenant'')) (plan_outputs plan)"
    "claimOutputs ?n bound (named_outputs (plan_groups plan)) [] = Inr claimed"
    "checkCovenantOutpoints (jget plan ''covenantOutpoints'') (map (\<lambda>i. case inputKey (plan_inputs plan ! i) of Some key \<Rightarrow> key | None \<Rightarrow> []) cs) = Inr ()"
    "claimOutputs ?n [] (named_outputs (plan_transitions plan)) [] = Inr continued"
    "list_all (checkTransition (plan_inputs plan) cs) (plan_transitions plan)"
    using assms by (rule accepted_plan)
  have new: "\<exists>new. named_outputs (plan_groups plan) = map (\<lambda>i. JNum (int i)) new \<and> distinct new \<and>
      set new \<subseteq> {j. j < ?n \<and> \<not> is_bound (plan_outputs plan ! j)}"
    using claimed_indices [OF a(5)] a(3) by blast
  have moved: "\<exists>moved. named_outputs (plan_transitions plan) = map (\<lambda>i. JNum (int i)) moved \<and> distinct moved \<and> set moved \<subseteq> {..<?n}"
    using claimed_indices [OF a(7)] by blast
  have bindings: "list_all (\<lambda>out. is_bound out \<longrightarrow> (\<exists>i < length (plan_inputs plan). jget (jget out ''covenant'') ''authorizingInput'' = JNum (int i))) (plan_outputs plan)"
    using a(4) by (rule list.pred_mono_strong) (use planIndex_Some in \<open>fastforce simp: checkBinding_def\<close>)
  have transitions: "list_all (\<lambda>t. \<exists>i < length (plan_inputs plan). jget t ''input'' = JNum (int i) \<and> is_covenant_input (plan_inputs plan ! i) \<and>
      jget (plan_inputs plan ! i) ''covenantId'' = jget t ''covenantId'') (plan_transitions plan)"
    using a(8) by (rule list.pred_mono_strong) (use planIndex_Some a(2) in \<open>fastforce simp: checkTransition_def split: option.splits\<close>)
  show ?thesis using new bindings moved transitions covenant_outpoints_listed [OF a(1) a(6) [unfolded a(2)]] unfolding covenant_keys_def by blast
qed

text \<open>C25: A version 1 plan is refused when one of its fields, at any depth, is named \<open>privateKey\<close>, \<open>private_key\<close>, \<open>secret\<close>,
  \<open>secretKey\<close>, \<open>mnemonic\<close>, \<open>seed\<close>, \<open>xprv\<close>, \<open>signature\<close>, \<open>signatureScript\<close> or \<open>password\<close>, unless the field stands below one named
  \<open>args\<close>, \<open>constructorArgs\<close> or \<open>state\<close>; and the scan refuses nothing else. (The three exempt names are meant for contracts
  and are exempt everywhere: lemma \<open>stray_state_exempt\<close>.)\<close>

theorem v1_plan_no_secrets:
  assumes "jget plan ''txVersion'' = JNum 1"
  shows "(\<forall>k \<in> {''privateKey'', ''private_key'', ''secret'', ''secretKey'', ''mnemonic'', ''seed'', ''xprv'', ''signature'', ''signatureScript'', ''password''}.
      names_field plan k \<longrightarrow> assertV1PlanShape plan = Inl V1_PLAN_INVALID) \<and>
    (scanSecrets plan \<longleftrightarrow> \<not> (\<exists>k \<in> set SECRET_KEYS. names_field plan k))"
proof -
  have "assertV1PlanShape plan = Inl V1_PLAN_INVALID" if "k \<in> set SECRET_KEYS" "names_field plan k" for k
  proof -
    have "\<not> planHead plan" using scanSecrets_sound [OF that(2)] that(1) by (auto simp: planHead_def)
    then show ?thesis using assms by (simp add: assertV1PlanShape_def requireE_def)
  qed
  moreover have "scanSecrets plan \<longleftrightarrow> \<not> (\<exists>k \<in> set SECRET_KEYS. names_field plan k)" using scanSecrets_sound scanSecrets_complete by blast
  ultimately show ?thesis by (simp add: SECRET_KEYS_def)
qed

text \<open>Where the schema of arguments accepts a value, the planner's own check of arguments accepts it too.\<close>

theorem schema_argument_accepted: "conforms dt ZLazyArgument j \<Longrightarrow> checkArg j"
  by (rule schema_argument_passes)

subsection \<open>A plan that is accepted\<close>

definition ex_txid :: "char \<Rightarrow> json" where
  "ex_txid c = JStr (replicate 64 c)"

definition ex_arg :: json where
  "ex_arg = JObj [(''kind'', JStr ''array''), (''value'', JArr [JObj [(''kind'', JStr ''int''), (''value'', JStr ''-7'')]])]"

definition ex_contract :: json where
  "ex_contract = JObj [(''compileRecord'', JObj [(''contentHash'', ex_txid (CHR ''c'')), (''artifactSha256'', ex_txid (CHR ''d''))]),
     (''contract'', JStr ''Counter''), (''constructorArgs'', JArr [ex_arg]), (''entry'', JStr ''bump''), (''policy'', JStr ''auth''),
     (''args'', JArr [JObj [(''kind'', JStr ''signer''), (''signer'', JStr ''alice'')]])]"

definition ex_v1_input :: "char \<Rightarrow> string \<Rightarrow> (string \<times> json) list \<Rightarrow> json" where
  "ex_v1_input c a fs = JObj ([(''outpoint'', JObj [(''transactionId'', ex_txid c), (''index'', JNum 0)]), (''amountSompi'', JStr a),
     (''address'', JStr ''kaspasim:q''), (''scriptPublicKey'', JStr ''000051''), (''computeBudget'', JNum 10)] @ fs)"

definition ex_v1_output :: "string \<Rightarrow> (string \<times> json) list \<Rightarrow> json" where
  "ex_v1_output a fs = JObj ([(''address'', JStr ''kaspasim:q''), (''amountSompi'', JStr a)] @ fs)"

definition ex_v1_plan :: json where
  "ex_v1_plan = JObj [(''txVersion'', JNum 1),
     (''inputs'', JArr [ex_v1_input (CHR ''a'') ''500'' [(''kind'', JStr ''p2pk''), (''signer'', JStr ''alice'')],
        ex_v1_input (CHR ''b'') ''300'' [(''kind'', JStr ''covenant''), (''covenantId'', ex_txid (CHR ''e'')), (''contract'', ex_contract)]]),
     (''outputs'', JArr [ex_v1_output ''300'' [(''covenant'', JObj [(''authorizingInput'', JNum 1), (''covenantId'', ex_txid (CHR ''e''))])],
        ex_v1_output ''200'' [], ex_v1_output ''280'' [(''role'', JStr ''change'')]]),
     (''genesisCovenantGroups'', JArr [JObj [(''authorizingInput'', JNum 0), (''outputs'', JArr [JNum 1])]]),
     (''covenantOutpoints'', JArr [JStr (replicate 64 (CHR ''b'') @ '':0'')]),
     (''nextState'', JArr [JObj [(''covenantId'', ex_txid (CHR ''e'')), (''input'', JNum 1), (''outputs'', JArr [JNum 0]),
        (''states'', JArr [JObj [(''count'', ex_arg)]])]]),
     (''estimatedFeeSompi'', JStr ''20''), (''estimatedMass'', JStr ''2000''), (''storageMass'', JStr ''0''), (''maxFeeSompi'', JStr ''50'')]"

lemma ex_v1_accepted: "assertV1PlanShape ex_v1_plan = Inr 20" "jget ex_v1_plan ''txVersion'' = JNum 1"
  by (code_simp, simp add: ex_v1_plan_def jget_def)

theorem v1_plan_accounts_witness:
  "sum_list (map amount_in (plan_inputs ex_v1_plan)) = sum_list (map amount_in (plan_outputs ex_v1_plan)) + 20 \<and>
   distinct (map inputKey (plan_inputs ex_v1_plan))"
  using v1_plan_accounts [OF ex_v1_accepted] by blast

theorem v1_plan_covenants_separate_witness:
  "list_all (\<lambda>t. \<exists>i < length (plan_inputs ex_v1_plan). jget t ''input'' = JNum (int i) \<and> is_covenant_input (plan_inputs ex_v1_plan ! i) \<and>
     jget (plan_inputs ex_v1_plan ! i) ''covenantId'' = jget t ''covenantId'') (plan_transitions ex_v1_plan) \<and>
   mset (map (\<lambda>v. Some (template_text v)) (itemsOf (jget ex_v1_plan ''covenantOutpoints''))) = mset (covenant_keys ex_v1_plan)"
  using v1_plan_covenants_separate [OF ex_v1_accepted] by blast

definition ex_leaky_plan :: json where
  "ex_leaky_plan = jset ''note'' (JObj [(''keys'', JArr [JNull, JObj [(''seed'', JStr ''s'')]])]) ex_v1_plan"

lemma ex_leaky: "jget ex_leaky_plan ''txVersion'' = JNum 1" "names_field ex_leaky_plan ''seed''"
proof -
  show "jget ex_leaky_plan ''txVersion'' = JNum 1" by code_simp
  obtain es where es: "ex_leaky_plan = JObj es" "(''note'', JObj [(''keys'', JArr [JNull, JObj [(''seed'', JStr ''s'')]])]) \<in> set es"
    by (simp add: ex_leaky_plan_def ex_v1_plan_def jset_def)
  have "names_field (JObj [(''seed'', JStr ''s'')]) ''seed''" by (rule names_field.field [of _ "JStr ''s''"]) simp
  then have "names_field (JArr [JNull, JObj [(''seed'', JStr ''s'')]]) ''seed''" by (rule names_field.item [rotated]) simp
  then have "names_field (JObj [(''keys'', JArr [JNull, JObj [(''seed'', JStr ''s'')]])]) ''seed''"
    by (intro names_field.nested [of "''keys''" "JArr [JNull, JObj [(''seed'', JStr ''s'')]]"]) (simp_all add: ARG_CONTAINERS_def)
  then show "names_field ex_leaky_plan ''seed''" unfolding es(1) by (intro names_field.nested [OF es(2)]) (simp add: ARG_CONTAINERS_def)
qed

theorem v1_plan_no_secrets_witness: "assertV1PlanShape ex_leaky_plan = Inl V1_PLAN_INVALID"
proof -
  note refused = v1_plan_no_secrets [OF ex_leaky(1), THEN conjunct1]
  show ?thesis by (rule bspec [OF refused, rule_format, OF _ ex_leaky(2)]) simp
qed

text \<open>A field the checks do not read has no part in them.\<close>

lemma stray_field_ignored:
  assumes "\<And>k. k \<noteq> ''state'' \<Longrightarrow> jget p k = jget q k" "planHead p = planHead q"
  shows "assertV1PlanShape p = assertV1PlanShape q"
proof -
  have f: "jget p ''txVersion'' = jget q ''txVersion''" "jget p ''inputs'' = jget q ''inputs''" "jget p ''outputs'' = jget q ''outputs''"
    "jget p ''genesisCovenantGroups'' = jget q ''genesisCovenantGroups''" "jget p ''covenantOutpoints'' = jget q ''covenantOutpoints''"
    "jget p ''nextState'' = jget q ''nextState''" "jget p ''payload'' = jget q ''payload''" "jget p ''estimatedFeeSompi'' = jget q ''estimatedFeeSompi''"
    "jget p ''estimatedMass'' = jget q ''estimatedMass''" "jget p ''storageMass'' = jget q ''storageMass''" "jget p ''maxFeeSompi'' = jget q ''maxFeeSompi''"
    by (simp_all add: assms(1))
  have "assertV0Plan p = assertV0Plan q" unfolding assertV0Plan_def f by (simp add: f)
  then show ?thesis unfolding assertV1PlanShape_def settlePlanFee_def f assms(2) by simp
qed

text \<open>The exemption of \<open>state\<close> holds at the top level of a plan too, where no contract is: a private key is accepted there.\<close>

lemma stray_state_exempt: "assertV1PlanShape (jset ''state'' (JObj [(''privateKey'', JStr ''k'')]) ex_v1_plan) = Inr 20"
proof -
  let ?p = "jset ''state'' (JObj [(''privateKey'', JStr ''k'')]) ex_v1_plan"
  have other: "jget ?p k = jget ex_v1_plan k" if "k \<noteq> ''state''" for k using that by (simp add: ex_v1_plan_def jset_def jget_def)
  have "planHead ex_v1_plan" using ex_v1_accepted by (rule accepted_plan)
  moreover have "scanSecrets ?p" by code_simp
  ultimately have "planHead ?p = planHead ex_v1_plan" by (simp add: planHead_def other)
  then have "assertV1PlanShape ?p = assertV1PlanShape ex_v1_plan" using other by (intro stray_field_ignored)
  then show ?thesis using ex_v1_accepted(1) by simp
qed

text \<open>An output that a genesis group takes may also be taken as the next state of an existing covenant.\<close>

lemma group_output_continued:
  "checkGroups 2 3 [0] [JObj [(''authorizingInput'', JNum 0), (''outputs'', JArr [JNum 1])]] [] = Inr [1]"
  "checkNextStates (plan_inputs ex_v1_plan) 3 [1] [JObj [(''covenantId'', ex_txid (CHR ''e'')), (''input'', JNum 1), (''outputs'', JArr [JNum 1]),
     (''states'', JArr [JObj [(''count'', ex_arg)]])]] [] = Inr [1]"
  by code_simp+

lemma ex_arg_conforms: "conforms (\<lambda>s. True) ZLazyArgument ex_arg"
  by code_simp

theorem schema_argument_accepted_witness: "checkArg ex_arg"
  by (rule schema_argument_accepted [OF ex_arg_conforms])

end
