(* ===== verification/HK_Coins.thy ===== *)
theory HK_Coins
  imports HK_Submission HK_Payment
begin

text \<open>
  The coins a payment may spend: the covenant ids of \<open>packages/tx-builder/src/covenant-utxos.ts\<close>, the pending
  spends of \<open>pending-spends.ts\<close>, the maturity filter of \<open>kaspa-wallet-adapter.ts\<close>, the conversions of
  \<open>utxo-mapper.ts\<close> and the fee inputs of a version 1 transaction, \<open>v1-fee-inputs.ts\<close>.

  What a node or the SDK answers is a parameter: the mempool response is a JSON value, the coinbase maturity of
  a network a number. A \<open>Set\<close> of texts is the list of its elements in insertion order.
\<close>

subsection \<open>Covenant ids\<close>

definition isObjectValue :: "json \<Rightarrow> bool" where
  "isObjectValue v = (case v of
       JArr xs \<Rightarrow> True | JObj es \<Rightarrow> True | JMap \<Rightarrow> True | JSet \<Rightarrow> True | JDate \<Rightarrow> True | JNonPlain \<Rightarrow> True | _ \<Rightarrow> False)"

definition idOf :: "json \<Rightarrow> string option" where
  "idOf v =
     (if v = JUndefined \<or> v = JNull then None
      else let txt = template_text v in if js_trim txt = [] then None else Some txt)"

fun firstSome :: "('a \<Rightarrow> 'b option) \<Rightarrow> 'a list \<Rightarrow> 'b option" where
  "firstSome f [] = None"
| "firstSome f (x # xs) = (case f x of Some y \<Rightarrow> Some y | None \<Rightarrow> firstSome f xs)"

definition covenantIdOf :: "json \<Rightarrow> string option" where
  "covenantIdOf u =
     (if \<not> isObjectValue u then None
      else firstSome (\<lambda>holder.
        if \<not> isObjectValue holder then None
        else firstSome (\<lambda>n. idOf (jget holder n)) [''covenantId'', ''covenant_id''])
        [u, jget u ''utxoEntry'', jget u ''entry''])"

definition isCovenantUtxo :: "json \<Rightarrow> bool" where
  "isCovenantUtxo u \<longleftrightarrow> covenantIdOf u \<noteq> None"

definition partitionCovenantUtxos :: "json list \<Rightarrow> json list \<times> json list" where
  "partitionCovenantUtxos utxos = foldl (\<lambda>(spendable, covenant) u.
     if isCovenantUtxo u then (spendable, covenant @ [u]) else (spendable @ [u], covenant)) ([], []) utxos"

text \<open>The same function on HardKAS's own records, which have the field \<open>covenantId\<close> and no other holder of an id.\<close>

definition idOfText :: "string option \<Rightarrow> string option" where
  "idOfText v = idOf (case v of None \<Rightarrow> JUndefined | Some s \<Rightarrow> JStr s)"

subsection \<open>Pending spends\<close>

definition outpointKeyOf :: "json \<Rightarrow> string option" where
  "outpointKeyOf prev =
     (if \<not> isObjectValue prev then None
      else
        (let txId = jnn (jget prev ''transactionId'') (jget prev ''txId''); index = jnn (jget prev ''index'') (jget prev ''outputIndex'') in
         if \<not> isString txId \<or> index = JUndefined \<or> index = JNull then None
         else Some (text_of txId @ '':'' @ numberText index)))"

definition addOnce :: "'a \<Rightarrow> 'a list \<Rightarrow> 'a list" where
  "addOnce x xs = (if x \<in> set xs then xs else xs @ [x])"

definition mempoolEntries :: "json \<Rightarrow> json list" where
  "mempoolEntries r =
     (if isArray (jget r ''entries'') then itemsOf (jget r ''entries'')
      else if isArray (jget (jget r ''getMempoolEntriesByAddressesResponse'') ''entries'')
        then itemsOf (jget (jget r ''getMempoolEntriesByAddressesResponse'') ''entries'')
      else itemsOf r)"

definition spendInputs :: "json \<Rightarrow> json list" where
  "spendInputs s =
     (if isArray (jget (jget s ''transaction'') ''inputs'') then itemsOf (jget (jget s ''transaction'') ''inputs'')
      else itemsOf (jget s ''inputs''))"

definition addSpend :: "string list \<Rightarrow> json \<Rightarrow> string list" where
  "addSpend outpoints input =
     (case outpointKeyOf (jnn (jget input ''previousOutpoint'') (jget input ''previous_outpoint'')) of
        Some key \<Rightarrow> addOnce key outpoints
      | None \<Rightarrow> outpoints)"

definition derivePendingSpentOutpoints :: "json \<Rightarrow> string \<Rightarrow> string list \<times> nat" where
  "derivePendingSpentOutpoints response address =
     foldl (\<lambda>acc entry.
       if jget entry ''address'' \<noteq> JStr address then acc
       else foldl (\<lambda>(outpoints, sendingEntries) s. (foldl addSpend outpoints (spendInputs s), sendingEntries + 1))
              acc (itemsOf (jget entry ''sending'')))
       ([], 0) (mempoolEntries response)"

record PendingSpendEvidence =
  pe_address :: string
  pe_observedAtDaaScore :: "string option"
  pe_sendingEntries :: nat
  pe_excludedOutpoints :: "string list"

text \<open>The client's \<open>getMempoolEntriesByAddresses\<close>: \<^const>\<open>None\<close> where it has none, otherwise the answer or its failure.\<close>

definition observePendingSpends ::
    "(string \<Rightarrow> json result) option \<Rightarrow> string \<Rightarrow> int option \<Rightarrow> (PendingSpendEvidence \<times> string list) result" where
  "observePendingSpends rpc address observedAtDaaScore =
     (case rpc of
        None \<Rightarrow> Inl ''PENDING_SPEND_EVIDENCE_UNAVAILABLE''
      | Some ask \<Rightarrow>
          (case ask address of
             Inl e \<Rightarrow> Inl ''PENDING_SPEND_EVIDENCE_UNAVAILABLE''
           | Inr response \<Rightarrow>
               (let (outpoints, sendingEntries) = derivePendingSpentOutpoints response address in
                Inr (\<lparr>pe_address = address, pe_observedAtDaaScore = map_option int_str observedAtDaaScore,
                      pe_sendingEntries = sendingEntries, pe_excludedOutpoints = js_sort deterministicCompare outpoints\<rparr>, outpoints))))"

subsection \<open>Maturity\<close>

definition filterMatureUtxos :: "int \<Rightarrow> int \<Rightarrow> ('a \<Rightarrow> int \<times> bool) \<Rightarrow> 'a list \<Rightarrow> 'a list \<times> 'a list" where
  "filterMatureUtxos maturity virtualDaaScore readEntry utxos =
     foldl (\<lambda>(mature, immature) u.
       let (blockDaaScore, isCoinbase) = readEntry u in
       if \<not> isCoinbase \<or> virtualDaaScore - blockDaaScore \<ge> maturity then (mature @ [u], immature) else (mature, immature @ [u]))
       ([], []) utxos"

subsection \<open>Fee inputs of a version 1 transaction\<close>

record V1FeeCoin =
  fc_transactionId :: string
  fc_index :: int
  fc_amountSompi :: int
  fc_scriptPublicKey :: string
  fc_blockDaaScore :: "int option"
  fc_isCoinbase :: "bool option"
  fc_covenantId :: "string option"

datatype Exclusion = CovenantCoin | ImmatureCoin | PendingCoin

record V1FeeSelection =
  fs_selected :: "V1FeeCoin list"
  fs_totalSompi :: int
  fs_excluded :: "(string \<times> Exclusion) list"

definition keyOf :: "V1FeeCoin \<Rightarrow> string" where
  "keyOf c = map to_lower (fc_transactionId c) @ '':'' @ int_str (fc_index c)"

text \<open>The callback of \<open>filter\<close>: why a coin is left out before maturity is looked at.\<close>

definition exclusionOf :: "string list \<Rightarrow> V1FeeCoin \<Rightarrow> Exclusion option" where
  "exclusionOf pendingOutpoints c =
     (if idOfText (fc_covenantId c) \<noteq> None then Some CovenantCoin
      else if keyOf c \<in> set pendingOutpoints then Some PendingCoin
      else None)"

fun freeCoins :: "string list \<Rightarrow> V1FeeCoin list \<Rightarrow> V1FeeCoin list \<times> (string \<times> Exclusion) list" where
  "freeCoins pending [] = ([], [])"
| "freeCoins pending (c # cs) =
     (let (free, excluded) = freeCoins pending cs in
      case exclusionOf pending c of
        Some reason \<Rightarrow> (free, (keyOf c, reason) # excluded)
      | None \<Rightarrow> (c # free, excluded))"

definition coinMaturity :: "V1FeeCoin \<Rightarrow> int \<times> bool" where
  "coinMaturity c = ((case fc_blockDaaScore c of Some d \<Rightarrow> d | None \<Rightarrow> 0), fc_isCoinbase c = Some True)"

definition compareCoins :: "V1FeeCoin \<Rightarrow> V1FeeCoin \<Rightarrow> int" where
  "compareCoins a b =
     (if fc_amountSompi a \<noteq> fc_amountSompi b then (if fc_amountSompi a > fc_amountSompi b then -1 else 1)
      else if keyOf a < keyOf b then -1
      else if keyOf a > keyOf b then 1
      else 0)"

fun takeCoins :: "int \<Rightarrow> V1FeeCoin list \<Rightarrow> int \<Rightarrow> V1FeeCoin list \<times> int" where
  "takeCoins target [] t = ([], t)"
| "takeCoins target (c # cs) t =
     (if t \<ge> target then ([], t)
      else let (selected, t') = takeCoins target cs (t + fc_amountSompi c) in (c # selected, t'))"

definition compareExcluded :: "string \<times> Exclusion \<Rightarrow> string \<times> Exclusion \<Rightarrow> int" where
  "compareExcluded a b = (if fst a < fst b then -1 else if fst a > fst b then 1 else 0)"

definition selectV1FeeInputs :: "int \<Rightarrow> int \<Rightarrow> V1FeeCoin list \<Rightarrow> string list \<Rightarrow> int \<Rightarrow> V1FeeSelection result" where
  "selectV1FeeInputs maturity virtualDaaScore coins pendingOutpoints targetSompi =
     (let (free, excluded) = freeCoins pendingOutpoints coins;
          (mature, immature) = filterMatureUtxos maturity virtualDaaScore coinMaturity free;
          excluded = excluded @ map (\<lambda>c. (keyOf c, ImmatureCoin)) immature;
          (selected, totalSompi) = takeCoins targetSompi (js_sort compareCoins mature) 0
      in if totalSompi < targetSompi then Inl ''V1_FEE_INPUTS_INSUFFICIENT''
         else Inr \<lparr>fs_selected = selected, fs_totalSompi = totalSompi, fs_excluded = js_sort compareExcluded excluded\<rparr>)"

subsection \<open>Flat and hierarchical UTXOs\<close>

record FlatUtxo =
  fu_transactionId :: string
  fu_outputIndex :: "int option"
  fu_amountSompi :: int
  fu_scriptPublicKey :: string
  fu_address :: "string option"
  fu_covenantId :: "string option"

definition nonEmpty :: "string option \<Rightarrow> string option" where
  "nonEmpty s = (case s of Some t \<Rightarrow> if t = [] then None else Some t | None \<Rightarrow> None)"

definition toTxBuilderUtxo :: "FlatUtxo \<Rightarrow> string option \<Rightarrow> Utxo" where
  "toTxBuilderUtxo u addressOverride =
     \<lparr>ux_outpoint = \<lparr>op_transactionId = fu_transactionId u, op_index = fu_outputIndex u\<rparr>,
      ux_address = (case nonEmpty addressOverride of Some a \<Rightarrow> a | None \<Rightarrow> js_or (fu_address u) []),
      ux_amountSompi = fu_amountSompi u, ux_scriptPublicKey = fu_scriptPublicKey u, ux_blockDaaScore = None, ux_isCoinbase = None,
      ux_covenantId = nonEmpty (fu_covenantId u), ux_lane = None\<rparr>"

definition toWalletQueryUtxo :: "Utxo \<Rightarrow> FlatUtxo" where
  "toWalletQueryUtxo u =
     \<lparr>fu_transactionId = op_transactionId (ux_outpoint u), fu_outputIndex = op_index (ux_outpoint u), fu_amountSompi = ux_amountSompi u,
      fu_scriptPublicKey = ux_scriptPublicKey u, fu_address = Some (ux_address u), fu_covenantId = nonEmpty (ux_covenantId u)\<rparr>"

end
