(* ===== verification/HK_CoinsProps.thy ===== *)
theory HK_CoinsProps
  imports HK_Coins
begin

text \<open>
  The fee inputs of a version 1 transaction cover their target with spendable coins only, largest first and none
  too many; the choice does not depend on the order the node listed the coins in; and a coin that the node's
  mempool shows as being spent is never chosen.
\<close>

subsection \<open>The order of coins\<close>

interpretation coin_order: keyed_comparator compareCoins "\<lambda>c. (- fc_amountSompi c, keyOf c)"
  by unfold_locales (auto simp: compareCoins_def less_prod_def' not_less)

interpretation excluded_order: keyed_comparator compareExcluded fst
  by unfold_locales (auto simp: compareExcluded_def)

subsection \<open>The filters\<close>

lemma freeCoins_filter:
  "freeCoins pending cs = (filter (\<lambda>c. exclusionOf pending c = None) cs,
     map (\<lambda>c. (keyOf c, the (exclusionOf pending c))) (filter (\<lambda>c. exclusionOf pending c \<noteq> None) cs))"
  by (induction cs) (auto split: option.splits)

definition is_mature :: "int \<Rightarrow> int \<Rightarrow> V1FeeCoin \<Rightarrow> bool" where
  "is_mature maturity daa c \<longleftrightarrow> \<not> snd (coinMaturity c) \<or> daa - fst (coinMaturity c) \<ge> maturity"

lemma filterMature_acc:
  "foldl (\<lambda>(m, i) u. let (b, cb) = r u in if \<not> cb \<or> daa - b \<ge> maturity then (m @ [u], i) else (m, i @ [u])) (ms, is) us =
     (ms @ filter (\<lambda>u. \<not> snd (r u) \<or> daa - fst (r u) \<ge> maturity) us, is @ filter (\<lambda>u. \<not> (\<not> snd (r u) \<or> daa - fst (r u) \<ge> maturity)) us)"
  by (induction us arbitrary: ms "is") (auto simp: Let_def split: prod.splits)

lemma filterMature_coins:
  "filterMatureUtxos maturity daa coinMaturity cs = (filter (is_mature maturity daa) cs, filter (\<lambda>c. \<not> is_mature maturity daa c) cs)"
  unfolding filterMatureUtxos_def filterMature_acc is_mature_def by simp

definition spendable :: "int \<Rightarrow> int \<Rightarrow> string list \<Rightarrow> V1FeeCoin \<Rightarrow> bool" where
  "spendable maturity daa pending c \<longleftrightarrow> exclusionOf pending c = None \<and> is_mature maturity daa c"

definition reason :: "int \<Rightarrow> int \<Rightarrow> string list \<Rightarrow> V1FeeCoin \<Rightarrow> Exclusion" where
  "reason maturity daa pending c = (case exclusionOf pending c of Some r \<Rightarrow> r | None \<Rightarrow> ImmatureCoin)"

subsection \<open>The greedy choice\<close>

lemma takeCoins_prefix:
  assumes "takeCoins target cs t = (sel, t')"
  shows "\<exists>rest. cs = sel @ rest \<and> t' = t + sum_list (map fc_amountSompi sel) \<and> (t' < target \<longrightarrow> rest = []) \<and>
    (\<forall>k < length sel. t + sum_list (map fc_amountSompi (take k sel)) < target)"
  using assms
proof (induction cs arbitrary: t sel)
  case Nil
  then show ?case by simp
next
  case (Cons c cs)
  show ?case
  proof (cases "t \<ge> target")
    case True
    then show ?thesis using Cons.prems by simp
  next
    case False
    then obtain sel' where sel: "sel = c # sel'" "takeCoins target cs (t + fc_amountSompi c) = (sel', t')"
      using Cons.prems by (auto simp: Let_def split: prod.splits)
    obtain rest where r: "cs = sel' @ rest" "t' = t + fc_amountSompi c + sum_list (map fc_amountSompi sel')" "t' < target \<longrightarrow> rest = []"
      "\<forall>k < length sel'. t + fc_amountSompi c + sum_list (map fc_amountSompi (take k sel')) < target"
      using Cons.IH [OF sel(2)] by blast
    have "t + sum_list (map fc_amountSompi (take k sel)) < target" if "k < length sel" for k
      using r(4) sel(1) False that by (cases k) (auto simp: add.assoc)
    with r sel(1) show ?thesis by (intro exI [of _ rest]) auto
  qed
qed

text \<open>The selection in one equation: the candidates in order, cut where they cover the target.\<close>

lemma selectV1FeeInputs_eq:
  "selectV1FeeInputs maturity daa coins pending target =
     (let (sel, n) = takeCoins target (js_sort compareCoins (filter (spendable maturity daa pending) coins)) 0 in
      if n < target then Inl ''V1_FEE_INPUTS_INSUFFICIENT''
      else Inr \<lparr>fs_selected = sel, fs_totalSompi = n, fs_excluded = js_sort compareExcluded
         (map (\<lambda>c. (keyOf c, reason maturity daa pending c)) (filter (\<lambda>c. exclusionOf pending c \<noteq> None) coins) @
          map (\<lambda>c. (keyOf c, reason maturity daa pending c)) (filter (\<lambda>c. exclusionOf pending c = None \<and> \<not> is_mature maturity daa c) coins))\<rparr>)"
proof -
  have f: "filter (is_mature maturity daa) (filter (\<lambda>c. exclusionOf pending c = None) coins) = filter (spendable maturity daa pending) coins"
    unfolding filter_filter by (rule filter_cong) (auto simp: spendable_def)
  have e: "map (\<lambda>c. (keyOf c, the (exclusionOf pending c))) (filter (\<lambda>c. exclusionOf pending c \<noteq> None) coins) =
      map (\<lambda>c. (keyOf c, reason maturity daa pending c)) (filter (\<lambda>c. exclusionOf pending c \<noteq> None) coins)"
    by (auto simp: reason_def)
  have i: "map (\<lambda>c. (keyOf c, ImmatureCoin)) (filter (\<lambda>c. \<not> is_mature maturity daa c) (filter (\<lambda>c. exclusionOf pending c = None) coins)) =
      map (\<lambda>c. (keyOf c, reason maturity daa pending c)) (filter (\<lambda>c. exclusionOf pending c = None \<and> \<not> is_mature maturity daa c) coins)"
    by (auto simp: reason_def conj_commute)
  show ?thesis unfolding selectV1FeeInputs_def freeCoins_filter filterMature_coins Let_def prod.case f e i by simp
qed

lemma sorted_prefix: "sorted_wrt P (xs @ ys) \<Longrightarrow> x \<in> set xs \<Longrightarrow> y \<in> set ys \<Longrightarrow> P x y"
  by (simp add: sorted_wrt_append)

lemma selection_core:
  assumes "selectV1FeeInputs maturity daa coins pending target = Inr s"
  shows "fs_totalSompi s = sum_list (map fc_amountSompi (fs_selected s))" "target \<le> fs_totalSompi s"
    "mset (fs_selected s) \<subseteq># mset (filter (spendable maturity daa pending) coins)"
    "\<forall>k < length (fs_selected s). sum_list (map fc_amountSompi (take k (fs_selected s))) < target"
    "\<forall>c d. c \<in> set (fs_selected s) \<longrightarrow> d \<in># mset (filter (spendable maturity daa pending) coins) - mset (fs_selected s) \<longrightarrow> fc_amountSompi d \<le> fc_amountSompi c"
proof -
  let ?cs = "js_sort compareCoins (filter (spendable maturity daa pending) coins)"
  obtain sel n where t: "takeCoins target ?cs 0 = (sel, n)" by (cases "takeCoins target ?cs 0")
  then have n: "\<not> n < target" and s: "fs_selected s = sel" "fs_totalSompi s = n"
    using assms unfolding selectV1FeeInputs_eq by (auto simp: Let_def split: if_splits)
  obtain rest where r: "?cs = sel @ rest" "n = sum_list (map fc_amountSompi sel)"
    "\<forall>k < length sel. sum_list (map fc_amountSompi (take k sel)) < target"
    using takeCoins_prefix [OF t] by auto
  have ms: "mset (filter (spendable maturity daa pending) coins) = mset sel + mset rest"
    using arg_cong [OF r(1), of mset] by simp
  show "fs_totalSompi s = sum_list (map fc_amountSompi (fs_selected s))" "target \<le> fs_totalSompi s" using s r n by simp_all
  show "mset (fs_selected s) \<subseteq># mset (filter (spendable maturity daa pending) coins)" unfolding ms s by simp
  show "\<forall>k < length (fs_selected s). sum_list (map fc_amountSompi (take k (fs_selected s))) < target" using r s by simp
  have ord: "sorted_wrt (\<lambda>x y. compareCoins x y \<le> 0) (sel @ rest)" using coin_order.js_sort_sorted r(1) by metis
  show "\<forall>c d. c \<in> set (fs_selected s) \<longrightarrow> d \<in># mset (filter (spendable maturity daa pending) coins) - mset (fs_selected s) \<longrightarrow> fc_amountSompi d \<le> fc_amountSompi c"
    unfolding ms s using sorted_prefix [OF ord] by (fastforce simp: coin_order.cmp_le_key less_eq_prod_def)
qed

lemma selection_refused:
  assumes "selectV1FeeInputs maturity daa coins pending target = Inl e"
  shows "e = ''V1_FEE_INPUTS_INSUFFICIENT'' \<and> sum_list (map fc_amountSompi (filter (spendable maturity daa pending) coins)) < target"
proof -
  let ?cs = "js_sort compareCoins (filter (spendable maturity daa pending) coins)"
  obtain sel n where t: "takeCoins target ?cs 0 = (sel, n)" by (cases "takeCoins target ?cs 0")
  then have n: "n < target" and e: "e = ''V1_FEE_INPUTS_INSUFFICIENT''"
    using assms unfolding selectV1FeeInputs_eq by (auto simp: Let_def split: if_splits)
  have "?cs = sel" "n = sum_list (map fc_amountSompi sel)" using takeCoins_prefix [OF t] n by auto
  then have "sum_mset (mset (map fc_amountSompi (filter (spendable maturity daa pending) coins))) = n"
    by (metis mset_js_sort mset_map sum_mset_sum_list)
  with n e show ?thesis by (simp only: sum_mset_sum_list)
qed

lemma selection_of_same_coins:
  assumes "mset coins = mset coins'" "inj_on keyOf (set coins)"
  shows "selectV1FeeInputs maturity daa coins pending target = selectV1FeeInputs maturity daa coins' pending target"
proof -
  let ?ex = "\<lambda>cs. map (\<lambda>c. (keyOf c, reason maturity daa pending c)) (filter (\<lambda>c. exclusionOf pending c \<noteq> None) cs) @
    map (\<lambda>c. (keyOf c, reason maturity daa pending c)) (filter (\<lambda>c. exclusionOf pending c = None \<and> \<not> is_mature maturity daa c) cs)"
  have sorted: "js_sort compareCoins (filter (spendable maturity daa pending) coins) = js_sort compareCoins (filter (spendable maturity daa pending) coins')"
  proof (rule coin_order.js_sort_perm)
    show "mset (filter (spendable maturity daa pending) coins) = mset (filter (spendable maturity daa pending) coins')" using assms(1) by simp
    show "\<forall>x \<in> set (filter (spendable maturity daa pending) coins). \<forall>y \<in> set (filter (spendable maturity daa pending) coins). compareCoins x y = 0 \<longrightarrow> x = y"
      using assms(2) by (auto simp: coin_order.cmp_eq_key inj_on_def)
  qed
  have excluded: "js_sort compareExcluded (?ex coins) = js_sort compareExcluded (?ex coins')"
  proof (rule excluded_order.js_sort_perm)
    show "mset (?ex coins) = mset (?ex coins')" using assms(1) by simp
    show "\<forall>x \<in> set (?ex coins). \<forall>y \<in> set (?ex coins). compareExcluded x y = 0 \<longrightarrow> x = y"
    proof (intro ballI impI)
      fix x y assume xy: "x \<in> set (?ex coins)" "y \<in> set (?ex coins)" and eq: "compareExcluded x y = 0"
      have sub: "set (?ex coins) \<subseteq> (\<lambda>c. (keyOf c, reason maturity daa pending c)) ` set coins" by auto
      obtain c d where cd: "c \<in> set coins" "x = (keyOf c, reason maturity daa pending c)" "d \<in> set coins" "y = (keyOf d, reason maturity daa pending d)"
        using subsetD [OF sub xy(1)] subsetD [OF sub xy(2)] by blast
      have "keyOf c = keyOf d" using eq cd by (simp add: excluded_order.cmp_eq_key)
      then have "c = d" using assms(2) cd(1,3) by (simp add: inj_on_eq_iff)
      then show "x = y" using cd by simp
    qed
  qed
  show ?thesis unfolding selectV1FeeInputs_eq sorted excluded ..
qed

subsection \<open>Pending spends\<close>

lemma set_addOnce [simp]: "set (addOnce x xs) = insert x (set xs)" "distinct (addOnce x xs) = distinct xs"
  by (auto simp: addOnce_def)

definition spent_key :: "json \<Rightarrow> string option" where
  "spent_key input = outpointKeyOf (jnn (jget input ''previousOutpoint'') (jget input ''previous_outpoint''))"

definition sending_of :: "json \<Rightarrow> string \<Rightarrow> json list" where
  "sending_of response address = concat (map (\<lambda>e. itemsOf (jget e ''sending'')) (filter (\<lambda>e. jget e ''address'' = JStr address) (mempoolEntries response)))"

definition spent_keys :: "json list \<Rightarrow> string set" where
  "spent_keys ss = {k. \<exists>s \<in> set ss. Some k \<in> spent_key ` set (spendInputs s)}"

lemma spent_keys_simps [simp]: "spent_keys [] = {}" "spent_keys (xs @ ys) = spent_keys xs \<union> spent_keys ys"
  "spent_keys (s # ss) = {k. Some k \<in> spent_key ` set (spendInputs s)} \<union> spent_keys ss"
  by (auto simp: spent_keys_def)

lemma addSpend_all: "set (foldl addSpend outs inputs) = set outs \<union> {k. Some k \<in> spent_key ` set inputs}"
proof (induction inputs arbitrary: outs)
  case Nil
  then show ?case by simp
next
  case (Cons i inputs)
  then show ?case by (auto simp: addSpend_def spent_key_def [symmetric] split: option.splits)
qed

lemma sendings_all:
  "foldl (\<lambda>(outs, n) s. (foldl addSpend outs (spendInputs s), n + 1)) (outs, n) ss = (outs', n') \<Longrightarrow>
   set outs' = set outs \<union> spent_keys ss \<and> n' = n + length ss"
proof (induction ss arbitrary: outs n)
  case Nil
  then show ?case by simp
next
  case (Cons s ss)
  then have "foldl (\<lambda>(outs, n) s. (foldl addSpend outs (spendInputs s), n + 1)) (foldl addSpend outs (spendInputs s), n + 1) ss = (outs', n')" by simp
  from Cons.IH [OF this] show ?case by (auto simp: addSpend_all)
qed

lemma pending_core:
  assumes "derivePendingSpentOutpoints response address = (outs, n)"
  shows "set outs = spent_keys (sending_of response address) \<and> n = length (sending_of response address)"
proof -
  let ?step = "\<lambda>acc entry. if jget entry ''address'' \<noteq> JStr address then acc
       else foldl (\<lambda>(outs, n) s. (foldl addSpend outs (spendInputs s), n + 1)) acc (itemsOf (jget entry ''sending''))"
  have "foldl ?step (o0, n0) es = (outs, n) \<Longrightarrow>
    set outs = set o0 \<union> spent_keys (concat (map (\<lambda>e. itemsOf (jget e ''sending'')) (filter (\<lambda>e. jget e ''address'' = JStr address) es))) \<and>
    n = n0 + length (concat (map (\<lambda>e. itemsOf (jget e ''sending'')) (filter (\<lambda>e. jget e ''address'' = JStr address) es)))" for o0 n0 es
  proof (induction es arbitrary: o0 n0)
    case Nil
    then show ?case by simp
  next
    case (Cons e es)
    show ?case
    proof (cases "jget e ''address'' = JStr address")
      case True
      obtain o1 n1 where s: "foldl (\<lambda>(outs, n) s. (foldl addSpend outs (spendInputs s), n + 1)) (o0, n0) (itemsOf (jget e ''sending'')) = (o1, n1)"
        by (metis surj_pair)
      then have "foldl ?step (o1, n1) es = (outs, n)" using Cons.prems True by simp
      from Cons.IH [OF this] sendings_all [OF s] True show ?thesis by auto
    next
      case False
      then show ?thesis using Cons by simp
    qed
  qed
  from this [of "[]" 0 "mempoolEntries response"] assms show ?thesis unfolding derivePendingSpentOutpoints_def sending_of_def by simp
qed

subsection \<open>The properties of the selection\<close>

text \<open>C23: The fee inputs of a version 1 transaction cover the target with coins that carry no covenant id, are mature and
  are not pending; no coin left out is larger than one taken; without the last coin taken the target is not
  covered; and the selection is refused only when all spendable coins together do not reach the target.\<close>

theorem fee_inputs_cover:
  "case selectV1FeeInputs maturity daa coins pending target of
     Inr s \<Rightarrow> target \<le> fs_totalSompi s \<and> fs_totalSompi s = sum_list (map fc_amountSompi (fs_selected s)) \<and>
       mset (fs_selected s) \<subseteq># mset (filter (spendable maturity daa pending) coins) \<and>
       (\<forall>k < length (fs_selected s). sum_list (map fc_amountSompi (take k (fs_selected s))) < target) \<and>
       (\<forall>c d. c \<in> set (fs_selected s) \<longrightarrow> d \<in># mset (filter (spendable maturity daa pending) coins) - mset (fs_selected s) \<longrightarrow> fc_amountSompi d \<le> fc_amountSompi c)
   | Inl e \<Rightarrow> e = ''V1_FEE_INPUTS_INSUFFICIENT'' \<and> sum_list (map fc_amountSompi (filter (spendable maturity daa pending) coins)) < target"
proof (cases "selectV1FeeInputs maturity daa coins pending target")
  case (Inl e)
  then show ?thesis using selection_refused by auto
next
  case (Inr s)
  show ?thesis unfolding Inr sum.case by (intro conjI) (rule selection_core [OF Inr])+
qed

text \<open>The same coins give the same selection, whatever order the node listed them in.\<close>

theorem fee_inputs_order_free:
  assumes "mset coins = mset coins'" "inj_on keyOf (set coins)"
  shows "selectV1FeeInputs maturity daa coins pending target = selectV1FeeInputs maturity daa coins' pending target"
  by (rule selection_of_same_coins [OF assms])

text \<open>An input of a mempool transaction that spends the output \<open>index\<close> of the transaction \<open>txid\<close>.\<close>

definition spends :: "json \<Rightarrow> string \<Rightarrow> int \<Rightarrow> bool" where
  "spends input txid index \<longleftrightarrow>
     (\<exists>prev. jnn (jget input ''previousOutpoint'') (jget input ''previous_outpoint'') = prev \<and>
        jget prev ''transactionId'' = JStr txid \<and> jget prev ''index'' = JNum index)"

lemma spends_key: "spends input txid i \<Longrightarrow> spent_key input = Some (txid @ '':'' @ int_str i)"
proof -
  assume "spends input txid i"
  then have p: "jget (jnn (jget input ''previousOutpoint'') (jget input ''previous_outpoint'')) ''transactionId'' = JStr txid"
    "jget (jnn (jget input ''previousOutpoint'') (jget input ''previous_outpoint'')) ''index'' = JNum i" by (auto simp: spends_def)
  then have "isObjectValue (jnn (jget input ''previousOutpoint'') (jget input ''previous_outpoint''))"
    by (cases "jnn (jget input ''previousOutpoint'') (jget input ''previous_outpoint'')") (simp_all add: isObjectValue_def jget_def)
  then show ?thesis using p by (simp add: spent_key_def outpointKeyOf_def numberText_def jnn_def text_of_def)
qed

text \<open>C24: A coin that an observed mempool transaction of the address spends is never a fee input, provided the mempool names
  its transaction by the lower-case id, as nodes print ids. (The selection lower-cases the id of a coin and the mempool
  observation does not: lemma \<open>upper_case_spend_selected\<close>.)\<close>

theorem pending_coin_not_selected:
  assumes "observePendingSpends (Some ask) address at = Inr (evidence, pending)" "ask address = Inr response"
    "selectV1FeeInputs maturity daa coins pending target = Inr s" "c \<in> set (fs_selected s)"
    "sending \<in> set (sending_of response address)" "input \<in> set (spendInputs sending)"
  shows "\<not> spends input (map to_lower (fc_transactionId c)) (fc_index c)"
proof
  assume "spends input (map to_lower (fc_transactionId c)) (fc_index c)"
  then have key: "spent_key input = Some (keyOf c)" by (simp add: spends_key keyOf_def)
  obtain n where d: "derivePendingSpentOutpoints response address = (pending, n)"
    using assms(1,2) by (auto simp: observePendingSpends_def Let_def split: prod.splits)
  have "c \<in># mset (filter (spendable maturity daa pending) coins)"
    using selection_core(3) [OF assms(3)] assms(4) by (metis mset_subset_eqD set_mset_mset)
  then have "keyOf c \<notin> set pending" by (auto simp: spendable_def exclusionOf_def split: if_splits)
  moreover have "keyOf c \<in> spent_keys (sending_of response address)" unfolding spent_keys_def using assms(5,6) key by force
  ultimately show False using pending_core [OF d] by simp
qed

definition ex_coin :: "char \<Rightarrow> int \<Rightarrow> V1FeeCoin" where
  "ex_coin c a = \<lparr>fc_transactionId = [c], fc_index = 0, fc_amountSompi = a, fc_scriptPublicKey = [], fc_blockDaaScore = None,
     fc_isCoinbase = None, fc_covenantId = None\<rparr>"

definition ex_coins :: "V1FeeCoin list" where
  "ex_coins = [ex_coin (CHR ''a'') 5, ex_coin (CHR ''b'') 9, ex_coin (CHR ''c'') 7]"

definition ex_mempool :: json where
  "ex_mempool = JObj [(''entries'', JArr [JObj [(''address'', JStr ''k''), (''sending'', JArr [JObj [(''transaction'', JObj [(''inputs'',
     JArr [JObj [(''previousOutpoint'', JObj [(''transactionId'', JStr ''b''), (''index'', JNum 0)])]])])]])]])]"

definition ex_evidence :: PendingSpendEvidence where
  "ex_evidence = \<lparr>pe_address = ''k'', pe_observedAtDaaScore = None, pe_sendingEntries = 1, pe_excludedOutpoints = [''b:0'']\<rparr>"

definition ex_selection :: V1FeeSelection where
  "ex_selection = \<lparr>fs_selected = [ex_coin (CHR ''c'') 7, ex_coin (CHR ''a'') 5], fs_totalSompi = 12, fs_excluded = [(''b:0'', PendingCoin)]\<rparr>"

lemma ex_observed: "observePendingSpends (Some (\<lambda>a. Inr ex_mempool)) ''k'' None = Inr (ex_evidence, [''b:0''])"
  by code_simp

lemma ex_selected: "selectV1FeeInputs 100 1000 ex_coins [''b:0''] 10 = Inr ex_selection"
  by code_simp

theorem fee_inputs_cover_witness: "10 \<le> fs_totalSompi ex_selection"
  using fee_inputs_cover [where maturity = 100 and daa = 1000 and coins = ex_coins and pending = "[''b:0'']" and target = 10] unfolding ex_selected sum.case by blast

lemma ex_keys: "inj_on keyOf (set ex_coins)"
  by (simp add: ex_coins_def ex_coin_def keyOf_def to_lower_def)

theorem fee_inputs_order_free_witness:
  "selectV1FeeInputs 100 1000 ex_coins [''b:0''] 10 = selectV1FeeInputs 100 1000 (rev ex_coins) [''b:0''] 10"
  by (rule fee_inputs_order_free [OF _ ex_keys]) simp

definition ex_sending :: json where
  "ex_sending = JObj [(''transaction'', JObj [(''inputs'', JArr [JObj [(''previousOutpoint'', JObj [(''transactionId'', JStr ''b''), (''index'', JNum 0)])]])])]"

definition ex_spending_input :: json where
  "ex_spending_input = JObj [(''previousOutpoint'', JObj [(''transactionId'', JStr ''b''), (''index'', JNum 0)])]"

lemma ex_sent: "sending_of ex_mempool ''k'' = [ex_sending]" "spendInputs ex_sending = [ex_spending_input]"
  by code_simp+

theorem pending_coin_not_selected_witness:
  "\<not> spends ex_spending_input (map to_lower (fc_transactionId (ex_coin (CHR ''c'') 7))) (fc_index (ex_coin (CHR ''c'') 7))"
  by (rule pending_coin_not_selected [OF ex_observed _ ex_selected, of ex_mempool _ ex_sending]) (simp_all add: ex_selection_def ex_sent)

text \<open>The mempool spends the output 0 of \<open>B\<close>, written in upper case, and the coin of that very outpoint is selected.\<close>

lemma upper_case_spend_selected:
  "outpointKeyOf (JObj [(''transactionId'', JStr ''B''), (''index'', JNum 0)]) = Some ''B:0''"
  "selectV1FeeInputs 100 1000 [ex_coin (CHR ''B'') 9] [''B:0''] 5 =
     Inr \<lparr>fs_selected = [ex_coin (CHR ''B'') 9], fs_totalSompi = 9, fs_excluded = []\<rparr>"
  by code_simp+

end
