(* ===== verification/HK_Generator.thy ===== *)
theory HK_Generator
  imports HK_Coins HK_Money
begin

text \<open>
  Plans made by the SDK's Generator: \<open>packages/tx-builder/src/generator-plan.ts\<close>, with the refusal of covenant
  entries of \<open>kaspa-wallet-adapter.ts\<close>.

  The Generator, the SDK's addresses and SHA-256 are parameters, the fields of \<open>GeneratorSdk\<close>: nothing is assumed
  of what the Generator answers, a negative change included. A thrown error is its code, or its message where it has none.
\<close>

record GeneratorEntry =
  ge_address :: "string option"
  ge_transactionId :: string
  ge_index :: "int option"
  ge_amount :: int
  ge_scriptPublicKey :: string
  ge_blockDaaScore :: int
  ge_isCoinbase :: bool

record GeneratorSettings =
  gs_networkId :: string
  gs_entries :: "GeneratorEntry list"
  gs_changeAddress :: string
  gs_outputs :: "(string \<times> int) list option"
  gs_priorityFee :: "int option"
  gs_feeRate :: "int option"
  gs_payload :: "string option"

record PendingTransaction =
  pt_inputs :: "(string \<times> int option) list"
  pt_changeAmount :: "int option"
  pt_feeAmount :: int
  pt_mass :: int

text \<open>\<open>gk_simAddress\<close> is the address re-encoded with the prefix of simnet, \<open>gk_standIn\<close> the fixed simnet address.\<close>

record GeneratorSdk =
  gk_validate :: "string \<Rightarrow> bool"
  gk_prefix :: "string \<Rightarrow> string"
  gk_simAddress :: "string \<Rightarrow> string"
  gk_standIn :: string
  gk_payToAddressScript :: "string \<Rightarrow> SdkScript result"
  gk_sha256 :: "string \<Rightarrow> string"
  gk_generate :: "GeneratorSettings \<Rightarrow> PendingTransaction list result"

record GeneratorPlanRequest =
  gr_networkId :: "string option"
  gr_utxos :: "Utxo list"
  gr_outputs :: "(string \<times> int) list"
  gr_changeAddress :: string
  gr_feeRate :: "int option"
  gr_payload :: "string option"
  gr_syntheticIdentities :: bool

record GeneratorPlanOutcome =
  go_inputs :: "Utxo list"
  go_outputs :: "(string \<times> int) list"
  go_changeSompi :: int
  go_feeSompi :: int
  go_mass :: int

subsection \<open>Scripts and addresses\<close>

text \<open>\<open>n.toString(16)\<close>.\<close>

fun radixText :: "nat \<Rightarrow> string" where
  "radixText n = (if n < 16 then [hex_digit n] else radixText (n div 16) @ [hex_digit (n mod 16)])"

definition versionText :: "int \<Rightarrow> string" where
  "versionText v = (if v < 0 then CHR ''-'' # radixText (nat (- v)) else radixText (nat v))"

definition scriptHexOf :: "GeneratorSdk \<Rightarrow> string \<Rightarrow> string result" where
  "scriptHexOf k address =
     bindE (gk_payToAddressScript k address) (\<lambda>spk. Inr (padStart 4 (CHR ''0'') (versionText (sc_version spk)) @ sc_script spk))"

text \<open>A UTXO's script is a text here: the branch of \<open>ownScriptHex\<close> for a script object does not arise.\<close>

definition ownScriptHex :: "string \<Rightarrow> string option" where
  "ownScriptHex spk =
     (if spk = [] \<or> odd (length spk) \<or> \<not> list_all is_hex spk then None
      else if starts_with spk ''0000'' then Some spk else Some (''0000'' @ spk))"

definition addressFor :: "GeneratorSdk \<Rightarrow> bool \<Rightarrow> string \<Rightarrow> string" where
  "addressFor k synthetic address =
     (if \<not> synthetic then address
      else if \<not> gk_validate k address then gk_standIn k
      else if gk_prefix k address = ''kaspasim'' then address
      else gk_simAddress k address)"

definition utxoCovenantId :: "Utxo \<Rightarrow> string option" where
  "utxoCovenantId u = idOfText (ux_covenantId u)"

definition indexText :: "int option \<Rightarrow> string" where
  "indexText i = (case i of Some n \<Rightarrow> int_str n | None \<Rightarrow> ''NaN'')"

definition generatorTxId :: "GeneratorSdk \<Rightarrow> bool \<Rightarrow> Utxo \<Rightarrow> string" where
  "generatorTxId k synthetic u =
     (let txid = op_transactionId (ux_outpoint u) in if synthetic \<and> \<not> is_hex64 txid then gk_sha256 k txid else txid)"

definition generatorKey :: "string \<Rightarrow> int option \<Rightarrow> string" where
  "generatorKey txid index = map to_lower txid @ '':'' @ indexText index"

definition generatorEntry :: "GeneratorSdk \<Rightarrow> bool \<Rightarrow> Utxo \<Rightarrow> GeneratorEntry result" where
  "generatorEntry k synthetic u =
     (let address = (if synthetic then addressFor k synthetic (ux_address u) else ux_address u) in
      bindE (case (if synthetic then None else ownScriptHex (ux_scriptPublicKey u)) of
               Some script \<Rightarrow> Inr script
             | None \<Rightarrow> scriptHexOf k address) (\<lambda>script.
        Inr \<lparr>ge_address = (if address = [] then None else Some address), ge_transactionId = generatorTxId k synthetic u,
             ge_index = op_index (ux_outpoint u), ge_amount = ux_amountSompi u, ge_scriptPublicKey = script,
             ge_blockDaaScore = (case ux_blockDaaScore u of Some d \<Rightarrow> d | None \<Rightarrow> 0),
             ge_isCoinbase = (ux_isCoinbase u = Some True)\<rparr>))"

text \<open>\<open>byKey\<close>: a later UTXO with the same outpoint replaces an earlier one.\<close>

definition candidatesByKey :: "GeneratorSdk \<Rightarrow> bool \<Rightarrow> Utxo list \<Rightarrow> (string \<times> Utxo) list" where
  "candidatesByKey k synthetic utxos =
     foldl (\<lambda>m u. AList.update (generatorKey (generatorTxId k synthetic u) (op_index (ux_outpoint u))) u m) [] utxos"

subsection \<open>Refusals of the Generator\<close>

definition mentions :: "string \<Rightarrow> string \<Rightarrow> bool" where
  "mentions needle message \<longleftrightarrow> list_ex (\<lambda>i. starts_with (drop i (map to_lower message)) needle) [0..<Suc (length message)]"

fun coveredUntil :: "int \<Rightarrow> Utxo list \<Rightarrow> int \<Rightarrow> int" where
  "coveredUntil paid [] covered = covered"
| "coveredUntil paid (u # us) covered =
     (if covered + ux_amountSompi u > paid then covered + ux_amountSompi u else coveredUntil paid us (covered + ux_amountSompi u))"

definition generatorRefusal :: "string \<Rightarrow> GeneratorPlanRequest \<Rightarrow> string" where
  "generatorRefusal message request =
     (if mentions ''insufficient'' message then ''INSUFFICIENT_FUNDS_UPSTREAM''
      else if mentions ''storage mass exceeds maximum'' message \<or> mentions ''mass calculation error'' message then
        (case gr_outputs request of
           [] \<Rightarrow> ''OUTPUT_BELOW_STANDARD_AMOUNT''
         | o0 # os \<Rightarrow>
             (let paid = sum_list (map snd (o0 # os));
                  smallest = foldl (\<lambda>m x. if snd x < m then snd x else m) (snd o0) (o0 # os);
                  change = coveredUntil paid (gr_utxos request) 0 - paid
              in if change > 0 \<and> change \<le> smallest then ''CHANGE_BELOW_STANDARD_OUTPUT'' else ''OUTPUT_BELOW_STANDARD_AMOUNT''))
      else message)"

subsection \<open>The plan\<close>

definition generatorSettings :: "GeneratorSdk \<Rightarrow> GeneratorPlanRequest \<Rightarrow> GeneratorEntry list \<Rightarrow> GeneratorSettings" where
  "generatorSettings k request entries =
     (let synthetic = gr_syntheticIdentities request; payment = (gr_outputs request \<noteq> []) in
      \<lparr>gs_networkId = (if synthetic then ''simnet'' else case gr_networkId request of Some n \<Rightarrow> n | None \<Rightarrow> ''simnet''),
       gs_entries = entries,
       gs_changeAddress = addressFor k synthetic (gr_changeAddress request),
       gs_outputs = (if payment then Some (map (\<lambda>x. (addressFor k synthetic (fst x), snd x)) (gr_outputs request)) else None),
       gs_priorityFee = (if payment then Some 0 else None),
       gs_feeRate = gr_feeRate request,
       gs_payload = (case gr_payload request of Some p \<Rightarrow> if p = [] then None else Some p | None \<Rightarrow> None)\<rparr>)"

text \<open>\<open>refuseCovenantEntries\<close> reads the entries the Generator gets, which have no field for a covenant id; it never refuses
  what \<open>planWithGenerator\<close> hands it.\<close>

definition selectedUtxo :: "(string \<times> Utxo) list \<Rightarrow> string \<times> int option \<Rightarrow> Utxo result" where
  "selectedUtxo byKey prev =
     (case map_of byKey (generatorKey (fst prev) (snd prev)) of
        Some u \<Rightarrow> Inr u
      | None \<Rightarrow> Inl ''UPSTREAM_PLANNER_UTXO_MISSING'')"

definition planOutcome :: "GeneratorSdk \<Rightarrow> GeneratorPlanRequest \<Rightarrow> PendingTransaction \<Rightarrow> GeneratorPlanOutcome result" where
  "planOutcome k request pt =
     bindE (mapE (selectedUtxo (candidatesByKey k (gr_syntheticIdentities request) (gr_utxos request))) (pt_inputs pt)) (\<lambda>inputs.
       let change = (case pt_changeAmount pt of Some c \<Rightarrow> c | None \<Rightarrow> 0);
           inSum = sum_list (map ux_amountSompi inputs); outSum = sum_list (map snd (gr_outputs request)) in
       if inSum \<noteq> outSum + change + pt_feeAmount pt then Inl ''GENERATOR_PLAN_INCONSISTENT''
       else Inr \<lparr>go_inputs = inputs, go_outputs = gr_outputs request, go_changeSompi = change, go_feeSompi = pt_feeAmount pt, go_mass = pt_mass pt\<rparr>)"

fun singleTransaction :: "PendingTransaction list \<Rightarrow> PendingTransaction result" where
  "singleTransaction [] = Inl ''UPSTREAM_PLANNER_EMPTY''"
| "singleTransaction [pt] = Inr pt"
| "singleTransaction (pt # pt' # pts) = Inl ''MULTI_TRANSACTION_PLAN_REQUIRED''"

definition planWithGenerator :: "GeneratorSdk \<Rightarrow> GeneratorPlanRequest \<Rightarrow> GeneratorPlanOutcome result" where
  "planWithGenerator k request =
     (if list_ex (\<lambda>u. utxoCovenantId u \<noteq> None) (gr_utxos request) then Inl ''COVENANT_UTXO_NOT_PAYMENT_INPUT''
      else bindE (mapE (generatorEntry k (gr_syntheticIdentities request)) (gr_utxos request)) (\<lambda>entries.
        case gk_generate k (generatorSettings k request entries) of
          Inl e \<Rightarrow> Inl (generatorRefusal e request)
        | Inr txs \<Rightarrow> bindE (singleTransaction txs) (planOutcome k request)))"

definition planPaymentWithGenerator :: "GeneratorSdk \<Rightarrow> GeneratorPlanRequest \<Rightarrow> int option \<Rightarrow> TxPlan result" where
  "planPaymentWithGenerator k request version =
     bindE (planWithGenerator k request) (\<lambda>outcome.
       Inr \<lparr>pl_version = (case version of Some v \<Rightarrow> v | None \<Rightarrow> 0), pl_inputs = go_inputs outcome,
            pl_outputs = map (\<lambda>x. \<lparr>to_address = fst x, to_amountSompi = snd x, to_scriptPublicKey = None, to_covenant = None\<rparr>) (go_outputs outcome),
            pl_change = (if go_changeSompi outcome > 0
                         then Some \<lparr>to_address = gr_changeAddress request, to_amountSompi = go_changeSompi outcome, to_scriptPublicKey = None, to_covenant = None\<rparr>
                         else None),
            pl_estimatedMass = go_mass outcome, pl_estimatedFeeSompi = go_feeSompi outcome,
            pl_computeBudget = None, pl_storageMass = None, pl_lane = None\<rparr>)"

declare radixText.simps [simp del]

subsection \<open>What is accepted, whatever the Generator answers\<close>

lemma candidates_known:
  "map_of (candidatesByKey k synthetic utxos) key = Some u \<Longrightarrow>
   u \<in> set utxos \<and> key = generatorKey (generatorTxId k synthetic u) (op_index (ux_outpoint u))"
proof -
  have "map_of (foldl (\<lambda>m u. AList.update (generatorKey (generatorTxId k synthetic u) (op_index (ux_outpoint u))) u m) m us) key = Some u \<Longrightarrow>
    map_of m key = Some u \<or> (u \<in> set us \<and> key = generatorKey (generatorTxId k synthetic u) (op_index (ux_outpoint u)))" for m us
  proof (induction us arbitrary: m)
    case Nil
    then show ?case by simp
  next
    case (Cons a us)
    from Cons.IH [OF Cons.prems [unfolded foldl_Cons]] show ?case by (auto simp: update_conv split: if_splits)
  qed
  then show "map_of (candidatesByKey k synthetic utxos) key = Some u \<Longrightarrow>
    u \<in> set utxos \<and> key = generatorKey (generatorTxId k synthetic u) (op_index (ux_outpoint u))"
    unfolding candidatesByKey_def by fastforce
qed

lemma mapE_member: "mapE f xs = Inr ys \<Longrightarrow> y \<in> set ys \<Longrightarrow> \<exists>x \<in> set xs. f x = Inr y"
  by (induction xs arbitrary: ys) auto

lemma singleTransaction_Inr: "singleTransaction txs = Inr pt \<longleftrightarrow> txs = [pt]"
  by (cases txs rule: singleTransaction.cases) auto

lemma planWithGenerator_core:
  assumes "planWithGenerator k request = Inr outcome"
  shows "set (go_inputs outcome) \<subseteq> set (gr_utxos request)" "go_outputs outcome = gr_outputs request"
    "list_all (\<lambda>u. utxoCovenantId u = None) (go_inputs outcome)"
    "sum_list (map ux_amountSompi (go_inputs outcome)) = sum_list (map snd (gr_outputs request)) + go_changeSompi outcome + go_feeSompi outcome"
    "\<exists>entries pt. gk_generate k (generatorSettings k request entries) = Inr [pt] \<and> planOutcome k request pt = Inr outcome"
proof -
  obtain entries where free: "\<not> list_ex (\<lambda>u. utxoCovenantId u \<noteq> None) (gr_utxos request)"
    and ok: "(case gk_generate k (generatorSettings k request entries) of
        Inl e \<Rightarrow> Inl (generatorRefusal e request) | Inr txs \<Rightarrow> bindE (singleTransaction txs) (planOutcome k request)) = Inr outcome"
    using assms unfolding planWithGenerator_def bindE_Inr by (metis (no_types, lifting) Inl_Inr_False bindE_Inr)
  then obtain pt where gen: "gk_generate k (generatorSettings k request entries) = Inr [pt]" and out: "planOutcome k request pt = Inr outcome"
    by (cases "gk_generate k (generatorSettings k request entries)") (auto simp: singleTransaction_Inr)
  obtain inputs where ins: "mapE (selectedUtxo (candidatesByKey k (gr_syntheticIdentities request) (gr_utxos request))) (pt_inputs pt) = Inr inputs"
    and o: "go_inputs outcome = inputs" "go_outputs outcome = gr_outputs request"
      "sum_list (map ux_amountSompi inputs) = sum_list (map snd (gr_outputs request)) + go_changeSompi outcome + go_feeSompi outcome"
    using out by (auto simp: planOutcome_def Let_def split: if_splits)
  show sub: "set (go_inputs outcome) \<subseteq> set (gr_utxos request)"
  proof
    fix u assume "u \<in> set (go_inputs outcome)"
    then obtain prev where "selectedUtxo (candidatesByKey k (gr_syntheticIdentities request) (gr_utxos request)) prev = Inr u"
      using mapE_member [OF ins] o(1) by blast
    then show "u \<in> set (gr_utxos request)" using candidates_known by (auto simp: selectedUtxo_def split: option.splits)
  qed
  show "list_all (\<lambda>u. utxoCovenantId u = None) (go_inputs outcome)" using free sub by (auto simp: list_all_iff list_ex_iff)
  show "go_outputs outcome = gr_outputs request"
    "sum_list (map ux_amountSompi (go_inputs outcome)) = sum_list (map snd (gr_outputs request)) + go_changeSompi outcome + go_feeSompi outcome"
    using o by simp_all
  show "\<exists>entries pt. gk_generate k (generatorSettings k request entries) = Inr [pt] \<and> planOutcome k request pt = Inr outcome" using gen out by blast
qed

definition reportedChange :: "PendingTransaction \<Rightarrow> int" where
  "reportedChange pt = (case pt_changeAmount pt of Some c \<Rightarrow> c | None \<Rightarrow> 0)"

text \<open>C22: Whatever the Generator answers, an accepted payment plan rests on one transaction of the answer, pays exactly the
  requested outputs, spends only candidate UTXOs, none of them a covenant's, and its inputs are worth the outputs, the change
  that transaction reports and its fee. The plan records a positive change, to the change address, and no other; so the
  plan itself conserves value exactly when the reported change is not negative. (The SDK's amounts are unsigned;
  \<open>planPaymentWithGenerator\<close> would drop a negative change.)\<close>

theorem generator_plan_conserves:
  assumes "planPaymentWithGenerator k request version = Inr plan"
  shows "map (\<lambda>x. (to_address x, to_amountSompi x)) (pl_outputs plan) = gr_outputs request \<and>
    set (pl_inputs plan) \<subseteq> set (gr_utxos request) \<and> list_all (\<lambda>u. utxoCovenantId u = None) (pl_inputs plan) \<and>
    (\<exists>entries pt. gk_generate k (generatorSettings k request entries) = Inr [pt] \<and> pl_estimatedFeeSompi plan = pt_feeAmount pt \<and>
      map_option (\<lambda>c. (to_address c, to_amountSompi c)) (pl_change plan) =
        (if reportedChange pt > 0 then Some (gr_changeAddress request, reportedChange pt) else None) \<and>
      sum_list (map ux_amountSompi (pl_inputs plan)) = sum_list (map to_amountSompi (pl_outputs plan)) + reportedChange pt + pt_feeAmount pt \<and>
      (sum_list (map ux_amountSompi (pl_inputs plan)) =
         sum_list (map to_amountSompi (pl_outputs plan)) + (case pl_change plan of Some c \<Rightarrow> to_amountSompi c | None \<Rightarrow> 0) + pl_estimatedFeeSompi plan
       \<longleftrightarrow> 0 \<le> reportedChange pt))"
proof -
  obtain outcome where out: "planWithGenerator k request = Inr outcome"
    and p: "pl_inputs plan = go_inputs outcome"
      "pl_outputs plan = map (\<lambda>x. \<lparr>to_address = fst x, to_amountSompi = snd x, to_scriptPublicKey = None, to_covenant = None\<rparr>) (go_outputs outcome)"
      "pl_estimatedFeeSompi plan = go_feeSompi outcome"
      "pl_change plan = (if go_changeSompi outcome > 0 then Some \<lparr>to_address = gr_changeAddress request, to_amountSompi = go_changeSompi outcome,
         to_scriptPublicKey = None, to_covenant = None\<rparr> else None)"
    using assms by (auto simp: planPaymentWithGenerator_def)
  note core = planWithGenerator_core [OF out]
  obtain entries pt where gen: "gk_generate k (generatorSettings k request entries) = Inr [pt]" and po: "planOutcome k request pt = Inr outcome"
    using core(5) by blast
  have pt: "go_changeSompi outcome = reportedChange pt" "go_feeSompi outcome = pt_feeAmount pt"
    using po by (auto simp: planOutcome_def reportedChange_def Let_def split: if_splits)
  have outs: "map to_amountSompi (pl_outputs plan) = map snd (gr_outputs request)" using p(2) core(2) by (simp add: o_def)
  show ?thesis unfolding p(1,3,4) outs pt [symmetric] core(4) using core(1-3) gen p(2) pt by (auto simp: o_def)
qed

definition ex_utxo :: Utxo where
  "ex_utxo = \<lparr>ux_outpoint = \<lparr>op_transactionId = ''ab'', op_index = Some 0\<rparr>, ux_address = ''q'', ux_amountSompi = 100, ux_scriptPublicKey = ''51'',
     ux_blockDaaScore = None, ux_isCoinbase = None, ux_covenantId = None, ux_lane = None\<rparr>"

definition ex_generator :: GeneratorSdk where
  "ex_generator = \<lparr>gk_validate = (\<lambda>a. True), gk_prefix = (\<lambda>a. ''kaspasim''), gk_simAddress = (\<lambda>a. a), gk_standIn = ''s'',
     gk_payToAddressScript = (\<lambda>a. Inr \<lparr>sc_version = 0, sc_script = ''51''\<rparr>), gk_sha256 = (\<lambda>s. s),
     gk_generate = (\<lambda>s. Inr [\<lparr>pt_inputs = [(''AB'', Some 0)], pt_changeAmount = Some 30, pt_feeAmount = 10, pt_mass = 5\<rparr>])\<rparr>"

definition ex_gen_request :: GeneratorPlanRequest where
  "ex_gen_request = \<lparr>gr_networkId = None, gr_utxos = [ex_utxo], gr_outputs = [(''r'', 60)], gr_changeAddress = ''q'', gr_feeRate = None, gr_payload = None,
     gr_syntheticIdentities = False\<rparr>"

definition ex_generated :: TxPlan where
  "ex_generated = \<lparr>pl_version = 0, pl_inputs = [ex_utxo],
     pl_outputs = [\<lparr>to_address = ''r'', to_amountSompi = 60, to_scriptPublicKey = None, to_covenant = None\<rparr>],
     pl_change = Some \<lparr>to_address = ''q'', to_amountSompi = 30, to_scriptPublicKey = None, to_covenant = None\<rparr>, pl_estimatedMass = 5,
     pl_estimatedFeeSompi = 10, pl_computeBudget = None, pl_storageMass = None, pl_lane = None\<rparr>"

lemma ex_generated_plan: "planPaymentWithGenerator ex_generator ex_gen_request None = Inr ex_generated"
  by code_simp

theorem generator_plan_conserves_witness:
  "set (pl_inputs ex_generated) \<subseteq> set (gr_utxos ex_gen_request) \<and>
   (\<exists>entries pt. gk_generate ex_generator (generatorSettings ex_generator ex_gen_request entries) = Inr [pt] \<and>
      sum_list (map ux_amountSompi (pl_inputs ex_generated)) = sum_list (map to_amountSompi (pl_outputs ex_generated)) + reportedChange pt + pt_feeAmount pt)"
  using generator_plan_conserves [OF ex_generated_plan] by blast

end
