(* ===== verification/Spec2Isabelle.thy ===== *)
theory Spec2Isabelle
  imports HK_DagInv HK_Snapshot HK_PaymentProps HK_MoneyProps HK_TransferChain HK_Operation HK_SubmissionProps HK_VerifyProps
    HK_V1MassProps HK_V1PlanProps HK_CoinsProps HK_Generator
begin

text \<open>
  \<^bold>\<open>HardKAS.\<close> HardKAS is a developer environment for the Kaspa block DAG. Its core is deterministic and runs without a
  node: a GHOSTDAG simulator (\<open>packages/simulator\<close>), a simulated local network with a ledger of unspent outputs
  (\<open>packages/localnet\<close>), a payment planner with its verifier (\<open>packages/tx-builder\<close>), and artifacts, JSON documents
  sealed under a hash of their canonical form (\<open>packages/artifacts\<close>), with shared policies in \<open>packages/core\<close>. This
  development models that core and proves what it promises.

  \<^bold>\<open>How the parts interact.\<close> \<open>dag.ts\<close> hands every new block to the engine, which colours its mergeset over the store and
  the reachability walks; moving the sink resolves conflicting transactions along the DAG. On the ledger, a payment
  asks the planner for a plan and settles it; a plan may also be made elsewhere, sealed as an artifact, authorized by
  its payer and executed. Every execution yields a receipt that names plan, states and fee. A durable execution
  commits the new state with a record of what it owes, publishes snapshot, receipt and trace, and clears the record;
  recovery finishes what an interruption left. All these documents descend from the plan by their lineage, and all
  their identities are content hashes.

  \<^bold>\<open>Conventions.\<close> Errors are \<open>Inl\<close> with the message where a result records it, and otherwise with the error code. \<open>bigint\<close>
  is \<^typ>\<open>int\<close>, a decimal string is a \<^typ>\<open>string\<close> read by \<open>BigInt\<close>, numbers are integers inside the safe range or
  missing (\<open>NaN\<close>). Objects used as maps are association lists in insertion order; a value of type \<open>any\<close> is a \<open>json\<close>.
  Code units are below 256. What is not under \<open>src/\<close> is a parameter: SHA-256 (\<open>sha\<close>), the clock, dates, paths and
  \<open>JSON.parse\<close> (\<open>Host\<close>), the \<open>kaspa-wasm\<close> SDK (\<open>Sdk\<close>), the Zod library (\<open>accepts\<close>), and the lookup of artifacts on disk.

  \<^bold>\<open>Theories.\<close>
  \<^item> \<open>HK_Prelude\<close>: results, decimal strings, maps, sorting with comparators; the locales \<open>js_comparator\<close> and \<open>keyed_comparator\<close>
    (a comparator by a key makes sorting independent of the order of arrival), interpreted on every comparator of the code.
  \<^item> \<open>HK_Ghostdag\<close> (\<open>ghostdag-types.ts\<close>, \<open>ghostdag-store.ts\<close>, \<open>ordering.ts\<close>): blocks, the store with the locale
    \<open>ghostdag_store\<close> of its laws, the block order.
  \<^item> \<open>HK_Reachability\<close> (\<open>reachability.ts\<close>): the breadth-first walks end and compute reachability, the mergeset.
  \<^item> \<open>HK_Engine\<close> (\<open>ghostdag-engine.ts\<close>): colouring, blue score and work; the blues are a k-cluster as far as the code's test
    guarantees, the mergeset is partitioned, blue work grows along every edge.
  \<^item> \<open>HK_Dag\<close>, \<open>HK_DagInv\<close> (\<open>dag.ts\<close>): creation, \<open>addSimulatedBlock\<close>, \<open>moveSink\<close> and the queries. The invariant is kept by every
    step of a session (an inductive relation); after \<open>moveSink\<close> no two accepted transactions spend the same outpoint, and
    every transaction is accounted for. The selected path is a \<open>partial_function\<close> in \<open>option\<close>, since the code's loop may
    run forever; on every reachable state it is proved to return.
  \<^item> \<open>HK_Canonical\<close>, \<open>HK_CanonicalProps\<close> (\<open>canonical.ts\<close>, \<open>domain-digest.ts\<close>): serialization, exclusions, content hashes. The serializer
    refines an abstract canonical form; two stored artifacts with the same content hash hold the same values wherever
    version 5 authenticates, or exhibit a collision of the digest.
  \<^item> \<open>HK_Localnet\<close>, \<open>HK_LocalnetProps\<close> (\<open>accounts.ts\<close>, \<open>state.ts\<close>, \<open>balance.ts\<close>, \<open>faucet.ts\<close>, \<open>simulated-chain.ts\<close>): the ledger and its invariant.
  \<^item> \<open>HK_Snapshot\<close> (\<open>snapshot.ts\<close>): digests, snapshots and their restoration; a round trip, and rejection of tampering.
  \<^item> \<open>HK_Mass\<close>, \<open>HK_Payment\<close>, \<open>HK_PaymentProps\<close>, \<open>HK_PlanVerify\<close> (\<open>mass.ts\<close>, \<open>index.ts\<close>, \<open>verify.ts\<close> of the builder): a plan conserves value, covers the
    fee of the transaction as built, passes the verifier, is found whenever the candidates can pay (if the SDK measures
    the transactions it is asked about), and does not depend on the order of its arguments. The selection loop is verified in the locales \<open>fee_quotes\<close> and \<open>fee_quotes_total\<close>.
    The fee loop has the eight passes of the code.
  \<^item> \<open>HK_Money\<close>, \<open>HK_MoneyProps\<close> (\<open>money.ts\<close>, \<open>fee-guard.ts\<close>, \<open>mainnet-policy.ts\<close>, \<open>confirmation-policy.ts\<close>, \<open>kaspa-uri.ts\<close>): parsing and printing, limits, guards.
  \<^item> \<open>HK_Json\<close>, \<open>HK_Lineage\<close> (\<open>lineage.ts\<close>), \<open>HK_Redact\<close> (\<open>security.ts\<close>): values of type \<open>any\<close>, lineage checks, redaction of URLs.
  \<^item> \<open>HK_SignedTx\<close> (\<open>workflow-id.ts\<close>, \<open>tx-plan.ts\<close>, \<open>signed-tx.ts\<close>): plan, authorization and receipt artifacts and the check of an
    authorization.
  \<^item> \<open>HK_Transactions\<close>, \<open>HK_TransactionsProps\<close> (\<open>transactions.ts\<close>): payments and executions. An execution refines a step of the abstract
    ledger, a finite map from unspent outpoints to owner and amount; the unspent value moves by a balance equation, which is
    conservation up to the fee for a plan that names each input once with its amount; nothing is spent twice in any
    sequence of payments and executions, and a failure changes nothing.
  \<^item> \<open>HK_Recovery\<close>, \<open>HK_RecoveryProps\<close> (\<open>pending-execution.ts\<close>, \<open>traces.ts\<close>, and the store entries of \<open>store.ts\<close>): an operation is the list of its
    atomic writes, an interruption a prefix of it. A transition can be undone, and however often commit and recovery
    are interrupted, recovery ends in the disk of the uninterrupted commit.
  \<^item> \<open>HK_ArtifactProps\<close>: properties that span the artifacts: an accepted authorization is bound to its plan, what is created
    passes the check, and plan, authorization, receipt and trace form one lineage.
  \<^item> \<open>HK_Diff\<close> (\<open>diff.ts\<close>): the comparison of two artifacts decides agreement outside the excluded keys, and leaks nothing of secret
    fields into the entries it records.
  \<^item> \<open>HK_Identity\<close>, \<open>HK_Resolve\<close>, \<open>HK_ResolveProps\<close> (\<open>resolve.ts\<close>): the identity check and the resolver over the entries of the store. A
    lookup answers with one verified identity or not at all; lists and counts of artifacts agree.
  \<^item> \<open>HK_Replay\<close>, \<open>HK_ReplayProps\<close> (\<open>localnet/src/replay.ts\<close>): a replay executes the plan again and compares. A stored receipt of the
    simulator is reproduced on every later ledger, and a replay without divergence certifies the receipt.
  \<^item> \<open>HK_Chain\<close>, \<open>HK_ChainProps\<close>, \<open>HK_TransferChain\<close> (\<open>lineage-chain.ts\<close>): parents are looked up and chains walked in at most the given
    number of hops (64 in the code), so the walk ends. A chain is complete exactly when it has a verified provenance
    (locale \<open>verified_source\<close>, of a lookup that answers with the identity asked for); the chain of a stored transfer is.
  \<^item> \<open>HK_Zod\<close>, \<open>HK_Schema\<close>, \<open>HK_SilverSchema\<close>, \<open>HK_ZkSchema\<close> (\<open>schemas.ts\<close>): the schemas of the artifacts as values of a datatype of Zod's combinators. Whether a schema
    accepts a value is a parameter, with the documented meaning of the combinators as the locale \<open>zod\<close>; an executable
    reference interprets it.
  \<^item> \<open>HK_TxObservation\<close>, \<open>HK_TxStatus\<close>, \<open>HK_TxStatusProps\<close>, \<open>HK_TxHistory\<close> (\<open>tx-observation.ts\<close>, \<open>tx-status.ts\<close>, \<open>kaspa-params.ts\<close>): observations, the history of
    every observer and the status derived from a submission and a collection of observations. The status does not depend
    on the order of the evidence, a status on the chain rests on coherent observations at the depth the policy asks for,
    and the history of an observer depends on its own observations only.
  \<^item> \<open>HK_Operation\<close> (\<open>operation-status.ts\<close>): covenants and zero-knowledge spends; a covenant advances only on an observation of its
    transaction in a block, or as a simulation that is never final.
  \<^item> \<open>HK_Submission\<close>, \<open>HK_SubmissionProps\<close> (\<open>submission-fee.ts\<close>): the signed payload against its plan and the fee of a submission. Addresses
    are decoded with 32-bit words, shown to read their digits in base 32. A derived fee belongs to the authorized
    transaction, each outpoint priced once, and what is recorded has the type the schema asks for.
  \<^item> \<open>HK_Verify\<close>, \<open>HK_VerifyProps\<close> (\<open>verify.ts\<close>): the integrity check of an artifact. What passes is authentic and of its schema, and a
    sealed observation passes.
  \<^item> \<open>HK_V1Mass\<close>, \<open>HK_V1MassProps\<close> (\<open>v1-mass.ts\<close>, \<open>v1-budgets.ts\<close>): size, masses, relay floor and compute budgets of a version 1 transaction. The
    storage mass with its 64-bit checks is the KIP-9 formula over unbounded integers; the floor is 100 sompi per gram;
    an estimated budget is the least sufficient one; the script scanner, whose recursion ends because every step
    consumes a byte, inverts an encoder.
  \<^item> \<open>HK_V1Plan\<close>, \<open>HK_V1PlanProps\<close> (\<open>v1-plan.ts\<close>): the shape of a version 1 plan. An accepted plan accounts for its value, names the
    outputs of its groups and of its transitions once, and has no field with the name of a secret outside the exempt ones; an argument its schema accepts passes its check.
  \<^item> \<open>HK_Coins\<close>, \<open>HK_CoinsProps\<close> (\<open>covenant-utxos.ts\<close>, \<open>pending-spends.ts\<close>, \<open>v1-fee-inputs.ts\<close>, \<open>utxo-mapper.ts\<close>): which coins may be spent, and the greedy
    choice among them; it covers the target, depends on the set of coins only and never takes one that the
    observed mempool spends under its lower-case id.
  \<^item> \<open>HK_Generator\<close> (\<open>generator-plan.ts\<close>): plans of the SDK's Generator, which is a parameter. Whatever it answers, an accepted plan
    spends candidates only and balances with the change the answer reports, so it conserves value unless that is negative.

  \<^bold>\<open>Not modelled.\<close> The command line, the SDK facade, servers and user interfaces (orchestration and presentation); RPC, node
  and storage back ends (I/O); SilverScript and covenants, keys and signatures (external compilers, script engine and
  cryptography); migrations, and the semantic audit over the integrity check; reading directories and files (the resolver works on the parsed entries);
  \<open>getDagColoring\<close>, the free-text redactions and the shape-only mass breakdown. Descriptive texts of errors that no
  result records are left out. Fractions, surrogates and code units above 255 are outside the model.
\<close>

end
